(* ===== verification/CtaPrelude.thy ===== *)
theory CtaPrelude
  imports Main "HOL-Library.Word" "HOL-Library.Multiset"
begin

text \<open>
  Shared vocabulary of the development: the widths of the C++ integers, the exceptions the object
  store code throws, the two effect types the models are written in (a pure computation that may
  throw, and a computation over a state that may throw and keeps the state it reached), and the
  list, multiset and word lemmas the component theories share.
\<close>

section \<open>Machine integers\<close>

type_synonym u64 = "64 word"
type_synonym u32 = "32 word"

text \<open>\<open>time_t\<close> is a signed 64 bit integer; it is kept as the 64 bit pattern and read with \<open>sint\<close>.\<close>

type_synonym time_t = "64 word"

definition time_t_max :: time_t where
  "time_t_max = 0x7FFFFFFFFFFFFFFF"

definition time_t_min :: time_t where
  "time_t_min = 0x8000000000000000"

text \<open>The narrowing cast \<open>(uint16_t) x\<close>, whose result the callers store in a 32 bit field.\<close>

definition as_uint16 :: "u32 \<Rightarrow> u32" where
  "as_uint16 x = ucast (ucast x :: 16 word)"

section \<open>Exceptions\<close>

text \<open>
  One constructor per exception class the modelled code throws. \<open>CtaException\<close> is the base class
  \<open>cta::exception::Exception\<close>, which the code distinguishes only by its message: the string names
  the throwing function. \<open>StdOutOfRange\<close> is \<open>std::out_of_range\<close> and \<open>StdRuntimeError\<close> \<open>std::runtime_error\<close>, which are not of these classes,
  \<open>Segfault\<close> is the dereference of a null pointer, and \<open>OutOfFuel\<close> is not an
  exception of the program: it is what a bounded loop returns when its bound was too small, and every
  theorem about such a loop shows that it does not occur.
\<close>

datatype exn =
    NoSuchObject
  | Errnum
  | CtaException string
  | AddressNotSet
  | NotLocked
  | WrongType
  | NotNewObject
  | NewObject
  | NotFetched
  | NotInitialized
  | AddressAlreadySet
  | InvalidAddress
  | StillLocked
  | AlreadyLocked
  | MissingAddress
  | NotEmpty
  | NoSuchJob
  | JobNotQueueable
  | WrongPreviousOwner
  | CouldNotLock
  | CouldNotUnlock
  | CouldNotFetch
  | CouldNotCommit
  | CouldNotDelete
  | AsyncUpdateWithDelete
  | SerializersNotFound
  | ForbiddenOperation
  | AgentStillOwnsObjects
  | NotAllocated
  | ArchiveQueueNotEmpty
  | WrongArchiveQueue
  | NoSuchArchiveQueue
  | RetrieveQueueNotEmpty
  | WrongRetrieveQueue
  | NoSuchRetrieveQueue
  | DriveRegisterNotEmpty
  | AgentRegisterNotEmpty
  | RepackQueueNotEmpty
  | NoSuchRepackQueue
  | NoSuchDrive
  | NoSuchVID
  | VidAlreadyRegistered
  | NoSuchContainer
  | NoTapeAvailableForRetrieve
  | RetrieveRequestHasNoCopies
  | UnsupportedType
  | StdOutOfRange
  | StdRuntimeError
  | Segfault
  | OutOfFuel

section \<open>Effects\<close>

named_theorems prog_simps

text \<open>A pure computation that may throw.\<close>

definition rbind :: "'e + 'a \<Rightarrow> ('a \<Rightarrow> 'e + 'b) \<Rightarrow> 'e + 'b" where
  "rbind r f = (case r of Inl e \<Rightarrow> Inl e | Inr x \<Rightarrow> f x)"

lemma rbind_simps [simp, prog_simps]:
  "rbind (Inl e) f = Inl e"
  "rbind (Inr x) f = f x"
  by (simp_all add: rbind_def)

lemma rbind_Inr_iff: "rbind r f = Inr y \<longleftrightarrow> (\<exists>x. r = Inr x \<and> f x = Inr y)"
  by (cases r) simp_all

text \<open>
  A computation over a state: an exception does not undo what was already written, so the state is
  returned in both cases.
\<close>

type_synonym ('s, 'a) prog = "'s \<Rightarrow> (exn + 'a) \<times> 's"

definition ret :: "'a \<Rightarrow> ('s, 'a) prog" where
  "ret x = (\<lambda>s. (Inr x, s))"

definition throw :: "exn \<Rightarrow> ('s, 'a) prog" where
  "throw e = (\<lambda>s. (Inl e, s))"

definition bnd :: "('s, 'a) prog \<Rightarrow> ('a \<Rightarrow> ('s, 'b) prog) \<Rightarrow> ('s, 'b) prog" where
  "bnd m f = (\<lambda>s. case m s of (Inl e, s') \<Rightarrow> (Inl e, s') | (Inr x, s') \<Rightarrow> f x s')"

definition liftr :: "exn + 'a \<Rightarrow> ('s, 'a) prog" where
  "liftr r = (\<lambda>s. (r, s))"

text \<open>Reading the state.\<close>

definition asks :: "('s \<Rightarrow> 'a) \<Rightarrow> ('s, 'a) prog" where
  "asks f = (\<lambda>s. (Inr (f s), s))"

text \<open>\<open>catch e m k\<close> is \<open>try { m } catch (e) { k }\<close>, where \<open>m\<close>'s value is wrapped in \<open>Some\<close>.\<close>

definition catch_none :: "exn \<Rightarrow> ('s, 'a) prog \<Rightarrow> ('s, 'a option) prog" where
  "catch_none e m = (\<lambda>s. case m s of
     (Inl e', s') \<Rightarrow> if e' = e then (Inr None, s') else (Inl e', s')
   | (Inr x, s') \<Rightarrow> (Inr (Some x), s'))"

text \<open>\<open>caught h m\<close>: \<open>try { m } catch\<close>, with the handler \<open>h\<close> for the exceptions it is defined on.\<close>

definition caught :: "(exn \<Rightarrow> ('s, 'a) prog option) \<Rightarrow> ('s, 'a) prog \<Rightarrow> ('s, 'a) prog" where
  "caught h m = (\<lambda>s. case m s of
     (Inl e, s') \<Rightarrow> (case h e of None \<Rightarrow> (Inl e, s') | Some k \<Rightarrow> k s')
   | (Inr x, s') \<Rightarrow> (Inr x, s'))"

lemma prog_apply [simp, prog_simps]:
  "ret x s = (Inr x, s)"
  "throw e s = (Inl e, s)"
  "liftr r s = (r, s)"
  "asks f s = (Inr (f s), s)"
  by (simp_all add: ret_def throw_def liftr_def asks_def)

lemma bnd_Inr [simp, prog_simps]: "m s = (Inr x, s') \<Longrightarrow> bnd m f s = f x s'"
  by (simp add: bnd_def)

lemma bnd_Inl [simp, prog_simps]: "m s = (Inl e, s') \<Longrightarrow> bnd m f s = (Inl e, s')"
  by (simp add: bnd_def)

lemma bnd_assoc: "bnd (bnd m f) g = bnd m (\<lambda>x. bnd (f x) g)"
  by (simp add: bnd_def fun_eq_iff split: prod.split sum.split)

lemma bnd_ret: "bnd (ret x) f = f x"
  by (simp add: bnd_def fun_eq_iff)

lemma bnd_liftr [simp, prog_simps]: "bnd (liftr (Inr x)) f = f x" "bnd (liftr (Inl e)) f = throw e"
  by (simp_all add: bnd_def fun_eq_iff)

lemma bnd_Inr_iff:
  "bnd m f s = (Inr y, s'') \<longleftrightarrow> (\<exists>x s'. m s = (Inr x, s') \<and> f x s' = (Inr y, s''))"
  by (auto simp: bnd_def split: prod.split sum.split)

lemma catch_none_simps [simp, prog_simps]:
  "m s = (Inr x, s') \<Longrightarrow> catch_none e m s = (Inr (Some x), s')"
  "m s = (Inl e, s') \<Longrightarrow> catch_none e m s = (Inr None, s')"
  "m s = (Inl e', s') \<Longrightarrow> e' \<noteq> e \<Longrightarrow> catch_none e m s = (Inl e', s')"
  by (simp_all add: catch_none_def)

lemma caught_simps [simp, prog_simps]:
  "m s = (Inr x, s') \<Longrightarrow> caught h m s = (Inr x, s')"
  "m s = (Inl e, s') \<Longrightarrow> caught h m s = (case h e of None \<Rightarrow> (Inl e, s') | Some k \<Rightarrow> k s')"
  by (simp_all add: caught_def)

text \<open>A \<open>for\<close> loop over a container with an accumulator, stopping at the first exception.\<close>

primrec foldM :: "('b \<Rightarrow> 'a \<Rightarrow> ('s, 'b) prog) \<Rightarrow> 'b \<Rightarrow> 'a list \<Rightarrow> ('s, 'b) prog" where
  "foldM f b [] = ret b"
| "foldM f b (x # xs) = bnd (f b x) (\<lambda>b'. foldM f b' xs)"

primrec foldR :: "('b \<Rightarrow> 'a \<Rightarrow> 'e + 'b) \<Rightarrow> 'b \<Rightarrow> 'a list \<Rightarrow> 'e + 'b" where
  "foldR f b [] = Inr b"
| "foldR f b (x # xs) = rbind (f b x) (\<lambda>b'. foldR f b' xs)"

lemma foldR_append: "foldR f b (xs @ ys) = rbind (foldR f b xs) (\<lambda>b'. foldR f b' ys)"
  by (induction xs arbitrary: b) (auto simp: rbind_def split: sum.split)

lemma foldM_append: "foldM f b (xs @ ys) = bnd (foldM f b xs) (\<lambda>b'. foldM f b' ys)"
  by (induction xs arbitrary: b) (simp_all add: bnd_ret bnd_assoc)

section \<open>Lists\<close>

text \<open>\<open>std::find_if\<close>: the index of the first element satisfying \<open>P\<close>, the length if there is none.\<close>

fun find_index :: "('a \<Rightarrow> bool) \<Rightarrow> 'a list \<Rightarrow> nat" where
  "find_index P [] = 0"
| "find_index P (x # xs) = (if P x then 0 else Suc (find_index P xs))"

lemma find_index_le [simp]: "find_index P xs \<le> length xs"
  by (induction xs) auto

lemma find_index_eq_length: "find_index P xs = length xs \<longleftrightarrow> (\<forall>x \<in> set xs. \<not> P x)"
  by (induction xs) auto

lemma find_index_less: "find_index P xs < length xs \<longleftrightarrow> (\<exists>x \<in> set xs. P x)"
  by (induction xs) auto

lemma find_index_nth: "find_index P xs < length xs \<Longrightarrow> P (xs ! find_index P xs)"
  by (induction xs) auto

lemma find_index_minimal: "i < find_index P xs \<Longrightarrow> \<not> P (xs ! i)"
  by (induction xs arbitrary: i) (auto simp: nth_Cons' split: if_splits)

lemma find_index_append_Cons:
  "\<forall>x \<in> set xs. \<not> P x \<Longrightarrow> P y \<Longrightarrow> find_index P (xs @ y # ys) = length xs"
  by (induction xs) auto

text \<open>
  \<open>RepeatedPtrField::SwapElements\<close> and the idiom, used by every container of the object store, that
  removes an element by swapping it down to the end and dropping the last element.
\<close>

definition swap_elements :: "nat \<Rightarrow> nat \<Rightarrow> 'a list \<Rightarrow> 'a list" where
  "swap_elements i j xs = xs[i := xs ! j, j := xs ! i]"

function push_to_end :: "nat \<Rightarrow> 'a list \<Rightarrow> 'a list" where
  "push_to_end i xs = (if Suc i < length xs then push_to_end (Suc i) (swap_elements i (Suc i) xs) else xs)"
  by pat_completeness auto
termination
  by (relation "measure (\<lambda>(i, xs). length xs - i)") (auto simp: swap_elements_def)

declare push_to_end.simps [simp del]

lemma length_swap_elements [simp]: "length (swap_elements i j xs) = length xs"
  by (simp add: swap_elements_def)

lemma swap_elements_adjacent: "swap_elements (length us) (Suc (length us)) (us @ x # y # vs) = us @ y # x # vs"
  by (simp add: swap_elements_def nth_append list_update_append)

lemma push_to_end_Cons: "push_to_end (length us) (us @ x # vs) = us @ vs @ [x]"
proof (induction vs arbitrary: us)
  case Nil
  then show ?case by (simp add: push_to_end.simps)
next
  case (Cons v vs)
  have "push_to_end (length us) (us @ x # v # vs) = push_to_end (length (us @ [v])) ((us @ [v]) @ x # vs)"
    by (subst push_to_end.simps) (simp add: swap_elements_adjacent)
  also have "\<dots> = (us @ [v]) @ vs @ [x]"
    by (rule Cons.IH)
  finally show ?case by simp
qed

lemma butlast_push_to_end: "butlast (push_to_end (length us) (us @ x # vs)) = us @ vs"
  by (simp add: push_to_end_Cons butlast_append)

lemma list_split_at: "i < length xs \<Longrightarrow> xs = take i xs @ xs ! i # drop (Suc i) xs"
  by (rule id_take_nth_drop)

lemma count_list_filter_0: "(\<forall>x \<in> set xs. x \<noteq> y) \<Longrightarrow> count_list xs y = 0"
  by (induction xs) auto

section \<open>Sums of words\<close>

lemma sum_list_of_nat_word: "(\<Sum>x\<leftarrow>xs. of_nat (f x)) = (of_nat (\<Sum>x\<leftarrow>xs. f x) :: 'w::len word)"
  by (induction xs) simp_all

lemma sum_list_map_filter_partition:
  fixes f :: "'a \<Rightarrow> 'b::ab_group_add"
  shows "(\<Sum>x\<leftarrow>filter P xs. f x) = (\<Sum>x\<leftarrow>xs. f x) - (\<Sum>x\<leftarrow>filter (\<lambda>x. \<not> P x) xs. f x)"
  by (induction xs) (simp_all add: algebra_simps)

lemma of_nat_word_eq_0_iff: "n < 2 ^ LENGTH('w) \<Longrightarrow> (of_nat n :: 'w::len word) = 0 \<longleftrightarrow> n = 0"
  by (auto simp: word_of_nat_eq_0_iff dest: nat_dvd_not_less)

lemma of_nat_word_inj:
  "m < 2 ^ LENGTH('w) \<Longrightarrow> n < 2 ^ LENGTH('w) \<Longrightarrow> (of_nat m :: 'w::len word) = of_nat n \<longleftrightarrow> m = n"
  by (simp add: word_of_nat_eq_iff take_bit_nat_eq_self)

section \<open>Decimal numbers\<close>

text \<open>\<open>operator<<\<close> of an unsigned integer on a string stream.\<close>

definition digit_char :: "nat \<Rightarrow> char" where
  "digit_char d = char_of (48 + d)"

fun dec_string :: "nat \<Rightarrow> string" where
  "dec_string n = (if n < 10 then [digit_char n] else dec_string (n div 10) @ [digit_char (n mod 10)])"

declare dec_string.simps [simp del]

lemma digit_char_inj: "d < 10 \<Longrightarrow> e < 10 \<Longrightarrow> digit_char d = digit_char e \<Longrightarrow> d = e"
  by (drule arg_cong [where f = "of_char :: char \<Rightarrow> nat"]) (simp add: digit_char_def)

lemma dec_string_nonempty [simp]: "dec_string n \<noteq> []" "[] \<noteq> dec_string n"
  by (subst dec_string.simps, simp)+

lemma dec_string_inj: "dec_string m = dec_string n \<Longrightarrow> m = n"
proof (induction m arbitrary: n rule: dec_string.induct)
  case (1 m)
  show ?case
  proof (cases "m < 10 \<or> n < 10")
    case True
    with "1.prems" show ?thesis
      by (auto simp: dec_string.simps [of m] dec_string.simps [of n]
               split: if_splits dest: digit_char_inj)
  next
    case False
    with "1.prems" have "dec_string (m div 10) = dec_string (n div 10)" and "m mod 10 = n mod 10"
      by (auto simp: dec_string.simps [of m] dec_string.simps [of n] intro: digit_char_inj)
    with "1.IH" False have "m div 10 = n div 10" "m mod 10 = n mod 10" by auto
    then show ?thesis by (metis div_mult_mod_eq)
  qed
qed

end
