(* ===== verification/ValueCountMap.thy ===== *)
theory ValueCountMap
  imports CtaPrelude
begin

text \<open>
  \<open>objectstore/ValueCountMap.hpp\<close>, \<open>ValueCountMap.cpp\<close> and \<open>RetrieveActivityCountMap.cpp\<close>: the running
  counters a queue object keeps for a property of its jobs (priority, minimum request age, mount policy
  name, activity). The container is the repeated protobuf field, a list of (value, count) pairs; the
  contract, stated as the locale \<open>counter_map\<close>, is that it represents a multiset of values.
\<close>

section \<open>The operations\<close>

type_synonym 'k value_count_map = "('k \<times> u64) list"

text \<open>\<open>counter->Swap(&(*(m_valueCountMap.end()-1))); m_valueCountMap.RemoveLast();\<close>\<close>

definition swap_with_last_and_drop :: "nat \<Rightarrow> 'a list \<Rightarrow> 'a list" where
  "swap_with_last_and_drop i m = butlast (swap_elements i (length m - 1) m)"

definition incCount :: "'k \<Rightarrow> 'k value_count_map \<Rightarrow> exn + 'k value_count_map" where
  "incCount value m =
     (let i = find_index (\<lambda>p. fst p = value) m
      in if i \<noteq> length m
         then (if snd (m ! i) < 1 then Inl (CtaException ''ValueCountMap::incCount'')
               else Inr (m[i := (fst (m ! i), snd (m ! i) + 1)]))
         else Inr (m @ [(value, 1)]))"

definition decCount :: "'k \<Rightarrow> 'k value_count_map \<Rightarrow> exn + 'k value_count_map" where
  "decCount value m =
     (let i = find_index (\<lambda>p. fst p = value) m
      in if i = length m then Inl (CtaException ''ValueCountMap::decCount no entry'')
         else if snd (m ! i) < 1 then Inl (CtaException ''ValueCountMap::decCount wrong count'')
         else let m1 = m[i := (fst (m ! i), snd (m ! i) - 1)]
              in if snd (m1 ! i) = 0
                 then let m2 = swap_with_last_and_drop i m1
                      in if length m1 - 1 \<noteq> length m2
                         then Inl (CtaException ''ValueCountMap::decCount unexpected size'')
                         else if find_index (\<lambda>p. fst p = value) m2 \<noteq> length m2
                         then Inl (CtaException ''ValueCountMap::decCount still found'')
                         else Inr m2
                 else Inr m1)"

definition clear :: "'k value_count_map \<Rightarrow> 'k value_count_map" where
  "clear m = []"

definition total :: "'k value_count_map \<Rightarrow> exn + u64" where
  "total m = foldR (\<lambda>acc p. if snd p < 1 then Inl (CtaException ''ValueCountMap::total'') else Inr (acc + snd p)) 0 m"

definition maxValue :: "u64 value_count_map \<Rightarrow> exn + u64" where
  "maxValue m = (if m = [] then Inl (CtaException ''ValueCountMap::maxValue'')
     else Inr (fold (\<lambda>p acc. if acc < fst p then fst p else acc) m 0))"

definition minValue :: "u64 value_count_map \<Rightarrow> exn + u64" where
  "minValue m = (if m = [] then Inl (CtaException ''ValueCountMap::minValue'')
     else Inr (fold (\<lambda>p acc. if acc > fst p then fst p else acc) m (-1)))"

text \<open>\<open>std::map::insert\<close> keeps an entry that is already there.\<close>

definition getMap :: "'k value_count_map \<Rightarrow> 'k \<rightharpoonup> u64" where
  "getMap m = fold (\<lambda>p ret. if snd p \<noteq> 0 \<and> ret (fst p) = None then ret(fst p \<mapsto> snd p) else ret) m Map.empty"

text \<open>\<open>RetrieveActivityCountMap\<close>: the same counters for the activities of a retrieve queue.\<close>

definition activity_incCount :: "string \<Rightarrow> string value_count_map \<Rightarrow> exn + string value_count_map" where
  "activity_incCount activity m =
     (let i = find_index (\<lambda>p. fst p = activity) m
      in if i \<noteq> length m
         then (if snd (m ! i) < 1 then Inl (CtaException ''ValueCountMap::incCount'')
               else Inr (m[i := (fst (m ! i), snd (m ! i) + 1)]))
         else Inr (m @ [(activity, 1)]))"

definition activity_decCount :: "string \<Rightarrow> string value_count_map \<Rightarrow> exn + string value_count_map" where
  "activity_decCount activity m =
     (let i = find_index (\<lambda>p. fst p = activity) m
      in if i = length m then Inl (CtaException ''ValueCountMap::decCount no entry'')
         else if snd (m ! i) < 1 then Inl (CtaException ''ValueCountMap::decCount wrong count'')
         else let m1 = m[i := (fst (m ! i), snd (m ! i) - 1)]
              in if snd (m1 ! i) = 0
                 then let m2 = swap_with_last_and_drop i m1
                      in if length m1 - 1 \<noteq> length m2
                         then Inl (CtaException ''ValueCountMap::decCount unexpected size'')
                         else if find_index (\<lambda>p. fst p = activity) m2 \<noteq> length m2
                         then Inl (CtaException ''ValueCountMap::decCount still found'')
                         else Inr m2
                 else Inr m1)"

definition getActivities :: "string value_count_map \<Rightarrow> (string \<times> u64) list" where
  "getActivities m = map (\<lambda>ad. (fst ad, snd ad)) m"

section \<open>The contract\<close>

text \<open>
  \<open>represents m M\<close>: the list \<open>m\<close> holds one entry per element of \<open>M\<close>, with its multiplicity as a
  64 bit count that did not wrap.
\<close>

definition represents :: "'k value_count_map \<Rightarrow> 'k multiset \<Rightarrow> bool" where
  "represents m M \<longleftrightarrow> distinct (map fst m) \<and> size M < 2 ^ 64 \<and> set (map fst m) = set_mset M
     \<and> (\<forall>k c. (k, c) \<in> set m \<longrightarrow> c = of_nat (count M k))"

lemma representsI:
  assumes "distinct (map fst m)" and "size M < 2 ^ 64" and "fst ` set m = set_mset M"
    and "\<And>k c. (k, c) \<in> set m \<Longrightarrow> c = of_nat (count M k)"
  shows "represents m M"
  using assms by (simp add: represents_def)

lemma representsD:
  assumes "represents m M"
  shows "distinct (map fst m)" and "size M < 2 ^ 64" and "fst ` set m = set_mset M"
    and "\<And>k c. (k, c) \<in> set m \<Longrightarrow> c = of_nat (count M k)"
  using assms by (simp_all add: represents_def)

locale counter_map =
  fixes inc :: "'k \<Rightarrow> 'm \<Rightarrow> exn + 'm"
    and dec :: "'k \<Rightarrow> 'm \<Rightarrow> exn + 'm"
    and empty :: 'm
    and rep :: "'m \<Rightarrow> 'k multiset \<Rightarrow> bool"
  assumes rep_empty: "rep empty {#}"
    and inc_rep: "rep m M \<Longrightarrow> Suc (size M) < 2 ^ 64 \<Longrightarrow> \<exists>m'. inc k m = Inr m' \<and> rep m' (add_mset k M)"
    and dec_rep: "rep m M \<Longrightarrow> k \<in># M \<Longrightarrow> \<exists>m'. dec k m = Inr m' \<and> rep m' (M - {#k#})"
    and dec_absent: "rep m M \<Longrightarrow> k \<notin># M \<Longrightarrow> \<exists>e. dec k m = Inl e"
begin

lemma inc_all_rep:
  assumes "rep m M" and "size M + length xs < 2 ^ 64"
  shows "\<exists>m'. foldR (\<lambda>m k. inc k m) m xs = Inr m' \<and> rep m' (M + mset xs)"
  using assms
proof (induction xs arbitrary: m M)
  case (Cons x xs)
  obtain m' where "inc x m = Inr m'" and "rep m' (add_mset x M)"
    using inc_rep [OF Cons.prems(1)] Cons.prems(2) by fastforce
  with Cons.IH [of m' "add_mset x M"] Cons.prems(2) show ?case by simp
qed simp

lemma dec_all_rep:
  assumes "rep m M" and "mset xs \<subseteq># M"
  shows "\<exists>m'. foldR (\<lambda>m k. dec k m) m xs = Inr m' \<and> rep m' (M - mset xs)"
  using assms
proof (induction xs arbitrary: m M)
  case (Cons x xs)
  have "x \<in># M" and sub: "mset xs \<subseteq># M - {#x#}"
    using Cons.prems(2) by (auto simp: insert_subset_eq_iff)
  then obtain m' where "dec x m = Inr m'" and "rep m' (M - {#x#})"
    using dec_rep [OF Cons.prems(1)] by blast
  with Cons.IH [OF _ sub] show ?case by fastforce
qed simp

text \<open>Counting values in and out again leaves a container for the values that were there before.\<close>

lemma inc_dec_all_rep:
  assumes "rep m M" and "size M + length xs < 2 ^ 64"
  shows "\<exists>m1 m2. foldR (\<lambda>m k. inc k m) m xs = Inr m1 \<and> foldR (\<lambda>m k. dec k m) m1 xs = Inr m2 \<and> rep m2 M"
  using inc_all_rep [OF assms] dec_all_rep [of _ "M + mset xs" xs] by force

end

locale summed_counter_map = counter_map +
  fixes sum_counts :: "'m \<Rightarrow> exn + u64"
  assumes sum_rep: "rep m M \<Longrightarrow> sum_counts m = Inr (of_nat (size M))"

section \<open>The lists satisfy it\<close>

lemma represents_lookup:
  assumes "represents m M" and "i = find_index (\<lambda>p. fst p = k) m"
  shows "if k \<in># M then i < length m \<and> m ! i = (k, of_nat (count M k)) else i = length m"
proof (cases "k \<in># M")
  case True
  then have "k \<in> fst ` set m" using assms(1) by (simp add: represents_def)
  then have i: "i < length m" by (auto simp: assms(2) find_index_less)
  then have fst: "fst (m ! i) = k" using find_index_nth [of "\<lambda>p. fst p = k" m] assms(2) by simp
  have "(fst (m ! i), snd (m ! i)) \<in> set m" using i by simp
  then have "m ! i = (k, of_nat (count M k))" using representsD(4) [OF assms(1)] fst by (metis prod.collapse)
  with True i show ?thesis by simp
next
  case False
  with assms show ?thesis by (auto simp: represents_def find_index_eq_length)
qed

lemma represents_empty: "represents [] {#}"
  by (simp add: represents_def)

lemma count_bounds: "k \<in># M \<Longrightarrow> size M < 2 ^ 64 \<Longrightarrow> 0 < count M k \<and> count M k < 2 ^ 64"
  by (meson count_greater_zero_iff count_le_size order.strict_trans1)

lemma count_word_less_1: "k \<in># M \<Longrightarrow> size M < 2 ^ 64 \<Longrightarrow> \<not> (of_nat (count M k) :: u64) < 1"
  using count_bounds [of k M] of_nat_word_eq_0_iff [of "count M k", where 'w = 64]
  by (simp add: word_less_1)


lemma mset_swap_with_last_and_drop:
  "mset (swap_with_last_and_drop (length us) (us @ x # vs)) = mset us + mset vs"
proof (cases vs rule: rev_cases)
  case Nil
  then show ?thesis by (simp add: swap_with_last_and_drop_def swap_elements_def)
next
  case (snoc ws y)
  then show ?thesis
    by (simp add: swap_with_last_and_drop_def swap_elements_def nth_append list_update_append butlast_append)
qed

lemma represents_obtain:
  assumes rep: "represents m M" and k: "k \<in># M"
  obtains us vs where "m = us @ (k, of_nat (count M k)) # vs"
    and "find_index (\<lambda>p. fst p = k) m = length us"
    and "k \<notin> fst ` set us" and "k \<notin> fst ` set vs"
proof -
  define i where "i = find_index (\<lambda>p. fst p = k) m"
  from represents_lookup [OF rep i_def] k
  have i: "i < length m" "m ! i = (k, of_nat (count M k))" by simp_all
  then have m: "m = take i m @ (k, of_nat (count M k)) # drop (Suc i) m" by (metis list_split_at)
  have "distinct (map fst (take i m @ (k, of_nat (count M k)) # drop (Suc i) m))"
    using rep m by (simp add: represents_def)
  then have "k \<notin> fst ` set (take i m)" "k \<notin> fst ` set (drop (Suc i) m)" by simp_all
  with m i show thesis by (intro that [of "take i m" "drop (Suc i) m"]) (simp_all add: i_def)
qed

lemma represents_update:
  assumes "represents (us @ (k, c) # vs) M"
    and "\<forall>x. x \<noteq> k \<longrightarrow> count M' x = count M x" and "k \<in># M'" and "size M' < 2 ^ 64"
  shows "represents (us @ (k, of_nat (count M' k)) # vs) M'"
proof -
  have eq: "x \<in># M' \<longleftrightarrow> x = k \<or> x \<in># M" for x
    using assms(2,3) by (metis count_greater_zero_iff)
  note rep = representsD [OF assms(1)]
  have "k \<in># M" using rep(3) by auto
  then have "set_mset M' = set_mset M" using eq by auto
  with rep(3) have keys: "fst ` set (us @ (k, of_nat (count M' k)) # vs) = set_mset M'" by simp
  have "c' = of_nat (count M' k')" if "(k', c') \<in> set (us @ (k, of_nat (count M' k)) # vs)" for k' c'
  proof (cases "k' = k")
    case True
    have "k \<notin> fst ` set us" "k \<notin> fst ` set vs" using rep(1) by simp_all
    with True have "(k', c') \<notin> set us" "(k', c') \<notin> set vs" by force+
    with that True show ?thesis by simp
  next
    case False
    with that have "(k', c') \<in> set (us @ (k, c) # vs)" by auto
    with rep(4) assms(2) False show ?thesis by simp
  qed
  note counts = this
  have "distinct (map fst (us @ (k, of_nat (count M' k)) # vs))" using rep(1) by simp
  from this assms(4) keys counts show ?thesis by (rule representsI)
qed

lemma represents_remove:
  assumes "represents (us @ (k, c) # vs) M" and "mset m = mset us + mset vs" and "count M k = 1"
  shows "represents m (M - {#k#})"
proof -
  have set: "set m = set us \<union> set vs" by (metis assms(2) set_mset_mset set_mset_union)
  have "distinct (map fst m) \<longleftrightarrow> distinct (map fst (us @ vs))"
    by (rule mset_eq_imp_distinct_iff) (simp add: assms(2))
  note rep = representsD [OF assms(1)]
  have dist: "distinct (map fst m)"
    using rep(1) \<open>distinct (map fst m) \<longleftrightarrow> distinct (map fst (us @ vs))\<close> by simp
  have nk: "k \<notin> fst ` set us" "k \<notin> fst ` set vs" using rep(1) by simp_all
  have "set_mset (M - {#k#}) = set_mset M - {k}"
    by (rule set_eqI) (auto simp: in_diff_count assms(3) count_eq_zero_iff)
  also have "set_mset M = insert k (fst ` set us \<union> fst ` set vs)" using rep(3) by auto
  finally have keys: "fst ` set m = set_mset (M - {#k#})" using nk by (auto simp: set)
  have "c' = of_nat (count (M - {#k#}) k')" if "(k', c') \<in> set m" for k' c'
  proof -
    have "k' \<in> fst ` set us \<union> fst ` set vs" using that set by force
    then have "k' \<noteq> k" using nk by auto
    with that rep(4) [of k' c'] show ?thesis by (simp add: set)
  qed
  moreover have "size (M - {#k#}) < 2 ^ 64"
    using rep(2) by (meson diff_subset_eq_self order.strict_trans1 size_mset_mono)
  ultimately show ?thesis using dist keys by (intro representsI)
qed

lemma incCount_represents:
  assumes rep: "represents m M" and bound: "Suc (size M) < 2 ^ 64"
  shows "\<exists>m'. incCount k m = Inr m' \<and> represents m' (add_mset k M)"
proof (cases "k \<in># M")
  case True
  from represents_obtain [OF rep True] obtain us vs where
    m: "m = us @ (k, of_nat (count M k)) # vs" and i: "find_index (\<lambda>p. fst p = k) m = length us"
    by blast
  have "represents (us @ (k, of_nat (count (add_mset k M) k)) # vs) (add_mset k M)"
    by (rule represents_update [OF rep [unfolded m]]) (use bound in auto)
  moreover have "\<not> (of_nat (count M k) :: u64) < 1"
    by (rule count_word_less_1 [OF True representsD(2) [OF rep]])
  then have "incCount k m = Inr (us @ (k, of_nat (count (add_mset k M) k)) # vs)"
    using i by (simp add: incCount_def m add.commute)
  ultimately show ?thesis by blast
next
  case False
  then have "find_index (\<lambda>p. fst p = k) m = length m"
    using represents_lookup [OF rep refl, of k] by simp
  then have "incCount k m = Inr (m @ [(k, 1)])" by (simp add: incCount_def)
  moreover have "represents (m @ [(k, 1)]) (add_mset k M)"
  proof (rule representsI)
    show "distinct (map fst (m @ [(k, 1)]))" "fst ` set (m @ [(k, 1)]) = set_mset (add_mset k M)"
      using representsD(1,3) [OF rep] False by simp_all
    fix k' c' assume in': "(k', c') \<in> set (m @ [(k, 1)])"
    show "c' = of_nat (count (add_mset k M) k')"
    proof (cases "(k', c') \<in> set m")
      case True
      then have "k' \<in># M" using representsD(3) [OF rep] by force
      with False True representsD(4) [OF rep] show ?thesis by auto
    next
      case notin: False
      with in' False show ?thesis by (simp add: not_in_iff)
    qed
  qed (use bound in simp)
  ultimately show ?thesis by blast
qed

lemma decCount_represents:
  assumes rep: "represents m M" and k: "k \<in># M"
  shows "\<exists>m'. decCount k m = Inr m' \<and> represents m' (M - {#k#})"
proof -
  let ?c = "of_nat (count M k) :: u64"
  from represents_obtain [OF rep k] obtain us vs where
    m: "m = us @ (k, ?c) # vs" and i: "find_index (\<lambda>p. fst p = k) m = length us"
    and nk: "k \<notin> fst ` set us" "k \<notin> fst ` set vs"
    by blast
  have size: "size M < 2 ^ 64" using rep by (simp add: represents_def)
  have pos: "\<not> ?c < 1" by (rule count_word_less_1 [OF k size])
  obtain n where n: "count M k = Suc n" using k by (metis count_eq_zero_iff not0_implies_Suc)
  have dec: "?c - 1 = of_nat n" by (simp add: n)
  have "n < 2 ^ 64" using count_bounds [OF k size] n by simp
  then have zero: "?c - 1 = 0 \<longleftrightarrow> n = 0"
    using of_nat_word_eq_0_iff [of n, where 'w = 64] by (simp add: dec)
  show ?thesis
  proof (cases "n = 0")
    case True
    let ?m2 = "swap_with_last_and_drop (length us) (us @ (k, 0) # vs)"
    have ms: "mset ?m2 = mset us + mset vs" by (rule mset_swap_with_last_and_drop)
    then have set2: "set ?m2 = set us \<union> set vs" by (metis set_mset_mset set_mset_union)
    have len2: "length ?m2 = length us + length vs" by (metis ms size_mset size_union)
    have "represents ?m2 (M - {#k#})"
      by (rule represents_remove [OF rep [unfolded m] ms]) (simp add: n True)
    moreover have "find_index (\<lambda>p. fst p = k) ?m2 = length ?m2"
      using nk by (force simp: find_index_eq_length set2)
    moreover have "decCount k m = (if length us + length vs \<noteq> length ?m2
        then Inl (CtaException ''ValueCountMap::decCount unexpected size'')
        else if find_index (\<lambda>p. fst p = k) ?m2 \<noteq> length ?m2
        then Inl (CtaException ''ValueCountMap::decCount still found'') else Inr ?m2)"
      using i pos True by (simp add: decCount_def m n Let_def)
    ultimately show ?thesis using len2 by simp
  next
    case False
    have "represents (us @ (k, of_nat (count (M - {#k#}) k)) # vs) (M - {#k#})"
    proof (rule represents_update [OF rep [unfolded m]])
      show "k \<in># M - {#k#}" using False by (simp add: in_diff_count n)
      show "size (M - {#k#}) < 2 ^ 64"
        using size by (meson diff_subset_eq_self order.strict_trans1 size_mset_mono)
    qed simp
    moreover have "decCount k m = Inr (us @ (k, of_nat (count (M - {#k#}) k)) # vs)"
      using i pos zero False by (simp add: decCount_def m n Let_def)
    ultimately show ?thesis by blast
  qed
qed

lemma decCount_absent: "represents m M \<Longrightarrow> k \<notin># M \<Longrightarrow> \<exists>e. decCount k m = Inl e"
  using represents_lookup [of m M _ k] by (simp add: decCount_def)

lemma total_eq: "\<forall>p \<in> set m. \<not> snd p < 1 \<Longrightarrow> total m = Inr (\<Sum>p\<leftarrow>m. snd p)"
proof -
  have "foldR (\<lambda>acc p. if snd p < 1 then Inl (CtaException ''ValueCountMap::total'') else Inr (acc + snd p)) a m
      = Inr (a + (\<Sum>p\<leftarrow>m. snd p))" if "\<forall>p \<in> set m. \<not> snd p < 1" for a
    using that by (induction m arbitrary: a) (auto simp: add.assoc)
  then show "\<forall>p \<in> set m. \<not> snd p < 1 \<Longrightarrow> total m = Inr (\<Sum>p\<leftarrow>m. snd p)"
    by (simp add: total_def)
qed

lemma represents_counts_pos: "represents m M \<Longrightarrow> p \<in> set m \<Longrightarrow> \<not> snd p < 1"
proof (cases p)
  case (Pair k c)
  assume rep: "represents m M" and p: "p \<in> set m"
  then have "k \<in># M" "c = of_nat (count M k)"
    using representsD(3,4) [OF rep] Pair by force+
  then show ?thesis using count_word_less_1 [OF _ representsD(2) [OF rep]] Pair by simp
qed

lemma total_represents:
  assumes rep: "represents m M"
  shows "total m = Inr (of_nat (size M))"
proof -
  have "(\<Sum>p\<leftarrow>m. snd p) = (\<Sum>p\<leftarrow>m. of_nat (count M (fst p)))"
    using representsD(4) [OF rep] by (intro arg_cong [where f = sum_list] map_cong) auto
  also have "\<dots> = of_nat (\<Sum>k\<leftarrow>map fst m. count M k)"
    by (simp add: sum_list_of_nat_word comp_def)
  also have "(\<Sum>k\<leftarrow>map fst m. count M k) = size M"
    using sum_list_distinct_conv_sum_set [OF representsD(1) [OF rep], of "count M"] representsD(3) [OF rep]
    by (simp add: size_multiset_overloaded_eq)
  finally have "(\<Sum>p\<leftarrow>m. snd p) = of_nat (size M)" .
  moreover have "total m = Inr (\<Sum>p\<leftarrow>m. snd p)"
    using represents_counts_pos [OF rep] by (intro total_eq) blast
  ultimately show ?thesis by simp
qed

interpretation value_counts: summed_counter_map incCount decCount "clear m0" represents total
  by unfold_locales
     (simp_all add: clear_def represents_empty incCount_represents decCount_represents decCount_absent total_represents)

lemma activity_incCount_eq: "activity_incCount = incCount"
  by (intro ext) (simp add: activity_incCount_def incCount_def)

lemma activity_decCount_eq: "activity_decCount = decCount"
  by (intro ext) (simp add: activity_decCount_def decCount_def)

interpretation activity_counts: counter_map activity_incCount activity_decCount "clear m0" represents
  unfolding activity_incCount_eq activity_decCount_eq by unfold_locales

section \<open>What the summaries read\<close>

lemma fold_max_eq: "fold (\<lambda>p acc. if acc < fst p then fst p else acc) m a = Max (insert a (fst ` set m))"
  for a :: "'a::linorder"
proof (induction m arbitrary: a)
  case (Cons p m)
  have "(if a < fst p then fst p else a) = max (fst p) a" by simp
  with Cons.IH [of "max (fst p) a"] show ?case
    by (cases "m = []") (simp_all add: ac_simps)
qed simp

lemma fold_min_eq: "fold (\<lambda>p acc. if acc > fst p then fst p else acc) m a = Min (insert a (fst ` set m))"
  for a :: "'a::linorder"
proof (induction m arbitrary: a)
  case (Cons p m)
  have "(if a > fst p then fst p else a) = min (fst p) a" by simp
  with Cons.IH [of "min (fst p) a"] show ?case
    by (cases "m = []") (simp_all add: ac_simps)
qed simp

lemma maxValue_represents:
  assumes rep: "represents m M" and "M \<noteq> {#}"
  shows "maxValue m = Inr (Max (set_mset M))"
proof -
  have "m \<noteq> []" using representsD(3) [OF rep] assms(2) by auto
  moreover have "Max (insert 0 (set_mset M)) = Max (set_mset M)"
    using assms(2) by (simp add: max_def)
  ultimately show ?thesis by (simp add: maxValue_def fold_max_eq representsD(3) [OF rep])
qed

lemma minValue_represents:
  assumes rep: "represents m M" and "M \<noteq> {#}"
  shows "minValue m = Inr (Min (set_mset M))"
proof -
  have "m \<noteq> []" using representsD(3) [OF rep] assms(2) by auto
  moreover have "Min (insert (- 1) (set_mset M)) = Min (set_mset M)"
    using assms(2) by (simp add: min_absorb2)
  ultimately show ?thesis by (simp add: minValue_def fold_min_eq representsD(3) [OF rep])
qed

lemma getMap_fold:
  assumes "distinct (map fst m)" and "\<forall>p \<in> set m. snd p \<noteq> 0 \<and> r (fst p) = None"
  shows "fold (\<lambda>p ret. if snd p \<noteq> 0 \<and> ret (fst p) = None then ret(fst p \<mapsto> snd p) else ret) m r = r ++ map_of m"
  using assms
proof (induction m arbitrary: r)
  case (Cons p m)
  have "\<forall>q \<in> set m. snd q \<noteq> 0 \<and> (r(fst p \<mapsto> snd p)) (fst q) = None"
    using Cons.prems by (auto simp: rev_image_eqI)
  with Cons.IH [of "r(fst p \<mapsto> snd p)"] Cons.prems(1)
  have "fold (\<lambda>p ret. if snd p \<noteq> 0 \<and> ret (fst p) = None then ret(fst p \<mapsto> snd p) else ret) m (r(fst p \<mapsto> snd p))
      = r(fst p \<mapsto> snd p) ++ map_of m" by (simp del: fun_upd_apply)
  also have "\<dots> = r ++ map_of (p # m)"
    using Cons.prems(1) map_of_eq_None_iff [of m "fst p"]
    by (intro ext) (auto simp: map_add_def split: option.split)
  finally show ?case using Cons.prems(2) by (simp del: fun_upd_apply)
qed simp

lemma getMap_represents:
  assumes rep: "represents m M"
  shows "getMap m k = (if k \<in># M then Some (of_nat (count M k)) else None)"
proof -
  have "getMap m = map_of m"
    using getMap_fold [of m Map.empty] representsD(1) [OF rep] represents_counts_pos [OF rep]
    by (force simp: getMap_def)
  moreover have "map_of m k = (if k \<in># M then Some (of_nat (count M k)) else None)"
    using representsD(3,4) [OF rep] by (cases "map_of m k") (auto simp: map_of_eq_None_iff dest!: map_of_SomeD, force+)
  ultimately show ?thesis by simp
qed

lemmas counter_facts = incCount_represents decCount_represents total_represents

end
