(* ===== verification/Serializers.thy ===== *)
theory Serializers
  imports ValueCountMap
begin

text \<open>
  The protobuf messages of \<open>objectstore/cta.proto\<close> that the modelled objects are stored as, one
  record or datatype per message, with the message's fields (prefixed, since Isabelle record fields
  are global). A \<open>repeated\<close> field is a list and an \<open>optional\<close> field whose presence the code tests is an
  \<open>option\<close>. \<open>payload\<close> is the payload of an object header together with its type: storing a typed value
  stands for the serialization of the message, which protobuf parses back to the same message.
\<close>

section \<open>Common messages\<close>

record entry_log =
  el_username :: string
  el_host :: string
  el_time :: u64

record mount_policy =
  mp_name :: string
  mp_archivePriority :: u64
  mp_archiveMinRequestAge :: u64
  mp_retrievePriority :: u64
  mp_retrieveMinRequestAge :: u64
  mp_creationLog :: entry_log
  mp_lastModificationLog :: entry_log
  mp_comment :: string

record disk_file_info =
  dfi_owner_uid :: u32
  dfi_gid :: u32
  dfi_path :: string

record requester_identity =
  ri_name :: string
  ri_group :: string

record tape_file =
  tf_vid :: string
  tf_fseq :: u64
  tf_blockid :: u64
  tf_filesize :: u64
  tf_copynb :: u32
  tf_creationtime :: u64
  tf_checksumblob :: string

record archive_file =
  af_archivefileid :: u64
  af_filesize :: u64
  af_diskfileid :: string
  af_diskinstance :: string
  af_diskfileinfo :: disk_file_info
  af_checksumblob :: string
  af_creationtime :: u64
  af_tapefiles :: "tape_file list"
  af_reconciliationtime :: u64
  af_storageclass :: string

section \<open>Archive and retrieve queues\<close>

record archive_job_pointer =
  ajp_fileid :: u64
  ajp_size :: u64
  ajp_address :: string
  ajp_copynb :: u32
  ajp_priority :: u64
  ajp_minarchiverequestage :: u64
  ajp_starttime :: u64
  ajp_mountpolicyname :: string

record archive_queue_shard =
  aqs_archivejobs :: "archive_job_pointer list"
  aqs_archivejobstotalsize :: u64

record archive_queue_shard_pointer =
  aqsp_address :: string
  aqsp_shardjobscount :: u64
  aqsp_shardbytescount :: u64

record archive_queue =
  aq_tapepool :: string
  aq_archivequeueshards :: "archive_queue_shard_pointer list"
  aq_prioritymap :: "u64 value_count_map"
  aq_minarchiverequestagemap :: "u64 value_count_map"
  aq_mountpolicynamemap :: "string value_count_map"
  aq_archivejobstotalsize :: u64
  aq_archivejobscount :: u64
  aq_oldestjobcreationtime :: u64
  aq_mapsrebuildcount :: u64
  aq_youngestjobcreationtime :: u64

record retrieve_job_pointer =
  rjp_size :: u64
  rjp_address :: string
  rjp_copynb :: u32
  rjp_fseq :: u64
  rjp_priority :: u64
  rjp_minretrieverequestage :: u64
  rjp_starttime :: u64
  rjp_mountpolicyname :: string
  rjp_activity :: "string option"
  rjp_destination_disk_system_name :: "string option"

record retrieve_queue_shard =
  rqs_retrievejobs :: "retrieve_job_pointer list"
  rqs_retrievejobstotalsize :: u64

record retrieve_queue_shard_pointer =
  rqsp_address :: string
  rqsp_shardjobscount :: u64
  rqsp_shardbytescount :: u64
  rqsp_minfseq :: u64
  rqsp_maxfseq :: u64

record retrieve_queue =
  rq_vid :: string
  rq_retrievequeueshards :: "retrieve_queue_shard_pointer list"
  rq_prioritymap :: "u64 value_count_map"
  rq_minretrieverequestagemap :: "u64 value_count_map"
  rq_mountpolicynamemap :: "string value_count_map"
  rq_activity_map :: "string value_count_map"
  rq_retrievejobstotalsize :: u64
  rq_retrievejobscount :: u64
  rq_oldestjobcreationtime :: u64
  rq_mapsrebuildcount :: u64
  rq_maxshardsize :: u64
  rq_sleep_for_free_space_since :: "u64 option"
  rq_disk_system_slept_for :: string
  rq_sleep_time :: u64
  rq_youngestjobcreationtime :: u64

section \<open>Archive requests\<close>

datatype ArchiveJobStatus =
    AJS_ToTransferForUser
  | AJS_ToReportToUserForTransfer
  | AJS_Complete
  | AJS_ToReportToUserForFailure
  | AJS_Failed
  | AJS_Abandoned
  | AJS_ToTransferForRepack
  | AJS_ToReportToRepackForSuccess
  | AJS_ToReportToRepackForFailure

record archive_job =
  aj_copynb :: u32
  aj_tapepool :: string
  aj_archivequeueaddress :: string
  aj_owner :: string
  aj_status :: ArchiveJobStatus
  aj_totalretries :: u32
  aj_retrieswithinmount :: u32
  aj_lastmountwithfailure :: u64
  aj_maxtotalretries :: u32
  aj_maxretrieswithinmount :: u32
  aj_failurelogs :: "string list"
  aj_maxreportretries :: u32
  aj_totalreportretries :: u32
  aj_reportfailurelogs :: "string list"

record archive_request_repack_info =
  arri_repack_request_address :: string
  arri_file_buffer_url :: string
  arri_fseq :: u64
  arri_jobs_destination :: "(u32 \<times> string) list"

record archive_request =
  ar_archivefileid :: u64
  ar_mountpolicy :: mount_policy
  ar_mountpolicyname :: string
  ar_checksumblob :: string
  ar_creationtime :: u64
  ar_reconcilationtime :: u64
  ar_diskfileinfo :: disk_file_info
  ar_diskfileid :: string
  ar_diskinstance :: string
  ar_archivereporturl :: string
  ar_archiveerrorreporturl :: string
  ar_filesize :: u64
  ar_requester :: requester_identity
  ar_srcurl :: string
  ar_storageclass :: string
  ar_creationlog :: entry_log
  ar_jobs :: "archive_job list"
  ar_reportdecided :: bool
  ar_isrepack :: bool
  ar_repack_info :: archive_request_repack_info
  ar_isfailed :: bool

section \<open>Retrieve requests\<close>

datatype RetrieveJobStatus =
    RJS_ToTransfer
  | RJS_ToReportToUserForFailure
  | RJS_Failed
  | RJS_ToReportToRepackForSuccess
  | RJS_ToReportToRepackForFailure

record scheduler_retrieve_request =
  srr_requester :: requester_identity
  srr_archivefileid :: u64
  srr_dsturl :: string
  srr_diskfileinfo :: disk_file_info
  srr_entrylog :: entry_log
  srr_retrieveerrorreporturl :: string
  srr_isverifyonly :: bool

record retrieve_job =
  rj_copynb :: u32
  rj_maxtotalretries :: u32
  rj_maxretrieswithinmount :: u32
  rj_retrieswithinmount :: u32
  rj_totalretries :: u32
  rj_status :: RetrieveJobStatus
  rj_lastmountwithfailure :: u64
  rj_failurelogs :: "string list"
  rj_maxreportretries :: u32
  rj_totalreportretries :: u32
  rj_reportfailurelogs :: "string list"

record retrieve_request_repack_info =
  rrri_archive_routes :: "(u32 \<times> string) list"
  rrri_copy_nbs_to_rearchive :: "u32 list"
  rrri_repack_request_address :: string
  rrri_file_buffer_url :: string
  rrri_fseq :: u64
  rrri_force_disabled_tape :: bool
  rrri_has_user_provided_file :: "bool option"

record lifecycle_timings =
  lt_creation_time :: u64
  lt_first_selected_time :: u64
  lt_completed_time :: u64

record retrieve_request =
  rr_schedulerrequest :: scheduler_retrieve_request
  rr_mountpolicy :: mount_policy
  rr_mountpolicyname :: string
  rr_activity :: "string option"
  rr_archivefile :: archive_file
  rr_activecopynb :: u32
  rr_jobs :: "retrieve_job list"
  rr_failurereporturl :: string
  rr_failurereportlog :: string
  rr_isrepack :: bool
  rr_repack_info :: retrieve_request_repack_info
  rr_lifecycle_timings :: lifecycle_timings
  rr_disk_system_name :: "string option"
  rr_isverifyonly :: bool
  rr_isfailed :: bool

section \<open>Agents\<close>

record agent =
  ag_description :: string
  ag_heartbeat :: u64
  ag_timeout_us :: u64
  ag_ownedobjects :: "string list"
  ag_being_garbage_collected :: bool
  ag_gc_needed :: "bool option"

record agent_register =
  agr_agents :: "string list"
  agr_untrackedagents :: "string list"

section \<open>Repack\<close>

record repack_request_index_pointer =
  rrip_vid :: string
  rrip_address :: string

record repack_index =
  ri_repackrequestpointers :: "repack_request_index_pointer list"

text \<open>A \<open>RepackRequestQueuePointer\<close> has one field, the address.\<close>

record repack_queue =
  rpq_repackrequestpointers :: "string list"

datatype RepackRequestStatus =
    RRS_Pending
  | RRS_ToExpand
  | RRS_Starting
  | RRS_Running
  | RRS_Complete
  | RRS_Failed

record repack_sub_request_pointer =
  rsrp_address :: string
  rsrp_fseq :: u64
  rsrp_retrieve_accounted :: bool
  rsrp_archive_copynb_accounted :: "u32 list"
  rsrp_subrequest_deleted :: bool

record repack_destination_info =
  rdi_vid :: string
  rdi_files :: u64
  rdi_bytes :: u64

record repack_request =
  rpr_vid :: string
  rpr_buffer_url :: string
  rpr_status :: RepackRequestStatus
  rpr_add_copies_mode :: bool
  rpr_move_mode :: bool
  rpr_totalfilestoretrieve :: u64
  rpr_totalbytestoretrieve :: u64
  rpr_totalfilestoarchive :: u64
  rpr_totalbytestoarchive :: u64
  rpr_userprovidedfiles :: u64
  rpr_userprovidedbytes :: u64
  rpr_retrievedfiles :: u64
  rpr_retrievedbytes :: u64
  rpr_archivedfiles :: u64
  rpr_archivedbytes :: u64
  rpr_failedtoretrievefiles :: u64
  rpr_failedtoretrievebytes :: u64
  rpr_failedtocreatearchivereq :: u64
  rpr_failedtoarchivefiles :: u64
  rpr_failedtoarchivebytes :: u64
  rpr_lastexpandedfseq :: u64
  rpr_is_expand_finished :: bool
  rpr_is_expand_started :: bool
  rpr_mount_policy :: mount_policy
  rpr_mountpolicyname :: string
  rpr_force_disabled_tape :: bool
  rpr_is_complete :: bool
  rpr_no_recall :: bool
  rpr_subrequests :: "repack_sub_request_pointer list"
  rpr_destination_infos :: "repack_destination_info list"
  rpr_creation_log :: entry_log
  rpr_repack_finished_time :: u64

section \<open>Drive register, scheduler lock and root entry\<close>

record drive_state_pointer =
  dsp_drivename :: string
  dsp_drivestateaddress :: string

record drive_register =
  dr_drives :: "drive_state_pointer list"

record scheduler_global_lock =
  sgl_nextmountid :: u64

text \<open>
  \<open>DriveRegisterPointer\<close>, \<open>AgentRegisterPointer\<close> and \<open>SchedulerGlobalLockPointer\<close> have the same two fields. The
  address of a pointer that was cleared reads as the empty string.
\<close>

record logged_pointer =
  lp_address :: string
  lp_log :: entry_log

record archive_queue_pointer =
  aqp_address :: string
  aqp_name :: string

record retrieve_queue_pointer =
  rqp_address :: string
  rqp_vid :: string

record root_entry =
  re_archive_queue_to_transfer_for_user_pointers :: "archive_queue_pointer list"
  re_archive_queue_failed_pointers :: "archive_queue_pointer list"
  re_archive_queue_to_report_for_user_pointers :: "archive_queue_pointer list"
  re_archive_queue_to_transfer_for_repack_pointers :: "archive_queue_pointer list"
  re_archive_queue_to_report_to_repack_for_success_pointers :: "archive_queue_pointer list"
  re_archive_queue_to_report_to_repack_for_failure_pointers :: "archive_queue_pointer list"
  re_retrieve_queue_to_transfer_for_user_pointers :: "retrieve_queue_pointer list"
  re_retrieve_queue_to_report_for_user_pointers :: "retrieve_queue_pointer list"
  re_retrieve_queue_failed_pointers :: "retrieve_queue_pointer list"
  re_retrieve_queue_to_report_to_repack_for_success_pointers :: "retrieve_queue_pointer list"
  re_retrieve_queue_to_report_to_repack_for_failure_pointers :: "retrieve_queue_pointer list"
  re_retrieve_queue_to_transfer_for_repack_pointers :: "retrieve_queue_pointer list"
  re_driveregisterpointer :: "logged_pointer option"
  re_agentregisterpointer :: "logged_pointer option"
  re_repackindexpointer :: "string option"
  re_repackrequestspendingqueuepointer :: "string option"
  re_repackrequeststoexpandqueuepointer :: "string option"
  re_agentregisterintent :: string
  re_schedulerlockpointer :: "logged_pointer option"

section \<open>Object headers\<close>

datatype payload =
    Payload_ArchiveQueue archive_queue
  | Payload_ArchiveQueueShard archive_queue_shard
  | Payload_RetrieveQueue retrieve_queue
  | Payload_RetrieveQueueShard retrieve_queue_shard
  | Payload_ArchiveRequest archive_request
  | Payload_RetrieveRequest retrieve_request
  | Payload_RootEntry root_entry
  | Payload_Agent agent
  | Payload_AgentRegister agent_register
  | Payload_DriveRegister drive_register
  | Payload_SchedulerGlobalLock scheduler_global_lock
  | Payload_RepackRequest repack_request
  | Payload_RepackQueue repack_queue
  | Payload_RepackIndex repack_index

record object_header =
  oh_version :: u64
  oh_owner :: string
  oh_backupowner :: string
  oh_payload :: payload

text \<open>
  A codec is what \<open>ObjectOps<PayloadType, PayloadTypeId>\<close> is instantiated with: how the payload is put
  into the header, and how a header of the right type is read back.
\<close>

record 'p codec =
  enc :: "'p \<Rightarrow> payload"
  dec :: "payload \<Rightarrow> 'p option"

definition archive_queue_codec :: "archive_queue codec" where
  "archive_queue_codec = \<lparr>enc = Payload_ArchiveQueue,
     dec = (\<lambda>p. case p of Payload_ArchiveQueue x \<Rightarrow> Some x | _ \<Rightarrow> None)\<rparr>"

definition archive_queue_shard_codec :: "archive_queue_shard codec" where
  "archive_queue_shard_codec = \<lparr>enc = Payload_ArchiveQueueShard,
     dec = (\<lambda>p. case p of Payload_ArchiveQueueShard x \<Rightarrow> Some x | _ \<Rightarrow> None)\<rparr>"

definition retrieve_queue_codec :: "retrieve_queue codec" where
  "retrieve_queue_codec = \<lparr>enc = Payload_RetrieveQueue,
     dec = (\<lambda>p. case p of Payload_RetrieveQueue x \<Rightarrow> Some x | _ \<Rightarrow> None)\<rparr>"

definition retrieve_queue_shard_codec :: "retrieve_queue_shard codec" where
  "retrieve_queue_shard_codec = \<lparr>enc = Payload_RetrieveQueueShard,
     dec = (\<lambda>p. case p of Payload_RetrieveQueueShard x \<Rightarrow> Some x | _ \<Rightarrow> None)\<rparr>"

definition archive_request_codec :: "archive_request codec" where
  "archive_request_codec = \<lparr>enc = Payload_ArchiveRequest,
     dec = (\<lambda>p. case p of Payload_ArchiveRequest x \<Rightarrow> Some x | _ \<Rightarrow> None)\<rparr>"

definition retrieve_request_codec :: "retrieve_request codec" where
  "retrieve_request_codec = \<lparr>enc = Payload_RetrieveRequest,
     dec = (\<lambda>p. case p of Payload_RetrieveRequest x \<Rightarrow> Some x | _ \<Rightarrow> None)\<rparr>"

definition root_entry_codec :: "root_entry codec" where
  "root_entry_codec = \<lparr>enc = Payload_RootEntry,
     dec = (\<lambda>p. case p of Payload_RootEntry x \<Rightarrow> Some x | _ \<Rightarrow> None)\<rparr>"

definition agent_codec :: "agent codec" where
  "agent_codec = \<lparr>enc = Payload_Agent,
     dec = (\<lambda>p. case p of Payload_Agent x \<Rightarrow> Some x | _ \<Rightarrow> None)\<rparr>"

definition agent_register_codec :: "agent_register codec" where
  "agent_register_codec = \<lparr>enc = Payload_AgentRegister,
     dec = (\<lambda>p. case p of Payload_AgentRegister x \<Rightarrow> Some x | _ \<Rightarrow> None)\<rparr>"

definition drive_register_codec :: "drive_register codec" where
  "drive_register_codec = \<lparr>enc = Payload_DriveRegister,
     dec = (\<lambda>p. case p of Payload_DriveRegister x \<Rightarrow> Some x | _ \<Rightarrow> None)\<rparr>"

definition scheduler_global_lock_codec :: "scheduler_global_lock codec" where
  "scheduler_global_lock_codec = \<lparr>enc = Payload_SchedulerGlobalLock,
     dec = (\<lambda>p. case p of Payload_SchedulerGlobalLock x \<Rightarrow> Some x | _ \<Rightarrow> None)\<rparr>"

definition repack_request_codec :: "repack_request codec" where
  "repack_request_codec = \<lparr>enc = Payload_RepackRequest,
     dec = (\<lambda>p. case p of Payload_RepackRequest x \<Rightarrow> Some x | _ \<Rightarrow> None)\<rparr>"

definition repack_queue_codec :: "repack_queue codec" where
  "repack_queue_codec = \<lparr>enc = Payload_RepackQueue,
     dec = (\<lambda>p. case p of Payload_RepackQueue x \<Rightarrow> Some x | _ \<Rightarrow> None)\<rparr>"

definition repack_index_codec :: "repack_index codec" where
  "repack_index_codec = \<lparr>enc = Payload_RepackIndex,
     dec = (\<lambda>p. case p of Payload_RepackIndex x \<Rightarrow> Some x | _ \<Rightarrow> None)\<rparr>"

definition codec_ok :: "'p codec \<Rightarrow> bool" where
  "codec_ok c \<longleftrightarrow> (\<forall>p. dec c (enc c p) = Some p)"

named_theorems codec_defs

declare archive_queue_codec_def [codec_defs] archive_queue_shard_codec_def [codec_defs]
  retrieve_queue_codec_def [codec_defs] retrieve_queue_shard_codec_def [codec_defs]
  archive_request_codec_def [codec_defs] retrieve_request_codec_def [codec_defs]
  root_entry_codec_def [codec_defs] agent_codec_def [codec_defs] agent_register_codec_def [codec_defs]
  drive_register_codec_def [codec_defs] scheduler_global_lock_codec_def [codec_defs]
  repack_request_codec_def [codec_defs] repack_queue_codec_def [codec_defs] repack_index_codec_def [codec_defs]

lemma codecs_ok [simp]:
  "codec_ok archive_queue_codec" "codec_ok archive_queue_shard_codec"
  "codec_ok retrieve_queue_codec" "codec_ok retrieve_queue_shard_codec"
  "codec_ok archive_request_codec" "codec_ok retrieve_request_codec"
  "codec_ok root_entry_codec" "codec_ok agent_codec" "codec_ok agent_register_codec"
  "codec_ok drive_register_codec" "codec_ok scheduler_global_lock_codec"
  "codec_ok repack_request_codec" "codec_ok repack_queue_codec" "codec_ok repack_index_codec"
  by (simp_all add: codec_ok_def codec_defs)

lemma dec_enc [simp]: "codec_ok c \<Longrightarrow> dec c (enc c p) = Some p"
  by (simp add: codec_ok_def)

end
