(* ===== verification/BackendVFS.thy ===== *)
theory BackendVFS
  imports Serializers
begin

text \<open>
  \<open>objectstore/Backend.hpp\<close> and \<open>BackendVFS.cpp\<close>: the key-value store the objects live in, here the
  file system backend. An object \<open>name\<close> is the file \<open>root/name\<close> and its lock is the file
  \<open>root/.name.lock\<close>; object names do not start with a dot, so the two kinds of files are kept as two
  maps. Failures of the file system itself (no space, permissions, interrupted calls) and the blocking
  of \<open>flock\<close> are not modelled. The state also holds the agent reference of the running process
  (\<open>AgentReference.cpp\<close>), which hands out the names of new objects.
\<close>

section \<open>The store\<close>

record world =
  objects :: "string \<rightharpoonup> object_header"
  lockFiles :: "string \<Rightarrow> bool"
  agentAddress :: string
  nextIdCounter :: u64

definition vfs_create :: "string \<Rightarrow> object_header \<Rightarrow> (world, unit) prog" where
  "vfs_create name content = (\<lambda>w.
     if objects w name \<noteq> None then (Inl Errnum, w)
     else if lockFiles w name then (Inl Errnum, w\<lparr>lockFiles := (lockFiles w)(name := False)\<rparr>)
     else (Inr (), w\<lparr>objects := (objects w)(name \<mapsto> content), lockFiles := (lockFiles w)(name := True)\<rparr>))"

definition vfs_exists :: "string \<Rightarrow> world \<Rightarrow> bool" where
  "vfs_exists name w \<longleftrightarrow> objects w name \<noteq> None \<and> lockFiles w name"

definition vfs_atomicOverwrite :: "string \<Rightarrow> object_header \<Rightarrow> (world, unit) prog" where
  "vfs_atomicOverwrite name content = (\<lambda>w.
     if \<not> vfs_exists name w then (Inl (CtaException ''BackendVFS::atomicOverwrite''), w)
     else (Inr (), w\<lparr>objects := (objects w)(name \<mapsto> content)\<rparr>))"

definition vfs_read :: "string \<Rightarrow> (world, object_header) prog" where
  "vfs_read name = (\<lambda>w. case objects w name of None \<Rightarrow> (Inl NoSuchObject, w) | Some c \<Rightarrow> (Inr c, w))"

definition vfs_remove :: "string \<Rightarrow> (world, unit) prog" where
  "vfs_remove name = (\<lambda>w.
     if objects w name = None then (Inl Errnum, w)
     else if \<not> lockFiles w name then (Inl Errnum, w\<lparr>objects := (objects w)(name := None)\<rparr>)
     else (Inr (), w\<lparr>objects := (objects w)(name := None), lockFiles := (lockFiles w)(name := False)\<rparr>))"

text \<open>
  \<open>lockHelper\<close> up to the \<open>flock\<close> call: a missing lock file is recreated when the object is there.
\<close>

definition vfs_lockHelper :: "string \<Rightarrow> (world, unit) prog" where
  "vfs_lockHelper name = (\<lambda>w.
     if lockFiles w name then (Inr (), w)
     else if objects w name \<noteq> None then (Inr (), w\<lparr>lockFiles := (lockFiles w)(name := True)\<rparr>)
     else (Inl NoSuchObject, w))"

definition rethrow_as :: "exn \<Rightarrow> ('s, 'a) prog \<Rightarrow> ('s, 'a) prog" where
  "rethrow_as e m = (\<lambda>s. case m s of (Inl e', s') \<Rightarrow> (Inl e, s') | r \<Rightarrow> r)"

text \<open>
  \<open>AsyncUpdater\<close>: lock, fetch, apply the callback, commit (or delete the object when the callback
  throws \<open>AsyncUpdateWithDelete\<close>), unlock. The callback's other exceptions go through unchanged.
\<close>

definition vfs_asyncUpdate :: "string \<Rightarrow> (object_header \<Rightarrow> exn + object_header \<times> 'a) \<Rightarrow> (world, 'a option) prog" where
  "vfs_asyncUpdate name update =
     bnd (vfs_lockHelper name) (\<lambda>_.
     bnd (rethrow_as CouldNotFetch (vfs_read name)) (\<lambda>preUpdateData.
       case update preUpdateData of
         Inl AsyncUpdateWithDelete \<Rightarrow> bnd (rethrow_as CouldNotCommit (vfs_remove name)) (\<lambda>_. ret None)
       | Inl e \<Rightarrow> throw e
       | Inr (postUpdateData, x) \<Rightarrow>
           bnd (rethrow_as CouldNotCommit (vfs_atomicOverwrite name postUpdateData)) (\<lambda>_. ret (Some x))))"

definition vfs_asyncDelete :: "string \<Rightarrow> (world, unit) prog" where
  "vfs_asyncDelete name =
     bnd (vfs_lockHelper name) (\<lambda>_. rethrow_as CouldNotDelete (vfs_remove name))"

section \<open>The agent reference\<close>

definition getAgentAddress :: "world \<Rightarrow> string" where
  "getAgentAddress w = agentAddress w"

definition childId :: "string \<Rightarrow> string \<Rightarrow> u64 \<Rightarrow> string" where
  "childId childType agent n = childType @ ''-'' @ agent @ ''-'' @ dec_string (unat n)"

definition nextId :: "string \<Rightarrow> (world, string) prog" where
  "nextId childType = (\<lambda>w. (Inr (childId childType (agentAddress w) (nextIdCounter w)),
     w\<lparr>nextIdCounter := nextIdCounter w + 1\<rparr>))"

section \<open>The contract of a backend\<close>

text \<open>
  What \<open>Backend.hpp\<close> documents of the synchronous operations: \<open>contents s\<close> is what readers see, and
  \<open>sane s\<close> the internal condition every operation keeps.
\<close>

locale backend =
  fixes create :: "string \<Rightarrow> 'o \<Rightarrow> ('s, unit) prog"
    and overwrite :: "string \<Rightarrow> 'o \<Rightarrow> ('s, unit) prog"
    and read :: "string \<Rightarrow> ('s, 'o) prog"
    and remove :: "string \<Rightarrow> ('s, unit) prog"
    and contents :: "'s \<Rightarrow> string \<rightharpoonup> 'o"
    and sane :: "'s \<Rightarrow> bool"
  assumes create_new: "sane s \<Longrightarrow> contents s n = None \<Longrightarrow>
      \<exists>s'. create n c s = (Inr (), s') \<and> contents s' = (contents s)(n \<mapsto> c) \<and> sane s'"
    and create_existing: "sane s \<Longrightarrow> contents s n \<noteq> None \<Longrightarrow> \<exists>e. create n c s = (Inl e, s)"
    and overwrite_existing: "sane s \<Longrightarrow> contents s n \<noteq> None \<Longrightarrow>
      \<exists>s'. overwrite n c s = (Inr (), s') \<and> contents s' = (contents s)(n \<mapsto> c) \<and> sane s'"
    and overwrite_missing: "sane s \<Longrightarrow> contents s n = None \<Longrightarrow> \<exists>e. overwrite n c s = (Inl e, s)"
    and read_eq: "read n s = (case contents s n of None \<Rightarrow> Inl NoSuchObject | Some c \<Rightarrow> Inr c, s)"
    and remove_existing: "sane s \<Longrightarrow> contents s n \<noteq> None \<Longrightarrow>
      \<exists>s'. remove n s = (Inr (), s') \<and> contents s' = (contents s)(n := None) \<and> sane s'"
    and remove_missing: "sane s \<Longrightarrow> contents s n = None \<Longrightarrow> \<exists>e. remove n s = (Inl e, s)"
begin

lemma create_then_read:
  "sane s \<Longrightarrow> contents s n = None \<Longrightarrow> \<exists>s'. bnd (create n c) (\<lambda>_. read n) s = (Inr c, s')"
  using create_new [of s n c] by (force simp: read_eq bnd_def)

lemma overwrite_then_read:
  "sane s \<Longrightarrow> contents s n \<noteq> None \<Longrightarrow> \<exists>s'. bnd (overwrite n c) (\<lambda>_. read n) s = (Inr c, s')"
  using overwrite_existing [of s n c] by (force simp: read_eq bnd_def)

lemma remove_then_read:
  "sane s \<Longrightarrow> contents s n \<noteq> None \<Longrightarrow> \<exists>s'. bnd (remove n) (\<lambda>_. read n) s = (Inl NoSuchObject, s')"
  using remove_existing [of s n] by (force simp: read_eq bnd_def)

lemma create_remove_contents:
  assumes "sane s" and "contents s n = None"
  shows "\<exists>s'. bnd (create n c) (\<lambda>_. remove n) s = (Inr (), s') \<and> contents s' = contents s \<and> sane s'"
proof -
  obtain s1 where s1: "create n c s = (Inr (), s1)" "contents s1 = (contents s)(n \<mapsto> c)" "sane s1"
    using create_new [OF assms] by blast
  then obtain s2 where "remove n s1 = (Inr (), s2)" "contents s2 = (contents s1)(n := None)" "sane s2"
    using remove_existing [of s1 n] by auto
  with s1 assms(2) show ?thesis by (auto simp: fun_upd_idem)
qed

end

text \<open>The file system backend keeps one lock file per object file.\<close>

definition vfs_sane :: "world \<Rightarrow> bool" where
  "vfs_sane w \<longleftrightarrow> (\<forall>n. lockFiles w n \<longleftrightarrow> objects w n \<noteq> None)"

lemmas vfs_defs = vfs_create_def vfs_exists_def vfs_atomicOverwrite_def vfs_read_def vfs_remove_def
  vfs_lockHelper_def

lemma vfs_saneD: "vfs_sane w \<Longrightarrow> lockFiles w n \<longleftrightarrow> objects w n \<noteq> None"
  by (simp add: vfs_sane_def)

interpretation vfs: backend vfs_create vfs_atomicOverwrite vfs_read vfs_remove objects vfs_sane
proof unfold_locales
  show "vfs_read n s = (case objects s n of None \<Rightarrow> Inl NoSuchObject | Some c \<Rightarrow> Inr c, s)" for n s
    by (simp add: vfs_read_def split: option.split)
qed (auto simp: vfs_defs vfs_sane_def)

section \<open>Names of new objects\<close>

lemma dec_string_no_dash: "c \<in> set (dec_string n) \<Longrightarrow> c \<noteq> CHR ''-''"
proof (induction n rule: dec_string.induct)
  case (1 n)
  have "digit_char d \<noteq> CHR ''-''" if "d < 10" for d
  proof
    assume "digit_char d = CHR ''-''"
    then have "of_char (digit_char d) = (of_char (CHR ''-'') :: nat)" by simp
    with that show False by (simp add: digit_char_def)
  qed
  note digit = this
  show ?case
  proof (cases "n < 10")
    case True
    with "1.prems" digit show ?thesis by (simp add: dec_string.simps [of n])
  next
    case False
    with "1.prems" consider "c \<in> set (dec_string (n div 10))" | "c = digit_char (n mod 10)"
      by (auto simp: dec_string.simps [of n])
    then show ?thesis using "1.IH" [OF False] digit [of "n mod 10"] by cases simp_all
  qed
qed

text \<open>Names built from different counter values differ, whatever the kind of object.\<close>

lemma childId_inj: assumes "childId ct a m = childId ct' a' n" shows "m = n"
proof -
  have "takeWhile (\<lambda>c. c \<noteq> CHR ''-'') (rev (childId ct a m)) = rev (dec_string (unat m))" for ct a m
    by (simp add: childId_def takeWhile_append dec_string_no_dash)
  from this [of ct a m] this [of ct' a' n] assms have "dec_string (unat m) = dec_string (unat n)" by simp
  then show ?thesis by (simp add: word_unat_eq_iff dec_string_inj)
qed

text \<open>
  \<open>fresh_ids w k\<close>: the next \<open>k\<close> names the agent hands out are not in use. The agent address contains
  the host, the thread id, the start time and a process-wide counter, so no other agent builds them.
\<close>

definition fresh_ids :: "world \<Rightarrow> nat \<Rightarrow> bool" where
  "fresh_ids w k \<longleftrightarrow> (\<forall>ct i. i < k \<longrightarrow>
     objects w (childId ct (agentAddress w) (nextIdCounter w + of_nat i)) = None
     \<and> \<not> lockFiles w (childId ct (agentAddress w) (nextIdCounter w + of_nat i)))"

lemma fresh_ids_mono: "fresh_ids w k \<Longrightarrow> j \<le> k \<Longrightarrow> fresh_ids w j"
  by (auto simp: fresh_ids_def)

lemma fresh_ids_next:
  assumes "fresh_ids w (Suc k)"
  shows "objects w (childId ct (agentAddress w) (nextIdCounter w)) = None"
    and "\<not> lockFiles w (childId ct (agentAddress w) (nextIdCounter w))"
  using assms [unfolded fresh_ids_def, rule_format, of 0 ct] by simp_all

lemma of_nat_Suc_word_neq_0: "Suc i < 2 ^ 64 \<Longrightarrow> (1 + of_nat i :: u64) \<noteq> 0"
  using of_nat_word_eq_0_iff [of "Suc i", where 'w = 64] by simp

lemma fresh_ids_step:
  assumes "fresh_ids w (Suc k)" and "Suc k \<le> 2 ^ 64"
    and "agentAddress w' = agentAddress w" and "nextIdCounter w' = nextIdCounter w + 1"
    and "\<And>n. n \<noteq> childId ct (agentAddress w) (nextIdCounter w) \<Longrightarrow> objects w n = None \<Longrightarrow> objects w' n = None"
    and "\<And>n. n \<noteq> childId ct (agentAddress w) (nextIdCounter w) \<Longrightarrow> \<not> lockFiles w n \<Longrightarrow> \<not> lockFiles w' n"
  shows "fresh_ids w' k"
  unfolding fresh_ids_def
proof (intro allI impI)
  fix ct' i assume i: "i < k"
  let ?n = "childId ct' (agentAddress w') (nextIdCounter w' + of_nat i)"
  have n: "?n = childId ct' (agentAddress w) (nextIdCounter w + of_nat (Suc i))"
    by (simp add: assms(3,4) add.assoc)
  have "nextIdCounter w + of_nat (Suc i) \<noteq> nextIdCounter w"
    using of_nat_Suc_word_neq_0 [of i] i assms(2) by simp
  then have "?n \<noteq> childId ct (agentAddress w) (nextIdCounter w)"
    unfolding n by (metis childId_inj)
  with assms(5,6) show "objects w' ?n = None \<and> \<not> lockFiles w' ?n"
    using assms(1) i unfolding n by (simp add: fresh_ids_def del: of_nat_Suc)
qed

lemma fresh_ids_cong:
  assumes "fresh_ids w k" and "agentAddress w' = agentAddress w" and "nextIdCounter w' = nextIdCounter w"
    and "\<And>n. objects w n = None \<Longrightarrow> objects w' n = None" and "\<And>n. \<not> lockFiles w n \<Longrightarrow> \<not> lockFiles w' n"
  shows "fresh_ids w' k"
  using assms by (simp add: fresh_ids_def)

end
