(* ===== verification/ObjectOps.thy ===== *)
theory ObjectOps
  imports BackendVFS
begin

text \<open>
  \<open>objectstore/ObjectOps.hpp\<close>: the in-memory image of a stored object and the discipline of its use.
  The image \<open>'p oo\<close> carries the flags of \<open>ObjectOpsBase\<close>; every accessor checks them and throws when
  the object was not fetched or not locked. A \<open>scoped_lock\<close> is the RAII lock object; the pointer an
  image keeps to the exclusive lock that covers it is \<open>oo_exclusiveLock\<close> (\<open>None\<close> for the null pointer).
  Releasing a lock unlocks the object and its sub objects and voids what was read under it.
\<close>

section \<open>State\<close>

record scoped_lock =
  sl_exclusive :: bool
  sl_locked :: bool

record 'p oo =
  oo_nameSet :: bool
  oo_name :: string
  oo_version :: u64
  oo_owner :: string
  oo_backupowner :: string
  oo_headerInterpreted :: bool
  oo_payloadInterpreted :: bool
  oo_existingObject :: bool
  oo_locksCount :: int
  oo_locksForWriteCount :: int
  oo_noLock :: bool
  oo_exclusiveLock :: "scoped_lock option"
  oo_lockForSubObject :: bool
  oo_payload :: 'p

text \<open>The constructor \<open>ObjectOps(Backend & os)\<close>; the payload is a default protobuf message.\<close>

definition oo_new :: "'p \<Rightarrow> 'p oo" where
  "oo_new p = \<lparr>oo_nameSet = False, oo_name = '''', oo_version = 0, oo_owner = '''', oo_backupowner = '''',
     oo_headerInterpreted = False, oo_payloadInterpreted = False, oo_existingObject = False,
     oo_locksCount = 0, oo_locksForWriteCount = 0, oo_noLock = False, oo_exclusiveLock = None,
     oo_lockForSubObject = False, oo_payload = p\<rparr>"

section \<open>Checks\<close>

definition checkWritable :: "'p oo \<Rightarrow> exn + unit" where
  "checkWritable ob =
     (if oo_existingObject ob \<and> oo_locksForWriteCount ob = 0 then Inl NotLocked
      else if oo_existingObject ob \<and> oo_exclusiveLock ob = None \<and> \<not> oo_lockForSubObject ob
      then Inl (CtaException ''ObjectOps::checkWritable'')
      else Inr ())"

definition checkReadable :: "'p oo \<Rightarrow> exn + unit" where
  "checkReadable ob =
     (if oo_existingObject ob \<and> (oo_locksCount ob = 0 \<and> \<not> oo_noLock ob) then Inl NotLocked else Inr ())"

definition checkHeaderWritable :: "'p oo \<Rightarrow> exn + unit" where
  "checkHeaderWritable ob = (if \<not> oo_headerInterpreted ob then Inl NotFetched else checkWritable ob)"

definition checkHeaderReadable :: "'p oo \<Rightarrow> exn + unit" where
  "checkHeaderReadable ob = (if \<not> oo_headerInterpreted ob then Inl NotFetched else checkReadable ob)"

definition checkPayloadWritable :: "'p oo \<Rightarrow> exn + unit" where
  "checkPayloadWritable ob = (if \<not> oo_payloadInterpreted ob then Inl NotFetched else checkWritable ob)"

definition checkPayloadReadable :: "'p oo \<Rightarrow> exn + unit" where
  "checkPayloadReadable ob = (if \<not> oo_payloadInterpreted ob then Inl NotFetched else checkReadable ob)"

section \<open>Address, header and life cycle\<close>

definition setAddress :: "string \<Rightarrow> 'p oo \<Rightarrow> exn + 'p oo" where
  "setAddress name ob =
     (if oo_nameSet ob then Inl AddressAlreadySet
      else if name = '''' then Inl InvalidAddress
      else Inr (ob\<lparr>oo_name := name, oo_nameSet := True\<rparr>))"

definition resetAddress :: "'p oo \<Rightarrow> exn + 'p oo" where
  "resetAddress ob =
     (if oo_locksCount ob \<noteq> 0 \<or> oo_locksForWriteCount ob \<noteq> 0 then Inl StillLocked
      else Inr (ob\<lparr>oo_nameSet := False, oo_name := '''', oo_headerInterpreted := False,
                   oo_payloadInterpreted := False, oo_existingObject := False\<rparr>))"

definition getAddressIfSet :: "'p oo \<Rightarrow> exn + string" where
  "getAddressIfSet ob = (if \<not> oo_nameSet ob then Inl AddressNotSet else Inr (oo_name ob))"

definition resetValues :: "'p oo \<Rightarrow> 'p oo" where
  "resetValues ob = ob\<lparr>oo_existingObject := False, oo_headerInterpreted := False, oo_payloadInterpreted := False\<rparr>"

definition oo_remove :: "'p oo \<Rightarrow> (world, 'p oo) prog" where
  "oo_remove ob =
     bnd (liftr (checkWritable ob)) (\<lambda>_.
     bnd (liftr (getAddressIfSet ob)) (\<lambda>a.
     bnd (vfs_remove a) (\<lambda>_.
     ret (ob\<lparr>oo_existingObject := False, oo_headerInterpreted := False, oo_payloadInterpreted := False\<rparr>))))"

definition setOwner :: "string \<Rightarrow> 'p oo \<Rightarrow> exn + 'p oo" where
  "setOwner owner ob = rbind (checkHeaderWritable ob) (\<lambda>_. Inr (ob\<lparr>oo_owner := owner\<rparr>))"

definition getOwner :: "'p oo \<Rightarrow> exn + string" where
  "getOwner ob = rbind (checkHeaderReadable ob) (\<lambda>_. Inr (oo_owner ob))"

definition setBackupOwner :: "string \<Rightarrow> 'p oo \<Rightarrow> exn + 'p oo" where
  "setBackupOwner owner ob = rbind (checkHeaderWritable ob) (\<lambda>_. Inr (ob\<lparr>oo_backupowner := owner\<rparr>))"

definition getBackupOwner :: "'p oo \<Rightarrow> exn + string" where
  "getBackupOwner ob = rbind (checkHeaderReadable ob) (\<lambda>_. Inr (oo_backupowner ob))"

definition oo_initialize :: "'p oo \<Rightarrow> exn + 'p oo" where
  "oo_initialize ob =
     (if oo_headerInterpreted ob \<or> oo_existingObject ob then Inl NotNewObject
      else Inr (ob\<lparr>oo_version := 0, oo_owner := '''', oo_backupowner := '''', oo_headerInterpreted := True\<rparr>))"

definition oo_header :: "'p codec \<Rightarrow> 'p oo \<Rightarrow> object_header" where
  "oo_header c ob = \<lparr>oh_version = oo_version ob, oh_owner = oo_owner ob,
     oh_backupowner = oo_backupowner ob, oh_payload = enc c (oo_payload ob)\<rparr>"

definition oo_insert :: "'p codec \<Rightarrow> 'p oo \<Rightarrow> (world, 'p oo) prog" where
  "oo_insert c ob =
     (if oo_existingObject ob then throw NotNewObject
      else if \<not> oo_headerInterpreted ob \<or> \<not> oo_payloadInterpreted ob then throw NotInitialized
      else bnd (liftr (getAddressIfSet ob)) (\<lambda>a.
           bnd (vfs_create a (oo_header c ob)) (\<lambda>_.
           ret (ob\<lparr>oo_existingObject := True\<rparr>))))"

definition oo_commit :: "'p codec \<Rightarrow> 'p oo \<Rightarrow> (world, unit) prog" where
  "oo_commit c ob =
     bnd (liftr (checkPayloadWritable ob)) (\<lambda>_.
     if \<not> oo_existingObject ob then throw NewObject
     else bnd (liftr (getAddressIfSet ob)) (\<lambda>a. vfs_atomicOverwrite a (oo_header c ob)))"

definition oo_exists :: "'p oo \<Rightarrow> (world, bool) prog" where
  "oo_exists ob = bnd (liftr (getAddressIfSet ob)) (\<lambda>a. (\<lambda>w. (Inr (vfs_exists a w), w)))"

text \<open>\<open>getHeaderFromObjectData\<close> and \<open>getPayloadFromHeader\<close>.\<close>

definition oo_interpret :: "'p codec \<Rightarrow> object_header \<Rightarrow> 'p oo \<Rightarrow> exn + 'p oo" where
  "oo_interpret c h ob = (case dec c (oh_payload h) of
     None \<Rightarrow> Inl WrongType
   | Some p \<Rightarrow> Inr (ob\<lparr>oo_version := oh_version h, oo_owner := oh_owner h, oo_backupowner := oh_backupowner h,
       oo_headerInterpreted := True, oo_payloadInterpreted := True, oo_payload := p\<rparr>))"

definition fetchBottomHalf :: "'p codec \<Rightarrow> 'p oo \<Rightarrow> (world, 'p oo) prog" where
  "fetchBottomHalf c ob =
     bnd (liftr (getAddressIfSet ob)) (\<lambda>a.
     bnd (vfs_read a) (\<lambda>h. liftr (oo_interpret c h (ob\<lparr>oo_existingObject := True\<rparr>))))"

definition oo_fetch :: "'p codec \<Rightarrow> 'p oo \<Rightarrow> (world, 'p oo) prog" where
  "oo_fetch c ob = (if oo_locksCount ob = 0 then throw NotLocked else fetchBottomHalf c ob)"

definition oo_fetchNoLock :: "'p codec \<Rightarrow> 'p oo \<Rightarrow> (world, 'p oo) prog" where
  "oo_fetchNoLock c ob = fetchBottomHalf c (ob\<lparr>oo_noLock := True\<rparr>)"

text \<open>\<open>asyncLockfreeFetch\<close> followed by the \<open>wait\<close> of the fetcher.\<close>

definition asyncLockfreeFetch :: "'p codec \<Rightarrow> 'p oo \<Rightarrow> (world, 'p oo) prog" where
  "asyncLockfreeFetch c ob =
     bnd (liftr (getAddressIfSet ob)) (\<lambda>a.
     bnd (vfs_read a) (\<lambda>h. liftr (oo_interpret c h (ob\<lparr>oo_noLock := True, oo_existingObject := True\<rparr>))))"

section \<open>Locks\<close>

definition checkObjectAndAddressSet :: "'p oo \<Rightarrow> exn + unit" where
  "checkObjectAndAddressSet ob =
     (if \<not> oo_nameSet ob \<or> oo_name ob = '''' then Inl MissingAddress else Inr ())"

definition setObjectLocked :: "scoped_lock \<Rightarrow> 'p oo \<Rightarrow> 'p oo" where
  "setObjectLocked l ob =
     (if sl_exclusive l
      then ob\<lparr>oo_locksCount := oo_locksCount ob + 1, oo_locksForWriteCount := oo_locksForWriteCount ob + 1\<rparr>
      else ob\<lparr>oo_locksCount := oo_locksCount ob + 1\<rparr>)"

definition setObjectUnlocked :: "scoped_lock \<Rightarrow> 'p oo \<Rightarrow> 'p oo" where
  "setObjectUnlocked l ob =
     (if sl_exclusive l
      then ob\<lparr>oo_locksCount := oo_locksCount ob - 1, oo_locksForWriteCount := oo_locksForWriteCount ob - 1\<rparr>
      else ob\<lparr>oo_locksCount := oo_locksCount ob - 1\<rparr>)"

definition lock_object :: "scoped_lock \<Rightarrow> 'p oo \<Rightarrow> (world, scoped_lock \<times> 'p oo) prog" where
  "lock_object l ob =
     (if sl_locked l then throw AlreadyLocked
      else bnd (liftr (checkObjectAndAddressSet ob)) (\<lambda>_.
           bnd (liftr (getAddressIfSet ob)) (\<lambda>a.
           bnd (vfs_lockHelper a) (\<lambda>_.
             let l' = l\<lparr>sl_locked := True\<rparr>;
                 ob' = setObjectLocked l ob
             in ret (l', if sl_exclusive l then ob'\<lparr>oo_exclusiveLock := Some l'\<rparr> else ob')))))"

definition includeSubObject :: "scoped_lock \<Rightarrow> 'q oo \<Rightarrow> exn + 'q oo" where
  "includeSubObject l sub =
     (if \<not> sl_locked l then Inl NotLocked
      else rbind (checkObjectAndAddressSet sub) (\<lambda>_.
           Inr ((setObjectLocked l sub)\<lparr>oo_lockForSubObject := True\<rparr>)))"

definition unlock_and_void :: "scoped_lock \<Rightarrow> 'p oo \<Rightarrow> 'p oo" where
  "unlock_and_void l ob = (setObjectUnlocked l ob)\<lparr>oo_payloadInterpreted := False\<rparr>"

text \<open>
  \<open>release\<close>: the locked object and its sub objects. The object keeps its pointer to the lock, which is
  now an unlocked lock.
\<close>

definition lock_release :: "scoped_lock \<Rightarrow> 'p oo \<Rightarrow> 'q oo list \<Rightarrow> exn + scoped_lock \<times> 'p oo \<times> 'q oo list" where
  "lock_release l ob subs =
     (if \<not> sl_locked l then Inl NotLocked
      else let l' = l\<lparr>sl_locked := False\<rparr>;
               ob' = unlock_and_void l ob
           in Inr (l', ob'\<lparr>oo_exclusiveLock := map_option (\<lambda>_. l') (oo_exclusiveLock ob')\<rparr>,
                   map (unlock_and_void l) subs))"

text \<open>\<open>m_exclusiveLock->includeSubObject(sub)\<close> of the queues, for the queue \<open>ob\<close>.\<close>

definition include_in_exclusive_lock :: "'p oo \<Rightarrow> 'q oo \<Rightarrow> exn + 'q oo" where
  "include_in_exclusive_lock ob sub =
     (case oo_exclusiveLock ob of None \<Rightarrow> Inl Segfault | Some l \<Rightarrow> includeSubObject l sub)"

text \<open>The constructors of \<open>ScopedExclusiveLock\<close> and \<open>ScopedSharedLock\<close> on an object; the lock goes with the image.\<close>

definition exclusive_lock :: "'p oo \<Rightarrow> (world, 'p oo) prog" where
  "exclusive_lock ob = bnd (lock_object \<lparr>sl_exclusive = True, sl_locked = False\<rparr> ob) (\<lambda>(l, ob1). ret ob1)"

definition shared_lock :: "'p oo \<Rightarrow> (world, 'p oo) prog" where
  "shared_lock ob = bnd (lock_object \<lparr>sl_exclusive = False, sl_locked = False\<rparr> ob) (\<lambda>(l, ob1). ret ob1)"

lemmas check_defs = checkPayloadWritable_def checkPayloadReadable_def checkHeaderWritable_def
  checkHeaderReadable_def checkWritable_def checkReadable_def

lemmas oo_defs = oo_new_def setAddress_def getAddressIfSet_def oo_remove_def setOwner_def getOwner_def
  setBackupOwner_def oo_initialize_def oo_insert_def oo_commit_def oo_interpret_def fetchBottomHalf_def
  oo_fetch_def oo_fetchNoLock_def asyncLockfreeFetch_def checkObjectAndAddressSet_def setObjectLocked_def
  setObjectUnlocked_def includeSubObject_def include_in_exclusive_lock_def

section \<open>Objects held under the exclusive lock\<close>

text \<open>
  \<open>held ob\<close>: the state of a queue object in its client's hands, locked exclusively and fetched. All
  operations of the queues are called in this state.
\<close>

definition held :: "'p oo \<Rightarrow> bool" where
  "held ob \<longleftrightarrow> oo_nameSet ob \<and> oo_name ob \<noteq> '''' \<and> oo_headerInterpreted ob \<and> oo_payloadInterpreted ob
     \<and> oo_existingObject ob \<and> 0 < oo_locksCount ob \<and> 0 < oo_locksForWriteCount ob
     \<and> oo_exclusiveLock ob = Some \<lparr>sl_exclusive = True, sl_locked = True\<rparr>"

lemma held_checks [simp]:
  assumes "held ob"
  shows "checkPayloadWritable ob = Inr ()" "checkPayloadReadable ob = Inr ()" "checkHeaderWritable ob = Inr ()"
    "checkHeaderReadable ob = Inr ()" "checkWritable ob = Inr ()" "getAddressIfSet ob = Inr (oo_name ob)"
    "oo_existingObject ob"
  using assms by (simp_all add: held_def check_defs getAddressIfSet_def)

lemma held_payload_update [simp]: "held (ob\<lparr>oo_payload := p\<rparr>) \<longleftrightarrow> held ob"
  by (simp add: held_def)

lemma held_owner_update [simp]: "held (ob\<lparr>oo_owner := p\<rparr>) \<longleftrightarrow> held ob"
  by (simp add: held_def)

lemma oo_commit_held:
  "held ob \<Longrightarrow> oo_commit c ob w =
     (if vfs_exists (oo_name ob) w then (Inr (), w\<lparr>objects := (objects w)(oo_name ob \<mapsto> oo_header c ob)\<rparr>)
      else (Inl (CtaException ''BackendVFS::atomicOverwrite''), w))"
  by (simp add: oo_commit_def vfs_atomicOverwrite_def)

text \<open>The image of an object under its exclusive lock.\<close>

definition held_image :: "string \<Rightarrow> 'p \<Rightarrow> 'p oo" where
  "held_image name p = \<lparr>oo_nameSet = True, oo_name = name, oo_version = 0, oo_owner = '''', oo_backupowner = '''',
     oo_headerInterpreted = True, oo_payloadInterpreted = True, oo_existingObject = True, oo_locksCount = 1,
     oo_locksForWriteCount = 1, oo_noLock = False,
     oo_exclusiveLock = Some \<lparr>sl_exclusive = True, sl_locked = True\<rparr>, oo_lockForSubObject = False, oo_payload = p\<rparr>"

lemma held_image_simps [simp]: "oo_payload (held_image n p) = p" "oo_name (held_image n p) = n"
  "n \<noteq> '''' \<Longrightarrow> held (held_image n p)"
  by (simp_all add: held_image_def held_def)

section \<open>Stored objects\<close>

text \<open>
  \<open>stored c w a p\<close>: the store holds the payload \<open>p\<close> at the address \<open>a\<close>. \<open>usable ob a ex\<close>: an image of that
  object its holder may read and write, of an object that exists in the store (\<open>ex\<close>) or is still to be
  inserted.
\<close>

definition stored :: "'p codec \<Rightarrow> world \<Rightarrow> string \<Rightarrow> 'p \<Rightarrow> bool" where
  "stored c w a p \<longleftrightarrow> a \<noteq> '''' \<and> lockFiles w a \<and> (\<exists>h. objects w a = Some h \<and> oh_payload h = enc c p)"

definition missing :: "world \<Rightarrow> string \<Rightarrow> bool" where
  "missing w a \<longleftrightarrow> a \<noteq> '''' \<and> objects w a = None"

definition usable :: "'p oo \<Rightarrow> string \<Rightarrow> bool \<Rightarrow> bool" where
  "usable ob a ex \<longleftrightarrow> oo_nameSet ob \<and> oo_name ob = a \<and> a \<noteq> '''' \<and> oo_headerInterpreted ob \<and> oo_payloadInterpreted ob
     \<and> oo_existingObject ob = ex
     \<and> (ex \<longrightarrow> 0 < oo_locksCount ob \<and> 0 < oo_locksForWriteCount ob \<and> oo_lockForSubObject ob)"

lemma usable_payload_update [simp]: "usable (ob\<lparr>oo_payload := p\<rparr>) a ex \<longleftrightarrow> usable ob a ex"
  by (simp add: usable_def)

lemma usable_checks [simp]:
  assumes "usable ob a ex"
  shows "checkPayloadWritable ob = Inr ()" "checkPayloadReadable ob = Inr ()" "checkWritable ob = Inr ()"
    "getAddressIfSet ob = Inr a"
  using assms by (auto simp: usable_def check_defs getAddressIfSet_def)

lemma setAddress_new: "a \<noteq> '''' \<Longrightarrow> setAddress a (oo_new p0) = Inr ((oo_new p0)\<lparr>oo_name := a, oo_nameSet := True\<rparr>)"
  by (simp add: setAddress_def oo_new_def)

lemma locked_fetch_stored:
  assumes "held q" and "codec_ok c" and "stored c w a p"
  shows "\<exists>s1 s2. include_in_exclusive_lock q ((oo_new p0)\<lparr>oo_name := a, oo_nameSet := True\<rparr>) = Inr s1
    \<and> oo_fetch c s1 w = (Inr s2, w) \<and> usable s2 a True \<and> oo_payload s2 = p"
  using assms by (auto simp: held_def stored_def usable_def oo_defs vfs_read_def)

lemma locked_fetch_missing:
  assumes "held q" and "missing w a"
  shows "\<exists>s1. include_in_exclusive_lock q ((oo_new p0)\<lparr>oo_name := a, oo_nameSet := True\<rparr>) = Inr s1
    \<and> oo_fetch c s1 w = (Inl NoSuchObject, w)"
  using assms by (auto simp: held_def missing_def oo_defs vfs_read_def)

lemma usable_commit:
  "usable s a True \<Longrightarrow> lockFiles w a \<Longrightarrow> objects w a \<noteq> None \<Longrightarrow>
     oo_commit c s w = (Inr (), w\<lparr>objects := (objects w)(a \<mapsto> oo_header c s)\<rparr>)"
  by (simp add: oo_commit_def vfs_atomicOverwrite_def vfs_exists_def) (simp add: usable_def)

lemma usable_remove:
  "usable s a True \<Longrightarrow> lockFiles w a \<Longrightarrow> objects w a \<noteq> None \<Longrightarrow> \<exists>s'.
     oo_remove s w = (Inr s', w\<lparr>objects := (objects w)(a := None), lockFiles := (lockFiles w)(a := False)\<rparr>)"
  by (simp add: oo_remove_def vfs_remove_def)

lemma usable_insert:
  "usable s a False \<Longrightarrow> \<not> lockFiles w a \<Longrightarrow> objects w a = None \<Longrightarrow> \<exists>s'.
     oo_insert c s w = (Inr s', w\<lparr>objects := (objects w)(a \<mapsto> oo_header c s), lockFiles := (lockFiles w)(a := True)\<rparr>)"
  by (simp add: oo_insert_def vfs_create_def) (simp add: usable_def)

lemma storedD: "stored c w a p \<Longrightarrow> lockFiles w a \<and> objects w a \<noteq> None \<and> a \<noteq> ''''"
  by (auto simp: stored_def)

lemma stored_other:
  "stored c w a p \<Longrightarrow> objects w' a = objects w a \<Longrightarrow> lockFiles w' a = lockFiles w a \<Longrightarrow> stored c w' a p"
  by (simp add: stored_def)

lemma stored_header: "a \<noteq> '''' \<Longrightarrow> lockFiles w a \<Longrightarrow> objects w a = Some (oo_header c s) \<Longrightarrow> stored c w a (oo_payload s)"
  by (simp add: stored_def oo_header_def)

text \<open>What \<open>ScopedExclusiveLock\<close> and a fetch give on an object that is there, and on one that is not.\<close>

lemma exclusive_fetch_stored:
  assumes "codec_ok c" and "stored c w a p"
  shows "\<exists>s1 ob. exclusive_lock ((oo_new p0)\<lparr>oo_name := a, oo_nameSet := True\<rparr>) w = (Inr s1, w) \<and> oo_fetch c s1 w = (Inr ob, w)
    \<and> held ob \<and> oo_name ob = a \<and> oo_payload ob = p \<and> objects w a = Some (oo_header c ob)"
proof -
  obtain h where h: "objects w a = Some h" "oh_payload h = enc c p" "a \<noteq> []" "lockFiles w a" using assms(2) by (auto simp: stored_def)
  let ?l = "\<lparr>sl_exclusive = True, sl_locked = True\<rparr>"
  let ?s1 = "(oo_new p0)\<lparr>oo_name := a, oo_nameSet := True, oo_locksCount := 1, oo_locksForWriteCount := 1, oo_exclusiveLock := Some ?l\<rparr>"
  let ?ob = "?s1\<lparr>oo_existingObject := True, oo_version := oh_version h, oo_owner := oh_owner h, oo_backupowner := oh_backupowner h,
      oo_headerInterpreted := True, oo_payloadInterpreted := True, oo_payload := p\<rparr>"
  have "exclusive_lock ((oo_new p0)\<lparr>oo_name := a, oo_nameSet := True\<rparr>) w = (Inr ?s1, w)"
    using h by (simp add: exclusive_lock_def lock_object_def vfs_lockHelper_def oo_defs Let_def)
  moreover have "oo_fetch c ?s1 w = (Inr ?ob, w)" using h assms(1) by (simp add: oo_defs vfs_read_def)
  moreover have "held ?ob" "oo_header c ?ob = h" using h by (simp_all add: held_def oo_new_def oo_header_def)
  ultimately show ?thesis using h(1) by (intro exI [of _ ?s1] exI [of _ ?ob]) (simp add: oo_new_def)
qed

lemma exclusive_lock_missing:
  assumes "missing w a" and "\<not> lockFiles w a"
  shows "exclusive_lock ((oo_new p0)\<lparr>oo_name := a, oo_nameSet := True\<rparr>) w = (Inl NoSuchObject, w)"
  using assms by (simp add: missing_def exclusive_lock_def lock_object_def vfs_lockHelper_def oo_defs)

lemma shared_fetch_stored:
  assumes "codec_ok c" and "stored c w a p"
  shows "\<exists>s1 ob. shared_lock ((oo_new p0)\<lparr>oo_name := a, oo_nameSet := True\<rparr>) w = (Inr s1, w) \<and> oo_fetch c s1 w = (Inr ob, w)
    \<and> checkPayloadReadable ob = Inr () \<and> oo_name ob = a \<and> oo_payload ob = p"
  using assms by (clarsimp simp: stored_def shared_lock_def lock_object_def vfs_lockHelper_def oo_defs vfs_read_def) (simp add: check_defs)

end
