(* ===== verification/JobShard.thy ===== *)
theory JobShard
  imports ObjectOps
begin

text \<open>
  What \<open>ArchiveQueueShard.cpp\<close> and \<open>RetrieveQueueShard.cpp\<close> have in common: the two classes repeat the
  same removal loop and the same candidate selection loop on their list of job pointers. The loops are
  modelled once, over the accessors of the job pointer, and the contract the queues rely on is the
  locale \<open>job_shard\<close>, which each shard class interprets.
\<close>

section \<open>Results\<close>

record 'i removal_result =
  rmr_jobsRemoved :: u64
  rmr_jobsAfter :: u64
  rmr_bytesRemoved :: u64
  rmr_bytesAfter :: u64
  rmr_removedJobs :: "'i list"

definition removal_result_init :: "'i removal_result" where
  "removal_result_init = \<lparr>rmr_jobsRemoved = 0, rmr_jobsAfter = 0, rmr_bytesRemoved = 0, rmr_bytesAfter = 0,
     rmr_removedJobs = []\<rparr>"

record 'd candidate_job_list =
  cjl_remainingFilesAfterCandidates :: u64
  cjl_remainingBytesAfterCandidates :: u64
  cjl_candidateFiles :: u64
  cjl_candidateBytes :: u64
  cjl_candidates :: "'d list"

definition candidate_job_list_init :: "'d candidate_job_list" where
  "candidate_job_list_init = \<lparr>cjl_remainingFilesAfterCandidates = 0, cjl_remainingBytesAfterCandidates = 0,
     cjl_candidateFiles = 0, cjl_candidateBytes = 0, cjl_candidates = []\<rparr>"

section \<open>The removal loop\<close>

text \<open>
  The accounting of one removed job: the result, the local \<open>totalSize\<close> and the total sz field of the
  payload.
\<close>

type_synonym 'i removal_acc = "'i removal_result \<times> u64 \<times> u64"

definition account_removal :: "('j \<Rightarrow> u64) \<Rightarrow> ('j \<Rightarrow> 'i) \<Rightarrow> 'j \<Rightarrow> 'i removal_acc \<Rightarrow> 'i removal_acc" where
  "account_removal sz info j = (\<lambda>(ret, totalSize, payloadTotal).
     (ret\<lparr>rmr_removedJobs := rmr_removedJobs ret @ [info j],
          rmr_bytesRemoved := rmr_bytesRemoved ret + sz j,
          rmr_jobsRemoved := rmr_jobsRemoved ret + 1\<rparr>,
      totalSize - sz j, payloadTotal - sz j))"

lemma length_push_to_end [simp]: "length (push_to_end i xs) = length xs"
  by (induction i xs rule: push_to_end.induct) (subst push_to_end.simps, simp)

text \<open>\<open>do { ... } while (found)\<close>: every entry of the address is swapped to the end and dropped.\<close>

function remove_address ::
  "('j \<Rightarrow> string) \<Rightarrow> ('j \<Rightarrow> 'r \<Rightarrow> 'r) \<Rightarrow> string \<Rightarrow> 'j list \<times> 'r \<Rightarrow> 'j list \<times> 'r" where
  "remove_address addr account rrt (jl, acc) =
     (let i = find_index (\<lambda>j. addr j = rrt) jl
      in if i = length jl then (jl, acc)
         else remove_address addr account rrt (butlast (push_to_end i jl), account (jl ! i) acc))"
  by pat_completeness auto
termination
proof (relation "measure (\<lambda>(_, _, _, jl, _). length jl)", goal_cases)
  case (2 addr account rrt jl acc x)
  then show ?case by (cases jl) simp_all
qed simp

declare remove_address.simps [simp del]

definition remove_addresses ::
  "('j \<Rightarrow> string) \<Rightarrow> ('j \<Rightarrow> 'r \<Rightarrow> 'r) \<Rightarrow> string list \<Rightarrow> 'j list \<times> 'r \<Rightarrow> 'j list \<times> 'r" where
  "remove_addresses addr account jobsToRemove = fold (remove_address addr account) jobsToRemove"

text \<open>The jobs the loop takes out, in the order it does.\<close>

primrec taken_out :: "('j \<Rightarrow> string) \<Rightarrow> string list \<Rightarrow> 'j list \<Rightarrow> 'j list" where
  "taken_out addr [] jl = []"
| "taken_out addr (a # as) jl =
     filter (\<lambda>j. addr j = a) jl @ taken_out addr as (filter (\<lambda>j. addr j \<noteq> a) jl)"

lemma remove_address_none: "\<forall>j \<in> set jl. addr j \<noteq> a \<Longrightarrow> remove_address addr account a (jl, r) = (jl, r)"
  by (subst remove_address.simps) (simp add: find_index_eq_length)

lemma remove_address_found:
  assumes "addr j = a" and "\<forall>u \<in> set us. addr u \<noteq> a"
  shows "remove_address addr account a (us @ j # vs, r) = remove_address addr account a (us @ vs, account j r)"
proof -
  have "find_index (\<lambda>j. addr j = a) (us @ j # vs) = length us"
    using assms by (simp add: find_index_append_Cons)
  then show ?thesis
    by (subst remove_address.simps) (simp add: butlast_push_to_end)
qed

lemma remove_address_prefix:
  assumes "\<forall>u \<in> set us. addr u \<noteq> a"
  shows "remove_address addr account a (us @ vs, r)
    = (us @ filter (\<lambda>j. addr j \<noteq> a) vs, fold account (filter (\<lambda>j. addr j = a) vs) r)"
  using assms
proof (induction vs arbitrary: us r)
  case Nil
  then show ?case by (simp add: remove_address_none)
next
  case (Cons v vs)
  show ?case
  proof (cases "addr v = a")
    case True
    with Cons show ?thesis by (simp add: remove_address_found)
  next
    case False
    with Cons.IH [of "us @ [v]" r] Cons.prems show ?thesis by simp
  qed
qed

lemma remove_address_eq:
  "remove_address addr account a (jl, r)
    = (filter (\<lambda>j. addr j \<noteq> a) jl, fold account (filter (\<lambda>j. addr j = a) jl) r)"
  using remove_address_prefix [of "[]" addr a account jl r] by simp

lemma remove_addresses_eq:
  "remove_addresses addr account as (jl, r)
    = (filter (\<lambda>j. addr j \<notin> set as) jl, fold account (taken_out addr as jl) r)"
proof (induction as arbitrary: jl r)
  case (Cons a as)
  have "filter (\<lambda>j. addr j \<notin> set as) (filter (\<lambda>j. addr j \<noteq> a) jl) = filter (\<lambda>j. addr j \<notin> set (a # as)) jl"
    by (simp add: conj_commute)
  with Cons.IH show ?case by (simp add: remove_addresses_def remove_address_eq)
qed (simp add: remove_addresses_def)

lemma mset_taken_out: "mset (taken_out addr as jl) = filter_mset (\<lambda>j. addr j \<in> set as) (mset jl)"
proof (induction as arbitrary: jl)
  case (Cons a as)
  show ?case
    by (simp add: Cons.IH multiset_eq_iff)
qed simp

lemma set_taken_out: "set (taken_out addr as jl) = {j \<in> set jl. addr j \<in> set as}"
  using mset_taken_out [of addr as jl] by (metis set_mset_mset set_mset_filter)

lemma fold_account_removal:
  "fold (account_removal sz info) js (rm, t, p)
    = (rm\<lparr>rmr_removedJobs := rmr_removedJobs rm @ map info js,
           rmr_bytesRemoved := rmr_bytesRemoved rm + (\<Sum>j\<leftarrow>js. sz j),
           rmr_jobsRemoved := rmr_jobsRemoved rm + of_nat (length js)\<rparr>,
       t - (\<Sum>j\<leftarrow>js. sz j), p - (\<Sum>j\<leftarrow>js. sz j))"
  by (induction js arbitrary: rm t p) (simp_all add: account_removal_def algebra_simps)

lemma sum_list_mset_cong:
  fixes f :: "'j \<Rightarrow> 'b::comm_monoid_add"
  shows "mset xs = mset ys \<Longrightarrow> (\<Sum>x\<leftarrow>xs. f x) = (\<Sum>y\<leftarrow>ys. f y)"
  by (metis mset_map sum_mset_sum_list)

lemma mset_taken_out_filter: "mset (taken_out addr as jl) = mset (filter (\<lambda>j. addr j \<in> set as) jl)"
  by (simp add: mset_taken_out)

lemma sum_list_taken_out:
  fixes f :: "'j \<Rightarrow> 'b::ab_group_add"
  shows "(\<Sum>j\<leftarrow>taken_out addr as jl. f j) = (\<Sum>j\<leftarrow>jl. f j) - (\<Sum>j\<leftarrow>filter (\<lambda>j. addr j \<notin> set as) jl. f j)"
  using sum_list_mset_cong [OF mset_taken_out_filter] sum_list_map_filter_partition [of f "\<lambda>j. addr j \<in> set as" jl]
  by (rule trans)

lemma length_taken_out:
  "length (taken_out addr as jl) + length (filter (\<lambda>j. addr j \<notin> set as) jl) = length jl"
  using mset_eq_length [OF mset_taken_out_filter] sum_length_filter_compl [of "\<lambda>j. addr j \<in> set as" jl] by metis

section \<open>The candidate loop\<close>

fun candidate_loop ::
  "('j \<Rightarrow> bool) \<Rightarrow> ('j \<Rightarrow> u64) \<Rightarrow> ('j \<Rightarrow> 'd) \<Rightarrow> u64 \<Rightarrow> u64 \<Rightarrow> 'j list \<Rightarrow> 'd candidate_job_list \<Rightarrow> 'd candidate_job_list" where
  "candidate_loop skip sz dmp maxBytes maxFiles [] r = r"
| "candidate_loop skip sz dmp maxBytes maxFiles (j # js) r =
     (let r1 = (if skip j then r
                  else r\<lparr>cjl_candidates := cjl_candidates r @ [dmp j],
                           cjl_candidateBytes := cjl_candidateBytes r + sz j,
                           cjl_candidateFiles := cjl_candidateFiles r + 1\<rparr>);
          r2 = r1\<lparr>cjl_remainingBytesAfterCandidates := cjl_remainingBytesAfterCandidates r1 - sz j,
                      cjl_remainingFilesAfterCandidates := cjl_remainingFilesAfterCandidates r1 - 1\<rparr>
      in if cjl_candidateBytes r2 \<ge> maxBytes \<or> cjl_candidateFiles r2 \<ge> maxFiles then r2
         else candidate_loop skip sz dmp maxBytes maxFiles js r2)"

text \<open>
  Where the loop stops: after a non-empty prefix of the jobs, the first one at which one of the limits is
  reached, or at the end.
\<close>

definition limit_reached ::
  "('j \<Rightarrow> bool) \<Rightarrow> ('j \<Rightarrow> u64) \<Rightarrow> u64 \<Rightarrow> u64 \<Rightarrow> u64 \<Rightarrow> u64 \<Rightarrow> 'j list \<Rightarrow> bool" where
  "limit_reached skip sz maxBytes maxFiles b f js \<longleftrightarrow>
     b + (\<Sum>j\<leftarrow>filter (\<lambda>j. \<not> skip j) js. sz j) \<ge> maxBytes
     \<or> f + of_nat (length (filter (\<lambda>j. \<not> skip j) js)) \<ge> maxFiles"

lemma candidate_loop_eq:
  "\<exists>pre post. js = pre @ post \<and> (js \<noteq> [] \<longrightarrow> pre \<noteq> [])
     \<and> candidate_loop skip sz dmp mB mF js r = r
         \<lparr>cjl_candidates := cjl_candidates r @ map dmp (filter (\<lambda>j. \<not> skip j) pre),
          cjl_candidateBytes := cjl_candidateBytes r + (\<Sum>j\<leftarrow>filter (\<lambda>j. \<not> skip j) pre. sz j),
          cjl_candidateFiles := cjl_candidateFiles r + of_nat (length (filter (\<lambda>j. \<not> skip j) pre)),
          cjl_remainingBytesAfterCandidates := cjl_remainingBytesAfterCandidates r - (\<Sum>j\<leftarrow>pre. sz j),
          cjl_remainingFilesAfterCandidates := cjl_remainingFilesAfterCandidates r - of_nat (length pre)\<rparr>
     \<and> (post \<noteq> [] \<longrightarrow> limit_reached skip sz mB mF (cjl_candidateBytes r) (cjl_candidateFiles r) pre)
     \<and> (\<forall>n. 0 < n \<and> n < length pre \<longrightarrow>
          \<not> limit_reached skip sz mB mF (cjl_candidateBytes r) (cjl_candidateFiles r) (take n pre))"
proof (induction js arbitrary: r)
  case Nil
  show ?case by simp
next
  case (Cons j js)
  define r1 where "r1 = (if skip j then r
    else r\<lparr>cjl_candidates := cjl_candidates r @ [dmp j], cjl_candidateBytes := cjl_candidateBytes r + sz j,
           cjl_candidateFiles := cjl_candidateFiles r + 1\<rparr>)
      \<lparr>cjl_remainingBytesAfterCandidates := cjl_remainingBytesAfterCandidates r - sz j,
       cjl_remainingFilesAfterCandidates := cjl_remainingFilesAfterCandidates r - 1\<rparr>"
  have lim: "limit_reached skip sz mB mF (cjl_candidateBytes r) (cjl_candidateFiles r) (j # ks)
      \<longleftrightarrow> limit_reached skip sz mB mF (cjl_candidateBytes r1) (cjl_candidateFiles r1) ks" for ks
    by (simp add: limit_reached_def r1_def ac_simps)
  have loop: "candidate_loop skip sz dmp mB mF (j # js) r =
      (if limit_reached skip sz mB mF (cjl_candidateBytes r1) (cjl_candidateFiles r1) [] then r1
       else candidate_loop skip sz dmp mB mF js r1)"
    by (simp add: limit_reached_def r1_def Let_def)
  show ?case
  proof (cases "limit_reached skip sz mB mF (cjl_candidateBytes r1) (cjl_candidateFiles r1) []")
    case True
    show ?thesis
      by (rule exI [of _ "[j]"], rule exI [of _ js]) (use True in \<open>simp del: candidate_loop.simps add: loop lim, simp add: r1_def\<close>)
  next
    case False
    from Cons.IH [of r1] obtain pre post where IH: "js = pre @ post"
      "candidate_loop skip sz dmp mB mF js r1 = r1
         \<lparr>cjl_candidates := cjl_candidates r1 @ map dmp (filter (\<lambda>j. \<not> skip j) pre),
          cjl_candidateBytes := cjl_candidateBytes r1 + (\<Sum>j\<leftarrow>filter (\<lambda>j. \<not> skip j) pre. sz j),
          cjl_candidateFiles := cjl_candidateFiles r1 + of_nat (length (filter (\<lambda>j. \<not> skip j) pre)),
          cjl_remainingBytesAfterCandidates := cjl_remainingBytesAfterCandidates r1 - (\<Sum>j\<leftarrow>pre. sz j),
          cjl_remainingFilesAfterCandidates := cjl_remainingFilesAfterCandidates r1 - of_nat (length pre)\<rparr>"
      "post \<noteq> [] \<longrightarrow> limit_reached skip sz mB mF (cjl_candidateBytes r1) (cjl_candidateFiles r1) pre"
      "\<And>n. 0 < n \<Longrightarrow> n < length pre \<Longrightarrow>
          \<not> limit_reached skip sz mB mF (cjl_candidateBytes r1) (cjl_candidateFiles r1) (take n pre)"
      by blast
    have "\<not> limit_reached skip sz mB mF (cjl_candidateBytes r) (cjl_candidateFiles r) (take n (j # pre))"
      if "0 < n" "n < length (j # pre)" for n
      using that False IH(4) [of "n - 1"] by (cases n; cases "n = 1") (simp_all add: lim)
    moreover have "candidate_loop skip sz dmp mB mF (j # js) r = r
         \<lparr>cjl_candidates := cjl_candidates r @ map dmp (filter (\<lambda>j. \<not> skip j) (j # pre)),
          cjl_candidateBytes := cjl_candidateBytes r + (\<Sum>j\<leftarrow>filter (\<lambda>j. \<not> skip j) (j # pre). sz j),
          cjl_candidateFiles := cjl_candidateFiles r + of_nat (length (filter (\<lambda>j. \<not> skip j) (j # pre))),
          cjl_remainingBytesAfterCandidates := cjl_remainingBytesAfterCandidates r - (\<Sum>j\<leftarrow>(j # pre). sz j),
          cjl_remainingFilesAfterCandidates := cjl_remainingFilesAfterCandidates r - of_nat (length (j # pre))\<rparr>"
      using False by (simp del: candidate_loop.simps add: loop IH(2)) (simp add: r1_def algebra_simps)
    ultimately show ?thesis
      using IH(1,3) by (intro exI [of _ "j # pre"] exI [of _ post]) (simp del: candidate_loop.simps add: lim)
  qed
qed

section \<open>Candidates over several shards\<close>

lemma unat_sum_list: "(\<Sum>x\<leftarrow>xs. unat (f x)) < 2 ^ 64 \<Longrightarrow> unat (\<Sum>x\<leftarrow>xs. f x :: u64) = (\<Sum>x\<leftarrow>xs. unat (f x))"
  by (induction xs) (simp_all add: unat_word_ariths(1))

lemma word_limit_shift:
  fixes b s m :: u64
  assumes "b < m" and "unat b + unat s < 2 ^ 64"
  shows "m - b \<le> s \<longleftrightarrow> m \<le> b + s"
proof -
  have "unat (b + s) = unat b + unat s" using assms(2) by (simp add: unat_word_ariths(1))
  moreover have "unat (m - b) = unat m - unat b" using assms(1) by (simp add: unat_sub)
  ultimately show ?thesis using assms(1) by (auto simp: word_le_nat_alt word_less_nat_alt)
qed

text \<open>\<open>fits\<close>: neither the number of jobs nor their total size overflows.\<close>

definition fits :: "('j \<Rightarrow> u64) \<Rightarrow> 'j list \<Rightarrow> bool" where
  "fits sz js \<longleftrightarrow> (\<Sum>j\<leftarrow>js. unat (sz j)) < 2 ^ 64 \<and> length js < 2 ^ 64"

lemma sum_list_filter_le: "(\<Sum>x\<leftarrow>filter P xs. f x) \<le> (\<Sum>x\<leftarrow>xs. f x :: nat)"
  by (induction xs) auto

lemma limit_reached_shift:
  assumes "fits sz (pre @ js)" and "\<not> limit_reached skip sz mB mF 0 0 pre"
  shows "limit_reached skip sz (mB - (\<Sum>j\<leftarrow>filter (\<lambda>j. \<not> skip j) pre. sz j))
      (mF - of_nat (length (filter (\<lambda>j. \<not> skip j) pre))) 0 0 js \<longleftrightarrow> limit_reached skip sz mB mF 0 0 (pre @ js)"
proof -
  let ?b = "\<lambda>js. \<Sum>j\<leftarrow>filter (\<lambda>j. \<not> skip j) js. sz j" and ?f = "\<lambda>js. length (filter (\<lambda>j. \<not> skip j) js)"
  have lim: "?b pre < mB" "of_nat (?f pre) < mF" using assms(2) by (simp_all add: limit_reached_def not_le)
  have "(\<Sum>j\<leftarrow>filter (\<lambda>j. \<not> skip j) (pre @ js). unat (sz j)) < 2 ^ 64" "?f (pre @ js) < 2 ^ 64"
    using assms(1) sum_list_filter_le [of "\<lambda>j. unat (sz j)" "\<lambda>j. \<not> skip j" "pre @ js"]
      length_filter_le [of "\<lambda>j. \<not> skip j" "pre @ js"]
    unfolding fits_def by linarith+
  then have "unat (?b pre) + unat (?b js) < 2 ^ 64" "unat (of_nat (?f pre) :: u64) + unat (of_nat (?f js) :: u64) < 2 ^ 64"
    by (simp_all add: unat_sum_list unat_of_nat)
  from word_limit_shift [OF lim(1) this(1)] word_limit_shift [OF lim(2) this(2)] show ?thesis
    by (simp add: limit_reached_def)
qed

text \<open>
  What the queues' \<open>getCandidateList\<close> does with the jobs \<open>jss\<close> of their shards: the candidates of each shard
  within what is left of the limits, then the counts of the shards after the limit.
\<close>

fun candidates_walk ::
  "('j \<Rightarrow> bool) \<Rightarrow> ('j \<Rightarrow> u64) \<Rightarrow> ('j \<Rightarrow> 'd) \<Rightarrow> u64 \<Rightarrow> u64 \<Rightarrow> 'j list list \<Rightarrow> 'd candidate_job_list \<Rightarrow> 'd candidate_job_list" where
  "candidates_walk skip sz dmp mB mF [] r = r"
| "candidates_walk skip sz dmp mB mF (js # jss) r = candidates_walk skip sz dmp mB mF jss
     (if cjl_candidateBytes r < mB \<and> cjl_candidateFiles r < mF
      then let sc = candidate_loop skip sz dmp (mB - cjl_candidateBytes r) (mF - cjl_candidateFiles r) js
                  (candidate_job_list_init\<lparr>cjl_remainingBytesAfterCandidates := (\<Sum>j\<leftarrow>js. sz j),
                     cjl_remainingFilesAfterCandidates := of_nat (length js)\<rparr>)
           in r\<lparr>cjl_candidateBytes := cjl_candidateBytes r + cjl_candidateBytes sc,
                cjl_candidateFiles := cjl_candidateFiles r + cjl_candidateFiles sc,
                cjl_remainingBytesAfterCandidates := cjl_remainingBytesAfterCandidates sc,
                cjl_remainingFilesAfterCandidates := cjl_remainingFilesAfterCandidates sc,
                cjl_candidates := cjl_candidates r @ cjl_candidates sc\<rparr>
      else r\<lparr>cjl_remainingBytesAfterCandidates := cjl_remainingBytesAfterCandidates r + (\<Sum>j\<leftarrow>js. sz j),
             cjl_remainingFilesAfterCandidates := cjl_remainingFilesAfterCandidates r + of_nat (length js)\<rparr>)"

text \<open>The specification: the candidates are those of the prefix \<open>pre\<close>, and \<open>post\<close> is what remains.\<close>

definition candidates_of :: "('j \<Rightarrow> bool) \<Rightarrow> ('j \<Rightarrow> u64) \<Rightarrow> ('j \<Rightarrow> 'd) \<Rightarrow> 'j list \<Rightarrow> 'j list \<Rightarrow> 'd candidate_job_list" where
  "candidates_of skip sz dmp pre post =
     \<lparr>cjl_remainingFilesAfterCandidates = of_nat (length post), cjl_remainingBytesAfterCandidates = (\<Sum>j\<leftarrow>post. sz j),
      cjl_candidateFiles = of_nat (length (filter (\<lambda>j. \<not> skip j) pre)),
      cjl_candidateBytes = (\<Sum>j\<leftarrow>filter (\<lambda>j. \<not> skip j) pre. sz j),
      cjl_candidates = map dmp (filter (\<lambda>j. \<not> skip j) pre)\<rparr>"

lemma candidates_walk_done:
  "limit_reached skip sz mB mF 0 0 pre \<Longrightarrow>
     candidates_walk skip sz dmp mB mF jss (candidates_of skip sz dmp pre post) = candidates_of skip sz dmp pre (post @ concat jss)"
proof (induction jss arbitrary: post)
  case (Cons js jss)
  have guard: "\<not> (cjl_candidateBytes (candidates_of skip sz dmp pre post) < mB \<and> cjl_candidateFiles (candidates_of skip sz dmp pre post) < mF)"
    using Cons.prems by (auto simp: limit_reached_def candidates_of_def not_less)
  have "candidates_walk skip sz dmp mB mF (js # jss) (candidates_of skip sz dmp pre post)
      = candidates_walk skip sz dmp mB mF jss (candidates_of skip sz dmp pre (post @ js))"
    by (simp only: candidates_walk.simps if_not_P [OF guard]) (simp add: candidates_of_def)
  with Cons.IH [OF Cons.prems, of "post @ js"] show ?case by simp
qed simp

lemma candidate_loop_shard:
  fixes dmp :: "'j \<Rightarrow> 'b"
  shows
  "\<exists>p q. js = p @ q
     \<and> candidate_loop skip sz dmp mB mF js (candidate_job_list_init\<lparr>cjl_remainingBytesAfterCandidates := (\<Sum>j\<leftarrow>js. sz j),
                     cjl_remainingFilesAfterCandidates := of_nat (length js)\<rparr>) = candidates_of skip sz dmp p q
     \<and> (q \<noteq> [] \<longrightarrow> limit_reached skip sz mB mF 0 0 p)
     \<and> (\<forall>n. 0 < n \<and> n < length p \<longrightarrow> \<not> limit_reached skip sz mB mF 0 0 (take n p))"
proof -
  define r0 :: "'b candidate_job_list" where
    "r0 = candidate_job_list_init\<lparr>cjl_remainingBytesAfterCandidates := (\<Sum>j\<leftarrow>js. sz j),
                     cjl_remainingFilesAfterCandidates := of_nat (length js)\<rparr>"
  have r0: "cjl_candidateBytes r0 = 0" "cjl_candidateFiles r0 = 0" "cjl_candidates r0 = []"
    "cjl_remainingBytesAfterCandidates r0 = (\<Sum>j\<leftarrow>js. sz j)" "cjl_remainingFilesAfterCandidates r0 = of_nat (length js)"
    by (simp_all add: r0_def candidate_job_list_init_def)
  from candidate_loop_eq [of js skip sz dmp mB mF r0, unfolded r0] obtain p q where
    "js = p @ q" "q \<noteq> [] \<longrightarrow> limit_reached skip sz mB mF 0 0 p"
    "\<forall>n. 0 < n \<and> n < length p \<longrightarrow> \<not> limit_reached skip sz mB mF 0 0 (take n p)"
    and loop: "candidate_loop skip sz dmp mB mF js r0 = r0
         \<lparr>cjl_candidates := [] @ map dmp (filter (\<lambda>j. \<not> skip j) p),
          cjl_candidateBytes := 0 + (\<Sum>j\<leftarrow>filter (\<lambda>j. \<not> skip j) p. sz j),
          cjl_candidateFiles := 0 + of_nat (length (filter (\<lambda>j. \<not> skip j) p)),
          cjl_remainingBytesAfterCandidates := (\<Sum>j\<leftarrow>js. sz j) - (\<Sum>j\<leftarrow>p. sz j),
          cjl_remainingFilesAfterCandidates := of_nat (length js) - of_nat (length p)\<rparr>"
    by (elim exE conjE)
  moreover have "candidate_loop skip sz dmp mB mF js r0 = candidates_of skip sz dmp p q"
    unfolding loop using \<open>js = p @ q\<close> by (simp add: r0_def candidate_job_list_init_def candidates_of_def)
  ultimately show ?thesis unfolding r0_def by blast
qed

text \<open>\<open>stops_at\<close>: the first prefix of the jobs at which a limit is reached, or all of them.\<close>

definition stops_at :: "('j list \<Rightarrow> bool) \<Rightarrow> 'j list \<Rightarrow> 'j list \<Rightarrow> bool" where
  "stops_at reached pre post \<longleftrightarrow> (post \<noteq> [] \<longrightarrow> reached pre) \<and> (\<forall>n < length pre. \<not> reached (take n pre))"

lemma candidates_walk_eq:
  assumes "fits sz (pre0 @ concat jss)" and "\<forall>n < length pre0. \<not> limit_reached skip sz mB mF 0 0 (take n pre0)"
  shows "\<exists>pre post. pre0 @ concat jss = pre @ post \<and> stops_at (limit_reached skip sz mB mF 0 0) pre post
    \<and> candidates_walk skip sz dmp mB mF jss (candidates_of skip sz dmp pre0 []) = candidates_of skip sz dmp pre post"
  using assms
proof (induction jss arbitrary: pre0)
  case Nil
  then show ?case by (intro exI [of _ pre0] exI [of _ "[]"]) (simp add: stops_at_def)
next
  case (Cons js jss)
  let ?R = "limit_reached skip sz mB mF 0 0" and ?r = "candidates_of skip sz dmp pre0 []"
  show ?case
  proof (cases "?R pre0")
    case True
    with Cons.prems(2) candidates_walk_done [OF True, of dmp "js # jss" "[]"] show ?thesis
      by (intro exI [of _ pre0] exI [of _ "concat (js # jss)"]) (simp add: stops_at_def)
  next
    case False
    then have guard: "cjl_candidateBytes ?r < mB \<and> cjl_candidateFiles ?r < mF"
      by (simp add: limit_reached_def candidates_of_def not_le)
    let ?init = "candidate_job_list_init\<lparr>cjl_remainingBytesAfterCandidates := (\<Sum>j\<leftarrow>js. sz j),
                     cjl_remainingFilesAfterCandidates := of_nat (length js)\<rparr>"
    let ?R' = "limit_reached skip sz (mB - cjl_candidateBytes ?r) (mF - cjl_candidateFiles ?r) 0 0"
    from candidate_loop_shard [of js skip sz dmp "mB - cjl_candidateBytes ?r" "mF - cjl_candidateFiles ?r"]
    obtain p q where pq: "js = p @ q" "q \<noteq> [] \<longrightarrow> ?R' p" "\<forall>n. 0 < n \<and> n < length p \<longrightarrow> \<not> ?R' (take n p)"
      and loop: "candidate_loop skip sz dmp (mB - cjl_candidateBytes ?r) (mF - cjl_candidateFiles ?r) js ?init
        = candidates_of skip sz dmp p q"
      by (elim exE conjE)
    have fits: "fits sz (pre0 @ ks)" if "js = ks @ ks'" for ks ks'
      using Cons.prems(1) that by (simp add: fits_def)
    have shift: "?R' ks \<longleftrightarrow> ?R (pre0 @ ks)" if "js = ks @ ks'" for ks ks'
      using limit_reached_shift [OF fits [OF that] False] by (simp add: candidates_of_def)
    have step: "candidates_walk skip sz dmp mB mF (js # jss) ?r
        = candidates_walk skip sz dmp mB mF jss (candidates_of skip sz dmp (pre0 @ p) q)"
      by (simp only: candidates_walk.simps if_P [OF guard] loop Let_def) (simp add: candidates_of_def)
    have low: "\<not> ?R (take n (pre0 @ p))" if "n < length (pre0 @ p)" for n
    proof -
      consider "n < length pre0" | "n = length pre0" | "length pre0 < n" by linarith
      then show ?thesis
      proof cases
        case 3
        then have "take n (pre0 @ p) = pre0 @ take (n - length pre0) p" "js = take (n - length pre0) p @ drop (n - length pre0) p @ q"
          using pq(1) by simp_all
        moreover have "0 < n - length pre0" "n - length pre0 < length p" using 3 that by auto
        ultimately show ?thesis using pq(3) shift by metis
      qed (use Cons.prems(2) False in auto)
    qed
    show ?thesis
    proof (cases "q = []")
      case True
      have "fits sz ((pre0 @ p) @ concat jss)" using Cons.prems(1) pq(1) True by simp
      from Cons.IH [OF this] low step True pq(1) show ?thesis by auto
    next
      case q: False
      then have "?R (pre0 @ p)" using pq(2) shift [OF pq(1)] by simp
      with candidates_walk_done [OF this, of dmp jss q] step low pq(1) show ?thesis
        by (intro exI [of _ "pre0 @ p"] exI [of _ "q @ concat jss"]) (simp add: stops_at_def)
    qed
  qed
qed

text \<open>One shard of the queue contributes \<open>candidates_next\<close>. A queue whose step does just that on every
  shard it can reach collects the candidates of its whole job list; the archive and the retrieve queue
  both interpret this interface.\<close>

definition candidates_next ::
  "('j \<Rightarrow> bool) \<Rightarrow> ('j \<Rightarrow> u64) \<Rightarrow> ('j \<Rightarrow> 'd) \<Rightarrow> u64 \<Rightarrow> u64 \<Rightarrow> 'j list \<Rightarrow> 'd candidate_job_list \<Rightarrow> 'd candidate_job_list" where
  "candidates_next skip sz dmp mB mF js r = candidates_walk skip sz dmp mB mF [js] r"

lemma candidates_walk_next:
  "candidates_walk skip sz dmp mB mF (js # jss) r
   = candidates_walk skip sz dmp mB mF jss (candidates_next skip sz dmp mB mF js r)"
  by (simp add: candidates_next_def)

locale candidate_queue =
  fixes step :: "u64 \<Rightarrow> u64 \<Rightarrow> 'd candidate_job_list \<Rightarrow> 'p \<Rightarrow> ('w, 'd candidate_job_list) prog"
    and ptr :: "'a \<times> 'j list \<Rightarrow> 'p"
    and available :: "'w \<Rightarrow> 'a \<times> 'j list \<Rightarrow> bool"
    and skip :: "'j \<Rightarrow> bool"
    and sz :: "'j \<Rightarrow> u64"
    and dmp :: "'j \<Rightarrow> 'd"
  assumes step_next: "available w x \<Longrightarrow> step mB mF r (ptr x) w = (Inr (candidates_next skip sz dmp mB mF (snd x) r), w)"
begin

lemma walk:
  assumes "\<forall>x \<in> set v. available w x"
  shows "foldM (step mB mF) r (map ptr v) w = (Inr (candidates_walk skip sz dmp mB mF (map snd v) r), w)"
  using assms
proof (induction v arbitrary: r)
  case (Cons x v)
  have "available w x" using Cons.prems by simp
  from step_next [OF this] Cons show ?case
    by (simp add: candidates_walk_next del: candidates_walk.simps(2))
qed simp

lemma prefix:
  assumes avail: "\<forall>x \<in> set v. available w x" and fits: "fits sz (concat (map snd v))"
  shows "\<exists>pre post. concat (map snd v) = pre @ post \<and> stops_at (limit_reached skip sz mB mF 0 0) pre post
    \<and> foldM (step mB mF) candidate_job_list_init (map ptr v) w = (Inr (candidates_of skip sz dmp pre post), w)"
proof -
  have init: "candidate_job_list_init = candidates_of skip sz dmp [] []"
    by (simp add: candidate_job_list_init_def candidates_of_def)
  have "fits sz ([] @ concat (map snd v))" using fits by simp
  from candidates_walk_eq [OF this, of skip mB mF dmp] show ?thesis
    unfolding walk [OF avail] init by auto
qed

end

section \<open>Reading all the shards of a queue\<close>

primrec mapR :: "('a \<Rightarrow> 'e + 'b) \<Rightarrow> 'a list \<Rightarrow> 'e + 'b list" where
  "mapR f [] = Inr []"
| "mapR f (x # xs) = rbind (f x) (\<lambda>y. rbind (mapR f xs) (\<lambda>ys. Inr (y # ys)))"

lemma mapR_Inr: "\<forall>x \<in> set xs. f x = Inr (g x) \<Longrightarrow> mapR f xs = Inr (map g xs)"
  by (induction xs) simp_all

text \<open>
  The prologue shared by the functions that walk the shards of a queue: an image is made and a lock-free
  fetch launched for every shard pointer, and the results are waited for one by one afterwards.
\<close>

definition lockfree_fetch_all :: "'p codec \<Rightarrow> 'p \<Rightarrow> string list \<Rightarrow> (world, (string \<times> (exn + 'p oo)) list) prog" where
  "lockfree_fetch_all c p0 addresses =
     bnd (liftr (mapR (\<lambda>a. setAddress a (oo_new p0)) addresses)) (\<lambda>shards.
     (\<lambda>w. (Inr (map (\<lambda>s. (oo_name s, fst (asyncLockfreeFetch c s w))) shards), w)))"

section \<open>Lock-free images\<close>

text \<open>What a lock-free fetch of the shard at an address gives.\<close>

definition lockfree_image :: "'p codec \<Rightarrow> 'p \<Rightarrow> world \<Rightarrow> string \<Rightarrow> exn + 'p oo" where
  "lockfree_image c p0 w a = fst (asyncLockfreeFetch c ((oo_new p0)\<lparr>oo_name := a, oo_nameSet := True\<rparr>) w)"

lemma lockfree_fetch_all_eq:
  assumes "\<forall>a \<in> set as. a \<noteq> ''''"
  shows "lockfree_fetch_all c p0 as w = (Inr (map (\<lambda>a. (a, lockfree_image c p0 w a)) as), w)"
proof -
  have "mapR (\<lambda>a. setAddress a (oo_new p0)) as = Inr (map (\<lambda>a. (oo_new p0)\<lparr>oo_name := a, oo_nameSet := True\<rparr>) as)"
    using assms by (intro mapR_Inr) (simp add: setAddress_new)
  then show ?thesis by (simp add: lockfree_fetch_all_def lockfree_image_def)
qed

lemma lockfree_image_stored:
  assumes "codec_ok c" and "stored c w a p"
  shows "\<exists>s. lockfree_image c p0 w a = Inr s \<and> oo_payload s = p \<and> checkPayloadReadable s = Inr ()"
  using assms by (clarsimp simp: lockfree_image_def stored_def oo_defs vfs_read_def) (simp add: check_defs)

lemma lockfree_image_missing: "missing w a \<Longrightarrow> lockfree_image c p0 w a = Inl NoSuchObject"
  by (simp add: lockfree_image_def missing_def oo_defs vfs_read_def)

lemma lockfree_fetch_stored:
  assumes "codec_ok c" and "stored c w a p"
  shows "\<exists>s. oo_fetchNoLock c ((oo_new p0)\<lparr>oo_name := a, oo_nameSet := True\<rparr>) w = (Inr s, w)
    \<and> oo_payload s = p \<and> checkPayloadReadable s = Inr ()"
  using assms by (clarsimp simp: stored_def oo_defs vfs_read_def) (simp add: check_defs)

section \<open>The contract of a shard\<close>

locale job_shard =
  fixes jobs :: "'s \<Rightarrow> 'j list"
    and addr :: "'j \<Rightarrow> string"
    and sz :: "'j \<Rightarrow> u64"
    and info :: "'j \<Rightarrow> 'i"
    and totalsize :: "'s \<Rightarrow> u64"
    and removeJobs :: "string list \<Rightarrow> 's \<Rightarrow> 'i removal_result \<times> 's"
  assumes remove_jobs: "jobs (snd (removeJobs as s)) = filter (\<lambda>j. addr j \<notin> set as) (jobs s)"
    and remove_total: "totalsize (snd (removeJobs as s)) = totalsize s - (\<Sum>j\<leftarrow>taken_out addr as (jobs s). sz j)"
    and remove_result: "fst (removeJobs as s) =
      \<lparr>rmr_jobsRemoved = of_nat (length (taken_out addr as (jobs s))),
       rmr_jobsAfter = of_nat (length (filter (\<lambda>j. addr j \<notin> set as) (jobs s))),
       rmr_bytesRemoved = (\<Sum>j\<leftarrow>taken_out addr as (jobs s). sz j),
       rmr_bytesAfter = totalsize s - (\<Sum>j\<leftarrow>taken_out addr as (jobs s). sz j),
       rmr_removedJobs = map info (taken_out addr as (jobs s))\<rparr>"
begin

definition coherent :: "'s \<Rightarrow> bool" where
  "coherent s \<longleftrightarrow> totalsize s = (\<Sum>j\<leftarrow>jobs s. sz j)"

lemma remove_keeps_coherent: "coherent s \<Longrightarrow> coherent (snd (removeJobs as s))"
  by (simp add: coherent_def remove_jobs remove_total sum_list_taken_out)

lemma remove_bytesAfter:
  "coherent s \<Longrightarrow> rmr_bytesAfter (fst (removeJobs as s)) = (\<Sum>j\<leftarrow>filter (\<lambda>j. addr j \<notin> set as) (jobs s). sz j)"
  by (simp add: coherent_def remove_result sum_list_taken_out)

lemma remove_conserves:
  "mset (jobs s) = mset (jobs (snd (removeJobs as s))) + mset (taken_out addr as (jobs s))"
  using multiset_partition [of "mset (jobs s)" "\<lambda>j. addr j \<in> set as"]
  by (simp add: remove_jobs mset_taken_out add.commute)

lemma remove_none:
  assumes "\<forall>j \<in> set (jobs s). addr j \<notin> set as"
  shows "jobs (snd (removeJobs as s)) = jobs s" and "rmr_removedJobs (fst (removeJobs as s)) = []"
proof -
  show "jobs (snd (removeJobs as s)) = jobs s" using assms by (simp add: remove_jobs)
  have "set (taken_out addr as (jobs s)) = {}" using assms by (auto simp: set_taken_out)
  then show "rmr_removedJobs (fst (removeJobs as s)) = []" by (simp add: remove_result)
qed

lemma remove_twice:
  "jobs (snd (removeJobs as (snd (removeJobs as s)))) = jobs (snd (removeJobs as s))"
  "rmr_removedJobs (fst (removeJobs as (snd (removeJobs as s)))) = []"
  by (rule remove_none, simp add: remove_jobs)+

end

end
