(* ===== verification/ArchiveQueueShard.thy ===== *)
theory ArchiveQueueShard
  imports JobShard
begin

text \<open>
  \<open>objectstore/ArchiveQueueShard.cpp\<close>: a shard of an archive queue, the stored list of job pointers with
  its total size. Each operation starts with the check of the object it is called on; the payload level
  function under it is what the queue theory reasons about.
\<close>

section \<open>Data\<close>

record aqs_job_info =
  aji_size :: u64
  aji_address :: string
  aji_copyNb :: u32
  aji_priority :: u64
  aji_minArchiveRequestAge :: u64
  aji_startTime :: time_t
  aji_mountPolicyName :: string

record archive_job_dump =
  ajd_size :: u64
  ajd_address :: string
  ajd_copyNb :: u32

record jobs_summary =
  js_jobs :: u64
  js_bytes :: u64

text \<open>\<open>ArchiveRequest::JobDump\<close> and \<open>ArchiveQueue::JobToAdd\<close>.\<close>

record archive_request_job_dump =
  arjd_copyNb :: u32
  arjd_tapePool :: string
  arjd_owner :: string
  arjd_status :: ArchiveJobStatus

record archive_job_to_add =
  jta_job :: archive_request_job_dump
  jta_archiveRequestAddress :: string
  jta_archiveFileId :: u64
  jta_fileSize :: u64
  jta_policy :: mount_policy
  jta_startTime :: time_t

section \<open>Operations\<close>

definition aqs_empty :: archive_queue_shard where
  "aqs_empty = \<lparr>aqs_archivejobs = [], aqs_archivejobstotalsize = 0\<rparr>"

text \<open>The two constructors: without and with an address.\<close>

definition aqs_new :: "archive_queue_shard oo" where
  "aqs_new = oo_new aqs_empty"

definition aqs_at :: "string \<Rightarrow> exn + archive_queue_shard oo" where
  "aqs_at address = setAddress address aqs_new"

definition aqs_rebuild :: "archive_queue_shard oo \<Rightarrow> exn + archive_queue_shard oo" where
  "aqs_rebuild ob = rbind (checkPayloadWritable ob) (\<lambda>_.
     let totalSize = fold (\<lambda>j acc. acc + ajp_size j) (aqs_archivejobs (oo_payload ob)) 0
     in Inr (ob\<lparr>oo_payload := (oo_payload ob)\<lparr>aqs_archivejobstotalsize := totalSize\<rparr>\<rparr>))"

definition aqs_garbageCollect :: "archive_queue_shard oo \<Rightarrow> exn + archive_queue_shard oo" where
  "aqs_garbageCollect ob = Inl (CtaException ''ArchiveQueueShard::garbageCollect'')"

definition aqs_job_dump :: "archive_job_pointer \<Rightarrow> archive_job_dump" where
  "aqs_job_dump j = \<lparr>ajd_size = ajp_size j, ajd_address = ajp_address j, ajd_copyNb = as_uint16 (ajp_copynb j)\<rparr>"

definition aqs_candidates :: "u64 \<Rightarrow> u64 \<Rightarrow> string set \<Rightarrow> archive_queue_shard \<Rightarrow> archive_job_dump candidate_job_list" where
  "aqs_candidates maxBytes maxFiles archiveRequestsToSkip p =
     candidate_loop (\<lambda>j. ajp_address j \<in> archiveRequestsToSkip) ajp_size aqs_job_dump maxBytes maxFiles
       (aqs_archivejobs p)
       (candidate_job_list_init\<lparr>cjl_remainingBytesAfterCandidates := aqs_archivejobstotalsize p,
          cjl_remainingFilesAfterCandidates := of_nat (length (aqs_archivejobs p))\<rparr>)"

definition aqs_getCandidateJobList ::
  "u64 \<Rightarrow> u64 \<Rightarrow> string set \<Rightarrow> archive_queue_shard oo \<Rightarrow> exn + archive_job_dump candidate_job_list" where
  "aqs_getCandidateJobList maxBytes maxFiles archiveRequestsToSkip ob = rbind (checkPayloadReadable ob) (\<lambda>_.
     Inr (aqs_candidates maxBytes maxFiles archiveRequestsToSkip (oo_payload ob)))"

text \<open>The record \<open>removeJobs\<close> fills field by field; unlike \<open>dumpJobs\<close> it does not narrow \<open>copyNb\<close>.\<close>

definition aqs_removed_job_info :: "archive_job_pointer \<Rightarrow> aqs_job_info" where
  "aqs_removed_job_info j = \<lparr>aji_size = ajp_size j, aji_address = ajp_address j, aji_copyNb = ajp_copynb j,
     aji_priority = ajp_priority j, aji_minArchiveRequestAge = ajp_minarchiverequestage j,
     aji_startTime = ajp_starttime j, aji_mountPolicyName = ajp_mountpolicyname j\<rparr>"

definition aqs_remove_payload ::
  "string list \<Rightarrow> archive_queue_shard \<Rightarrow> aqs_job_info removal_result \<times> archive_queue_shard" where
  "aqs_remove_payload jobsToRemove p =
     (let totalSize = aqs_archivejobstotalsize p;
          (jl, rm, totalSize', payloadTotal) =
            remove_addresses ajp_address (account_removal ajp_size aqs_removed_job_info) jobsToRemove
              (aqs_archivejobs p, removal_result_init, totalSize, aqs_archivejobstotalsize p)
      in (rm\<lparr>rmr_bytesAfter := totalSize', rmr_jobsAfter := of_nat (length jl)\<rparr>,
          p\<lparr>aqs_archivejobs := jl, aqs_archivejobstotalsize := payloadTotal\<rparr>))"

definition aqs_removeJobs ::
  "string list \<Rightarrow> archive_queue_shard oo \<Rightarrow> exn + aqs_job_info removal_result \<times> archive_queue_shard oo" where
  "aqs_removeJobs jobsToRemove ob = rbind (checkPayloadWritable ob) (\<lambda>_.
     let (rm, p) = aqs_remove_payload jobsToRemove (oo_payload ob) in Inr (rm, ob\<lparr>oo_payload := p\<rparr>))"

definition aqs_initialize :: "string \<Rightarrow> archive_queue_shard oo \<Rightarrow> exn + archive_queue_shard oo" where
  "aqs_initialize owner ob =
     rbind (oo_initialize ob) (\<lambda>ob1.
     rbind (setOwner owner ob1) (\<lambda>ob2.
     rbind (setBackupOwner owner ob2) (\<lambda>ob3.
     Inr (ob3\<lparr>oo_payload := (oo_payload ob3)\<lparr>aqs_archivejobstotalsize := 0\<rparr>, oo_payloadInterpreted := True\<rparr>))))"

definition aqs_job_info_of :: "archive_job_pointer \<Rightarrow> aqs_job_info" where
  "aqs_job_info_of j = \<lparr>aji_size = ajp_size j, aji_address = ajp_address j, aji_copyNb = as_uint16 (ajp_copynb j),
     aji_priority = ajp_priority j, aji_minArchiveRequestAge = ajp_minarchiverequestage j,
     aji_startTime = ajp_starttime j, aji_mountPolicyName = ajp_mountpolicyname j\<rparr>"

definition aqs_dumpJobs :: "archive_queue_shard oo \<Rightarrow> exn + aqs_job_info list" where
  "aqs_dumpJobs ob = rbind (checkPayloadReadable ob) (\<lambda>_.
     Inr (map aqs_job_info_of (aqs_archivejobs (oo_payload ob))))"

definition aqs_getJobsSummary :: "archive_queue_shard oo \<Rightarrow> exn + jobs_summary" where
  "aqs_getJobsSummary ob = rbind (checkPayloadReadable ob) (\<lambda>_.
     Inr \<lparr>js_jobs = of_nat (length (aqs_archivejobs (oo_payload ob))),
          js_bytes = aqs_archivejobstotalsize (oo_payload ob)\<rparr>)"

definition aqs_job_pointer :: "archive_job_to_add \<Rightarrow> archive_job_pointer" where
  "aqs_job_pointer jobToAdd = \<lparr>ajp_fileid = jta_archiveFileId jobToAdd, ajp_size = jta_fileSize jobToAdd,
     ajp_address = jta_archiveRequestAddress jobToAdd, ajp_copynb = arjd_copyNb (jta_job jobToAdd),
     ajp_priority = mp_archivePriority (jta_policy jobToAdd),
     ajp_minarchiverequestage = mp_archiveMinRequestAge (jta_policy jobToAdd),
     ajp_starttime = jta_startTime jobToAdd, ajp_mountpolicyname = mp_name (jta_policy jobToAdd)\<rparr>"

definition aqs_addJob :: "archive_job_to_add \<Rightarrow> archive_queue_shard oo \<Rightarrow> exn + u64 \<times> archive_queue_shard oo" where
  "aqs_addJob jobToAdd ob = rbind (checkPayloadWritable ob) (\<lambda>_.
     let p = oo_payload ob;
         jobs = aqs_archivejobs p @ [aqs_job_pointer jobToAdd]
     in Inr (of_nat (length jobs), ob\<lparr>oo_payload := p\<lparr>aqs_archivejobs := jobs,
          aqs_archivejobstotalsize := aqs_archivejobstotalsize p + jta_fileSize jobToAdd\<rparr>\<rparr>))"

section \<open>Contract\<close>

lemma aqs_remove_payload_eq:
  "aqs_remove_payload as p =
     (let out = taken_out ajp_address as (aqs_archivejobs p);
          kept = filter (\<lambda>j. ajp_address j \<notin> set as) (aqs_archivejobs p);
          total = aqs_archivejobstotalsize p - (\<Sum>j\<leftarrow>out. ajp_size j)
      in (\<lparr>rmr_jobsRemoved = of_nat (length out), rmr_jobsAfter = of_nat (length kept),
           rmr_bytesRemoved = (\<Sum>j\<leftarrow>out. ajp_size j), rmr_bytesAfter = total,
           rmr_removedJobs = map aqs_removed_job_info out\<rparr>,
          p\<lparr>aqs_archivejobs := kept, aqs_archivejobstotalsize := total\<rparr>))"
  by (simp add: aqs_remove_payload_def remove_addresses_eq fold_account_removal removal_result_init_def Let_def)

interpretation aqs: job_shard aqs_archivejobs ajp_address ajp_size aqs_removed_job_info
  aqs_archivejobstotalsize aqs_remove_payload
  by unfold_locales (simp_all add: aqs_remove_payload_eq Let_def)

lemma fold_add_sizes: "fold (\<lambda>j acc. acc + f j) js a = a + (\<Sum>j\<leftarrow>js. f j)" for a :: "'a::comm_monoid_add"
  by (induction js arbitrary: a) (simp_all add: ac_simps)

text \<open>A shard whose total is the sum of its sizes.\<close>

abbreviation "aqs_coherent \<equiv> aqs.coherent"

lemma aqs_rebuild_eq:
  "checkPayloadWritable ob = Inr () \<Longrightarrow> aqs_rebuild ob = Inr (ob\<lparr>oo_payload :=
     (oo_payload ob)\<lparr>aqs_archivejobstotalsize := (\<Sum>j\<leftarrow>aqs_archivejobs (oo_payload ob). ajp_size j)\<rparr>\<rparr>)"
  by (simp add: aqs_rebuild_def fold_add_sizes)

end
