(* ===== verification/ArchiveQueue.thy ===== *)
theory ArchiveQueue
  imports ArchiveQueueShard
begin

text \<open>
  \<open>objectstore/ArchiveQueue.cpp\<close>: the queue of the archive jobs of a tape pool, a root object with
  summaries and pointers to shards stored as objects of their own. The operations take the in-memory
  image of the queue, work on the object store and return the new image. The file ends with the
  abstraction of a queue to the list of its shards' jobs and what each operation does to that list.
\<close>

section \<open>Life cycle and coherency\<close>

abbreviation "aq_c \<equiv> archive_queue_codec"
abbreviation "aqs_c \<equiv> archive_queue_shard_codec"

definition c_maxShardSize :: u64 where
  "c_maxShardSize = 25000"

definition aq_empty :: archive_queue where
  "aq_empty = \<lparr>aq_tapepool = '''', aq_archivequeueshards = [], aq_prioritymap = [],
     aq_minarchiverequestagemap = [], aq_mountpolicynamemap = [], aq_archivejobstotalsize = 0,
     aq_archivejobscount = 0, aq_oldestjobcreationtime = 0, aq_mapsrebuildcount = 0,
     aq_youngestjobcreationtime = 0\<rparr>"

definition aq_initialize :: "string \<Rightarrow> archive_queue oo \<Rightarrow> exn + archive_queue oo" where
  "aq_initialize name ob = rbind (oo_initialize ob) (\<lambda>ob1.
     Inr (ob1\<lparr>oo_payload := (oo_payload ob1)\<lparr>aq_tapepool := name, aq_archivejobstotalsize := 0,
            aq_archivejobscount := 0, aq_oldestjobcreationtime := 0, aq_youngestjobcreationtime := 0,
            aq_mapsrebuildcount := 0\<rparr>,
          oo_payloadInterpreted := True\<rparr>))"

definition aq_checkMapsAndShardsCoherency :: "archive_queue oo \<Rightarrow> exn + bool" where
  "aq_checkMapsAndShardsCoherency ob = rbind (checkPayloadReadable ob) (\<lambda>_.
     let p = oo_payload ob;
         bytesFromShardPointers = fold (\<lambda>aqs acc. acc + aqsp_shardbytescount aqs) (aq_archivequeueshards p) 0;
         jobsExpectedFromShardsPointers = fold (\<lambda>aqs acc. acc + aqsp_shardjobscount aqs) (aq_archivequeueshards p) 0
     in if aq_archivejobstotalsize p \<noteq> bytesFromShardPointers
           \<or> aq_archivejobscount p \<noteq> jobsExpectedFromShardsPointers then Inr False
        else rbind (total (aq_prioritymap p)) (\<lambda>t1.
          if t1 \<noteq> aq_archivejobscount p then Inr False
          else rbind (total (aq_minarchiverequestagemap p)) (\<lambda>t2.
            if t2 \<noteq> aq_archivejobscount p then Inr False
            else rbind (total (aq_mountpolicynamemap p)) (\<lambda>t3.
              Inr (t3 = aq_archivejobscount p)))))"

section \<open>Rebuild\<close>

text \<open>The local variables of \<open>rebuild\<close> that live across shards, and the payload it edits.\<close>

record aq_rebuild_state =
  rb_payload :: archive_queue
  rb_totalJobs :: u64
  rb_totalBytes :: u64
  rb_oldest :: time_t
  rb_youngest :: time_t

definition aq_rebuild_job ::
  "aq_rebuild_state \<times> u64 \<times> u64 \<Rightarrow> aqs_job_info \<Rightarrow> exn + aq_rebuild_state \<times> u64 \<times> u64" where
  "aq_rebuild_job = (\<lambda>(st, jobs, bytes) j.
     rbind (incCount (aji_priority j) (aq_prioritymap (rb_payload st))) (\<lambda>pm.
     rbind (incCount (aji_minArchiveRequestAge j) (aq_minarchiverequestagemap (rb_payload st))) (\<lambda>am.
     rbind (incCount (aji_mountPolicyName j) (aq_mountpolicynamemap (rb_payload st))) (\<lambda>mm.
     Inr (st\<lparr>rb_payload := (rb_payload st)\<lparr>aq_prioritymap := pm, aq_minarchiverequestagemap := am,
                aq_mountpolicynamemap := mm\<rparr>,
             rb_oldest := (if aji_startTime j <s rb_oldest st then aji_startTime j else rb_oldest st),
             rb_youngest := (if rb_youngest st <s aji_startTime j then aji_startTime j else rb_youngest st)\<rparr>,
          jobs + 1, bytes + aji_size j)))))"

text \<open>Erasing every shard pointer of an address, and recording a shard's summary in its pointer.\<close>

definition aq_erase_pointer :: "string \<Rightarrow> archive_queue \<Rightarrow> archive_queue" where
  "aq_erase_pointer address p =
     p\<lparr>aq_archivequeueshards := filter (\<lambda>sp. aqsp_address sp \<noteq> address) (aq_archivequeueshards p)\<rparr>"

definition aq_record_summary :: "string \<Rightarrow> u64 \<Rightarrow> u64 \<Rightarrow> archive_queue \<Rightarrow> exn + archive_queue" where
  "aq_record_summary address jobs bytes p =
     (let i = find_index (\<lambda>sp. aqsp_address sp = address) (aq_archivequeueshards p)
      in if i = length (aq_archivequeueshards p) then Inl (CtaException ''ArchiveQueue::rebuild'')
         else Inr (p\<lparr>aq_archivequeueshards := (aq_archivequeueshards p)
           [i := (aq_archivequeueshards p ! i)\<lparr>aqsp_shardjobscount := jobs, aqsp_shardbytescount := bytes\<rparr>]\<rparr>))"

text \<open>The shard's own total is wrong: fetch it under the queue's lock, recompute and commit it.\<close>

definition aq_repair_shard :: "archive_queue oo \<Rightarrow> string \<Rightarrow> (world, unit) prog" where
  "aq_repair_shard ob address =
     bnd (liftr (aqs_at address)) (\<lambda>aqs.
     bnd (liftr (include_in_exclusive_lock ob aqs)) (\<lambda>aqs.
     bnd (oo_fetch aqs_c aqs) (\<lambda>aqs.
     bnd (liftr (aqs_rebuild aqs)) (\<lambda>aqs.
     oo_commit aqs_c aqs))))"

definition aq_rebuild_shard ::
  "archive_queue oo \<Rightarrow> aq_rebuild_state \<Rightarrow> string \<times> (exn + archive_queue_shard oo) \<Rightarrow> (world, aq_rebuild_state) prog" where
  "aq_rebuild_shard ob st = (\<lambda>(address, fetched). case fetched of
     Inl NoSuchObject \<Rightarrow> ret (st\<lparr>rb_payload := aq_erase_pointer address (rb_payload st)\<rparr>)
   | Inl e \<Rightarrow> throw e
   | Inr s \<Rightarrow>
       bnd (liftr (aqs_dumpJobs s)) (\<lambda>dumped.
       bnd (liftr (foldR aq_rebuild_job (st, 0, 0) dumped)) (\<lambda>(st1, jobs, bytes).
       bnd (liftr (aq_record_summary address jobs bytes (rb_payload st1))) (\<lambda>p.
       bnd (liftr (aqs_getJobsSummary s)) (\<lambda>summary.
       bnd (if bytes \<noteq> js_bytes summary then aq_repair_shard ob address else ret ()) (\<lambda>_.
       ret (st1\<lparr>rb_payload := p, rb_totalJobs := rb_totalJobs st1 + jobs,
                rb_totalBytes := rb_totalBytes st1 + bytes\<rparr>)))))))"

definition aq_rebuild :: "archive_queue oo \<Rightarrow> (world, archive_queue oo) prog" where
  "aq_rebuild ob =
     bnd (liftr (checkPayloadWritable ob)) (\<lambda>_.
     let p = oo_payload ob;
         p0 = p\<lparr>aq_prioritymap := clear (aq_prioritymap p),
                aq_minarchiverequestagemap := clear (aq_minarchiverequestagemap p),
                aq_mountpolicynamemap := clear (aq_mountpolicynamemap p)\<rparr>
     in bnd (lockfree_fetch_all aqs_c aqs_empty (map aqsp_address (aq_archivequeueshards p0))) (\<lambda>fetched.
        bnd (foldM (aq_rebuild_shard ob)
               \<lparr>rb_payload = p0, rb_totalJobs = 0, rb_totalBytes = 0, rb_oldest = time_t_max, rb_youngest = time_t_min\<rparr>
               fetched) (\<lambda>st.
        ret (ob\<lparr>oo_payload := (rb_payload st)\<lparr>aq_archivejobscount := rb_totalJobs st,
               aq_archivejobstotalsize := rb_totalBytes st,
               aq_oldestjobcreationtime := rb_oldest st,
               aq_youngestjobcreationtime := rb_youngest st,
               aq_mapsrebuildcount := aq_mapsrebuildcount (rb_payload st) + 1\<rparr>\<rparr>))))"

definition aq_commit :: "archive_queue oo \<Rightarrow> (world, archive_queue oo) prog" where
  "aq_commit ob =
     bnd (liftr (aq_checkMapsAndShardsCoherency ob)) (\<lambda>coherent.
     bnd (if \<not> coherent then aq_rebuild ob else ret ob) (\<lambda>ob1.
     bnd (oo_commit aq_c ob1) (\<lambda>_. ret ob1)))"

text \<open>\<open>recomputeOldestAndYoungestJobCreationTime\<close>\<close>

definition aq_recompute_shard ::
  "archive_queue \<times> time_t \<times> time_t \<Rightarrow> string \<times> (exn + archive_queue_shard oo) \<Rightarrow> (world, archive_queue \<times> time_t \<times> time_t) prog" where
  "aq_recompute_shard = (\<lambda>(p, oldest, youngest) (address, fetched). case fetched of
     Inl NoSuchObject \<Rightarrow> ret (aq_erase_pointer address p, oldest, youngest)
   | Inl e \<Rightarrow> throw e
   | Inr s \<Rightarrow> bnd (liftr (aqs_dumpJobs s)) (\<lambda>jobs.
       ret (p, fold (\<lambda>j t. if aji_startTime j <s t then aji_startTime j else t) jobs oldest,
               fold (\<lambda>j t. if t <s aji_startTime j then aji_startTime j else t) jobs youngest)))"

definition aq_recomputeOldestAndYoungestJobCreationTime :: "archive_queue oo \<Rightarrow> (world, archive_queue oo) prog" where
  "aq_recomputeOldestAndYoungestJobCreationTime ob =
     bnd (liftr (checkPayloadWritable ob)) (\<lambda>_.
     bnd (lockfree_fetch_all aqs_c aqs_empty (map aqsp_address (aq_archivequeueshards (oo_payload ob)))) (\<lambda>fetched.
     bnd (foldM aq_recompute_shard (oo_payload ob, time_t_max, time_t_min) fetched) (\<lambda>(p, oldest, youngest).
     let p1 = (if oldest \<noteq> time_t_max then p\<lparr>aq_oldestjobcreationtime := oldest\<rparr> else p);
         p2 = (if youngest \<noteq> time_t_min then p1\<lparr>aq_youngestjobcreationtime := youngest\<rparr> else p1)
     in ret (ob\<lparr>oo_payload := p2\<rparr>))))"

definition aq_isEmpty :: "archive_queue oo \<Rightarrow> exn + bool" where
  "aq_isEmpty ob = rbind (checkPayloadReadable ob) (\<lambda>_. Inr (aq_archivequeueshards (oo_payload ob) = []))"

definition aq_setTapePool :: "string \<Rightarrow> archive_queue oo \<Rightarrow> exn + archive_queue oo" where
  "aq_setTapePool name ob = rbind (checkPayloadWritable ob) (\<lambda>_.
     Inr (ob\<lparr>oo_payload := (oo_payload ob)\<lparr>aq_tapepool := name\<rparr>\<rparr>))"

definition aq_getTapePool :: "archive_queue oo \<Rightarrow> exn + string" where
  "aq_getTapePool ob = rbind (checkPayloadReadable ob) (\<lambda>_. Inr (aq_tapepool (oo_payload ob)))"

section \<open>Adding jobs\<close>

text \<open>
  One turn of the inner loop: the queue's summaries, the shard (in memory) and the last shard pointer,
  which is the one \<open>aqsp\<close> points to.
\<close>

definition aq_count_job :: "archive_job_to_add \<Rightarrow> archive_queue \<Rightarrow> exn + archive_queue" where
  "aq_count_job job p =
     rbind (incCount (mp_archivePriority (jta_policy job)) (aq_prioritymap p)) (\<lambda>pm.
     rbind (incCount (mp_archiveMinRequestAge (jta_policy job)) (aq_minarchiverequestagemap p)) (\<lambda>am.
     rbind (incCount (mp_name (jta_policy job)) (aq_mountpolicynamemap p)) (\<lambda>mm.
     let p1 = p\<lparr>aq_prioritymap := pm, aq_minarchiverequestagemap := am, aq_mountpolicynamemap := mm\<rparr>;
         p2 = (if aq_archivejobscount p1 \<noteq> 0
               then p1\<lparr>aq_oldestjobcreationtime := (if jta_startTime job < aq_oldestjobcreationtime p1
                          then jta_startTime job else aq_oldestjobcreationtime p1),
                       aq_youngestjobcreationtime := (if jta_startTime job > aq_youngestjobcreationtime p1
                          then jta_startTime job else aq_youngestjobcreationtime p1),
                       aq_archivejobstotalsize := aq_archivejobstotalsize p1 + jta_fileSize job\<rparr>
               else p1\<lparr>aq_archivejobstotalsize := jta_fileSize job,
                       aq_oldestjobcreationtime := jta_startTime job,
                       aq_youngestjobcreationtime := jta_startTime job\<rparr>)
     in Inr (p2\<lparr>aq_archivejobscount := aq_archivejobscount p2 + 1\<rparr>))))"

definition aq_add_job ::
  "archive_job_to_add \<Rightarrow> archive_queue \<Rightarrow> archive_queue_shard oo \<Rightarrow> exn + archive_queue \<times> archive_queue_shard oo" where
  "aq_add_job job p aqs =
     rbind (aq_count_job job p) (\<lambda>p1.
     rbind (aqs_addJob job aqs) (\<lambda>(n, aqs1).
     let sps = aq_archivequeueshards p1;
         sp = last sps
     in Inr (p1\<lparr>aq_archivequeueshards := butlast sps @
               [sp\<lparr>aqsp_shardjobscount := n, aqsp_shardbytescount := aqsp_shardbytescount sp + jta_fileSize job\<rparr>]\<rparr>,
             aqs1)))"

text \<open>The inner \<open>while\<close>: until there is no more job or the shard is full. Returns the jobs left.\<close>

fun aq_fill_shard ::
  "archive_job_to_add list \<Rightarrow> archive_queue \<Rightarrow> archive_queue_shard oo
    \<Rightarrow> exn + archive_queue \<times> archive_queue_shard oo \<times> archive_job_to_add list" where
  "aq_fill_shard [] p aqs = Inr (p, aqs, [])"
| "aq_fill_shard (job # jobs) p aqs =
     (if aqsp_shardjobscount (last (aq_archivequeueshards p)) < c_maxShardSize
      then rbind (aq_add_job job p aqs) (\<lambda>(p1, aqs1). aq_fill_shard jobs p1 aqs1)
      else Inr (p, aqs, job # jobs))"

text \<open>A new shard in memory, with its pointer appended to the queue.\<close>

definition aq_new_shard :: "archive_queue oo \<Rightarrow> (world, archive_queue oo \<times> archive_queue_shard oo) prog" where
  "aq_new_shard ob =
     bnd (nextId (''ArchiveQueueShard-'' @ aq_tapepool (oo_payload ob))) (\<lambda>name.
     bnd (liftr (setAddress name aqs_new)) (\<lambda>aqs.
     bnd (liftr (getAddressIfSet ob)) (\<lambda>queueAddress.
     bnd (liftr (aqs_initialize queueAddress aqs)) (\<lambda>aqs.
     bnd (liftr (getAddressIfSet aqs)) (\<lambda>shardAddress.
     ret (ob\<lparr>oo_payload := (oo_payload ob)\<lparr>aq_archivequeueshards := aq_archivequeueshards (oo_payload ob) @
            [\<lparr>aqsp_address = shardAddress, aqsp_shardjobscount = 0, aqsp_shardbytescount = 0\<rparr>]\<rparr>\<rparr>, aqs))))))"

text \<open>
  The last shard, when it is not full: \<open>None\<close> when it is missing or does not match its pointer, in which
  case the queue is to be rebuilt.
\<close>

definition aq_last_shard :: "archive_queue oo \<Rightarrow> (world, archive_queue_shard oo option) prog" where
  "aq_last_shard ob =
     (let shardPointer = last (aq_archivequeueshards (oo_payload ob))
      in bnd (liftr (setAddress (aqsp_address shardPointer) aqs_new)) (\<lambda>aqs.
         bnd (liftr (include_in_exclusive_lock ob aqs)) (\<lambda>aqs.
         bnd (catch_none NoSuchObject (oo_fetch aqs_c aqs)) (\<lambda>fetched. case fetched of
           None \<Rightarrow> ret None
         | Some aqs \<Rightarrow>
             bnd (liftr (aqs_getJobsSummary aqs)) (\<lambda>shardSummary.
             if aqsp_shardbytescount shardPointer \<noteq> js_bytes shardSummary
                \<or> aqsp_shardjobscount shardPointer \<noteq> js_jobs shardSummary
             then ret None else ret (Some aqs))))))"

text \<open>The end of a round: fill the shard, commit the queue, then insert or commit the shard.\<close>

definition aq_finish_round ::
  "archive_job_to_add list \<Rightarrow> bool \<Rightarrow> archive_queue oo \<Rightarrow> archive_queue_shard oo
    \<Rightarrow> (world, archive_queue oo \<times> archive_job_to_add list) prog" where
  "aq_finish_round jobs newShard ob aqs =
     bnd (liftr (aq_fill_shard jobs (oo_payload ob) aqs)) (\<lambda>(p, aqs1, jobs1).
     bnd (aq_commit (ob\<lparr>oo_payload := p\<rparr>)) (\<lambda>ob1.
     bnd (if newShard then bnd (oo_insert aqs_c aqs1) (\<lambda>_. ret ()) else oo_commit aqs_c aqs1) (\<lambda>_.
     ret (ob1, jobs1))))"

text \<open>One iteration of the outer loop.\<close>

definition aq_add_round ::
  "archive_job_to_add list \<Rightarrow> archive_queue oo \<Rightarrow> (world, archive_queue oo \<times> archive_job_to_add list) prog" where
  "aq_add_round jobs ob =
     (let sps = aq_archivequeueshards (oo_payload ob)
      in if sps \<noteq> [] \<and> aqsp_shardjobscount (last sps) < c_maxShardSize
         then bnd (aq_last_shard ob) (\<lambda>found. case found of
                None \<Rightarrow> bnd (aq_rebuild ob) (\<lambda>ob1. bnd (aq_commit ob1) (\<lambda>ob2. ret (ob2, jobs)))
              | Some aqs \<Rightarrow> aq_finish_round jobs False ob aqs)
         else bnd (aq_new_shard ob) (\<lambda>(ob1, aqs). aq_finish_round jobs True ob1 aqs))"

fun aq_add_rounds :: "nat \<Rightarrow> archive_job_to_add list \<Rightarrow> archive_queue oo \<Rightarrow> (world, archive_queue oo) prog" where
  "aq_add_rounds fuel [] ob = ret ob"
| "aq_add_rounds 0 (job # jobs) ob = throw OutOfFuel"
| "aq_add_rounds (Suc fuel) (job # jobs) ob =
     bnd (aq_add_round (job # jobs) ob) (\<lambda>(ob1, jobs1). aq_add_rounds fuel jobs1 ob1)"

text \<open>
  Every round adds a job or rebuilds the queue, and after a rebuild the next round finds a last shard that
  matches its pointer: one round more than there are jobs is enough.
\<close>

definition aq_addJobsAndCommit :: "archive_job_to_add list \<Rightarrow> archive_queue oo \<Rightarrow> (world, archive_queue oo) prog" where
  "aq_addJobsAndCommit jobsToAdd ob =
     bnd (liftr (checkPayloadWritable ob)) (\<lambda>_. aq_add_rounds (Suc (length jobsToAdd)) jobsToAdd ob)"

section \<open>Reading\<close>

record aq_jobs_summary =
  aqjs_jobs :: u64
  aqjs_bytes :: u64
  aqjs_oldestJobStartTime :: time_t
  aqjs_youngestJobStartTime :: time_t
  aqjs_priority :: u64
  aqjs_minArchiveRequestAge :: u64
  aqjs_mountPolicyCountMap :: "string \<rightharpoonup> u64"

definition aq_getJobsSummary :: "archive_queue oo \<Rightarrow> exn + aq_jobs_summary" where
  "aq_getJobsSummary ob = rbind (checkPayloadReadable ob) (\<lambda>_.
     let p = oo_payload ob;
         r = \<lparr>aqjs_jobs = aq_archivejobscount p, aqjs_bytes = aq_archivejobstotalsize p,
              aqjs_oldestJobStartTime = aq_oldestjobcreationtime p,
              aqjs_youngestJobStartTime = aq_youngestjobcreationtime p,
              aqjs_priority = 0, aqjs_minArchiveRequestAge = 0, aqjs_mountPolicyCountMap = Map.empty\<rparr>
     in if aqjs_jobs r \<noteq> 0
        then rbind (maxValue (aq_prioritymap p)) (\<lambda>pr.
             rbind (minValue (aq_minarchiverequestagemap p)) (\<lambda>age.
             Inr (r\<lparr>aqjs_priority := pr, aqjs_minArchiveRequestAge := age,
                    aqjs_mountPolicyCountMap := getMap (aq_mountpolicynamemap p)\<rparr>)))
        else Inr r)"

text \<open>The jobs of the shards that could be read; \<open>NoSuchObject\<close> skips a shard.\<close>

definition aq_dump_shard ::
  "archive_job_dump list list \<Rightarrow> string \<times> (exn + archive_queue_shard oo) \<Rightarrow> exn + archive_job_dump list list" where
  "aq_dump_shard dumps = (\<lambda>(address, fetched). case fetched of
     Inl NoSuchObject \<Rightarrow> Inr dumps
   | Inl e \<Rightarrow> Inl e
   | Inr s \<Rightarrow> rbind (aqs_dumpJobs s) (\<lambda>jobs.
       Inr (dumps @ [map (\<lambda>j. \<lparr>ajd_size = aji_size j, ajd_address = aji_address j, ajd_copyNb = aji_copyNb j\<rparr>) jobs])))"

definition aq_shards_dumps :: "archive_queue oo \<Rightarrow> (world, archive_job_dump list list) prog" where
  "aq_shards_dumps ob =
     bnd (lockfree_fetch_all aqs_c aqs_empty (map aqsp_address (aq_archivequeueshards (oo_payload ob)))) (\<lambda>fetched.
     liftr (foldR aq_dump_shard [] fetched))"

definition aq_dumpJobs :: "archive_queue oo \<Rightarrow> (world, archive_job_dump list) prog" where
  "aq_dumpJobs ob =
     bnd (liftr (checkPayloadReadable ob)) (\<lambda>_. bnd (aq_shards_dumps ob) (\<lambda>dumps. ret (concat dumps)))"

record addition_summary =
  as_files :: u64
  as_bytes :: u64

definition aq_addJobsIfNecessaryAndCommit ::
  "archive_job_to_add list \<Rightarrow> archive_queue oo \<Rightarrow> (world, addition_summary \<times> archive_queue oo) prog" where
  "aq_addJobsIfNecessaryAndCommit jobsToAdd ob =
     bnd (liftr (checkPayloadWritable ob)) (\<lambda>_.
     bnd (aq_shards_dumps ob) (\<lambda>shardsDumps.
     let (jobsToReallyAdd, summary) = fold (\<lambda>jta (really, r).
           if \<exists>sd \<in> set shardsDumps. \<exists>sjd \<in> set sd. ajd_address sjd = jta_archiveRequestAddress jta then (really, r)
           else (really @ [jta], r\<lparr>as_bytes := as_bytes r + jta_fileSize jta, as_files := as_files r + 1\<rparr>))
           jobsToAdd ([], \<lparr>as_files = 0, as_bytes = 0\<rparr>)
     in bnd (aq_addJobsAndCommit jobsToReallyAdd ob) (\<lambda>ob1. ret (summary, ob1))))"

section \<open>Removing jobs\<close>

definition aq_uncount_job :: "archive_queue \<Rightarrow> aqs_job_info \<Rightarrow> exn + archive_queue" where
  "aq_uncount_job p j =
     rbind (decCount (aji_priority j) (aq_prioritymap p)) (\<lambda>pm.
     rbind (decCount (aji_minArchiveRequestAge j) (aq_minarchiverequestagemap p)) (\<lambda>am.
     rbind (decCount (aji_mountPolicyName j) (aq_mountpolicynamemap p)) (\<lambda>mm.
     Inr (p\<lparr>aq_prioritymap := pm, aq_minarchiverequestagemap := am, aq_mountpolicynamemap := mm\<rparr>))))"

text \<open>
  One iteration of the loop of \<open>removeJobsAndCommit\<close>: the shard at \<open>shardIndex\<close>. The result is the image of
  the queue, the jobs left to remove and the next index.
\<close>

definition aq_remove_from_shard ::
  "string list \<Rightarrow> archive_queue oo \<Rightarrow> string \<Rightarrow> (world, aqs_job_info removal_result) prog" where
  "aq_remove_from_shard localJobsToRemove ob address =
     bnd (liftr (aqs_at address)) (\<lambda>aqs.
     bnd (liftr (include_in_exclusive_lock ob aqs)) (\<lambda>aqs.
     bnd (oo_fetch aqs_c aqs) (\<lambda>aqs.
     bnd (liftr (aqs_removeJobs localJobsToRemove aqs)) (\<lambda>(removalResult, aqs).
     bnd (if rmr_jobsAfter removalResult \<noteq> 0 then oo_commit aqs_c aqs
          else bnd (oo_remove aqs) (\<lambda>_. ret ())) (\<lambda>_.
     ret removalResult)))))"

text \<open>The shard pointer after the removal: updated, or pushed to the end and trimmed when the shard is gone.\<close>

definition aq_after_removal ::
  "aqs_job_info removal_result \<Rightarrow> archive_queue oo \<Rightarrow> nat \<Rightarrow> (world, archive_queue oo \<times> nat) prog" where
  "aq_after_removal removalResult ob shardIndex =
     (let p = oo_payload ob;
          sps = aq_archivequeueshards p;
          shardPointer = sps ! shardIndex
      in if rmr_jobsAfter removalResult \<noteq> 0
         then let sp = shardPointer\<lparr>aqsp_shardbytescount := aqsp_shardbytescount shardPointer - rmr_bytesRemoved removalResult,
                                    aqsp_shardjobscount := aqsp_shardjobscount shardPointer - rmr_jobsRemoved removalResult\<rparr>;
                  ob1 = ob\<lparr>oo_payload := p\<lparr>aq_archivequeueshards := sps[shardIndex := sp]\<rparr>\<rparr>
              in bnd (if aqsp_shardbytescount sp \<noteq> rmr_bytesAfter removalResult
                         \<or> aqsp_shardjobscount sp \<noteq> rmr_jobsAfter removalResult
                      then aq_rebuild ob1 else ret ob1) (\<lambda>ob2.
                 ret (ob2, Suc shardIndex))
         else ret (ob\<lparr>oo_payload := p\<lparr>aq_archivequeueshards := butlast (push_to_end shardIndex sps)\<rparr>\<rparr>, shardIndex))"

definition aq_remove_round ::
  "string list \<Rightarrow> archive_queue oo \<Rightarrow> nat \<Rightarrow> (world, archive_queue oo \<times> string list \<times> nat) prog" where
  "aq_remove_round localJobsToRemove ob shardIndex =
     bnd (aq_remove_from_shard localJobsToRemove ob (aqsp_address (aq_archivequeueshards (oo_payload ob) ! shardIndex)))
       (\<lambda>removalResult.
     bnd (liftr (foldR aq_uncount_job (oo_payload ob) (rmr_removedJobs removalResult))) (\<lambda>p1.
     let p2 = p1\<lparr>aq_archivejobscount := aq_archivejobscount p1 - rmr_jobsRemoved removalResult,
                 aq_archivejobstotalsize := aq_archivejobstotalsize p1 - rmr_bytesRemoved removalResult\<rparr>
     in bnd (aq_after_removal removalResult (ob\<lparr>oo_payload := p2\<rparr>) shardIndex) (\<lambda>(ob3, shardIndex1).
        let localJobsToRemove1 = filter (\<lambda>ja. \<not> (\<exists>j \<in> set (rmr_removedJobs removalResult). aji_address j = ja)) localJobsToRemove
        in bnd (aq_recomputeOldestAndYoungestJobCreationTime ob3) (\<lambda>ob4.
           bnd (aq_commit ob4) (\<lambda>ob5.
           ret (ob5, localJobsToRemove1, shardIndex1))))))"

fun aq_remove_rounds :: "nat \<Rightarrow> string list \<Rightarrow> archive_queue oo \<Rightarrow> nat \<Rightarrow> (world, archive_queue oo) prog" where
  "aq_remove_rounds fuel localJobsToRemove ob shardIndex =
     (if localJobsToRemove \<noteq> [] \<and> shardIndex < length (aq_archivequeueshards (oo_payload ob))
      then (case fuel of
              0 \<Rightarrow> throw OutOfFuel
            | Suc fuel' \<Rightarrow> bnd (aq_remove_round localJobsToRemove ob shardIndex)
                (\<lambda>(ob1, localJobsToRemove1, shardIndex1). aq_remove_rounds fuel' localJobsToRemove1 ob1 shardIndex1))
      else ret ob)"

declare aq_remove_rounds.simps [simp del]

text \<open>Each round passes a shard or drops its pointer: as many rounds as shard pointers are enough.\<close>

definition aq_removeJobsAndCommit :: "string list \<Rightarrow> archive_queue oo \<Rightarrow> (world, archive_queue oo) prog" where
  "aq_removeJobsAndCommit jobsToRemove ob =
     bnd (liftr (checkPayloadWritable ob)) (\<lambda>_.
     aq_remove_rounds (length (aq_archivequeueshards (oo_payload ob))) jobsToRemove ob 0)"

section \<open>Candidates\<close>

definition aq_candidates_step ::
  "u64 \<Rightarrow> u64 \<Rightarrow> string set \<Rightarrow> archive_job_dump candidate_job_list \<Rightarrow> archive_queue_shard_pointer
    \<Rightarrow> (world, archive_job_dump candidate_job_list) prog" where
  "aq_candidates_step maxBytes maxFiles archiveRequestsToSkip r aqsp =
     (if cjl_candidateBytes r < maxBytes \<and> cjl_candidateFiles r < maxFiles
      then bnd (liftr (aqs_at (aqsp_address aqsp))) (\<lambda>aqs.
           bnd (oo_fetchNoLock aqs_c aqs) (\<lambda>aqs.
           bnd (liftr (aqs_getCandidateJobList (maxBytes - cjl_candidateBytes r) (maxFiles - cjl_candidateFiles r)
                         archiveRequestsToSkip aqs)) (\<lambda>sc.
           ret (r\<lparr>cjl_candidateBytes := cjl_candidateBytes r + cjl_candidateBytes sc,
                  cjl_candidateFiles := cjl_candidateFiles r + cjl_candidateFiles sc,
                  cjl_remainingBytesAfterCandidates := cjl_remainingBytesAfterCandidates sc,
                  cjl_remainingFilesAfterCandidates := cjl_remainingFilesAfterCandidates sc,
                  cjl_candidates := cjl_candidates r @ cjl_candidates sc\<rparr>))))
      else ret (r\<lparr>cjl_remainingBytesAfterCandidates := cjl_remainingBytesAfterCandidates r + aqsp_shardbytescount aqsp,
                  cjl_remainingFilesAfterCandidates := cjl_remainingFilesAfterCandidates r + aqsp_shardjobscount aqsp\<rparr>))"

definition aq_getCandidateList ::
  "u64 \<Rightarrow> u64 \<Rightarrow> string set \<Rightarrow> archive_queue oo \<Rightarrow> (world, archive_job_dump candidate_job_list) prog" where
  "aq_getCandidateList maxBytes maxFiles archiveRequestsToSkip ob =
     bnd (liftr (checkPayloadReadable ob)) (\<lambda>_.
     foldM (aq_candidates_step maxBytes maxFiles archiveRequestsToSkip) candidate_job_list_init
       (aq_archivequeueshards (oo_payload ob)))"

definition aq_getCandidateSummary :: "archive_queue oo \<Rightarrow> exn + archive_job_dump candidate_job_list" where
  "aq_getCandidateSummary ob = rbind (checkPayloadReadable ob) (\<lambda>_.
     Inr (fold (\<lambda>aqsp r. r\<lparr>cjl_candidateBytes := cjl_candidateBytes r + aqsp_shardbytescount aqsp,
                            cjl_candidateFiles := cjl_candidateFiles r + aqsp_shardjobscount aqsp\<rparr>)
            (aq_archivequeueshards (oo_payload ob)) candidate_job_list_init))"

end
