(* ===== verification/ArchiveQueueSpec.thy ===== *)
theory ArchiveQueueSpec
  imports ArchiveQueue
begin

text \<open>
  The abstraction of an archive queue: a list of shards, each with its address and its jobs, of which the
  queue object holds the pointers and the summaries and the object store holds the shards. Every
  operation of \<open>ArchiveQueue.cpp\<close> is shown to do to this list what its comment says, and to keep the
  queue object, the shards and the summaries in agreement.
\<close>

section \<open>Abstraction\<close>

type_synonym aq_view = "(string \<times> archive_job_pointer list) list"

definition view_jobs :: "('a \<times> 'j list) list \<Rightarrow> 'j list" where
  "view_jobs v = concat (map snd v)"

lemma view_jobs_simps [simp]:
  "view_jobs [] = []" "view_jobs (x # v) = snd x @ view_jobs v" "view_jobs (u @ v) = view_jobs u @ view_jobs v"
  by (simp_all add: view_jobs_def)

definition aq_shard_of :: "archive_job_pointer list \<Rightarrow> archive_queue_shard" where
  "aq_shard_of js = \<lparr>aqs_archivejobs = js, aqs_archivejobstotalsize = (\<Sum>j\<leftarrow>js. ajp_size j)\<rparr>"

definition aq_pointer_of :: "string \<times> archive_job_pointer list \<Rightarrow> archive_queue_shard_pointer" where
  "aq_pointer_of = (\<lambda>(a, js). \<lparr>aqsp_address = a, aqsp_shardjobscount = of_nat (length js),
     aqsp_shardbytescount = (\<Sum>j\<leftarrow>js. ajp_size j)\<rparr>)"

text \<open>The summaries of the queue object are those of the jobs \<open>js\<close>.\<close>

definition aq_maps :: "archive_queue \<Rightarrow> archive_job_pointer list \<Rightarrow> bool" where
  "aq_maps p js \<longleftrightarrow> represents (aq_prioritymap p) (mset (map ajp_priority js))
     \<and> represents (aq_minarchiverequestagemap p) (mset (map ajp_minarchiverequestage js))
     \<and> represents (aq_mountpolicynamemap p) (mset (map ajp_mountpolicyname js))"

definition aq_sums :: "archive_queue \<Rightarrow> archive_job_pointer list \<Rightarrow> bool" where
  "aq_sums p js \<longleftrightarrow> aq_archivejobscount p = of_nat (length js)
     \<and> aq_archivejobstotalsize p = (\<Sum>j\<leftarrow>js. ajp_size j) \<and> aq_maps p js"

definition aq_rep :: "archive_queue \<Rightarrow> aq_view \<Rightarrow> bool" where
  "aq_rep p v \<longleftrightarrow> aq_archivequeueshards p = map aq_pointer_of v \<and> aq_sums p (view_jobs v)"

definition aq_store :: "world \<Rightarrow> aq_view \<Rightarrow> bool" where
  "aq_store w v \<longleftrightarrow> distinct (map fst v) \<and> (\<forall>(a, js) \<in> set v. stored aqs_c w a (aq_shard_of js))"

text \<open>\<open>queue_ready\<close>: the image is held under the lock and its object is in the store, apart from the shards.\<close>

definition queue_ready :: "world \<Rightarrow> 'p oo \<Rightarrow> string set \<Rightarrow> bool" where
  "queue_ready w ob as \<longleftrightarrow> held ob \<and> vfs_exists (oo_name ob) w \<and> oo_name ob \<notin> as"

definition aq_inv :: "world \<Rightarrow> archive_queue oo \<Rightarrow> aq_view \<Rightarrow> bool" where
  "aq_inv w ob v \<longleftrightarrow> queue_ready w ob (fst ` set v) \<and> aq_rep (oo_payload ob) v \<and> aq_store w v"

lemma aq_sums_bound: "aq_sums p js \<Longrightarrow> length js < 2 ^ 64"
  by (auto simp: aq_sums_def aq_maps_def dest!: representsD(2))

lemma aq_pointer_of_sums:
  "(\<Sum>x\<leftarrow>v. aqsp_shardbytescount (aq_pointer_of x)) = (\<Sum>j\<leftarrow>view_jobs v. ajp_size j)"
  "(\<Sum>x\<leftarrow>v. aqsp_shardjobscount (aq_pointer_of x)) = of_nat (length (view_jobs v))"
  by (induction v) (auto simp: aq_pointer_of_def)

lemma aqsp_address_pointer_of [simp]: "aqsp_address (aq_pointer_of x) = fst x"
  by (simp add: aq_pointer_of_def split: prod.split)

section \<open>Commit\<close>

lemma aq_maps_totals:
  assumes "aq_maps p js"
  shows "total (aq_prioritymap p) = Inr (of_nat (length js))"
    and "total (aq_minarchiverequestagemap p) = Inr (of_nat (length js))"
    and "total (aq_mountpolicynamemap p) = Inr (of_nat (length js))"
  using assms by (auto simp: aq_maps_def dest!: total_represents)

lemma coherency_rep:
  assumes "held ob" and "aq_rep (oo_payload ob) v"
  shows "aq_checkMapsAndShardsCoherency ob = Inr True"
  using assms
  by (simp add: aq_checkMapsAndShardsCoherency_def Let_def aq_rep_def aq_sums_def fold_add_sizes
      aq_maps_totals [of _ "view_jobs v"] aq_pointer_of_sums comp_def)

lemma aq_commit_rep:
  assumes "held ob" and "vfs_exists (oo_name ob) w" and "aq_rep (oo_payload ob) v"
  shows "aq_commit ob w = (Inr ob, w\<lparr>objects := (objects w)(oo_name ob \<mapsto> oo_header aq_c ob)\<rparr>)"
  using assms by (simp add: aq_commit_def coherency_rep oo_commit_held)

section \<open>Filling a shard\<close>

lemma aq_sums_perm: "aq_sums p js \<Longrightarrow> mset js = mset js' \<Longrightarrow> aq_sums p js'"
  using sum_list_mset_cong [of js js' ajp_size] mset_eq_length [of js js']
  by (simp add: aq_sums_def aq_maps_def)

lemma aq_maps_inc:
  assumes "aq_maps p js" and "Suc (length js) < 2 ^ 64"
  shows "\<exists>pm am mm. incCount (ajp_priority j) (aq_prioritymap p) = Inr pm
    \<and> incCount (ajp_minarchiverequestage j) (aq_minarchiverequestagemap p) = Inr am
    \<and> incCount (ajp_mountpolicyname j) (aq_mountpolicynamemap p) = Inr mm
    \<and> aq_maps (p\<lparr>aq_prioritymap := pm, aq_minarchiverequestagemap := am, aq_mountpolicynamemap := mm\<rparr>) (js @ [j])"
proof -
  obtain pm where pm: "incCount (ajp_priority j) (aq_prioritymap p) = Inr pm"
    "represents pm (add_mset (ajp_priority j) (mset (map ajp_priority js)))"
    using incCount_represents [of "aq_prioritymap p" "mset (map ajp_priority js)" "ajp_priority j"] assms
    by (auto simp: aq_maps_def)
  obtain am where am: "incCount (ajp_minarchiverequestage j) (aq_minarchiverequestagemap p) = Inr am"
    "represents am (add_mset (ajp_minarchiverequestage j) (mset (map ajp_minarchiverequestage js)))"
    using incCount_represents [of "aq_minarchiverequestagemap p" "mset (map ajp_minarchiverequestage js)"] assms
    by (auto simp: aq_maps_def)
  obtain mm where mm: "incCount (ajp_mountpolicyname j) (aq_mountpolicynamemap p) = Inr mm"
    "represents mm (add_mset (ajp_mountpolicyname j) (mset (map ajp_mountpolicyname js)))"
    using incCount_represents [of "aq_mountpolicynamemap p" "mset (map ajp_mountpolicyname js)"] assms
    by (auto simp: aq_maps_def)
  from pm am mm show ?thesis by (simp add: aq_maps_def)
qed

lemma aq_count_job_sums:
  assumes "aq_sums p js" and "Suc (length js) < 2 ^ 64"
  shows "\<exists>p'. aq_count_job job p = Inr p' \<and> aq_sums p' (js @ [aqs_job_pointer job])
    \<and> aq_archivequeueshards p' = aq_archivequeueshards p \<and> aq_tapepool p' = aq_tapepool p"
proof -
  let ?j = "aqs_job_pointer job"
  from assms have maps: "aq_maps p js" and count: "aq_archivejobscount p = of_nat (length js)"
    and bytes: "aq_archivejobstotalsize p = (\<Sum>j\<leftarrow>js. ajp_size j)" by (simp_all add: aq_sums_def)
  from aq_maps_inc [OF maps assms(2), of ?j] obtain pm am mm where
    inc: "incCount (ajp_priority ?j) (aq_prioritymap p) = Inr pm"
    "incCount (ajp_minarchiverequestage ?j) (aq_minarchiverequestagemap p) = Inr am"
    "incCount (ajp_mountpolicyname ?j) (aq_mountpolicynamemap p) = Inr mm"
    "aq_maps (p\<lparr>aq_prioritymap := pm, aq_minarchiverequestagemap := am, aq_mountpolicynamemap := mm\<rparr>) (js @ [?j])"
    by blast
  have zero: "(of_nat (length js) :: u64) = 0 \<longleftrightarrow> js = []"
    using of_nat_word_eq_0_iff [of "length js", where 'w = 64] assms(2) by simp
  have keys: "ajp_priority ?j = mp_archivePriority (jta_policy job)"
    "ajp_minarchiverequestage ?j = mp_archiveMinRequestAge (jta_policy job)"
    "ajp_mountpolicyname ?j = mp_name (jta_policy job)" "ajp_size ?j = jta_fileSize job"
    by (simp_all add: aqs_job_pointer_def)
  show ?thesis
    using inc unfolding keys
    by (cases "js = []") (simp_all add: aq_count_job_def Let_def aq_sums_def aq_maps_def count bytes zero keys)
qed

lemma shard_not_full: "length js < 2 ^ 64 \<Longrightarrow> (of_nat (length js) :: u64) < c_maxShardSize \<longleftrightarrow> length js < 25000"
  by (simp add: c_maxShardSize_def word_less_nat_alt unat_of_nat)

lemma aqs_addJob_shard:
  assumes "usable s a ex" and "oo_payload s = aq_shard_of js"
  shows "aqs_addJob job s = Inr (of_nat (length (js @ [aqs_job_pointer job])),
    s\<lparr>oo_payload := aq_shard_of (js @ [aqs_job_pointer job])\<rparr>)"
  using assms by (simp add: aqs_addJob_def aq_shard_of_def Let_def) (simp add: aqs_job_pointer_def)

lemma aq_add_job_rep:
  assumes "aq_archivequeueshards p = sps @ [aq_pointer_of (a, js)]" and "aq_sums p (pre @ js)"
    and "usable s a ex" and "oo_payload s = aq_shard_of js" and "Suc (length (pre @ js)) < 2 ^ 64"
  shows "\<exists>p'. aq_add_job job p s = Inr (p', s\<lparr>oo_payload := aq_shard_of (js @ [aqs_job_pointer job])\<rparr>)
    \<and> aq_archivequeueshards p' = sps @ [aq_pointer_of (a, js @ [aqs_job_pointer job])]
    \<and> aq_sums p' (pre @ js @ [aqs_job_pointer job])"
proof -
  obtain p1 where p1: "aq_count_job job p = Inr p1" "aq_sums p1 ((pre @ js) @ [aqs_job_pointer job])"
    "aq_archivequeueshards p1 = aq_archivequeueshards p"
    using aq_count_job_sums [OF assms(2,5), of job] by blast
  moreover have "jta_fileSize job = ajp_size (aqs_job_pointer job)" by (simp add: aqs_job_pointer_def)
  ultimately show ?thesis
    using assms(1) aqs_addJob_shard [OF assms(3,4), of job]
    by (simp add: aq_add_job_def Let_def aq_pointer_of_def aq_sums_def aq_maps_def)
qed

lemma aq_fill_shard_rep:
  assumes "aq_archivequeueshards p = sps @ [aq_pointer_of (a, js)]" and "aq_sums p (pre @ js)"
    and "usable s a ex" and "oo_payload s = aq_shard_of js" and "length (pre @ js) + length jobs < 2 ^ 64"
  shows "\<exists>p' added left js'. jobs = added @ left \<and> js' = js @ map aqs_job_pointer added
    \<and> aq_fill_shard jobs p s = Inr (p', s\<lparr>oo_payload := aq_shard_of js'\<rparr>, left)
    \<and> aq_archivequeueshards p' = sps @ [aq_pointer_of (a, js')] \<and> aq_sums p' (pre @ js')
    \<and> (length js < 25000 \<and> jobs \<noteq> [] \<longrightarrow> added \<noteq> [])
    \<and> length js' \<le> max 25000 (length js) \<and> (left \<noteq> [] \<longrightarrow> 25000 \<le> length js')"
  using assms
proof (induction jobs arbitrary: p js s)
  case Nil
  then show ?case by (intro exI [of _ p]) simp
next
  case (Cons job jobs)
  have full: "aqsp_shardjobscount (last (aq_archivequeueshards p)) < c_maxShardSize \<longleftrightarrow> length js < 25000"
    using Cons.prems(1,5) shard_not_full [of js] by (simp add: aq_pointer_of_def)
  show ?case
  proof (cases "length js < 25000")
    case False
    then show ?thesis
      using full Cons.prems by (intro exI [of _ p] exI [of _ "[]"] exI [of _ "job # jobs"] exI [of _ js]) simp
  next
    case True
    let ?js1 = "js @ [aqs_job_pointer job]"
    let ?s1 = "s\<lparr>oo_payload := aq_shard_of ?js1\<rparr>"
    obtain p1 where p1: "aq_add_job job p s = Inr (p1, ?s1)"
      "aq_archivequeueshards p1 = sps @ [aq_pointer_of (a, ?js1)]" "aq_sums p1 (pre @ ?js1)"
      using aq_add_job_rep [OF Cons.prems(1-4), of job] Cons.prems(5) by auto
    have "usable ?s1 a ex" "oo_payload ?s1 = aq_shard_of ?js1" "length (pre @ ?js1) + length jobs < 2 ^ 64"
      using Cons.prems(3,5) by simp_all
    from Cons.IH [OF p1(2,3) this] obtain p' added left js' where IH: "jobs = added @ left"
      "js' = ?js1 @ map aqs_job_pointer added"
      "aq_fill_shard jobs p1 ?s1 = Inr (p', ?s1\<lparr>oo_payload := aq_shard_of js'\<rparr>, left)"
      "aq_archivequeueshards p' = sps @ [aq_pointer_of (a, js')]" "aq_sums p' (pre @ js')"
      "length js' \<le> max 25000 (length ?js1)" "left \<noteq> [] \<longrightarrow> 25000 \<le> length js'"
      by blast
    have "aq_fill_shard (job # jobs) p s = Inr (p', s\<lparr>oo_payload := aq_shard_of js'\<rparr>, left)"
      using True full p1(1) IH(3) by simp
    with IH(1,2,4-7) True show ?thesis
      by (intro exI [of _ p'] exI [of _ "job # added"] exI [of _ left] exI [of _ js']) simp
  qed
qed

section \<open>A round of addition\<close>

text \<open>The store changed at most at the addresses of \<open>S\<close>.\<close>

definition same_except :: "string set \<Rightarrow> world \<Rightarrow> world \<Rightarrow> bool" where
  "same_except S w w' \<longleftrightarrow> (\<forall>n. n \<notin> S \<longrightarrow> objects w' n = objects w n \<and> lockFiles w' n = lockFiles w n)
     \<and> agentAddress w' = agentAddress w"

lemma same_exceptD:
  assumes "same_except S w w'" and "n \<notin> S"
  shows "objects w' n = objects w n" and "lockFiles w' n = lockFiles w n"
  using assms by (simp_all add: same_except_def)

lemma same_except_refl: "same_except S w w"
  by (simp add: same_except_def)

lemma same_except_trans: "same_except S w w' \<Longrightarrow> same_except T w' w'' \<Longrightarrow> S \<subseteq> U \<Longrightarrow> T \<subseteq> U \<Longrightarrow> same_except U w w''"
  unfolding same_except_def by (metis subsetD)

lemma same_except_fresh:
  assumes "same_except S w w'" and "\<forall>m \<in> S - T. objects w m \<noteq> None \<and> lockFiles w m" and "n \<notin> T"
  shows "objects w n = None \<Longrightarrow> objects w' n = None" and "\<not> lockFiles w n \<Longrightarrow> \<not> lockFiles w' n"
  using assms same_exceptD [OF assms(1), of n] by (metis DiffI)+

lemma fresh_ids_same:
  assumes "fresh_ids w k" and "same_except S w w'" and "\<forall>m \<in> S. objects w m \<noteq> None \<and> lockFiles w m"
    and "nextIdCounter w' = nextIdCounter w"
  shows "fresh_ids w' k"
proof (rule fresh_ids_cong [OF assms(1)])
  show "agentAddress w' = agentAddress w" using assms(2) by (simp add: same_except_def)
qed (use assms(4) same_except_fresh [OF assms(2), of "{}"] assms(3) in auto)

lemma fresh_ids_same_step:
  assumes "fresh_ids w (Suc k)" and "Suc k \<le> 2 ^ 64" and "nextIdCounter w' = nextIdCounter w + 1"
    and "same_except S w w'" and "\<forall>m \<in> S - {childId ct (agentAddress w) (nextIdCounter w)}. objects w m \<noteq> None \<and> lockFiles w m"
  shows "fresh_ids w' k"
proof (rule fresh_ids_step [OF assms(1,2), of w' ct])
  show "agentAddress w' = agentAddress w" using assms(4) by (simp add: same_except_def)
qed (use assms(3) same_except_fresh [OF assms(4,5)] in auto)

lemma aq_store_append:
  "aq_store w (v @ [(a, js)]) \<longleftrightarrow> aq_store w v \<and> a \<notin> fst ` set v \<and> stored aqs_c w a (aq_shard_of js)"
  by (auto simp: aq_store_def)

lemma aq_store_same:
  assumes "aq_store w v" and "same_except S w w'" and "fst ` set v \<inter> S = {}"
  shows "aq_store w' v"
proof -
  have "stored aqs_c w' a (aq_shard_of js)" if "(a, js) \<in> set v" for a js
  proof -
    have "a \<notin> S" using that assms(3) by force
    then show ?thesis
      using assms(1) that stored_other [of aqs_c w a "aq_shard_of js" w'] same_exceptD [OF assms(2)]
      by (auto simp: aq_store_def)
  qed
  then show ?thesis using assms(1) by (auto simp: aq_store_def)
qed

text \<open>A shard image written over the shard in the store, or inserted when it is new.\<close>

lemma write_shard:
  assumes "usable s a (\<not> newShard)" and "oo_payload s = aq_shard_of js"
    and "if newShard then \<not> lockFiles w a \<and> objects w a = None else lockFiles w a \<and> objects w a \<noteq> None"
  shows "\<exists>w'. (if newShard then bnd (oo_insert aqs_c s) (\<lambda>_. ret ()) else oo_commit aqs_c s) w = (Inr (), w')
    \<and> stored aqs_c w' a (aq_shard_of js) \<and> same_except {a} w w' \<and> nextIdCounter w' = nextIdCounter w"
proof -
  have a: "a \<noteq> ''''" using assms(1) by (simp add: usable_def)
  show ?thesis
  proof (cases newShard)
    case True
    with assms a usable_insert [of s a w aqs_c] show ?thesis
      by (auto simp: same_except_def stored_def oo_header_def assms(2) [symmetric])
  next
    case False
    with assms a usable_commit [of s a w aqs_c] show ?thesis
      by (auto simp: same_except_def stored_def oo_header_def assms(2) [symmetric])
  qed
qed

lemma aq_finish_round_rep:
  assumes ready: "queue_ready w ob (fst ` set (v @ [(a, js)]))" and rep: "aq_rep (oo_payload ob) (v @ [(a, js)])"
    and store: "aq_store w v" and a: "a \<notin> fst ` set v"
    and s: "usable s a (\<not> newShard)" "oo_payload s = aq_shard_of js"
    and new: "if newShard then \<not> lockFiles w a \<and> objects w a = None else lockFiles w a \<and> objects w a \<noteq> None"
    and bound: "length (view_jobs v @ js) + length jobs < 2 ^ 64"
  shows "\<exists>ob' w' added left js'. jobs = added @ left \<and> js' = js @ map aqs_job_pointer added
    \<and> aq_finish_round jobs newShard ob s w = (Inr (ob', left), w')
    \<and> aq_inv w' ob' (v @ [(a, js')]) \<and> objects w' (oo_name ob) = Some (oo_header aq_c ob')
    \<and> oo_name ob' = oo_name ob \<and> same_except {oo_name ob, a} w w' \<and> nextIdCounter w' = nextIdCounter w
    \<and> (length js < 25000 \<and> jobs \<noteq> [] \<longrightarrow> added \<noteq> []) \<and> length js' \<le> max 25000 (length js)"
proof -
  let ?q = "oo_name ob"
  have held: "held ob" and ex: "vfs_exists ?q w" and q: "?q \<noteq> a" "?q \<notin> fst ` set v"
    using ready by (auto simp: queue_ready_def)
  have "aq_archivequeueshards (oo_payload ob) = map aq_pointer_of v @ [aq_pointer_of (a, js)]"
    "aq_sums (oo_payload ob) (view_jobs v @ js)" using rep by (simp_all add: aq_rep_def)
  from aq_fill_shard_rep [OF this s bound] obtain p' added left js' where
    jobs: "jobs = added @ left" and js': "js' = js @ map aqs_job_pointer added"
    and fill: "aq_fill_shard jobs (oo_payload ob) s = Inr (p', s\<lparr>oo_payload := aq_shard_of js'\<rparr>, left)"
    and p': "aq_archivequeueshards p' = map aq_pointer_of v @ [aq_pointer_of (a, js')]" "aq_sums p' (view_jobs v @ js')"
    and prog: "length js < 25000 \<and> jobs \<noteq> [] \<longrightarrow> added \<noteq> []" "length js' \<le> max 25000 (length js)"
    by blast
  let ?ob = "ob\<lparr>oo_payload := p'\<rparr>" and ?s = "s\<lparr>oo_payload := aq_shard_of js'\<rparr>"
  define w1 where "w1 = w\<lparr>objects := (objects w)(?q \<mapsto> oo_header aq_c ?ob)\<rparr>"
  have rep': "aq_rep p' (v @ [(a, js')])" using p' by (simp add: aq_rep_def)
  then have commit: "aq_commit ?ob w = (Inr ?ob, w1)"
    using aq_commit_rep [of ?ob w] held ex by (simp add: w1_def)
  have "usable ?s a (\<not> newShard)" "oo_payload ?s = aq_shard_of js'" using s by simp_all
  moreover have "if newShard then \<not> lockFiles w1 a \<and> objects w1 a = None else lockFiles w1 a \<and> objects w1 a \<noteq> None"
    using new q by (simp add: w1_def)
  ultimately obtain w' where
    shard: "(if newShard then bnd (oo_insert aqs_c ?s) (\<lambda>_. ret ()) else oo_commit aqs_c ?s) w1 = (Inr (), w')"
    and w': "stored aqs_c w' a (aq_shard_of js')" "same_except {a} w1 w'" "nextIdCounter w' = nextIdCounter w1"
    using write_shard [of ?s a newShard js' w1] by blast
  have same: "same_except {?q, a} w w'"
    using w'(2) by (auto simp: same_except_def w1_def)
  have qw': "objects w' ?q = Some (oo_header aq_c ?ob)" "lockFiles w' ?q"
    using same_exceptD [OF w'(2), of ?q] q ex by (simp_all add: w1_def vfs_exists_def)
  have "aq_store w' v" using aq_store_same [OF store same] q a by auto
  then have inv: "aq_inv w' ?ob (v @ [(a, js')])"
    using w'(1) a q held qw' rep' unfolding aq_inv_def queue_ready_def
    by (simp add: aq_store_append vfs_exists_def)
  have "aq_finish_round jobs newShard ob s w = (Inr (?ob, left), w')"
    using fill commit shard by (simp add: aq_finish_round_def)
  with jobs js' inv qw' same w'(3) prog show ?thesis
    by (intro exI [of _ ?ob] exI [of _ w'] exI [of _ added] exI [of _ left] exI [of _ js']) (simp add: w1_def)
qed

lemma aq_rep_new_pointer:
  "aq_rep p v \<Longrightarrow> aq_rep (p\<lparr>aq_archivequeueshards := aq_archivequeueshards p @
     [\<lparr>aqsp_address = a, aqsp_shardjobscount = 0, aqsp_shardbytescount = 0\<rparr>]\<rparr>) (v @ [(a, [])])"
  by (simp add: aq_rep_def aq_sums_def aq_maps_def aq_pointer_of_def)

lemma aqs_initialize_new:
  assumes "a \<noteq> ''''"
  shows "\<exists>s. aqs_initialize owner (aqs_new\<lparr>oo_name := a, oo_nameSet := True\<rparr>) = Inr s
    \<and> usable s a False \<and> oo_payload s = aq_shard_of []"
  using assms
  by (simp add: aqs_initialize_def aqs_new_def oo_defs checkHeaderWritable_def checkWritable_def usable_def
      aq_shard_of_def aqs_empty_def)

lemma childId_nonempty [simp]: "childId ct a n \<noteq> ''''"
  by (simp add: childId_def)

lemma aq_new_shard_rep:
  assumes "held ob" and "aq_rep (oo_payload ob) v"
    and "a = childId (''ArchiveQueueShard-'' @ aq_tapepool (oo_payload ob)) (agentAddress w) (nextIdCounter w)"
  shows "\<exists>ob' s. aq_new_shard ob w = (Inr (ob', s), w\<lparr>nextIdCounter := nextIdCounter w + 1\<rparr>)
    \<and> usable s a False \<and> oo_payload s = aq_shard_of [] \<and> held ob' \<and> oo_name ob' = oo_name ob
    \<and> aq_rep (oo_payload ob') (v @ [(a, [])])"
proof -
  have a: "a \<noteq> ''''" using assms(3) by simp
  from aqs_initialize_new [OF a] obtain s where s:
    "aqs_initialize (oo_name ob) (aqs_new\<lparr>oo_name := a, oo_nameSet := True\<rparr>) = Inr s"
    "usable s a False" "oo_payload s = aq_shard_of []" by blast
  have "setAddress a aqs_new = Inr (aqs_new\<lparr>oo_name := a, oo_nameSet := True\<rparr>)"
    using setAddress_new [OF a] by (simp add: aqs_new_def)
  with s assms aq_rep_new_pointer [OF assms(2), of a] show ?thesis
    by (simp add: aq_new_shard_def nextId_def)
qed

lemma aq_last_shard_rep:
  assumes "held ob" and "aq_archivequeueshards (oo_payload ob) = map aq_pointer_of (v @ [(a, js)])"
    and "stored aqs_c w a (aq_shard_of js)"
  shows "\<exists>s. aq_last_shard ob w = (Inr (Some s), w) \<and> usable s a True \<and> oo_payload s = aq_shard_of js"
proof -
  have a: "a \<noteq> ''''" using assms(3) by (simp add: stored_def)
  from locked_fetch_stored [OF assms(1) codecs_ok(2) assms(3), of aqs_empty] obtain s1 s2 where
    "include_in_exclusive_lock ob (aqs_new\<lparr>oo_name := a, oo_nameSet := True\<rparr>) = Inr s1"
    "oo_fetch aqs_c s1 w = (Inr s2, w)" "usable s2 a True" "oo_payload s2 = aq_shard_of js"
    by (auto simp: aqs_new_def)
  with assms(2) setAddress_new [OF a, of aqs_empty] show ?thesis
    by (simp add: aq_last_shard_def aqs_new_def aqs_getJobsSummary_def aq_pointer_of_def aq_shard_of_def)
qed

text \<open>
  The layout of the shards: a job goes to the last shard while that holds fewer than 25000 jobs, and to a
  new shard otherwise.
\<close>

definition add_job_to_shards :: "'j list list \<Rightarrow> 'j \<Rightarrow> 'j list list" where
  "add_job_to_shards S j = (if S \<noteq> [] \<and> length (last S) < 25000 then butlast S @ [last S @ [j]] else S @ [[j]])"

lemma add_jobs_to_last:
  "length js + length added \<le> 25000 \<Longrightarrow> foldl add_job_to_shards (S @ [js]) added = S @ [js @ added]"
proof (induction added rule: rev_induct)
  case (snoc j added)
  then show ?case by (simp add: add_job_to_shards_def)
qed simp

lemma add_jobs_to_new:
  assumes "S = [] \<or> 25000 \<le> length (last S)" and "added \<noteq> []" and "length added \<le> 25000"
  shows "foldl add_job_to_shards S added = S @ [added]"
proof -
  obtain j rest where added: "added = j # rest" using assms(2) by (cases added) auto
  have "add_job_to_shards S j = S @ [[j]]" using assms(1) by (auto simp: add_job_to_shards_def)
  with add_jobs_to_last [of "[j]" rest S] assms(3) show ?thesis by (simp add: added)
qed

text \<open>What one round, and then the whole addition, does to the abstract queue.\<close>

definition aq_added ::
  "world \<Rightarrow> archive_queue oo \<Rightarrow> aq_view \<Rightarrow> archive_job_pointer list \<Rightarrow> world \<Rightarrow> archive_queue oo \<Rightarrow> aq_view \<Rightarrow> bool" where
  "aq_added w ob v js w' ob' v' \<longleftrightarrow> aq_inv w' ob' v' \<and> view_jobs v' = view_jobs v @ js
     \<and> (\<exists>as. map fst v' = map fst v @ as) \<and> oo_name ob' = oo_name ob
     \<and> map snd v' = foldl add_job_to_shards (map snd v) js
     \<and> same_except (insert (oo_name ob) (fst ` set v')) w w' \<and> (\<forall>a \<in> fst ` set v' - fst ` set v. objects w a = None)
     \<and> ((\<forall>x \<in> set v. length (snd x) \<le> 25000) \<longrightarrow> (\<forall>x \<in> set v'. length (snd x) \<le> 25000))"

lemma aq_added_refl: "aq_inv w ob v \<Longrightarrow> aq_added w ob v [] w ob v"
  by (simp add: aq_added_def same_except_refl)

lemma aq_added_trans:
  assumes "aq_added w ob v js w' ob' v'" and "aq_added w' ob' v' js' w'' ob'' v''"
  shows "aq_added w ob v (js @ js') w'' ob'' v''"
proof -
  have "fst ` set v' \<subseteq> fst ` set v''"
    using assms(2) by (metis Un_upper1 aq_added_def list.set_map set_append)
  then have sub: "insert (oo_name ob) (fst ` set v') \<subseteq> insert (oo_name ob) (fst ` set v'')" by blast
  have "same_except (insert (oo_name ob) (fst ` set v')) w w'"
    "same_except (insert (oo_name ob) (fst ` set v'')) w' w''"
    using assms by (simp_all add: aq_added_def)
  then have "same_except (insert (oo_name ob) (fst ` set v'')) w w''"
    using sub by (rule same_except_trans) simp
  moreover have "objects w a = None" if a: "a \<in> fst ` set v''" "a \<notin> fst ` set v" for a
  proof (cases "a \<in> fst ` set v'")
    case False
    have "oo_name ob'' = oo_name ob" using assms by (simp add: aq_added_def)
    moreover have "oo_name ob'' \<notin> fst ` set v''" using assms(2) unfolding aq_added_def aq_inv_def queue_ready_def by blast
    ultimately have "a \<notin> insert (oo_name ob) (fst ` set v')" using False a(1) by (metis insertE)
    moreover have "same_except (insert (oo_name ob) (fst ` set v')) w w'" "objects w' a = None"
      using False a(1) assms by (simp_all add: aq_added_def)
    ultimately show ?thesis using same_exceptD(1) by metis
  qed (use a assms(1) in \<open>simp add: aq_added_def\<close>)
  then have "\<forall>a \<in> fst ` set v'' - fst ` set v. objects w a = None" by simp
  ultimately show ?thesis using assms by (auto simp: aq_added_def)
qed

lemma aq_inv_address:
  assumes "aq_inv w ob v" and "a \<in> insert (oo_name ob) (fst ` set v)"
  shows "objects w a \<noteq> None" and "lockFiles w a"
  using assms storedD by (force simp: aq_inv_def queue_ready_def aq_store_def vfs_exists_def)+

lemma length_view_jobs: "x \<in> set v \<Longrightarrow> length (snd x) \<le> length (view_jobs v)"
  by (induction v) auto

lemma last_pointer_full:
  assumes "aq_rep p v" and "v \<noteq> []"
  shows "aqsp_shardjobscount (last (aq_archivequeueshards p)) < c_maxShardSize \<longleftrightarrow> length (snd (last v)) < 25000"
proof -
  have "length (snd (last v)) < 2 ^ 64"
    using assms length_view_jobs [of "last v" v] aq_sums_bound [of p "view_jobs v"]
    by (simp add: aq_rep_def)
  then show ?thesis
    using assms shard_not_full [of "snd (last v)"] by (cases "last v") (simp add: aq_rep_def last_map aq_pointer_of_def)
qed

lemma aq_add_round_new:
  assumes inv: "aq_inv w ob v" and full: "v = [] \<or> 25000 \<le> length (snd (last v))" and jobs: "jobs \<noteq> []"
    and bound: "length (view_jobs v) + length jobs < 2 ^ 64" and fresh: "fresh_ids w (Suc k)" "Suc k \<le> 2 ^ 64"
  shows "\<exists>ob' w' v' added left. jobs = added @ left \<and> added \<noteq> [] \<and> aq_add_round jobs ob w = (Inr (ob', left), w')
    \<and> aq_added w ob v (map aqs_job_pointer added) w' ob' v' \<and> objects w' (oo_name ob) = Some (oo_header aq_c ob')
    \<and> fresh_ids w' k"
proof -
  define ct where "ct = ''ArchiveQueueShard-'' @ aq_tapepool (oo_payload ob)"
  define a where "a = childId ct (agentAddress w) (nextIdCounter w)"
  let ?w = "w\<lparr>nextIdCounter := nextIdCounter w + 1\<rparr>"
  have held: "held ob" and rep: "aq_rep (oo_payload ob) v" and store: "aq_store w v"
    using inv by (simp_all add: aq_inv_def queue_ready_def)
  have free: "objects w a = None" "\<not> lockFiles w a" using fresh_ids_next [OF fresh(1), of ct] by (simp_all add: a_def)
  then have notin: "a \<notin> insert (oo_name ob) (fst ` set v)" using aq_inv_address [OF inv] by blast
  obtain ob1 s where new: "aq_new_shard ob w = (Inr (ob1, s), ?w)" "usable s a False" "oo_payload s = aq_shard_of []"
    "held ob1" "oo_name ob1 = oo_name ob" "aq_rep (oo_payload ob1) (v @ [(a, [])])"
    using aq_new_shard_rep [OF held rep, of a w] by (auto simp: a_def ct_def)
  have ready: "queue_ready ?w ob1 (fst ` set (v @ [(a, [])]))"
    using inv notin new(4,5) by (auto simp: aq_inv_def queue_ready_def vfs_exists_def)
  have prem: "aq_store ?w v" "a \<notin> fst ` set v" "usable s a (\<not> True)"
    "if True then \<not> lockFiles ?w a \<and> objects ?w a = None else lockFiles ?w a \<and> objects ?w a \<noteq> None"
    "length (view_jobs v @ []) + length jobs < 2 ^ 64"
    using store free notin new(2) bound by (simp_all add: aq_store_def stored_def)
  from aq_finish_round_rep [OF ready new(6) prem(1-3) new(3) prem(4,5)] obtain ob' w' added left js' where
    fin: "jobs = added @ left" "js' = [] @ map aqs_job_pointer added"
    "aq_finish_round jobs True ob1 s ?w = (Inr (ob', left), w')" "aq_inv w' ob' (v @ [(a, js')])"
    "objects w' (oo_name ob1) = Some (oo_header aq_c ob')" "oo_name ob' = oo_name ob1"
    "same_except {oo_name ob1, a} ?w w'" "nextIdCounter w' = nextIdCounter ?w"
    "length ([] :: archive_job_pointer list) < 25000 \<and> jobs \<noteq> [] \<longrightarrow> added \<noteq> []"
    "length js' \<le> max 25000 (length ([] :: archive_job_pointer list))"
    by blast
  have same: "same_except {oo_name ob, a} w w'" using fin(7) by (simp add: same_except_def new(5))
  have "aq_archivequeueshards (oo_payload ob) = []
      \<or> \<not> aqsp_shardjobscount (last (aq_archivequeueshards (oo_payload ob))) < c_maxShardSize"
    using full rep last_pointer_full [OF rep] by (auto simp: aq_rep_def)
  then have "aq_add_round jobs ob w = (Inr (ob', left), w')"
    using new(1) fin(3) by (auto simp: aq_add_round_def)
  moreover have layout: "foldl add_job_to_shards (map snd v) (map aqs_job_pointer added) = map snd v @ [js']"
    using add_jobs_to_new [of "map snd v" "map aqs_job_pointer added"] full fin(2,9,10) jobs by (cases "v = []") (auto simp: last_map)
  moreover have "aq_added w ob v (map aqs_job_pointer added) w' ob' (v @ [(a, js')])"
    using fin(2,4,6,10) same new(5) free(1) layout by (auto simp: aq_added_def elim: same_except_trans [OF _ same_except_refl])
  moreover have "fresh_ids w' k"
    by (rule fresh_ids_same_step [OF fresh _ same, of ct])
       (use fin(8) aq_inv_address [OF inv, of "oo_name ob"] in \<open>auto simp: a_def\<close>)
  ultimately show ?thesis using fin(1,5,9) new(5) jobs by auto
qed

lemma aq_add_round_last:
  assumes inv: "aq_inv w ob (v @ [(a, js)])" and notfull: "length js < 25000" and jobs: "jobs \<noteq> []"
    and bound: "length (view_jobs (v @ [(a, js)])) + length jobs < 2 ^ 64" and fresh: "fresh_ids w k"
  shows "\<exists>ob' w' v' added left. jobs = added @ left \<and> added \<noteq> [] \<and> aq_add_round jobs ob w = (Inr (ob', left), w')
    \<and> aq_added w ob (v @ [(a, js)]) (map aqs_job_pointer added) w' ob' v'
    \<and> objects w' (oo_name ob) = Some (oo_header aq_c ob') \<and> fresh_ids w' k"
proof -
  have ready: "queue_ready w ob (fst ` set (v @ [(a, js)]))" and rep: "aq_rep (oo_payload ob) (v @ [(a, js)])"
    and store: "aq_store w v" and a: "a \<notin> fst ` set v" and st: "stored aqs_c w a (aq_shard_of js)"
    using inv by (simp_all add: aq_inv_def aq_store_append)
  have "aq_archivequeueshards (oo_payload ob) = map aq_pointer_of (v @ [(a, js)])" and "held ob"
    using rep ready by (simp_all add: aq_rep_def queue_ready_def)
  from aq_last_shard_rep [OF this(2,1) st] obtain s where
    s: "aq_last_shard ob w = (Inr (Some s), w)" "usable s a (\<not> False)" "oo_payload s = aq_shard_of js" by auto
  have prem: "if False then \<not> lockFiles w a \<and> objects w a = None else lockFiles w a \<and> objects w a \<noteq> None"
    "length (view_jobs v @ js) + length jobs < 2 ^ 64"
    using storedD [OF st] bound by simp_all
  from aq_finish_round_rep [OF ready rep store a s(2,3) prem] obtain ob' w' added left js' where
    fin: "jobs = added @ left" "js' = js @ map aqs_job_pointer added"
    "aq_finish_round jobs False ob s w = (Inr (ob', left), w')" "aq_inv w' ob' (v @ [(a, js')])"
    "objects w' (oo_name ob) = Some (oo_header aq_c ob')" "oo_name ob' = oo_name ob"
    "same_except {oo_name ob, a} w w'" "nextIdCounter w' = nextIdCounter w"
    "length js < 25000 \<and> jobs \<noteq> [] \<longrightarrow> added \<noteq> []" "length js' \<le> max 25000 (length js)"
    by blast
  have "aq_add_round jobs ob w = (Inr (ob', left), w')"
    using s(1) fin(3) last_pointer_full [OF rep] notfull rep
    by (simp add: aq_add_round_def aq_rep_def)
  moreover have "aq_added w ob (v @ [(a, js)]) (map aqs_job_pointer added) w' ob' (v @ [(a, js')])"
    using fin(2,4,6,10) same_except_trans [OF fin(7) same_except_refl, of "insert (oo_name ob) (fst ` set (v @ [(a, js')]))"]
      add_jobs_to_last [of js "map aqs_job_pointer added" "map snd v"] notfull
    by (auto simp: aq_added_def)
  moreover have "fresh_ids w' k"
    by (rule fresh_ids_same [OF fresh fin(7) _ fin(8)]) (use aq_inv_address [OF inv] in auto)
  ultimately show ?thesis using fin(1,5,9) notfull jobs by auto
qed

lemma aq_add_round_rep:
  assumes inv: "aq_inv w ob v" and jobs: "jobs \<noteq> []" and bound: "length (view_jobs v) + length jobs < 2 ^ 64"
    and fresh: "fresh_ids w (Suc k)" "Suc k \<le> 2 ^ 64"
  shows "\<exists>ob' w' v' added left. jobs = added @ left \<and> added \<noteq> [] \<and> aq_add_round jobs ob w = (Inr (ob', left), w')
    \<and> aq_added w ob v (map aqs_job_pointer added) w' ob' v' \<and> objects w' (oo_name ob) = Some (oo_header aq_c ob')
    \<and> fresh_ids w' k"
proof (cases "v = [] \<or> 25000 \<le> length (snd (last v))")
  case True
  with aq_add_round_new [OF inv _ jobs bound fresh] show ?thesis by blast
next
  case False
  then obtain v0 a js where v: "v = v0 @ [(a, js)]" "length js < 25000"
    by (metis append_butlast_last_id not_le prod.collapse)
  with aq_add_round_last [OF inv [unfolded v(1)] v(2) jobs bound [unfolded v(1)] fresh_ids_mono [OF fresh(1), of k]]
  show ?thesis by simp
qed

theorem aq_add_rounds_rep:
  assumes "aq_inv w ob v" and "length (view_jobs v) + length jobs < 2 ^ 64" and "fresh_ids w (length jobs)"
    and "length jobs \<le> fuel"
  shows "\<exists>ob' w' v'. aq_add_rounds fuel jobs ob w = (Inr ob', w') \<and> aq_added w ob v (map aqs_job_pointer jobs) w' ob' v'
    \<and> (jobs \<noteq> [] \<longrightarrow> objects w' (oo_name ob) = Some (oo_header aq_c ob'))"
  using assms
proof (induction fuel arbitrary: w ob v jobs)
  case 0
  then show ?case by (auto intro: aq_added_refl)
next
  case (Suc fuel)
  show ?case
  proof (cases jobs)
    case Nil
    with Suc.prems(1) show ?thesis by (auto intro: aq_added_refl)
  next
    case (Cons job rest)
    have jobs: "jobs \<noteq> []" "length jobs = Suc (length rest)" using Cons by simp_all
    have k: "fresh_ids w (Suc (length rest))" "Suc (length rest) \<le> 2 ^ 64"
      using Suc.prems(2,3) jobs(2) by simp_all
    from aq_add_round_rep [OF Suc.prems(1) jobs(1) Suc.prems(2) k] obtain ob1 w1 v1 added left where
      r: "jobs = added @ left" "added \<noteq> []" "aq_add_round jobs ob w = (Inr (ob1, left), w1)"
      "aq_added w ob v (map aqs_job_pointer added) w1 ob1 v1"
      "objects w1 (oo_name ob) = Some (oo_header aq_c ob1)" "fresh_ids w1 (length rest)"
      by blast
    have inv1: "aq_inv w1 ob1 v1" and vj: "view_jobs v1 = view_jobs v @ map aqs_job_pointer added"
      and name: "oo_name ob1 = oo_name ob"
      using r(4) by (simp_all add: aq_added_def)
    have len: "length left \<le> length rest" using r(1,2) jobs(2) by (cases added) auto
    have "length (view_jobs v1) + length left < 2 ^ 64" using Suc.prems(2) r(1) vj by simp
    moreover have "fresh_ids w1 (length left)" using fresh_ids_mono [OF r(6) len] .
    moreover have "length left \<le> fuel" using Suc.prems(4) len jobs(2) by simp
    ultimately obtain ob' w' v' where IH: "aq_add_rounds fuel left ob1 w1 = (Inr ob', w')"
      "aq_added w1 ob1 v1 (map aqs_job_pointer left) w' ob' v'"
      "left \<noteq> [] \<longrightarrow> objects w' (oo_name ob1) = Some (oo_header aq_c ob')"
      using Suc.IH [OF inv1] by blast
    have "aq_add_rounds (Suc fuel) jobs ob w = (Inr ob', w')" using r(3) IH(1) Cons by simp
    moreover have "aq_added w ob v (map aqs_job_pointer jobs) w' ob' v'"
      using aq_added_trans [OF r(4) IH(2)] r(1) by simp
    moreover have "objects w' (oo_name ob) = Some (oo_header aq_c ob')"
      using IH(1,3) r(5) name by (cases "left = []") (auto elim: aq_add_rounds.elims)
    ultimately show ?thesis by blast
  qed
qed

section \<open>Rebuilding\<close>

text \<open>
  A queue whose summaries, shard pointers and shards may disagree: all that is known is which of the shards
  it points to exist, and what jobs they hold.
\<close>

type_synonym aq_shards = "(string \<times> archive_queue_shard option) list"

definition aq_found :: "world \<Rightarrow> aq_shards \<Rightarrow> bool" where
  "aq_found w shards \<longleftrightarrow> distinct (map fst shards)
     \<and> (\<forall>(a, found) \<in> set shards. case found of None \<Rightarrow> missing w a | Some s \<Rightarrow> stored aqs_c w a s)"

fun aq_survivors :: "aq_shards \<Rightarrow> aq_view" where
  "aq_survivors [] = []"
| "aq_survivors ((a, None) # shards) = aq_survivors shards"
| "aq_survivors ((a, Some s) # shards) = (a, aqs_archivejobs s) # aq_survivors shards"

lemma aq_survivors_append [simp]: "aq_survivors (xs @ ys) = aq_survivors xs @ aq_survivors ys"
  by (induction xs rule: aq_survivors.induct) simp_all

lemma fst_aq_survivors: "fst ` set (aq_survivors shards) \<subseteq> fst ` set shards"
  by (induction shards rule: aq_survivors.induct) auto

lemma aq_survivors_stored:
  "aq_found w shards \<Longrightarrow> a \<in> fst ` set (aq_survivors shards) \<Longrightarrow> objects w a \<noteq> None \<and> lockFiles w a"
  by (induction shards rule: aq_survivors.induct) (auto simp: aq_found_def stored_def)

lemma distinct_aq_survivors: "distinct (map fst shards) \<Longrightarrow> distinct (map fst (aq_survivors shards))"
  using fst_aq_survivors by (induction shards rule: aq_survivors.induct) (simp_all, blast)

definition oldest_start :: "archive_job_pointer list \<Rightarrow> time_t \<Rightarrow> time_t" where
  "oldest_start js t = fold (\<lambda>j t. if ajp_starttime j <s t then ajp_starttime j else t) js t"

definition youngest_start :: "archive_job_pointer list \<Rightarrow> time_t \<Rightarrow> time_t" where
  "youngest_start js t = fold (\<lambda>j t. if t <s ajp_starttime j then ajp_starttime j else t) js t"

lemma aq_rebuild_jobs:
  assumes "aq_maps (rb_payload st) pre" and "length (pre @ js) < 2 ^ 64"
  shows "\<exists>st'. foldR aq_rebuild_job (st, n, b) (map aqs_job_info_of js)
      = Inr (st', n + of_nat (length js), b + (\<Sum>j\<leftarrow>js. ajp_size j))
    \<and> aq_maps (rb_payload st') (pre @ js)
    \<and> aq_archivequeueshards (rb_payload st') = aq_archivequeueshards (rb_payload st)
    \<and> aq_mapsrebuildcount (rb_payload st') = aq_mapsrebuildcount (rb_payload st)
    \<and> aq_tapepool (rb_payload st') = aq_tapepool (rb_payload st)
    \<and> rb_totalJobs st' = rb_totalJobs st \<and> rb_totalBytes st' = rb_totalBytes st
    \<and> rb_oldest st' = oldest_start js (rb_oldest st) \<and> rb_youngest st' = youngest_start js (rb_youngest st)"
  using assms
proof (induction js arbitrary: st n b pre)
  case Nil
  then show ?case by (simp add: oldest_start_def youngest_start_def)
next
  case (Cons j js)
  let ?i = "aqs_job_info_of j"
  have "Suc (length pre) < 2 ^ 64" using Cons.prems(2) by simp
  from aq_maps_inc [OF Cons.prems(1) this, of j] obtain pm am mm where
    m: "incCount (ajp_priority j) (aq_prioritymap (rb_payload st)) = Inr pm"
    "incCount (ajp_minarchiverequestage j) (aq_minarchiverequestagemap (rb_payload st)) = Inr am"
    "incCount (ajp_mountpolicyname j) (aq_mountpolicynamemap (rb_payload st)) = Inr mm"
    "aq_maps ((rb_payload st)\<lparr>aq_prioritymap := pm, aq_minarchiverequestagemap := am, aq_mountpolicynamemap := mm\<rparr>) (pre @ [j])"
    by blast
  define st1 where "st1 = st\<lparr>rb_payload := (rb_payload st)\<lparr>aq_prioritymap := pm, aq_minarchiverequestagemap := am,
      aq_mountpolicynamemap := mm\<rparr>,
      rb_oldest := (if ajp_starttime j <s rb_oldest st then ajp_starttime j else rb_oldest st),
      rb_youngest := (if rb_youngest st <s ajp_starttime j then ajp_starttime j else rb_youngest st)\<rparr>"
  have step: "aq_rebuild_job (st, n, b) ?i = Inr (st1, n + 1, b + ajp_size j)"
    using m(1-3) by (simp add: aq_rebuild_job_def aqs_job_info_of_def st1_def)
  have "aq_maps (rb_payload st1) (pre @ [j])" "length ((pre @ [j]) @ js) < 2 ^ 64"
    using m(4) Cons.prems(2) by (simp_all add: st1_def)
  from Cons.IH [OF this, of "n + 1" "b + ajp_size j"] obtain st' where
    "foldR aq_rebuild_job (st1, n + 1, b + ajp_size j) (map aqs_job_info_of js)
      = Inr (st', n + 1 + of_nat (length js), b + ajp_size j + (\<Sum>j\<leftarrow>js. ajp_size j))"
    "aq_maps (rb_payload st') ((pre @ [j]) @ js)"
    "aq_archivequeueshards (rb_payload st') = aq_archivequeueshards (rb_payload st1)"
    "aq_mapsrebuildcount (rb_payload st') = aq_mapsrebuildcount (rb_payload st1)"
    "aq_tapepool (rb_payload st') = aq_tapepool (rb_payload st1)"
    "rb_totalJobs st' = rb_totalJobs st1" "rb_totalBytes st' = rb_totalBytes st1"
    "rb_oldest st' = oldest_start js (rb_oldest st1)" "rb_youngest st' = youngest_start js (rb_youngest st1)"
    by blast
  with step show ?case
    by (intro exI [of _ st']) (simp add: st1_def oldest_start_def youngest_start_def ac_simps)
qed

text \<open>The state of the loop over the shards, \<open>done\<close> being those passed and \<open>ptrs\<close> the pointers to the others.\<close>

definition aq_rebuilding :: "aq_rebuild_state \<Rightarrow> aq_view \<Rightarrow> archive_queue_shard_pointer list \<Rightarrow> bool" where
  "aq_rebuilding st v ptrs \<longleftrightarrow> aq_archivequeueshards (rb_payload st) = map aq_pointer_of v @ ptrs
     \<and> aq_maps (rb_payload st) (view_jobs v) \<and> rb_totalJobs st = of_nat (length (view_jobs v))
     \<and> rb_totalBytes st = (\<Sum>j\<leftarrow>view_jobs v. ajp_size j)
     \<and> rb_oldest st = oldest_start (view_jobs v) time_t_max \<and> rb_youngest st = youngest_start (view_jobs v) time_t_min"

lemma aq_rebuild_missing:
  assumes "aq_rebuilding st v (sp # ptrs)" and "aqsp_address sp = a" and "a \<notin> fst ` set v" and "a \<notin> aqsp_address ` set ptrs"
  shows "\<exists>st'. aq_rebuild_shard ob st (a, Inl NoSuchObject) w = (Inr st', w) \<and> aq_rebuilding st' v ptrs
    \<and> aq_mapsrebuildcount (rb_payload st') = aq_mapsrebuildcount (rb_payload st)"
proof -
  have "filter (\<lambda>sp. aqsp_address sp \<noteq> a) (map aq_pointer_of v) = map aq_pointer_of v"
    "filter (\<lambda>sp. aqsp_address sp \<noteq> a) ptrs = ptrs"
    using assms(3,4) by (force intro: filter_True)+
  with assms(1,2) show ?thesis
    by (simp add: aq_rebuild_shard_def aq_rebuilding_def aq_erase_pointer_def aq_maps_def)
qed

lemma aq_record_summary_at:
  assumes "aq_archivequeueshards p = map aq_pointer_of v @ sp # ptrs" and "aqsp_address sp = a" and "a \<notin> fst ` set v"
  shows "aq_record_summary a (of_nat (length js)) (\<Sum>j\<leftarrow>js. ajp_size j) p
    = Inr (p\<lparr>aq_archivequeueshards := map aq_pointer_of (v @ [(a, js)]) @ ptrs\<rparr>)"
proof -
  have "find_index (\<lambda>sp. aqsp_address sp = a) (aq_archivequeueshards p) = length (map aq_pointer_of v)"
    unfolding assms(1) using assms(2,3) by (intro find_index_append_Cons) force+
  moreover have "sp\<lparr>aqsp_shardjobscount := of_nat (length js), aqsp_shardbytescount := \<Sum>j\<leftarrow>js. ajp_size j\<rparr> = aq_pointer_of (a, js)"
    using assms(2) by (cases sp) (simp add: aq_pointer_of_def)
  ultimately show ?thesis
    by (simp add: aq_record_summary_def Let_def assms(1) nth_append list_update_append)
qed

lemma aq_repair_shard_ok:
  assumes "held ob" and "stored aqs_c w a s"
  shows "\<exists>w'. aq_repair_shard ob a w = (Inr (), w') \<and> stored aqs_c w' a (aq_shard_of (aqs_archivejobs s))
    \<and> same_except {a} w w' \<and> nextIdCounter w' = nextIdCounter w"
proof -
  have a: "a \<noteq> ''''" using assms(2) by (simp add: stored_def)
  from locked_fetch_stored [OF assms(1) codecs_ok(2) assms(2), of aqs_empty] obtain s1 s2 where
    f: "include_in_exclusive_lock ob (aqs_new\<lparr>oo_name := a, oo_nameSet := True\<rparr>) = Inr s1"
    "oo_fetch aqs_c s1 w = (Inr s2, w)" "usable s2 a True" "oo_payload s2 = s"
    by (auto simp: aqs_new_def)
  define s3 where "s3 = s2\<lparr>oo_payload := aq_shard_of (aqs_archivejobs s)\<rparr>"
  have "aqs_rebuild s2 = Inr s3"
    using f(3,4) by (cases s) (simp add: aqs_rebuild_eq s3_def aq_shard_of_def)
  moreover have "oo_commit aqs_c s3 w = (Inr (), w\<lparr>objects := (objects w)(a \<mapsto> oo_header aqs_c s3)\<rparr>)"
    using usable_commit [of s3 a w aqs_c] f(3) storedD [OF assms(2)] by (simp add: s3_def)
  ultimately have "aq_repair_shard ob a w = (Inr (), w\<lparr>objects := (objects w)(a \<mapsto> oo_header aqs_c s3)\<rparr>)"
    using f(1,2) setAddress_new [OF a, of aqs_empty] by (simp add: aq_repair_shard_def aqs_at_def aqs_new_def)
  then show ?thesis
    using storedD [OF assms(2)] a by (simp add: stored_def same_except_def oo_header_def s3_def)
qed

lemma aq_rebuild_present:
  assumes held: "held ob" and st: "aq_rebuilding st v (sp # ptrs)" and sp: "aqsp_address sp = a" "a \<notin> fst ` set v"
    and img: "oo_payload i = s" "checkPayloadReadable i = Inr ()" and stored: "stored aqs_c w a s"
    and bound: "length (view_jobs (v @ [(a, aqs_archivejobs s)])) < 2 ^ 64"
  shows "\<exists>st' w'. aq_rebuild_shard ob st (a, Inr i) w = (Inr st', w') \<and> aq_rebuilding st' (v @ [(a, aqs_archivejobs s)]) ptrs
    \<and> stored aqs_c w' a (aq_shard_of (aqs_archivejobs s)) \<and> same_except {a} w w' \<and> nextIdCounter w' = nextIdCounter w
    \<and> aq_mapsrebuildcount (rb_payload st') = aq_mapsrebuildcount (rb_payload st)"
proof -
  let ?js = "aqs_archivejobs s"
  have maps: "aq_maps (rb_payload st) (view_jobs v)" and b: "length (view_jobs v @ ?js) < 2 ^ 64"
    using st bound by (simp_all add: aq_rebuilding_def)
  from aq_rebuild_jobs [OF maps b, of 0 0] obtain st1 where
    j: "foldR aq_rebuild_job (st, 0, 0) (map aqs_job_info_of ?js) = Inr (st1, of_nat (length ?js), \<Sum>j\<leftarrow>?js. ajp_size j)"
    "aq_maps (rb_payload st1) (view_jobs v @ ?js)"
    "aq_archivequeueshards (rb_payload st1) = aq_archivequeueshards (rb_payload st)"
    "aq_mapsrebuildcount (rb_payload st1) = aq_mapsrebuildcount (rb_payload st)"
    "rb_totalJobs st1 = rb_totalJobs st" "rb_totalBytes st1 = rb_totalBytes st"
    "rb_oldest st1 = oldest_start ?js (rb_oldest st)" "rb_youngest st1 = youngest_start ?js (rb_youngest st)"
    by auto
  have "aq_archivequeueshards (rb_payload st1) = map aq_pointer_of v @ sp # ptrs"
    using st j(3) by (simp add: aq_rebuilding_def)
  note rec = aq_record_summary_at [OF this sp, of ?js]
  define st' where "st' = st1\<lparr>rb_payload := (rb_payload st1)\<lparr>aq_archivequeueshards := map aq_pointer_of (v @ [(a, ?js)]) @ ptrs\<rparr>,
    rb_totalJobs := rb_totalJobs st1 + of_nat (length ?js), rb_totalBytes := rb_totalBytes st1 + (\<Sum>j\<leftarrow>?js. ajp_size j)\<rparr>"
  have dump: "aqs_dumpJobs i = Inr (map aqs_job_info_of ?js)"
    "aqs_getJobsSummary i = Inr \<lparr>js_jobs = of_nat (length ?js), js_bytes = aqs_archivejobstotalsize s\<rparr>"
    using img by (simp_all add: aqs_dumpJobs_def aqs_getJobsSummary_def)
  obtain w' where w': "(if (\<Sum>j\<leftarrow>?js. ajp_size j) \<noteq> aqs_archivejobstotalsize s then aq_repair_shard ob a else ret ()) w = (Inr (), w')"
    "stored aqs_c w' a (aq_shard_of ?js)" "same_except {a} w w'" "nextIdCounter w' = nextIdCounter w"
  proof (cases "(\<Sum>j\<leftarrow>?js. ajp_size j) = aqs_archivejobstotalsize s")
    case True
    then have "aq_shard_of ?js = s" by (simp add: aq_shard_of_def)
    with True stored that [of w] show ?thesis by (simp add: same_except_refl)
  next
    case False
    with aq_repair_shard_ok [OF held stored] that show ?thesis by auto
  qed
  have "aq_rebuild_shard ob st (a, Inr i) w = (Inr st', w')"
    using w'(1) rec by (simp add: aq_rebuild_shard_def dump j(1) st'_def)
  moreover have "aq_rebuilding st' (v @ [(a, ?js)]) ptrs"
    using st j by (simp add: aq_rebuilding_def st'_def aq_maps_def oldest_start_def youngest_start_def)
  ultimately show ?thesis using w'(2-4) j(4) by (auto simp: st'_def)
qed

lemma aq_found_Cons:
  "aq_found w ((a, x) # shards) \<longleftrightarrow> a \<notin> fst ` set shards \<and> aq_found w shards
     \<and> (case x of None \<Rightarrow> missing w a | Some s \<Rightarrow> stored aqs_c w a s)"
  by (auto simp: aq_found_def)

lemma aq_found_same:
  assumes "aq_found w shards" and "same_except S w w'" and "fst ` set shards \<inter> S = {}"
  shows "aq_found w' shards"
proof -
  have "case x of None \<Rightarrow> missing w' a | Some s \<Rightarrow> stored aqs_c w' a s" if "(a, x) \<in> set shards" for a x
  proof -
    have "a \<notin> S" using that assms(3) by force
    with same_exceptD [OF assms(2)] have "objects w' a = objects w a" "lockFiles w' a = lockFiles w a" by auto
    with assms(1) that show ?thesis
      by (cases x) (auto simp: aq_found_def missing_def stored_def)
  qed
  with assms(1) show ?thesis by (auto simp: aq_found_def)
qed

lemma aq_rebuild_shards:
  assumes "held ob" and "aq_found w shards" and "aq_rebuilding st v ptrs" and "map aqsp_address ptrs = map fst shards"
    and "aq_store w v" and "fst ` set v \<inter> fst ` set shards = {}" and "length (view_jobs (v @ aq_survivors shards)) < 2 ^ 64"
    and "\<forall>(a, x) \<in> set shards. case x of None \<Rightarrow> img a = Inl NoSuchObject
           | Some s \<Rightarrow> \<exists>i. img a = Inr i \<and> oo_payload i = s \<and> checkPayloadReadable i = Inr ()"
  shows "\<exists>st' w'. foldM (aq_rebuild_shard ob) st (map (\<lambda>x. (fst x, img (fst x))) shards) w = (Inr st', w')
    \<and> aq_rebuilding st' (v @ aq_survivors shards) [] \<and> aq_store w' (v @ aq_survivors shards)
    \<and> same_except (fst ` set (aq_survivors shards)) w w' \<and> nextIdCounter w' = nextIdCounter w
    \<and> aq_mapsrebuildcount (rb_payload st') = aq_mapsrebuildcount (rb_payload st)"
  using assms
proof (induction shards arbitrary: st v w ptrs)
  case Nil
  then show ?case by (simp add: same_except_refl)
next
  case (Cons x shards)
  obtain a found where x: "x = (a, found)" by (cases x)
  have fnd: "a \<notin> fst ` set shards" "aq_found w shards" using Cons.prems(2) by (simp_all add: x aq_found_Cons)
  have av: "a \<notin> fst ` set v" using Cons.prems(6) by (simp add: x)
  have disj: "fst ` set v \<inter> fst ` set shards = {}" using Cons.prems(6) by auto
  obtain sp ptrs' where ptrs: "ptrs = sp # ptrs'" using Cons.prems(4) by (cases ptrs) simp_all
  then have addr: "aqsp_address sp = a" and rest: "map aqsp_address ptrs' = map fst shards"
    using Cons.prems(4) by (simp_all add: x)
  have st: "aq_rebuilding st v (sp # ptrs')" using Cons.prems(3) ptrs by simp
  have imgs: "\<forall>(a, x) \<in> set shards. case x of None \<Rightarrow> img a = Inl NoSuchObject
           | Some s \<Rightarrow> \<exists>i. img a = Inr i \<and> oo_payload i = s \<and> checkPayloadReadable i = Inr ()"
    using Cons.prems(8) by simp
  show ?case
  proof (cases found)
    case None
    have "a \<notin> aqsp_address ` set ptrs'" using fnd(1) rest by (metis list.set_map)
    from aq_rebuild_missing [OF st addr av this] obtain st1 where
      st1: "aq_rebuild_shard ob st (a, Inl NoSuchObject) w = (Inr st1, w)" "aq_rebuilding st1 v ptrs'"
      "aq_mapsrebuildcount (rb_payload st1) = aq_mapsrebuildcount (rb_payload st)" by blast
    have "img a = Inl NoSuchObject" using Cons.prems(8) by (simp add: x None)
    moreover have "length (view_jobs (v @ aq_survivors shards)) < 2 ^ 64" using Cons.prems(7) by (simp add: x None)
    note Cons.IH [OF Cons.prems(1) fnd(2) st1(2) rest Cons.prems(5) disj this imgs]
    ultimately show ?thesis
      using st1(1,3) by (auto simp: x None elim!: same_except_trans [OF _ same_except_refl])
  next
    case (Some s)
    obtain i where i: "img a = Inr i" "oo_payload i = s" "checkPayloadReadable i = Inr ()"
      using Cons.prems(8) by (auto simp: x Some)
    have stored: "stored aqs_c w a s" using Cons.prems(2) by (simp add: x Some aq_found_Cons)
    let ?v = "v @ [(a, aqs_archivejobs s)]"
    have "length (view_jobs ?v) < 2 ^ 64" using Cons.prems(7) by (simp add: x Some)
    from aq_rebuild_present [OF Cons.prems(1) st addr av i(2,3) stored this] obtain st1 w1 where
      st1: "aq_rebuild_shard ob st (a, Inr i) w = (Inr st1, w1)" "aq_rebuilding st1 ?v ptrs'"
      "stored aqs_c w1 a (aq_shard_of (aqs_archivejobs s))" "same_except {a} w w1" "nextIdCounter w1 = nextIdCounter w"
      "aq_mapsrebuildcount (rb_payload st1) = aq_mapsrebuildcount (rb_payload st)" by blast
    have "aq_found w1 shards" using aq_found_same [OF fnd(2) st1(4)] fnd(1) by auto
    moreover have "aq_store w1 ?v" using aq_store_same [OF Cons.prems(5) st1(4)] av st1(3) by (simp add: aq_store_append)
    moreover have "fst ` set ?v \<inter> fst ` set shards = {}" using disj fnd(1) by auto
    moreover have "length (view_jobs (?v @ aq_survivors shards)) < 2 ^ 64" using Cons.prems(7) by (simp add: x Some)
    ultimately obtain st' w' where IH:
      "foldM (aq_rebuild_shard ob) st1 (map (\<lambda>x. (fst x, img (fst x))) shards) w1 = (Inr st', w')"
      "aq_rebuilding st' (?v @ aq_survivors shards) []" "aq_store w' (?v @ aq_survivors shards)"
      "same_except (fst ` set (aq_survivors shards)) w1 w'" "nextIdCounter w' = nextIdCounter w1"
      "aq_mapsrebuildcount (rb_payload st') = aq_mapsrebuildcount (rb_payload st1)"
      using Cons.IH [OF Cons.prems(1) _ st1(2) rest _ _ _ imgs] by blast
    have "same_except (fst ` set (aq_survivors (x # shards))) w w'"
      by (rule same_except_trans [OF st1(4) IH(4)]) (auto simp: x Some)
    with IH st1 i(1) show ?thesis by (auto simp: x Some)
  qed
qed

text \<open>
  \<open>rebuild\<close> drops the pointers to missing shards and brings the pointers, the summaries and the totals of
  the other shards in agreement with the jobs the shards hold.
\<close>

lemma aq_maps_cleared:
  "aq_maps (p\<lparr>aq_prioritymap := clear m1, aq_minarchiverequestagemap := clear m2, aq_mountpolicynamemap := clear m3\<rparr>) []"
  by (simp add: aq_maps_def clear_def represents_empty)

lemma aq_rebuild_rep:
  assumes ready: "queue_ready w ob (fst ` set shards)" and fnd: "aq_found w shards"
    and ptrs: "map aqsp_address (aq_archivequeueshards (oo_payload ob)) = map fst shards"
    and bound: "length (view_jobs (aq_survivors shards)) < 2 ^ 64"
  shows "\<exists>ob' w'. aq_rebuild ob w = (Inr ob', w') \<and> aq_inv w' ob' (aq_survivors shards) \<and> oo_name ob' = oo_name ob
    \<and> same_except (fst ` set (aq_survivors shards)) w w' \<and> nextIdCounter w' = nextIdCounter w
    \<and> aq_mapsrebuildcount (oo_payload ob') = aq_mapsrebuildcount (oo_payload ob) + 1
    \<and> aq_oldestjobcreationtime (oo_payload ob') = oldest_start (view_jobs (aq_survivors shards)) time_t_max
    \<and> aq_youngestjobcreationtime (oo_payload ob') = youngest_start (view_jobs (aq_survivors shards)) time_t_min"
proof -
  let ?p = "oo_payload ob" and ?v = "aq_survivors shards"
  have held: "held ob" and ex: "vfs_exists (oo_name ob) w" and q: "oo_name ob \<notin> fst ` set shards"
    using ready by (simp_all add: queue_ready_def)
  define p0 where "p0 = ?p\<lparr>aq_prioritymap := clear (aq_prioritymap ?p),
    aq_minarchiverequestagemap := clear (aq_minarchiverequestagemap ?p),
    aq_mountpolicynamemap := clear (aq_mountpolicynamemap ?p)\<rparr>"
  define st0 where "st0 = \<lparr>rb_payload = p0, rb_totalJobs = 0, rb_totalBytes = 0, rb_oldest = time_t_max, rb_youngest = time_t_min\<rparr>"
  let ?img = "lockfree_image aqs_c aqs_empty w"
  have st0: "aq_rebuilding st0 [] (aq_archivequeueshards ?p)"
    using aq_maps_cleared [where p = ?p] by (simp add: aq_rebuilding_def st0_def p0_def oldest_start_def youngest_start_def)
  have imgs: "\<forall>(a, x) \<in> set shards. case x of None \<Rightarrow> ?img a = Inl NoSuchObject
           | Some s \<Rightarrow> \<exists>i. ?img a = Inr i \<and> oo_payload i = s \<and> checkPayloadReadable i = Inr ()"
    using fnd lockfree_image_missing lockfree_image_stored [OF codecs_ok(2)]
    by (fastforce simp: aq_found_def split: option.splits)
  have prem: "aq_store w []" "fst ` set ([] :: aq_view) \<inter> fst ` set shards = {}" "length (view_jobs ([] @ ?v)) < 2 ^ 64"
    using bound by (simp_all add: aq_store_def)
  from aq_rebuild_shards [OF held fnd st0 ptrs prem imgs] obtain st' w' where
    loop: "foldM (aq_rebuild_shard ob) st0 (map (\<lambda>x. (fst x, ?img (fst x))) shards) w = (Inr st', w')"
    "aq_rebuilding st' ?v []" "aq_store w' ?v" "same_except (fst ` set (aq_survivors shards)) w w'" "nextIdCounter w' = nextIdCounter w"
    "aq_mapsrebuildcount (rb_payload st') = aq_mapsrebuildcount (rb_payload st0)"
    by auto
  have "\<forall>a \<in> set (map fst shards). a \<noteq> ''''"
    using fnd by (force simp: aq_found_def missing_def stored_def split: option.splits)
  then have fetch: "lockfree_fetch_all aqs_c aqs_empty (map aqsp_address (aq_archivequeueshards ?p)) w
      = (Inr (map (\<lambda>x. (fst x, ?img (fst x))) shards), w)"
    using lockfree_fetch_all_eq [of "map fst shards" aqs_c aqs_empty w] ptrs by (simp add: comp_def)
  define ob' where "ob' = ob\<lparr>oo_payload := (rb_payload st')\<lparr>aq_archivejobscount := rb_totalJobs st',
      aq_archivejobstotalsize := rb_totalBytes st', aq_oldestjobcreationtime := rb_oldest st',
      aq_youngestjobcreationtime := rb_youngest st',
      aq_mapsrebuildcount := aq_mapsrebuildcount (rb_payload st') + 1\<rparr>\<rparr>"
  have "aq_rebuild ob w = (Inr ob', w')"
    using held fetch loop(1) by (simp add: aq_rebuild_def Let_def flip: p0_def st0_def) (simp add: ob'_def)
  moreover have "aq_rep (oo_payload ob') ?v"
    using loop(2) by (simp add: aq_rebuilding_def aq_rep_def aq_sums_def aq_maps_def ob'_def)
  moreover have qv: "oo_name ob \<notin> fst ` set ?v" using q fst_aq_survivors [of shards] by blast
  moreover have "queue_ready w' ob' (fst ` set ?v)"
    using held ex qv same_exceptD [OF loop(4) qv] by (simp add: queue_ready_def ob'_def vfs_exists_def)
  ultimately show ?thesis
    using loop by (auto simp: aq_inv_def ob'_def aq_rebuilding_def st0_def p0_def)
qed

text \<open>A commit that finds the summaries incoherent rebuilds the queue first.\<close>

lemma aq_commit_heals:
  assumes ready: "queue_ready w ob (fst ` set shards)" and fnd: "aq_found w shards"
    and ptrs: "map aqsp_address (aq_archivequeueshards (oo_payload ob)) = map fst shards"
    and bound: "length (view_jobs (aq_survivors shards)) < 2 ^ 64"
    and incoherent: "aq_checkMapsAndShardsCoherency ob = Inr False"
  shows "\<exists>ob' w'. aq_commit ob w = (Inr ob', w') \<and> aq_inv w' ob' (aq_survivors shards)
    \<and> objects w' (oo_name ob) = Some (oo_header aq_c ob')
    \<and> same_except (insert (oo_name ob) (fst ` set (aq_survivors shards))) w w'"
proof -
  from aq_rebuild_rep [OF ready fnd ptrs bound] obtain ob1 w1 where
    r: "aq_rebuild ob w = (Inr ob1, w1)" "aq_inv w1 ob1 (aq_survivors shards)" "oo_name ob1 = oo_name ob"
    "same_except (fst ` set (aq_survivors shards)) w w1" by blast
  define w' where "w' = w1\<lparr>objects := (objects w1)(oo_name ob \<mapsto> oo_header aq_c ob1)\<rparr>"
  have h: "held ob1" "vfs_exists (oo_name ob1) w1" using r(2) by (simp_all add: aq_inv_def queue_ready_def)
  have "aq_commit ob w = (Inr ob1, w')"
    using incoherent r(1,3) h by (simp add: aq_commit_def oo_commit_held w'_def)
  moreover have same: "same_except {oo_name ob} w1 w'" by (simp add: same_except_def w'_def)
  moreover have "aq_inv w' ob1 (aq_survivors shards)"
    using r(2,3) aq_store_same [OF _ same] by (auto simp: aq_inv_def queue_ready_def vfs_exists_def w'_def)
  moreover have "same_except (insert (oo_name ob) (fst ` set (aq_survivors shards))) w w'"
    by (rule same_except_trans [OF r(4) same]) auto
  ultimately show ?thesis by (simp add: w'_def)
qed

lemma aq_inv_commit:
  assumes "aq_inv w ob v"
  shows "\<exists>w'. aq_commit ob w = (Inr ob, w') \<and> aq_inv w' ob v \<and> objects w' (oo_name ob) = Some (oo_header aq_c ob)
    \<and> same_except {oo_name ob} w w' \<and> nextIdCounter w' = nextIdCounter w"
proof -
  define w' where "w' = w\<lparr>objects := (objects w)(oo_name ob \<mapsto> oo_header aq_c ob)\<rparr>"
  have same: "same_except {oo_name ob} w w'" by (simp add: same_except_def w'_def)
  have "aq_commit ob w = (Inr ob, w')"
    using assms aq_commit_rep [of ob w v] by (simp add: aq_inv_def queue_ready_def w'_def)
  moreover have "aq_inv w' ob v"
    using assms aq_store_same [OF _ same] by (auto simp: aq_inv_def queue_ready_def vfs_exists_def w'_def)
  ultimately show ?thesis using same by (simp add: w'_def)
qed

end
