(* ===== verification/ArchiveQueueOps.thy ===== *)
theory ArchiveQueueOps
  imports ArchiveQueueSpec
begin

text \<open>
  What the other operations of \<open>ArchiveQueue.cpp\<close> do to the abstract queue: additions that find a damaged
  queue, removals, listings, candidate selection and the job summary.
\<close>

section \<open>Adding to a damaged queue\<close>

text \<open>The last shard of the queue is missing, or is not what its pointer says.\<close>

definition last_shard_off :: "world \<Rightarrow> archive_queue \<Rightarrow> bool" where
  "last_shard_off w p \<longleftrightarrow> (let sp = last (aq_archivequeueshards p) in missing w (aqsp_address sp)
     \<or> (\<exists>s. stored aqs_c w (aqsp_address sp) s \<and> (aqsp_shardbytescount sp \<noteq> aqs_archivejobstotalsize s
            \<or> aqsp_shardjobscount sp \<noteq> of_nat (length (aqs_archivejobs s)))))"

lemma aq_last_shard_off:
  assumes "held ob" and "last_shard_off w (oo_payload ob)"
  shows "aq_last_shard ob w = (Inr None, w)"
proof -
  let ?sp = "last (aq_archivequeueshards (oo_payload ob))"
  let ?new = "aqs_new\<lparr>oo_name := aqsp_address ?sp, oo_nameSet := True\<rparr>"
  from assms(2) consider "missing w (aqsp_address ?sp)"
    | s where "stored aqs_c w (aqsp_address ?sp) s" "aqsp_shardbytescount ?sp \<noteq> aqs_archivejobstotalsize s
            \<or> aqsp_shardjobscount ?sp \<noteq> of_nat (length (aqs_archivejobs s))"
    by (auto simp: last_shard_off_def Let_def)
  then show ?thesis
  proof cases
    case 1
    from locked_fetch_missing [OF assms(1) 1, of aqs_empty aqs_c] obtain s1 where
      "include_in_exclusive_lock ob ?new = Inr s1" "oo_fetch aqs_c s1 w = (Inl NoSuchObject, w)"
      by (auto simp: aqs_new_def)
    with 1 setAddress_new [of "aqsp_address ?sp" aqs_empty] show ?thesis
      by (simp add: aq_last_shard_def Let_def aqs_new_def missing_def)
  next
    case (2 s)
    from locked_fetch_stored [OF assms(1) codecs_ok(2) 2(1), of aqs_empty] obtain s1 s2 where
      "include_in_exclusive_lock ob ?new = Inr s1" "oo_fetch aqs_c s1 w = (Inr s2, w)"
      "usable s2 (aqsp_address ?sp) True" "oo_payload s2 = s"
      by (auto simp: aqs_new_def)
    with 2 setAddress_new [of "aqsp_address ?sp" aqs_empty] show ?thesis
      by (simp add: aq_last_shard_def Let_def aqs_new_def aqs_getJobsSummary_def storedD)
  qed
qed

lemma aq_add_heals:
  assumes ready: "queue_ready w ob (fst ` set shards)" and fnd: "aq_found w shards"
    and ptrs: "map aqsp_address (aq_archivequeueshards (oo_payload ob)) = map fst shards"
    and off: "shards \<noteq> []" "aqsp_shardjobscount (last (aq_archivequeueshards (oo_payload ob))) < c_maxShardSize"
      "last_shard_off w (oo_payload ob)"
    and bound: "length (view_jobs (aq_survivors shards)) + length jobs < 2 ^ 64" and fresh: "fresh_ids w (length jobs)"
    and jobs: "jobs \<noteq> []"
  shows "\<exists>ob' w' v'. aq_addJobsAndCommit jobs ob w = (Inr ob', w') \<and> aq_inv w' ob' v'
    \<and> view_jobs v' = view_jobs (aq_survivors shards) @ map aqs_job_pointer jobs
    \<and> objects w' (oo_name ob) = Some (oo_header aq_c ob')"
proof -
  have held: "held ob" and q: "oo_name ob \<notin> fst ` set shards" using ready by (simp_all add: queue_ready_def)
  from bound have b: "length (view_jobs (aq_survivors shards)) < 2 ^ 64" by simp
  from aq_rebuild_rep [OF ready fnd ptrs b] obtain ob1 w1 where
    r: "aq_rebuild ob w = (Inr ob1, w1)" "aq_inv w1 ob1 (aq_survivors shards)" "oo_name ob1 = oo_name ob"
    "same_except (fst ` set (aq_survivors shards)) w w1" "nextIdCounter w1 = nextIdCounter w" by blast
  from aq_inv_commit [OF r(2)] obtain w2 where
    c: "aq_commit ob1 w1 = (Inr ob1, w2)" "aq_inv w2 ob1 (aq_survivors shards)" "same_except {oo_name ob1} w1 w2"
    "nextIdCounter w2 = nextIdCounter w1" by blast
  have "aq_archivequeueshards (oo_payload ob) \<noteq> []" using ptrs off(1) by auto
  then have round: "aq_add_round jobs ob w = (Inr (ob1, jobs), w2)"
    using off(2) aq_last_shard_off [OF held off(3)] r(1) c(1) by (simp add: aq_add_round_def)
  have "fresh_ids w1 (length jobs)"
    by (rule fresh_ids_same [OF fresh r(4) _ r(5)]) (use aq_survivors_stored [OF fnd] in auto)
  then have "fresh_ids w2 (length jobs)"
    by (rule fresh_ids_same [OF _ c(3) _ c(4)]) (use r(2) aq_inv_address [OF r(2)] in auto)
  from aq_add_rounds_rep [OF c(2) bound this order_refl] obtain ob' w' v' where
    "aq_add_rounds (length jobs) jobs ob1 w2 = (Inr ob', w')"
    "aq_added w2 ob1 (aq_survivors shards) (map aqs_job_pointer jobs) w' ob' v'"
    "jobs \<noteq> [] \<longrightarrow> objects w' (oo_name ob1) = Some (oo_header aq_c ob')" by blast
  with round held jobs r(3) show ?thesis
    by (cases jobs) (auto simp: aq_addJobsAndCommit_def aq_added_def)
qed

section \<open>The creation times\<close>

lemma aq_store_images:
  assumes "aq_store w v" and "(a, js) \<in> set v"
  shows "\<exists>i. lockfree_image aqs_c aqs_empty w a = Inr i \<and> oo_payload i = aq_shard_of js \<and> checkPayloadReadable i = Inr ()"
  using assms lockfree_image_stored [OF codecs_ok(2), of w a "aq_shard_of js" aqs_empty] by (auto simp: aq_store_def)

lemma aq_fetch_all:
  assumes "aq_archivequeueshards p = map aq_pointer_of v" and "aq_store w v"
  shows "lockfree_fetch_all aqs_c aqs_empty (map aqsp_address (aq_archivequeueshards p)) w
    = (Inr (map (\<lambda>x. (fst x, lockfree_image aqs_c aqs_empty w (fst x))) v), w)"
proof -
  have "\<forall>a \<in> set (map fst v). a \<noteq> ''''" using assms(2) by (auto simp: aq_store_def stored_def)
  from lockfree_fetch_all_eq [OF this, of aqs_c aqs_empty w] show ?thesis
    by (simp add: assms(1) comp_def)
qed

lemma aqs_dumpJobs_image:
  "oo_payload i = aq_shard_of js \<Longrightarrow> checkPayloadReadable i = Inr () \<Longrightarrow> aqs_dumpJobs i = Inr (map aqs_job_info_of js)"
  by (simp add: aqs_dumpJobs_def aq_shard_of_def)

lemma aq_recompute_shards:
  assumes "\<forall>(a, js) \<in> set v. \<exists>i. img a = Inr i \<and> oo_payload i = aq_shard_of js \<and> checkPayloadReadable i = Inr ()"
  shows "foldM aq_recompute_shard (p, t, u) (map (\<lambda>x. (fst x, img (fst x))) v) w
    = (Inr (p, oldest_start (view_jobs v) t, youngest_start (view_jobs v) u), w)"
  using assms
proof (induction v arbitrary: t u)
  case Nil
  then show ?case by (simp add: oldest_start_def youngest_start_def)
next
  case (Cons x v)
  obtain a js where x: "x = (a, js)" by (cases x)
  obtain i where i: "img a = Inr i" "oo_payload i = aq_shard_of js" "checkPayloadReadable i = Inr ()"
    using Cons.prems by (auto simp: x)
  have "aq_recompute_shard (p, t, u) (a, Inr i) w = (Inr (p, oldest_start js t, youngest_start js u), w)"
    using aqs_dumpJobs_image [OF i(2,3)]
    by (simp add: aq_recompute_shard_def oldest_start_def youngest_start_def fold_map comp_def aqs_job_info_of_def cong del: if_weak_cong)
  with Cons.IH [of "oldest_start js t" "youngest_start js u"] Cons.prems i(1) show ?case
    by (simp add: x oldest_start_def youngest_start_def)
qed

lemma aq_recompute_rep:
  assumes "held ob" and "aq_rep (oo_payload ob) v" and "aq_store w v"
  shows "\<exists>ob'. aq_recomputeOldestAndYoungestJobCreationTime ob w = (Inr ob', w)
    \<and> held ob' \<and> oo_name ob' = oo_name ob \<and> aq_rep (oo_payload ob') v
    \<and> (let t = oldest_start (view_jobs v) time_t_max
       in t \<noteq> time_t_max \<longrightarrow> aq_oldestjobcreationtime (oo_payload ob') = t)
    \<and> (let t = youngest_start (view_jobs v) time_t_min
       in t \<noteq> time_t_min \<longrightarrow> aq_youngestjobcreationtime (oo_payload ob') = t)"
proof -
  have ptrs: "aq_archivequeueshards (oo_payload ob) = map aq_pointer_of v" using assms(2) by (simp add: aq_rep_def)
  have "\<forall>(a, js) \<in> set v. \<exists>i. lockfree_image aqs_c aqs_empty w a = Inr i \<and> oo_payload i = aq_shard_of js
      \<and> checkPayloadReadable i = Inr ()"
    using aq_store_images [OF assms(3)] by auto
  from aq_recompute_shards [OF this] assms(1,2) aq_fetch_all [OF ptrs assms(3)] show ?thesis
    by (simp add: aq_recomputeOldestAndYoungestJobCreationTime_def Let_def aq_rep_def aq_sums_def aq_maps_def)
qed

section \<open>Removing jobs\<close>

lemma aq_maps_perm: "aq_maps p js \<Longrightarrow> mset js = mset js' \<Longrightarrow> aq_maps p js'"
  by (simp add: aq_maps_def)

lemma aq_uncount_job_maps:
  assumes "aq_maps p (j # js)"
  shows "\<exists>pm am mm. aq_uncount_job p (aqs_removed_job_info j)
      = Inr (p\<lparr>aq_prioritymap := pm, aq_minarchiverequestagemap := am, aq_mountpolicynamemap := mm\<rparr>)
    \<and> aq_maps (p\<lparr>aq_prioritymap := pm, aq_minarchiverequestagemap := am, aq_mountpolicynamemap := mm\<rparr>) js"
proof -
  obtain pm where pm: "decCount (ajp_priority j) (aq_prioritymap p) = Inr pm" "represents pm (mset (map ajp_priority js))"
    using assms decCount_represents [of "aq_prioritymap p" "mset (map ajp_priority (j # js))" "ajp_priority j"]
    by (auto simp: aq_maps_def)
  obtain am where am: "decCount (ajp_minarchiverequestage j) (aq_minarchiverequestagemap p) = Inr am"
    "represents am (mset (map ajp_minarchiverequestage js))"
    using assms decCount_represents [of "aq_minarchiverequestagemap p" "mset (map ajp_minarchiverequestage (j # js))"
        "ajp_minarchiverequestage j"]
    by (auto simp: aq_maps_def)
  obtain mm where mm: "decCount (ajp_mountpolicyname j) (aq_mountpolicynamemap p) = Inr mm"
    "represents mm (mset (map ajp_mountpolicyname js))"
    using assms decCount_represents [of "aq_mountpolicynamemap p" "mset (map ajp_mountpolicyname (j # js))"
        "ajp_mountpolicyname j"]
    by (auto simp: aq_maps_def)
  from pm am mm show ?thesis
    by (intro exI [of _ pm] exI [of _ am] exI [of _ mm]) (simp add: aq_uncount_job_def aqs_removed_job_info_def aq_maps_def)
qed

lemma aq_uncount_jobs:
  assumes "aq_maps p (out @ kept)"
  shows "\<exists>pm am mm. foldR aq_uncount_job p (map aqs_removed_job_info out)
      = Inr (p\<lparr>aq_prioritymap := pm, aq_minarchiverequestagemap := am, aq_mountpolicynamemap := mm\<rparr>)
    \<and> aq_maps (p\<lparr>aq_prioritymap := pm, aq_minarchiverequestagemap := am, aq_mountpolicynamemap := mm\<rparr>) kept"
  using assms
proof (induction out arbitrary: p)
  case Nil
  then show ?case
    by (intro exI [of _ "aq_prioritymap p"] exI [of _ "aq_minarchiverequestagemap p"] exI [of _ "aq_mountpolicynamemap p"]) simp
next
  case (Cons j out)
  from aq_uncount_job_maps [of p j "out @ kept"] Cons.prems obtain pm am mm where
    s: "aq_uncount_job p (aqs_removed_job_info j)
        = Inr (p\<lparr>aq_prioritymap := pm, aq_minarchiverequestagemap := am, aq_mountpolicynamemap := mm\<rparr>)"
    "aq_maps (p\<lparr>aq_prioritymap := pm, aq_minarchiverequestagemap := am, aq_mountpolicynamemap := mm\<rparr>) (out @ kept)"
    by auto
  from Cons.IH [OF s(2)] s(1) show ?case by auto
qed

text \<open>The shard's side of a round: \<open>out\<close> are the jobs taken out, \<open>kept\<close> those that stay.\<close>

lemma aq_remove_from_shard_rep:
  assumes held: "held ob" and st: "stored aqs_c w a (aq_shard_of js)" and bound: "length js < 2 ^ 64"
    and kept: "kept = filter (\<lambda>j. ajp_address j \<notin> set L) js" and out: "out = taken_out ajp_address L js"
  shows "\<exists>w'. aq_remove_from_shard L ob a w =
      (Inr \<lparr>rmr_jobsRemoved = of_nat (length out), rmr_jobsAfter = of_nat (length kept),
            rmr_bytesRemoved = (\<Sum>j\<leftarrow>out. ajp_size j), rmr_bytesAfter = (\<Sum>j\<leftarrow>kept. ajp_size j),
            rmr_removedJobs = map aqs_removed_job_info out\<rparr>, w')
    \<and> same_except {a} w w' \<and> nextIdCounter w' = nextIdCounter w
    \<and> (if kept = [] then objects w' a = None else stored aqs_c w' a (aq_shard_of kept))"
proof -
  have a: "a \<noteq> ''''" using st by (simp add: stored_def)
  from locked_fetch_stored [OF held codecs_ok(2) st, of aqs_empty] obtain s1 s2 where
    f: "include_in_exclusive_lock ob (aqs_new\<lparr>oo_name := a, oo_nameSet := True\<rparr>) = Inr s1"
    "oo_fetch aqs_c s1 w = (Inr s2, w)" "usable s2 a True" "oo_payload s2 = aq_shard_of js"
    by (auto simp: aqs_new_def)
  let ?rm = "\<lparr>rmr_jobsRemoved = of_nat (length out), rmr_jobsAfter = of_nat (length kept),
            rmr_bytesRemoved = (\<Sum>j\<leftarrow>out. ajp_size j), rmr_bytesAfter = (\<Sum>j\<leftarrow>kept. ajp_size j),
            rmr_removedJobs = map aqs_removed_job_info out\<rparr>"
  define s3 where "s3 = s2\<lparr>oo_payload := aq_shard_of kept\<rparr>"
  have sums: "(\<Sum>j\<leftarrow>js. ajp_size j) - (\<Sum>j\<leftarrow>out. ajp_size j) = (\<Sum>j\<leftarrow>kept. ajp_size j)"
    by (simp add: out kept sum_list_taken_out)
  have rm: "aqs_removeJobs L s2 = Inr (?rm, s3)"
    using f(3,4) sums by (simp add: aqs_removeJobs_def aqs_remove_payload_eq Let_def s3_def aq_shard_of_def flip: kept out)
  have "length kept < 2 ^ 64" using bound by (metis kept le_less_trans length_filter_le)
  then have zero: "(of_nat (length kept) :: u64) = 0 \<longleftrightarrow> kept = []"
    using of_nat_word_eq_0_iff [of "length kept", where 'w = 64] by simp
  have us3: "usable s3 a True" and ex: "lockFiles w a" "objects w a \<noteq> None"
    using f(3) storedD [OF st] by (simp_all add: s3_def)
  have prog: "aq_remove_from_shard L ob a w =
      bnd (if rmr_jobsAfter ?rm \<noteq> 0 then oo_commit aqs_c s3 else bnd (oo_remove s3) (\<lambda>_. ret ())) (\<lambda>_. ret ?rm) w"
    using f(1,2) rm setAddress_new [OF a, of aqs_empty] by (simp add: aq_remove_from_shard_def aqs_at_def aqs_new_def)
  show ?thesis
  proof (cases "kept = []")
    case True
    with usable_remove [OF us3 ex] obtain s4 where
      "oo_remove s3 w = (Inr s4, w\<lparr>objects := (objects w)(a := None), lockFiles := (lockFiles w)(a := False)\<rparr>)" by blast
    with True prog show ?thesis by (simp add: same_except_def)
  next
    case False
    with usable_commit [OF us3 ex, of aqs_c] prog zero a ex show ?thesis
      by (simp add: same_except_def stored_def oo_header_def) (simp add: s3_def)
  qed
qed

text \<open>The abstract effect of a round on the shard \<open>(a, js)\<close>: it is trimmed, and dropped when it is drained.\<close>

definition trim_shard :: "string list \<Rightarrow> string \<times> archive_job_pointer list \<Rightarrow> aq_view" where
  "trim_shard L x = (let kept = filter (\<lambda>j. ajp_address j \<notin> set L) (snd x) in if kept = [] then [] else [(fst x, kept)])"

lemma view_jobs_trim_shard: "view_jobs (trim_shard L x) = filter (\<lambda>j. ajp_address j \<notin> set L) (snd x)"
  by (simp add: trim_shard_def Let_def)

lemma fst_trim_shard: "fst ` set (trim_shard L x) \<subseteq> {fst x}"
  by (simp add: trim_shard_def Let_def)

lemma trim_shard_nothing: "trim_shard [] x = (if snd x = [] then [] else [x])"
  by (simp add: trim_shard_def)

lemma filter_trim_shard: "filter (\<lambda>y. snd y \<noteq> []) (trim_shard L x) = trim_shard L x"
  by (simp add: trim_shard_def Let_def)

lemma trimmed_nothing: "concat (map (trim_shard []) v) = filter (\<lambda>x. snd x \<noteq> []) v"
  by (induction v) (simp_all add: trim_shard_nothing)

lemma aq_store_split:
  "aq_store w (v1 @ x # v2) \<longleftrightarrow> aq_store w (v1 @ v2) \<and> fst x \<notin> fst ` set (v1 @ v2) \<and> stored aqs_c w (fst x) (aq_shard_of (snd x))"
  by (cases x) (auto simp: aq_store_def)

lemma aq_remove_counts:
  assumes rep: "aq_rep p (v1 @ (a, js) # v2)" and kept: "kept = filter (\<lambda>j. ajp_address j \<notin> set L) js"
    and out: "out = taken_out ajp_address L js"
  shows "\<exists>p1. foldR aq_uncount_job p (map aqs_removed_job_info out) = Inr p1
    \<and> aq_archivequeueshards p1 = map aq_pointer_of (v1 @ (a, js) # v2)
    \<and> aq_sums (p1\<lparr>aq_archivejobscount := aq_archivejobscount p1 - of_nat (length out),
        aq_archivejobstotalsize := aq_archivejobstotalsize p1 - (\<Sum>j\<leftarrow>out. ajp_size j)\<rparr>) (view_jobs v1 @ kept @ view_jobs v2)"
proof -
  have part: "mset js = mset out + mset kept"
    using multiset_partition [of "mset js" "\<lambda>j. ajp_address j \<in> set L"] by (simp add: out kept mset_taken_out)
  have sums: "aq_sums p (view_jobs v1 @ js @ view_jobs v2)" and ptrs: "aq_archivequeueshards p = map aq_pointer_of (v1 @ (a, js) # v2)"
    using rep by (simp_all add: aq_rep_def)
  have "mset (view_jobs v1 @ js @ view_jobs v2) = mset (out @ (view_jobs v1 @ kept @ view_jobs v2))"
    by (simp add: part)
  moreover have "aq_maps p (view_jobs v1 @ js @ view_jobs v2)" using sums by (simp add: aq_sums_def)
  ultimately have "aq_maps p (out @ (view_jobs v1 @ kept @ view_jobs v2))" by (rule aq_maps_perm [rotated])
  from aq_uncount_jobs [OF this] obtain pm am mm where
    u: "foldR aq_uncount_job p (map aqs_removed_job_info out)
      = Inr (p\<lparr>aq_prioritymap := pm, aq_minarchiverequestagemap := am, aq_mountpolicynamemap := mm\<rparr>)"
    "aq_maps (p\<lparr>aq_prioritymap := pm, aq_minarchiverequestagemap := am, aq_mountpolicynamemap := mm\<rparr>)
      (view_jobs v1 @ kept @ view_jobs v2)" by blast
  have len: "length js = length out + length kept" using arg_cong [OF part, of size] by simp
  have "(\<Sum>j\<leftarrow>js. ajp_size j) = (\<Sum>j\<leftarrow>out. ajp_size j) + (\<Sum>j\<leftarrow>kept. ajp_size j)"
    by (simp add: out kept sum_list_taken_out)
  with u sums ptrs len show ?thesis
    by (simp add: aq_sums_def aq_maps_def algebra_simps)
qed

lemma remove_pointer:
  assumes "aq_archivequeueshards p = map aq_pointer_of (v1 @ x # v2)"
  shows "butlast (push_to_end (length v1) (aq_archivequeueshards p)) = map aq_pointer_of (v1 @ v2)"
  using butlast_push_to_end [of "map aq_pointer_of v1" "aq_pointer_of x" "map aq_pointer_of v2"] assms by simp

lemma aq_after_removal_rep:
  assumes ptrs: "aq_archivequeueshards (oo_payload ob) = map aq_pointer_of (v1 @ (a, js) # v2)" and bound: "length js < 2 ^ 64"
    and kept: "kept = filter (\<lambda>j. ajp_address j \<notin> set L) js" and out: "out = taken_out ajp_address L js"
    and rm: "rmr_jobsRemoved rm = of_nat (length out)" "rmr_jobsAfter rm = of_nat (length kept)"
      "rmr_bytesRemoved rm = (\<Sum>j\<leftarrow>out. ajp_size j)" "rmr_bytesAfter rm = (\<Sum>j\<leftarrow>kept. ajp_size j)"
  shows "aq_after_removal rm ob (length v1) w = (Inr (ob\<lparr>oo_payload := (oo_payload ob)\<lparr>aq_archivequeueshards :=
    map aq_pointer_of (v1 @ trim_shard L (a, js) @ v2)\<rparr>\<rparr>, length (v1 @ trim_shard L (a, js))), w)"
proof -
  have len: "length js = length out + length kept" using length_taken_out [of ajp_address L js] by (simp add: out kept)
  have bytes: "(\<Sum>j\<leftarrow>js. ajp_size j) = (\<Sum>j\<leftarrow>out. ajp_size j) + (\<Sum>j\<leftarrow>kept. ajp_size j)"
    by (simp add: out kept sum_list_taken_out)
  have "length kept < 2 ^ 64" using len bound by linarith
  then have zero: "(of_nat (length kept) :: u64) = 0 \<longleftrightarrow> kept = []"
    using of_nat_word_eq_0_iff [of "length kept", where 'w = 64] by simp
  show ?thesis
  proof (cases "kept = []")
    case True
    then show ?thesis
      using rm(2) remove_pointer [OF ptrs]
      by (simp add: aq_after_removal_def Let_def zero trim_shard_def flip: kept)
  next
    case False
    have sp: "map aq_pointer_of (v1 @ (a, js) # v2) ! length v1 = aq_pointer_of (a, js)" by (simp add: nth_append)
    have upd: "(aq_pointer_of (a, js))\<lparr>aqsp_shardbytescount := aqsp_shardbytescount (aq_pointer_of (a, js)) - rmr_bytesRemoved rm,
        aqsp_shardjobscount := aqsp_shardjobscount (aq_pointer_of (a, js)) - rmr_jobsRemoved rm\<rparr> = aq_pointer_of (a, kept)"
      using len bytes rm by (simp add: aq_pointer_of_def)
    have same: "aqsp_shardbytescount (aq_pointer_of (a, kept)) = rmr_bytesAfter rm"
      "aqsp_shardjobscount (aq_pointer_of (a, kept)) = rmr_jobsAfter rm"
      using rm by (simp_all add: aq_pointer_of_def)
    have "(map aq_pointer_of (v1 @ (a, js) # v2))[length v1 := aq_pointer_of (a, kept)] = map aq_pointer_of (v1 @ (a, kept) # v2)"
      by (simp add: list_update_append)
    moreover have "trim_shard L (a, js) = [(a, kept)]" using False by (simp add: trim_shard_def Let_def kept)
    ultimately show ?thesis
      using False zero rm(2) same unfolding aq_after_removal_def Let_def ptrs sp upd by simp
  qed
qed

lemma aq_remove_round_rep:
  assumes inv: "aq_inv w ob (v1 @ (a, js) # v2)"
  shows "\<exists>ob' w'. aq_remove_round L ob (length v1) w =
      (Inr (ob', filter (\<lambda>ja. ja \<notin> ajp_address ` set js) L, length (v1 @ trim_shard L (a, js))), w')
    \<and> aq_inv w' ob' (v1 @ trim_shard L (a, js) @ v2) \<and> oo_name ob' = oo_name ob
    \<and> same_except {oo_name ob, a} w w' \<and> (trim_shard L (a, js) = [] \<longrightarrow> objects w' a = None)
    \<and> objects w' (oo_name ob) = Some (oo_header aq_c ob')"
proof -
  let ?v = "v1 @ trim_shard L (a, js) @ v2"
  define kept where "kept = filter (\<lambda>j. ajp_address j \<notin> set L) js"
  define out where "out = taken_out ajp_address L js"
  have held: "held ob" and ex: "vfs_exists (oo_name ob) w" and q: "oo_name ob \<noteq> a" "oo_name ob \<notin> fst ` set (v1 @ v2)"
    and rep: "aq_rep (oo_payload ob) (v1 @ (a, js) # v2)" and st: "stored aqs_c w a (aq_shard_of js)"
    and store: "aq_store w (v1 @ v2)" "a \<notin> fst ` set (v1 @ v2)"
    using inv aq_store_split [of w v1 "(a, js)" v2] by (auto simp: aq_inv_def queue_ready_def)
  have bound: "length js < 2 ^ 64" using aq_sums_bound [of "oo_payload ob" "view_jobs (v1 @ (a, js) # v2)"] rep
    by (simp add: aq_rep_def)
  define rm where "rm = \<lparr>rmr_jobsRemoved = of_nat (length out), rmr_jobsAfter = of_nat (length kept),
            rmr_bytesRemoved = (\<Sum>j\<leftarrow>out. ajp_size j), rmr_bytesAfter = (\<Sum>j\<leftarrow>kept. ajp_size j),
            rmr_removedJobs = map aqs_removed_job_info out\<rparr>"
  from aq_remove_from_shard_rep [OF held st bound kept_def out_def] obtain w1 where
    sh: "aq_remove_from_shard L ob a w = (Inr rm, w1)" "same_except {a} w w1"
      "if kept = [] then objects w1 a = None else stored aqs_c w1 a (aq_shard_of kept)" unfolding rm_def by blast
  from aq_remove_counts [OF rep kept_def out_def] obtain p1 where
    p1: "foldR aq_uncount_job (oo_payload ob) (map aqs_removed_job_info out) = Inr p1"
    "aq_archivequeueshards p1 = map aq_pointer_of (v1 @ (a, js) # v2)"
    "aq_sums (p1\<lparr>aq_archivejobscount := aq_archivejobscount p1 - of_nat (length out),
        aq_archivejobstotalsize := aq_archivejobstotalsize p1 - (\<Sum>j\<leftarrow>out. ajp_size j)\<rparr>) (view_jobs v1 @ kept @ view_jobs v2)"
    by blast
  define ob2 where "ob2 = ob\<lparr>oo_payload := p1\<lparr>aq_archivejobscount := aq_archivejobscount p1 - rmr_jobsRemoved rm,
        aq_archivejobstotalsize := aq_archivejobstotalsize p1 - rmr_bytesRemoved rm\<rparr>\<rparr>"
  define ob3 where "ob3 = ob2\<lparr>oo_payload := (oo_payload ob2)\<lparr>aq_archivequeueshards := map aq_pointer_of ?v\<rparr>\<rparr>"
  have after: "aq_after_removal rm ob2 (length v1) w1 = (Inr (ob3, length (v1 @ trim_shard L (a, js))), w1)"
    unfolding ob3_def using p1(2) by (intro aq_after_removal_rep [OF _ bound kept_def out_def]) (simp_all add: rm_def ob2_def)
  have rep3: "aq_rep (oo_payload ob3) ?v"
    using p1(3) by (simp add: ob3_def ob2_def rm_def aq_rep_def view_jobs_trim_shard kept_def aq_sums_def aq_maps_def)
  have store1: "aq_store w1 ?v"
    using aq_store_same [OF store(1) sh(2)] store(2) sh(3) aq_store_split [of w1 v1 "(a, kept)" v2]
    by (auto simp: trim_shard_def Let_def kept_def)
  have h3: "held ob3" "oo_name ob3 = oo_name ob" using held by (simp_all add: ob3_def ob2_def)
  from aq_recompute_rep [OF h3(1) rep3 store1] obtain ob4 where
    r: "aq_recomputeOldestAndYoungestJobCreationTime ob3 w1 = (Inr ob4, w1)" "held ob4" "oo_name ob4 = oo_name ob"
    "aq_rep (oo_payload ob4) ?v" using h3(2) by auto
  have q4: "oo_name ob \<notin> fst ` set ?v" using q fst_trim_shard [of L "(a, js)"] by auto
  have "vfs_exists (oo_name ob) w1" using ex same_exceptD [OF sh(2), of "oo_name ob"] q(1) by (simp add: vfs_exists_def)
  then have "aq_inv w1 ob4 ?v" using r q4 store1 by (simp add: aq_inv_def queue_ready_def)
  from aq_inv_commit [OF this] obtain w' where
    c: "aq_commit ob4 w1 = (Inr ob4, w')" "aq_inv w' ob4 ?v" "objects w' (oo_name ob) = Some (oo_header aq_c ob4)"
    "same_except {oo_name ob} w1 w'" using r(3) by auto
  have L: "filter (\<lambda>ja. \<not> (\<exists>j \<in> set (rmr_removedJobs rm). aji_address j = ja)) L = filter (\<lambda>ja. ja \<notin> ajp_address ` set js) L"
    by (rule filter_cong) (auto simp: rm_def out_def set_taken_out aqs_removed_job_info_def)
  have sp: "aqsp_address (aq_archivequeueshards (oo_payload ob) ! length v1) = a"
    using rep by (simp add: aq_rep_def nth_append)
  have "rmr_removedJobs rm = map aqs_removed_job_info out" by (simp add: rm_def)
  then have "aq_remove_round L ob (length v1) w
      = (Inr (ob4, filter (\<lambda>ja. ja \<notin> ajp_address ` set js) L, length (v1 @ trim_shard L (a, js))), w')"
    using sh(1) p1(1) after r(1) c(1) L unfolding aq_remove_round_def sp by (simp add: Let_def flip: ob2_def)
  moreover have "objects w' a = None" if "trim_shard L (a, js) = []"
    using that sh(3) same_exceptD [OF c(4), of a] q(1) by (simp add: trim_shard_def Let_def kept_def split: if_splits)
  moreover have "same_except {oo_name ob, a} w w'" by (rule same_except_trans [OF sh(2) c(4)]) auto
  ultimately show ?thesis using c(2,3) r(3) by blast
qed

lemma filter_trimmed:
  assumes "addr ` set js \<inter> addr ` set ks = {}"
  shows "filter (\<lambda>k. addr k \<notin> set (filter (\<lambda>ja. ja \<notin> addr ` set js) L)) ks = filter (\<lambda>k. addr k \<notin> set L) ks"
  using assms by (intro filter_cong) auto

lemma trim_trimmed:
  fixes js :: "archive_job_pointer list"
  assumes "ajp_address ` set js \<inter> ajp_address ` set (view_jobs v) = {}"
  shows "map (trim_shard (filter (\<lambda>ja. ja \<notin> ajp_address ` set js) L)) v = map (trim_shard L) v"
proof (rule map_cong [OF refl])
  fix y assume "y \<in> set v"
  with assms have "ajp_address ` set js \<inter> ajp_address ` set (snd y) = {}" by (auto simp: view_jobs_def)
  from filter_trimmed [OF this] show "trim_shard (filter (\<lambda>ja. ja \<notin> ajp_address ` set js) L) y = trim_shard L y"
    by (simp add: trim_shard_def)
qed

lemma aq_remove_rounds_stop:
  "L = [] \<or> length (aq_archivequeueshards (oo_payload ob)) \<le> i \<Longrightarrow> aq_remove_rounds fuel L ob i = ret ob"
  by (subst aq_remove_rounds.simps) auto

lemma aq_remove_rounds_step:
  "L \<noteq> [] \<Longrightarrow> i < length (aq_archivequeueshards (oo_payload ob)) \<Longrightarrow> aq_remove_rounds (Suc fuel) L ob i =
     bnd (aq_remove_round L ob i) (\<lambda>(ob1, L1, i1). aq_remove_rounds fuel L1 ob1 i1)"
  by (subst aq_remove_rounds.simps) simp

text \<open>What the removal leaves of the queue \<open>v1 @ v2\<close> when the jobs of \<open>v1\<close> all stay.\<close>

definition aq_removed :: "world \<Rightarrow> archive_queue oo \<Rightarrow> aq_view \<Rightarrow> aq_view \<Rightarrow> string list \<Rightarrow> world \<Rightarrow> archive_queue oo \<Rightarrow> aq_view \<Rightarrow> bool" where
  "aq_removed w ob v1 v2 L w' ob' v' \<longleftrightarrow> aq_inv w' ob' v' \<and> oo_name ob' = oo_name ob
     \<and> view_jobs v' = view_jobs v1 @ filter (\<lambda>j. ajp_address j \<notin> set L) (view_jobs v2)
     \<and> same_except (insert (oo_name ob) (fst ` set v2)) w w' \<and> fst ` set v' \<subseteq> fst ` set (v1 @ v2)
     \<and> (\<forall>a \<in> fst ` set (v1 @ v2) - fst ` set v'. objects w' a = None)
     \<and> filter (\<lambda>x. snd x \<noteq> []) v' = filter (\<lambda>x. snd x \<noteq> []) v1 @ concat (map (trim_shard L) v2)
     \<and> (\<forall>x \<in> set v'. snd x = [] \<longrightarrow> x \<in> set (v1 @ v2))
     \<and> (objects w (oo_name ob) = Some (oo_header aq_c ob) \<longrightarrow> objects w' (oo_name ob) = Some (oo_header aq_c ob'))
     \<and> ((\<forall>x \<in> set (v1 @ v2). snd x \<noteq> []) \<longrightarrow> (\<forall>x \<in> set v'. snd x \<noteq> []))"

lemma aq_removedD:
  assumes "aq_removed w ob v1 v2 L w' ob' v'"
  shows "aq_inv w' ob' v'" and "oo_name ob' = oo_name ob"
    and "view_jobs v' = view_jobs v1 @ filter (\<lambda>j. ajp_address j \<notin> set L) (view_jobs v2)"
    and "same_except (insert (oo_name ob) (fst ` set v2)) w w'" and "fst ` set v' \<subseteq> fst ` set (v1 @ v2)"
    and "\<forall>a \<in> fst ` set (v1 @ v2) - fst ` set v'. objects w' a = None"
    and "filter (\<lambda>x. snd x \<noteq> []) v' = filter (\<lambda>x. snd x \<noteq> []) v1 @ concat (map (trim_shard L) v2)"
    and "\<forall>x \<in> set v'. snd x = [] \<longrightarrow> x \<in> set (v1 @ v2)"
    and "objects w (oo_name ob) = Some (oo_header aq_c ob) \<longrightarrow> objects w' (oo_name ob) = Some (oo_header aq_c ob')"
    and "(\<forall>x \<in> set (v1 @ v2). snd x \<noteq> []) \<longrightarrow> (\<forall>x \<in> set v'. snd x \<noteq> [])"
  using assms unfolding aq_removed_def by - (elim conjE, assumption)+

lemma aq_remove_rounds_rep:
  assumes "aq_inv w ob (v1 @ v2)" and "distinct (map ajp_address (view_jobs v2))" and "length v2 \<le> fuel"
  shows "\<exists>ob' w' v'. aq_remove_rounds fuel L ob (length v1) w = (Inr ob', w') \<and> aq_removed w ob v1 v2 L w' ob' v'"
  using assms
proof (induction v2 arbitrary: v1 L ob w fuel)
  case Nil
  then have "length (aq_archivequeueshards (oo_payload ob)) = length v1" by (simp add: aq_inv_def aq_rep_def)
  with Nil.prems(1) show ?case
    by (intro exI [of _ ob] exI [of _ w] exI [of _ v1]) (simp add: aq_remove_rounds_stop aq_removed_def same_except_refl)
next
  case (Cons x v2)
  obtain a js where x: "x = (a, js)" by (cases x)
  show ?case
  proof (cases "L = []")
    case True
    with Cons.prems(1) show ?thesis
      by (intro exI [of _ ob] exI [of _ w] exI [of _ "v1 @ x # v2"])
         (simp add: aq_remove_rounds_stop aq_removed_def same_except_refl x trim_shard_nothing trimmed_nothing)
  next
    case False
    let ?L = "filter (\<lambda>ja. ja \<notin> ajp_address ` set js) L" and ?t = "trim_shard L (a, js)"
    obtain fuel' where fuel: "fuel = Suc fuel'" "length v2 \<le> fuel'" using Cons.prems(3) by (cases fuel) auto
    have inv: "aq_inv w ob (v1 @ (a, js) # v2)" using Cons.prems(1) by (simp add: x)
    from aq_remove_round_rep [OF inv, of L] obtain ob1 w1 where
      r: "aq_remove_round L ob (length v1) w = (Inr (ob1, ?L, length (v1 @ ?t)), w1)"
      "aq_inv w1 ob1 ((v1 @ ?t) @ v2)" "oo_name ob1 = oo_name ob" "same_except {oo_name ob, a} w w1"
      "?t = [] \<longrightarrow> objects w1 a = None" "objects w1 (oo_name ob) = Some (oo_header aq_c ob1)" by auto
    have dist: "distinct (map ajp_address (view_jobs v2))" "ajp_address ` set js \<inter> ajp_address ` set (view_jobs v2) = {}"
      using Cons.prems(2) by (auto simp: x)
    from Cons.IH [OF r(2) dist(1) fuel(2), of ?L] obtain ob' w' v' where
      IH: "aq_remove_rounds fuel' ?L ob1 (length (v1 @ ?t)) w1 = (Inr ob', w')" "aq_removed w1 ob1 (v1 @ ?t) v2 ?L w' ob' v'"
      by blast
    note rest = aq_removedD [OF IH(2), unfolded r(3)]
    have a: "a \<notin> fst ` set v2" "a \<noteq> oo_name ob" using inv by (auto simp: aq_inv_def aq_store_def queue_ready_def)
    have gone: "objects w' a = None" if "?t = []" using same_exceptD [OF rest(4), of a] a r(5) that by simp
    have t: "fst ` set ?t = (if ?t = [] then {} else {a})" "\<forall>y \<in> set ?t. snd y \<noteq> []"
      by (simp_all add: trim_shard_def Let_def)
    have "same_except (insert (oo_name ob) (fst ` set (x # v2))) w w'"
      by (rule same_except_trans [OF r(4) rest(4)]) (auto simp: x)
    moreover have "view_jobs v' = view_jobs v1 @ filter (\<lambda>j. ajp_address j \<notin> set L) (view_jobs (x # v2))"
      using rest(3) filter_trimmed [OF dist(2), of L] by (simp add: view_jobs_trim_shard x)
    moreover have "fst ` set v' \<subseteq> fst ` set (v1 @ x # v2)" using rest(5) t(1) by (auto simp: x split: if_splits)
    moreover have "\<forall>b \<in> fst ` set (v1 @ x # v2) - fst ` set v'. objects w' b = None"
      using rest(6) gone unfolding set_append image_Un t(1) by (auto simp: x split: if_splits)
    moreover have "filter (\<lambda>y. snd y \<noteq> []) v' = filter (\<lambda>y. snd y \<noteq> []) v1 @ concat (map (trim_shard L) (x # v2))"
      using rest(7) trim_trimmed [OF dist(2), of L] by (simp add: filter_trim_shard x)
    moreover have stay: "\<forall>y \<in> set v'. snd y = [] \<longrightarrow> y \<in> set (v1 @ x # v2)" using rest(8) t(2) by auto
    moreover have "(\<forall>y \<in> set (v1 @ x # v2). snd y \<noteq> []) \<longrightarrow> (\<forall>y \<in> set v'. snd y \<noteq> [])" using stay by blast
    ultimately have "aq_removed w ob v1 (x # v2) L w' ob' v'"
      unfolding aq_removed_def using rest(1,2) mp [OF rest(9) r(6)] by (intro conjI) (assumption | rule impI, assumption)+
    moreover have "length v1 < length (aq_archivequeueshards (oo_payload ob))"
      using inv by (simp add: aq_inv_def aq_rep_def)
    then have "aq_remove_rounds fuel L ob (length v1) w = (Inr ob', w')"
      using aq_remove_rounds_step [OF False] r(1) IH(1) fuel(1) by simp
    ultimately show ?thesis by blast
  qed
qed

section \<open>Listing\<close>

lemma aq_dump_shards:
  assumes "\<forall>(a, js) \<in> set v. \<exists>i. img a = Inr i \<and> oo_payload i = aq_shard_of js \<and> checkPayloadReadable i = Inr ()"
  shows "foldR aq_dump_shard dumps (map (\<lambda>x. (fst x, img (fst x))) v) = Inr (dumps @ map (map aqs_job_dump \<circ> snd) v)"
  using assms
proof (induction v arbitrary: dumps)
  case (Cons x v)
  obtain a js where x: "x = (a, js)" by (cases x)
  obtain i where i: "img a = Inr i" "oo_payload i = aq_shard_of js" "checkPayloadReadable i = Inr ()"
    using Cons.prems by (auto simp: x)
  have "aq_dump_shard dumps (a, Inr i) = Inr (dumps @ [map aqs_job_dump js])"
    using aqs_dumpJobs_image [OF i(2,3)] by (simp add: aq_dump_shard_def aqs_job_info_of_def aqs_job_dump_def)
  with Cons i(1) show ?case by (simp add: x)
qed simp

lemma aq_shards_dumps_rep:
  assumes "aq_archivequeueshards (oo_payload ob) = map aq_pointer_of v" and "aq_store w v"
  shows "aq_shards_dumps ob w = (Inr (map (map aqs_job_dump \<circ> snd) v), w)"
proof -
  have "\<forall>(a, js) \<in> set v. \<exists>i. lockfree_image aqs_c aqs_empty w a = Inr i \<and> oo_payload i = aq_shard_of js
      \<and> checkPayloadReadable i = Inr ()"
    using aq_store_images [OF assms(2)] by auto
  from aq_dump_shards [OF this, of "[]"] aq_fetch_all [OF assms] show ?thesis by (simp add: aq_shards_dumps_def)
qed

lemma aq_dumpJobs_rep:
  assumes "aq_inv w ob v"
  shows "aq_dumpJobs ob w = (Inr (map aqs_job_dump (view_jobs v)), w)"
proof -
  have "concat (map (map aqs_job_dump \<circ> snd) v) = map aqs_job_dump (view_jobs v)"
    by (simp add: view_jobs_def map_concat comp_def)
  with assms aq_shards_dumps_rep [of ob v w] show ?thesis
    by (simp add: aq_dumpJobs_def aq_inv_def aq_rep_def queue_ready_def)
qed

lemma fold_filter_jobs:
  "fold (\<lambda>jta (really, r). if P jta then (really, r)
           else (really @ [jta], r\<lparr>as_bytes := as_bytes r + jta_fileSize jta, as_files := as_files r + 1\<rparr>)) jobs (js, r)
    = (let new = filter (\<lambda>j. \<not> P j) jobs
       in (js @ new, r\<lparr>as_bytes := as_bytes r + (\<Sum>j\<leftarrow>new. jta_fileSize j), as_files := as_files r + of_nat (length new)\<rparr>))"
  by (induction jobs arbitrary: js r) (simp_all add: Let_def ac_simps)

lemma aq_addJobsIfNecessary_rep:
  assumes inv: "aq_inv w ob v"
    and new: "new = filter (\<lambda>jta. jta_archiveRequestAddress jta \<notin> ajp_address ` set (view_jobs v)) jobs"
    and bound: "length (view_jobs v) + length new < 2 ^ 64" and fresh: "fresh_ids w (length new)"
  shows "\<exists>ob' w' v'. aq_addJobsIfNecessaryAndCommit jobs ob w =
      (Inr (\<lparr>as_files = of_nat (length new), as_bytes = \<Sum>j\<leftarrow>new. jta_fileSize j\<rparr>, ob'), w')
    \<and> aq_added w ob v (map aqs_job_pointer new) w' ob' v'
    \<and> (if new = [] then w' = w \<and> ob' = ob else objects w' (oo_name ob) = Some (oo_header aq_c ob'))"
proof -
  have dumps: "aq_shards_dumps ob w = (Inr (map (map aqs_job_dump \<circ> snd) v), w)"
    using inv aq_shards_dumps_rep [of ob v w] by (simp add: aq_inv_def aq_rep_def)
  have filt: "filter (\<lambda>j. \<forall>sd \<in> set v. \<forall>sjd \<in> set (snd sd). ajd_address (aqs_job_dump sjd) \<noteq> jta_archiveRequestAddress j) jobs = new"
    unfolding new by (rule filter_cong) (fastforce simp: view_jobs_def aqs_job_dump_def image_iff)+
  have "length new \<le> Suc (length new)" by simp
  from aq_add_rounds_rep [OF inv bound fresh this] obtain ob' w' v' where
    r: "aq_add_rounds (Suc (length new)) new ob w = (Inr ob', w')" "aq_added w ob v (map aqs_job_pointer new) w' ob' v'"
    "new \<noteq> [] \<longrightarrow> objects w' (oo_name ob) = Some (oo_header aq_c ob')"
    by blast
  have "held ob" using inv by (simp add: aq_inv_def queue_ready_def)
  with r(1) dumps have "aq_addJobsIfNecessaryAndCommit jobs ob w =
      (Inr (\<lparr>as_files = of_nat (length new), as_bytes = \<Sum>j\<leftarrow>new. jta_fileSize j\<rparr>, ob'), w')"
    unfolding aq_addJobsIfNecessaryAndCommit_def aq_addJobsAndCommit_def
    by (simp add: fold_filter_jobs Let_def filt)
  moreover have "w' = w \<and> ob' = ob" if "new = []" using that r(1) by simp
  ultimately show ?thesis using r(2,3) by auto
qed

section \<open>The job summary\<close>

lemma aq_getJobsSummary_rep:
  assumes "held ob" and rep: "aq_rep (oo_payload ob) v" and "view_jobs v \<noteq> []"
  shows "aq_getJobsSummary ob = Inr
    \<lparr>aqjs_jobs = of_nat (length (view_jobs v)), aqjs_bytes = (\<Sum>j\<leftarrow>view_jobs v. ajp_size j),
     aqjs_oldestJobStartTime = aq_oldestjobcreationtime (oo_payload ob),
     aqjs_youngestJobStartTime = aq_youngestjobcreationtime (oo_payload ob),
     aqjs_priority = Max (ajp_priority ` set (view_jobs v)),
     aqjs_minArchiveRequestAge = Min (ajp_minarchiverequestage ` set (view_jobs v)),
     aqjs_mountPolicyCountMap = (\<lambda>n. let k = count_list (map ajp_mountpolicyname (view_jobs v)) n
                                       in if k = 0 then None else Some (of_nat k))\<rparr>"
proof -
  let ?js = "view_jobs v" and ?p = "oo_payload ob"
  have sums: "aq_sums ?p ?js" using rep by (simp add: aq_rep_def)
  then have maps: "represents (aq_prioritymap ?p) (mset (map ajp_priority ?js))"
    "represents (aq_minarchiverequestagemap ?p) (mset (map ajp_minarchiverequestage ?js))"
    "represents (aq_mountpolicynamemap ?p) (mset (map ajp_mountpolicyname ?js))"
    by (simp_all add: aq_sums_def aq_maps_def)
  have nz: "(of_nat (length ?js) :: u64) \<noteq> 0"
    using assms(3) aq_sums_bound [OF sums] of_nat_word_eq_0_iff [of "length ?js", where 'w = 64] by simp
  have mx: "maxValue (aq_prioritymap ?p) = Inr (Max (ajp_priority ` set ?js))"
    using maxValue_represents [OF maps(1)] assms(3) by simp
  have mn: "minValue (aq_minarchiverequestagemap ?p) = Inr (Min (ajp_minarchiverequestage ` set ?js))"
    using minValue_represents [OF maps(2)] assms(3) by simp
  have "getMap (aq_mountpolicynamemap ?p) = (\<lambda>n. let k = count_list (map ajp_mountpolicyname ?js) n
      in if k = 0 then None else Some (of_nat k))"
    using getMap_represents [OF maps(3)]
    by (intro ext) (simp add: Let_def count_mset [symmetric] del: mset_map set_mset_mset set_map add: count_eq_zero_iff)
  with sums nz mx mn assms(1) show ?thesis by (simp add: aq_getJobsSummary_def Let_def aq_sums_def)
qed

section \<open>Candidates\<close>

definition aq_available :: "world \<Rightarrow> string \<times> archive_job_pointer list \<Rightarrow> bool" where
  "aq_available w x \<longleftrightarrow> stored aqs_c w (fst x) (aq_shard_of (snd x))"

lemma aq_candidates_step_next:
  assumes "aq_available w x"
  shows "aq_candidates_step mB mF skip r (aq_pointer_of x) w
    = (Inr (candidates_next (\<lambda>j. ajp_address j \<in> skip) ajp_size aqs_job_dump mB mF (snd x) r), w)"
proof -
  obtain a js where x: "x = (a, js)" by (cases x)
  have st: "stored aqs_c w a (aq_shard_of js)" and a: "a \<noteq> ''''"
    using assms by (auto simp: x aq_available_def stored_def)
  from lockfree_fetch_stored [OF codecs_ok(2) st, of aqs_empty] obtain s where
    s: "oo_fetchNoLock aqs_c (aqs_new\<lparr>oo_name := a, oo_nameSet := True\<rparr>) w = (Inr s, w)" "oo_payload s = aq_shard_of js"
    "checkPayloadReadable s = Inr ()" by (auto simp: aqs_new_def)
  have at: "aqs_at (fst x) = Inr (aqs_new\<lparr>oo_name := a, oo_nameSet := True\<rparr>)"
    using setAddress_new [OF a, of aqs_empty] by (simp add: aqs_at_def aqs_new_def x)
  have cand: "aqs_getCandidateJobList b f skip s = Inr (candidate_loop (\<lambda>j. ajp_address j \<in> skip) ajp_size aqs_job_dump b f js
      (candidate_job_list_init\<lparr>cjl_remainingBytesAfterCandidates := (\<Sum>j\<leftarrow>js. ajp_size j),
         cjl_remainingFilesAfterCandidates := of_nat (length js)\<rparr>))" for b f
    using s(2,3) by (simp add: aqs_getCandidateJobList_def aqs_candidates_def aq_shard_of_def)
  have counts: "aqsp_shardbytescount (aq_pointer_of x) = (\<Sum>j\<leftarrow>js. ajp_size j)" "aqsp_shardjobscount (aq_pointer_of x) = of_nat (length js)"
    by (simp_all add: aq_pointer_of_def x)
  show ?thesis
    using s(1) by (simp add: aq_candidates_step_def candidates_next_def at cand counts Let_def) (simp add: x)
qed

interpretation aqc: candidate_queue "\<lambda>mB mF. aq_candidates_step mB mF skip" aq_pointer_of aq_available
  "\<lambda>j. ajp_address j \<in> skip" ajp_size aqs_job_dump for skip
  by unfold_locales (rule aq_candidates_step_next)

lemma aq_getCandidateList_rep:
  assumes inv: "aq_inv w ob v" and fits: "fits ajp_size (view_jobs v)"
  shows "\<exists>pre post. view_jobs v = pre @ post
    \<and> stops_at (limit_reached (\<lambda>j. ajp_address j \<in> skip) ajp_size maxBytes maxFiles 0 0) pre post
    \<and> aq_getCandidateList maxBytes maxFiles skip ob w
        = (Inr (candidates_of (\<lambda>j. ajp_address j \<in> skip) ajp_size aqs_job_dump pre post), w)"
proof -
  have "\<forall>x \<in> set v. aq_available w x" using inv by (auto simp: aq_inv_def aq_store_def aq_available_def)
  from aqc.prefix [OF this, where mB = maxBytes and mF = maxFiles and skip = skip] fits inv show ?thesis
    by (simp add: aq_getCandidateList_def aq_inv_def aq_rep_def queue_ready_def view_jobs_def)
qed

lemma aq_getCandidateSummary_rep:
  assumes "held ob" and "aq_rep (oo_payload ob) v"
  shows "aq_getCandidateSummary ob = Inr (candidate_job_list_init
    \<lparr>cjl_candidateBytes := (\<Sum>j\<leftarrow>view_jobs v. ajp_size j), cjl_candidateFiles := of_nat (length (view_jobs v))\<rparr>)"
proof -
  have "fold (\<lambda>aqsp r. r\<lparr>cjl_candidateBytes := cjl_candidateBytes r + aqsp_shardbytescount aqsp,
                         cjl_candidateFiles := cjl_candidateFiles r + aqsp_shardjobscount aqsp\<rparr>) (map aq_pointer_of v) r
      = r\<lparr>cjl_candidateBytes := cjl_candidateBytes r + (\<Sum>j\<leftarrow>view_jobs v. ajp_size j),
          cjl_candidateFiles := cjl_candidateFiles r + of_nat (length (view_jobs v))\<rparr>" for r :: "archive_job_dump candidate_job_list"
    by (induction v arbitrary: r) (auto simp: aq_pointer_of_def algebra_simps)
  with assms show ?thesis
    by (simp add: aq_getCandidateSummary_def aq_rep_def) (simp add: candidate_job_list_init_def)
qed

end
