(* ===== verification/ArchiveQueueProperties.thy ===== *)
theory ArchiveQueueProperties
  imports ArchiveQueueOps
begin

text \<open>
  The theorems on \<open>ArchiveQueue.cpp\<close>, each with a concrete instance. The instances run on one small object
  store: a queue \<open>Q\<close> with a shard \<open>S\<close> of two jobs, held under its lock.
\<close>

section \<open>A concrete queue\<close>

definition smp_policy :: mount_policy where
  "smp_policy = \<lparr>mp_name = ''mp'', mp_archivePriority = 5, mp_archiveMinRequestAge = 60, mp_retrievePriority = 6,
     mp_retrieveMinRequestAge = 90, mp_creationLog = \<lparr>el_username = ''u'', el_host = ''h'', el_time = 1\<rparr>,
     mp_lastModificationLog = \<lparr>el_username = ''u'', el_host = ''h'', el_time = 1\<rparr>, mp_comment = ''''\<rparr>"

definition smp_add :: "string \<Rightarrow> u64 \<Rightarrow> archive_job_to_add" where
  "smp_add address fsize = \<lparr>jta_job = \<lparr>arjd_copyNb = 1, arjd_tapePool = ''pool'', arjd_owner = '''', arjd_status = AJS_ToTransferForUser\<rparr>,
     jta_archiveRequestAddress = address, jta_archiveFileId = 7, jta_fileSize = fsize, jta_policy = smp_policy,
     jta_startTime = 100\<rparr>"

abbreviation "smp_job address fsize \<equiv> aqs_job_pointer (smp_add address fsize)"

definition smp_view :: aq_view where
  "smp_view = [(''S'', [smp_job ''R1'' 10, smp_job ''R2'' 20])]"

definition smp_payload :: archive_queue where
  "smp_payload = \<lparr>aq_tapepool = ''pool'', aq_archivequeueshards = map aq_pointer_of smp_view, aq_prioritymap = [(5, 2)],
     aq_minarchiverequestagemap = [(60, 2)], aq_mountpolicynamemap = [(''mp'', 2)], aq_archivejobstotalsize = 30,
     aq_archivejobscount = 2, aq_oldestjobcreationtime = 100, aq_mapsrebuildcount = 0, aq_youngestjobcreationtime = 100\<rparr>"

definition smp_queue :: "archive_queue oo" where
  "smp_queue = held_image ''Q'' smp_payload"

definition smp_header :: "payload \<Rightarrow> object_header" where
  "smp_header p = \<lparr>oh_version = 0, oh_owner = '''', oh_backupowner = '''', oh_payload = p\<rparr>"

definition smp_world :: world where
  "smp_world = \<lparr>objects = [''Q'' \<mapsto> smp_header (Payload_ArchiveQueue smp_payload),
                          ''S'' \<mapsto> smp_header (Payload_ArchiveQueueShard (aq_shard_of (snd (hd smp_view))))],
     lockFiles = (\<lambda>n. n \<in> {''Q'', ''S''}), agentAddress = ''agent'', nextIdCounter = 0\<rparr>"

lemma childId_has_dash: "CHR ''-'' \<in> set (childId ct a n)"
  by (simp add: childId_def)

lemma childId_neq: "CHR ''-'' \<notin> set s \<Longrightarrow> childId ct a n \<noteq> s"
  using childId_has_dash by metis

lemma smp_fresh: "fresh_ids smp_world k"
  by (simp add: fresh_ids_def smp_world_def childId_neq)

lemma smp_inv: "aq_inv smp_world smp_queue smp_view"
proof -
  have "queue_ready smp_world smp_queue (fst ` set smp_view)"
    by (simp add: queue_ready_def smp_queue_def vfs_exists_def smp_world_def smp_view_def)
  moreover have "aq_rep smp_payload smp_view"
    by (simp add: aq_rep_def aq_sums_def aq_maps_def smp_payload_def represents_def smp_view_def aqs_job_pointer_def
        smp_add_def smp_policy_def)
  moreover have "aq_store smp_world smp_view"
    by (simp add: aq_store_def smp_world_def smp_view_def stored_def smp_header_def archive_queue_shard_codec_def)
  ultimately show ?thesis by (simp add: aq_inv_def smp_queue_def)
qed

section \<open>Adding jobs\<close>

text \<open>
  C1. \<open>addJobsAndCommit\<close> succeeds on a queue in agreement with its shards (there are enough free names for
  new shards, and the job count stays within 64 bits), keeps that agreement and appends the jobs, in
  order, to the queue. The layout of the shards is exact: one after the other, each job goes to the last
  shard while that holds fewer than 25000 jobs, and to a new shard otherwise; the shards that were there
  keep their addresses and places. The new queue object is in the store, and nothing else there changed
  but the shards.
\<close>
theorem aq_addJobsAndCommit_appends:
  assumes "aq_inv w ob v" and "length (view_jobs v) + length jobs < 2 ^ 64" and "fresh_ids w (length jobs)"
  shows "\<exists>ob' w' v'. aq_addJobsAndCommit jobs ob w = (Inr ob', w') \<and> aq_inv w' ob' v'
    \<and> view_jobs v' = view_jobs v @ map aqs_job_pointer jobs
    \<and> map snd v' = foldl add_job_to_shards (map snd v) (map aqs_job_pointer jobs)
    \<and> (\<exists>new. map fst v' = map fst v @ new)
    \<and> ((\<forall>x \<in> set v. length (snd x) \<le> 25000) \<longrightarrow> (\<forall>x \<in> set v'. length (snd x) \<le> 25000))
    \<and> same_except (insert (oo_name ob) (fst ` set v')) w w'
    \<and> (jobs \<noteq> [] \<longrightarrow> objects w' (oo_name ob) = Some (oo_header aq_c ob'))"
proof -
  have "length jobs \<le> Suc (length jobs)" by simp
  from aq_add_rounds_rep [OF assms this] obtain ob' w' v' where
    r: "aq_add_rounds (Suc (length jobs)) jobs ob w = (Inr ob', w')" "aq_added w ob v (map aqs_job_pointer jobs) w' ob' v'"
    "jobs \<noteq> [] \<longrightarrow> objects w' (oo_name ob) = Some (oo_header aq_c ob')" by blast
  have "held ob" using assms(1) by (simp add: aq_inv_def queue_ready_def)
  with r(1) have "aq_addJobsAndCommit jobs ob w = (Inr ob', w')" by (simp add: aq_addJobsAndCommit_def)
  with r(2,3) show ?thesis unfolding aq_added_def by blast
qed

theorem aq_addJobsAndCommit_appends_witness:
  "\<exists>ob' w' v'. aq_addJobsAndCommit [smp_add ''R3'' 30] smp_queue smp_world = (Inr ob', w') \<and> aq_inv w' ob' v'
    \<and> map snd v' = [[smp_job ''R1'' 10, smp_job ''R2'' 20, smp_job ''R3'' 30]]
    \<and> objects w' ''Q'' = Some (oo_header aq_c ob')"
proof -
  have "length (view_jobs smp_view) + length [smp_add ''R3'' 30] < 2 ^ 64" by (simp add: smp_view_def)
  moreover have "foldl add_job_to_shards (map snd smp_view) (map aqs_job_pointer [smp_add ''R3'' 30])
      = [[smp_job ''R1'' 10, smp_job ''R2'' 20, smp_job ''R3'' 30]]"
    by (simp add: smp_view_def add_job_to_shards_def)
  moreover have "oo_name smp_queue = ''Q''" by (simp add: smp_queue_def)
  ultimately show ?thesis
    using aq_addJobsAndCommit_appends [OF smp_inv _ smp_fresh, of "[smp_add ''R3'' 30]"] by fastforce
qed

text \<open>
  C2. \<open>addJobsIfNecessaryAndCommit\<close> adds exactly the jobs whose request is not in the queue yet, in order,
  and its summary counts exactly those.
\<close>
theorem aq_addJobsIfNecessary_adds_new:
  assumes "aq_inv w ob v" and "new = filter (\<lambda>jta. jta_archiveRequestAddress jta \<notin> ajp_address ` set (view_jobs v)) jobs"
    and "length (view_jobs v) + length new < 2 ^ 64" and "fresh_ids w (length new)"
  shows "\<exists>ob' w' v'. aq_addJobsIfNecessaryAndCommit jobs ob w =
      (Inr (\<lparr>as_files = of_nat (length new), as_bytes = \<Sum>j\<leftarrow>new. jta_fileSize j\<rparr>, ob'), w')
    \<and> aq_inv w' ob' v' \<and> view_jobs v' = view_jobs v @ map aqs_job_pointer new
    \<and> same_except (insert (oo_name ob) (fst ` set v')) w w'"
  using aq_addJobsIfNecessary_rep [OF assms] by (fastforce simp: aq_added_def)

theorem aq_addJobsIfNecessary_adds_new_witness:
  "\<exists>ob' w' v'. aq_addJobsIfNecessaryAndCommit [smp_add ''R2'' 20, smp_add ''R3'' 30] smp_queue smp_world =
      (Inr (\<lparr>as_files = 1, as_bytes = 30\<rparr>, ob'), w')
    \<and> aq_inv w' ob' v' \<and> map ajp_address (view_jobs v') = [''R1'', ''R2'', ''R3'']"
proof -
  let ?jobs = "[smp_add ''R2'' 20, smp_add ''R3'' 30]"
  have new: "[smp_add ''R3'' 30] = filter (\<lambda>jta. jta_archiveRequestAddress jta \<notin> ajp_address ` set (view_jobs smp_view)) ?jobs"
    by (simp add: smp_view_def smp_add_def aqs_job_pointer_def)
  have "length (view_jobs smp_view) + length [smp_add ''R3'' 30] < 2 ^ 64" by (simp add: smp_view_def)
  from aq_addJobsIfNecessary_adds_new [OF smp_inv new this smp_fresh] obtain ob' w' v' where
    r: "aq_addJobsIfNecessaryAndCommit ?jobs smp_queue smp_world =
      (Inr (\<lparr>as_files = of_nat (length [smp_add ''R3'' 30]), as_bytes = \<Sum>j\<leftarrow>[smp_add ''R3'' 30]. jta_fileSize j\<rparr>, ob'), w')"
    "aq_inv w' ob' v'" "view_jobs v' = view_jobs smp_view @ map aqs_job_pointer [smp_add ''R3'' 30]" by blast
  have m: "map ajp_address (view_jobs v') = [''R1'', ''R2'', ''R3'']"
    using r(3) by (simp add: smp_view_def smp_add_def aqs_job_pointer_def)
  have s: "(\<Sum>j\<leftarrow>[smp_add ''R3'' 30]. jta_fileSize j) = 30" "of_nat (length [smp_add ''R3'' 30]) = (1 :: u64)"
    by (simp_all add: smp_add_def)
  show ?thesis by (intro exI conjI) (rule r(1) [unfolded s], rule r(2), rule m)
qed

section \<open>Removing jobs\<close>

lemma drained_shard_unlisted:
  assumes "distinct (map fst v)" and "(a, js) \<in> set v" and "js \<noteq> []" and "ajp_address ` set js \<subseteq> set L"
    and kept: "filter (\<lambda>x. snd x \<noteq> []) v' = concat (map (trim_shard L) v)" and empties: "\<forall>x \<in> set v'. snd x = [] \<longrightarrow> x \<in> set v"
  shows "a \<notin> fst ` set v'"
proof
  assume "a \<in> fst ` set v'"
  then obtain ks where x: "(a, ks) \<in> set v'" by auto
  have unique: "ls = js" if "(a, ls) \<in> set v" for ls
    using assms(1,2) that by (metis eq_key_imp_eq_value)
  show False
  proof (cases "ks = []")
    case True
    with empties x unique [of ks] assms(3) show False by auto
  next
    case False
    with x have "(a, ks) \<in> set (filter (\<lambda>x. snd x \<noteq> []) v')" by simp
    then obtain y where "y \<in> set v" "(a, ks) \<in> set (trim_shard L y)" unfolding kept by auto
    with unique [of "snd y"] assms(4) show False
      by (cases y) (auto simp: trim_shard_def Let_def filter_empty_conv split: if_splits)
  qed
qed

text \<open>
  C3. \<open>removeJobsAndCommit\<close> always succeeds on a queue in agreement with its shards whose jobs have distinct
  addresses. It removes exactly the jobs with the given addresses and keeps the order of the others; a
  shard that loses its last job is no longer listed in the queue and is deleted from the store, the other
  shards keep their addresses and the jobs that stay, and the agreement is kept.
\<close>
theorem aq_removeJobsAndCommit_removes:
  assumes "aq_inv w ob v" and "distinct (map ajp_address (view_jobs v))"
  shows "\<exists>ob' w' v'. aq_removeJobsAndCommit L ob w = (Inr ob', w') \<and> aq_inv w' ob' v'
    \<and> view_jobs v' = filter (\<lambda>j. ajp_address j \<notin> set L) (view_jobs v)
    \<and> filter (\<lambda>x. snd x \<noteq> []) v' = concat (map (trim_shard L) v)
    \<and> (\<forall>a js. (a, js) \<in> set v \<and> js \<noteq> [] \<and> ajp_address ` set js \<subseteq> set L
          \<longrightarrow> a \<notin> fst ` set v' \<and> a \<notin> aqsp_address ` set (aq_archivequeueshards (oo_payload ob')) \<and> objects w' a = None)
    \<and> (\<forall>a \<in> fst ` set v - fst ` set v'. objects w' a = None)
    \<and> same_except (insert (oo_name ob) (fst ` set v)) w w'"
proof -
  have inv: "aq_inv w ob ([] @ v)" using assms(1) by simp
  have "length v = length (aq_archivequeueshards (oo_payload ob))" using assms(1) by (simp add: aq_inv_def aq_rep_def)
  then have "length v \<le> length (aq_archivequeueshards (oo_payload ob))" by simp
  from aq_remove_rounds_rep [OF inv assms(2) this, of L] obtain ob' w' v' where
    r: "aq_remove_rounds (length (aq_archivequeueshards (oo_payload ob))) L ob (length ([] :: aq_view)) w = (Inr ob', w')"
    "aq_removed w ob [] v L w' ob' v'" by blast
  have "held ob" using assms(1) by (simp add: aq_inv_def queue_ready_def)
  with r(1) have run: "aq_removeJobsAndCommit L ob w = (Inr ob', w')" by (simp add: aq_removeJobsAndCommit_def)
  note gone = aq_removedD [OF r(2), unfolded append_Nil filter.simps(1) view_jobs_simps(1)]
  have "a \<notin> fst ` set v'" if "(a, js) \<in> set v" "js \<noteq> []" "ajp_address ` set js \<subseteq> set L" for a js
    using drained_shard_unlisted [OF _ that gone(7,8)] assms(1) by (simp add: aq_inv_def aq_store_def)
  moreover have "aq_archivequeueshards (oo_payload ob') = map aq_pointer_of v'" using gone(1) by (simp add: aq_inv_def aq_rep_def)
  then have "aqsp_address ` set (aq_archivequeueshards (oo_payload ob')) = fst ` set v'" by (simp add: image_image)
  ultimately have drained: "\<forall>a js. (a, js) \<in> set v \<and> js \<noteq> [] \<and> ajp_address ` set js \<subseteq> set L
      \<longrightarrow> a \<notin> fst ` set v' \<and> a \<notin> aqsp_address ` set (aq_archivequeueshards (oo_payload ob')) \<and> objects w' a = None"
    using gone(6) by (metis DiffI fst_conv image_eqI)
  show ?thesis by (intro exI [of _ ob'] exI [of _ w'] exI [of _ v'] conjI run gone(1,3,4,6,7) drained)
qed

theorem aq_removeJobsAndCommit_removes_witness:
  "\<exists>ob' w' v'. aq_removeJobsAndCommit [''R1'', ''R9''] smp_queue smp_world = (Inr ob', w') \<and> aq_inv w' ob' v'
    \<and> map ajp_address (view_jobs v') = [''R2'']"
proof -
  have "distinct (map ajp_address (view_jobs smp_view))" by (simp add: smp_view_def smp_add_def aqs_job_pointer_def)
  from aq_removeJobsAndCommit_removes [OF smp_inv this, of "[''R1'', ''R9'']"] obtain ob' w' v' where
    r: "aq_removeJobsAndCommit [''R1'', ''R9''] smp_queue smp_world = (Inr ob', w')" "aq_inv w' ob' v'"
    "view_jobs v' = filter (\<lambda>j. ajp_address j \<notin> set [''R1'', ''R9'']) (view_jobs smp_view)" by (elim exE conjE)
  have "map ajp_address (view_jobs v') = [''R2'']" unfolding r(3) by (simp add: smp_view_def smp_add_def aqs_job_pointer_def)
  with r(1,2) show ?thesis by (intro exI [of _ ob'] exI [of _ w'] exI [of _ v'] conjI)
qed

section \<open>Repairing a queue\<close>

definition smp_broken :: "archive_queue oo" where
  "smp_broken = held_image ''Q'' (smp_payload\<lparr>aq_archivejobscount := 9,
     aq_archivequeueshards := aq_archivequeueshards smp_payload @ [aq_pointer_of (''Lost'', [])]\<rparr>)"

definition smp_shards :: aq_shards where
  "smp_shards = [(''S'', Some (aq_shard_of (snd (hd smp_view)))), (''Lost'', None)]"

lemma smp_broken_facts:
  "queue_ready smp_world smp_broken (fst ` set smp_shards)" "aq_found smp_world smp_shards"
  "map aqsp_address (aq_archivequeueshards (oo_payload smp_broken)) = map fst smp_shards"
  "aq_survivors smp_shards = smp_view"
  by (simp_all add: queue_ready_def smp_broken_def vfs_exists_def smp_world_def smp_shards_def smp_payload_def smp_view_def
      aq_found_def stored_def missing_def smp_header_def archive_queue_shard_codec_def aq_shard_of_def)

text \<open>
  C4. \<open>commit\<close> repairs a queue whose counters contradict its maps or its shard pointers: it drops the
  pointers to shards that are gone, recomputes every shard and every summary from the jobs that are
  stored, loses none of these, and writes the repaired queue.
\<close>
theorem aq_commit_repairs:
  assumes "queue_ready w ob (fst ` set shards)" and "aq_found w shards"
    and "map aqsp_address (aq_archivequeueshards (oo_payload ob)) = map fst shards"
    and "length (view_jobs (aq_survivors shards)) < 2 ^ 64"
    and "aq_checkMapsAndShardsCoherency ob = Inr False"
  shows "\<exists>ob' w'. aq_commit ob w = (Inr ob', w') \<and> aq_inv w' ob' (aq_survivors shards)
    \<and> objects w' (oo_name ob) = Some (oo_header aq_c ob')
    \<and> same_except (insert (oo_name ob) (fst ` set (aq_survivors shards))) w w'"
  using assms by (rule aq_commit_heals)

theorem aq_commit_repairs_witness:
  "\<exists>ob' w'. aq_commit smp_broken smp_world = (Inr ob', w') \<and> aq_inv w' ob' smp_view
    \<and> objects w' ''Q'' = Some (oo_header aq_c ob')"
proof -
  have "length (view_jobs (aq_survivors smp_shards)) < 2 ^ 64" by (simp add: smp_broken_facts(4)) (simp add: smp_view_def)
  moreover have "aq_checkMapsAndShardsCoherency smp_broken = Inr False"
    by (simp add: aq_checkMapsAndShardsCoherency_def smp_broken_def smp_payload_def Let_def smp_view_def aq_pointer_of_def)
  ultimately show ?thesis
    using aq_commit_repairs [OF smp_broken_facts(1-3)] by (auto simp: smp_broken_facts(4) smp_broken_def)
qed

text \<open>
  The rebuilt summaries include the times: after \<open>rebuild\<close> the oldest and the youngest job creation
  times are those of the stored jobs, and the rebuild counter went up by one.
\<close>
lemma aq_rebuild_times:
  assumes "queue_ready w ob (fst ` set shards)" and "aq_found w shards"
    and "map aqsp_address (aq_archivequeueshards (oo_payload ob)) = map fst shards"
    and "length (view_jobs (aq_survivors shards)) < 2 ^ 64"
  shows "\<exists>ob' w'. aq_rebuild ob w = (Inr ob', w') \<and> aq_inv w' ob' (aq_survivors shards)
    \<and> aq_mapsrebuildcount (oo_payload ob') = aq_mapsrebuildcount (oo_payload ob) + 1
    \<and> aq_oldestjobcreationtime (oo_payload ob') = oldest_start (view_jobs (aq_survivors shards)) time_t_max
    \<and> aq_youngestjobcreationtime (oo_payload ob') = youngest_start (view_jobs (aq_survivors shards)) time_t_min"
  using aq_rebuild_rep [OF assms] by fast

text \<open>
  C6. \<open>addJobsAndCommit\<close> on a queue whose last shard is gone or does not hold what its pointer says, while
  that pointer counts fewer than 25000 jobs, so that the code opens the shard (when the pointer says the
  shard is full, the code opens a new shard and does not look at the old one): given at least one job, as
  many free names as jobs, and a job count that stays within 64 bits, it rebuilds the queue first and then
  appends the jobs to what was really stored.
\<close>
theorem aq_addJobsAndCommit_repairs:
  assumes "queue_ready w ob (fst ` set shards)" and "aq_found w shards"
    and "map aqsp_address (aq_archivequeueshards (oo_payload ob)) = map fst shards"
    and "shards \<noteq> []" and "aqsp_shardjobscount (last (aq_archivequeueshards (oo_payload ob))) < c_maxShardSize"
    and "last_shard_off w (oo_payload ob)"
    and "length (view_jobs (aq_survivors shards)) + length jobs < 2 ^ 64" and "fresh_ids w (length jobs)" and "jobs \<noteq> []"
  shows "\<exists>ob' w' v'. aq_addJobsAndCommit jobs ob w = (Inr ob', w') \<and> aq_inv w' ob' v'
    \<and> view_jobs v' = view_jobs (aq_survivors shards) @ map aqs_job_pointer jobs
    \<and> objects w' (oo_name ob) = Some (oo_header aq_c ob')"
  using assms by (rule aq_add_heals)

theorem aq_addJobsAndCommit_repairs_witness:
  "\<exists>ob' w' v'. aq_addJobsAndCommit [smp_add ''R3'' 30] smp_broken smp_world = (Inr ob', w') \<and> aq_inv w' ob' v'
    \<and> map ajp_address (view_jobs v') = [''R1'', ''R2'', ''R3'']"
proof -
  have "aqsp_shardjobscount (last (aq_archivequeueshards (oo_payload smp_broken))) < c_maxShardSize"
    by (simp add: smp_broken_def aq_pointer_of_def c_maxShardSize_def)
  moreover have "last_shard_off smp_world (oo_payload smp_broken)"
    by (simp add: last_shard_off_def smp_broken_def missing_def smp_world_def)
  moreover have "length (view_jobs (aq_survivors smp_shards)) + length [smp_add ''R3'' 30] < 2 ^ 64"
    by (simp add: smp_broken_facts(4)) (simp add: smp_view_def)
  ultimately show ?thesis
    using aq_addJobsAndCommit_repairs [OF smp_broken_facts(1-3) _ _ _ _ smp_fresh, of "[smp_add ''R3'' 30]"]
    unfolding smp_broken_facts(4) by (fastforce simp: smp_shards_def smp_view_def smp_add_def aqs_job_pointer_def)
qed

section \<open>Reading the queue\<close>

text \<open>
  C7. \<open>getCandidateList\<close> returns the shortest prefix of the queue, across its shards, that reaches one of
  the two limits (or the whole queue), without the requests to skip: skipped jobs count for neither limit,
  and what comes after the prefix is counted as remaining. The store is not changed.
\<close>
theorem aq_getCandidateList_prefix:
  assumes "aq_inv w ob v" and "fits ajp_size (view_jobs v)"
  shows "\<exists>pre post. view_jobs v = pre @ post
    \<and> stops_at (limit_reached (\<lambda>j. ajp_address j \<in> skip) ajp_size maxBytes maxFiles 0 0) pre post
    \<and> aq_getCandidateList maxBytes maxFiles skip ob w
        = (Inr (candidates_of (\<lambda>j. ajp_address j \<in> skip) ajp_size aqs_job_dump pre post), w)"
  using assms by (rule aq_getCandidateList_rep)

theorem aq_getCandidateList_prefix_witness:
  "\<exists>pre post. view_jobs smp_view = pre @ post
    \<and> aq_getCandidateList 1000 1 {''R9''} smp_queue smp_world
        = (Inr (candidates_of (\<lambda>j. ajp_address j \<in> {''R9''}) ajp_size aqs_job_dump pre post), smp_world)"
proof -
  have "fits ajp_size (view_jobs smp_view)" by (simp add: fits_def smp_view_def smp_add_def aqs_job_pointer_def)
  from aq_getCandidateList_prefix [OF smp_inv this] show ?thesis by blast
qed

text \<open>
  \<open>getJobsSummary\<close> reports the number and the total size of the queued jobs, the highest priority, the
  lowest minimum request age, and for every mount policy the number of jobs that have it.
\<close>
lemma aq_getJobsSummary_exact:
  assumes "held ob" and "aq_rep (oo_payload ob) v" and "view_jobs v \<noteq> []"
  shows "aq_getJobsSummary ob = Inr
    \<lparr>aqjs_jobs = of_nat (length (view_jobs v)), aqjs_bytes = (\<Sum>j\<leftarrow>view_jobs v. ajp_size j),
     aqjs_oldestJobStartTime = aq_oldestjobcreationtime (oo_payload ob),
     aqjs_youngestJobStartTime = aq_youngestjobcreationtime (oo_payload ob),
     aqjs_priority = Max (ajp_priority ` set (view_jobs v)),
     aqjs_minArchiveRequestAge = Min (ajp_minarchiverequestage ` set (view_jobs v)),
     aqjs_mountPolicyCountMap = (\<lambda>n. let k = count_list (map ajp_mountpolicyname (view_jobs v)) n
                                       in if k = 0 then None else Some (of_nat k))\<rparr>"
  using assms by (rule aq_getJobsSummary_rep)

section \<open>The life of a queue\<close>

definition fresh_exclusive :: scoped_lock where
  "fresh_exclusive = \<lparr>sl_exclusive = True, sl_locked = False\<rparr>"

text \<open>
  A new queue: creating it under a free address, initializing and inserting it, and then locking and
  fetching it, as its clients do, gives an empty queue in agreement with its (no) shards.
\<close>
lemma aq_created_empty:
  assumes "a \<noteq> ''''" and "objects w a = None" and "\<not> lockFiles w a"
  shows "\<exists>ob1 ob2 ob3 w1 l ob4 ob5. setAddress a (oo_new aq_empty) = Inr ob1 \<and> aq_initialize pool ob1 = Inr ob2
    \<and> oo_insert aq_c ob2 w = (Inr ob3, w1) \<and> lock_object fresh_exclusive ob3 w1 = (Inr (l, ob4), w1)
    \<and> oo_fetch aq_c ob4 w1 = (Inr ob5, w1) \<and> aq_inv w1 ob5 [] \<and> aq_isEmpty ob5 = Inr True
    \<and> aq_getTapePool ob5 = Inr pool"
  using assms
  by (auto simp: setAddress_new oo_new_def aq_initialize_def oo_defs vfs_create_def lock_object_def fresh_exclusive_def
      vfs_lockHelper_def vfs_read_def oo_header_def aq_inv_def queue_ready_def held_def vfs_exists_def aq_rep_def
      aq_sums_def aq_maps_def represents_empty aq_empty_def aq_store_def aq_isEmpty_def aq_getTapePool_def check_defs
      Let_def)

text \<open>
  The steps of a client that holds the lock of a queue: additions, with or without a look for jobs that are
  there already, removals, and commits, in any order. Each addition has enough free names for its shards and
  keeps the number of jobs within 64 bits. A \<open>careful\<close> client gives an addition distinct requests, and
  calls \<open>addJobsAndCommit\<close>, which does not look, only with requests that are not in the queue.
\<close>

inductive aq_step :: "bool \<Rightarrow> world \<times> archive_queue oo \<Rightarrow> world \<times> archive_queue oo \<Rightarrow> bool" for careful where
  aq_step_add: "aq_addJobsAndCommit jobs ob w = (Inr ob', w') \<Longrightarrow> fresh_ids w (length jobs) \<Longrightarrow>
    unat (aq_archivejobscount (oo_payload ob)) + length jobs < 2 ^ 64 \<Longrightarrow> aq_dumpJobs ob w = (Inr dump, w) \<Longrightarrow>
    careful \<longrightarrow> distinct (map ajd_address dump @ map jta_archiveRequestAddress jobs) \<Longrightarrow>
    aq_step careful (w, ob) (w', ob')"
| aq_step_add_new: "aq_addJobsIfNecessaryAndCommit jobs ob w = (Inr (summary, ob'), w') \<Longrightarrow> fresh_ids w (length jobs) \<Longrightarrow>
    unat (aq_archivejobscount (oo_payload ob)) + length jobs < 2 ^ 64 \<Longrightarrow>
    careful \<longrightarrow> distinct (map jta_archiveRequestAddress jobs) \<Longrightarrow> aq_step careful (w, ob) (w', ob')"
| aq_step_remove: "aq_removeJobsAndCommit addresses ob w = (Inr ob', w') \<Longrightarrow> aq_step careful (w, ob) (w', ob')"
| aq_step_commit: "aq_commit ob w = (Inr ob', w') \<Longrightarrow> aq_step careful (w, ob) (w', ob')"

text \<open>
  The queue agrees with its shards; \<open>aq_good True\<close> adds that no request is queued twice.
\<close>

definition aq_good :: "bool \<Rightarrow> world \<Rightarrow> archive_queue oo \<Rightarrow> bool" where
  "aq_good unique w ob \<longleftrightarrow> (\<exists>v. aq_inv w ob v \<and> (unique \<longrightarrow> distinct (map ajp_address (view_jobs v))))"

lemma aq_inv_room:
  assumes "aq_inv w ob v" and "unat (aq_archivejobscount (oo_payload ob)) + k < 2 ^ 64"
  shows "length (view_jobs v) + k < 2 ^ 64"
proof -
  have sums: "aq_sums (oo_payload ob) (view_jobs v)" using assms(1) by (simp add: aq_inv_def aq_rep_def)
  then have "unat (aq_archivejobscount (oo_payload ob)) = length (view_jobs v)"
    using aq_sums_bound [OF sums] by (simp add: aq_sums_def unat_of_nat)
  with assms(2) show ?thesis by simp
qed

lemma aq_step_add_good:
  assumes good: "aq_good careful w ob" and r: "aq_addJobsAndCommit jobs ob w = (Inr ob', w')"
    and fresh: "fresh_ids w (length jobs)" and room: "unat (aq_archivejobscount (oo_payload ob)) + length jobs < 2 ^ 64"
    and dump: "aq_dumpJobs ob w = (Inr dump, w)"
    and care: "careful \<longrightarrow> distinct (map ajd_address dump @ map jta_archiveRequestAddress jobs)"
  shows "aq_good careful w' ob'"
proof -
  from good obtain v where v: "aq_inv w ob v" by (auto simp: aq_good_def)
  then have "held ob" by (simp add: aq_inv_def queue_ready_def)
  have "length jobs \<le> Suc (length jobs)" by simp
  from aq_add_rounds_rep [OF v aq_inv_room [OF v room] fresh this] r \<open>held ob\<close> obtain v' where
    v': "aq_inv w' ob' v'" "view_jobs v' = view_jobs v @ map aqs_job_pointer jobs"
    by (auto simp: aq_addJobsAndCommit_def aq_added_def)
  have "map ajp_address (view_jobs v') = map ajd_address dump @ map jta_archiveRequestAddress jobs"
    using aq_dumpJobs_rep [OF v] dump by (auto simp: v'(2) aqs_job_pointer_def aqs_job_dump_def)
  with v'(1) care show ?thesis by (auto simp: aq_good_def)
qed

lemma aq_step_add_new_good:
  assumes good: "aq_good careful w ob" and r: "aq_addJobsIfNecessaryAndCommit jobs ob w = (Inr (summary, ob'), w')"
    and fresh: "fresh_ids w (length jobs)" and room: "unat (aq_archivejobscount (oo_payload ob)) + length jobs < 2 ^ 64"
    and care: "careful \<longrightarrow> distinct (map jta_archiveRequestAddress jobs)"
  shows "aq_good careful w' ob'"
proof -
  from good obtain v where v: "aq_inv w ob v" "careful \<longrightarrow> distinct (map ajp_address (view_jobs v))"
    by (auto simp: aq_good_def)
  define new where "new = filter (\<lambda>jta. jta_archiveRequestAddress jta \<notin> ajp_address ` set (view_jobs v)) jobs"
  have len: "length new \<le> length jobs" by (simp add: new_def)
  then have "length (view_jobs v) + length new < 2 ^ 64" using aq_inv_room [OF v(1) room] by simp
  from aq_addJobsIfNecessary_rep [OF v(1) new_def this fresh_ids_mono [OF fresh len]] r obtain v' where
    v': "aq_inv w' ob' v'" "view_jobs v' = view_jobs v @ map aqs_job_pointer new" by (auto simp: aq_added_def)
  have "map ajp_address (view_jobs v') = map ajp_address (view_jobs v) @ map jta_archiveRequestAddress new"
    by (simp add: v'(2) aqs_job_pointer_def)
  moreover have "careful \<longrightarrow> distinct (map jta_archiveRequestAddress new)" using care by (simp add: new_def distinct_map_filter)
  moreover have "jta_archiveRequestAddress ` set new \<inter> ajp_address ` set (view_jobs v) = {}" by (auto simp: new_def)
  ultimately have "careful \<longrightarrow> distinct (map ajp_address (view_jobs v'))"
    using v(2) by (metis Int_commute distinct_append image_set)
  with v'(1) show ?thesis by (auto simp: aq_good_def)
qed

text \<open>A removal keeps the agreement even when requests are queued more than once.\<close>

lemma aq_remove_rounds_inv:
  assumes "aq_inv w ob (v1 @ v2)" and "length v2 \<le> fuel"
  shows "\<exists>ob' w' v'. aq_remove_rounds fuel L ob (length v1) w = (Inr ob', w') \<and> aq_inv w' ob' v'"
  using assms
proof (induction v2 arbitrary: v1 L ob w fuel)
  case Nil
  then have "length (aq_archivequeueshards (oo_payload ob)) = length v1" by (simp add: aq_inv_def aq_rep_def)
  with Nil.prems(1) show ?case by (auto simp: aq_remove_rounds_stop)
next
  case (Cons x v2)
  obtain a js where x: "x = (a, js)" by (cases x)
  obtain fuel' where fuel: "fuel = Suc fuel'" "length v2 \<le> fuel'" using Cons.prems(2) by (cases fuel) auto
  show ?case
  proof (cases "L = []")
    case True
    with Cons.prems(1) show ?thesis by (auto simp: aq_remove_rounds_stop)
  next
    case False
    let ?L = "filter (\<lambda>ja. ja \<notin> ajp_address ` set js) L" and ?t = "trim_shard L (a, js)"
    have inv: "aq_inv w ob (v1 @ (a, js) # v2)" using Cons.prems(1) by (simp add: x)
    from aq_remove_round_rep [OF inv, of L] obtain ob1 w1 where
      r: "aq_remove_round L ob (length v1) w = (Inr (ob1, ?L, length (v1 @ ?t)), w1)" "aq_inv w1 ob1 ((v1 @ ?t) @ v2)"
      by auto
    have "length v1 < length (aq_archivequeueshards (oo_payload ob))" using inv by (simp add: aq_inv_def aq_rep_def)
    from aq_remove_rounds_step [OF False this, of fuel'] r(1) Cons.IH [OF r(2) fuel(2), of ?L] fuel(1)
    show ?thesis by auto
  qed
qed

lemma aq_step_remove_good:
  assumes "aq_good careful w ob"
  shows "\<exists>ob' w'. aq_removeJobsAndCommit L ob w = (Inr ob', w') \<and> aq_good careful w' ob'"
proof -
  from assms obtain v where v: "aq_inv w ob ([] @ v)" "careful \<longrightarrow> distinct (map ajp_address (view_jobs v))"
    by (auto simp: aq_good_def)
  then have len: "length v \<le> length (aq_archivequeueshards (oo_payload ob))" and "held ob"
    by (simp_all add: aq_inv_def aq_rep_def queue_ready_def)
  show ?thesis
  proof (cases careful)
    case True
    with aq_remove_rounds_rep [OF v(1) _ len, of L] v(2) obtain ob' w' v' where
      r: "aq_remove_rounds (length (aq_archivequeueshards (oo_payload ob))) L ob (length ([] :: aq_view)) w = (Inr ob', w')"
      "aq_removed w ob [] v L w' ob' v'" by blast
    then have "aq_good careful w' ob'"
      using aq_removedD(1,3) [OF r(2)] True v(2) by (auto simp: aq_good_def distinct_map_filter)
    with r(1) \<open>held ob\<close> show ?thesis by (simp add: aq_removeJobsAndCommit_def)
  next
    case False
    with aq_remove_rounds_inv [OF v(1) len, of L] \<open>held ob\<close> show ?thesis
      by (auto simp: aq_removeJobsAndCommit_def aq_good_def)
  qed
qed

lemma aq_step_commit_good:
  assumes "aq_good careful w ob"
  shows "\<exists>ob' w'. aq_commit ob w = (Inr ob', w') \<and> aq_good careful w' ob'"
  using assms aq_inv_commit [of w ob] by (auto simp: aq_good_def) (metis+)

lemma aq_step_good: "aq_step careful x y \<Longrightarrow> case_prod (aq_good careful) x \<Longrightarrow> case_prod (aq_good careful) y"
proof (induction rule: aq_step.induct)
  case (aq_step_add jobs ob w ob' w' dump)
  then show ?case using aq_step_add_good [of careful w ob jobs ob' w' dump] by simp
next
  case (aq_step_add_new jobs ob w summary ob' w')
  then show ?case using aq_step_add_new_good [of careful w ob jobs summary ob' w'] by simp
next
  case (aq_step_remove addresses ob w ob' w')
  then show ?case using aq_step_remove_good [of careful w ob addresses] by auto
next
  case (aq_step_commit ob w ob' w')
  then show ?case using aq_step_commit_good [of careful w ob] by auto
qed

text \<open>
  C11. A queue that starts in agreement with its shards stays so, whatever the clients that hold its lock
  do: in every state reached by additions (\<open>addJobsAndCommit\<close> and \<open>addJobsIfNecessaryAndCommit\<close>, with enough
  free names and a job count within 64 bits), removals and commits, in any order, there is a list of shards
  the queue object and the store agree on, and the next removal or commit succeeds. When moreover no request
  was queued twice and the clients are careful, that is they give \<open>addJobsIfNecessaryAndCommit\<close> distinct
  requests and \<open>addJobsAndCommit\<close> distinct requests that are not queued yet, no request is ever queued twice.
\<close>
theorem aq_reachable_good:
  assumes "(aq_step careful)\<^sup>*\<^sup>* (w, ob) (w', ob')" and "aq_good careful w ob"
  shows "aq_good careful w' ob' \<and> (\<forall>L. \<exists>ob'' w''. aq_removeJobsAndCommit L ob' w' = (Inr ob'', w''))
    \<and> (\<exists>ob'' w''. aq_commit ob' w' = (Inr ob'', w''))"
proof -
  from assms have "case_prod (aq_good careful) (w', ob')"
    by (induction rule: rtranclp_induct) (simp, rule aq_step_good)
  then have "aq_good careful w' ob'" by simp
  then show ?thesis using aq_step_remove_good aq_step_commit_good by blast
qed

theorem aq_reachable_good_witness:
  "\<exists>w ob. aq_step True (smp_world, smp_queue) (w, ob) \<and> map aqsp_shardjobscount (aq_archivequeueshards (oo_payload ob)) = [3]
    \<and> aq_good True w ob"
proof -
  let ?jobs = "[smp_add ''R3'' 30]"
  have good: "aq_good True smp_world smp_queue"
    using smp_inv by (auto simp: aq_good_def smp_view_def smp_add_def aqs_job_pointer_def)
  have "length (view_jobs smp_view) + length ?jobs < 2 ^ 64" by (simp add: smp_view_def)
  from aq_add_rounds_rep [OF smp_inv this smp_fresh, of 2] obtain ob w v where
    r: "aq_add_rounds 2 ?jobs smp_queue smp_world = (Inr ob, w)"
    "aq_added smp_world smp_queue smp_view (map aqs_job_pointer ?jobs) w ob v" by auto
  have "held smp_queue" using smp_inv by (simp add: aq_inv_def queue_ready_def)
  with r(1) have "aq_addJobsAndCommit ?jobs smp_queue smp_world = (Inr ob, w)"
    by (simp add: aq_addJobsAndCommit_def numeral_2_eq_2)
  moreover have "unat (aq_archivejobscount (oo_payload smp_queue)) + length ?jobs < 2 ^ 64"
    by (simp add: smp_queue_def smp_payload_def)
  moreover have "True \<longrightarrow> distinct (map ajd_address (map aqs_job_dump (view_jobs smp_view)) @ map jta_archiveRequestAddress ?jobs)"
    by (simp add: smp_view_def smp_add_def aqs_job_pointer_def aqs_job_dump_def)
  ultimately have step: "aq_step True (smp_world, smp_queue) (w, ob)"
    using aq_step_add [OF _ smp_fresh _ aq_dumpJobs_rep [OF smp_inv]] by blast
  have "map snd v = [[smp_job ''R1'' 10, smp_job ''R2'' 20, smp_job ''R3'' 30]]" "aq_rep (oo_payload ob) v"
    using r(2) by (simp_all add: aq_added_def aq_inv_def smp_view_def add_job_to_shards_def)
  then have "map aqsp_shardjobscount (aq_archivequeueshards (oo_payload ob)) = [3]"
    by (auto simp: aq_rep_def aq_pointer_of_def map_eq_Cons_conv)
  moreover have "(aq_step True)\<^sup>*\<^sup>* (smp_world, smp_queue) (w, ob)" using step by (rule r_into_rtranclp)
  from aq_reachable_good [OF this good] have "aq_good True w ob" by (rule conjunct1)
  ultimately show ?thesis using step by (intro exI [of _ w] exI [of _ ob] conjI)
qed

end
