(* ===== verification/StoreProperties.thy ===== *)
theory StoreProperties
  imports ObjectOps
begin

text \<open>
  The theorems on the counters (\<open>ValueCountMap.hpp\<close>), on the file system backend (\<open>BackendVFS.cpp\<close>, with the
  object names of \<open>AgentReference.cpp\<close>) and on the life cycle and the locks of an object (\<open>ObjectOps.hpp\<close>).
\<close>

section \<open>Counters\<close>

text \<open>
  C12. Counting the values \<open>xs\<close> into an empty container and then \<open>ys\<close> out of it, when \<open>ys\<close> are among \<open>xs\<close>, never
  throws; the container then gives every value its number of remaining occurrences, no entry to a value
  without any, and as total the number of remaining values.
\<close>
theorem value_counts_exact:
  assumes "length xs < 2 ^ 64" and "mset ys \<subseteq># mset xs"
  shows "\<exists>m1 m2. foldR (\<lambda>m k. incCount k m) (clear m0) xs = Inr m1 \<and> foldR (\<lambda>m k. decCount k m) m1 ys = Inr m2
    \<and> total m2 = Inr (of_nat (length xs - length ys))
    \<and> (\<forall>k. getMap m2 k = (if k \<in># mset xs - mset ys then Some (of_nat (count (mset xs) k - count (mset ys) k)) else None))"
proof -
  from value_counts.inc_all_rep [OF value_counts.rep_empty, of xs m0] assms(1) obtain m1 where
    m1: "foldR (\<lambda>m k. incCount k m) (clear m0) xs = Inr m1" "represents m1 (mset xs)" by auto
  from value_counts.dec_all_rep [OF m1(2) assms(2)] obtain m2 where
    m2: "foldR (\<lambda>m k. decCount k m) m1 ys = Inr m2" "represents m2 (mset xs - mset ys)" by blast
  have "size (mset xs - mset ys) = length xs - length ys" using assms(2) by (simp add: size_Diff_submset)
  with m1(1) m2 total_represents [OF m2(2)] getMap_represents [OF m2(2)] show ?thesis by auto
qed

theorem value_counts_exact_witness:
  "\<exists>m1 m2. foldR (\<lambda>m k. incCount k m) (clear []) [4, 7, 4 :: u64] = Inr m1 \<and> foldR (\<lambda>m k. decCount k m) m1 [4, 7] = Inr m2
    \<and> total m2 = Inr 1 \<and> getMap m2 4 = Some 1 \<and> getMap m2 7 = None"
  using value_counts_exact [of "[4, 7, 4 :: u64]" "[4, 7]" "[]"] by fastforce

text \<open>
  The largest and the smallest counted value are those of the values that are really there, and
  counting out a value that is not there throws.
\<close>
lemma value_counts_extrema:
  assumes "represents m M" and "M \<noteq> {#}"
  shows "maxValue m = Inr (Max (set_mset M)) \<and> minValue m = Inr (Min (set_mset M))
    \<and> (\<forall>k. k \<notin># M \<longrightarrow> (\<exists>e. decCount k m = Inl e))"
  using maxValue_represents [OF assms] minValue_represents [OF assms] decCount_absent [OF assms(1)] by blast

section \<open>The backend\<close>

text \<open>The names of new objects, as a process asks for them one after the other.\<close>

fun nextIds :: "string list \<Rightarrow> (world, string list) prog" where
  "nextIds [] = ret []"
| "nextIds (ct # cts) = bnd (nextId ct) (\<lambda>a. bnd (nextIds cts) (\<lambda>as. ret (a # as)))"

lemma nextIds_eq:
  "nextIds cts w = (Inr (map (\<lambda>(i, ct). childId ct (agentAddress w) (nextIdCounter w + of_nat i)) (enumerate 0 cts)),
     w\<lparr>nextIdCounter := nextIdCounter w + of_nat (length cts)\<rparr>)"
proof (induction cts arbitrary: w)
  case (Cons ct cts)
  have "map (\<lambda>(i, ct). childId ct a (n + of_nat i)) (enumerate (Suc 0) cts)
      = map (\<lambda>(i, ct). childId ct a (n + 1 + of_nat i)) (enumerate 0 cts)" for a and n :: u64
    by (rule nth_equalityI) (simp_all add: nth_enumerate_eq add.assoc)
  with Cons show ?case by (simp add: nextId_def add.assoc add.commute [of 1])
qed simp

text \<open>
  C14. The names an agent reference hands out are pairwise different, whatever kinds of objects they are
  for, until its 64 bit counter has gone all the way round.
\<close>
theorem nextId_distinct:
  assumes "length cts \<le> 2 ^ 64"
  shows "\<exists>names w'. nextIds cts w = (Inr names, w') \<and> length names = length cts \<and> distinct names"
proof -
  let ?name = "\<lambda>i. childId (cts ! i) (agentAddress w) (nextIdCounter w + of_nat i)"
  have "distinct (map ?name [0..<length cts])"
  proof (rule distinct_map [THEN iffD2, OF conjI], simp, rule inj_onI)
    fix i j assume ij: "i \<in> set [0..<length cts]" "j \<in> set [0..<length cts]" and "?name i = ?name j"
    then have "(of_nat i :: u64) = of_nat j" using childId_inj by fastforce
    moreover have "i < 2 ^ LENGTH(64)" "j < 2 ^ LENGTH(64)" using ij assms by simp_all
    ultimately show "i = j" using of_nat_word_inj by blast
  qed
  moreover have "map (\<lambda>(i, ct). childId ct (agentAddress w) (nextIdCounter w + of_nat i)) (enumerate 0 cts)
      = map ?name [0..<length cts]"
    by (rule nth_equalityI) (simp_all add: nth_enumerate_eq)
  ultimately show ?thesis by (simp add: nextIds_eq)
qed

abbreviation "small_shard n \<equiv> \<lparr>aqs_archivejobs = [], aqs_archivejobstotalsize = n\<rparr>"

definition small_header :: "u64 \<Rightarrow> object_header" where
  "small_header n = \<lparr>oh_version = 0, oh_owner = ''o'', oh_backupowner = '''', oh_payload = Payload_ArchiveQueueShard (small_shard n)\<rparr>"

definition small_world :: world where
  "small_world = \<lparr>objects = [''A'' \<mapsto> small_header 0], lockFiles = (\<lambda>n. n = ''A''), agentAddress = ''agent'', nextIdCounter = - 1\<rparr>"

theorem nextId_distinct_witness:
  "\<exists>names w'. nextIds [''ArchiveQueueShard'', ''ArchiveQueueShard''] small_world = (Inr names, w') \<and> length names = 2 \<and> distinct names"
  using nextId_distinct [of "[''ArchiveQueueShard'', ''ArchiveQueueShard'']" small_world]
  by (simp del: nextIds.simps) (simp add: numeral_2_eq_2 del: nextIds.simps)

text \<open>
  An asynchronous update is atomic. On an object that exists, an update that succeeds replaces the
  object and nothing else, one that asks for the deletion removes the object and nothing else, and one that
  throws passes its exception on and leaves the store as it was. On an object that does not exist the
  update is not run at all.
\<close>
lemma vfs_asyncUpdate_atomic:
  "(objects w name = Some h \<and> lockFiles w name \<longrightarrow>
      vfs_asyncUpdate name update w = (case update h of
        Inr (h', x) \<Rightarrow> (Inr (Some x), w\<lparr>objects := (objects w)(name \<mapsto> h')\<rparr>)
      | Inl AsyncUpdateWithDelete \<Rightarrow>
          (Inr None, w\<lparr>objects := (objects w)(name := None), lockFiles := (lockFiles w)(name := False)\<rparr>)
      | Inl e \<Rightarrow> (Inl e, w)))
    \<and> (objects w name = None \<and> \<not> lockFiles w name \<longrightarrow> vfs_asyncUpdate name update w = (Inl NoSuchObject, w))"
proof (intro conjI impI; elim conjE)
  assume "objects w name = Some h" and "lockFiles w name"
  then show "vfs_asyncUpdate name update w = (case update h of
        Inr (h', x) \<Rightarrow> (Inr (Some x), w\<lparr>objects := (objects w)(name \<mapsto> h')\<rparr>)
      | Inl AsyncUpdateWithDelete \<Rightarrow>
          (Inr None, w\<lparr>objects := (objects w)(name := None), lockFiles := (lockFiles w)(name := False)\<rparr>)
      | Inl e \<Rightarrow> (Inl e, w))"
    by (simp add: vfs_asyncUpdate_def vfs_defs rethrow_as_def bnd_def split: sum.split exn.split prod.split)
next
  assume "objects w name = None" and "\<not> lockFiles w name"
  then show "vfs_asyncUpdate name update w = (Inl NoSuchObject, w)" by (simp add: vfs_asyncUpdate_def vfs_defs)
qed

text \<open>
  The file system backend keeps one lock file per object file, and does what the interface of a backend
  promises: an object that was created is read back, an overwritten one is read back with its new content,
  a removed one is gone, and creating and removing an object leaves the contents of the store as they were.
\<close>
lemma vfs_contract:
  assumes "vfs_sane w"
  shows "(objects w n = None \<longrightarrow> (\<exists>w'. bnd (vfs_create n c) (\<lambda>_. vfs_read n) w = (Inr c, w')))
    \<and> (objects w n \<noteq> None \<longrightarrow> (\<exists>w'. bnd (vfs_atomicOverwrite n c) (\<lambda>_. vfs_read n) w = (Inr c, w')))
    \<and> (objects w n \<noteq> None \<longrightarrow> (\<exists>w'. bnd (vfs_remove n) (\<lambda>_. vfs_read n) w = (Inl NoSuchObject, w')))
    \<and> (objects w n = None \<longrightarrow>
        (\<exists>w'. bnd (vfs_create n c) (\<lambda>_. vfs_remove n) w = (Inr (), w') \<and> objects w' = objects w \<and> vfs_sane w'))"
  using vfs.create_then_read [OF assms] vfs.overwrite_then_read [OF assms] vfs.remove_then_read [OF assms]
    vfs.create_remove_contents [OF assms] by blast

section \<open>Objects and their locks\<close>




text \<open>
  What a client can do with its image \<open>ob\<close> of an object and its lock \<open>l\<close>, in the store \<open>w\<close>: lock, fetch, edit the
  payload or the owner through a setter (which checks that it may), commit, release, initialize and insert
  a new object, remove it, set and reset the address; when \<open>lockfree\<close> also fetch without a lock. Meanwhile
  other processes may change the store in any way.
\<close>

inductive client_step :: "bool \<Rightarrow> 'p codec \<Rightarrow> scoped_lock \<times> 'p oo \<times> world \<Rightarrow> scoped_lock \<times> 'p oo \<times> world \<Rightarrow> bool"
  for lockfree c where
  client_lock: "lock_object l ob w = (Inr (l', ob'), w') \<Longrightarrow> client_step lockfree c (l, ob, w) (l', ob', w')"
| client_fetch: "oo_fetch c ob w = (Inr ob', w') \<Longrightarrow> client_step lockfree c (l, ob, w) (l, ob', w')"
| client_fetchNoLock: "lockfree \<Longrightarrow> oo_fetchNoLock c ob w = (Inr ob', w') \<Longrightarrow> client_step lockfree c (l, ob, w) (l, ob', w')"
| client_asyncFetch: "lockfree \<Longrightarrow> asyncLockfreeFetch c ob w = (Inr ob', w') \<Longrightarrow> client_step lockfree c (l, ob, w) (l, ob', w')"
| client_edit: "checkPayloadWritable ob = Inr () \<Longrightarrow> client_step lockfree c (l, ob, w) (l, ob\<lparr>oo_payload := p\<rparr>, w)"
| client_owner: "setOwner a ob = Inr ob' \<Longrightarrow> client_step lockfree c (l, ob, w) (l, ob', w)"
| client_commit: "oo_commit c ob w = (Inr (), w') \<Longrightarrow> client_step lockfree c (l, ob, w) (l, ob, w')"
| client_release: "lock_release l ob ([] :: 'p oo list) = Inr (l', ob', subs) \<Longrightarrow> client_step lockfree c (l, ob, w) (l', ob', w)"
| client_initialize: "oo_initialize ob = Inr ob' \<Longrightarrow>
    client_step lockfree c (l, ob, w) (l, ob'\<lparr>oo_payload := p, oo_payloadInterpreted := True\<rparr>, w)"
| client_insert: "oo_insert c ob w = (Inr ob', w') \<Longrightarrow> client_step lockfree c (l, ob, w) (l, ob', w')"
| client_remove: "oo_remove ob w = (Inr ob', w') \<Longrightarrow> client_step lockfree c (l, ob, w) (l, ob', w')"
| client_setAddress: "setAddress a ob = Inr ob' \<Longrightarrow> client_step lockfree c (l, ob, w) (l, ob', w)"
| client_resetAddress: "resetAddress ob = Inr ob' \<Longrightarrow> client_step lockfree c (l, ob, w) (l, ob', w)"
| client_others: "client_step lockfree c (l, ob, w) (l, ob, w')"

inductive_cases client_stepE: "client_step lockfree c (l, ob, w) (l', ob', w')"

text \<open>The image counts the lock that covers it, and it is marked lock free only after a lock-free fetch.\<close>

definition lock_inv :: "bool \<Rightarrow> scoped_lock \<Rightarrow> 'p oo \<Rightarrow> bool" where
  "lock_inv lockfree l ob \<longleftrightarrow> oo_locksCount ob = (if sl_locked l then 1 else 0)
     \<and> oo_locksForWriteCount ob = (if sl_locked l \<and> sl_exclusive l then 1 else 0)
     \<and> (oo_noLock ob \<longrightarrow> lockfree)"

lemma lock_object_Inr:
  "lock_object l ob w = (Inr (l', ob'), w') \<Longrightarrow> \<not> sl_locked l \<and> l' = l\<lparr>sl_locked := True\<rparr>
     \<and> ob' = (if sl_exclusive l then (setObjectLocked l ob)\<lparr>oo_exclusiveLock := Some l'\<rparr> else setObjectLocked l ob)"
  by (auto simp: lock_object_def bnd_Inr_iff Let_def split: if_splits)

lemma vfs_read_Inr: "vfs_read a w = (Inr h, w') \<Longrightarrow> w' = w"
  by (simp add: vfs_read_def split: option.splits)

lemma oo_interpret_Inr:
  "oo_interpret c h ob = Inr ob' \<Longrightarrow> oo_locksCount ob' = oo_locksCount ob
     \<and> oo_locksForWriteCount ob' = oo_locksForWriteCount ob \<and> oo_noLock ob' = oo_noLock ob"
  by (auto simp: oo_interpret_def split: option.splits)

lemma fetchBottomHalf_Inr:
  "fetchBottomHalf c ob w = (Inr ob', w') \<Longrightarrow> oo_locksCount ob' = oo_locksCount ob
     \<and> oo_locksForWriteCount ob' = oo_locksForWriteCount ob \<and> oo_noLock ob' = oo_noLock ob"
  by (auto simp: fetchBottomHalf_def bnd_Inr_iff dest!: oo_interpret_Inr)

lemma lock_inv_fetch:
  assumes "lock_inv lockfree l ob"
  shows "oo_fetch c ob w = (Inr ob', w') \<Longrightarrow> lock_inv lockfree l ob'"
    and "lockfree \<Longrightarrow> oo_fetchNoLock c ob w = (Inr ob', w') \<Longrightarrow> lock_inv lockfree l ob'"
    and "lockfree \<Longrightarrow> asyncLockfreeFetch c ob w = (Inr ob', w') \<Longrightarrow> lock_inv lockfree l ob'"
  using assms
  by (auto simp: lock_inv_def oo_fetch_def oo_fetchNoLock_def asyncLockfreeFetch_def bnd_Inr_iff
      dest!: fetchBottomHalf_Inr oo_interpret_Inr split: if_splits)

lemma lock_inv_life_cycle:
  assumes "lock_inv lockfree l ob"
  shows "oo_initialize ob = Inr ob' \<Longrightarrow> lock_inv lockfree l (ob'\<lparr>oo_payload := p, oo_payloadInterpreted := True\<rparr>)"
    and "oo_insert c ob w = (Inr ob', w') \<Longrightarrow> lock_inv lockfree l ob'"
    and "oo_remove ob w = (Inr ob', w') \<Longrightarrow> lock_inv lockfree l ob'"
    and "setOwner a ob = Inr ob' \<Longrightarrow> lock_inv lockfree l ob'"
    and "setAddress a ob = Inr ob' \<Longrightarrow> lock_inv lockfree l ob'"
    and "resetAddress ob = Inr ob' \<Longrightarrow> lock_inv lockfree l ob'"
  using assms
  by (auto simp: lock_inv_def oo_initialize_def oo_insert_def oo_remove_def setOwner_def setAddress_def resetAddress_def
      bnd_Inr_iff rbind_Inr_iff split: if_splits)

lemma lock_inv_step:
  "client_step lockfree c (l, ob, w) (l', ob', w') \<Longrightarrow> lock_inv lockfree l ob \<Longrightarrow> lock_inv lockfree l' ob'"
proof (erule client_stepE)
  assume "lock_inv lockfree l ob" and "lock_object l ob w = (Inr (l', ob'), w')"
  then show "lock_inv lockfree l' ob'" by (auto simp: lock_inv_def setObjectLocked_def dest!: lock_object_Inr)
next
  fix subs assume "lock_inv lockfree l ob" and "lock_release l ob ([] :: 'a oo list) = Inr (l', ob', subs)"
  then show "lock_inv lockfree l' ob'"
    by (auto simp: lock_inv_def lock_release_def unlock_and_void_def setObjectUnlocked_def Let_def split: if_splits)
qed (auto intro: lock_inv_fetch lock_inv_life_cycle, simp add: lock_inv_def)

lemma lock_inv_reachable:
  assumes "(client_step lockfree c)\<^sup>*\<^sup>* (l, ob, w) (l', ob', w')" and "lock_inv lockfree l ob"
  shows "lock_inv lockfree l' ob'"
  using assms
proof (induction "(l', ob', w')" arbitrary: l' ob' w' rule: rtranclp_induct)
  case (step y)
  then show ?case by (cases y) (auto intro: lock_inv_step)
qed

text \<open>
  C18. Locks are respected by the image of an object. Whatever a client that starts from a fresh image and
  an unlocked lock has done before, and whatever other processes did to the store: it can only commit while
  it holds the lock exclusively, and it can only remove an object it fetched or inserted while it holds the
  lock exclusively (an image that never was fetched or inserted is not checked). It can only read the payload
  of an object that is in the store while it holds the lock, unless it has used a lock-free fetch
  (\<open>fetchNoLock\<close>, \<open>asyncLockfreeFetch\<close>), which marks the image for good.
\<close>
theorem commit_needs_exclusive_lock:
  assumes "(client_step lockfree c)\<^sup>*\<^sup>* (\<lparr>sl_exclusive = excl, sl_locked = False\<rparr>, oo_new p, w) (l, ob, w')"
  shows "(fst (oo_commit c ob w') = Inr () \<longrightarrow> sl_locked l \<and> sl_exclusive l)
    \<and> (oo_existingObject ob \<and> fst (oo_remove ob w') = Inr ob' \<longrightarrow> sl_locked l \<and> sl_exclusive l)
    \<and> (oo_existingObject ob \<and> checkPayloadReadable ob = Inr () \<longrightarrow> sl_locked l \<or> lockfree \<and> oo_noLock ob)"
proof -
  have "lock_inv lockfree \<lparr>sl_exclusive = excl, sl_locked = False\<rparr> (oo_new p)"
    by (simp add: lock_inv_def oo_new_def)
  from lock_inv_reachable [OF assms this] have inv: "lock_inv lockfree l ob" .
  have writable: "sl_locked l \<and> sl_exclusive l" if "checkWritable ob = Inr ()" "oo_existingObject ob"
    using that inv by (auto simp: checkWritable_def lock_inv_def split: if_splits)
  have "sl_locked l \<and> sl_exclusive l" if "fst (oo_commit c ob w') = Inr ()"
    by (rule writable) (use that in \<open>auto simp: oo_commit_def check_defs split: if_splits\<close>)
  moreover have "sl_locked l \<and> sl_exclusive l" if "oo_existingObject ob" "fst (oo_remove ob w') = Inr ob'"
    by (rule writable) (use that in \<open>auto simp: oo_remove_def checkWritable_def split: if_splits\<close>)
  moreover have "sl_locked l \<or> lockfree \<and> oo_noLock ob" if "oo_existingObject ob" "checkPayloadReadable ob = Inr ()"
    using that inv by (auto simp: check_defs lock_inv_def split: if_splits)
  ultimately show ?thesis by blast
qed

definition small_image :: "archive_queue_shard oo" where
  "small_image = (oo_new (small_shard 0))\<lparr>oo_nameSet := True, oo_name := ''A''\<rparr>"

lemma small_client:
  "\<exists>l ob. (client_step False archive_queue_shard_codec)\<^sup>*\<^sup>*
      (\<lparr>sl_exclusive = True, sl_locked = False\<rparr>, oo_new (small_shard 0), small_world) (l, ob, small_world)
    \<and> fst (oo_commit archive_queue_shard_codec ob small_world) = Inr ()"
proof -
  let ?c = archive_queue_shard_codec and ?l0 = "\<lparr>sl_exclusive = True, sl_locked = False\<rparr>"
  have address: "setAddress ''A'' (oo_new (small_shard 0)) = Inr small_image" by (simp add: setAddress_def small_image_def oo_new_def)
  have "\<exists>l1 ob1 ob2. lock_object ?l0 small_image small_world = (Inr (l1, ob1), small_world)
      \<and> oo_fetch ?c ob1 small_world = (Inr ob2, small_world) \<and> fst (oo_commit ?c ob2 small_world) = Inr ()"
    by (simp add: lock_object_def oo_defs small_image_def small_world_def vfs_lockHelper_def vfs_read_def Let_def
        small_header_def archive_queue_shard_codec_def check_defs vfs_atomicOverwrite_def vfs_exists_def)
  then obtain l1 ob1 ob2 where r: "lock_object ?l0 small_image small_world = (Inr (l1, ob1), small_world)"
    "oo_fetch ?c ob1 small_world = (Inr ob2, small_world)" "fst (oo_commit ?c ob2 small_world) = Inr ()" by blast
  from client_setAddress [OF address, of False ?c ?l0 small_world] client_lock [OF r(1), of False ?c]
    client_fetch [OF r(2), of False l1]
  have "(client_step False ?c)\<^sup>*\<^sup>* (?l0, oo_new (small_shard 0), small_world) (l1, ob2, small_world)"
    by (meson converse_rtranclp_into_rtranclp rtranclp.rtrancl_refl)
  with r(3) show ?thesis by blast
qed

theorem commit_needs_exclusive_lock_witness:
  "\<exists>l ob. (client_step False archive_queue_shard_codec)\<^sup>*\<^sup>*
      (\<lparr>sl_exclusive = True, sl_locked = False\<rparr>, oo_new (small_shard 0), small_world) (l, ob, small_world)
    \<and> fst (oo_commit archive_queue_shard_codec ob small_world) = Inr () \<and> sl_locked l \<and> sl_exclusive l"
proof -
  from small_client obtain l ob where r: "(client_step False archive_queue_shard_codec)\<^sup>*\<^sup>*
      (\<lparr>sl_exclusive = True, sl_locked = False\<rparr>, oo_new (small_shard 0), small_world) (l, ob, small_world)"
    "fst (oo_commit archive_queue_shard_codec ob small_world) = Inr ()" by blast
  with commit_needs_exclusive_lock [OF r(1)] show ?thesis by blast
qed

text \<open>
  Releasing the lock voids what was read under it, for the object and for the sub objects that were
  included in the lock: reading or committing the payload throws until the object is fetched again, and
  a commit does not touch the store.
\<close>
lemma release_voids_payload:
  assumes "sl_locked l"
  shows "\<exists>l' ob' subs'. lock_release l ob subs = Inr (l', ob', subs') \<and> \<not> sl_locked l'
    \<and> checkPayloadReadable ob' = Inl NotFetched \<and> oo_commit c ob' w = (Inl NotFetched, w)
    \<and> (\<forall>sub \<in> set subs'. checkPayloadReadable sub = Inl NotFetched \<and> oo_commit c' sub w = (Inl NotFetched, w))
    \<and> length subs' = length subs"
  using assms by (auto simp: lock_release_def unlock_and_void_def setObjectUnlocked_def Let_def check_defs oo_commit_def)

end
