(* ===== verification/StdMap.thy ===== *)
theory StdMap
  imports CtaPrelude
begin

text \<open>
  \<open>std::map\<close> with an integer key, as the list of its entries in the order of the keys: the code both looks
  entries up and iterates over them in order.
\<close>

type_synonym ('k, 'v) std_map = "('k \<times> 'v) list"

text \<open>\<open>m[key] = value\<close>\<close>

fun smap_put :: "'k::linorder \<Rightarrow> 'v \<Rightarrow> ('k, 'v) std_map \<Rightarrow> ('k, 'v) std_map" where
  "smap_put k v [] = [(k, v)]"
| "smap_put k v ((k', v') # m) =
     (if k < k' then (k, v) # (k', v') # m else if k = k' then (k, v) # m else (k', v') # smap_put k v m)"

definition smap_get :: "'k \<Rightarrow> ('k, 'v) std_map \<Rightarrow> 'v option" where
  "smap_get k m = map_of m k"

text \<open>A map filled from a list of entries, later ones overwriting earlier ones.\<close>

definition smap_fill :: "('k::linorder \<times> 'v) list \<Rightarrow> ('k, 'v) std_map \<Rightarrow> ('k, 'v) std_map" where
  "smap_fill kvs m = fold (\<lambda>(k, v) m. smap_put k v m) kvs m"

definition smap_ok :: "('k::linorder, 'v) std_map \<Rightarrow> bool" where
  "smap_ok m \<longleftrightarrow> sorted_wrt (<) (map fst m)"

lemma fst_smap_put: "fst ` set (smap_put k v m) = insert k (fst ` set m)"
proof (induction m)
  case (Cons x m)
  then show ?case by (cases x) auto
qed simp

lemma smap_put_ok: "smap_ok m \<Longrightarrow> smap_ok (smap_put k v m)"
proof (induction m)
  case (Cons x m)
  obtain k' v' where x: "x = (k', v')" by (cases x)
  from Cons have "smap_ok (smap_put k v m)" by (simp add: smap_ok_def)
  with Cons.prems show ?case
    using fst_smap_put [of k v m] by (auto simp: x smap_ok_def)
qed (simp add: smap_ok_def)

lemma smap_get_put: "smap_ok m \<Longrightarrow> smap_get k' (smap_put k v m) = (if k' = k then Some v else smap_get k' m)"
proof (induction m)
  case (Cons x m)
  then show ?case by (cases x) (auto simp: smap_ok_def smap_get_def)
qed (simp add: smap_get_def)

lemma smap_fill_ok: "smap_ok m \<Longrightarrow> smap_ok (smap_fill kvs m)"
  unfolding smap_fill_def by (induction kvs arbitrary: m) (auto simp: smap_put_ok)

lemma smap_get_fill: "smap_ok m \<Longrightarrow> smap_get k (smap_fill kvs m) = (case map_of (rev kvs) k of Some v \<Rightarrow> Some v | None \<Rightarrow> smap_get k m)"
  unfolding smap_fill_def
proof (induction kvs arbitrary: m)
  case (Cons kv kvs)
  then show ?case
    by (cases kv) (auto simp: smap_put_ok smap_get_put map_add_def split: option.splits)
qed simp

lemma smap_put_absent_last: "smap_ok m \<Longrightarrow> \<forall>k' \<in> fst ` set m. k' < k \<Longrightarrow> smap_put k v m = m @ [(k, v)]"
  by (induction m) (auto simp: smap_ok_def)

text \<open>Filling an empty map with the entries of a map gives that map back.\<close>

lemma smap_fill_id: "smap_ok m \<Longrightarrow> smap_fill m [] = m"
proof (induction m rule: rev_induct)
  case (snoc x m)
  obtain k v where x: "x = (k, v)" by (cases x)
  have ok: "smap_ok m" and less: "\<forall>k' \<in> fst ` set m. k' < k"
    using snoc.prems by (auto simp: smap_ok_def x sorted_wrt_append)
  have "smap_fill (m @ [x]) [] = smap_put k v (smap_fill m [])" by (simp add: smap_fill_def x)
  with snoc.IH [OF ok] smap_put_absent_last [OF ok less] show ?case by (simp add: x)
qed (simp add: smap_fill_def)

end
