(* ===== verification/ArchiveRequest.thy ===== *)
theory ArchiveRequest
  imports ArchiveQueueShard StdMap
begin

text \<open>
  \<open>objectstore/ArchiveRequest.cpp\<close> and \<open>.hpp\<close>: a request to archive a file, with one job per tape copy. A
  job goes through the statuses of \<open>ArchiveJobStatus\<close>; the functions here say what becomes of a job whose
  transfer or report failed or succeeded, which queue a job belongs to, and who owns it. The checksum blob
  is kept in its serialized form, and the messages and warnings that are only logged are left out.
\<close>

section \<open>Data\<close>

datatype JobQueueType =
    JobsToTransferForUser
  | FailedJobs
  | JobsToReportToUser
  | JobsToReportToRepackForSuccess
  | JobsToReportToRepackForFailure
  | JobsToTransferForRepack

datatype ar_JobEvent = TransferFailed | ReportFailed

datatype ar_NextStep =
    Nothing
  | EnqueueForTransferForUser
  | EnqueueForTransferForRepack
  | EnqueueForReportForUser
  | EnqueueForReportForRepack
  | StoreInFailedJobsContainer
  | Delete

record ar_enqueueing_next_step =
  ens_nextStep :: ar_NextStep
  ens_nextStatus :: ArchiveJobStatus

record ar_retry_status =
  rs_retriesWithinMount :: u64
  rs_maxRetriesWithinMount :: u64
  rs_totalRetries :: u64
  rs_maxTotalRetries :: u64
  rs_reportRetries :: u64
  rs_maxReportRetries :: u64

record ar_RepackInfo =
  ari_isRepack :: bool
  ari_fSeq :: u64
  ari_repackRequestAddress :: string
  ari_fileBufferURL :: string
  ari_jobsDestination :: "(u32, string) std_map"

definition ar_RepackInfo_init :: ar_RepackInfo where
  "ar_RepackInfo_init = \<lparr>ari_isRepack = False, ari_fSeq = 0, ari_repackRequestAddress = '''', ari_fileBufferURL = '''',
     ari_jobsDestination = []\<rparr>"

section \<open>The request\<close>

definition ar_initialize :: "archive_request oo \<Rightarrow> exn + archive_request oo" where
  "ar_initialize ob = rbind (oo_initialize ob) (\<lambda>ob1.
     Inr (ob1\<lparr>oo_payload := (oo_payload ob1)\<lparr>ar_reportdecided := False, ar_isrepack := False\<rparr>,
             oo_payloadInterpreted := True\<rparr>))"

definition ar_tapepools_unique :: "archive_request \<Rightarrow> bool" where
  "ar_tapepools_unique p \<longleftrightarrow> (\<forall>job \<in> set (ar_jobs p).
     length (filter (\<lambda>archiveJob. aj_tapepool archiveJob = aj_tapepool job) (ar_jobs p)) = 1)"

definition ar_commit :: "archive_request oo \<Rightarrow> (world, unit) prog" where
  "ar_commit ob =
     bnd (liftr (checkPayloadWritable ob)) (\<lambda>_.
     bnd (liftr (checkPayloadReadable ob)) (\<lambda>_.
     if \<not> ar_tapepools_unique (oo_payload ob) then throw (CtaException ''ArchiveRequest::commit'')
     else oo_commit archive_request_codec ob))"

definition ar_new_job :: "u32 \<Rightarrow> string \<Rightarrow> string \<Rightarrow> 16 word \<Rightarrow> 16 word \<Rightarrow> 16 word \<Rightarrow> archive_job" where
  "ar_new_job copyNumber tapepool initialOwner maxRetriesWithinMount maxTotalRetries maxReportRetries =
     \<lparr>aj_copynb = copyNumber, aj_tapepool = tapepool, aj_archivequeueaddress = '''', aj_owner = initialOwner,
      aj_status = AJS_ToTransferForUser, aj_totalretries = 0, aj_retrieswithinmount = 0, aj_lastmountwithfailure = 0,
      aj_maxtotalretries = ucast maxTotalRetries, aj_maxretrieswithinmount = ucast maxRetriesWithinMount,
      aj_failurelogs = [], aj_maxreportretries = ucast maxReportRetries, aj_totalreportretries = 0,
      aj_reportfailurelogs = []\<rparr>"

definition ar_addJob ::
  "u32 \<Rightarrow> string \<Rightarrow> string \<Rightarrow> 16 word \<Rightarrow> 16 word \<Rightarrow> 16 word \<Rightarrow> archive_request oo \<Rightarrow> exn + archive_request oo" where
  "ar_addJob copyNumber tapepool initialOwner maxRetriesWithinMount maxTotalRetries maxReportRetries ob =
     rbind (checkPayloadWritable ob) (\<lambda>_.
     Inr (ob\<lparr>oo_payload := (oo_payload ob)\<lparr>ar_jobs := ar_jobs (oo_payload ob) @
       [ar_new_job copyNumber tapepool initialOwner maxRetriesWithinMount maxTotalRetries maxReportRetries]\<rparr>\<rparr>))"

text \<open>
  \<open>getQueueType\<close> of a status, and the same table as \<open>getJobQueueType\<close> spells it out for a job of the
  request.
\<close>

definition ar_getQueueType :: "ArchiveJobStatus \<Rightarrow> exn + JobQueueType" where
  "ar_getQueueType status = (case status of
     AJS_ToTransferForUser \<Rightarrow> Inr JobsToTransferForUser
   | AJS_ToReportToUserForTransfer \<Rightarrow> Inr JobsToReportToUser
   | AJS_ToReportToUserForFailure \<Rightarrow> Inr JobsToReportToUser
   | AJS_ToReportToRepackForSuccess \<Rightarrow> Inr JobsToReportToRepackForSuccess
   | AJS_ToReportToRepackForFailure \<Rightarrow> Inr JobsToReportToRepackForFailure
   | AJS_ToTransferForRepack \<Rightarrow> Inr JobsToTransferForRepack
   | AJS_Failed \<Rightarrow> Inr FailedJobs
   | AJS_Complete \<Rightarrow> Inl JobNotQueueable
   | AJS_Abandoned \<Rightarrow> Inl JobNotQueueable)"

fun ar_job_queue_type :: "u32 \<Rightarrow> archive_job list \<Rightarrow> exn + JobQueueType" where
  "ar_job_queue_type copyNumber [] = Inl (CtaException ''ArchiveRequest::getJobQueueType'')"
| "ar_job_queue_type copyNumber (j # js) =
     (if aj_copynb j = copyNumber
      then (case aj_status j of
              AJS_ToTransferForUser \<Rightarrow> Inr JobsToTransferForUser
            | AJS_ToTransferForRepack \<Rightarrow> Inr JobsToTransferForRepack
            | AJS_Complete \<Rightarrow> Inl JobNotQueueable
            | AJS_ToReportToUserForTransfer \<Rightarrow> Inr JobsToReportToUser
            | AJS_ToReportToUserForFailure \<Rightarrow> Inr JobsToReportToUser
            | AJS_Failed \<Rightarrow> Inr FailedJobs
            | AJS_Abandoned \<Rightarrow> Inl JobNotQueueable
            | AJS_ToReportToRepackForSuccess \<Rightarrow> Inr JobsToReportToRepackForSuccess
            | AJS_ToReportToRepackForFailure \<Rightarrow> Inr JobsToReportToRepackForFailure)
      else ar_job_queue_type copyNumber js)"

definition ar_getJobQueueType :: "u32 \<Rightarrow> archive_request oo \<Rightarrow> exn + JobQueueType" where
  "ar_getJobQueueType copyNumber ob = rbind (checkPayloadReadable ob) (\<lambda>_.
     ar_job_queue_type copyNumber (ar_jobs (oo_payload ob)))"

section \<open>Failures\<close>

text \<open>The decision of \<open>determineNextStep\<close>, once the copy number was found.\<close>

definition ar_next_step :: "ar_JobEvent \<Rightarrow> archive_request \<Rightarrow> ar_enqueueing_next_step \<times> archive_request" where
  "ar_next_step jobEvent p = (case jobEvent of
     TransferFailed \<Rightarrow>
       if \<not> ar_reportdecided p
       then (\<lparr>ens_nextStep = (if ar_isrepack p then EnqueueForReportForRepack else EnqueueForReportForUser),
              ens_nextStatus = (if ar_isrepack p then AJS_ToReportToRepackForFailure else AJS_ToReportToUserForFailure)\<rparr>,
             p\<lparr>ar_reportdecided := True\<rparr>)
       else (\<lparr>ens_nextStep = (if ar_isrepack p then EnqueueForReportForRepack else StoreInFailedJobsContainer),
              ens_nextStatus = (if ar_isrepack p then AJS_ToReportToRepackForFailure else AJS_Failed)\<rparr>, p)
   | ReportFailed \<Rightarrow> (\<lparr>ens_nextStep = StoreInFailedJobsContainer, ens_nextStatus = AJS_Failed\<rparr>, p))"

definition ar_determineNextStep ::
  "u32 \<Rightarrow> ar_JobEvent \<Rightarrow> archive_request oo \<Rightarrow> exn + ar_enqueueing_next_step \<times> archive_request oo" where
  "ar_determineNextStep copyNumberUpdated jobEvent ob = rbind (checkPayloadWritable ob) (\<lambda>_.
     if \<not> (\<exists>j \<in> set (ar_jobs (oo_payload ob)). aj_copynb j = copyNumberUpdated)
     then Inl (CtaException ''ArchiveRequest::determineNextStep'')
     else let (r, p) = ar_next_step jobEvent (oo_payload ob) in Inr (r, ob\<lparr>oo_payload := p\<rparr>))"

text \<open>The counters of a job after a failed transfer in the mount \<open>mountId\<close>.\<close>

definition ar_count_failure :: "u64 \<Rightarrow> string \<Rightarrow> archive_job \<Rightarrow> archive_job" where
  "ar_count_failure mountId failureReason j =
     (let j1 = (if aj_lastmountwithfailure j = mountId
                then j\<lparr>aj_retrieswithinmount := aj_retrieswithinmount j + 1\<rparr>
                else j\<lparr>aj_retrieswithinmount := 1, aj_lastmountwithfailure := mountId\<rparr>)
      in j1\<lparr>aj_totalretries := aj_totalretries j1 + 1, aj_failurelogs := aj_failurelogs j1 @ [failureReason]\<rparr>)"

definition ar_addTransferFailure ::
  "u32 \<Rightarrow> u64 \<Rightarrow> string \<Rightarrow> archive_request oo \<Rightarrow> exn + ar_enqueueing_next_step \<times> archive_request oo" where
  "ar_addTransferFailure copyNumber mountId failureReason ob = rbind (checkPayloadWritable ob) (\<lambda>_.
     let p = oo_payload ob;
         i = find_index (\<lambda>j. aj_copynb j = copyNumber) (ar_jobs p)
     in if i = length (ar_jobs p) then Inl NoSuchJob
        else let j = ar_count_failure mountId failureReason (ar_jobs p ! i);
                 ob1 = ob\<lparr>oo_payload := p\<lparr>ar_jobs := (ar_jobs p)[i := j]\<rparr>\<rparr>
             in if aj_totalretries j \<ge> aj_maxtotalretries j
                then ar_determineNextStep copyNumber TransferFailed ob1
                else Inr (\<lparr>ens_nextStep = (if aj_retrieswithinmount j \<ge> aj_maxretrieswithinmount j then Nothing
                             else if ar_isrepack p then EnqueueForTransferForRepack else EnqueueForTransferForUser),
                           ens_nextStatus = (if ar_isrepack p then AJS_ToTransferForRepack else AJS_ToTransferForUser)\<rparr>, ob1))"

text \<open>
  \<open>addReportFailure\<close>: the \<open>return\<close> is inside the loop but outside the test of the copy number, so that only
  the first job of the request is ever looked at.
\<close>

definition ar_addReportFailure ::
  "u32 \<Rightarrow> u64 \<Rightarrow> string \<Rightarrow> archive_request oo \<Rightarrow> exn + ar_enqueueing_next_step \<times> archive_request oo" where
  "ar_addReportFailure copyNumber sessionId failureReason ob = rbind (checkPayloadWritable ob) (\<lambda>_.
     case ar_jobs (oo_payload ob) of
       [] \<Rightarrow> Inl NoSuchJob
     | j # js \<Rightarrow>
         let j1 = (if aj_copynb j = copyNumber
                   then j\<lparr>aj_totalreportretries := aj_totalreportretries j + 1,
                          aj_reportfailurelogs := aj_reportfailurelogs j @ [failureReason]\<rparr> else j);
             ob1 = ob\<lparr>oo_payload := (oo_payload ob)\<lparr>ar_jobs := j1 # js\<rparr>\<rparr>
         in Inr (if aj_totalreportretries j1 \<ge> aj_maxreportretries j1
                 then \<lparr>ens_nextStep = StoreInFailedJobsContainer, ens_nextStatus = AJS_Failed\<rparr>
                 else \<lparr>ens_nextStep = EnqueueForReportForUser, ens_nextStatus = aj_status j1\<rparr>, ob1))"

definition ar_getRetryStatus :: "u32 \<Rightarrow> archive_request oo \<Rightarrow> exn + ar_retry_status" where
  "ar_getRetryStatus copyNumber ob = rbind (checkPayloadReadable ob) (\<lambda>_.
     case find (\<lambda>j. copyNumber = aj_copynb j) (ar_jobs (oo_payload ob)) of
       None \<Rightarrow> Inl (CtaException ''ArchiveRequest::getRetryStatus'')
     | Some j \<Rightarrow> Inr \<lparr>rs_retriesWithinMount = ucast (aj_retrieswithinmount j),
         rs_maxRetriesWithinMount = ucast (aj_maxretrieswithinmount j), rs_totalRetries = ucast (aj_totalretries j),
         rs_maxTotalRetries = ucast (aj_maxtotalretries j), rs_reportRetries = ucast (aj_totalreportretries j),
         rs_maxReportRetries = 0\<rparr>)"


section \<open>Repack information\<close>

text \<open>
  \<open>RepackInfoSerDeser\<close>, and the two accessors of the request that repeat it. Writing appends the
  destinations to those the message already holds.
\<close>

definition ar_write_destinations :: "ar_RepackInfo \<Rightarrow> archive_request_repack_info \<Rightarrow> archive_request_repack_info" where
  "ar_write_destinations ri arri =
     arri\<lparr>arri_repack_request_address := ari_repackRequestAddress ri, arri_fseq := ari_fSeq ri,
          arri_file_buffer_url := ari_fileBufferURL ri,
          arri_jobs_destination := arri_jobs_destination arri @ ari_jobsDestination ri\<rparr>"

definition ar_RepackInfo_serialize :: "ar_RepackInfo \<Rightarrow> archive_request_repack_info \<Rightarrow> exn + archive_request_repack_info" where
  "ar_RepackInfo_serialize ri arri =
     (if \<not> ari_isRepack ri then Inl (CtaException ''ArchiveRequest::RepackInfoSerDeser::serialize'')
      else Inr (ar_write_destinations ri arri))"

definition ar_RepackInfo_deserialize :: "archive_request_repack_info \<Rightarrow> ar_RepackInfo \<Rightarrow> ar_RepackInfo" where
  "ar_RepackInfo_deserialize arri ri =
     ri\<lparr>ari_isRepack := True, ari_fileBufferURL := arri_file_buffer_url arri,
        ari_repackRequestAddress := arri_repack_request_address arri, ari_fSeq := arri_fseq arri,
        ari_jobsDestination := smap_fill (arri_jobs_destination arri) (ari_jobsDestination ri)\<rparr>"

definition ar_getRepackInfo :: "archive_request oo \<Rightarrow> exn + ar_RepackInfo" where
  "ar_getRepackInfo ob = rbind (checkPayloadReadable ob) (\<lambda>_.
     let repackInfo = ar_repack_info (oo_payload ob)
     in Inr \<lparr>ari_isRepack = True, ari_fSeq = arri_fseq repackInfo,
             ari_repackRequestAddress = arri_repack_request_address repackInfo,
             ari_fileBufferURL = arri_file_buffer_url repackInfo,
             ari_jobsDestination = smap_fill (arri_jobs_destination repackInfo) []\<rparr>)"

definition ar_setRepackInfo :: "ar_RepackInfo \<Rightarrow> archive_request oo \<Rightarrow> exn + archive_request oo" where
  "ar_setRepackInfo repackInfo ob = rbind (checkPayloadWritable ob) (\<lambda>_.
     Inr (ob\<lparr>oo_payload := (oo_payload ob)\<lparr>ar_repack_info := ar_write_destinations repackInfo (ar_repack_info (oo_payload ob))\<rparr>\<rparr>))"

section \<open>Accessors\<close>

definition ar_setArchiveFile :: "archive_file \<Rightarrow> archive_request oo \<Rightarrow> exn + archive_request oo" where
  "ar_setArchiveFile archiveFile ob = rbind (checkPayloadWritable ob) (\<lambda>_.
     Inr (ob\<lparr>oo_payload := (oo_payload ob)
       \<lparr>ar_archivefileid := af_archivefileid archiveFile, ar_checksumblob := af_checksumblob archiveFile,
        ar_creationtime := af_creationtime archiveFile, ar_diskfileid := af_diskfileid archiveFile,
        ar_diskfileinfo := af_diskfileinfo archiveFile, ar_diskinstance := af_diskinstance archiveFile,
        ar_filesize := af_filesize archiveFile, ar_reconcilationtime := af_reconciliationtime archiveFile,
        ar_storageclass := af_storageclass archiveFile\<rparr>\<rparr>))"

definition ar_archive_file :: "archive_request \<Rightarrow> archive_file" where
  "ar_archive_file p =
     \<lparr>af_archivefileid = ar_archivefileid p, af_filesize = ar_filesize p, af_diskfileid = ar_diskfileid p,
      af_diskinstance = ar_diskinstance p, af_diskfileinfo = ar_diskfileinfo p, af_checksumblob = ar_checksumblob p,
      af_creationtime = ar_creationtime p, af_tapefiles = [], af_reconciliationtime = ar_reconcilationtime p,
      af_storageclass = ar_storageclass p\<rparr>"

definition ar_getArchiveFile :: "archive_request oo \<Rightarrow> exn + archive_file" where
  "ar_getArchiveFile ob = rbind (checkPayloadReadable ob) (\<lambda>_. Inr (ar_archive_file (oo_payload ob)))"

definition ar_setArchiveReportURL :: "string \<Rightarrow> archive_request oo \<Rightarrow> exn + archive_request oo" where
  "ar_setArchiveReportURL URL ob = rbind (checkPayloadWritable ob) (\<lambda>_.
     Inr (ob\<lparr>oo_payload := (oo_payload ob)\<lparr>ar_archivereporturl := URL\<rparr>\<rparr>))"

definition ar_getArchiveReportURL :: "archive_request oo \<Rightarrow> exn + string" where
  "ar_getArchiveReportURL ob = rbind (checkPayloadReadable ob) (\<lambda>_. Inr (ar_archivereporturl (oo_payload ob)))"

definition ar_setArchiveErrorReportURL :: "string \<Rightarrow> archive_request oo \<Rightarrow> exn + archive_request oo" where
  "ar_setArchiveErrorReportURL URL ob = rbind (checkPayloadWritable ob) (\<lambda>_.
     Inr (ob\<lparr>oo_payload := (oo_payload ob)\<lparr>ar_archiveerrorreporturl := URL\<rparr>\<rparr>))"

definition ar_getArchiveErrorReportURL :: "archive_request oo \<Rightarrow> exn + string" where
  "ar_getArchiveErrorReportURL ob =
     rbind (checkPayloadReadable ob) (\<lambda>_. Inr (ar_archiveerrorreporturl (oo_payload ob)))"

text \<open>The mount policy is stored with its name both inside and beside it.\<close>

definition ar_setMountPolicy :: "mount_policy \<Rightarrow> archive_request oo \<Rightarrow> exn + archive_request oo" where
  "ar_setMountPolicy mountPolicy ob = rbind (checkPayloadWritable ob) (\<lambda>_.
     Inr (ob\<lparr>oo_payload := (oo_payload ob)\<lparr>ar_mountpolicy := mountPolicy, ar_mountpolicyname := mp_name mountPolicy\<rparr>\<rparr>))"

definition ar_getMountPolicy :: "archive_request oo \<Rightarrow> exn + mount_policy" where
  "ar_getMountPolicy ob = rbind (checkPayloadReadable ob) (\<lambda>_. Inr (ar_mountpolicy (oo_payload ob)))"

definition ar_setRequester :: "requester_identity \<Rightarrow> archive_request oo \<Rightarrow> exn + archive_request oo" where
  "ar_setRequester requester ob = rbind (checkPayloadWritable ob) (\<lambda>_.
     Inr (ob\<lparr>oo_payload := (oo_payload ob)\<lparr>ar_requester := requester\<rparr>\<rparr>))"

definition ar_getRequester :: "archive_request oo \<Rightarrow> exn + requester_identity" where
  "ar_getRequester ob = rbind (checkPayloadReadable ob) (\<lambda>_. Inr (ar_requester (oo_payload ob)))"

definition ar_setSrcURL :: "string \<Rightarrow> archive_request oo \<Rightarrow> exn + archive_request oo" where
  "ar_setSrcURL srcURL ob = rbind (checkPayloadWritable ob) (\<lambda>_.
     Inr (ob\<lparr>oo_payload := (oo_payload ob)\<lparr>ar_srcurl := srcURL\<rparr>\<rparr>))"

definition ar_getSrcURL :: "archive_request oo \<Rightarrow> exn + string" where
  "ar_getSrcURL ob = rbind (checkPayloadReadable ob) (\<lambda>_. Inr (ar_srcurl (oo_payload ob)))"

definition ar_setFailed :: "archive_request oo \<Rightarrow> exn + archive_request oo" where
  "ar_setFailed ob = rbind (checkPayloadWritable ob) (\<lambda>_.
     Inr (ob\<lparr>oo_payload := (oo_payload ob)\<lparr>ar_isfailed := True\<rparr>\<rparr>))"

definition ar_isFailed :: "archive_request oo \<Rightarrow> exn + bool" where
  "ar_isFailed ob = rbind (checkPayloadReadable ob) (\<lambda>_. Inr (ar_isfailed (oo_payload ob)))"

definition ar_setEntryLog :: "entry_log \<Rightarrow> archive_request oo \<Rightarrow> exn + archive_request oo" where
  "ar_setEntryLog creationLog ob = rbind (checkPayloadWritable ob) (\<lambda>_.
     Inr (ob\<lparr>oo_payload := (oo_payload ob)\<lparr>ar_creationlog := creationLog\<rparr>\<rparr>))"

definition ar_getEntryLog :: "archive_request oo \<Rightarrow> exn + entry_log" where
  "ar_getEntryLog ob = rbind (checkPayloadReadable ob) (\<lambda>_. Inr (ar_creationlog (oo_payload ob)))"

definition ar_dumpJobs :: "archive_request oo \<Rightarrow> exn + archive_request_job_dump list" where
  "ar_dumpJobs ob = rbind (checkPayloadReadable ob) (\<lambda>_.
     Inr (map (\<lambda>j. \<lparr>arjd_copyNb = aj_copynb j, arjd_tapePool = aj_tapepool j, arjd_owner = aj_owner j,
                    arjd_status = aj_status j\<rparr>)
            (ar_jobs (oo_payload ob))))"

text \<open>The loops over the jobs that change the first job with the copy number.\<close>

definition ar_update_job :: "u32 \<Rightarrow> exn \<Rightarrow> (archive_job \<Rightarrow> archive_job) \<Rightarrow> archive_request \<Rightarrow> exn + archive_request" where
  "ar_update_job copyNumber notFound f p =
     (let i = find_index (\<lambda>j. aj_copynb j = copyNumber) (ar_jobs p)
      in if i = length (ar_jobs p) then Inl notFound
         else Inr (p\<lparr>ar_jobs := (ar_jobs p)[i := f (ar_jobs p ! i)]\<rparr>))"

definition ar_setJobOwner :: "u32 \<Rightarrow> string \<Rightarrow> archive_request oo \<Rightarrow> exn + archive_request oo" where
  "ar_setJobOwner copyNumber owner ob = rbind (checkPayloadWritable ob) (\<lambda>_.
     rbind (ar_update_job copyNumber NoSuchJob (\<lambda>j. j\<lparr>aj_owner := owner\<rparr>) (oo_payload ob)) (\<lambda>p.
     Inr (ob\<lparr>oo_payload := p\<rparr>)))"

definition ar_setJobStatus :: "u32 \<Rightarrow> ArchiveJobStatus \<Rightarrow> archive_request oo \<Rightarrow> exn + archive_request oo" where
  "ar_setJobStatus copyNumber status ob = rbind (checkPayloadWritable ob) (\<lambda>_.
     rbind (ar_update_job copyNumber (CtaException ''ArchiveRequest::setJobStatus'') (\<lambda>j. j\<lparr>aj_status := status\<rparr>)
              (oo_payload ob)) (\<lambda>p.
     Inr (ob\<lparr>oo_payload := p\<rparr>)))"

definition ar_getJobOwner :: "u32 \<Rightarrow> archive_request oo \<Rightarrow> exn + string" where
  "ar_getJobOwner copyNumber ob = rbind (checkPayloadReadable ob) (\<lambda>_.
     case find (\<lambda>j. aj_copynb j = copyNumber) (ar_jobs (oo_payload ob)) of
       None \<Rightarrow> Inl NoSuchJob | Some j \<Rightarrow> Inr (aj_owner j))"

definition ar_getTapePoolForJob :: "u32 \<Rightarrow> archive_request oo \<Rightarrow> exn + string" where
  "ar_getTapePoolForJob copyNumber ob = rbind (checkPayloadReadable ob) (\<lambda>_.
     case find (\<lambda>j. aj_copynb j = copyNumber) (ar_jobs (oo_payload ob)) of
       None \<Rightarrow> Inl (CtaException ''ArchiveRequest::getTapePoolForJob'') | Some j \<Rightarrow> Inr (aj_tapepool j))"

definition ar_getFailures :: "archive_request oo \<Rightarrow> exn + string list" where
  "ar_getFailures ob = rbind (checkPayloadReadable ob) (\<lambda>_. Inr (concat (map aj_failurelogs (ar_jobs (oo_payload ob)))))"

definition ar_getReportFailures :: "archive_request oo \<Rightarrow> exn + string list" where
  "ar_getReportFailures ob =
     rbind (checkPayloadReadable ob) (\<lambda>_. Inr (concat (map aj_reportfailurelogs (ar_jobs (oo_payload ob)))))"

text \<open>The numbers of the enumerators in \<open>cta.proto\<close>.\<close>

definition archive_status_number :: "ArchiveJobStatus \<Rightarrow> nat" where
  "archive_status_number status = (case status of
     AJS_ToTransferForUser \<Rightarrow> 1
   | AJS_ToReportToUserForTransfer \<Rightarrow> 2
   | AJS_Complete \<Rightarrow> 3
   | AJS_ToReportToUserForFailure \<Rightarrow> 997
   | AJS_Failed \<Rightarrow> 998
   | AJS_Abandoned \<Rightarrow> 999
   | AJS_ToTransferForRepack \<Rightarrow> 1001
   | AJS_ToReportToRepackForSuccess \<Rightarrow> 1005
   | AJS_ToReportToRepackForFailure \<Rightarrow> 1006)"

definition ar_statusToString :: "ArchiveJobStatus \<Rightarrow> string" where
  "ar_statusToString status = (case status of
     AJS_ToTransferForUser \<Rightarrow> ''ToTransfer''
   | AJS_ToReportToUserForTransfer \<Rightarrow> ''ToReportForTransfer''
   | AJS_ToReportToUserForFailure \<Rightarrow> ''ToReportForFailure''
   | AJS_ToReportToRepackForFailure \<Rightarrow> ''ToReportToRepackForFailure''
   | AJS_ToReportToRepackForSuccess \<Rightarrow> ''ToReportToRepackForSuccess''
   | AJS_Complete \<Rightarrow> ''Complete''
   | AJS_Failed \<Rightarrow> ''Failed''
   | AJS_Abandoned \<Rightarrow> ''Abandoned''
   | AJS_ToTransferForRepack \<Rightarrow> ''Unknown ('' @ dec_string (archive_status_number status) @ '')'')"

definition ar_eventToString :: "ar_JobEvent \<Rightarrow> string" where
  "ar_eventToString jobEvent = (case jobEvent of ReportFailed \<Rightarrow> ''ReportFailed'' | TransferFailed \<Rightarrow> ''EventFailed'')"

definition ar_c_statusesImplyingQueueing :: "ArchiveJobStatus set" where
  "ar_c_statusesImplyingQueueing = {AJS_ToTransferForUser, AJS_ToReportToUserForTransfer, AJS_ToReportToUserForFailure,
     AJS_Failed, AJS_ToTransferForRepack, AJS_ToReportToRepackForFailure, AJS_ToReportToRepackForSuccess}"

section \<open>Asynchronous updates\<close>

text \<open>
  The updates run on the stored object, under its lock, as callbacks of the backend. The callback is
  given the object header and returns the new one; what it leaves in the updater for its caller is the
  second component. The timings are left out.
\<close>

record ar_JobOwnerUpdater =
  ajou_archiveFile :: archive_file
  ajou_srcURL :: string
  ajou_archiveReportURL :: string
  ajou_archiveErrorReportURL :: string
  ajou_repackInfo :: ar_RepackInfo
  ajou_jobsStatusMap :: "(u32, ArchiveJobStatus) std_map"
  ajou_latestError :: string

definition ar_parse :: "string \<Rightarrow> object_header \<Rightarrow> exn + archive_request" where
  "ar_parse caller oh = (case dec archive_request_codec (oh_payload oh) of
     None \<Rightarrow> Inl (CtaException caller) | Some p \<Rightarrow> Inr p)"

definition ar_reserialize :: "archive_request \<Rightarrow> object_header \<Rightarrow> object_header" where
  "ar_reserialize p oh = oh\<lparr>oh_payload := enc archive_request_codec p\<rparr>"

text \<open>The change of the job.\<close>

definition ar_change_owner ::
  "string \<Rightarrow> string \<Rightarrow> ArchiveJobStatus option \<Rightarrow> archive_job \<Rightarrow> exn + archive_job" where
  "ar_change_owner owner previousOwner newStatus j =
     rbind (if aj_owner j \<noteq> owner
            then if aj_owner j \<noteq> previousOwner then Inl WrongPreviousOwner else Inr (j\<lparr>aj_owner := owner\<rparr>)
            else Inr j) (\<lambda>j1.
     Inr (case newStatus of None \<Rightarrow> j1 | Some st \<Rightarrow> j1\<lparr>aj_status := st\<rparr>))"

definition ar_owner_report :: "archive_request \<Rightarrow> archive_job \<Rightarrow> ar_JobOwnerUpdater" where
  "ar_owner_report p j =
     \<lparr>ajou_archiveFile = ar_archive_file p, ajou_srcURL = ar_srcurl p, ajou_archiveReportURL = ar_archivereporturl p,
      ajou_archiveErrorReportURL = ar_archiveerrorreporturl p,
      ajou_repackInfo = \<lparr>ari_isRepack = ar_isrepack p, ari_fSeq = arri_fseq (ar_repack_info p),
        ari_repackRequestAddress = arri_repack_request_address (ar_repack_info p),
        ari_fileBufferURL = arri_file_buffer_url (ar_repack_info p),
        ari_jobsDestination = smap_fill (arri_jobs_destination (ar_repack_info p)) []\<rparr>,
      ajou_jobsStatusMap = smap_fill (map (\<lambda>j2. (aj_copynb j2, aj_status j2)) (ar_jobs p)) [],
      ajou_latestError = (if aj_failurelogs j \<noteq> [] then last (aj_failurelogs j) else '''')\<rparr>"

definition ar_update_owner ::
  "u32 \<Rightarrow> string \<Rightarrow> string \<Rightarrow> ArchiveJobStatus option \<Rightarrow> object_header \<Rightarrow> exn + object_header \<times> ar_JobOwnerUpdater" where
  "ar_update_owner copyNumber owner previousOwner newStatus oh =
     rbind (ar_parse ''ArchiveRequest::asyncUpdateJobOwner'' oh) (\<lambda>p.
     let i = find_index (\<lambda>j. aj_copynb j = copyNumber) (ar_jobs p)
     in if i = length (ar_jobs p) then Inl WrongPreviousOwner
        else rbind (ar_change_owner owner previousOwner newStatus (ar_jobs p ! i)) (\<lambda>j.
             let p1 = p\<lparr>ar_jobs := (ar_jobs p)[i := j]\<rparr>
             in Inr (ar_reserialize p1 oh, ar_owner_report p1 j)))"

definition ar_asyncUpdateJobOwner ::
  "u32 \<Rightarrow> string \<Rightarrow> string \<Rightarrow> ArchiveJobStatus option \<Rightarrow> archive_request oo \<Rightarrow> (world, ar_JobOwnerUpdater option) prog" where
  "ar_asyncUpdateJobOwner copyNumber owner previousOwner newStatus ob =
     bnd (liftr (getAddressIfSet ob)) (\<lambda>a. vfs_asyncUpdate a (ar_update_owner copyNumber owner previousOwner newStatus))"

text \<open>
  \<open>asyncUpdateTransferSuccessful\<close>. The member \<open>m_doReportTransferSuccess\<close> has no initial value: it is
  \<open>None\<close> where the callback does not write it. The callback reads \<open>reportdecided\<close> from the payload of the
  in-memory image, which is the argument \<open>reportdecided\<close>, not from the one it just fetched.
\<close>

record ar_TransferSuccessfulUpdater =
  atsu_doReportTransferSuccess :: "bool option"
  atsu_repackInfo :: ar_RepackInfo

definition ar_user_success :: "bool \<Rightarrow> u32 \<Rightarrow> archive_request \<Rightarrow> exn + archive_request \<times> bool" where
  "ar_user_success reportdecided copyNumber p =
     (let otherJobsToTransfer = (\<exists>j \<in> set (ar_jobs p). aj_copynb j \<noteq> copyNumber \<and> aj_status j = AJS_ToTransferForUser);
          silent = (otherJobsToTransfer \<or> reportdecided)
      in rbind (ar_update_job copyNumber (CtaException ''ArchiveRequest::asyncUpdateJobSuccessful'')
                  (\<lambda>j. if silent then j\<lparr>aj_status := AJS_Complete, aj_owner := ''''\<rparr>
                       else j\<lparr>aj_status := AJS_ToReportToUserForTransfer\<rparr>) p) (\<lambda>p1.
         Inr (p1, \<not> silent)))"

definition ar_repack_success :: "string \<Rightarrow> u32 \<Rightarrow> archive_request \<Rightarrow> exn + archive_request \<times> ar_RepackInfo" where
  "ar_repack_success destinationVid copyNumber p =
     rbind (ar_update_job copyNumber (CtaException ''ArchiveRequest::asyncUpdateJobSuccessful'')
              (\<lambda>j. j\<lparr>aj_status := AJS_ToReportToRepackForSuccess\<rparr>) p) (\<lambda>p1.
     let ri = ar_RepackInfo_deserialize (ar_repack_info p) ar_RepackInfo_init;
         ri1 = ri\<lparr>ari_jobsDestination := smap_put copyNumber destinationVid (ari_jobsDestination ri)\<rparr>
     in rbind (ar_RepackInfo_serialize ri1 (ar_repack_info p)) (\<lambda>arri.
        Inr (p1\<lparr>ar_repack_info := arri\<rparr>, ri1)))"

definition ar_update_success ::
  "bool \<Rightarrow> string \<Rightarrow> u32 \<Rightarrow> object_header \<Rightarrow> exn + object_header \<times> ar_TransferSuccessfulUpdater" where
  "ar_update_success reportdecided destinationVid copyNumber oh =
     rbind (ar_parse ''ArchiveRequest::asyncUpdateJobSuccessful'' oh) (\<lambda>p.
     if \<not> ar_isrepack p
     then rbind (ar_user_success reportdecided copyNumber p) (\<lambda>(p1, doReport).
          Inr (ar_reserialize p1 oh,
               \<lparr>atsu_doReportTransferSuccess = Some doReport, atsu_repackInfo = ar_RepackInfo_init\<rparr>))
     else rbind (ar_repack_success destinationVid copyNumber p) (\<lambda>(p1, ri).
          Inr (ar_reserialize p1 oh, \<lparr>atsu_doReportTransferSuccess = None, atsu_repackInfo = ri\<rparr>)))"

definition ar_asyncUpdateTransferSuccessful ::
  "string \<Rightarrow> u32 \<Rightarrow> archive_request oo \<Rightarrow> (world, ar_TransferSuccessfulUpdater option) prog" where
  "ar_asyncUpdateTransferSuccessful destinationVid copyNumber ob =
     bnd (liftr (getAddressIfSet ob)) (\<lambda>a.
     vfs_asyncUpdate a (ar_update_success (ar_reportdecided (oo_payload ob)) destinationVid copyNumber))"

definition ar_asyncDeleteRequest :: "archive_request oo \<Rightarrow> (world, unit) prog" where
  "ar_asyncDeleteRequest ob = bnd (liftr (getAddressIfSet ob)) vfs_asyncDelete"

end
