(* ===== verification/RetrieveRequest.thy ===== *)
theory RetrieveRequest
  imports ArchiveRequest
begin

text \<open>
  \<open>objectstore/RetrieveRequest.cpp\<close> and \<open>.hpp\<close>: a request to retrieve a file, with one job per tape copy.
  Unlike an archive request it has a single owner, the one of its object header. The queue a request
  belongs to, what becomes of a job after a failure or a success, the owner update, and the
  transformation of a finished repack retrieve request into the archive request of the second half of
  the repack. The clock, the host name and the value of an uninitialised member are arguments
  (\<open>now\<close>, \<open>hostname\<close>, \<open>fSeq0\<close>); what is only logged is left out.
\<close>

section \<open>Data\<close>

datatype rr_NextStep =
    RR_Nothing
  | RR_EnqueueForTransferForUser
  | RR_EnqueueForReportForUser
  | RR_EnqueueForReportForRepack
  | RR_StoreInFailedJobsContainer
  | RR_Delete

record rr_enqueueing_next_step =
  rns_nextStep :: rr_NextStep
  rns_nextStatus :: RetrieveJobStatus

record rr_RepackInfo =
  rri_isRepack :: bool
  rri_forceDisabledTape :: bool
  rri_archiveRouteMap :: "(u32, string) std_map"
  rri_copyNbsToRearchive :: "u32 list"
  rri_repackRequestAddress :: string
  rri_fSeq :: u64
  rri_fileBufferURL :: string
  rri_hasUserProvidedFile :: bool

definition rr_RepackInfo_init :: "u64 \<Rightarrow> rr_RepackInfo" where
  "rr_RepackInfo_init fSeq0 = \<lparr>rri_isRepack = False, rri_forceDisabledTape = False, rri_archiveRouteMap = [],
     rri_copyNbsToRearchive = [], rri_repackRequestAddress = '''', rri_fSeq = fSeq0, rri_fileBufferURL = '''',
     rri_hasUserProvidedFile = False\<rparr>"

text \<open>\<open>common/dataStructures/RetrieveRequest.hpp\<close>\<close>

record ds_retrieve_request =
  dsr_requester :: requester_identity
  dsr_archiveFileID :: u64
  dsr_dstURL :: string
  dsr_errorReportURL :: string
  dsr_diskFileInfo :: disk_file_info
  dsr_creationLog :: entry_log
  dsr_isVerifyOnly :: bool
  dsr_vid :: "string option"
  dsr_mountPolicy :: "string option"
  dsr_lifecycleTimings :: lifecycle_timings
  dsr_activity :: "string option"

record retrieve_file_queue_criteria =
  rfqc_archiveFile :: archive_file
  rfqc_mountPolicy :: mount_policy

text \<open>
  \<open>ArchiveFileSerDeser\<close> and \<open>TapeFileSerDeser\<close>. In memory the copy number of a tape file is a byte:
  reading narrows it. Writing appends the tape files to those the message holds.
\<close>

definition tapefile_deserialize :: "tape_file \<Rightarrow> tape_file" where
  "tapefile_deserialize ostf = ostf\<lparr>tf_copynb := ucast (ucast (tf_copynb ostf) :: 8 word)\<rparr>"

definition archivefile_deserialize :: "archive_file \<Rightarrow> archive_file" where
  "archivefile_deserialize osaf = osaf\<lparr>af_tapefiles := map tapefile_deserialize (af_tapefiles osaf)\<rparr>"

definition archivefile_serialize :: "archive_file \<Rightarrow> archive_file \<Rightarrow> archive_file" where
  "archivefile_serialize af osaf = af\<lparr>af_tapefiles := af_tapefiles osaf @ af_tapefiles af\<rparr>"

section \<open>The request and its jobs\<close>

definition rr_initialize :: "retrieve_request oo \<Rightarrow> exn + retrieve_request oo" where
  "rr_initialize ob = rbind (oo_initialize ob) (\<lambda>ob1.
     Inr (ob1\<lparr>oo_payload := (oo_payload ob1)\<lparr>rr_failurereportlog := '''', rr_failurereporturl := '''', rr_isrepack := False,
               rr_isverifyonly := False\<rparr>,
             oo_payloadInterpreted := True\<rparr>))"

definition rr_new_job :: "u32 \<Rightarrow> 16 word \<Rightarrow> 16 word \<Rightarrow> 16 word \<Rightarrow> retrieve_job" where
  "rr_new_job copyNb maxRetriesWithinMount maxTotalRetries maxReportRetries =
     \<lparr>rj_copynb = copyNb, rj_maxtotalretries = ucast maxTotalRetries,
      rj_maxretrieswithinmount = ucast maxRetriesWithinMount, rj_retrieswithinmount = 0, rj_totalretries = 0,
      rj_status = RJS_ToTransfer, rj_lastmountwithfailure = 0, rj_failurelogs = [],
      rj_maxreportretries = ucast maxReportRetries, rj_totalreportretries = 0, rj_reportfailurelogs = []\<rparr>"

definition rr_addJob ::
  "u32 \<Rightarrow> 16 word \<Rightarrow> 16 word \<Rightarrow> 16 word \<Rightarrow> retrieve_request oo \<Rightarrow> exn + retrieve_request oo" where
  "rr_addJob copyNb maxRetriesWithinMount maxTotalRetries maxReportRetries ob = rbind (checkPayloadWritable ob) (\<lambda>_.
     Inr (ob\<lparr>oo_payload := (oo_payload ob)\<lparr>rr_jobs := rr_jobs (oo_payload ob) @
       [rr_new_job copyNb maxRetriesWithinMount maxTotalRetries maxReportRetries]\<rparr>\<rparr>))"

text \<open>\<open>determineNextStep\<close> changes nothing in a retrieve request.\<close>

definition rr_determineNextStep ::
  "u32 \<Rightarrow> ar_JobEvent \<Rightarrow> retrieve_request oo \<Rightarrow> exn + rr_enqueueing_next_step" where
  "rr_determineNextStep copyNumberUpdated jobEvent ob = rbind (checkPayloadWritable ob) (\<lambda>_.
     if \<not> (\<exists>j \<in> set (rr_jobs (oo_payload ob)). rj_copynb j = copyNumberUpdated)
     then Inl (CtaException ''RetrieveRequest::updateJobStatus'')
     else Inr (case jobEvent of
       TransferFailed \<Rightarrow>
         if rr_isrepack (oo_payload ob)
         then \<lparr>rns_nextStep = RR_EnqueueForReportForRepack, rns_nextStatus = RJS_ToReportToRepackForFailure\<rparr>
         else \<lparr>rns_nextStep = RR_EnqueueForReportForUser, rns_nextStatus = RJS_ToReportToUserForFailure\<rparr>
     | ReportFailed \<Rightarrow> \<lparr>rns_nextStep = RR_StoreInFailedJobsContainer, rns_nextStatus = RJS_Failed\<rparr>))"

definition rr_count_failure :: "u64 \<Rightarrow> string \<Rightarrow> retrieve_job \<Rightarrow> retrieve_job" where
  "rr_count_failure mountId failureReason j =
     (let j1 = (if rj_lastmountwithfailure j = mountId
                then j\<lparr>rj_retrieswithinmount := rj_retrieswithinmount j + 1\<rparr>
                else j\<lparr>rj_retrieswithinmount := 1, rj_lastmountwithfailure := mountId\<rparr>)
      in j1\<lparr>rj_totalretries := rj_totalretries j1 + 1, rj_failurelogs := rj_failurelogs j1 @ [failureReason]\<rparr>)"

text \<open>
  The three loops that record a failure return in their first iteration, whether or not the copy number
  is the one of the first job.
\<close>

definition rr_addTransferFailure ::
  "u32 \<Rightarrow> u64 \<Rightarrow> string \<Rightarrow> retrieve_request oo \<Rightarrow> exn + rr_enqueueing_next_step \<times> retrieve_request oo" where
  "rr_addTransferFailure copyNumber mountId failureReason ob = rbind (checkPayloadWritable ob) (\<lambda>_.
     case rr_jobs (oo_payload ob) of
       [] \<Rightarrow> Inl NoSuchJob
     | j # js \<Rightarrow>
         let j1 = (if rj_copynb j = copyNumber then rr_count_failure mountId failureReason j else j);
             ob1 = ob\<lparr>oo_payload := (oo_payload ob)\<lparr>rr_jobs := j1 # js\<rparr>\<rparr>
         in if rr_isverifyonly (oo_payload ob)
            then rbind (rr_determineNextStep copyNumber TransferFailed ob1) (\<lambda>r. Inr (r, ob1))
            else if rj_totalretries j1 < rj_maxtotalretries j1
            then Inr (\<lparr>rns_nextStep = (if rj_retrieswithinmount j1 < rj_maxretrieswithinmount j1
                                      then RR_EnqueueForTransferForUser else RR_Nothing),
                       rns_nextStatus = RJS_ToTransfer\<rparr>, ob1)
            else rbind (rr_determineNextStep copyNumber TransferFailed ob1) (\<lambda>r. Inr (r, ob1)))"

definition rr_addReportFailure ::
  "u32 \<Rightarrow> u64 \<Rightarrow> string \<Rightarrow> retrieve_request oo \<Rightarrow> exn + rr_enqueueing_next_step \<times> retrieve_request oo" where
  "rr_addReportFailure copyNumber sessionId failureReason ob = rbind (checkPayloadWritable ob) (\<lambda>_.
     case rr_jobs (oo_payload ob) of
       [] \<Rightarrow> Inl NoSuchJob
     | j # js \<Rightarrow>
         let j1 = (if rj_copynb j = copyNumber
                   then j\<lparr>rj_totalreportretries := rj_totalreportretries j + 1,
                          rj_reportfailurelogs := rj_reportfailurelogs j @ [failureReason]\<rparr> else j);
             ob1 = ob\<lparr>oo_payload := (oo_payload ob)\<lparr>rr_jobs := j1 # js\<rparr>\<rparr>
         in Inr (if rj_totalreportretries j1 \<ge> rj_maxreportretries j1
                 then \<lparr>rns_nextStep = RR_StoreInFailedJobsContainer, rns_nextStatus = RJS_Failed\<rparr>
                 else \<lparr>rns_nextStep = RR_EnqueueForReportForUser, rns_nextStatus = rj_status j1\<rparr>, ob1))"

definition rr_addJobFailure ::
  "u32 \<Rightarrow> u64 \<Rightarrow> string \<Rightarrow> retrieve_request oo \<Rightarrow> exn + bool \<times> retrieve_request oo" where
  "rr_addJobFailure copyNumber mountId failureReason ob = rbind (checkPayloadWritable ob) (\<lambda>_.
     case rr_jobs (oo_payload ob) of
       [] \<Rightarrow> Inl NoSuchJob
     | j # js \<Rightarrow>
         let j1 = (if rj_copynb j = copyNumber then rr_count_failure mountId failureReason j else j)
         in if rj_totalretries j1 \<ge> rj_maxtotalretries j1
            then let jobs = j1\<lparr>rj_status := RJS_ToReportToUserForFailure\<rparr> # js
                 in Inr (\<not> (\<exists>j2 \<in> set jobs. rj_status j2 = RJS_ToTransfer),
                         ob\<lparr>oo_payload := (oo_payload ob)\<lparr>rr_jobs := jobs\<rparr>\<rparr>)
            else Inr (False, ob\<lparr>oo_payload := (oo_payload ob)\<lparr>rr_jobs := j1\<lparr>rj_status := RJS_ToTransfer\<rparr> # js\<rparr>\<rparr>))"

section \<open>Repack information\<close>

definition rr_RepackInfo_deserialize :: "retrieve_request_repack_info \<Rightarrow> rr_RepackInfo \<Rightarrow> rr_RepackInfo" where
  "rr_RepackInfo_deserialize rrri ri =
     ri\<lparr>rri_isRepack := True, rri_archiveRouteMap := smap_fill (rrri_archive_routes rrri) (rri_archiveRouteMap ri),
        rri_copyNbsToRearchive := fold insort_insert (rrri_copy_nbs_to_rearchive rrri) (rri_copyNbsToRearchive ri),
        rri_fileBufferURL := rrri_file_buffer_url rrri, rri_repackRequestAddress := rrri_repack_request_address rrri,
        rri_fSeq := rrri_fseq rrri, rri_forceDisabledTape := rrri_force_disabled_tape rrri,
        rri_hasUserProvidedFile := (case rrri_has_user_provided_file rrri of Some b \<Rightarrow> b | None \<Rightarrow> rri_hasUserProvidedFile ri)\<rparr>"

definition rr_RepackInfo_serialize :: "rr_RepackInfo \<Rightarrow> retrieve_request_repack_info \<Rightarrow> exn + retrieve_request_repack_info" where
  "rr_RepackInfo_serialize ri rrri =
     (if \<not> rri_isRepack ri then Inl (CtaException ''RetrieveRequest::RepackInfoSerDeser::serialize'')
      else Inr (rrri\<lparr>rrri_archive_routes := rrri_archive_routes rrri @ rri_archiveRouteMap ri,
                     rrri_copy_nbs_to_rearchive := rrri_copy_nbs_to_rearchive rrri @ rri_copyNbsToRearchive ri,
                     rrri_file_buffer_url := rri_fileBufferURL ri,
                     rrri_repack_request_address := rri_repackRequestAddress ri, rrri_fseq := rri_fSeq ri,
                     rrri_force_disabled_tape := rri_forceDisabledTape ri,
                     rrri_has_user_provided_file := map_option (\<lambda>_. rri_hasUserProvidedFile ri) (rrri_has_user_provided_file rrri)\<rparr>))"

definition rr_write_repack_info :: "rr_RepackInfo \<Rightarrow> retrieve_request_repack_info \<Rightarrow> retrieve_request_repack_info" where
  "rr_write_repack_info repackInfo rrri =
     rrri\<lparr>rrri_archive_routes := rrri_archive_routes rrri @ rri_archiveRouteMap repackInfo,
          rrri_copy_nbs_to_rearchive := rrri_copy_nbs_to_rearchive rrri @ rri_copyNbsToRearchive repackInfo,
          rrri_has_user_provided_file := Some (rri_hasUserProvidedFile repackInfo),
          rrri_force_disabled_tape := rri_forceDisabledTape repackInfo,
          rrri_file_buffer_url := rri_fileBufferURL repackInfo,
          rrri_repack_request_address := rri_repackRequestAddress repackInfo, rrri_fseq := rri_fSeq repackInfo\<rparr>"

definition rr_setRepackInfo :: "rr_RepackInfo \<Rightarrow> retrieve_request oo \<Rightarrow> exn + retrieve_request oo" where
  "rr_setRepackInfo repackInfo ob = rbind (checkPayloadWritable ob) (\<lambda>_.
     let p = (oo_payload ob)\<lparr>rr_isrepack := rri_isRepack repackInfo\<rparr>
     in Inr (ob\<lparr>oo_payload := (if rri_isRepack repackInfo
                              then p\<lparr>rr_repack_info := rr_write_repack_info repackInfo (rr_repack_info p)\<rparr> else p)\<rparr>))"

definition rr_getRepackInfo :: "u64 \<Rightarrow> retrieve_request oo \<Rightarrow> exn + rr_RepackInfo" where
  "rr_getRepackInfo fSeq0 ob = rbind (checkPayloadReadable ob) (\<lambda>_.
     Inr (if rr_isrepack (oo_payload ob)
          then rr_RepackInfo_deserialize (rr_repack_info (oo_payload ob)) (rr_RepackInfo_init fSeq0)
          else rr_RepackInfo_init fSeq0))"

definition rr_addReportAbort ::
  "u32 \<Rightarrow> u64 \<Rightarrow> string \<Rightarrow> retrieve_request oo \<Rightarrow> exn + rr_enqueueing_next_step \<times> retrieve_request oo" where
  "rr_addReportAbort copyNumber mountId abortReason ob = rbind (checkPayloadWritable ob) (\<lambda>_.
     let ob1 = ob\<lparr>oo_payload := (oo_payload ob)\<lparr>rr_jobs :=
                 map (\<lambda>j. if rj_copynb j = copyNumber then rr_count_failure mountId abortReason j else j)
                   (rr_jobs (oo_payload ob))\<rparr>\<rparr>
     in rbind (rr_getRepackInfo 0 ob1) (\<lambda>ri.
        Inr (if rri_isRepack ri
             then \<lparr>rns_nextStep = RR_EnqueueForReportForRepack, rns_nextStatus = RJS_ToReportToRepackForFailure\<rparr>
             else \<lparr>rns_nextStep = RR_StoreInFailedJobsContainer, rns_nextStatus = RJS_Failed\<rparr>, ob1)))"

section \<open>Accessors\<close>

definition rr_getLastActiveVid :: "retrieve_request oo \<Rightarrow> exn + string" where
  "rr_getLastActiveVid ob = rbind (checkPayloadReadable ob) (\<lambda>_.
     let tapefiles = af_tapefiles (rr_archivefile (oo_payload ob))
     in case find (\<lambda>tf. tf_copynb tf = rr_activecopynb (oo_payload ob)) tapefiles of
          Some tf \<Rightarrow> Inr (tf_vid tf)
        | None \<Rightarrow> (case tapefiles of [] \<Rightarrow> Inl Segfault | tf # _ \<Rightarrow> Inr (tf_vid tf)))"

definition rr_setSchedulerRequest :: "ds_retrieve_request \<Rightarrow> retrieve_request oo \<Rightarrow> exn + retrieve_request oo" where
  "rr_setSchedulerRequest retrieveRequest ob = rbind (checkPayloadWritable ob) (\<lambda>_.
     Inr (ob\<lparr>oo_payload := (oo_payload ob)\<lparr>rr_schedulerrequest :=
       \<lparr>srr_requester = dsr_requester retrieveRequest, srr_archivefileid = dsr_archiveFileID retrieveRequest,
        srr_dsturl = dsr_dstURL retrieveRequest, srr_diskfileinfo = dsr_diskFileInfo retrieveRequest,
        srr_entrylog = dsr_creationLog retrieveRequest, srr_retrieveerrorreporturl = dsr_errorReportURL retrieveRequest,
        srr_isverifyonly = dsr_isVerifyOnly retrieveRequest\<rparr>\<rparr>\<rparr>))"

definition rr_getSchedulerRequest :: "retrieve_request oo \<Rightarrow> exn + ds_retrieve_request" where
  "rr_getSchedulerRequest ob = rbind (checkPayloadReadable ob) (\<lambda>_.
     let sr = rr_schedulerrequest (oo_payload ob)
     in Inr \<lparr>dsr_requester = srr_requester sr, dsr_archiveFileID = srr_archivefileid sr, dsr_dstURL = srr_dsturl sr,
             dsr_errorReportURL = srr_retrieveerrorreporturl sr, dsr_diskFileInfo = srr_diskfileinfo sr,
             dsr_creationLog = srr_entrylog sr, dsr_isVerifyOnly = srr_isverifyonly sr, dsr_vid = None,
             dsr_mountPolicy = None,
             dsr_lifecycleTimings = \<lparr>lt_creation_time = 0, lt_first_selected_time = 0, lt_completed_time = 0\<rparr>,
             dsr_activity = None\<rparr>)"

definition rr_getArchiveFile :: "retrieve_request oo \<Rightarrow> archive_file" where
  "rr_getArchiveFile ob = archivefile_deserialize (rr_archivefile (oo_payload ob))"

definition rr_criteria_job :: "mount_policy \<Rightarrow> retrieve_request oo \<Rightarrow> tape_file \<Rightarrow> exn + retrieve_request oo" where
  "rr_criteria_job mountPolicy ob tf =
     rr_addJob (tf_copynb tf) 3 6 2
       (ob\<lparr>oo_payload := (oo_payload ob)\<lparr>rr_mountpolicy := mountPolicy, rr_mountpolicyname := mp_name mountPolicy\<rparr>\<rparr>)"

definition rr_setRetrieveFileQueueCriteria ::
  "retrieve_file_queue_criteria \<Rightarrow> retrieve_request oo \<Rightarrow> exn + retrieve_request oo" where
  "rr_setRetrieveFileQueueCriteria criteria ob = rbind (checkPayloadWritable ob) (\<lambda>_.
     foldR (rr_criteria_job (rfqc_mountPolicy criteria))
       (ob\<lparr>oo_payload := (oo_payload ob)\<lparr>rr_archivefile :=
          archivefile_serialize (rfqc_archiveFile criteria) (rr_archivefile (oo_payload ob))\<rparr>\<rparr>)
       (af_tapefiles (rfqc_archiveFile criteria)))"

definition rr_getRetrieveFileQueueCriteria :: "retrieve_request oo \<Rightarrow> exn + retrieve_file_queue_criteria" where
  "rr_getRetrieveFileQueueCriteria ob = rbind (checkPayloadReadable ob) (\<lambda>_.
     Inr \<lparr>rfqc_archiveFile = archivefile_deserialize (rr_archivefile (oo_payload ob)),
          rfqc_mountPolicy = rr_mountpolicy (oo_payload ob)\<rparr>)"

definition rr_setActivityIfNeeded ::
  "ds_retrieve_request \<Rightarrow> retrieve_file_queue_criteria \<Rightarrow> retrieve_request oo \<Rightarrow> exn + retrieve_request oo" where
  "rr_setActivityIfNeeded retrieveRequest criteria ob = rbind (checkPayloadWritable ob) (\<lambda>_.
     Inr (case dsr_activity retrieveRequest of
       Some a \<Rightarrow> ob\<lparr>oo_payload := (oo_payload ob)\<lparr>rr_activity := Some a\<rparr>\<rparr>
     | None \<Rightarrow> ob))"

definition rr_getActivity :: "retrieve_request oo \<Rightarrow> exn + string option" where
  "rr_getActivity ob = rbind (checkPayloadReadable ob) (\<lambda>_. Inr (rr_activity (oo_payload ob)))"

definition rr_setDiskSystemName :: "string \<Rightarrow> retrieve_request oo \<Rightarrow> exn + retrieve_request oo" where
  "rr_setDiskSystemName diskSystemName ob = rbind (checkPayloadWritable ob) (\<lambda>_.
     Inr (ob\<lparr>oo_payload := (oo_payload ob)\<lparr>rr_disk_system_name := Some diskSystemName\<rparr>\<rparr>))"

definition rr_getDiskSystemName :: "retrieve_request oo \<Rightarrow> exn + string option" where
  "rr_getDiskSystemName ob = rbind (checkPayloadReadable ob) (\<lambda>_. Inr (rr_disk_system_name (oo_payload ob)))"

record rr_JobDump =
  rjd_copyNb :: u32
  rjd_status :: RetrieveJobStatus

definition rr_job_dump :: "retrieve_job \<Rightarrow> rr_JobDump" where
  "rr_job_dump j = \<lparr>rjd_copyNb = rj_copynb j, rjd_status = rj_status j\<rparr>"

definition rr_dumpJobs :: "retrieve_request oo \<Rightarrow> exn + rr_JobDump list" where
  "rr_dumpJobs ob = rbind (checkPayloadReadable ob) (\<lambda>_. Inr (map rr_job_dump (rr_jobs (oo_payload ob))))"

definition rr_getJob :: "u32 \<Rightarrow> retrieve_request oo \<Rightarrow> exn + rr_JobDump" where
  "rr_getJob copyNb ob = rbind (checkPayloadReadable ob) (\<lambda>_.
     case find (\<lambda>j. rj_copynb j = copyNb) (rr_jobs (oo_payload ob)) of
       None \<Rightarrow> Inl NoSuchJob | Some j \<Rightarrow> Inr (rr_job_dump j))"

definition rr_getJobs :: "retrieve_request oo \<Rightarrow> exn + rr_JobDump list" where
  "rr_getJobs ob = rbind (checkPayloadReadable ob) (\<lambda>_. Inr (map rr_job_dump (rr_jobs (oo_payload ob))))"

record rr_retry_status =
  rrs_retriesWithinMount :: u64
  rrs_maxRetriesWithinMount :: u64
  rrs_totalRetries :: u64
  rrs_maxTotalRetries :: u64
  rrs_totalReportRetries :: u64
  rrs_maxReportRetries :: u64

definition rr_getRetryStatus :: "u32 \<Rightarrow> retrieve_request oo \<Rightarrow> exn + rr_retry_status" where
  "rr_getRetryStatus copyNumber ob = rbind (checkPayloadReadable ob) (\<lambda>_.
     case find (\<lambda>j. copyNumber = rj_copynb j) (rr_jobs (oo_payload ob)) of
       None \<Rightarrow> Inl (CtaException ''RetrieveRequest::getRetryStatus'')
     | Some j \<Rightarrow> Inr \<lparr>rrs_retriesWithinMount = ucast (rj_retrieswithinmount j),
         rrs_maxRetriesWithinMount = ucast (rj_maxretrieswithinmount j), rrs_totalRetries = ucast (rj_totalretries j),
         rrs_maxTotalRetries = ucast (rj_maxtotalretries j), rrs_totalReportRetries = ucast (rj_totalreportretries j),
         rrs_maxReportRetries = ucast (rj_maxreportretries j)\<rparr>)"

text \<open>\<open>getQueueType()\<close> of the request: the loop over the jobs, with \<open>hasToReport\<close>.\<close>

fun rr_queue_type :: "bool \<Rightarrow> retrieve_job list \<Rightarrow> JobQueueType" where
  "rr_queue_type hasToReport [] = (if hasToReport then JobsToReportToUser else FailedJobs)"
| "rr_queue_type hasToReport (j # js) = (case rj_status j of
     RJS_ToTransfer \<Rightarrow> JobsToTransferForUser
   | RJS_ToReportToRepackForSuccess \<Rightarrow> JobsToReportToRepackForSuccess
   | RJS_ToReportToUserForFailure \<Rightarrow> rr_queue_type True js
   | RJS_ToReportToRepackForFailure \<Rightarrow> JobsToReportToRepackForFailure
   | RJS_Failed \<Rightarrow> rr_queue_type hasToReport js)"

definition rr_getQueueType :: "retrieve_request oo \<Rightarrow> exn + JobQueueType" where
  "rr_getQueueType ob = rbind (checkPayloadReadable ob) (\<lambda>_. Inr (rr_queue_type False (rr_jobs (oo_payload ob))))"

definition rr_status_queue :: "RetrieveJobStatus \<Rightarrow> JobQueueType" where
  "rr_status_queue status = (case status of
     RJS_ToTransfer \<Rightarrow> JobsToTransferForUser
   | RJS_ToReportToRepackForSuccess \<Rightarrow> JobsToReportToRepackForSuccess
   | RJS_ToReportToUserForFailure \<Rightarrow> JobsToReportToUser
   | RJS_Failed \<Rightarrow> FailedJobs
   | RJS_ToReportToRepackForFailure \<Rightarrow> JobsToReportToRepackForFailure)"

definition rr_getQueueType_copy :: "u32 \<Rightarrow> retrieve_request oo \<Rightarrow> exn + JobQueueType" where
  "rr_getQueueType_copy copyNb ob = rbind (checkPayloadReadable ob) (\<lambda>_.
     case find (\<lambda>j. rj_copynb j = copyNb) (rr_jobs (oo_payload ob)) of
       None \<Rightarrow> Inl (CtaException ''RetrieveRequest::getJobQueueType'') | Some j \<Rightarrow> Inr (rr_status_queue (rj_status j)))"

definition retrieve_status_number :: "RetrieveJobStatus \<Rightarrow> nat" where
  "retrieve_status_number status = (case status of
     RJS_ToTransfer \<Rightarrow> 1 | RJS_ToReportToUserForFailure \<Rightarrow> 997 | RJS_Failed \<Rightarrow> 998
   | RJS_ToReportToRepackForSuccess \<Rightarrow> 1002 | RJS_ToReportToRepackForFailure \<Rightarrow> 1003)"

definition rr_statusToString :: "RetrieveJobStatus \<Rightarrow> string" where
  "rr_statusToString status = (case status of
     RJS_ToTransfer \<Rightarrow> ''ToTransfer''
   | RJS_Failed \<Rightarrow> ''Failed''
   | _ \<Rightarrow> ''Unknown ('' @ dec_string (retrieve_status_number status) @ '')'')"

definition rr_eventToString :: "ar_JobEvent \<Rightarrow> string" where
  "rr_eventToString jobEvent = (case jobEvent of ReportFailed \<Rightarrow> ''ReportFailed'' | TransferFailed \<Rightarrow> ''EventFailed'')"

definition rr_getJobStatus :: "u32 \<Rightarrow> retrieve_request oo \<Rightarrow> exn + RetrieveJobStatus" where
  "rr_getJobStatus copyNumber ob = rbind (checkPayloadReadable ob) (\<lambda>_.
     case find (\<lambda>j. rj_copynb j = copyNumber) (rr_jobs (oo_payload ob)) of
       None \<Rightarrow> Inl (CtaException ''RetrieveRequest::getJobStatus'') | Some j \<Rightarrow> Inr (rj_status j))"

definition rr_set_status :: "u32 \<Rightarrow> exn \<Rightarrow> RetrieveJobStatus \<Rightarrow> retrieve_request \<Rightarrow> exn + retrieve_request" where
  "rr_set_status copyNumber notFound status p =
     (let i = find_index (\<lambda>j. rj_copynb j = copyNumber) (rr_jobs p)
      in if i = length (rr_jobs p) then Inl notFound
         else Inr (p\<lparr>rr_jobs := (rr_jobs p)[i := (rr_jobs p ! i)\<lparr>rj_status := status\<rparr>]\<rparr>))"

definition rr_setJobStatus :: "u32 \<Rightarrow> RetrieveJobStatus \<Rightarrow> retrieve_request oo \<Rightarrow> exn + retrieve_request oo" where
  "rr_setJobStatus copyNumber status ob = rbind (checkPayloadWritable ob) (\<lambda>_.
     rbind (rr_set_status copyNumber (CtaException ''RetrieveRequest::setJobStatus'') status (oo_payload ob)) (\<lambda>p.
     Inr (ob\<lparr>oo_payload := p\<rparr>)))"

definition rr_getLifecycleTimings :: "retrieve_request oo \<Rightarrow> exn + lifecycle_timings" where
  "rr_getLifecycleTimings ob = rbind (checkPayloadReadable ob) (\<lambda>_. Inr (rr_lifecycle_timings (oo_payload ob)))"

definition rr_set_timings ::
  "(lifecycle_timings \<Rightarrow> lifecycle_timings) \<Rightarrow> retrieve_request oo \<Rightarrow> exn + retrieve_request oo" where
  "rr_set_timings f ob = rbind (checkPayloadWritable ob) (\<lambda>_.
     Inr (ob\<lparr>oo_payload := (oo_payload ob)\<lparr>rr_lifecycle_timings := f (rr_lifecycle_timings (oo_payload ob))\<rparr>\<rparr>))"

definition rr_setCreationTime :: "u64 \<Rightarrow> retrieve_request oo \<Rightarrow> exn + retrieve_request oo" where
  "rr_setCreationTime creationTime = rr_set_timings (\<lambda>lt. lt\<lparr>lt_creation_time := creationTime\<rparr>)"

definition rr_getCreationTime :: "retrieve_request oo \<Rightarrow> exn + u64" where
  "rr_getCreationTime ob =
     rbind (checkPayloadReadable ob) (\<lambda>_. Inr (lt_creation_time (rr_lifecycle_timings (oo_payload ob))))"

definition rr_setFirstSelectedTime :: "u64 \<Rightarrow> retrieve_request oo \<Rightarrow> exn + retrieve_request oo" where
  "rr_setFirstSelectedTime firstSelectedTime = rr_set_timings (\<lambda>lt. lt\<lparr>lt_first_selected_time := firstSelectedTime\<rparr>)"

definition rr_setCompletedTime :: "u64 \<Rightarrow> retrieve_request oo \<Rightarrow> exn + retrieve_request oo" where
  "rr_setCompletedTime completedTime = rr_set_timings (\<lambda>lt. lt\<lparr>lt_completed_time := completedTime\<rparr>)"

definition rr_setActiveCopyNumber :: "u32 \<Rightarrow> retrieve_request oo \<Rightarrow> exn + retrieve_request oo" where
  "rr_setActiveCopyNumber activeCopyNb ob = rbind (checkPayloadWritable ob) (\<lambda>_.
     Inr (ob\<lparr>oo_payload := (oo_payload ob)\<lparr>rr_activecopynb := activeCopyNb\<rparr>\<rparr>))"

definition rr_getActiveCopyNumber :: "retrieve_request oo \<Rightarrow> u32" where
  "rr_getActiveCopyNumber ob = rr_activecopynb (oo_payload ob)"

definition rr_setFailed :: "retrieve_request oo \<Rightarrow> exn + retrieve_request oo" where
  "rr_setFailed ob = rbind (checkPayloadWritable ob) (\<lambda>_.
     Inr (ob\<lparr>oo_payload := (oo_payload ob)\<lparr>rr_isfailed := True\<rparr>\<rparr>))"

definition rr_isFailed :: "retrieve_request oo \<Rightarrow> exn + bool" where
  "rr_isFailed ob = rbind (checkPayloadReadable ob) (\<lambda>_. Inr (rr_isfailed (oo_payload ob)))"

definition rr_setIsVerifyOnly :: "bool \<Rightarrow> retrieve_request oo \<Rightarrow> retrieve_request oo" where
  "rr_setIsVerifyOnly isVerifyOnly ob = ob\<lparr>oo_payload := (oo_payload ob)\<lparr>rr_isverifyonly := isVerifyOnly\<rparr>\<rparr>"

definition rr_getEntryLog :: "retrieve_request oo \<Rightarrow> exn + entry_log" where
  "rr_getEntryLog ob = rbind (checkPayloadReadable ob) (\<lambda>_. Inr (srr_entrylog (rr_schedulerrequest (oo_payload ob))))"

definition rr_getFailures :: "retrieve_request oo \<Rightarrow> exn + string list" where
  "rr_getFailures ob = rbind (checkPayloadReadable ob) (\<lambda>_. Inr (concat (map rj_failurelogs (rr_jobs (oo_payload ob)))))"

definition rr_getReportFailures :: "retrieve_request oo \<Rightarrow> exn + string list" where
  "rr_getReportFailures ob =
     rbind (checkPayloadReadable ob) (\<lambda>_. Inr (concat (map rj_reportfailurelogs (rr_jobs (oo_payload ob)))))"

definition rr_setFailureReason :: "string \<Rightarrow> retrieve_request oo \<Rightarrow> exn + retrieve_request oo" where
  "rr_setFailureReason reason ob = rbind (checkPayloadWritable ob) (\<lambda>_.
     Inr (ob\<lparr>oo_payload := (oo_payload ob)\<lparr>rr_failurereportlog := reason\<rparr>\<rparr>))"

section \<open>Asynchronous updates\<close>

definition rr_parse :: "string \<Rightarrow> object_header \<Rightarrow> exn + retrieve_request" where
  "rr_parse caller oh = (case dec retrieve_request_codec (oh_payload oh) of
     None \<Rightarrow> Inl (CtaException caller) | Some p \<Rightarrow> Inr p)"

definition rr_updateLifecycleTiming :: "u64 \<Rightarrow> retrieve_job \<Rightarrow> retrieve_request \<Rightarrow> retrieve_request" where
  "rr_updateLifecycleTiming now retrieveJob p =
     (case rj_status retrieveJob of
        RJS_ToTransfer \<Rightarrow>
          if rj_totalretries retrieveJob = 0
          then p\<lparr>rr_lifecycle_timings := (rr_lifecycle_timings p)\<lparr>lt_first_selected_time := now\<rparr>\<rparr> else p
      | _ \<Rightarrow> p)"

record rr_JobOwnerUpdater =
  rjou_retrieveRequest :: ds_retrieve_request
  rjou_archiveFile :: archive_file
  rjou_repackInfo :: rr_RepackInfo
  rjou_jobStatus :: RetrieveJobStatus
  rjou_activity :: "string option"
  rjou_diskSystemName :: "string option"

text \<open>What the updater tells its caller; \<open>p\<close> is the payload with its timings updated.\<close>

definition rr_owner_report :: "u64 \<Rightarrow> retrieve_request \<Rightarrow> retrieve_job \<Rightarrow> rr_JobOwnerUpdater" where
  "rr_owner_report fSeq0 p j =
     \<lparr>rjou_retrieveRequest =
        \<lparr>dsr_requester = srr_requester (rr_schedulerrequest p), dsr_archiveFileID = af_archivefileid (rr_archivefile p),
         dsr_dstURL = srr_dsturl (rr_schedulerrequest p),
         dsr_errorReportURL = srr_retrieveerrorreporturl (rr_schedulerrequest p),
         dsr_diskFileInfo = srr_diskfileinfo (rr_schedulerrequest p), dsr_creationLog = srr_entrylog (rr_schedulerrequest p),
         dsr_isVerifyOnly = srr_isverifyonly (rr_schedulerrequest p), dsr_vid = None, dsr_mountPolicy = None,
         dsr_lifecycleTimings = rr_lifecycle_timings p, dsr_activity = None\<rparr>,
      rjou_archiveFile = archivefile_deserialize (rr_archivefile p),
      rjou_repackInfo = (if rr_isrepack p then rr_RepackInfo_deserialize (rr_repack_info p) (rr_RepackInfo_init fSeq0)
                         else rr_RepackInfo_init fSeq0),
      rjou_jobStatus = rj_status j, rjou_activity = rr_activity p, rjou_diskSystemName = rr_disk_system_name p\<rparr>"

definition rr_update_owner ::
  "u64 \<Rightarrow> u64 \<Rightarrow> u32 \<Rightarrow> string \<Rightarrow> string \<Rightarrow> object_header \<Rightarrow> exn + object_header \<times> rr_JobOwnerUpdater" where
  "rr_update_owner now fSeq0 copyNumber owner previousOwner oh =
     rbind (rr_parse ''RetrieveRequest::asyncUpdateJobOwner'' oh) (\<lambda>p.
     if oh_owner oh \<noteq> previousOwner then Inl WrongPreviousOwner
     else case find (\<lambda>j. rj_copynb j = copyNumber) (rr_jobs p) of
            None \<Rightarrow> Inl WrongPreviousOwner
          | Some j \<Rightarrow> let p1 = rr_updateLifecycleTiming now j p
                      in Inr (oh\<lparr>oh_owner := owner, oh_payload := enc retrieve_request_codec p1\<rparr>,
                              rr_owner_report fSeq0 p1 j))"

definition rr_asyncUpdateJobOwner ::
  "u64 \<Rightarrow> u64 \<Rightarrow> u32 \<Rightarrow> string \<Rightarrow> string \<Rightarrow> retrieve_request oo \<Rightarrow> (world, rr_JobOwnerUpdater option) prog" where
  "rr_asyncUpdateJobOwner now fSeq0 copyNumber owner previousOwner ob =
     bnd (liftr (getAddressIfSet ob)) (\<lambda>a.
     vfs_asyncUpdate a (rr_update_owner now fSeq0 copyNumber owner previousOwner))"

definition rr_asyncDeleteJob :: "retrieve_request oo \<Rightarrow> (world, unit) prog" where
  "rr_asyncDeleteJob ob = bnd (liftr (getAddressIfSet ob)) vfs_asyncDelete"

text \<open>
  \<open>asyncReportSucceedForRepack\<close>. The member \<open>m_MountPolicy\<close> of the reporter is written only on the way to
  the exception of an unknown copy number, so it is never seen.
\<close>

definition rr_report_success :: "u32 \<Rightarrow> object_header \<Rightarrow> exn + object_header \<times> unit" where
  "rr_report_success copyNb oh =
     rbind (rr_parse ''RetrieveRequest::asyncReportSucceedForRepack'' oh) (\<lambda>p.
     rbind (rr_set_status copyNb (CtaException ''RetrieveRequest::asyncReportSucceedForRepack'')
              RJS_ToReportToRepackForSuccess p) (\<lambda>p1.
     Inr (oh\<lparr>oh_payload := enc retrieve_request_codec p1\<rparr>, ())))"

definition rr_asyncReportSucceedForRepack :: "u32 \<Rightarrow> retrieve_request oo \<Rightarrow> (world, unit option) prog" where
  "rr_asyncReportSucceedForRepack copyNb ob =
     bnd (liftr (getAddressIfSet ob)) (\<lambda>a. vfs_asyncUpdate a (rr_report_success copyNb))"

section \<open>From a retrieve request to an archive request\<close>

text \<open>The archive jobs, one per copy number to archive again, with the retry limits of the first job.\<close>

definition rr_rearchive_job :: "string \<Rightarrow> rr_RepackInfo \<Rightarrow> retrieve_job \<Rightarrow> u32 \<Rightarrow> archive_job" where
  "rr_rearchive_job processAgentAddress ri firstJob cntr =
     \<lparr>aj_copynb = cntr,
      aj_tapepool = (case smap_get cntr (rri_archiveRouteMap ri) of Some tp \<Rightarrow> tp | None \<Rightarrow> ''''),
      aj_archivequeueaddress = '''', aj_owner = processAgentAddress, aj_status = AJS_ToTransferForRepack,
      aj_totalretries = 0, aj_retrieswithinmount = 0, aj_lastmountwithfailure = 0,
      aj_maxtotalretries = rj_maxtotalretries firstJob, aj_maxretrieswithinmount = rj_maxretrieswithinmount firstJob,
      aj_failurelogs = [], aj_maxreportretries = rj_maxreportretries firstJob, aj_totalreportretries = 0,
      aj_reportfailurelogs = []\<rparr>"

definition rr_rearchive_request ::
  "u64 \<Rightarrow> string \<Rightarrow> string \<Rightarrow> retrieve_request \<Rightarrow> exn + archive_request" where
  "rr_rearchive_request now hostname processAgentAddress p =
     (let af = rr_archivefile p;
          rrri = rr_repack_info p;
          ri = rr_RepackInfo_deserialize rrri (rr_RepackInfo_init 0);
          ari = ar_RepackInfo_init\<lparr>ari_fSeq := rri_fSeq ri, ari_fileBufferURL := rri_fileBufferURL ri, ari_isRepack := True,
                  ari_repackRequestAddress := rri_repackRequestAddress ri\<rparr>
      in rbind (ar_RepackInfo_serialize ari
                  \<lparr>arri_repack_request_address = '''', arri_file_buffer_url = '''', arri_fseq = 0, arri_jobs_destination = []\<rparr>) (\<lambda>arri.
         case rr_jobs p of
           [] \<Rightarrow> Inl Segfault
         | firstJob # _ \<Rightarrow> Inr
             \<lparr>ar_archivefileid = af_archivefileid af, ar_mountpolicy = rr_mountpolicy p,
              ar_mountpolicyname = mp_name (rr_mountpolicy p), ar_checksumblob = af_checksumblob af,
              ar_creationtime = af_creationtime af, ar_reconcilationtime = af_reconciliationtime af,
              ar_diskfileinfo = af_diskfileinfo af, ar_diskfileid = af_diskfileid af, ar_diskinstance = af_diskinstance af,
              ar_archivereporturl = '''', ar_archiveerrorreporturl = '''', ar_filesize = af_filesize af,
              ar_requester = srr_requester (rr_schedulerrequest p), ar_srcurl = srr_dsturl (rr_schedulerrequest p),
              ar_storageclass = af_storageclass af,
              ar_creationlog = (mp_creationLog (rr_mountpolicy p))\<lparr>el_host := hostname, el_time := now\<rparr>,
              ar_jobs = map (rr_rearchive_job processAgentAddress ri firstJob) (rri_copyNbsToRearchive ri),
              ar_reportdecided = False, ar_isrepack = True, ar_repack_info = arri, ar_isfailed = False\<rparr>))"

definition rr_transform :: "u64 \<Rightarrow> string \<Rightarrow> string \<Rightarrow> object_header \<Rightarrow> exn + object_header \<times> unit" where
  "rr_transform now hostname processAgentAddress oh =
     rbind (rr_parse ''RetrieveRequest::asyncTransformToArchiveRequest'' oh) (\<lambda>p.
     rbind (rr_rearchive_request now hostname processAgentAddress p) (\<lambda>arp.
     Inr (oh\<lparr>oh_payload := enc archive_request_codec arp\<rparr>, ())))"

definition rr_asyncTransformToArchiveRequest ::
  "u64 \<Rightarrow> string \<Rightarrow> retrieve_request oo \<Rightarrow> (world, unit option) prog" where
  "rr_asyncTransformToArchiveRequest now hostname ob = (\<lambda>w.
     bnd (liftr (getAddressIfSet ob)) (\<lambda>a. vfs_asyncUpdate a (rr_transform now hostname (getAgentAddress w))) w)"

end
