(* ===== verification/RequestProperties.thy ===== *)
theory RequestProperties
  imports RetrieveRequest
begin

text \<open>
  The theorems on the archive and retrieve requests (\<open>ArchiveRequest.cpp\<close>, \<open>RetrieveRequest.cpp\<close>), each with a
  concrete instance. Several of them follow a request through a sequence of events.
\<close>

section \<open>A concrete archive request\<close>

definition smp_archive_job :: "u32 \<Rightarrow> string \<Rightarrow> archive_job" where
  "smp_archive_job copyNb pool = ar_new_job copyNb pool ''agent'' 2 3 2"

definition smp_entry_log :: entry_log where
  "smp_entry_log = \<lparr>el_username = ''u'', el_host = ''h'', el_time = 1\<rparr>"

definition smp_mount_policy :: mount_policy where
  "smp_mount_policy = \<lparr>mp_name = ''mp'', mp_archivePriority = 5, mp_archiveMinRequestAge = 60, mp_retrievePriority = 6,
     mp_retrieveMinRequestAge = 90, mp_creationLog = smp_entry_log, mp_lastModificationLog = smp_entry_log, mp_comment = ''''\<rparr>"

definition smp_archive_request :: "bool \<Rightarrow> archive_job list \<Rightarrow> archive_request" where
  "smp_archive_request isrepack jobs = \<lparr>ar_archivefileid = 7, ar_mountpolicy = smp_mount_policy, ar_mountpolicyname = ''mp'',
     ar_checksumblob = '''', ar_creationtime = 1, ar_reconcilationtime = 0,
     ar_diskfileinfo = \<lparr>dfi_owner_uid = 1, dfi_gid = 2, dfi_path = ''/f''\<rparr>, ar_diskfileid = ''d'', ar_diskinstance = ''i'',
     ar_archivereporturl = ''ok'', ar_archiveerrorreporturl = ''ko'', ar_filesize = 10,
     ar_requester = \<lparr>ri_name = ''n'', ri_group = ''g''\<rparr>, ar_srcurl = ''src'', ar_storageclass = ''sc'',
     ar_creationlog = smp_entry_log, ar_jobs = jobs, ar_reportdecided = False, ar_isrepack = isrepack,
     ar_repack_info = \<lparr>arri_repack_request_address = '''', arri_file_buffer_url = '''', arri_fseq = 0, arri_jobs_destination = []\<rparr>,
     ar_isfailed = False\<rparr>"

definition smp_request :: "archive_request oo" where
  "smp_request = held_image ''AR'' (smp_archive_request False [smp_archive_job 1 ''p1'', smp_archive_job 2 ''p2''])"

lemma smp_request_simps [simp]:
  "held smp_request" "ar_jobs (oo_payload smp_request) = [smp_archive_job 1 ''p1'', smp_archive_job 2 ''p2'']"
  "ar_isrepack (oo_payload smp_request) = False" "ar_reportdecided (oo_payload smp_request) = False"
  "aj_copynb (smp_archive_job n pool) = n" "aj_totalretries (smp_archive_job n pool) = 0"
  "aj_maxtotalretries (smp_archive_job n pool) = 3" "aj_failurelogs (smp_archive_job n pool) = []"
  "aj_tapepool (smp_archive_job n pool) = pool"
  by (simp_all add: smp_request_def smp_archive_request_def smp_archive_job_def ar_new_job_def)

section \<open>Queues of archive jobs\<close>

lemma ar_job_queue_type_eq:
  "ar_job_queue_type c js = (case find (\<lambda>j. aj_copynb j = c) js of
     None \<Rightarrow> Inl (CtaException ''ArchiveRequest::getJobQueueType'') | Some j \<Rightarrow> ar_getQueueType (aj_status j))"
  by (induction js) (simp_all add: ar_getQueueType_def split: ArchiveJobStatus.split)

text \<open>
  The queue \<open>getJobQueueType\<close> gives for a copy of the request is the one \<open>getQueueType\<close> gives for the status
  of its job, and a status has a queue exactly when it is one of \<open>c_statusesImplyingQueueing\<close>; for the two
  others both throw \<open>JobNotQueueable\<close>.
\<close>
lemma archive_job_queue_consistent:
  assumes "held ob" and "j \<in> set (ar_jobs (oo_payload ob))" and "distinct (map aj_copynb (ar_jobs (oo_payload ob)))"
  shows "ar_getJobQueueType (aj_copynb j) ob = ar_getQueueType (aj_status j)
    \<and> ((\<exists>q. ar_getQueueType (aj_status j) = Inr q) \<longleftrightarrow> aj_status j \<in> ar_c_statusesImplyingQueueing)
    \<and> (aj_status j \<notin> ar_c_statusesImplyingQueueing \<longrightarrow> ar_getJobQueueType (aj_copynb j) ob = Inl JobNotQueueable)"
proof -
  have "find (\<lambda>j'. aj_copynb j' = aj_copynb j) (ar_jobs (oo_payload ob)) = Some j"
    using assms(2,3) by (auto simp: find_Some_iff in_set_conv_nth distinct_conv_nth)
  with assms(1) show ?thesis
    by (cases "aj_status j") (simp_all add: ar_getJobQueueType_def ar_job_queue_type_eq ar_getQueueType_def
        ar_c_statusesImplyingQueueing_def)
qed

section \<open>Failed transfers of an archive job\<close>

fun ar_failures ::
  "u32 \<Rightarrow> (u64 \<times> string) list \<Rightarrow> archive_request oo \<Rightarrow> exn + ar_enqueueing_next_step list \<times> archive_request oo" where
  "ar_failures c [] ob = Inr ([], ob)"
| "ar_failures c ((mountId, reason) # fs) ob = rbind (ar_addTransferFailure c mountId reason ob) (\<lambda>(s, ob1).
     rbind (ar_failures c fs ob1) (\<lambda>(ss, ob2). Inr (s # ss, ob2)))"

definition ar_retried :: "ar_enqueueing_next_step \<Rightarrow> bool" where
  "ar_retried s \<longleftrightarrow> ens_nextStatus s \<in> {AJS_ToTransferForUser, AJS_ToTransferForRepack}"

lemma find_index_update:
  "i = find_index P xs \<Longrightarrow> i < length xs \<Longrightarrow> P x \<Longrightarrow> find_index P (xs[i := x]) = i"
proof (induction xs arbitrary: i)
  case (Cons y xs)
  then show ?case by (cases i) (auto split: if_splits)
qed simp

lemma ar_count_failure_simps [simp]:
  "aj_copynb (ar_count_failure m r j) = aj_copynb j" "aj_totalretries (ar_count_failure m r j) = aj_totalretries j + 1"
  "aj_maxtotalretries (ar_count_failure m r j) = aj_maxtotalretries j"
  "aj_failurelogs (ar_count_failure m r j) = aj_failurelogs j @ [r]"
  by (simp_all add: ar_count_failure_def Let_def)

lemma ar_determineNextStep_transfer:
  assumes "held ob" and "\<exists>j \<in> set (ar_jobs (oo_payload ob)). aj_copynb j = c"
  shows "\<exists>s ob'. ar_determineNextStep c TransferFailed ob = Inr (s, ob') \<and> held ob' \<and> \<not> ar_retried s
    \<and> ar_jobs (oo_payload ob') = ar_jobs (oo_payload ob)"
  using assms by (auto simp: ar_determineNextStep_def ar_next_step_def ar_retried_def Let_def)

lemma ar_addTransferFailure_step:
  assumes "held ob" and i: "i = find_index (\<lambda>j. aj_copynb j = c) (ar_jobs (oo_payload ob))"
    and len: "i < length (ar_jobs (oo_payload ob))"
  shows "\<exists>s ob'. ar_addTransferFailure c m r ob = Inr (s, ob') \<and> held ob'
    \<and> ar_jobs (oo_payload ob') = (ar_jobs (oo_payload ob))[i := ar_count_failure m r (ar_jobs (oo_payload ob) ! i)]
    \<and> (ar_retried s \<longleftrightarrow> aj_totalretries (ar_jobs (oo_payload ob) ! i) + 1 < aj_maxtotalretries (ar_jobs (oo_payload ob) ! i))"
proof -
  let ?js = "ar_jobs (oo_payload ob)" and ?j = "ar_count_failure m r (ar_jobs (oo_payload ob) ! i)"
  let ?ob1 = "ob\<lparr>oo_payload := (oo_payload ob)\<lparr>ar_jobs := ?js[i := ?j]\<rparr>\<rparr>"
  have c: "aj_copynb (?js ! i) = c" using len find_index_nth i by blast
  have "\<exists>j \<in> set (ar_jobs (oo_payload ?ob1)). aj_copynb j = c" using len c by (auto simp: set_update_memI intro!: bexI [of _ ?j])
  from ar_determineNextStep_transfer [OF _ this] assms(1) obtain s ob' where
    "ar_determineNextStep c TransferFailed ?ob1 = Inr (s, ob')" "held ob'" "\<not> ar_retried s" "ar_jobs (oo_payload ob') = ?js[i := ?j]"
    by auto
  with assms(1) len show ?thesis
    by (cases "aj_totalretries (?js ! i) + 1 < aj_maxtotalretries (?js ! i)")
       (auto simp: ar_addTransferFailure_def i [symmetric] Let_def ar_retried_def not_le not_less)
qed

lemma unat_plus_1: "unat (x :: 32 word) + 1 < 2 ^ 32 \<Longrightarrow> unat (x + 1) = unat x + 1"
  by (simp add: unat_word_ariths)

lemma ar_failures_retried:
  assumes "held ob" and "i = find_index (\<lambda>j. aj_copynb j = c) (ar_jobs (oo_payload ob))"
    and "i < length (ar_jobs (oo_payload ob))" and "j = ar_jobs (oo_payload ob) ! i"
    and "unat (aj_totalretries j) + length fs < 2 ^ 32"
  shows "\<exists>steps ob' j'. ar_failures c fs ob = Inr (steps, ob')
    \<and> map ar_retried steps = map (\<lambda>k. unat (aj_totalretries j) + k + 1 < unat (aj_maxtotalretries j)) [0..<length fs]
    \<and> ar_jobs (oo_payload ob') = (ar_jobs (oo_payload ob))[i := j'] \<and> aj_failurelogs j' = aj_failurelogs j @ map snd fs
    \<and> unat (aj_totalretries j') = unat (aj_totalretries j) + length fs"
  using assms
proof (induction fs arbitrary: ob j)
  case (Cons f fs)
  obtain m r where f: "f = (m, r)" by (cases f)
  let ?js = "ar_jobs (oo_payload ob)" and ?j1 = "ar_count_failure m r j"
  from ar_addTransferFailure_step [OF Cons.prems(1-3), of m r] Cons.prems(4) obtain s ob1 where
    s: "ar_addTransferFailure c m r ob = Inr (s, ob1)" "held ob1" "ar_jobs (oo_payload ob1) = ?js[i := ?j1]"
    "ar_retried s \<longleftrightarrow> aj_totalretries j + 1 < aj_maxtotalretries j" by auto
  have c: "aj_copynb j = c" using find_index_nth [of "\<lambda>j. aj_copynb j = c" ?js] Cons.prems(2-4) by simp
  have i1: "i = find_index (\<lambda>j. aj_copynb j = c) (ar_jobs (oo_payload ob1))"
    unfolding s(3) using find_index_update [OF Cons.prems(2,3), of ?j1] c by simp
  have len1: "i < length (ar_jobs (oo_payload ob1))" and j1: "?j1 = ar_jobs (oo_payload ob1) ! i"
    using Cons.prems(3) by (simp_all add: s(3))
  have un: "unat (aj_totalretries ?j1) = unat (aj_totalretries j) + 1"
    using unat_plus_1 [of "aj_totalretries j"] Cons.prems(5) by simp
  then have "unat (aj_totalretries ?j1) + length fs < 2 ^ 32" using Cons.prems(5) by simp
  from Cons.IH [OF s(2) i1 len1 j1 this] obtain steps ob' j' where
    r: "ar_failures c fs ob1 = Inr (steps, ob')"
    "map ar_retried steps = map (\<lambda>k. unat (aj_totalretries ?j1) + k + 1 < unat (aj_maxtotalretries ?j1)) [0..<length fs]"
    "ar_jobs (oo_payload ob') = (?js[i := ?j1])[i := j']" "aj_failurelogs j' = aj_failurelogs ?j1 @ map snd fs"
    "unat (aj_totalretries j') = unat (aj_totalretries ?j1) + length fs" by (auto simp: s(3))
  have "map ar_retried (s # steps) = map (\<lambda>k. unat (aj_totalretries j) + k + 1 < unat (aj_maxtotalretries j)) [0..<length (f # fs)]"
    using r(2) un s(4) by (simp add: map_upt_Suc word_less_nat_alt del: upt_Suc)
  with r s(1) un show ?case by (simp add: f) blast
next
  case Nil
  then show ?case by (intro exI [of _ "[]"] exI [of _ ob] exI [of _ j]) simp
qed

text \<open>
  C21. A job is tried again after a failed transfer exactly while its total number of failures stays below
  its limit: whatever the mounts of the failures, the k-th one sends the job back to transfer if and only
  if the failures counted before and this one are fewer than \<open>maxtotalretries\<close>. Every reason is kept, in
  order, and no other job of the request is touched.
\<close>
theorem archive_retries_bounded:
  assumes "held ob" and "i = find_index (\<lambda>j. aj_copynb j = c) (ar_jobs (oo_payload ob))"
    and "i < length (ar_jobs (oo_payload ob))" and "j = ar_jobs (oo_payload ob) ! i"
    and "unat (aj_totalretries j) + length fs < 2 ^ 32"
  shows "\<exists>steps ob' j'. ar_failures c fs ob = Inr (steps, ob')
    \<and> map ar_retried steps = map (\<lambda>k. unat (aj_totalretries j) + k + 1 < unat (aj_maxtotalretries j)) [0..<length fs]
    \<and> ar_jobs (oo_payload ob') = (ar_jobs (oo_payload ob))[i := j'] \<and> aj_failurelogs j' = aj_failurelogs j @ map snd fs
    \<and> unat (aj_totalretries j') = unat (aj_totalretries j) + length fs"
  using assms by (rule ar_failures_retried)

theorem archive_retries_bounded_witness:
  "\<exists>steps ob' j'. ar_failures 2 [(11, ''a''), (11, ''b''), (12, ''c'')] smp_request = Inr (steps, ob')
    \<and> map ar_retried steps = [True, True, False] \<and> ar_jobs (oo_payload ob') = [smp_archive_job 1 ''p1'', j']
    \<and> aj_failurelogs j' = [''a'', ''b'', ''c'']"
proof -
  let ?fs = "[(11, ''a''), (11, ''b''), (12 :: u64, ''c'')]"
  have "1 = find_index (\<lambda>j. aj_copynb j = 2) (ar_jobs (oo_payload smp_request))" by simp
  moreover have "1 < length (ar_jobs (oo_payload smp_request))" by simp
  moreover have "unat (aj_totalretries (ar_jobs (oo_payload smp_request) ! 1)) + length ?fs < 2 ^ 32" by simp
  ultimately show ?thesis
    using archive_retries_bounded [OF smp_request_simps(1) _ _ refl, of 1 2 ?fs]
    by (simp add: upt_rec [of 0] upt_rec [of 1] upt_rec [of 2] upt_rec [of 3] del: ar_failures.simps)
      (elim exE conjE, intro exI conjI, assumption+)
qed

text \<open>The decisions of \<open>determineNextStep\<close> for the copies \<open>cs\<close>, whose transfers failed for good one after the other.\<close>

fun ar_exhausted :: "u32 list \<Rightarrow> archive_request oo \<Rightarrow> exn + ar_enqueueing_next_step list \<times> archive_request oo" where
  "ar_exhausted [] ob = Inr ([], ob)"
| "ar_exhausted (c # cs) ob = rbind (ar_determineNextStep c TransferFailed ob) (\<lambda>(s, ob1).
     rbind (ar_exhausted cs ob1) (\<lambda>(ss, ob2). Inr (s # ss, ob2)))"

definition failed_step :: "bool \<Rightarrow> ar_enqueueing_next_step" where
  "failed_step repack = (if repack then \<lparr>ens_nextStep = EnqueueForReportForRepack, ens_nextStatus = AJS_ToReportToRepackForFailure\<rparr>
     else \<lparr>ens_nextStep = StoreInFailedJobsContainer, ens_nextStatus = AJS_Failed\<rparr>)"

lemma ar_exhausted_decided:
  assumes "held ob" and "ar_reportdecided (oo_payload ob)" and "set cs \<subseteq> aj_copynb ` set (ar_jobs (oo_payload ob))"
  shows "ar_exhausted cs ob = Inr (replicate (length cs) (failed_step (ar_isrepack (oo_payload ob))), ob)"
  using assms(3)
proof (induction cs)
  case (Cons c cs)
  then have "\<exists>j \<in> set (ar_jobs (oo_payload ob)). aj_copynb j = c" by auto
  with assms(1,2) have "ar_determineNextStep c TransferFailed ob = Inr (failed_step (ar_isrepack (oo_payload ob)), ob)"
    by (simp add: ar_determineNextStep_def ar_next_step_def failed_step_def)
  with Cons show ?case by auto
qed simp

text \<open>
  C22. The reports of a request whose copies fail for good, one after the other in any order, when no report was decided
  before. For a user there is one: the first copy that fails is queued for the report, all the others go to the failed
  jobs. For a repack every copy is queued for the report. Nothing else of the request changes but the mark that the
  report is decided.
\<close>
theorem archive_one_failure_report:
  assumes "held ob" and "\<not> ar_reportdecided (oo_payload ob)" and "set (c # cs) \<subseteq> aj_copynb ` set (ar_jobs (oo_payload ob))"
  shows "\<exists>steps. ar_exhausted (c # cs) ob = Inr (steps, ob\<lparr>oo_payload := (oo_payload ob)\<lparr>ar_reportdecided := True\<rparr>\<rparr>)
    \<and> map ens_nextStep steps = (if ar_isrepack (oo_payload ob) then replicate (length (c # cs)) EnqueueForReportForRepack
        else EnqueueForReportForUser # replicate (length cs) StoreInFailedJobsContainer)
    \<and> map ens_nextStatus steps = (if ar_isrepack (oo_payload ob) then replicate (length (c # cs)) AJS_ToReportToRepackForFailure
        else AJS_ToReportToUserForFailure # replicate (length cs) AJS_Failed)"
proof -
  let ?ob1 = "ob\<lparr>oo_payload := (oo_payload ob)\<lparr>ar_reportdecided := True\<rparr>\<rparr>" and ?repack = "ar_isrepack (oo_payload ob)"
  have "\<exists>j \<in> set (ar_jobs (oo_payload ob)). aj_copynb j = c" using assms(3) by auto
  then have "ar_determineNextStep c TransferFailed ob
      = Inr (\<lparr>ens_nextStep = (if ?repack then EnqueueForReportForRepack else EnqueueForReportForUser),
              ens_nextStatus = (if ?repack then AJS_ToReportToRepackForFailure else AJS_ToReportToUserForFailure)\<rparr>, ?ob1)"
    using assms(1,2) by (simp add: ar_determineNextStep_def ar_next_step_def)
  moreover have "ar_exhausted cs ?ob1 = Inr (replicate (length cs) (failed_step ?repack), ?ob1)"
    using ar_exhausted_decided [of ?ob1 cs] assms by simp
  ultimately show ?thesis by (simp add: failed_step_def)
qed

theorem archive_one_failure_report_witness:
  "\<exists>steps ob'. ar_exhausted [2, 1] smp_request = Inr (steps, ob')
    \<and> map ens_nextStep steps = [EnqueueForReportForUser, StoreInFailedJobsContainer]"
  using archive_one_failure_report [of smp_request 2 "[1]"] by auto

section \<open>Owners of archive jobs\<close>

definition stored_request :: "world \<Rightarrow> string \<Rightarrow> object_header \<Rightarrow> archive_request \<Rightarrow> bool" where
  "stored_request w a h p \<longleftrightarrow> objects w a = Some h \<and> lockFiles w a \<and> oh_payload h = Payload_ArchiveRequest p"

definition with_job :: "nat \<Rightarrow> archive_job \<Rightarrow> archive_request \<Rightarrow> archive_request" where
  "with_job i j p = p\<lparr>ar_jobs := (ar_jobs p)[i := j]\<rparr>"

definition overwrite :: "string \<Rightarrow> object_header \<Rightarrow> archive_request \<Rightarrow> world \<Rightarrow> world" where
  "overwrite a h p w = w\<lparr>objects := (objects w)(a \<mapsto> h\<lparr>oh_payload := Payload_ArchiveRequest p\<rparr>)\<rparr>"

definition owned_job :: "string \<Rightarrow> ArchiveJobStatus option \<Rightarrow> archive_job \<Rightarrow> archive_job" where
  "owned_job owner st j = j\<lparr>aj_owner := owner, aj_status := (case st of None \<Rightarrow> aj_status j | Some s \<Rightarrow> s)\<rparr>"

lemma asyncUpdate_stored:
  assumes "stored_request w a h p"
  shows "update h = Inr (h', x) \<Longrightarrow> vfs_asyncUpdate a update w = (Inr (Some x), w\<lparr>objects := (objects w)(a \<mapsto> h')\<rparr>)"
    and "update h = Inl e \<Longrightarrow> e \<noteq> AsyncUpdateWithDelete \<Longrightarrow> vfs_asyncUpdate a update w = (Inl e, w)"
  using assms by (auto simp: stored_request_def vfs_asyncUpdate_def vfs_defs rethrow_as_def split: exn.split)

lemma ar_asyncUpdateJobOwner_owned:
  assumes st: "stored_request w a h p" and ob: "getAddressIfSet ob = Inr a"
    and i: "i = find_index (\<lambda>j. aj_copynb j = c) (ar_jobs p)" "i < length (ar_jobs p)"
    and own: "aj_owner (ar_jobs p ! i) \<in> {owner, previousOwner}"
  shows "\<exists>r. ar_asyncUpdateJobOwner c owner previousOwner st' ob w
      = (Inr (Some r), overwrite a h (with_job i (owned_job owner st' (ar_jobs p ! i)) p) w)
    \<and> ajou_archiveFile r = ar_archive_file p \<and> ajou_srcURL r = ar_srcurl p"
proof -
  let ?p' = "with_job i (owned_job owner st' (ar_jobs p ! i)) p"
  have "ar_change_owner owner previousOwner st' (ar_jobs p ! i) = Inr (owned_job owner st' (ar_jobs p ! i))"
    using own by (auto simp: ar_change_owner_def owned_job_def split: option.split)
  then have "ar_update_owner c owner previousOwner st' h
      = Inr (h\<lparr>oh_payload := Payload_ArchiveRequest ?p'\<rparr>, ar_owner_report ?p' (owned_job owner st' (ar_jobs p ! i)))"
    using st i by (simp add: ar_update_owner_def ar_parse_def stored_request_def archive_request_codec_def Let_def
        ar_reserialize_def with_job_def)
  from asyncUpdate_stored(1) [OF st, where update = "ar_update_owner c owner previousOwner st'", OF this] ob show ?thesis
    by (simp add: ar_asyncUpdateJobOwner_def overwrite_def ar_owner_report_def ar_archive_file_def with_job_def)
qed

text \<open>
  C23. \<open>asyncUpdateJobOwner\<close> changes the owner of a job only when it is owned by the expected previous owner
  or already by the new one; then the stored request has that job with the new owner and, if asked for, the
  new status, and nothing else changed. Otherwise it throws \<open>WrongPreviousOwner\<close> and the store is as before.
  It can be repeated: doing the same update again succeeds and changes nothing.
\<close>
theorem archive_owner_update:
  assumes "stored_request w a h p" and "getAddressIfSet ob = Inr a"
    and "i = find_index (\<lambda>j. aj_copynb j = c) (ar_jobs p)" and "i < length (ar_jobs p)"
  shows "(aj_owner (ar_jobs p ! i) \<in> {owner, previousOwner} \<longrightarrow>
      (\<exists>r w'. ar_asyncUpdateJobOwner c owner previousOwner st ob w = (Inr (Some r), w')
        \<and> w' = overwrite a h (with_job i (owned_job owner st (ar_jobs p ! i)) p) w \<and> ajou_archiveFile r = ar_archive_file p
        \<and> (\<exists>r'. ar_asyncUpdateJobOwner c owner previousOwner st ob w' = (Inr (Some r'), w'))))
    \<and> (aj_owner (ar_jobs p ! i) \<notin> {owner, previousOwner} \<longrightarrow>
      ar_asyncUpdateJobOwner c owner previousOwner st ob w = (Inl WrongPreviousOwner, w))"
proof (intro conjI impI)
  assume own: "aj_owner (ar_jobs p ! i) \<in> {owner, previousOwner}"
  let ?j = "owned_job owner st (ar_jobs p ! i)"
  let ?p' = "with_job i ?j p" and ?w' = "overwrite a h (with_job i (owned_job owner st (ar_jobs p ! i)) p) w"
  let ?h' = "h\<lparr>oh_payload := Payload_ArchiveRequest ?p'\<rparr>"
  from ar_asyncUpdateJobOwner_owned [OF assms own, of st] obtain r where
    r: "ar_asyncUpdateJobOwner c owner previousOwner st ob w = (Inr (Some r), ?w')" "ajou_archiveFile r = ar_archive_file p" by blast
  have st': "stored_request ?w' a ?h' ?p'" using assms(1) by (simp add: stored_request_def overwrite_def)
  have "aj_copynb (ar_jobs p ! i) = c" using find_index_nth [of "\<lambda>j. aj_copynb j = c" "ar_jobs p"] assms(3,4) by simp
  then have i': "i = find_index (\<lambda>j. aj_copynb j = c) (ar_jobs ?p')" "i < length (ar_jobs ?p')"
    using find_index_update [OF assms(3,4), of ?j] assms(4) by (simp_all add: with_job_def owned_job_def)
  have own': "aj_owner (ar_jobs ?p' ! i) \<in> {owner, previousOwner}" and same: "owned_job owner st (ar_jobs ?p' ! i) = ar_jobs ?p' ! i"
    using assms(4) by (simp_all add: with_job_def owned_job_def split: option.split)
  from ar_asyncUpdateJobOwner_owned [OF st' assms(2) i' own', of st] obtain r' where
    "ar_asyncUpdateJobOwner c owner previousOwner st ob ?w' = (Inr (Some r'), overwrite a ?h' (with_job i (ar_jobs ?p' ! i) ?p') ?w')"
    unfolding same by blast
  moreover have "overwrite a ?h' (with_job i (ar_jobs ?p' ! i) ?p') ?w' = ?w'" by (simp add: overwrite_def with_job_def)
  ultimately show "\<exists>r w'. ar_asyncUpdateJobOwner c owner previousOwner st ob w = (Inr (Some r), w') \<and> w' = ?w'
      \<and> ajou_archiveFile r = ar_archive_file p \<and> (\<exists>r'. ar_asyncUpdateJobOwner c owner previousOwner st ob w' = (Inr (Some r'), w'))"
    using r by auto
next
  assume "aj_owner (ar_jobs p ! i) \<notin> {owner, previousOwner}"
  then have "ar_update_owner c owner previousOwner st h = Inl WrongPreviousOwner"
    using assms(1,3,4) by (simp add: ar_update_owner_def ar_parse_def stored_request_def archive_request_codec_def Let_def
        ar_change_owner_def)
  from asyncUpdate_stored(2) [OF assms(1), where update = "ar_update_owner c owner previousOwner st", OF this] assms(2)
  show "ar_asyncUpdateJobOwner c owner previousOwner st ob w = (Inl WrongPreviousOwner, w)"
    by (simp add: ar_asyncUpdateJobOwner_def)
qed

definition smp_request_header :: object_header where
  "smp_request_header = \<lparr>oh_version = 0, oh_owner = '''', oh_backupowner = '''', oh_payload = Payload_ArchiveRequest (oo_payload smp_request)\<rparr>"

definition smp_request_world :: world where
  "smp_request_world = \<lparr>objects = [''AR'' \<mapsto> smp_request_header], lockFiles = (\<lambda>n. n = ''AR''), agentAddress = ''agent'', nextIdCounter = 0\<rparr>"

lemma smp_stored_request: "stored_request smp_request_world ''AR'' smp_request_header (oo_payload smp_request)"
  "getAddressIfSet smp_request = Inr ''AR''"
  by (simp_all add: stored_request_def smp_request_world_def smp_request_header_def smp_request_def)

theorem archive_owner_update_witness:
  "(\<exists>r w'. ar_asyncUpdateJobOwner 2 ''queue'' ''agent'' None smp_request smp_request_world = (Inr (Some r), w'))
    \<and> ar_asyncUpdateJobOwner 2 ''queue'' ''other'' None smp_request smp_request_world = (Inl WrongPreviousOwner, smp_request_world)"
proof -
  have i: "1 = find_index (\<lambda>j. aj_copynb j = 2) (ar_jobs (oo_payload smp_request))" "1 < length (ar_jobs (oo_payload smp_request))"
    by simp_all
  have "aj_owner (ar_jobs (oo_payload smp_request) ! 1) = ''agent''" by (simp add: smp_archive_job_def ar_new_job_def)
  then show ?thesis
    using archive_owner_update [OF smp_stored_request i, of "''queue''" "''agent''" None]
      archive_owner_update [OF smp_stored_request i, of "''queue''" "''other''" None] by auto
qed

section \<open>Successful transfers of archive jobs\<close>

fun ar_successes :: "u32 list \<Rightarrow> archive_request \<Rightarrow> exn + bool list \<times> archive_request" where
  "ar_successes [] p = Inr ([], p)"
| "ar_successes (c # cs) p = rbind (ar_user_success (ar_reportdecided p) c p) (\<lambda>(p1, doReport).
     rbind (ar_successes cs p1) (\<lambda>(rs, p2). Inr (doReport # rs, p2)))"

definition to_transfer :: "archive_request \<Rightarrow> u32 set" where
  "to_transfer p = set (map aj_copynb (filter (\<lambda>j. aj_status j = AJS_ToTransferForUser) (ar_jobs p)))"

definition settle :: "u32 \<Rightarrow> archive_job \<Rightarrow> archive_job" where
  "settle lastCopy j =
     (if aj_status j = AJS_ToTransferForUser
      then if aj_copynb j = lastCopy then j\<lparr>aj_status := AJS_ToReportToUserForTransfer\<rparr>
           else j\<lparr>aj_status := AJS_Complete, aj_owner := ''''\<rparr>
      else j)"

lemma update_first_distinct:
  assumes "distinct (map k xs)" and "i = find_index (\<lambda>x. k x = c) xs" and "i < length xs"
  shows "xs[i := f (xs ! i)] = map (\<lambda>x. if k x = c then f x else x) xs"
proof (rule nth_equalityI)
  fix n assume n: "n < length (xs[i := f (xs ! i)])"
  have "k (xs ! i) = c" using assms(2,3) find_index_nth by blast
  moreover have "k (xs ! n) = k (xs ! i) \<longleftrightarrow> n = i" using assms(1,3) n nth_eq_iff_index_eq [of "map k xs" n i] by simp
  ultimately show "xs[i := f (xs ! i)] ! n = map (\<lambda>x. if k x = c then f x else x) xs ! n"
    using n assms(3) by (cases "n = i") auto
qed simp

lemma ar_update_job_distinct:
  assumes "distinct (map aj_copynb (ar_jobs p))" and "c \<in> aj_copynb ` set (ar_jobs p)"
  shows "ar_update_job c e f p = Inr (p\<lparr>ar_jobs := map (\<lambda>j. if aj_copynb j = c then f j else j) (ar_jobs p)\<rparr>)"
proof -
  let ?i = "find_index (\<lambda>j. aj_copynb j = c) (ar_jobs p)"
  have "?i < length (ar_jobs p)" using assms(2) by (auto simp: find_index_less)
  with update_first_distinct [OF assms(1) refl, of c f] show ?thesis by (simp add: ar_update_job_def Let_def)
qed

lemma ar_user_success_step:
  assumes d: "distinct (map aj_copynb (ar_jobs p))" and nr: "\<not> ar_reportdecided p"
    and cs: "distinct (c # cs)" "set (c # cs) = to_transfer p"
  shows "ar_user_success (ar_reportdecided p) c p
      = Inr (p\<lparr>ar_jobs := map (\<lambda>j. if aj_copynb j = c then settle (if cs = [] then c else last cs) j else j) (ar_jobs p)\<rparr>, cs = [])"
proof -
  let ?js = "ar_jobs p"
  have c: "c \<in> aj_copynb ` set ?js" using cs(2) by (auto simp: to_transfer_def)
  have "(\<exists>j \<in> set ?js. aj_copynb j \<noteq> c \<and> aj_status j = AJS_ToTransferForUser) \<longleftrightarrow> to_transfer p - {c} \<noteq> {}"
    by (auto simp: to_transfer_def)
  also have "to_transfer p - {c} = set cs" using cs by (metis Diff_insert_absorb distinct.simps(2) list.simps(15))
  finally have other: "(\<exists>j \<in> set ?js. aj_copynb j \<noteq> c \<and> aj_status j = AJS_ToTransferForUser) \<longleftrightarrow> cs \<noteq> []" by simp
  have st: "aj_status j = AJS_ToTransferForUser" if j: "j \<in> set ?js" "aj_copynb j = c" for j
  proof -
    have "c \<in> to_transfer p" using cs(2) by auto
    then obtain j' where "j' \<in> set ?js" "aj_copynb j' = c" "aj_status j' = AJS_ToTransferForUser"
      by (auto simp: to_transfer_def)
    with j d show ?thesis by (metis distinct_map inj_onD)
  qed
  have neq: "cs \<noteq> [] \<Longrightarrow> c \<noteq> last cs" using cs(1) by (metis distinct.simps(2) last_in_set)
  show ?thesis
    unfolding ar_user_success_def Let_def other
    using ar_update_job_distinct [OF d c] nr st neq
    by (cases "cs = []") (simp_all add: settle_def cong: map_cong if_cong)
qed

lemma settle_settled: "settle l (if aj_copynb j = c then settle l j else j) = settle l j"
  by (simp add: settle_def)

lemma settle_to_transfer:
  "l \<noteq> c \<Longrightarrow> aj_status (if aj_copynb j = c then settle l j else j) = AJS_ToTransferForUser
     \<longleftrightarrow> aj_status j = AJS_ToTransferForUser \<and> aj_copynb j \<noteq> c"
  by (simp add: settle_def)

lemma aj_copynb_settle: "aj_copynb (if aj_copynb j = c then settle l j else j) = aj_copynb j"
  by (simp add: settle_def)

lemma to_transfer_settled:
  assumes "l \<noteq> c"
  shows "to_transfer (p\<lparr>ar_jobs := map (\<lambda>j. if aj_copynb j = c then settle l j else j) (ar_jobs p)\<rparr>) = to_transfer p - {c}"
proof -
  have "map aj_copynb (filter (\<lambda>j. aj_status j = AJS_ToTransferForUser)
      (map (\<lambda>j. if aj_copynb j = c then settle l j else j) js))
    = filter (\<lambda>n. n \<noteq> c) (map aj_copynb (filter (\<lambda>j. aj_status j = AJS_ToTransferForUser) js))" for js
    by (induction js) (use assms in \<open>simp_all add: settle_to_transfer aj_copynb_settle del: if_image_distrib\<close>)
  then show ?thesis by (auto simp: to_transfer_def simp del: map_map set_map)
qed

text \<open>
  A user gets one report for a request whose copies all succeed: in whatever order the transfers of the
  copies finish, the report of the success is asked for by the last one and by no other. That job is to be
  reported, the others are complete and belong to nobody.
\<close>

lemma ar_successes_settle:
  assumes "distinct (map aj_copynb (ar_jobs p))" and "\<not> ar_reportdecided p"
    and "distinct cs" and "cs \<noteq> []" and "set cs = to_transfer p"
  shows "ar_successes cs p
    = Inr (replicate (length cs - 1) False @ [True], p\<lparr>ar_jobs := map (settle (last cs)) (ar_jobs p)\<rparr>)"
  using assms
proof (induction cs arbitrary: p)
  case (Cons c cs)
  let ?js = "ar_jobs p"
  let ?js1 = "map (\<lambda>j. if aj_copynb j = c then settle (if cs = [] then c else last cs) j else j) ?js"
  have step: "ar_user_success (ar_reportdecided p) c p = Inr (p\<lparr>ar_jobs := ?js1\<rparr>, cs = [])"
    using ar_user_success_step [OF Cons.prems(1,2,3,5)] .
  have cs: "c \<notin> set cs" "distinct cs" and tt: "to_transfer p = insert c (set cs)" using Cons.prems(3,5) by simp_all
  show ?case
  proof (cases "cs = []")
    case True
    have "settle c j = j" if "j \<in> set ?js" "aj_copynb j \<noteq> c" for j
    proof -
      have "aj_copynb j \<notin> to_transfer p" using that(2) True tt by simp
      with that(1) show ?thesis by (auto simp: settle_def to_transfer_def)
    qed
    then have eq: "?js1 = map (settle c) ?js" using True by (intro map_cong) simp_all
    show ?thesis using step [unfolded eq] True by simp
  next
    case False
    define p1 where "p1 = p\<lparr>ar_jobs := map (\<lambda>j. if aj_copynb j = c then settle (last cs) j else j) ?js\<rparr>"
    have js1: "ar_jobs p1 = map (\<lambda>j. if aj_copynb j = c then settle (last cs) j else j) ?js"
      and rest: "p1\<lparr>ar_jobs := js\<rparr> = p\<lparr>ar_jobs := js\<rparr>" "ar_reportdecided p1 = ar_reportdecided p" for js
      by (simp_all add: p1_def)
    have neq: "last cs \<noteq> c" using cs(1) last_in_set [OF False] by blast
    have "map aj_copynb (ar_jobs p1) = map aj_copynb ?js" unfolding js1 by (simp add: aj_copynb_settle)
    then have d1: "distinct (map aj_copynb (ar_jobs p1))" using Cons.prems(1) by (rule ssubst)
    have "set cs = to_transfer p1" unfolding p1_def to_transfer_settled [OF neq] tt using cs(1) by simp
    then have "ar_successes cs p1
        = Inr (replicate (length cs - 1) False @ [True], p1\<lparr>ar_jobs := map (settle (last cs)) (ar_jobs p1)\<rparr>)"
      using Cons.prems(2) rest(2) by (intro Cons.IH [OF d1 _ cs(2) False]) simp_all
    moreover have "map (settle (last cs)) (ar_jobs p1) = map (settle (last cs)) ?js" unfolding js1 by (simp add: settle_settled)
    moreover have "replicate (length cs) False = False # replicate (length cs - 1) False" using False by (cases cs) simp_all
    moreover have "ar_user_success (ar_reportdecided p) c p = Inr (p1, False)" using step False by (simp add: p1_def)
    ultimately show ?thesis using False rest(1) by simp
  qed
next
  case Nil
  then show ?case by blast
qed

end
