(* ===== verification/RetrieveQueueShard.thy ===== *)
theory RetrieveQueueShard
  imports JobShard
begin

text \<open>
  \<open>objectstore/RetrieveQueueShard.cpp\<close>: a shard of a retrieve queue, whose job pointers are kept sorted by
  the position of the file on tape (\<open>fSeq\<close>). A batch of jobs is added either one by one in place or through
  an ordered copy; a bisection decides which. A \<open>std::multiset\<close> is modelled as the sorted list of its
  elements, with the positions the standard prescribes for insertions with and without a hint.
\<close>

section \<open>Data\<close>

record rqs_job_info =
  rji_size :: u64
  rji_address :: string
  rji_copyNb :: u32
  rji_priority :: u64
  rji_minRetrieveRequestAge :: u64
  rji_startTime :: time_t
  rji_fSeq :: u64
  rji_mountPolicyName :: string
  rji_activity :: "string option"
  rji_diskSystemName :: "string option"

record rqs_jobs_summary =
  rqss_jobs :: u64
  rqss_bytes :: u64
  rqss_minFseq :: u64
  rqss_maxFseq :: u64

text \<open>\<open>RetrieveQueue::JobDump\<close> and \<open>RetrieveQueue::JobToAdd\<close>.\<close>

record retrieve_job_dump =
  rjd_address :: string
  rjd_copyNb :: u32
  rjd_size :: u64
  rjd_activity :: "string option"
  rjd_diskSystemName :: "string option"

record retrieve_job_to_add =
  rja_copyNb :: u32
  rja_fSeq :: u64
  rja_retrieveRequestAddress :: string
  rja_fileSize :: u64
  rja_policy :: mount_policy
  rja_startTime :: time_t
  rja_activity :: "string option"
  rja_diskSystemName :: "string option"

section \<open>Ordered multisets\<close>

definition lower_bound :: "('a \<Rightarrow> u64) \<Rightarrow> u64 \<Rightarrow> 'a list \<Rightarrow> nat" where
  "lower_bound key k xs = length (takeWhile (\<lambda>y. key y < k) xs)"

definition upper_bound :: "('a \<Rightarrow> u64) \<Rightarrow> u64 \<Rightarrow> 'a list \<Rightarrow> nat" where
  "upper_bound key k xs = length (takeWhile (\<lambda>y. key y \<le> k) xs)"

definition insert_at :: "nat \<Rightarrow> 'a \<Rightarrow> 'a list \<Rightarrow> 'a list" where
  "insert_at i x xs = take i xs @ x # drop i xs"

text \<open>\<open>insert(x)\<close>: at the upper bound of the elements equivalent to \<open>x\<close>.\<close>

definition multiset_insert :: "('a \<Rightarrow> u64) \<Rightarrow> 'a \<Rightarrow> 'a list \<Rightarrow> 'a list" where
  "multiset_insert key x xs = insert_at (upper_bound key (key x) xs) x xs"

text \<open>
  \<open>insert(hint, x)\<close>: as close as possible to the position just before the hint. The result is the position
  of the new element and the new contents.
\<close>

definition multiset_insert_hint :: "('a \<Rightarrow> u64) \<Rightarrow> nat \<Rightarrow> 'a \<Rightarrow> 'a list \<Rightarrow> nat \<times> 'a list" where
  "multiset_insert_hint key hint x xs =
     (let i = max (lower_bound key (key x) xs) (min (upper_bound key (key x) xs) hint)
      in (i, insert_at i x xs))"

section \<open>Operations\<close>

definition rqs_empty :: retrieve_queue_shard where
  "rqs_empty = \<lparr>rqs_retrievejobs = [], rqs_retrievejobstotalsize = 0\<rparr>"

definition rqs_new :: "retrieve_queue_shard oo" where
  "rqs_new = oo_new rqs_empty"

definition rqs_at :: "string \<Rightarrow> exn + retrieve_queue_shard oo" where
  "rqs_at address = setAddress address rqs_new"

definition rqs_rebuild :: "retrieve_queue_shard oo \<Rightarrow> exn + retrieve_queue_shard oo" where
  "rqs_rebuild ob = rbind (checkPayloadWritable ob) (\<lambda>_.
     let totalSize = fold (\<lambda>j acc. acc + rjp_size j) (rqs_retrievejobs (oo_payload ob)) 0
     in Inr (ob\<lparr>oo_payload := (oo_payload ob)\<lparr>rqs_retrievejobstotalsize := totalSize\<rparr>\<rparr>))"

definition rqs_garbageCollect :: "retrieve_queue_shard oo \<Rightarrow> exn + retrieve_queue_shard oo" where
  "rqs_garbageCollect ob = Inl (CtaException ''RetrieveQueueShard::garbageCollect'')"

definition rqs_job_dump :: "retrieve_job_pointer \<Rightarrow> retrieve_job_dump" where
  "rqs_job_dump j = \<lparr>rjd_address = rjp_address j, rjd_copyNb = as_uint16 (rjp_copynb j), rjd_size = rjp_size j,
     rjd_activity = rjp_activity j, rjd_diskSystemName = rjp_destination_disk_system_name j\<rparr>"

text \<open>An absent optional string reads as the empty string.\<close>

definition rqs_skipped :: "string set \<Rightarrow> string set \<Rightarrow> retrieve_job_pointer \<Rightarrow> bool" where
  "rqs_skipped retrieveRequestsToSkip diskSystemsToSkip j \<longleftrightarrow> rjp_address j \<in> retrieveRequestsToSkip
     \<or> (case rjp_destination_disk_system_name j of None \<Rightarrow> '''' | Some n \<Rightarrow> n) \<in> diskSystemsToSkip"

definition rqs_getCandidateJobList ::
  "u64 \<Rightarrow> u64 \<Rightarrow> string set \<Rightarrow> string set \<Rightarrow> retrieve_queue_shard oo \<Rightarrow> exn + retrieve_job_dump candidate_job_list" where
  "rqs_getCandidateJobList maxBytes maxFiles retrieveRequestsToSkip diskSystemsToSkip ob =
     rbind (checkPayloadReadable ob) (\<lambda>_.
     let p = oo_payload ob
     in Inr (candidate_loop (rqs_skipped retrieveRequestsToSkip diskSystemsToSkip) rjp_size rqs_job_dump maxBytes maxFiles
       (rqs_retrievejobs p)
       (candidate_job_list_init\<lparr>cjl_remainingBytesAfterCandidates := rqs_retrievejobstotalsize p,
          cjl_remainingFilesAfterCandidates := of_nat (length (rqs_retrievejobs p))\<rparr>)))"

definition rqs_removed_job_info :: "retrieve_job_pointer \<Rightarrow> rqs_job_info" where
  "rqs_removed_job_info j = \<lparr>rji_size = rjp_size j, rji_address = rjp_address j, rji_copyNb = rjp_copynb j,
     rji_priority = rjp_priority j, rji_minRetrieveRequestAge = rjp_minretrieverequestage j,
     rji_startTime = rjp_starttime j, rji_fSeq = rjp_fseq j, rji_mountPolicyName = rjp_mountpolicyname j,
     rji_activity = rjp_activity j, rji_diskSystemName = rjp_destination_disk_system_name j\<rparr>"

definition rqs_remove_payload ::
  "string list \<Rightarrow> retrieve_queue_shard \<Rightarrow> rqs_job_info removal_result \<times> retrieve_queue_shard" where
  "rqs_remove_payload jobsToRemove p =
     (let totalSize = rqs_retrievejobstotalsize p;
          (jl, rm, totalSize', payloadTotal) =
            remove_addresses rjp_address (account_removal rjp_size rqs_removed_job_info) jobsToRemove
              (rqs_retrievejobs p, removal_result_init, totalSize, rqs_retrievejobstotalsize p)
      in (rm\<lparr>rmr_bytesAfter := totalSize', rmr_jobsAfter := of_nat (length jl)\<rparr>,
          p\<lparr>rqs_retrievejobs := jl, rqs_retrievejobstotalsize := payloadTotal\<rparr>))"

definition rqs_removeJobs ::
  "string list \<Rightarrow> retrieve_queue_shard oo \<Rightarrow> exn + rqs_job_info removal_result \<times> retrieve_queue_shard oo" where
  "rqs_removeJobs jobsToRemove ob = rbind (checkPayloadWritable ob) (\<lambda>_.
     let (rm, p) = rqs_remove_payload jobsToRemove (oo_payload ob) in Inr (rm, ob\<lparr>oo_payload := p\<rparr>))"

definition rqs_initialize :: "string \<Rightarrow> retrieve_queue_shard oo \<Rightarrow> exn + retrieve_queue_shard oo" where
  "rqs_initialize owner ob =
     rbind (oo_initialize ob) (\<lambda>ob1.
     rbind (setOwner owner ob1) (\<lambda>ob2.
     rbind (setBackupOwner owner ob2) (\<lambda>ob3.
     Inr (ob3\<lparr>oo_payload := (oo_payload ob3)\<lparr>rqs_retrievejobstotalsize := 0\<rparr>, oo_payloadInterpreted := True\<rparr>))))"

definition rqs_job_info_of :: "retrieve_job_pointer \<Rightarrow> rqs_job_info" where
  "rqs_job_info_of j = \<lparr>rji_size = rjp_size j, rji_address = rjp_address j, rji_copyNb = as_uint16 (rjp_copynb j),
     rji_priority = rjp_priority j, rji_minRetrieveRequestAge = rjp_minretrieverequestage j,
     rji_startTime = rjp_starttime j, rji_fSeq = rjp_fseq j, rji_mountPolicyName = rjp_mountpolicyname j,
     rji_activity = rjp_activity j, rji_diskSystemName = rjp_destination_disk_system_name j\<rparr>"

definition rqs_dumpJobs :: "retrieve_queue_shard oo \<Rightarrow> exn + rqs_job_info list" where
  "rqs_dumpJobs ob = rbind (checkPayloadReadable ob) (\<lambda>_.
     Inr (map rqs_job_info_of (rqs_retrievejobs (oo_payload ob))))"

text \<open>
  \<open>dumpJobsToAdd\<close> fills three fields of the mount policy; the others keep the values of the default
  constructor (\<open>mount_policy_default\<close>), which for the integers means zero.
\<close>

definition entry_log_default :: entry_log where
  "entry_log_default = \<lparr>el_username = '''', el_host = '''', el_time = 0\<rparr>"

definition mount_policy_default :: mount_policy where
  "mount_policy_default = \<lparr>mp_name = '''', mp_archivePriority = 0, mp_archiveMinRequestAge = 0, mp_retrievePriority = 0,
     mp_retrieveMinRequestAge = 0, mp_creationLog = entry_log_default, mp_lastModificationLog = entry_log_default,
     mp_comment = ''''\<rparr>"

definition rqs_job_to_add_of :: "retrieve_job_pointer \<Rightarrow> retrieve_job_to_add" where
  "rqs_job_to_add_of j = \<lparr>rja_copyNb = rjp_copynb j, rja_fSeq = rjp_fseq j, rja_retrieveRequestAddress = rjp_address j,
     rja_fileSize = rjp_size j,
     rja_policy = mount_policy_default\<lparr>mp_retrieveMinRequestAge := rjp_minretrieverequestage j,
        mp_retrievePriority := rjp_priority j, mp_name := rjp_mountpolicyname j\<rparr>,
     rja_startTime = rjp_starttime j, rja_activity = rjp_activity j,
     rja_diskSystemName = rjp_destination_disk_system_name j\<rparr>"

definition rqs_dumpJobsToAdd :: "retrieve_queue_shard oo \<Rightarrow> exn + retrieve_job_to_add list" where
  "rqs_dumpJobsToAdd ob = rbind (checkPayloadReadable ob) (\<lambda>_.
     Inr (map rqs_job_to_add_of (rqs_retrievejobs (oo_payload ob))))"

text \<open>Reading element 0 of an empty shard is an out of bounds access.\<close>

definition rqs_getJobsSummary :: "retrieve_queue_shard oo \<Rightarrow> exn + rqs_jobs_summary" where
  "rqs_getJobsSummary ob = rbind (checkPayloadReadable ob) (\<lambda>_.
     let p = oo_payload ob; js = rqs_retrievejobs p
     in if js = [] then Inl Segfault
        else let r = \<lparr>rqss_jobs = of_nat (length js), rqss_bytes = rqs_retrievejobstotalsize p,
                      rqss_minFseq = rjp_fseq (js ! 0), rqss_maxFseq = rjp_fseq (js ! (length js - 1))\<rparr>
             in if rqss_minFseq r > rqss_maxFseq r then Inl (CtaException ''RetrieveQueueShard::getJobsSummary'') else Inr r)"

section \<open>Adding a batch\<close>

text \<open>
  The bisection of \<open>addJobsBatch\<close>: \<open>N\<close> at least two, \<open>fs\<close> the \<open>fSeq\<close> of the jobs in the shard. The fuel
  bounds the \<open>while (true)\<close>; \<open>None\<close> is a loop that did not end.
\<close>

fun rqs_bisect :: "nat \<Rightarrow> u64 list \<Rightarrow> u64 \<Rightarrow> nat \<Rightarrow> nat \<Rightarrow> nat \<Rightarrow> nat option" where
  "rqs_bisect 0 fs fSeqLimit iminmin iminmax imin = None"
| "rqs_bisect (Suc fuel) fs fSeqLimit iminmin iminmax imin =
     (let N = length fs
      in if fs ! imin > fSeqLimit
         then let iminmax' = imin; imin' = (iminmin + iminmax') div 2
              in if imin' = 0 then Some (if fs ! 0 \<le> fSeqLimit then N - 1 else N)
                 else rqs_bisect fuel fs fSeqLimit iminmin iminmax' imin'
         else if imin \<ge> N - 1 then Some (if fs ! (N - 1) \<le> fSeqLimit then 0 else 1)
         else if fs ! (imin + 1) > fSeqLimit then Some (N - imin - 1)
         else if imin + 1 = N - 1 then Some 0
         else rqs_bisect fuel fs fSeqLimit imin iminmax ((imin + iminmax) div 2))"

text \<open>\<open>Np\<close>: how many jobs of the shard come after the first job to add.\<close>

definition rqs_find_Np :: "u64 list \<Rightarrow> u64 \<Rightarrow> nat option" where
  "rqs_find_Np fs fSeqLimit =
     (let N = length fs
      in if N = 0 then Some 0
         else if N = 1 then Some (if fs ! 0 \<le> fSeqLimit then 0 else 1)
         else rqs_bisect (2 * N) fs fSeqLimit 0 (N - 1) (N div 2))"

definition rqs_job_pointer :: "retrieve_job_to_add \<Rightarrow> retrieve_job_pointer" where
  "rqs_job_pointer jobToAdd = \<lparr>rjp_size = rja_fileSize jobToAdd, rjp_address = rja_retrieveRequestAddress jobToAdd,
     rjp_copynb = rja_copyNb jobToAdd, rjp_fseq = rja_fSeq jobToAdd,
     rjp_priority = mp_retrievePriority (rja_policy jobToAdd),
     rjp_minretrieverequestage = mp_retrieveMinRequestAge (rja_policy jobToAdd),
     rjp_starttime = rja_startTime jobToAdd, rjp_mountpolicyname = mp_name (rja_policy jobToAdd),
     rjp_activity = rja_activity jobToAdd, rjp_destination_disk_system_name = rja_diskSystemName jobToAdd\<rparr>"

text \<open>The swaps that bring the job at \<open>jobIndex\<close> down to its place.\<close>

fun rqs_sift_down :: "nat \<Rightarrow> retrieve_job_pointer list \<Rightarrow> retrieve_job_pointer list" where
  "rqs_sift_down 0 js = js"
| "rqs_sift_down (Suc i) js =
     (if rjp_fseq (js ! Suc i) < rjp_fseq (js ! i) then rqs_sift_down i (swap_elements i (Suc i) js) else js)"

definition rqs_addJob :: "retrieve_job_to_add \<Rightarrow> retrieve_queue_shard oo \<Rightarrow> exn + retrieve_queue_shard oo" where
  "rqs_addJob jobToAdd ob = rbind (checkPayloadWritable ob) (\<lambda>_.
     let p = oo_payload ob;
         js = rqs_retrievejobs p @ [rqs_job_pointer jobToAdd]
     in Inr (ob\<lparr>oo_payload := p\<lparr>rqs_retrievejobs := rqs_sift_down (length js - 1) js,
          rqs_retrievejobstotalsize := rqs_retrievejobstotalsize p + rja_fileSize jobToAdd\<rparr>\<rparr>))"

definition rqs_addJobsInPlace :: "retrieve_job_to_add list \<Rightarrow> retrieve_queue_shard oo \<Rightarrow> exn + retrieve_queue_shard oo" where
  "rqs_addJobsInPlace jobsToAdd ob = foldR (\<lambda>ob j. rqs_addJob j ob) ob jobsToAdd"

text \<open>A sequence of hinted insertions, each at the position the previous one returned.\<close>

definition multiset_of_hinted :: "('a \<Rightarrow> u64) \<Rightarrow> 'a list \<Rightarrow> 'a list" where
  "multiset_of_hinted key xs = snd (fold (\<lambda>x (i, s). multiset_insert_hint key i x s) xs (0, []))"

definition rqs_addJobsThroughCopy :: "retrieve_job_to_add list \<Rightarrow> retrieve_queue_shard oo \<Rightarrow> exn + retrieve_queue_shard oo" where
  "rqs_addJobsThroughCopy jobsToAdd ob = rbind (checkPayloadWritable ob) (\<lambda>_.
     let p = oo_payload ob;
         jobsSet = multiset_of_hinted rjp_fseq (rqs_retrievejobs p);
         serializedJobsToAdd = multiset_of_hinted rjp_fseq (map rqs_job_pointer jobsToAdd);
         totalSize = fold (\<lambda>jobToAdd acc. acc + rja_fileSize jobToAdd) jobsToAdd (rqs_retrievejobstotalsize p);
         jobsSet' = fold (multiset_insert rjp_fseq) serializedJobsToAdd jobsSet
     in Inr (ob\<lparr>oo_payload := p\<lparr>rqs_retrievejobs := jobsSet', rqs_retrievejobstotalsize := totalSize\<rparr>\<rparr>))"

text \<open>
  \<open>jobsToAdd\<close> is the ordered set, sorted by \<open>fSeq\<close>. The sizes are below \<open>2 ^ 31\<close> (the size of a repeated
  field), so that the cost comparison does not overflow.
\<close>

definition rqs_addJobsBatch :: "retrieve_job_to_add list \<Rightarrow> retrieve_queue_shard oo \<Rightarrow> exn + retrieve_queue_shard oo" where
  "rqs_addJobsBatch jobsToAdd ob = rbind (checkPayloadWritable ob) (\<lambda>_.
     if jobsToAdd = [] then Inr ob
     else let fs = map rjp_fseq (rqs_retrievejobs (oo_payload ob));
              N = length fs;
              k = length jobsToAdd
          in case rqs_find_Np fs (rja_fSeq (hd jobsToAdd)) of
               None \<Rightarrow> Inl OutOfFuel
             | Some Np \<Rightarrow> if 3 * (k + 1) * Np div 2 > 2 * N + 3 * k
                         then rqs_addJobsThroughCopy jobsToAdd ob
                         else rqs_addJobsInPlace jobsToAdd ob)"

section \<open>Contract of the removal\<close>

lemma rqs_remove_payload_eq:
  "rqs_remove_payload as p =
     (let out = taken_out rjp_address as (rqs_retrievejobs p);
          kept = filter (\<lambda>j. rjp_address j \<notin> set as) (rqs_retrievejobs p);
          total = rqs_retrievejobstotalsize p - (\<Sum>j\<leftarrow>out. rjp_size j)
      in (\<lparr>rmr_jobsRemoved = of_nat (length out), rmr_jobsAfter = of_nat (length kept),
           rmr_bytesRemoved = (\<Sum>j\<leftarrow>out. rjp_size j), rmr_bytesAfter = total,
           rmr_removedJobs = map rqs_removed_job_info out\<rparr>,
          p\<lparr>rqs_retrievejobs := kept, rqs_retrievejobstotalsize := total\<rparr>))"
  by (simp add: rqs_remove_payload_def remove_addresses_eq fold_account_removal removal_result_init_def Let_def)

interpretation rqs: job_shard rqs_retrievejobs rjp_address rjp_size rqs_removed_job_info
  rqs_retrievejobstotalsize rqs_remove_payload
  by unfold_locales (simp_all add: rqs_remove_payload_eq Let_def)

section \<open>Order\<close>

abbreviation fseq_sorted :: "retrieve_job_pointer list \<Rightarrow> bool" where
  "fseq_sorted js \<equiv> sorted (map rjp_fseq js)"

lemma mset_insert_at: "mset (insert_at i x xs) = add_mset x (mset xs)"
proof -
  have "mset (take i xs) + mset (drop i xs) = mset xs" by (metis append_take_drop_id mset_append)
  then show ?thesis by (simp add: insert_at_def)
qed

lemma take_below_upper_bound: "i \<le> upper_bound key k xs \<Longrightarrow> y \<in> set (take i xs) \<Longrightarrow> key y \<le> k"
  unfolding upper_bound_def
  by (metis (mono_tags, lifting) set_take_subset_set_take set_takeWhileD subsetD takeWhile_eq_take)

lemma drop_above_lower_bound:
  assumes "sorted (map key xs)" and "lower_bound key k xs \<le> i" and "y \<in> set (drop i xs)"
  shows "k \<le> key y"
proof -
  have "y \<in> set (dropWhile (\<lambda>y. key y < k) xs)"
    using assms(2,3) unfolding lower_bound_def by (metis dropWhile_eq_drop set_drop_subset_set_drop subsetD)
  moreover have "sorted (map key (dropWhile (\<lambda>y. key y < k) xs))"
    using assms(1) by (metis dropWhile_eq_drop drop_map sorted_wrt_drop)
  moreover have "dropWhile (\<lambda>y. key y < k) xs \<noteq> [] \<Longrightarrow> \<not> key (hd (dropWhile (\<lambda>y. key y < k) xs)) < k"
    by (rule hd_dropWhile)
  ultimately show ?thesis by (cases "dropWhile (\<lambda>y. key y < k) xs") auto
qed

lemma sorted_insert_at:
  assumes "sorted (map key xs)" and "lower_bound key (key x) xs \<le> i" and "i \<le> upper_bound key (key x) xs"
  shows "sorted (map key (insert_at i x xs))"
proof -
  have "sorted (map key (take i xs))" "sorted (map key (drop i xs))"
    using assms(1) by (metis sorted_wrt_take take_map, metis sorted_wrt_drop drop_map)
  then show ?thesis
    using take_below_upper_bound [OF assms(3)] drop_above_lower_bound [OF assms(1,2)]
    by (auto simp: insert_at_def sorted_append intro: order_trans)
qed

lemma lower_le_upper_bound: "lower_bound key k xs \<le> upper_bound key k xs"
  unfolding lower_bound_def upper_bound_def by (induction xs) auto

lemma multiset_insert_sorted: "sorted (map key xs) \<Longrightarrow> sorted (map key (multiset_insert key x xs))"
  by (simp add: multiset_insert_def sorted_insert_at lower_le_upper_bound)

lemma multiset_insert_hint_sorted: "sorted (map key xs) \<Longrightarrow> sorted (map key (snd (multiset_insert_hint key i x xs)))"
  using lower_le_upper_bound [of key "key x" xs] by (simp add: multiset_insert_hint_def Let_def sorted_insert_at)

lemma mset_multiset_insert [simp]:
  "mset (multiset_insert key x xs) = add_mset x (mset xs)"
  "mset (snd (multiset_insert_hint key i x xs)) = add_mset x (mset xs)"
  by (simp_all add: multiset_insert_def multiset_insert_hint_def Let_def mset_insert_at)

lemma multiset_of_hinted_fold:
  assumes "sorted (map key s)"
  shows "let r = snd (fold (\<lambda>x (i, s). multiset_insert_hint key i x s) xs (i, s))
         in sorted (map key r) \<and> mset r = mset s + mset xs"
  using assms
proof (induction xs arbitrary: i s)
  case (Cons x xs)
  obtain i' s' where h: "multiset_insert_hint key i x s = (i', s')" by (cases "multiset_insert_hint key i x s")
  have "sorted (map key s')" "mset s' = add_mset x (mset s)"
    using multiset_insert_hint_sorted [OF Cons.prems, of i x] mset_multiset_insert(2) [of key i x s] by (simp_all add: h)
  with Cons.IH [of s' i'] show ?case by (simp add: h Let_def)
qed simp

lemma multiset_of_hinted_sorted:
  "sorted (map key (multiset_of_hinted key xs))" "mset (multiset_of_hinted key xs) = mset xs"
  using multiset_of_hinted_fold [of key "[]" xs 0] by (simp_all add: multiset_of_hinted_def Let_def)

lemma fold_multiset_insert:
  "sorted (map key s) \<Longrightarrow> sorted (map key (fold (multiset_insert key) xs s)) \<and> mset (fold (multiset_insert key) xs s) = mset s + mset xs"
  by (induction xs arbitrary: s) (simp_all add: multiset_insert_sorted)

text \<open>Sifting the new job down from the end is the insertion at the upper bound.\<close>

lemma upper_bound_snoc:
  "upper_bound key k (us @ [y]) = (if \<forall>u \<in> set us. key u \<le> k then if key y \<le> k then Suc (length us) else length us else upper_bound key k us)"
  by (auto simp: upper_bound_def takeWhile_append)

lemma upper_bound_all: "\<forall>u \<in> set us. key u \<le> k \<Longrightarrow> upper_bound key k us = length us"
  by (simp add: upper_bound_def takeWhile_eq_all_conv [THEN iffD2])

lemma rqs_sift_down_eq:
  "fseq_sorted us \<Longrightarrow> rqs_sift_down (length us) (us @ x # vs) = multiset_insert rjp_fseq x us @ vs"
proof (induction us arbitrary: vs rule: rev_induct)
  case Nil
  then show ?case by (simp add: multiset_insert_def insert_at_def)
next
  case (snoc y us)
  have sorted: "fseq_sorted us" and le: "\<forall>u \<in> set us. rjp_fseq u \<le> rjp_fseq y" using snoc.prems by (auto simp: sorted_append)
  show ?case
  proof (cases "rjp_fseq x < rjp_fseq y")
    case True
    have "upper_bound rjp_fseq (rjp_fseq x) (us @ [y]) = upper_bound rjp_fseq (rjp_fseq x) us"
      using True by (auto simp: upper_bound_snoc upper_bound_all dest: leD)
    moreover have "upper_bound rjp_fseq (rjp_fseq x) us \<le> length us" by (simp add: upper_bound_def length_takeWhile_le)
    ultimately have "multiset_insert rjp_fseq x (us @ [y]) = multiset_insert rjp_fseq x us @ [y]"
      by (simp add: multiset_insert_def insert_at_def)
    moreover have "rqs_sift_down (length (us @ [y])) ((us @ [y]) @ x # vs) = rqs_sift_down (length us) (us @ x # y # vs)"
      using True swap_elements_adjacent [of us y x vs] by (simp add: nth_append)
    ultimately show ?thesis using snoc.IH [OF sorted, of "y # vs"] by simp
  next
    case False
    then have "upper_bound rjp_fseq (rjp_fseq x) (us @ [y]) = length (us @ [y])" using le by (intro upper_bound_all) force
    with False show ?thesis by (simp add: multiset_insert_def insert_at_def nth_append)
  qed
qed

section \<open>The bisection\<close>

text \<open>
  What holds of the three indexes at each turn. The upper index is the last one or points at a job beyond
  the limit, the lower one is the first or points at a job within it.
\<close>

definition bisect_inv :: "u64 list \<Rightarrow> u64 \<Rightarrow> nat \<Rightarrow> nat \<Rightarrow> nat \<Rightarrow> bool" where
  "bisect_inv fs limit lo hi i \<longleftrightarrow> 2 \<le> length fs \<and> lo < hi \<and> hi < length fs \<and> lo \<le> i \<and> 0 < i
     \<and> (i < hi \<or> length fs = 2 \<and> i = hi) \<and> (lo < i \<or> hi = Suc lo)
     \<and> (hi = length fs - 1 \<or> limit < fs ! hi) \<and> (lo = 0 \<or> fs ! lo \<le> limit)"

lemma bisect_inv_init: "2 \<le> length fs \<Longrightarrow> bisect_inv fs limit 0 (length fs - 1) (length fs div 2)"
  by (auto simp: bisect_inv_def)

lemma bisect_inv_left:
  assumes "bisect_inv fs limit lo hi i" and "limit < fs ! i" and "(lo + i) div 2 \<noteq> 0"
  shows "bisect_inv fs limit lo i ((lo + i) div 2)" and "i - lo < hi - lo"
proof -
  have "lo \<noteq> i" using assms(1,2) by (auto simp: bisect_inv_def)
  with assms show "bisect_inv fs limit lo i ((lo + i) div 2)" "i - lo < hi - lo"
    by (auto simp: bisect_inv_def)
qed

lemma bisect_inv_right:
  assumes "bisect_inv fs limit lo hi i" and "\<not> limit < fs ! i" and "\<not> length fs - 1 \<le> i"
    and "\<not> limit < fs ! (i + 1)" and "i + 1 \<noteq> length fs - 1"
  shows "bisect_inv fs limit i hi ((i + hi) div 2)" and "hi - i < hi - lo"
proof -
  have "hi \<noteq> Suc i" and "i < hi" using assms by (auto simp: bisect_inv_def)
  with assms show "bisect_inv fs limit i hi ((i + hi) div 2)" "hi - i < hi - lo"
    by (auto simp: bisect_inv_def not_less)
qed

lemma rqs_bisect_terminates:
  "bisect_inv fs limit lo hi i \<Longrightarrow> hi - lo < fuel \<Longrightarrow> \<exists>n. rqs_bisect fuel fs limit lo hi i = Some n"
proof (induction fuel arbitrary: lo hi i)
  case (Suc fuel)
  note left = bisect_inv_left [OF Suc.prems(1)] and right = bisect_inv_right [OF Suc.prems(1)]
  consider (A) "limit < fs ! i" | (B) "\<not> limit < fs ! i" by blast
  then show ?case
  proof cases
    case A
    with left Suc.IH [of lo i "(lo + i) div 2"] Suc.prems(2) show ?thesis
      by (cases "(lo + i) div 2 = 0") (auto simp: Let_def)
  next
    case B
    with right Suc.IH [of i hi "(i + hi) div 2"] Suc.prems(2) show ?thesis
      by (cases "\<not> length fs - 1 \<le> i \<and> \<not> limit < fs ! (i + 1) \<and> i + 1 \<noteq> length fs - 1") (auto simp: Let_def)
  qed
qed simp

text \<open>On a sorted shard the bisection counts the jobs beyond the limit: \<open>c\<close> is where they start.\<close>

lemma rqs_bisect_value:
  assumes "bisect_inv fs limit lo hi i" and "rqs_bisect fuel fs limit lo hi i = Some n"
    and split: "\<And>j. j < length fs \<Longrightarrow> fs ! j \<le> limit \<longleftrightarrow> j < c" and "c \<le> length fs"
  shows "n = length fs - c"
  using assms(1,2)
proof (induction fuel arbitrary: lo hi i)
  case (Suc fuel)
  note left = bisect_inv_left [OF Suc.prems(1)] and right = bisect_inv_right [OF Suc.prems(1)]
  have bounds: "2 \<le> length fs" "i < length fs" "0 < i" "lo \<le> i" using Suc.prems(1) by (auto simp: bisect_inv_def)
  consider (A) "limit < fs ! i" | (last) "\<not> limit < fs ! i" "length fs - 1 \<le> i"
    | (found) "\<not> limit < fs ! i" "\<not> length fs - 1 \<le> i" "limit < fs ! (i + 1)"
    | (all) "\<not> limit < fs ! i" "\<not> length fs - 1 \<le> i" "\<not> limit < fs ! (i + 1)" "i + 1 = length fs - 1"
    | (B) "\<not> limit < fs ! i" "\<not> length fs - 1 \<le> i" "\<not> limit < fs ! (i + 1)" "i + 1 \<noteq> length fs - 1" by blast
  then show ?case
  proof cases
    case A
    show ?thesis
    proof (cases "(lo + i) div 2 = 0")
      case True
      then have "lo = 0" "i = 1" using bounds by auto
      moreover have "0 < length fs" "1 < length fs" using bounds by linarith+
      note split [OF this(1)] split [OF this(2)]
      ultimately show ?thesis
        using A bounds assms(4) Suc.prems(2) True by (cases "fs ! 0 \<le> limit") (auto simp: Let_def)
    next
      case False
      with A left Suc.IH [of lo i "(lo + i) div 2"] Suc.prems(2) show ?thesis by (simp add: Let_def)
    qed
  next
    case last
    then have "i = length fs - 1" using bounds by simp
    moreover have le: "fs ! i \<le> limit" using last(1) by simp
    ultimately have "n = 0" using Suc.prems(2) last by simp
    moreover have "i < c" using le split [OF bounds(2)] by simp
    ultimately show ?thesis using \<open>i = length fs - 1\<close> by simp
  next
    case found
    then have "n = length fs - i - 1" using Suc.prems(2) by (simp add: Let_def)
    moreover have "i + 1 < length fs" using found(2) by linarith
    then have "i < c" "\<not> i + 1 < c" using found split [OF bounds(2)] split [of "i + 1"] by auto
    ultimately show ?thesis by simp
  next
    case all
    then have "n = 0" using Suc.prems(2) by (simp add: Let_def)
    moreover have "i + 1 < length fs" using all(2) by linarith
    then have "i + 1 < c" using all(3) split [of "i + 1"] by (simp add: not_less)
    ultimately show ?thesis using all(4) by simp
  next
    case B
    with right Suc.IH [of i hi "(i + hi) div 2"] Suc.prems(2) show ?thesis by (simp add: Let_def)
  qed
qed simp

lemma sorted_filter_le_split:
  fixes fs :: "u64 list"
  assumes "sorted fs" and "j < length fs"
  shows "fs ! j \<le> limit \<longleftrightarrow> j < length (filter (\<lambda>f. f \<le> limit) fs)"
  using assms
proof (induction fs arbitrary: j)
  case (Cons f fs)
  show ?case
  proof (cases "f \<le> limit")
    case True
    with Cons show ?thesis by (cases j) auto
  next
    case False
    with Cons.prems(1) have "\<forall>g \<in> set fs. \<not> g \<le> limit" by (auto dest: order_trans)
    then have "filter (\<lambda>f. f \<le> limit) (f # fs) = []" using False by (simp add: filter_empty_conv)
    moreover have "\<not> (f # fs) ! j \<le> limit"
      using False \<open>\<forall>g \<in> set fs. \<not> g \<le> limit\<close> Cons.prems(2) by (cases j) auto
    ultimately show ?thesis by simp
  qed
qed simp

lemma rqs_find_Np_terminates: "\<exists>n. rqs_find_Np fs limit = Some n"
proof -
  have "2 \<le> length fs \<Longrightarrow> \<exists>n. rqs_bisect (2 * length fs) fs limit 0 (length fs - 1) (length fs div 2) = Some n"
    by (rule rqs_bisect_terminates [OF bisect_inv_init]) simp_all
  moreover have "length fs = 0 \<or> length fs = 1 \<or> 2 \<le> length fs" by linarith
  ultimately show ?thesis unfolding rqs_find_Np_def Let_def by fastforce
qed

lemma rqs_find_Np_sorted:
  assumes "sorted fs"
  shows "rqs_find_Np fs limit = Some (length (filter (\<lambda>f. limit < f) fs))"
proof -
  let ?c = "length (filter (\<lambda>f. f \<le> limit) fs)"
  have split: "fs ! j \<le> limit \<longleftrightarrow> j < ?c" if "j < length fs" for j
    by (rule sorted_filter_le_split [OF assms that])
  have len: "length (filter (\<lambda>f. limit < f) fs) = length fs - ?c"
    using sum_length_filter_compl [of "\<lambda>f. f \<le> limit" fs] by (simp add: not_le)
  obtain n where n: "rqs_find_Np fs limit = Some n" using rqs_find_Np_terminates by blast
  consider "length fs = 0" | "length fs = 1" | "2 \<le> length fs" by linarith
  then have "n = length fs - ?c"
  proof cases
    case 3
    then have "rqs_bisect (2 * length fs) fs limit 0 (length fs - 1) (length fs div 2) = Some n"
      using n unfolding rqs_find_Np_def Let_def by (simp split: if_splits)
    from rqs_bisect_value [OF bisect_inv_init [OF 3] this split] show ?thesis by simp
  next
    case 2
    then show ?thesis using n split [of 0] by (cases "fs ! 0 \<le> limit") (auto simp: rqs_find_Np_def Let_def length_Suc_conv)
  qed (use n in \<open>simp add: rqs_find_Np_def\<close>)
  with n len show ?thesis by simp
qed

section \<open>Adding jobs\<close>

lemma rqs_addJob_eq:
  assumes "checkPayloadWritable ob = Inr ()" and "fseq_sorted (rqs_retrievejobs (oo_payload ob))"
  shows "rqs_addJob j ob = Inr (ob\<lparr>oo_payload := (oo_payload ob)
    \<lparr>rqs_retrievejobs := multiset_insert rjp_fseq (rqs_job_pointer j) (rqs_retrievejobs (oo_payload ob)),
     rqs_retrievejobstotalsize := rqs_retrievejobstotalsize (oo_payload ob) + rja_fileSize j\<rparr>\<rparr>)"
  using assms rqs_sift_down_eq [OF assms(2), of "rqs_job_pointer j" "[]"] by (simp add: rqs_addJob_def Let_def)

text \<open>\<open>rqs_added p js p'\<close>: \<open>p'\<close> is the shard \<open>p\<close> with the jobs \<open>js\<close> added, in order.\<close>

definition rqs_added :: "retrieve_queue_shard \<Rightarrow> retrieve_job_to_add list \<Rightarrow> retrieve_queue_shard \<Rightarrow> bool" where
  "rqs_added p js p' \<longleftrightarrow> fseq_sorted (rqs_retrievejobs p')
     \<and> mset (rqs_retrievejobs p') = mset (rqs_retrievejobs p) + mset (map rqs_job_pointer js)
     \<and> rqs_retrievejobstotalsize p' = rqs_retrievejobstotalsize p + (\<Sum>j\<leftarrow>js. rja_fileSize j)"

lemma checkPayloadWritable_payload [simp]: "checkPayloadWritable (ob\<lparr>oo_payload := p\<rparr>) = checkPayloadWritable ob"
  by (simp add: check_defs)

lemma rqs_addJobsInPlace_added:
  assumes "checkPayloadWritable ob = Inr ()" and "fseq_sorted (rqs_retrievejobs (oo_payload ob))"
  shows "\<exists>p'. rqs_addJobsInPlace js ob = Inr (ob\<lparr>oo_payload := p'\<rparr>) \<and> rqs_added (oo_payload ob) js p'"
  using assms
proof (induction js arbitrary: ob)
  case Nil
  then show ?case by (intro exI [of _ "oo_payload ob"]) (simp add: rqs_addJobsInPlace_def rqs_added_def)
next
  case (Cons j js)
  let ?p = "oo_payload ob"
  define p1 where "p1 = ?p\<lparr>rqs_retrievejobs := multiset_insert rjp_fseq (rqs_job_pointer j) (rqs_retrievejobs ?p),
     rqs_retrievejobstotalsize := rqs_retrievejobstotalsize ?p + rja_fileSize j\<rparr>"
  have step: "rqs_addJob j ob = Inr (ob\<lparr>oo_payload := p1\<rparr>)" using rqs_addJob_eq [OF Cons.prems] by (simp add: p1_def)
  have "fseq_sorted (rqs_retrievejobs p1)" using Cons.prems(2) by (simp add: p1_def multiset_insert_sorted)
  with Cons.IH [of "ob\<lparr>oo_payload := p1\<rparr>"] Cons.prems(1) obtain p' where
    "rqs_addJobsInPlace js (ob\<lparr>oo_payload := p1\<rparr>) = Inr (ob\<lparr>oo_payload := p'\<rparr>)" "rqs_added p1 js p'" by auto
  with step show ?case
    by (intro exI [of _ p']) (simp add: rqs_addJobsInPlace_def rqs_added_def p1_def ac_simps)
qed

lemma rqs_addJobsThroughCopy_added:
  assumes "checkPayloadWritable ob = Inr ()"
  shows "\<exists>p'. rqs_addJobsThroughCopy js ob = Inr (ob\<lparr>oo_payload := p'\<rparr>) \<and> rqs_added (oo_payload ob) js p'"
proof -
  let ?p = "oo_payload ob"
  let ?set = "multiset_of_hinted rjp_fseq (rqs_retrievejobs ?p)" and ?new = "multiset_of_hinted rjp_fseq (map rqs_job_pointer js)"
  define p' where "p' = ?p\<lparr>rqs_retrievejobs := fold (multiset_insert rjp_fseq) ?new ?set,
    rqs_retrievejobstotalsize := fold (\<lambda>j acc. acc + rja_fileSize j) js (rqs_retrievejobstotalsize ?p)\<rparr>"
  have tot: "fold (\<lambda>j acc. acc + rja_fileSize j) js a = a + (\<Sum>j\<leftarrow>js. rja_fileSize j)" for a
    by (induction js arbitrary: a) (simp_all add: ac_simps)
  have "rqs_added ?p js p'"
    using fold_multiset_insert [OF multiset_of_hinted_sorted(1), where xs = ?new]
    by (simp add: rqs_added_def p'_def tot multiset_of_hinted_sorted(2))
  then show ?thesis using assms by (intro exI [of _ p']) (simp add: rqs_addJobsThroughCopy_def Let_def p'_def)
qed

lemma rqs_addJobsBatch_added:
  assumes "checkPayloadWritable ob = Inr ()" and "fseq_sorted (rqs_retrievejobs (oo_payload ob))"
  shows "\<exists>p'. rqs_addJobsBatch js ob = Inr (ob\<lparr>oo_payload := p'\<rparr>) \<and> rqs_added (oo_payload ob) js p'"
proof (cases "js = []")
  case True
  with assms show ?thesis by (intro exI [of _ "oo_payload ob"]) (simp add: rqs_addJobsBatch_def rqs_added_def)
next
  case False
  obtain Np where "rqs_find_Np (map rjp_fseq (rqs_retrievejobs (oo_payload ob))) (rja_fSeq (hd js)) = Some Np"
    using rqs_find_Np_terminates by blast
  then have "rqs_addJobsBatch js ob = rqs_addJobsThroughCopy js ob \<or> rqs_addJobsBatch js ob = rqs_addJobsInPlace js ob"
    using assms(1) False by (simp add: rqs_addJobsBatch_def Let_def)
  then show ?thesis
    using rqs_addJobsInPlace_added [OF assms, of js] rqs_addJobsThroughCopy_added [OF assms(1), of js] by metis
qed

text \<open>Without two jobs at the same position there is one such shard.\<close>

lemma sorted_map_unique:
  assumes "sorted (map f xs)" and "sorted (map f ys)" and "mset xs = mset ys" and "distinct (map f xs)"
  shows "xs = ys"
proof -
  have "mset (map f xs) = mset (map f ys)" using assms(3) by simp
  with assms(1,2) have "map f xs = map f ys" by (metis properties_for_sort)
  moreover have "inj_on f (set xs \<union> set ys)" using assms(4) mset_eq_setD [OF assms(3)] by (simp add: distinct_map)
  ultimately show ?thesis by (rule map_inj_on)
qed

lemma rqs_added_unique:
  assumes "rqs_added p js p1" and "rqs_added p js p2" and "distinct (map rjp_fseq (rqs_retrievejobs p) @ map rja_fSeq js)"
  shows "p1 = p2"
proof -
  have ms: "mset (rqs_retrievejobs p1) = mset (rqs_retrievejobs p2)" "mset (rqs_retrievejobs p1) = mset (rqs_retrievejobs p @ map rqs_job_pointer js)"
    using assms(1,2) by (simp_all add: rqs_added_def)
  have "distinct (map rjp_fseq (rqs_retrievejobs p @ map rqs_job_pointer js))"
    using assms(3) by (simp add: rqs_job_pointer_def comp_def)
  then have "distinct (map rjp_fseq (rqs_retrievejobs p1))"
    using ms(2) by (metis mset_eq_imp_distinct_iff mset_map)
  then have "rqs_retrievejobs p1 = rqs_retrievejobs p2"
    by (intro sorted_map_unique [OF _ _ ms(1)]) (use assms(1,2) in \<open>simp_all add: rqs_added_def\<close>)
  then show ?thesis using assms(1,2) by (simp add: rqs_added_def)
qed

lemma rqs_getJobsSummary_sorted:
  assumes "checkPayloadReadable ob = Inr ()" and "fseq_sorted (rqs_retrievejobs (oo_payload ob))"
    and "js = rqs_retrievejobs (oo_payload ob)" and "js \<noteq> []"
  shows "rqs_getJobsSummary ob = Inr \<lparr>rqss_jobs = of_nat (length js), rqss_bytes = rqs_retrievejobstotalsize (oo_payload ob),
    rqss_minFseq = Min (rjp_fseq ` set js), rqss_maxFseq = Max (rjp_fseq ` set js)\<rparr>"
proof -
  have sorted: "fseq_sorted js" using assms(2,3) by simp
  have "rjp_fseq (js ! 0) = Min (rjp_fseq ` set js)"
    using sorted assms(4) by (cases js) (auto intro!: Min_eqI [symmetric])
  moreover have "rjp_fseq (js ! (length js - 1)) = Max (rjp_fseq ` set js)"
    using sorted assms(4) by (cases js rule: rev_cases) (auto simp: sorted_append nth_append intro!: Max_eqI [symmetric])
  moreover have "\<not> Max (rjp_fseq ` set js) < Min (rjp_fseq ` set js)"
    using assms(4) by (meson List.finite_set Max_ge Min_le finite_imageI image_is_empty leD all_not_in_conv order_trans set_empty)
  ultimately show ?thesis using assms by (simp add: rqs_getJobsSummary_def Let_def)
qed

end
