(* ===== verification/RetrieveQueue.thy ===== *)
theory RetrieveQueue
  imports RetrieveQueueShard "HOL-Library.Char_ord" "HOL-Library.List_Lexorder"
begin

text \<open>
  \<open>objectstore/RetrieveQueue.cpp\<close>: the queue of the retrieve jobs of a tape. Its shards cover successive
  ranges of positions on tape (\<open>fSeq\<close>). An addition first plans in which shard each job goes, splitting
  full shards, and then executes the plan shard by shard. The member \<open>m_maxShardSize\<close>, which is read from
  the payload when the object is fetched, is an argument of the operations that use it.
\<close>

section \<open>Life cycle and coherency\<close>

abbreviation "rq_c \<equiv> retrieve_queue_codec"
abbreviation "rqs_c \<equiv> retrieve_queue_shard_codec"

definition c_defaultMaxShardSize :: u64 where
  "c_defaultMaxShardSize = 25000"

definition rq_empty :: retrieve_queue where
  "rq_empty = \<lparr>rq_vid = '''', rq_retrievequeueshards = [], rq_prioritymap = [], rq_minretrieverequestagemap = [],
     rq_mountpolicynamemap = [], rq_activity_map = [], rq_retrievejobstotalsize = 0, rq_retrievejobscount = 0,
     rq_oldestjobcreationtime = 0, rq_mapsrebuildcount = 0, rq_maxshardsize = 0, rq_sleep_for_free_space_since = None,
     rq_disk_system_slept_for = '''', rq_sleep_time = 0, rq_youngestjobcreationtime = 0\<rparr>"

definition rq_initialize :: "string \<Rightarrow> u64 \<Rightarrow> retrieve_queue oo \<Rightarrow> exn + retrieve_queue oo" where
  "rq_initialize vid maxShardSize ob = rbind (oo_initialize ob) (\<lambda>ob1.
     Inr (ob1\<lparr>oo_payload := (oo_payload ob1)\<lparr>rq_oldestjobcreationtime := 0, rq_youngestjobcreationtime := 0,
            rq_retrievejobstotalsize := 0, rq_retrievejobscount := 0, rq_vid := vid, rq_mapsrebuildcount := 0,
            rq_maxshardsize := maxShardSize\<rparr>,
          oo_payloadInterpreted := True\<rparr>))"

definition rq_checkMapsAndShardsCoherency :: "retrieve_queue oo \<Rightarrow> exn + bool" where
  "rq_checkMapsAndShardsCoherency ob = rbind (checkPayloadReadable ob) (\<lambda>_.
     let p = oo_payload ob;
         bytesFromShardPointers = fold (\<lambda>rqs acc. acc + rqsp_shardbytescount rqs) (rq_retrievequeueshards p) 0;
         jobsExpectedFromShardsPointers = fold (\<lambda>rqs acc. acc + rqsp_shardjobscount rqs) (rq_retrievequeueshards p) 0
     in if rq_retrievejobstotalsize p \<noteq> bytesFromShardPointers
           \<or> rq_retrievejobscount p \<noteq> jobsExpectedFromShardsPointers then Inr False
        else rbind (total (rq_prioritymap p)) (\<lambda>t1.
          if t1 \<noteq> rq_retrievejobscount p then Inr False
          else rbind (total (rq_minretrieverequestagemap p)) (\<lambda>t2.
            if t2 \<noteq> rq_retrievejobscount p then Inr False
            else rbind (total (rq_mountpolicynamemap p)) (\<lambda>t3.
              Inr (t3 = rq_retrievejobscount p)))))"

section \<open>Rebuild\<close>

record rq_rebuild_state =
  rr_payload :: retrieve_queue
  rr_totalJobs :: u64
  rr_totalBytes :: u64
  rr_oldest :: time_t
  rr_youngest :: time_t

text \<open>The counters of one shard.\<close>

record rq_shard_counters =
  sc_jobs :: u64
  sc_size :: u64
  sc_minFseq :: u64
  sc_maxFseq :: u64

definition rq_rebuild_job ::
  "rq_rebuild_state \<times> rq_shard_counters \<Rightarrow> rqs_job_info \<Rightarrow> exn + rq_rebuild_state \<times> rq_shard_counters" where
  "rq_rebuild_job = (\<lambda>(st, c) j.
     rbind (incCount (rji_priority j) (rq_prioritymap (rr_payload st))) (\<lambda>pm.
     rbind (incCount (rji_minRetrieveRequestAge j) (rq_minretrieverequestagemap (rr_payload st))) (\<lambda>am.
     rbind (incCount (rji_mountPolicyName j) (rq_mountpolicynamemap (rr_payload st))) (\<lambda>mm.
     Inr (st\<lparr>rr_payload := (rr_payload st)\<lparr>rq_prioritymap := pm, rq_minretrieverequestagemap := am,
                rq_mountpolicynamemap := mm\<rparr>,
             rr_oldest := (if rji_startTime j <s rr_oldest st then rji_startTime j else rr_oldest st),
             rr_youngest := (if rr_youngest st <s rji_startTime j then rji_startTime j else rr_youngest st)\<rparr>,
          c\<lparr>sc_jobs := sc_jobs c + 1, sc_size := sc_size c + rji_size j,
            sc_minFseq := (if rji_fSeq j < sc_minFseq c then rji_fSeq j else sc_minFseq c),
            sc_maxFseq := (if rji_fSeq j > sc_maxFseq c then rji_fSeq j else sc_maxFseq c)\<rparr>)))))"

definition rq_erase_pointer :: "string \<Rightarrow> retrieve_queue \<Rightarrow> retrieve_queue" where
  "rq_erase_pointer address p =
     p\<lparr>rq_retrievequeueshards := filter (\<lambda>sp. rqsp_address sp \<noteq> address) (rq_retrievequeueshards p)\<rparr>"

definition rq_record_summary :: "string \<Rightarrow> rq_shard_counters \<Rightarrow> retrieve_queue \<Rightarrow> exn + retrieve_queue" where
  "rq_record_summary address c p =
     (let i = find_index (\<lambda>sp. rqsp_address sp = address) (rq_retrievequeueshards p)
      in if i = length (rq_retrievequeueshards p) then Inl (CtaException ''RetrieveQueue::rebuild'')
         else Inr (p\<lparr>rq_retrievequeueshards := (rq_retrievequeueshards p)
           [i := (rq_retrievequeueshards p ! i)\<lparr>rqsp_shardjobscount := sc_jobs c, rqsp_shardbytescount := sc_size c,
                    rqsp_maxfseq := sc_maxFseq c, rqsp_minfseq := sc_minFseq c\<rparr>]\<rparr>))"

definition rq_repair_shard :: "retrieve_queue oo \<Rightarrow> string \<Rightarrow> (world, unit) prog" where
  "rq_repair_shard ob address =
     bnd (liftr (rqs_at address)) (\<lambda>rqs.
     bnd (liftr (include_in_exclusive_lock ob rqs)) (\<lambda>rqs.
     bnd (oo_fetch rqs_c rqs) (\<lambda>rqs.
     bnd (liftr (rqs_rebuild rqs)) (\<lambda>rqs.
     oo_commit rqs_c rqs))))"

definition rq_rebuild_shard ::
  "retrieve_queue oo \<Rightarrow> rq_rebuild_state \<Rightarrow> string \<times> (exn + retrieve_queue_shard oo) \<Rightarrow> (world, rq_rebuild_state) prog" where
  "rq_rebuild_shard ob st = (\<lambda>(address, fetched). case fetched of
     Inl NoSuchObject \<Rightarrow> ret (st\<lparr>rr_payload := rq_erase_pointer address (rr_payload st)\<rparr>)
   | Inl e \<Rightarrow> throw e
   | Inr s \<Rightarrow>
       bnd (liftr (rqs_dumpJobs s)) (\<lambda>dumped.
       bnd (liftr (foldR rq_rebuild_job (st, \<lparr>sc_jobs = 0, sc_size = 0, sc_minFseq = - 1, sc_maxFseq = 0\<rparr>) dumped))
         (\<lambda>(st1, c).
       bnd (liftr (rq_record_summary address c (rr_payload st1))) (\<lambda>p.
       bnd (liftr (rqs_getJobsSummary s)) (\<lambda>summary.
       bnd (if sc_size c \<noteq> rqss_bytes summary then rq_repair_shard ob address else ret ()) (\<lambda>_.
       ret (st1\<lparr>rr_payload := p, rr_totalJobs := rr_totalJobs st1 + sc_jobs c,
                rr_totalBytes := rr_totalBytes st1 + sc_size c\<rparr>)))))))"

definition rq_rebuild :: "retrieve_queue oo \<Rightarrow> (world, retrieve_queue oo) prog" where
  "rq_rebuild ob =
     bnd (liftr (checkPayloadWritable ob)) (\<lambda>_.
     let p = oo_payload ob;
         p0 = p\<lparr>rq_prioritymap := clear (rq_prioritymap p),
                rq_minretrieverequestagemap := clear (rq_minretrieverequestagemap p),
                rq_mountpolicynamemap := clear (rq_mountpolicynamemap p)\<rparr>
     in bnd (lockfree_fetch_all rqs_c rqs_empty (map rqsp_address (rq_retrievequeueshards p0))) (\<lambda>fetched.
        bnd (foldM (rq_rebuild_shard ob)
               \<lparr>rr_payload = p0, rr_totalJobs = 0, rr_totalBytes = 0, rr_oldest = time_t_max, rr_youngest = time_t_min\<rparr>
               fetched) (\<lambda>st.
        ret (ob\<lparr>oo_payload := (rr_payload st)\<lparr>rq_retrievejobscount := rr_totalJobs st,
               rq_retrievejobstotalsize := rr_totalBytes st,
               rq_oldestjobcreationtime := rr_oldest st,
               rq_youngestjobcreationtime := rr_youngest st\<rparr>\<rparr>))))"

definition rq_commit :: "retrieve_queue oo \<Rightarrow> (world, retrieve_queue oo) prog" where
  "rq_commit ob =
     bnd (liftr (rq_checkMapsAndShardsCoherency ob)) (\<lambda>coherent.
     bnd (if \<not> coherent
          then bnd (rq_rebuild ob) (\<lambda>ob1. ret (ob1\<lparr>oo_payload := (oo_payload ob1)
                 \<lparr>rq_mapsrebuildcount := rq_mapsrebuildcount (oo_payload ob1) + 1\<rparr>\<rparr>))
          else ret ob) (\<lambda>ob1.
     bnd (oo_commit rq_c ob1) (\<lambda>_. ret ob1)))"

text \<open>\<open>getPayloadFromHeader\<close> also refreshes \<open>m_maxShardSize\<close>.\<close>

definition rq_getPayloadFromHeader :: "object_header \<Rightarrow> retrieve_queue oo \<Rightarrow> exn + retrieve_queue oo \<times> u64" where
  "rq_getPayloadFromHeader h ob =
     rbind (oo_interpret rq_c h ob) (\<lambda>ob1. Inr (ob1, rq_maxshardsize (oo_payload ob1)))"

definition rq_isEmpty :: "retrieve_queue oo \<Rightarrow> exn + bool" where
  "rq_isEmpty ob = rbind (checkPayloadReadable ob) (\<lambda>_.
     Inr (rq_retrievejobstotalsize (oo_payload ob) = 0 \<and> rq_retrievequeueshards (oo_payload ob) = []))"

definition rq_removeIfEmpty :: "retrieve_queue oo \<Rightarrow> (world, retrieve_queue oo) prog" where
  "rq_removeIfEmpty ob =
     bnd (liftr (checkPayloadWritable ob)) (\<lambda>_.
     bnd (liftr (rq_isEmpty ob)) (\<lambda>empty.
     if \<not> empty then throw NotEmpty else oo_remove ob))"

definition rq_getVid :: "retrieve_queue oo \<Rightarrow> exn + string" where
  "rq_getVid ob = rbind (checkPayloadReadable ob) (\<lambda>_. Inr (rq_vid (oo_payload ob)))"

definition rq_resetSleepForFreeSpaceStartTime :: "retrieve_queue oo \<Rightarrow> exn + retrieve_queue oo" where
  "rq_resetSleepForFreeSpaceStartTime ob = rbind (checkPayloadWritable ob) (\<lambda>_.
     Inr (ob\<lparr>oo_payload := (oo_payload ob)\<lparr>rq_sleep_for_free_space_since := None, rq_disk_system_slept_for := ''''\<rparr>\<rparr>))"

definition rq_setSleepForFreeSpaceStartTimeAndName ::
  "time_t \<Rightarrow> string \<Rightarrow> u64 \<Rightarrow> retrieve_queue oo \<Rightarrow> exn + retrieve_queue oo" where
  "rq_setSleepForFreeSpaceStartTimeAndName time diskSystemName sleepTime ob = rbind (checkPayloadWritable ob) (\<lambda>_.
     Inr (ob\<lparr>oo_payload := (oo_payload ob)\<lparr>rq_sleep_for_free_space_since := Some time,
            rq_disk_system_slept_for := diskSystemName, rq_sleep_time := sleepTime\<rparr>\<rparr>))"

section \<open>Planning an addition\<close>

text \<open>
  \<open>ShardForAddition\<close>. The two pointers between the halves of a split are the identifiers \<open>sfa_id\<close> of the list
  elements they point to. The flags \<open>creationDone\<close>, \<open>splitDone\<close> and \<open>comitted\<close> are written during the
  execution and never read, and are left out.
\<close>

record shard_for_addition =
  sfa_id :: nat
  sfa_newShard :: bool
  sfa_toSplit :: bool
  sfa_splitDestination :: "nat option"
  sfa_fromSplit :: bool
  sfa_splitSource :: "nat option"
  sfa_address :: string
  sfa_minFseq :: u64
  sfa_maxFseq :: u64
  sfa_jobsCount :: u64
  sfa_jobsToAdd :: "retrieve_job_to_add list"
  sfa_shardIndex :: u64

definition sfa_new :: "nat \<Rightarrow> shard_for_addition" where
  "sfa_new i = \<lparr>sfa_id = i, sfa_newShard = False, sfa_toSplit = False, sfa_splitDestination = None,
     sfa_fromSplit = False, sfa_splitSource = None, sfa_address = '''', sfa_minFseq = 0, sfa_maxFseq = 0,
     sfa_jobsCount = 0, sfa_jobsToAdd = [], sfa_shardIndex = - 1\<rparr>"

definition updateShardLimits :: "u64 \<Rightarrow> shard_for_addition \<Rightarrow> shard_for_addition" where
  "updateShardLimits fSeq sfa =
     (let s1 = (if fSeq < sfa_minFseq sfa then sfa\<lparr>sfa_minFseq := fSeq\<rparr> else sfa)
      in if fSeq > sfa_maxFseq s1 then s1\<lparr>sfa_maxFseq := fSeq\<rparr> else s1)"

definition sfa_add_job :: "retrieve_job_to_add \<Rightarrow> shard_for_addition \<Rightarrow> shard_for_addition" where
  "sfa_add_job job sfa = updateShardLimits (rja_fSeq job)
     (sfa\<lparr>sfa_jobsCount := sfa_jobsCount sfa + 1, sfa_jobsToAdd := sfa_jobsToAdd sfa @ [job]\<rparr>)"

text \<open>The two shards a full one is split into: the new one, placed before, and what the old one becomes.\<close>

definition sfa_split :: "nat \<Rightarrow> shard_for_addition \<Rightarrow> shard_for_addition \<times> shard_for_addition" where
  "sfa_split newId sfa =
     (let shardRange = sfa_maxFseq sfa - sfa_minFseq sfa;
          newMax = sfa_minFseq sfa + shardRange div 2
      in ((sfa_new newId)\<lparr>sfa_minFseq := sfa_minFseq sfa, sfa_maxFseq := newMax, sfa_jobsCount := sfa_jobsCount sfa div 2,
            sfa_splitSource := Some (sfa_id sfa), sfa_fromSplit := True, sfa_newShard := True,
            sfa_jobsToAdd := filter (\<lambda>j. rja_fSeq j \<le> newMax) (sfa_jobsToAdd sfa)\<rparr>,
          sfa\<lparr>sfa_minFseq := sfa_minFseq sfa + shardRange div 2 + 1, sfa_jobsCount := sfa_jobsCount sfa div 2,
            sfa_toSplit := True, sfa_splitDestination := Some newId,
            sfa_jobsToAdd := filter (\<lambda>j. \<not> rja_fSeq j \<le> newMax) (sfa_jobsToAdd sfa)\<rparr>))"

definition addJobToShardAndMaybeSplit ::
  "u64 \<Rightarrow> retrieve_job_to_add \<Rightarrow> nat \<Rightarrow> shard_for_addition list \<Rightarrow> shard_for_addition list" where
  "addJobToShardAndMaybeSplit maxShardSize jobToAdd i shardList =
     (let sfa = shardList ! i
      in if sfa_jobsCount sfa < maxShardSize \<or> sfa_fromSplit sfa \<or> sfa_newShard sfa
         then shardList[i := sfa_add_job jobToAdd sfa]
         else let (newSfa, oldSfa) = sfa_split (length shardList) sfa;
                  pair = (if rja_fSeq jobToAdd \<ge> sfa_minFseq oldSfa then [newSfa, sfa_add_job jobToAdd oldSfa]
                          else [sfa_add_job jobToAdd newSfa, oldSfa])
              in take i shardList @ pair @ drop (Suc i) shardList)"

text \<open>The initial plan: one entry per shard pointer, the limits pushed forward so that they do not overlap.\<close>

definition sfa_of_pointer :: "nat \<Rightarrow> retrieve_queue_shard_pointer \<Rightarrow> shard_for_addition" where
  "sfa_of_pointer i rqsp = (sfa_new i)\<lparr>sfa_minFseq := rqsp_minfseq rqsp, sfa_maxFseq := rqsp_maxfseq rqsp,
     sfa_jobsCount := rqsp_shardjobscount rqsp, sfa_address := rqsp_address rqsp\<rparr>"

fun order_limits :: "u64 \<Rightarrow> shard_for_addition list \<Rightarrow> shard_for_addition list" where
  "order_limits highestFseqSoFar [] = []"
| "order_limits highestFseqSoFar (sfa # sfas) =
     (let minFseq = max highestFseqSoFar (sfa_minFseq sfa);
          maxFseq = max minFseq (sfa_maxFseq sfa)
      in sfa\<lparr>sfa_minFseq := minFseq, sfa_maxFseq := maxFseq\<rparr> # order_limits (maxFseq + 1) sfas)"

definition rq_initial_plan :: "retrieve_queue_shard_pointer list \<Rightarrow> shard_for_addition list" where
  "rq_initial_plan sps = order_limits 0 (map (\<lambda>(i, sp). sfa_of_pointer i sp) (enumerate 0 sps))"

text \<open>The search for the shard a job goes to, from the entry at \<open>i\<close> on.\<close>

function find_shard :: "u64 \<Rightarrow> shard_for_addition list \<Rightarrow> nat \<Rightarrow> nat option" where
  "find_shard fSeq sfas i =
     (if i \<ge> length sfas then None
      else if sfa_minFseq (sfas ! i) > fSeq then Some i
      else if fSeq \<ge> sfa_minFseq (sfas ! i) \<and> fSeq \<le> sfa_maxFseq (sfas ! i) then Some i
      else if Suc i < length sfas
      then if fSeq > sfa_maxFseq (sfas ! i) \<and> fSeq < sfa_minFseq (sfas ! Suc i)
           then if sfa_jobsCount (sfas ! i) < sfa_jobsCount (sfas ! Suc i) then Some i else Some (Suc i)
           else find_shard fSeq sfas (Suc i)
      else if sfa_maxFseq (sfas ! i) < fSeq then Some i
      else find_shard fSeq sfas (Suc i))"
  by pat_completeness auto
termination
  by (relation "measure (\<lambda>(_, sfas, i). length sfas - i)") auto

declare find_shard.simps [simp del]

definition rq_plan_job :: "u64 \<Rightarrow> shard_for_addition list \<Rightarrow> retrieve_job_to_add \<Rightarrow> exn + shard_for_addition list" where
  "rq_plan_job maxShardSize sfas jta =
     (if sfas = []
      then Inr [(sfa_new 0)\<lparr>sfa_newShard := True, sfa_minFseq := rja_fSeq jta, sfa_maxFseq := rja_fSeq jta,
                  sfa_jobsCount := 1, sfa_jobsToAdd := [jta]\<rparr>]
      else case find_shard (rja_fSeq jta) sfas 0 of
             None \<Rightarrow> Inl (CtaException ''RetrieveQueue::addJobsAndCommit'')
           | Some i \<Rightarrow> Inr (addJobToShardAndMaybeSplit maxShardSize jta i sfas))"

definition rq_plan :: "u64 \<Rightarrow> retrieve_queue_shard_pointer list \<Rightarrow> retrieve_job_to_add list \<Rightarrow> exn + shard_for_addition list" where
  "rq_plan maxShardSize sps jobsToAdd =
     rbind (foldR (rq_plan_job maxShardSize) (rq_initial_plan sps) jobsToAdd) (\<lambda>sfas.
     Inr (map (\<lambda>(i, sfa). sfa\<lparr>sfa_shardIndex := of_nat i\<rparr>) (enumerate 0 sfas)))"

section \<open>Executing the plan\<close>

text \<open>
  Moving the pointer just appended down to its place; going below index 0 is an out of bounds access.
\<close>

fun rq_move_pointer :: "nat \<Rightarrow> nat \<Rightarrow> 'a list \<Rightarrow> exn + 'a list" where
  "rq_move_pointer 0 target sps = (if target = 0 then Inr sps else Inl Segfault)"
| "rq_move_pointer (Suc i) target sps =
     (if Suc i = target then Inr sps else rq_move_pointer i target (swap_elements i (Suc i) sps))"

definition rq_new_pointer :: "string \<Rightarrow> retrieve_queue_shard_pointer" where
  "rq_new_pointer address = \<lparr>rqsp_address = address, rqsp_shardjobscount = 0, rqsp_shardbytescount = 0,
     rqsp_minfseq = 0, rqsp_maxfseq = 0\<rparr>"

definition rq_create_shard ::
  "shard_for_addition \<Rightarrow> retrieve_queue oo \<Rightarrow> (world, retrieve_queue oo \<times> retrieve_queue_shard oo) prog" where
  "rq_create_shard shard ob =
     bnd (nextId (''RetrieveQueueShard-'' @ rq_vid (oo_payload ob))) (\<lambda>name.
     bnd (liftr (setAddress name rqs_new)) (\<lambda>rqs.
     bnd (liftr (getAddressIfSet ob)) (\<lambda>queueAddress.
     bnd (liftr (rqs_initialize queueAddress rqs)) (\<lambda>rqs.
     bnd (liftr (getAddressIfSet rqs)) (\<lambda>address.
     let sps = rq_retrievequeueshards (oo_payload ob) @ [rq_new_pointer address]
     in bnd (liftr (rq_move_pointer (length sps - 1) (unat (sfa_shardIndex shard)) sps)) (\<lambda>sps1.
        ret (ob\<lparr>oo_payload := (oo_payload ob)\<lparr>rq_retrievequeueshards := sps1\<rparr>\<rparr>, rqs)))))))"

definition set_pointer :: "nat \<Rightarrow> (retrieve_queue_shard_pointer \<Rightarrow> retrieve_queue_shard_pointer) \<Rightarrow> retrieve_queue \<Rightarrow> exn + retrieve_queue" where
  "set_pointer i f p =
     (let sps = rq_retrievequeueshards p
      in if i < length sps then Inr (p\<lparr>rq_retrievequeueshards := sps[i := f (sps ! i)]\<rparr>) else Inl Segfault)"

text \<open>
  The loop that copies from the shard being split the jobs in the range of the new shard: returns the new
  shard, the counts and the addresses to remove from the source.
\<close>

fun rq_transfer ::
  "shard_for_addition \<Rightarrow> retrieve_job_to_add list \<Rightarrow> retrieve_queue_shard oo \<times> u64 \<times> u64 \<times> string list
    \<Rightarrow> exn + retrieve_queue_shard oo \<times> u64 \<times> u64 \<times> string list" where
  "rq_transfer shard [] st = Inr st"
| "rq_transfer shard (j # js) (rqs, addedJobs, addedBytes, addresses) =
     (if rja_fSeq j \<ge> sfa_minFseq shard \<and> rja_fSeq j \<le> sfa_maxFseq shard
      then rbind (rqs_addJobsBatch [j] rqs) (\<lambda>rqs1.
           rq_transfer shard js (rqs1, addedJobs + 1, addedBytes + rja_fileSize j, addresses @ [rja_retrieveRequestAddress j]))
      else rbind (rqs_addJobsBatch [] rqs) (\<lambda>rqs1. rq_transfer shard js (rqs1, addedJobs, addedBytes, addresses)))"

text \<open>Filling the new shard from the one it is split from; \<open>source\<close> is \<open>shard.splitSource\<close>.\<close>

record split_result =
  sr_queue :: "retrieve_queue oo"
  sr_shard :: "retrieve_queue_shard oo"
  sr_source :: "retrieve_queue_shard oo"
  sr_addedJobs :: u64
  sr_addedBytes :: u64
  sr_transferedJobs :: u64
  sr_transferedBytes :: u64

definition rq_split_shard ::
  "shard_for_addition \<Rightarrow> shard_for_addition \<Rightarrow> retrieve_queue oo \<Rightarrow> retrieve_queue_shard oo \<Rightarrow> (world, split_result) prog" where
  "rq_split_shard shard source ob rqs =
     bnd (liftr (setAddress (sfa_address source) rqs_new)) (\<lambda>rqsSplitFrom.
     bnd (liftr (include_in_exclusive_lock ob rqsSplitFrom)) (\<lambda>rqsSplitFrom.
     bnd (oo_fetch rqs_c rqsSplitFrom) (\<lambda>rqsSplitFrom.
     bnd (liftr (rqs_dumpJobsToAdd rqsSplitFrom)) (\<lambda>jobsFromSource.
     bnd (liftr (rq_transfer shard jobsFromSource (rqs, 0, 0, []))) (\<lambda>(rqs1, addedJobs, addedBytes, addresses).
     bnd (liftr (rqs_removeJobs addresses rqsSplitFrom)) (\<lambda>(removalResult, rqsSplitFrom1).
     bnd (liftr (set_pointer (unat (sfa_shardIndex shard)) (\<lambda>sp. sp\<lparr>rqsp_maxfseq := sfa_maxFseq shard,
            rqsp_minfseq := sfa_minFseq shard, rqsp_shardjobscount := sfa_jobsCount shard,
            rqsp_shardbytescount := 1\<rparr>) (oo_payload ob))) (\<lambda>p1.
     bnd (liftr (set_pointer (unat (sfa_shardIndex source)) (\<lambda>sp. sp\<lparr>rqsp_minfseq := sfa_minFseq source,
            rqsp_maxfseq := sfa_maxFseq source, rqsp_shardjobscount := sfa_jobsCount source\<rparr>) p1)) (\<lambda>p2.
     ret \<lparr>sr_queue = ob\<lparr>oo_payload := p2\<rparr>, sr_shard = rqs1, sr_source = rqsSplitFrom1, sr_addedJobs = addedJobs,
          sr_addedBytes = addedBytes, sr_transferedJobs = rmr_jobsRemoved removalResult,
          sr_transferedBytes = rmr_bytesRemoved removalResult\<rparr>))))))))"

text \<open>The summaries of one job of the shard's list; an initial or reset creation time is 0.\<close>

definition rq_count_job :: "retrieve_queue \<Rightarrow> retrieve_job_to_add \<Rightarrow> exn + retrieve_queue" where
  "rq_count_job p j =
     rbind (incCount (mp_retrievePriority (rja_policy j)) (rq_prioritymap p)) (\<lambda>pm.
     rbind (incCount (mp_retrieveMinRequestAge (rja_policy j)) (rq_minretrieverequestagemap p)) (\<lambda>am.
     rbind (incCount (mp_name (rja_policy j)) (rq_mountpolicynamemap p)) (\<lambda>mm.
     rbind (case rja_activity j of None \<Rightarrow> Inr (rq_activity_map p) | Some a \<Rightarrow> activity_incCount a (rq_activity_map p)) (\<lambda>acm.
     Inr (p\<lparr>rq_prioritymap := pm, rq_minretrieverequestagemap := am, rq_mountpolicynamemap := mm, rq_activity_map := acm,
            rq_oldestjobcreationtime :=
              (if rq_oldestjobcreationtime p \<noteq> 0
               then if rja_startTime j < rq_oldestjobcreationtime p then rja_startTime j else rq_oldestjobcreationtime p
               else rja_startTime j),
            rq_youngestjobcreationtime :=
              (if rq_youngestjobcreationtime p \<noteq> 0
               then if rja_startTime j > rq_youngestjobcreationtime p then rja_startTime j else rq_youngestjobcreationtime p
               else rja_startTime j)\<rparr>)))))"

text \<open>
  The second half of an iteration: the jobs of the plan are added to the shard in memory, the pointer and the
  summaries updated, and the queue and the shards written.
\<close>

definition rq_finish_shard ::
  "shard_for_addition \<Rightarrow> retrieve_queue oo \<Rightarrow> retrieve_queue_shard oo \<Rightarrow> retrieve_queue_shard oo option
    \<Rightarrow> u64 \<times> u64 \<times> u64 \<times> u64 \<Rightarrow> (world, retrieve_queue oo) prog" where
  "rq_finish_shard shard ob rqs splitFrom = (\<lambda>(addedJobs, addedBytes, transferedJobs, transferedBytes).
     let jobs = sfa_jobsToAdd shard;
         jtas = fold (multiset_insert rja_fSeq) jobs [];
         addedJobs1 = addedJobs + of_nat (length jobs);
         addedBytes1 = fold (\<lambda>j acc. acc + rja_fileSize j) jobs addedBytes
     in bnd (liftr (foldR rq_count_job (oo_payload ob) jobs)) (\<lambda>p1.
        bnd (liftr (rqs_addJobsBatch jtas rqs)) (\<lambda>rqs1.
        bnd (liftr (rqs_getJobsSummary rqs1)) (\<lambda>summary.
        bnd (liftr (set_pointer (unat (sfa_shardIndex shard)) (\<lambda>sp. sp\<lparr>rqsp_maxfseq := rqss_maxFseq summary,
               rqsp_minfseq := rqss_minFseq summary, rqsp_shardbytescount := rqss_bytes summary,
               rqsp_shardjobscount := rqss_jobs summary\<rparr>) p1)) (\<lambda>p2.
        let ob1 = ob\<lparr>oo_payload := p2\<lparr>rq_retrievejobscount := rq_retrievejobscount p2 + addedJobs1 - transferedJobs,
                rq_retrievejobstotalsize := rq_retrievejobstotalsize p2 + addedBytes1 - transferedBytes\<rparr>\<rparr>
        in bnd (if sfa_fromSplit shard then bnd (oo_commit rq_c ob1) (\<lambda>_. ret ob1) else rq_commit ob1) (\<lambda>ob2.
           bnd (if sfa_newShard shard
                then bnd (oo_insert rqs_c rqs1) (\<lambda>_.
                     case splitFrom of None \<Rightarrow> ret () | Some s \<Rightarrow> oo_commit rqs_c s)
                else oo_commit rqs_c rqs1) (\<lambda>_.
           ret ob2)))))))"

text \<open>One iteration of the execution; \<open>sfas\<close> is the whole plan, in which a split's source is looked up.\<close>

definition rq_execute_shard ::
  "shard_for_addition list \<Rightarrow> retrieve_queue oo \<Rightarrow> shard_for_addition \<Rightarrow> (world, retrieve_queue oo) prog" where
  "rq_execute_shard sfas ob shard =
     (if sfa_newShard shard
      then bnd (rq_create_shard shard ob) (\<lambda>(ob1, rqs).
           if sfa_fromSplit shard
           then case List.find (\<lambda>s. sfa_splitSource shard = Some (sfa_id s)) sfas of
                  None \<Rightarrow> throw Segfault
                | Some source \<Rightarrow> bnd (rq_split_shard shard source ob1 rqs) (\<lambda>r.
                    rq_finish_shard shard (sr_queue r) (sr_shard r) (Some (sr_source r))
                      (sr_addedJobs r, sr_addedBytes r, sr_transferedJobs r, sr_transferedBytes r))
           else rq_finish_shard shard ob1 rqs None (0, 0, 0, 0))
      else bnd (liftr (setAddress (sfa_address shard) rqs_new)) (\<lambda>rqs.
           bnd (liftr (include_in_exclusive_lock ob rqs)) (\<lambda>rqs.
           bnd (oo_fetch rqs_c rqs) (\<lambda>rqs.
           if unat (sfa_shardIndex shard) < length (rq_retrievequeueshards (oo_payload ob))
           then rq_finish_shard shard ob rqs None (0, 0, 0, 0) else throw Segfault))))"

definition rq_addJobsAndCommit ::
  "u64 \<Rightarrow> retrieve_job_to_add list \<Rightarrow> retrieve_queue oo \<Rightarrow> (world, retrieve_queue oo) prog" where
  "rq_addJobsAndCommit maxShardSize jobsToAdd ob =
     bnd (liftr (checkPayloadWritable ob)) (\<lambda>_.
     if jobsToAdd = [] then ret ob
     else bnd (liftr (rq_plan maxShardSize (rq_retrievequeueshards (oo_payload ob)) jobsToAdd)) (\<lambda>sfas.
          foldM (rq_execute_shard sfas) ob sfas))"

section \<open>Reading\<close>

record sleep_info =
  si_sleepStartTime :: time_t
  si_diskSystemSleptFor :: string
  si_sleepTime :: u64

record rq_jobs_summary =
  rqjs_jobs :: u64
  rqjs_bytes :: u64
  rqjs_oldestJobStartTime :: time_t
  rqjs_youngestJobStartTime :: time_t
  rqjs_priority :: u64
  rqjs_minRetrieveRequestAge :: u64
  rqjs_mountPolicyCountMap :: "string \<rightharpoonup> u64"
  rqjs_activityCounts :: "(string \<times> u64) list"
  rqjs_sleepInfo :: "sleep_info option"

definition rq_getJobsSummary :: "retrieve_queue oo \<Rightarrow> exn + rq_jobs_summary" where
  "rq_getJobsSummary ob = rbind (checkPayloadReadable ob) (\<lambda>_.
     let p = oo_payload ob;
         r = \<lparr>rqjs_jobs = rq_retrievejobscount p, rqjs_bytes = rq_retrievejobstotalsize p,
              rqjs_oldestJobStartTime = rq_oldestjobcreationtime p,
              rqjs_youngestJobStartTime = rq_youngestjobcreationtime p,
              rqjs_priority = 0, rqjs_minRetrieveRequestAge = 0, rqjs_mountPolicyCountMap = Map.empty,
              rqjs_activityCounts = [], rqjs_sleepInfo = None\<rparr>
     in if rqjs_jobs r \<noteq> 0
        then rbind (maxValue (rq_prioritymap p)) (\<lambda>pr.
             rbind (minValue (rq_minretrieverequestagemap p)) (\<lambda>age.
             Inr (r\<lparr>rqjs_priority := pr, rqjs_minRetrieveRequestAge := age,
                    rqjs_mountPolicyCountMap := getMap (rq_mountpolicynamemap p),
                    rqjs_activityCounts := getActivities (rq_activity_map p),
                    rqjs_sleepInfo := map_option (\<lambda>t. \<lparr>si_sleepStartTime = t,
                      si_diskSystemSleptFor = rq_disk_system_slept_for p, si_sleepTime = rq_sleep_time p\<rparr>)
                      (rq_sleep_for_free_space_since p)\<rparr>)))
        else Inr r)"

definition rq_dump_shard ::
  "retrieve_job_dump list list \<Rightarrow> string \<times> (exn + retrieve_queue_shard oo) \<Rightarrow> exn + retrieve_job_dump list list" where
  "rq_dump_shard dumps = (\<lambda>(address, fetched). case fetched of
     Inl NoSuchObject \<Rightarrow> Inr dumps
   | Inl e \<Rightarrow> Inl e
   | Inr s \<Rightarrow> rbind (rqs_dumpJobs s) (\<lambda>jobs.
       Inr (dumps @ [map (\<lambda>j. \<lparr>rjd_address = rji_address j, rjd_copyNb = rji_copyNb j, rjd_size = rji_size j,
         rjd_activity = rji_activity j, rjd_diskSystemName = rji_diskSystemName j\<rparr>) jobs])))"

definition rq_shards_dumps :: "retrieve_queue oo \<Rightarrow> (world, retrieve_job_dump list list) prog" where
  "rq_shards_dumps ob =
     bnd (lockfree_fetch_all rqs_c rqs_empty (map rqsp_address (rq_retrievequeueshards (oo_payload ob)))) (\<lambda>fetched.
     liftr (foldR rq_dump_shard [] fetched))"

definition rq_dumpJobs :: "retrieve_queue oo \<Rightarrow> (world, retrieve_job_dump list) prog" where
  "rq_dumpJobs ob =
     bnd (liftr (checkPayloadReadable ob)) (\<lambda>_. bnd (rq_shards_dumps ob) (\<lambda>dumps. ret (concat dumps)))"

record rq_addition_summary =
  ras_files :: u64
  ras_bytes :: u64

definition rq_addJobsIfNecessaryAndCommit ::
  "u64 \<Rightarrow> retrieve_job_to_add list \<Rightarrow> retrieve_queue oo \<Rightarrow> (world, rq_addition_summary \<times> retrieve_queue oo) prog" where
  "rq_addJobsIfNecessaryAndCommit maxShardSize jobsToAdd ob =
     bnd (liftr (checkPayloadWritable ob)) (\<lambda>_.
     bnd (rq_shards_dumps ob) (\<lambda>shardsDumps.
     let (jobsToReallyAdd, summary) = fold (\<lambda>jta (really, r).
           if \<exists>sd \<in> set shardsDumps. \<exists>sjd \<in> set sd. rjd_address sjd = rja_retrieveRequestAddress jta then (really, r)
           else (really @ [jta], r\<lparr>ras_bytes := ras_bytes r + rja_fileSize jta, ras_files := ras_files r + 1\<rparr>))
           jobsToAdd ([], \<lparr>ras_files = 0, ras_bytes = 0\<rparr>)
     in bnd (rq_addJobsAndCommit maxShardSize jobsToReallyAdd ob) (\<lambda>ob1. ret (summary, ob1))))"

definition rq_candidates_step ::
  "u64 \<Rightarrow> u64 \<Rightarrow> string set \<Rightarrow> string set \<Rightarrow> retrieve_job_dump candidate_job_list \<Rightarrow> retrieve_queue_shard_pointer
    \<Rightarrow> (world, retrieve_job_dump candidate_job_list) prog" where
  "rq_candidates_step maxBytes maxFiles retrieveRequestsToSkip diskSystemsToSkip r rqsp =
     (if cjl_candidateBytes r < maxBytes \<and> cjl_candidateFiles r < maxFiles
      then bnd (liftr (rqs_at (rqsp_address rqsp))) (\<lambda>rqs.
           bnd (oo_fetchNoLock rqs_c rqs) (\<lambda>rqs.
           bnd (liftr (rqs_getCandidateJobList (maxBytes - cjl_candidateBytes r) (maxFiles - cjl_candidateFiles r)
                         retrieveRequestsToSkip diskSystemsToSkip rqs)) (\<lambda>sc.
           ret (r\<lparr>cjl_candidateBytes := cjl_candidateBytes r + cjl_candidateBytes sc,
                  cjl_candidateFiles := cjl_candidateFiles r + cjl_candidateFiles sc,
                  cjl_remainingBytesAfterCandidates := cjl_remainingBytesAfterCandidates sc,
                  cjl_remainingFilesAfterCandidates := cjl_remainingFilesAfterCandidates sc,
                  cjl_candidates := cjl_candidates r @ cjl_candidates sc\<rparr>))))
      else ret (r\<lparr>cjl_remainingBytesAfterCandidates := cjl_remainingBytesAfterCandidates r + rqsp_shardbytescount rqsp,
                  cjl_remainingFilesAfterCandidates := cjl_remainingFilesAfterCandidates r + rqsp_shardjobscount rqsp\<rparr>))"

definition rq_getCandidateList ::
  "u64 \<Rightarrow> u64 \<Rightarrow> string set \<Rightarrow> string set \<Rightarrow> retrieve_queue oo \<Rightarrow> (world, retrieve_job_dump candidate_job_list) prog" where
  "rq_getCandidateList maxBytes maxFiles retrieveRequestsToSkip diskSystemsToSkip ob =
     bnd (liftr (checkPayloadReadable ob)) (\<lambda>_.
     foldM (rq_candidates_step maxBytes maxFiles retrieveRequestsToSkip diskSystemsToSkip) candidate_job_list_init
       (rq_retrievequeueshards (oo_payload ob)))"

definition rq_getCandidateSummary :: "retrieve_queue oo \<Rightarrow> exn + retrieve_job_dump candidate_job_list" where
  "rq_getCandidateSummary ob = rbind (checkPayloadReadable ob) (\<lambda>_.
     Inr (fold (\<lambda>rqsp r. r\<lparr>cjl_candidateBytes := cjl_candidateBytes r + rqsp_shardbytescount rqsp,
                            cjl_candidateFiles := cjl_candidateFiles r + rqsp_shardjobscount rqsp\<rparr>)
            (rq_retrievequeueshards (oo_payload ob)) candidate_job_list_init))"

text \<open>The keys come out of a \<open>std::map\<close>, in the order of the strings.\<close>

definition rq_getMountPolicyNames :: "retrieve_queue oo \<Rightarrow> string list" where
  "rq_getMountPolicyNames ob =
     (let m = rq_mountpolicynamemap (oo_payload ob);
          mountPolicyCountMap = getMap m
      in filter (\<lambda>n. case mountPolicyCountMap n of None \<Rightarrow> False | Some c \<Rightarrow> c \<noteq> 0) (sort (remdups (map fst m))))"

section \<open>Removing jobs\<close>

text \<open>One removed job: the summaries, and whether it was the oldest or the youngest.\<close>

definition rq_uncount_job ::
  "time_t \<Rightarrow> time_t \<Rightarrow> retrieve_queue \<times> bool \<Rightarrow> rqs_job_info \<Rightarrow> exn + retrieve_queue \<times> bool" where
  "rq_uncount_job oldest youngest = (\<lambda>(p, needToRebuild) j.
     rbind (decCount (rji_priority j) (rq_prioritymap p)) (\<lambda>pm.
     rbind (decCount (rji_minRetrieveRequestAge j) (rq_minretrieverequestagemap p)) (\<lambda>am.
     rbind (decCount (rji_mountPolicyName j) (rq_mountpolicynamemap p)) (\<lambda>mm.
     rbind (case rji_activity j of None \<Rightarrow> Inr (rq_activity_map p) | Some a \<Rightarrow> activity_decCount a (rq_activity_map p)) (\<lambda>acm.
     Inr (p\<lparr>rq_prioritymap := pm, rq_minretrieverequestagemap := am, rq_mountpolicynamemap := mm, rq_activity_map := acm\<rparr>,
          needToRebuild \<or> rji_startTime j \<le>s oldest \<or> youngest \<le>s rji_startTime j))))))"

definition rq_remove_from_shard ::
  "string list \<Rightarrow> retrieve_queue oo \<Rightarrow> string \<Rightarrow> (world, rqs_job_info removal_result) prog" where
  "rq_remove_from_shard localJobsToRemove ob address =
     bnd (liftr (rqs_at address)) (\<lambda>rqs.
     bnd (liftr (include_in_exclusive_lock ob rqs)) (\<lambda>rqs.
     bnd (oo_fetch rqs_c rqs) (\<lambda>rqs.
     bnd (liftr (rqs_removeJobs localJobsToRemove rqs)) (\<lambda>(removalResult, rqs).
     bnd (if rmr_jobsAfter removalResult \<noteq> 0 then oo_commit rqs_c rqs
          else bnd (oo_remove rqs) (\<lambda>_. ret ())) (\<lambda>_.
     ret removalResult)))))"

definition rq_after_removal ::
  "bool \<Rightarrow> rqs_job_info removal_result \<Rightarrow> retrieve_queue oo \<Rightarrow> nat \<Rightarrow> (world, retrieve_queue oo \<times> nat) prog" where
  "rq_after_removal needToRebuild removalResult ob shardIndex =
     (let p = oo_payload ob;
          sps = rq_retrievequeueshards p;
          shardPointer = sps ! shardIndex
      in if rmr_jobsAfter removalResult \<noteq> 0
         then let sp = shardPointer\<lparr>rqsp_shardbytescount := rqsp_shardbytescount shardPointer - rmr_bytesRemoved removalResult,
                                    rqsp_shardjobscount := rqsp_shardjobscount shardPointer - rmr_jobsRemoved removalResult\<rparr>;
                  ob1 = ob\<lparr>oo_payload := p\<lparr>rq_retrievequeueshards := sps[shardIndex := sp]\<rparr>\<rparr>
              in bnd (if \<not> needToRebuild \<and> (rqsp_shardbytescount sp \<noteq> rmr_bytesAfter removalResult
                         \<or> rqsp_shardjobscount sp \<noteq> rmr_jobsAfter removalResult)
                      then rq_rebuild ob1 else ret ob1) (\<lambda>ob2.
                 ret (ob2, Suc shardIndex))
         else ret (ob\<lparr>oo_payload := p\<lparr>rq_retrievequeueshards := butlast (push_to_end shardIndex sps)\<rparr>\<rparr>, shardIndex))"

definition rq_remove_round ::
  "string list \<Rightarrow> retrieve_queue oo \<Rightarrow> nat \<Rightarrow> (world, retrieve_queue oo \<times> string list \<times> nat) prog" where
  "rq_remove_round localJobsToRemove ob shardIndex =
     bnd (rq_remove_from_shard localJobsToRemove ob (rqsp_address (rq_retrievequeueshards (oo_payload ob) ! shardIndex)))
       (\<lambda>removalResult.
     bnd (liftr (foldR (rq_uncount_job (rq_oldestjobcreationtime (oo_payload ob)) (rq_youngestjobcreationtime (oo_payload ob)))
            (oo_payload ob, False) (rmr_removedJobs removalResult))) (\<lambda>(p1, needToRebuild).
     let p2 = p1\<lparr>rq_retrievejobscount := rq_retrievejobscount p1 - rmr_jobsRemoved removalResult,
                 rq_retrievejobstotalsize := rq_retrievejobstotalsize p1 - rmr_bytesRemoved removalResult\<rparr>
     in bnd (rq_after_removal needToRebuild removalResult (ob\<lparr>oo_payload := p2\<rparr>) shardIndex) (\<lambda>(ob3, shardIndex1).
        let localJobsToRemove1 = filter (\<lambda>ja. \<not> (\<exists>j \<in> set (rmr_removedJobs removalResult). rji_address j = ja)) localJobsToRemove
        in bnd (if needToRebuild then rq_rebuild ob3 else ret ob3) (\<lambda>ob4.
           bnd (rq_commit ob4) (\<lambda>ob5.
           ret (ob5, localJobsToRemove1, shardIndex1))))))"

fun rq_remove_rounds :: "nat \<Rightarrow> string list \<Rightarrow> retrieve_queue oo \<Rightarrow> nat \<Rightarrow> (world, retrieve_queue oo) prog" where
  "rq_remove_rounds fuel localJobsToRemove ob shardIndex =
     (if localJobsToRemove \<noteq> [] \<and> shardIndex < length (rq_retrievequeueshards (oo_payload ob))
      then (case fuel of
              0 \<Rightarrow> throw OutOfFuel
            | Suc fuel' \<Rightarrow> bnd (rq_remove_round localJobsToRemove ob shardIndex)
                (\<lambda>(ob1, localJobsToRemove1, shardIndex1). rq_remove_rounds fuel' localJobsToRemove1 ob1 shardIndex1))
      else ret ob)"

declare rq_remove_rounds.simps [simp del]

definition rq_removeJobsAndCommit :: "string list \<Rightarrow> retrieve_queue oo \<Rightarrow> (world, retrieve_queue oo) prog" where
  "rq_removeJobsAndCommit jobsToRemove ob =
     bnd (liftr (checkPayloadWritable ob)) (\<lambda>_.
     rq_remove_rounds (length (rq_retrievequeueshards (oo_payload ob))) jobsToRemove ob 0)"

definition rq_garbageCollect :: "retrieve_queue oo \<Rightarrow> exn + retrieve_queue oo" where
  "rq_garbageCollect ob = Inl (CtaException ''RetrieveQueue::garbageCollect'')"

definition rq_setShardSize :: "u64 \<Rightarrow> retrieve_queue oo \<Rightarrow> exn + retrieve_queue oo" where
  "rq_setShardSize shardSize ob = rbind (checkPayloadWritable ob) (\<lambda>_.
     Inr (ob\<lparr>oo_payload := (oo_payload ob)\<lparr>rq_maxshardsize := shardSize\<rparr>\<rparr>))"

definition rq_getShardCount :: "retrieve_queue oo \<Rightarrow> exn + u64" where
  "rq_getShardCount ob = rbind (checkPayloadReadable ob) (\<lambda>_. Inr (of_nat (length (rq_retrievequeueshards (oo_payload ob)))))"

end
