(* ===== verification/RetrieveQueuePlan.thy ===== *)
theory RetrieveQueuePlan
  imports RetrieveQueue
begin

text \<open>
  The plan of an addition to a retrieve queue (the first half of \<open>RetrieveQueue::addJobsAndCommit\<close>): every
  job finds a shard, no job is lost, the shards already there keep their order, and the ranges of the plan
  stay ordered and hold the jobs planned in them.
\<close>

section \<open>Finding a shard\<close>

lemma find_shard_bounds: "find_shard f sfas i = Some k \<Longrightarrow> i \<le> k \<and> k < length sfas"
proof (induction f sfas i rule: find_shard.induct)
  case (1 f sfas i)
  then show ?case by (subst (asm) find_shard.simps) (fastforce split: if_splits)
qed

lemma find_shard_finds: "i < length sfas \<Longrightarrow> \<exists>k. find_shard f sfas i = Some k"
proof (induction f sfas i rule: find_shard.induct)
  case (1 f sfas i)
  show ?case
  proof (cases "Suc i < length sfas")
    case True
    with 1 show ?thesis by (subst find_shard.simps) auto
  next
    case False
    with 1 show ?thesis by (subst find_shard.simps) (auto simp: not_less not_le)
  qed
qed

section \<open>What a plan conserves\<close>

abbreviation plan_jobs :: "shard_for_addition list \<Rightarrow> retrieve_job_to_add multiset" where
  "plan_jobs sfas \<equiv> (\<Sum>s\<leftarrow>sfas. mset (sfa_jobsToAdd s))"

definition plan_old :: "shard_for_addition list \<Rightarrow> string list" where
  "plan_old sfas = map sfa_address (filter (\<lambda>s. \<not> sfa_newShard s) sfas)"

lemma plan_old_simps [simp]:
  "plan_old [] = []" "plan_old (s # ss) = (if sfa_newShard s then plan_old ss else sfa_address s # plan_old ss)"
  "plan_old (ss @ ts) = plan_old ss @ plan_old ts"
  by (simp_all add: plan_old_def)

lemma updateShardLimits_fields [simp]:
  "sfa_jobsToAdd (updateShardLimits f s) = sfa_jobsToAdd s" "sfa_newShard (updateShardLimits f s) = sfa_newShard s"
  "sfa_address (updateShardLimits f s) = sfa_address s" "sfa_id (updateShardLimits f s) = sfa_id s"
  "sfa_fromSplit (updateShardLimits f s) = sfa_fromSplit s" "sfa_splitSource (updateShardLimits f s) = sfa_splitSource s"
  "sfa_jobsCount (updateShardLimits f s) = sfa_jobsCount s"
  "sfa_minFseq (updateShardLimits f s) = min f (sfa_minFseq s)" "sfa_maxFseq (updateShardLimits f s) = max f (sfa_maxFseq s)"
  by (auto simp: updateShardLimits_def Let_def min_def max_def)

lemma sfa_add_job_fields [simp]:
  "sfa_jobsToAdd (sfa_add_job j s) = sfa_jobsToAdd s @ [j]" "sfa_newShard (sfa_add_job j s) = sfa_newShard s"
  "sfa_address (sfa_add_job j s) = sfa_address s" "sfa_id (sfa_add_job j s) = sfa_id s"
  "sfa_fromSplit (sfa_add_job j s) = sfa_fromSplit s" "sfa_splitSource (sfa_add_job j s) = sfa_splitSource s"
  "sfa_jobsCount (sfa_add_job j s) = sfa_jobsCount s + 1"
  "sfa_minFseq (sfa_add_job j s) = min (rja_fSeq j) (sfa_minFseq s)"
  "sfa_maxFseq (sfa_add_job j s) = max (rja_fSeq j) (sfa_maxFseq s)"
  by (simp_all add: sfa_add_job_def)

text \<open>The two ways a job enters the plan, at the entry \<open>i\<close>.\<close>

definition split_pair :: "nat \<Rightarrow> retrieve_job_to_add \<Rightarrow> shard_for_addition \<Rightarrow> shard_for_addition \<times> shard_for_addition" where
  "split_pair n j s = (let (new, old) = sfa_split n s
     in if rja_fSeq j \<ge> sfa_minFseq old then (new, sfa_add_job j old) else (sfa_add_job j new, old))"

lemma addJobToShard_cases:
  assumes "i < length sfas"
  obtains (add) "addJobToShardAndMaybeSplit m j i sfas = take i sfas @ sfa_add_job j (sfas ! i) # drop (Suc i) sfas"
  | (split) new old where "split_pair (length sfas) j (sfas ! i) = (new, old)"
      "addJobToShardAndMaybeSplit m j i sfas = take i sfas @ new # old # drop (Suc i) sfas"
      "\<not> sfa_fromSplit (sfas ! i)" "\<not> sfa_newShard (sfas ! i)" "\<not> sfa_jobsCount (sfas ! i) < m"
proof (cases "sfa_jobsCount (sfas ! i) < m \<or> sfa_fromSplit (sfas ! i) \<or> sfa_newShard (sfas ! i)")
  case True
  then show ?thesis using assms add by (simp add: addJobToShardAndMaybeSplit_def upd_conv_take_nth_drop Let_def)
next
  case False
  then show ?thesis
    using split [of "fst (split_pair (length sfas) j (sfas ! i))" "snd (split_pair (length sfas) j (sfas ! i))"]
    by (simp add: addJobToShardAndMaybeSplit_def split_pair_def Let_def split: prod.splits if_splits)
qed

lemma split_pair_fields:
  assumes "split_pair n j s = (new, old)"
  shows "mset (sfa_jobsToAdd new) + mset (sfa_jobsToAdd old) = add_mset j (mset (sfa_jobsToAdd s))"
    and "sfa_newShard new" "sfa_fromSplit new" "sfa_splitSource new = Some (sfa_id s)" "sfa_id new = n"
    and "sfa_newShard old = sfa_newShard s" "sfa_address old = sfa_address s" "sfa_id old = sfa_id s"
    and "sfa_fromSplit old = sfa_fromSplit s" "sfa_splitSource old = sfa_splitSource s"
  using assms multiset_partition [of "mset (sfa_jobsToAdd s)" "\<lambda>x. rja_fSeq x \<le> sfa_minFseq s + (sfa_maxFseq s - sfa_minFseq s) div 2"]
  by (auto simp: split_pair_def sfa_split_def sfa_new_def Let_def split: if_splits)

lemma id_take_drop: "i < length xs \<Longrightarrow> xs = take i xs @ xs ! i # drop (Suc i) xs"
  by (rule id_take_nth_drop)

lemma addJobToShard_conserves:
  assumes "i < length sfas"
  shows "plan_jobs (addJobToShardAndMaybeSplit m j i sfas) = add_mset j (plan_jobs sfas)"
    and "plan_old (addJobToShardAndMaybeSplit m j i sfas) = plan_old sfas"
proof -
  let ?xs = "take i sfas" and ?ys = "drop (Suc i) sfas" and ?s = "sfas ! i"
  note eq = id_take_drop [OF assms]
  have jobs: "plan_jobs sfas = plan_jobs ?xs + mset (sfa_jobsToAdd ?s) + plan_jobs ?ys"
    by (subst eq) simp
  have old: "plan_old sfas = plan_old ?xs @ (if sfa_newShard ?s then [] else [sfa_address ?s]) @ plan_old ?ys"
    by (subst eq) simp
  show "plan_jobs (addJobToShardAndMaybeSplit m j i sfas) = add_mset j (plan_jobs sfas)"
    by (rule addJobToShard_cases [OF assms, of m j]) (auto simp: jobs dest!: split_pair_fields(1))
  show "plan_old (addJobToShardAndMaybeSplit m j i sfas) = plan_old sfas"
  proof (rule addJobToShard_cases [OF assms, of m j])
    fix new old
    assume a: "split_pair (length sfas) j ?s = (new, old)"
      "addJobToShardAndMaybeSplit m j i sfas = take i sfas @ new # old # drop (Suc i) sfas"
    show "plan_old (addJobToShardAndMaybeSplit m j i sfas) = plan_old sfas"
      using split_pair_fields [OF a(1)] by (simp add: old a(2))
  qed (simp add: old)
qed

lemma rq_plan_job_ok:
  "\<exists>sfas'. rq_plan_job m sfas j = Inr sfas' \<and> plan_jobs sfas' = add_mset j (plan_jobs sfas) \<and> plan_old sfas' = plan_old sfas"
proof (cases "sfas = []")
  case False
  then obtain k where k: "find_shard (rja_fSeq j) sfas 0 = Some k" using find_shard_finds [of 0 sfas] by auto
  then have "k < length sfas" using find_shard_bounds by blast
  with k False show ?thesis by (simp add: rq_plan_job_def addJobToShard_conserves)
qed (simp add: rq_plan_job_def plan_old_def)

lemma rq_plan_jobs_ok:
  "\<exists>sfas'. foldR (rq_plan_job m) sfas js = Inr sfas' \<and> plan_jobs sfas' = plan_jobs sfas + mset js \<and> plan_old sfas' = plan_old sfas"
proof (induction js arbitrary: sfas)
  case (Cons j js)
  obtain s1 where s1: "rq_plan_job m sfas j = Inr s1" "plan_jobs s1 = add_mset j (plan_jobs sfas)" "plan_old s1 = plan_old sfas"
    using rq_plan_job_ok by blast
  from Cons.IH [of s1] obtain s2 where "foldR (rq_plan_job m) s1 js = Inr s2" "plan_jobs s2 = plan_jobs s1 + mset js"
    "plan_old s2 = plan_old s1" by blast
  with s1 show ?case by simp
qed simp

lemma order_limits_fields:
  "plan_jobs (order_limits h sfas) = plan_jobs sfas" "plan_old (order_limits h sfas) = plan_old sfas"
  "map sfa_id (order_limits h sfas) = map sfa_id sfas" "length (order_limits h sfas) = length sfas"
  by (induction h sfas rule: order_limits.induct) (simp_all add: Let_def)

lemma sfas_of_pointers:
  "plan_jobs (map (\<lambda>(i, sp). sfa_of_pointer i sp) (enumerate n sps)) = {#}"
  "plan_old (map (\<lambda>(i, sp). sfa_of_pointer i sp) (enumerate n sps)) = map rqsp_address sps"
  "map sfa_id (map (\<lambda>(i, sp). sfa_of_pointer i sp) (enumerate n sps)) = [n..<n + length sps]"
  by (induction sps arbitrary: n) (simp_all add: sfa_of_pointer_def sfa_new_def upt_conv_Cons del: upt_Suc)

lemma rq_initial_plan_fields:
  "plan_jobs (rq_initial_plan sps) = {#}" "plan_old (rq_initial_plan sps) = map rqsp_address sps"
  "map sfa_id (rq_initial_plan sps) = [0..<length sps]" "length (rq_initial_plan sps) = length sps"
  using sfas_of_pointers [of 0 sps] by (simp_all only: rq_initial_plan_def order_limits_fields) simp_all

text \<open>The numbering of the shards changes nothing else.\<close>

definition number_shards :: "shard_for_addition list \<Rightarrow> shard_for_addition list" where
  "number_shards sfas = map (\<lambda>(i, sfa). sfa\<lparr>sfa_shardIndex := of_nat i\<rparr>) (enumerate 0 sfas)"


lemma number_shards_fields:
  "plan_jobs (number_shards sfas) = plan_jobs sfas" "plan_old (number_shards sfas) = plan_old sfas"
  "length (number_shards sfas) = length sfas"
proof -
  have "(\<Sum>s\<leftarrow>map (\<lambda>(i, sfa). sfa\<lparr>sfa_shardIndex := of_nat i\<rparr>) (enumerate n sfas). mset (sfa_jobsToAdd s)) = plan_jobs sfas"
    "plan_old (map (\<lambda>(i, sfa). sfa\<lparr>sfa_shardIndex := of_nat i\<rparr>) (enumerate n sfas)) = plan_old sfas" for n
    by (induction sfas arbitrary: n) simp_all
  then show "plan_jobs (number_shards sfas) = plan_jobs sfas" "plan_old (number_shards sfas) = plan_old sfas"
    unfolding number_shards_def by blast+
qed (simp add: number_shards_def)

lemma number_shards_index: "map sfa_shardIndex (number_shards sfas) = map of_nat [0..<length sfas]"
  by (rule nth_equalityI) (simp_all add: number_shards_def nth_enumerate_eq)

lemma rq_plan_number: "rq_plan m sps js = rbind (foldR (rq_plan_job m) (rq_initial_plan sps) js) (\<lambda>sfas. Inr (number_shards sfas))"
  by (simp add: rq_plan_def number_shards_def)

lemma rq_plan_conserves:
  "\<exists>sfas. rq_plan m sps js = Inr sfas \<and> plan_jobs sfas = mset js \<and> plan_old sfas = map rqsp_address sps
     \<and> map sfa_shardIndex sfas = map of_nat [0..<length sfas]"
proof -
  obtain sfas where "foldR (rq_plan_job m) (rq_initial_plan sps) js = Inr sfas" "plan_jobs sfas = mset js"
    "plan_old sfas = map rqsp_address sps"
    using rq_plan_jobs_ok [of m "rq_initial_plan sps" js] by (auto simp: rq_initial_plan_fields)
  then show ?thesis by (simp add: rq_plan_number number_shards_fields number_shards_index)
qed

section \<open>Ranges\<close>

text \<open>
  What holds of the entries of a plan while \<open>r\<close> jobs are left to plan: an entry stands alone, or is the new
  half of a split followed by the old half. \<open>F address\<close> is the set of positions of the jobs stored in the shard.
\<close>

abbreviation sfa_fseqs :: "shard_for_addition \<Rightarrow> u64 set" where
  "sfa_fseqs s \<equiv> rja_fSeq ` set (sfa_jobsToAdd s)"

definition range_ok :: "shard_for_addition \<Rightarrow> bool" where
  "range_ok s \<longleftrightarrow> sfa_minFseq s \<le> sfa_maxFseq s \<and> sfa_maxFseq s < - 1 \<and> sfa_fseqs s \<subseteq> {sfa_minFseq s..sfa_maxFseq s}"

definition single_ok :: "nat \<Rightarrow> nat \<Rightarrow> (string \<Rightarrow> u64 set) \<Rightarrow> shard_for_addition \<Rightarrow> bool" where
  "single_ok m r F s \<longleftrightarrow> range_ok s \<and> \<not> sfa_fromSplit s
     \<and> (if sfa_newShard s then sfa_jobsToAdd s \<noteq> []
        else F (sfa_address s) \<subseteq> {sfa_minFseq s..sfa_maxFseq s}
          \<and> sfa_minFseq s \<in> F (sfa_address s) \<union> sfa_fseqs s \<and> sfa_maxFseq s \<in> F (sfa_address s) \<union> sfa_fseqs s
          \<and> unat (sfa_jobsCount s) + 2 * r < 2 * m
          \<and> (m \<le> unat (sfa_jobsCount s) + r \<longrightarrow> sfa_minFseq s < sfa_maxFseq s))"

definition pair_ok :: "nat \<Rightarrow> nat \<Rightarrow> (string \<Rightarrow> u64 set) \<Rightarrow> shard_for_addition \<Rightarrow> shard_for_addition \<Rightarrow> bool" where
  "pair_ok m r F s t \<longleftrightarrow> range_ok s \<and> range_ok t \<and> sfa_fromSplit s \<and> sfa_newShard s \<and> sfa_splitSource s = Some (sfa_id t)
     \<and> \<not> sfa_newShard t \<and> \<not> sfa_fromSplit t \<and> sfa_minFseq t = sfa_maxFseq s + 1
     \<and> F (sfa_address t) \<subseteq> {sfa_minFseq s..sfa_maxFseq t}
     \<and> sfa_minFseq s \<in> F (sfa_address t) \<union> sfa_fseqs s \<and> sfa_maxFseq t \<in> F (sfa_address t) \<union> sfa_fseqs t
     \<and> unat (sfa_jobsCount t) + r < m"

definition group_ok :: "nat \<Rightarrow> nat \<Rightarrow> (string \<Rightarrow> u64 set) \<Rightarrow> shard_for_addition list \<Rightarrow> bool" where
  "group_ok m r F g \<longleftrightarrow> (case g of [s] \<Rightarrow> single_ok m r F s | [s, t] \<Rightarrow> pair_ok m r F s t | _ \<Rightarrow> False)"

lemma group_ok_simps [simp]:
  "group_ok m r F [s] = single_ok m r F s" "group_ok m r F [s, t] = pair_ok m r F s t" "\<not> group_ok m r F []"
  "\<not> group_ok m r F (s # t # u # us)"
  by (simp_all add: group_ok_def)

abbreviation ranges_ordered :: "shard_for_addition list \<Rightarrow> bool" where
  "ranges_ordered sfas \<equiv> sorted_wrt (\<lambda>s t. sfa_maxFseq s < sfa_minFseq t) sfas"

text \<open>Where a job is planned: after all the ranges before the entry, before all those after.\<close>

lemma find_shard_place:
  assumes "ranges_ordered sfas" and "\<forall>s \<in> set sfas. sfa_minFseq s \<le> sfa_maxFseq s"
    and "find_shard f sfas i = Some k" and "\<forall>s \<in> set (take i sfas). sfa_maxFseq s < f"
  shows "(\<forall>s \<in> set (take k sfas). sfa_maxFseq s < f) \<and> (\<forall>s \<in> set (drop (Suc k) sfas). f < sfa_minFseq s)"
  using assms
proof (induction f sfas i rule: find_shard.induct)
  case (1 f sfas i)
  let ?s = "sfas ! i"
  note ordered = "1.prems"(1) and proper = "1.prems"(2) and found = "1.prems"(3) and before = "1.prems"(4)
  have i: "i < length sfas" using find_shard_bounds [OF found] by simp
  then have s: "sfa_minFseq ?s \<le> sfa_maxFseq ?s" using proper by simp
  have after: "\<forall>t \<in> set (drop (Suc i) sfas). sfa_maxFseq ?s < sfa_minFseq t"
    using ordered by (subst (asm) id_take_drop [OF i]) (simp add: sorted_wrt_append)
  show ?case
  proof (cases "f \<le> sfa_maxFseq ?s")
    case True
    then have "k = i" using found i by (subst (asm) find_shard.simps) (auto split: if_splits)
    with before after True show ?thesis by fastforce
  next
    case False
    then have upto: "\<forall>s \<in> set (take (Suc i) sfas). sfa_maxFseq s < f" using before i by (auto simp: take_Suc_conv_app_nth)
    show ?thesis
    proof (cases "Suc i < length sfas")
      case inner: True
      let ?n = "sfas ! Suc i"
      have rest: "drop (Suc i) sfas = ?n # drop (Suc (Suc i)) sfas" using inner by (rule Cons_nth_drop_Suc [symmetric])
      have beyond: "\<forall>t \<in> set (drop (Suc (Suc i)) sfas). sfa_maxFseq ?n < sfa_minFseq t"
        using ordered by (subst (asm) id_take_drop [OF inner]) (simp add: sorted_wrt_append)
      show ?thesis
      proof (cases "f < sfa_minFseq ?n")
        case True
        then have "k = i \<or> k = Suc i" using found i inner False s by (subst (asm) find_shard.simps) (auto split: if_splits)
        moreover have "f < sfa_maxFseq ?n" using True proper inner by (meson less_le_trans nth_mem)
        then have "\<forall>t \<in> set (drop (Suc i) sfas). f < sfa_minFseq t"
          using True beyond by (auto simp: rest intro: less_trans)
        ultimately show ?thesis using before upto by (auto simp: rest)
      next
        case not_between: False
        then have rec: "find_shard f sfas (Suc i) = Some k"
          using found i inner False s by (subst (asm) find_shard.simps) (auto split: if_splits)
        show ?thesis
          by (rule "1.IH"(1) [OF _ _ _ inner _ ordered proper rec upto])
            (use i False s not_between in \<open>auto simp: not_le\<close>)
      qed
    next
      case last: False
      then have "k = i" using found i False s by (subst (asm) find_shard.simps) (auto split: if_splits)
      with before last show ?thesis by simp
    qed
  qed
qed

lemma split_middle:
  fixes lo hi :: u64
  assumes "lo < hi"
  shows "lo \<le> lo + (hi - lo) div 2" "lo + (hi - lo) div 2 < hi" "lo + (hi - lo) div 2 + 1 \<le> hi"
    "x < lo + (hi - lo) div 2 + 1 \<longleftrightarrow> x \<le> lo + (hi - lo) div 2"
proof -
  have u: "unat (lo + (hi - lo) div 2) = unat lo + (unat hi - unat lo) div 2"
  proof -
    have "unat ((hi - lo) div 2) = (unat hi - unat lo) div 2" using assms by (simp add: unat_div unat_sub)
    moreover have "unat lo + (unat hi - unat lo) div 2 < 2 ^ LENGTH(64)"
      using assms unsigned_less [of hi, where ?'a = nat] by (simp add: word_less_nat_alt)
    ultimately show ?thesis by (metis unat_add_lem)
  qed
  show "lo \<le> lo + (hi - lo) div 2" "lo + (hi - lo) div 2 < hi"
    using assms u by (simp_all add: word_less_nat_alt word_le_nat_alt)
  then show "lo + (hi - lo) div 2 + 1 \<le> hi" by (simp add: inc_le)
  have "lo + (hi - lo) div 2 \<noteq> - 1" using \<open>lo + (hi - lo) div 2 < hi\<close> by (metis word_n1_ge not_le)
  then show "x < lo + (hi - lo) div 2 + 1 \<longleftrightarrow> x \<le> lo + (hi - lo) div 2"
    by (meson inc_less_eq_self_iff_eq less_inc_imp_less_eq le_less_trans not_le)
qed

lemma unat_inc_le: "unat (c + 1 :: u64) \<le> Suc (unat c)"
  by (simp add: unat_word_ariths)

lemma range_ok_add:
  "range_ok s \<Longrightarrow> rja_fSeq j < - 1 \<Longrightarrow> range_ok (sfa_add_job j s)"
  by (auto simp: range_ok_def min_def max_def subset_iff)

lemma group_ok_less: "group_ok m (Suc r) F g \<Longrightarrow> group_ok m r F g"
  by (auto simp: group_ok_def single_ok_def pair_ok_def split: list.splits if_splits)

lemma single_ok_add:
  assumes "single_ok m (Suc r) F s" and "rja_fSeq j < - 1"
  shows "single_ok m r F (sfa_add_job j s)"
proof -
  have range: "range_ok (sfa_add_job j s)" using assms range_ok_add by (simp add: single_ok_def)
  show ?thesis
  proof (cases "sfa_newShard s")
    case True
    with assms range show ?thesis by (simp add: single_ok_def)
  next
    case False
    let ?s = "sfa_add_job j s" and ?F = "F (sfa_address s)"
    have "?F \<subseteq> {sfa_minFseq ?s..sfa_maxFseq ?s}" using assms(1) False by (auto simp: single_ok_def min_def max_def subset_iff)
    moreover have "sfa_minFseq ?s \<in> ?F \<union> sfa_fseqs ?s" "sfa_maxFseq ?s \<in> ?F \<union> sfa_fseqs ?s"
      using assms(1) False by (auto simp: single_ok_def min_def max_def)
    moreover have "unat (sfa_jobsCount ?s) + 2 * r < 2 * m" "m \<le> unat (sfa_jobsCount ?s) + r \<longrightarrow> m \<le> unat (sfa_jobsCount s) + Suc r"
      using assms(1) False unat_inc_le [of "sfa_jobsCount s"] by (auto simp: single_ok_def)
    moreover have "sfa_minFseq s < sfa_maxFseq s \<longrightarrow> sfa_minFseq ?s < sfa_maxFseq ?s" by (auto simp: min_def max_def)
    ultimately show ?thesis using assms(1) False range by (auto simp: single_ok_def)
  qed
qed

lemma pair_ok_add_first:
  assumes "pair_ok m (Suc r) F s t" and "rja_fSeq j < sfa_minFseq t"
  shows "pair_ok m r F (sfa_add_job j s) t"
proof -
  have le: "rja_fSeq j \<le> sfa_maxFseq s" using assms by (auto simp: pair_ok_def intro: less_inc_imp_less_eq)
  then have max: "max (rja_fSeq j) (sfa_maxFseq s) = sfa_maxFseq s" by (simp add: max_def)
  have "rja_fSeq j < - 1" using le assms(1) by (auto simp: pair_ok_def range_ok_def)
  then have "range_ok (sfa_add_job j s)" using assms(1) by (simp add: range_ok_add pair_ok_def)
  moreover have "F (sfa_address t) \<subseteq> {min (rja_fSeq j) (sfa_minFseq s)..sfa_maxFseq t}"
    using assms(1) by (auto simp: pair_ok_def min_def subset_iff)
  moreover have "min (rja_fSeq j) (sfa_minFseq s) \<in> F (sfa_address t) \<union> sfa_fseqs (sfa_add_job j s)"
    using assms(1) by (auto simp: pair_ok_def min_def)
  ultimately show ?thesis using assms(1) by (simp add: pair_ok_def max)
qed

lemma pair_ok_add_second:
  assumes "pair_ok m (Suc r) F s t" and "sfa_maxFseq s < rja_fSeq j" and "rja_fSeq j < - 1"
  shows "pair_ok m r F s (sfa_add_job j t)"
proof -
  have "sfa_maxFseq s + 1 \<le> rja_fSeq j" using assms(2) by (rule inc_le)
  then have min: "min (rja_fSeq j) (sfa_maxFseq s + 1) = sfa_maxFseq s + 1" by (simp add: min_def)
  have "range_ok (sfa_add_job j t)" using assms by (simp add: range_ok_add pair_ok_def)
  moreover have "F (sfa_address t) \<subseteq> {sfa_minFseq s..max (rja_fSeq j) (sfa_maxFseq t)}"
    using assms(1) by (auto simp: pair_ok_def max_def subset_iff)
  moreover have "max (rja_fSeq j) (sfa_maxFseq t) \<in> F (sfa_address t) \<union> sfa_fseqs (sfa_add_job j t)"
    using assms(1) by (auto simp: pair_ok_def max_def)
  moreover have "unat (sfa_jobsCount t + 1) + r < m" using assms(1) unat_inc_le [of "sfa_jobsCount t"] by (simp add: pair_ok_def)
  ultimately show ?thesis using assms(1) by (simp add: pair_ok_def min)
qed

lemma half_less: "c + 2 * k < 2 * m \<Longrightarrow> c div 2 + k < (m :: nat)"
  by presburger

text \<open>A split: the two halves, before the job is added to one of them.\<close>

lemma sfa_split_pair_ok:
  assumes ok: "single_ok m (Suc r) F s" and "\<not> sfa_newShard s" and full: "m \<le> unat (sfa_jobsCount s)"
    and eq: "sfa_split n s = (new, old)"
  shows "pair_ok m (Suc r) F new old" and "sfa_minFseq new = sfa_minFseq s" and "sfa_maxFseq old = sfa_maxFseq s"
    and "sfa_maxFseq new < sfa_maxFseq s" and "sfa_id new = n" and "sfa_id old = sfa_id s"
proof -
  let ?lo = "sfa_minFseq s" and ?hi = "sfa_maxFseq s"
  let ?mid = "?lo + (?hi - ?lo) div 2"
  have range: "?lo < ?hi" "?hi < - 1" using ok assms(2) full by (auto simp: single_ok_def range_ok_def)
  note mid = split_middle [OF range(1)]
  have new: "sfa_minFseq new = ?lo" "sfa_maxFseq new = ?mid" "sfa_jobsToAdd new = filter (\<lambda>j. rja_fSeq j \<le> ?mid) (sfa_jobsToAdd s)"
    "sfa_fromSplit new" "sfa_newShard new" "sfa_splitSource new = Some (sfa_id s)" "sfa_id new = n"
    using eq by (auto simp: sfa_split_def sfa_new_def Let_def)
  have old: "sfa_minFseq old = ?mid + 1" "sfa_maxFseq old = ?hi" "sfa_jobsToAdd old = filter (\<lambda>j. \<not> rja_fSeq j \<le> ?mid) (sfa_jobsToAdd s)"
    "sfa_fromSplit old = sfa_fromSplit s" "sfa_newShard old = sfa_newShard s" "sfa_id old = sfa_id s"
    "sfa_address old = sfa_address s" "sfa_jobsCount old = sfa_jobsCount s div 2"
    using eq by (auto simp: sfa_split_def sfa_new_def Let_def)
  have gt: "?mid + 1 \<le> x \<longleftrightarrow> \<not> x \<le> ?mid" for x using mid(4) [of x] by (metis not_le)
  have within: "sfa_fseqs s \<subseteq> {?lo..?hi}" using ok by (simp add: single_ok_def range_ok_def)
  have r1: "range_ok new" using within mid(1,2) range(2) by (auto simp: range_ok_def new intro: less_trans)
  have r2: "range_ok old" using within mid(3) range(2) by (auto simp: range_ok_def old gt)
  have "?lo \<in> F (sfa_address s) \<union> sfa_fseqs new" "?hi \<in> F (sfa_address s) \<union> sfa_fseqs old"
    using ok assms(2) mid(1,2) by (auto simp: single_ok_def new old)
  moreover have "unat (sfa_jobsCount s) + 2 * Suc r < 2 * m" using ok assms(2) by (simp add: single_ok_def)
  then have "unat (sfa_jobsCount s div 2) + Suc r < m" using half_less by (simp only: unat_div) simp
  ultimately show "pair_ok m (Suc r) F new old"
    using ok assms(2) r1 r2 by (simp add: pair_ok_def new old single_ok_def)
  show "sfa_minFseq new = ?lo" "sfa_maxFseq old = ?hi" "sfa_maxFseq new < ?hi" "sfa_id new = n" "sfa_id old = sfa_id s"
    using new old mid(2) by simp_all
qed

lemma split_pair_ok:
  assumes ok: "single_ok m (Suc r) F s" and "\<not> sfa_newShard s" and full: "m \<le> unat (sfa_jobsCount s)"
    and eq: "split_pair n j s = (new, old)" and "rja_fSeq j < - 1"
  shows "pair_ok m r F new old" and "min (rja_fSeq j) (sfa_minFseq s) \<le> sfa_minFseq new"
    and "sfa_maxFseq old \<le> max (rja_fSeq j) (sfa_maxFseq s)"
proof -
  obtain new0 old0 where eq0: "sfa_split n s = (new0, old0)" by (cases "sfa_split n s")
  note p = sfa_split_pair_ok [OF ok assms(2) full eq0]
  have place: "sfa_minFseq old0 \<le> rja_fSeq j \<longleftrightarrow> sfa_maxFseq new0 < rja_fSeq j"
  proof -
    have "sfa_minFseq old0 = sfa_maxFseq new0 + 1" "sfa_maxFseq new0 < - 1" using p(1) by (simp_all add: pair_ok_def range_ok_def)
    then show ?thesis by (auto simp: inc_less_eq_iff)
  qed
  have "pair_ok m r F new old \<and> min (rja_fSeq j) (sfa_minFseq s) \<le> sfa_minFseq new \<and> sfa_maxFseq old \<le> max (rja_fSeq j) (sfa_maxFseq s)"
  proof (cases "sfa_minFseq old0 \<le> rja_fSeq j")
    case True
    then have "new = new0" "old = sfa_add_job j old0" using eq eq0 by (auto simp: split_pair_def)
    with p pair_ok_add_second [OF p(1) _ assms(5)] place True show ?thesis by simp
  next
    case False
    then have "new = sfa_add_job j new0" "old = old0" using eq eq0 by (auto simp: split_pair_def)
    with p pair_ok_add_first [OF p(1)] False show ?thesis by simp
  qed
  then show "pair_ok m r F new old" "min (rja_fSeq j) (sfa_minFseq s) \<le> sfa_minFseq new"
    "sfa_maxFseq old \<le> max (rja_fSeq j) (sfa_maxFseq s)" by auto
qed

definition plan_ok :: "nat \<Rightarrow> nat \<Rightarrow> (string \<Rightarrow> u64 set) \<Rightarrow> shard_for_addition list \<Rightarrow> bool" where
  "plan_ok m r F sfas \<longleftrightarrow> ranges_ordered sfas \<and> (\<exists>gs. sfas = concat gs \<and> (\<forall>g \<in> set gs. group_ok m r F g))
     \<and> distinct (map sfa_id sfas) \<and> (\<forall>s \<in> set sfas. sfa_id s < length sfas)"

lemma concat_split:
  "concat gs = xs @ s # ys \<Longrightarrow> \<exists>gs1 us vs gs2. gs = gs1 @ (us @ s # vs) # gs2 \<and> xs = concat gs1 @ us \<and> ys = vs @ concat gs2"
proof (induction gs arbitrary: xs)
  case (Cons g gs)
  from Cons.prems have "g @ concat gs = xs @ s # ys" by simp
  then consider (here) vs where "g = xs @ s # vs" "ys = vs @ concat gs" | (later) zs where "xs = g @ zs" "concat gs = zs @ s # ys"
    by (auto simp: append_eq_append_conv2 append_eq_Cons_conv)
  then show ?case
  proof cases
    case here
    then show ?thesis by (intro exI [of _ "[]"] exI [of _ xs] exI [of _ vs] exI [of _ gs]) simp
  next
    case later
    from Cons.IH [OF later(2)] obtain gs1 us vs gs2 where
      "gs = gs1 @ (us @ s # vs) # gs2" "zs = concat gs1 @ us" "ys = vs @ concat gs2" by blast
    with later(1) show ?thesis by (intro exI [of _ "g # gs1"] exI [of _ us] exI [of _ vs] exI [of _ gs2]) simp
  qed
qed simp

lemma group_range_ok: "group_ok m r F g \<Longrightarrow> s \<in> set g \<Longrightarrow> range_ok s"
  by (auto simp: group_ok_def single_ok_def pair_ok_def split: list.splits)

lemma ranges_ordered_replace:
  assumes "ranges_ordered (xs @ s # ys)" and "sfa_minFseq s \<le> sfa_maxFseq s" and "\<forall>x \<in> set xs. sfa_maxFseq x < f" and "\<forall>y \<in> set ys. f < sfa_minFseq y"
    and "ranges_ordered zs" and "\<forall>z \<in> set zs. min f (sfa_minFseq s) \<le> sfa_minFseq z \<and> sfa_maxFseq z \<le> max f (sfa_maxFseq s)"
  shows "ranges_ordered (xs @ zs @ ys)"
proof -
  have "sfa_maxFseq x < sfa_minFseq z" if "x \<in> set xs" "z \<in> set zs" for x z
    using assms(1,3,6) that by (fastforce simp: sorted_wrt_append min_def split: if_splits)
  moreover have "sfa_maxFseq z < sfa_minFseq y" if "y \<in> set ys" "z \<in> set zs" for y z
    using assms(1,4,6) that by (fastforce simp: sorted_wrt_append max_def split: if_splits)
  moreover have "sfa_maxFseq x < sfa_minFseq y" if "x \<in> set xs" "y \<in> set ys" for x y
    using assms(1) that by (simp add: sorted_wrt_append)
  ultimately show ?thesis using assms(1,5) by (auto simp: sorted_wrt_append)
qed

text \<open>
  The entry found in its group: what the group becomes. \<open>zs\<close> is the entry with the job, or the two halves.
\<close>

lemma group_ok_add:
  assumes ok: "group_ok (unat m) (Suc r) F (us @ s # vs)" and "rja_fSeq j < - 1"
    and before: "\<forall>u \<in> set us. sfa_maxFseq u < rja_fSeq j" and after: "\<forall>v \<in> set vs. rja_fSeq j < sfa_minFseq v"
    and zs: "zs = [sfa_add_job j s] \<or> (\<exists>new old. split_pair n j s = (new, old) \<and> zs = [new, old]
       \<and> \<not> sfa_fromSplit s \<and> \<not> sfa_newShard s \<and> \<not> sfa_jobsCount s < m)"
  shows "group_ok (unat m) r F (us @ zs @ vs) \<and> ranges_ordered zs
     \<and> (\<forall>z \<in> set zs. min (rja_fSeq j) (sfa_minFseq s) \<le> sfa_minFseq z \<and> sfa_maxFseq z \<le> max (rja_fSeq j) (sfa_maxFseq s))"
proof -
  consider (single) "us = []" "vs = []" | (first) t where "us = []" "vs = [t]" | (second) p where "us = [p]" "vs = []"
    using ok by (cases us; cases vs) (auto simp: group_ok_def split: list.splits)
  then show ?thesis
  proof cases
    case single
    then have s: "single_ok (unat m) (Suc r) F s" using ok by simp
    show ?thesis
    proof (cases "zs = [sfa_add_job j s]")
      case True
      with single single_ok_add [OF s assms(2)] show ?thesis by simp
    next
      case False
      with zs obtain new old where p: "split_pair n j s = (new, old)" "zs = [new, old]" "\<not> sfa_newShard s"
        "unat m \<le> unat (sfa_jobsCount s)" by (auto simp: word_less_nat_alt)
      note q = split_pair_ok [OF s p(3,4) p(1) assms(2)]
      have r: "sfa_maxFseq new < sfa_minFseq old" "sfa_minFseq old \<le> sfa_maxFseq old" "sfa_minFseq new \<le> sfa_maxFseq new"
        using q(1) inc_le [of "sfa_maxFseq new" "- 1"] by (auto simp: pair_ok_def range_ok_def inc_less_eq_self_iff_eq simp flip: not_le)
      have "min (rja_fSeq j) (sfa_minFseq s) \<le> sfa_minFseq old" "sfa_maxFseq new \<le> max (rja_fSeq j) (sfa_maxFseq s)"
        using q(2,3) r by (meson order_trans less_imp_le)+
      then show ?thesis using single q r(1) by (simp add: p(2))
    qed
  next
    case first
    then have pr: "pair_ok (unat m) (Suc r) F s t" using ok by simp
    then have "zs = [sfa_add_job j s]" using zs by (auto simp: pair_ok_def)
    with first pair_ok_add_first [OF pr] after show ?thesis by simp
  next
    case second
    then have pr: "pair_ok (unat m) (Suc r) F p s" using ok by simp
    then have "zs = [sfa_add_job j s]" using zs by (auto simp: pair_ok_def word_less_nat_alt)
    with second pair_ok_add_second [OF pr _ assms(2)] before show ?thesis by simp
  qed
qed

lemma plan_ids:
  assumes ids: "distinct (map sfa_id (xs @ s # ys))" "\<forall>x \<in> set (xs @ s # ys). sfa_id x < n" and n: "n = length (xs @ s # ys)"
    and zs: "zs = [sfa_add_job j s] \<or> (\<exists>new old. split_pair n j s = (new, old) \<and> zs = [new, old] \<and> Q)"
  shows "distinct (map sfa_id (xs @ zs @ ys)) \<and> (\<forall>x \<in> set (xs @ zs @ ys). sfa_id x < length (xs @ zs @ ys))"
proof (cases "zs = [sfa_add_job j s]")
  case True
  with ids n show ?thesis by auto
next
  case False
  with zs obtain new old where z: "split_pair n j s = (new, old)" "zs = [new, old]" by blast
  have "sfa_id new = n" "sfa_id old = sfa_id s" using split_pair_fields [OF z(1)] by simp_all
  moreover have "sfa_id x < n" "sfa_id x < Suc n" if "x \<in> set xs \<union> set ys \<union> {s}" for x
    using ids(2) that by (auto intro: less_SucI)
  ultimately show ?thesis using ids(1) n by (fastforce simp: z(2))
qed

lemma plan_ok_add:
  assumes ok: "plan_ok (unat m) (Suc r) F sfas" and found: "find_shard (rja_fSeq j) sfas 0 = Some k" and "rja_fSeq j < - 1"
  shows "plan_ok (unat m) r F (addJobToShardAndMaybeSplit m j k sfas)"
proof -
  let ?xs = "take k sfas" and ?s = "sfas ! k" and ?ys = "drop (Suc k) sfas" and ?f = "rja_fSeq j"
  from ok obtain gs where gs: "sfas = concat gs" "\<forall>g \<in> set gs. group_ok (unat m) (Suc r) F g" by (auto simp: plan_ok_def)
  have k: "k < length sfas" using find_shard_bounds [OF found] by simp
  have eq: "sfas = ?xs @ ?s # ?ys" by (rule id_take_drop [OF k])
  have proper: "\<forall>s \<in> set sfas. sfa_minFseq s \<le> sfa_maxFseq s"
    using gs group_range_ok by (fastforce simp: range_ok_def)
  have ordered: "ranges_ordered sfas" using ok by (simp add: plan_ok_def)
  have place: "\<forall>s \<in> set ?xs. sfa_maxFseq s < ?f" "\<forall>s \<in> set ?ys. ?f < sfa_minFseq s"
    using find_shard_place [OF ordered proper found] by auto
  define zs where "zs = (if sfa_jobsCount ?s < m \<or> sfa_fromSplit ?s \<or> sfa_newShard ?s then [sfa_add_job j ?s]
     else [fst (split_pair (length sfas) j ?s), snd (split_pair (length sfas) j ?s)])"
  have res: "addJobToShardAndMaybeSplit m j k sfas = ?xs @ zs @ ?ys"
    using k by (simp add: addJobToShardAndMaybeSplit_def zs_def split_pair_def upd_conv_take_nth_drop Let_def split: prod.splits)
  have zs: "zs = [sfa_add_job j ?s] \<or> (\<exists>new old. split_pair (length sfas) j ?s = (new, old) \<and> zs = [new, old]
     \<and> \<not> sfa_fromSplit ?s \<and> \<not> sfa_newShard ?s \<and> \<not> sfa_jobsCount ?s < m)"
    by (cases "split_pair (length sfas) j ?s") (simp add: zs_def)
  have "concat gs = ?xs @ ?s # ?ys" using gs(1) eq by (rule subst)
  from concat_split [OF this] obtain gs1 us vs gs2 where
    g: "gs = gs1 @ (us @ ?s # vs) # gs2" "?xs = concat gs1 @ us" "?ys = vs @ concat gs2" by blast
  have "group_ok (unat m) (Suc r) F (us @ ?s # vs)" using gs(2) g(1) by simp
  from group_ok_add [OF this assms(3) _ _ zs] place g(2,3) have add: "group_ok (unat m) r F (us @ zs @ vs)" "ranges_ordered zs"
    "\<forall>z \<in> set zs. min ?f (sfa_minFseq ?s) \<le> sfa_minFseq z \<and> sfa_maxFseq z \<le> max ?f (sfa_maxFseq ?s)" by auto
  have "?xs @ zs @ ?ys = concat (gs1 @ (us @ zs @ vs) # gs2)" using g(2,3) by simp
  moreover have "\<forall>h \<in> set (gs1 @ (us @ zs @ vs) # gs2). group_ok (unat m) r F h"
    using gs(2) g(1) add(1) group_ok_less by auto
  moreover have "ranges_ordered (?xs @ zs @ ?ys)"
    by (rule ranges_ordered_replace [OF _ _ place add(2,3)]) (use ordered proper k in \<open>simp_all flip: eq\<close>)
  moreover have ids: "distinct (map sfa_id (?xs @ zs @ ?ys)) \<and> (\<forall>s \<in> set (?xs @ zs @ ?ys). sfa_id s < length (?xs @ zs @ ?ys))"
    by (rule plan_ids [OF _ _ _ zs]) (use ok in \<open>simp_all add: plan_ok_def flip: eq\<close>)
  ultimately show ?thesis unfolding plan_ok_def res by blast
qed

lemma plan_ok_first:
  assumes "rja_fSeq j < - 1"
  shows "plan_ok m r F [(sfa_new 0)\<lparr>sfa_newShard := True, sfa_minFseq := rja_fSeq j, sfa_maxFseq := rja_fSeq j,
    sfa_jobsCount := 1, sfa_jobsToAdd := [j]\<rparr>]" (is "plan_ok m r F [?s]")
proof -
  have "group_ok m r F [?s]" using assms by (simp add: single_ok_def range_ok_def sfa_new_def)
  then show ?thesis by (auto simp: plan_ok_def sfa_new_def intro!: exI [of _ "[[?s]]"])
qed

lemma rq_plan_jobs_plan_ok:
  assumes "plan_ok (unat m) (length js) F sfas" and "\<forall>j \<in> set js. rja_fSeq j < - 1"
  shows "\<exists>sfas'. foldR (rq_plan_job m) sfas js = Inr sfas' \<and> plan_ok (unat m) 0 F sfas'"
  using assms
proof (induction js arbitrary: sfas)
  case (Cons j js)
  obtain s1 where s1: "rq_plan_job m sfas j = Inr s1" "plan_ok (unat m) (length js) F s1"
  proof (cases "sfas = []")
    case True
    then show thesis using that plan_ok_first [of j "unat m" "length js" F] Cons.prems(2) by (simp add: rq_plan_job_def)
  next
    case False
    then obtain k where k: "find_shard (rja_fSeq j) sfas 0 = Some k" using find_shard_finds [of 0 sfas] by auto
    then show thesis using that plan_ok_add [OF _ k, of m "length js" F] Cons.prems False by (simp add: rq_plan_job_def)
  qed
  with Cons.IH [of s1] Cons.prems(2) show ?case by simp
qed simp

text \<open>The shard pointers of a queue before an addition of \<open>n\<close> jobs.\<close>

definition pointers_ok :: "nat \<Rightarrow> nat \<Rightarrow> (string \<Rightarrow> u64 set) \<Rightarrow> retrieve_queue_shard_pointer list \<Rightarrow> bool" where
  "pointers_ok m n F sps \<longleftrightarrow> sorted_wrt (\<lambda>a b. rqsp_maxfseq a < rqsp_minfseq b) sps
     \<and> (\<forall>sp \<in> set sps. rqsp_minfseq sp \<in> F (rqsp_address sp) \<and> rqsp_maxfseq sp \<in> F (rqsp_address sp)
          \<and> F (rqsp_address sp) \<subseteq> {rqsp_minfseq sp..rqsp_maxfseq sp} \<and> rqsp_maxfseq sp < - 1
          \<and> unat (rqsp_shardjobscount sp) + 2 * n < 2 * m
          \<and> (m \<le> unat (rqsp_shardjobscount sp) + n \<longrightarrow> rqsp_minfseq sp < rqsp_maxfseq sp))"

lemma order_limits_ordered:
  assumes "ranges_ordered sfas" and "\<forall>s \<in> set sfas. sfa_minFseq s \<le> sfa_maxFseq s \<and> sfa_maxFseq s < - 1" and "\<forall>s \<in> set sfas. h \<le> sfa_minFseq s"
  shows "order_limits h sfas = sfas"
  using assms
proof (induction h sfas rule: order_limits.induct)
  case (2 h s ss)
  have "order_limits (sfa_maxFseq s + 1) ss = ss"
    using 2 by (simp add: Let_def max_def inc_le)
  then show ?case using "2.prems" by (simp add: Let_def max_def)
qed simp

lemma concat_singletons: "concat (map (\<lambda>x. [x]) xs) = xs"
  by (induction xs) simp_all

lemma rq_initial_plan_ok:
  assumes "pointers_ok m n F sps"
  shows "plan_ok m n F (rq_initial_plan sps)"
proof -
  let ?plan = "map (\<lambda>(i, sp). sfa_of_pointer i sp) (enumerate 0 sps)"
  have nth: "?plan ! i = sfa_of_pointer i (sps ! i)" if "i < length sps" for i using that by (simp add: nth_enumerate_eq)
  have single: "single_ok m n F s" if "s \<in> set ?plan" for s
  proof -
    from that obtain i where "i < length sps" "s = sfa_of_pointer i (sps ! i)" by (auto simp: in_set_enumerate_eq)
    moreover from this have "sps ! i \<in> set sps" by simp
    ultimately show ?thesis using assms by (auto simp: pointers_ok_def single_ok_def range_ok_def sfa_of_pointer_def sfa_new_def subset_iff)
  qed
  have ordered: "ranges_ordered ?plan"
    using assms by (simp add: pointers_ok_def sorted_wrt_iff_nth_less nth_enumerate_eq sfa_of_pointer_def del: map_map)
  have "rq_initial_plan sps = ?plan"
    unfolding rq_initial_plan_def using single ordered
    by (intro order_limits_ordered) (auto simp: single_ok_def range_ok_def)
  moreover have "?plan = concat (map (\<lambda>s. [s]) ?plan)" by (rule concat_singletons [symmetric])
  moreover have "\<forall>g \<in> set (map (\<lambda>s. [s]) ?plan). group_ok m n F g" using single by auto
  moreover have "map sfa_id ?plan = [0..<length sps]" using sfas_of_pointers(3) [of 0 sps] by simp
  then have "distinct (map sfa_id ?plan)" "\<forall>s \<in> set ?plan. sfa_id s < length ?plan"
    by (metis distinct_upt, metis atLeastLessThan_upt atLeastLessThan_iff image_eqI length_map length_upt minus_nat.diff_0 set_map)
  ultimately show ?thesis using ordered unfolding plan_ok_def by (metis (no_types, lifting))
qed

section \<open>The finished plan\<close>

lemma group_ok_number: "group_ok m r F (map (\<lambda>(i, sfa). sfa\<lparr>sfa_shardIndex := of_nat i\<rparr>) (enumerate n g)) = group_ok m r F g"
  by (auto simp: group_ok_def single_ok_def pair_ok_def range_ok_def split: list.splits)

lemma number_groups:
  "\<forall>g \<in> set gs. group_ok m r F g \<Longrightarrow>
   \<exists>gs'. map (\<lambda>(i, sfa). sfa\<lparr>sfa_shardIndex := of_nat i\<rparr>) (enumerate n (concat gs)) = concat gs' \<and> (\<forall>g \<in> set gs'. group_ok m r F g)"
proof (induction gs arbitrary: n)
  case Nil
  show ?case by (intro exI [of _ "[]"]) simp
next
  case (Cons g gs)
  from Cons.IH [of "n + length g"] Cons.prems obtain gs' where
    "map (\<lambda>(i, sfa). sfa\<lparr>sfa_shardIndex := of_nat i\<rparr>) (enumerate (n + length g) (concat gs)) = concat gs'"
    "\<forall>g \<in> set gs'. group_ok m r F g" by auto
  with Cons.prems group_ok_number [of m r F n g] show ?case
    by (intro exI [of _ "map (\<lambda>(i, sfa). sfa\<lparr>sfa_shardIndex := of_nat i\<rparr>) (enumerate n g) # gs'"]) (simp add: enumerate_append_eq)
qed

lemma plan_ok_number:
  assumes "plan_ok m r F sfas"
  shows "plan_ok m r F (number_shards sfas)"
proof -
  from assms obtain gs where gs: "sfas = concat gs" "\<forall>g \<in> set gs. group_ok m r F g" by (auto simp: plan_ok_def)
  have nth: "number_shards sfas ! i = (sfas ! i)\<lparr>sfa_shardIndex := of_nat i\<rparr>" if "i < length sfas" for i
    using that by (simp add: number_shards_def nth_enumerate_eq)
  have len: "length (number_shards sfas) = length sfas" by (rule number_shards_fields)
  have ids: "map sfa_id (number_shards sfas) = map sfa_id sfas"
    by (rule nth_equalityI) (simp_all add: len nth)
  then have "\<forall>s \<in> set (number_shards sfas). sfa_id s < length sfas"
    using assms unfolding plan_ok_def by (metis (no_types, lifting) image_eqI image_iff set_map)
  moreover have "ranges_ordered (number_shards sfas)"
    using assms by (simp add: plan_ok_def sorted_wrt_iff_nth_less len nth)
  ultimately show ?thesis
    using assms number_groups [OF gs(2), of 0] ids len unfolding plan_ok_def number_shards_def gs(1) by simp
qed

lemma rq_plan_ok:
  assumes "pointers_ok (unat m) (length js) F sps" and "\<forall>j \<in> set js. rja_fSeq j < - 1"
  shows "\<exists>sfas. rq_plan m sps js = Inr sfas \<and> plan_ok (unat m) 0 F sfas \<and> plan_jobs sfas = mset js
    \<and> plan_old sfas = map rqsp_address sps \<and> (\<forall>i < length sfas. sfa_shardIndex (sfas ! i) = of_nat i)"
proof -
  from rq_plan_jobs_plan_ok [OF rq_initial_plan_ok [OF assms(1)] assms(2)] obtain sfas where
    p: "foldR (rq_plan_job m) (rq_initial_plan sps) js = Inr sfas" "plan_ok (unat m) 0 F sfas" by blast
  then have "rq_plan m sps js = Inr (number_shards sfas)" by (simp add: rq_plan_number)
  moreover from this rq_plan_conserves [of m sps js] have "plan_jobs (number_shards sfas) = mset js"
    "plan_old (number_shards sfas) = map rqsp_address sps" by auto
  moreover have "sfa_shardIndex (number_shards sfas ! i) = of_nat i" if "i < length (number_shards sfas)" for i
    using that by (simp add: number_shards_def nth_enumerate_eq)
  ultimately show ?thesis using plan_ok_number [OF p(2)] by blast
qed

end
