(* ===== verification/RetrieveQueueSpec.thy ===== *)
theory RetrieveQueueSpec
  imports RetrieveQueuePlan ArchiveQueueSpec
begin

text \<open>
  The abstraction of a retrieve queue: a list of shards, each with its address and its jobs sorted by position
  on tape, over successive ranges of positions. The queue object holds the pointers and the summaries,
  the object store holds the shards. The execution of the plan of an addition is shown to add the jobs to
  this list.
\<close>

section \<open>Abstraction\<close>

type_synonym rq_view = "(string \<times> retrieve_job_pointer list) list"

definition rq_shard_of :: "retrieve_job_pointer list \<Rightarrow> retrieve_queue_shard" where
  "rq_shard_of js = \<lparr>rqs_retrievejobs = js, rqs_retrievejobstotalsize = (\<Sum>j\<leftarrow>js. rjp_size j)\<rparr>"

definition rq_pointer_of :: "string \<times> retrieve_job_pointer list \<Rightarrow> retrieve_queue_shard_pointer" where
  "rq_pointer_of = (\<lambda>(a, js). \<lparr>rqsp_address = a, rqsp_shardjobscount = of_nat (length js),
     rqsp_shardbytescount = (\<Sum>j\<leftarrow>js. rjp_size j), rqsp_minfseq = rjp_fseq (hd js), rqsp_maxfseq = rjp_fseq (last js)\<rparr>)"

text \<open>The summaries of the queue object are those of the jobs \<open>M\<close>.\<close>

definition activities :: "retrieve_job_pointer multiset \<Rightarrow> string multiset" where
  "activities M = image_mset (the \<circ> rjp_activity) (filter_mset (\<lambda>j. rjp_activity j \<noteq> None) M)"

definition rq_maps :: "retrieve_queue \<Rightarrow> retrieve_job_pointer multiset \<Rightarrow> bool" where
  "rq_maps p M \<longleftrightarrow> represents (rq_prioritymap p) (image_mset rjp_priority M)
     \<and> represents (rq_minretrieverequestagemap p) (image_mset rjp_minretrieverequestage M)
     \<and> represents (rq_mountpolicynamemap p) (image_mset rjp_mountpolicyname M)
     \<and> represents (rq_activity_map p) (activities M)"

definition rq_sums :: "retrieve_queue \<Rightarrow> retrieve_job_pointer multiset \<Rightarrow> bool" where
  "rq_sums p M \<longleftrightarrow> rq_retrievejobscount p = of_nat (size M)
     \<and> rq_retrievejobstotalsize p = (\<Sum>j \<in># M. rjp_size j) \<and> rq_maps p M"

definition rq_rep :: "retrieve_queue \<Rightarrow> rq_view \<Rightarrow> bool" where
  "rq_rep p v \<longleftrightarrow> rq_retrievequeueshards p = map rq_pointer_of v \<and> rq_sums p (mset (view_jobs v))"

definition rq_store :: "world \<Rightarrow> rq_view \<Rightarrow> bool" where
  "rq_store w v \<longleftrightarrow> distinct (map fst v) \<and> (\<forall>(a, js) \<in> set v. stored rqs_c w a (rq_shard_of js))"

text \<open>Every shard is sorted and has a job, and comes before the next one on tape.\<close>

definition rq_shape :: "rq_view \<Rightarrow> bool" where
  "rq_shape v \<longleftrightarrow> (\<forall>x \<in> set v. snd x \<noteq> [] \<and> fseq_sorted (snd x))
     \<and> sorted_wrt (\<lambda>x y. rjp_fseq (last (snd x)) < rjp_fseq (hd (snd y))) v"

definition rq_inv :: "world \<Rightarrow> retrieve_queue oo \<Rightarrow> rq_view \<Rightarrow> bool" where
  "rq_inv w ob v \<longleftrightarrow> queue_ready w ob (fst ` set v) \<and> rq_rep (oo_payload ob) v \<and> rq_store w v"

text \<open>The jobs of the whole queue are then in the order of the tape.\<close>

lemma rq_shape_sorted: "rq_shape v \<Longrightarrow> fseq_sorted (view_jobs v)"
proof (induction v)
  case (Cons x v)
  have x: "snd x \<noteq> []" "fseq_sorted (snd x)" and v: "rq_shape v"
    and lt: "\<forall>y \<in> set v. snd y \<noteq> [] \<and> fseq_sorted (snd y) \<and> rjp_fseq (last (snd x)) < rjp_fseq (hd (snd y))"
    using Cons.prems by (auto simp: rq_shape_def)
  have "rjp_fseq j \<le> rjp_fseq k" if "j \<in> set (snd x)" "y \<in> set v" "k \<in> set (snd y)" for j y k
  proof -
    have "rjp_fseq j \<le> rjp_fseq (last (snd x))"
      using x that(1) by (cases "snd x" rule: rev_cases) (auto simp: sorted_append)
    moreover have "rjp_fseq (hd (snd y)) \<le> rjp_fseq k" using lt that(2,3) by (cases "snd y") auto
    ultimately show ?thesis using lt that(2) by (meson less_imp_le order_trans)
  qed
  with x(2) Cons.IH [OF v] show ?case by (auto simp: view_jobs_def sorted_append)
qed (simp add: view_jobs_def)

lemma rqsp_address_pointer_of [simp]: "rqsp_address (rq_pointer_of x) = fst x"
  by (simp add: rq_pointer_of_def split: prod.split)

lemma rq_pointer_of_sums:
  "(\<Sum>x\<leftarrow>v. rqsp_shardbytescount (rq_pointer_of x)) = (\<Sum>j \<in># mset (view_jobs v). rjp_size j)"
  "(\<Sum>x\<leftarrow>v. rqsp_shardjobscount (rq_pointer_of x)) = of_nat (size (mset (view_jobs v)))"
  by (induction v) (auto simp: rq_pointer_of_def simp flip: sum_mset_sum_list mset_map)

section \<open>Commit\<close>

lemma rq_maps_totals:
  assumes "rq_maps p M"
  shows "total (rq_prioritymap p) = Inr (of_nat (size M))"
    and "total (rq_minretrieverequestagemap p) = Inr (of_nat (size M))"
    and "total (rq_mountpolicynamemap p) = Inr (of_nat (size M))"
  using assms by (auto simp: rq_maps_def dest!: total_represents)

lemma rq_coherency_rep:
  assumes "held ob" and "rq_rep (oo_payload ob) v"
  shows "rq_checkMapsAndShardsCoherency ob = Inr True"
  using assms
  by (simp add: rq_checkMapsAndShardsCoherency_def Let_def rq_rep_def rq_sums_def fold_add_sizes
      rq_maps_totals [of _ "mset (view_jobs v)"] rq_pointer_of_sums comp_def)

lemma rq_commit_rep:
  assumes "held ob" and "vfs_exists (oo_name ob) w" and "rq_rep (oo_payload ob) v"
  shows "rq_commit ob w = (Inr ob, w\<lparr>objects := (objects w)(oo_name ob \<mapsto> oo_header rq_c ob)\<rparr>)"
  using assms by (simp add: rq_commit_def rq_coherency_rep oo_commit_held)

section \<open>Counting the jobs of a shard\<close>

lemma size_activities: "size (activities M) \<le> size M"
  by (simp add: activities_def size_filter_mset_lesseq)

lemma rq_maps_inc:
  assumes "rq_maps p M" and "Suc (size M) < 2 ^ 64"
  shows "\<exists>p'. rq_count_job p j = Inr p' \<and> rq_maps p' (add_mset (rqs_job_pointer j) M)
    \<and> rq_retrievequeueshards p' = rq_retrievequeueshards p \<and> rq_vid p' = rq_vid p
    \<and> rq_retrievejobscount p' = rq_retrievejobscount p \<and> rq_retrievejobstotalsize p' = rq_retrievejobstotalsize p"
proof -
  let ?j = "rqs_job_pointer j"
  obtain pm where pm: "incCount (rjp_priority ?j) (rq_prioritymap p) = Inr pm"
    "represents pm (add_mset (rjp_priority ?j) (image_mset rjp_priority M))"
    using incCount_represents [of "rq_prioritymap p" _ "rjp_priority ?j"] assms by (fastforce simp: rq_maps_def)
  obtain am where am: "incCount (rjp_minretrieverequestage ?j) (rq_minretrieverequestagemap p) = Inr am"
    "represents am (add_mset (rjp_minretrieverequestage ?j) (image_mset rjp_minretrieverequestage M))"
    using incCount_represents [of "rq_minretrieverequestagemap p" _ "rjp_minretrieverequestage ?j"] assms by (fastforce simp: rq_maps_def)
  obtain mm where mm: "incCount (rjp_mountpolicyname ?j) (rq_mountpolicynamemap p) = Inr mm"
    "represents mm (add_mset (rjp_mountpolicyname ?j) (image_mset rjp_mountpolicyname M))"
    using incCount_represents [of "rq_mountpolicynamemap p" _ "rjp_mountpolicyname ?j"] assms by (fastforce simp: rq_maps_def)
  obtain acm where acm: "(case rja_activity j of None \<Rightarrow> Inr (rq_activity_map p) | Some a \<Rightarrow> activity_incCount a (rq_activity_map p)) = Inr acm"
    "represents acm (activities (add_mset ?j M))"
  proof (cases "rja_activity j")
    case None
    with that assms(1) show thesis by (simp add: rq_maps_def activities_def rqs_job_pointer_def)
  next
    case (Some a)
    have "Suc (size (activities M)) < 2 ^ 64" using assms(2) size_activities [of M] by linarith
    with assms(1) incCount_represents [of "rq_activity_map p" "activities M" a] Some that show thesis
      by (auto simp: rq_maps_def activities_def rqs_job_pointer_def activity_incCount_eq)
  qed
  from pm am mm acm show ?thesis
    by (simp add: rq_count_job_def rq_maps_def rqs_job_pointer_def)
qed

lemma rq_count_jobs_maps:
  assumes "rq_maps p M" and "size M + length jobs < 2 ^ 64"
  shows "\<exists>p'. foldR rq_count_job p jobs = Inr p' \<and> rq_maps p' (M + mset (map rqs_job_pointer jobs))
    \<and> rq_retrievequeueshards p' = rq_retrievequeueshards p \<and> rq_vid p' = rq_vid p
    \<and> rq_retrievejobscount p' = rq_retrievejobscount p \<and> rq_retrievejobstotalsize p' = rq_retrievejobstotalsize p"
  using assms
proof (induction jobs arbitrary: p M)
  case (Cons j jobs)
  obtain p1 where p1: "rq_count_job p j = Inr p1" "rq_maps p1 (add_mset (rqs_job_pointer j) M)"
    "rq_retrievequeueshards p1 = rq_retrievequeueshards p" "rq_vid p1 = rq_vid p"
    "rq_retrievejobscount p1 = rq_retrievejobscount p" "rq_retrievejobstotalsize p1 = rq_retrievejobstotalsize p"
    using rq_maps_inc [OF Cons.prems(1)] Cons.prems(2) by fastforce
  from Cons.IH [OF p1(2)] Cons.prems(2) obtain p2 where "foldR rq_count_job p1 jobs = Inr p2"
    "rq_maps p2 (add_mset (rqs_job_pointer j) M + mset (map rqs_job_pointer jobs))"
    "rq_retrievequeueshards p2 = rq_retrievequeueshards p1" "rq_vid p2 = rq_vid p1"
    "rq_retrievejobscount p2 = rq_retrievejobscount p1" "rq_retrievejobstotalsize p2 = rq_retrievejobstotalsize p1" by auto
  with p1 show ?case by simp
qed simp

section \<open>The end of an iteration\<close>

lemma rq_shard_eq: "rqs_retrievejobstotalsize p = (\<Sum>j\<leftarrow>rqs_retrievejobs p. rjp_size j) \<Longrightarrow> p = rq_shard_of (rqs_retrievejobs p)"
  by (simp add: rq_shard_of_def)

lemma sum_list_sizes_mset: "mset js = mset ks \<Longrightarrow> (\<Sum>j\<leftarrow>js. f j) = (\<Sum>j\<leftarrow>ks. f j :: u64)"
  by (metis mset_map sum_mset_sum_list)

lemma rqs_added_shard:
  assumes "rqs_added (rq_shard_of js) js1 p'"
  shows "p' = rq_shard_of (rqs_retrievejobs p') \<and> fseq_sorted (rqs_retrievejobs p')
    \<and> mset (rqs_retrievejobs p') = mset js + mset (map rqs_job_pointer js1)"
proof -
  let ?js = "rqs_retrievejobs p'"
  have m: "mset ?js = mset (js @ map rqs_job_pointer js1)" using assms by (simp add: rqs_added_def rq_shard_of_def)
  have "rqs_retrievejobstotalsize p' = (\<Sum>j\<leftarrow>js @ map rqs_job_pointer js1. rjp_size j)"
    using assms by (simp add: rqs_added_def rq_shard_of_def rqs_job_pointer_def comp_def)
  then have "rqs_retrievejobstotalsize p' = (\<Sum>j\<leftarrow>?js. rjp_size j)" using sum_list_sizes_mset [OF m, of rjp_size] by simp
  with assms m rq_shard_eq show ?thesis by (simp add: rqs_added_def)
qed

lemma rqs_addJobsBatch_shard:
  assumes "usable s a ex" and "oo_payload s = rq_shard_of js" and "fseq_sorted js"
  shows "\<exists>js'. rqs_addJobsBatch jobs s = Inr (s\<lparr>oo_payload := rq_shard_of js'\<rparr>) \<and> fseq_sorted js'
    \<and> mset js' = mset js + mset (map rqs_job_pointer jobs)"
proof -
  have "fseq_sorted (rqs_retrievejobs (oo_payload s))" using assms by (simp add: rq_shard_of_def)
  from rqs_addJobsBatch_added [OF usable_checks(1) [OF assms(1)] this] obtain p' where
    "rqs_addJobsBatch jobs s = Inr (s\<lparr>oo_payload := p'\<rparr>)" "rqs_added (rq_shard_of js) jobs p'" using assms(2) by metis
  with rqs_added_shard [OF this(2)] show ?thesis by metis
qed

lemma rqs_summary_shard:
  assumes "usable s a ex" and "fseq_sorted js" and "js \<noteq> []"
  shows "rqs_getJobsSummary (s\<lparr>oo_payload := rq_shard_of js\<rparr>) = Inr \<lparr>rqss_jobs = of_nat (length js),
    rqss_bytes = (\<Sum>j\<leftarrow>js. rjp_size j), rqss_minFseq = rjp_fseq (hd js), rqss_maxFseq = rjp_fseq (last js)\<rparr>"
proof -
  have "usable (s\<lparr>oo_payload := rq_shard_of js\<rparr>) a ex" using assms(1) by simp
  moreover have "rjp_fseq (hd js) \<le> rjp_fseq (last js)" using assms(2,3) by (cases js) auto
  ultimately show ?thesis
    using assms(3) by (simp add: rqs_getJobsSummary_def Let_def rq_shard_of_def hd_conv_nth last_conv_nth not_less [symmetric])
qed

lemma mset_jobs_set: "mset (fold (multiset_insert key) xs s) = mset s + mset xs"
  by (induction xs arbitrary: s) simp_all

lemma rq_sums_add:
  assumes "rq_maps p' (M + mset (map rqs_job_pointer jobs))" and "rq_sums p M"
    and "rq_retrievejobscount p' = rq_retrievejobscount p + (c + of_nat (length jobs)) - c"
    and "rq_retrievejobstotalsize p' = rq_retrievejobstotalsize p + (b + (\<Sum>j\<leftarrow>jobs. rja_fileSize j)) - b"
  shows "rq_sums p' (M + mset (map rqs_job_pointer jobs))"
proof -
  have "(\<Sum>j \<in># mset (map rqs_job_pointer jobs). rjp_size j) = (\<Sum>j\<leftarrow>jobs. rja_fileSize j)"
    by (simp add: rqs_job_pointer_def comp_def flip: sum_mset_sum_list mset_map)
  with assms show ?thesis by (simp add: rq_sums_def)
qed

lemma fold_add_fileSize: "fold (\<lambda>j acc. acc + rja_fileSize j) jobs b = b + (\<Sum>j\<leftarrow>jobs. rja_fileSize j)"
  by (induction jobs arbitrary: b) (simp_all add: ac_simps)

text \<open>The writes at the end of an iteration: the queue \<open>ob1\<close>, the shard \<open>rqs1\<close> and the source of a split.\<close>

definition rq_write :: "shard_for_addition \<Rightarrow> retrieve_queue oo \<Rightarrow> retrieve_queue_shard oo \<Rightarrow> retrieve_queue_shard oo option
    \<Rightarrow> (world, retrieve_queue oo) prog" where
  "rq_write shard ob1 rqs1 splitFrom =
     bnd (if sfa_fromSplit shard then bnd (oo_commit rq_c ob1) (\<lambda>_. ret ob1) else rq_commit ob1) (\<lambda>ob2.
     bnd (if sfa_newShard shard
          then bnd (oo_insert rqs_c rqs1) (\<lambda>_. case splitFrom of None \<Rightarrow> ret () | Some s \<Rightarrow> oo_commit rqs_c s)
          else oo_commit rqs_c rqs1) (\<lambda>_. ret ob2))"

lemma rq_finish_prepare:
  assumes s: "usable s a ex" "oo_payload s = rq_shard_of js" "fseq_sorted js" and jobs: "js \<noteq> [] \<or> sfa_jobsToAdd shard \<noteq> []"
    and ptrs: "rq_retrievequeueshards (oo_payload ob) = P1 @ sp # P2" "rqsp_address sp = a" "unat (sfa_shardIndex shard) = length P1"
    and sums: "rq_sums (oo_payload ob) M" "size M + length (sfa_jobsToAdd shard) < 2 ^ 64"
  shows "\<exists>p' js'. fseq_sorted js' \<and> mset js' = mset js + mset (map rqs_job_pointer (sfa_jobsToAdd shard))
    \<and> rq_retrievequeueshards p' = P1 @ rq_pointer_of (a, js') # P2 \<and> rq_vid p' = rq_vid (oo_payload ob)
    \<and> rq_sums p' (M + mset (map rqs_job_pointer (sfa_jobsToAdd shard)))
    \<and> rq_finish_shard shard ob s splitFrom (c, b, c, b)
        = rq_write shard (ob\<lparr>oo_payload := p'\<rparr>) (s\<lparr>oo_payload := rq_shard_of js'\<rparr>) splitFrom"
proof -
  let ?jobs = "sfa_jobsToAdd shard" and ?p = "oo_payload ob"
  let ?jtas = "fold (multiset_insert rja_fSeq) ?jobs []"
  obtain p1 where p1: "foldR rq_count_job ?p ?jobs = Inr p1" "rq_maps p1 (M + mset (map rqs_job_pointer ?jobs))"
    "rq_retrievequeueshards p1 = P1 @ sp # P2" "rq_vid p1 = rq_vid ?p"
    "rq_retrievejobscount p1 = rq_retrievejobscount ?p" "rq_retrievejobstotalsize p1 = rq_retrievejobstotalsize ?p"
    using rq_count_jobs_maps [of ?p M ?jobs] sums ptrs(1) by (auto simp: rq_sums_def)
  obtain js' where js': "rqs_addJobsBatch ?jtas s = Inr (s\<lparr>oo_payload := rq_shard_of js'\<rparr>)" "fseq_sorted js'"
    "mset js' = mset js + mset (map rqs_job_pointer ?jobs)"
    using rqs_addJobsBatch_shard [OF s, of ?jtas] by (auto simp: mset_jobs_set)
  then have "js' \<noteq> []" using jobs by auto
  note sm = rqs_summary_shard [OF s(1) js'(2) this]
  define p2 where "p2 = p1\<lparr>rq_retrievequeueshards := P1 @ rq_pointer_of (a, js') # P2\<rparr>"
  define p' where "p' = p2\<lparr>rq_retrievejobscount := rq_retrievejobscount p2 + (c + of_nat (length ?jobs)) - c,
    rq_retrievejobstotalsize := rq_retrievejobstotalsize p2 + (b + (\<Sum>j\<leftarrow>?jobs. rja_fileSize j)) - b\<rparr>"
  have "rq_sums p' (M + mset (map rqs_job_pointer ?jobs))"
    by (rule rq_sums_add [OF _ sums(1), where b = b and c = c])
      (use p1 in \<open>simp_all add: p'_def p2_def rq_maps_def\<close>)
  moreover have "set_pointer (length P1) (\<lambda>sp. sp\<lparr>rqsp_maxfseq := rjp_fseq (last js'), rqsp_minfseq := rjp_fseq (hd js'),
      rqsp_shardbytescount := (\<Sum>j\<leftarrow>js'. rjp_size j), rqsp_shardjobscount := of_nat (length js')\<rparr>) p1 = Inr p2"
    using p1(3) ptrs(2) by (simp add: set_pointer_def p2_def rq_pointer_of_def)
  ultimately show ?thesis
    using p1 js' sm ptrs(3)
    by (intro exI [of _ p'] exI [of _ js'])
      (simp add: rq_finish_shard_def rq_write_def Let_def p'_def p2_def fold_add_fileSize add_diff_eq)
qed

section \<open>A new shard\<close>

lemma rq_move_pointer_to:
  "rq_move_pointer (length (xs @ ys)) (length xs) (xs @ ys @ x # zs) = Inr (xs @ x # ys @ zs)"
proof (induction ys arbitrary: zs rule: rev_induct)
  case Nil
  show ?case by (cases "length xs") simp_all
next
  case (snoc y ys)
  have "swap_elements (length xs + length ys) (Suc (length xs + length ys)) (xs @ ys @ y # x # zs) = xs @ ys @ x # y # zs"
    using swap_elements_adjacent [of "xs @ ys" y x zs] by simp
  with snoc.IH [of "y # zs"] show ?case by simp
qed

lemma rqs_initialize_new:
  assumes "a \<noteq> ''''"
  shows "\<exists>s. rqs_initialize owner (rqs_new\<lparr>oo_name := a, oo_nameSet := True\<rparr>) = Inr s
    \<and> usable s a False \<and> oo_payload s = rq_shard_of []"
  using assms
  by (simp add: rqs_initialize_def rqs_new_def oo_defs checkHeaderWritable_def checkWritable_def usable_def
      rq_shard_of_def rqs_empty_def)

abbreviation "rq_next_name ob w \<equiv> childId (''RetrieveQueueShard-'' @ rq_vid (oo_payload ob)) (agentAddress w) (nextIdCounter w)"

lemma rq_create_shard_rep:
  assumes "held ob" and "rq_retrievequeueshards (oo_payload ob) = P1 @ P2" and "unat (sfa_shardIndex shard) = length P1"
    and a: "a = rq_next_name ob w"
  shows "\<exists>s. rq_create_shard shard ob w = (Inr (ob\<lparr>oo_payload := (oo_payload ob)
        \<lparr>rq_retrievequeueshards := P1 @ rq_new_pointer a # P2\<rparr>\<rparr>, s), w\<lparr>nextIdCounter := nextIdCounter w + 1\<rparr>)
    \<and> usable s a False \<and> oo_payload s = rq_shard_of []"
proof -
  have "a \<noteq> ''''" using a by simp
  from rqs_initialize_new [OF this] obtain s where s:
    "rqs_initialize (oo_name ob) (rqs_new\<lparr>oo_name := a, oo_nameSet := True\<rparr>) = Inr s"
    "usable s a False" "oo_payload s = rq_shard_of []" by blast
  have "setAddress a rqs_new = Inr (rqs_new\<lparr>oo_name := a, oo_nameSet := True\<rparr>)"
    using setAddress_new [OF \<open>a \<noteq> ''''\<close>] by (simp add: rqs_new_def)
  with s assms rq_move_pointer_to [of P1 P2 "rq_new_pointer a" "[]"] show ?thesis
    by (simp add: rq_create_shard_def nextId_def Let_def)
qed

section \<open>Writing\<close>

lemma rq_store_Cons: "rq_store w (x # v) \<longleftrightarrow> rq_store w v \<and> fst x \<notin> fst ` set v \<and> stored rqs_c w (fst x) (rq_shard_of (snd x))"
  by (auto simp: rq_store_def split: prod.splits)

lemma rq_store_append: "rq_store w (u @ v) \<longleftrightarrow> rq_store w u \<and> rq_store w v \<and> fst ` set u \<inter> fst ` set v = {}"
  by (auto simp: rq_store_def)

lemma rq_store_same:
  assumes "rq_store w v" and "same_except S w w'" and "fst ` set v \<inter> S = {}"
  shows "rq_store w' v"
proof -
  have "stored rqs_c w' a (rq_shard_of js)" if "(a, js) \<in> set v" for a js
  proof -
    have "a \<notin> S" using that assms(3) by force
    then show ?thesis
      using assms(1) that stored_other [of rqs_c w a "rq_shard_of js" w'] same_exceptD [OF assms(2)]
      by (auto simp: rq_store_def)
  qed
  then show ?thesis using assms(1) by (auto simp: rq_store_def)
qed

lemma rq_store_present:
  assumes "rq_store w v" and "a \<in> fst ` set v"
  shows "objects w a \<noteq> None \<and> lockFiles w a"
proof -
  from assms(2) obtain js where "(a, js) \<in> set v" by force
  with assms(1) have "stored rqs_c w a (rq_shard_of js)" by (auto simp: rq_store_def)
  from storedD [OF this] show ?thesis by simp
qed

lemma commit_stored:
  assumes "usable s a True" and "lockFiles w a" and "objects w a \<noteq> None"
  shows "\<exists>w'. oo_commit c s w = (Inr (), w') \<and> stored c w' a (oo_payload s) \<and> same_except {a} w w' \<and> nextIdCounter w' = nextIdCounter w"
  using assms usable_commit [OF assms] by (auto simp: same_except_def stored_def oo_header_def usable_def)

lemma insert_stored:
  assumes "usable s a False" and "\<not> lockFiles w a" and "objects w a = None"
  shows "\<exists>s' w'. oo_insert c s w = (Inr s', w') \<and> stored c w' a (oo_payload s) \<and> same_except {a} w w' \<and> nextIdCounter w' = nextIdCounter w"
  using assms usable_insert [OF assms, of c] by (auto simp: same_except_def stored_def oo_header_def usable_def)

lemma queue_commit:
  assumes "held ob" and "vfs_exists (oo_name ob) w" and "sfa_fromSplit shard \<or> rq_rep (oo_payload ob) v"
  shows "\<exists>w'. (if sfa_fromSplit shard then bnd (oo_commit rq_c ob) (\<lambda>_. ret ob) else rq_commit ob) w = (Inr ob, w')
    \<and> objects w' (oo_name ob) = Some (oo_header rq_c ob) \<and> lockFiles w' = lockFiles w \<and> same_except {oo_name ob} w w'
    \<and> nextIdCounter w' = nextIdCounter w"
  using assms by (auto simp: oo_commit_held rq_commit_rep [of ob w v] same_except_def)

lemma rq_write_existing:
  assumes "held ob" and "vfs_exists (oo_name ob) w" and "rq_rep (oo_payload ob) v" and "\<not> sfa_fromSplit shard" and "\<not> sfa_newShard shard"
    and s: "usable s a True" "lockFiles w a" "objects w a \<noteq> None" "a \<noteq> oo_name ob"
  shows "\<exists>w'. rq_write shard ob s x w = (Inr ob, w') \<and> objects w' (oo_name ob) = Some (oo_header rq_c ob) \<and> lockFiles w' (oo_name ob)
    \<and> stored rqs_c w' a (oo_payload s) \<and> same_except {oo_name ob, a} w w' \<and> nextIdCounter w' = nextIdCounter w"
proof -
  from queue_commit [of ob w shard v] assms(1-3) obtain w1 where w1:
    "(if sfa_fromSplit shard then bnd (oo_commit rq_c ob) (\<lambda>_. ret ob) else rq_commit ob) w = (Inr ob, w1)"
    "objects w1 (oo_name ob) = Some (oo_header rq_c ob)" "lockFiles w1 = lockFiles w" "same_except {oo_name ob} w w1"
    "nextIdCounter w1 = nextIdCounter w" by blast
  have "objects w1 a \<noteq> None" using same_exceptD(1) [OF w1(4), of a] s(3,4) by simp
  from commit_stored [OF s(1) _ this, of rqs_c] w1(3) s(2) obtain w2 where w2:
    "oo_commit rqs_c s w1 = (Inr (), w2)" "stored rqs_c w2 a (oo_payload s)" "same_except {a} w1 w2" "nextIdCounter w2 = nextIdCounter w1" by auto
  have "same_except {oo_name ob, a} w w2" using same_except_trans [OF w1(4) w2(3)] by simp
  moreover have "objects w2 (oo_name ob) = Some (oo_header rq_c ob)" "lockFiles w2 (oo_name ob)"
    using same_exceptD [OF w2(3), of "oo_name ob"] w1(2,3) s(4) assms(2) by (simp_all add: vfs_exists_def)
  ultimately show ?thesis using w1 w2 assms(4,5) by (simp add: rq_write_def)
qed

lemma rq_write_new:
  assumes "held ob" and "vfs_exists (oo_name ob) w" and "sfa_fromSplit shard \<or> rq_rep (oo_payload ob) v" and "sfa_newShard shard"
    and s: "usable s b False" "\<not> lockFiles w b" "objects w b = None" "b \<noteq> oo_name ob"
    and src: "x = None \<or> (\<exists>t. x = Some t \<and> usable t a True \<and> lockFiles w a \<and> objects w a \<noteq> None \<and> a \<noteq> oo_name ob \<and> a \<noteq> b)"
  shows "\<exists>w'. rq_write shard ob s x w = (Inr ob, w') \<and> objects w' (oo_name ob) = Some (oo_header rq_c ob) \<and> lockFiles w' (oo_name ob)
    \<and> stored rqs_c w' b (oo_payload s) \<and> (\<forall>t. x = Some t \<longrightarrow> stored rqs_c w' a (oo_payload t))
    \<and> same_except ({oo_name ob, b} \<union> (if x = None then {} else {a})) w w' \<and> nextIdCounter w' = nextIdCounter w"
proof -
  from queue_commit [OF assms(1-3)] obtain w1 where w1:
    "(if sfa_fromSplit shard then bnd (oo_commit rq_c ob) (\<lambda>_. ret ob) else rq_commit ob) w = (Inr ob, w1)"
    "objects w1 (oo_name ob) = Some (oo_header rq_c ob)" "lockFiles w1 = lockFiles w" "same_except {oo_name ob} w w1"
    "nextIdCounter w1 = nextIdCounter w" by blast
  have "objects w1 b = None" using same_exceptD(1) [OF w1(4), of b] s(3,4) by simp
  from insert_stored [OF s(1) _ this, of rqs_c] w1(3) s(2) obtain s' w2 where w2:
    "oo_insert rqs_c s w1 = (Inr s', w2)" "stored rqs_c w2 b (oo_payload s)" "same_except {b} w1 w2" "nextIdCounter w2 = nextIdCounter w1" by auto
  have q2: "objects w2 (oo_name ob) = Some (oo_header rq_c ob)" "lockFiles w2 (oo_name ob)"
    using same_exceptD [OF w2(3), of "oo_name ob"] w1(2,3) s(4) assms(2) by (simp_all add: vfs_exists_def)
  have same2: "same_except {oo_name ob, b} w w2" using same_except_trans [OF w1(4) w2(3)] by simp
  show ?thesis
  proof (cases x)
    case None
    with w1 w2 q2 same2 assms(4) show ?thesis by (simp add: rq_write_def)
  next
    case (Some t)
    with src have t: "usable t a True" "lockFiles w a" "objects w a \<noteq> None" "a \<noteq> oo_name ob" "a \<noteq> b" by auto
    have "lockFiles w2 a" "objects w2 a \<noteq> None" using same_exceptD [OF same2, of a] t by simp_all
    from commit_stored [OF t(1) this, of rqs_c] obtain w3 where w3:
      "oo_commit rqs_c t w2 = (Inr (), w3)" "stored rqs_c w3 a (oo_payload t)" "same_except {a} w2 w3" "nextIdCounter w3 = nextIdCounter w2" by auto
    have "stored rqs_c w3 b (oo_payload s)" using stored_other [OF w2(2)] same_exceptD [OF w3(3), of b] t(5) by simp
    moreover have "objects w3 (oo_name ob) = Some (oo_header rq_c ob)" "lockFiles w3 (oo_name ob)"
      using same_exceptD [OF w3(3), of "oo_name ob"] q2 t(4) by simp_all
    moreover have "same_except {oo_name ob, b, a} w w3" using same_except_trans [OF same2 w3(3)] by auto
    ultimately show ?thesis using w1 w2 w3 Some assms(4) by (simp add: rq_write_def insert_commute)
  qed
qed

section \<open>Executing the plan\<close>

text \<open>
  What an iteration leaves: the queue in agreement with \<open>v'\<close>, in the store, which changed at most at the
  addresses of \<open>S\<close>; \<open>k\<close> names were taken.
\<close>

definition rq_done :: "world \<Rightarrow> retrieve_queue oo \<Rightarrow> string set \<Rightarrow> nat \<Rightarrow> world \<Rightarrow> retrieve_queue oo \<Rightarrow> rq_view \<Rightarrow> bool" where
  "rq_done w ob S k w' ob' v' \<longleftrightarrow> rq_inv w' ob' v' \<and> oo_name ob' = oo_name ob \<and> rq_vid (oo_payload ob') = rq_vid (oo_payload ob)
     \<and> objects w' (oo_name ob) = Some (oo_header rq_c ob') \<and> same_except (insert (oo_name ob) S) w w'
     \<and> nextIdCounter w' = nextIdCounter w + of_nat k"

abbreviation planned :: "shard_for_addition \<Rightarrow> retrieve_job_pointer multiset" where
  "planned s \<equiv> mset (map rqs_job_pointer (sfa_jobsToAdd s))"

lemma rq_inv_parts:
  assumes "held ob" and "objects w' (oo_name ob) = Some h" and "lockFiles w' (oo_name ob)" and "oo_name ob \<notin> fst ` set (vd @ (a, js) # vr)"
    and "rq_rep (oo_payload ob) (vd @ (a, js) # vr)" and "rq_store w' (vd @ vr)" and "a \<notin> fst ` set (vd @ vr)"
    and "stored rqs_c w' a (rq_shard_of js)"
  shows "rq_inv w' ob (vd @ (a, js) # vr)"
  using assms by (auto simp: rq_inv_def queue_ready_def vfs_exists_def rq_store_append rq_store_Cons)

text \<open>A shard without jobs to which none is added: the summary reads its first job.\<close>

lemma rq_execute_empty:
  assumes q: "held ob" and shard: "\<not> sfa_newShard shard" "sfa_address shard = a" "sfa_jobsToAdd shard = []"
    and idx: "unat (sfa_shardIndex shard) < length (rq_retrievequeueshards (oo_payload ob))" and st: "stored rqs_c w a (rq_shard_of [])"
  shows "rq_execute_shard sfas ob shard w = (Inl Segfault, w)"
proof -
  have a: "a \<noteq> []" using storedD [OF st] by simp
  from locked_fetch_stored [OF q codecs_ok(4) st, of rqs_empty] obtain s1 s where s:
    "include_in_exclusive_lock ob (rqs_new\<lparr>oo_name := a, oo_nameSet := True\<rparr>) = Inr s1"
    "oo_fetch rqs_c s1 w = (Inr s, w)" "usable s a True" "oo_payload s = rq_shard_of []"
    by (auto simp: rqs_new_def)
  have "setAddress a rqs_new = Inr (rqs_new\<lparr>oo_name := a, oo_nameSet := True\<rparr>)"
    using setAddress_new [OF a] by (simp add: rqs_new_def)
  then have exec: "rq_execute_shard sfas ob shard w = rq_finish_shard shard ob s None (0, 0, 0, 0) w"
    using s shard idx by (simp add: rq_execute_shard_def)
  have "rqs_addJobsBatch [] s = Inr s" "rqs_getJobsSummary s = Inl Segfault"
    using s(3,4) by (simp_all add: rqs_addJobsBatch_def rqs_getJobsSummary_def rq_shard_of_def Let_def)
  then show ?thesis unfolding exec by (simp add: rq_finish_shard_def shard(3))
qed

lemma rq_execute_existing:
  assumes q: "held ob" "vfs_exists (oo_name ob) w" "oo_name ob \<notin> fst ` set (vd @ (a, js) # vr)"
    and ptrs: "rq_retrievequeueshards (oo_payload ob) = map rq_pointer_of vd @ sp # map rq_pointer_of vr" "rqsp_address sp = a"
    and shard: "unat (sfa_shardIndex shard) = length vd" "\<not> sfa_newShard shard" "\<not> sfa_fromSplit shard" "sfa_address shard = a"
    and sums: "rq_sums (oo_payload ob) (mset (view_jobs vd @ js @ view_jobs vr))"
      "length (view_jobs vd @ js @ view_jobs vr) + length (sfa_jobsToAdd shard) < 2 ^ 64"
    and store: "rq_store w (vd @ vr)" "a \<notin> fst ` set (vd @ vr)" "stored rqs_c w a (rq_shard_of js)"
    and js: "fseq_sorted js" "js \<noteq> [] \<or> sfa_jobsToAdd shard \<noteq> []"
  shows "\<exists>w' ob' js'. rq_execute_shard sfas ob shard w = (Inr ob', w') \<and> fseq_sorted js' \<and> mset js' = mset js + planned shard
    \<and> rq_done w ob {a} 0 w' ob' (vd @ (a, js') # vr)"
proof -
  have a: "a \<noteq> ''''" "lockFiles w a" "objects w a \<noteq> None" using storedD [OF store(3)] by auto
  from locked_fetch_stored [OF q(1) codecs_ok(4) store(3), of rqs_empty] obtain s1 s where s:
    "include_in_exclusive_lock ob (rqs_new\<lparr>oo_name := a, oo_nameSet := True\<rparr>) = Inr s1"
    "oo_fetch rqs_c s1 w = (Inr s, w)" "usable s a True" "oo_payload s = rq_shard_of js"
    by (auto simp: rqs_new_def)
  have "setAddress a rqs_new = Inr (rqs_new\<lparr>oo_name := a, oo_nameSet := True\<rparr>)"
    using setAddress_new [OF a(1)] by (simp add: rqs_new_def)
  then have exec: "rq_execute_shard sfas ob shard w = rq_finish_shard shard ob s None (0, 0, 0, 0) w"
    using s shard ptrs(1) by (simp add: rq_execute_shard_def)
  have idx: "unat (sfa_shardIndex shard) = length (map rq_pointer_of vd)" using shard(1) by simp
  have bound: "size (mset (view_jobs vd @ js @ view_jobs vr)) + length (sfa_jobsToAdd shard) < 2 ^ 64" using sums(2) by simp
  obtain p' js' where p':
    "fseq_sorted js'" "mset js' = mset js + planned shard"
    "rq_retrievequeueshards p' = map rq_pointer_of vd @ rq_pointer_of (a, js') # map rq_pointer_of vr" "rq_vid p' = rq_vid (oo_payload ob)"
    "rq_sums p' (mset (view_jobs vd @ js @ view_jobs vr) + planned shard)"
    "rq_finish_shard shard ob s None (0, 0, 0, 0) = rq_write shard (ob\<lparr>oo_payload := p'\<rparr>) (s\<lparr>oo_payload := rq_shard_of js'\<rparr>) None"
    using rq_finish_prepare [OF s(3,4) js ptrs idx sums(1) bound, where splitFrom = None and c = 0 and b = 0] by (elim exE conjE)
  define ob1 and s2 where "ob1 = ob\<lparr>oo_payload := p'\<rparr>" and "s2 = s\<lparr>oo_payload := rq_shard_of js'\<rparr>"
  have ob1: "held ob1" "oo_name ob1 = oo_name ob" "oo_payload ob1 = p'" using q(1) by (simp_all add: ob1_def)
  have s2: "usable s2 a True" "oo_payload s2 = rq_shard_of js'" using s(3) by (simp_all add: s2_def)
  let ?v = "vd @ (a, js') # vr"
  have rep: "rq_rep (oo_payload ob1) ?v" using p'(2,3,5) by (simp add: rq_rep_def ob1(3) ac_simps)
  have aq: "a \<noteq> oo_name ob1" using q(3) ob1(2) by auto
  have ex: "vfs_exists (oo_name ob1) w" using q(2) ob1(2) by simp
  obtain w' where w': "rq_write shard ob1 s2 None w = (Inr ob1, w')"
    "objects w' (oo_name ob1) = Some (oo_header rq_c ob1)" "lockFiles w' (oo_name ob1)"
    "stored rqs_c w' a (oo_payload s2)" "same_except {oo_name ob1, a} w w'" "nextIdCounter w' = nextIdCounter w"
    using rq_write_existing [OF ob1(1) ex rep shard(3,2) s2(1) a(2,3) aq, of None] by (elim exE conjE)
  have "rq_store w' (vd @ vr)" by (rule rq_store_same [OF store(1) w'(5)]) (use q(3) store(2) ob1(2) in auto)
  then have "rq_inv w' ob1 ?v"
    using rq_inv_parts [OF ob1(1) w'(2,3) _ rep _ store(2)] q(3) w'(4) by (simp add: ob1(2) s2(2))
  then have "rq_done w ob {a} 0 w' ob1 ?v" using w' p'(4) by (simp add: rq_done_def ob1(2,3))
  moreover have "rq_execute_shard sfas ob shard w = (Inr ob1, w')" using exec p'(6) w'(1) by (simp add: ob1_def s2_def)
  ultimately show ?thesis using p'(1,2) by (intro exI [of _ w'] exI [of _ ob1] exI [of _ js']) simp
qed

lemma rq_execute_new:
  assumes q: "rq_inv w ob (vd @ vr)" and b: "b = rq_next_name ob w" "\<not> lockFiles w b" "objects w b = None"
    and shard: "unat (sfa_shardIndex shard) = length vd" "sfa_newShard shard" "\<not> sfa_fromSplit shard"
    and sums: "length (view_jobs (vd @ vr)) + length (sfa_jobsToAdd shard) < 2 ^ 64" and jobs: "sfa_jobsToAdd shard \<noteq> []"
  shows "\<exists>w' ob' js'. rq_execute_shard sfas ob shard w = (Inr ob', w') \<and> fseq_sorted js' \<and> mset js' = planned shard
    \<and> rq_done w ob {b} 1 w' ob' (vd @ (b, js') # vr)"
proof -
  have h: "held ob" "vfs_exists (oo_name ob) w" "oo_name ob \<notin> fst ` set (vd @ vr)" and store: "rq_store w (vd @ vr)"
    and rep: "rq_retrievequeueshards (oo_payload ob) = map rq_pointer_of vd @ map rq_pointer_of vr" "rq_sums (oo_payload ob) (mset (view_jobs (vd @ vr)))"
    using q by (simp_all add: rq_inv_def queue_ready_def rq_rep_def)
  have bq: "b \<noteq> oo_name ob" using h(2) b(3) by (auto simp: vfs_exists_def)
  have fresh: "b \<notin> fst ` set (vd @ vr)" using rq_store_present [OF store] b(3) by blast
  let ?p0 = "(oo_payload ob)\<lparr>rq_retrievequeueshards := map rq_pointer_of vd @ rq_new_pointer b # map rq_pointer_of vr\<rparr>"
  let ?ob0 = "ob\<lparr>oo_payload := ?p0\<rparr>" and ?w0 = "w\<lparr>nextIdCounter := nextIdCounter w + 1\<rparr>"
  from rq_create_shard_rep [OF h(1) rep(1) _ b(1)] shard(1) obtain s where s: "rq_create_shard shard ob w = (Inr (?ob0, s), ?w0)"
    "usable s b False" "oo_payload s = rq_shard_of []" by auto
  have exec: "rq_execute_shard sfas ob shard w = rq_finish_shard shard ?ob0 s None (0, 0, 0, 0) ?w0"
    using s(1) shard by (simp add: rq_execute_shard_def)
  have prem: "fseq_sorted []" "([] :: retrieve_job_pointer list) \<noteq> [] \<or> sfa_jobsToAdd shard \<noteq> []" "rqsp_address (rq_new_pointer b) = b"
    "unat (sfa_shardIndex shard) = length (map rq_pointer_of vd)" "rq_sums (oo_payload ?ob0) (mset (view_jobs (vd @ vr)))"
    "size (mset (view_jobs (vd @ vr))) + length (sfa_jobsToAdd shard) < 2 ^ 64"
    "rq_retrievequeueshards (oo_payload ?ob0) = map rq_pointer_of vd @ rq_new_pointer b # map rq_pointer_of vr"
    using rep(2) jobs shard(1) sums by (simp_all add: rq_sums_def rq_maps_def rq_new_pointer_def)
  obtain p' js' where p': "fseq_sorted js'" "mset js' = mset [] + planned shard"
    "rq_retrievequeueshards p' = map rq_pointer_of vd @ rq_pointer_of (b, js') # map rq_pointer_of vr" "rq_vid p' = rq_vid (oo_payload ?ob0)"
    "rq_sums p' (mset (view_jobs (vd @ vr)) + planned shard)"
    "rq_finish_shard shard ?ob0 s None (0, 0, 0, 0) = rq_write shard (?ob0\<lparr>oo_payload := p'\<rparr>) (s\<lparr>oo_payload := rq_shard_of js'\<rparr>) None"
    using rq_finish_prepare [OF s(2,3) prem(1,2,7,3,4,5,6), where splitFrom = None and c = 0 and b = 0] by (elim exE conjE)
  define ob1 and s2 where "ob1 = ob\<lparr>oo_payload := p'\<rparr>" and "s2 = s\<lparr>oo_payload := rq_shard_of js'\<rparr>"
  have ob1: "held ob1" "oo_name ob1 = oo_name ob" "oo_payload ob1 = p'" using h(1) by (simp_all add: ob1_def)
  have s2: "usable s2 b False" "oo_payload s2 = rq_shard_of js'" using s(2) by (simp_all add: s2_def)
  let ?v = "vd @ (b, js') # vr"
  have rep': "rq_rep (oo_payload ob1) ?v" using p'(2,3,5) by (simp add: rq_rep_def ob1(3) ac_simps)
  have prem2: "vfs_exists (oo_name ob1) ?w0" "sfa_fromSplit shard \<or> rq_rep (oo_payload ob1) ?v" "\<not> lockFiles ?w0 b" "objects ?w0 b = None" "b \<noteq> oo_name ob1"
    using h(2) rep' b(2,3) bq by (simp_all add: vfs_exists_def ob1(2))
  obtain w' where w': "rq_write shard ob1 s2 None ?w0 = (Inr ob1, w')" "objects w' (oo_name ob1) = Some (oo_header rq_c ob1)" "lockFiles w' (oo_name ob1)"
    "stored rqs_c w' b (oo_payload s2)" "same_except ({oo_name ob1, b} \<union> (if None = (None :: retrieve_queue_shard oo option) then {} else {b})) ?w0 w'" "nextIdCounter w' = nextIdCounter ?w0"
    using rq_write_new [OF ob1(1) prem2(1,2) shard(2) s2(1) prem2(3,4,5), where x = None and a = b] by auto
  have same: "same_except {oo_name ob, b} w w'" using w'(5) by (simp add: same_except_def ob1(2))
  have "rq_store w' (vd @ vr)" by (rule rq_store_same [OF store same]) (use h(3) fresh in auto)
  then have "rq_inv w' ob1 ?v"
    using rq_inv_parts [OF ob1(1) w'(2,3) _ rep' _ fresh] h(3) bq w'(4) by (simp add: ob1(2) s2(2))
  then have "rq_done w ob {b} 1 w' ob1 ?v" using w' same p'(4) by (simp add: rq_done_def ob1(2,3))
  moreover have "rq_execute_shard sfas ob shard w = (Inr ob1, w')" using exec p'(6) w'(1) by (simp add: ob1_def s2_def)
  ultimately show ?thesis using p'(1,2) by (intro exI [of _ w'] exI [of _ ob1] exI [of _ js']) simp
qed

section \<open>Splitting a shard\<close>

lemma rqs_job_round_trip [simp]: "rqs_job_pointer (rqs_job_to_add_of j) = j"
  by (simp add: rqs_job_pointer_def rqs_job_to_add_of_def)

abbreviation "in_range shard \<equiv> (\<lambda>j. sfa_minFseq shard \<le> rjp_fseq j \<and> rjp_fseq j \<le> sfa_maxFseq shard)"

lemma rq_transfer_rep:
  assumes "usable s a ex" and "oo_payload s = rq_shard_of ks" and "fseq_sorted ks"
  shows "\<exists>ks'. rq_transfer shard (map rqs_job_to_add_of js) (s, n, b, as) = Inr (s\<lparr>oo_payload := rq_shard_of ks'\<rparr>,
      n + of_nat (length (filter (in_range shard) js)), b + (\<Sum>j\<leftarrow>filter (in_range shard) js. rjp_size j),
      as @ map rjp_address (filter (in_range shard) js))
    \<and> fseq_sorted ks' \<and> mset ks' = mset ks + mset (filter (in_range shard) js)"
  using assms
proof (induction js arbitrary: s n b as ks)
  case Nil
  then show ?case by (intro exI [of _ ks]) (simp flip: Nil.prems(2))
next
  case (Cons j js)
  let ?new = "if in_range shard j then [rqs_job_to_add_of j] else []"
  obtain ks1 where k: "rqs_addJobsBatch ?new s = Inr (s\<lparr>oo_payload := rq_shard_of ks1\<rparr>)" "fseq_sorted ks1"
    "mset ks1 = mset ks + mset (map rqs_job_pointer ?new)"
    using rqs_addJobsBatch_shard [OF Cons.prems, of ?new] by (elim exE conjE)
  let ?s = "s\<lparr>oo_payload := rq_shard_of ks1\<rparr>"
  have s: "usable ?s a ex" "oo_payload ?s = rq_shard_of ks1" using Cons.prems(1) by simp_all
  have f: "rja_fSeq (rqs_job_to_add_of j) = rjp_fseq j" "rja_fileSize (rqs_job_to_add_of j) = rjp_size j"
    "rja_retrieveRequestAddress (rqs_job_to_add_of j) = rjp_address j" by (simp_all add: rqs_job_to_add_of_def)
  show ?case
  proof (cases "in_range shard j")
    case True
    from Cons.IH [OF s k(2), of "n + 1" "b + rjp_size j" "as @ [rjp_address j]"] True k show ?thesis by (auto simp: f ac_simps)
  next
    case False
    from Cons.IH [OF s k(2), of n b as] False k show ?thesis by (auto simp: f)
  qed
qed

lemma filter_address_range:
  assumes "distinct (map rjp_address js)"
  shows "filter (\<lambda>j. rjp_address j \<notin> set (map rjp_address (filter P js))) js = filter (\<lambda>j. \<not> P j) js"
    and "filter (\<lambda>j. rjp_address j \<in> set (map rjp_address (filter P js))) js = filter P js"
  using assms by (auto intro!: filter_cong simp: distinct_map inj_on_def)

lemma rqs_removeJobs_range:
  assumes "usable s a ex" and "oo_payload s = rq_shard_of js" and "distinct (map rjp_address js)"
  shows "\<exists>r. rqs_removeJobs (map rjp_address (filter P js)) s = Inr (r, s\<lparr>oo_payload := rq_shard_of (filter (\<lambda>j. \<not> P j) js)\<rparr>)
    \<and> rmr_jobsRemoved r = of_nat (length (filter P js)) \<and> rmr_bytesRemoved r = (\<Sum>j\<leftarrow>filter P js. rjp_size j)"
proof -
  let ?as = "map rjp_address (filter P js)"
  have out: "mset (taken_out rjp_address ?as js) = mset (filter P js)"
    using filter_address_range(2) [OF assms(3), of P] by (simp add: mset_taken_out flip: mset_filter)
  then have len: "length (taken_out rjp_address ?as js) = length (filter P js)" by (rule mset_eq_length)
  have bytes: "(\<Sum>j\<leftarrow>taken_out rjp_address ?as js. rjp_size j) = (\<Sum>j\<leftarrow>filter P js. rjp_size j)"
    by (rule sum_list_sizes_mset [OF out])
  have "(\<Sum>j\<leftarrow>js. rjp_size j) = (\<Sum>j\<leftarrow>filter P js @ filter (\<lambda>j. \<not> P j) js. rjp_size j)"
    by (rule sum_list_sizes_mset) simp
  then have rest: "(\<Sum>j\<leftarrow>js. rjp_size j) - (\<Sum>j\<leftarrow>filter P js. rjp_size j) = (\<Sum>j\<leftarrow>filter (\<lambda>j. \<not> P j) js. rjp_size j)" by simp
  show ?thesis
    using assms(1,2) filter_address_range(1) [OF assms(3), of P]
    by (simp add: rqs_removeJobs_def rqs_remove_payload_eq rq_shard_of_def Let_def len bytes rest)
qed

lemma fseq_sorted_Nil: "fseq_sorted []"
  by simp

lemma set_pointer_at:
  "rq_retrievequeueshards p = P1 @ sp # P2 \<Longrightarrow> i = length P1 \<Longrightarrow> set_pointer i f p = Inr (p\<lparr>rq_retrievequeueshards := P1 @ f sp # P2\<rparr>)"
  by (simp add: set_pointer_def)

lemma rq_split_shard_rep:
  assumes ob: "held ob" "rq_retrievequeueshards (oo_payload ob) = P1 @ sp1 # sp2 # P2"
    and shard: "unat (sfa_shardIndex shard) = length P1" and source: "unat (sfa_shardIndex source) = Suc (length P1)" "sfa_address source = a"
    and js: "stored rqs_c w a (rq_shard_of js)" "distinct (map rjp_address js)"
    and s: "usable s b False" "oo_payload s = rq_shard_of []"
  shows "\<exists>p' ks t sp1' sp2' c n. rq_split_shard shard source ob s w = (Inr \<lparr>sr_queue = ob\<lparr>oo_payload := p'\<rparr>,
        sr_shard = s\<lparr>oo_payload := rq_shard_of ks\<rparr>, sr_source = t, sr_addedJobs = c, sr_addedBytes = n, sr_transferedJobs = c,
        sr_transferedBytes = n\<rparr>, w)
    \<and> p' = (oo_payload ob)\<lparr>rq_retrievequeueshards := P1 @ sp1' # sp2' # P2\<rparr>
    \<and> rqsp_address sp1' = rqsp_address sp1 \<and> rqsp_address sp2' = rqsp_address sp2
    \<and> fseq_sorted ks \<and> mset ks = mset (filter (in_range shard) js)
    \<and> usable t a True \<and> oo_payload t = rq_shard_of (filter (\<lambda>j. \<not> in_range shard j) js)"
proof -
  have a: "a \<noteq> ''''" using storedD [OF js(1)] by simp
  obtain s1 t where t: "include_in_exclusive_lock ob (rqs_new\<lparr>oo_name := a, oo_nameSet := True\<rparr>) = Inr s1"
    "oo_fetch rqs_c s1 w = (Inr t, w)" "usable t a True" "oo_payload t = rq_shard_of js"
    using locked_fetch_stored [OF ob(1) codecs_ok(4) js(1), of rqs_empty] unfolding rqs_new_def by (elim exE conjE)
  have addr: "setAddress a rqs_new = Inr (rqs_new\<lparr>oo_name := a, oo_nameSet := True\<rparr>)"
    using setAddress_new [OF a] by (simp add: rqs_new_def)
  have dump: "rqs_dumpJobsToAdd t = Inr (map rqs_job_to_add_of js)" using t(3,4) by (simp add: rqs_dumpJobsToAdd_def rq_shard_of_def)
  let ?sel = "filter (in_range shard) js"
  obtain ks where ks: "rq_transfer shard (map rqs_job_to_add_of js) (s, 0, 0, []) = Inr (s\<lparr>oo_payload := rq_shard_of ks\<rparr>,
      0 + of_nat (length ?sel), 0 + (\<Sum>j\<leftarrow>?sel. rjp_size j), [] @ map rjp_address ?sel)" "fseq_sorted ks" "mset ks = mset [] + mset ?sel"
    using rq_transfer_rep [OF s fseq_sorted_Nil, of shard js 0 0 "[]"] by (elim exE conjE)
  obtain r where r: "rqs_removeJobs (map rjp_address ?sel) t = Inr (r, t\<lparr>oo_payload := rq_shard_of (filter (\<lambda>j. \<not> in_range shard j) js)\<rparr>)"
    "rmr_jobsRemoved r = of_nat (length ?sel)" "rmr_bytesRemoved r = (\<Sum>j\<leftarrow>?sel. rjp_size j)"
    using rqs_removeJobs_range [OF t(3,4) js(2), of "in_range shard"] by (elim exE conjE)
  let ?f = "\<lambda>sp. sp\<lparr>rqsp_maxfseq := sfa_maxFseq shard, rqsp_minfseq := sfa_minFseq shard, rqsp_shardjobscount := sfa_jobsCount shard,
    rqsp_shardbytescount := 1\<rparr>"
  let ?g = "\<lambda>sp. sp\<lparr>rqsp_minfseq := sfa_minFseq source, rqsp_maxfseq := sfa_maxFseq source, rqsp_shardjobscount := sfa_jobsCount source\<rparr>"
  let ?p1 = "(oo_payload ob)\<lparr>rq_retrievequeueshards := P1 @ ?f sp1 # sp2 # P2\<rparr>"
  let ?p2 = "(oo_payload ob)\<lparr>rq_retrievequeueshards := P1 @ ?f sp1 # ?g sp2 # P2\<rparr>"
  have "set_pointer (unat (sfa_shardIndex shard)) ?f (oo_payload ob) = Inr ?p1" using set_pointer_at [OF ob(2) shard] by simp
  moreover have "set_pointer (unat (sfa_shardIndex source)) ?g ?p1 = Inr ?p2"
    using set_pointer_at [of ?p1 "P1 @ [?f sp1]" sp2 P2 "unat (sfa_shardIndex source)" ?g] source(1) by simp
  ultimately have run: "rq_split_shard shard source ob s w = (Inr \<lparr>sr_queue = ob\<lparr>oo_payload := ?p2\<rparr>,
      sr_shard = s\<lparr>oo_payload := rq_shard_of ks\<rparr>, sr_source = t\<lparr>oo_payload := rq_shard_of (filter (\<lambda>j. \<not> in_range shard j) js)\<rparr>,
      sr_addedJobs = of_nat (length ?sel), sr_addedBytes = (\<Sum>j\<leftarrow>?sel. rjp_size j), sr_transferedJobs = of_nat (length ?sel),
      sr_transferedBytes = (\<Sum>j\<leftarrow>?sel. rjp_size j)\<rparr>, w)"
    using addr t dump ks r source(2) by (simp add: rq_split_shard_def)
  show ?thesis
    by (rule exI [of _ ?p2], rule exI [of _ ks], rule exI [of _ "t\<lparr>oo_payload := rq_shard_of (filter (\<lambda>j. \<not> in_range shard j) js)\<rparr>"],
        rule exI [of _ "?f sp1"], rule exI [of _ "?g sp2"], rule exI [of _ "of_nat (length ?sel)"], rule exI [of _ "\<Sum>j\<leftarrow>?sel. rjp_size j"])
      (use run ks t(3) in simp)
qed

lemma rq_execute_split:
  assumes q: "rq_inv w ob (vd @ (a, js) # vr)" and b: "b = rq_next_name ob w" "\<not> lockFiles w b" "objects w b = None"
    and shard: "unat (sfa_shardIndex shard) = length vd" "sfa_newShard shard" "sfa_fromSplit shard"
    and source: "List.find (\<lambda>s. sfa_splitSource shard = Some (sfa_id s)) sfas = Some source" "sfa_address source = a"
      "unat (sfa_shardIndex source) = Suc (length vd)"
    and sums: "length (view_jobs (vd @ (a, js) # vr)) + length (sfa_jobsToAdd shard) < 2 ^ 64"
    and js: "distinct (map rjp_address js)" "filter (in_range shard) js \<noteq> [] \<or> sfa_jobsToAdd shard \<noteq> []"
  shows "\<exists>w' ob' js1 sp. rq_execute_shard sfas ob shard w = (Inr ob', w') \<and> fseq_sorted js1
    \<and> mset js1 = mset (filter (in_range shard) js) + planned shard
    \<and> held ob' \<and> oo_name ob' = oo_name ob \<and> vfs_exists (oo_name ob) w' \<and> rq_vid (oo_payload ob') = rq_vid (oo_payload ob)
    \<and> rq_retrievequeueshards (oo_payload ob') = map rq_pointer_of (vd @ [(b, js1)]) @ sp # map rq_pointer_of vr \<and> rqsp_address sp = a
    \<and> rq_sums (oo_payload ob') (mset (view_jobs (vd @ [(b, js1)]) @ filter (\<lambda>j. \<not> in_range shard j) js @ view_jobs vr))
    \<and> rq_store w' ((vd @ [(b, js1)]) @ vr) \<and> stored rqs_c w' a (rq_shard_of (filter (\<lambda>j. \<not> in_range shard j) js))
    \<and> same_except {oo_name ob, b, a} w w' \<and> nextIdCounter w' = nextIdCounter w + 1"
proof -
  let ?v = "vd @ (a, js) # vr" and ?rest = "filter (\<lambda>j. \<not> in_range shard j) js"
  have h: "held ob" "vfs_exists (oo_name ob) w" "oo_name ob \<notin> fst ` set ?v" and store: "rq_store w ?v"
    and rep: "rq_retrievequeueshards (oo_payload ob) = map rq_pointer_of vd @ rq_pointer_of (a, js) # map rq_pointer_of vr"
      "rq_sums (oo_payload ob) (mset (view_jobs ?v))"
    using q by (simp_all add: rq_inv_def queue_ready_def rq_rep_def)
  have a: "stored rqs_c w a (rq_shard_of js)" "a \<notin> fst ` set (vd @ vr)" using store by (auto simp: rq_store_append rq_store_Cons)
  have bq: "b \<noteq> oo_name ob" using h(2) b(3) by (auto simp: vfs_exists_def)
  have fresh: "b \<notin> fst ` set ?v" using rq_store_present [OF store] b(3) by blast
  let ?p0 = "(oo_payload ob)\<lparr>rq_retrievequeueshards := map rq_pointer_of vd @ rq_new_pointer b # rq_pointer_of (a, js) # map rq_pointer_of vr\<rparr>"
  let ?ob0 = "ob\<lparr>oo_payload := ?p0\<rparr>" and ?w0 = "w\<lparr>nextIdCounter := nextIdCounter w + 1\<rparr>"
  have idx: "unat (sfa_shardIndex shard) = length (map rq_pointer_of vd)" "unat (sfa_shardIndex source) = Suc (length (map rq_pointer_of vd))"
    using shard(1) source(3) by simp_all
  obtain s where s: "rq_create_shard shard ob w = (Inr (?ob0, s), ?w0)" "usable s b False" "oo_payload s = rq_shard_of []"
    using rq_create_shard_rep [OF h(1) rep(1) idx(1) b(1)] by (elim exE conjE)
  have pre: "held ?ob0" "rq_retrievequeueshards (oo_payload ?ob0) = map rq_pointer_of vd @ rq_new_pointer b # rq_pointer_of (a, js) # map rq_pointer_of vr"
    "stored rqs_c ?w0 a (rq_shard_of js)" using h(1) a(1) by (simp_all add: stored_def)
  obtain p1 ks t sp1 sp2 c n where sp: "rq_split_shard shard source ?ob0 s ?w0 = (Inr \<lparr>sr_queue = ?ob0\<lparr>oo_payload := p1\<rparr>,
        sr_shard = s\<lparr>oo_payload := rq_shard_of ks\<rparr>, sr_source = t, sr_addedJobs = c, sr_addedBytes = n, sr_transferedJobs = c,
        sr_transferedBytes = n\<rparr>, ?w0)"
    "p1 = (oo_payload ?ob0)\<lparr>rq_retrievequeueshards := map rq_pointer_of vd @ sp1 # sp2 # map rq_pointer_of vr\<rparr>"
    "rqsp_address sp1 = rqsp_address (rq_new_pointer b)" "rqsp_address sp2 = rqsp_address (rq_pointer_of (a, js))"
    "fseq_sorted ks" "mset ks = mset (filter (in_range shard) js)" "usable t a True" "oo_payload t = rq_shard_of ?rest"
    using rq_split_shard_rep [OF pre(1,2) idx source(2) pre(3) js(1) s(2,3)] by (elim exE conjE)
  define ob1 and s1 where "ob1 = ?ob0\<lparr>oo_payload := p1\<rparr>" and "s1 = s\<lparr>oo_payload := rq_shard_of ks\<rparr>"
  have exec: "rq_execute_shard sfas ob shard w = rq_finish_shard shard ob1 s1 (Some t) (c, n, c, n) ?w0"
    using s(1) sp(1) shard source(1) by (simp add: rq_execute_shard_def ob1_def s1_def)
  have ob1: "held ob1" "oo_name ob1 = oo_name ob" "oo_payload ob1 = p1" using h(1) by (simp_all add: ob1_def)
  have f1: "usable s1 b False" "oo_payload s1 = rq_shard_of ks" using s(2) by (simp_all add: s1_def)
  have f2: "ks \<noteq> [] \<or> sfa_jobsToAdd shard \<noteq> []" using js(2) sp(6) by auto
  have f3: "rq_retrievequeueshards (oo_payload ob1) = map rq_pointer_of vd @ sp1 # sp2 # map rq_pointer_of vr" "rqsp_address sp1 = b"
    using sp(2,3) by (simp_all add: ob1(3) rq_new_pointer_def)
  have f4: "rq_sums (oo_payload ob1) (mset (view_jobs ?v))" "size (mset (view_jobs ?v)) + length (sfa_jobsToAdd shard) < 2 ^ 64"
    using rep(2) sums by (simp_all add: ob1(3) sp(2) rq_sums_def rq_maps_def)
  obtain p' js1 where p': "fseq_sorted js1" "mset js1 = mset ks + planned shard"
    "rq_retrievequeueshards p' = map rq_pointer_of vd @ rq_pointer_of (b, js1) # sp2 # map rq_pointer_of vr" "rq_vid p' = rq_vid (oo_payload ob1)"
    "rq_sums p' (mset (view_jobs ?v) + planned shard)"
    "rq_finish_shard shard ob1 s1 (Some t) (c, n, c, n) = rq_write shard (ob1\<lparr>oo_payload := p'\<rparr>) (s1\<lparr>oo_payload := rq_shard_of js1\<rparr>) (Some t)"
    using rq_finish_prepare [OF f1 sp(5) f2 f3 idx(1) f4, where splitFrom = "Some t" and c = c and b = n] by (elim exE conjE)
  define ob2 and s2 where "ob2 = ob1\<lparr>oo_payload := p'\<rparr>" and "s2 = s1\<lparr>oo_payload := rq_shard_of js1\<rparr>"
  have ob2: "held ob2" "oo_name ob2 = oo_name ob" "oo_payload ob2 = p'" using ob1 by (simp_all add: ob2_def)
  have s2: "usable s2 b False" "oo_payload s2 = rq_shard_of js1" using f1 by (simp_all add: s2_def)
  have a2: "lockFiles w a" "objects w a \<noteq> None" "a \<noteq> oo_name ob" "a \<noteq> b" using storedD [OF a(1)] h(3) b(3) by auto
  have g: "vfs_exists (oo_name ob2) ?w0" "sfa_fromSplit shard \<or> rq_rep (oo_payload ob2) ?v" "\<not> lockFiles ?w0 b" "objects ?w0 b = None" "b \<noteq> oo_name ob2"
    "Some t = None \<or> (\<exists>t'. Some t = Some t' \<and> usable t' a True \<and> lockFiles ?w0 a \<and> objects ?w0 a \<noteq> None \<and> a \<noteq> oo_name ob2 \<and> a \<noteq> b)"
    using h(2) shard(3) b(2,3) bq a2 sp(7) by (simp_all add: vfs_exists_def ob2(2))
  obtain w' where w': "rq_write shard ob2 s2 (Some t) ?w0 = (Inr ob2, w')" "objects w' (oo_name ob2) = Some (oo_header rq_c ob2)" "lockFiles w' (oo_name ob2)"
    "stored rqs_c w' b (oo_payload s2)" "\<forall>t'. Some t = Some t' \<longrightarrow> stored rqs_c w' a (oo_payload t')"
    "same_except ({oo_name ob2, b} \<union> (if Some t = None then {} else {a})) ?w0 w'" "nextIdCounter w' = nextIdCounter ?w0"
    using rq_write_new [OF ob2(1) g(1,2) shard(2) s2(1) g(3,4,5,6)] by (elim exE conjE)
  have same: "same_except {oo_name ob, b, a} w w'" using w'(6) by (simp add: same_except_def ob2(2))
  have "rq_store w (vd @ vr)" using store by (auto simp: rq_store_append rq_store_Cons)
  then have "rq_store w' (vd @ vr)" by (rule rq_store_same [OF _ same]) (use h(3) fresh a(2) in auto)
  then have st: "rq_store w' ((vd @ [(b, js1)]) @ vr)"
    using w'(4) fresh by (auto simp: s2(2) rq_store_append rq_store_Cons)
  have "mset js1 + mset ?rest = filter_mset (in_range shard) (mset js) + filter_mset (\<lambda>j. \<not> in_range shard j) (mset js) + planned shard"
    by (simp add: p'(2) sp(6))
  also have "\<dots> = mset js + planned shard" by (simp only: multiset_partition [symmetric])
  finally have tot: "mset js1 + mset ?rest = mset js + planned shard" .
  have "mset (view_jobs (vd @ [(b, js1)]) @ ?rest @ view_jobs vr) = mset (view_jobs vd) + mset (view_jobs vr) + (mset js1 + mset ?rest)"
    by (simp only: view_jobs_simps mset_append append.simps snd_conv append_assoc append_Nil2 ac_simps)
  also have "\<dots> = mset (view_jobs ?v) + planned shard"
    by (simp only: tot view_jobs_simps mset_append snd_conv ac_simps)
  finally have jobs': "mset (view_jobs (vd @ [(b, js1)]) @ ?rest @ view_jobs vr) = mset (view_jobs ?v) + planned shard" .
  have sums': "rq_sums (oo_payload ob2) (mset (view_jobs (vd @ [(b, js1)]) @ ?rest @ view_jobs vr))"
    unfolding jobs' ob2(3) by (rule p'(5))
  have "rq_execute_shard sfas ob shard w = (Inr ob2, w')" using exec p'(6) w'(1) by (simp add: ob2_def s2_def)
  moreover have "rq_vid (oo_payload ob2) = rq_vid (oo_payload ob)" using p'(4) by (simp add: ob2(3) ob1(3) sp(2))
  moreover have "rq_retrievequeueshards (oo_payload ob2) = map rq_pointer_of (vd @ [(b, js1)]) @ sp2 # map rq_pointer_of vr"
    using p'(3) by (simp add: ob2(3))
  moreover have "vfs_exists (oo_name ob) w'" using w'(2,3) by (simp add: vfs_exists_def ob2(2))
  moreover have "stored rqs_c w' a (rq_shard_of ?rest)" using w'(5) by (simp add: sp(8))
  moreover have "nextIdCounter w' = nextIdCounter w + 1" "rqsp_address sp2 = a" using w'(7) sp(4) by simp_all
  moreover have "mset js1 = mset (filter (in_range shard) js) + planned shard" using p'(2) by (simp add: sp(6))
  ultimately show ?thesis
    using p'(1) ob2(1,2) same st sums' by (intro exI [of _ w'] exI [of _ ob2] exI [of _ js1] exI [of _ sp2] conjI)
qed

lemma rq_execute_pair:
  assumes q: "rq_inv w ob (vd @ (a, js) # vr)" and b: "b = rq_next_name ob w" "\<not> lockFiles w b" "objects w b = None"
    and s: "unat (sfa_shardIndex s) = length vd" "sfa_newShard s" "sfa_fromSplit s"
    and t: "List.find (\<lambda>x. sfa_splitSource s = Some (sfa_id x)) sfas = Some t" "sfa_address t = a" "unat (sfa_shardIndex t) = Suc (length vd)"
      "\<not> sfa_newShard t" "\<not> sfa_fromSplit t"
    and sums: "length (view_jobs (vd @ (a, js) # vr)) + length (sfa_jobsToAdd s) + length (sfa_jobsToAdd t) < 2 ^ 64"
    and js: "fseq_sorted js" "distinct (map rjp_address js)" "filter (in_range s) js \<noteq> [] \<or> sfa_jobsToAdd s \<noteq> []"
      "filter (\<lambda>j. \<not> in_range s j) js \<noteq> [] \<or> sfa_jobsToAdd t \<noteq> []"
  shows "\<exists>w' ob' js1 js2. foldM (rq_execute_shard sfas) ob [s, t] w = (Inr ob', w') \<and> fseq_sorted js1 \<and> fseq_sorted js2
    \<and> mset js1 = mset (filter (in_range s) js) + planned s \<and> mset js2 = mset (filter (\<lambda>j. \<not> in_range s j) js) + planned t
    \<and> rq_done w ob {b, a} 1 w' ob' (vd @ (b, js1) # (a, js2) # vr)"
proof -
  let ?rest = "filter (\<lambda>j. \<not> in_range s j) js"
  have bound: "length (view_jobs (vd @ (a, js) # vr)) + length (sfa_jobsToAdd s) < 2 ^ 64" using sums by simp
  obtain w1 ob1 js1 sp where r1: "rq_execute_shard sfas ob s w = (Inr ob1, w1)" "fseq_sorted js1"
    "mset js1 = mset (filter (in_range s) js) + planned s"
    "held ob1" "oo_name ob1 = oo_name ob" "vfs_exists (oo_name ob) w1" "rq_vid (oo_payload ob1) = rq_vid (oo_payload ob)"
    "rq_retrievequeueshards (oo_payload ob1) = map rq_pointer_of (vd @ [(b, js1)]) @ sp # map rq_pointer_of vr" "rqsp_address sp = a"
    "rq_sums (oo_payload ob1) (mset (view_jobs (vd @ [(b, js1)]) @ ?rest @ view_jobs vr))"
    "rq_store w1 ((vd @ [(b, js1)]) @ vr)" "stored rqs_c w1 a (rq_shard_of ?rest)"
    "same_except {oo_name ob, b, a} w w1" "nextIdCounter w1 = nextIdCounter w + 1"
    using rq_execute_split [OF q b s t(1,2,3) bound js(2,3)] by (elim exE conjE)
  have h: "oo_name ob \<notin> fst ` set (vd @ (a, js) # vr)" "vfs_exists (oo_name ob) w" "rq_store w (vd @ (a, js) # vr)"
    using q by (simp_all add: rq_inv_def queue_ready_def)
  have ab: "a \<noteq> b" "oo_name ob \<noteq> b" using rq_store_present [OF h(3), of a] h(2) b(3) by (auto simp: vfs_exists_def)
  have f1: "vfs_exists (oo_name ob1) w1" "oo_name ob1 \<notin> fst ` set ((vd @ [(b, js1)]) @ (a, ?rest) # vr)"
    "unat (sfa_shardIndex t) = length (vd @ [(b, js1)])" using r1(5,6) h(1) t(3) ab by auto
  have f2: "a \<notin> fst ` set ((vd @ [(b, js1)]) @ vr)" using h(3) ab by (auto simp: rq_store_append rq_store_Cons)
  have f3: "fseq_sorted ?rest" using js(1) by (rule sorted_filter)
  have "length js1 + length ?rest = length js + length (sfa_jobsToAdd s)"
    using mset_eq_length [of js1 "filter (in_range s) js @ map rqs_job_pointer (sfa_jobsToAdd s)"] r1(3)
      sum_length_filter_compl [of "in_range s" js] by simp
  then have f4: "length (view_jobs (vd @ [(b, js1)]) @ ?rest @ view_jobs vr) + length (sfa_jobsToAdd t) < 2 ^ 64" using sums by simp
  obtain w2 ob2 js2 where r2: "rq_execute_shard sfas ob1 t w1 = (Inr ob2, w2)" "fseq_sorted js2" "mset js2 = mset ?rest + planned t"
    "rq_done w1 ob1 {a} 0 w2 ob2 ((vd @ [(b, js1)]) @ (a, js2) # vr)"
    using rq_execute_existing [OF r1(4) f1(1,2) r1(8,9) f1(3) t(4,5,2) r1(10) f4 r1(11) f2 r1(12) f3 js(4), where sfas = sfas] by (elim exE conjE)
  have "same_except (insert (oo_name ob) {b, a}) w w2"
    by (rule same_except_trans [OF r1(13)]) (use r2(4) r1(5) in \<open>auto simp: rq_done_def\<close>)
  with r2(4) r1 have "rq_done w ob {b, a} 1 w2 ob2 (vd @ (b, js1) # (a, js2) # vr)" by (simp add: rq_done_def)
  with r1(1-3) r2(1-3) show ?thesis by (intro exI [of _ w2] exI [of _ ob2] exI [of _ js1] exI [of _ js2]) simp
qed

end
