(* ===== verification/RetrieveQueueOps.thy ===== *)
theory RetrieveQueueOps
  imports RetrieveQueueSpec
begin

text \<open>
  The whole addition to a retrieve queue: the plan and its execution together, from a queue in agreement
  with its shards to a queue in agreement with them.
\<close>

section \<open>A group of the plan\<close>

text \<open>\<open>filled s x\<close>: the shard \<open>x\<close> is what the entry \<open>s\<close> of the plan became.\<close>

definition filled :: "shard_for_addition \<Rightarrow> string \<times> retrieve_job_pointer list \<Rightarrow> bool" where
  "filled s x \<longleftrightarrow> snd x \<noteq> [] \<and> fseq_sorted (snd x) \<and> (\<forall>j \<in> set (snd x). in_range s j)"

abbreviation all_planned :: "shard_for_addition list \<Rightarrow> retrieve_job_pointer multiset" where
  "all_planned g \<equiv> (\<Sum>s\<leftarrow>g. planned s)"

abbreviation planned_count :: "shard_for_addition list \<Rightarrow> nat" where
  "planned_count g \<equiv> (\<Sum>s\<leftarrow>g. length (sfa_jobsToAdd s))"

abbreviation new_count :: "shard_for_addition list \<Rightarrow> nat" where
  "new_count g \<equiv> length (filter sfa_newShard g)"

text \<open>What is known of the shards the plan has not reached yet.\<close>

definition untouched :: "(string \<Rightarrow> u64 set) \<Rightarrow> rq_view \<Rightarrow> bool" where
  "untouched F vr \<longleftrightarrow> (\<forall>x \<in> set vr. F (fst x) = rjp_fseq ` set (snd x) \<and> fseq_sorted (snd x) \<and> distinct (map rjp_address (snd x)))"

lemma planned_in_range: "range_ok s \<Longrightarrow> j \<in># planned s \<Longrightarrow> in_range s j"
  by (auto simp: range_ok_def rqs_job_pointer_def subset_iff)

lemma filledI:
  assumes "range_ok s" and "fseq_sorted js'" and "mset js' = M + planned s" and "\<forall>j \<in># M. in_range s j" and "M + planned s \<noteq> {#}"
  shows "filled s (a, js')"
proof -
  have "set js' = set_mset (M + planned s)" using assms(3) by (metis set_mset_mset)
  moreover have "js' \<noteq> []" using assms(3,5) by auto
  ultimately show ?thesis using assms(2,4) planned_in_range [OF assms(1)] by (auto simp: filled_def)
qed

text \<open>The result of a group: \<open>v1\<close> in place of the shards it consumed, \<open>vr'\<close> the shards after.\<close>

definition group_done ::
  "world \<Rightarrow> retrieve_queue oo \<Rightarrow> rq_view \<Rightarrow> rq_view \<Rightarrow> shard_for_addition list \<Rightarrow> world \<Rightarrow> retrieve_queue oo \<Rightarrow> rq_view \<Rightarrow> rq_view \<Rightarrow> bool" where
  "group_done w ob vd vr g w' ob' v1 vr' \<longleftrightarrow> rq_done w ob (fst ` set v1) (new_count g) w' ob' (vd @ v1 @ vr')
     \<and> list_all2 filled g v1 \<and> mset (view_jobs v1 @ view_jobs vr') = mset (view_jobs vr) + all_planned g
     \<and> set vr' \<subseteq> set vr"

lemma rq_execute_single_old:
  assumes g: "single_ok m 0 F s" "\<not> sfa_newShard s" and inv: "rq_inv w ob (vd @ (sfa_address s, js) # vr')"
    and idx: "unat (sfa_shardIndex s) = length vd" and vr: "untouched F ((sfa_address s, js) # vr')"
    and bound: "length (view_jobs (vd @ (sfa_address s, js) # vr')) + planned_count [s] < 2 ^ 64"
  shows "\<exists>w' ob' v1. foldM (rq_execute_shard sfas) ob [s] w = (Inr ob', w') \<and> group_done w ob vd ((sfa_address s, js) # vr') [s] w' ob' v1 vr'
    \<and> fst ` set v1 = {sfa_address s}"
proof -
  let ?a = "sfa_address s"
  have F: "F ?a = rjp_fseq ` set js" "fseq_sorted js" using vr by (simp_all add: untouched_def)
  have h: "held ob" "vfs_exists (oo_name ob) w" "oo_name ob \<notin> fst ` set (vd @ (?a, js) # vr')"
    "rq_retrievequeueshards (oo_payload ob) = map rq_pointer_of vd @ rq_pointer_of (?a, js) # map rq_pointer_of vr'"
    "rqsp_address (rq_pointer_of (?a, js)) = ?a"
    "rq_sums (oo_payload ob) (mset (view_jobs vd @ js @ view_jobs vr'))"
    "rq_store w (vd @ vr')" "?a \<notin> fst ` set (vd @ vr')" "stored rqs_c w ?a (rq_shard_of js)"
    using inv by (auto simp: rq_inv_def queue_ready_def rq_rep_def rq_store_append rq_store_Cons)
  have nonempty: "js \<noteq> [] \<or> sfa_jobsToAdd s \<noteq> []" using g F(1) by (auto simp: single_ok_def)
  have s: "\<not> sfa_fromSplit s" "range_ok s" using g(1) by (simp_all add: single_ok_def)
  have b: "length (view_jobs vd @ js @ view_jobs vr') + length (sfa_jobsToAdd s) < 2 ^ 64" using bound by simp
  obtain w' ob' js' where r: "rq_execute_shard sfas ob s w = (Inr ob', w')" "fseq_sorted js'" "mset js' = mset js + planned s"
    "rq_done w ob {?a} 0 w' ob' (vd @ (?a, js') # vr')"
    using rq_execute_existing [OF h(1-5) idx g(2) s(1) refl h(6) b h(7-9) F(2) nonempty, where sfas = sfas] by (elim exE conjE)
  have "filled s (?a, js')"
  proof (rule filledI [OF s(2) r(2,3)])
    show "\<forall>j \<in># mset js. in_range s j" using g F(1) by (auto simp: single_ok_def)
    show "mset js + planned s \<noteq> {#}" using nonempty by auto
  qed
  then have "group_done w ob vd ((?a, js) # vr') [s] w' ob' [(?a, js')] vr'"
    using r(3,4) g(2) by (auto simp: group_done_def)
  with r(1) show ?thesis by (intro exI [of _ w'] exI [of _ ob'] exI [of _ "[(?a, js')]"]) simp
qed

lemma rq_execute_single_new:
  assumes g: "single_ok m 0 F s" "sfa_newShard s" and inv: "rq_inv w ob (vd @ vr)"
    and idx: "unat (sfa_shardIndex s) = length vd" and bound: "length (view_jobs (vd @ vr)) + planned_count [s] < 2 ^ 64"
    and fresh: "\<not> lockFiles w (rq_next_name ob w)" "objects w (rq_next_name ob w) = None"
  shows "\<exists>w' ob' v1. foldM (rq_execute_shard sfas) ob [s] w = (Inr ob', w') \<and> group_done w ob vd vr [s] w' ob' v1 vr
    \<and> fst ` set v1 = {rq_next_name ob w}"
proof -
  let ?b = "rq_next_name ob w"
  have s: "\<not> sfa_fromSplit s" "range_ok s" "sfa_jobsToAdd s \<noteq> []" using g by (simp_all add: single_ok_def)
  have b: "length (view_jobs (vd @ vr)) + length (sfa_jobsToAdd s) < 2 ^ 64" using bound by simp
  obtain w' ob' js' where r: "rq_execute_shard sfas ob s w = (Inr ob', w')" "fseq_sorted js'" "mset js' = planned s"
    "rq_done w ob {?b} 1 w' ob' (vd @ (?b, js') # vr)"
    using rq_execute_new [OF inv refl fresh idx g(2) s(1) b s(3), where sfas = sfas] by (elim exE conjE)
  have "filled s (?b, js')" by (rule filledI [OF s(2) r(2), of "{#}"]) (use r(3) s(3) in auto)
  then have "group_done w ob vd vr [s] w' ob' [(?b, js')] vr" using r(3,4) g(2) by (auto simp: group_done_def)
  with r(1) show ?thesis by (intro exI [of _ w'] exI [of _ ob'] exI [of _ "[(?b, js')]"]) simp
qed

lemma rq_execute_group_pair:
  assumes g: "pair_ok m 0 F s t" and inv: "rq_inv w ob (vd @ (sfa_address t, js) # vr')"
    and idx: "unat (sfa_shardIndex s) = length vd" "unat (sfa_shardIndex t) = Suc (length vd)"
    and src: "List.find (\<lambda>x. sfa_splitSource s = Some (sfa_id x)) sfas = Some t"
    and vr: "untouched F ((sfa_address t, js) # vr')"
    and bound: "length (view_jobs (vd @ (sfa_address t, js) # vr')) + planned_count [s, t] < 2 ^ 64"
    and fresh: "\<not> lockFiles w (rq_next_name ob w)" "objects w (rq_next_name ob w) = None"
  shows "\<exists>w' ob' v1. foldM (rq_execute_shard sfas) ob [s, t] w = (Inr ob', w')
    \<and> group_done w ob vd ((sfa_address t, js) # vr') [s, t] w' ob' v1 vr' \<and> fst ` set v1 = {rq_next_name ob w, sfa_address t}"
proof -
  let ?a = "sfa_address t" and ?b = "rq_next_name ob w" and ?rest = "filter (\<lambda>j. \<not> in_range s j) js"
  have F: "F ?a = rjp_fseq ` set js" "fseq_sorted js" "distinct (map rjp_address js)" using vr by (simp_all add: untouched_def)
  have st: "range_ok s" "range_ok t" "sfa_fromSplit s" "sfa_newShard s" "\<not> sfa_newShard t" "\<not> sfa_fromSplit t"
    "sfa_minFseq t = sfa_maxFseq s + 1" using g by (simp_all add: pair_ok_def)
  have low: "rjp_fseq ` set js \<subseteq> {sfa_minFseq s..sfa_maxFseq t}" using g F(1) by (simp add: pair_ok_def)
  have "sfa_minFseq s \<in> rjp_fseq ` set js \<union> sfa_fseqs s" "sfa_maxFseq t \<in> rjp_fseq ` set js \<union> sfa_fseqs t"
    using g F(1) by (simp_all add: pair_ok_def)
  moreover have "sfa_minFseq s \<le> sfa_maxFseq s" "sfa_maxFseq s < - 1" "sfa_minFseq t \<le> sfa_maxFseq t" using st(1,2) by (simp_all add: range_ok_def)
  moreover from this st(7) have "sfa_maxFseq s < sfa_maxFseq t" by (auto simp: inc_less_eq_iff)
  ultimately have n1: "filter (in_range s) js \<noteq> [] \<or> sfa_jobsToAdd s \<noteq> []" and n2: "?rest \<noteq> [] \<or> sfa_jobsToAdd t \<noteq> []"
    by (auto simp: filter_empty_conv dest!: bspec simp flip: not_le)
  have above: "\<forall>j \<in># mset ?rest. in_range t j"
    using low \<open>sfa_maxFseq s < - 1\<close> by (auto simp: st(7) inc_less_eq_iff subset_iff)
  have b: "length (view_jobs (vd @ (?a, js) # vr')) + length (sfa_jobsToAdd s) + length (sfa_jobsToAdd t) < 2 ^ 64" using bound by simp
  obtain w' ob' js1 js2 where r: "foldM (rq_execute_shard sfas) ob [s, t] w = (Inr ob', w')" "fseq_sorted js1" "fseq_sorted js2"
    "mset js1 = mset (filter (in_range s) js) + planned s" "mset js2 = mset ?rest + planned t"
    "rq_done w ob {?b, ?a} 1 w' ob' (vd @ (?b, js1) # (?a, js2) # vr')"
    using rq_execute_pair [OF inv refl fresh idx(1) st(4,3) src refl idx(2) st(5,6) b F(2,3) n1 n2] by (elim exE conjE)
  have "filled s (?b, js1)" by (rule filledI [OF st(1) r(2,4)]) (use n1 in auto)
  moreover have "filled t (?a, js2)" by (rule filledI [OF st(2) r(3,5) above]) (use n2 in auto)
  moreover have "mset js1 + mset js2 = mset js + (planned s + planned t)"
  proof -
    have "mset js1 + mset js2 = filter_mset (in_range s) (mset js) + filter_mset (\<lambda>j. \<not> in_range s j) (mset js) + (planned s + planned t)"
      by (simp add: r(4,5) ac_simps)
    also have "\<dots> = mset js + (planned s + planned t)" by (simp only: multiset_partition [symmetric])
    finally show ?thesis .
  qed
  ultimately have "group_done w ob vd ((?a, js) # vr') [s, t] w' ob' [(?b, js1), (?a, js2)] vr'"
    using r(6) st(4,5) by (auto simp: group_done_def add.assoc [symmetric])
  with r(1) show ?thesis by (intro exI [of _ w'] exI [of _ ob'] exI [of _ "[(?b, js1), (?a, js2)]"]) auto
qed

lemma find_by_id: "distinct (map f xs) \<Longrightarrow> t \<in> set xs \<Longrightarrow> List.find (\<lambda>x. f t = f x) xs = Some t"
  by (induction xs) (auto, metis image_eqI)

lemma fresh_ids_group:
  assumes inv: "rq_inv w ob (vd @ vr)" and d: "group_done w ob vd vr g w' ob' v1 vr'" and fresh: "fresh_ids w (new_count g + k)" "new_count g + k \<le> 2 ^ 64"
    and v1: "new_count g = 0 \<and> fst ` set v1 \<subseteq> fst ` set vr \<or> new_count g = 1 \<and> fst ` set v1 \<subseteq> insert (rq_next_name ob w) (fst ` set vr)"
  shows "fresh_ids w' k"
proof -
  have store: "rq_store w (vd @ vr)" "vfs_exists (oo_name ob) w" using inv by (simp_all add: rq_inv_def queue_ready_def)
  have present: "objects w n \<noteq> None \<and> lockFiles w n" if "n \<in> insert (oo_name ob) (fst ` set vr)" for n
    using rq_store_present [OF store(1), of n] store(2) that by (auto simp: vfs_exists_def)
  have same: "same_except (insert (oo_name ob) (fst ` set v1)) w w'" "nextIdCounter w' = nextIdCounter w + of_nat (new_count g)"
    using d by (simp_all add: group_done_def rq_done_def)
  from v1 consider (old) "new_count g = 0" "fst ` set v1 \<subseteq> fst ` set vr"
    | (new) "new_count g = 1" "fst ` set v1 \<subseteq> insert (rq_next_name ob w) (fst ` set vr)" by blast
  then show ?thesis
  proof cases
    case old
    show ?thesis by (rule fresh_ids_same [OF _ same(1)]) (use old fresh same(2) present in auto)
  next
    case new
    have fr: "fresh_ids w (Suc k)" "Suc k \<le> 2 ^ 64" using fresh new(1) by simp_all
    have c: "nextIdCounter w' = nextIdCounter w + 1" using same(2) new(1) by simp
    have "\<forall>n \<in> insert (oo_name ob) (fst ` set v1) - {rq_next_name ob w}. objects w n \<noteq> None \<and> lockFiles w n"
      using new(2) present by blast
    from fresh_ids_same_step [OF fr c same(1) this] show ?thesis .
  qed
qed

lemma rq_execute_group:
  assumes g: "group_ok m 0 F g" and inv: "rq_inv w ob (vd @ vr)" and old: "plan_old (g @ rest) = map fst vr"
    and idx: "\<forall>i < length g. unat (sfa_shardIndex (g ! i)) = length vd + i"
    and ids: "distinct (map sfa_id sfas)" "set g \<subseteq> set sfas" and vr: "untouched F vr"
    and bound: "length (view_jobs (vd @ vr)) + planned_count g < 2 ^ 64"
    and fresh: "fresh_ids w (new_count g + k)" "new_count g + k \<le> 2 ^ 64"
  shows "\<exists>w' ob' v1 vr'. foldM (rq_execute_shard sfas) ob g w = (Inr ob', w') \<and> group_done w ob vd vr g w' ob' v1 vr'
    \<and> map fst vr' = plan_old rest \<and> fresh_ids w' k"
proof -
  have nxt: "\<not> lockFiles w (rq_next_name ob w)" "objects w (rq_next_name ob w) = None" if "new_count g = 1"
    using fresh_ids_next [of w k] fresh(1) that by simp_all
  from g consider (single) s where "g = [s]" "single_ok m 0 F s" | (pair) s t where "g = [s, t]" "pair_ok m 0 F s t"
    by (auto simp: group_ok_def split: list.splits)
  then show ?thesis
  proof cases
    case single
    have i: "unat (sfa_shardIndex s) = length vd" using idx single(1) by simp
    show ?thesis
    proof (cases "sfa_newShard s")
      case True
      then have n: "new_count g = 1" using single(1) by simp
      obtain w' ob' v1 where r: "foldM (rq_execute_shard sfas) ob [s] w = (Inr ob', w')" "group_done w ob vd vr [s] w' ob' v1 vr"
        "fst ` set v1 = {rq_next_name ob w}"
        using rq_execute_single_new [OF single(2) True inv i _ nxt [OF n], where sfas = sfas] bound single(1) by (elim meta_impE exE conjE) simp_all
      have "fresh_ids w' k" by (rule fresh_ids_group [OF inv _ fresh]) (use r single(1) n in auto)
      with r old True show ?thesis by (intro exI [of _ w'] exI [of _ ob'] exI [of _ v1] exI [of _ vr]) (simp add: single(1))
    next
      case False
      then obtain js vr' where v: "vr = (sfa_address s, js) # vr'" "map fst vr' = plan_old rest"
        using old single(1) by (cases vr) auto
      have b: "length (view_jobs (vd @ (sfa_address s, js) # vr')) + planned_count [s] < 2 ^ 64" using bound single(1) v(1) by simp
      obtain w' ob' v1 where r: "foldM (rq_execute_shard sfas) ob [s] w = (Inr ob', w')" "group_done w ob vd ((sfa_address s, js) # vr') [s] w' ob' v1 vr'"
        "fst ` set v1 = {sfa_address s}"
        using rq_execute_single_old [OF single(2) False inv [unfolded v(1)] i vr [unfolded v(1)] b, where sfas = sfas] by (elim exE conjE)
      have "fresh_ids w' k" by (rule fresh_ids_group [OF inv _ fresh]) (use r single(1) v(1) False in auto)
      with r v show ?thesis by (intro exI [of _ w'] exI [of _ ob'] exI [of _ v1] exI [of _ vr']) (simp add: single(1))
    qed
  next
    case pair
    have st: "sfa_newShard s" "\<not> sfa_newShard t" "sfa_splitSource s = Some (sfa_id t)" using pair(2) by (simp_all add: pair_ok_def)
    then have n: "new_count g = 1" using pair(1) by simp
    have i: "unat (sfa_shardIndex s) = length vd" "unat (sfa_shardIndex t) = Suc (length vd)" using idx pair(1) by (auto simp: less_Suc_eq)
    have src: "List.find (\<lambda>x. sfa_splitSource s = Some (sfa_id x)) sfas = Some t"
      using find_by_id [OF ids(1), of t] ids(2) pair(1) by (simp add: st(3))
    obtain js vr' where v: "vr = (sfa_address t, js) # vr'" "map fst vr' = plan_old rest"
      using old pair(1) st by (cases vr) auto
    have b: "length (view_jobs (vd @ (sfa_address t, js) # vr')) + planned_count [s, t] < 2 ^ 64" using bound pair(1) v(1) by simp
    obtain w' ob' v1 where r: "foldM (rq_execute_shard sfas) ob [s, t] w = (Inr ob', w')"
      "group_done w ob vd ((sfa_address t, js) # vr') [s, t] w' ob' v1 vr'" "fst ` set v1 = {rq_next_name ob w, sfa_address t}"
      using rq_execute_group_pair [OF pair(2) inv [unfolded v(1)] i src vr [unfolded v(1)] b nxt [OF n]] by (elim exE conjE)
    have "fresh_ids w' k" by (rule fresh_ids_group [OF inv _ fresh]) (use r pair(1) v(1) n in auto)
    with r v show ?thesis by (intro exI [of _ w'] exI [of _ ob'] exI [of _ v1] exI [of _ vr']) (simp add: pair(1))
  qed
qed

section \<open>The whole plan\<close>

lemma untouched_subset: "untouched F vr \<Longrightarrow> set vr' \<subseteq> set vr \<Longrightarrow> untouched F vr'"
  by (auto simp: untouched_def)

lemma size_all_planned: "size (all_planned g) = planned_count g"
  by (induction g) simp_all

lemma rq_execute_groups:
  assumes "\<forall>g \<in> set gs. group_ok m 0 F g" and "rq_inv w ob (vd @ vr)" and "plan_old (concat gs) = map fst vr"
    and sfas: "sfas = pre @ concat gs" "length pre = length vd" "\<forall>i < length sfas. sfa_shardIndex (sfas ! i) = of_nat i" "length sfas < 2 ^ 64"
      "distinct (map sfa_id sfas)"
    and "untouched F vr" and "length (view_jobs (vd @ vr)) + planned_count (concat gs) < 2 ^ 64"
    and "fresh_ids w (new_count (concat gs))"
  shows "\<exists>w' ob' v'. foldM (rq_execute_shard sfas) ob (concat gs) w = (Inr ob', w') \<and> rq_inv w' ob' (vd @ v')
    \<and> list_all2 filled (concat gs) v' \<and> mset (view_jobs v') = mset (view_jobs vr) + all_planned (concat gs)
    \<and> oo_name ob' = oo_name ob \<and> (gs \<noteq> [] \<longrightarrow> objects w' (oo_name ob) = Some (oo_header rq_c ob'))
    \<and> same_except (insert (oo_name ob) (fst ` set v')) w w'"
  using assms(1-3) sfas(1,2) assms(9-11)
proof (induction gs arbitrary: w ob vd vr pre)
  case Nil
  then show ?case by (intro exI [of _ w] exI [of _ ob] exI [of _ "[]"]) (simp add: same_except_refl)
next
  case (Cons g gs)
  have g: "group_ok m 0 F g" using Cons.prems(1) by simp
  have old: "plan_old (g @ concat gs) = map fst vr" using Cons.prems(3) by simp
  have idx: "\<forall>i < length g. unat (sfa_shardIndex (g ! i)) = length vd + i"
  proof (intro allI impI)
    fix i assume i: "i < length g"
    then have lt: "length vd + i < length sfas" using Cons.prems(4,5) by simp
    have "sfas ! (length vd + i) = g ! i" using Cons.prems(4,5) i by (simp add: nth_append flip: Cons.prems(5))
    with sfas(3) lt have "sfa_shardIndex (g ! i) = of_nat (length vd + i)" by metis
    then show "unat (sfa_shardIndex (g ! i)) = length vd + i" using lt sfas(4) by (simp add: unat_of_nat del: of_nat_add)
  qed
  have sub: "set g \<subseteq> set sfas" using Cons.prems(4) by auto
  have bound: "length (view_jobs (vd @ vr)) + planned_count g < 2 ^ 64" using Cons.prems(7) by simp
  have "length (filter sfa_newShard sfas) \<le> length sfas" by simp
  then have fresh: "fresh_ids w (new_count g + new_count (concat gs))" "new_count g + new_count (concat gs) \<le> 2 ^ 64"
    using Cons.prems(8) Cons.prems(4) sfas(4) by simp_all
  obtain w1 ob1 v1 vr1 where r1: "foldM (rq_execute_shard sfas) ob g w = (Inr ob1, w1)" "group_done w ob vd vr g w1 ob1 v1 vr1"
    "map fst vr1 = plan_old (concat gs)" "fresh_ids w1 (new_count (concat gs))"
    using rq_execute_group [OF g Cons.prems(2) old idx sfas(5) sub Cons.prems(6) bound fresh] by (elim exE conjE)
  have d: "rq_inv w1 ob1 ((vd @ v1) @ vr1)" "oo_name ob1 = oo_name ob" "list_all2 filled g v1"
    "mset (view_jobs v1) + mset (view_jobs vr1) = mset (view_jobs vr) + all_planned g" "set vr1 \<subseteq> set vr"
    "objects w1 (oo_name ob) = Some (oo_header rq_c ob1)" "same_except (insert (oo_name ob) (fst ` set v1)) w w1"
    using r1(2) by (simp_all add: group_done_def rq_done_def)
  have len: "length v1 = length g" using d(3) by (simp add: list_all2_lengthD)
  have "length (view_jobs v1) + length (view_jobs vr1) = length (view_jobs vr) + planned_count g"
    using arg_cong [OF d(4), of size] size_all_planned [of g] by simp
  then have b1: "length (view_jobs ((vd @ v1) @ vr1)) + planned_count (concat gs) < 2 ^ 64" using Cons.prems(7) by simp
  have pre1: "sfas = (pre @ g) @ concat gs" "length (pre @ g) = length (vd @ v1)" using Cons.prems(4,5) len by simp_all
  have gs1: "\<forall>g \<in> set gs. group_ok m 0 F g" using Cons.prems(1) by simp
  obtain w2 ob2 v2 where r2: "foldM (rq_execute_shard sfas) ob1 (concat gs) w1 = (Inr ob2, w2)" "rq_inv w2 ob2 ((vd @ v1) @ v2)"
    "list_all2 filled (concat gs) v2" "mset (view_jobs v2) = mset (view_jobs vr1) + all_planned (concat gs)" "oo_name ob2 = oo_name ob1"
    "gs \<noteq> [] \<longrightarrow> objects w2 (oo_name ob1) = Some (oo_header rq_c ob2)" "same_except (insert (oo_name ob1) (fst ` set v2)) w1 w2"
    using Cons.IH [OF gs1 d(1) r1(3) [symmetric] pre1 untouched_subset [OF Cons.prems(6) d(5)] b1 r1(4)] by (elim exE conjE)
  have "mset (view_jobs (v1 @ v2)) = mset (view_jobs vr) + all_planned (concat (g # gs))"
    using d(4) r2(4) by (simp add: add.assoc [symmetric])
  moreover have "same_except (insert (oo_name ob) (fst ` set (v1 @ v2))) w w2"
    by (rule same_except_trans [OF d(7) r2(7)]) (auto simp: d(2))
  moreover have "objects w2 (oo_name ob) = Some (oo_header rq_c ob2)"
    using r2(1,6) d(2,6) by (cases "gs = []") simp_all
  moreover have "foldM (rq_execute_shard sfas) ob (concat (g # gs)) w = (Inr ob2, w2)"
    using r1(1) r2(1) by (simp add: foldM_append)
  ultimately show ?case
    using r2(2,3,5) d(2,3) by (intro exI [of _ w2] exI [of _ ob2] exI [of _ "v1 @ v2"]) (simp add: list_all2_appendI)
qed

lemma new_count_add: "i < length sfas \<Longrightarrow> new_count (addJobToShardAndMaybeSplit m j i sfas) \<le> Suc (new_count sfas)"
proof -
  assume i: "i < length sfas"
  have eq: "new_count sfas = new_count (take i sfas) + new_count [sfas ! i] + new_count (drop (Suc i) sfas)"
    by (subst id_take_drop [OF i]) simp
  show ?thesis
    by (rule addJobToShard_cases [OF i, of m j]) (auto simp: eq dest: split_pair_fields(6))
qed

lemma new_count_plan_jobs: "foldR (rq_plan_job m) sfas js = Inr sfas' \<Longrightarrow> new_count sfas' \<le> new_count sfas + length js"
proof (induction js arbitrary: sfas)
  case (Cons j js)
  from Cons.prems obtain s1 where s1: "rq_plan_job m sfas j = Inr s1" "foldR (rq_plan_job m) s1 js = Inr sfas'"
    by (auto simp: rbind_def split: sum.splits)
  have "new_count s1 \<le> Suc (new_count sfas)"
    using s1(1) new_count_add find_shard_bounds by (auto simp: rq_plan_job_def split: if_splits option.splits)
  with Cons.IH [OF s1(2)] show ?case by simp
qed simp

lemma new_count_old: "length sfas = new_count sfas + length (plan_old sfas)"
  by (induction sfas) (simp_all add: plan_old_def)

lemma rq_plan_new_count:
  assumes "rq_plan m sps js = Inr sfas"
  shows "new_count sfas \<le> length js"
proof -
  from assms obtain s1 where s1: "foldR (rq_plan_job m) (rq_initial_plan sps) js = Inr s1" "sfas = number_shards s1"
    by (auto simp: rq_plan_number rbind_def split: sum.splits)
  have "new_count (rq_initial_plan sps) = 0"
    using new_count_old [of "rq_initial_plan sps"] by (simp add: rq_initial_plan_fields)
  moreover have "new_count sfas = new_count s1"
    using new_count_old [of sfas] new_count_old [of s1] s1(2) by (simp add: number_shards_fields)
  ultimately show ?thesis using new_count_plan_jobs [OF s1(1)] by simp
qed

lemma all_planned_plan_jobs: "all_planned sfas = image_mset rqs_job_pointer (plan_jobs sfas)" "planned_count sfas = size (plan_jobs sfas)"
  by (induction sfas) simp_all

lemma filled_shape:
  assumes "list_all2 filled sfas v" and "ranges_ordered sfas"
  shows "rq_shape v"
proof -
  have len: "length sfas = length v" using assms(1) by (rule list_all2_lengthD)
  have f: "filled (sfas ! i) (v ! i)" if "i < length v" for i using assms(1) that by (simp add: list_all2_conv_all_nth)
  have "rjp_fseq (last (snd (v ! i))) < rjp_fseq (hd (snd (v ! j)))" if "i < j" "j < length v" for i j
  proof -
    have "rjp_fseq (last (snd (v ! i))) \<le> sfa_maxFseq (sfas ! i)" "sfa_minFseq (sfas ! j) \<le> rjp_fseq (hd (snd (v ! j)))"
      using f [of i] f [of j] that by (auto simp: filled_def)
    moreover have "sfa_maxFseq (sfas ! i) < sfa_minFseq (sfas ! j)" using assms(2) that len by (simp add: sorted_wrt_iff_nth_less)
    ultimately show ?thesis by simp
  qed
  then have "sorted_wrt (\<lambda>x y. rjp_fseq (last (snd x)) < rjp_fseq (hd (snd y))) v" by (simp add: sorted_wrt_iff_nth_less)
  moreover have "snd x \<noteq> [] \<and> fseq_sorted (snd x)" if "x \<in> set v" for x
    using that f by (metis filled_def in_set_conv_nth)
  ultimately show ?thesis by (simp add: rq_shape_def)
qed

text \<open>
  The room an addition of \<open>n\<close> jobs needs, with shards of at most \<open>m\<close> jobs: no shard is so full that it would be
  split twice, and a shard that may be split spans more than one position on tape.
\<close>

definition rq_room :: "nat \<Rightarrow> nat \<Rightarrow> rq_view \<Rightarrow> bool" where
  "rq_room m n v \<longleftrightarrow> (\<forall>x \<in> set v. length (snd x) + 2 * n < 2 * m
     \<and> (m \<le> length (snd x) + n \<longrightarrow> rjp_fseq (hd (snd x)) < rjp_fseq (last (snd x)))
     \<and> rjp_fseq (last (snd x)) < - 1 \<and> distinct (map rjp_address (snd x)))"

definition view_fseqs :: "rq_view \<Rightarrow> string \<Rightarrow> u64 set" where
  "view_fseqs v a = (case map_of v a of None \<Rightarrow> {} | Some js \<Rightarrow> rjp_fseq ` set js)"

lemma view_fseqs_at: "distinct (map fst v) \<Longrightarrow> x \<in> set v \<Longrightarrow> view_fseqs v (fst x) = rjp_fseq ` set (snd x)"
  by (cases x) (simp add: view_fseqs_def)

lemma sorted_hd_last:
  assumes "fseq_sorted js" and "j \<in> set js"
  shows "rjp_fseq (hd js) \<le> rjp_fseq j \<and> rjp_fseq j \<le> rjp_fseq (last js)"
proof -
  from assms(2) obtain i where i: "i < length js" "j = js ! i" by (auto simp: in_set_conv_nth)
  then have "js \<noteq> []" by auto
  then show ?thesis
    using sorted_nth_mono [OF assms(1), of 0 i] sorted_nth_mono [OF assms(1), of i "length js - 1"] i
    by (simp add: hd_conv_nth last_conv_nth)
qed

lemma view_pointers_ok:
  assumes "distinct (map fst v)" and "rq_shape v" and "rq_room m n v" and "length (view_jobs v) < 2 ^ 64"
  shows "pointers_ok m n (view_fseqs v) (map rq_pointer_of v)"
proof -
  have "rqsp_minfseq (rq_pointer_of x) \<in> view_fseqs v (fst x) \<and> rqsp_maxfseq (rq_pointer_of x) \<in> view_fseqs v (fst x)
      \<and> view_fseqs v (fst x) \<subseteq> {rqsp_minfseq (rq_pointer_of x)..rqsp_maxfseq (rq_pointer_of x)} \<and> rqsp_maxfseq (rq_pointer_of x) < - 1
      \<and> unat (rqsp_shardjobscount (rq_pointer_of x)) + 2 * n < 2 * m
      \<and> (m \<le> unat (rqsp_shardjobscount (rq_pointer_of x)) + n \<longrightarrow> rqsp_minfseq (rq_pointer_of x) < rqsp_maxfseq (rq_pointer_of x))"
    if x: "x \<in> set v" for x
  proof -
    have ne: "snd x \<noteq> []" "fseq_sorted (snd x)" using assms(2) x by (auto simp: rq_shape_def)
    have "length (snd x) < 2 ^ 64" using length_view_jobs [OF x] assms(4) by simp
    then have u: "unat (of_nat (length (snd x)) :: u64) = length (snd x)" by (simp add: unat_of_nat)
    have "rjp_fseq (hd (snd x)) \<in> view_fseqs v (fst x)" "rjp_fseq (last (snd x)) \<in> view_fseqs v (fst x)"
      "view_fseqs v (fst x) \<subseteq> {rjp_fseq (hd (snd x))..rjp_fseq (last (snd x))}"
      using ne sorted_hd_last [OF ne(2)] by (auto simp: view_fseqs_at [OF assms(1) x])
    moreover have "length (snd x) + 2 * n < 2 * m" "m \<le> length (snd x) + n \<longrightarrow> rjp_fseq (hd (snd x)) < rjp_fseq (last (snd x))"
      "rjp_fseq (last (snd x)) < - 1" using assms(3) x by (auto simp: rq_room_def)
    ultimately show ?thesis by (simp add: rq_pointer_of_def case_prod_unfold u)
  qed
  moreover have "sorted_wrt (\<lambda>a b. rqsp_maxfseq a < rqsp_minfseq b) (map rq_pointer_of v)"
    using assms(2) by (simp add: rq_shape_def sorted_wrt_map rq_pointer_of_def case_prod_unfold)
  ultimately show ?thesis by (simp add: pointers_ok_def)
qed

lemma rq_addJobsAndCommit_rep:
  assumes inv: "rq_inv w ob v" and shape: "rq_shape v" and room: "rq_room (unat m) (length jobs) v"
    and jobs: "\<forall>j \<in> set jobs. rja_fSeq j < - 1" and bound: "length (view_jobs v) + length jobs < 2 ^ 64" and fresh: "fresh_ids w (length jobs)"
  shows "\<exists>w' ob' v'. rq_addJobsAndCommit m jobs ob w = (Inr ob', w') \<and> rq_inv w' ob' v' \<and> rq_shape v'
    \<and> mset (view_jobs v') = mset (view_jobs v) + mset (map rqs_job_pointer jobs)
    \<and> (jobs \<noteq> [] \<longrightarrow> objects w' (oo_name ob) = Some (oo_header rq_c ob')) \<and> oo_name ob' = oo_name ob
    \<and> same_except (insert (oo_name ob) (fst ` set v')) w w'"
proof (cases "jobs = []")
  case True
  have "held ob" using inv by (simp add: rq_inv_def queue_ready_def)
  with True inv shape show ?thesis
    by (intro exI [of _ w] exI [of _ ob] exI [of _ v]) (simp add: rq_addJobsAndCommit_def same_except_refl)
next
  case False
  have h: "held ob" "rq_retrievequeueshards (oo_payload ob) = map rq_pointer_of v" "distinct (map fst v)"
    using inv by (simp_all add: rq_inv_def queue_ready_def rq_rep_def rq_store_def)
  have len: "length v \<le> length (view_jobs v)"
    using shape by (induction v) (auto simp: rq_shape_def Suc_le_eq intro!: add_le_mono [of 1, simplified])
  have ptrs: "pointers_ok (unat m) (length jobs) (view_fseqs v) (map rq_pointer_of v)"
    by (rule view_pointers_ok [OF h(3) shape room]) (use bound in simp)
  obtain sfas where p: "rq_plan m (map rq_pointer_of v) jobs = Inr sfas" "plan_ok (unat m) 0 (view_fseqs v) sfas" "plan_jobs sfas = mset jobs"
    "plan_old sfas = map rqsp_address (map rq_pointer_of v)" "\<forall>i < length sfas. sfa_shardIndex (sfas ! i) = of_nat i"
    using rq_plan_ok [OF ptrs jobs] by (elim exE conjE)
  obtain gs where gs: "sfas = concat gs" "\<forall>g \<in> set gs. group_ok (unat m) 0 (view_fseqs v) g" and ids: "distinct (map sfa_id sfas)"
    and ordered: "ranges_ordered sfas" using p(2) by (auto simp: plan_ok_def)
  have new: "new_count sfas \<le> length jobs" by (rule rq_plan_new_count [OF p(1)])
  have old: "plan_old (concat gs) = map fst v" using p(4) gs(1) by (simp add: comp_def)
  have lt: "length sfas < 2 ^ 64" using new_count_old [of sfas] new old gs(1) len bound by simp
  have un: "untouched (view_fseqs v) v" using view_fseqs_at [OF h(3)] shape room by (auto simp: untouched_def rq_shape_def rq_room_def)
  have b: "length (view_jobs ([] @ v)) + planned_count (concat gs) < 2 ^ 64" using bound p(3) gs(1) by (simp add: all_planned_plan_jobs)
  have fr: "fresh_ids w (new_count (concat gs))" using fresh_ids_mono [OF fresh new] gs(1) by simp
  have inv0: "rq_inv w ob ([] @ v)" using inv by simp
  have pre: "sfas = [] @ concat gs" "length ([] :: shard_for_addition list) = length ([] :: rq_view)" using gs(1) by simp_all
  obtain w' ob' v' where r: "foldM (rq_execute_shard sfas) ob (concat gs) w = (Inr ob', w')" "rq_inv w' ob' ([] @ v')"
    "list_all2 filled (concat gs) v'" "mset (view_jobs v') = mset (view_jobs v) + all_planned (concat gs)" "oo_name ob' = oo_name ob"
    "gs \<noteq> [] \<longrightarrow> objects w' (oo_name ob) = Some (oo_header rq_c ob')" "same_except (insert (oo_name ob) (fst ` set v')) w w'"
    using rq_execute_groups [OF gs(2) inv0 old pre p(5) lt ids un b fr] by (elim exE conjE)
  have "gs \<noteq> []" using False p(3) gs(1) by auto
  moreover have "mset (view_jobs v') = mset (view_jobs v) + mset (map rqs_job_pointer jobs)"
    using r(4) p(3) gs(1) all_planned_plan_jobs(1) [of sfas] by simp
  moreover have "rq_shape v'" by (rule filled_shape [OF r(3)]) (use ordered gs(1) in simp)
  moreover have "rq_addJobsAndCommit m jobs ob w = (Inr ob', w')" using h False p(1) r(1) gs(1) by (simp add: rq_addJobsAndCommit_def)
  ultimately show ?thesis using r(2,5-7) by (intro exI [of _ w'] exI [of _ ob'] exI [of _ v']) simp
qed

section \<open>Candidates\<close>

definition rq_available :: "world \<Rightarrow> string \<times> retrieve_job_pointer list \<Rightarrow> bool" where
  "rq_available w x \<longleftrightarrow> stored rqs_c w (fst x) (rq_shard_of (snd x))"

lemma rq_candidates_step_next:
  assumes "rq_available w x"
  shows "rq_candidates_step mB mF skip disks r (rq_pointer_of x) w
    = (Inr (candidates_next (rqs_skipped skip disks) rjp_size rqs_job_dump mB mF (snd x) r), w)"
proof -
  obtain a js where x: "x = (a, js)" by (cases x)
  have st: "stored rqs_c w a (rq_shard_of js)" and a: "a \<noteq> ''''"
    using assms by (auto simp: x rq_available_def stored_def)
  from lockfree_fetch_stored [OF codecs_ok(4) st, of rqs_empty] obtain s where
    s: "oo_fetchNoLock rqs_c (rqs_new\<lparr>oo_name := a, oo_nameSet := True\<rparr>) w = (Inr s, w)" "oo_payload s = rq_shard_of js"
    "checkPayloadReadable s = Inr ()" by (auto simp: rqs_new_def)
  have at: "rqs_at (fst x) = Inr (rqs_new\<lparr>oo_name := a, oo_nameSet := True\<rparr>)"
    using setAddress_new [OF a, of rqs_empty] by (simp add: rqs_at_def rqs_new_def x)
  have cand: "rqs_getCandidateJobList b f skip disks s = Inr (candidate_loop (rqs_skipped skip disks) rjp_size rqs_job_dump b f js
      (candidate_job_list_init\<lparr>cjl_remainingBytesAfterCandidates := (\<Sum>j\<leftarrow>js. rjp_size j),
         cjl_remainingFilesAfterCandidates := of_nat (length js)\<rparr>))" for b f
    using s(2,3) by (simp add: rqs_getCandidateJobList_def rq_shard_of_def)
  have counts: "rqsp_shardbytescount (rq_pointer_of x) = (\<Sum>j\<leftarrow>js. rjp_size j)" "rqsp_shardjobscount (rq_pointer_of x) = of_nat (length js)"
    by (simp_all add: rq_pointer_of_def x)
  show ?thesis
    using s(1) by (simp add: rq_candidates_step_def candidates_next_def at cand counts Let_def) (simp add: x)
qed

interpretation rqc: candidate_queue "\<lambda>mB mF. rq_candidates_step mB mF skip disks" rq_pointer_of rq_available
  "rqs_skipped skip disks" rjp_size rqs_job_dump for skip disks
  by unfold_locales (rule rq_candidates_step_next)

lemma rq_getCandidateList_rep:
  assumes inv: "rq_inv w ob v" and fits: "fits rjp_size (view_jobs v)"
  shows "\<exists>pre post. view_jobs v = pre @ post
    \<and> stops_at (limit_reached (rqs_skipped skip disks) rjp_size maxBytes maxFiles 0 0) pre post
    \<and> rq_getCandidateList maxBytes maxFiles skip disks ob w
        = (Inr (candidates_of (rqs_skipped skip disks) rjp_size rqs_job_dump pre post), w)"
proof -
  have "\<forall>x \<in> set v. rq_available w x" using inv by (auto simp: rq_inv_def rq_store_def rq_available_def)
  from rqc.prefix [OF this, where mB = maxBytes and mF = maxFiles and skip = skip and disks = disks] fits inv show ?thesis
    by (simp add: rq_getCandidateList_def rq_inv_def rq_rep_def queue_ready_def view_jobs_def)
qed

end
