(* ===== verification/RetrieveQueueProperties.thy ===== *)
theory RetrieveQueueProperties
  imports RetrieveQueueOps
begin

text \<open>
  The theorems on \<open>RetrieveQueue.cpp\<close> and \<open>RetrieveQueueShard.cpp\<close>, each with a concrete instance. The instances
  run on one small object store: a queue \<open>Q\<close> with a shard \<open>S\<close> of three jobs at the positions 10, 20 and 30 of
  the tape, held under its lock.
\<close>

section \<open>A concrete queue\<close>

definition smr_policy :: mount_policy where
  "smr_policy = mount_policy_default\<lparr>mp_name := ''mp'', mp_retrievePriority := 6, mp_retrieveMinRequestAge := 90\<rparr>"

definition smr_add :: "string \<Rightarrow> u64 \<Rightarrow> retrieve_job_to_add" where
  "smr_add address fSeq = \<lparr>rja_copyNb = 1, rja_fSeq = fSeq, rja_retrieveRequestAddress = address, rja_fileSize = 100,
     rja_policy = smr_policy, rja_startTime = 100, rja_activity = Some ''reco'', rja_diskSystemName = None\<rparr>"

abbreviation "smr_job address fSeq \<equiv> rqs_job_pointer (smr_add address fSeq)"

definition smr_view :: rq_view where
  "smr_view = [(''S'', [smr_job ''R1'' 10, smr_job ''R2'' 20, smr_job ''R3'' 30])]"

definition smr_payload :: retrieve_queue where
  "smr_payload = rq_empty\<lparr>rq_vid := ''V1'', rq_retrievequeueshards := map rq_pointer_of smr_view, rq_prioritymap := [(6, 3)],
     rq_minretrieverequestagemap := [(90, 3)], rq_mountpolicynamemap := [(''mp'', 3)], rq_activity_map := [(''reco'', 3)],
     rq_retrievejobstotalsize := 300, rq_retrievejobscount := 3, rq_oldestjobcreationtime := 100,
     rq_youngestjobcreationtime := 100, rq_maxshardsize := 3\<rparr>"

definition smr_queue :: "retrieve_queue oo" where
  "smr_queue = held_image ''Q'' smr_payload"

definition smr_header :: "payload \<Rightarrow> object_header" where
  "smr_header p = \<lparr>oh_version = 0, oh_owner = '''', oh_backupowner = '''', oh_payload = p\<rparr>"

definition smr_world :: world where
  "smr_world = \<lparr>objects = [''Q'' \<mapsto> smr_header (Payload_RetrieveQueue smr_payload),
                          ''S'' \<mapsto> smr_header (Payload_RetrieveQueueShard (rq_shard_of (snd (hd smr_view))))],
     lockFiles = (\<lambda>n. n \<in> {''Q'', ''S''}), agentAddress = ''agent'', nextIdCounter = 0\<rparr>"

lemma smr_fresh: "fresh_ids smr_world k"
proof -
  have "childId ct a n \<noteq> [c]" for ct a n c
  proof -
    have "CHR ''-'' \<in> set (childId ct a n)" "length (childId ct a n) > 1" by (simp_all add: childId_def)
    then show ?thesis by auto
  qed
  then show ?thesis by (simp add: fresh_ids_def smr_world_def)
qed

lemma smr_inv: "rq_inv smr_world smr_queue smr_view"
proof -
  have "queue_ready smr_world smr_queue (fst ` set smr_view)"
    by (simp add: queue_ready_def smr_queue_def vfs_exists_def smr_world_def smr_view_def)
  moreover have "rq_rep smr_payload smr_view"
    by (simp add: rq_rep_def rq_sums_def rq_maps_def activities_def smr_payload_def represents_def smr_view_def
        rqs_job_pointer_def smr_add_def smr_policy_def rq_empty_def)
  moreover have "rq_store smr_world smr_view"
    by (simp add: rq_store_def smr_world_def smr_view_def stored_def smr_header_def retrieve_queue_shard_codec_def)
  ultimately show ?thesis by (simp add: rq_inv_def smr_queue_def)
qed

lemma smr_shape: "rq_shape smr_view"
  by (simp add: rq_shape_def smr_view_def rqs_job_pointer_def smr_add_def)

lemma smr_room: "rq_room 3 1 smr_view"
  by (simp add: rq_room_def smr_view_def rqs_job_pointer_def smr_add_def word_less_nat_alt unsigned_minus_1_eq_mask mask_eq_exp_minus_1)

section \<open>Adding jobs\<close>

text \<open>
  C25. \<open>addJobsAndCommit\<close> of the retrieve queue, on a queue in agreement with its shards whose shards have the
  room: it always succeeds, plans the jobs into the shards, splits the full ones, and the queue then holds
  exactly the old and the new jobs, again in agreement with its shards (the counters, the number of jobs,
  their size and their range of positions in every shard pointer), each shard sorted by position and the
  shards in the order of the positions. The new queue object is in the store, and nothing else there
  changed but the shards.
\<close>
theorem rq_addJobsAndCommit_adds:
  assumes "rq_inv w ob v" and "rq_shape v" and "rq_room (unat m) (length jobs) v"
    and "\<forall>j \<in> set jobs. rja_fSeq j < - 1" and "length (view_jobs v) + length jobs < 2 ^ 64" and "fresh_ids w (length jobs)"
  shows "\<exists>w' ob' v'. rq_addJobsAndCommit m jobs ob w = (Inr ob', w') \<and> rq_inv w' ob' v' \<and> rq_shape v'
    \<and> mset (view_jobs v') = mset (view_jobs v) + mset (map rqs_job_pointer jobs)
    \<and> fseq_sorted (view_jobs v')
    \<and> (jobs \<noteq> [] \<longrightarrow> objects w' (oo_name ob) = Some (oo_header rq_c ob'))
    \<and> same_except (insert (oo_name ob) (fst ` set v')) w w'"
  using rq_addJobsAndCommit_rep [OF assms] by (auto dest: rq_shape_sorted)

theorem rq_addJobsAndCommit_adds_witness:
  "\<exists>w' ob' v'. rq_addJobsAndCommit 3 [smr_add ''R4'' 15] smr_queue smr_world = (Inr ob', w') \<and> rq_inv w' ob' v'
    \<and> mset (view_jobs v') = {#smr_job ''R1'' 10, smr_job ''R2'' 20, smr_job ''R3'' 30, smr_job ''R4'' 15#}
    \<and> fseq_sorted (view_jobs v') \<and> objects w' ''Q'' = Some (oo_header rq_c ob')"
proof -
  let ?js = "[smr_add ''R4'' 15]"
  have pre: "rq_room (unat (3 :: u64)) (length ?js) smr_view" "\<forall>j \<in> set ?js. rja_fSeq j < - 1"
    "length (view_jobs smr_view) + length ?js < 2 ^ 64"
    using smr_room by (simp_all add: smr_add_def word_less_nat_alt unsigned_minus_1_eq_mask mask_eq_exp_minus_1) (simp_all add: smr_view_def)
  obtain w' ob' v' where "rq_addJobsAndCommit 3 ?js smr_queue smr_world = (Inr ob', w')" "rq_inv w' ob' v'"
    "mset (view_jobs v') = mset (view_jobs smr_view) + mset (map rqs_job_pointer ?js)" "fseq_sorted (view_jobs v')"
    "?js \<noteq> [] \<longrightarrow> objects w' (oo_name smr_queue) = Some (oo_header rq_c ob')"
    using rq_addJobsAndCommit_adds [OF smr_inv smr_shape pre smr_fresh] by (elim exE conjE)
  then show ?thesis
    by (intro exI [of _ w'] exI [of _ ob'] exI [of _ v']) (simp add: smr_view_def smr_queue_def)
qed

text \<open>
  C26. The plan of an addition, for any shard pointers, even incoherent ones, any maximal size and any jobs: it
  always comes to an end with a plan, in which every job is planned exactly once, every existing shard
  appears exactly once and in its order, and the entries carry consecutive indexes.
\<close>
theorem rq_plan_total:
  "\<exists>sfas. rq_plan m sps js = Inr sfas
     \<and> mset (concat (map sfa_jobsToAdd sfas)) = mset js
     \<and> map sfa_address (filter (\<lambda>s. \<not> sfa_newShard s) sfas) = map rqsp_address sps
     \<and> map sfa_shardIndex sfas = map of_nat [0..<length sfas]"
  using rq_plan_conserves [of m sps js] by (simp add: plan_old_def mset_concat comp_def)

section \<open>A shard\<close>

text \<open>
  C27. The bisection that looks for the place of the first job to add ends on every shard, sorted or not, and on
  a sorted shard finds exactly the number of jobs beyond that place; the addition of a batch then always
  gives a sorted shard with the old and the new jobs and their total size, whichever way it is done.
\<close>
theorem rqs_addJobsBatch_sorted:
  assumes "checkPayloadWritable ob = Inr ()" and "fseq_sorted (rqs_retrievejobs (oo_payload ob))"
  shows "(\<forall>fs limit. \<exists>n. rqs_find_Np fs limit = Some n)
    \<and> (\<forall>limit. rqs_find_Np (map rjp_fseq (rqs_retrievejobs (oo_payload ob))) limit
          = Some (length (filter (\<lambda>j. limit < rjp_fseq j) (rqs_retrievejobs (oo_payload ob)))))
    \<and> (\<exists>p'. rqs_addJobsBatch js ob = Inr (ob\<lparr>oo_payload := p'\<rparr>) \<and> fseq_sorted (rqs_retrievejobs p')
        \<and> mset (rqs_retrievejobs p') = mset (rqs_retrievejobs (oo_payload ob)) + mset (map rqs_job_pointer js)
        \<and> rqs_retrievejobstotalsize p' = rqs_retrievejobstotalsize (oo_payload ob) + (\<Sum>j\<leftarrow>js. rja_fileSize j))"
  using rqs_addJobsBatch_added [OF assms, of js] rqs_find_Np_sorted [OF assms(2)] rqs_find_Np_terminates
  by (simp add: rqs_added_def filter_map comp_def)

definition smr_shard :: "retrieve_queue_shard oo" where
  "smr_shard = held_image ''S'' (rq_shard_of (snd (hd smr_view)))"

lemma smr_shard_ready:
  "checkPayloadWritable smr_shard = Inr ()" "fseq_sorted (rqs_retrievejobs (oo_payload smr_shard))"
  by (simp_all add: smr_shard_def check_defs held_image_def rq_shard_of_def smr_view_def rqs_job_pointer_def smr_add_def)

theorem rqs_addJobsBatch_sorted_witness:
  "\<exists>p'. rqs_addJobsBatch [smr_add ''R4'' 15] smr_shard = Inr (smr_shard\<lparr>oo_payload := p'\<rparr>)
     \<and> fseq_sorted (rqs_retrievejobs p') \<and> rqs_retrievejobstotalsize p' = 400"
  using rqs_addJobsBatch_sorted [OF smr_shard_ready, of "[smr_add ''R4'' 15]"]
  by (auto simp: smr_shard_def held_image_def rq_shard_of_def smr_view_def rqs_job_pointer_def smr_add_def)

text \<open>
  C28. The two ways to add a batch to a shard, one job after the other with swaps or through an ordered copy,
  give the same shard when no two jobs are at the same position, so the estimate of their costs decides
  nothing but the time it takes.
\<close>
theorem rqs_addJobs_equivalent:
  assumes "checkPayloadWritable ob = Inr ()" and "fseq_sorted (rqs_retrievejobs (oo_payload ob))"
    and "distinct (map rjp_fseq (rqs_retrievejobs (oo_payload ob)) @ map rja_fSeq js)"
  shows "rqs_addJobsInPlace js ob = rqs_addJobsThroughCopy js ob \<and> rqs_addJobsBatch js ob = rqs_addJobsThroughCopy js ob"
proof -
  obtain p1 where p1: "rqs_addJobsInPlace js ob = Inr (ob\<lparr>oo_payload := p1\<rparr>)" "rqs_added (oo_payload ob) js p1"
    using rqs_addJobsInPlace_added [OF assms(1,2), of js] by (elim exE conjE)
  obtain p2 where p2: "rqs_addJobsThroughCopy js ob = Inr (ob\<lparr>oo_payload := p2\<rparr>)" "rqs_added (oo_payload ob) js p2"
    using rqs_addJobsThroughCopy_added [OF assms(1), of js] by (elim exE conjE)
  obtain p3 where p3: "rqs_addJobsBatch js ob = Inr (ob\<lparr>oo_payload := p3\<rparr>)" "rqs_added (oo_payload ob) js p3"
    using rqs_addJobsBatch_added [OF assms(1,2), of js] by (elim exE conjE)
  from rqs_added_unique [OF p1(2) p2(2) assms(3)] rqs_added_unique [OF p3(2) p2(2) assms(3)] p1(1) p2(1) p3(1)
  show ?thesis by simp
qed

theorem rqs_addJobs_equivalent_witness:
  "rqs_addJobsInPlace [smr_add ''R4'' 15] smr_shard = rqs_addJobsThroughCopy [smr_add ''R4'' 15] smr_shard"
proof -
  have "distinct (map rjp_fseq (rqs_retrievejobs (oo_payload smr_shard)) @ map rja_fSeq [smr_add ''R4'' 15])"
    by (simp add: smr_shard_def held_image_def rq_shard_of_def smr_view_def rqs_job_pointer_def smr_add_def)
  from rqs_addJobs_equivalent [OF smr_shard_ready this] show ?thesis by simp
qed

section \<open>A shard that cannot be split\<close>

text \<open>The plan for one more job at the only position of a full shard.\<close>

lemma rq_plan_full_shard:
  assumes js: "\<forall>k \<in> set js. rjp_fseq k = f" "js \<noteq> []" and full: "m \<le> of_nat (length js)" and f: "f < - 1"
    and j: "rja_fSeq j = f"
  shows "\<exists>s t. rq_plan m (map rq_pointer_of [(a, js)]) [j] = Inr [s, t] \<and> sfa_newShard s \<and> sfa_fromSplit s \<and> sfa_shardIndex s = 0
    \<and> sfa_splitSource s = Some (sfa_id t) \<and> sfa_id s \<noteq> sfa_id t \<and> sfa_jobsToAdd s = [j] \<and> sfa_minFseq s = f \<and> sfa_maxFseq s = f
    \<and> \<not> sfa_newShard t \<and> \<not> sfa_fromSplit t \<and> sfa_address t = a \<and> sfa_shardIndex t = 1 \<and> sfa_jobsToAdd t = []"
proof -
  have hd: "rjp_fseq (hd js) = f" "rjp_fseq (last js) = f" using js by simp_all
  have "\<not> f + 1 \<le> f" using f by (auto simp: inc_less_eq_self_iff_eq)
  then show ?thesis
    using full hd j
    by (simp add: rq_plan_def rq_initial_plan_def rq_pointer_of_def sfa_of_pointer_def sfa_new_def Let_def rq_plan_job_def
        find_shard.simps addJobToShardAndMaybeSplit_def sfa_split_def sfa_add_job_def updateShardLimits_def enumerate_eq_zip not_less)
qed

text \<open>
  C29. A shard whose jobs are all at the same position cannot be split. On a queue in agreement with its only shard, which is full
  (it has as many jobs as a shard may have, or more) with the jobs of distinct requests at one position (below the last
  one, \<open>2 ^ 64 - 1\<close>), the addition of one job at that position moves all jobs to a new shard, with a name not
  in use, and then reads the first job of the shard that is left empty. The access is out of
  bounds; by then the new shard, with all the jobs and the added one, and the empty shard have been written to the store.
\<close>
theorem rq_split_same_position:
  assumes inv: "rq_inv w ob [(a, js)]" and js: "\<forall>k \<in> set js. rjp_fseq k = f" "js \<noteq> []" "distinct (map rjp_address js)"
    and full: "m \<le> of_nat (length js)" and f: "f < - 1" "rja_fSeq j = f"
    and bound: "length js + 1 < 2 ^ 64" and fresh: "fresh_ids w 1"
  shows "\<exists>w' js'. rq_addJobsAndCommit m [j] ob w = (Inl Segfault, w')
    \<and> mset js' = mset js + {#rqs_job_pointer j#} \<and> stored rqs_c w' (rq_next_name ob w) (rq_shard_of js') \<and> stored rqs_c w' a (rq_shard_of [])"
proof -
  obtain s t where p: "rq_plan m (map rq_pointer_of [(a, js)]) [j] = Inr [s, t]" "sfa_newShard s" "sfa_fromSplit s" "sfa_shardIndex s = 0"
    "sfa_splitSource s = Some (sfa_id t)" "sfa_id s \<noteq> sfa_id t" "sfa_jobsToAdd s = [j]" "sfa_minFseq s = f" "sfa_maxFseq s = f"
    "\<not> sfa_newShard t" "\<not> sfa_fromSplit t" "sfa_address t = a" "sfa_shardIndex t = 1" "sfa_jobsToAdd t = []"
    using rq_plan_full_shard [OF js(1,2) full f, of a] by (elim exE conjE)
  have all: "filter (in_range s) js = js" "filter (\<lambda>k. \<not> in_range s k) js = []"
    using js(1) p(8,9) by (simp_all add: filter_id_conv filter_empty_conv)
  have b: "\<not> lockFiles w (rq_next_name ob w)" "objects w (rq_next_name ob w) = None"
    using fresh_ids_next [of w 0] fresh by simp_all
  have src: "List.find (\<lambda>x. sfa_splitSource s = Some (sfa_id x)) [s, t] = Some t" using p(5,6) by simp
  have inv1: "rq_inv w ob ([] @ (a, js) # [])" using inv by simp
  have idx: "unat (sfa_shardIndex s) = length ([] :: rq_view)" "unat (sfa_shardIndex t) = Suc (length ([] :: rq_view))"
    and sums: "length (view_jobs ([] @ (a, js) # [])) + length (sfa_jobsToAdd s) < 2 ^ 64"
    and ne: "filter (in_range s) js \<noteq> [] \<or> sfa_jobsToAdd s \<noteq> []" using p(4,7,13) bound by simp_all
  obtain w1 ob1 js1 sp where r: "rq_execute_shard [s, t] ob s w = (Inr ob1, w1)" "mset js1 = mset (filter (in_range s) js) + planned s"
    "held ob1" "rq_retrievequeueshards (oo_payload ob1) = map rq_pointer_of ([] @ [(rq_next_name ob w, js1)]) @ sp # map rq_pointer_of []"
    "rq_store w1 (([] @ [(rq_next_name ob w, js1)]) @ [])" "stored rqs_c w1 a (rq_shard_of (filter (\<lambda>k. \<not> in_range s k) js))"
    using rq_execute_split [OF inv1 refl b idx(1) p(2,3) src p(12) idx(2) sums js(3) ne] by (elim exE conjE)
  have run: "rq_execute_shard [s, t] ob1 t w1 = (Inl Segfault, w1)"
    by (rule rq_execute_empty [OF r(3) p(10,12,14)]) (use r(4,6) p(13) all(2) in simp_all)
  have "held ob" "rq_retrievequeueshards (oo_payload ob) = map rq_pointer_of [(a, js)]"
    using inv by (simp_all add: rq_inv_def queue_ready_def rq_rep_def)
  with p(1) r(1) run have "rq_addJobsAndCommit m [j] ob w = (Inl Segfault, w1)" by (simp add: rq_addJobsAndCommit_def)
  with r(2,5,6) p(7) all show ?thesis
    by (intro exI [of _ w1] exI [of _ js1]) (simp add: rq_store_def)
qed

definition smr_flat_view :: rq_view where
  "smr_flat_view = [(''S'', [smr_job ''R1'' 10, smr_job ''R2'' 10])]"

definition smr_flat_queue :: "retrieve_queue oo" where
  "smr_flat_queue = held_image ''Q'' (smr_payload\<lparr>rq_retrievequeueshards := map rq_pointer_of smr_flat_view,
     rq_prioritymap := [(6, 2)], rq_minretrieverequestagemap := [(90, 2)], rq_mountpolicynamemap := [(''mp'', 2)],
     rq_activity_map := [(''reco'', 2)], rq_retrievejobstotalsize := 200, rq_retrievejobscount := 2\<rparr>)"

definition smr_flat_world :: world where
  "smr_flat_world = smr_world\<lparr>objects := [''Q'' \<mapsto> smr_header (Payload_RetrieveQueue (oo_payload smr_flat_queue)),
     ''S'' \<mapsto> smr_header (Payload_RetrieveQueueShard (rq_shard_of (snd (hd smr_flat_view))))]\<rparr>"

lemma smr_flat_inv: "rq_inv smr_flat_world smr_flat_queue smr_flat_view"
proof -
  have "queue_ready smr_flat_world smr_flat_queue (fst ` set smr_flat_view)"
    by (simp add: queue_ready_def smr_flat_queue_def vfs_exists_def smr_flat_world_def smr_world_def smr_flat_view_def)
  moreover have "rq_rep (oo_payload smr_flat_queue) smr_flat_view"
    by (simp add: rq_rep_def rq_sums_def rq_maps_def activities_def smr_flat_queue_def held_image_def smr_payload_def
        represents_def smr_flat_view_def rqs_job_pointer_def smr_add_def smr_policy_def rq_empty_def)
  moreover have "rq_store smr_flat_world smr_flat_view"
    by (simp add: rq_store_def smr_flat_world_def smr_world_def smr_flat_view_def stored_def smr_header_def retrieve_queue_shard_codec_def)
  ultimately show ?thesis by (simp add: rq_inv_def)
qed

theorem rq_split_same_position_witness:
  "\<exists>w'. rq_addJobsAndCommit 2 [smr_add ''R3'' 10] smr_flat_queue smr_flat_world = (Inl Segfault, w')
     \<and> stored rqs_c w' ''S'' (rq_shard_of [])"
proof -
  let ?js = "snd (hd smr_flat_view)"
  have inv: "rq_inv smr_flat_world smr_flat_queue [(''S'', ?js)]" using smr_flat_inv by (simp add: smr_flat_view_def)
  have js: "\<forall>k \<in> set ?js. rjp_fseq k = 10" "?js \<noteq> []" "distinct (map rjp_address ?js)" "(2 :: u64) \<le> of_nat (length ?js)"
    "(10 :: u64) < - 1" "rja_fSeq (smr_add ''R3'' 10) = 10" "length ?js + 1 < 2 ^ 64"
    by (simp_all add: smr_flat_view_def rqs_job_pointer_def smr_add_def word_less_nat_alt unsigned_minus_1_eq_mask mask_eq_exp_minus_1)
  have fresh: "fresh_ids smr_flat_world 1" using smr_fresh [of 1] by (simp add: fresh_ids_def smr_flat_world_def smr_world_def)
  from rq_split_same_position [OF inv js fresh] show ?thesis by blast
qed

section \<open>Candidates\<close>

text \<open>
  C30. \<open>getCandidateList\<close> of the retrieve queue returns the shortest prefix of the queue, in the order of the tape
  and across its shards, that reaches one of the limits (or all of it), leaving out the requests to skip and
  the jobs for the disk systems to skip; the numbers it returns are those of that prefix and of the rest.
\<close>
theorem rq_getCandidateList_prefix:
  assumes "rq_inv w ob v" and "fits rjp_size (view_jobs v)"
  shows "\<exists>pre post. view_jobs v = pre @ post
    \<and> stops_at (limit_reached (rqs_skipped skip disks) rjp_size maxBytes maxFiles 0 0) pre post
    \<and> rq_getCandidateList maxBytes maxFiles skip disks ob w
        = (Inr (candidates_of (rqs_skipped skip disks) rjp_size rqs_job_dump pre post), w)"
  using assms by (rule rq_getCandidateList_rep)

theorem rq_getCandidateList_prefix_witness:
  "\<exists>pre post. view_jobs smr_view = pre @ post
    \<and> stops_at (limit_reached (rqs_skipped {''R2''} {''full''}) rjp_size 1000 1 0 0) pre post
    \<and> rq_getCandidateList 1000 1 {''R2''} {''full''} smr_queue smr_world
        = (Inr (candidates_of (rqs_skipped {''R2''} {''full''}) rjp_size rqs_job_dump pre post), smr_world)"
proof -
  have "fits rjp_size (view_jobs smr_view)" by (simp add: fits_def smr_view_def smr_add_def rqs_job_pointer_def)
  from rq_getCandidateList_prefix [OF smr_inv this] show ?thesis by blast
qed

end
