(* ===== verification/Agent.thy ===== *)
theory Agent
  imports ObjectOps "HOL-Library.Char_ord" "HOL-Library.List_Lexorder"
begin

text \<open>
  \<open>objectstore/Agent.cpp\<close>, \<open>AgentRegister.cpp\<close>, \<open>AgentReference.cpp\<close> and \<open>AgentWatchdog.hpp\<close>: every process is an
  agent, whose object lists the objects the process owns or is about to own and carries a heartbeat. The
  threads of a process change the list through the agent reference, which gathers their demands in batches.
  The watchdogs of other processes look at the heartbeats. The helpers on repeated fields of
  \<open>ProtocolBuffersAlgorithms.hpp\<close> come first. The registration of an agent needs the root entry and is in
  \<open>RootEntry\<close>.
\<close>

section \<open>Repeated fields\<close>

text \<open>
  \<open>removeOccurences\<close>: as long as there is a matching element, the first one is swapped with the last one and
  dropped.
\<close>

function removeOccurences :: "('a \<Rightarrow> bool) \<Rightarrow> 'a list \<Rightarrow> 'a list" where
  "removeOccurences P xs =
     (let i = find_index P xs
      in if i < length xs then removeOccurences P (swap_with_last_and_drop i xs) else xs)"
  by pat_completeness auto
termination
  by (relation "measure (\<lambda>(P, xs). length xs)") (auto simp: swap_with_last_and_drop_def)

declare removeOccurences.simps [simp del]

definition removeString :: "string list \<Rightarrow> string \<Rightarrow> string list" where
  "removeString field v = removeOccurences (\<lambda>x. v = x) field"

definition findString :: "string list \<Rightarrow> string \<Rightarrow> exn + nat" where
  "findString field v =
     (let i = find_index (\<lambda>x. v = x) field in if i < length field then Inr i else Inl SerializersNotFound)"

definition findElement :: "('a \<Rightarrow> bool) \<Rightarrow> 'a list \<Rightarrow> exn + 'a" where
  "findElement P field =
     (case List.find P field of None \<Rightarrow> Inl SerializersNotFound | Some x \<Rightarrow> Inr x)"

lemma mset_removeOccurences: "mset (removeOccurences P xs) = filter_mset (\<lambda>x. \<not> P x) (mset xs)"
proof (induction P xs rule: removeOccurences.induct)
  case (1 P xs)
  let ?i = "find_index P xs"
  show ?case
  proof (cases "?i < length xs")
    case True
    define us x vs where "us = take ?i xs" and "x = xs ! ?i" and "vs = drop (Suc ?i) xs"
    have xs: "us @ x # vs = xs" "length us = ?i" "P x"
      using list_split_at [OF True] find_index_nth [OF True] True by (simp_all add: us_def x_def vs_def)
    have rest: "mset (swap_with_last_and_drop ?i xs) = mset us + mset vs"
      using mset_swap_with_last_and_drop [of us x vs] unfolding xs(1,2) .
    have all: "mset xs = add_mset x (mset us + mset vs)" by (simp flip: xs(1))
    show ?thesis
      unfolding removeOccurences.simps [of P xs] Let_def if_P [OF True] "1.IH" [OF refl True] rest all using xs(3) by simp
  next
    case False
    then have "\<forall>x \<in> set xs. \<not> P x" by (simp add: find_index_less)
    with False show ?thesis by (simp add: removeOccurences.simps [of P xs] Let_def flip: mset_filter)
  qed
qed

lemma set_removeOccurences [simp]: "set (removeOccurences P xs) = {x \<in> set xs. \<not> P x}"
  using arg_cong [OF mset_removeOccurences, of set_mset P xs] by simp

section \<open>The agent object\<close>

abbreviation "ag_c \<equiv> agent_codec"
abbreviation "agr_c \<equiv> agent_register_codec"

definition ag_empty :: agent where
  "ag_empty = \<lparr>ag_description = '''', ag_heartbeat = 0, ag_timeout_us = 0, ag_ownedobjects = [],
     ag_being_garbage_collected = False, ag_gc_needed = None\<rparr>"

definition ag_at :: "string \<Rightarrow> exn + agent oo" where
  "ag_at name = setAddress name (oo_new ag_empty)"

definition ag_initialize :: "agent oo \<Rightarrow> exn + agent oo" where
  "ag_initialize ob = rbind (oo_initialize ob) (\<lambda>ob1.
     Inr (ob1\<lparr>oo_payload := (oo_payload ob1)\<lparr>ag_heartbeat := 0, ag_timeout_us := 120 * 1000 * 1000, ag_description := '''',
            ag_being_garbage_collected := False, ag_gc_needed := Some False\<rparr>,
          oo_payloadInterpreted := True\<rparr>))"

definition ag_isEmpty :: "agent oo \<Rightarrow> exn + bool" where
  "ag_isEmpty ob = rbind (checkPayloadReadable ob) (\<lambda>_. Inr (ag_ownedobjects (oo_payload ob) = []))"

definition ag_isBeingGarbageCollected :: "agent oo \<Rightarrow> exn + bool" where
  "ag_isBeingGarbageCollected ob = rbind (checkPayloadReadable ob) (\<lambda>_. Inr (ag_being_garbage_collected (oo_payload ob)))"

definition ag_setBeingGarbageCollected :: "agent oo \<Rightarrow> exn + agent oo" where
  "ag_setBeingGarbageCollected ob = rbind (checkPayloadWritable ob) (\<lambda>_.
     Inr (ob\<lparr>oo_payload := (oo_payload ob)\<lparr>ag_being_garbage_collected := True\<rparr>\<rparr>))"

definition ag_setNeedsGarbageCollection :: "agent oo \<Rightarrow> exn + agent oo" where
  "ag_setNeedsGarbageCollection ob = rbind (checkPayloadWritable ob) (\<lambda>_.
     Inr (ob\<lparr>oo_payload := (oo_payload ob)\<lparr>ag_gc_needed := Some True\<rparr>\<rparr>))"

definition ag_needsGarbageCollection :: "agent oo \<Rightarrow> exn + bool" where
  "ag_needsGarbageCollection ob = rbind (checkPayloadReadable ob) (\<lambda>_.
     Inr (case ag_gc_needed (oo_payload ob) of None \<Rightarrow> False | Some b \<Rightarrow> b))"

definition ag_addToOwnership :: "string \<Rightarrow> agent oo \<Rightarrow> exn + agent oo" where
  "ag_addToOwnership name ob = rbind (checkPayloadWritable ob) (\<lambda>_.
     Inr (ob\<lparr>oo_payload := (oo_payload ob)\<lparr>ag_ownedobjects := ag_ownedobjects (oo_payload ob) @ [name]\<rparr>\<rparr>))"

definition ag_removeFromOwnership :: "string \<Rightarrow> agent oo \<Rightarrow> exn + agent oo" where
  "ag_removeFromOwnership name ob = rbind (checkPayloadWritable ob) (\<lambda>_.
     Inr (ob\<lparr>oo_payload := (oo_payload ob)\<lparr>ag_ownedobjects := removeString (ag_ownedobjects (oo_payload ob)) name\<rparr>\<rparr>))"

definition ag_getOwnershipList :: "agent oo \<Rightarrow> exn + string list" where
  "ag_getOwnershipList ob = rbind (checkPayloadReadable ob) (\<lambda>_. Inr (ag_ownedobjects (oo_payload ob)))"

definition ag_getOwnershipSet :: "agent oo \<Rightarrow> exn + string set" where
  "ag_getOwnershipSet ob = rbind (checkPayloadReadable ob) (\<lambda>_. Inr (set (ag_ownedobjects (oo_payload ob))))"

text \<open>A \<open>std::set\<close> is walked in the order of its elements.\<close>

definition ag_resetOwnership :: "string set \<Rightarrow> agent oo \<Rightarrow> exn + agent oo" where
  "ag_resetOwnership ownershipSet ob = rbind (checkPayloadWritable ob) (\<lambda>_.
     Inr (ob\<lparr>oo_payload := (oo_payload ob)\<lparr>ag_ownedobjects := sorted_list_of_set ownershipSet\<rparr>\<rparr>))"

definition ag_getOwnershipListSize :: "agent oo \<Rightarrow> exn + nat" where
  "ag_getOwnershipListSize ob = rbind (checkPayloadReadable ob) (\<lambda>_. Inr (length (ag_ownedobjects (oo_payload ob))))"

definition ag_bumpHeartbeat :: "agent oo \<Rightarrow> exn + agent oo" where
  "ag_bumpHeartbeat ob = rbind (checkPayloadWritable ob) (\<lambda>_.
     Inr (ob\<lparr>oo_payload := (oo_payload ob)\<lparr>ag_heartbeat := ag_heartbeat (oo_payload ob) + 1\<rparr>\<rparr>))"

definition ag_getHeartbeatCount :: "agent oo \<Rightarrow> exn + u64" where
  "ag_getHeartbeatCount ob = rbind (checkPayloadReadable ob) (\<lambda>_. Inr (ag_heartbeat (oo_payload ob)))"

text \<open>The timeout, here in microseconds; the source returns it in seconds as a \<open>double\<close>.\<close>

definition ag_getTimeout :: "agent oo \<Rightarrow> exn + u64" where
  "ag_getTimeout ob = rbind (checkPayloadReadable ob) (\<lambda>_. Inr (ag_timeout_us (oo_payload ob)))"

definition ag_setTimeout_us :: "u64 \<Rightarrow> agent oo \<Rightarrow> exn + agent oo" where
  "ag_setTimeout_us timeout ob = rbind (checkPayloadWritable ob) (\<lambda>_.
     Inr (ob\<lparr>oo_payload := (oo_payload ob)\<lparr>ag_timeout_us := timeout\<rparr>\<rparr>))"

section \<open>The agent register\<close>

definition agr_empty :: agent_register where
  "agr_empty = \<lparr>agr_agents = [], agr_untrackedagents = []\<rparr>"

definition agr_at :: "string \<Rightarrow> exn + agent_register oo" where
  "agr_at name = setAddress name (oo_new agr_empty)"

definition agr_initialize :: "agent_register oo \<Rightarrow> exn + agent_register oo" where
  "agr_initialize ob = rbind (oo_initialize ob) (\<lambda>ob1. Inr (ob1\<lparr>oo_payloadInterpreted := True\<rparr>))"

definition agr_isEmpty :: "agent_register oo \<Rightarrow> exn + bool" where
  "agr_isEmpty ob = rbind (checkPayloadReadable ob) (\<lambda>_.
     Inr (agr_untrackedagents (oo_payload ob) = [] \<and> agr_agents (oo_payload ob) = []))"

definition agr_garbageCollect :: "agent_register oo \<Rightarrow> (world, agent_register oo) prog" where
  "agr_garbageCollect ob =
     bnd (liftr (checkPayloadWritable ob)) (\<lambda>_.
     bnd (liftr (agr_isEmpty ob)) (\<lambda>empty.
     if \<not> empty then throw NotEmpty else oo_remove ob))"

definition agr_addAgent :: "string \<Rightarrow> agent_register oo \<Rightarrow> exn + agent_register oo" where
  "agr_addAgent name ob = rbind (checkPayloadWritable ob) (\<lambda>_.
     Inr (ob\<lparr>oo_payload := (oo_payload ob)\<lparr>agr_agents := agr_agents (oo_payload ob) @ [name],
            agr_untrackedagents := agr_untrackedagents (oo_payload ob) @ [name]\<rparr>\<rparr>))"

text \<open>\<open>removeAgent\<close> checks that the payload is readable only.\<close>

definition agr_removeAgent :: "string \<Rightarrow> agent_register oo \<Rightarrow> exn + agent_register oo" where
  "agr_removeAgent name ob = rbind (checkPayloadReadable ob) (\<lambda>_.
     Inr (ob\<lparr>oo_payload := (oo_payload ob)\<lparr>agr_agents := removeString (agr_agents (oo_payload ob)) name,
            agr_untrackedagents := removeString (agr_untrackedagents (oo_payload ob)) name\<rparr>\<rparr>))"

definition agr_trackAgent :: "string \<Rightarrow> agent_register oo \<Rightarrow> exn + agent_register oo" where
  "agr_trackAgent name ob = rbind (checkPayloadWritable ob) (\<lambda>_.
     rbind (findString (agr_agents (oo_payload ob)) name) (\<lambda>_.
     Inr (ob\<lparr>oo_payload := (oo_payload ob)\<lparr>agr_untrackedagents := removeString (agr_untrackedagents (oo_payload ob)) name\<rparr>\<rparr>)))"

definition agr_untrackAgent :: "string \<Rightarrow> agent_register oo \<Rightarrow> exn + agent_register oo" where
  "agr_untrackAgent name ob = rbind (checkPayloadWritable ob) (\<lambda>_.
     rbind (findString (agr_agents (oo_payload ob)) name) (\<lambda>_.
     case findString (agr_untrackedagents (oo_payload ob)) name of
       Inl _ \<Rightarrow> Inr (ob\<lparr>oo_payload := (oo_payload ob)\<lparr>agr_untrackedagents := agr_untrackedagents (oo_payload ob) @ [name]\<rparr>\<rparr>)
     | Inr _ \<Rightarrow> Inr ob))"

definition agr_getAgents :: "agent_register oo \<Rightarrow> string list" where
  "agr_getAgents ob = agr_agents (oo_payload ob)"

definition agr_getUntrackedAgents :: "agent_register oo \<Rightarrow> string list" where
  "agr_getUntrackedAgents ob = agr_untrackedagents (oo_payload ob)"

section \<open>The watchdog\<close>

text \<open>
  \<open>AgentWatchdog.hpp\<close>: the watch a process keeps on the agent of another one. Times are microseconds, where
  the source has seconds as \<open>double\<close>; the time of a call is an argument, and the timer is the time it was
  last reset.
\<close>

record watchdog =
  wd_agent :: string
  wd_timer :: nat
  wd_heartbeatCounter :: u64
  wd_timeout :: nat

definition wd_readGCData :: "string \<Rightarrow> (world, u64 \<times> bool) prog" where
  "wd_readGCData name =
     bnd (liftr (ag_at name)) (\<lambda>ag.
     bnd (oo_fetchNoLock ag_c ag) (\<lambda>ag.
     bnd (liftr (ag_getHeartbeatCount ag)) (\<lambda>heartbeat.
     bnd (liftr (ag_needsGarbageCollection ag)) (\<lambda>needsGC.
     ret (heartbeat, needsGC)))))"

definition wd_new :: "string \<Rightarrow> nat \<Rightarrow> (world, watchdog) prog" where
  "wd_new name now =
     bnd (wd_readGCData name) (\<lambda>(heartbeat, needsGC).
     bnd (liftr (ag_at name)) (\<lambda>ag.
     bnd (oo_fetchNoLock ag_c ag) (\<lambda>ag.
     bnd (liftr (ag_getTimeout ag)) (\<lambda>timeout.
     ret \<lparr>wd_agent = name, wd_timer = now, wd_heartbeatCounter = heartbeat, wd_timeout = unat timeout\<rparr>))))"

definition wd_checkAlive :: "nat \<Rightarrow> watchdog \<Rightarrow> (world, bool \<times> watchdog) prog" where
  "wd_checkAlive now wd =
     bnd (catch_none NoSuchObject (wd_readGCData (wd_agent wd))) (\<lambda>data. case data of
       None \<Rightarrow> ret (True, wd)
     | Some (heartbeat, needsGC) \<Rightarrow>
         let timer = now - wd_timer wd
         in if needsGC then ret (False, wd)
            else if heartbeat = wd_heartbeatCounter wd \<and> timer > wd_timeout wd then ret (False, wd)
            else ret (True, if heartbeat \<noteq> wd_heartbeatCounter wd then wd\<lparr>wd_heartbeatCounter := heartbeat, wd_timer := now\<rparr> else wd))"

definition wd_checkExists :: "watchdog \<Rightarrow> (world, bool) prog" where
  "wd_checkExists wd = asks (vfs_exists (wd_agent wd))"

definition wd_setTimeout :: "nat \<Rightarrow> watchdog \<Rightarrow> watchdog" where
  "wd_setTimeout timeout wd = wd\<lparr>wd_timeout := timeout\<rparr>"

lemma wd_readGCData_stored:
  assumes "stored ag_c w a p"
  shows "wd_readGCData a w = (Inr (ag_heartbeat p, case ag_gc_needed p of None \<Rightarrow> False | Some b \<Rightarrow> b), w)"
proof -
  have a: "a \<noteq> []" and f: "oh_payload h = enc ag_c p" if "objects w a = Some h" for h
    using assms that by (auto simp: stored_def)
  obtain h where h: "objects w a = Some h" using assms by (auto simp: stored_def)
  show ?thesis using a [OF h] f [OF h] h
    by (simp add: wd_readGCData_def ag_at_def setAddress_new oo_defs vfs_read_def ag_getHeartbeatCount_def
        ag_needsGarbageCollection_def check_defs)
qed

text \<open>An agent that is there is declared dead when it asks for it or when it has not moved for too long.\<close>

lemma wd_checkAlive_stored:
  assumes "stored ag_c w (wd_agent wd) p"
  shows "\<exists>wd'. wd_checkAlive now wd w = (Inr (\<not> (ag_gc_needed p = Some True
      \<or> ag_heartbeat p = wd_heartbeatCounter wd \<and> wd_timeout wd < now - wd_timer wd), wd'), w)
    \<and> (ag_gc_needed p \<noteq> Some True \<longrightarrow> wd_heartbeatCounter wd' = ag_heartbeat p)"
  using wd_readGCData_stored [OF assms]
  by (auto simp: wd_checkAlive_def Let_def split: option.split)

lemma wd_checkAlive_gone:
  assumes "missing w (wd_agent wd)"
  shows "wd_checkAlive now wd w = (Inr (True, wd), w)"
proof -
  have "wd_readGCData (wd_agent wd) w = (Inl NoSuchObject, w)"
    using assms by (simp add: missing_def wd_readGCData_def ag_at_def setAddress_new oo_defs vfs_read_def)
  then show ?thesis by (simp add: wd_checkAlive_def)
qed

end
