(* ===== verification/AgentReference.thy ===== *)
theory AgentReference
  imports Agent
begin

text \<open>
  \<open>objectstore/AgentReference.cpp\<close>: the changes of the ownership list of the agent of the process, and its
  heartbeats, are actions; a batch of actions is applied to the agent object under its lock. The threads
  that call at the same time share batches: the first one opens a queue, waits for the batch before to be
  done, closes its queue and executes it for all. \<open>ref_execute\<close> is the execution, \<open>ref_step\<close> the passing of
  the queue and of the promises between the threads.
\<close>

section \<open>Actions\<close>

datatype AgentOperation = Op_Add | Op_Remove | Op_AddBatch | Op_RemoveBatch | Op_Heartbeat

record action =
  act_op :: AgentOperation
  act_objectAddress :: string
  act_objectAddressSet :: "string list"

definition ownerShipModifyingOperations :: "AgentOperation set" where
  "ownerShipModifyingOperations = {Op_Add, Op_Remove, Op_AddBatch, Op_RemoveBatch}"

definition appyAction :: "agent oo \<times> string set \<Rightarrow> action \<Rightarrow> exn + agent oo \<times> string set" where
  "appyAction = (\<lambda>(ag, ownershipSet) act. case act_op act of
     Op_Add \<Rightarrow> Inr (ag, insert (act_objectAddress act) ownershipSet)
   | Op_AddBatch \<Rightarrow> Inr (ag, fold insert (act_objectAddressSet act) ownershipSet)
   | Op_Remove \<Rightarrow> Inr (ag, ownershipSet - {act_objectAddress act})
   | Op_RemoveBatch \<Rightarrow> Inr (ag, fold (\<lambda>oa s. s - {oa}) (act_objectAddressSet act) ownershipSet)
   | Op_Heartbeat \<Rightarrow> rbind (ag_bumpHeartbeat ag) (\<lambda>ag1. Inr (ag1, ownershipSet)))"

text \<open>
  The execution of a batch, in the \<open>try\<close> block of \<open>queueAndExecuteAction\<close>: the action of the thread itself, then
  those of the other threads. An agent that is being garbage collected makes the process end with a
  segmentation fault.
\<close>

definition ref_execute :: "action \<Rightarrow> action list \<Rightarrow> (world, unit) prog" where
  "ref_execute act queue =
     bnd (asks getAgentAddress) (\<lambda>address.
     bnd (liftr (ag_at address)) (\<lambda>ag.
     bnd (exclusive_lock ag) (\<lambda>ag.
     bnd (oo_fetch ag_c ag) (\<lambda>ag.
     bnd (liftr (ag_isBeingGarbageCollected ag)) (\<lambda>beingGarbageCollected.
     if beingGarbageCollected then throw Segfault
     else let ownershipModification = (act_op act \<in> ownerShipModifyingOperations
                \<or> (\<exists>a \<in> set queue. act_op a \<in> ownerShipModifyingOperations))
          in bnd (liftr (if ownershipModification then ag_getOwnershipSet ag else Inr {})) (\<lambda>ownershipSet.
             bnd (liftr (appyAction (ag, ownershipSet) act)) (\<lambda>st.
             bnd (liftr (foldR appyAction st queue)) (\<lambda>(ag, ownershipSet).
             bnd (liftr (if ownershipModification then ag_resetOwnership ownershipSet ag else Inr ag)) (\<lambda>ag.
             oo_commit ag_c ag)))))))))"

definition action_add :: "string \<Rightarrow> action" where
  "action_add objectAddress = \<lparr>act_op = Op_Add, act_objectAddress = objectAddress, act_objectAddressSet = []\<rparr>"

definition action_add_batch :: "string list \<Rightarrow> action" where
  "action_add_batch objectAdresses = \<lparr>act_op = Op_AddBatch, act_objectAddress = '''', act_objectAddressSet = objectAdresses\<rparr>"

definition action_remove :: "string \<Rightarrow> action" where
  "action_remove objectAddress = \<lparr>act_op = Op_Remove, act_objectAddress = objectAddress, act_objectAddressSet = []\<rparr>"

definition action_remove_batch :: "string list \<Rightarrow> action" where
  "action_remove_batch objectAdresses = \<lparr>act_op = Op_RemoveBatch, act_objectAddress = '''', act_objectAddressSet = objectAdresses\<rparr>"

definition action_heartbeat :: action where
  "action_heartbeat = \<lparr>act_op = Op_Heartbeat, act_objectAddress = '''', act_objectAddressSet = []\<rparr>"

text \<open>The calls, as they run when no other thread calls: each is a batch of its own.\<close>

definition ref_addToOwnership :: "string \<Rightarrow> (world, unit) prog" where
  "ref_addToOwnership objectAddress = ref_execute (action_add objectAddress) []"

definition ref_addBatchToOwnership :: "string list \<Rightarrow> (world, unit) prog" where
  "ref_addBatchToOwnership objectAdresses = ref_execute (action_add_batch objectAdresses) []"

definition ref_removeFromOwnership :: "string \<Rightarrow> (world, unit) prog" where
  "ref_removeFromOwnership objectAddress = ref_execute (action_remove objectAddress) []"

definition ref_removeBatchFromOwnership :: "string list \<Rightarrow> (world, unit) prog" where
  "ref_removeBatchFromOwnership objectAdresses = ref_execute (action_remove_batch objectAdresses) []"

definition ref_bumpHeatbeat :: "(world, unit) prog" where
  "ref_bumpHeatbeat = ref_execute action_heartbeat []"

section \<open>What a batch does\<close>

text \<open>The actions one after the other, on a set of owned objects and on the heartbeat.\<close>

primrec owned_after1 :: "action \<Rightarrow> AgentOperation \<Rightarrow> string set \<Rightarrow> string set" where
  "owned_after1 act Op_Add s = insert (act_objectAddress act) s"
| "owned_after1 act Op_Remove s = s - {act_objectAddress act}"
| "owned_after1 act Op_AddBatch s = s \<union> set (act_objectAddressSet act)"
| "owned_after1 act Op_RemoveBatch s = s - set (act_objectAddressSet act)"
| "owned_after1 act Op_Heartbeat s = s"

definition owned_after :: "action list \<Rightarrow> string set \<Rightarrow> string set" where
  "owned_after acts s = fold (\<lambda>act. owned_after1 act (act_op act)) acts s"

definition beats :: "action list \<Rightarrow> nat" where
  "beats acts = length (filter (\<lambda>act. act_op act = Op_Heartbeat) acts)"

lemma owned_after_simps [simp]:
  "owned_after [] s = s" "owned_after (act # acts) s = owned_after acts (owned_after1 act (act_op act) s)"
  "owned_after (acts @ acts') s = owned_after acts' (owned_after acts s)"
  by (simp_all add: owned_after_def)

lemma beats_simps [simp]:
  "beats [] = 0" "beats (act # acts) = (if act_op act = Op_Heartbeat then Suc (beats acts) else beats acts)"
  "beats (acts @ acts') = beats acts + beats acts'"
  by (simp_all add: beats_def)

lemma fold_insert_set: "fold insert xs s = s \<union> set xs"
  by (induction xs arbitrary: s) auto

lemma fold_erase_set: "fold (\<lambda>oa s. s - {oa}) xs s = s - set xs"
  by (induction xs arbitrary: s) auto

lemma finite_owned_after1 [simp]: "finite s \<Longrightarrow> finite (owned_after1 act opn s)"
  by (cases opn) simp_all

lemma finite_owned_after [simp]: "finite s \<Longrightarrow> finite (owned_after acts s)"
  by (induction acts arbitrary: s) simp_all

lemma owned_after_unmodified: "\<forall>act \<in> set acts. act_op act \<notin> ownerShipModifyingOperations \<Longrightarrow> owned_after acts s = s"
proof (induction acts arbitrary: s)
  case (Cons act acts)
  have "act_op act = Op_Heartbeat" using Cons.prems by (cases "act_op act") (simp_all add: ownerShipModifyingOperations_def)
  with Cons show ?case by simp
qed simp

lemma appyActions_held:
  assumes "held ag"
  shows "foldR appyAction (ag, s) acts
    = Inr (ag\<lparr>oo_payload := (oo_payload ag)\<lparr>ag_heartbeat := ag_heartbeat (oo_payload ag) + of_nat (beats acts)\<rparr>\<rparr>, owned_after acts s)"
  using assms
proof (induction acts arbitrary: ag s)
  case (Cons act acts)
  show ?case
  proof (cases "act_op act")
    case Op_Heartbeat
    with Cons show ?thesis by (simp add: appyAction_def ag_bumpHeartbeat_def ac_simps)
  qed (use Cons in \<open>simp_all add: appyAction_def fold_insert_set fold_erase_set\<close>)
qed simp

text \<open>\<open>agent_done acts p p'\<close>: \<open>p'\<close> is the agent \<open>p\<close> after the actions \<open>acts\<close>.\<close>

definition agent_done :: "action list \<Rightarrow> agent \<Rightarrow> agent \<Rightarrow> bool" where
  "agent_done acts p p' \<longleftrightarrow> set (ag_ownedobjects p') = owned_after acts (set (ag_ownedobjects p))
     \<and> (distinct (ag_ownedobjects p) \<longrightarrow> distinct (ag_ownedobjects p'))
     \<and> ag_heartbeat p' = ag_heartbeat p + of_nat (beats acts)
     \<and> ag_being_garbage_collected p' = ag_being_garbage_collected p \<and> ag_gc_needed p' = ag_gc_needed p
     \<and> ag_timeout_us p' = ag_timeout_us p \<and> ag_description p' = ag_description p"

lemma agent_done_Nil: "agent_done [] p p"
  by (simp add: agent_done_def)

lemma agent_done_append: "agent_done acts p p1 \<Longrightarrow> agent_done acts' p1 p2 \<Longrightarrow> agent_done (acts @ acts') p p2"
  by (simp add: agent_done_def)

lemma ref_execute_ok:
  assumes st: "stored ag_c w (agentAddress w) p" and gc: "\<not> ag_being_garbage_collected p"
  shows "\<exists>p' h. ref_execute act queue w = (Inr (), w\<lparr>objects := (objects w)(agentAddress w \<mapsto> h\<lparr>oh_payload := enc ag_c p'\<rparr>)\<rparr>)
    \<and> objects w (agentAddress w) = Some h \<and> agent_done (act # queue) p p'"
proof -
  let ?a = "agentAddress w" and ?acts = "act # queue"
  have a: "?a \<noteq> []" "vfs_exists ?a w" using storedD [OF st] by (simp_all add: vfs_exists_def)
  obtain s1 ag where ag: "exclusive_lock ((oo_new ag_empty)\<lparr>oo_name := ?a, oo_nameSet := True\<rparr>) w = (Inr s1, w)"
    "oo_fetch ag_c s1 w = (Inr ag, w)" "held ag" "oo_name ag = ?a" "oo_payload ag = p" "objects w ?a = Some (oo_header ag_c ag)"
    using exclusive_fetch_stored [OF codecs_ok(8) st, of ag_empty] by (elim exE conjE)
  have at: "ag_at ?a = Inr ((oo_new ag_empty)\<lparr>oo_name := ?a, oo_nameSet := True\<rparr>)" using setAddress_new [OF a(1)] by (simp add: ag_at_def)
  define md where "md \<longleftrightarrow> (\<exists>x \<in> set ?acts. act_op x \<in> ownerShipModifyingOperations)"
  have mdq: "(act_op act \<in> ownerShipModifyingOperations \<or> (\<exists>a \<in> set queue. act_op a \<in> ownerShipModifyingOperations)) = md"
    by (simp add: md_def)
  define s where "s = (if md then set (ag_ownedobjects p) else {})"
  have owned: "(if md then ag_getOwnershipSet ag else Inr {}) = Inr s" using ag(3,5) by (simp add: ag_getOwnershipSet_def s_def)
  define p1 where "p1 = p\<lparr>ag_heartbeat := ag_heartbeat p + of_nat (beats ?acts)\<rparr>"
  define p' where "p' = (if md then p1\<lparr>ag_ownedobjects := sorted_list_of_set (owned_after ?acts s)\<rparr> else p1)"
  have fold: "rbind (appyAction (ag, s) act) (\<lambda>st. foldR appyAction st queue) = Inr (ag\<lparr>oo_payload := p1\<rparr>, owned_after ?acts s)"
    using appyActions_held [OF ag(3), of s ?acts] ag(5) by (simp add: p1_def)
  obtain st where st1: "appyAction (ag, s) act = Inr st" "foldR appyAction st queue = Inr (ag\<lparr>oo_payload := p1\<rparr>, owned_after ?acts s)"
    using fold by (auto simp: rbind_Inr_iff)
  have reset: "(if md then ag_resetOwnership (owned_after ?acts s) (ag\<lparr>oo_payload := p1\<rparr>) else Inr (ag\<lparr>oo_payload := p1\<rparr>)) = Inr (ag\<lparr>oo_payload := p'\<rparr>)"
    using ag(3) by (simp add: ag_resetOwnership_def p'_def)
  have "ref_execute act queue w = oo_commit ag_c (ag\<lparr>oo_payload := p'\<rparr>) w"
    using ag(1-3,5) gc at st1 reset
    by (simp add: ref_execute_def getAgentAddress_def ag_isBeingGarbageCollected_def mdq owned Let_def) (cases md; simp)
  also have "\<dots> = (Inr (), w\<lparr>objects := (objects w)(?a \<mapsto> (oo_header ag_c ag)\<lparr>oh_payload := enc ag_c p'\<rparr>)\<rparr>)"
    using ag(3,4) a(2) by (simp add: oo_commit_held oo_header_def)
  finally have run: "ref_execute act queue w = (Inr (), w\<lparr>objects := (objects w)(?a \<mapsto> (oo_header ag_c ag)\<lparr>oh_payload := enc ag_c p'\<rparr>)\<rparr>)" .
  have "agent_done ?acts p p'"
    using owned_after_unmodified [of ?acts "set (ag_ownedobjects p)"]
    by (cases md) (auto simp: agent_done_def p'_def p1_def s_def md_def)
  with run ag(6) show ?thesis by blast
qed

lemma ref_execute_collected:
  assumes st: "stored ag_c w (agentAddress w) p" and gc: "ag_being_garbage_collected p"
  shows "ref_execute act queue w = (Inl Segfault, w)"
proof -
  let ?a = "agentAddress w"
  have a: "?a \<noteq> []" using storedD [OF st] by simp
  obtain s1 ag where ag: "exclusive_lock ((oo_new ag_empty)\<lparr>oo_name := ?a, oo_nameSet := True\<rparr>) w = (Inr s1, w)"
    "oo_fetch ag_c s1 w = (Inr ag, w)" "held ag" "oo_payload ag = p"
    using exclusive_fetch_stored [OF codecs_ok(8) st, of ag_empty] by (elim exE conjE)
  have "ag_at ?a = Inr ((oo_new ag_empty)\<lparr>oo_name := ?a, oo_nameSet := True\<rparr>)" using setAddress_new [OF a] by (simp add: ag_at_def)
  with ag gc show ?thesis by (simp add: ref_execute_def getAgentAddress_def ag_isBeingGarbageCollected_def)
qed

section \<open>The threads\<close>

text \<open>
  The state the threads share: the queue that takes actions (\<open>m_currentQueue\<close>), the promises that have been
  fulfilled (queue number \<open>q\<close> waits for promise \<open>q\<close> and fulfils promise \<open>q + 1\<close>; the constructor fulfils the
  first one), and for every queue opened so far its actions, that of the thread that serves it first, and
  where that thread is. \<open>Threw\<close> is the exception of a queue that is not the listed one any more.
\<close>

datatype queue_phase = Waiting | Executing | Finished "exn + unit" | Threw

record ref_state =
  rf_world :: world
  rf_current :: "nat option"
  rf_promises :: "nat set"
  rf_queues :: "action list list"
  rf_phases :: "queue_phase list"

definition ref_initial :: "world \<Rightarrow> ref_state" where
  "ref_initial w = \<lparr>rf_world = w, rf_current = None, rf_promises = {0}, rf_queues = [], rf_phases = []\<rparr>"

definition ref_open :: "action \<Rightarrow> ref_state \<Rightarrow> ref_state" where
  "ref_open act s = s\<lparr>rf_current := Some (length (rf_queues s)), rf_queues := rf_queues s @ [[act]], rf_phases := rf_phases s @ [Waiting]\<rparr>"

definition ref_join :: "nat \<Rightarrow> action \<Rightarrow> ref_state \<Rightarrow> ref_state" where
  "ref_join q act s = s\<lparr>rf_queues := (rf_queues s)[q := rf_queues s ! q @ [act]]\<rparr>"

definition ref_close :: "nat \<Rightarrow> ref_state \<Rightarrow> ref_state" where
  "ref_close q s =
     (if rf_current s \<noteq> Some q then s\<lparr>rf_phases := (rf_phases s)[q := Threw]\<rparr>
      else s\<lparr>rf_current := None, rf_phases := (rf_phases s)[q := Executing]\<rparr>)"

definition ref_run_queue :: "nat \<Rightarrow> ref_state \<Rightarrow> ref_state" where
  "ref_run_queue q s =
     (let (r, w') = ref_execute (hd (rf_queues s ! q)) (tl (rf_queues s ! q)) (rf_world s)
      in s\<lparr>rf_world := w', rf_phases := (rf_phases s)[q := Finished r], rf_promises := insert (Suc q) (rf_promises s)\<rparr>)"

text \<open>
  The steps between the locks of \<open>queueAndExecuteAction\<close>, labelled with the action of a thread that calls. The
  two internal steps of a queue are the end of the wait on its promise and the execution.
\<close>

inductive ref_step :: "ref_state \<Rightarrow> action option \<Rightarrow> ref_state \<Rightarrow> bool" where
  ref_step_open: "rf_current s = None \<Longrightarrow> ref_step s (Some act) (ref_open act s)"
| ref_step_join: "rf_current s = Some q \<Longrightarrow> ref_step s (Some act) (ref_join q act s)"
| ref_step_close: "q < length (rf_phases s) \<Longrightarrow> rf_phases s ! q = Waiting \<Longrightarrow> q \<in> rf_promises s \<Longrightarrow> ref_step s None (ref_close q s)"
| ref_step_execute: "q < length (rf_phases s) \<Longrightarrow> rf_phases s ! q = Executing \<Longrightarrow> ref_step s None (ref_run_queue q s)"

inductive ref_reach :: "ref_state \<Rightarrow> action list \<Rightarrow> ref_state \<Rightarrow> bool" for s0 where
  ref_reach_init: "ref_reach s0 [] s0"
| ref_reach_call: "ref_reach s0 acts s \<Longrightarrow> ref_step s (Some act) s' \<Longrightarrow> ref_reach s0 (acts @ [act]) s'"
| ref_reach_internal: "ref_reach s0 acts s \<Longrightarrow> ref_step s None s' \<Longrightarrow> ref_reach s0 acts s'"

inductive_cases ref_step_callE: "ref_step s (Some act) s'"
inductive_cases ref_step_internalE: "ref_step s None s'"

text \<open>
  What holds in between: \<open>n\<close> queues are done, at most one executes, and at most one, the listed one, waits.
\<close>

definition ref_busy :: "nat \<Rightarrow> queue_phase list \<Rightarrow> nat option \<Rightarrow> bool" where
  "ref_busy n tail current \<longleftrightarrow> tail = [] \<and> current = None \<or> tail = [Executing] \<and> current = None
     \<or> tail = [Waiting] \<and> current = Some n \<or> tail = [Executing, Waiting] \<and> current = Some (Suc n)"

definition ref_good :: "world \<Rightarrow> agent \<Rightarrow> action list \<Rightarrow> nat \<Rightarrow> ref_state \<Rightarrow> bool" where
  "ref_good w0 p0 acts n s \<longleftrightarrow> (\<exists>tail. rf_phases s = replicate n (Finished (Inr ())) @ tail \<and> ref_busy n tail (rf_current s))
     \<and> length (rf_queues s) = length (rf_phases s) \<and> rf_promises s = {..n}
     \<and> concat (rf_queues s) = acts \<and> [] \<notin> set (rf_queues s)
     \<and> agentAddress (rf_world s) = agentAddress w0
     \<and> (\<exists>p. stored ag_c (rf_world s) (agentAddress w0) p \<and> \<not> ag_being_garbage_collected p
          \<and> agent_done (concat (take n (rf_queues s))) p0 p)
     \<and> (\<forall>a. a \<noteq> agentAddress w0 \<longrightarrow> objects (rf_world s) a = objects w0 a)"

lemma ref_good_init:
  assumes "stored ag_c w (agentAddress w) p" and "\<not> ag_being_garbage_collected p"
  shows "ref_good w p [] 0 (ref_initial w)"
  using assms by (auto simp: ref_good_def ref_initial_def ref_busy_def agent_done_Nil)

lemma ref_good_open:
  assumes "ref_good w0 p0 acts n s" and "rf_current s = None"
  shows "ref_good w0 p0 (acts @ [act]) n (ref_open act s)"
proof -
  obtain tail where t: "rf_phases s = replicate n (Finished (Inr ())) @ tail" "ref_busy n tail (rf_current s)"
    using assms(1) by (auto simp: ref_good_def)
  have "ref_busy n (tail @ [Waiting]) (Some (length (rf_queues s)))"
    using t assms by (auto simp: ref_busy_def ref_good_def)
  with assms(1) t show ?thesis by (auto simp: ref_good_def ref_open_def)
qed

lemma concat_update_last:
  assumes "q < length xss" and "Suc q = length xss"
  shows "concat (xss[q := xss ! q @ [x]]) = concat xss @ [x]"
  using assms by (cases xss rule: rev_cases) (auto simp: nth_append list_update_append)

lemma ref_good_join:
  assumes good: "ref_good w0 p0 acts n s" and cur: "rf_current s = Some q"
  shows "ref_good w0 p0 (acts @ [act]) n (ref_join q act s)"
proof -
  obtain tail where t: "rf_phases s = replicate n (Finished (Inr ())) @ tail" "ref_busy n tail (rf_current s)"
    using good by (auto simp: ref_good_def)
  have q: "Suc q = length (rf_queues s)" "n \<le> q" using t good cur by (auto simp: ref_busy_def ref_good_def)
  then have "concat ((rf_queues s)[q := rf_queues s ! q @ [act]]) = acts @ [act]"
    using concat_update_last [of q "rf_queues s" act] good by (simp add: ref_good_def)
  moreover have "[] \<notin> set ((rf_queues s)[q := rf_queues s ! q @ [act]])"
    using good by (auto simp: ref_good_def dest: set_update_subset_insert [THEN subsetD])
  moreover have "take n ((rf_queues s)[q := rf_queues s ! q @ [act]]) = take n (rf_queues s)" using q(2) by simp
  ultimately show ?thesis using good t by (auto simp: ref_good_def ref_join_def)
qed

lemma ref_good_close:
  assumes good: "ref_good w0 p0 acts n s" and q: "q < length (rf_phases s)" "rf_phases s ! q = Waiting" "q \<in> rf_promises s"
  shows "ref_good w0 p0 acts n (ref_close q s)" "rf_current s = Some q"
proof -
  obtain tail where t: "rf_phases s = replicate n (Finished (Inr ())) @ tail" "ref_busy n tail (rf_current s)"
    using good by (auto simp: ref_good_def)
  have "q \<le> n" using good q(3) by (simp add: ref_good_def)
  moreover have "\<not> q < n" using q(2) t(1) by (auto simp: nth_append)
  ultimately have "q = n" by simp
  then have w: "tail = [Waiting]" "rf_current s = Some n" using q(1,2) t by (auto simp: ref_busy_def nth_append)
  with \<open>q = n\<close> show "rf_current s = Some q" by simp
  then have "ref_close q s = s\<lparr>rf_current := None, rf_phases := replicate n (Finished (Inr ())) @ [Executing]\<rparr>"
    using \<open>q = n\<close> t(1) w(1) by (simp add: ref_close_def list_update_append)
  with good t w show "ref_good w0 p0 acts n (ref_close q s)" by (auto simp: ref_good_def ref_busy_def)
qed

lemma ref_good_execute:
  assumes good: "ref_good w0 p0 acts n s" and q: "q < length (rf_phases s)" "rf_phases s ! q = Executing"
  shows "ref_good w0 p0 acts (Suc n) (ref_run_queue q s)" "q = n"
proof -
  obtain tail where t: "rf_phases s = replicate n (Finished (Inr ())) @ tail" "ref_busy n tail (rf_current s)"
    using good by (auto simp: ref_good_def)
  have "n \<le> q" using q t(1) by (cases "q < n") (auto simp: nth_append)
  then have qt: "q = n \<and> (\<exists>rest. tail = Executing # rest \<and> ref_busy (Suc n) rest (rf_current s))"
    using q t by (auto simp: ref_busy_def nth_append nth_Cons' split: if_splits)
  then show "q = n" by simp
  obtain rest where tail: "tail = Executing # rest" "ref_busy (Suc n) rest (rf_current s)" using qt by blast
  obtain p where p: "stored ag_c (rf_world s) (agentAddress w0) p" "\<not> ag_being_garbage_collected p"
    "agent_done (concat (take n (rf_queues s))) p0 p" "agentAddress (rf_world s) = agentAddress w0"
    using good by (auto simp: ref_good_def)
  have n: "n < length (rf_queues s)" using good q(1) \<open>q = n\<close> by (simp add: ref_good_def)
  have "[] \<notin> set (rf_queues s)" using good by (simp add: ref_good_def)
  with nth_mem [OF n] have ne: "rf_queues s ! n \<noteq> []" by metis
  then have hd: "hd (rf_queues s ! n) # tl (rf_queues s ! n) = rf_queues s ! n" by simp
  obtain p' h where r: "ref_execute (hd (rf_queues s ! n)) (tl (rf_queues s ! n)) (rf_world s)
      = (Inr (), (rf_world s)\<lparr>objects := (objects (rf_world s))(agentAddress w0 \<mapsto> h\<lparr>oh_payload := enc ag_c p'\<rparr>)\<rparr>)"
    "agent_done (rf_queues s ! n) p p'"
    using ref_execute_ok [of "rf_world s" p "hd (rf_queues s ! n)" "tl (rf_queues s ! n)"] p(1,2,4) unfolding hd by metis
  have "agent_done (concat (take (Suc n) (rf_queues s))) p0 p'"
    using agent_done_append [OF p(3) r(2)] n by (simp add: take_Suc_conv_app_nth)
  moreover have "rf_phases (ref_run_queue q s) = replicate (Suc n) (Finished (Inr ())) @ rest"
    using r(1) t(1) tail(1) \<open>q = n\<close> by (simp add: ref_run_queue_def list_update_append replicate_append_same)
  moreover have "stored ag_c (rf_world (ref_run_queue q s)) (agentAddress w0) p'"
    using r(1) p(1) \<open>q = n\<close> by (simp add: ref_run_queue_def stored_def)
  moreover have "\<not> ag_being_garbage_collected p'" using r(2) p(2) by (simp add: agent_done_def)
  ultimately show "ref_good w0 p0 acts (Suc n) (ref_run_queue q s)"
    using good tail(2) r(1) \<open>q = n\<close> p(4) t(1) tail(1) unfolding ref_good_def
    by (auto simp: ref_run_queue_def lessThan_Suc atMost_Suc)
qed

lemma ref_reach_good:
  assumes reach: "ref_reach (ref_initial w) acts s"
    and st: "stored ag_c w (agentAddress w) p" "\<not> ag_being_garbage_collected p"
  shows "\<exists>n. ref_good w p acts n s"
  using reach
proof (induction rule: ref_reach.induct)
  case ref_reach_init
  then show ?case using ref_good_init [OF st] by blast
next
  case (ref_reach_call acts s act s')
  then show ?case by (elim exE ref_step_callE) (blast intro: ref_good_open ref_good_join)+
next
  case (ref_reach_internal acts s s')
  then show ?case by (elim exE ref_step_internalE) (blast intro: ref_good_close ref_good_execute)+
qed

text \<open>A queue that is not done can go on, or one before it can.\<close>

lemma ref_good_progress:
  assumes good: "ref_good w0 p0 acts n s" and busy: "\<exists>ph \<in> set (rf_phases s). \<forall>r. ph \<noteq> Finished r"
  shows "\<exists>s'. ref_step s None s'"
proof -
  obtain tail where t: "rf_phases s = replicate n (Finished (Inr ())) @ tail" "ref_busy n tail (rf_current s)" "rf_promises s = {..n}"
    using good by (auto simp: ref_good_def)
  have "tail \<noteq> []" using busy t(1) by auto
  then have n: "n < length (rf_phases s)" and "rf_phases s ! n = Waiting \<or> rf_phases s ! n = Executing"
    using t(1,2) by (auto simp: ref_busy_def nth_append)
  then show ?thesis using t(3) by (auto intro: ref_step_close ref_step_execute)
qed

end
