(* ===== verification/Registers.thy ===== *)
theory Registers
  imports Agent
begin

text \<open>
  The small containers the root entry points to: the drive register (\<open>DriveRegister.cpp\<close>), the scheduler's
  global lock (\<open>SchedulerGlobalLock.cpp\<close>), the repack queues (\<open>RepackQueue.cpp\<close>) and the index of the repack
  requests (\<open>RepackIndex.cpp\<close>). The collection of the first two looks at the root entry and is in \<open>RootEntry\<close>.
\<close>

section \<open>The drive register\<close>

abbreviation "dr_c \<equiv> drive_register_codec"

definition dr_empty :: drive_register where
  "dr_empty = \<lparr>dr_drives = []\<rparr>"

definition dr_at :: "string \<Rightarrow> exn + drive_register oo" where
  "dr_at address = setAddress address (oo_new dr_empty)"

definition dr_initialize :: "drive_register oo \<Rightarrow> exn + drive_register oo" where
  "dr_initialize ob = rbind (oo_initialize ob) (\<lambda>ob1. Inr (ob1\<lparr>oo_payloadInterpreted := True\<rparr>))"

definition dr_getDriveAddresses :: "drive_register oo \<Rightarrow> exn + drive_state_pointer list" where
  "dr_getDriveAddresses ob = rbind (checkPayloadReadable ob) (\<lambda>_. Inr (dr_drives (oo_payload ob)))"

definition dr_getDriveAddress :: "string \<Rightarrow> drive_register oo \<Rightarrow> exn + string" where
  "dr_getDriveAddress driveName ob = rbind (checkPayloadReadable ob) (\<lambda>_.
     case List.find (\<lambda>d. dsp_drivename d = driveName) (dr_drives (oo_payload ob)) of
       None \<Rightarrow> Inl NoSuchDrive
     | Some d \<Rightarrow> Inr (dsp_drivestateaddress d))"

definition dr_setDriveAddress :: "string \<Rightarrow> string \<Rightarrow> drive_register oo \<Rightarrow> exn + drive_register oo" where
  "dr_setDriveAddress driveName driveAddress ob = rbind (checkPayloadWritable ob) (\<lambda>_.
     let ds = dr_drives (oo_payload ob);
         i = find_index (\<lambda>d. dsp_drivename d = driveName) ds;
         ds' = (if i < length ds then ds[i := (ds ! i)\<lparr>dsp_drivestateaddress := driveAddress\<rparr>]
                else ds @ [\<lparr>dsp_drivename = driveName, dsp_drivestateaddress = driveAddress\<rparr>])
     in Inr (ob\<lparr>oo_payload := (oo_payload ob)\<lparr>dr_drives := ds'\<rparr>\<rparr>))"

text \<open>\<open>erase\<close> of an iterator keeps the order of the others.\<close>

definition erase_at :: "nat \<Rightarrow> 'a list \<Rightarrow> 'a list" where
  "erase_at i xs = take i xs @ drop (Suc i) xs"

definition dr_removeDrive :: "string \<Rightarrow> drive_register oo \<Rightarrow> exn + drive_register oo" where
  "dr_removeDrive driveName ob = rbind (checkPayloadWritable ob) (\<lambda>_.
     let ds = dr_drives (oo_payload ob);
         i = find_index (\<lambda>d. dsp_drivename d = driveName) ds
     in if i < length ds then Inr (ob\<lparr>oo_payload := (oo_payload ob)\<lparr>dr_drives := erase_at i ds\<rparr>\<rparr>)
        else Inl (CtaException ''DriveRegister::removeDrive''))"

definition dr_isEmpty :: "drive_register oo \<Rightarrow> exn + bool" where
  "dr_isEmpty ob = rbind (checkPayloadReadable ob) (\<lambda>_. Inr (dr_drives (oo_payload ob) = []))"

section \<open>The scheduler's global lock\<close>

abbreviation "sgl_c \<equiv> scheduler_global_lock_codec"

definition sgl_empty :: scheduler_global_lock where
  "sgl_empty = \<lparr>sgl_nextmountid = 0\<rparr>"

definition sgl_at :: "string \<Rightarrow> exn + scheduler_global_lock oo" where
  "sgl_at address = setAddress address (oo_new sgl_empty)"

definition sgl_initialize :: "scheduler_global_lock oo \<Rightarrow> exn + scheduler_global_lock oo" where
  "sgl_initialize ob = rbind (oo_initialize ob) (\<lambda>ob1.
     Inr (ob1\<lparr>oo_payload := (oo_payload ob1)\<lparr>sgl_nextmountid := 1\<rparr>, oo_payloadInterpreted := True\<rparr>))"

definition sgl_getIncreaseCommitMountId :: "scheduler_global_lock oo \<Rightarrow> exn + u64 \<times> scheduler_global_lock oo" where
  "sgl_getIncreaseCommitMountId ob = rbind (checkPayloadWritable ob) (\<lambda>_.
     let r = sgl_nextmountid (oo_payload ob)
     in Inr (r, ob\<lparr>oo_payload := (oo_payload ob)\<lparr>sgl_nextmountid := r + 1\<rparr>\<rparr>))"

definition sgl_setNextMountId :: "u64 \<Rightarrow> scheduler_global_lock oo \<Rightarrow> exn + scheduler_global_lock oo" where
  "sgl_setNextMountId next_id ob = rbind (checkPayloadWritable ob) (\<lambda>_.
     Inr (ob\<lparr>oo_payload := (oo_payload ob)\<lparr>sgl_nextmountid := next_id\<rparr>\<rparr>))"

definition sgl_isEmpty :: "scheduler_global_lock oo \<Rightarrow> exn + bool" where
  "sgl_isEmpty ob = rbind (checkPayloadReadable ob) (\<lambda>_. Inr True)"

section \<open>The repack queues\<close>

abbreviation "rpq_c \<equiv> repack_queue_codec"

definition rpq_empty :: repack_queue where
  "rpq_empty = \<lparr>rpq_repackrequestpointers = []\<rparr>"

definition rpq_at :: "string \<Rightarrow> exn + repack_queue oo" where
  "rpq_at address = setAddress address (oo_new rpq_empty)"

definition rpq_initialize :: "repack_queue oo \<Rightarrow> exn + repack_queue oo" where
  "rpq_initialize ob = rbind (oo_initialize ob) (\<lambda>ob1. Inr (ob1\<lparr>oo_payloadInterpreted := True\<rparr>))"

definition rpq_addRequestsAndCommit :: "string list \<Rightarrow> repack_queue oo \<Rightarrow> (world, repack_queue oo) prog" where
  "rpq_addRequestsAndCommit requestAddresses ob =
     bnd (liftr (checkPayloadWritable ob)) (\<lambda>_.
     let ob1 = ob\<lparr>oo_payload := (oo_payload ob)\<lparr>rpq_repackrequestpointers := rpq_repackrequestpointers (oo_payload ob) @ requestAddresses\<rparr>\<rparr>
     in bnd (oo_commit rpq_c ob1) (\<lambda>_. ret ob1))"

definition rpq_addRequestsIfNecessaryAndCommit :: "string list \<Rightarrow> repack_queue oo \<Rightarrow> (world, repack_queue oo) prog" where
  "rpq_addRequestsIfNecessaryAndCommit requestAddresses ob =
     bnd (liftr (checkPayloadWritable ob)) (\<lambda>_.
     let existingAddresses = set (rpq_repackrequestpointers (oo_payload ob));
         toAdd = filter (\<lambda>a. a \<notin> existingAddresses) requestAddresses;
         ob1 = ob\<lparr>oo_payload := (oo_payload ob)\<lparr>rpq_repackrequestpointers := rpq_repackrequestpointers (oo_payload ob) @ toAdd\<rparr>\<rparr>
     in if toAdd \<noteq> [] then bnd (oo_commit rpq_c ob1) (\<lambda>_. ret ob1) else ret ob1)"

definition rpq_garbageCollect :: "repack_queue oo \<Rightarrow> exn + repack_queue oo" where
  "rpq_garbageCollect ob = Inl (CtaException ''RepackQueue::garbageCollect'')"

definition rpq_removeRequestsAndCommit :: "string list \<Rightarrow> repack_queue oo \<Rightarrow> (world, repack_queue oo) prog" where
  "rpq_removeRequestsAndCommit requestsAddresses ob =
     bnd (liftr (checkPayloadWritable ob)) (\<lambda>_.
     let ps = rpq_repackrequestpointers (oo_payload ob);
         requestsToRemove = set requestsAddresses;
         newQueue = filter (\<lambda>a. a \<notin> requestsToRemove) ps;
         ob1 = ob\<lparr>oo_payload := (oo_payload ob)\<lparr>rpq_repackrequestpointers := newQueue\<rparr>\<rparr>
     in if \<exists>a \<in> set ps. a \<in> requestsToRemove then bnd (oo_commit rpq_c ob1) (\<lambda>_. ret ob1) else ret ob)"

definition rpq_getRequestsSummary :: "repack_queue oo \<Rightarrow> exn + u64" where
  "rpq_getRequestsSummary ob = rbind (checkPayloadReadable ob) (\<lambda>_. Inr (of_nat (length (rpq_repackrequestpointers (oo_payload ob)))))"

text \<open>
  The candidates: at least one when there is one, since the count is compared after the first was taken; the
  requests to skip are not looked at.
\<close>

fun rpq_candidate_loop :: "u64 \<Rightarrow> string list \<Rightarrow> u64 \<Rightarrow> string list \<Rightarrow> string list" where
  "rpq_candidate_loop maxRequests [] cnt acc = acc"
| "rpq_candidate_loop maxRequests (a # as) cnt acc =
     (if cnt + 1 \<ge> maxRequests then acc @ [a] else rpq_candidate_loop maxRequests as (cnt + 1) (acc @ [a]))"

record rpq_candidates =
  rpqc_candidates :: "string list"
  rpqc_candidateRequests :: u64
  rpqc_remainingRequestsAfterCandidates :: u64

definition rpq_getCandidateList :: "u64 \<Rightarrow> string set \<Rightarrow> repack_queue oo \<Rightarrow> exn + rpq_candidates" where
  "rpq_getCandidateList maxRequests repackRequestsToSkip ob = rbind (checkPayloadReadable ob) (\<lambda>_.
     let ps = rpq_repackrequestpointers (oo_payload ob);
         cs = rpq_candidate_loop maxRequests ps 0 []
     in Inr \<lparr>rpqc_candidates = cs, rpqc_candidateRequests = of_nat (length cs),
             rpqc_remainingRequestsAfterCandidates = of_nat (length ps) - of_nat (length cs)\<rparr>)"

definition rpq_isEmpty :: "repack_queue oo \<Rightarrow> exn + bool" where
  "rpq_isEmpty ob = rbind (checkPayloadReadable ob) (\<lambda>_. Inr (rpq_repackrequestpointers (oo_payload ob) = []))"

section \<open>The index of the repack requests\<close>

abbreviation "ri_c \<equiv> repack_index_codec"

definition ri_empty :: repack_index where
  "ri_empty = \<lparr>ri_repackrequestpointers = []\<rparr>"

definition ri_at :: "string \<Rightarrow> exn + repack_index oo" where
  "ri_at address = setAddress address (oo_new ri_empty)"

definition ri_initialize :: "repack_index oo \<Rightarrow> exn + repack_index oo" where
  "ri_initialize ob = rbind (oo_initialize ob) (\<lambda>ob1. Inr (ob1\<lparr>oo_payloadInterpreted := True\<rparr>))"

definition ri_garbageCollect :: "repack_index oo \<Rightarrow> exn + repack_index oo" where
  "ri_garbageCollect ob = rbind (checkPayloadWritable ob) (\<lambda>_. Inl (CtaException ''RepackIndex::garbageCollect''))"

definition ri_getRepackRequestAddress :: "string \<Rightarrow> repack_index oo \<Rightarrow> exn + string" where
  "ri_getRepackRequestAddress vid ob = rbind (checkPayloadReadable ob) (\<lambda>_.
     case List.find (\<lambda>rt. rrip_vid rt = vid) (ri_repackrequestpointers (oo_payload ob)) of
       None \<Rightarrow> Inl NoSuchVID
     | Some rt \<Rightarrow> Inr (rrip_address rt))"

definition ri_getRepackRequestsAddresses :: "repack_index oo \<Rightarrow> exn + repack_request_index_pointer list" where
  "ri_getRepackRequestsAddresses ob = rbind (checkHeaderReadable ob) (\<lambda>_. Inr (ri_repackrequestpointers (oo_payload ob)))"

definition ri_isEmpty :: "repack_index oo \<Rightarrow> exn + bool" where
  "ri_isEmpty ob = rbind (checkPayloadReadable ob) (\<lambda>_. Inr (ri_repackrequestpointers (oo_payload ob) = []))"

definition ri_removeRepackRequest :: "string \<Rightarrow> repack_index oo \<Rightarrow> exn + repack_index oo" where
  "ri_removeRepackRequest vid ob = rbind (checkPayloadWritable ob) (\<lambda>_.
     let rts = ri_repackrequestpointers (oo_payload ob)
     in if \<exists>rt \<in> set rts. rrip_vid rt = vid
        then Inr (ob\<lparr>oo_payload := (oo_payload ob)\<lparr>ri_repackrequestpointers := filter (\<lambda>rt. rrip_vid rt \<noteq> vid) rts\<rparr>\<rparr>)
        else Inl (CtaException ''RepackIndex::removeRepackRequest''))"

definition ri_addRepackRequestAddress :: "string \<Rightarrow> string \<Rightarrow> repack_index oo \<Rightarrow> exn + repack_index oo" where
  "ri_addRepackRequestAddress vid repackRequestAddress ob = rbind (checkPayloadWritable ob) (\<lambda>_.
     let rts = ri_repackrequestpointers (oo_payload ob)
     in if \<exists>rt \<in> set rts. rrip_vid rt = vid then Inl VidAlreadyRegistered
        else Inr (ob\<lparr>oo_payload := (oo_payload ob)\<lparr>ri_repackrequestpointers := rts @ [\<lparr>rrip_vid = vid, rrip_address = repackRequestAddress\<rparr>]\<rparr>\<rparr>))"

end
