(* ===== verification/RootEntry.thy ===== *)
theory RootEntry
  imports AgentReference Registers ArchiveQueue RetrieveQueue ArchiveRequest
begin

text \<open>
  \<open>objectstore/RootEntry.cpp\<close>: the root of the object store, at the address \<open>root\<close>. It points to the queues, by
  type and by tape pool or tape, to the agent register, the drive register, the scheduler's global lock, the
  repack index and the repack queues, and creates and removes these objects. The functions of the other
  classes that start from the root entry are at the end: the registration of agents (\<open>Agent.cpp\<close>) and the
  collection of an agent, of the drive register and of the scheduler's lock. The grace periods
  (\<open>sleep_for\<close>) have no effect in the model.
\<close>

section \<open>Life cycle\<close>

abbreviation "re_c \<equiv> root_entry_codec"

definition re_address :: string where
  "re_address = ''root''"

definition re_empty :: root_entry where
  "re_empty = \<lparr>re_archive_queue_to_transfer_for_user_pointers = [], re_archive_queue_failed_pointers = [],
     re_archive_queue_to_report_for_user_pointers = [], re_archive_queue_to_transfer_for_repack_pointers = [],
     re_archive_queue_to_report_to_repack_for_success_pointers = [],
     re_archive_queue_to_report_to_repack_for_failure_pointers = [],
     re_retrieve_queue_to_transfer_for_user_pointers = [], re_retrieve_queue_to_report_for_user_pointers = [],
     re_retrieve_queue_failed_pointers = [], re_retrieve_queue_to_report_to_repack_for_success_pointers = [],
     re_retrieve_queue_to_report_to_repack_for_failure_pointers = [],
     re_retrieve_queue_to_transfer_for_repack_pointers = [], re_driveregisterpointer = None,
     re_agentregisterpointer = None, re_repackindexpointer = None, re_repackrequestspendingqueuepointer = None,
     re_repackrequeststoexpandqueuepointer = None, re_agentregisterintent = '''', re_schedulerlockpointer = None\<rparr>"

definition re_at :: "exn + root_entry oo" where
  "re_at = setAddress re_address (oo_new re_empty)"

definition re_initialize :: "root_entry oo \<Rightarrow> exn + root_entry oo" where
  "re_initialize ob = rbind (oo_initialize ob) (\<lambda>ob1. Inr (ob1\<lparr>oo_payloadInterpreted := True\<rparr>))"

text \<open>The queue types and helper functions.\<close>

fun archiveQueuePointers :: "JobQueueType \<Rightarrow> root_entry \<Rightarrow> archive_queue_pointer list" where
  "archiveQueuePointers JobsToTransferForUser p = re_archive_queue_to_transfer_for_user_pointers p"
| "archiveQueuePointers JobsToReportToUser p = re_archive_queue_to_report_for_user_pointers p"
| "archiveQueuePointers FailedJobs p = re_archive_queue_failed_pointers p"
| "archiveQueuePointers JobsToTransferForRepack p = re_archive_queue_to_transfer_for_repack_pointers p"
| "archiveQueuePointers JobsToReportToRepackForSuccess p = re_archive_queue_to_report_to_repack_for_success_pointers p"
| "archiveQueuePointers JobsToReportToRepackForFailure p = re_archive_queue_to_report_to_repack_for_failure_pointers p"

fun mutableArchiveQueuePointers :: "JobQueueType \<Rightarrow> (archive_queue_pointer list \<Rightarrow> archive_queue_pointer list) \<Rightarrow> root_entry \<Rightarrow> root_entry" where
  "mutableArchiveQueuePointers JobsToTransferForUser f p = re_archive_queue_to_transfer_for_user_pointers_update f p"
| "mutableArchiveQueuePointers JobsToReportToUser f p = re_archive_queue_to_report_for_user_pointers_update f p"
| "mutableArchiveQueuePointers FailedJobs f p = re_archive_queue_failed_pointers_update f p"
| "mutableArchiveQueuePointers JobsToTransferForRepack f p = re_archive_queue_to_transfer_for_repack_pointers_update f p"
| "mutableArchiveQueuePointers JobsToReportToRepackForSuccess f p = re_archive_queue_to_report_to_repack_for_success_pointers_update f p"
| "mutableArchiveQueuePointers JobsToReportToRepackForFailure f p = re_archive_queue_to_report_to_repack_for_failure_pointers_update f p"

fun retrieveQueuePointers :: "JobQueueType \<Rightarrow> root_entry \<Rightarrow> retrieve_queue_pointer list" where
  "retrieveQueuePointers JobsToTransferForUser p = re_retrieve_queue_to_transfer_for_user_pointers p"
| "retrieveQueuePointers JobsToReportToUser p = re_retrieve_queue_to_report_for_user_pointers p"
| "retrieveQueuePointers FailedJobs p = re_retrieve_queue_failed_pointers p"
| "retrieveQueuePointers JobsToReportToRepackForSuccess p = re_retrieve_queue_to_report_to_repack_for_success_pointers p"
| "retrieveQueuePointers JobsToReportToRepackForFailure p = re_retrieve_queue_to_report_to_repack_for_failure_pointers p"
| "retrieveQueuePointers JobsToTransferForRepack p = re_retrieve_queue_to_transfer_for_repack_pointers p"

fun mutableRetrieveQueuePointers :: "JobQueueType \<Rightarrow> (retrieve_queue_pointer list \<Rightarrow> retrieve_queue_pointer list) \<Rightarrow> root_entry \<Rightarrow> root_entry" where
  "mutableRetrieveQueuePointers JobsToTransferForUser f p = re_retrieve_queue_to_transfer_for_user_pointers_update f p"
| "mutableRetrieveQueuePointers JobsToReportToUser f p = re_retrieve_queue_to_report_for_user_pointers_update f p"
| "mutableRetrieveQueuePointers FailedJobs f p = re_retrieve_queue_failed_pointers_update f p"
| "mutableRetrieveQueuePointers JobsToReportToRepackForSuccess f p = re_retrieve_queue_to_report_to_repack_for_success_pointers_update f p"
| "mutableRetrieveQueuePointers JobsToReportToRepackForFailure f p = re_retrieve_queue_to_report_to_repack_for_failure_pointers_update f p"
| "mutableRetrieveQueuePointers JobsToTransferForRepack f p = re_retrieve_queue_to_transfer_for_repack_pointers_update f p"

text \<open>\<open>has_p() && p().address().size()\<close>\<close>

definition pointer_set :: "logged_pointer option \<Rightarrow> bool" where
  "pointer_set lp = (case lp of None \<Rightarrow> False | Some l \<Rightarrow> lp_address l \<noteq> '''')"

definition re_isEmpty :: "root_entry oo \<Rightarrow> exn + bool" where
  "re_isEmpty ob = rbind (checkPayloadReadable ob) (\<lambda>_.
     let p = oo_payload ob
     in Inr (\<not> pointer_set (re_driveregisterpointer p) \<and> re_agentregisterintent p = ''''
          \<and> \<not> pointer_set (re_agentregisterpointer p) \<and> \<not> pointer_set (re_schedulerlockpointer p)
          \<and> (\<forall>qt \<in> set [JobsToTransferForUser, JobsToReportToUser, FailedJobs]. archiveQueuePointers qt p = [])
          \<and> (\<forall>qt \<in> set [JobsToTransferForUser, JobsToReportToUser, FailedJobs, JobsToReportToRepackForSuccess].
               retrieveQueuePointers qt p = [])))"

definition re_removeIfEmpty :: "root_entry oo \<Rightarrow> (world, root_entry oo) prog" where
  "re_removeIfEmpty ob =
     bnd (liftr (checkPayloadWritable ob)) (\<lambda>_.
     bnd (liftr (re_isEmpty ob)) (\<lambda>empty.
     if \<not> empty then throw NotEmpty else oo_remove ob))"

definition re_garbageCollect :: "root_entry oo \<Rightarrow> exn + root_entry oo" where
  "re_garbageCollect ob = Inl ForbiddenOperation"

section \<open>Archive queues\<close>

fun archiveQueueNameHeader :: "JobQueueType \<Rightarrow> string" where
  "archiveQueueNameHeader JobsToTransferForUser = ''ArchiveQueueToTransferForUser''"
| "archiveQueueNameHeader JobsToReportToRepackForFailure = ''ArchiveQueueToReportToRepackForSuccess''"
| "archiveQueueNameHeader JobsToReportToRepackForSuccess = ''ArchiveQueueToReportToRepackForSuccess''"
| "archiveQueueNameHeader JobsToReportToUser = ''ArchiveQueueToReportForUser''"
| "archiveQueueNameHeader FailedJobs = ''ArchiveQueueFailed''"
| "archiveQueueNameHeader JobsToTransferForRepack = ''ArchiveQueueToTransferForRepack''"

definition re_addOrGetArchiveQueueAndCommit ::
  "string \<Rightarrow> JobQueueType \<Rightarrow> root_entry oo \<Rightarrow> (world, string \<times> root_entry oo) prog" where
  "re_addOrGetArchiveQueueAndCommit tapePool queueType ob =
     bnd (liftr (checkPayloadWritable ob)) (\<lambda>_.
     case findElement (\<lambda>tpp. aqp_name tpp = tapePool) (archiveQueuePointers queueType (oo_payload ob)) of
       Inr tpp \<Rightarrow> ret (aqp_address tpp, ob)
     | Inl _ \<Rightarrow>
         bnd (nextId (archiveQueueNameHeader queueType @ ''-'' @ tapePool)) (\<lambda>archiveQueueAddress.
         let ob1 = ob\<lparr>oo_payload := mutableArchiveQueuePointers queueType
               (\<lambda>ps. ps @ [\<lparr>aqp_address = archiveQueueAddress, aqp_name = tapePool\<rparr>]) (oo_payload ob)\<rparr>
         in bnd (oo_commit re_c ob1) (\<lambda>_.
            bnd (liftr (setAddress archiveQueueAddress (oo_new aq_empty))) (\<lambda>aq.
            bnd (liftr (aq_initialize tapePool aq)) (\<lambda>aq.
            bnd (liftr (getAddressIfSet ob1)) (\<lambda>address.
            bnd (liftr (setOwner address aq)) (\<lambda>aq.
            bnd (liftr (setBackupOwner address aq)) (\<lambda>aq.
            bnd (oo_insert aq_c aq) (\<lambda>_.
            ret (archiveQueueAddress, ob1))))))))))"

text \<open>
  The opening of a queue to remove: when the queue cannot be locked and fetched and is not there any more,
  only the reference to it is left to remove.
\<close>

definition is_cta_exception :: "exn \<Rightarrow> bool" where
  "is_cta_exception e \<longleftrightarrow> e \<noteq> StdOutOfRange \<and> e \<noteq> StdRuntimeError \<and> e \<noteq> Segfault \<and> e \<noteq> OutOfFuel"

definition re_open_queue :: "'p codec \<Rightarrow> 'p oo \<Rightarrow> (world, 'p oo option) prog" where
  "re_open_queue c q =
     caught (\<lambda>e. if is_cta_exception e
                 then Some (bnd (oo_exists q) (\<lambda>there. if there then throw e else ret None)) else None)
       (bnd (exclusive_lock q) (\<lambda>q1. bnd (oo_fetch c q1) (\<lambda>q2. ret (Some q2))))"

definition re_removeArchiveQueueAndCommit ::
  "string \<Rightarrow> JobQueueType \<Rightarrow> root_entry oo \<Rightarrow> (world, root_entry oo) prog" where
  "re_removeArchiveQueueAndCommit tapePool queueType ob =
     bnd (liftr (checkPayloadWritable ob)) (\<lambda>_.
     case findElement (\<lambda>tpp. aqp_name tpp = tapePool) (archiveQueuePointers queueType (oo_payload ob)) of
       Inl _ \<Rightarrow> throw NoSuchArchiveQueue
     | Inr aqp \<Rightarrow>
         bnd (liftr (setAddress (aqp_address aqp) (oo_new aq_empty))) (\<lambda>aq.
         bnd (re_open_queue aq_c aq) (\<lambda>opened.
         bnd (case opened of
                None \<Rightarrow> ret ()
              | Some aq \<Rightarrow>
                  bnd (liftr (aq_getTapePool aq)) (\<lambda>tp.
                  if tp \<noteq> tapePool then throw WrongArchiveQueue
                  else bnd (liftr (aq_isEmpty aq)) (\<lambda>empty.
                       if \<not> empty then throw ArchiveQueueNotEmpty else bnd (oo_remove aq) (\<lambda>_. ret ())))) (\<lambda>_.
         let ob1 = ob\<lparr>oo_payload := mutableArchiveQueuePointers queueType (removeOccurences (\<lambda>tpp. aqp_name tpp = tapePool)) (oo_payload ob)\<rparr>
         in bnd (oo_commit re_c ob1) (\<lambda>_. ret ob1)))))"

definition re_removeMissingArchiveQueueReference :: "string \<Rightarrow> JobQueueType \<Rightarrow> root_entry oo \<Rightarrow> root_entry oo" where
  "re_removeMissingArchiveQueueReference tapePool queueType ob =
     ob\<lparr>oo_payload := mutableArchiveQueuePointers queueType (removeOccurences (\<lambda>tpp. aqp_name tpp = tapePool)) (oo_payload ob)\<rparr>"

definition re_getArchiveQueueAddress :: "string \<Rightarrow> JobQueueType \<Rightarrow> root_entry oo \<Rightarrow> exn + string" where
  "re_getArchiveQueueAddress tapePool queueType ob = rbind (checkPayloadReadable ob) (\<lambda>_.
     case findElement (\<lambda>tpp. aqp_name tpp = tapePool) (archiveQueuePointers queueType (oo_payload ob)) of
       Inl _ \<Rightarrow> Inl NoSuchArchiveQueue
     | Inr tpp \<Rightarrow> Inr (aqp_address tpp))"

text \<open>An \<open>ArchiveQueueDump\<close> has the two fields of the pointer.\<close>

definition re_dumpArchiveQueues :: "JobQueueType \<Rightarrow> root_entry oo \<Rightarrow> exn + archive_queue_pointer list" where
  "re_dumpArchiveQueues queueType ob = rbind (checkPayloadReadable ob) (\<lambda>_. Inr (archiveQueuePointers queueType (oo_payload ob)))"

section \<open>Retrieve queues\<close>

fun retrieveQueueNameHeader :: "JobQueueType \<Rightarrow> string" where
  "retrieveQueueNameHeader JobsToTransferForUser = ''RetrieveQueueToTransferForUser''"
| "retrieveQueueNameHeader JobsToReportToUser = ''RetrieveQueueToReportForUser''"
| "retrieveQueueNameHeader FailedJobs = ''RetrieveQueueFailed''"
| "retrieveQueueNameHeader JobsToReportToRepackForSuccess = ''RetrieveQueueToReportToRepackForSuccess''"
| "retrieveQueueNameHeader JobsToReportToRepackForFailure = ''RetrieveQueueToReportToRepackForFailure''"
| "retrieveQueueNameHeader JobsToTransferForRepack = ''RetrieveQueueToTransferForRepack''"

definition re_addOrGetRetrieveQueueAndCommit ::
  "string \<Rightarrow> JobQueueType \<Rightarrow> root_entry oo \<Rightarrow> (world, string \<times> root_entry oo) prog" where
  "re_addOrGetRetrieveQueueAndCommit vid queueType ob =
     bnd (liftr (checkPayloadWritable ob)) (\<lambda>_.
     case findElement (\<lambda>rqp. rqp_vid rqp = vid) (retrieveQueuePointers queueType (oo_payload ob)) of
       Inr rqp \<Rightarrow> ret (rqp_address rqp, ob)
     | Inl _ \<Rightarrow>
         bnd (nextId (retrieveQueueNameHeader queueType @ ''-'' @ vid)) (\<lambda>retrieveQueueAddress.
         let ob1 = ob\<lparr>oo_payload := mutableRetrieveQueuePointers queueType
               (\<lambda>ps. ps @ [\<lparr>rqp_address = retrieveQueueAddress, rqp_vid = vid\<rparr>]) (oo_payload ob)\<rparr>
         in bnd (oo_commit re_c ob1) (\<lambda>_.
            bnd (liftr (setAddress retrieveQueueAddress (oo_new rq_empty))) (\<lambda>rq.
            bnd (liftr (rq_initialize vid c_defaultMaxShardSize rq)) (\<lambda>rq.
            bnd (liftr (getAddressIfSet ob1)) (\<lambda>address.
            bnd (liftr (setOwner address rq)) (\<lambda>rq.
            bnd (liftr (setBackupOwner ''root'' rq)) (\<lambda>rq.
            bnd (oo_insert rq_c rq) (\<lambda>_.
            ret (retrieveQueueAddress, ob1))))))))))"

definition re_removeMissingRetrieveQueueReference :: "string \<Rightarrow> JobQueueType \<Rightarrow> root_entry oo \<Rightarrow> root_entry oo" where
  "re_removeMissingRetrieveQueueReference vid queueType ob =
     ob\<lparr>oo_payload := mutableRetrieveQueuePointers queueType (removeOccurences (\<lambda>rqp. rqp_vid rqp = vid)) (oo_payload ob)\<rparr>"

definition re_removeRetrieveQueueAndCommit ::
  "string \<Rightarrow> JobQueueType \<Rightarrow> root_entry oo \<Rightarrow> (world, root_entry oo) prog" where
  "re_removeRetrieveQueueAndCommit vid queueType ob =
     bnd (liftr (checkPayloadWritable ob)) (\<lambda>_.
     case findElement (\<lambda>rqp. rqp_vid rqp = vid) (retrieveQueuePointers queueType (oo_payload ob)) of
       Inl _ \<Rightarrow> throw NoSuchRetrieveQueue
     | Inr rqp \<Rightarrow>
         bnd (liftr (setAddress (rqp_address rqp) (oo_new rq_empty))) (\<lambda>rq.
         bnd (re_open_queue rq_c rq) (\<lambda>opened.
         bnd (case opened of
                None \<Rightarrow> ret ()
              | Some rq \<Rightarrow>
                  bnd (liftr (rq_getVid rq)) (\<lambda>v.
                  if v \<noteq> vid then throw WrongRetrieveQueue
                  else bnd (liftr (rq_isEmpty rq)) (\<lambda>empty.
                       if \<not> empty then throw RetrieveQueueNotEmpty else bnd (oo_remove rq) (\<lambda>_. ret ())))) (\<lambda>_.
         let ob1 = ob\<lparr>oo_payload := mutableRetrieveQueuePointers queueType (removeOccurences (\<lambda>rqp. rqp_vid rqp = vid)) (oo_payload ob)\<rparr>
         in bnd (oo_commit re_c ob1) (\<lambda>_. ret ob1)))))"

definition re_getRetrieveQueueAddress :: "string \<Rightarrow> JobQueueType \<Rightarrow> root_entry oo \<Rightarrow> exn + string" where
  "re_getRetrieveQueueAddress vid queueType ob = rbind (checkPayloadReadable ob) (\<lambda>_.
     case findElement (\<lambda>rqp. rqp_vid rqp = vid) (retrieveQueuePointers queueType (oo_payload ob)) of
       Inl _ \<Rightarrow> Inl NoSuchRetrieveQueue
     | Inr rqp \<Rightarrow> Inr (rqp_address rqp))"

definition re_dumpRetrieveQueues :: "JobQueueType \<Rightarrow> root_entry oo \<Rightarrow> exn + retrieve_queue_pointer list" where
  "re_dumpRetrieveQueues queueType ob = rbind (checkPayloadReadable ob) (\<lambda>_. Inr (retrieveQueuePointers queueType (oo_payload ob)))"

section \<open>Drive register\<close>

definition re_getDriveRegisterAddress :: "root_entry oo \<Rightarrow> exn + string" where
  "re_getDriveRegisterAddress ob = rbind (checkPayloadReadable ob) (\<lambda>_.
     case re_driveregisterpointer (oo_payload ob) of
       Some l \<Rightarrow> if lp_address l \<noteq> '''' then Inr (lp_address l) else Inl NotAllocated
     | None \<Rightarrow> Inl NotAllocated)"

definition re_addOrGetDriveRegisterPointerAndCommit :: "entry_log \<Rightarrow> root_entry oo \<Rightarrow> (world, string \<times> root_entry oo) prog" where
  "re_addOrGetDriveRegisterPointerAndCommit log ob =
     bnd (liftr (checkPayloadWritable ob)) (\<lambda>_.
     case re_getDriveRegisterAddress ob of
       Inr a \<Rightarrow> ret (a, ob)
     | Inl e \<Rightarrow>
         if e \<noteq> NotAllocated then throw e
         else
         bnd (nextId ''DriveRegister'') (\<lambda>drAddress.
         bnd (ref_addToOwnership drAddress) (\<lambda>_.
         bnd (liftr (dr_at drAddress)) (\<lambda>dr.
         bnd (liftr (dr_initialize dr)) (\<lambda>dr.
         bnd (asks getAgentAddress) (\<lambda>agentAddr.
         bnd (liftr (setOwner agentAddr dr)) (\<lambda>dr.
         bnd (liftr (getAddressIfSet ob)) (\<lambda>address.
         bnd (liftr (setBackupOwner address dr)) (\<lambda>dr.
         bnd (oo_insert dr_c dr) (\<lambda>dr.
         bnd (exclusive_lock dr) (\<lambda>dr.
         let ob1 = ob\<lparr>oo_payload := (oo_payload ob)\<lparr>re_driveregisterpointer := Some \<lparr>lp_address = drAddress, lp_log = log\<rparr>\<rparr>\<rparr>
         in bnd (oo_commit re_c ob1) (\<lambda>_.
            bnd (liftr (setOwner address dr)) (\<lambda>dr.
            bnd (liftr (setBackupOwner address dr)) (\<lambda>dr.
            bnd (oo_commit dr_c dr) (\<lambda>_.
            bnd (ref_removeFromOwnership drAddress) (\<lambda>_.
            ret (drAddress, ob1)))))))))))))))))"

definition re_removeDriveRegisterAndCommit :: "root_entry oo \<Rightarrow> (world, root_entry oo) prog" where
  "re_removeDriveRegisterAndCommit ob =
     bnd (liftr (checkPayloadWritable ob)) (\<lambda>_.
     case re_driveregisterpointer (oo_payload ob) of
       None \<Rightarrow> ret ob
     | Some l \<Rightarrow>
         if lp_address l = '''' then ret ob
         else bnd (liftr (dr_at (lp_address l))) (\<lambda>dr.
              bnd (exclusive_lock dr) (\<lambda>dr.
              bnd (oo_fetch dr_c dr) (\<lambda>dr.
              bnd (liftr (dr_isEmpty dr)) (\<lambda>empty.
              if \<not> empty then throw DriveRegisterNotEmpty
              else bnd (oo_remove dr) (\<lambda>_.
                   let ob1 = ob\<lparr>oo_payload := (oo_payload ob)\<lparr>re_driveregisterpointer := Some (l\<lparr>lp_address := ''''\<rparr>)\<rparr>\<rparr>
                   in bnd (oo_commit re_c ob1) (\<lambda>_. ret ob1)))))))"

section \<open>Agent register\<close>

definition re_getAgentRegisterAddress :: "root_entry oo \<Rightarrow> exn + string" where
  "re_getAgentRegisterAddress ob = rbind (checkPayloadReadable ob) (\<lambda>_.
     case re_agentregisterpointer (oo_payload ob) of
       Some l \<Rightarrow> if lp_address l \<noteq> '''' then Inr (lp_address l) else Inl NotAllocated
     | None \<Rightarrow> Inl NotAllocated)"

text \<open>An intended register left behind is fetched without having been locked.\<close>

definition re_addIntendedAgentRegistry :: "string \<Rightarrow> root_entry oo \<Rightarrow> (world, root_entry oo) prog" where
  "re_addIntendedAgentRegistry address ob =
     bnd (liftr (checkPayloadWritable ob)) (\<lambda>_.
     let p = oo_payload ob;
         ob1 = ob\<lparr>oo_payload := p\<lparr>re_agentregisterintent := address\<rparr>\<rparr>
     in if pointer_set (re_agentregisterpointer p) then throw (CtaException ''RootEntry::addIntendedAgentRegistry'')
        else if re_agentregisterintent p = '''' then ret ob1
        else bnd (asks (vfs_exists (re_agentregisterintent p))) (\<lambda>there.
             if \<not> there then ret ob1
             else bnd (liftr (agr_at (re_agentregisterintent p))) (\<lambda>iar.
                  bnd (oo_fetch agr_c iar) (\<lambda>iar.
                  bnd (liftr (agr_isEmpty iar)) (\<lambda>empty.
                  if \<not> empty then throw AgentRegisterNotEmpty
                  else bnd (oo_remove iar) (\<lambda>_. ret ob1))))))"

definition re_createAgentRegister :: "entry_log \<Rightarrow> root_entry oo \<Rightarrow> (world, string \<times> root_entry oo) prog" where
  "re_createAgentRegister log ob =
     bnd (nextId ''AgentRegister'') (\<lambda>arAddress.
     bnd (re_addIntendedAgentRegistry arAddress ob) (\<lambda>ob.
     bnd (oo_commit re_c ob) (\<lambda>_.
     bnd (liftr (agr_at arAddress)) (\<lambda>ar.
     bnd (liftr (agr_initialize ar)) (\<lambda>ar.
     bnd (liftr (setOwner '''' ar)) (\<lambda>ar.
     bnd (liftr (setBackupOwner '''' ar)) (\<lambda>ar.
     bnd (oo_insert agr_c ar) (\<lambda>ar.
     bnd (exclusive_lock ar) (\<lambda>ar.
     let ob1 = ob\<lparr>oo_payload := (oo_payload ob)\<lparr>re_agentregisterpointer := Some \<lparr>lp_address = arAddress, lp_log = log\<rparr>,
                  re_agentregisterintent := ''''\<rparr>\<rparr>
     in bnd (oo_commit re_c ob1) (\<lambda>_.
        bnd (liftr (getAddressIfSet ob1)) (\<lambda>address.
        bnd (liftr (setOwner address ar)) (\<lambda>ar.
        bnd (liftr (setBackupOwner address ar)) (\<lambda>ar.
        bnd (oo_commit agr_c ar) (\<lambda>_.
        ret (arAddress, ob1)))))))))))))))"

definition re_addOrGetAgentRegisterPointerAndCommit :: "entry_log \<Rightarrow> root_entry oo \<Rightarrow> (world, string \<times> root_entry oo) prog" where
  "re_addOrGetAgentRegisterPointerAndCommit log ob =
     (case re_getAgentRegisterAddress ob of
       Inr a \<Rightarrow> ret (a, ob)
     | Inl e \<Rightarrow>
         if e \<noteq> NotAllocated then throw e
         else bnd (liftr (checkPayloadWritable ob)) (\<lambda>_.
              bnd (oo_fetch re_c ob) (\<lambda>ob.
              case re_agentregisterpointer (oo_payload ob) of
                Some l \<Rightarrow> if lp_address l \<noteq> '''' then ret (lp_address l, ob) else re_createAgentRegister log ob
              | None \<Rightarrow> re_createAgentRegister log ob)))"

definition re_removeIntendedAgentRegister :: "root_entry oo \<Rightarrow> (world, root_entry oo) prog" where
  "re_removeIntendedAgentRegister ob =
     (let p = oo_payload ob
      in if re_agentregisterintent p = '''' then ret ob
         else bnd (liftr (agr_at (re_agentregisterintent p))) (\<lambda>iar.
              bnd (exclusive_lock iar) (\<lambda>iar.
              bnd (oo_fetch agr_c iar) (\<lambda>iar.
              bnd (liftr (agr_isEmpty iar)) (\<lambda>empty.
              if \<not> empty then throw AgentRegisterNotEmpty
              else bnd (oo_remove iar) (\<lambda>_.
                   let ob1 = ob\<lparr>oo_payload := p\<lparr>re_agentregisterintent := ''''\<rparr>\<rparr>
                   in bnd (oo_commit re_c ob1) (\<lambda>_. ret ob1)))))))"

definition re_removeAgentRegisterAndCommit :: "root_entry oo \<Rightarrow> (world, root_entry oo) prog" where
  "re_removeAgentRegisterAndCommit ob =
     bnd (liftr (checkPayloadWritable ob)) (\<lambda>_.
     bnd (re_removeIntendedAgentRegister ob) (\<lambda>ob.
     case re_agentregisterpointer (oo_payload ob) of
       None \<Rightarrow> ret ob
     | Some l \<Rightarrow>
         if lp_address l = '''' then ret ob
         else bnd (liftr (agr_at (lp_address l))) (\<lambda>ar.
              bnd (exclusive_lock ar) (\<lambda>ar.
              bnd (oo_fetch agr_c ar) (\<lambda>ar.
              bnd (liftr (agr_isEmpty ar)) (\<lambda>empty.
              if \<not> empty then throw AgentRegisterNotEmpty
              else bnd (oo_remove ar) (\<lambda>_.
                   let ob1 = ob\<lparr>oo_payload := (oo_payload ob)\<lparr>re_agentregisterpointer := Some (l\<lparr>lp_address := ''''\<rparr>)\<rparr>\<rparr>
                   in bnd (oo_commit re_c ob1) (\<lambda>_. ret ob1))))))))"

section \<open>Scheduler global lock\<close>

definition re_getSchedulerGlobalLock :: "root_entry oo \<Rightarrow> exn + string" where
  "re_getSchedulerGlobalLock ob = rbind (checkPayloadReadable ob) (\<lambda>_.
     case re_schedulerlockpointer (oo_payload ob) of
       Some l \<Rightarrow> if lp_address l \<noteq> '''' then Inr (lp_address l) else Inl NotAllocated
     | None \<Rightarrow> Inl NotAllocated)"

definition re_addOrGetSchedulerGlobalLockAndCommit :: "entry_log \<Rightarrow> root_entry oo \<Rightarrow> (world, string \<times> root_entry oo) prog" where
  "re_addOrGetSchedulerGlobalLockAndCommit log ob =
     bnd (liftr (checkPayloadWritable ob)) (\<lambda>_.
     case re_getSchedulerGlobalLock ob of
       Inr a \<Rightarrow> ret (a, ob)
     | Inl e \<Rightarrow>
         if e \<noteq> NotAllocated then throw e
         else
         bnd (nextId ''SchedulerGlobalLock'') (\<lambda>sglAddress.
         bnd (ref_addToOwnership sglAddress) (\<lambda>_.
         bnd (liftr (sgl_at sglAddress)) (\<lambda>sgl.
         bnd (liftr (sgl_initialize sgl)) (\<lambda>sgl.
         bnd (asks getAgentAddress) (\<lambda>agentAddr.
         bnd (liftr (setOwner agentAddr sgl)) (\<lambda>sgl.
         bnd (liftr (getAddressIfSet ob)) (\<lambda>address.
         bnd (liftr (setBackupOwner address sgl)) (\<lambda>sgl.
         bnd (oo_insert sgl_c sgl) (\<lambda>sgl.
         bnd (exclusive_lock sgl) (\<lambda>sgl.
         let ob1 = ob\<lparr>oo_payload := (oo_payload ob)\<lparr>re_schedulerlockpointer := Some \<lparr>lp_address = sglAddress, lp_log = log\<rparr>\<rparr>\<rparr>
         in bnd (oo_commit re_c ob1) (\<lambda>_.
            bnd (liftr (setOwner address sgl)) (\<lambda>sgl.
            bnd (liftr (setBackupOwner address sgl)) (\<lambda>sgl.
            bnd (oo_commit sgl_c sgl) (\<lambda>_.
            bnd (ref_removeFromOwnership sglAddress) (\<lambda>_.
            ret (sglAddress, ob1)))))))))))))))))"

definition re_removeSchedulerGlobalLockAndCommit :: "root_entry oo \<Rightarrow> (world, root_entry oo) prog" where
  "re_removeSchedulerGlobalLockAndCommit ob =
     bnd (liftr (checkPayloadWritable ob)) (\<lambda>_.
     case re_schedulerlockpointer (oo_payload ob) of
       None \<Rightarrow> ret ob
     | Some l \<Rightarrow>
         if lp_address l = '''' then ret ob
         else bnd (liftr (sgl_at (lp_address l))) (\<lambda>sgl.
              bnd (exclusive_lock sgl) (\<lambda>sgl.
              bnd (oo_fetch sgl_c sgl) (\<lambda>sgl.
              bnd (liftr (sgl_isEmpty sgl)) (\<lambda>empty.
              if \<not> empty then throw DriveRegisterNotEmpty
              else bnd (oo_remove sgl) (\<lambda>_.
                   let ob1 = ob\<lparr>oo_payload := (oo_payload ob)\<lparr>re_schedulerlockpointer := Some (l\<lparr>lp_address := ''''\<rparr>)\<rparr>\<rparr>
                   in bnd (oo_commit re_c ob1) (\<lambda>_. ret ob1)))))))"

section \<open>Repack index and repack queues\<close>

definition re_getRepackIndexAddress :: "root_entry oo \<Rightarrow> exn + string" where
  "re_getRepackIndexAddress ob = rbind (checkPayloadReadable ob) (\<lambda>_.
     case re_repackindexpointer (oo_payload ob) of
       Some a \<Rightarrow> if a \<noteq> '''' then Inr a else Inl (CtaException ''RootEntry::getRepackIndexAddress'')
     | None \<Rightarrow> Inl (CtaException ''RootEntry::getRepackIndexAddress''))"

definition re_addOrGetRepackIndexAndCommit :: "root_entry oo \<Rightarrow> (world, string \<times> root_entry oo) prog" where
  "re_addOrGetRepackIndexAndCommit ob =
     bnd (liftr (checkPayloadWritable ob)) (\<lambda>_.
     case re_getRepackIndexAddress ob of
       Inr a \<Rightarrow> ret (a, ob)
     | Inl _ \<Rightarrow>
         bnd (nextId ''RepackIndex'') (\<lambda>rtrAddress.
         bnd (liftr (ri_at rtrAddress)) (\<lambda>ri.
         bnd (liftr (ri_initialize ri)) (\<lambda>ri.
         bnd (liftr (getAddressIfSet ob)) (\<lambda>address.
         bnd (liftr (setOwner address ri)) (\<lambda>ri.
         bnd (liftr (setBackupOwner address ri)) (\<lambda>ri.
         let ob1 = ob\<lparr>oo_payload := (oo_payload ob)\<lparr>re_repackindexpointer := Some rtrAddress\<rparr>\<rparr>
         in bnd (oo_commit re_c ob1) (\<lambda>_.
            bnd (oo_insert ri_c ri) (\<lambda>_.
            ret (rtrAddress, ob1))))))))))"

definition re_removeRepackIndexAndCommit :: "root_entry oo \<Rightarrow> (world, root_entry oo) prog" where
  "re_removeRepackIndexAndCommit ob =
     bnd (liftr (checkPayloadWritable ob)) (\<lambda>_.
     case re_repackindexpointer (oo_payload ob) of
       None \<Rightarrow> ret ob
     | Some a \<Rightarrow>
         if a = '''' then ret ob
         else bnd (catch_none NoSuchObject (
                bnd (liftr (ri_at a)) (\<lambda>ri.
                bnd (exclusive_lock ri) (\<lambda>ri.
                bnd (oo_fetch ri_c ri) (\<lambda>ri.
                bnd (liftr (ri_isEmpty ri)) (\<lambda>empty.
                if \<not> empty then throw DriveRegisterNotEmpty else bnd (oo_remove ri) (\<lambda>_. ret ())))))))
              (\<lambda>_. let ob1 = ob\<lparr>oo_payload := (oo_payload ob)\<lparr>re_repackindexpointer := Some ''''\<rparr>\<rparr>
              in bnd (oo_commit re_c ob1) (\<lambda>_. ret ob1)))"

datatype RepackQueueType = RepackQueuePending | RepackQueueToExpand

fun repackQueuePointer :: "RepackQueueType \<Rightarrow> root_entry \<Rightarrow> string option" where
  "repackQueuePointer RepackQueuePending p = re_repackrequestspendingqueuepointer p"
| "repackQueuePointer RepackQueueToExpand p = re_repackrequeststoexpandqueuepointer p"

fun set_repackQueuePointer :: "RepackQueueType \<Rightarrow> string option \<Rightarrow> root_entry \<Rightarrow> root_entry" where
  "set_repackQueuePointer RepackQueuePending a p = p\<lparr>re_repackrequestspendingqueuepointer := a\<rparr>"
| "set_repackQueuePointer RepackQueueToExpand a p = p\<lparr>re_repackrequeststoexpandqueuepointer := a\<rparr>"

definition re_getRepackQueueAddress :: "RepackQueueType \<Rightarrow> root_entry oo \<Rightarrow> exn + string" where
  "re_getRepackQueueAddress queueType ob = rbind (checkPayloadReadable ob) (\<lambda>_.
     case repackQueuePointer queueType (oo_payload ob) of None \<Rightarrow> Inl NoSuchRepackQueue | Some a \<Rightarrow> Inr a)"

text \<open>\<open>mutable_..._pointer()->Clear()\<close> keeps the pointer and empties its address.\<close>

definition re_clearRepackQueueAddress :: "RepackQueueType \<Rightarrow> root_entry oo \<Rightarrow> exn + root_entry oo" where
  "re_clearRepackQueueAddress queueType ob = rbind (checkPayloadWritable ob) (\<lambda>_.
     case repackQueuePointer queueType (oo_payload ob) of
       None \<Rightarrow> Inl NoSuchRepackQueue
     | Some _ \<Rightarrow> Inr (ob\<lparr>oo_payload := set_repackQueuePointer queueType (Some '''') (oo_payload ob)\<rparr>))"

definition re_removeRepackQueueAndCommit :: "RepackQueueType \<Rightarrow> root_entry oo \<Rightarrow> (world, root_entry oo) prog" where
  "re_removeRepackQueueAndCommit queueType ob =
     bnd (liftr (checkPayloadWritable ob)) (\<lambda>_.
     case repackQueuePointer queueType (oo_payload ob) of
       None \<Rightarrow> throw NoSuchRepackQueue
     | Some queueAddress \<Rightarrow>
         bnd (liftr (rpq_at queueAddress)) (\<lambda>rq.
         bnd (re_open_queue rpq_c rq) (\<lambda>opened.
         bnd (case opened of
                None \<Rightarrow> ret ()
              | Some rq \<Rightarrow>
                  bnd (liftr (rpq_isEmpty rq)) (\<lambda>empty.
                  if \<not> empty then throw RepackQueueNotEmpty else bnd (oo_remove rq) (\<lambda>_. ret ()))) (\<lambda>_.
         let ob1 = ob\<lparr>oo_payload := set_repackQueuePointer queueType None (oo_payload ob)\<rparr>
         in bnd (oo_commit re_c ob1) (\<lambda>_. ret ob1)))))"

fun repackQueueNameHeader :: "RepackQueueType \<Rightarrow> string" where
  "repackQueueNameHeader RepackQueuePending = ''RepackQueuePending''"
| "repackQueueNameHeader RepackQueueToExpand = ''RepackQueueToExpand''"

definition re_addOrGetRepackQueueAndCommit :: "RepackQueueType \<Rightarrow> root_entry oo \<Rightarrow> (world, string \<times> root_entry oo) prog" where
  "re_addOrGetRepackQueueAndCommit queueType ob =
     bnd (liftr (checkPayloadWritable ob)) (\<lambda>_.
     case re_getRepackQueueAddress queueType ob of
       Inr a \<Rightarrow> ret (a, ob)
     | Inl e \<Rightarrow>
         if e \<noteq> NoSuchRepackQueue then throw e
         else
         bnd (nextId (repackQueueNameHeader queueType)) (\<lambda>repackQueueAddress.
         let ob1 = ob\<lparr>oo_payload := set_repackQueuePointer queueType (Some repackQueueAddress) (oo_payload ob)\<rparr>
         in bnd (oo_commit re_c ob1) (\<lambda>_.
            bnd (liftr (rpq_at repackQueueAddress)) (\<lambda>rq.
            bnd (liftr (rpq_initialize rq)) (\<lambda>rq.
            bnd (liftr (getAddressIfSet ob1)) (\<lambda>address.
            bnd (liftr (setOwner address rq)) (\<lambda>rq.
            bnd (liftr (setBackupOwner address rq)) (\<lambda>rq.
            bnd (oo_insert rpq_c rq) (\<lambda>_.
            ret (repackQueueAddress, ob1))))))))))"

section \<open>Agents and the root entry\<close>

text \<open>\<open>Agent::insertAndRegisterSelf\<close>: the pointer in the register comes before the agent object.\<close>

definition ag_insertAndRegisterSelf :: "agent oo \<Rightarrow> (world, agent oo) prog" where
  "ag_insertAndRegisterSelf ob =
     bnd (liftr re_at) (\<lambda>re.
     bnd (shared_lock re) (\<lambda>re.
     bnd (oo_fetch re_c re) (\<lambda>re.
     bnd (liftr (re_getAgentRegisterAddress re)) (\<lambda>arAddress.
     bnd (liftr (agr_at arAddress)) (\<lambda>ar.
     bnd (exclusive_lock ar) (\<lambda>ar.
     bnd (oo_fetch agr_c ar) (\<lambda>ar.
     bnd (liftr (getAddressIfSet ob)) (\<lambda>name.
     bnd (liftr (agr_addAgent name ar)) (\<lambda>ar.
     bnd (oo_commit agr_c ar) (\<lambda>_.
     bnd (liftr (getAddressIfSet ar)) (\<lambda>arName.
     bnd (liftr (setBackupOwner arName ob)) (\<lambda>ob.
     bnd (liftr (setOwner arName ob)) (\<lambda>ob.
     oo_insert ag_c ob)))))))))))))"

text \<open>\<open>Agent::removeAndUnregisterSelf\<close>: the agent object goes before the pointer to it.\<close>

definition ag_removeAndUnregisterSelf :: "agent oo \<Rightarrow> (world, agent oo) prog" where
  "ag_removeAndUnregisterSelf ob =
     bnd (liftr (checkPayloadWritable ob)) (\<lambda>_.
     bnd (liftr (ag_isEmpty ob)) (\<lambda>empty.
     if \<not> empty then throw AgentStillOwnsObjects
     else bnd (oo_remove ob) (\<lambda>ob1.
          bnd (liftr re_at) (\<lambda>re.
          bnd (oo_fetchNoLock re_c re) (\<lambda>re.
          bnd (liftr (re_getAgentRegisterAddress re)) (\<lambda>arAddress.
          bnd (liftr (agr_at arAddress)) (\<lambda>ar.
          bnd (exclusive_lock ar) (\<lambda>ar.
          bnd (oo_fetch agr_c ar) (\<lambda>ar.
          bnd (liftr (getAddressIfSet ob1)) (\<lambda>name.
          bnd (liftr (agr_removeAgent name ar)) (\<lambda>ar.
          bnd (oo_commit agr_c ar) (\<lambda>_.
          ret ob1))))))))))))"

definition ag_garbageCollect :: "string \<Rightarrow> agent oo \<Rightarrow> (world, agent oo) prog" where
  "ag_garbageCollect presumedOwner ob =
     bnd (liftr (checkPayloadWritable ob)) (\<lambda>_.
     if oo_owner ob \<noteq> presumedOwner then ret ob
     else bnd (liftr re_at) (\<lambda>re.
          bnd (shared_lock re) (\<lambda>re.
          bnd (oo_fetch re_c re) (\<lambda>re.
          bnd (liftr (re_getAgentRegisterAddress re)) (\<lambda>arAddress.
          bnd (liftr (agr_at arAddress)) (\<lambda>ar.
          bnd (exclusive_lock ar) (\<lambda>ar.
          bnd (oo_fetch agr_c ar) (\<lambda>ar.
          bnd (liftr (getAddressIfSet ob)) (\<lambda>name.
          bnd (liftr (agr_untrackAgent name ar)) (\<lambda>ar.
          bnd (oo_commit agr_c ar) (\<lambda>_.
          bnd (liftr (getAddressIfSet ar)) (\<lambda>arName.
          bnd (liftr (setOwner arName ob)) (\<lambda>ob.
          bnd (oo_commit ag_c ob) (\<lambda>_.
          ret ob))))))))))))))"

section \<open>Collection of the drive register and of the scheduler's lock\<close>

text \<open>
  Both look whether the root entry points to the object: \<open>pointed\<close> is the address the root entry has for it.
  When it does, the object is given to the root entry, otherwise it is removed when it is empty.
\<close>

definition collect_unpointed ::
  "'p codec \<Rightarrow> ('p oo \<Rightarrow> exn + bool) \<Rightarrow> (root_entry oo \<Rightarrow> exn + string) \<Rightarrow> string \<Rightarrow> 'p oo \<Rightarrow> (world, 'p oo) prog" where
  "collect_unpointed c isEmpty pointed presumedOwner ob =
     bnd (liftr (checkPayloadWritable ob)) (\<lambda>_.
     if presumedOwner \<noteq> oo_owner ob then ret ob
     else bnd (liftr re_at) (\<lambda>re.
          bnd (shared_lock re) (\<lambda>re.
          bnd (oo_fetch re_c re) (\<lambda>re.
          bnd (liftr (getAddressIfSet ob)) (\<lambda>address.
          bnd (case pointed re of
                 Inr a \<Rightarrow> ret (a = address)
               | Inl e \<Rightarrow> if e = NotAllocated then ret False else throw e) (\<lambda>referenced.
          if referenced
          then bnd (liftr (getAddressIfSet re)) (\<lambda>reAddress.
               bnd (liftr (setOwner reAddress ob)) (\<lambda>ob1.
               bnd (oo_commit c ob1) (\<lambda>_. ret ob1)))
          else bnd (liftr (isEmpty ob)) (\<lambda>e. if \<not> e then throw NotEmpty else oo_remove ob)))))))"

text \<open>\<open>DriveRegister::garbageCollect\<close> compares its address with that of the agent register.\<close>

definition dr_garbageCollect :: "string \<Rightarrow> drive_register oo \<Rightarrow> (world, drive_register oo) prog" where
  "dr_garbageCollect = collect_unpointed dr_c dr_isEmpty re_getAgentRegisterAddress"

definition sgl_garbageCollect :: "string \<Rightarrow> scheduler_global_lock oo \<Rightarrow> (world, scheduler_global_lock oo) prog" where
  "sgl_garbageCollect = collect_unpointed sgl_c sgl_isEmpty re_getSchedulerGlobalLock"

end
