(* ===== verification/QueueDirectory.thy ===== *)
theory QueueDirectory
  imports RootEntry ArchiveQueueOps
begin

text \<open>
  The lists of queue pointers in the root entry, seen as a finite map from queue types and names to addresses,
  and what creating and removing a queue does to that map and to the store. The theorems on the root entry and
  on the container algorithms share these lemmas.
\<close>

section \<open>Pointer lists\<close>

lemma re_at_eq: "re_at = Inr ((oo_new re_empty)\<lparr>oo_name := re_address, oo_nameSet := True\<rparr>)"
  by (simp add: re_at_def re_address_def setAddress_new)

lemma findElement_none: "findElement P xs = Inl e \<longleftrightarrow> e = SerializersNotFound \<and> (\<forall>x \<in> set xs. \<not> P x)"
  by (induction xs) (auto simp: findElement_def split: option.splits)

lemma findElement_some: "findElement P xs = Inr x \<Longrightarrow> x \<in> set xs \<and> P x"
  by (auto simp: findElement_def find_Some_iff split: option.splits)

lemma findElement_append: "findElement P (xs @ ys) = (case findElement P xs of Inl _ \<Rightarrow> findElement P ys | Inr x \<Rightarrow> Inr x)"
  by (induction xs) (auto simp: findElement_def split: option.splits)

lemma findElement_key:
  "distinct (map key xs) \<Longrightarrow> findElement (\<lambda>x. key x = k) xs = Inr x \<longleftrightarrow> x \<in> set xs \<and> key x = k"
proof (induction xs)
  case (Cons y xs)
  then show ?case by (cases "key y = k") (auto simp: findElement_def rev_image_eqI)
qed (simp add: findElement_def)

lemma findElement_same_set:
  assumes "distinct (map key xs)" and "distinct (map key ys)" and "{x \<in> set xs. key x = k} = {x \<in> set ys. key x = k}"
  shows "findElement (\<lambda>x. key x = k) xs = findElement (\<lambda>x. key x = k) ys"
proof (cases "findElement (\<lambda>x. key x = k) xs")
  case (Inl e)
  then have "findElement (\<lambda>x. key x = k) ys = Inl e" using assms(3) by (auto simp: findElement_none)
  with Inl show ?thesis by simp
next
  case (Inr x)
  then have "findElement (\<lambda>x. key x = k) ys = Inr x" using assms by (auto simp: findElement_key)
  with Inr show ?thesis by simp
qed

lemma distinct_map_removeOccurences: "distinct (map key xs) \<Longrightarrow> distinct (map key (removeOccurences P xs))"
proof -
  assume d: "distinct (map key xs)"
  have "mset (removeOccurences P xs) = mset (filter (\<lambda>x. \<not> P x) xs)" by (simp add: mset_removeOccurences)
  then have "mset (map key (removeOccurences P xs)) = mset (map key (filter (\<lambda>x. \<not> P x) xs))" by simp
  then show ?thesis using distinct_map_filter [OF d] by (metis mset_eq_imp_distinct_iff)
qed

text \<open>
  What the two helpers on a family of pointer lists, one list for each type of queue, give: the list of a
  type changes as asked, those of the other types do not. With it, a directory in which the names of each
  type are distinct behaves as a finite map from types and names to pointers.
\<close>

locale pointer_lists =
  fixes ptrs :: "JobQueueType \<Rightarrow> root_entry \<Rightarrow> 'a list"
    and upd :: "JobQueueType \<Rightarrow> ('a list \<Rightarrow> 'a list) \<Rightarrow> root_entry \<Rightarrow> root_entry"
    and key :: "'a \<Rightarrow> string"
  assumes same: "ptrs qt (upd qt f p) = f (ptrs qt p)"
    and other: "qt' \<noteq> qt \<Longrightarrow> ptrs qt' (upd qt f p) = ptrs qt' p"
begin

lemma found_add:
  assumes "findElement (\<lambda>x. key x = key y) (ptrs qt p) = Inl e"
  shows "findElement (\<lambda>x. key x = k) (ptrs qt' (upd qt (\<lambda>ps. ps @ [y]) p))
    = (if qt' = qt \<and> k = key y then Inr y else findElement (\<lambda>x. key x = k) (ptrs qt' p))"
proof (cases "qt' = qt")
  case True
  have "findElement (\<lambda>x. key x = k) (zs @ [y]) = (if k = key y then Inr y else findElement (\<lambda>x. key x = k) zs)"
    if "\<forall>x \<in> set zs. key x \<noteq> key y" for zs
    using that by (induction zs) (auto simp: findElement_def split: option.splits)
  with assms True show ?thesis by (simp add: same findElement_none)
qed (simp add: other)

lemma unique_add:
  assumes "findElement (\<lambda>x. key x = key y) (ptrs qt p) = Inl e" and "distinct (map key (ptrs qt' p))"
  shows "distinct (map key (ptrs qt' (upd qt (\<lambda>ps. ps @ [y]) p)))"
  using assms by (cases "qt' = qt") (auto simp: same other findElement_none)

lemma unique_remove:
  assumes "distinct (map key (ptrs qt' p))"
  shows "distinct (map key (ptrs qt' (upd qt (removeOccurences P) p)))"
  using assms by (cases "qt' = qt") (simp_all add: same other distinct_map_removeOccurences)

lemma found_remove:
  assumes "distinct (map key (ptrs qt p))"
  shows "findElement (\<lambda>x. key x = k') (ptrs qt' (upd qt (removeOccurences (\<lambda>x. key x = k)) p))
    = (if qt' = qt \<and> k' = k then Inl SerializersNotFound else findElement (\<lambda>x. key x = k') (ptrs qt' p))"
proof (cases "qt' = qt \<and> k' \<noteq> k")
  case True
  then have "findElement (\<lambda>x. key x = k') (removeOccurences (\<lambda>x. key x = k) (ptrs qt p)) = findElement (\<lambda>x. key x = k') (ptrs qt p)"
    using assms by (intro findElement_same_set distinct_map_removeOccurences) auto
  with True show ?thesis by (simp add: same)
qed (auto simp: same other findElement_none)

end

interpretation aqd: pointer_lists archiveQueuePointers mutableArchiveQueuePointers aqp_name
proof
  show "archiveQueuePointers qt (mutableArchiveQueuePointers qt f p) = f (archiveQueuePointers qt p)" for qt f p
    by (cases qt) simp_all
  show "archiveQueuePointers qt' (mutableArchiveQueuePointers qt f p) = archiveQueuePointers qt' p" if "qt' \<noteq> qt" for qt' qt f p
    using that by (cases qt; cases qt') simp_all
qed

interpretation rqd: pointer_lists retrieveQueuePointers mutableRetrieveQueuePointers rqp_vid
proof
  show "retrieveQueuePointers qt (mutableRetrieveQueuePointers qt f p) = f (retrieveQueuePointers qt p)" for qt f p
    by (cases qt) simp_all
  show "retrieveQueuePointers qt' (mutableRetrieveQueuePointers qt f p) = retrieveQueuePointers qt' p" if "qt' \<noteq> qt" for qt' qt f p
    using that by (cases qt; cases qt') simp_all
qed

lemma aq_new_owned:
  assumes "a \<noteq> ''''"
  shows "\<exists>q0 q1 q. aq_initialize tp ((oo_new aq_empty)\<lparr>oo_name := a, oo_nameSet := True\<rparr>) = Inr q0 \<and> setOwner own q0 = Inr q1
    \<and> setBackupOwner own q1 = Inr q \<and> usable q a False \<and> aq_tapepool (oo_payload q) = tp
    \<and> aq_rep (oo_payload q) [] \<and> oo_owner q = own"
  using assms by (simp add: aq_initialize_def oo_defs check_defs usable_def aq_empty_def aq_rep_def aq_sums_def aq_maps_def represents_empty)

text \<open>What opening a queue for its removal gives: the queue, held, or nothing when it is not in the store.\<close>

lemma re_open_queue_stored:
  assumes "codec_ok c" and "stored c w a p"
  shows "\<exists>ob. re_open_queue c ((oo_new p0)\<lparr>oo_name := a, oo_nameSet := True\<rparr>) w = (Inr (Some ob), w)
    \<and> held ob \<and> oo_name ob = a \<and> oo_payload ob = p"
proof -
  obtain s1 ob where o: "exclusive_lock ((oo_new p0)\<lparr>oo_name := a, oo_nameSet := True\<rparr>) w = (Inr s1, w)" "oo_fetch c s1 w = (Inr ob, w)"
    "held ob" "oo_name ob = a" "oo_payload ob = p"
    using exclusive_fetch_stored [OF assms, of p0] by (elim exE conjE)
  have "re_open_queue c ((oo_new p0)\<lparr>oo_name := a, oo_nameSet := True\<rparr>) w = (Inr (Some ob), w)"
    unfolding re_open_queue_def by (rule caught_simps(1)) (simp add: o)
  with o show ?thesis by blast
qed

lemma re_open_queue_missing:
  assumes "missing w a" and "\<not> lockFiles w a"
  shows "re_open_queue c ((oo_new p0)\<lparr>oo_name := a, oo_nameSet := True\<rparr>) w = (Inr None, w)"
proof -
  have "bnd (exclusive_lock ((oo_new p0)\<lparr>oo_name := a, oo_nameSet := True\<rparr>)) (\<lambda>q1. bnd (oo_fetch c q1) (\<lambda>q2. ret (Some q2))) w = (Inl NoSuchObject, w)"
    by (simp add: exclusive_lock_missing [OF assms])
  moreover have "oo_exists ((oo_new p0)\<lparr>oo_name := a, oo_nameSet := True\<rparr>) w = (Inr False, w)"
    using assms by (simp add: oo_exists_def getAddressIfSet_def vfs_exists_def missing_def)
  ultimately show ?thesis by (simp add: re_open_queue_def is_cta_exception_def bnd_def)
qed

section \<open>The directory of archive queues\<close>

definition archive_queue_of :: "root_entry \<Rightarrow> JobQueueType \<Rightarrow> string \<Rightarrow> string option" where
  "archive_queue_of r qt tp = (case findElement (\<lambda>tpp. aqp_name tpp = tp) (archiveQueuePointers qt r) of
     Inl _ \<Rightarrow> None | Inr tpp \<Rightarrow> Some (aqp_address tpp))"

lemma re_getArchiveQueueAddress_eq:
  "checkPayloadReadable ob = Inr () \<Longrightarrow> re_getArchiveQueueAddress tp qt ob
     = (case archive_queue_of (oo_payload ob) qt tp of None \<Rightarrow> Inl NoSuchArchiveQueue | Some a \<Rightarrow> Inr a)"
  by (simp add: re_getArchiveQueueAddress_def archive_queue_of_def split: sum.split)

lemma re_archive_queue_new:
  assumes ob: "held ob" "oo_name ob = re_address" "stored re_c w re_address (oo_payload ob)"
    and none: "archive_queue_of (oo_payload ob) qt tp = None"
    and a: "nextId (archiveQueueNameHeader qt @ ''-'' @ tp) w = (Inr a, w')" and fresh: "objects w a = None" "\<not> lockFiles w a"
  shows "\<exists>ob1 q. re_addOrGetArchiveQueueAndCommit tp qt ob w = (Inr (a, ob1),
      w'\<lparr>objects := (objects w)(re_address \<mapsto> oo_header re_c ob1, a \<mapsto> oo_header aq_c q), lockFiles := (lockFiles w)(a := True)\<rparr>)
    \<and> held ob1 \<and> oo_name ob1 = re_address
    \<and> (\<forall>qt' tp'. archive_queue_of (oo_payload ob1) qt' tp'
         = (if qt' = qt \<and> tp' = tp then Some a else archive_queue_of (oo_payload ob) qt' tp'))
    \<and> (\<forall>qt'. distinct (map aqp_name (archiveQueuePointers qt' (oo_payload ob))) \<longrightarrow> distinct (map aqp_name (archiveQueuePointers qt' (oo_payload ob1))))
    \<and> aq_tapepool (oo_payload q) = tp \<and> aq_rep (oo_payload q) [] \<and> oo_owner q = re_address"
proof -
  let ?new = "\<lparr>aqp_address = a, aqp_name = tp\<rparr>"
  define ob1 where "ob1 = ob\<lparr>oo_payload := mutableArchiveQueuePointers qt (\<lambda>ps. ps @ [?new]) (oo_payload ob)\<rparr>"
  define wa where "wa = w'\<lparr>objects := (objects w')(re_address \<mapsto> oo_header re_c ob1)\<rparr>"
  obtain e where Inl: "findElement (\<lambda>tpp. aqp_name tpp = tp) (archiveQueuePointers qt (oo_payload ob)) = Inl e"
    using none by (auto simp: archive_queue_of_def split: sum.splits)
  have w': "objects w' = objects w" "lockFiles w' = lockFiles w" "a \<noteq> []" using a by (auto simp: nextId_def childId_def)
  have neq: "a \<noteq> re_address" and root: "lockFiles w re_address" "objects w re_address \<noteq> None" "re_address \<noteq> []"
    using storedD [OF ob(3)] fresh(1) by auto
  have ob1: "held ob1" "oo_name ob1 = re_address" using ob by (simp_all add: ob1_def)
  have com: "oo_commit re_c ob1 w' = (Inr (), wa)" using ob1 root w' by (simp add: oo_commit_held vfs_exists_def wa_def)
  obtain q0 q1 q where q: "aq_initialize tp ((oo_new aq_empty)\<lparr>oo_name := a, oo_nameSet := True\<rparr>) = Inr q0" "setOwner re_address q0 = Inr q1"
    "setBackupOwner re_address q1 = Inr q" "usable q a False" "aq_tapepool (oo_payload q) = tp"
    "aq_rep (oo_payload q) []" "oo_owner q = re_address"
    using aq_new_owned [OF w'(3), of tp re_address] by (elim exE conjE)
  let ?w1 = "wa\<lparr>objects := (objects wa)(a \<mapsto> oo_header aq_c q), lockFiles := (lockFiles wa)(a := True)\<rparr>"
  have "\<not> lockFiles wa a" "objects wa a = None" using fresh neq w' by (simp_all add: wa_def)
  from usable_insert [OF q(4) this] obtain q' where "oo_insert aq_c q wa = (Inr q', ?w1)" by blast
  then have run: "re_addOrGetArchiveQueueAndCommit tp qt ob w = (Inr (a, ob1), ?w1)"
    using Inl ob(1,2) q(1-3) com a w'(3) ob1
    by (simp add: re_addOrGetArchiveQueueAndCommit_def ob1_def [symmetric] setAddress_new Let_def)
  have "findElement (\<lambda>x. aqp_name x = tp') (archiveQueuePointers qt' (oo_payload ob1))
      = (if qt' = qt \<and> tp' = tp then Inr ?new else findElement (\<lambda>x. aqp_name x = tp') (archiveQueuePointers qt' (oo_payload ob)))" for tp' qt'
    using aqd.found_add [of ?new qt "oo_payload ob" e tp' qt'] Inl by (simp add: ob1_def)
  then have "\<forall>qt' tp'. archive_queue_of (oo_payload ob1) qt' tp' = (if qt' = qt \<and> tp' = tp then Some a else archive_queue_of (oo_payload ob) qt' tp')"
    by (simp add: archive_queue_of_def)
  moreover have "distinct (map aqp_name (archiveQueuePointers qt' (oo_payload ob1)))"
    if "distinct (map aqp_name (archiveQueuePointers qt' (oo_payload ob)))" for qt'
    using aqd.unique_add [of ?new qt "oo_payload ob" e qt'] Inl that by (simp add: ob1_def)
  moreover have "?w1 = w'\<lparr>objects := (objects w)(re_address \<mapsto> oo_header re_c ob1, a \<mapsto> oo_header aq_c q), lockFiles := (lockFiles w)(a := True)\<rparr>"
    by (simp add: wa_def w')
  ultimately show ?thesis using run ob1 q(5-7) by (intro exI [of _ ob1] exI [of _ q]) (simp add: w')
qed

text \<open>The removal of a listed queue, up to the commit of the root entry without the reference.\<close>

lemma re_remove_archive_stored:
  assumes ob: "held ob" and found: "archive_queue_of (oo_payload ob) qt tp = Some a" and q: "stored aq_c w a q"
  shows "re_removeArchiveQueueAndCommit tp qt ob w =
     (if aq_tapepool q \<noteq> tp then (Inl WrongArchiveQueue, w)
      else if aq_archivequeueshards q \<noteq> [] then (Inl ArchiveQueueNotEmpty, w)
      else bnd (oo_commit re_c (re_removeMissingArchiveQueueReference tp qt ob)) (\<lambda>_. ret (re_removeMissingArchiveQueueReference tp qt ob))
             (w\<lparr>objects := (objects w)(a := None), lockFiles := (lockFiles w)(a := False)\<rparr>))"
proof -
  obtain tpp where tpp: "findElement (\<lambda>tpp. aqp_name tpp = tp) (archiveQueuePointers qt (oo_payload ob)) = Inr tpp" "aqp_address tpp = a"
    using found by (auto simp: archive_queue_of_def split: sum.splits)
  have a: "a \<noteq> []" "lockFiles w a" "objects w a \<noteq> None" using storedD [OF q] by simp_all
  obtain aq where aq: "re_open_queue aq_c ((oo_new aq_empty)\<lparr>oo_name := a, oo_nameSet := True\<rparr>) w = (Inr (Some aq), w)"
    "held aq" "oo_name aq = a" "oo_payload aq = q"
    using re_open_queue_stored [OF codecs_ok(1) q, of aq_empty] by (elim exE conjE)
  obtain aq' where gone: "oo_remove aq w = (Inr aq', w\<lparr>objects := (objects w)(a := None), lockFiles := (lockFiles w)(a := False)\<rparr>)"
    using aq(2,3) a by (simp add: oo_remove_def vfs_remove_def)
  show ?thesis unfolding re_removeArchiveQueueAndCommit_def re_removeMissingArchiveQueueReference_def Let_def tpp sum.case setAddress_new [OF a(1)]
    by (simp add: ob aq gone aq_getTapePool_def aq_isEmpty_def del: caught_simps)
qed

lemma re_remove_archive_missing:
  assumes ob: "held ob" and found: "archive_queue_of (oo_payload ob) qt tp = Some a"
    and m: "missing w a" "\<not> lockFiles w a"
  shows "re_removeArchiveQueueAndCommit tp qt ob w =
     bnd (oo_commit re_c (re_removeMissingArchiveQueueReference tp qt ob)) (\<lambda>_. ret (re_removeMissingArchiveQueueReference tp qt ob)) w"
proof -
  obtain tpp where tpp: "findElement (\<lambda>tpp. aqp_name tpp = tp) (archiveQueuePointers qt (oo_payload ob)) = Inr tpp" "aqp_address tpp = a"
    using found by (auto simp: archive_queue_of_def split: sum.splits)
  have a: "a \<noteq> []" using m by (simp add: missing_def)
  show ?thesis unfolding re_removeArchiveQueueAndCommit_def re_removeMissingArchiveQueueReference_def Let_def tpp sum.case setAddress_new [OF a]
    by (simp add: ob re_open_queue_missing [OF m])
qed

lemma re_archive_unreferenced:
  assumes ob: "held ob" "oo_name ob = re_address" and root: "lockFiles w re_address" "objects w re_address \<noteq> None"
    and unique: "distinct (map aqp_name (archiveQueuePointers qt (oo_payload ob)))"
  shows "\<exists>ob1. bnd (oo_commit re_c (re_removeMissingArchiveQueueReference tp qt ob)) (\<lambda>_. ret (re_removeMissingArchiveQueueReference tp qt ob)) w
      = (Inr ob1, w\<lparr>objects := (objects w)(re_address \<mapsto> oo_header re_c ob1)\<rparr>) \<and> held ob1 \<and> oo_name ob1 = re_address
    \<and> (\<forall>qt' tp'. archive_queue_of (oo_payload ob1) qt' tp'
         = (if qt' = qt \<and> tp' = tp then None else archive_queue_of (oo_payload ob) qt' tp'))
    \<and> (\<forall>qt'. distinct (map aqp_name (archiveQueuePointers qt' (oo_payload ob))) \<longrightarrow> distinct (map aqp_name (archiveQueuePointers qt' (oo_payload ob1))))"
proof -
  let ?ob1 = "re_removeMissingArchiveQueueReference tp qt ob"
  have ob1: "held ?ob1" "oo_name ?ob1 = re_address" using ob by (simp_all add: re_removeMissingArchiveQueueReference_def)
  have "archive_queue_of (oo_payload ?ob1) qt' tp' = (if qt' = qt \<and> tp' = tp then None else archive_queue_of (oo_payload ob) qt' tp')" for qt' tp'
    using aqd.found_remove [OF unique, of tp' qt' tp] by (simp add: archive_queue_of_def re_removeMissingArchiveQueueReference_def)
  moreover have "distinct (map aqp_name (archiveQueuePointers qt' (oo_payload ?ob1)))"
    if "distinct (map aqp_name (archiveQueuePointers qt' (oo_payload ob)))" for qt'
    using aqd.unique_remove [OF that] by (simp add: re_removeMissingArchiveQueueReference_def)
  ultimately show ?thesis using ob1 root by (intro exI [of _ ?ob1]) (simp add: oo_commit_held vfs_exists_def)
qed

end
