(* ===== verification/RootEntryProperties.thy ===== *)
theory RootEntryProperties
  imports QueueDirectory
begin

text \<open>
  The theorems on agents and on the root entry (\<open>AgentReference.cpp\<close>, \<open>Agent.cpp\<close>, \<open>AgentRegister.cpp\<close>,
  \<open>RootEntry.cpp\<close>, \<open>DriveRegister.cpp\<close>), with concrete instances on a small object store: the root entry, an
  agent register \<open>reg\<close> and an agent \<open>ag\<close>.
\<close>

section \<open>A concrete store\<close>

definition smx_header :: "payload \<Rightarrow> object_header" where
  "smx_header p = \<lparr>oh_version = 0, oh_owner = '''', oh_backupowner = '''', oh_payload = p\<rparr>"

definition smx_log :: entry_log where
  "smx_log = \<lparr>el_username = ''u'', el_host = ''h'', el_time = 1\<rparr>"

definition smx_root :: root_entry where
  "smx_root = re_empty\<lparr>re_agentregisterpointer := Some \<lparr>lp_address = ''reg'', lp_log = smx_log\<rparr>,
     re_driveregisterpointer := Some \<lparr>lp_address = ''drv'', lp_log = smx_log\<rparr>\<rparr>"

definition smx_register :: agent_register where
  "smx_register = \<lparr>agr_agents = [''ag''], agr_untrackedagents = [''ag'']\<rparr>"

definition smx_agent :: agent where
  "smx_agent = ag_empty\<lparr>ag_ownedobjects := [''o1'', ''o2''], ag_heartbeat := 7\<rparr>"

definition smx_world :: world where
  "smx_world = \<lparr>objects = [''root'' \<mapsto> smx_header (Payload_RootEntry smx_root), ''reg'' \<mapsto> smx_header (Payload_AgentRegister smx_register),
       ''drv'' \<mapsto> (smx_header (Payload_DriveRegister dr_empty))\<lparr>oh_owner := ''dead''\<rparr>, ''ag'' \<mapsto> smx_header (Payload_Agent smx_agent)],
     lockFiles = (\<lambda>n. n \<in> {''root'', ''reg'', ''drv'', ''ag''}), agentAddress = ''ag'', nextIdCounter = 0\<rparr>"

lemma smx_stored:
  "stored re_c smx_world ''root'' smx_root" "stored agr_c smx_world ''reg'' smx_register"
  "stored dr_c smx_world ''drv'' dr_empty" "stored ag_c smx_world ''ag'' smx_agent"
  by (simp_all add: stored_def smx_world_def smx_header_def codec_defs)

section \<open>The agent reference\<close>

text \<open>
  C31. Whatever the order in which the threads of a process open, join, close and execute the batches of the
  agent reference, the calls take effect in the order in which they were accepted, each exactly once: the
  ownership list and the heartbeat in the store are those after the calls \<open>past\<close> of the finished batches, the
  calls \<open>pending\<close> are in the batches that wait or execute. No thread finds its queue replaced, no batch fails,
  at most one executes at a time, and as long as a call is pending a batch can proceed. Nothing else in the
  store changes.
\<close>
theorem agent_actions_in_order:
  assumes "ref_reach (ref_initial w) acts s" and "stored ag_c w (agentAddress w) p" and "\<not> ag_being_garbage_collected p"
  shows "\<exists>past pending p'. acts = past @ pending \<and> stored ag_c (rf_world s) (agentAddress w) p'
    \<and> set (ag_ownedobjects p') = owned_after past (set (ag_ownedobjects p))
    \<and> ag_heartbeat p' = ag_heartbeat p + of_nat (beats past)
    \<and> Threw \<notin> set (rf_phases s) \<and> (\<forall>e. Finished (Inl e) \<notin> set (rf_phases s))
    \<and> length (filter (\<lambda>ph. ph = Executing) (rf_phases s)) \<le> 1
    \<and> (if \<exists>ph \<in> set (rf_phases s). \<forall>r. ph \<noteq> Finished r then \<exists>s'. ref_step s None s' else pending = [])
    \<and> (\<forall>a. a \<noteq> agentAddress w \<longrightarrow> objects (rf_world s) a = objects w a)"
proof -
  obtain n where good: "ref_good w p acts n s" using ref_reach_good [OF assms] by blast
  then obtain tail p' where t: "rf_phases s = replicate n (Finished (Inr ())) @ tail" "ref_busy n tail (rf_current s)"
    and q: "length (rf_queues s) = length (rf_phases s)" "concat (rf_queues s) = acts"
    and p': "stored ag_c (rf_world s) (agentAddress w) p'" "agent_done (concat (take n (rf_queues s))) p p'"
    and others: "\<forall>a. a \<noteq> agentAddress w \<longrightarrow> objects (rf_world s) a = objects w a"
    by (auto simp: ref_good_def)
  let ?past = "concat (take n (rf_queues s))" and ?pending = "concat (drop n (rf_queues s))"
  have split: "acts = ?past @ ?pending" using q(2) by (metis append_take_drop_id concat_append)
  have "?pending = []" if "\<not> (\<exists>ph \<in> set (rf_phases s). \<forall>r. ph \<noteq> Finished r)"
  proof -
    have "tail = []" using that t by (auto simp: ref_busy_def)
    with q(1) t(1) show ?thesis by simp
  qed
  moreover have "Threw \<notin> set (rf_phases s)" "\<forall>e. Finished (Inl e) \<notin> set (rf_phases s)"
    "length (filter (\<lambda>ph. ph = Executing) (rf_phases s)) \<le> 1" using t by (auto simp: ref_busy_def)
  ultimately show ?thesis
    using split p' others ref_good_progress [OF good]
    by (intro exI [of _ ?past] exI [of _ ?pending] exI [of _ p']) (simp add: agent_done_def)
qed

definition smx_ref :: ref_state where
  "smx_ref = ref_run_queue 0 (ref_close 0 (ref_join 0 (action_remove ''o1'') (ref_open (action_add ''o3'') (ref_initial smx_world))))"

lemma smx_reach: "ref_reach (ref_initial smx_world) [action_add ''o3'', action_remove ''o1''] smx_ref"
proof -
  let ?s1 = "ref_open (action_add ''o3'') (ref_initial smx_world)"
  let ?s2 = "ref_join 0 (action_remove ''o1'') ?s1" and ?s3 = "ref_close 0 (ref_join 0 (action_remove ''o1'') ?s1)"
  have 1: "ref_reach (ref_initial smx_world) ([] @ [action_add ''o3'']) ?s1"
    by (rule ref_reach_call [OF ref_reach_init ref_step_open]) (simp add: ref_initial_def)
  have 2: "ref_reach (ref_initial smx_world) (([] @ [action_add ''o3'']) @ [action_remove ''o1'']) ?s2"
    by (rule ref_reach_call [OF 1 ref_step_join]) (simp add: ref_initial_def ref_open_def)
  have 3: "ref_reach (ref_initial smx_world) (([] @ [action_add ''o3'']) @ [action_remove ''o1'']) ?s3"
    by (rule ref_reach_internal [OF 2 ref_step_close]) (simp_all add: ref_initial_def ref_open_def ref_join_def)
  show ?thesis unfolding smx_ref_def
    using ref_reach_internal [OF 3 ref_step_execute [of 0]]
    by (simp add: ref_initial_def ref_open_def ref_join_def ref_close_def)
qed

theorem agent_actions_in_order_witness:
  "\<exists>past pending p'. [action_add ''o3'', action_remove ''o1''] = past @ pending \<and> stored ag_c (rf_world smx_ref) ''ag'' p'
     \<and> set (ag_ownedobjects p') = owned_after past {''o1'', ''o2''} \<and> Threw \<notin> set (rf_phases smx_ref)"
proof -
  have "stored ag_c smx_world (agentAddress smx_world) smx_agent" "\<not> ag_being_garbage_collected smx_agent"
    using smx_stored(4) by (simp_all add: smx_agent_def ag_empty_def) (simp add: smx_world_def)
  from agent_actions_in_order [OF smx_reach this] show ?thesis
    by (elim exE conjE) (intro exI conjI, assumption, simp_all add: smx_world_def smx_agent_def)
qed

section \<open>Registration of agents\<close>

lemma stored_distinct:
  assumes "stored re_c w a r" and "stored agr_c w b p"
  shows "a \<noteq> b"
  using assms by (auto simp: stored_def codec_defs)

lemma agr_at_eq: "a \<noteq> '''' \<Longrightarrow> agr_at a = Inr ((oo_new agr_empty)\<lparr>oo_name := a, oo_nameSet := True\<rparr>)"
  by (simp add: agr_at_def setAddress_new)

text \<open>The register found through the root entry and locked, and the same register with another content.\<close>

lemma register_opened:
  assumes root: "stored re_c w re_address r" "re_agentregisterpointer r = Some l" and reg: "stored agr_c w (lp_address l) p"
  shows "\<exists>re1 re2 re3 ar1 ar2. shared_lock ((oo_new re_empty)\<lparr>oo_name := re_address, oo_nameSet := True\<rparr>) w = (Inr re1, w)
    \<and> oo_fetch re_c re1 w = (Inr re2, w) \<and> re_getAgentRegisterAddress re2 = Inr (lp_address l)
    \<and> oo_fetchNoLock re_c ((oo_new re_empty)\<lparr>oo_name := re_address, oo_nameSet := True\<rparr>) w = (Inr re3, w)
    \<and> re_getAgentRegisterAddress re3 = Inr (lp_address l)
    \<and> exclusive_lock ((oo_new agr_empty)\<lparr>oo_name := lp_address l, oo_nameSet := True\<rparr>) w = (Inr ar1, w)
    \<and> oo_fetch agr_c ar1 w = (Inr ar2, w) \<and> held ar2 \<and> oo_name ar2 = lp_address l \<and> oo_payload ar2 = p"
proof -
  have a: "lp_address l \<noteq> []" using storedD [OF reg] by simp
  obtain re1 re2 where re: "shared_lock ((oo_new re_empty)\<lparr>oo_name := re_address, oo_nameSet := True\<rparr>) w = (Inr re1, w)"
    "oo_fetch re_c re1 w = (Inr re2, w)" "checkPayloadReadable re2 = Inr ()" "oo_payload re2 = r"
    using shared_fetch_stored [OF codecs_ok(7) root(1), of re_empty] by (elim exE conjE)
  obtain re3 where re3: "oo_fetchNoLock re_c ((oo_new re_empty)\<lparr>oo_name := re_address, oo_nameSet := True\<rparr>) w = (Inr re3, w)"
    "checkPayloadReadable re3 = Inr ()" "oo_payload re3 = r"
    using lockfree_fetch_stored [OF codecs_ok(7) root(1), of re_empty] by (elim exE conjE)
  obtain ar1 ar2 where ar: "exclusive_lock ((oo_new agr_empty)\<lparr>oo_name := lp_address l, oo_nameSet := True\<rparr>) w = (Inr ar1, w)"
    "oo_fetch agr_c ar1 w = (Inr ar2, w)" "held ar2" "oo_name ar2 = lp_address l" "oo_payload ar2 = p"
    using exclusive_fetch_stored [OF codecs_ok(9) reg, of agr_empty] by (elim exE conjE)
  have "re_getAgentRegisterAddress re2 = Inr (lp_address l)" "re_getAgentRegisterAddress re3 = Inr (lp_address l)"
    using re(3,4) re3(2,3) root(2) a by (simp_all add: re_getAgentRegisterAddress_def)
  with re re3 ar show ?thesis by blast
qed

lemma held_insert_owned:
  assumes "ob = ((oo_new q)\<lparr>oo_name := name, oo_nameSet := True\<rparr>)" and "name \<noteq> ''''" "oo_initialize ob = Inr ob1"
    and "objects w name = None" "\<not> lockFiles w name"
  shows "\<exists>ob2. rbind (setBackupOwner own (ob1\<lparr>oo_payload := p, oo_payloadInterpreted := True\<rparr>)) (setOwner own) = Inr ob2
    \<and> oo_insert c ob2 w = (Inr (ob2\<lparr>oo_existingObject := True\<rparr>), w\<lparr>objects := (objects w)(name \<mapsto> oo_header c ob2), lockFiles := (lockFiles w)(name := True)\<rparr>)
    \<and> oo_owner ob2 = own \<and> oo_payload ob2 = p"
  using assms by (auto simp: oo_defs check_defs vfs_create_def)

lemma ag_registered:
  assumes root: "stored re_c w re_address r" "re_agentregisterpointer r = Some l" and reg: "stored agr_c w (lp_address l) p"
    and name: "name \<noteq> ''''" "objects w name = None" "\<not> lockFiles w name" and ob: "rbind (ag_at name) ag_initialize = Inr ob"
  shows "\<exists>ob1 w1. ag_insertAndRegisterSelf ob w = (Inr ob1, w1) \<and> oo_owner ob1 = lp_address l
    \<and> stored ag_c w1 name (oo_payload ob1)
    \<and> stored agr_c w1 (lp_address l) \<lparr>agr_agents = agr_agents p @ [name], agr_untrackedagents = agr_untrackedagents p @ [name]\<rparr>
    \<and> (\<forall>a. a \<noteq> lp_address l \<and> a \<noteq> name \<longrightarrow> objects w1 a = objects w a \<and> lockFiles w1 a = lockFiles w a)"
proof -
  let ?ra = "lp_address l" and ?p1 = "\<lparr>agr_agents = agr_agents p @ [name], agr_untrackedagents = agr_untrackedagents p @ [name]\<rparr>"
  have ra: "?ra \<noteq> []" "vfs_exists ?ra w" "lockFiles w ?ra" "name \<noteq> ?ra" using storedD [OF reg] name(2) by (auto simp: vfs_exists_def)
  obtain re1 re2 ar1 ar2 where o: "shared_lock ((oo_new re_empty)\<lparr>oo_name := re_address, oo_nameSet := True\<rparr>) w = (Inr re1, w)"
    "oo_fetch re_c re1 w = (Inr re2, w)" "re_getAgentRegisterAddress re2 = Inr ?ra"
    "exclusive_lock ((oo_new agr_empty)\<lparr>oo_name := ?ra, oo_nameSet := True\<rparr>) w = (Inr ar1, w)" "oo_fetch agr_c ar1 w = (Inr ar2, w)"
    "held ar2" "oo_name ar2 = ?ra" "oo_payload ar2 = p"
    using register_opened [OF root reg] by (elim exE conjE)
  define wa where "wa = w\<lparr>objects := (objects w)(?ra \<mapsto> oo_header agr_c (ar2\<lparr>oo_payload := ?p1\<rparr>))\<rparr>"
  have add: "agr_addAgent name ar2 = Inr (ar2\<lparr>oo_payload := ?p1\<rparr>)" using o(6,8) by (simp add: agr_addAgent_def)
  have com: "oo_commit agr_c (ar2\<lparr>oo_payload := ?p1\<rparr>) w = (Inr (), wa)" using o(6,7) ra(2) by (simp add: oo_commit_held wa_def)
  have wa: "objects wa name = None" "\<not> lockFiles wa name" using name(2,3) ra(4) by (simp_all add: wa_def)
  define oi where "oi = ((oo_new ag_empty)\<lparr>oo_name := name, oo_nameSet := True\<rparr>)"
  obtain ob0 where ob0: "oo_initialize oi = Inr ob0" by (simp add: oi_def oo_initialize_def oo_new_def)
  obtain q where q: "ob = ob0\<lparr>oo_payload := q, oo_payloadInterpreted := True\<rparr>"
    using ob name(1) ob0 by (auto simp: ag_at_def setAddress_new oi_def ag_initialize_def)
  have addr: "getAddressIfSet ob = Inr name" using ob0 by (auto simp: q oi_def oo_defs)
  obtain ob2 where ob2: "rbind (setBackupOwner ?ra ob) (setOwner ?ra) = Inr ob2"
    "oo_insert ag_c ob2 wa = (Inr (ob2\<lparr>oo_existingObject := True\<rparr>), wa\<lparr>objects := (objects wa)(name \<mapsto> oo_header ag_c ob2), lockFiles := (lockFiles wa)(name := True)\<rparr>)"
    "oo_owner ob2 = ?ra"
    using held_insert_owned [OF oi_def name(1) ob0 wa, of ?ra q ag_c] unfolding q by (elim exE conjE)
  obtain obb where obb: "setBackupOwner ?ra ob = Inr obb" "setOwner ?ra obb = Inr ob2" using ob2(1) by (auto simp: rbind_Inr_iff)
  let ?w1 = "wa\<lparr>objects := (objects wa)(name \<mapsto> oo_header ag_c ob2), lockFiles := (lockFiles wa)(name := True)\<rparr>"
  have "ag_insertAndRegisterSelf ob w = (Inr (ob2\<lparr>oo_existingObject := True\<rparr>), ?w1)"
    using o add com addr obb ob2(2) ra(1) by (simp add: ag_insertAndRegisterSelf_def re_at_eq agr_at_eq)
  moreover have "stored ag_c ?w1 name (oo_payload ob2)" using name(1) by (intro stored_header) simp_all
  moreover have "stored agr_c ?w1 ?ra ?p1" using ra by (simp add: stored_def wa_def oo_header_def)
  ultimately show ?thesis using ob2(3) by (intro exI [of _ "ob2\<lparr>oo_existingObject := True\<rparr>"] exI [of _ ?w1]) (simp add: wa_def)
qed

lemma ag_unregistered:
  assumes root: "stored re_c w re_address r" "re_agentregisterpointer r = Some l" and reg: "stored agr_c w (lp_address l) p"
    and ag: "held ag" "stored ag_c w (oo_name ag) q" "ag_ownedobjects (oo_payload ag) = []"
  shows "\<exists>ag2 w2. ag_removeAndUnregisterSelf ag w = (Inr ag2, w2) \<and> objects w2 (oo_name ag) = None
    \<and> stored agr_c w2 (lp_address l) \<lparr>agr_agents = removeString (agr_agents p) (oo_name ag),
         agr_untrackedagents = removeString (agr_untrackedagents p) (oo_name ag)\<rparr>
    \<and> (\<forall>a. a \<noteq> lp_address l \<and> a \<noteq> oo_name ag \<longrightarrow> objects w2 a = objects w a)"
proof -
  let ?ra = "lp_address l" and ?name = "oo_name ag"
  let ?p2 = "\<lparr>agr_agents = removeString (agr_agents p) ?name, agr_untrackedagents = removeString (agr_untrackedagents p) ?name\<rparr>"
  define wa where "wa = w\<lparr>objects := (objects w)(?name := None), lockFiles := (lockFiles w)(?name := False)\<rparr>"
  have neq: "?name \<noteq> ?ra" "?name \<noteq> re_address" using root(1) reg ag(2) by (auto simp: stored_def codec_defs)
  obtain ag1 where gone: "oo_remove ag w = (Inr ag1, wa)" "getAddressIfSet ag1 = Inr ?name"
    using storedD [OF ag(2)] ag(1) by (auto simp: oo_remove_def vfs_remove_def wa_def held_def getAddressIfSet_def check_defs)
  have root': "stored re_c wa re_address r" and reg': "stored agr_c wa ?ra p"
    using root(1) reg neq by (auto simp: wa_def intro: stored_other)
  have ra: "?ra \<noteq> []" "vfs_exists ?ra wa" "lockFiles wa ?ra" using storedD [OF reg'] by (auto simp: vfs_exists_def)
  obtain re3 ar1 ar2 where o: "oo_fetchNoLock re_c ((oo_new re_empty)\<lparr>oo_name := re_address, oo_nameSet := True\<rparr>) wa = (Inr re3, wa)"
    "re_getAgentRegisterAddress re3 = Inr ?ra"
    "exclusive_lock ((oo_new agr_empty)\<lparr>oo_name := ?ra, oo_nameSet := True\<rparr>) wa = (Inr ar1, wa)" "oo_fetch agr_c ar1 wa = (Inr ar2, wa)"
    "held ar2" "oo_name ar2 = ?ra" "oo_payload ar2 = p"
    using register_opened [OF root' root(2) reg'] by (elim exE conjE)
  let ?w2 = "wa\<lparr>objects := (objects wa)(?ra \<mapsto> oo_header agr_c (ar2\<lparr>oo_payload := ?p2\<rparr>))\<rparr>"
  have rem: "agr_removeAgent ?name ar2 = Inr (ar2\<lparr>oo_payload := ?p2\<rparr>)" using o(5,7) by (simp add: agr_removeAgent_def)
  have com: "oo_commit agr_c (ar2\<lparr>oo_payload := ?p2\<rparr>) wa = (Inr (), ?w2)" using o(5,6) ra(2) by (simp add: oo_commit_held)
  have "ag_removeAndUnregisterSelf ag w = (Inr ag1, ?w2)"
    using ag(1,3) gone o rem com ra(1) by (simp add: ag_removeAndUnregisterSelf_def ag_isEmpty_def re_at_eq agr_at_eq)
  moreover have "stored agr_c ?w2 ?ra ?p2" using ra by (simp add: stored_def oo_header_def)
  ultimately show ?thesis using neq(1) by (intro exI [of _ ag1] exI [of _ ?w2]) (simp add: wa_def)
qed

lemma mset_removeString_new: "v \<notin> set xs \<Longrightarrow> mset (removeString (xs @ [v]) v) = mset xs"
  by (auto simp: removeString_def mset_removeOccurences filter_mset_eq_conv)

text \<open>
  C32. An agent that registers itself is listed in the agent register, as not yet tracked, and its object is in
  the store, owned by the register. Unregistering it is refused as long as it owns objects, without any
  change; otherwise it removes the object and leaves the register with the agents it had before. Nothing
  else in the store changes.
\<close>
theorem agent_registration:
  assumes root: "stored re_c w re_address r" "re_agentregisterpointer r = Some l" and reg: "stored agr_c w (lp_address l) p"
    and name: "name \<notin> set (agr_agents p)" "name \<notin> set (agr_untrackedagents p)" "name \<noteq> ''''" "objects w name = None" "\<not> lockFiles w name"
    and ob: "rbind (ag_at name) ag_initialize = Inr ob"
  shows "\<exists>ob1 w1. ag_insertAndRegisterSelf ob w = (Inr ob1, w1) \<and> oo_owner ob1 = lp_address l
    \<and> stored ag_c w1 name (oo_payload ob1)
    \<and> stored agr_c w1 (lp_address l) \<lparr>agr_agents = agr_agents p @ [name], agr_untrackedagents = agr_untrackedagents p @ [name]\<rparr>
    \<and> (\<forall>ag. held ag \<and> oo_name ag = name \<longrightarrow>
        (if ag_ownedobjects (oo_payload ag) \<noteq> [] then ag_removeAndUnregisterSelf ag w1 = (Inl AgentStillOwnsObjects, w1)
         else \<exists>ag2 w2 p2. ag_removeAndUnregisterSelf ag w1 = (Inr ag2, w2) \<and> objects w2 name = None
           \<and> stored agr_c w2 (lp_address l) p2 \<and> mset (agr_agents p2) = mset (agr_agents p)
           \<and> mset (agr_untrackedagents p2) = mset (agr_untrackedagents p)
           \<and> (\<forall>a. a \<noteq> lp_address l \<longrightarrow> objects w2 a = objects w a)))"
proof -
  let ?p1 = "\<lparr>agr_agents = agr_agents p @ [name], agr_untrackedagents = agr_untrackedagents p @ [name]\<rparr>"
  obtain ob1 w1 where 1: "ag_insertAndRegisterSelf ob w = (Inr ob1, w1)" "oo_owner ob1 = lp_address l"
    "stored ag_c w1 name (oo_payload ob1)" "stored agr_c w1 (lp_address l) ?p1"
    and other: "\<forall>a. a \<noteq> lp_address l \<and> a \<noteq> name \<longrightarrow> objects w1 a = objects w a \<and> lockFiles w1 a = lockFiles w a"
    using ag_registered [OF root reg name(3-5) ob] by (elim exE conjE)
  have "re_address \<noteq> lp_address l" "re_address \<noteq> name"
    using stored_distinct [OF root(1) reg] storedD [OF root(1)] name(4) by auto
  then have root': "stored re_c w1 re_address r" using root(1) other by (auto intro: stored_other)
  have "\<exists>ag2 w2 p2. ag_removeAndUnregisterSelf ag w1 = (Inr ag2, w2) \<and> objects w2 name = None
      \<and> stored agr_c w2 (lp_address l) p2 \<and> mset (agr_agents p2) = mset (agr_agents p)
      \<and> mset (agr_untrackedagents p2) = mset (agr_untrackedagents p) \<and> (\<forall>a. a \<noteq> lp_address l \<longrightarrow> objects w2 a = objects w a)"
    if ag: "held ag" "oo_name ag = name" "ag_ownedobjects (oo_payload ag) = []" for ag
  proof -
    obtain ag2 w2 where 2: "ag_removeAndUnregisterSelf ag w1 = (Inr ag2, w2)" "objects w2 name = None"
      "stored agr_c w2 (lp_address l) \<lparr>agr_agents = removeString (agr_agents ?p1) name, agr_untrackedagents = removeString (agr_untrackedagents ?p1) name\<rparr>"
      "\<forall>a. a \<noteq> lp_address l \<and> a \<noteq> name \<longrightarrow> objects w2 a = objects w1 a"
      using ag_unregistered [OF root' root(2) 1(4) ag(1) _ ag(3), unfolded ag(2), OF 1(3)] by (elim exE conjE)
    have "\<forall>a. a \<noteq> lp_address l \<longrightarrow> objects w2 a = objects w a" using 2(2,4) other name(4) by metis
    with 2 name(1,2) show ?thesis
      by (intro exI [of _ ag2] exI [of _ w2] exI conjI) (assumption+, simp_all add: mset_removeString_new)
  qed
  moreover have "ag_removeAndUnregisterSelf ag w1 = (Inl AgentStillOwnsObjects, w1)"
    if "held ag" "ag_ownedobjects (oo_payload ag) \<noteq> []" for ag
    using that by (simp add: ag_removeAndUnregisterSelf_def ag_isEmpty_def)
  ultimately show ?thesis using 1 by (intro exI [of _ ob1] exI [of _ w1]) simp
qed

theorem agent_registration_witness:
  "\<exists>ob ob1 w1. rbind (ag_at ''new'') ag_initialize = Inr ob \<and> ag_insertAndRegisterSelf ob smx_world = (Inr ob1, w1) \<and> oo_owner ob1 = ''reg''
     \<and> stored agr_c w1 ''reg'' \<lparr>agr_agents = [''ag'', ''new''], agr_untrackedagents = [''ag'', ''new'']\<rparr>"
proof -
  obtain ob where ob: "rbind (ag_at ''new'') ag_initialize = Inr ob"
    by (simp add: ag_at_def setAddress_new ag_initialize_def) (simp add: oo_initialize_def oo_new_def)
  have "re_agentregisterpointer smx_root = Some \<lparr>lp_address = ''reg'', lp_log = smx_log\<rparr>" by (simp add: smx_root_def)
  from agent_registration [OF smx_stored(1) [folded re_address_def] this _ _ _ _ _ _ ob, of smx_register] ob show ?thesis
    using smx_stored(2) by (auto simp: smx_register_def smx_world_def)
qed

section \<open>The directory of the queues\<close>

text \<open>
  The root entry hands out one archive queue per type and tape pool: on a held root entry the call gives
  an address, the root entry in the store has it, every later lookup and every later call give the same one,
  and the lookups of all other queues are as before. A queue that was already there is not touched; a new
  one is in the store, empty, under its tape pool, owned by the root entry. No other object changes.
\<close>
lemma re_archive_queue_directory:
  assumes ob: "held ob" "oo_name ob = re_address" "stored re_c w re_address (oo_payload ob)"
    and a: "nextId (archiveQueueNameHeader qt @ ''-'' @ tp) w = (Inr a, w')" and fresh: "objects w a = None" "\<not> lockFiles w a"
  shows "\<exists>b ob1 w1. re_addOrGetArchiveQueueAndCommit tp qt ob w = (Inr (b, ob1), w1)
    \<and> held ob1 \<and> stored re_c w1 re_address (oo_payload ob1)
    \<and> (\<forall>tp' qt'. re_getArchiveQueueAddress tp' qt' ob1
         = (if tp' = tp \<and> qt' = qt then Inr b else re_getArchiveQueueAddress tp' qt' ob))
    \<and> re_addOrGetArchiveQueueAndCommit tp qt ob1 w1 = (Inr (b, ob1), w1)
    \<and> (case re_getArchiveQueueAddress tp qt ob of
         Inr a' \<Rightarrow> b = a' \<and> w1 = w
       | Inl _ \<Rightarrow> b = a \<and> (\<exists>q. stored aq_c w1 a q \<and> aq_tapepool q = tp \<and> aq_archivequeueshards q = []
             \<and> map_option oh_owner (objects w1 a) = Some re_address)
           \<and> (\<forall>c. c \<noteq> a \<and> c \<noteq> re_address \<longrightarrow> objects w1 c = objects w c))"
proof (cases "archive_queue_of (oo_payload ob) qt tp")
  case (Some b)
  with ob show ?thesis
    by (intro exI [of _ b] exI [of _ ob] exI [of _ w])
      (auto simp: re_addOrGetArchiveQueueAndCommit_def re_getArchiveQueueAddress_eq archive_queue_of_def split: sum.splits)
next
  case None
  obtain ob1 q where run: "re_addOrGetArchiveQueueAndCommit tp qt ob w = (Inr (a, ob1),
      w'\<lparr>objects := (objects w)(re_address \<mapsto> oo_header re_c ob1, a \<mapsto> oo_header aq_c q), lockFiles := (lockFiles w)(a := True)\<rparr>)"
    (is "_ = (_, ?w1)") "held ob1" "oo_name ob1 = re_address"
    "\<forall>qt' tp'. archive_queue_of (oo_payload ob1) qt' tp' = (if qt' = qt \<and> tp' = tp then Some a else archive_queue_of (oo_payload ob) qt' tp')"
    "aq_tapepool (oo_payload q) = tp" "aq_rep (oo_payload q) []" "oo_owner q = re_address"
    using re_archive_queue_new [OF ob None a fresh] by (elim exE conjE)
  have a': "a \<noteq> []" "a \<noteq> re_address" "lockFiles w re_address" "re_address \<noteq> []"
    using a storedD [OF ob(3)] fresh(1) by (auto simp: nextId_def childId_def)
  have "stored re_c ?w1 re_address (oo_payload ob1)" using a' by (intro stored_header) simp_all
  moreover have "stored aq_c ?w1 a (oo_payload q)" using a' by (intro stored_header) simp_all
  moreover have "re_addOrGetArchiveQueueAndCommit tp qt ob1 ?w1 = (Inr (a, ob1), ?w1)"
    using run(2) run(4) [rule_format, of qt tp]
    by (auto simp: re_addOrGetArchiveQueueAndCommit_def archive_queue_of_def split: sum.splits)
  ultimately show ?thesis using run ob(1) None a'
    by (intro exI [of _ a] exI [of _ ob1] exI [of _ ?w1]) (auto simp: re_getArchiveQueueAddress_eq aq_rep_def oo_header_def)
qed

text \<open>The removal of a listed retrieve queue, up to the commit of the root entry without the reference.\<close>

lemma re_remove_retrieve_stored:
  assumes ob: "held ob" and found: "findElement (\<lambda>rqp. rqp_vid rqp = vid) (retrieveQueuePointers qt (oo_payload ob)) = Inr rqp"
    and q: "stored rq_c w (rqp_address rqp) q"
  shows "re_removeRetrieveQueueAndCommit vid qt ob w =
     (if rq_vid q \<noteq> vid then (Inl WrongRetrieveQueue, w)
      else if rq_retrievequeueshards q \<noteq> [] \<or> rq_retrievejobstotalsize q \<noteq> 0 then (Inl RetrieveQueueNotEmpty, w)
      else bnd (oo_commit re_c (re_removeMissingRetrieveQueueReference vid qt ob)) (\<lambda>_. ret (re_removeMissingRetrieveQueueReference vid qt ob))
             (w\<lparr>objects := (objects w)(rqp_address rqp := None), lockFiles := (lockFiles w)(rqp_address rqp := False)\<rparr>))"
proof -
  have a: "rqp_address rqp \<noteq> []" "lockFiles w (rqp_address rqp)" "objects w (rqp_address rqp) \<noteq> None" using storedD [OF q] by simp_all
  obtain rq where rq: "re_open_queue rq_c ((oo_new rq_empty)\<lparr>oo_name := rqp_address rqp, oo_nameSet := True\<rparr>) w = (Inr (Some rq), w)"
    "held rq" "oo_name rq = rqp_address rqp" "oo_payload rq = q"
    using re_open_queue_stored [OF codecs_ok(3) q, of rq_empty] by (elim exE conjE)
  obtain rq' where gone: "oo_remove rq w = (Inr rq', w\<lparr>objects := (objects w)(rqp_address rqp := None), lockFiles := (lockFiles w)(rqp_address rqp := False)\<rparr>)"
    using rq(2,3) a by (simp add: oo_remove_def vfs_remove_def)
  show ?thesis unfolding re_removeRetrieveQueueAndCommit_def re_removeMissingRetrieveQueueReference_def Let_def found sum.case setAddress_new [OF a(1)]
    by (simp add: ob rq gone rq_getVid_def rq_isEmpty_def del: caught_simps)
qed

lemma re_remove_retrieve_missing:
  assumes ob: "held ob" and found: "findElement (\<lambda>rqp. rqp_vid rqp = vid) (retrieveQueuePointers qt (oo_payload ob)) = Inr rqp"
    and m: "missing w (rqp_address rqp)" "\<not> lockFiles w (rqp_address rqp)"
  shows "re_removeRetrieveQueueAndCommit vid qt ob w =
     bnd (oo_commit re_c (re_removeMissingRetrieveQueueReference vid qt ob)) (\<lambda>_. ret (re_removeMissingRetrieveQueueReference vid qt ob)) w"
proof -
  have a: "rqp_address rqp \<noteq> []" using m by (simp add: missing_def)
  show ?thesis unfolding re_removeRetrieveQueueAndCommit_def re_removeMissingRetrieveQueueReference_def Let_def found sum.case setAddress_new [OF a]
    by (simp add: ob re_open_queue_missing [OF m])
qed

lemma re_retrieve_unreferenced:
  assumes ob: "held ob" "oo_name ob = re_address" and root: "lockFiles w re_address" "objects w re_address \<noteq> None"
    and unique: "distinct (map rqp_vid (retrieveQueuePointers qt (oo_payload ob)))"
  shows "\<exists>ob1 w1. bnd (oo_commit re_c (re_removeMissingRetrieveQueueReference vid qt ob)) (\<lambda>_. ret (re_removeMissingRetrieveQueueReference vid qt ob)) w
      = (Inr ob1, w1) \<and> held ob1 \<and> stored re_c w1 re_address (oo_payload ob1)
    \<and> (\<forall>v t. re_getRetrieveQueueAddress v t ob1
         = (if v = vid \<and> t = qt then Inl NoSuchRetrieveQueue else re_getRetrieveQueueAddress v t ob))
    \<and> (\<forall>b. b \<noteq> re_address \<longrightarrow> objects w1 b = objects w b)"
proof -
  let ?ob1 = "re_removeMissingRetrieveQueueReference vid qt ob"
  let ?w1 = "w\<lparr>objects := (objects w)(re_address \<mapsto> oo_header re_c ?ob1)\<rparr>"
  have ob1: "held ?ob1" "oo_name ?ob1 = re_address" using ob by (simp_all add: re_removeMissingRetrieveQueueReference_def)
  have gets: "re_getRetrieveQueueAddress v t ?ob1 = (if v = vid \<and> t = qt then Inl NoSuchRetrieveQueue else re_getRetrieveQueueAddress v t ob)" for v t
    using ob(1) rqd.found_remove [OF unique, of v t vid]
    by (simp add: re_getRetrieveQueueAddress_def re_removeMissingRetrieveQueueReference_def)
  have "stored re_c ?w1 re_address (oo_payload ?ob1)" using root by (intro stored_header) (simp_all add: re_address_def)
  then show ?thesis using ob1 root gets by (intro exI [of _ ?ob1] exI [of _ ?w1]) (simp add: oo_commit_held vfs_exists_def)
qed

text \<open>
  C34. Removing a retrieve queue from a held root entry: when it is not listed, is the queue of another tape
  or holds jobs, nothing changes and the call says why. When it is empty, or is listed but no longer in the
  store, it is not listed afterwards, the store has neither the queue nor the reference, every other queue is
  found as before, and no object but the two changes.
\<close>
theorem re_remove_retrieve_queue:
  assumes ob: "held ob" "oo_name ob = re_address" "stored re_c w re_address (oo_payload ob)"
    and unique: "distinct (map rqp_vid (retrieveQueuePointers qt (oo_payload ob)))"
    and queue: "\<And>a. re_getRetrieveQueueAddress vid qt ob = Inr a \<Longrightarrow> (\<exists>q. stored rq_c w a q) \<or> missing w a \<and> \<not> lockFiles w a"
  shows "case re_getRetrieveQueueAddress vid qt ob of
      Inl e \<Rightarrow> e = NoSuchRetrieveQueue \<and> re_removeRetrieveQueueAndCommit vid qt ob w = (Inl NoSuchRetrieveQueue, w)
    | Inr a \<Rightarrow>
        if \<exists>q. stored rq_c w a q \<and> rq_vid q \<noteq> vid then re_removeRetrieveQueueAndCommit vid qt ob w = (Inl WrongRetrieveQueue, w)
        else if \<exists>q. stored rq_c w a q \<and> (rq_retrievequeueshards q \<noteq> [] \<or> rq_retrievejobstotalsize q \<noteq> 0)
        then re_removeRetrieveQueueAndCommit vid qt ob w = (Inl RetrieveQueueNotEmpty, w)
        else \<exists>ob1 w1. re_removeRetrieveQueueAndCommit vid qt ob w = (Inr ob1, w1) \<and> held ob1
          \<and> stored re_c w1 re_address (oo_payload ob1) \<and> objects w1 a = None
          \<and> (\<forall>v t. re_getRetrieveQueueAddress v t ob1
               = (if v = vid \<and> t = qt then Inl NoSuchRetrieveQueue else re_getRetrieveQueueAddress v t ob))
          \<and> (\<forall>b. b \<noteq> a \<and> b \<noteq> re_address \<longrightarrow> objects w1 b = objects w b)"
proof (cases "findElement (\<lambda>rqp. rqp_vid rqp = vid) (retrieveQueuePointers qt (oo_payload ob))")
  case (Inl e)
  with ob(1) show ?thesis by (simp add: re_getRetrieveQueueAddress_def re_removeRetrieveQueueAndCommit_def)
next
  case (Inr rqp)
  let ?a = "rqp_address rqp"
  have get: "re_getRetrieveQueueAddress vid qt ob = Inr ?a" using ob(1) Inr by (simp add: re_getRetrieveQueueAddress_def)
  have a: "?a \<noteq> re_address" using queue [OF get] ob(3) by (auto simp: stored_def missing_def codec_defs)
  have root: "lockFiles w re_address" "objects w re_address \<noteq> None" using storedD [OF ob(3)] by simp_all
  show ?thesis
  proof (cases "\<exists>q. stored rq_c w ?a q")
    case True
    then obtain q where q: "stored rq_c w ?a q" by blast
    have known: "(\<exists>q'. stored rq_c w ?a q' \<and> P q') \<longleftrightarrow> P q" for P
      using q by (auto simp: stored_def codec_defs)
    let ?w = "w\<lparr>objects := (objects w)(?a := None), lockFiles := (lockFiles w)(?a := False)\<rparr>"
    have "lockFiles ?w re_address" "objects ?w re_address \<noteq> None" using root a by simp_all
    from re_retrieve_unreferenced [OF ob(1,2) this unique, of vid] a show ?thesis
      unfolding get sum.case known re_remove_retrieve_stored [OF ob(1) Inr q] by fastforce
  next
    case False
    then have m: "missing w ?a" "\<not> lockFiles w ?a" using queue [OF get] by auto
    have none: "(\<exists>q'. stored rq_c w ?a q' \<and> P q') \<longleftrightarrow> False" for P using False by blast
    from re_retrieve_unreferenced [OF ob(1,2) root unique, of vid] a m(1) show ?thesis
      unfolding get sum.case none if_False re_remove_retrieve_missing [OF ob(1) Inr m] by (fastforce simp: missing_def)
  qed
qed

definition smx_root_rq :: root_entry where
  "smx_root_rq = smx_root\<lparr>re_retrieve_queue_failed_pointers := [\<lparr>rqp_address = ''rq'', rqp_vid = ''V1''\<rparr>]\<rparr>"

definition smx_world_rq :: world where
  "smx_world_rq = smx_world\<lparr>objects := (objects smx_world)(''root'' \<mapsto> smx_header (Payload_RootEntry smx_root_rq),
     ''rq'' \<mapsto> smx_header (Payload_RetrieveQueue (rq_empty\<lparr>rq_vid := ''V1''\<rparr>))), lockFiles := (lockFiles smx_world)(''rq'' := True)\<rparr>"

theorem re_remove_retrieve_queue_witness:
  "\<exists>ob1 w1. re_removeRetrieveQueueAndCommit ''V1'' FailedJobs (held_image ''root'' smx_root_rq) smx_world_rq = (Inr ob1, w1)
     \<and> objects w1 ''rq'' = None \<and> re_getRetrieveQueueAddress ''V1'' FailedJobs ob1 = Inl NoSuchRetrieveQueue"
proof -
  let ?ob = "held_image ''root'' smx_root_rq"
  have h: "held ?ob" "oo_name ?ob = re_address" by (simp_all add: re_address_def)
  have s: "stored re_c smx_world_rq re_address (oo_payload ?ob)"
    by (simp add: re_address_def stored_def smx_world_rq_def smx_world_def smx_header_def codec_defs)
  have q: "stored rq_c smx_world_rq ''rq'' q \<longleftrightarrow> q = rq_empty\<lparr>rq_vid := ''V1''\<rparr>" for q
    by (auto simp: stored_def smx_world_rq_def smx_header_def codec_defs)
  have g: "re_getRetrieveQueueAddress ''V1'' FailedJobs ?ob = Inr ''rq''"
    by (simp add: re_getRetrieveQueueAddress_def smx_root_rq_def findElement_def)
  have u: "distinct (map rqp_vid (retrieveQueuePointers FailedJobs (oo_payload ?ob)))" by (simp add: smx_root_rq_def)
  have "(\<exists>q. stored rq_c smx_world_rq a q) \<or> missing smx_world_rq a \<and> \<not> lockFiles smx_world_rq a"
    if "re_getRetrieveQueueAddress ''V1'' FailedJobs ?ob = Inr a" for a using that q by (auto simp: g)
  from re_remove_retrieve_queue [OF h s u, of "''V1''", OF this] show ?thesis
    unfolding g sum.case q by (auto simp: rq_empty_def)
qed

section \<open>The agent register and the scheduler's lock\<close>

lemma held_refetch:
  assumes "held ob" and "codec_ok c" and "stored c w (oo_name ob) p"
  shows "\<exists>ob'. oo_fetch c ob w = (Inr ob', w) \<and> held ob' \<and> oo_name ob' = oo_name ob \<and> oo_payload ob' = p"
  using assms by (auto simp: stored_def oo_fetch_def fetchBottomHalf_def vfs_read_def oo_interpret_def held_def getAddressIfSet_def)

text \<open>A new register, inserted and locked by its creator, who then gives it to the root entry.\<close>

lemma agr_created:
  assumes "a \<noteq> ''''" and "\<not> lockFiles w a" "objects w a = None"
  shows "\<exists>r0 r1 r2 r3 r4. agr_initialize ((oo_new agr_empty)\<lparr>oo_name := a, oo_nameSet := True\<rparr>) = Inr r0 \<and> setOwner '''' r0 = Inr r1
    \<and> setBackupOwner '''' r1 = Inr r2 \<and> oo_insert agr_c r2 w = (Inr r3, w\<lparr>objects := (objects w)(a \<mapsto> oo_header agr_c r2), lockFiles := (lockFiles w)(a := True)\<rparr>)
    
    \<and> exclusive_lock r3 (w\<lparr>objects := (objects w)(a \<mapsto> oo_header agr_c r2), lockFiles := (lockFiles w)(a := True)\<rparr>) = (Inr r4, w\<lparr>objects := (objects w)(a \<mapsto> oo_header agr_c r2), lockFiles := (lockFiles w)(a := True)\<rparr>) \<and> held r4 \<and> oo_name r4 = a \<and> oo_payload r4 = agr_empty"
  using assms by (simp add: agr_initialize_def oo_defs check_defs vfs_create_def exclusive_lock_def lock_object_def vfs_lockHelper_def Let_def held_def)

lemma held_given:
  assumes "held r"
  shows "\<exists>r5 r6. setOwner own r = Inr r5 \<and> setBackupOwner own r5 = Inr r6 \<and> held r6 \<and> oo_name r6 = oo_name r
    \<and> oo_payload r6 = oo_payload r \<and> oo_owner r6 = own"
  using assms by (auto simp: setOwner_def setBackupOwner_def held_def check_defs)

lemma re_createAgentRegister_ok:
  assumes ob: "held ob" "oo_name ob = re_address" "lockFiles w re_address" "objects w re_address \<noteq> None"
    and intent: "\<not> (re_agentregisterintent (oo_payload ob) \<noteq> '''' \<and> vfs_exists (re_agentregisterintent (oo_payload ob)) w)"
    and unset: "\<not> pointer_set (re_agentregisterpointer (oo_payload ob))"
    and a: "nextId ''AgentRegister'' w = (Inr a, w')" and fresh: "objects w a = None" "\<not> lockFiles w a"
  shows "\<exists>ob1 w1. re_createAgentRegister log ob w = (Inr (a, ob1), w1)
      \<and> oo_payload ob1 = (oo_payload ob)\<lparr>re_agentregisterpointer := Some \<lparr>lp_address = a, lp_log = log\<rparr>, re_agentregisterintent := ''''\<rparr>
      \<and> stored re_c w1 re_address (oo_payload ob1) \<and> stored agr_c w1 a agr_empty
      \<and> map_option oh_owner (objects w1 a) = Some re_address
      \<and> (\<forall>b. b \<noteq> a \<and> b \<noteq> re_address \<longrightarrow> objects w1 b = objects w b)"
proof -
  let ?p = "oo_payload ob"
  define obA where "obA = ob\<lparr>oo_payload := ?p\<lparr>re_agentregisterintent := a\<rparr>\<rparr>"
  define ob1 where "ob1 = obA\<lparr>oo_payload := (oo_payload obA)\<lparr>re_agentregisterpointer := Some \<lparr>lp_address = a, lp_log = log\<rparr>, re_agentregisterintent := ''''\<rparr>\<rparr>"
  have w': "objects w' = objects w" "lockFiles w' = lockFiles w" "a \<noteq> []" using a by (auto simp: nextId_def childId_def)
  have neq: "a \<noteq> re_address" using ob(4) fresh(1) by auto
  have obs: "held obA" "oo_name obA = re_address" "held ob1" "oo_name ob1 = re_address" using ob(1,2) by (simp_all add: obA_def ob1_def)
  have "vfs_exists i w' = vfs_exists i w" for i using w' by (simp add: vfs_exists_def)
  then have add: "re_addIntendedAgentRegistry a ob w' = (Inr obA, w')"
    using intent unset ob(1) by (auto simp: re_addIntendedAgentRegistry_def obA_def Let_def)
  define wA where "wA = w'\<lparr>objects := (objects w')(re_address \<mapsto> oo_header re_c obA)\<rparr>"
  have com: "oo_commit re_c obA w' = (Inr (), wA)" using obs ob(3,4) w' by (simp add: oo_commit_held vfs_exists_def wA_def)
  have fr: "\<not> lockFiles wA a" "objects wA a = None" using fresh neq w' by (simp_all add: wA_def)
  obtain r0 r1 r2 r3 r4 where r: "agr_initialize ((oo_new agr_empty)\<lparr>oo_name := a, oo_nameSet := True\<rparr>) = Inr r0" "setOwner '''' r0 = Inr r1"
    "setBackupOwner '''' r1 = Inr r2" "oo_insert agr_c r2 wA = (Inr r3, wA\<lparr>objects := (objects wA)(a \<mapsto> oo_header agr_c r2), lockFiles := (lockFiles wA)(a := True)\<rparr>)"
    "exclusive_lock r3 (wA\<lparr>objects := (objects wA)(a \<mapsto> oo_header agr_c r2), lockFiles := (lockFiles wA)(a := True)\<rparr>) = (Inr r4, wA\<lparr>objects := (objects wA)(a \<mapsto> oo_header agr_c r2), lockFiles := (lockFiles wA)(a := True)\<rparr>)" "held r4" "oo_name r4 = a" "oo_payload r4 = agr_empty"
    using agr_created [OF w'(3) fr] by (elim exE conjE)
  obtain r5 r6 where r6: "setOwner re_address r4 = Inr r5" "setBackupOwner re_address r5 = Inr r6" "held r6" "oo_name r6 = a"
    "oo_payload r6 = agr_empty" "oo_owner r6 = re_address" using held_given [OF r(6), of re_address] r(7,8) by auto
  let ?wB = "wA\<lparr>objects := (objects wA)(a \<mapsto> oo_header agr_c r2), lockFiles := (lockFiles wA)(a := True)\<rparr>"
  let ?wC = "?wB\<lparr>objects := (objects ?wB)(re_address \<mapsto> oo_header re_c ob1)\<rparr>"
  let ?wD = "?wC\<lparr>objects := (objects ?wC)(a \<mapsto> oo_header agr_c r6)\<rparr>"
  have comB: "oo_commit re_c ob1 ?wB = (Inr (), ?wC)" using obs ob(3,4) neq w' by (simp add: oo_commit_held vfs_exists_def wA_def)
  have comC: "oo_commit agr_c r6 ?wC = (Inr (), ?wD)" using r6 neq by (simp add: oo_commit_held vfs_exists_def)
  have "re_createAgentRegister log ob w = (Inr (a, ob1), ?wD)"
    using a add com r(1-5) r6 comB comC obs w'(3) by (simp add: re_createAgentRegister_def agr_at_eq ob1_def [symmetric] Let_def)
  moreover have "stored re_c ?wD re_address (oo_payload ob1)" using ob(3) neq w' by (intro stored_header) (simp_all add: wA_def re_address_def)
  moreover have "stored agr_c ?wD a agr_empty" using w'(3) r6(5) by (simp add: stored_def oo_header_def)
  ultimately show ?thesis using neq w' r6(6)
    by (intro exI [of _ ob1] exI [of _ ?wD]) (simp add: ob1_def obA_def wA_def oo_header_def)
qed

text \<open>
  C35. A root entry without an agent register creates one on demand: afterwards the root entry in the store
  points to it and has no intent left, and the register is there, empty and owned by the root entry; nothing
  else changes. When the object of an earlier intent is still in the store, the call cannot recover: it fails
  with \<open>NotLocked\<close>, and nothing is written.
\<close>
theorem re_agent_register_creation:
  assumes ob: "held ob" "oo_name ob = re_address" "stored re_c w re_address (oo_payload ob)"
    and none: "re_getAgentRegisterAddress ob = Inl NotAllocated"
    and a: "nextId ''AgentRegister'' w = (Inr a, w')" and fresh: "objects w a = None" "\<not> lockFiles w a"
  shows "if re_agentregisterintent (oo_payload ob) \<noteq> '''' \<and> vfs_exists (re_agentregisterintent (oo_payload ob)) w
    then re_addOrGetAgentRegisterPointerAndCommit log ob w = (Inl NotLocked, w') \<and> objects w' = objects w
    else \<exists>ob1 w1. re_addOrGetAgentRegisterPointerAndCommit log ob w = (Inr (a, ob1), w1)
      \<and> oo_payload ob1 = (oo_payload ob)\<lparr>re_agentregisterpointer := Some \<lparr>lp_address = a, lp_log = log\<rparr>, re_agentregisterintent := ''''\<rparr>
      \<and> stored re_c w1 re_address (oo_payload ob1) \<and> stored agr_c w1 a agr_empty
      \<and> map_option oh_owner (objects w1 a) = Some re_address
      \<and> (\<forall>b. b \<noteq> a \<and> b \<noteq> re_address \<longrightarrow> objects w1 b = objects w b)"
proof -
  obtain ob0 where ob0: "oo_fetch re_c ob w = (Inr ob0, w)" "held ob0" "oo_name ob0 = re_address" "oo_payload ob0 = oo_payload ob"
    using held_refetch [OF ob(1) codecs_ok(7)] ob(2,3) by metis
  let ?p = "oo_payload ob"
  have unset: "\<not> pointer_set (re_agentregisterpointer ?p)"
    using none ob(1) by (auto simp: re_getAgentRegisterAddress_def pointer_set_def split: option.splits if_splits)
  then have start: "re_addOrGetAgentRegisterPointerAndCommit log ob w = re_createAgentRegister log ob0 w"
    using none ob(1) ob0 by (auto simp: re_addOrGetAgentRegisterPointerAndCommit_def pointer_set_def split: option.split)
  have w': "objects w' = objects w" "lockFiles w' = lockFiles w" using a by (auto simp: nextId_def)
  show ?thesis
  proof (cases "re_agentregisterintent ?p \<noteq> '''' \<and> vfs_exists (re_agentregisterintent ?p) w")
    case True
    have "oo_fetch agr_c ((oo_new agr_empty)\<lparr>oo_name := re_agentregisterintent ?p, oo_nameSet := True\<rparr>) w' = (Inl NotLocked, w')"
      by (simp add: oo_defs check_defs)
    moreover have "vfs_exists (re_agentregisterintent ?p) w'" using True w' by (simp add: vfs_exists_def)
    ultimately have "re_addIntendedAgentRegistry a ob0 w' = (Inl NotLocked, w')"
      using True ob0 unset by (simp add: re_addIntendedAgentRegistry_def agr_at_eq Let_def)
    with True a w' show ?thesis by (simp add: start re_createAgentRegister_def)
  next
    case False
    with re_createAgentRegister_ok [OF ob0(2,3) _ _ _ _ a fresh, of log] storedD [OF ob(3)] unset show ?thesis
      unfolding start if_not_P [OF False] ob0(4) by simp
  qed
qed

text \<open>A root entry left by a process that stopped between the intent and the pointer.\<close>

definition smx_root_intent :: root_entry where
  "smx_root_intent = re_empty\<lparr>re_agentregisterintent := ''reg''\<rparr>"

theorem re_agent_register_creation_witness:
  "re_addOrGetAgentRegisterPointerAndCommit smx_log (held_image ''root'' smx_root_intent)
      (smx_world\<lparr>objects := (objects smx_world)(''root'' \<mapsto> smx_header (Payload_RootEntry smx_root_intent))\<rparr>)
   = (Inl NotLocked, smx_world\<lparr>objects := (objects smx_world)(''root'' \<mapsto> smx_header (Payload_RootEntry smx_root_intent)), nextIdCounter := 1\<rparr>)"
proof -
  let ?ob = "held_image ''root'' smx_root_intent" and ?w = "smx_world\<lparr>objects := (objects smx_world)(''root'' \<mapsto> smx_header (Payload_RootEntry smx_root_intent))\<rparr>"
  have h: "held ?ob" "oo_name ?ob = re_address" by (simp_all add: re_address_def)
  have s: "stored re_c ?w re_address (oo_payload ?ob)"
    by (simp add: re_address_def stored_def smx_world_def smx_header_def codec_defs)
  have none: "re_getAgentRegisterAddress ?ob = Inl NotAllocated"
    by (simp add: re_getAgentRegisterAddress_def smx_root_intent_def re_empty_def)
  have dec0: "dec_string 0 = ''0''" by code_simp
  have n: "nextId ''AgentRegister'' ?w = (Inr ''AgentRegister-ag-0'', ?w\<lparr>nextIdCounter := 1\<rparr>)"
    by (simp add: nextId_def childId_def smx_world_def dec0)
  have "re_agentregisterintent smx_root_intent = ''reg''" by (simp add: smx_root_intent_def)
  with re_agent_register_creation [OF h s none n, of smx_log] show ?thesis by (simp add: smx_world_def vfs_exists_def)
qed

text \<open>
  The collection of an object the root entry may point to, for the scheduler's lock and the drive register:
  \<open>pointed\<close> reads the pointer in the payload \<open>r\<close> of the root entry.
\<close>

lemma collect_unpointed_cases:
  assumes ob: "held ob" "stored c w (oo_name ob) q" and root: "stored re_c w re_address r"
    and pointed: "\<And>re. checkPayloadReadable re = Inr () \<Longrightarrow> oo_payload re = r \<Longrightarrow> pointed re = at"
    and at: "\<And>e. at = Inl e \<Longrightarrow> e = NotAllocated" and neq: "oo_name ob \<noteq> re_address"
    and empty: "isEmpty ob = Inr none"
  shows "if presumedOwner \<noteq> oo_owner ob then collect_unpointed c isEmpty pointed presumedOwner ob w = (Inr ob, w)
    else if at = Inr (oo_name ob) then \<exists>w1. collect_unpointed c isEmpty pointed presumedOwner ob w = (Inr (ob\<lparr>oo_owner := re_address\<rparr>), w1)
      \<and> objects w1 = (objects w)(oo_name ob \<mapsto> oo_header c (ob\<lparr>oo_owner := re_address\<rparr>))
    else if \<not> none then collect_unpointed c isEmpty pointed presumedOwner ob w = (Inl NotEmpty, w)
    else \<exists>ob1 w1. collect_unpointed c isEmpty pointed presumedOwner ob w = (Inr ob1, w1) \<and> objects w1 = (objects w)(oo_name ob := None)"
proof -
  obtain re1 re2 where re: "shared_lock ((oo_new re_empty)\<lparr>oo_name := re_address, oo_nameSet := True\<rparr>) w = (Inr re1, w)"
    "oo_fetch re_c re1 w = (Inr re2, w)" "checkPayloadReadable re2 = Inr ()" "oo_name re2 = re_address" "oo_payload re2 = r"
    using shared_fetch_stored [OF codecs_ok(7) root, of re_empty] by (elim exE conjE)
  have at2: "pointed re2 = at" using pointed re by blast
  have adr: "getAddressIfSet re2 = Inr re_address"
    using re(1,2,4) by (auto simp: shared_lock_def lock_object_def oo_defs bnd_def vfs_lockHelper_def vfs_read_def oo_new_def check_defs split: prod.splits sum.splits if_splits option.splits)
  let ?there = "case at of Inr a \<Rightarrow> ret (a = oo_name ob) | Inl e \<Rightarrow> if e = NotAllocated then ret False else throw e"
  have there: "?there w = (Inr (at = Inr (oo_name ob)), w)" using at by (cases at) auto
  have own: "setOwner re_address ob = Inr (ob\<lparr>oo_owner := re_address\<rparr>)" using ob(1) by (simp add: setOwner_def)
  have com: "oo_commit c (ob\<lparr>oo_owner := re_address\<rparr>) w = (Inr (), w\<lparr>objects := (objects w)(oo_name ob \<mapsto> oo_header c (ob\<lparr>oo_owner := re_address\<rparr>))\<rparr>)"
    using ob storedD [OF ob(2)] by (simp add: oo_commit_held vfs_exists_def)
  obtain ob1 where rem: "oo_remove ob w = (Inr ob1, w\<lparr>objects := (objects w)(oo_name ob := None), lockFiles := (lockFiles w)(oo_name ob := False)\<rparr>)"
    using ob storedD [OF ob(2)] by (simp add: oo_remove_def vfs_remove_def)
  show ?thesis using ob(1) re there own com rem empty adr at2
    by (simp add: collect_unpointed_def re_at_eq)
qed

text \<open>
  Collecting the scheduler's lock of a dead agent: when it belongs to somebody else, nothing happens; when
  the root entry points to it, it is given to the root entry; a lock the root entry does not point to is removed. No
  other object changes.
\<close>
lemma sgl_collected:
  assumes "held ob" "stored sgl_c w (oo_name ob) q" "stored re_c w re_address r"
  shows "if presumedOwner \<noteq> oo_owner ob then sgl_garbageCollect presumedOwner ob w = (Inr ob, w)
    else if (\<exists>l. re_schedulerlockpointer r = Some l \<and> lp_address l = oo_name ob)
    then \<exists>w1. sgl_garbageCollect presumedOwner ob w = (Inr (ob\<lparr>oo_owner := re_address\<rparr>), w1)
      \<and> objects w1 = (objects w)(oo_name ob \<mapsto> oo_header sgl_c (ob\<lparr>oo_owner := re_address\<rparr>))
    else \<exists>ob1 w1. sgl_garbageCollect presumedOwner ob w = (Inr ob1, w1) \<and> objects w1 = (objects w)(oo_name ob := None)"
proof -
  let ?at = "case re_schedulerlockpointer r of Some l \<Rightarrow> if lp_address l \<noteq> '''' then Inr (lp_address l) else Inl NotAllocated | None \<Rightarrow> Inl NotAllocated"
  have neq: "oo_name ob \<noteq> re_address" using assms(2,3) by (auto simp: stored_def codec_defs)
  have at: "e = NotAllocated" if "?at = Inl e" for e using that by (auto split: option.splits if_splits)
  have points: "?at = Inr (oo_name ob) \<longleftrightarrow> (\<exists>l. re_schedulerlockpointer r = Some l \<and> lp_address l = oo_name ob)"
    using assms(1) by (auto simp: held_def split: option.splits if_splits)
  have none: "sgl_isEmpty ob = Inr True" using assms(1) by (simp add: sgl_isEmpty_def)
  have "re_getSchedulerGlobalLock re = ?at" if "checkPayloadReadable re = Inr ()" "oo_payload re = r" for re
    using that by (simp add: re_getSchedulerGlobalLock_def)
  from collect_unpointed_cases [where isEmpty = sgl_isEmpty and pointed = re_getSchedulerGlobalLock, OF assms this at neq none, of presumedOwner] show ?thesis
    unfolding points sgl_garbageCollect_def not_True_eq_False if_False .
qed

text \<open>
  The drive register compares its address with that of the agent register: one the root entry points to is
  removed all the same, and the root entry keeps the pointer.
\<close>

lemma dr_collected_although_pointed:
  assumes "held ob" "stored dr_c w (oo_name ob) q" "stored re_c w re_address r" "oo_owner ob = dead"
    and "dr_drives (oo_payload ob) = []" "re_driveregisterpointer r = Some l" "lp_address l = oo_name ob"
    and la: "re_agentregisterpointer r = Some la" "lp_address la \<noteq> ''''" "lp_address la \<noteq> oo_name ob"
  shows "\<exists>ob1 w1. dr_garbageCollect dead ob w = (Inr ob1, w1) \<and> objects w1 (lp_address l) = None \<and> objects w1 re_address = objects w re_address"
proof -
  have neq: "oo_name ob \<noteq> re_address" using assms(2,3) by (auto simp: stored_def codec_defs)
  have none: "dr_isEmpty ob = Inr True" using assms(1,5) by (simp add: dr_isEmpty_def)
  have at: "re_getAgentRegisterAddress re = Inr (lp_address la)" if "checkPayloadReadable re = Inr ()" "oo_payload re = r" for re
    using that la by (simp add: re_getAgentRegisterAddress_def)
  from collect_unpointed_cases [where isEmpty = dr_isEmpty and pointed = re_getAgentRegisterAddress, OF assms(1-3) at _ neq none, of dead] assms(4,7) la(3) neq show ?thesis
    unfolding dr_garbageCollect_def by auto
qed

end
