(* ===== verification/Helpers.thy ===== *)
theory Helpers
  imports RootEntry
begin

text \<open>
  \<open>objectstore/Helpers.cpp\<close>: finding a queue through the root entry, creating it when there is none, and locking
  it; the statistics of retrieve queues; the repack index. The three functions that find a queue have the same
  shape, which is \<open>lock_attempts\<close> here. The times taken and the log are left out.
\<close>

section \<open>Finding and locking a queue\<close>

text \<open>
  The address of the queue: first from the root entry read without lock, then, when that fails, from the
  locked root entry, which creates the queue if needed.
\<close>

definition find_or_create ::
  "(root_entry oo \<Rightarrow> exn + string) \<Rightarrow> (root_entry oo \<Rightarrow> (world, string \<times> root_entry oo) prog) \<Rightarrow> 'p oo \<Rightarrow> (world, 'p oo) prog" where
  "find_or_create getAddress addOrGet queue =
     bnd (liftr re_at) (\<lambda>re.
     bnd (oo_fetchNoLock re_c re) (\<lambda>re.
     case rbind (getAddress re) (\<lambda>a. setAddress a queue) of
       Inr queue1 \<Rightarrow> ret queue1
     | Inl e \<Rightarrow>
         if \<not> is_cta_exception e then throw e
         else bnd (exclusive_lock re) (\<lambda>re.
              bnd (oo_fetch re_c re) (\<lambda>re.
              bnd (addOrGet re) (\<lambda>(a, re).
              liftr (setAddress a queue))))))"

text \<open>The queue is not there: its reference is removed from the root entry; a failure to do so is not fatal.\<close>

definition dereference_queue :: "(root_entry oo \<Rightarrow> (world, root_entry oo) prog) \<Rightarrow> (world, unit) prog" where
  "dereference_queue removeQueue =
     bnd (liftr re_at) (\<lambda>re.
     bnd (exclusive_lock re) (\<lambda>re.
     bnd (oo_fetch re_c re) (\<lambda>re.
     caught (\<lambda>e. if is_cta_exception e then Some (ret ()) else None)
       (bnd (removeQueue re) (\<lambda>_. ret ())))))"

text \<open>
  One attempt: \<open>Inr\<close> is the queue, locked and fetched, \<open>Inl\<close> the image for the next attempt, unlocked and
  without address.
\<close>

definition lock_attempt ::
  "'p codec \<Rightarrow> (root_entry oo \<Rightarrow> exn + string) \<Rightarrow> (root_entry oo \<Rightarrow> (world, string \<times> root_entry oo) prog)
   \<Rightarrow> (root_entry oo \<Rightarrow> (world, root_entry oo) prog) \<Rightarrow> nat \<Rightarrow> 'p oo \<Rightarrow> (world, 'p oo + 'p oo) prog" where
  "lock_attempt c getAddress addOrGet removeQueue i queue =
     bnd (find_or_create getAddress addOrGet queue) (\<lambda>q.
     caught (\<lambda>e. if is_cta_exception e
                 then Some (bnd (if 0 < i \<and> e = NoSuchObject then dereference_queue removeQueue else ret ()) (\<lambda>_.
                            bnd (liftr (resetAddress q)) (\<lambda>q1. ret (Inl q1))))
                 else None)
       (bnd (exclusive_lock q) (\<lambda>q1. bnd (oo_fetch c q1) (\<lambda>q2. ret (Inr q2)))))"

fun lock_attempts :: "(nat \<Rightarrow> 'p oo \<Rightarrow> (world, 'p oo + 'p oo) prog) \<Rightarrow> exn \<Rightarrow> nat list \<Rightarrow> 'p oo \<Rightarrow> (world, 'p oo) prog" where
  "lock_attempts attempt failure [] queue = throw failure"
| "lock_attempts attempt failure (i # is) queue =
     bnd (attempt i queue) (\<lambda>r. case r of
       Inl queue1 \<Rightarrow> lock_attempts attempt failure is queue1
     | Inr queue1 \<Rightarrow> ret queue1)"

definition getLockedAndFetchedArchiveQueue ::
  "string \<Rightarrow> JobQueueType \<Rightarrow> archive_queue oo \<Rightarrow> (world, archive_queue oo) prog" where
  "getLockedAndFetchedArchiveQueue tapePool queueType =
     lock_attempts (lock_attempt aq_c (re_getArchiveQueueAddress tapePool queueType)
         (re_addOrGetArchiveQueueAndCommit tapePool queueType) (re_removeArchiveQueueAndCommit tapePool queueType))
       (CtaException ''Helpers::getLockedAndFetchedArchiveQueue'') [0..<5]"

definition getLockedAndFetchedRetrieveQueue ::
  "string \<Rightarrow> JobQueueType \<Rightarrow> retrieve_queue oo \<Rightarrow> (world, retrieve_queue oo) prog" where
  "getLockedAndFetchedRetrieveQueue vid queueType =
     lock_attempts (lock_attempt rq_c (re_getRetrieveQueueAddress vid queueType)
         (re_addOrGetRetrieveQueueAndCommit vid queueType) (re_removeRetrieveQueueAndCommit vid queueType))
       (CtaException ''Helpers::getLockedAndFetchedRetrieveQueue'') [0..<5]"

definition getLockedAndFetchedRepackQueue ::
  "RepackQueueType \<Rightarrow> repack_queue oo \<Rightarrow> (world, repack_queue oo) prog" where
  "getLockedAndFetchedRepackQueue queueType =
     lock_attempts (lock_attempt rpq_c (re_getRepackQueueAddress queueType)
         (re_addOrGetRepackQueueAndCommit queueType) (re_removeRepackQueueAndCommit queueType))
       (CtaException ''Helpers::getLockedAndFetchedRepackQueue'') [0..<5]"

section \<open>Statistics of retrieve queues\<close>

record retrieve_queue_statistics =
  rqst_vid :: string
  rqst_bytesQueued :: u64
  rqst_filesQueued :: u64
  rqst_currentPriority :: u64

definition rqst_greater :: "retrieve_queue_statistics \<Rightarrow> retrieve_queue_statistics \<Rightarrow> bool" where
  "rqst_greater l r \<longleftrightarrow> rqst_bytesQueued l > rqst_bytesQueued r \<or> rqst_currentPriority l > rqst_currentPriority r"

text \<open>The release of a shared lock, which voids the payload in memory.\<close>

definition shared_release :: "'p oo \<Rightarrow> 'p oo" where
  "shared_release ob = unlock_and_void \<lparr>sl_exclusive = False, sl_locked = True\<rparr> ob"

text \<open>
  \<open>getRetrieveQueueStatistics\<close>. The lock on the root entry is released before the root entry is asked, and the
  address found there is put in a variable of the \<open>try\<close> block that hides the one used after it, so the queue
  would be opened at the empty address.
\<close>

definition rqst_of_vid :: "root_entry oo \<Rightarrow> string \<Rightarrow> (world, retrieve_queue_statistics) prog" where
  "rqst_of_vid re vid =
     (case re_getRetrieveQueueAddress vid JobsToTransferForUser re of
        Inl e \<Rightarrow> if is_cta_exception e
                 then ret \<lparr>rqst_vid = vid, rqst_bytesQueued = 0, rqst_filesQueued = 0, rqst_currentPriority = 0\<rparr> else throw e
      | Inr _ \<Rightarrow>
          let rqAddr = '''' in
          bnd (liftr (setAddress rqAddr (oo_new rq_empty))) (\<lambda>rq.
          bnd (shared_lock rq) (\<lambda>rq.
          bnd (oo_fetch rq_c rq) (\<lambda>rq.
          let rq = shared_release rq in
          bnd (liftr (rq_getVid rq)) (\<lambda>v.
          if v \<noteq> vid then throw (CtaException ''OStoreDB::getRetrieveQueueStatistics'')
          else bnd (liftr (rq_getJobsSummary rq)) (\<lambda>s.
               ret \<lparr>rqst_vid = v, rqst_bytesQueued = rqjs_bytes s, rqst_filesQueued = rqjs_jobs s,
                    rqst_currentPriority = rqjs_priority s\<rparr>))))))"

definition getRetrieveQueueStatistics ::
  "string list \<Rightarrow> string set \<Rightarrow> (world, retrieve_queue_statistics list) prog" where
  "getRetrieveQueueStatistics tapeFileVids vidsToConsider =
     bnd (liftr re_at) (\<lambda>re.
     bnd (shared_lock re) (\<lambda>re.
     bnd (oo_fetch re_c re) (\<lambda>re.
     let re = shared_release re in
     foldM (\<lambda>stats vid. if vid \<notin> vidsToConsider then ret stats
                        else bnd (rqst_of_vid re vid) (\<lambda>s. ret (stats @ [s]))) [] tapeFileVids)))"

section \<open>The repack index\<close>

definition registerRepackRequestToIndex :: "string \<Rightarrow> string \<Rightarrow> (world, unit) prog" where
  "registerRepackRequestToIndex vid requestAddress =
     bnd (liftr re_at) (\<lambda>re.
     bnd (oo_fetchNoLock re_c re) (\<lambda>re.
     bnd (case re_getRepackIndexAddress re of
            Inr a \<Rightarrow> ret a
          | Inl e \<Rightarrow>
              if \<not> is_cta_exception e then throw e
              else bnd (exclusive_lock re) (\<lambda>re.
                   bnd (oo_fetch re_c re) (\<lambda>re.
                   bnd (re_addOrGetRepackIndexAndCommit re) (\<lambda>(a, re). ret a)))) (\<lambda>repackIndexAddress.
     bnd (liftr (ri_at repackIndexAddress)) (\<lambda>ri.
     bnd (exclusive_lock ri) (\<lambda>ri.
     bnd (oo_fetch ri_c ri) (\<lambda>ri.
     bnd (liftr (ri_addRepackRequestAddress vid requestAddress ri)) (\<lambda>ri.
     oo_commit ri_c ri)))))))"

definition removeRepackRequestToIndex :: "string \<Rightarrow> (world, unit) prog" where
  "removeRepackRequestToIndex vid =
     bnd (liftr re_at) (\<lambda>re.
     bnd (oo_fetchNoLock re_c re) (\<lambda>re.
     case re_getRepackIndexAddress re of
       Inl e \<Rightarrow> if is_cta_exception e then ret () else throw e
     | Inr repackIndexAddress \<Rightarrow>
         bnd (liftr (ri_at repackIndexAddress)) (\<lambda>ri.
         bnd (exclusive_lock ri) (\<lambda>ri.
         bnd (oo_fetch ri_c ri) (\<lambda>ri.
         bnd (liftr (ri_removeRepackRequest vid ri)) (\<lambda>ri.
         oo_commit ri_c ri))))))"

end
