(* ===== verification/HelpersProperties.thy ===== *)
theory HelpersProperties
  imports Helpers QueueDirectory
begin

text \<open>
  The theorems on \<open>Helpers.cpp\<close>: a queue is always found, created or found again after its disappearance, within
  the five attempts of the loop; the statistics of the retrieve queues.
\<close>

section \<open>Reading the root entry\<close>

abbreviation "root_image \<equiv> (oo_new re_empty)\<lparr>oo_name := re_address, oo_nameSet := True\<rparr>"

text \<open>The root entry read without lock, then locked and fetched again, as an image of its own and as the same image.\<close>

lemma root_read:
  assumes "stored re_c w re_address r"
  shows "\<exists>re re1 re2. oo_fetchNoLock re_c root_image w = (Inr re, w) \<and> checkPayloadReadable re = Inr () \<and> oo_payload re = r
    \<and> exclusive_lock re w = (Inr re1, w) \<and> oo_fetch re_c re1 w = (Inr re2, w)
    \<and> held re2 \<and> oo_name re2 = re_address \<and> oo_payload re2 = r"
proof -
  obtain h where h: "objects w re_address = Some h" "oh_payload h = enc re_c r" "re_address \<noteq> []" "lockFiles w re_address"
    using assms by (auto simp: stored_def)
  let ?re = "root_image\<lparr>oo_noLock := True, oo_existingObject := True, oo_version := oh_version h, oo_owner := oh_owner h,
    oo_backupowner := oh_backupowner h, oo_headerInterpreted := True, oo_payloadInterpreted := True, oo_payload := r\<rparr>"
  let ?re1 = "?re\<lparr>oo_locksCount := 1, oo_locksForWriteCount := 1, oo_exclusiveLock := Some \<lparr>sl_exclusive = True, sl_locked = True\<rparr>\<rparr>"
  have "oo_fetchNoLock re_c root_image w = (Inr ?re, w)" using h by (simp add: oo_defs vfs_read_def)
  moreover have "checkPayloadReadable ?re = Inr ()" by (simp add: check_defs)
  moreover have "exclusive_lock ?re w = (Inr ?re1, w)"
    using h by (simp add: exclusive_lock_def lock_object_def vfs_lockHelper_def oo_defs Let_def)
  moreover have "oo_fetch re_c ?re1 w = (Inr ?re1, w)" using h by (simp add: oo_defs vfs_read_def)
  moreover have "held ?re1" using h by (simp add: held_def oo_new_def)
  ultimately show ?thesis by (intro exI [of _ ?re] exI [of _ ?re1]) (simp add: oo_new_def)
qed

section \<open>One attempt\<close>

abbreviation "archive_attempt tp qt \<equiv> lock_attempt aq_c (re_getArchiveQueueAddress tp qt)
  (re_addOrGetArchiveQueueAndCommit tp qt) (re_removeArchiveQueueAndCommit tp qt)"

abbreviation "queue_image a \<equiv> (oo_new aq_empty)\<lparr>oo_name := a, oo_nameSet := True\<rparr>"

lemma find_listed:
  assumes "stored re_c w re_address r" and "archive_queue_of r qt tp = Some a" and "a \<noteq> ''''"
  shows "find_or_create (re_getArchiveQueueAddress tp qt) (re_addOrGetArchiveQueueAndCommit tp qt) (oo_new aq_empty) w = (Inr (queue_image a), w)"
proof -
  obtain re where "oo_fetchNoLock re_c root_image w = (Inr re, w)" "checkPayloadReadable re = Inr ()" "oo_payload re = r"
    using root_read [OF assms(1)] by (elim exE conjE)
  with assms(2,3) show ?thesis
    by (simp add: find_or_create_def re_at_eq re_getArchiveQueueAddress_eq setAddress_new)
qed

lemma reset_image: "resetAddress ((oo_new p)\<lparr>oo_name := a, oo_nameSet := True\<rparr>) = Inr (oo_new p)"
  by (simp add: resetAddress_def oo_new_def)

lemma attempt_stored:
  assumes root: "stored re_c w re_address r" "archive_queue_of r qt tp = Some a" and q: "stored aq_c w a p"
  shows "\<exists>cont. archive_attempt tp qt i (oo_new aq_empty) w = (Inr (Inr cont), w) \<and> held cont \<and> oo_name cont = a
    \<and> oo_payload cont = p \<and> objects w a = Some (oo_header aq_c cont)"
proof -
  obtain s1 cont where c: "exclusive_lock (queue_image a) w = (Inr s1, w)" "oo_fetch aq_c s1 w = (Inr cont, w)"
    "held cont" "oo_name cont = a" "oo_payload cont = p" "objects w a = Some (oo_header aq_c cont)"
    using exclusive_fetch_stored [OF codecs_ok(1) q, of aq_empty] by (elim exE conjE)
  have "a \<noteq> ''''" using storedD [OF q] by simp
  then have "archive_attempt tp qt i (oo_new aq_empty) w = (Inr (Inr cont), w)"
    using c(1,2) by (simp add: lock_attempt_def find_listed [OF root])
  with c show ?thesis by blast
qed

lemma attempt_missing_first:
  assumes root: "stored re_c w re_address r" "archive_queue_of r qt tp = Some a" and m: "missing w a" "\<not> lockFiles w a"
  shows "archive_attempt tp qt 0 (oo_new aq_empty) w = (Inr (Inl (oo_new aq_empty)), w)"
proof -
  have "a \<noteq> ''''" using m by (simp add: missing_def)
  then show ?thesis
    by (simp add: lock_attempt_def find_listed [OF root] exclusive_lock_missing [OF m] is_cta_exception_def reset_image)
qed

lemma attempt_missing_again:
  assumes root: "stored re_c w re_address r" "distinct (map aqp_name (archiveQueuePointers qt r))" "archive_queue_of r qt tp = Some a"
    and m: "missing w a" "\<not> lockFiles w a" and i: "0 < i"
  shows "\<exists>re1. archive_attempt tp qt i (oo_new aq_empty) w = (Inr (Inl (oo_new aq_empty)), w\<lparr>objects := (objects w)(re_address \<mapsto> oo_header re_c re1)\<rparr>)
    \<and> (\<forall>qt' tp'. archive_queue_of (oo_payload re1) qt' tp' = (if qt' = qt \<and> tp' = tp then None else archive_queue_of r qt' tp'))
    \<and> (\<forall>qt'. distinct (map aqp_name (archiveQueuePointers qt' r)) \<longrightarrow> distinct (map aqp_name (archiveQueuePointers qt' (oo_payload re1))))"
proof -
  have a: "a \<noteq> ''''" and l: "lockFiles w re_address" "objects w re_address \<noteq> None" using m storedD [OF root(1)] by (simp_all add: missing_def)
  obtain s1 re where re: "exclusive_lock root_image w = (Inr s1, w)" "oo_fetch re_c s1 w = (Inr re, w)"
    "held re" "oo_name re = re_address" "oo_payload re = r"
    using exclusive_fetch_stored [OF codecs_ok(7) root(1), of re_empty] by (elim exE conjE)
  obtain re1 where re1: "bnd (oo_commit re_c (re_removeMissingArchiveQueueReference tp qt re)) (\<lambda>_. ret (re_removeMissingArchiveQueueReference tp qt re)) w
      = (Inr re1, w\<lparr>objects := (objects w)(re_address \<mapsto> oo_header re_c re1)\<rparr>)" (is "_ = (_, ?w1)")
    "\<forall>qt' tp'. archive_queue_of (oo_payload re1) qt' tp' = (if qt' = qt \<and> tp' = tp then None else archive_queue_of r qt' tp')"
    "\<forall>qt'. distinct (map aqp_name (archiveQueuePointers qt' r)) \<longrightarrow> distinct (map aqp_name (archiveQueuePointers qt' (oo_payload re1)))"
    using re_archive_unreferenced [OF re(3,4) l, of qt tp, unfolded re(5), OF root(2)] by (elim exE conjE)
  have "re_removeArchiveQueueAndCommit tp qt re w = (Inr re1, ?w1)"
    using re_remove_archive_missing [OF re(3) _ m, of qt tp] root(3) re(5) re1(1) by simp
  then have "dereference_queue (re_removeArchiveQueueAndCommit tp qt) w = (Inr (), ?w1)"
    using re(1,2) by (simp add: dereference_queue_def re_at_eq)
  then have "archive_attempt tp qt i (oo_new aq_empty) w = (Inr (Inl (oo_new aq_empty)), ?w1)"
    using i by (simp add: lock_attempt_def find_listed [OF root(1,3) a] exclusive_lock_missing [OF m] is_cta_exception_def reset_image)
  with re1(2,3) show ?thesis by blast
qed

text \<open>The queue is not listed: it is created under a new name, then locked and fetched.\<close>

definition aq_created :: "world \<Rightarrow> root_entry \<Rightarrow> JobQueueType \<Rightarrow> string \<Rightarrow> archive_queue oo \<Rightarrow> world \<Rightarrow> root_entry \<Rightarrow> bool" where
  "aq_created w r qt tp cont w' r' \<longleftrightarrow> held cont \<and> objects w (oo_name cont) = None \<and> lockFiles w' (oo_name cont)
     \<and> objects w' (oo_name cont) = Some (oo_header aq_c cont) \<and> aq_tapepool (oo_payload cont) = tp \<and> aq_rep (oo_payload cont) []
     \<and> stored re_c w' re_address r' \<and> same_except {re_address, oo_name cont} w w'
     \<and> (\<forall>qt' tp'. archive_queue_of r' qt' tp' = (if qt' = qt \<and> tp' = tp then Some (oo_name cont) else archive_queue_of r qt' tp'))
     \<and> (\<forall>qt'. distinct (map aqp_name (archiveQueuePointers qt' r)) \<longrightarrow> distinct (map aqp_name (archiveQueuePointers qt' r')))"

lemma attempt_new:
  assumes root: "stored re_c w re_address r" "archive_queue_of r qt tp = None"
    and fresh: "fresh_ids w (Suc k)" "Suc k \<le> 2 ^ 64"
  shows "\<exists>cont w' r'. archive_attempt tp qt i (oo_new aq_empty) w = (Inr (Inr cont), w') \<and> aq_created w r qt tp cont w' r' \<and> fresh_ids w' k"
proof -
  let ?ct = "archiveQueueNameHeader qt @ ''-'' @ tp"
  let ?a = "childId ?ct (agentAddress w) (nextIdCounter w)" and ?w1 = "w\<lparr>nextIdCounter := nextIdCounter w + 1\<rparr>"
  have id: "nextId ?ct w = (Inr ?a, ?w1)" by (simp add: nextId_def)
  have new: "objects w ?a = None" "\<not> lockFiles w ?a" using fresh_ids_next [OF fresh(1)] by blast+
  obtain re re1 re2 where re: "oo_fetchNoLock re_c root_image w = (Inr re, w)" "checkPayloadReadable re = Inr ()" "oo_payload re = r"
    "exclusive_lock re w = (Inr re1, w)" "oo_fetch re_c re1 w = (Inr re2, w)" "held re2" "oo_name re2 = re_address" "oo_payload re2 = r"
    using root_read [OF root(1)] by (elim exE conjE)
  have st: "stored re_c w re_address (oo_payload re2)" "archive_queue_of (oo_payload re2) qt tp = None" using root re(8) by simp_all
  obtain ob1 q where add: "re_addOrGetArchiveQueueAndCommit tp qt re2 w = (Inr (?a, ob1),
      ?w1\<lparr>objects := (objects w)(re_address \<mapsto> oo_header re_c ob1, ?a \<mapsto> oo_header aq_c q), lockFiles := (lockFiles w)(?a := True)\<rparr>)"
    (is "_ = (_, ?w2)") "held ob1" "oo_name ob1 = re_address"
    "\<forall>qt' tp'. archive_queue_of (oo_payload ob1) qt' tp' = (if qt' = qt \<and> tp' = tp then Some ?a else archive_queue_of r qt' tp')"
    "\<forall>qt'. distinct (map aqp_name (archiveQueuePointers qt' r)) \<longrightarrow> distinct (map aqp_name (archiveQueuePointers qt' (oo_payload ob1)))"
    "aq_tapepool (oo_payload q) = tp" "aq_rep (oo_payload q) []"
    using re_archive_queue_new [OF re(6,7) st id new] unfolding re(8) by (elim exE conjE)
  have a: "?a \<noteq> ''''" "?a \<noteq> re_address" "lockFiles w re_address" "objects w re_address \<noteq> None" "re_address \<noteq> ''''"
    using storedD [OF root(1)] new(1) by (auto simp: childId_def)
  have q: "stored aq_c ?w2 ?a (oo_payload q)" using a by (intro stored_header) simp_all
  obtain s1 cont where c: "exclusive_lock (queue_image ?a) ?w2 = (Inr s1, ?w2)" "oo_fetch aq_c s1 ?w2 = (Inr cont, ?w2)"
    "held cont" "oo_name cont = ?a" "oo_payload cont = oo_payload q" "objects ?w2 ?a = Some (oo_header aq_c cont)"
    using exclusive_fetch_stored [OF codecs_ok(1) q, of aq_empty] by (elim exE conjE)
  have "find_or_create (re_getArchiveQueueAddress tp qt) (re_addOrGetArchiveQueueAndCommit tp qt) (oo_new aq_empty) w = (Inr (queue_image ?a), ?w2)"
    using re root(2) add(1) a(1) by (simp add: find_or_create_def re_at_eq re_getArchiveQueueAddress_eq setAddress_new is_cta_exception_def)
  then have run: "archive_attempt tp qt i (oo_new aq_empty) w = (Inr (Inr cont), ?w2)"
    using c(1,2) by (simp add: lock_attempt_def)
  have same: "same_except {re_address, ?a} w ?w2" by (simp add: same_except_def)
  have root': "stored re_c ?w2 re_address (oo_payload ob1)" using a by (intro stored_header) simp_all
  have created: "aq_created w r qt tp cont ?w2 (oo_payload ob1)"
    unfolding aq_created_def c(4,5) using c(3,6) add(4-7) new root' same by (intro conjI) simp_all
  have "fresh_ids ?w2 k" by (rule fresh_ids_same_step [OF fresh _ same, where ct = ?ct]) (use a(3,4) in auto)
  with run created show ?thesis by blast
qed

section \<open>The loop\<close>

lemma aq_created_after_dereference:
  assumes c: "aq_created (w\<lparr>objects := (objects w)(re_address \<mapsto> h)\<rparr>) r1 qt tp cont w' r'"
    and root: "objects w re_address \<noteq> None"
    and r1: "\<forall>qt' tp'. archive_queue_of r1 qt' tp' = (if qt' = qt \<and> tp' = tp then None else archive_queue_of r qt' tp')"
      "\<forall>qt'. distinct (map aqp_name (archiveQueuePointers qt' r)) \<longrightarrow> distinct (map aqp_name (archiveQueuePointers qt' r1))"
  shows "aq_created w r qt tp cont w' r'"
proof -
  have "oo_name cont \<noteq> re_address" using c by (auto simp: aq_created_def)
  then have "objects w (oo_name cont) = None" using c by (simp add: aq_created_def)
  moreover have "same_except {re_address, oo_name cont} w w'" using c by (simp add: aq_created_def same_except_def)
  ultimately show ?thesis using c r1 by (simp add: aq_created_def)
qed

lemma getLockedAndFetchedArchiveQueue_stored:
  assumes "stored re_c w re_address r" "archive_queue_of r qt tp = Some a" "stored aq_c w a p"
  shows "\<exists>cont. getLockedAndFetchedArchiveQueue tp qt (oo_new aq_empty) w = (Inr cont, w) \<and> held cont \<and> oo_name cont = a
    \<and> oo_payload cont = p \<and> objects w a = Some (oo_header aq_c cont)"
  using attempt_stored [OF assms, of 0] by (auto simp: getLockedAndFetchedArchiveQueue_def upt_rec)

lemma getLockedAndFetchedArchiveQueue_created:
  assumes root: "stored re_c w re_address r" "distinct (map aqp_name (archiveQueuePointers qt r))"
    and queue: "\<And>a. archive_queue_of r qt tp = Some a \<Longrightarrow> missing w a \<and> \<not> lockFiles w a"
    and fresh: "fresh_ids w (Suc k)" "Suc k \<le> 2 ^ 64"
  shows "\<exists>cont w' r'. getLockedAndFetchedArchiveQueue tp qt (oo_new aq_empty) w = (Inr cont, w') \<and> aq_created w r qt tp cont w' r' \<and> fresh_ids w' k"
proof (cases "archive_queue_of r qt tp")
  case None
  from attempt_new [OF root(1) this fresh, of 0] show ?thesis
    by (elim exE conjE) (intro exI conjI, simp_all add: getLockedAndFetchedArchiveQueue_def upt_rec)
next
  case (Some a)
  have m: "missing w a" "\<not> lockFiles w a" using queue [OF Some] by simp_all
  obtain re1 where 1: "archive_attempt tp qt 1 (oo_new aq_empty) w = (Inr (Inl (oo_new aq_empty)), w\<lparr>objects := (objects w)(re_address \<mapsto> oo_header re_c re1)\<rparr>)"
      (is "_ = (_, ?w1)")
    "\<forall>qt' tp'. archive_queue_of (oo_payload re1) qt' tp' = (if qt' = qt \<and> tp' = tp then None else archive_queue_of r qt' tp')"
    "\<forall>qt'. distinct (map aqp_name (archiveQueuePointers qt' r)) \<longrightarrow> distinct (map aqp_name (archiveQueuePointers qt' (oo_payload re1)))"
    using attempt_missing_again [OF root Some m zero_less_one] by (elim exE conjE)
  have l: "lockFiles w re_address" "objects w re_address \<noteq> None" "re_address \<noteq> ''''" using storedD [OF root(1)] by simp_all
  have root1: "stored re_c ?w1 re_address (oo_payload re1)" using l by (intro stored_header) simp_all
  have none: "archive_queue_of (oo_payload re1) qt tp = None" using 1(2) by simp
  have fresh1: "fresh_ids ?w1 (Suc k)" by (rule fresh_ids_same [OF fresh(1), of "{re_address}"]) (use l in \<open>auto simp: same_except_def\<close>)
  obtain cont w' r' where 2: "archive_attempt tp qt 2 (oo_new aq_empty) ?w1 = (Inr (Inr cont), w')" "aq_created ?w1 (oo_payload re1) qt tp cont w' r'"
    "fresh_ids w' k" using attempt_new [OF root1 none fresh1 fresh(2), of 2] by (elim exE conjE)
  have "getLockedAndFetchedArchiveQueue tp qt (oo_new aq_empty) w = (Inr cont, w')"
    using attempt_missing_first [OF root(1) Some m] 1(1) 2(1)
    by (simp add: getLockedAndFetchedArchiveQueue_def upt_rec numeral_2_eq_2)
  with aq_created_after_dereference [OF 2(2) l(2) 1(2,3)] 2(3) show ?thesis by blast
qed

text \<open>
  C37. The archive queue of a type and tape pool is always obtained within the five attempts, from every state
  of the root entry and of the queue that the code provides for: when the queue is there, it is returned as it
  is and nothing changes; when it is not listed, or listed but gone from the store, an empty queue for the tape
  pool is created. In all cases the image returned is held under its lock and is what the store has, the root
  entry lists the queue, every other queue is listed as before, and no other object changes.
\<close>
theorem archive_queue_obtained:
  assumes root: "stored re_c w re_address r" "distinct (map aqp_name (archiveQueuePointers qt r))"
    and queue: "\<And>a. archive_queue_of r qt tp = Some a \<Longrightarrow> (\<exists>p. stored aq_c w a p) \<or> missing w a \<and> \<not> lockFiles w a"
    and fresh: "fresh_ids w 1"
  shows "\<exists>cont w' r'. getLockedAndFetchedArchiveQueue tp qt (oo_new aq_empty) w = (Inr cont, w')
    \<and> held cont \<and> objects w' (oo_name cont) = Some (oo_header aq_c cont)
    \<and> stored re_c w' re_address r'
    \<and> (\<forall>qt' tp'. archive_queue_of r' qt' tp' = (if qt' = qt \<and> tp' = tp then Some (oo_name cont) else archive_queue_of r qt' tp'))
    \<and> (if \<exists>a p. archive_queue_of r qt tp = Some a \<and> stored aq_c w a p then w' = w
       else objects w (oo_name cont) = None \<and> aq_tapepool (oo_payload cont) = tp \<and> aq_rep (oo_payload cont) []
         \<and> (\<forall>a. a \<noteq> re_address \<and> a \<noteq> oo_name cont \<longrightarrow> objects w' a = objects w a))"
proof (cases "\<exists>a p. archive_queue_of r qt tp = Some a \<and> stored aq_c w a p")
  case True
  then obtain a p where a: "archive_queue_of r qt tp = Some a" "stored aq_c w a p" by blast
  from getLockedAndFetchedArchiveQueue_stored [OF root(1) a] obtain cont where
    "getLockedAndFetchedArchiveQueue tp qt (oo_new aq_empty) w = (Inr cont, w)" "held cont" "oo_name cont = a"
    "objects w a = Some (oo_header aq_c cont)" by blast
  with True a(1) root(1) show ?thesis by (intro exI [of _ cont] exI [of _ w] exI [of _ r]) simp
next
  case False
  then have "missing w a \<and> \<not> lockFiles w a" if "archive_queue_of r qt tp = Some a" for a using queue [OF that] that by blast
  from getLockedAndFetchedArchiveQueue_created [OF root this, of tp 0] fresh obtain cont w' r' where
    "getLockedAndFetchedArchiveQueue tp qt (oo_new aq_empty) w = (Inr cont, w')" "aq_created w r qt tp cont w' r'" by auto
  then show ?thesis unfolding if_not_P [OF False]
    by (intro exI [of _ cont] exI [of _ w'] exI [of _ r']) (simp add: aq_created_def same_except_def)
qed

text \<open>A root entry that lists a queue which is gone.\<close>

definition smh_root :: root_entry where
  "smh_root = re_empty\<lparr>re_archive_queue_failed_pointers := [\<lparr>aqp_address = ''gone'', aqp_name = ''pool''\<rparr>]\<rparr>"

definition smh_world :: world where
  "smh_world = \<lparr>objects = [''root'' \<mapsto> \<lparr>oh_version = 0, oh_owner = '''', oh_backupowner = '''', oh_payload = Payload_RootEntry smh_root\<rparr>],
     lockFiles = (\<lambda>n. n = ''root''), agentAddress = ''ag'', nextIdCounter = 0\<rparr>"

lemma childId_dash: "CHR ''-'' \<notin> set s \<Longrightarrow> childId ct a n \<noteq> s"
  by (auto simp: childId_def)

theorem archive_queue_obtained_witness:
  "\<exists>cont w' r'. getLockedAndFetchedArchiveQueue ''pool'' FailedJobs (oo_new aq_empty) smh_world = (Inr cont, w')
     \<and> archive_queue_of smh_root FailedJobs ''pool'' = Some ''gone'' \<and> objects smh_world (oo_name cont) = None
     \<and> archive_queue_of r' FailedJobs ''pool'' = Some (oo_name cont) \<and> stored re_c w' re_address r'"
proof -
  have root: "stored re_c smh_world re_address smh_root" "distinct (map aqp_name (archiveQueuePointers FailedJobs smh_root))"
    by (simp_all add: stored_def smh_world_def re_address_def codec_defs smh_root_def)
  have q: "archive_queue_of smh_root FailedJobs ''pool'' = Some ''gone''" by (simp add: archive_queue_of_def smh_root_def findElement_def)
  have none: "\<not> (\<exists>p. stored aq_c smh_world ''gone'' p)" "missing smh_world ''gone'' \<and> \<not> lockFiles smh_world ''gone''"
    by (simp_all add: stored_def missing_def smh_world_def)
  have "fresh_ids smh_world 1" by (simp add: fresh_ids_def smh_world_def childId_dash)
  from archive_queue_obtained [OF root, of "''pool''", OF _ this] q none obtain cont w' r' where
    "getLockedAndFetchedArchiveQueue ''pool'' FailedJobs (oo_new aq_empty) smh_world = (Inr cont, w')" "stored re_c w' re_address r'"
    "\<forall>qt' tp'. archive_queue_of r' qt' tp' = (if qt' = FailedJobs \<and> tp' = ''pool'' then Some (oo_name cont) else archive_queue_of smh_root qt' tp')"
    "objects smh_world (oo_name cont) = None" by auto
  with q show ?thesis by (intro exI [of _ cont] exI [of _ w'] exI [of _ r']) simp
qed

end
