(* ===== verification/Algorithms.thy ===== *)
theory Algorithms
  imports Helpers
begin

text \<open>
  \<open>objectstore/Algorithms.hpp\<close>: the template \<open>ContainerAlgorithms\<close>, which moves requests between the agents and
  the queues. Every kind of queue gives its own \<open>ContainerTraits\<close>, which are a record here; the algorithms take
  the traits as an argument. The summaries of the container are read for the log only, so all that is left of
  them is that reading them may throw.
\<close>

section \<open>Container traits\<close>

record ('id, 'p, 'el, 'pop, 'crit, 'sum) container_traits =
  ct_getContainerSummary :: "'p oo \<Rightarrow> exn + unit"
  ct_trimContainerIfNeeded :: "'id \<Rightarrow> 'p oo \<Rightarrow> (world, bool) prog"
  ct_getLockedAndFetched :: "'id \<Rightarrow> (world, 'p oo) prog"
  ct_getLockedAndFetchedNoCreate :: "'id \<Rightarrow> (world, 'p oo) prog"
  ct_fetch :: "'p oo \<Rightarrow> (world, 'p oo) prog"
  ct_addReferencesAndCommit :: "'el list \<Rightarrow> 'p oo \<Rightarrow> (world, 'p oo) prog"
  ct_addReferencesIfNecessaryAndCommit :: "'el list \<Rightarrow> 'p oo \<Rightarrow> (world, 'p oo) prog"
  ct_removeReferencesAndCommit :: "string list \<Rightarrow> 'p oo \<Rightarrow> (world, 'p oo) prog"
  ct_switchElement :: "string \<Rightarrow> string \<Rightarrow> 'el \<Rightarrow> (world, 'el) prog"
  ct_switchPopped :: "string \<Rightarrow> string \<Rightarrow> 'pop \<Rightarrow> (world, 'pop) prog"
  ct_getElementAddress :: "'el \<Rightarrow> string"
  ct_getPoppedAddress :: "'pop \<Rightarrow> string"
  ct_getElementSummary :: "'pop \<Rightarrow> 'sum"
  ct_getPoppingElementsCandidates :: "'crit \<Rightarrow> string set \<Rightarrow> 'p oo \<Rightarrow> (world, ('pop list \<times> 'sum) \<times> 'p oo) prog"
  ct_none :: 'sum
  ct_less :: "'sum \<Rightarrow> 'crit \<Rightarrow> bool"
  ct_plus :: "'sum \<Rightarrow> 'sum \<Rightarrow> 'sum"
  ct_minus :: "'sum \<Rightarrow> 'sum \<Rightarrow> 'sum"
  ct_unfulfilled :: "'crit \<Rightarrow> 'sum \<Rightarrow> 'crit"

text \<open>
  \<open>try { m } catch (...)\<close> keeping the exception, and the loops \<open>switchElementsOwnership\<close> of the traits: the
  updates are launched for all elements, then the results are collected, with the failures.
\<close>

definition attempt :: "('s, 'a) prog \<Rightarrow> ('s, exn + 'a) prog" where
  "attempt m = (\<lambda>s. case m s of
     (Inl e, s') \<Rightarrow> if is_cta_exception e then (Inr (Inl e), s') else (Inl e, s')
   | (Inr x, s') \<Rightarrow> (Inr (Inr x), s'))"

definition switch_element :: "('e \<Rightarrow> (world, 'e) prog) \<Rightarrow> 'e list \<times> ('e \<times> exn) list \<Rightarrow> 'e \<Rightarrow> (world, 'e list \<times> ('e \<times> exn) list) prog" where
  "switch_element switch = (\<lambda>(done, failed) e.
     bnd (attempt (switch e)) (\<lambda>r. ret (case r of
       Inl x \<Rightarrow> (done @ [e], failed @ [(e, x)])
     | Inr e' \<Rightarrow> (done @ [e'], failed))))"

definition switchElementsOwnership :: "('e \<Rightarrow> (world, 'e) prog) \<Rightarrow> 'e list \<Rightarrow> (world, 'e list \<times> ('e \<times> exn) list) prog" where
  "switchElementsOwnership switch es = foldM (switch_element switch) ([], []) es"

section \<open>Putting requests in a container\<close>

text \<open>The outcome: a return, or the exception \<open>OwnershipSwitchFailure\<close> with the elements that failed.\<close>

datatype 'el requeue_outcome = Requeued | OwnershipSwitchFailure "('el \<times> exn) list"

definition referenceAndSwitchOwnership ::
  "('id, 'p, 'el, 'pop, 'crit, 'sum) container_traits \<Rightarrow> 'id \<Rightarrow> string \<Rightarrow> 'el list \<Rightarrow> (world, 'el requeue_outcome) prog" where
  "referenceAndSwitchOwnership tr contId prevContAddress elements =
     bnd (ct_getLockedAndFetched tr contId) (\<lambda>cont.
     bnd (liftr (ct_getContainerSummary tr cont)) (\<lambda>_.
     bnd (ct_addReferencesAndCommit tr elements cont) (\<lambda>cont.
     bnd (liftr (getAddressIfSet cont)) (\<lambda>contAddress.
     bnd (switchElementsOwnership (ct_switchElement tr contAddress prevContAddress) elements) (\<lambda>(_, failedOwnershipSwitchElements).
     bnd (if failedOwnershipSwitchElements \<noteq> []
          then ct_removeReferencesAndCommit tr (map (\<lambda>(e, x). ct_getElementAddress tr e) failedOwnershipSwitchElements) cont
          else ret cont) (\<lambda>cont.
     bnd (liftr (ct_getContainerSummary tr cont)) (\<lambda>_.
     if failedOwnershipSwitchElements = []
     then bnd (ref_removeBatchFromOwnership (map (ct_getElementAddress tr) elements)) (\<lambda>_. ret Requeued)
     else let failedElementsSet = (\<lambda>(e, x). ct_getElementAddress tr e) ` set failedOwnershipSwitchElements;
              transferedElements = filter (\<lambda>a. a \<notin> failedElementsSet) (map (ct_getElementAddress tr) elements)
          in bnd (if transferedElements \<noteq> [] then ref_removeBatchFromOwnership transferedElements else ret ()) (\<lambda>_.
             ret (OwnershipSwitchFailure failedOwnershipSwitchElements)))))))))"

text \<open>The overload for the elements of the agent itself.\<close>

definition referenceAndSwitchOwnership_agent ::
  "('id, 'p, 'el, 'pop, 'crit, 'sum) container_traits \<Rightarrow> 'id \<Rightarrow> 'el list \<Rightarrow> (world, 'el requeue_outcome) prog" where
  "referenceAndSwitchOwnership_agent tr contId elements =
     bnd (asks getAgentAddress) (\<lambda>agent. referenceAndSwitchOwnership tr contId agent elements)"

text \<open>The variant of the garbage collector, which also gives the address of the container.\<close>

definition referenceAndSwitchOwnershipIfNecessary ::
  "('id, 'p, 'el, 'pop, 'crit, 'sum) container_traits \<Rightarrow> 'id \<Rightarrow> string \<Rightarrow> 'el list \<Rightarrow> (world, string \<times> 'el requeue_outcome) prog" where
  "referenceAndSwitchOwnershipIfNecessary tr contId previousOwnerAddress elements =
     bnd (ct_getLockedAndFetched tr contId) (\<lambda>cont.
     bnd (liftr (getAddressIfSet cont)) (\<lambda>contAddress.
     bnd (liftr (ct_getContainerSummary tr cont)) (\<lambda>_.
     bnd (ct_addReferencesIfNecessaryAndCommit tr elements cont) (\<lambda>cont.
     bnd (switchElementsOwnership (ct_switchElement tr contAddress previousOwnerAddress) elements) (\<lambda>(_, failedOwnershipSwitchElements).
     bnd (if failedOwnershipSwitchElements \<noteq> []
          then ct_removeReferencesAndCommit tr (map (\<lambda>(e, x). ct_getElementAddress tr e) failedOwnershipSwitchElements) cont
          else ret cont) (\<lambda>cont.
     bnd (liftr (ct_getContainerSummary tr cont)) (\<lambda>_.
     ret (contAddress, if failedOwnershipSwitchElements = [] then Requeued
                       else OwnershipSwitchFailure failedOwnershipSwitchElements))))))))"

section \<open>Taking requests from a container\<close>

text \<open>
  What is done with the elements whose update failed: an element that is gone or has another owner is
  dropped from the container and from the agent; \<open>CouldNotUnlock\<close> means that the update was made; after
  any other error the element stays in the container.
\<close>

definition switch_lost :: "exn \<Rightarrow> bool" where
  "switch_lost x \<longleftrightarrow> x = NoSuchObject \<or> x = WrongPreviousOwner"

definition switch_unexpected :: "exn \<Rightarrow> bool" where
  "switch_unexpected x \<longleftrightarrow> \<not> switch_lost x \<and> x \<noteq> CouldNotUnlock"

definition not_to_report :: "('e \<Rightarrow> string) \<Rightarrow> ('e \<times> exn) list \<Rightarrow> string list" where
  "not_to_report addr failed = map (\<lambda>(e, x). addr e) (filter (\<lambda>(e, x). x \<noteq> CouldNotUnlock) failed)"

definition not_to_dereference :: "('e \<Rightarrow> string) \<Rightarrow> ('e \<times> exn) list \<Rightarrow> string set" where
  "not_to_dereference addr failed = (\<lambda>(e, x). addr e) ` {f \<in> set failed. switch_unexpected (snd f)}"

record ('pop, 'crit, 'sum) pop_state =
  ps_elements :: "'pop list"
  ps_summary :: 'sum
  ps_unfulfilledCriteria :: 'crit
  ps_elementsToSkip :: "string set"
  ps_unexpectedException :: bool
  ps_didTrim :: bool

text \<open>One turn of the loop of \<open>popNextBatch\<close>, on the container locked and fetched.\<close>

definition pop_round ::
  "('id, 'p, 'el, 'pop, 'crit, 'sum) container_traits \<Rightarrow> 'id \<Rightarrow> 'p oo \<Rightarrow> ('pop, 'crit, 'sum) pop_state
   \<Rightarrow> (world, ('pop, 'crit, 'sum) pop_state) prog" where
  "pop_round tr contId cont st =
     bnd (liftr (ct_getContainerSummary tr cont)) (\<lambda>_.
     bnd (ct_getPoppingElementsCandidates tr (ps_unfulfilledCriteria st) (ps_elementsToSkip st) cont) (\<lambda>((candidates, summary), cont).
     let candidateElementsAddresses = map (ct_getPoppedAddress tr) candidates in
     bnd (ref_addBatchToOwnership candidateElementsAddresses) (\<lambda>_.
     bnd (asks getAgentAddress) (\<lambda>agent.
     bnd (liftr (getAddressIfSet cont)) (\<lambda>contAddress.
     bnd (switchElementsOwnership (ct_switchPopped tr agent contAddress) candidates) (\<lambda>(elements, failed).
     if failed = []
     then bnd (ct_removeReferencesAndCommit tr candidateElementsAddresses cont) (\<lambda>cont.
          bnd (liftr (ct_getContainerSummary tr cont)) (\<lambda>_.
          bnd (ct_trimContainerIfNeeded tr contId cont) (\<lambda>didTrim.
          ret (st\<lparr>ps_didTrim := didTrim, ps_summary := ct_plus tr (ps_summary st) summary,
                  ps_unfulfilledCriteria := ct_unfulfilled tr (ps_unfulfilledCriteria st) summary,
                  ps_elements := ps_elements st @ elements\<rparr>))))
     else let keep = not_to_dereference (ct_getPoppedAddress tr) failed;
              silent = not_to_report (ct_getPoppedAddress tr) failed;
              toDereference = filter (\<lambda>a. a \<notin> keep) candidateElementsAddresses;
              reported = filter (\<lambda>e. ct_getPoppedAddress tr e \<notin> set silent) elements;
              batchSummary = fold (\<lambda>e s. ct_minus tr s (ct_getElementSummary tr e))
                (filter (\<lambda>e. ct_getPoppedAddress tr e \<in> set silent) elements) summary
          in bnd (ct_removeReferencesAndCommit tr toDereference cont) (\<lambda>cont.
             bnd (liftr (ct_getContainerSummary tr cont)) (\<lambda>_.
             bnd (ct_trimContainerIfNeeded tr contId cont) (\<lambda>_.
             bnd (ref_removeBatchFromOwnership silent) (\<lambda>_.
             ret (st\<lparr>ps_elements := ps_elements st @ reported,
                     ps_summary := ct_plus tr (ps_summary st) batchSummary,
                     ps_unfulfilledCriteria := ct_unfulfilled tr (ps_unfulfilledCriteria st) batchSummary,
                     ps_elementsToSkip := ps_elementsToSkip st \<union> keep,
                     ps_unexpectedException := (ps_unexpectedException st \<or> keep \<noteq> {})\<rparr>)))))))))))"

fun pop_rounds ::
  "nat \<Rightarrow> ('id, 'p, 'el, 'pop, 'crit, 'sum) container_traits \<Rightarrow> 'id \<Rightarrow> 'crit \<Rightarrow> ('pop, 'crit, 'sum) pop_state
   \<Rightarrow> (world, ('pop, 'crit, 'sum) pop_state) prog" where
  "pop_rounds fuel tr contId popCriteria st =
     (if \<not> ps_unexpectedException st \<and> ct_less tr (ps_summary st) popCriteria \<and> \<not> ps_didTrim st
      then (case fuel of
              0 \<Rightarrow> throw OutOfFuel
            | Suc fuel' \<Rightarrow>
                bnd (catch_none NoSuchContainer (ct_getLockedAndFetchedNoCreate tr contId)) (\<lambda>found. case found of
                  None \<Rightarrow> ret st
                | Some cont \<Rightarrow> bnd (pop_round tr contId cont st) (pop_rounds fuel' tr contId popCriteria)))
      else ret st)"

declare pop_rounds.simps [simp del]

definition popNextBatch ::
  "nat \<Rightarrow> ('id, 'p, 'el, 'pop, 'crit, 'sum) container_traits \<Rightarrow> 'id \<Rightarrow> 'crit \<Rightarrow> (world, 'pop list \<times> 'sum) prog" where
  "popNextBatch fuel tr contId popCriteria =
     bnd (pop_rounds fuel tr contId popCriteria
            \<lparr>ps_elements = [], ps_summary = ct_none tr, ps_unfulfilledCriteria = popCriteria, ps_elementsToSkip = {},
             ps_unexpectedException = False, ps_didTrim = False\<rparr>) (\<lambda>st.
     ret (ps_elements st, ps_summary st))"

text \<open>
  \<open>popNextBatchFromContainerAndSwitchStatus\<close>: one round on a container the caller has locked, with the update
  \<open>switchStatus\<close> that also changes the status. The container is not trimmed.
\<close>

definition popNextBatchFromContainerAndSwitchStatus ::
  "('id, 'p, 'el, 'pop, 'crit, 'sum) container_traits \<Rightarrow> (string \<Rightarrow> string \<Rightarrow> 'pop \<Rightarrow> (world, 'pop) prog) \<Rightarrow> 'crit \<Rightarrow> 'p oo
   \<Rightarrow> (world, 'pop list \<times> 'sum) prog" where
  "popNextBatchFromContainerAndSwitchStatus tr switchStatus popCriteria cont =
     bnd (attempt (ct_fetch tr cont)) (\<lambda>fetched. case fetched of
       Inl _ \<Rightarrow> ret ([], ct_none tr)
     | Inr cont \<Rightarrow>
         bnd (liftr (ct_getContainerSummary tr cont)) (\<lambda>_.
         bnd (ct_getPoppingElementsCandidates tr popCriteria {} cont) (\<lambda>((candidates, summary), cont).
         let candidateElementsAddresses = map (ct_getPoppedAddress tr) candidates in
         bnd (ref_addBatchToOwnership candidateElementsAddresses) (\<lambda>_.
         bnd (asks getAgentAddress) (\<lambda>agent.
         bnd (liftr (getAddressIfSet cont)) (\<lambda>contAddress.
         bnd (switchElementsOwnership (switchStatus agent contAddress) candidates) (\<lambda>(elements, failed).
         if failed = []
         then bnd (ct_removeReferencesAndCommit tr candidateElementsAddresses cont) (\<lambda>cont.
              bnd (liftr (ct_getContainerSummary tr cont)) (\<lambda>_.
              ret (elements, ct_plus tr (ct_none tr) summary)))
         else let keep = not_to_dereference (ct_getPoppedAddress tr) failed;
                  silent = not_to_report (ct_getPoppedAddress tr) failed;
                  reported = filter (\<lambda>e. ct_getPoppedAddress tr e \<notin> set silent) elements
              in bnd (ct_removeReferencesAndCommit tr (filter (\<lambda>a. a \<notin> keep) candidateElementsAddresses) cont) (\<lambda>cont.
                 bnd (liftr (ct_getContainerSummary tr cont)) (\<lambda>_.
                 bnd (ref_removeBatchFromOwnership silent) (\<lambda>_.
                 ret (reported, fold (\<lambda>e s. ct_plus tr s (ct_getElementSummary tr e)) reported (ct_none tr))))))))))))"

end
