(* ===== verification/ContainerSpec.thy ===== *)
theory ContainerSpec
  imports Algorithms QueueDirectory
begin

text \<open>
  What the container algorithms rely on, as locales: the objects of the store fall into requests, agents and
  the rest (queues, shards, root entry), and every operation the algorithms call changes objects of one kind
  only (\<open>keeps\<close>). The lemmas in the locales are about \<open>referenceAndSwitchOwnership\<close> and \<open>popNextBatch\<close> for any
  container that keeps the laws.
\<close>

section \<open>Frames by kind\<close>

definition is_request :: "payload \<Rightarrow> bool" where
  "is_request p \<longleftrightarrow> (\<exists>r. p = Payload_ArchiveRequest r) \<or> (\<exists>r. p = Payload_RetrieveRequest r)"

definition is_agent :: "payload \<Rightarrow> bool" where
  "is_agent p \<longleftrightarrow> (\<exists>r. p = Payload_Agent r)"

definition is_container :: "payload \<Rightarrow> bool" where
  "is_container p \<longleftrightarrow> \<not> is_request p \<and> \<not> is_agent p"

text \<open>\<open>keeps K w w'\<close>: the objects of the kinds \<open>K\<close> are the same in both worlds, with their locks.\<close>

definition keeps :: "(payload \<Rightarrow> bool) \<Rightarrow> world \<Rightarrow> world \<Rightarrow> bool" where
  "keeps K w w' \<longleftrightarrow> agentAddress w' = agentAddress w
     \<and> (\<forall>a h. K (oh_payload h) \<longrightarrow> (objects w' a = Some h \<longleftrightarrow> objects w a = Some h) \<and> (objects w a = Some h \<and> lockFiles w a \<longrightarrow> lockFiles w' a))"

abbreviation "keeps_containers \<equiv> keeps is_container"
abbreviation "keeps_items \<equiv> keeps (\<lambda>p. \<not> is_container p)"

lemma keeps_refl: "keeps K w w"
  by (simp add: keeps_def)

lemma keeps_trans: "keeps K w w' \<Longrightarrow> keeps K w' w'' \<Longrightarrow> keeps K w w''"
  by (simp add: keeps_def)

lemma keeps_mono: "keeps K w w' \<Longrightarrow> (\<And>p. K' p \<Longrightarrow> K p) \<Longrightarrow> keeps K' w w'"
  unfolding keeps_def by blast

lemma kinds_disjoint:
  "is_container p \<Longrightarrow> \<not> is_request p" "is_container p \<Longrightarrow> \<not> is_agent p" "is_request p \<Longrightarrow> \<not> is_container p"
  "is_request p \<Longrightarrow> \<not> is_agent p" "is_agent p \<Longrightarrow> \<not> is_container p" "is_agent p \<Longrightarrow> \<not> is_request p"
  by (auto simp: is_container_def is_agent_def is_request_def)

lemma keeps_stored:
  assumes "keeps K w w'" and "stored c w a p" and "K (enc c p)"
  shows "stored c w' a p"
proof -
  obtain h where h: "objects w a = Some h" "oh_payload h = enc c p" "lockFiles w a" "a \<noteq> ''''" using assms(2) by (auto simp: stored_def)
  then have "objects w' a = Some h" "lockFiles w' a" using assms(1,3) unfolding keeps_def by metis+
  with h show ?thesis by (simp add: stored_def)
qed

text \<open>Changing only addresses that hold, before and after, no object of the kinds \<open>K\<close>.\<close>

lemma same_except_keeps:
  assumes "same_except S w w'"
    and "\<And>a h. a \<in> S \<Longrightarrow> objects w a = Some h \<Longrightarrow> \<not> K (oh_payload h)" and "\<And>a h. a \<in> S \<Longrightarrow> objects w' a = Some h \<Longrightarrow> \<not> K (oh_payload h)"
  shows "keeps K w w'"
  unfolding keeps_def
proof (intro conjI allI impI)
  fix a and h :: object_header assume K: "K (oh_payload h)"
  show "objects w' a = Some h \<longleftrightarrow> objects w a = Some h"
    using assms(2,3) [of a h] K same_exceptD(1) [OF assms(1), of a] by (cases "a \<in> S") auto
  assume "objects w a = Some h \<and> lockFiles w a"
  then show "lockFiles w' a" using assms(2) [of a h] K same_exceptD(2) [OF assms(1), of a] by (cases "a \<in> S") auto
qed (use assms(1) in \<open>simp add: same_except_def\<close>)

text \<open>No object and no lock appears.\<close>

definition no_new :: "world \<Rightarrow> world \<Rightarrow> bool" where
  "no_new w w' \<longleftrightarrow> (\<forall>a. objects w a = None \<longrightarrow> objects w' a = None \<and> lockFiles w' a = lockFiles w a)"

section \<open>The agent\<close>

definition agent_owns :: "world \<Rightarrow> string set \<Rightarrow> bool" where
  "agent_owns w S \<longleftrightarrow> (\<exists>p. stored ag_c w (agentAddress w) p \<and> \<not> ag_being_garbage_collected p \<and> set (ag_ownedobjects p) = S)"

lemma agent_owns_kept:
  assumes "agent_owns w S" and "keeps is_agent w w'"
  shows "agent_owns w' S"
proof -
  obtain p where p: "stored ag_c w (agentAddress w) p" "\<not> ag_being_garbage_collected p" "set (ag_ownedobjects p) = S"
    using assms(1) by (auto simp: agent_owns_def)
  have "is_agent (enc ag_c p)" by (simp add: is_agent_def codec_defs)
  with keeps_stored [OF assms(2) p(1)] p(2,3) assms(2) show ?thesis by (auto simp: agent_owns_def keeps_def)
qed

lemma agent_executes:
  assumes "agent_owns w S"
  shows "\<exists>w'. ref_execute act [] w = (Inr (), w') \<and> agent_owns w' (owned_after [act] S) \<and> keeps (\<lambda>p. \<not> is_agent p) w w' \<and> no_new w w'"
proof -
  obtain p where p: "stored ag_c w (agentAddress w) p" "\<not> ag_being_garbage_collected p" "set (ag_ownedobjects p) = S"
    using assms by (auto simp: agent_owns_def)
  obtain p' h where r: "ref_execute act [] w = (Inr (), w\<lparr>objects := (objects w)(agentAddress w \<mapsto> h\<lparr>oh_payload := enc ag_c p'\<rparr>)\<rparr>)"
      (is "_ = (_, ?w')")
    "objects w (agentAddress w) = Some h" "agent_done [act] p p'" using ref_execute_ok [OF p(1,2), of act "[]"] by (elim exE conjE)
  have h: "is_agent (oh_payload h)" using p(1) r(2) by (auto simp: stored_def is_agent_def codec_defs)
  have "same_except {agentAddress w} w ?w'" by (simp add: same_except_def)
  then have "keeps (\<lambda>p. \<not> is_agent p) w ?w'"
    by (rule same_except_keeps) (use h r(2) in \<open>auto simp: is_agent_def codec_defs\<close>)
  moreover have "stored ag_c ?w' (agentAddress w) p'" using p(1) by (simp add: stored_def)
  moreover have "no_new w ?w'" using r(2) by (auto simp: no_new_def)
  ultimately show ?thesis using r(1,3) p(2,3) unfolding agent_owns_def agent_done_def
    by (intro exI [of _ ?w'] conjI exI [of _ p']) simp_all
qed

lemma agent_adds:
  assumes "agent_owns w S"
  shows "\<exists>w'. ref_addBatchToOwnership L w = (Inr (), w') \<and> agent_owns w' (S \<union> set L) \<and> keeps (\<lambda>p. \<not> is_agent p) w w' \<and> no_new w w'"
  using agent_executes [OF assms, of "action_add_batch L"]
  by (simp add: ref_addBatchToOwnership_def owned_after_def action_add_batch_def)

lemma agent_drops:
  assumes "agent_owns w S"
  shows "\<exists>w'. ref_removeBatchFromOwnership L w = (Inr (), w') \<and> agent_owns w' (S - set L) \<and> keeps (\<lambda>p. \<not> is_agent p) w w' \<and> no_new w w'"
  using agent_executes [OF assms, of "action_remove_batch L"]
  by (simp add: ref_removeBatchFromOwnership_def owned_after_def action_remove_batch_def)

section \<open>Ownership of requests\<close>

lemma attempt_simps [simp]:
  "m s = (Inr x, s') \<Longrightarrow> attempt m s = (Inr (Inr x), s')"
  "m s = (Inl e, s') \<Longrightarrow> is_cta_exception e \<Longrightarrow> attempt m s = (Inr (Inl e), s')"
  by (simp_all add: attempt_def)

text \<open>
  A reference to a job: the address of the request and the number of the copy. \<open>own w r\<close> is the owner of the
  job \<open>r\<close> in the store; \<open>info\<close> is what an update leaves as it is in an element.
\<close>

type_synonym job_ref = "string \<times> u32"

locale job_ownership =
  fixes switch :: "string \<Rightarrow> string \<Rightarrow> 'e \<Rightarrow> (world, 'e) prog"
    and key :: "'e \<Rightarrow> job_ref"
    and own :: "world \<Rightarrow> job_ref \<Rightarrow> string option"
    and info :: "'e \<Rightarrow> 'i"
  assumes switch_owned: "own w (key e) \<in> {Some new, Some prev} \<Longrightarrow> \<exists>e' w'. switch new prev e w = (Inr e', w')
      \<and> key e' = key e \<and> info e' = info e \<and> own w' (key e) = Some new
      \<and> (\<forall>r. fst r \<noteq> fst (key e) \<longrightarrow> own w' r = own w r) \<and> keeps (\<lambda>p. \<not> is_request p) w w'"
    and switch_refused: "own w (key e) \<notin> {Some new, Some prev} \<Longrightarrow> \<exists>x w'. switch new prev e w = (Inl x, w')
      \<and> is_cta_exception x \<and> x \<noteq> CouldNotUnlock \<and> (\<forall>r. own w' r = own w r) \<and> keeps (\<lambda>p. \<not> is_request p) w w'"
    and own_kept: "keeps is_request w w' \<Longrightarrow> own w' r = own w r"
begin

abbreviation "addr e \<equiv> fst (key e)"

definition switchable :: "world \<Rightarrow> string \<Rightarrow> string \<Rightarrow> 'e \<Rightarrow> bool" where
  "switchable w new prev e \<longleftrightarrow> own w (key e) \<in> {Some new, Some prev}"

text \<open>\<open>switched\<close>: the outcome of the update of the elements \<open>es\<close>.\<close>

definition switched :: "world \<Rightarrow> string \<Rightarrow> string \<Rightarrow> 'e list \<Rightarrow> world \<Rightarrow> bool" where
  "switched w new prev es w' \<longleftrightarrow> keeps (\<lambda>p. \<not> is_request p) w w'
     \<and> (\<forall>e \<in> set es. own w' (key e) = (if switchable w new prev e then Some new else own w (key e)))
     \<and> (\<forall>r. fst r \<notin> addr ` set es \<longrightarrow> own w' r = own w r)"

lemma switched_Cons:
  assumes e: "own w1 (key e) = (if switchable w new prev e then Some new else own w (key e))"
      "\<forall>r. fst r \<noteq> addr e \<longrightarrow> own w1 r = own w r" "keeps (\<lambda>p. \<not> is_request p) w w1"
    and es: "switched w1 new prev es w'" and d: "addr e \<notin> addr ` set es"
  shows "switched w new prev (e # es) w'"
    and "filter (\<lambda>e. \<not> switchable w1 new prev e) es = filter (\<lambda>e. \<not> switchable w new prev e) es"
proof -
  have same: "own w1 (key e2) = own w (key e2)" if "e2 \<in> set es" for e2 using e(2) d that by (metis image_eqI)
  have "own w' (key e) = own w1 (key e)" using es d unfolding switched_def by blast
  then show "switched w new prev (e # es) w'"
    using es e same keeps_trans [OF e(3)] unfolding switched_def switchable_def by (auto simp del: split_paired_All)
  show "filter (\<lambda>e. \<not> switchable w1 new prev e) es = filter (\<lambda>e. \<not> switchable w new prev e) es"
    by (rule filter_cong) (simp_all add: switchable_def same)
qed

lemma switch_loop:
  assumes "distinct (map addr es)"
  shows "\<exists>dn' failed' w'. foldM (switch_element (switch new prev)) (dn, failed) es w = (Inr (dn @ dn', failed @ failed'), w')
    \<and> switched w new prev es w' \<and> map fst failed' = filter (\<lambda>e. \<not> switchable w new prev e) es
    \<and> (\<forall>(e, x) \<in> set failed'. x \<noteq> CouldNotUnlock) \<and> map key dn' = map key es \<and> map info dn' = map info es"
  using assms
proof (induction es arbitrary: dn failed w)
  case Nil
  show ?case by (intro exI [of _ "[]"] exI [of _ w]) (simp add: switched_def keeps_refl)
next
  case (Cons e es)
  have d: "distinct (map addr es)" "addr e \<notin> addr ` set es" using Cons.prems by auto
  show ?case
  proof (cases "switchable w new prev e")
    case True
    obtain e' w1 where 1: "switch new prev e w = (Inr e', w1)" "key e' = key e" "info e' = info e" "own w1 (key e) = Some new"
      "\<forall>r. fst r \<noteq> addr e \<longrightarrow> own w1 r = own w r" "keeps (\<lambda>p. \<not> is_request p) w w1"
      using switch_owned [OF True [unfolded switchable_def]] by (elim exE conjE)
    obtain dn' failed' w' where IH: "foldM (switch_element (switch new prev)) (dn @ [e'], failed) es w1 = (Inr ((dn @ [e']) @ dn', failed @ failed'), w')"
      "switched w1 new prev es w'" "map fst failed' = filter (\<lambda>e. \<not> switchable w1 new prev e) es"
      "\<forall>(e, x) \<in> set failed'. x \<noteq> CouldNotUnlock" "map key dn' = map key es" "map info dn' = map info es"
      using Cons.IH [OF d(1), of "dn @ [e']" failed w1] by (elim exE conjE)
    have "own w1 (key e) = (if switchable w new prev e then Some new else own w (key e))" using 1(4) True by simp
    from switched_Cons [OF this 1(5,6) IH(2) d(2)] IH 1(1-3) True show ?thesis
      by (intro exI [of _ "e' # dn'"] exI [of _ failed'] exI [of _ w']) (simp add: switch_element_def)
  next
    case False
    obtain x w1 where 1: "switch new prev e w = (Inl x, w1)" "is_cta_exception x" "x \<noteq> CouldNotUnlock"
      "\<forall>r. own w1 r = own w r" "keeps (\<lambda>p. \<not> is_request p) w w1"
      using switch_refused [OF False [unfolded switchable_def]] by (elim exE conjE)
    obtain dn' failed' w' where IH: "foldM (switch_element (switch new prev)) (dn @ [e], failed @ [(e, x)]) es w1
        = (Inr ((dn @ [e]) @ dn', (failed @ [(e, x)]) @ failed'), w')"
      "switched w1 new prev es w'" "map fst failed' = filter (\<lambda>e. \<not> switchable w1 new prev e) es"
      "\<forall>(e, x) \<in> set failed'. x \<noteq> CouldNotUnlock" "map key dn' = map key es" "map info dn' = map info es"
      using Cons.IH [OF d(1), of "dn @ [e]" "failed @ [(e, x)]" w1] by (elim exE conjE)
    have "own w1 (key e) = (if switchable w new prev e then Some new else own w (key e))" "\<forall>r. fst r \<noteq> addr e \<longrightarrow> own w1 r = own w r"
      using 1(4) False by (simp_all del: split_paired_All)
    from switched_Cons [OF this 1(5) IH(2) d(2)] IH 1(1-3) False show ?thesis
      by (intro exI [of _ "e # dn'"] exI [of _ "(e, x) # failed'"] exI [of _ w']) (simp add: switch_element_def)
  qed
qed

lemma switch_all:
  assumes "distinct (map addr es)"
  shows "\<exists>dn failed w'. switchElementsOwnership (switch new prev) es w = (Inr (dn, failed), w') \<and> switched w new prev es w'
    \<and> map fst failed = filter (\<lambda>e. \<not> switchable w new prev e) es \<and> (\<forall>(e, x) \<in> set failed. x \<noteq> CouldNotUnlock)
    \<and> map key dn = map key es \<and> map info dn = map info es"
  using switch_loop [OF assms, of new prev "[]" "[]" w] by (simp add: switchElementsOwnership_def)

lemma switched_keeps:
  assumes "switched w new prev es w'"
  shows "keeps_containers w w'" "keeps is_agent w w'"
proof -
  have *: "keeps (\<lambda>p. \<not> is_request p) w w'" using assms by (simp add: switched_def)
  show "keeps_containers w w'" "keeps is_agent w w'" by (rule keeps_mono [OF *], erule kinds_disjoint)+
qed

lemma switchable_kept: "keeps is_request w w' \<Longrightarrow> switchable w' new prev e = switchable w new prev e"
  by (simp add: switchable_def own_kept)

text \<open>Dropping the addresses of the elements that are not in \<open>P\<close>.\<close>

lemma drop_failed:
  assumes "distinct (map addr es)" and "F = filter (\<lambda>e. \<not> P e) es"
  shows "filter (\<lambda>r. fst r \<notin> addr ` set F) (map key es) = map key (filter P es)"
    and "filter (\<lambda>a. a \<notin> addr ` set F) (map addr es) = map addr (filter P es)"
    and "filter (\<lambda>e. addr e \<notin> addr ` set F) es = filter P es"
proof -
  have "addr e \<in> addr ` set F \<longleftrightarrow> \<not> P e" if "e \<in> set es" for e
    using that assms by (auto simp: distinct_map dest: inj_onD)
  then show *: "filter (\<lambda>e. addr e \<notin> addr ` set F) es = filter P es" by (intro filter_cong) simp_all
  then show "filter (\<lambda>r. fst r \<notin> addr ` set F) (map key es) = map key (filter P es)"
    "filter (\<lambda>a. a \<notin> addr ` set F) (map addr es) = map addr (filter P es)" by (simp_all add: filter_map comp_def)
qed

end

section \<open>Containers\<close>

text \<open>\<open>rep cid w cont refs\<close>: \<open>cont\<close> is the container \<open>cid\<close>, locked and fetched, and holds the references \<open>refs\<close>.\<close>

locale queue_container =
  fixes tr :: "('id, 'p, 'el, 'pop, 'crit, 'sum) container_traits"
    and rep :: "'id \<Rightarrow> world \<Rightarrow> 'p oo \<Rightarrow> job_ref list \<Rightarrow> bool"
  assumes rep_summary: "rep cid w cont refs \<Longrightarrow> ct_getContainerSummary tr cont = Inr ()"
    and rep_address: "rep cid w cont refs \<Longrightarrow> getAddressIfSet cont = Inr (oo_name cont)"
    and rep_kept: "rep cid w cont refs \<Longrightarrow> keeps_containers w w' \<Longrightarrow> rep cid w' cont refs"
    and remove_references: "rep cid w cont refs \<Longrightarrow> distinct (map fst refs) \<Longrightarrow>
      \<exists>cont' w'. ct_removeReferencesAndCommit tr L cont w = (Inr cont', w')
        \<and> rep cid w' cont' (filter (\<lambda>r. fst r \<notin> set L) refs) \<and> oo_name cont' = oo_name cont \<and> keeps_items w w'"

lemma keeps_items_parts: "keeps_items w w' \<Longrightarrow> keeps is_request w w'" "keeps_items w w' \<Longrightarrow> keeps is_agent w w'"
  by (erule keeps_mono, erule kinds_disjoint)+

section \<open>Putting requests in a container\<close>

text \<open>\<open>reach cid w refs\<close>: the container \<open>cid\<close> can be obtained, with these references.\<close>

locale container = queue_container tr rep + job_ownership "ct_switchElement tr" key own "\<lambda>_. ()"
  for tr :: "('id, 'p, 'el, 'pop, 'crit, 'sum) container_traits" and rep key own +
  fixes reach :: "'id \<Rightarrow> world \<Rightarrow> job_ref list \<Rightarrow> bool"
  assumes key_address: "ct_getElementAddress tr = (\<lambda>e. fst (key e))"
    and rep_reach: "rep cid w cont refs \<Longrightarrow> reach cid w refs"
    and obtain_container: "reach cid w refs \<Longrightarrow> fresh_ids w (Suc k) \<Longrightarrow> Suc k \<le> 2 ^ 64 \<Longrightarrow>
      \<exists>cont w'. ct_getLockedAndFetched tr cid w = (Inr cont, w') \<and> rep cid w' cont refs \<and> keeps_items w w' \<and> fresh_ids w' k"
    and add_references: "rep cid w cont refs \<Longrightarrow> length refs + length es < 2 ^ 64 \<Longrightarrow> fresh_ids w (length es) \<Longrightarrow>
      \<exists>cont' w'. ct_addReferencesAndCommit tr es cont w = (Inr cont', w')
        \<and> rep cid w' cont' (refs @ map key es) \<and> oo_name cont' = oo_name cont \<and> keeps_items w w'"
begin

text \<open>The references and the owners after the call, before the agent's list is updated.\<close>

lemma references_switched:
  assumes rep: "rep cid w cont refs" "distinct (map fst refs)" and es: "distinct (map addr es)" "addr ` set es \<inter> fst ` set refs = {}"
    and room: "length refs + length es < 2 ^ 64" "fresh_ids w (length es)" and ca: "ca = oo_name cont"
  shows "\<exists>cont1 w1 dn failed w2 cont3 w3. ct_addReferencesAndCommit tr es cont w = (Inr cont1, w1) \<and> getAddressIfSet cont1 = Inr ca
    \<and> switchElementsOwnership (ct_switchElement tr ca prev) es w1 = (Inr (dn, failed), w2)
    \<and> (if failed \<noteq> [] then ct_removeReferencesAndCommit tr (map (\<lambda>(e, x). addr e) failed) cont1 else ret cont1) w2 = (Inr cont3, w3)
    \<and> map fst failed = filter (\<lambda>e. \<not> switchable w ca prev e) es
    \<and> rep cid w3 cont3 (refs @ map key (filter (switchable w ca prev) es)) \<and> oo_name cont3 = ca
    \<and> keeps is_agent w w3
    \<and> (\<forall>e \<in> set es. own w3 (key e) = (if switchable w ca prev e then Some ca else own w (key e)))
    \<and> (\<forall>r. fst r \<notin> addr ` set es \<longrightarrow> own w3 r = own w r)"
proof -
  obtain cont1 w1 where 1: "ct_addReferencesAndCommit tr es cont w = (Inr cont1, w1)" "rep cid w1 cont1 (refs @ map key es)"
    "oo_name cont1 = ca" "keeps_items w w1" using add_references [OF rep(1) room] ca by blast
  obtain dn failed w2 where 2: "switchElementsOwnership (ct_switchElement tr ca prev) es w1 = (Inr (dn, failed), w2)"
    "switched w1 ca prev es w2" "map fst failed = filter (\<lambda>e. \<not> switchable w1 ca prev e) es"
    using switch_all [OF es(1), of ca prev w1] by (elim exE conjE)
  have sw: "switchable w1 ca prev e = switchable w ca prev e" "own w1 r = own w r" for e r
    using switchable_kept own_kept keeps_items_parts(1) [OF 1(4)] by auto
  have failed: "map fst failed = filter (\<lambda>e. \<not> switchable w ca prev e) es" using 2(3) sw by simp
  have k2: "keeps_containers w1 w2" "keeps is_agent w1 w2" using switched_keeps [OF 2(2)] by blast+
  have rep2: "rep cid w2 cont1 (refs @ map key es)" by (rule rep_kept [OF 1(2) k2(1)])
  define F where "F = filter (\<lambda>e. \<not> switchable w ca prev e) es"
  have addrs: "map (\<lambda>(e, x). addr e) failed = map addr F" unfolding F_def failed [symmetric] by (simp add: case_prod_beta comp_def)
  have dist: "distinct (map fst (refs @ map key es))" using rep(2) es by (auto simp: comp_def)
  have "filter (\<lambda>r. fst r \<notin> addr ` set F) refs = refs" using es(2) by (intro filter_True) (auto simp: F_def)
  then have kept: "filter (\<lambda>r. fst r \<notin> set (map addr F)) (refs @ map key es) = refs @ map key (filter (switchable w ca prev) es)"
    using drop_failed(1) [OF es(1) F_def] by simp
  have "\<exists>cont3 w3. (if failed \<noteq> [] then ct_removeReferencesAndCommit tr (map (\<lambda>(e, x). addr e) failed) cont1 else ret cont1) w2 = (Inr cont3, w3)
      \<and> rep cid w3 cont3 (refs @ map key (filter (switchable w ca prev) es)) \<and> oo_name cont3 = ca \<and> keeps_items w2 w3"
  proof (cases "failed = []")
    case True
    then have "\<forall>e \<in> set es. switchable w ca prev e" using failed by (simp add: filter_empty_conv eq_commute [of "[]"])
    then have "filter (switchable w ca prev) es = es" by simp
    with True rep2 1(3) show ?thesis by (intro exI [of _ cont1] exI [of _ w2]) (simp add: keeps_refl)
  next
    case False
    from remove_references [OF rep2 dist, of "map addr F"] 1(3) False addrs show ?thesis unfolding kept by auto
  qed
  then obtain cont3 w3 where 3: "(if failed \<noteq> [] then ct_removeReferencesAndCommit tr (map (\<lambda>(e, x). addr e) failed) cont1 else ret cont1) w2 = (Inr cont3, w3)"
    "rep cid w3 cont3 (refs @ map key (filter (switchable w ca prev) es))" "oo_name cont3 = ca" "keeps_items w2 w3" by blast
  have "own w3 r = own w2 r" for r using own_kept keeps_items_parts(1) [OF 3(4)] by blast
  then have own: "\<forall>e \<in> set es. own w3 (key e) = (if switchable w ca prev e then Some ca else own w (key e))"
    "\<forall>r. fst r \<notin> addr ` set es \<longrightarrow> own w3 r = own w r" using 2(2) sw by (simp_all add: switched_def)
  have "keeps is_agent w w3" using keeps_trans keeps_items_parts(2) 1(4) 3(4) k2(2) by blast
  moreover have "getAddressIfSet cont1 = Inr ca" using rep_address [OF 1(2)] 1(3) by simp
  ultimately show ?thesis using 1(1) 2(1) 3(1-3) failed own
    by (intro exI [of _ cont1] exI [of _ w1] exI [of _ dn] exI [of _ failed] exI [of _ w2] exI [of _ cont3] exI [of _ w3] conjI)
qed

lemma requeued:
  assumes "reach cid w refs" and S: "agent_owns w S" and refs: "distinct (map fst refs)"
    and es: "distinct (map addr es)" "addr ` set es \<inter> fst ` set refs = {}"
    and room: "length refs + length es < 2 ^ 64" "fresh_ids w (Suc (length es))" "Suc (length es) \<le> 2 ^ 64"
  shows "\<exists>ca failed w'. referenceAndSwitchOwnership tr cid prev es w
      = (Inr (if failed = [] then Requeued else OwnershipSwitchFailure failed), w')
    \<and> map fst failed = filter (\<lambda>e. own w (key e) \<notin> {Some ca, Some prev}) es
    \<and> (\<exists>cont. rep cid w' cont (refs @ map key (filter (\<lambda>e. own w (key e) \<in> {Some ca, Some prev}) es)) \<and> oo_name cont = ca)
    \<and> (\<forall>e \<in> set es. own w' (key e) = (if own w (key e) \<in> {Some ca, Some prev} then Some ca else own w (key e)))
    \<and> (\<forall>r. fst r \<notin> addr ` set es \<longrightarrow> own w' r = own w r)
    \<and> agent_owns w' (S - addr ` {e \<in> set es. own w (key e) \<in> {Some ca, Some prev}})"
proof -
  obtain cont w0 where 0: "ct_getLockedAndFetched tr cid w = (Inr cont, w0)" "rep cid w0 cont refs" "keeps_items w w0" "fresh_ids w0 (length es)"
    using obtain_container [OF assms(1) room(2,3)] by (elim exE conjE)
  define ca where "ca = oo_name cont"
  have own0: "own w0 r = own w r" for r using own_kept keeps_items_parts(1) [OF 0(3)] by blast
  have sw: "switchable w0 ca prev = (\<lambda>e. own w (key e) \<in> {Some ca, Some prev})" by (rule ext) (simp add: switchable_def own0)
  obtain cont1 w1 dn failed w2 cont3 w3 where r: "ct_addReferencesAndCommit tr es cont w0 = (Inr cont1, w1)" "getAddressIfSet cont1 = Inr ca"
    "switchElementsOwnership (ct_switchElement tr ca prev) es w1 = (Inr (dn, failed), w2)"
    "(if failed \<noteq> [] then ct_removeReferencesAndCommit tr (map (\<lambda>(e, x). addr e) failed) cont1 else ret cont1) w2 = (Inr cont3, w3)"
    and f: "map fst failed = filter (\<lambda>e. \<not> own w (key e) \<in> {Some ca, Some prev}) es"
    and rep3: "rep cid w3 cont3 (refs @ map key (filter (\<lambda>e. own w (key e) \<in> {Some ca, Some prev}) es))" "oo_name cont3 = ca"
    and k3: "keeps is_agent w0 w3"
    and own: "\<forall>e \<in> set es. own w3 (key e) = (if own w (key e) \<in> {Some ca, Some prev} then Some ca else own w (key e))"
      "\<forall>r. fst r \<notin> addr ` set es \<longrightarrow> own w3 r = own w r"
    using references_switched [OF 0(2) refs es room(1) 0(4) ca_def, of prev] unfolding sw own0 by (elim exE conjE)
  define G where "G = map addr (filter (\<lambda>e. own w (key e) \<in> {Some ca, Some prev}) es)"
  have S3: "agent_owns w3 S" using S keeps_items_parts(2) [OF 0(3)] k3 agent_owns_kept by blast
  have fa: "(\<lambda>(e, x). addr e) ` set failed = addr ` set (map fst failed)" by force
  have transf: "filter (\<lambda>a. a \<notin> (\<lambda>(e, x). addr e) ` set failed) (map addr es) = G"
    unfolding fa G_def by (rule drop_failed(2) [OF es(1) f])
  have setG: "set G = addr ` {e \<in> set es. own w (key e) \<in> {Some ca, Some prev}}" by (auto simp: G_def)
  obtain w4 where 4: "ref_removeBatchFromOwnership G w3 = (Inr (), w4)" "agent_owns w4 (S - set G)" "keeps (\<lambda>p. \<not> is_agent p) w3 w4"
    using agent_drops [OF S3] by blast
  obtain w5 where 5: "(if failed = [] \<or> G \<noteq> [] then ref_removeBatchFromOwnership G else ret ()) w3 = (Inr (), w5)"
    "agent_owns w5 (S - set G)" "keeps (\<lambda>p. \<not> is_agent p) w3 w5"
    using 4 S3 by (cases "failed = [] \<or> G \<noteq> []") (auto simp: keeps_refl)
  have "G = map addr es" if "failed = []"
    using transf that by (simp add: filter_map comp_def)
  then have run: "referenceAndSwitchOwnership tr cid prev es w = (Inr (if failed = [] then Requeued else OwnershipSwitchFailure failed), w5)"
    using 0(1) rep_summary [OF 0(2)] r rep_summary [OF rep3(1)] 5(1) transf
    by (simp add: referenceAndSwitchOwnership_def key_address Let_def del: bnd_liftr) (auto split: if_splits)
  have k5: "keeps is_request w3 w5" "keeps_containers w3 w5" by (rule keeps_mono [OF 5(3)], erule kinds_disjoint)+
  have "own w5 r = own w3 r" for r using own_kept [OF k5(1)] .
  with run f rep_kept [OF rep3(1) k5(2)] rep3(2) own 5(2) show ?thesis unfolding setG
    by (intro exI [of _ ca] exI [of _ failed] exI [of _ w5] conjI) auto
qed

end

end
