(* ===== verification/PopSpec.thy ===== *)
theory PopSpec
  imports ContainerSpec
begin

text \<open>
  Taking requests from a container: the laws \<open>popNextBatch\<close> relies on, what one round does, and the whole loop,
  which ends after at most one round more than there are references.
\<close>

section \<open>The effect of popping\<close>

text \<open>
  From the world \<open>w\<close> with the references \<open>refs\<close> to the container \<open>ca\<close> and the agent's list \<open>S\<close>, to \<open>w'\<close>, \<open>refs'\<close> and
  \<open>S'\<close>, with the elements \<open>N\<close> given to the agent: a job owned by the container is either still referenced, with
  its owner as before, or given to the agent, owned by it and on its list. Only such jobs are given, and no
  other job changes its owner.
\<close>

definition pop_effect ::
  "('e \<Rightarrow> job_ref) \<Rightarrow> (world \<Rightarrow> job_ref \<Rightarrow> string option) \<Rightarrow> string \<Rightarrow> string \<Rightarrow> world \<Rightarrow> job_ref list \<Rightarrow> string set
   \<Rightarrow> world \<Rightarrow> job_ref list \<Rightarrow> string set \<Rightarrow> 'e list \<Rightarrow> bool" where
  "pop_effect key own ca agent w refs S w' refs' S' N \<longleftrightarrow>
     set refs' \<subseteq> set refs \<and> distinct (map fst refs') \<and> distinct (map (\<lambda>e. fst (key e)) N)
   \<and> (\<forall>r \<in> set refs. own w r = Some ca \<longrightarrow> r \<in> set refs' \<or> r \<in> key ` set N)
   \<and> (\<forall>r \<in> set refs'. own w' r = own w r)
   \<and> (\<forall>e \<in> set N. key e \<in> set refs - set refs' \<and> own w (key e) \<in> {Some agent, Some ca} \<and> own w' (key e) = Some agent
        \<and> fst (key e) \<in> S')
   \<and> (\<forall>r. fst r \<notin> fst ` set refs \<longrightarrow> own w' r = own w r)
   \<and> S - fst ` set refs \<subseteq> S' \<and> S' \<subseteq> S \<union> fst ` set refs"

lemma pop_effect_refl: "distinct (map fst refs) \<Longrightarrow> \<forall>r. own w' r = own w r \<Longrightarrow> pop_effect key own ca agent w refs S w' refs S []"
  unfolding pop_effect_def by auto

lemma distinct_fst_subset:
  assumes "distinct (map fst refs)" and "set refs' \<subseteq> set refs" and "r \<in> set refs" "r \<notin> set refs'"
  shows "fst r \<notin> fst ` set refs'"
  using assms by (auto simp: distinct_map inj_on_def)

lemma pop_effect_length:
  assumes "distinct (map fst refs)" and e: "pop_effect key own ca agent w refs S w' refs' S' N"
  shows "length N + length refs' \<le> length refs"
proof -
  have N: "key e \<in> set refs - set refs'" if "e \<in> set N" for e using e that unfolding pop_effect_def by blast
  have d: "distinct (map key N)" "distinct refs'" "set refs' \<subseteq> set refs"
    using e unfolding pop_effect_def by (auto simp: distinct_map inj_on_def)
  have "length N + length refs' = card (set (map key N)) + card (set refs')" using d(1,2) by (metis distinct_card length_map)
  also have "\<dots> = card (set (map key N) \<union> set refs')" by (rule card_Un_disjoint [symmetric]) (use N in auto)
  also have "\<dots> \<le> card (set refs)" by (rule card_mono) (use N d(3) in auto)
  also have "\<dots> \<le> length refs" by (rule card_length)
  finally show ?thesis .
qed

lemma pop_effect_trans:
  assumes d: "distinct (map fst refs)" and e1: "pop_effect key own ca agent w refs S w1 refs1 S1 N1"
    and e2: "pop_effect key own ca agent w1 refs1 S1 w2 refs2 S2 N2"
  shows "pop_effect key own ca agent w refs S w2 refs2 S2 (N1 @ N2)"
proof -
  have sub: "set refs1 \<subseteq> set refs" "set refs2 \<subseteq> set refs1" using e1 e2 by (simp_all add: pop_effect_def)
  have N1: "key e \<in> set refs - set refs1" "own w (key e) \<in> {Some agent, Some ca}" "own w1 (key e) = Some agent" "fst (key e) \<in> S1"
    if "e \<in> set N1" for e using e1 that unfolding pop_effect_def by blast+
  have N2: "key e \<in> set refs1 - set refs2" "own w1 (key e) \<in> {Some agent, Some ca}" "own w2 (key e) = Some agent" "fst (key e) \<in> S2"
    if "e \<in> set N2" for e using e2 that unfolding pop_effect_def by blast+
  have kept1: "own w1 r = own w r" if "r \<in> set refs1" for r using e1 that unfolding pop_effect_def by blast
  have kept2: "own w2 r = own w1 r" if "r \<in> set refs2" for r using e2 that unfolding pop_effect_def by blast
  have other1: "own w1 r = own w r" if "fst r \<notin> fst ` set refs" for r using e1 that unfolding pop_effect_def by blast
  have other2: "own w2 r = own w1 r" if "fst r \<notin> fst ` set refs1" for r using e2 that unfolding pop_effect_def by blast
  have gone: "fst (key e) \<notin> fst ` set refs1" if "e \<in> set N1" for e using distinct_fst_subset [OF d sub(1)] N1(1) [OF that] by blast
  have S: "S - fst ` set refs \<subseteq> S1" "S1 \<subseteq> S \<union> fst ` set refs" "S1 - fst ` set refs1 \<subseteq> S2" "S2 \<subseteq> S1 \<union> fst ` set refs1"
    using e1 e2 unfolding pop_effect_def by blast+
  have fsub: "fst ` set refs1 \<subseteq> fst ` set refs" using sub(1) by blast
  have N: "key e \<in> set refs - set refs2 \<and> own w (key e) \<in> {Some agent, Some ca} \<and> own w2 (key e) = Some agent \<and> fst (key e) \<in> S2"
    if e: "e \<in> set (N1 @ N2)" for e
  proof (cases "e \<in> set N1")
    case True
    have "fst (key e) \<in> S2" using N1(4) [OF True] gone [OF True] S(3) by blast
    then show ?thesis using N1 [OF True] other2 [OF gone [OF True]] sub by auto
  next
    case False
    then have e2: "e \<in> set N2" using e by simp
    then have "key e \<in> set refs1" using N2(1) by blast
    with N2 [OF e2] kept1 [of "key e"] sub show ?thesis by auto
  qed
  have "fst (key e) \<noteq> fst (key e')" if "e \<in> set N1" "e' \<in> set N2" for e e' using gone [OF that(1)] N2(1) [OF that(2)] by force
  then have "distinct (map (\<lambda>e. fst (key e)) (N1 @ N2))" using e1 e2 by (auto simp: pop_effect_def)
  moreover have "\<forall>r \<in> set refs. own w r = Some ca \<longrightarrow> r \<in> set refs2 \<or> r \<in> key ` set (N1 @ N2)"
  proof (intro ballI impI)
    fix r assume r: "r \<in> set refs" "own w r = Some ca"
    show "r \<in> set refs2 \<or> r \<in> key ` set (N1 @ N2)"
    proof (cases "r \<in> set refs1")
      case True
      then have "own w1 r = Some ca" using kept1 r(2) by simp
      then show ?thesis using e2 True unfolding pop_effect_def by auto
    qed (use e1 r in \<open>auto simp: pop_effect_def\<close>)
  qed
  moreover have "\<forall>r \<in> set refs2. own w2 r = own w r"
    by (intro ballI) (simp add: kept2 kept1 [OF subsetD [OF sub(2)]])
  moreover have "\<forall>r. fst r \<notin> fst ` set refs \<longrightarrow> own w2 r = own w r"
  proof (intro allI impI)
    fix r :: job_ref assume r: "fst r \<notin> fst ` set refs"
    then have "fst r \<notin> fst ` set refs1" using fsub by blast
    then show "own w2 r = own w r" using other1 [OF r] other2 by simp
  qed
  moreover have "S - fst ` set refs \<subseteq> S2" "S2 \<subseteq> S \<union> fst ` set refs" using S fsub by blast+
  moreover have "distinct (map fst refs2)" using e2 by (simp add: pop_effect_def)
  moreover have "set refs2 \<subseteq> set refs" using sub by blast
  moreover note ballI [of "set (N1 @ N2)", OF N]
  ultimately show ?thesis unfolding pop_effect_def by (intro conjI)
qed

text \<open>The effect of one round, in terms of the candidates \<open>cs\<close> and the updated elements \<open>dn\<close>.\<close>

context job_ownership
begin

lemma round_effect:
  assumes refs: "distinct (map fst refs)" and cs: "map key cs = filter P (take n refs)" and dn: "map key dn = map key cs"
    and F: "F = filter (\<lambda>e. \<not> switchable w agent ca e) cs" and K: "K \<subseteq> addr ` set F"
    and own1: "\<forall>e \<in> set cs. own w' (key e) = (if switchable w agent ca e then Some agent else own w (key e))"
    and own2: "\<forall>r. fst r \<notin> addr ` set cs \<longrightarrow> own w' r = own w r"
  shows "pop_effect key own ca agent w refs S w' (filter (\<lambda>r. fst r \<notin> addr ` set cs - K) refs) ((S \<union> addr ` set cs) - addr ` set F)
      (filter (\<lambda>e. addr e \<notin> addr ` set F) dn)" (is "pop_effect key own ca agent w refs S w' ?refs' ?S' ?N")
proof -
  have keys: "set (map key cs) \<subseteq> set refs" unfolding cs by (auto dest: in_set_takeD)
  have dcs: "distinct (map addr cs)"
  proof -
    have "distinct (map fst (filter P (take n refs)))" using refs by (simp add: distinct_map_filter take_map [symmetric])
    then show ?thesis unfolding cs [symmetric] by (simp add: comp_def)
  qed
  have inj: "r = key e" if "e \<in> set cs" "r \<in> set refs" "fst r = addr e" for r e
    using refs keys that by (auto simp: distinct_map inj_on_def)
  have F_iff: "addr e \<in> addr ` set F \<longleftrightarrow> \<not> switchable w agent ca e" if "e \<in> set cs" for e
    using that dcs unfolding F by (auto simp: distinct_map dest: inj_onD)
  have addrs: "map addr dn = map addr cs" using arg_cong [OF dn, of "map fst"] by (simp add: comp_def)
  have dn_cs: "\<exists>c \<in> set cs. key c = key e" if "e \<in> set dn" for e using dn that by (metis image_eqI image_iff list.set_map)
  have N: "key e \<in> set refs - set ?refs' \<and> own w (key e) \<in> {Some agent, Some ca} \<and> own w' (key e) = Some agent \<and> addr e \<in> ?S'"
    if e: "e \<in> set ?N" for e
  proof -
    obtain c where c: "c \<in> set cs" "key c = key e" using dn_cs e by auto
    then have sw: "switchable w agent ca c" using F_iff [of c] e by auto
    have "addr c \<in> addr ` set cs" "addr c \<notin> addr ` set F" using imageI [OF c(1)] F_iff [OF c(1)] sw by simp_all
    moreover have "key c \<in> set refs" using keys c(1) by auto
    ultimately show ?thesis using c(2) sw own1 c(1) K unfolding switchable_def by (auto simp del: split_paired_All)
  qed
  have kept: "own w' r = own w r" if r: "r \<in> set ?refs'" for r
  proof (cases "fst r \<in> addr ` set cs")
    case True
    then obtain e where e: "e \<in> set cs" "fst r = addr e" by blast
    then have "addr e \<in> addr ` set F" using r K by auto
    then have "\<not> switchable w agent ca e" using F_iff [OF e(1)] by simp
    then show ?thesis using own1 e inj [OF e(1) _ e(2)] r by auto
  qed (use own2 in blast)
  have "\<forall>r \<in> set refs. own w r = Some ca \<longrightarrow> r \<in> set ?refs' \<or> r \<in> key ` set ?N"
  proof (intro ballI impI)
    fix r assume r: "r \<in> set refs" "own w r = Some ca"
    show "r \<in> set ?refs' \<or> r \<in> key ` set ?N"
    proof (cases "fst r \<in> addr ` set cs")
      case True
      then obtain e where e: "e \<in> set cs" "r = key e" using inj r(1) by blast
      then have "addr e \<notin> addr ` set F" using F_iff r(2) by (simp add: switchable_def)
      moreover obtain d where "d \<in> set dn" "key d = key e" using dn e(1) by (metis image_eqI image_iff list.set_map)
      ultimately have "d \<in> set ?N" "r = key d" using e(2) by simp_all
      then show ?thesis by blast
    qed (use r in simp)
  qed
  moreover have "distinct (map fst ?refs')" "distinct (map addr ?N)" using refs dcs addrs by (auto intro: distinct_map_filter)
  moreover have A: "addr ` set cs \<subseteq> fst ` set refs" "addr ` set F \<subseteq> addr ` set cs" using keys unfolding F by auto
  have "\<forall>r. fst r \<notin> fst ` set refs \<longrightarrow> own w' r = own w r" using own2 A(1) by (meson subsetD)
  moreover have "S - fst ` set refs \<subseteq> ?S'" using A by (meson Diff_iff UnI1 subsetD subsetI)
  moreover have "?S' \<subseteq> S \<union> fst ` set refs" using A(1) by auto
  moreover have "set ?refs' \<subseteq> set refs" by auto
  moreover note ballI [of "set ?refs'", OF kept] ballI [of "set ?N", OF N]
  ultimately show ?thesis unfolding pop_effect_def by (intro conjI)
qed

end

section \<open>The laws\<close>

text \<open>
  \<open>avail cid ca w refs\<close>: the container \<open>cid\<close> is at the address \<open>ca\<close> with the references \<open>refs\<close>, or it does not exist
  and there are none.
\<close>

locale pop_container = queue_container tr rep + job_ownership "ct_switchPopped tr" key own "ct_getElementSummary tr"
  for tr :: "('id, 'p, 'el, 'pop, 'crit, 'sum) container_traits" and rep key own +
  fixes avail :: "'id \<Rightarrow> string \<Rightarrow> world \<Rightarrow> job_ref list \<Rightarrow> bool"
    and positive :: "'crit \<Rightarrow> bool"
  assumes popped_address: "ct_getPoppedAddress tr = (\<lambda>e. fst (key e))"
    and find_container: "avail cid ca w refs \<Longrightarrow>
      (\<exists>cont. ct_getLockedAndFetchedNoCreate tr cid w = (Inr cont, w) \<and> rep cid w cont refs \<and> oo_name cont = ca)
      \<or> (\<exists>w'. ct_getLockedAndFetchedNoCreate tr cid w = (Inl NoSuchContainer, w') \<and> refs = [] \<and> avail cid ca w' [] \<and> keeps_items w w')"
    and trim: "rep cid w cont refs \<Longrightarrow>
      \<exists>w'. ct_trimContainerIfNeeded tr cid cont w = (Inr (refs = []), w') \<and> avail cid (oo_name cont) w' refs \<and> keeps_items w w'"
    and avail_kept: "avail cid ca w refs \<Longrightarrow> keeps_containers w w' \<Longrightarrow> no_new w w' \<Longrightarrow> avail cid ca w' refs"
    and candidates: "rep cid w cont refs \<Longrightarrow> \<exists>cs s n. ct_getPoppingElementsCandidates tr crit skip cont w = (Inr ((cs, s), cont), w)
      \<and> map key cs = filter (\<lambda>r. fst r \<notin> skip) (take n refs) \<and> s = fold (\<lambda>e t. ct_plus tr t (ct_getElementSummary tr e)) cs (ct_none tr)
      \<and> (positive crit \<and> (\<exists>r \<in> set refs. fst r \<notin> skip) \<longrightarrow> cs \<noteq> [])"
    and less_positive: "ct_less tr s pc \<Longrightarrow> positive (ct_unfulfilled tr pc s)"
    and unfulfilled_none: "ct_unfulfilled tr pc (ct_none tr) = pc"
    and unfulfilled_plus: "ct_unfulfilled tr (ct_unfulfilled tr pc s) t = ct_unfulfilled tr pc (ct_plus tr s t)"
    and plus_none: "ct_plus tr s (ct_none tr) = s" "ct_plus tr (ct_none tr) s = s"
    and plus_assoc: "ct_plus tr (ct_plus tr s t) u = ct_plus tr s (ct_plus tr t u)"
    and minus_plus: "ct_minus tr (ct_plus tr s t) u = ct_plus tr (ct_minus tr s u) t" "ct_minus tr (ct_plus tr s u) u = s"
begin

abbreviation "weigh es \<equiv> fold (\<lambda>e t. ct_plus tr t (ct_getElementSummary tr e)) es"

lemma weigh_plus: "weigh es (ct_plus tr s t) = ct_plus tr s (weigh es t)"
  by (induction es arbitrary: t) (simp_all add: plus_assoc)

lemma weigh_from: "weigh es s = ct_plus tr s (weigh es (ct_none tr))"
  using weigh_plus [of es s "ct_none tr"] by (simp add: plus_none)

lemma minus_weigh: "ct_minus tr (weigh es s) u = weigh es (ct_minus tr s u)"
  by (induction es arbitrary: s) (simp_all add: minus_plus)

lemma weigh_silent:
  "fold (\<lambda>e s. ct_minus tr s (ct_getElementSummary tr e)) (filter P es) (weigh es s) = weigh (filter (\<lambda>e. \<not> P e) es) s"
  by (induction es arbitrary: s) (simp_all add: minus_weigh minus_plus(2))

lemma weigh_cong: "map (ct_getElementSummary tr) es = map (ct_getElementSummary tr) es' \<Longrightarrow> weigh es s = weigh es' s"
proof -
  have "weigh xs s = fold (\<lambda>x t. ct_plus tr t x) (map (ct_getElementSummary tr) xs) s" for xs by (simp add: fold_map comp_def)
  then show "map (ct_getElementSummary tr) es = map (ct_getElementSummary tr) es' \<Longrightarrow> weigh es s = weigh es' s" by simp
qed

section \<open>One round\<close>

definition round_ok :: "string \<Rightarrow> string \<Rightarrow> 'id \<Rightarrow> world \<Rightarrow> job_ref list \<Rightarrow> string set \<Rightarrow> ('pop, 'crit, 'sum) pop_state \<Rightarrow> world
    \<Rightarrow> job_ref list \<Rightarrow> string set \<Rightarrow> ('pop, 'crit, 'sum) pop_state \<Rightarrow> bool" where
  "round_ok ca agent cid w refs S st w' refs' S' st' \<longleftrightarrow> avail cid ca w' refs' \<and> agent_owns w' S' \<and> agentAddress w' = agentAddress w
     \<and> (\<exists>N. pop_effect key own ca agent w refs S w' refs' S' N \<and> ps_elements st' = ps_elements st @ N
          \<and> ps_summary st' = weigh N (ps_summary st)
          \<and> ps_unfulfilledCriteria st' = ct_unfulfilled tr (ps_unfulfilledCriteria st) (weigh N (ct_none tr)))
     \<and> (ps_didTrim st' \<longrightarrow> ps_didTrim st \<or> refs' = [])
     \<and> (ps_unexpectedException st' \<longrightarrow> ps_unexpectedException st \<or> (\<exists>r \<in> set refs'. own w' r \<notin> {Some agent, Some ca}))
     \<and> (ps_unexpectedException st' \<or> ps_didTrim st'
        \<or> ps_elementsToSkip st' = ps_elementsToSkip st
          \<and> (positive (ps_unfulfilledCriteria st) \<and> ps_elementsToSkip st = {} \<longrightarrow> length refs' < length refs))"

lemma not_to_report_all:
  assumes "\<forall>(e, x) \<in> set failed. x \<noteq> CouldNotUnlock"
  shows "not_to_report f failed = map (\<lambda>e. f e) (map fst failed)"
proof -
  have "filter (\<lambda>(e, x). x \<noteq> CouldNotUnlock) failed = failed" using assms by (intro filter_True) auto
  then show ?thesis by (simp add: not_to_report_def case_prod_beta comp_def)
qed

text \<open>
  The first half of a round, up to the updates of the candidates \<open>cs\<close>: \<open>F\<close> are those that could not be updated, \<open>dn\<close>
  the elements after the updates.
\<close>

lemma round_updates:
  assumes rep: "rep cid w cont refs" "oo_name cont = ca" and d: "distinct (map fst refs)" and S: "agent_owns w S"
    and agent: "agent = agentAddress w"
  shows "\<exists>cs s n w1 dn failed w2. ct_getPoppingElementsCandidates tr crit skip cont w = (Inr ((cs, s), cont), w)
    \<and> ref_addBatchToOwnership (map addr cs) w = (Inr (), w1) \<and> agentAddress w1 = agent
    \<and> switchElementsOwnership (ct_switchPopped tr agent ca) cs w1 = (Inr (dn, failed), w2)
    \<and> map key cs = filter (\<lambda>r. fst r \<notin> skip) (take n refs) \<and> s = weigh cs (ct_none tr)
    \<and> (positive crit \<and> (\<exists>r \<in> set refs. fst r \<notin> skip) \<longrightarrow> cs \<noteq> [])
    \<and> map fst failed = filter (\<lambda>e. \<not> switchable w agent ca e) cs \<and> (\<forall>(e, x) \<in> set failed. x \<noteq> CouldNotUnlock)
    \<and> map key dn = map key cs \<and> (\<forall>t. weigh dn t = weigh cs t)
    \<and> rep cid w2 cont refs \<and> agent_owns w2 (S \<union> addr ` set cs) \<and> agentAddress w2 = agent
    \<and> (\<forall>e \<in> set cs. own w2 (key e) = (if switchable w agent ca e then Some agent else own w (key e)))
    \<and> (\<forall>r. fst r \<notin> addr ` set cs \<longrightarrow> own w2 r = own w r)"
proof -
  obtain cs s n where c: "ct_getPoppingElementsCandidates tr crit skip cont w = (Inr ((cs, s), cont), w)"
    "map key cs = filter (\<lambda>r. fst r \<notin> skip) (take n refs)" "s = weigh cs (ct_none tr)"
    "positive crit \<and> (\<exists>r \<in> set refs. fst r \<notin> skip) \<longrightarrow> cs \<noteq> []"
    using candidates [OF rep(1), of crit skip] by (elim exE conjE)
  obtain w1 where 1: "ref_addBatchToOwnership (map addr cs) w = (Inr (), w1)" "agent_owns w1 (S \<union> addr ` set cs)"
    "keeps (\<lambda>p. \<not> is_agent p) w w1"
    using agent_adds [OF S, of "map addr cs"] by auto
  have k1: "keeps is_request w w1" "keeps_containers w w1" by (rule keeps_mono [OF 1(3)], erule kinds_disjoint)+
  have "distinct (map fst (filter (\<lambda>r. fst r \<notin> skip) (take n refs)))" using d by (simp add: distinct_map_filter take_map [symmetric])
  then have dcs: "distinct (map addr cs)" unfolding c(2) [symmetric] by (simp add: comp_def)
  obtain dn failed w2 where 2: "switchElementsOwnership (ct_switchPopped tr agent ca) cs w1 = (Inr (dn, failed), w2)" "switched w1 agent ca cs w2"
    "map fst failed = filter (\<lambda>e. \<not> switchable w1 agent ca e) cs" "\<forall>(e, x) \<in> set failed. x \<noteq> CouldNotUnlock" "map key dn = map key cs"
    "map (ct_getElementSummary tr) dn = map (ct_getElementSummary tr) cs"
    using switch_all [OF dcs, of agent ca w1] by (elim exE conjE)
  have ag: "agentAddress w1 = agent" "agentAddress w2 = agent" using 1(3) 2(2) agent by (simp_all add: keeps_def switched_def)
  have "rep cid w2 cont refs" using rep(1) rep_kept k1(2) switched_keeps(1) [OF 2(2)] by blast
  moreover have "agent_owns w2 (S \<union> addr ` set cs)" by (rule agent_owns_kept [OF 1(2) switched_keeps(2) [OF 2(2)]])
  moreover have "\<forall>e \<in> set cs. own w2 (key e) = (if switchable w agent ca e then Some agent else own w (key e))"
    "\<forall>r. fst r \<notin> addr ` set cs \<longrightarrow> own w2 r = own w r" "map fst failed = filter (\<lambda>e. \<not> switchable w agent ca e) cs"
    using 2(2,3) own_kept [OF k1(1)] switchable_kept [OF k1(1)] by (simp_all add: switched_def del: split_paired_All)
  moreover have "\<forall>t. weigh dn t = weigh cs t" using weigh_cong [OF 2(6)] by simp
  ultimately show ?thesis using c 1(1) 2(1,4,5) ag
    by (intro exI [of _ cs] exI [of _ s] exI [of _ n] exI [of _ w1] exI [of _ dn] exI [of _ failed] exI [of _ w2] conjI)
qed

text \<open>The second half: the references are removed and the container is trimmed.\<close>

lemma round_dereferences:
  assumes rep: "rep cid w cont refs" "oo_name cont = ca" and d: "distinct (map fst refs)" and S: "agent_owns w S"
  shows "\<exists>cont' w' w''. ct_removeReferencesAndCommit tr D cont w = (Inr cont', w') \<and> ct_getContainerSummary tr cont' = Inr ()
    \<and> ct_trimContainerIfNeeded tr cid cont' w' = (Inr (filter (\<lambda>r. fst r \<notin> set D) refs = []), w'')
    \<and> avail cid ca w'' (filter (\<lambda>r. fst r \<notin> set D) refs) \<and> agent_owns w'' S \<and> agentAddress w'' = agentAddress w
    \<and> (\<forall>r. own w'' r = own w r)"
proof -
  obtain cont' w' where 1: "ct_removeReferencesAndCommit tr D cont w = (Inr cont', w')" "rep cid w' cont' (filter (\<lambda>r. fst r \<notin> set D) refs)"
    "oo_name cont' = ca" "keeps_items w w'" using remove_references [OF rep(1) d, of D] rep(2) by auto
  obtain w'' where 2: "ct_trimContainerIfNeeded tr cid cont' w' = (Inr (filter (\<lambda>r. fst r \<notin> set D) refs = []), w'')"
    "avail cid ca w'' (filter (\<lambda>r. fst r \<notin> set D) refs)" "keeps_items w' w''" using trim [OF 1(2)] 1(3) by auto
  have k: "keeps_items w w''" by (rule keeps_trans [OF 1(4) 2(3)])
  have "agent_owns w'' S" by (rule agent_owns_kept [OF S keeps_items_parts(2) [OF k]])
  moreover have "\<forall>r. own w'' r = own w r" using own_kept [OF keeps_items_parts(1) [OF k]] by (intro allI)
  moreover have "agentAddress w'' = agentAddress w" using k by (simp add: keeps_def)
  ultimately show ?thesis using 1(1) rep_summary [OF 1(2)] 2(1,2) by (intro exI [of _ cont'] exI [of _ w'] exI [of _ w''] conjI)
qed

lemma pop_round_ok:
  assumes rep: "rep cid w cont refs" "oo_name cont = ca" and d: "distinct (map fst refs)" and S: "agent_owns w S"
    and agent: "agent = agentAddress w"
  shows "\<exists>w' refs' S' st'. pop_round tr cid cont st w = (Inr st', w') \<and> round_ok ca agent cid w refs S st w' refs' S' st'"
proof -
  let ?skip = "ps_elementsToSkip st" and ?crit = "ps_unfulfilledCriteria st"
  obtain cs s n w1 dn failed w2 where u: "ct_getPoppingElementsCandidates tr ?crit ?skip cont w = (Inr ((cs, s), cont), w)"
    "ref_addBatchToOwnership (map addr cs) w = (Inr (), w1)" "agentAddress w1 = agent"
    "switchElementsOwnership (ct_switchPopped tr agent ca) cs w1 = (Inr (dn, failed), w2)"
    and c: "map key cs = filter (\<lambda>r. fst r \<notin> ?skip) (take n refs)" "s = weigh cs (ct_none tr)"
      "positive ?crit \<and> (\<exists>r \<in> set refs. fst r \<notin> ?skip) \<longrightarrow> cs \<noteq> []"
    and f: "map fst failed = filter (\<lambda>e. \<not> switchable w agent ca e) cs" "\<forall>(e, x) \<in> set failed. x \<noteq> CouldNotUnlock"
    and dn: "map key dn = map key cs" "\<forall>t. weigh dn t = weigh cs t"
    and w2: "rep cid w2 cont refs" "agent_owns w2 (S \<union> addr ` set cs)" "agentAddress w2 = agent"
    and own2: "\<forall>e \<in> set cs. own w2 (key e) = (if switchable w agent ca e then Some agent else own w (key e))"
      "\<forall>r. fst r \<notin> addr ` set cs \<longrightarrow> own w2 r = own w r"
    using round_updates [OF assms, of ?crit ?skip] by (elim exE conjE)
  define F where "F = map fst failed"
  define K where "K = not_to_dereference (\<lambda>e. addr e) failed"
  define D where "D = filter (\<lambda>a. a \<notin> K) (map addr cs)"
  define refs' where "refs' = filter (\<lambda>r. fst r \<notin> set D) refs"
  define N where "N = filter (\<lambda>e. addr e \<notin> addr ` set F) dn"
  define S' where "S' = (S \<union> addr ` set cs) - addr ` set F"
  have K: "K \<subseteq> addr ` set F" by (force simp: K_def F_def not_to_dereference_def)
  have setD: "set D = addr ` set cs - K" by (auto simp: D_def)
  obtain cont3 w3 w4 where r: "ct_removeReferencesAndCommit tr D cont w2 = (Inr cont3, w3)" "ct_getContainerSummary tr cont3 = Inr ()"
      "ct_trimContainerIfNeeded tr cid cont3 w3 = (Inr (refs' = []), w4)"
    and w4: "avail cid ca w4 refs'" "agent_owns w4 (S \<union> addr ` set cs)" "agentAddress w4 = agentAddress w" "\<forall>r. own w4 r = own w2 r"
    using round_dereferences [OF w2(1) rep(2) d w2(2), of D] unfolding refs'_def agent [symmetric] w2(3) by (elim exE conjE)
  have eff: "pop_effect key own ca agent w refs S w4 refs' S' N"
    unfolding refs'_def S'_def N_def setD
    by (rule round_effect [OF d c(1) dn(1) f(1) [folded F_def] K]) (use own2 w4(4) in \<open>simp_all del: split_paired_All\<close>)
  have wN: "weigh N t = fold (\<lambda>e s. ct_minus tr s (ct_getElementSummary tr e)) (filter (\<lambda>e. addr e \<in> addr ` set F) dn) (weigh cs t)" for t
    using weigh_silent [of "\<lambda>e. addr e \<in> addr ` set F" dn t] dn(2) by (simp add: N_def)
  have ref: "key e \<in> set refs" if "e \<in> set cs" for e
  proof -
    have "key e \<in> set (map key cs)" using that by simp
    then show ?thesis unfolding c(1) by (auto dest: in_set_takeD)
  qed
  have shorter: "length refs' < length refs" if "cs \<noteq> []" "K = {}"
    unfolding refs'_def setD that(2) by (rule length_filter_less [of "key (hd cs)"]) (use that(1) ref in auto)
  note run = rep_summary [OF rep(1)] rep_address [OF rep(1)] rep(2) u r
  show ?thesis
  proof (cases "failed = []")
    case True
    then have t: "F = []" "K = {}" "N = dn" "D = map addr cs" by (simp_all add: F_def K_def N_def D_def not_to_dereference_def)
    let ?st = "st\<lparr>ps_didTrim := (refs' = []), ps_summary := ct_plus tr (ps_summary st) s,
        ps_unfulfilledCriteria := ct_unfulfilled tr ?crit s, ps_elements := ps_elements st @ dn\<rparr>"
    have "pop_round tr cid cont st w = (Inr ?st, w4)"
      using run True t(4) by (simp add: pop_round_def popped_address getAgentAddress_def Let_def)
    moreover have "weigh N (ps_summary st) = ct_plus tr (ps_summary st) s" "weigh N (ct_none tr) = s"
      using wN t(1) weigh_from [of cs "ps_summary st"] c(2) by simp_all
    moreover have "positive ?crit \<and> ?skip = {} \<longrightarrow> refs' = [] \<or> length refs' < length refs"
      using shorter c(3) t(2) by (cases refs) (auto simp: refs'_def)
    ultimately show ?thesis using w4 t eff
      by (intro exI [of _ w4] exI [of _ refs'] exI [of _ S'] exI [of _ ?st]) (auto simp: round_ok_def S'_def)
  next
    case False
    obtain w5 where 5: "ref_removeBatchFromOwnership (map addr F) w4 = (Inr (), w5)" "agent_owns w5 S'"
      "keeps (\<lambda>p. \<not> is_agent p) w4 w5" "no_new w4 w5" using agent_drops [OF w4(2), of "map addr F"] by (auto simp: S'_def)
    have k5: "keeps is_request w4 w5" "keeps_containers w4 w5" by (rule keeps_mono [OF 5(3)], erule kinds_disjoint)+
    let ?b = "weigh N (ct_none tr)"
    let ?st = "st\<lparr>ps_elements := ps_elements st @ N, ps_summary := ct_plus tr (ps_summary st) ?b,
        ps_unfulfilledCriteria := ct_unfulfilled tr ?crit ?b, ps_elementsToSkip := ?skip \<union> K,
        ps_unexpectedException := (ps_unexpectedException st \<or> K \<noteq> {})\<rparr>"
    have silent: "not_to_report (\<lambda>e. addr e) failed = map addr F" using not_to_report_all [OF f(2), of addr] by (simp add: F_def)
    have "pop_round tr cid cont st w = (Inr ?st, w5)" using run False 5(1) wN
      by (simp add: pop_round_def popped_address getAgentAddress_def Let_def silent K_def [symmetric] D_def [symmetric] N_def [symmetric] c(2))
    moreover have own5: "own w5 r = own w4 r" for r using own_kept [OF k5(1)] .
    have "pop_effect key own ca agent w refs S w5 refs' S' N" using eff by (simp add: pop_effect_def own5 del: split_paired_All)
    moreover have "\<exists>r \<in> set refs'. own w5 r \<notin> {Some agent, Some ca}" if ne: "K \<noteq> {}"
    proof -
      obtain e where e: "e \<in> set cs" "\<not> switchable w agent ca e" "addr e \<in> K" using ne K f(1) by (auto simp: F_def)
      then have "key e \<in> set refs'" using ref by (simp add: refs'_def setD)
      moreover have "own w5 (key e) \<notin> {Some agent, Some ca}" using own2(1) w4(4) e(1,2) by (simp add: own5 switchable_def del: split_paired_All)
      ultimately show ?thesis by blast
    qed
    moreover have "cs \<noteq> []" using False f(1) by auto
    moreover have "avail cid ca w5 refs'" by (rule avail_kept [OF w4(1) k5(2) 5(4)])
    moreover have "agentAddress w5 = agentAddress w" using w4(3) 5(3) by (simp add: keeps_def)
    ultimately show ?thesis using 5(2) shorter weigh_from [of N "ps_summary st"]
      by (intro exI [of _ w5] exI [of _ refs'] exI [of _ S'] exI [of _ ?st]) (auto simp: round_ok_def)
  qed
qed

section \<open>The loop\<close>

definition pop_done :: "string \<Rightarrow> string \<Rightarrow> 'id \<Rightarrow> 'crit \<Rightarrow> world \<Rightarrow> job_ref list \<Rightarrow> string set \<Rightarrow> ('pop, 'crit, 'sum) pop_state \<Rightarrow> world
    \<Rightarrow> ('pop, 'crit, 'sum) pop_state \<Rightarrow> bool" where
  "pop_done ca agent cid pc w refs S st w' st' \<longleftrightarrow> (\<exists>refs' S' N. avail cid ca w' refs' \<and> agent_owns w' S'
     \<and> pop_effect key own ca agent w refs S w' refs' S' N \<and> ps_elements st' = ps_elements st @ N
     \<and> ps_summary st' = weigh N (ps_summary st)
     \<and> (ct_less tr (ps_summary st') pc \<longrightarrow> refs' = [] \<or> (\<exists>r \<in> set refs'. own w' r \<notin> {Some agent, Some ca})))"

lemma pop_done_step:
  assumes d: "distinct (map fst refs)" and r: "round_ok ca agent cid w refs S st w1 refs1 S1 st1"
    and p: "pop_done ca agent cid pc w1 refs1 S1 st1 w' st'"
  shows "pop_done ca agent cid pc w refs S st w' st'"
proof -
  obtain N1 where 1: "pop_effect key own ca agent w refs S w1 refs1 S1 N1" "ps_elements st1 = ps_elements st @ N1"
    "ps_summary st1 = weigh N1 (ps_summary st)" using r by (auto simp: round_ok_def)
  obtain refs' S' N2 where 2: "avail cid ca w' refs'" "agent_owns w' S'" "pop_effect key own ca agent w1 refs1 S1 w' refs' S' N2"
    "ps_elements st' = ps_elements st1 @ N2" "ps_summary st' = weigh N2 (ps_summary st1)"
    "ct_less tr (ps_summary st') pc \<longrightarrow> refs' = [] \<or> (\<exists>r \<in> set refs'. own w' r \<notin> {Some agent, Some ca})" using p unfolding pop_done_def by (elim exE conjE)
  from pop_effect_trans [OF d 1(1) 2(3)] 1(2,3) 2 show ?thesis unfolding pop_done_def
    by (intro exI [of _ refs'] exI [of _ S'] exI [of _ "N1 @ N2"]) simp
qed

lemma pop_done_stop:
  assumes "avail cid ca w' refs" and "agent_owns w' S" and "distinct (map fst refs)" and "\<forall>r. own w' r = own w r"
    and "ct_less tr (ps_summary st) pc \<Longrightarrow> refs = [] \<or> (\<exists>r \<in> set refs. own w' r \<notin> {Some agent, Some ca})"
  shows "pop_done ca agent cid pc w refs S st w' st"
  unfolding pop_done_def using assms(1,2,5) pop_effect_refl [OF assms(3,4)]
  by (intro exI [of _ refs] exI [of _ S] exI [of _ "[]"] conjI impI) simp_all

text \<open>
  Each round that is not the last takes at least one reference away, and a round without references is the
  last: with more fuel than references the loop ends.
\<close>

lemma pop_rounds_ok:
  assumes "avail cid ca w refs" "distinct (map fst refs)" "agent_owns w S" "agent = agentAddress w" "length refs < fuel"
    and "ps_unfulfilledCriteria st = ct_unfulfilled tr pc (ps_summary st)"
    and "ps_unexpectedException st \<or> ps_didTrim st \<or> ps_elementsToSkip st = {}" "ps_didTrim st \<longrightarrow> refs = []"
      "ps_unexpectedException st \<longrightarrow> (\<exists>r \<in> set refs. own w r \<notin> {Some agent, Some ca})"
  shows "\<exists>w' st'. pop_rounds fuel tr cid pc st w = (Inr st', w') \<and> pop_done ca agent cid pc w refs S st w' st'"
  using assms
proof (induction fuel arbitrary: w refs S st)
  case (Suc fuel)
  show ?case
  proof (cases "\<not> ps_unexpectedException st \<and> ct_less tr (ps_summary st) pc \<and> \<not> ps_didTrim st")
    case False
    then have "pop_rounds (Suc fuel) tr cid pc st w = (Inr st, w)" by (simp only: pop_rounds.simps [of "Suc fuel"] if_False prog_apply)
    moreover have "pop_done ca agent cid pc w refs S st w st"
      by (rule pop_done_stop) (use False Suc.prems in auto)
    ultimately show ?thesis by blast
  next
    case True
    have pos: "positive (ps_unfulfilledCriteria st)" using less_positive True Suc.prems(6) by simp
    have skip: "ps_elementsToSkip st = {}" using Suc.prems(7) True by simp
    consider (found) cont where "ct_getLockedAndFetchedNoCreate tr cid w = (Inr cont, w)" "rep cid w cont refs" "oo_name cont = ca"
      | (none) w' where "ct_getLockedAndFetchedNoCreate tr cid w = (Inl NoSuchContainer, w')" "refs = []" "avail cid ca w' []" "keeps_items w w'"
      using find_container [OF Suc.prems(1)] by blast
    then show ?thesis
    proof cases
      case none
      have "pop_rounds (Suc fuel) tr cid pc st w = (Inr st, w')"
        using none(1) True by (simp add: pop_rounds.simps [of "Suc fuel"])
      moreover have "agent_owns w' S" using agent_owns_kept Suc.prems(3) keeps_items_parts(2) [OF none(4)] by blast
      then have "pop_done ca agent cid pc w refs S st w' st"
        using none own_kept [OF keeps_items_parts(1) [OF none(4)]] by (intro pop_done_stop) simp_all
      ultimately show ?thesis by blast
    next
      case found
      obtain w1 refs1 S1 st1 where 1: "pop_round tr cid cont st w = (Inr st1, w1)" "round_ok ca agent cid w refs S st w1 refs1 S1 st1"
        using pop_round_ok [OF found(2,3) Suc.prems(2-4), of st] by blast
      have 2: "avail cid ca w1 refs1" "agent_owns w1 S1" "agent = agentAddress w1" "distinct (map fst refs1)" "set refs1 \<subseteq> set refs"
        "ps_unexpectedException st1 \<or> ps_didTrim st1 \<or> ps_elementsToSkip st1 = {} \<and> length refs1 < length refs"
        "ps_didTrim st1 \<longrightarrow> refs1 = []" "ps_unexpectedException st1 \<longrightarrow> (\<exists>r \<in> set refs1. own w1 r \<notin> {Some agent, Some ca})"
        using 1(2) Suc.prems(4) pos skip True by (auto simp: round_ok_def pop_effect_def)
      have crit: "ps_unfulfilledCriteria st1 = ct_unfulfilled tr pc (ps_summary st1)"
        using 1(2) Suc.prems(6) weigh_from [of _ "ps_summary st"] by (auto simp: round_ok_def unfulfilled_plus)
      have run: "pop_rounds (Suc fuel) tr cid pc st w = pop_rounds fuel tr cid pc st1 w1"
        using found(1) 1(1) True by (simp add: pop_rounds.simps [of "Suc fuel"])
      show ?thesis
      proof (cases "ps_unexpectedException st1 \<or> ps_didTrim st1")
        case True
        then have "pop_rounds fuel tr cid pc st1 w1 = (Inr st1, w1)" by (auto simp: pop_rounds.simps [of fuel])
        moreover have "pop_done ca agent cid pc w1 refs1 S1 st1 w1 st1" by (rule pop_done_stop) (use 2 True in auto)
        ultimately show ?thesis using run pop_done_step [OF Suc.prems(2) 1(2)] by auto
      next
        case False
        then have "length refs1 < fuel" "ps_elementsToSkip st1 = {}" using 2(6) Suc.prems(5) by auto
        from Suc.IH [OF 2(1,4,2,3) this(1) crit _ 2(7,8)] this(2) show ?thesis
          unfolding run using pop_done_step [OF Suc.prems(2) 1(2)] by blast
      qed
    qed
  qed
qed simp

lemma popped_batch:
  assumes "avail cid ca w refs" "distinct (map fst refs)" "agent_owns w S" "agent = agentAddress w" "length refs < fuel"
  shows "\<exists>N s w' refs' S'. popNextBatch fuel tr cid pc w = (Inr (N, s), w') \<and> avail cid ca w' refs' \<and> agent_owns w' S'
    \<and> pop_effect key own ca agent w refs S w' refs' S' N \<and> s = weigh N (ct_none tr)
    \<and> (ct_less tr s pc \<longrightarrow> refs' = [] \<or> (\<exists>r \<in> set refs'. own w' r \<notin> {Some agent, Some ca}))"
proof -
  let ?st = "\<lparr>ps_elements = [], ps_summary = ct_none tr, ps_unfulfilledCriteria = pc, ps_elementsToSkip = {},
     ps_unexpectedException = False, ps_didTrim = False\<rparr>"
  from pop_rounds_ok [OF assms, of ?st pc] obtain w' st' where
    r: "pop_rounds fuel tr cid pc ?st w = (Inr st', w')" "pop_done ca agent cid pc w refs S ?st w' st'" by (auto simp: unfulfilled_none)
  from r(1) have "popNextBatch fuel tr cid pc w = (Inr (ps_elements st', ps_summary st'), w')" by (simp add: popNextBatch_def)
  with r(2) show ?thesis unfolding pop_done_def by auto
qed

end

end
