(* ===== verification/ArchiveQueueAlgorithms.thy ===== *)
theory ArchiveQueueAlgorithms
  imports Algorithms
begin

text \<open>
  \<open>objectstore/ArchiveQueueAlgorithms.hpp\<close> and the files \<open>ArchiveQueueTo*Algorithms.cpp\<close>: the traits of archive
  queues. A request object of the elements is given by its address. The loop of \<open>getLockedAndFetchedNoCreate\<close> has
  fuel; \<open>now\<close> is \<open>time(nullptr)\<close>.
\<close>

section \<open>Elements\<close>

record archive_inserted =
  ain_archiveRequest :: string
  ain_copyNb :: u32
  ain_archiveFile :: archive_file
  ain_mountPolicy :: "mount_policy option"
  ain_newStatus :: "ArchiveJobStatus option"

datatype archive_ReportType = NoReportRequired | CompletionReport | FailureReport | Report

record archive_popped =
  apo_archiveRequest :: string
  apo_copyNb :: u32
  apo_bytes :: u64
  apo_archiveFile :: archive_file
  apo_srcURL :: string
  apo_archiveReportURL :: string
  apo_errorReportURL :: string
  apo_latestError :: string
  apo_reportType :: archive_ReportType
  apo_repackInfo :: ar_RepackInfo
  apo_archiveJobsStatusMap :: "(u32, ArchiveJobStatus) std_map"

text \<open>The criterion and the summary of a queue to transfer; those of the other queues have the files only.\<close>

record pop_amount =
  pa_files :: u64
  pa_bytes :: u64

definition archive_file_default :: archive_file where
  "archive_file_default = \<lparr>af_archivefileid = 0, af_filesize = 0, af_diskfileid = '''', af_diskinstance = '''',
     af_diskfileinfo = \<lparr>dfi_owner_uid = 0, dfi_gid = 0, dfi_path = ''''\<rparr>, af_checksumblob = '''', af_creationtime = 0,
     af_tapefiles = [], af_reconciliationtime = 0, af_storageclass = ''''\<rparr>"

definition ar_empty :: archive_request where
  "ar_empty = \<lparr>ar_archivefileid = 0, ar_mountpolicy = mount_policy_default, ar_mountpolicyname = '''', ar_checksumblob = '''',
     ar_creationtime = 0, ar_reconcilationtime = 0, ar_diskfileinfo = af_diskfileinfo archive_file_default, ar_diskfileid = '''',
     ar_diskinstance = '''', ar_archivereporturl = '''', ar_archiveerrorreporturl = '''', ar_filesize = 0,
     ar_requester = \<lparr>ri_name = '''', ri_group = ''''\<rparr>, ar_srcurl = '''', ar_storageclass = '''',
     ar_creationlog = entry_log_default, ar_jobs = [], ar_reportdecided = False, ar_isrepack = False,
     ar_repack_info = \<lparr>arri_repack_request_address = '''', arri_file_buffer_url = '''', arri_fseq = 0, arri_jobs_destination = []\<rparr>,
     ar_isfailed = False\<rparr>"

definition ar_at :: "string \<Rightarrow> exn + archive_request oo" where
  "ar_at a = setAddress a (oo_new ar_empty)"

section \<open>The queue\<close>

definition aqt_getContainerSummary :: "archive_queue oo \<Rightarrow> exn + unit" where
  "aqt_getContainerSummary cont = rbind (aq_getJobsSummary cont) (\<lambda>_. Inr ())"

definition aqt_trimContainerIfNeeded :: "JobQueueType \<Rightarrow> string \<Rightarrow> archive_queue oo \<Rightarrow> (world, bool) prog" where
  "aqt_trimContainerIfNeeded queueType cId cont =
     bnd (liftr (aq_isEmpty cont)) (\<lambda>empty.
     if \<not> empty then ret False
     else bnd (attempt
            (bnd (liftr re_at) (\<lambda>re.
             bnd (exclusive_lock re) (\<lambda>re.
             bnd (oo_fetch re_c re) (\<lambda>re.
             re_removeArchiveQueueAndCommit cId queueType re))))) (\<lambda>_.
          ret True))"

definition aqt_getLockedAndFetched :: "JobQueueType \<Rightarrow> string \<Rightarrow> (world, archive_queue oo) prog" where
  "aqt_getLockedAndFetched queueType contId = getLockedAndFetchedArchiveQueue contId queueType (oo_new aq_empty)"

text \<open>The dereferencing of a queue that could not be locked or fetched; \<open>re\<close> is the root entry read before.\<close>

definition aqt_dereference_missing :: "JobQueueType \<Rightarrow> string \<Rightarrow> root_entry oo \<Rightarrow> (world, unit) prog" where
  "aqt_dereference_missing queueType cId re =
     bnd (exclusive_lock re) (\<lambda>re.
     bnd (oo_fetch re_c re) (\<lambda>re.
     caught (\<lambda>e. if e = ArchiveQueueNotEmpty \<or> e = NoSuchArchiveQueue then Some (ret ()) else None)
       (bnd (re_removeArchiveQueueAndCommit cId queueType re) (\<lambda>_. ret ()))))"

fun aqt_lock_no_create :: "nat \<Rightarrow> JobQueueType \<Rightarrow> string \<Rightarrow> archive_queue oo \<Rightarrow> (world, archive_queue oo) prog" where
  "aqt_lock_no_create fuel queueType cId cont =
     bnd (liftr re_at) (\<lambda>re.
     bnd (oo_fetchNoLock re_c re) (\<lambda>re.
     bnd (liftr (re_dumpArchiveQueues queueType re)) (\<lambda>aql.
     let aqAddress = fold (\<lambda>aqp a. if aqp_name aqp = cId then aqp_address aqp else a) aql ''''
     in if aqAddress = '''' then throw NoSuchContainer
        else bnd (liftr (setAddress aqAddress cont)) (\<lambda>cont.
             bnd (attempt (bnd (exclusive_lock cont) (oo_fetch aq_c))) (\<lambda>r. case r of
               Inr cont1 \<Rightarrow> ret cont1
             | Inl _ \<Rightarrow>
                 bnd (aqt_dereference_missing queueType cId re) (\<lambda>_.
                 bnd (liftr (resetAddress cont)) (\<lambda>cont.
                 case fuel of 0 \<Rightarrow> throw OutOfFuel
                 | Suc fuel' \<Rightarrow> aqt_lock_no_create fuel' queueType cId cont)))))))"

declare aqt_lock_no_create.simps [simp del]

definition aqt_getLockedAndFetchedNoCreate :: "nat \<Rightarrow> JobQueueType \<Rightarrow> string \<Rightarrow> (world, archive_queue oo) prog" where
  "aqt_getLockedAndFetchedNoCreate fuel queueType cId = aqt_lock_no_create fuel queueType cId (oo_new aq_empty)"

section \<open>References\<close>

text \<open>The status in the job dump is left uninitialised by the code and is read by nobody.\<close>

definition aqt_job_to_add :: "time_t \<Rightarrow> string \<Rightarrow> string \<Rightarrow> archive_inserted \<Rightarrow> archive_job_to_add" where
  "aqt_job_to_add now tapePool contAddress e =
     \<lparr>jta_job = \<lparr>arjd_copyNb = ain_copyNb e, arjd_tapePool = tapePool, arjd_owner = contAddress,
        arjd_status = AJS_ToTransferForUser\<rparr>,
      jta_archiveRequestAddress = ain_archiveRequest e, jta_archiveFileId = af_archivefileid (ain_archiveFile e),
      jta_fileSize = af_filesize (ain_archiveFile e),
      jta_policy = (case ain_mountPolicy e of Some mp \<Rightarrow> mp | None \<Rightarrow> mount_policy_default), jta_startTime = now\<rparr>"

definition aqt_jobs_to_add :: "time_t \<Rightarrow> archive_inserted list \<Rightarrow> archive_queue oo \<Rightarrow> exn + archive_job_to_add list" where
  "aqt_jobs_to_add now elems cont =
     foldR (\<lambda>jobs e. rbind (aq_getTapePool cont) (\<lambda>tp. rbind (getAddressIfSet cont) (\<lambda>a.
       Inr (jobs @ [aqt_job_to_add now tp a e])))) [] elems"

definition aqt_addReferencesAndCommit :: "time_t \<Rightarrow> archive_inserted list \<Rightarrow> archive_queue oo \<Rightarrow> (world, archive_queue oo) prog" where
  "aqt_addReferencesAndCommit now elems cont =
     bnd (liftr (aqt_jobs_to_add now elems cont)) (\<lambda>jobsToAdd. aq_addJobsAndCommit jobsToAdd cont)"

definition aqt_addReferencesIfNecessaryAndCommit ::
  "time_t \<Rightarrow> archive_inserted list \<Rightarrow> archive_queue oo \<Rightarrow> (world, archive_queue oo) prog" where
  "aqt_addReferencesIfNecessaryAndCommit now elems cont =
     bnd (liftr (aqt_jobs_to_add now elems cont)) (\<lambda>jobsToAdd.
     bnd (aq_addJobsIfNecessaryAndCommit jobsToAdd cont) (\<lambda>(summary, cont). ret cont))"

section \<open>Ownership\<close>

definition aqt_switch_inserted :: "string \<Rightarrow> string \<Rightarrow> archive_inserted \<Rightarrow> (world, archive_inserted) prog" where
  "aqt_switch_inserted contAddress previousOwnerAddress e =
     bnd (liftr (ar_at (ain_archiveRequest e))) (\<lambda>ar.
     bnd (ar_asyncUpdateJobOwner (ain_copyNb e) contAddress previousOwnerAddress (ain_newStatus e) ar) (\<lambda>_. ret e))"

text \<open>What the popped element takes over from the updater.\<close>

definition aqt_fill_popped :: "ar_JobOwnerUpdater \<Rightarrow> archive_popped \<Rightarrow> archive_popped" where
  "aqt_fill_popped u e =
     (let e1 = e\<lparr>apo_archiveFile := ajou_archiveFile u, apo_archiveReportURL := ajou_archiveReportURL u,
                 apo_errorReportURL := ajou_archiveErrorReportURL u, apo_srcURL := ajou_srcURL u,
                 apo_repackInfo := ajou_repackInfo u, apo_archiveJobsStatusMap := ajou_jobsStatusMap u\<rparr>
      in case smap_get (apo_copyNb e) (ajou_jobsStatusMap u) of
           Some AJS_ToReportToUserForTransfer \<Rightarrow> e1\<lparr>apo_reportType := CompletionReport\<rparr>
         | Some AJS_ToReportToUserForFailure \<Rightarrow> e1\<lparr>apo_reportType := FailureReport, apo_latestError := ajou_latestError u\<rparr>
         | _ \<Rightarrow> e1\<lparr>apo_reportType := NoReportRequired\<rparr>)"

definition aqt_switch_popped :: "string \<Rightarrow> string \<Rightarrow> archive_popped \<Rightarrow> (world, archive_popped) prog" where
  "aqt_switch_popped contAddress previousOwnerAddress e =
     bnd (liftr (ar_at (apo_archiveRequest e))) (\<lambda>ar.
     bnd (ar_asyncUpdateJobOwner (apo_copyNb e) contAddress previousOwnerAddress None ar) (\<lambda>u.
     ret (case u of None \<Rightarrow> e | Some u \<Rightarrow> aqt_fill_popped u e)))"

section \<open>Candidates\<close>

definition aqt_popped_of :: "archive_ReportType \<Rightarrow> archive_job_dump \<Rightarrow> archive_popped" where
  "aqt_popped_of reportType cjfq =
     \<lparr>apo_archiveRequest = ajd_address cjfq, apo_copyNb = ajd_copyNb cjfq, apo_bytes = ajd_size cjfq,
      apo_archiveFile = archive_file_default, apo_srcURL = '''', apo_archiveReportURL = '''', apo_errorReportURL = '''',
      apo_latestError = '''', apo_reportType = reportType, apo_repackInfo = ar_RepackInfo_init, apo_archiveJobsStatusMap = []\<rparr>"

definition aqt_candidates_to_transfer ::
  "pop_amount \<Rightarrow> string set \<Rightarrow> archive_queue oo \<Rightarrow> (world, (archive_popped list \<times> pop_amount) \<times> archive_queue oo) prog" where
  "aqt_candidates_to_transfer unfulfilledCriteria elemtsToSkip cont =
     bnd (aq_getCandidateList (pa_bytes unfulfilledCriteria) (pa_files unfulfilledCriteria) elemtsToSkip cont) (\<lambda>r.
     ret (fold (\<lambda>cjfq (es, s). (es @ [aqt_popped_of NoReportRequired cjfq],
                                s\<lparr>pa_bytes := pa_bytes s + ajd_size cjfq, pa_files := pa_files s + 1\<rparr>))
            (cjl_candidates r) ([], \<lparr>pa_files = 0, pa_bytes = 0\<rparr>), cont))"

definition aqt_candidates_to_transfer_for_repack ::
  "pop_amount \<Rightarrow> string set \<Rightarrow> archive_queue oo \<Rightarrow> (world, (archive_popped list \<times> pop_amount) \<times> archive_queue oo) prog" where
  "aqt_candidates_to_transfer_for_repack unfulfilledCriteria elemtsToSkip cont =
     bnd (aq_getCandidateList (- 1) (pa_files unfulfilledCriteria) elemtsToSkip cont) (\<lambda>r.
     ret (fold (\<lambda>cjfq (es, s). (es @ [aqt_popped_of Report cjfq], s\<lparr>pa_files := pa_files s + 1\<rparr>))
            (cjl_candidates r) ([], \<lparr>pa_files = 0, pa_bytes = 0\<rparr>), cont))"

text \<open>The same code in the three kinds of queues to report.\<close>

definition aqt_candidates_to_report ::
  "u64 \<Rightarrow> string set \<Rightarrow> archive_queue oo \<Rightarrow> (world, (archive_popped list \<times> u64) \<times> archive_queue oo) prog" where
  "aqt_candidates_to_report unfulfilledCriteria elemtsToSkip cont =
     bnd (aq_getCandidateList (- 1) unfulfilledCriteria elemtsToSkip cont) (\<lambda>r.
     ret (fold (\<lambda>cjfq (es, files). (es @ [aqt_popped_of Report cjfq], files + 1)) (cjl_candidates r) ([], 0), cont))"

section \<open>Amounts\<close>

text \<open>\<open>operator<\<close> holds only when both amounts are below the criterion.\<close>

definition pa_less :: "pop_amount \<Rightarrow> pop_amount \<Rightarrow> bool" where
  "pa_less s pc \<longleftrightarrow> pa_bytes s < pa_bytes pc \<and> pa_files s < pa_files pc"

definition pa_plus :: "pop_amount \<Rightarrow> pop_amount \<Rightarrow> pop_amount" where
  "pa_plus s other = \<lparr>pa_files = pa_files s + pa_files other, pa_bytes = pa_bytes s + pa_bytes other\<rparr>"

definition pa_minus :: "pop_amount \<Rightarrow> pop_amount \<Rightarrow> pop_amount" where
  "pa_minus s other = \<lparr>pa_files = pa_files s - pa_files other, pa_bytes = pa_bytes s - pa_bytes other\<rparr>"

definition aqt_getElementSummary_to_transfer :: "archive_popped \<Rightarrow> pop_amount" where
  "aqt_getElementSummary_to_transfer e = \<lparr>pa_files = 1, pa_bytes = apo_bytes e\<rparr>"

section \<open>The traits\<close>

definition aqt_base ::
  "nat \<Rightarrow> time_t \<Rightarrow> JobQueueType \<Rightarrow> (archive_popped \<Rightarrow> 'a)
   \<Rightarrow> ('a \<Rightarrow> string set \<Rightarrow> archive_queue oo \<Rightarrow> (world, (archive_popped list \<times> 'a) \<times> archive_queue oo) prog)
   \<Rightarrow> 'a \<Rightarrow> ('a \<Rightarrow> 'a \<Rightarrow> bool) \<Rightarrow> ('a \<Rightarrow> 'a \<Rightarrow> 'a) \<Rightarrow> ('a \<Rightarrow> 'a \<Rightarrow> 'a)
   \<Rightarrow> (string, archive_queue, archive_inserted, archive_popped, 'a, 'a) container_traits" where
  "aqt_base fuel now queueType summary candidates noneYet below add sub =
     \<lparr>ct_getContainerSummary = aqt_getContainerSummary,
      ct_trimContainerIfNeeded = aqt_trimContainerIfNeeded queueType,
      ct_getLockedAndFetched = aqt_getLockedAndFetched queueType,
      ct_getLockedAndFetchedNoCreate = aqt_getLockedAndFetchedNoCreate fuel queueType,
      ct_fetch = oo_fetch aq_c,
      ct_addReferencesAndCommit = aqt_addReferencesAndCommit now,
      ct_addReferencesIfNecessaryAndCommit = aqt_addReferencesIfNecessaryAndCommit now,
      ct_removeReferencesAndCommit = aq_removeJobsAndCommit,
      ct_switchElement = aqt_switch_inserted,
      ct_switchPopped = aqt_switch_popped,
      ct_getElementAddress = ain_archiveRequest,
      ct_getPoppedAddress = apo_archiveRequest,
      ct_getElementSummary = summary,
      ct_getPoppingElementsCandidates = candidates,
      ct_none = noneYet, ct_less = below, ct_plus = add, ct_minus = sub, ct_unfulfilled = sub\<rparr>"

definition ArchiveQueueToTransferForUser ::
  "nat \<Rightarrow> time_t \<Rightarrow> (string, archive_queue, archive_inserted, archive_popped, pop_amount, pop_amount) container_traits" where
  "ArchiveQueueToTransferForUser fuel now =
     aqt_base fuel now JobsToTransferForUser aqt_getElementSummary_to_transfer aqt_candidates_to_transfer
       \<lparr>pa_files = 0, pa_bytes = 0\<rparr> pa_less pa_plus pa_minus"

definition ArchiveQueueToTransferForRepack ::
  "nat \<Rightarrow> time_t \<Rightarrow> (string, archive_queue, archive_inserted, archive_popped, pop_amount, pop_amount) container_traits" where
  "ArchiveQueueToTransferForRepack fuel now =
     aqt_base fuel now JobsToTransferForRepack (\<lambda>e. \<lparr>pa_files = 1, pa_bytes = 0\<rparr>) aqt_candidates_to_transfer_for_repack
       \<lparr>pa_files = 0, pa_bytes = 0\<rparr> pa_less pa_plus pa_minus"

text \<open>
  The queues to report: \<open>ArchiveQueueToReportForUser\<close>, \<open>ArchiveQueueToReportToRepackForSuccess\<close> and
  \<open>ArchiveQueueToReportToRepackForFailure\<close>. \<open>ArchiveQueueFailed\<close> has the same traits, without
  \<open>getPoppingElementsCandidates\<close>: nothing pops from it.
\<close>

definition ArchiveQueueToReport ::
  "nat \<Rightarrow> time_t \<Rightarrow> JobQueueType \<Rightarrow> (string, archive_queue, archive_inserted, archive_popped, u64, u64) container_traits" where
  "ArchiveQueueToReport fuel now queueType =
     aqt_base fuel now queueType (\<lambda>e. 1) aqt_candidates_to_report 0 (<) (+) (-)"

end
