(* ===== verification/ArchiveContainer.thy ===== *)
theory ArchiveContainer
  imports ContainerSpec ArchiveQueueAlgorithms HelpersProperties
begin

text \<open>The archive queues keep the laws of containers: the interpretations of the locales of \<open>ContainerSpec\<close>.\<close>

section \<open>The owner of a job\<close>

definition ar_owner_of :: "world \<Rightarrow> string \<Rightarrow> u32 \<Rightarrow> string option" where
  "ar_owner_of w a c = (if a = '''' then None else case objects w a of
     Some h \<Rightarrow> (case oh_payload h of
       Payload_ArchiveRequest p \<Rightarrow> map_option aj_owner (find (\<lambda>j. aj_copynb j = c) (ar_jobs p)) | _ \<Rightarrow> None)
   | None \<Rightarrow> None)"

abbreviation "archive_job_owner w r \<equiv> ar_owner_of w (fst r) (snd r)"
abbreviation "inserted_key e \<equiv> (ain_archiveRequest e, ain_copyNb e)"
abbreviation "popped_key e \<equiv> (apo_archiveRequest e, apo_copyNb e)"
abbreviation "pointer_key j \<equiv> (ajp_address j, ajp_copynb j)"

lemma find_conv_index: "find P xs = (if find_index P xs < length xs then Some (xs ! find_index P xs) else None)"
  by (induction xs) auto

lemma find_index_updated: "i = find_index P xs \<Longrightarrow> i < length xs \<Longrightarrow> P x \<Longrightarrow> find_index P (xs[i := x]) = i"
  by (induction xs arbitrary: i) (auto split: if_splits)

lemma ar_owner_of_kept: "keeps is_request w w' \<Longrightarrow> ar_owner_of w' a c = ar_owner_of w a c"
proof -
  assume k: "keeps is_request w w'"
  have *: "objects w' a = Some h \<longleftrightarrow> objects w a = Some h" if "oh_payload h = Payload_ArchiveRequest p" for h p
    using k that by (auto simp: keeps_def is_request_def)
  show ?thesis
  proof (cases "\<exists>h p. objects w a = Some h \<and> oh_payload h = Payload_ArchiveRequest p")
    case True
    then obtain h p where h: "objects w a = Some h" "oh_payload h = Payload_ArchiveRequest p" by blast
    with * [OF h(2)] show ?thesis by (simp add: ar_owner_of_def)
  next
    case False
    with * have "\<not> (\<exists>h p. objects w' a = Some h \<and> oh_payload h = Payload_ArchiveRequest p)" by blast
    with False show ?thesis by (auto simp: ar_owner_of_def split: option.split payload.split)
  qed
qed

lemma ar_change_owner_owned:
  "aj_owner j \<in> {owner, previousOwner} \<Longrightarrow> \<exists>j'. ar_change_owner owner previousOwner st j = Inr j' \<and> aj_owner j' = owner \<and> aj_copynb j' = aj_copynb j"
  by (auto simp: ar_change_owner_def split: option.split)

lemma ar_owner_switch:
  assumes "ar_owner_of w a c \<in> {Some new, Some prev}"
  shows "\<exists>u h p. bnd (liftr (ar_at a)) (ar_asyncUpdateJobOwner c new prev st) w
      = (Inr (Some u), w\<lparr>objects := (objects w)(a \<mapsto> h), lockFiles := (lockFiles w)(a := True)\<rparr>)
    \<and> oh_payload h = Payload_ArchiveRequest p \<and> (\<exists>h p. objects w a = Some h \<and> oh_payload h = Payload_ArchiveRequest p)
    \<and> a \<noteq> '''' \<and> map_option aj_owner (find (\<lambda>j. aj_copynb j = c) (ar_jobs p)) = Some new"
proof -
  obtain h p where hp: "a \<noteq> ''''" "objects w a = Some h" "oh_payload h = Payload_ArchiveRequest p"
    and own: "map_option aj_owner (find (\<lambda>j. aj_copynb j = c) (ar_jobs p)) \<in> {Some new, Some prev}"
    using assms by (auto simp: ar_owner_of_def split: if_splits option.splits payload.splits)
  define i where "i = find_index (\<lambda>j. aj_copynb j = c) (ar_jobs p)"
  have i: "i < length (ar_jobs p)" "aj_owner (ar_jobs p ! i) \<in> {new, prev}" "aj_copynb (ar_jobs p ! i) = c"
    using own find_index_nth [of "\<lambda>j. aj_copynb j = c" "ar_jobs p"]
    by (auto simp: find_conv_index i_def split: if_splits)
  obtain j' where j': "ar_change_owner new prev st (ar_jobs p ! i) = Inr j'" "aj_owner j' = new" "aj_copynb j' = c"
    using ar_change_owner_owned [OF i(2)] i(3) by metis
  let ?p = "p\<lparr>ar_jobs := (ar_jobs p)[i := j']\<rparr>"
  let ?h = "ar_reserialize ?p h"
  have upd: "ar_update_owner c new prev st h = Inr (?h, ar_owner_report ?p j')"
    using hp(3) i(1) j'(1) by (simp add: ar_update_owner_def ar_parse_def archive_request_codec_def Let_def i_def [symmetric])
  have "vfs_asyncUpdate a (ar_update_owner c new prev st) w
      = (Inr (Some (ar_owner_report ?p j')), w\<lparr>objects := (objects w)(a \<mapsto> ?h), lockFiles := (lockFiles w)(a := True)\<rparr>)"
    using hp(2) upd by (cases "lockFiles w a") (auto simp: vfs_asyncUpdate_def vfs_defs rethrow_as_def fun_upd_idem)
  moreover have "find_index (\<lambda>j. aj_copynb j = c) ((ar_jobs p)[i := j']) = i"
    using find_index_updated [OF i_def i(1)] j'(3) by simp
  then have "find (\<lambda>j. aj_copynb j = c) (ar_jobs ?p) = Some j'" using i(1) by (simp add: find_conv_index)
  ultimately show ?thesis using hp j'(2)
    by (intro exI [of _ "ar_owner_report ?p j'"] exI [of _ ?h] exI [of _ ?p])
      (simp add: ar_at_def setAddress_new ar_asyncUpdateJobOwner_def getAddressIfSet_def ar_reserialize_def archive_request_codec_def)
qed

lemma ar_owner_refused:
  assumes "ar_owner_of w a c \<notin> {Some new, Some prev}"
  shows "\<exists>x l. bnd (liftr (ar_at a)) (ar_asyncUpdateJobOwner c new prev st) w = (Inl x, w\<lparr>lockFiles := l\<rparr>)
    \<and> is_cta_exception x \<and> x \<noteq> CouldNotUnlock \<and> (\<forall>b. lockFiles w b \<longrightarrow> l b)"
proof (cases "a = ''''")
  case True
  then show ?thesis
    by (intro exI [of _ InvalidAddress] exI [of _ "lockFiles w"]) (simp add: ar_at_def setAddress_def oo_new_def is_cta_exception_def)
next
  case False
  then have run: "bnd (liftr (ar_at a)) (ar_asyncUpdateJobOwner c new prev st) w = vfs_asyncUpdate a (ar_update_owner c new prev st) w"
    by (simp add: ar_at_def setAddress_new ar_asyncUpdateJobOwner_def getAddressIfSet_def)
  show ?thesis
  proof (cases "objects w a")
    case None
    then show ?thesis unfolding run
      by (cases "lockFiles w a") (auto simp: vfs_asyncUpdate_def vfs_defs rethrow_as_def is_cta_exception_def intro: exI [of _ "lockFiles w"])
  next
    case (Some h)
    have "\<exists>x. ar_update_owner c new prev st h = Inl x \<and> (x = WrongPreviousOwner \<or> (\<exists>s. x = CtaException s))"
      using assms False Some
      by (auto simp: nat_less_le ar_update_owner_def ar_parse_def archive_request_codec_def ar_owner_of_def Let_def find_conv_index
          ar_change_owner_def split: payload.splits)
    then obtain x where x: "ar_update_owner c new prev st h = Inl x" "x = WrongPreviousOwner \<or> (\<exists>s. x = CtaException s)" by blast
    have "vfs_asyncUpdate a (ar_update_owner c new prev st) w = (Inl x, w\<lparr>lockFiles := (lockFiles w)(a := True)\<rparr>)"
      using x Some by (cases "lockFiles w a") (auto simp: vfs_asyncUpdate_def vfs_defs rethrow_as_def fun_upd_idem)
    with x(2) show ?thesis unfolding run
      by (intro exI [of _ x] exI [of _ "(lockFiles w)(a := True)"]) (auto simp: is_cta_exception_def)
  qed
qed

lemma request_update_keeps:
  assumes "oh_payload h = Payload_ArchiveRequest p" and "\<exists>h p. objects w a = Some h \<and> oh_payload h = Payload_ArchiveRequest p"
  shows "keeps (\<lambda>p. \<not> is_request p) w (w\<lparr>objects := (objects w)(a \<mapsto> h), lockFiles := (lockFiles w)(a := True)\<rparr>)"
  by (rule same_except_keeps [of "{a}"]) (use assms in \<open>auto simp: same_except_def is_request_def\<close>)

lemma ar_owner_of_update:
  assumes "oh_payload h = Payload_ArchiveRequest p" and "a \<noteq> ''''"
    and "map_option aj_owner (find (\<lambda>j. aj_copynb j = c) (ar_jobs p)) = Some new"
  shows "ar_owner_of (w\<lparr>objects := (objects w)(a \<mapsto> h), lockFiles := l\<rparr>) a c = Some new"
    and "b \<noteq> a \<Longrightarrow> ar_owner_of (w\<lparr>objects := (objects w)(a \<mapsto> h), lockFiles := l\<rparr>) b d = ar_owner_of w b d"
  using assms by (simp_all add: ar_owner_of_def)

lemma locks_only_keeps: "(\<forall>b. lockFiles w b \<longrightarrow> l b) \<Longrightarrow> keeps K w (w\<lparr>lockFiles := l\<rparr>)"
  by (simp add: keeps_def)

lemma ar_owner_of_locks [simp]: "ar_owner_of (w\<lparr>lockFiles := l\<rparr>) a c = ar_owner_of w a c"
  by (simp add: ar_owner_of_def)

lemma aqt_switch_inserted_run:
  assumes "bnd (liftr (ar_at (ain_archiveRequest e))) (ar_asyncUpdateJobOwner (ain_copyNb e) new prev (ain_newStatus e)) w = (r, w')"
  shows "aqt_switch_inserted new prev e w = (case r of Inl x \<Rightarrow> Inl x | Inr _ \<Rightarrow> Inr e, w')"
proof -
  have "aqt_switch_inserted new prev e
      = bnd (bnd (liftr (ar_at (ain_archiveRequest e))) (ar_asyncUpdateJobOwner (ain_copyNb e) new prev (ain_newStatus e))) (\<lambda>_. ret e)"
    by (simp add: aqt_switch_inserted_def bnd_assoc)
  then show ?thesis using assms by (cases r) simp_all
qed

lemma aqt_switch_popped_run:
  assumes "bnd (liftr (ar_at (apo_archiveRequest e))) (ar_asyncUpdateJobOwner (apo_copyNb e) new prev None) w = (r, w')"
  shows "aqt_switch_popped new prev e w = (case r of Inl x \<Rightarrow> Inl x | Inr u \<Rightarrow> Inr (case u of None \<Rightarrow> e | Some u \<Rightarrow> aqt_fill_popped u e), w')"
proof -
  have "aqt_switch_popped new prev e
      = bnd (bnd (liftr (ar_at (apo_archiveRequest e))) (ar_asyncUpdateJobOwner (apo_copyNb e) new prev None))
          (\<lambda>u. ret (case u of None \<Rightarrow> e | Some u \<Rightarrow> aqt_fill_popped u e))"
    by (simp add: aqt_switch_popped_def bnd_assoc)
  then show ?thesis using assms by (cases r) simp_all
qed

lemma aqt_fill_popped_same [simp]: "apo_archiveRequest (aqt_fill_popped u e) = apo_archiveRequest e" "apo_copyNb (aqt_fill_popped u e) = apo_copyNb e"
  by (auto simp: aqt_fill_popped_def Let_def split: option.split ArchiveJobStatus.split)

lemma aqt_fill_popped_bytes [simp]: "apo_bytes (aqt_fill_popped u e) = apo_bytes e"
  by (auto simp: aqt_fill_popped_def Let_def split: option.split ArchiveJobStatus.split)

interpretation inserted: job_ownership aqt_switch_inserted inserted_key archive_job_owner "\<lambda>_. ()"
proof
  fix w and e :: archive_inserted and new prev assume own: "archive_job_owner w (inserted_key e) \<in> {Some new, Some prev}"
  obtain u h p where s: "bnd (liftr (ar_at (ain_archiveRequest e))) (ar_asyncUpdateJobOwner (ain_copyNb e) new prev (ain_newStatus e)) w
      = (Inr (Some u), w\<lparr>objects := (objects w)(ain_archiveRequest e \<mapsto> h), lockFiles := (lockFiles w)(ain_archiveRequest e := True)\<rparr>)"
    "oh_payload h = Payload_ArchiveRequest p" "\<exists>h p. objects w (ain_archiveRequest e) = Some h \<and> oh_payload h = Payload_ArchiveRequest p"
    "ain_archiveRequest e \<noteq> ''''" "map_option aj_owner (find (\<lambda>j. aj_copynb j = ain_copyNb e) (ar_jobs p)) = Some new"
    using ar_owner_switch [OF own [unfolded fst_conv snd_conv], of "ain_newStatus e"] by (elim exE conjE) blast
  show "\<exists>e' w'. aqt_switch_inserted new prev e w = (Inr e', w') \<and> inserted_key e' = inserted_key e \<and> () = ()
      \<and> archive_job_owner w' (inserted_key e) = Some new
      \<and> (\<forall>r. fst r \<noteq> fst (inserted_key e) \<longrightarrow> archive_job_owner w' r = archive_job_owner w r) \<and> keeps (\<lambda>p. \<not> is_request p) w w'"
    unfolding aqt_switch_inserted_run [OF s(1)]
    using ar_owner_of_update [OF s(2,4,5)] request_update_keeps [OF s(2,3)] by simp
next
  fix w and e :: archive_inserted and new prev assume own: "archive_job_owner w (inserted_key e) \<notin> {Some new, Some prev}"
  obtain x l where s: "bnd (liftr (ar_at (ain_archiveRequest e))) (ar_asyncUpdateJobOwner (ain_copyNb e) new prev (ain_newStatus e)) w
      = (Inl x, w\<lparr>lockFiles := l\<rparr>)" "is_cta_exception x" "x \<noteq> CouldNotUnlock" "\<forall>b. lockFiles w b \<longrightarrow> l b"
    using ar_owner_refused [of w "ain_archiveRequest e" "ain_copyNb e" new prev "ain_newStatus e"] own by auto
  show "\<exists>x w'. aqt_switch_inserted new prev e w = (Inl x, w') \<and> is_cta_exception x \<and> x \<noteq> CouldNotUnlock
      \<and> (\<forall>r. archive_job_owner w' r = archive_job_owner w r) \<and> keeps (\<lambda>p. \<not> is_request p) w w'"
    unfolding aqt_switch_inserted_run [OF s(1)] using s(2,3) locks_only_keeps [OF s(4)] by simp
qed (rule ar_owner_of_kept)

interpretation popped: job_ownership aqt_switch_popped popped_key archive_job_owner apo_bytes
proof
  fix w and e :: archive_popped and new prev assume own: "archive_job_owner w (popped_key e) \<in> {Some new, Some prev}"
  obtain u h p where s: "bnd (liftr (ar_at (apo_archiveRequest e))) (ar_asyncUpdateJobOwner (apo_copyNb e) new prev None) w
      = (Inr (Some u), w\<lparr>objects := (objects w)(apo_archiveRequest e \<mapsto> h), lockFiles := (lockFiles w)(apo_archiveRequest e := True)\<rparr>)"
    "oh_payload h = Payload_ArchiveRequest p" "\<exists>h p. objects w (apo_archiveRequest e) = Some h \<and> oh_payload h = Payload_ArchiveRequest p"
    "apo_archiveRequest e \<noteq> ''''" "map_option aj_owner (find (\<lambda>j. aj_copynb j = apo_copyNb e) (ar_jobs p)) = Some new"
    using ar_owner_switch [OF own [unfolded fst_conv snd_conv], of None] by (elim exE conjE) blast
  show "\<exists>e' w'. aqt_switch_popped new prev e w = (Inr e', w') \<and> popped_key e' = popped_key e \<and> apo_bytes e' = apo_bytes e
      \<and> archive_job_owner w' (popped_key e) = Some new
      \<and> (\<forall>r. fst r \<noteq> fst (popped_key e) \<longrightarrow> archive_job_owner w' r = archive_job_owner w r) \<and> keeps (\<lambda>p. \<not> is_request p) w w'"
    unfolding aqt_switch_popped_run [OF s(1)]
    using ar_owner_of_update [OF s(2,4,5)] request_update_keeps [OF s(2,3)] by simp
next
  fix w and e :: archive_popped and new prev assume own: "archive_job_owner w (popped_key e) \<notin> {Some new, Some prev}"
  obtain x l where s: "bnd (liftr (ar_at (apo_archiveRequest e))) (ar_asyncUpdateJobOwner (apo_copyNb e) new prev None) w
      = (Inl x, w\<lparr>lockFiles := l\<rparr>)" "is_cta_exception x" "x \<noteq> CouldNotUnlock" "\<forall>b. lockFiles w b \<longrightarrow> l b"
    using ar_owner_refused [of w "apo_archiveRequest e" "apo_copyNb e" new prev None] own by auto
  show "\<exists>x w'. aqt_switch_popped new prev e w = (Inl x, w') \<and> is_cta_exception x \<and> x \<noteq> CouldNotUnlock
      \<and> (\<forall>r. archive_job_owner w' r = archive_job_owner w r) \<and> keeps (\<lambda>p. \<not> is_request p) w w'"
    unfolding aqt_switch_popped_run [OF s(1)] using s(2,3) locks_only_keeps [OF s(4)] by simp
qed (rule ar_owner_of_kept)

section \<open>The queue\<close>

definition aq_listed :: "JobQueueType \<Rightarrow> string \<Rightarrow> world \<Rightarrow> string option \<Rightarrow> bool" where
  "aq_listed qt tp w a \<longleftrightarrow> (\<exists>r. stored re_c w re_address r \<and> distinct (map aqp_name (archiveQueuePointers qt r))
     \<and> archive_queue_of r qt tp = a)"

definition aq_held :: "JobQueueType \<Rightarrow> string \<Rightarrow> world \<Rightarrow> archive_queue oo \<Rightarrow> aq_view \<Rightarrow> bool" where
  "aq_held qt tp w cont v \<longleftrightarrow> aq_inv w cont v \<and> objects w (oo_name cont) = Some (oo_header aq_c cont)
     \<and> aq_listed qt tp w (Some (oo_name cont))"

definition aq_references :: "JobQueueType \<Rightarrow> string \<Rightarrow> world \<Rightarrow> archive_queue oo \<Rightarrow> job_ref list \<Rightarrow> bool" where
  "aq_references qt tp w cont refs \<longleftrightarrow> (\<exists>v. aq_held qt tp w cont v \<and> refs = map (\<lambda>j. pointer_key j) (view_jobs v))"

text \<open>
  The queue of the tape pool with its references: stored and listed, or listed but gone, or not listed; in the
  last two cases there are no references.
\<close>

definition aq_reach :: "JobQueueType \<Rightarrow> string \<Rightarrow> world \<Rightarrow> job_ref list \<Rightarrow> bool" where
  "aq_reach qt tp w refs \<longleftrightarrow>
     (\<exists>a p v. aq_listed qt tp w (Some a) \<and> stored aq_c w a p \<and> aq_rep p v \<and> aq_store w v \<and> refs = map (\<lambda>j. pointer_key j) (view_jobs v))
   \<or> (\<exists>a. aq_listed qt tp w (Some a) \<and> missing w a \<and> \<not> lockFiles w a \<and> refs = [])
   \<or> aq_listed qt tp w None \<and> refs = []"

lemma container_payloads [simp]:
  "is_container (enc aq_c q)" "is_container (enc aqs_c s)" "is_container (enc re_c r)"
  by (simp_all add: is_container_def is_request_def is_agent_def codec_defs)

lemma aq_listed_kept: "aq_listed qt tp w a \<Longrightarrow> keeps_containers w w' \<Longrightarrow> aq_listed qt tp w' a"
  using keeps_stored [where c = re_c and K = is_container] by (fastforce simp: aq_listed_def)

lemma aq_held_kept:
  assumes h: "aq_held qt tp w cont v" and k: "keeps_containers w w'"
  shows "aq_held qt tp w' cont v"
proof -
  have inv: "held cont" "vfs_exists (oo_name cont) w" "oo_name cont \<notin> fst ` set v" "aq_rep (oo_payload cont) v" "aq_store w v"
    and obj: "objects w (oo_name cont) = Some (oo_header aq_c cont)" and l: "aq_listed qt tp w (Some (oo_name cont))"
    using h by (simp_all add: aq_held_def aq_inv_def queue_ready_def)
  have "is_container (oh_payload (oo_header aq_c cont))" by (simp add: oo_header_def)
  then have obj': "objects w' (oo_name cont) = Some (oo_header aq_c cont)" "lockFiles w' (oo_name cont)"
    using k obj inv(2) by (simp_all add: keeps_def vfs_exists_def)
  have "aq_store w' v" using inv(5) keeps_stored [OF k, where c = aqs_c] by (fastforce simp: aq_store_def)
  with inv obj' aq_listed_kept [OF l k] show ?thesis by (simp add: aq_held_def aq_inv_def queue_ready_def vfs_exists_def)
qed

lemma aq_held_footprint:
  assumes "aq_inv w cont v" "objects w (oo_name cont) = Some (oo_header aq_c cont)"
    and "a \<in> insert (oo_name cont) (fst ` set v)" "objects w a = Some h"
  shows "is_container (oh_payload h)" and "\<forall>r. oh_payload h \<noteq> enc re_c r"
  using assms by (auto simp: aq_inv_def aq_store_def oo_header_def stored_def is_container_def is_request_def is_agent_def codec_defs)

lemma aq_held_reach:
  assumes "aq_held qt tp w cont v"
  shows "aq_reach qt tp w (map (\<lambda>j. pointer_key j) (view_jobs v))"
proof -
  have "stored aq_c w (oo_name cont) (oo_payload cont)"
    by (rule stored_header) (use assms in \<open>auto simp: aq_held_def aq_inv_def queue_ready_def held_def vfs_exists_def\<close>)
  with assms show ?thesis unfolding aq_reach_def aq_held_def aq_inv_def by blast
qed

lemma aq_held_stored:
  assumes "stored aq_c w a p" "aq_rep p v" "aq_store w v" "aq_listed qt tp w (Some a)"
    and "held cont" "oo_name cont = a" "oo_payload cont = p" "objects w a = Some (oo_header aq_c cont)"
  shows "aq_held qt tp w cont v"
proof -
  have "a \<notin> fst ` set v" using assms(1,3) by (auto simp: aq_store_def stored_def codec_defs)
  with assms storedD [OF assms(1)] show ?thesis by (simp add: aq_held_def aq_inv_def queue_ready_def vfs_exists_def)
qed

text \<open>A change to the queue and its shards only, with the root entry left alone.\<close>

lemma aq_change_keeps:
  assumes h: "aq_held qt tp w cont v" and inv': "aq_inv w' cont' v'" and name: "oo_name cont' = oo_name cont"
    and obj': "objects w' (oo_name cont) = Some (oo_header aq_c cont')"
    and same: "same_except S w w'" and new: "\<And>a. a \<in> S \<Longrightarrow> a \<in> insert (oo_name cont) (fst ` set v) \<or> objects w a = None"
    and gone: "\<And>a. a \<in> S \<Longrightarrow> a \<in> insert (oo_name cont) (fst ` set v') \<or> objects w' a = None"
  shows "aq_held qt tp w' cont' v'" and "keeps_items w w'"
proof -
  have inv: "aq_inv w cont v" and obj: "objects w (oo_name cont) = Some (oo_header aq_c cont)" and l: "aq_listed qt tp w (Some (oo_name cont))"
    using h by (simp_all add: aq_held_def)
  have obj'': "objects w' (oo_name cont') = Some (oo_header aq_c cont')" using obj' name by simp
  have "re_address \<notin> S"
  proof
    assume s: "re_address \<in> S"
    obtain hd r where "objects w re_address = Some hd" "oh_payload hd = enc re_c r" using l by (auto simp: aq_listed_def stored_def)
    with new [OF s] aq_held_footprint(2) [OF inv obj] show False by auto
  qed
  then have "objects w' re_address = objects w re_address" "lockFiles w' re_address = lockFiles w re_address"
    using same_exceptD [OF same] by simp_all
  then have "aq_listed qt tp w' (Some (oo_name cont))" using l by (simp add: aq_listed_def stored_def)
  with inv' obj'' name show "aq_held qt tp w' cont' v'" by (simp add: aq_held_def)
  have "\<not> \<not> is_container (oh_payload hd)" if "a \<in> S" "objects w a = Some hd" for a hd
    using new [OF that(1)] that(2) aq_held_footprint(1) [OF inv obj, of a hd] by auto
  moreover have "\<not> \<not> is_container (oh_payload hd)" if "a \<in> S" "objects w' a = Some hd" for a hd
    using gone [OF that(1)] that(2) aq_held_footprint(1) [OF inv' obj'', of a hd] name by auto
  ultimately show "keeps_items w w'" by (rule same_except_keeps [OF same])
qed

section \<open>The operations\<close>

lemma aq_obtained:
  assumes "aq_reach qt tp w refs" and fresh: "fresh_ids w (Suc k)" "Suc k \<le> 2 ^ 64"
  shows "\<exists>cont w'. aqt_getLockedAndFetched qt tp w = (Inr cont, w') \<and> aq_references qt tp w' cont refs \<and> keeps_items w w' \<and> fresh_ids w' k"
proof (cases "\<exists>a p v. aq_listed qt tp w (Some a) \<and> stored aq_c w a p \<and> aq_rep p v \<and> aq_store w v \<and> refs = map (\<lambda>j. pointer_key j) (view_jobs v)")
  case True
  then obtain a p v where q: "aq_listed qt tp w (Some a)" "stored aq_c w a p" "aq_rep p v" "aq_store w v" "refs = map (\<lambda>j. pointer_key j) (view_jobs v)" by blast
  obtain r where r: "stored re_c w re_address r" "archive_queue_of r qt tp = Some a" using q(1) by (auto simp: aq_listed_def)
  obtain cont where c: "aqt_getLockedAndFetched qt tp w = (Inr cont, w)" "held cont" "oo_name cont = a" "oo_payload cont = p"
    "objects w a = Some (oo_header aq_c cont)"
    using getLockedAndFetchedArchiveQueue_stored [OF r q(2)] unfolding aqt_getLockedAndFetched_def by (elim exE conjE)
  have "aq_held qt tp w cont v" by (rule aq_held_stored [OF q(2-4,1) c(2-5)])
  with c(1) q(5) fresh_ids_mono [OF fresh(1), of k] show ?thesis by (auto simp: aq_references_def keeps_refl)
next
  case False
  with assms(1) have none: "refs = []" "\<exists>a. aq_listed qt tp w a \<and> (\<forall>b. a = Some b \<longrightarrow> missing w b \<and> \<not> lockFiles w b)"
    unfolding aq_reach_def by blast+
  then obtain r where r: "stored re_c w re_address r" "distinct (map aqp_name (archiveQueuePointers qt r))"
    "\<forall>b. archive_queue_of r qt tp = Some b \<longrightarrow> missing w b \<and> \<not> lockFiles w b" by (auto simp: aq_listed_def)
  obtain cont w' r' where c: "aqt_getLockedAndFetched qt tp w = (Inr cont, w')" "aq_created w r qt tp cont w' r'" "fresh_ids w' k"
    using getLockedAndFetchedArchiveQueue_created [OF r(1,2) _ fresh, of tp] r(3) unfolding aqt_getLockedAndFetched_def by blast
  have obj: "objects w' (oo_name cont) = Some (oo_header aq_c cont)" "objects w (oo_name cont) = None" using c(2) by (simp_all add: aq_created_def)
  have "aq_inv w' cont []" using c(2) by (simp add: aq_created_def aq_inv_def queue_ready_def aq_store_def vfs_exists_def)
  moreover have "aq_listed qt tp w' (Some (oo_name cont))" using c(2) r(2) by (auto simp: aq_created_def aq_listed_def)
  ultimately have "aq_held qt tp w' cont []" using obj by (simp add: aq_held_def)
  then have ref: "aq_references qt tp w' cont refs" unfolding aq_references_def none by (intro exI [of _ "[]"]) simp
  obtain h h' where root: "objects w re_address = Some h" "oh_payload h = enc re_c r" "objects w' re_address = Some h'" "oh_payload h' = enc re_c r'"
    using r(1) c(2) by (auto simp: aq_created_def stored_def)
  have "same_except {re_address, oo_name cont} w w'" using c(2) by (simp add: aq_created_def)
  then have "keeps_items w w'"
    by (rule same_except_keeps) (use obj root in \<open>auto simp: oo_header_def\<close>)
  with c ref show ?thesis by blast
qed

lemma aqt_jobs_to_add_held:
  "held cont \<Longrightarrow> aqt_jobs_to_add now es cont = Inr (map (aqt_job_to_add now (aq_tapepool (oo_payload cont)) (oo_name cont)) es)"
proof -
  assume h: "held cont"
  have "foldR (\<lambda>jobs e. rbind (aq_getTapePool cont) (\<lambda>tp. rbind (getAddressIfSet cont) (\<lambda>a. Inr (jobs @ [aqt_job_to_add now tp a e])))) js es
      = Inr (js @ map (aqt_job_to_add now (aq_tapepool (oo_payload cont)) (oo_name cont)) es)" for js
    using h by (induction es arbitrary: js) (simp_all add: aq_getTapePool_def)
  from this [of "[]"] show ?thesis by (simp add: aqt_jobs_to_add_def)
qed

lemma aq_references_added:
  assumes r: "aq_references qt tp w cont refs" and bound: "length refs + length es < 2 ^ 64" and fresh: "fresh_ids w (length es)"
  shows "\<exists>cont' w'. aqt_addReferencesAndCommit now es cont w = (Inr cont', w')
    \<and> aq_references qt tp w' cont' (refs @ map (\<lambda>e. inserted_key e) es) \<and> oo_name cont' = oo_name cont \<and> keeps_items w w'"
proof -
  obtain v where v: "aq_held qt tp w cont v" "refs = map (\<lambda>j. pointer_key j) (view_jobs v)" using r by (auto simp: aq_references_def)
  have inv: "aq_inv w cont v" "held cont" using v(1) by (simp_all add: aq_held_def aq_inv_def queue_ready_def)
  define jobs where "jobs = map (aqt_job_to_add now (aq_tapepool (oo_payload cont)) (oo_name cont)) es"
  have "length (view_jobs v) + length jobs < 2 ^ 64" "fresh_ids w (length jobs)" "length jobs \<le> Suc (length jobs)"
    using bound fresh v(2) by (simp_all add: jobs_def)
  from aq_add_rounds_rep [OF inv(1) this] obtain cont' w' v' where
    a: "aq_add_rounds (Suc (length jobs)) jobs cont w = (Inr cont', w')" "aq_added w cont v (map aqs_job_pointer jobs) w' cont' v'"
      "jobs \<noteq> [] \<longrightarrow> objects w' (oo_name cont) = Some (oo_header aq_c cont')" by blast
  have run: "aqt_addReferencesAndCommit now es cont w = (Inr cont', w')"
    using a(1) inv(2) by (simp add: aqt_addReferencesAndCommit_def aqt_jobs_to_add_held jobs_def aq_addJobsAndCommit_def)
  have obj': "objects w' (oo_name cont) = Some (oo_header aq_c cont')"
    using a(1,3) v(1) by (cases "jobs = []") (simp_all add: aq_held_def)
  have added: "aq_inv w' cont' v'" "oo_name cont' = oo_name cont" "view_jobs v' = view_jobs v @ map aqs_job_pointer jobs"
    "same_except (insert (oo_name cont) (fst ` set v')) w w'" "\<forall>a \<in> fst ` set v' - fst ` set v. objects w a = None"
    using a(2) by (simp_all add: aq_added_def)
  have "a \<in> insert (oo_name cont) (fst ` set v) \<or> objects w a = None" if "a \<in> insert (oo_name cont) (fst ` set v')" for a
    using that added(5) by (cases "a \<in> fst ` set v") (simp_all add: disj_commute, metis DiffI)
  note ch = aq_change_keeps [OF v(1) added(1,2) obj' added(4) this disjI1]
  have "aq_held qt tp w' cont' v'" "keeps_items w w'" by (rule ch, assumption+)+
  moreover have "map (\<lambda>j. pointer_key j) (view_jobs v') = refs @ map (\<lambda>e. inserted_key e) es"
    by (simp add: added(3) v(2) jobs_def aqs_job_pointer_def aqt_job_to_add_def)
  ultimately show ?thesis using run added(2) unfolding aq_references_def
    by (intro exI [of _ cont'] exI [of _ w'] conjI exI [of _ v']) simp_all
qed

lemma aq_held_removed:
  assumes v: "aq_held qt tp w cont v" and dist: "distinct (map ajp_address (view_jobs v))"
  shows "\<exists>cont' w' v'. aq_removeJobsAndCommit L cont w = (Inr cont', w') \<and> aq_held qt tp w' cont' v' \<and> oo_name cont' = oo_name cont
    \<and> view_jobs v' = filter (\<lambda>j. ajp_address j \<notin> set L) (view_jobs v)
    \<and> ((\<forall>x \<in> set v. snd x \<noteq> []) \<longrightarrow> (\<forall>x \<in> set v'. snd x \<noteq> [])) \<and> keeps_items w w'"
proof -
  have inv: "aq_inv w cont ([] @ v)" "held cont" "objects w (oo_name cont) = Some (oo_header aq_c cont)"
    using v by (simp_all add: aq_held_def aq_inv_def queue_ready_def)
  have len: "length v \<le> length (aq_archivequeueshards (oo_payload cont))" using inv(1) by (simp add: aq_inv_def aq_rep_def)
  from aq_remove_rounds_rep [OF inv(1) dist len, of L] obtain cont' w' v' where
    a: "aq_remove_rounds (length (aq_archivequeueshards (oo_payload cont))) L cont 0 w = (Inr cont', w')"
      "aq_removed w cont [] v L w' cont' v'" by auto
  have run: "aq_removeJobsAndCommit L cont w = (Inr cont', w')" using a(1) inv(2) by (simp add: aq_removeJobsAndCommit_def)
  have rem: "aq_inv w' cont' v'" "oo_name cont' = oo_name cont" "view_jobs v' = filter (\<lambda>j. ajp_address j \<notin> set L) (view_jobs v)"
    "same_except (insert (oo_name cont) (fst ` set v)) w w'" "\<forall>a \<in> fst ` set v - fst ` set v'. objects w' a = None"
    "(\<forall>x \<in> set v. snd x \<noteq> []) \<longrightarrow> (\<forall>x \<in> set v'. snd x \<noteq> [])"
    and obj': "objects w' (oo_name cont) = Some (oo_header aq_c cont')"
    using a(2) inv(3) by (simp_all add: aq_removed_def)
  have "a \<in> insert (oo_name cont) (fst ` set v') \<or> objects w' a = None" if "a \<in> insert (oo_name cont) (fst ` set v)" for a
    using that rem(5) by (cases "a \<in> fst ` set v'") (simp_all add: disj_commute, metis DiffI)
  note ch = aq_change_keeps [OF v rem(1,2) obj' rem(4) disjI1 this]
  have "aq_held qt tp w' cont' v'" "keeps_items w w'" by (rule ch, assumption+)+
  with run rem(2,3,6) show ?thesis by (intro exI [of _ cont'] exI [of _ w'] exI [of _ v'] conjI)
qed

lemma aq_references_removed:
  assumes r: "aq_references qt tp w cont refs" and dist: "distinct (map fst refs)"
  shows "\<exists>cont' w'. aq_removeJobsAndCommit L cont w = (Inr cont', w')
    \<and> aq_references qt tp w' cont' (filter (\<lambda>r. fst r \<notin> set L) refs) \<and> oo_name cont' = oo_name cont \<and> keeps_items w w'"
proof -
  obtain v where v: "aq_held qt tp w cont v" "refs = map (\<lambda>j. pointer_key j) (view_jobs v)" using r by (auto simp: aq_references_def)
  have "distinct (map ajp_address (view_jobs v))" using dist v(2) by (simp add: comp_def)
  from aq_held_removed [OF v(1) this, of L] show ?thesis
    by (elim exE conjE) (intro exI conjI, assumption, auto simp: aq_references_def v(2) filter_map comp_def)
qed

lemma aq_references_summary:
  assumes "aq_references qt tp w cont refs"
  shows "aqt_getContainerSummary cont = Inr ()"
proof -
  obtain v where v: "held cont" "aq_rep (oo_payload cont) v" using assms by (auto simp: aq_references_def aq_held_def aq_inv_def queue_ready_def)
  show ?thesis
  proof (cases "view_jobs v = []")
    case True
    then have "aq_archivejobscount (oo_payload cont) = 0" using v(2) by (simp add: aq_rep_def aq_sums_def)
    with v(1) show ?thesis by (simp add: aqt_getContainerSummary_def aq_getJobsSummary_def Let_def)
  qed (simp add: aqt_getContainerSummary_def aq_getJobsSummary_rep [OF v])
qed

lemma aqt_base_sel [simp]:
  "ct_switchElement (aqt_base fuel now qt su ca no le pl mi) = aqt_switch_inserted"
  "ct_switchPopped (aqt_base fuel now qt su ca no le pl mi) = aqt_switch_popped"
  "ct_getElementAddress (aqt_base fuel now qt su ca no le pl mi) = ain_archiveRequest"
  "ct_getPoppedAddress (aqt_base fuel now qt su ca no le pl mi) = apo_archiveRequest"
  "ct_getContainerSummary (aqt_base fuel now qt su ca no le pl mi) = aqt_getContainerSummary"
  "ct_getLockedAndFetched (aqt_base fuel now qt su ca no le pl mi) = aqt_getLockedAndFetched qt"
  "ct_getLockedAndFetchedNoCreate (aqt_base fuel now qt su ca no le pl mi) = aqt_getLockedAndFetchedNoCreate fuel qt"
  "ct_addReferencesAndCommit (aqt_base fuel now qt su ca no le pl mi) = aqt_addReferencesAndCommit now"
  "ct_removeReferencesAndCommit (aqt_base fuel now qt su ca no le pl mi) = aq_removeJobsAndCommit"
  "ct_trimContainerIfNeeded (aqt_base fuel now qt su ca no le pl mi) = aqt_trimContainerIfNeeded qt"
  "ct_getPoppingElementsCandidates (aqt_base fuel now qt su ca no le pl mi) = ca"
  "ct_getElementSummary (aqt_base fuel now qt su ca no le pl mi) = su"
  "ct_none (aqt_base fuel now qt su ca no le pl mi) = no" "ct_less (aqt_base fuel now qt su ca no le pl mi) = le"
  "ct_plus (aqt_base fuel now qt su ca no le pl mi) = pl" "ct_minus (aqt_base fuel now qt su ca no le pl mi) = mi"
  "ct_unfulfilled (aqt_base fuel now qt su ca no le pl mi) = mi"
  by (simp_all add: aqt_base_def)

interpretation aqt: container "aqt_base fuel now qt su ca no le pl mi" "aq_references qt" inserted_key archive_job_owner "aq_reach qt"
  for fuel now qt su ca no le pl mi
proof (unfold_locales, unfold aqt_base_sel)
  show "ain_archiveRequest = (\<lambda>e. fst (inserted_key e))" by simp
  show "getAddressIfSet cont = Inr (oo_name cont)" if "aq_references qt cid w cont refs" for cid w cont refs
    using that by (auto simp: aq_references_def aq_held_def aq_inv_def queue_ready_def)
  show "aq_references qt cid w' cont refs" if "aq_references qt cid w cont refs" "keeps_containers w w'" for cid w cont refs w'
    using that aq_held_kept unfolding aq_references_def by blast
  show "aq_reach qt cid w refs" if "aq_references qt cid w cont refs" for cid w cont refs
    using that aq_held_reach by (auto simp: aq_references_def)
qed (rule inserted.switch_owned inserted.switch_refused inserted.own_kept aq_references_summary aq_obtained aq_references_added
    aq_references_removed; assumption)+

end
