(* ===== verification/ArchivePop.thy ===== *)
theory ArchivePop
  imports PopSpec ArchiveContainer
begin

text \<open>
  The archive queues keep the laws of \<open>pop_container\<close>: a queue is found or reported absent, its candidates are
  the first jobs that are not to be skipped, and an emptied queue is removed.
\<close>

section \<open>The queue from which jobs are popped\<close>

text \<open>
  Popping needs three things more of the queue: the total size of its jobs is below 2^64, no shard is empty
  (a shard that loses its last job is deleted; with an empty shard left, a queue without jobs is not trimmed),
  and the copy numbers fit in the 16 bits that the job dumps have for them.
\<close>

definition aq_filled :: "aq_view \<Rightarrow> bool" where
  "aq_filled v \<longleftrightarrow> fits ajp_size (view_jobs v) \<and> (\<forall>x \<in> set v. snd x \<noteq> [])
     \<and> (\<forall>j \<in> set (view_jobs v). as_uint16 (ajp_copynb j) = ajp_copynb j)"

definition aq_poppable :: "JobQueueType \<Rightarrow> string \<Rightarrow> world \<Rightarrow> archive_queue oo \<Rightarrow> job_ref list \<Rightarrow> bool" where
  "aq_poppable qt tp w cont refs \<longleftrightarrow> (\<exists>v. aq_held qt tp w cont v \<and> aq_filled v \<and> refs = map (\<lambda>j. pointer_key j) (view_jobs v))"

definition aq_avail :: "JobQueueType \<Rightarrow> string \<Rightarrow> string \<Rightarrow> world \<Rightarrow> job_ref list \<Rightarrow> bool" where
  "aq_avail qt tp ca w refs \<longleftrightarrow>
     (\<exists>p v. aq_listed qt tp w (Some ca) \<and> stored aq_c w ca p \<and> aq_rep p v \<and> aq_store w v \<and> aq_filled v
        \<and> refs = map (\<lambda>j. pointer_key j) (view_jobs v))
   \<or> (\<exists>a. aq_listed qt tp w (Some a) \<and> missing w a \<and> \<not> lockFiles w a \<and> refs = [])
   \<or> aq_listed qt tp w None \<and> refs = []"

lemma aq_filled_filter:
  assumes "aq_filled v" and "view_jobs v' = filter P (view_jobs v)" and "(\<forall>x \<in> set v. snd x \<noteq> []) \<longrightarrow> (\<forall>x \<in> set v'. snd x \<noteq> [])"
  shows "aq_filled v'"
  using assms sum_list_filter_le [of "\<lambda>j. unat (ajp_size j)" P "view_jobs v"] length_filter_le [of P "view_jobs v"]
  by (auto simp: aq_filled_def fits_def simp del: length_filter_le)

lemma aq_filled_empty: "aq_filled v \<Longrightarrow> view_jobs v = [] \<longleftrightarrow> v = []"
  by (cases v) (auto simp: aq_filled_def view_jobs_def)

lemma aq_poppable_references: "aq_poppable qt tp w cont refs \<Longrightarrow> aq_references qt tp w cont refs"
  by (auto simp: aq_poppable_def aq_references_def)

lemma aq_poppable_kept: "aq_poppable qt tp w cont refs \<Longrightarrow> keeps_containers w w' \<Longrightarrow> aq_poppable qt tp w' cont refs"
  using aq_held_kept unfolding aq_poppable_def by blast

lemma aq_poppable_removed:
  assumes r: "aq_poppable qt tp w cont refs" and dist: "distinct (map fst refs)"
  shows "\<exists>cont' w'. aq_removeJobsAndCommit L cont w = (Inr cont', w')
    \<and> aq_poppable qt tp w' cont' (filter (\<lambda>r. fst r \<notin> set L) refs) \<and> oo_name cont' = oo_name cont \<and> keeps_items w w'"
proof -
  obtain v where v: "aq_held qt tp w cont v" "aq_filled v" "refs = map (\<lambda>j. pointer_key j) (view_jobs v)" using r by (auto simp: aq_poppable_def)
  have d: "distinct (map ajp_address (view_jobs v))" using dist v(3) by (simp add: comp_def)
  obtain cont' w' v' where r: "aq_removeJobsAndCommit L cont w = (Inr cont', w')" "aq_held qt tp w' cont' v'" "oo_name cont' = oo_name cont"
    "view_jobs v' = filter (\<lambda>j. ajp_address j \<notin> set L) (view_jobs v)" "(\<forall>x \<in> set v. snd x \<noteq> []) \<longrightarrow> (\<forall>x \<in> set v'. snd x \<noteq> [])"
    "keeps_items w w'" using aq_held_removed [OF v(1) d, of L] by (elim exE conjE)
  have "aq_poppable qt tp w' cont' (filter (\<lambda>r. fst r \<notin> set L) refs)"
    unfolding aq_poppable_def using r(2) aq_filled_filter [OF v(2) r(4,5)] by (intro exI [of _ v']) (simp add: v(3) r(4) filter_map comp_def)
  with r show ?thesis by blast
qed

lemma aq_avail_kept:
  assumes a: "aq_avail qt tp ca w refs" and k: "keeps_containers w w'" and n: "no_new w w'"
  shows "aq_avail qt tp ca w' refs"
proof -
  have l: "aq_listed qt tp w' a" if "aq_listed qt tp w a" for a by (rule aq_listed_kept [OF that k])
  consider (stored) p v where "aq_listed qt tp w (Some ca)" "stored aq_c w ca p" "aq_rep p v" "aq_store w v" "aq_filled v"
      "refs = map (\<lambda>j. pointer_key j) (view_jobs v)"
    | (missing) a where "aq_listed qt tp w (Some a)" "missing w a" "\<not> lockFiles w a" "refs = []"
    | (unlisted) "aq_listed qt tp w None" "refs = []" using a unfolding aq_avail_def by blast
  then show ?thesis
  proof cases
    case stored
    have "aq_store w' v" using stored(4) keeps_stored [OF k, where c = aqs_c] by (fastforce simp: aq_store_def)
    moreover have "stored aq_c w' ca p" using keeps_stored [OF k stored(2)] by simp
    ultimately show ?thesis unfolding aq_avail_def using l [OF stored(1)] stored(3,5,6) by (intro disjI1 exI [of _ p] exI [of _ v] conjI)
  next
    case missing
    then have "missing w' a \<and> \<not> lockFiles w' a" using n by (simp add: no_new_def missing_def)
    with l [OF missing(1)] missing(4) show ?thesis unfolding aq_avail_def by blast
  next
    case unlisted
    with l show ?thesis by (simp add: aq_avail_def)
  qed
qed

lemma aq_avail_reach: "aq_avail qt tp ca w refs \<Longrightarrow> aq_reach qt tp w refs"
  unfolding aq_avail_def aq_reach_def by blast

section \<open>Trimming\<close>

lemma stored_held: "aq_held qt tp w cont v \<Longrightarrow> stored aq_c w (oo_name cont) (oo_payload cont)"
  by (rule stored_header) (auto simp: aq_held_def aq_inv_def queue_ready_def held_def vfs_exists_def)

lemma aq_avail_held: "aq_held qt tp w cont v \<Longrightarrow> aq_filled v \<Longrightarrow> aq_avail qt tp (oo_name cont) w (map (\<lambda>j. pointer_key j) (view_jobs v))"
  using stored_held unfolding aq_avail_def aq_held_def aq_inv_def by blast

text \<open>The root entry locked and fetched, then the removal of an empty queue, which may be refused.\<close>

abbreviation "root_removes qt tp \<equiv> bnd (liftr re_at) (\<lambda>re. bnd (exclusive_lock re) (\<lambda>re. bnd (oo_fetch re_c re) (\<lambda>re.
  re_removeArchiveQueueAndCommit tp qt re)))"

lemma root_removes_empty:
  assumes root: "stored re_c w re_address r" "distinct (map aqp_name (archiveQueuePointers qt r))" "archive_queue_of r qt tp = Some a"
    and q: "stored aq_c w a q" "aq_archivequeueshards q = []"
  shows "root_removes qt tp w = (Inl WrongArchiveQueue, w)
    \<or> (\<exists>re w'. root_removes qt tp w = (Inr re, w') \<and> aq_listed qt tp w' None \<and> keeps_items w w')"
proof (cases "aq_tapepool q = tp")
  case True
  have l: "lockFiles w re_address" "objects w re_address \<noteq> None" "re_address \<noteq> ''''" using storedD [OF root(1)] by simp_all
  have neq: "a \<noteq> re_address" using q(1) root(1) by (auto simp: stored_def codec_defs)
  obtain s1 re where re: "exclusive_lock root_image w = (Inr s1, w)" "oo_fetch re_c s1 w = (Inr re, w)"
    "held re" "oo_name re = re_address" "oo_payload re = r"
    using exclusive_fetch_stored [OF codecs_ok(7) root(1), of re_empty] by (elim exE conjE)
  let ?w1 = "w\<lparr>objects := (objects w)(a := None), lockFiles := (lockFiles w)(a := False)\<rparr>"
  have l1: "lockFiles ?w1 re_address" "objects ?w1 re_address \<noteq> None" using l neq by simp_all
  obtain re1 where re1: "bnd (oo_commit re_c (re_removeMissingArchiveQueueReference tp qt re)) (\<lambda>_. ret (re_removeMissingArchiveQueueReference tp qt re)) ?w1
      = (Inr re1, ?w1\<lparr>objects := (objects ?w1)(re_address \<mapsto> oo_header re_c re1)\<rparr>)" (is "_ = (_, ?w2)")
    "\<forall>qt' tp'. archive_queue_of (oo_payload re1) qt' tp' = (if qt' = qt \<and> tp' = tp then None else archive_queue_of r qt' tp')"
    "\<forall>qt'. distinct (map aqp_name (archiveQueuePointers qt' r)) \<longrightarrow> distinct (map aqp_name (archiveQueuePointers qt' (oo_payload re1)))"
    using re_archive_unreferenced [OF re(3,4) l1, of qt tp, unfolded re(5), OF root(2)] by (elim exE conjE)
  have rm: "re_removeArchiveQueueAndCommit tp qt re w = (Inr re1, ?w2)"
    using re_remove_archive_stored [OF re(3) _ q(1), of qt tp] root(3) re(5) re1(1) True q(2) by simp
  have "root_removes qt tp w = (Inr re1, ?w2)" using re(1,2) rm by (simp add: re_at_eq)
  moreover have "stored re_c ?w2 re_address (oo_payload re1)" using l neq by (intro stored_header) simp_all
  then have "aq_listed qt tp ?w2 None" using re1(2,3) root(2) by (auto simp: aq_listed_def)
  moreover have "same_except {re_address, a} w ?w2" by (simp add: same_except_def)
  then have "keeps_items w ?w2"
    by (rule same_except_keeps) (use neq root(1) q(1) in \<open>auto simp: oo_header_def stored_def\<close>)
  ultimately show ?thesis by blast
next
  case False
  obtain s1 re where re: "exclusive_lock root_image w = (Inr s1, w)" "oo_fetch re_c s1 w = (Inr re, w)"
    "held re" "oo_name re = re_address" "oo_payload re = r"
    using exclusive_fetch_stored [OF codecs_ok(7) root(1), of re_empty] by (elim exE conjE)
  have "re_removeArchiveQueueAndCommit tp qt re w = (Inl WrongArchiveQueue, w)"
    using re_remove_archive_stored [OF re(3) _ q(1), of qt tp] root(3) re(5) False by simp
  then show ?thesis using re(1,2) by (simp add: re_at_eq)
qed

lemma aq_trimmed:
  assumes "aq_poppable qt tp w cont refs"
  shows "\<exists>w'. aqt_trimContainerIfNeeded qt tp cont w = (Inr (refs = []), w') \<and> aq_avail qt tp (oo_name cont) w' refs \<and> keeps_items w w'"
proof -
  obtain v where v: "aq_held qt tp w cont v" "aq_filled v" "refs = map (\<lambda>j. pointer_key j) (view_jobs v)" using assms by (auto simp: aq_poppable_def)
  have held: "held cont" "aq_archivequeueshards (oo_payload cont) = map aq_pointer_of v" "aq_listed qt tp w (Some (oo_name cont))"
    using v(1) by (simp_all add: aq_held_def aq_inv_def queue_ready_def aq_rep_def)
  have empty: "aq_isEmpty cont = Inr (refs = [])" using held v(2,3) aq_filled_empty [OF v(2)] by (simp add: aq_isEmpty_def)
  have avail: "aq_avail qt tp (oo_name cont) w refs" unfolding v(3) by (rule aq_avail_held [OF v(1,2)])
  show ?thesis
  proof (cases "refs = []")
    case False
    with empty avail show ?thesis by (auto simp: aqt_trimContainerIfNeeded_def keeps_refl)
  next
    case True
    then have none: "aq_archivequeueshards (oo_payload cont) = []" using v(2,3) held(2) aq_filled_empty by auto
    obtain r where r: "stored re_c w re_address r" "distinct (map aqp_name (archiveQueuePointers qt r))" "archive_queue_of r qt tp = Some (oo_name cont)"
      using held(3) by (auto simp: aq_listed_def)
    have run: "aqt_trimContainerIfNeeded qt tp cont = bnd (attempt (root_removes qt tp)) (\<lambda>_. ret True)"
      using empty True by (simp add: aqt_trimContainerIfNeeded_def)
    from root_removes_empty [OF r stored_held [OF v(1)] none] True avail show ?thesis unfolding run
      by (auto simp: is_cta_exception_def keeps_refl aq_avail_def)
  qed
qed

section \<open>Finding the queue\<close>

lemma pointer_fold:
  "distinct (map aqp_name aql) \<Longrightarrow>
     fold (\<lambda>aqp a. if aqp_name aqp = tp then aqp_address aqp else a) aql a
   = (case findElement (\<lambda>tpp. aqp_name tpp = tp) aql of Inl _ \<Rightarrow> a | Inr tpp \<Rightarrow> aqp_address tpp)"
proof (induction aql arbitrary: a)
  case (Cons x aql)
  show ?case
  proof (cases "aqp_name x = tp")
    case True
    with Cons.prems have "findElement (\<lambda>tpp. aqp_name tpp = tp) aql = Inl SerializersNotFound" by (auto simp: findElement_none rev_image_eqI)
    with Cons True show ?thesis by (simp add: findElement_def)
  qed (use Cons in \<open>simp add: findElement_def\<close>)
qed (simp add: findElement_def)

text \<open>One attempt, up to the lock on the queue.\<close>

lemma lock_no_create_found:
  assumes root: "stored re_c w re_address r" "distinct (map aqp_name (archiveQueuePointers qt r))" "archive_queue_of r qt tp = Some a"
    and q: "stored aq_c w a p"
  shows "\<exists>cont. aqt_lock_no_create fuel qt tp (oo_new aq_empty) w = (Inr cont, w) \<and> held cont \<and> oo_name cont = a
    \<and> oo_payload cont = p \<and> objects w a = Some (oo_header aq_c cont)"
proof -
  obtain re where re: "oo_fetchNoLock re_c root_image w = (Inr re, w)" "checkPayloadReadable re = Inr ()" "oo_payload re = r"
    using root_read [OF root(1)] by (elim exE conjE)
  obtain s1 cont where c: "exclusive_lock (queue_image a) w = (Inr s1, w)" "oo_fetch aq_c s1 w = (Inr cont, w)"
    "held cont" "oo_name cont = a" "oo_payload cont = p" "objects w a = Some (oo_header aq_c cont)"
    using exclusive_fetch_stored [OF codecs_ok(1) q, of aq_empty] by (elim exE conjE)
  have a: "a \<noteq> ''''" using storedD [OF q] by simp
  have "fold (\<lambda>aqp a. if aqp_name aqp = tp then aqp_address aqp else a) (archiveQueuePointers qt r) '''' = a"
    using root(3) by (auto simp: pointer_fold [OF root(2)] archive_queue_of_def split: sum.splits)
  then have "aqt_lock_no_create fuel qt tp (oo_new aq_empty) w = (Inr cont, w)"
    using re c(1,2) a by (simp add: aqt_lock_no_create.simps re_at_eq re_dumpArchiveQueues_def setAddress_new)
  with c show ?thesis by blast
qed

lemma lock_no_create_unlisted:
  assumes root: "stored re_c w re_address r" "distinct (map aqp_name (archiveQueuePointers qt r))" "archive_queue_of r qt tp = None"
  shows "aqt_lock_no_create fuel qt tp (oo_new aq_empty) w = (Inl NoSuchContainer, w)"
proof -
  obtain re where re: "oo_fetchNoLock re_c root_image w = (Inr re, w)" "checkPayloadReadable re = Inr ()" "oo_payload re = r"
    using root_read [OF root(1)] by (elim exE conjE)
  have "fold (\<lambda>aqp a. if aqp_name aqp = tp then aqp_address aqp else a) (archiveQueuePointers qt r) '''' = ''''"
    using root(3) by (auto simp: pointer_fold [OF root(2)] archive_queue_of_def split: sum.splits)
  then show ?thesis using re by (simp add: aqt_lock_no_create.simps re_at_eq re_dumpArchiveQueues_def)
qed

text \<open>A queue that is listed and gone is dereferenced; the second attempt then finds no queue.\<close>

lemma lock_no_create_missing:
  assumes root: "stored re_c w re_address r" "distinct (map aqp_name (archiveQueuePointers qt r))" "archive_queue_of r qt tp = Some a"
    and m: "missing w a" "\<not> lockFiles w a"
  shows "\<exists>w'. aqt_lock_no_create (Suc fuel) qt tp (oo_new aq_empty) w = (Inl NoSuchContainer, w') \<and> aq_listed qt tp w' None \<and> keeps_items w w'"
proof -
  have l: "lockFiles w re_address" "objects w re_address \<noteq> None" "re_address \<noteq> ''''" and a: "a \<noteq> ''''"
    using storedD [OF root(1)] m by (simp_all add: missing_def)
  obtain re re1 re2 where re: "oo_fetchNoLock re_c root_image w = (Inr re, w)" "checkPayloadReadable re = Inr ()" "oo_payload re = r"
    "exclusive_lock re w = (Inr re1, w)" "oo_fetch re_c re1 w = (Inr re2, w)" "held re2" "oo_name re2 = re_address" "oo_payload re2 = r"
    using root_read [OF root(1)] by (elim exE conjE)
  obtain re3 where re3: "bnd (oo_commit re_c (re_removeMissingArchiveQueueReference tp qt re2)) (\<lambda>_. ret (re_removeMissingArchiveQueueReference tp qt re2)) w
      = (Inr re3, w\<lparr>objects := (objects w)(re_address \<mapsto> oo_header re_c re3)\<rparr>)" (is "_ = (_, ?w1)")
    "\<forall>qt' tp'. archive_queue_of (oo_payload re3) qt' tp' = (if qt' = qt \<and> tp' = tp then None else archive_queue_of r qt' tp')"
    "\<forall>qt'. distinct (map aqp_name (archiveQueuePointers qt' r)) \<longrightarrow> distinct (map aqp_name (archiveQueuePointers qt' (oo_payload re3)))"
    using re_archive_unreferenced [OF re(6,7) l(1,2), of qt tp, unfolded re(8), OF root(2)] by (elim exE conjE)
  have "re_removeArchiveQueueAndCommit tp qt re2 w = (Inr re3, ?w1)"
    using re_remove_archive_missing [OF re(6) _ m, of qt tp] root(3) re(8) re3(1) by simp
  then have deref: "aqt_dereference_missing qt tp re w = (Inr (), ?w1)" using re(4,5) by (simp add: aqt_dereference_missing_def)
  have "fold (\<lambda>aqp a. if aqp_name aqp = tp then aqp_address aqp else a) (archiveQueuePointers qt r) '''' = a"
    using root(3) by (auto simp: pointer_fold [OF root(2)] archive_queue_of_def split: sum.splits)
  then have run: "aqt_lock_no_create (Suc fuel) qt tp (oo_new aq_empty) w = aqt_lock_no_create fuel qt tp (oo_new aq_empty) ?w1"
    using re(1-3) a deref
    by (simp add: aqt_lock_no_create.simps [of "Suc fuel"] re_at_eq re_dumpArchiveQueues_def setAddress_new exclusive_lock_missing [OF m]
        is_cta_exception_def reset_image)
  have root1: "stored re_c ?w1 re_address (oo_payload re3)" using l by (intro stored_header) simp_all
  moreover have none: "distinct (map aqp_name (archiveQueuePointers qt (oo_payload re3)))" "archive_queue_of (oo_payload re3) qt tp = None"
    using re3(2,3) root(2) by simp_all
  ultimately have "aq_listed qt tp ?w1 None" by (auto simp: aq_listed_def)
  moreover have "same_except {re_address} w ?w1" by (simp add: same_except_def)
  then have "keeps_items w ?w1" by (rule same_except_keeps) (use root(1) in \<open>auto simp: oo_header_def stored_def\<close>)
  ultimately show ?thesis unfolding run lock_no_create_unlisted [OF root1 none] by blast
qed

lemma aq_found:
  assumes "aq_avail qt tp ca w refs" and "0 < fuel"
  shows "(\<exists>cont. aqt_getLockedAndFetchedNoCreate fuel qt tp w = (Inr cont, w) \<and> aq_poppable qt tp w cont refs \<and> oo_name cont = ca)
    \<or> (\<exists>w'. aqt_getLockedAndFetchedNoCreate fuel qt tp w = (Inl NoSuchContainer, w') \<and> refs = [] \<and> aq_avail qt tp ca w' [] \<and> keeps_items w w')"
proof -
  consider (stored) p v where "aq_listed qt tp w (Some ca)" "stored aq_c w ca p" "aq_rep p v" "aq_store w v" "aq_filled v"
      "refs = map (\<lambda>j. pointer_key j) (view_jobs v)"
    | (missing) a where "aq_listed qt tp w (Some a)" "missing w a" "\<not> lockFiles w a" "refs = []"
    | (unlisted) "aq_listed qt tp w None" "refs = []" using assms(1) unfolding aq_avail_def by blast
  then show ?thesis
  proof cases
    case stored
    obtain r where r: "stored re_c w re_address r" "distinct (map aqp_name (archiveQueuePointers qt r))" "archive_queue_of r qt tp = Some ca"
      using stored(1) by (auto simp: aq_listed_def)
    obtain cont where c: "aqt_lock_no_create fuel qt tp (oo_new aq_empty) w = (Inr cont, w)" "held cont" "oo_name cont = ca"
      "oo_payload cont = p" "objects w ca = Some (oo_header aq_c cont)" using lock_no_create_found [OF r stored(2)] by blast
    have "aq_held qt tp w cont v" by (rule aq_held_stored [OF stored(2-4,1) c(2-5)])
    then have "aq_poppable qt tp w cont refs" unfolding aq_poppable_def using stored(5,6) by blast
    with c(1,3) show ?thesis unfolding aqt_getLockedAndFetchedNoCreate_def
      by blast
  next
    case missing
    obtain r where r: "stored re_c w re_address r" "distinct (map aqp_name (archiveQueuePointers qt r))" "archive_queue_of r qt tp = Some a"
      using missing(1) by (auto simp: aq_listed_def)
    obtain f where f: "fuel = Suc f" using assms(2) by (cases fuel) auto
    obtain w' where "aqt_lock_no_create fuel qt tp (oo_new aq_empty) w = (Inl NoSuchContainer, w')" "aq_listed qt tp w' None" "keeps_items w w'"
      using lock_no_create_missing [OF r missing(2,3), of f] unfolding f by (elim exE conjE)
    with missing(4) show ?thesis unfolding aqt_getLockedAndFetchedNoCreate_def
      by (simp add: aq_avail_def)
  next
    case unlisted
    obtain r where r: "stored re_c w re_address r" "distinct (map aqp_name (archiveQueuePointers qt r))" "archive_queue_of r qt tp = None"
      using unlisted(1) by (auto simp: aq_listed_def)
    from lock_no_create_unlisted [OF r] assms(1) unlisted(2)
    show ?thesis unfolding aqt_getLockedAndFetchedNoCreate_def
      by (simp add: keeps_refl)
  qed
qed

section \<open>The candidates\<close>

lemma aq_candidates:
  assumes "aq_poppable qt tp w cont refs"
  shows "\<exists>r js n. aq_getCandidateList mB mF skip cont w = (Inr r, w) \<and> cjl_candidates r = map aqs_job_dump js
    \<and> map (\<lambda>j. (ajp_address j, as_uint16 (ajp_copynb j))) js = filter (\<lambda>r. fst r \<notin> skip) (take n refs)
    \<and> (0 < mB \<and> 0 < mF \<and> (\<exists>r \<in> set refs. fst r \<notin> skip) \<longrightarrow> js \<noteq> [])"
proof -
  obtain v where v: "aq_inv w cont v" "aq_filled v" "refs = map (\<lambda>j. pointer_key j) (view_jobs v)"
    using assms by (auto simp: aq_poppable_def aq_held_def)
  have fits: "fits ajp_size (view_jobs v)" and copy: "\<forall>j \<in> set (view_jobs v). as_uint16 (ajp_copynb j) = ajp_copynb j"
    using v(2) by (simp_all add: aq_filled_def)
  obtain pre post where p: "view_jobs v = pre @ post"
    "stops_at (limit_reached (\<lambda>j. ajp_address j \<in> skip) ajp_size mB mF 0 0) pre post"
    "aq_getCandidateList mB mF skip cont w = (Inr (candidates_of (\<lambda>j. ajp_address j \<in> skip) ajp_size aqs_job_dump pre post), w)"
    using aq_getCandidateList_rep [OF v(1) fits, of skip mB mF] by (elim exE conjE)
  let ?js = "filter (\<lambda>j. ajp_address j \<notin> skip) pre"
  have "map (\<lambda>j. (ajp_address j, as_uint16 (ajp_copynb j))) ?js = map (\<lambda>j. pointer_key j) ?js" using copy p(1) by simp
  then have keys: "map (\<lambda>j. (ajp_address j, as_uint16 (ajp_copynb j))) ?js = filter (\<lambda>r. fst r \<notin> skip) (take (length pre) refs)"
    using p(1) v(3) by (simp add: filter_map comp_def)
  have "?js \<noteq> []" if "0 < mB" "0 < mF" "\<exists>r \<in> set refs. fst r \<notin> skip"
  proof
    assume none: "?js = []"
    then have "post \<noteq> []" using that(3) p(1) v(3) by (auto simp: filter_empty_conv)
    then have "limit_reached (\<lambda>j. ajp_address j \<in> skip) ajp_size mB mF 0 0 pre" using p(2) by (simp add: stops_at_def)
    with none that(1,2) show False by (auto simp: limit_reached_def)
  qed
  with p(3) keys show ?thesis
    by (intro exI [of _ "candidates_of (\<lambda>j. ajp_address j \<in> skip) ajp_size aqs_job_dump pre post"] exI [of _ ?js] exI [of _ "length pre"])
      (simp add: candidates_of_def)
qed

lemma fold_collect: "fold (\<lambda>c (es, s). (es @ [f c], g s c)) cs (es, s) = (es @ map f cs, fold (\<lambda>c s. g s c) cs s)"
  by (induction cs arbitrary: es s) simp_all

text \<open>What the three candidate functions have in common.\<close>

lemma candidates_collected:
  assumes rep: "aq_poppable qt tp w cont refs"
    and ca: "\<And>crit skip cont. ca crit skip cont = bnd (aq_getCandidateList (mB crit) (mF crit) skip cont) (\<lambda>r.
        ret (fold (\<lambda>c (es, s). (es @ [aqt_popped_of rt c], add s (su (aqt_popped_of rt c)))) (cjl_candidates r) ([], no), cont))"
    and pos: "\<And>crit. pos crit \<Longrightarrow> 0 < mB crit \<and> 0 < mF crit"
  shows "\<exists>cs s n. ca crit skip cont w = (Inr ((cs, s), cont), w) \<and> map (\<lambda>e. popped_key e) cs = filter (\<lambda>r. fst r \<notin> skip) (take n refs)
    \<and> s = fold (\<lambda>e t. add t (su e)) cs no \<and> (pos crit \<and> (\<exists>r \<in> set refs. fst r \<notin> skip) \<longrightarrow> cs \<noteq> [])"
proof -
  obtain r js n where r: "aq_getCandidateList (mB crit) (mF crit) skip cont w = (Inr r, w)" "cjl_candidates r = map aqs_job_dump js"
    "map (\<lambda>j. (ajp_address j, as_uint16 (ajp_copynb j))) js = filter (\<lambda>r. fst r \<notin> skip) (take n refs)"
    "0 < mB crit \<and> 0 < mF crit \<and> (\<exists>r \<in> set refs. fst r \<notin> skip) \<longrightarrow> js \<noteq> []"
    using aq_candidates [OF rep, of "mB crit" "mF crit" skip] by (elim exE conjE)
  let ?cs = "map (\<lambda>j. aqt_popped_of rt (aqs_job_dump j)) js"
  have "ca crit skip cont w = (Inr ((?cs, fold (\<lambda>e t. add t (su e)) ?cs no), cont), w)"
    using r(1,2) by (simp add: ca fold_collect fold_map comp_def)
  moreover have "map (\<lambda>e. popped_key e) ?cs = filter (\<lambda>r. fst r \<notin> skip) (take n refs)"
    using r(3) by (simp add: aqt_popped_of_def aqs_job_dump_def comp_def)
  ultimately show ?thesis using r(4) pos [of crit]
    by (intro exI [of _ ?cs] exI [of _ "fold (\<lambda>e t. add t (su e)) ?cs no"] exI [of _ n] conjI impI refl) auto
qed

section \<open>The interpretations\<close>

lemma popped_info:
  assumes "\<And>e e'. apo_bytes e = apo_bytes e' \<Longrightarrow> su e = su e'"
  shows "job_ownership aqt_switch_popped (\<lambda>e. popped_key e) archive_job_owner su"
proof
  fix w and e :: archive_popped and new prev assume "archive_job_owner w (popped_key e) \<in> {Some new, Some prev}"
  from popped.switch_owned [OF this] show "\<exists>e' w'. aqt_switch_popped new prev e w = (Inr e', w') \<and> popped_key e' = popped_key e \<and> su e' = su e
      \<and> archive_job_owner w' (popped_key e) = Some new
      \<and> (\<forall>r. fst r \<noteq> fst (popped_key e) \<longrightarrow> archive_job_owner w' r = archive_job_owner w r) \<and> keeps (\<lambda>p. \<not> is_request p) w w'"
    using assms by (metis (no_types, lifting))
qed (rule popped.switch_refused popped.own_kept, assumption)+

text \<open>An archive queue pops by the laws when its amounts are added and subtracted as in a group.\<close>

lemma aqt_pops:
  fixes su :: "archive_popped \<Rightarrow> 'a" and no :: 'a
  assumes fuel: "0 < fuel" and su: "\<And>e e'. apo_bytes e = apo_bytes e' \<Longrightarrow> su e = su e'"
    and ca: "\<And>crit skip cont. ca crit skip cont = bnd (aq_getCandidateList (mB crit) (mF crit) skip cont) (\<lambda>r.
        ret (fold (\<lambda>c (es, s). (es @ [aqt_popped_of rt c], add s (su (aqt_popped_of rt c)))) (cjl_candidates r) ([], no), cont))"
    and pos: "\<And>crit. pos crit \<Longrightarrow> 0 < mB crit \<and> 0 < mF crit"
    and less: "\<And>s pc. le s pc \<Longrightarrow> pos (sub pc s)"
    and group: "\<And>s. sub s no = s" "\<And>s t u. sub (sub s t) u = sub s (add t u)" "\<And>s. add s no = s" "\<And>s. add no s = s"
      "\<And>s t u. add (add s t) u = add s (add t u)" "\<And>s t u. sub (add s t) u = add (sub s u) t" "\<And>s u. sub (add s u) u = s"
  shows "pop_container (aqt_base fuel now qt su ca no le add sub) (aq_poppable qt) (\<lambda>e. popped_key e) archive_job_owner (aq_avail qt) pos"
proof (intro pop_container.intro queue_container.intro pop_container_axioms.intro, unfold aqt_base_sel)
  show "job_ownership aqt_switch_popped (\<lambda>e. popped_key e) archive_job_owner su" by (rule popped_info [OF su])
  show "apo_archiveRequest = (\<lambda>e. fst (popped_key e))" by simp
  show "aqt_getContainerSummary cont = Inr ()" if "aq_poppable qt cid w cont refs" for cid w cont refs
    by (rule aq_references_summary [OF aq_poppable_references [OF that]])
  show "getAddressIfSet cont = Inr (oo_name cont)" if "aq_poppable qt cid w cont refs" for cid w cont refs
    using that by (auto simp: aq_poppable_def aq_held_def aq_inv_def queue_ready_def)
  show "(\<exists>cont. aqt_getLockedAndFetchedNoCreate fuel qt cid w = (Inr cont, w) \<and> aq_poppable qt cid w cont refs \<and> oo_name cont = ca)
      \<or> (\<exists>w'. aqt_getLockedAndFetchedNoCreate fuel qt cid w = (Inl NoSuchContainer, w') \<and> refs = [] \<and> aq_avail qt cid ca w' [] \<and> keeps_items w w')"
    if "aq_avail qt cid ca w refs" for cid ca w refs by (rule aq_found [OF that fuel])
  show "\<exists>cs s n. ca crit skip cont w = (Inr ((cs, s), cont), w) \<and> map (\<lambda>e. popped_key e) cs = filter (\<lambda>r. fst r \<notin> skip) (take n refs)
      \<and> s = fold (\<lambda>e t. add t (su e)) cs no \<and> (pos crit \<and> (\<exists>r \<in> set refs. fst r \<notin> skip) \<longrightarrow> cs \<noteq> [])"
    if "aq_poppable qt cid w cont refs" for cid w cont refs crit skip by (rule candidates_collected [where mB = mB and mF = mF and rt = rt, OF that]) (rule ca, erule pos)
qed (rule aq_poppable_kept aq_poppable_removed aq_trimmed aq_avail_kept less group; assumption?)+

definition pa_positive :: "pop_amount \<Rightarrow> bool" where
  "pa_positive a \<longleftrightarrow> 0 < pa_bytes a \<and> 0 < pa_files a"

lemma pa_group:
  "pa_minus s \<lparr>pa_files = 0, pa_bytes = 0\<rparr> = s" "pa_minus (pa_minus s t) u = pa_minus s (pa_plus t u)"
  "pa_plus s \<lparr>pa_files = 0, pa_bytes = 0\<rparr> = s" "pa_plus \<lparr>pa_files = 0, pa_bytes = 0\<rparr> s = s"
  "pa_plus (pa_plus s t) u = pa_plus s (pa_plus t u)" "pa_minus (pa_plus s t) u = pa_plus (pa_minus s u) t" "pa_minus (pa_plus s u) u = s"
  by (cases s; cases t; cases u; simp add: pa_minus_def pa_plus_def)+

lemma word_left: "s < pc \<Longrightarrow> 0 < pc - s" for s pc :: u64
  by (auto simp: word_neq_0_conv [symmetric])

lemma no_bytes_limit: "0 < (- 1 :: u64)"
  by (simp add: word_neq_0_conv [symmetric])

lemma pa_left: "pa_less s pc \<Longrightarrow> pa_positive (pa_minus pc s)"
  by (simp add: pa_less_def pa_positive_def pa_minus_def word_left)

lemma pa_count:
  "s\<lparr>pa_bytes := pa_bytes s + b, pa_files := pa_files s + 1\<rparr> = pa_plus s \<lparr>pa_files = 1, pa_bytes = b\<rparr>"
  "s\<lparr>pa_files := pa_files s + 1\<rparr> = pa_plus s \<lparr>pa_files = 1, pa_bytes = 0\<rparr>"
  by (cases s; simp add: pa_plus_def)+

lemma popped_of_bytes [simp]: "apo_bytes (aqt_popped_of rt c) = ajd_size c"
  by (simp add: aqt_popped_of_def)

interpretation to_transfer: pop_container "ArchiveQueueToTransferForUser (Suc fuel) now" "aq_poppable JobsToTransferForUser"
    "\<lambda>e. popped_key e" archive_job_owner "aq_avail JobsToTransferForUser" pa_positive for fuel now
  unfolding ArchiveQueueToTransferForUser_def
  by (rule aqt_pops [where mB = pa_bytes and mF = pa_files and rt = NoReportRequired])
    (rule zero_less_Suc pa_left pa_group, assumption?
      | simp add: aqt_getElementSummary_to_transfer_def aqt_candidates_to_transfer_def pa_count pa_positive_def)+

interpretation to_repack: pop_container "ArchiveQueueToTransferForRepack (Suc fuel) now" "aq_poppable JobsToTransferForRepack"
    "\<lambda>e. popped_key e" archive_job_owner "aq_avail JobsToTransferForRepack" pa_positive for fuel now
  unfolding ArchiveQueueToTransferForRepack_def
  by (rule aqt_pops [where mB = "\<lambda>_. - 1" and mF = pa_files and rt = Report])
    (rule zero_less_Suc pa_left pa_group, assumption?
      | simp add: aqt_candidates_to_transfer_for_repack_def pa_count pa_positive_def no_bytes_limit)+

interpretation to_report: pop_container "ArchiveQueueToReport (Suc fuel) now qt" "aq_poppable qt"
    "\<lambda>e. popped_key e" archive_job_owner "aq_avail qt" "\<lambda>n. 0 < n" for fuel now qt
  unfolding ArchiveQueueToReport_def
  by (rule aqt_pops [where mB = "\<lambda>_. - 1" and mF = id and rt = Report])
    (rule zero_less_Suc word_left, assumption? | simp add: aqt_candidates_to_report_def no_bytes_limit)+

end
