(* ===== verification/AlgorithmProperties.thy ===== *)
theory AlgorithmProperties
  imports ArchivePop ArchiveQueueProperties
begin

text \<open>
  The theorems on \<open>Algorithms.hpp\<close> for the archive queues: putting requests in a queue and taking them out never
  loses one, and a batch is popped in finitely many rounds. The instances run on the small store of
  \<open>ArchiveQueueProperties\<close>, with a root entry, an agent and the requests added.
\<close>

section \<open>A concrete store\<close>

definition sma_request :: "string \<Rightarrow> object_header" where
  "sma_request owner = smp_header (Payload_ArchiveRequest (ar_empty\<lparr>ar_jobs :=
     [\<lparr>aj_copynb = 1, aj_tapepool = ''pool'', aj_archivequeueaddress = '''', aj_owner = owner,
       aj_status = AJS_ToTransferForUser, aj_totalretries = 0, aj_retrieswithinmount = 0, aj_lastmountwithfailure = 0,
       aj_maxtotalretries = 1, aj_maxretrieswithinmount = 1, aj_failurelogs = [], aj_maxreportretries = 1,
       aj_totalreportretries = 0, aj_reportfailurelogs = []\<rparr>]\<rparr>))"

definition sma_agent :: agent where
  "sma_agent = \<lparr>ag_description = '''', ag_heartbeat = 0, ag_timeout_us = 0, ag_ownedobjects = [''R3'', ''R4''],
     ag_being_garbage_collected = False, ag_gc_needed = None\<rparr>"

definition sma_root :: root_entry where
  "sma_root = mutableArchiveQueuePointers JobsToTransferForUser (\<lambda>_. [\<lparr>aqp_address = ''Q'', aqp_name = ''pool''\<rparr>]) re_empty"

text \<open>The requests \<open>R1\<close> and \<open>R2\<close> are in the queue, \<open>R3\<close> and \<open>R4\<close> are on the agent's list; \<open>R2\<close> and \<open>R4\<close> have another owner.\<close>

definition sma_world :: world where
  "sma_world = smp_world\<lparr>
     objects := (objects smp_world)(''root'' \<mapsto> smp_header (Payload_RootEntry sma_root), ''agent'' \<mapsto> smp_header (Payload_Agent sma_agent),
       ''R1'' \<mapsto> sma_request ''Q'', ''R2'' \<mapsto> sma_request ''other'', ''R3'' \<mapsto> sma_request ''agent'', ''R4'' \<mapsto> sma_request ''other''),
     lockFiles := (\<lambda>n. n \<in> {''Q'', ''S'', ''root'', ''agent'', ''R1'', ''R2'', ''R3'', ''R4''})\<rparr>"

lemma sma_owners:
  "ar_owner_of sma_world ''R1'' 1 = Some ''Q''" "ar_owner_of sma_world ''R2'' 1 = Some ''other''"
  "ar_owner_of sma_world ''R3'' 1 = Some ''agent''" "ar_owner_of sma_world ''R4'' 1 = Some ''other''"
  by (simp_all add: ar_owner_of_def sma_world_def sma_request_def smp_header_def)

lemma sma_fresh: "fresh_ids sma_world k"
  by (simp add: fresh_ids_def sma_world_def smp_world_def childId_neq)

lemma sma_agent_owns: "agent_owns sma_world {''R3'', ''R4''}"
  unfolding agent_owns_def
  by (intro exI [of _ sma_agent]) (simp add: stored_def sma_world_def smp_world_def sma_agent_def smp_header_def codec_defs)

lemma sma_agentAddress: "agentAddress sma_world = ''agent''"
  by (simp add: sma_world_def smp_world_def)

abbreviation "sma_refs \<equiv> [(''R1'', 1), (''R2'', 1)] :: job_ref list"

lemma sma_avail: "aq_avail JobsToTransferForUser ''pool'' ''Q'' sma_world sma_refs"
proof -
  have "stored re_c sma_world re_address sma_root"
    by (simp add: stored_def sma_world_def re_address_def codec_defs smp_header_def)
  then have "aq_listed JobsToTransferForUser ''pool'' sma_world (Some ''Q'')" unfolding aq_listed_def
    by (intro exI [of _ sma_root]) (simp add: sma_root_def archive_queue_of_def findElement_def)
  moreover have "stored aq_c sma_world ''Q'' smp_payload" by (simp add: stored_def sma_world_def smp_world_def smp_header_def codec_defs)
  moreover have "aq_rep smp_payload smp_view" using smp_inv by (simp add: aq_inv_def smp_queue_def)
  moreover have "aq_store sma_world smp_view"
    by (simp add: aq_store_def sma_world_def smp_world_def smp_view_def stored_def smp_header_def archive_queue_shard_codec_def)
  moreover have "aq_filled smp_view" by (simp add: aq_filled_def fits_def smp_view_def smp_add_def aqs_job_pointer_def as_uint16_def)
  moreover have "sma_refs = map (\<lambda>j. pointer_key j) (view_jobs smp_view)" by (simp add: smp_view_def smp_add_def aqs_job_pointer_def)
  ultimately show ?thesis unfolding aq_avail_def by (intro disjI1 exI [of _ smp_payload] exI [of _ smp_view] conjI)
qed

lemma sma_reach: "aq_reach JobsToTransferForUser ''pool'' sma_world sma_refs"
  by (rule aq_avail_reach [OF sma_avail])

section \<open>Putting requests in a queue\<close>

text \<open>
  C38. \<open>referenceAndSwitchOwnership\<close>, for every kind of archive queue: the call returns, or reports with
  \<open>OwnershipSwitchFailure\<close> exactly the elements whose job belongs to neither the previous owner nor the queue. The
  queue, found or created, then references what it referenced and the jobs that were switched, in order, and no
  failed one; those jobs belong to the queue, the others keep their owner; and exactly the switched
  requests have left the agent's list. So every job stays referenced by the queue or on the list of the agent.
\<close>
theorem archive_requeue:
  assumes "aq_reach qt tp w refs" and "agent_owns w S" and "distinct (map fst refs)"
    and "distinct (map ain_archiveRequest es)" and "ain_archiveRequest ` set es \<inter> fst ` set refs = {}"
    and "length refs + length es < 2 ^ 64" and "fresh_ids w (Suc (length es))" and "Suc (length es) \<le> 2 ^ 64"
  shows "\<exists>ca failed w'. referenceAndSwitchOwnership (aqt_base fuel now qt su can no le pl mi) tp prev es w
      = (Inr (if failed = [] then Requeued else OwnershipSwitchFailure failed), w')
    \<and> map fst failed = filter (\<lambda>e. ar_owner_of w (ain_archiveRequest e) (ain_copyNb e) \<notin> {Some ca, Some prev}) es
    \<and> (\<exists>cont. aq_references qt tp w' cont (refs @ map (\<lambda>e. (ain_archiveRequest e, ain_copyNb e))
          (filter (\<lambda>e. ar_owner_of w (ain_archiveRequest e) (ain_copyNb e) \<in> {Some ca, Some prev}) es)) \<and> oo_name cont = ca)
    \<and> (\<forall>e \<in> set es. ar_owner_of w' (ain_archiveRequest e) (ain_copyNb e)
          = (if ar_owner_of w (ain_archiveRequest e) (ain_copyNb e) \<in> {Some ca, Some prev} then Some ca
             else ar_owner_of w (ain_archiveRequest e) (ain_copyNb e)))
    \<and> (\<forall>a c. a \<notin> ain_archiveRequest ` set es \<longrightarrow> ar_owner_of w' a c = ar_owner_of w a c)
    \<and> agent_owns w' (S - ain_archiveRequest ` {e \<in> set es. ar_owner_of w (ain_archiveRequest e) (ain_copyNb e) \<in> {Some ca, Some prev}})"
  using aqt.requeued [OF assms(1-3), of es, unfolded fst_conv snd_conv, OF assms(4-8)] by (simp only: split_paired_All fst_conv snd_conv)

definition sma_inserted :: "string \<Rightarrow> archive_inserted" where
  "sma_inserted a = \<lparr>ain_archiveRequest = a, ain_copyNb = 1, ain_archiveFile = archive_file_default, ain_mountPolicy = None, ain_newStatus = None\<rparr>"

theorem archive_requeue_witness:
  "\<exists>ca failed w'. referenceAndSwitchOwnership (ArchiveQueueToTransferForUser 1 0) ''pool'' ''agent'' [sma_inserted ''R3'', sma_inserted ''R4''] sma_world
      = (Inr (if failed = [] then Requeued else OwnershipSwitchFailure failed), w')
    \<and> map fst failed = filter (\<lambda>e. ar_owner_of sma_world (ain_archiveRequest e) (ain_copyNb e) \<notin> {Some ca, Some ''agent''}) [sma_inserted ''R3'', sma_inserted ''R4'']
    \<and> ar_owner_of w' ''R3'' 1 = Some ca"
proof -
  let ?es = "[sma_inserted ''R3'', sma_inserted ''R4'']"
  have es: "distinct (map fst sma_refs)" "distinct (map ain_archiveRequest ?es)" "ain_archiveRequest ` set ?es \<inter> fst ` set sma_refs = {}"
    "length sma_refs + length ?es < 2 ^ 64" "Suc (length ?es) \<le> 2 ^ 64" by (simp_all add: sma_inserted_def)
  obtain ca failed w' where
    "referenceAndSwitchOwnership (ArchiveQueueToTransferForUser 1 0) ''pool'' ''agent'' ?es sma_world
      = (Inr (if failed = [] then Requeued else OwnershipSwitchFailure failed), w')"
    "map fst failed = filter (\<lambda>e. ar_owner_of sma_world (ain_archiveRequest e) (ain_copyNb e) \<notin> {Some ca, Some ''agent''}) ?es"
    "\<forall>e \<in> set ?es. ar_owner_of w' (ain_archiveRequest e) (ain_copyNb e)
          = (if ar_owner_of sma_world (ain_archiveRequest e) (ain_copyNb e) \<in> {Some ca, Some ''agent''} then Some ca
             else ar_owner_of sma_world (ain_archiveRequest e) (ain_copyNb e))"
    using archive_requeue [OF sma_reach sma_agent_owns es(1-4) sma_fresh es(5), where prev = "''agent''" and fuel = 1 and now = 0
        and su = aqt_getElementSummary_to_transfer and can = aqt_candidates_to_transfer and no = "\<lparr>pa_files = 0, pa_bytes = 0\<rparr>"
        and le = pa_less and pl = pa_plus and mi = pa_minus]
    unfolding ArchiveQueueToTransferForUser_def by (elim exE conjE)
  then show ?thesis
    by (intro exI [of _ ca] exI [of _ failed] exI [of _ w'] conjI) (simp_all add: sma_inserted_def sma_owners)
qed

section \<open>Taking requests from a queue\<close>



lemma report_pop_ends:
  assumes "aq_avail qt tp ca w refs" and "distinct (map fst refs)" and "agent_owns w S" and "length refs < fuel"
  shows "\<exists>N w' refs'. popNextBatch fuel (ArchiveQueueToReport (Suc attempts) now qt) tp files w = (Inr (N, of_nat (length N)), w')
    \<and> aq_avail qt tp ca w' refs' \<and> length N + length refs' \<le> length refs
    \<and> (of_nat (length N) < files \<longrightarrow> refs' = [] \<or> (\<exists>(a, c) \<in> set refs'. ar_owner_of w' a c \<notin> {Some (agentAddress w), Some ca}))"
proof -
  obtain N s w' refs' S' where r: "popNextBatch fuel (ArchiveQueueToReport (Suc attempts) now qt) tp files w = (Inr (N, s), w')"
    "aq_avail qt tp ca w' refs'" "pop_effect (\<lambda>e. popped_key e) archive_job_owner ca (agentAddress w) w refs S w' refs' S' N"
    "s = fold (\<lambda>e t. ct_plus (ArchiveQueueToReport (Suc attempts) now qt) t (ct_getElementSummary (ArchiveQueueToReport (Suc attempts) now qt) e)) N
      (ct_none (ArchiveQueueToReport (Suc attempts) now qt))"
    "ct_less (ArchiveQueueToReport (Suc attempts) now qt) s files \<longrightarrow> refs' = [] \<or> (\<exists>r \<in> set refs'. archive_job_owner w' r \<notin> {Some (agentAddress w), Some ca})"
    using to_report.popped_batch [OF assms(1-3) refl assms(4), of attempts now files] by (elim exE conjE)
  have "fold (\<lambda>e t. t + 1) N n = n + of_nat (length N)" for n :: u64 by (induction N arbitrary: n) simp_all
  then have s: "s = of_nat (length N)" using r(4) by (simp add: ArchiveQueueToReport_def)
  have "length N + length refs' \<le> length refs" using pop_effect_length [OF assms(2) r(3)] .
  with r(1,2,5) show ?thesis unfolding s
    by (intro exI [of _ N] exI [of _ w'] exI [of _ refs']) (auto simp: ArchiveQueueToReport_def)
qed

text \<open>
  A queue that has shards, all of them empty. The loop of \<open>popNextBatch\<close> finds no candidate in it, removes nothing and does not
  trim it, so a round changes nothing but the list of the agent, which is written again as it was.
\<close>

definition aq_hollow :: "JobQueueType \<Rightarrow> string \<Rightarrow> string \<Rightarrow> world \<Rightarrow> bool" where
  "aq_hollow qt tp ca w \<longleftrightarrow> (\<exists>p v. aq_listed qt tp w (Some ca) \<and> stored aq_c w ca p \<and> aq_rep p v \<and> aq_store w v \<and> v \<noteq> [] \<and> view_jobs v = [])"

lemma aq_hollow_kept:
  assumes "aq_hollow qt tp ca w" and k: "keeps_containers w w'"
  shows "aq_hollow qt tp ca w'"
proof -
  obtain p v where v: "aq_listed qt tp w (Some ca)" "stored aq_c w ca p" "aq_rep p v" "aq_store w v" "v \<noteq> []" "view_jobs v = []"
    using assms(1) by (auto simp: aq_hollow_def)
  have "aq_store w' v" using v(4) keeps_stored [OF k, where c = aqs_c] by (fastforce simp: aq_store_def)
  moreover have "stored aq_c w' ca p" using keeps_stored [OF k v(2)] by simp
  ultimately show ?thesis unfolding aq_hollow_def using aq_listed_kept [OF v(1) k] v by blast
qed

lemma aq_hollow_found:
  assumes "aq_hollow qt tp ca w"
  shows "\<exists>cont v. aqt_getLockedAndFetchedNoCreate fuel qt tp w = (Inr cont, w) \<and> aq_held qt tp w cont v \<and> v \<noteq> [] \<and> view_jobs v = []"
proof -
  obtain p v where v: "aq_listed qt tp w (Some ca)" "stored aq_c w ca p" "aq_rep p v" "aq_store w v" "v \<noteq> []" "view_jobs v = []"
    using assms by (auto simp: aq_hollow_def)
  obtain r where r: "stored re_c w re_address r" "distinct (map aqp_name (archiveQueuePointers qt r))" "archive_queue_of r qt tp = Some ca"
    using v(1) by (auto simp: aq_listed_def)
  obtain cont where c: "aqt_lock_no_create fuel qt tp (oo_new aq_empty) w = (Inr cont, w)" "held cont" "oo_name cont = ca" "oo_payload cont = p"
    "objects w ca = Some (oo_header aq_c cont)" using lock_no_create_found [OF r v(2)] by blast
  have "ca \<notin> fst ` set v" using v(2,4) by (fastforce simp: aq_store_def stored_def codec_defs)
  then have "aq_held qt tp w cont v" using c v storedD [OF v(2)] by (simp add: aq_held_def aq_inv_def queue_ready_def vfs_exists_def)
  with c(1) v(5,6) show ?thesis by (auto simp: aqt_getLockedAndFetchedNoCreate_def)
qed

lemma hollow_round:
  assumes held: "aq_held qt tp w cont v" and v: "v \<noteq> []" "view_jobs v = []" and agent: "agent_owns w S"
  shows "\<exists>w'. pop_round (ArchiveQueueToReport fuel now qt) tp cont st w = (Inr (st\<lparr>ps_didTrim := False\<rparr>), w') \<and> keeps_containers w w' \<and> agent_owns w' S"
proof -
  have inv: "aq_inv w cont v" "held cont" using held by (simp_all add: aq_held_def aq_inv_def queue_ready_def)
  have "fits ajp_size (view_jobs v)" by (simp add: v(2) fits_def)
  from aq_getCandidateList_rep [OF inv(1) this, where maxBytes = "- 1" and maxFiles = "ps_unfulfilledCriteria st" and skip = "ps_elementsToSkip st"]
  have "aq_getCandidateList (- 1) (ps_unfulfilledCriteria st) (ps_elementsToSkip st) cont w
      = (Inr (candidates_of (\<lambda>j. ajp_address j \<in> ps_elementsToSkip st) ajp_size aqs_job_dump [] []), w)" by (auto simp: v(2))
  then have cand: "aqt_candidates_to_report (ps_unfulfilledCriteria st) (ps_elementsToSkip st) cont w = (Inr (([], 0), cont), w)"
    by (simp add: aqt_candidates_to_report_def candidates_of_def)
  have "aq_references qt tp w cont []" using held v(2) by (auto simp: aq_references_def)
  then have sum: "aqt_getContainerSummary cont = Inr ()" by (rule aq_references_summary)
  obtain w' where own: "ref_addBatchToOwnership [] w = (Inr (), w')" "agent_owns w' S" "keeps (\<lambda>p. \<not> is_agent p) w w'"
    using agent_adds [OF agent, of "[]"] by auto
  have k: "keeps_containers w w'" by (rule keeps_mono [OF own(3)], erule kinds_disjoint)
  have "aq_archivequeueshards (oo_payload cont) \<noteq> []" using inv v(1) by (simp add: aq_inv_def aq_rep_def)
  then have rest: "aq_removeJobsAndCommit [] cont w' = (Inr cont, w')" "aqt_trimContainerIfNeeded qt tp cont w' = (Inr False, w')"
    using inv(2) by (simp_all add: aq_removeJobsAndCommit_def aq_remove_rounds_stop aqt_trimContainerIfNeeded_def aq_isEmpty_def)
  have "pop_round (ArchiveQueueToReport fuel now qt) tp cont st w = (Inr (st\<lparr>ps_didTrim := False\<rparr>), w')"
    using sum cand own(1) rest inv(2) by (simp add: pop_round_def ArchiveQueueToReport_def Let_def switchElementsOwnership_def bnd_def)
  with k own(2) show ?thesis by blast
qed

lemma hollow_rounds:
  assumes "aq_hollow qt tp ca w" and "agent_owns w S" and "\<not> ps_unexpectedException st" "\<not> ps_didTrim st" "ps_summary st < files"
  shows "\<exists>w'. pop_rounds rounds (ArchiveQueueToReport fuel now qt) tp files st w = (Inl OutOfFuel, w')"
  using assms
proof (induction rounds arbitrary: w)
  case 0
  then show ?case by (simp add: pop_rounds.simps [of 0] ArchiveQueueToReport_def aqt_base_def)
next
  case (Suc rounds)
  let ?tr = "ArchiveQueueToReport fuel now qt"
  obtain cont v where c: "aqt_getLockedAndFetchedNoCreate fuel qt tp w = (Inr cont, w)" "aq_held qt tp w cont v" "v \<noteq> []" "view_jobs v = []"
    using aq_hollow_found [OF Suc.prems(1)] by blast
  obtain w1 where r: "pop_round ?tr tp cont st w = (Inr (st\<lparr>ps_didTrim := False\<rparr>), w1)" "keeps_containers w w1" "agent_owns w1 S"
    using hollow_round [OF c(2-4) Suc.prems(2)] by blast
  have "st\<lparr>ps_didTrim := False\<rparr> = st" using Suc.prems(4) by (cases st) simp
  with r(1) have "pop_round ?tr tp cont st w = (Inr st, w1)" by simp
  moreover obtain w' where "pop_rounds rounds ?tr tp files st w1 = (Inl OutOfFuel, w')"
    using Suc.IH [OF aq_hollow_kept [OF Suc.prems(1) r(2)] r(3) Suc.prems(3-5)] by blast
  moreover have "ct_getLockedAndFetchedNoCreate ?tr tp w = (Inr cont, w)" "ct_less ?tr (ps_summary st) files"
    using c(1) Suc.prems(5) by (simp_all add: ArchiveQueueToReport_def aqt_base_def)
  ultimately show ?case using Suc.prems(3,4) by (simp add: pop_rounds.simps [of "Suc rounds"])
qed

text \<open>
  C40. When \<open>popNextBatch\<close> on a queue of jobs to report ends, and when it does not; the list of the running agent is in the store. It ends when
  the queue is in agreement with its shards, every shard holds at least one job, the jobs are of distinct requests and have at most \<open>2 ^ 64 - 1\<close> bytes
  and copy numbers of 16 bits, or when there is no such queue: after at most one round more than there are references, with
  a summary that counts the elements of the batch; when the batch is smaller than asked for, the queue has no reference left, or it
  holds a job that belongs to neither the queue nor the agent and could not be taken. It does not end when
  at least one element is asked for and the queue, in agreement with its shards, has a shard but no jobs: no number of rounds is enough.
\<close>
theorem archive_pop_ends:
  assumes "agent_owns w S"
  shows "(aq_avail qt tp ca w refs \<and> distinct (map fst refs) \<and> length refs < fuel \<longrightarrow>
      (\<exists>N w' refs'. popNextBatch fuel (ArchiveQueueToReport (Suc attempts) now qt) tp files w = (Inr (N, of_nat (length N)), w')
        \<and> aq_avail qt tp ca w' refs' \<and> length N + length refs' \<le> length refs
        \<and> (of_nat (length N) < files \<longrightarrow> refs' = [] \<or> (\<exists>(a, c) \<in> set refs'. ar_owner_of w' a c \<notin> {Some (agentAddress w), Some ca}))))
    \<and> (aq_hollow qt tp ca w \<and> 0 < files \<longrightarrow>
        (\<forall>rounds. \<exists>w'. popNextBatch rounds (ArchiveQueueToReport (Suc attempts) now qt) tp files w = (Inl OutOfFuel, w')))"
proof (intro conjI impI allI)
  assume "aq_avail qt tp ca w refs \<and> distinct (map fst refs) \<and> length refs < fuel"
  then show "\<exists>N w' refs'. popNextBatch fuel (ArchiveQueueToReport (Suc attempts) now qt) tp files w = (Inr (N, of_nat (length N)), w')
      \<and> aq_avail qt tp ca w' refs' \<and> length N + length refs' \<le> length refs
      \<and> (of_nat (length N) < files \<longrightarrow> refs' = [] \<or> (\<exists>(a, c) \<in> set refs'. ar_owner_of w' a c \<notin> {Some (agentAddress w), Some ca}))"
    using report_pop_ends [OF _ _ assms] by blast
next
  fix rounds assume "aq_hollow qt tp ca w \<and> 0 < files"
  then obtain w' where "pop_rounds rounds (ArchiveQueueToReport (Suc attempts) now qt) tp files
      \<lparr>ps_elements = [], ps_summary = 0, ps_unfulfilledCriteria = files, ps_elementsToSkip = {}, ps_unexpectedException = False, ps_didTrim = False\<rparr> w
      = (Inl OutOfFuel, w')" using hollow_rounds [OF _ assms, of qt tp ca] by fastforce
  then show "\<exists>w'. popNextBatch rounds (ArchiveQueueToReport (Suc attempts) now qt) tp files w = (Inl OutOfFuel, w')"
    by (auto simp: popNextBatch_def ArchiveQueueToReport_def aqt_base_def)
qed

definition smh_payload :: archive_queue where
  "smh_payload = \<lparr>aq_tapepool = ''pool'', aq_archivequeueshards = [aq_pointer_of (''S'', [])], aq_prioritymap = [],
     aq_minarchiverequestagemap = [], aq_mountpolicynamemap = [], aq_archivejobstotalsize = 0,
     aq_archivejobscount = 0, aq_oldestjobcreationtime = 0, aq_mapsrebuildcount = 0, aq_youngestjobcreationtime = 0\<rparr>"

definition smh_world :: world where
  "smh_world = sma_world\<lparr>objects := (objects sma_world)(''Q'' \<mapsto> smp_header (Payload_ArchiveQueue smh_payload),
     ''S'' \<mapsto> smp_header (Payload_ArchiveQueueShard (aq_shard_of [])))\<rparr>"

lemma smh_agent_owns: "agent_owns smh_world {''R3'', ''R4''}"
  unfolding agent_owns_def
  by (intro exI [of _ sma_agent]) (simp add: stored_def smh_world_def sma_world_def smp_world_def sma_agent_def smp_header_def codec_defs)

lemma smh_hollow: "aq_hollow JobsToTransferForUser ''pool'' ''Q'' smh_world"
proof -
  have "stored re_c smh_world re_address sma_root"
    by (simp add: stored_def smh_world_def sma_world_def re_address_def codec_defs smp_header_def)
  then have "aq_listed JobsToTransferForUser ''pool'' smh_world (Some ''Q'')" unfolding aq_listed_def
    by (intro exI [of _ sma_root]) (simp add: sma_root_def archive_queue_of_def findElement_def)
  moreover have "stored aq_c smh_world ''Q'' smh_payload"
    by (simp add: stored_def smh_world_def sma_world_def smp_world_def smp_header_def codec_defs)
  moreover have "aq_rep smh_payload [(''S'', [])]" by (simp add: aq_rep_def smh_payload_def aq_sums_def aq_maps_def represents_def)
  moreover have "aq_store smh_world [(''S'', [])]"
    by (simp add: aq_store_def smh_world_def sma_world_def smp_world_def stored_def smp_header_def archive_queue_shard_codec_def)
  ultimately show ?thesis unfolding aq_hollow_def by (intro exI [of _ smh_payload] exI [of _ "[(''S'', [])]"] conjI) simp_all
qed

theorem archive_pop_ends_witness:
  "(\<exists>N w' refs'. popNextBatch 3 (ArchiveQueueToReport 1 0 JobsToTransferForUser) ''pool'' 5 sma_world = (Inr (N, of_nat (length N)), w')
      \<and> aq_avail JobsToTransferForUser ''pool'' ''Q'' w' refs' \<and> length N + length refs' \<le> 2)
    \<and> (\<exists>w'. popNextBatch 1000 (ArchiveQueueToReport 1 0 JobsToTransferForUser) ''pool'' 5 smh_world = (Inl OutOfFuel, w'))"
proof (rule conjI)
  have "aq_avail JobsToTransferForUser ''pool'' ''Q'' sma_world sma_refs \<and> distinct (map fst sma_refs) \<and> length sma_refs < 3"
    using sma_avail by simp
  with archive_pop_ends [OF sma_agent_owns, of JobsToTransferForUser "''pool''" "''Q''" sma_refs 3 0 0 5] obtain N w' refs' where
    "popNextBatch 3 (ArchiveQueueToReport (Suc 0) 0 JobsToTransferForUser) ''pool'' 5 sma_world = (Inr (N, of_nat (length N)), w')"
    "aq_avail JobsToTransferForUser ''pool'' ''Q'' w' refs'" "length N + length refs' \<le> length sma_refs" by blast
  then show "\<exists>N w' refs'. popNextBatch 3 (ArchiveQueueToReport 1 0 JobsToTransferForUser) ''pool'' 5 sma_world = (Inr (N, of_nat (length N)), w')
      \<and> aq_avail JobsToTransferForUser ''pool'' ''Q'' w' refs' \<and> length N + length refs' \<le> 2"
    by (intro exI [of _ N] exI [of _ w'] exI [of _ refs'] conjI) simp_all
  have "aq_hollow JobsToTransferForUser ''pool'' ''Q'' smh_world \<and> 0 < (5 :: u64)" using smh_hollow by simp
  with archive_pop_ends [OF smh_agent_owns, of JobsToTransferForUser "''pool''" "''Q''" "[]" 1 0 0 5]
  have "\<exists>w'. popNextBatch 1000 (ArchiveQueueToReport (Suc 0) 0 JobsToTransferForUser) ''pool'' 5 smh_world = (Inl OutOfFuel, w')" by blast
  then show "\<exists>w'. popNextBatch 1000 (ArchiveQueueToReport 1 0 JobsToTransferForUser) ''pool'' 5 smh_world = (Inl OutOfFuel, w')" by simp
qed

end
