(* ===== verification/RepackRequest.thy ===== *)
theory RepackRequest
  imports ArchiveQueueAlgorithms
begin

text \<open>
  \<open>objectstore/RepackRequest.cpp\<close> and \<open>.hpp\<close>: the request to move the files of a tape, or to add copies of
  them. It is expanded to one sub-request per file, which retrieves the file and then archives it again; the
  reports on these are accounted here, and the status of the request follows from the counts. \<open>AgentWrapper.cpp\<close>
  is here as well. After an exception the image of the request in memory is given up.
\<close>

section \<open>Data\<close>

abbreviation "rpr_c \<equiv> repack_request_codec"

text \<open>
  \<open>RepackInfo::Status\<close> has the values of the protocol buffer and is cast into it; its \<open>Undefined\<close> is never stored.
\<close>

datatype RepackInfo_Type = MoveAndAddCopies | AddCopiesOnly | MoveOnly | UndefinedRepackType

record RepackInfo =
  rpi_vid :: string
  rpi_repackBufferBaseURL :: string
  rpi_type :: RepackInfo_Type
  rpi_status :: RepackRequestStatus
  rpi_totalFilesToArchive :: u64
  rpi_totalBytesToArchive :: u64
  rpi_totalFilesToRetrieve :: u64
  rpi_totalBytesToRetrieve :: u64
  rpi_failedFilesToArchive :: u64
  rpi_failedBytesToArchive :: u64
  rpi_failedFilesToRetrieve :: u64
  rpi_failedBytesToRetrieve :: u64
  rpi_lastExpandedFseq :: u64
  rpi_userProvidedFiles :: u64
  rpi_retrievedFiles :: u64
  rpi_retrievedBytes :: u64
  rpi_archivedFiles :: u64
  rpi_archivedBytes :: u64
  rpi_isExpandFinished :: bool
  rpi_forceDisabledTape :: bool
  rpi_noRecall :: bool
  rpi_creationLog :: entry_log
  rpi_repackFinishedTime :: time_t
  rpi_destinationInfos :: "repack_destination_info list"

definition rpi_getQueueType :: "RepackRequestStatus \<Rightarrow> bool \<Rightarrow> exn + RepackQueueType" where
  "rpi_getQueueType status isExpandFinished = (case status of
     RRS_Pending \<Rightarrow> Inr RepackQueuePending
   | RRS_ToExpand \<Rightarrow> Inr RepackQueueToExpand
   | RRS_Running \<Rightarrow> if \<not> isExpandFinished then Inr RepackQueueToExpand else Inl (CtaException ''RepackInfo::getQueueType'')
   | RRS_Starting \<Rightarrow> if \<not> isExpandFinished then Inr RepackQueueToExpand else Inl (CtaException ''RepackInfo::getQueueType'')
   | _ \<Rightarrow> Inl (CtaException ''RepackInfo::getQueueType''))"

text \<open>The pointer to a sub-request in memory: the set of accounted copies is a sorted list.\<close>

record rpr_pointer =
  rsp_address :: string
  rsp_fSeq :: u64
  rsp_retrieveAccounted :: bool
  rsp_archiveCopyNbsAccounted :: "u32 list"
  rsp_subrequestDeleted :: bool

record rpr_SubrequestInfo =
  sri_address :: string
  sri_fSeq :: u64
  sri_subrequestDeleted :: bool

record rpr_SubrequestStatistics =
  srs_fSeq :: u64
  srs_files :: u64
  srs_bytes :: u64
  srs_copyNb :: u32
  srs_subrequestDeleted :: bool
  srs_hasUserProvidedFile :: bool
  srs_destinationVid :: string

record rpr_TotalStatsFiles =
  tsf_totalFilesToArchive :: u64
  tsf_totalBytesToArchive :: u64
  tsf_totalFilesToRetrieve :: u64
  tsf_totalBytesToRetrieve :: u64
  tsf_userProvidedFiles :: u64

datatype rpr_StatsType =
    UserProvided | RetrieveSuccess | RetrieveFailure | RetrieveTotal | ArchiveSuccess | ArchiveFailure | ArchiveTotal

record rpr_StatsValues =
  stv_files :: u64
  stv_bytes :: u64

record rpr_Subrequest =
  sub_fSeq :: u64
  sub_archiveFile :: archive_file
  sub_copyNbsToRearchive :: "u32 set"
  sub_fileBufferURL :: string
  sub_hasUserProvidedFile :: bool

section \<open>The agent wrapper\<close>

definition agw_update :: "(agent oo \<Rightarrow> exn + agent oo) \<Rightarrow> agent oo \<Rightarrow> (world, unit) prog" where
  "agw_update f m_agent =
     bnd (exclusive_lock m_agent) (\<lambda>ag.
     bnd (oo_fetch ag_c ag) (\<lambda>ag.
     bnd (liftr (f ag)) (\<lambda>ag.
     oo_commit ag_c ag)))"

definition agw_addToOwnership :: "string \<Rightarrow> agent oo \<Rightarrow> (world, unit) prog" where
  "agw_addToOwnership objectAddress = agw_update (ag_addToOwnership objectAddress)"

definition agw_addBatchToOwnership :: "string list \<Rightarrow> agent oo \<Rightarrow> (world, unit) prog" where
  "agw_addBatchToOwnership objectAdresses = agw_update (\<lambda>ag. foldR (\<lambda>ag a. ag_addToOwnership a ag) ag objectAdresses)"

definition agw_removeFromOwnership :: "string \<Rightarrow> agent oo \<Rightarrow> (world, unit) prog" where
  "agw_removeFromOwnership objectAddress = agw_update (ag_removeFromOwnership objectAddress)"

definition agw_removeBatchFromOwnership :: "string list \<Rightarrow> agent oo \<Rightarrow> (world, unit) prog" where
  "agw_removeBatchFromOwnership objectAdresses = agw_update (\<lambda>ag. foldR (\<lambda>ag a. ag_removeFromOwnership a ag) ag objectAdresses)"

section \<open>Parameters\<close>

definition rpr_initialize :: "repack_request oo \<Rightarrow> exn + repack_request oo" where
  "rpr_initialize ob = rbind (oo_initialize ob) (\<lambda>ob1.
     Inr (ob1\<lparr>oo_payload := (oo_payload ob1)\<lparr>rpr_status := RRS_Pending, rpr_add_copies_mode := True, rpr_move_mode := True,
            rpr_totalfilestoretrieve := 0, rpr_totalbytestoretrieve := 0, rpr_totalfilestoarchive := 0, rpr_totalbytestoarchive := 0,
            rpr_userprovidedfiles := 0, rpr_userprovidedbytes := 0, rpr_retrievedfiles := 0, rpr_retrievedbytes := 0,
            rpr_archivedfiles := 0, rpr_archivedbytes := 0, rpr_failedtoretrievefiles := 0, rpr_failedtoretrievebytes := 0,
            rpr_failedtocreatearchivereq := 0, rpr_failedtoarchivefiles := 0, rpr_failedtoarchivebytes := 0,
            rpr_lastexpandedfseq := 0, rpr_is_expand_finished := False, rpr_is_expand_started := False,
            rpr_force_disabled_tape := False, rpr_no_recall := False, rpr_is_complete := False, rpr_repack_finished_time := 0\<rparr>,
            oo_payloadInterpreted := True\<rparr>))"

definition rpr_write :: "(repack_request \<Rightarrow> repack_request) \<Rightarrow> repack_request oo \<Rightarrow> exn + repack_request oo" where
  "rpr_write f ob = rbind (checkPayloadWritable ob) (\<lambda>_. Inr (ob\<lparr>oo_payload := f (oo_payload ob)\<rparr>))"

definition rpr_read :: "(repack_request \<Rightarrow> 'a) \<Rightarrow> repack_request oo \<Rightarrow> exn + 'a" where
  "rpr_read f ob = rbind (checkPayloadReadable ob) (\<lambda>_. Inr (f (oo_payload ob)))"

definition rpr_setVid :: "string \<Rightarrow> repack_request oo \<Rightarrow> exn + repack_request oo" where
  "rpr_setVid vid ob = rbind (checkPayloadWritable ob) (\<lambda>_.
     if vid = '''' then Inl (CtaException ''RepackRequest::setVid'')
     else Inr (ob\<lparr>oo_payload := (oo_payload ob)\<lparr>rpr_vid := vid\<rparr>\<rparr>))"

definition rpr_setType :: "RepackInfo_Type \<Rightarrow> repack_request oo \<Rightarrow> exn + repack_request oo" where
  "rpr_setType repackType ob = rbind (checkPayloadWritable ob) (\<lambda>_. case repackType of
     MoveAndAddCopies \<Rightarrow> Inr ob
   | AddCopiesOnly \<Rightarrow> Inr (ob\<lparr>oo_payload := (oo_payload ob)\<lparr>rpr_move_mode := False\<rparr>\<rparr>)
   | MoveOnly \<Rightarrow> Inr (ob\<lparr>oo_payload := (oo_payload ob)\<lparr>rpr_add_copies_mode := False\<rparr>\<rparr>)
   | UndefinedRepackType \<Rightarrow> Inl (CtaException ''RepackRequest::setRepackType''))"

definition rpr_setStatus_to :: "time_t \<Rightarrow> RepackRequestStatus \<Rightarrow> repack_request oo \<Rightarrow> exn + repack_request oo" where
  "rpr_setStatus_to now repackStatus = rpr_write (\<lambda>p.
     (if repackStatus = RRS_Complete \<or> repackStatus = RRS_Failed then p\<lparr>rpr_repack_finished_time := now\<rparr> else p)
       \<lparr>rpr_status := repackStatus\<rparr>)"

definition rpr_type_of :: "string \<Rightarrow> repack_request \<Rightarrow> exn + RepackInfo_Type" where
  "rpr_type_of caller p =
     (if rpr_move_mode p then Inr (if rpr_add_copies_mode p then MoveAndAddCopies else MoveOnly)
      else if rpr_add_copies_mode p then Inr AddCopiesOnly
      else Inl (CtaException caller))"

definition rpr_getInfo :: "repack_request oo \<Rightarrow> exn + RepackInfo" where
  "rpr_getInfo ob = rbind (checkPayloadReadable ob) (\<lambda>_.
     let p = oo_payload ob in
     rbind (rpr_type_of ''RepackRequest::getInfo'' p) (\<lambda>type.
     Inr \<lparr>rpi_vid = rpr_vid p, rpi_repackBufferBaseURL = rpr_buffer_url p, rpi_type = type, rpi_status = rpr_status p,
          rpi_totalFilesToArchive = rpr_totalfilestoarchive p, rpi_totalBytesToArchive = rpr_totalbytestoarchive p,
          rpi_totalFilesToRetrieve = rpr_totalfilestoretrieve p, rpi_totalBytesToRetrieve = rpr_totalbytestoretrieve p,
          rpi_failedFilesToArchive = rpr_failedtoarchivefiles p, rpi_failedBytesToArchive = rpr_failedtoarchivebytes p,
          rpi_failedFilesToRetrieve = rpr_failedtoretrievefiles p, rpi_failedBytesToRetrieve = rpr_failedtoretrievebytes p,
          rpi_lastExpandedFseq = rpr_lastexpandedfseq p, rpi_userProvidedFiles = rpr_userprovidedfiles p,
          rpi_retrievedFiles = rpr_retrievedfiles p, rpi_retrievedBytes = rpr_retrievedbytes p,
          rpi_archivedFiles = rpr_archivedfiles p, rpi_archivedBytes = rpr_archivedbytes p,
          rpi_isExpandFinished = rpr_is_expand_finished p, rpi_forceDisabledTape = rpr_force_disabled_tape p,
          rpi_noRecall = rpr_no_recall p, rpi_creationLog = rpr_creation_log p,
          rpi_repackFinishedTime = rpr_repack_finished_time p, rpi_destinationInfos = rpr_destination_infos p\<rparr>))"

definition rpr_setExpandFinished :: "bool \<Rightarrow> repack_request oo \<Rightarrow> exn + repack_request oo" where
  "rpr_setExpandFinished expandFinished = rpr_write (\<lambda>p. p\<lparr>rpr_is_expand_finished := expandFinished\<rparr>)"

definition rpr_setExpandStarted :: "bool \<Rightarrow> repack_request oo \<Rightarrow> exn + repack_request oo" where
  "rpr_setExpandStarted expandStarted = rpr_write (\<lambda>p. p\<lparr>rpr_is_expand_started := expandStarted\<rparr>)"

definition rpr_setTotalFileToRetrieve :: "u64 \<Rightarrow> repack_request oo \<Rightarrow> exn + repack_request oo" where
  "rpr_setTotalFileToRetrieve nbFilesToRetrieve = rpr_write (\<lambda>p. p\<lparr>rpr_totalfilestoretrieve := nbFilesToRetrieve\<rparr>)"

definition rpr_setTotalBytesToRetrieve :: "u64 \<Rightarrow> repack_request oo \<Rightarrow> exn + repack_request oo" where
  "rpr_setTotalBytesToRetrieve nbBytesToRetrieve = rpr_write (\<lambda>p. p\<lparr>rpr_totalbytestoretrieve := nbBytesToRetrieve\<rparr>)"

definition rpr_setTotalFileToArchive :: "u64 \<Rightarrow> repack_request oo \<Rightarrow> exn + repack_request oo" where
  "rpr_setTotalFileToArchive nbFilesToArchive = rpr_write (\<lambda>p. p\<lparr>rpr_totalfilestoarchive := nbFilesToArchive\<rparr>)"

definition rpr_setTotalBytesToArchive :: "u64 \<Rightarrow> repack_request oo \<Rightarrow> exn + repack_request oo" where
  "rpr_setTotalBytesToArchive nbBytesToArchive = rpr_write (\<lambda>p. p\<lparr>rpr_totalbytestoarchive := nbBytesToArchive\<rparr>)"

definition rpr_setUserProvidedFiles :: "u64 \<Rightarrow> repack_request oo \<Rightarrow> exn + repack_request oo" where
  "rpr_setUserProvidedFiles userProvidedFiles = rpr_write (\<lambda>p. p\<lparr>rpr_userprovidedfiles := userProvidedFiles\<rparr>)"

definition rpr_setTotalStats :: "rpr_TotalStatsFiles \<Rightarrow> repack_request oo \<Rightarrow> exn + repack_request oo" where
  "rpr_setTotalStats s ob =
     rbind (rpr_setTotalFileToRetrieve (tsf_totalFilesToRetrieve s) ob) (\<lambda>ob.
     rbind (rpr_setTotalFileToArchive (tsf_totalFilesToArchive s) ob) (\<lambda>ob.
     rbind (rpr_setTotalBytesToArchive (tsf_totalBytesToArchive s) ob) (\<lambda>ob.
     rbind (rpr_setTotalBytesToRetrieve (tsf_totalBytesToRetrieve s) ob) (\<lambda>ob.
     rpr_setUserProvidedFiles (tsf_userProvidedFiles s) ob))))"

definition rpr_getTotalStatsFile :: "repack_request oo \<Rightarrow> exn + rpr_TotalStatsFiles" where
  "rpr_getTotalStatsFile = rpr_read (\<lambda>p.
     \<lparr>tsf_totalFilesToArchive = rpr_totalfilestoarchive p, tsf_totalBytesToArchive = rpr_totalbytestoarchive p,
      tsf_totalFilesToRetrieve = rpr_totalfilestoretrieve p, tsf_totalBytesToRetrieve = rpr_totalbytestoretrieve p,
      tsf_userProvidedFiles = rpr_userprovidedfiles p\<rparr>)"

definition rpr_setMountPolicy :: "mount_policy \<Rightarrow> repack_request oo \<Rightarrow> exn + repack_request oo" where
  "rpr_setMountPolicy mp = rpr_write (\<lambda>p. p\<lparr>rpr_mount_policy := mp, rpr_mountpolicyname := mp_name mp\<rparr>)"

definition rpr_getMountPolicy :: "repack_request oo \<Rightarrow> exn + mount_policy" where
  "rpr_getMountPolicy = rpr_read rpr_mount_policy"

definition rpr_setIsComplete :: "bool \<Rightarrow> repack_request oo \<Rightarrow> exn + repack_request oo" where
  "rpr_setIsComplete isComplete = rpr_write (\<lambda>p. p\<lparr>rpr_is_complete := isComplete\<rparr>)"

definition rpr_setCreationLog :: "entry_log \<Rightarrow> repack_request oo \<Rightarrow> exn + repack_request oo" where
  "rpr_setCreationLog creationLog = rpr_write (\<lambda>p. p\<lparr>rpr_creation_log := creationLog\<rparr>)"

definition rpr_getCreationLog :: "repack_request oo \<Rightarrow> exn + entry_log" where
  "rpr_getCreationLog = rpr_read rpr_creation_log"

definition rpr_setForceDisabledTape :: "bool \<Rightarrow> repack_request oo \<Rightarrow> exn + repack_request oo" where
  "rpr_setForceDisabledTape disabledTape = rpr_write (\<lambda>p. p\<lparr>rpr_force_disabled_tape := disabledTape\<rparr>)"

definition rpr_getForceDisabledTape :: "repack_request oo \<Rightarrow> exn + bool" where
  "rpr_getForceDisabledTape = rpr_read rpr_force_disabled_tape"

definition rpr_setNoRecall :: "bool \<Rightarrow> repack_request oo \<Rightarrow> exn + repack_request oo" where
  "rpr_setNoRecall noRecall = rpr_write (\<lambda>p. p\<lparr>rpr_no_recall := noRecall\<rparr>)"

definition rpr_getNoRecall :: "repack_request oo \<Rightarrow> exn + bool" where
  "rpr_getNoRecall = rpr_read rpr_no_recall"

definition rpr_isExpandFinished :: "repack_request oo \<Rightarrow> exn + bool" where
  "rpr_isExpandFinished = rpr_read rpr_is_expand_finished"

definition rpr_setBufferURL :: "string \<Rightarrow> repack_request oo \<Rightarrow> exn + repack_request oo" where
  "rpr_setBufferURL bufferURL = rpr_write (\<lambda>p. p\<lparr>rpr_buffer_url := bufferURL\<rparr>)"

definition rpr_setLastExpandedFSeq :: "u64 \<Rightarrow> repack_request oo \<Rightarrow> exn + repack_request oo" where
  "rpr_setLastExpandedFSeq lastExpandedFSeq = rpr_write (\<lambda>p. p\<lparr>rpr_lastexpandedfseq := lastExpandedFSeq\<rparr>)"

definition rpr_getLastExpandedFSeq :: "repack_request oo \<Rightarrow> exn + u64" where
  "rpr_getLastExpandedFSeq = rpr_read rpr_lastexpandedfseq"

section \<open>Destinations\<close>

fun rpr_add_destination :: "u64 \<Rightarrow> string \<Rightarrow> repack_destination_info list \<Rightarrow> repack_destination_info list" where
  "rpr_add_destination fileSize destinationVid [] = [\<lparr>rdi_vid = destinationVid, rdi_files = 0 + 1, rdi_bytes = 0 + fileSize\<rparr>]"
| "rpr_add_destination fileSize destinationVid (info # infos) =
     (if rdi_vid info = destinationVid
      then info\<lparr>rdi_files := rdi_files info + 1, rdi_bytes := rdi_bytes info + fileSize\<rparr> # infos
      else info # rpr_add_destination fileSize destinationVid infos)"

definition rpr_updateRepackDestinationInfos :: "archive_file \<Rightarrow> string \<Rightarrow> repack_request oo \<Rightarrow> exn + repack_request oo" where
  "rpr_updateRepackDestinationInfos archiveFile destinationVid = rpr_write (\<lambda>p.
     p\<lparr>rpr_destination_infos := rpr_add_destination (af_filesize archiveFile) destinationVid (rpr_destination_infos p)\<rparr>)"

definition rpr_getRepackDestinationInfos :: "repack_request oo \<Rightarrow> exn + repack_destination_info list" where
  "rpr_getRepackDestinationInfos = rpr_read rpr_destination_infos"

section \<open>Deleting the sub-requests\<close>

text \<open>
  A batch of at most 500 deletions is launched and then waited for. All are carried out; the first failure
  that the waiting finds is thrown, and an object that was gone already ends the waiting.
\<close>

definition rpr_delete_batch :: "string list \<Rightarrow> (world, unit) prog" where
  "rpr_delete_batch addresses =
     bnd (foldM (\<lambda>failures a. bnd (attempt (vfs_asyncDelete a)) (\<lambda>r. ret (case r of Inl e \<Rightarrow> failures @ [e] | Inr _ \<Rightarrow> failures)))
            [] addresses) (\<lambda>failures. case failures of
       [] \<Rightarrow> ret ()
     | e # _ \<Rightarrow> if e = NoSuchObject then ret () else throw e)"

function rpr_delete_batches :: "string list \<Rightarrow> (world, unit) prog" where
  "rpr_delete_batches addresses =
     (if addresses = [] then ret ()
      else bnd (rpr_delete_batch (take 500 addresses)) (\<lambda>_. rpr_delete_batches (drop 500 addresses)))"
  by auto
termination by (relation "measure length") auto

declare rpr_delete_batches.simps [simp del]

definition rpr_deleteAllSubrequests :: "repack_request oo \<Rightarrow> (world, repack_request oo) prog" where
  "rpr_deleteAllSubrequests ob =
     bnd (liftr (checkPayloadWritable ob)) (\<lambda>_.
     let p = oo_payload ob in
     if rpr_is_complete p then ret ob
     else bnd (rpr_delete_batches (map rsrp_address (rpr_subrequests p))) (\<lambda>_.
          ret (ob\<lparr>oo_payload := p\<lparr>rpr_destination_infos := [],
                    rpr_subrequests := map (\<lambda>s. s\<lparr>rsrp_subrequest_deleted := True\<rparr>) (rpr_subrequests p)\<rparr>\<rparr>)))"

section \<open>The status\<close>

definition rpr_removeFromOwnerAgentOwnership :: "repack_request oo \<Rightarrow> (world, unit) prog" where
  "rpr_removeFromOwnerAgentOwnership ob =
     bnd (liftr (checkPayloadReadable ob)) (\<lambda>_.
     bnd (liftr (checkPayloadWritable ob)) (\<lambda>_.
     bnd (liftr (getOwner ob)) (\<lambda>owner.
     bnd (liftr (ag_at owner)) (\<lambda>ag.
     bnd (liftr (getAddressIfSet ob)) (\<lambda>a.
     agw_removeFromOwnership a ag)))))"

text \<open>The test for the end of the repack, on the sums of 64 bit counters.\<close>

definition rpr_all_done :: "repack_request \<Rightarrow> bool" where
  "rpr_all_done p \<longleftrightarrow> rpr_retrievedfiles p + rpr_failedtoretrievefiles p \<ge> rpr_totalfilestoretrieve p
     \<and> rpr_archivedfiles p + rpr_failedtoarchivefiles p + rpr_failedtocreatearchivereq p \<ge> rpr_totalfilestoarchive p"

definition rpr_setStatus :: "time_t \<Rightarrow> repack_request oo \<Rightarrow> (world, repack_request oo) prog" where
  "rpr_setStatus now ob =
     bnd (liftr (checkPayloadWritable ob)) (\<lambda>_.
     bnd (liftr (checkPayloadReadable ob)) (\<lambda>_.
     let p = oo_payload ob in
     if \<not> rpr_is_expand_started p then ret ob
     else if rpr_is_expand_finished p \<and> rpr_all_done p
     then bnd (liftr (rpr_setStatus_to now
                  (if rpr_failedtoretrievefiles p \<noteq> 0 \<or> rpr_failedtoarchivefiles p \<noteq> 0 then RRS_Failed else RRS_Complete)
                  (ob\<lparr>oo_payload := p\<lparr>rpr_repack_finished_time := now\<rparr>\<rparr>))) (\<lambda>ob.
          bnd (rpr_removeFromOwnerAgentOwnership ob) (\<lambda>_. ret ob))
     else liftr (rpr_setStatus_to now
            (if rpr_retrievedfiles p \<noteq> 0 \<or> rpr_failedtoretrievefiles p \<noteq> 0 \<or> rpr_archivedfiles p \<noteq> 0 \<or> rpr_failedtoarchivefiles p \<noteq> 0
             then RRS_Running else RRS_Starting) ob)))"

section \<open>The sub-requests\<close>

definition rsp_serialize :: "rpr_pointer \<Rightarrow> repack_sub_request_pointer" where
  "rsp_serialize q = \<lparr>rsrp_address = rsp_address q, rsrp_fseq = rsp_fSeq q, rsrp_retrieve_accounted = rsp_retrieveAccounted q,
     rsrp_archive_copynb_accounted = rsp_archiveCopyNbsAccounted q, rsrp_subrequest_deleted = rsp_subrequestDeleted q\<rparr>"

definition rsp_deserialize :: "repack_sub_request_pointer \<Rightarrow> rpr_pointer" where
  "rsp_deserialize s = \<lparr>rsp_address = rsrp_address s, rsp_fSeq = rsrp_fseq s, rsp_retrieveAccounted = rsrp_retrieve_accounted s,
     rsp_archiveCopyNbsAccounted = fold insort_insert (rsrp_archive_copynb_accounted s) [],
     rsp_subrequestDeleted = rsrp_subrequest_deleted s\<rparr>"

definition rpr_pointerMap :: "repack_request \<Rightarrow> (u64, rpr_pointer) std_map" where
  "rpr_pointerMap p = smap_fill (map (\<lambda>s. (rsrp_fseq s, rsp_deserialize s)) (rpr_subrequests p)) []"

definition rpr_store_pointers :: "(u64, rpr_pointer) std_map \<Rightarrow> repack_request oo \<Rightarrow> repack_request oo" where
  "rpr_store_pointers m ob = ob\<lparr>oo_payload := (oo_payload ob)\<lparr>rpr_subrequests := map (\<lambda>(fs, q). rsp_serialize q) m\<rparr>\<rparr>"

definition rpr_prepare_subrequest ::
  "(u64, rpr_pointer) std_map \<times> rpr_SubrequestInfo list \<times> bool \<Rightarrow> u64
   \<Rightarrow> (world, (u64, rpr_pointer) std_map \<times> rpr_SubrequestInfo list \<times> bool) prog" where
  "rpr_prepare_subrequest = (\<lambda>(m, infos, newElementCreated) fs. case smap_get fs m of
     Some srp \<Rightarrow> ret (m, infos @ [\<lparr>sri_address = rsp_address srp, sri_fSeq = rsp_fSeq srp, sri_subrequestDeleted = rsp_subrequestDeleted srp\<rparr>],
                      newElementCreated)
   | None \<Rightarrow>
       bnd (nextId ''RepackSubRequest'') (\<lambda>a.
       ret (smap_put fs \<lparr>rsp_address = a, rsp_fSeq = fs, rsp_retrieveAccounted = False, rsp_archiveCopyNbsAccounted = [],
                         rsp_subrequestDeleted = False\<rparr> m,
            infos @ [\<lparr>sri_address = a, sri_fSeq = fs, sri_subrequestDeleted = False\<rparr>], True)))"

text \<open>The set \<open>fSeqs\<close> is walked in increasing order, and the set of the results has this order as well.\<close>

definition rpr_getOrPrepareSubrequestInfo ::
  "u64 list \<Rightarrow> repack_request oo \<Rightarrow> (world, rpr_SubrequestInfo list \<times> repack_request oo) prog" where
  "rpr_getOrPrepareSubrequestInfo fSeqs ob =
     bnd (liftr (checkPayloadWritable ob)) (\<lambda>_.
     bnd (foldM rpr_prepare_subrequest (rpr_pointerMap (oo_payload ob), [], False) fSeqs) (\<lambda>(m, infos, newElementCreated).
     ret (infos, if newElementCreated then rpr_store_pointers m ob else ob)))"

section \<open>Reports\<close>

text \<open>
  The loop of the reports: \<open>account\<close> says, from the pointer and the payload, whether there is something to account,
  and what becomes of both. When something was accounted, the status is set again and the pointers are
  stored.
\<close>

definition rpr_report_step ::
  "string \<Rightarrow> ('r \<Rightarrow> u64) \<Rightarrow> ('r \<Rightarrow> rpr_pointer \<Rightarrow> repack_request oo \<Rightarrow> (world, (rpr_pointer \<times> repack_request oo) option) prog)
   \<Rightarrow> (u64, rpr_pointer) std_map \<times> repack_request oo \<times> bool \<Rightarrow> 'r
   \<Rightarrow> (world, (u64, rpr_pointer) std_map \<times> repack_request oo \<times> bool) prog" where
  "rpr_report_step caller fSeq account = (\<lambda>(m, ob, didUpdate) r. case smap_get (fSeq r) m of
     None \<Rightarrow> throw (CtaException caller)
   | Some q \<Rightarrow> bnd (account r q ob) (\<lambda>res. ret (case res of
       None \<Rightarrow> (m, ob, didUpdate)
     | Some (q1, ob1) \<Rightarrow> (smap_put (fSeq r) q1 m, ob1, True))))"

definition rpr_report ::
  "string \<Rightarrow> ('r \<Rightarrow> u64) \<Rightarrow> ('r \<Rightarrow> rpr_pointer \<Rightarrow> repack_request oo \<Rightarrow> (world, (rpr_pointer \<times> repack_request oo) option) prog)
   \<Rightarrow> (repack_request oo \<Rightarrow> (world, repack_request oo) prog) \<Rightarrow> 'r list \<Rightarrow> repack_request oo \<Rightarrow> (world, repack_request oo) prog" where
  "rpr_report caller fSeq account finish rs ob =
     bnd (liftr (checkPayloadWritable ob)) (\<lambda>_.
     bnd (foldM (rpr_report_step caller fSeq account) (rpr_pointerMap (oo_payload ob), ob, False) rs) (\<lambda>(m, ob, didUpdate).
     if didUpdate then bnd (finish ob) (\<lambda>ob. ret (rpr_store_pointers m ob)) else ret ob))"

definition rpr_account_retrieve_success ::
  "rpr_SubrequestStatistics \<Rightarrow> rpr_pointer \<Rightarrow> repack_request oo \<Rightarrow> (world, (rpr_pointer \<times> repack_request oo) option) prog" where
  "rpr_account_retrieve_success rs q ob = ret (
     if rsp_retrieveAccounted q then None
     else Some (q\<lparr>rsp_retrieveAccounted := True\<rparr>,
       if srs_hasUserProvidedFile rs then ob
       else ob\<lparr>oo_payload := (oo_payload ob)\<lparr>rpr_retrievedbytes := rpr_retrievedbytes (oo_payload ob) + srs_bytes rs,
                                              rpr_retrievedfiles := rpr_retrievedfiles (oo_payload ob) + srs_files rs\<rparr>\<rparr>))"

definition rpr_reportRetriveSuccesses ::
  "time_t \<Rightarrow> rpr_SubrequestStatistics list \<Rightarrow> repack_request oo \<Rightarrow> (world, repack_request oo) prog" where
  "rpr_reportRetriveSuccesses now =
     rpr_report ''RepackRequest::reportRetriveSuccesses'' srs_fSeq rpr_account_retrieve_success (rpr_setStatus now)"

definition rpr_account_retrieve_failure ::
  "rpr_SubrequestStatistics \<Rightarrow> rpr_pointer \<Rightarrow> repack_request oo \<Rightarrow> (world, (rpr_pointer \<times> repack_request oo) option) prog" where
  "rpr_account_retrieve_failure rf q ob = ret (
     if rsp_retrieveAccounted q then None
     else Some (q\<lparr>rsp_retrieveAccounted := True\<rparr>,
       ob\<lparr>oo_payload := (oo_payload ob)\<lparr>rpr_failedtoretrievebytes := rpr_failedtoretrievebytes (oo_payload ob) + srs_bytes rf,
                                         rpr_failedtoretrievefiles := rpr_failedtoretrievefiles (oo_payload ob) + srs_files rf\<rparr>\<rparr>))"

definition rpr_reportRetriveFailures ::
  "time_t \<Rightarrow> rpr_SubrequestStatistics list \<Rightarrow> repack_request oo \<Rightarrow> (world, repack_request oo) prog" where
  "rpr_reportRetriveFailures now =
     rpr_report ''RepackRequest::reportRetriveFailures'' srs_fSeq rpr_account_retrieve_failure (rpr_setStatus now)"

text \<open>A success of an archive job also reads the size of the file from the sub-request.\<close>

definition rpr_account_archive_success ::
  "rpr_SubrequestStatistics \<Rightarrow> rpr_pointer \<Rightarrow> repack_request oo \<Rightarrow> (world, (rpr_pointer \<times> repack_request oo) option) prog" where
  "rpr_account_archive_success as q ob =
     (if srs_copyNb as \<in> set (rsp_archiveCopyNbsAccounted q) then ret None
      else bnd (liftr (ar_at (rsp_address q))) (\<lambda>ar.
           bnd (oo_fetchNoLock archive_request_codec ar) (\<lambda>ar.
           bnd (liftr (ar_getArchiveFile ar)) (\<lambda>archiveFile.
           bnd (liftr (rpr_updateRepackDestinationInfos archiveFile (srs_destinationVid as) ob)) (\<lambda>ob.
           ret (Some (q\<lparr>rsp_archiveCopyNbsAccounted := insort_insert (srs_copyNb as) (rsp_archiveCopyNbsAccounted q),
                        rsp_subrequestDeleted := srs_subrequestDeleted as\<rparr>,
                ob\<lparr>oo_payload := (oo_payload ob)\<lparr>rpr_archivedbytes := rpr_archivedbytes (oo_payload ob) + srs_bytes as,
                                                  rpr_archivedfiles := rpr_archivedfiles (oo_payload ob) + srs_files as\<rparr>\<rparr>)))))))"

definition rpr_reportArchiveSuccesses ::
  "time_t \<Rightarrow> rpr_SubrequestStatistics list \<Rightarrow> repack_request oo \<Rightarrow> (world, RepackRequestStatus \<times> repack_request oo) prog" where
  "rpr_reportArchiveSuccesses now archiveSuccesses ob =
     bnd (rpr_report ''RepackRequest::reportArchiveSuccesses'' srs_fSeq rpr_account_archive_success (rpr_setStatus now) archiveSuccesses ob) (\<lambda>ob.
     ret (rpr_status (oo_payload ob), ob))"

definition rpr_account_archive_failure ::
  "rpr_SubrequestStatistics \<Rightarrow> rpr_pointer \<Rightarrow> repack_request oo \<Rightarrow> (world, (rpr_pointer \<times> repack_request oo) option) prog" where
  "rpr_account_archive_failure af q ob = ret (
     if srs_copyNb af \<in> set (rsp_archiveCopyNbsAccounted q) then None
     else Some (q\<lparr>rsp_archiveCopyNbsAccounted := insort_insert (srs_copyNb af) (rsp_archiveCopyNbsAccounted q), rsp_subrequestDeleted := True\<rparr>,
       ob\<lparr>oo_payload := (oo_payload ob)\<lparr>rpr_failedtoarchivebytes := rpr_failedtoarchivebytes (oo_payload ob) + srs_bytes af,
                                         rpr_failedtoarchivefiles := rpr_failedtoarchivefiles (oo_payload ob) + srs_files af\<rparr>\<rparr>))"

definition rpr_reportArchiveFailures ::
  "time_t \<Rightarrow> rpr_SubrequestStatistics list \<Rightarrow> repack_request oo \<Rightarrow> (world, RepackRequestStatus \<times> repack_request oo) prog" where
  "rpr_reportArchiveFailures now archiveFailures ob =
     bnd (rpr_report ''RepackRequest::reportArchiveFailures'' srs_fSeq rpr_account_archive_failure (rpr_setStatus now) archiveFailures ob) (\<lambda>ob.
     ret (rpr_status (oo_payload ob), ob))"

definition rpr_reportSubRequestsForDeletion :: "u64 list \<Rightarrow> repack_request oo \<Rightarrow> (world, repack_request oo) prog" where
  "rpr_reportSubRequestsForDeletion =
     rpr_report ''RepackRequest::reportSubRequestsForDeletion'' id
       (\<lambda>fs q ob. ret (if rsp_subrequestDeleted q then None else Some (q\<lparr>rsp_subrequestDeleted := True\<rparr>, ob))) ret"

definition rpr_getStats :: "repack_request oo \<Rightarrow> exn + (rpr_StatsType \<times> rpr_StatsValues) list" where
  "rpr_getStats = rpr_read (\<lambda>p.
     [(UserProvided, \<lparr>stv_files = rpr_userprovidedfiles p, stv_bytes = rpr_userprovidedbytes p\<rparr>),
      (RetrieveSuccess, \<lparr>stv_files = rpr_retrievedfiles p, stv_bytes = rpr_retrievedbytes p\<rparr>),
      (RetrieveFailure, \<lparr>stv_files = rpr_failedtoretrievefiles p, stv_bytes = rpr_failedtoretrievebytes p\<rparr>),
      (RetrieveTotal, \<lparr>stv_files = rpr_totalfilestoretrieve p, stv_bytes = rpr_totalbytestoretrieve p\<rparr>),
      (ArchiveSuccess, \<lparr>stv_files = rpr_archivedfiles p, stv_bytes = rpr_archivedbytes p\<rparr>),
      (ArchiveFailure, \<lparr>stv_files = rpr_failedtoarchivefiles p, stv_bytes = rpr_failedtoarchivebytes p\<rparr>),
      (ArchiveTotal, \<lparr>stv_files = rpr_totalfilestoarchive p, stv_bytes = rpr_totalbytestoarchive p\<rparr>)])"

definition rpr_reportArchiveCreationFailures :: "u64 \<Rightarrow> repack_request oo \<Rightarrow> exn + repack_request oo" where
  "rpr_reportArchiveCreationFailures nbFailedToCreateArchiveRequests = rpr_write (\<lambda>p.
     p\<lparr>rpr_failedtocreatearchivereq := rpr_failedtocreatearchivereq p + nbFailedToCreateArchiveRequests\<rparr>)"

definition rpr_reportRetrieveCreationFailures ::
  "time_t \<Rightarrow> rpr_Subrequest list \<Rightarrow> repack_request oo \<Rightarrow> (world, repack_request oo) prog" where
  "rpr_reportRetrieveCreationFailures now notCreatedSubrequests ob =
     bnd (liftr (checkPayloadWritable ob)) (\<lambda>_.
     bnd (liftr (checkPayloadReadable ob)) (\<lambda>_.
     let p = oo_payload ob;
         failedToRetrieveFiles = of_nat (length notCreatedSubrequests);
         failedToRetrieveBytes = (\<Sum>s\<leftarrow>notCreatedSubrequests. af_filesize (sub_archiveFile s));
         failedToCreateArchiveReq = (\<Sum>s\<leftarrow>notCreatedSubrequests. of_nat (card (sub_copyNbsToRearchive s)))
     in bnd (liftr (rpr_reportArchiveCreationFailures failedToCreateArchiveReq
               (ob\<lparr>oo_payload := p\<lparr>rpr_failedtoretrievebytes := rpr_failedtoretrievebytes p + failedToRetrieveBytes,
                                   rpr_failedtoretrievefiles := rpr_failedtoretrievefiles p + failedToRetrieveFiles\<rparr>\<rparr>))) (\<lambda>ob.
        rpr_setStatus now ob)))"

section \<open>Garbage collection and change of owner\<close>

definition rpr_garbageCollect :: "repack_request oo \<Rightarrow> (world, repack_request oo) prog" where
  "rpr_garbageCollect ob =
     bnd (liftr (getAddressIfSet ob)) (\<lambda>address.
     bnd (ref_addToOwnership address) (\<lambda>_.
     bnd (asks getAgentAddress) (\<lambda>agent.
     bnd (liftr (setOwner agent ob)) (\<lambda>ob.
     bnd (attempt (bnd (liftr (rpr_getInfo ob)) (\<lambda>info.
                   bnd (liftr (rpi_getQueueType (rpi_status info) (rpi_isExpandFinished info))) (\<lambda>queueType.
                   getLockedAndFetchedRepackQueue queueType (oo_new rpq_empty))))) (\<lambda>found. case found of
       Inl _ \<Rightarrow> bnd (oo_commit rpr_c ob) (\<lambda>_. ret ob)
     | Inr rq \<Rightarrow>
         bnd (liftr (rpq_getRequestsSummary rq)) (\<lambda>_.
         bnd (attempt (bnd (rpq_addRequestsAndCommit [address] rq) (\<lambda>rq. liftr (rpq_getRequestsSummary rq)))) (\<lambda>_.
         bnd (oo_commit rpr_c ob) (\<lambda>_. ret ob))))))))"

text \<open>What the updater keeps for the caller.\<close>

record rpr_OwnerUpdater =
  rou_status :: RepackRequestStatus
  rou_vid :: string
  rou_repackBufferBaseURL :: string
  rou_forceDisabledTape :: bool
  rou_noRecall :: bool
  rou_type :: RepackInfo_Type

definition rpr_update_owner ::
  "string \<Rightarrow> string \<Rightarrow> RepackRequestStatus option \<Rightarrow> object_header \<Rightarrow> exn + object_header \<times> rpr_OwnerUpdater" where
  "rpr_update_owner owner previousOwner newStatus oh = (case oh_payload oh of
     Payload_RepackRequest payload0 \<Rightarrow>
       if oh_owner oh \<noteq> previousOwner then Inl WrongPreviousOwner
       else let payload = (case newStatus of Some s \<Rightarrow> payload0\<lparr>rpr_status := s\<rparr> | None \<Rightarrow> payload0)
            in rbind (rpr_type_of ''RepackRequest::asyncUpdateOwner'' payload) (\<lambda>type.
               Inr (oh\<lparr>oh_owner := owner, oh_payload := Payload_RepackRequest payload\<rparr>,
                    \<lparr>rou_status = rpr_status payload, rou_vid = rpr_vid payload, rou_repackBufferBaseURL = rpr_buffer_url payload,
                     rou_forceDisabledTape = rpr_force_disabled_tape payload, rou_noRecall = rpr_no_recall payload, rou_type = type\<rparr>))
   | _ \<Rightarrow> Inl (CtaException ''RepackRequest::asyncUpdateOwner''))"

definition rpr_asyncUpdateOwnerAndStatus ::
  "string \<Rightarrow> string \<Rightarrow> RepackRequestStatus option \<Rightarrow> repack_request oo \<Rightarrow> (world, rpr_OwnerUpdater option) prog" where
  "rpr_asyncUpdateOwnerAndStatus owner previousOwner newStatus ob =
     bnd (liftr (getAddressIfSet ob)) (\<lambda>address. vfs_asyncUpdate address (rpr_update_owner owner previousOwner newStatus))"

end
