(* ===== verification/RepackProperties.thy ===== *)
theory RepackProperties
  imports RepackRequest QueueDirectory
begin

text \<open>
  The theorems on \<open>RepackRequest.cpp\<close>: what is reported twice is accounted once, the status follows from the
  counts, and the sub-request of a file keeps its address.
\<close>

section \<open>The map of the sub-requests\<close>

text \<open>The maps that the code works with: read from a payload, and written back without loss.\<close>

definition rpr_map_ok :: "(u64, rpr_pointer) std_map \<Rightarrow> bool" where
  "rpr_map_ok m \<longleftrightarrow> smap_ok m \<and> (\<forall>(fs, q) \<in> set m. rsp_fSeq q = fs \<and> sorted (rsp_archiveCopyNbsAccounted q) \<and> distinct (rsp_archiveCopyNbsAccounted q))"

lemma insort_insert_fold:
  "sorted xs \<Longrightarrow> distinct xs \<Longrightarrow> sorted (fold insort_insert ys xs) \<and> distinct (fold insort_insert ys xs) \<and> set (fold insort_insert ys xs) = set xs \<union> set ys"
  for xs :: "'a::linorder list"
  by (induction ys arbitrary: xs) (auto simp: sorted_insort_insert distinct_insort_insert set_insort_insert)

lemma rsp_roundtrip: "sorted (rsp_archiveCopyNbsAccounted q) \<Longrightarrow> distinct (rsp_archiveCopyNbsAccounted q) \<Longrightarrow> rsp_deserialize (rsp_serialize q) = q"
proof -
  assume "sorted (rsp_archiveCopyNbsAccounted q)" "distinct (rsp_archiveCopyNbsAccounted q)"
  then have "fold insort_insert (rsp_archiveCopyNbsAccounted q) [] = rsp_archiveCopyNbsAccounted q"
    using insort_insert_fold [of "[]" "rsp_archiveCopyNbsAccounted q"] by (intro sorted_distinct_set_unique) auto
  then show ?thesis by (simp add: rsp_deserialize_def rsp_serialize_def)
qed

lemma smap_put_set: "set (smap_put k v m) \<subseteq> insert (k, v) (set m)"
proof (induction m)
  case (Cons x m)
  then show ?case by (cases x) auto
qed simp

lemma smap_fill_set: "set (smap_fill kvs m) \<subseteq> set kvs \<union> set m"
  unfolding smap_fill_def
proof (induction kvs arbitrary: m)
  case (Cons kv kvs)
  have "set (fold (\<lambda>(k, v) m. smap_put k v m) kvs (smap_put (fst kv) (snd kv) m)) \<subseteq> set kvs \<union> set (smap_put (fst kv) (snd kv) m)"
    by (rule Cons.IH)
  also have "\<dots> \<subseteq> set kvs \<union> insert kv (set m)" using smap_put_set [of "fst kv" "snd kv" m] by auto
  finally show ?case by (cases kv) simp
qed simp

lemma rpr_pointerMap_ok: "rpr_map_ok (rpr_pointerMap p)"
proof -
  have "rsp_fSeq q = fs \<and> sorted (rsp_archiveCopyNbsAccounted q) \<and> distinct (rsp_archiveCopyNbsAccounted q)"
    if "(fs, q) \<in> set (rpr_pointerMap p)" for fs q
    using that smap_fill_set [of _ "[]"] insort_insert_fold [of "[]"] by (force simp: rpr_pointerMap_def rsp_deserialize_def)
  moreover have "smap_ok (rpr_pointerMap p)" unfolding rpr_pointerMap_def by (rule smap_fill_ok) (simp add: smap_ok_def)
  ultimately show ?thesis by (auto simp: rpr_map_ok_def)
qed

lemma rpr_store_pointers_map:
  assumes "rpr_map_ok m"
  shows "rpr_pointerMap (oo_payload (rpr_store_pointers m ob)) = m"
proof -
  have "map (\<lambda>s. (rsrp_fseq s, rsp_deserialize s)) (map (\<lambda>(fs, q). rsp_serialize q) m) = map id m"
    unfolding map_map by (rule map_cong) (use assms in \<open>auto simp: rpr_map_ok_def rsp_roundtrip, auto simp: rsp_serialize_def\<close>)
  moreover have "smap_fill m [] = m" by (rule smap_fill_id) (use assms in \<open>simp add: rpr_map_ok_def\<close>)
  ultimately show ?thesis by (simp add: rpr_pointerMap_def rpr_store_pointers_def)
qed

lemma rpr_map_put_ok:
  assumes "rpr_map_ok m" and "rsp_fSeq q = fs" "sorted (rsp_archiveCopyNbsAccounted q)" "distinct (rsp_archiveCopyNbsAccounted q)"
  shows "rpr_map_ok (smap_put fs q m)"
  using assms smap_put_set [of fs q m] by (auto simp: rpr_map_ok_def smap_put_ok)

lemma smap_get_in: "smap_get k m = Some v \<Longrightarrow> (k, v) \<in> set m"
  by (simp add: smap_get_def map_of_SomeD)

section \<open>Accounting\<close>

text \<open>The reports that count: those whose key is not accounted yet, each key once.\<close>

fun fresh_reports :: "('r \<Rightarrow> 'k) \<Rightarrow> 'k set \<Rightarrow> 'r list \<Rightarrow> 'r list" where
  "fresh_reports key K [] = []"
| "fresh_reports key K (r # rs) = (if key r \<in> K then fresh_reports key K rs else r # fresh_reports key (insert (key r) K) rs)"

lemma fresh_reports_keys: "K \<union> key ` set (fresh_reports key K rs) = K \<union> key ` set rs"
proof (induction rs arbitrary: K)
  case (Cons r rs)
  show ?case
  proof (cases "key r \<in> K")
    case False
    have "K \<union> key ` set (fresh_reports key K (r # rs)) = insert (key r) K \<union> key ` set (fresh_reports key (insert (key r) K) rs)" using False by auto
    also have "\<dots> = insert (key r) K \<union> key ` set rs" by (rule Cons.IH)
    finally show ?thesis by auto
  qed (use Cons.IH [of K] in auto)
qed simp

text \<open>
  The kinds of reports: \<open>key\<close> is what is accounted once, \<open>acc\<close> the keys a map has accounted, \<open>mark\<close> and \<open>add\<close> what
  becomes of the pointer and of the payload. \<open>fits\<close> is what the report needs of the store.
\<close>

locale accounting =
  fixes fSeq :: "'r \<Rightarrow> u64" and key :: "'r \<Rightarrow> 'k" and acc :: "(u64, rpr_pointer) std_map \<Rightarrow> 'k set"
    and mark :: "'r \<Rightarrow> rpr_pointer \<Rightarrow> rpr_pointer" and add :: "world \<Rightarrow> 'r \<Rightarrow> repack_request \<Rightarrow> repack_request"
    and account :: "'r \<Rightarrow> rpr_pointer \<Rightarrow> repack_request oo \<Rightarrow> (world, (rpr_pointer \<times> repack_request oo) option) prog"
    and known :: "world \<Rightarrow> 'r \<Rightarrow> (u64, rpr_pointer) std_map \<Rightarrow> bool"
  assumes account: "rpr_map_ok m \<Longrightarrow> known w r m \<Longrightarrow> held ob \<Longrightarrow> smap_get (fSeq r) m = Some q \<Longrightarrow>
      account r q ob w = (Inr (if key r \<in> acc m then None else Some (mark r q, ob\<lparr>oo_payload := add w r (oo_payload ob)\<rparr>)), w)"
    and known_get: "known w r m \<Longrightarrow> \<exists>q. smap_get (fSeq r) m = Some q"
    and marked: "rpr_map_ok m \<Longrightarrow> smap_get (fSeq r) m = Some q \<Longrightarrow> acc (smap_put (fSeq r) (mark r q) m) = insert (key r) (acc m)
      \<and> rpr_map_ok (smap_put (fSeq r) (mark r q) m)"
    and known_put: "rpr_map_ok m \<Longrightarrow> smap_get (fSeq r) m = Some q \<Longrightarrow> known w r' m \<Longrightarrow> known w r' (smap_put (fSeq r) (mark r q) m)"
begin

text \<open>\<open>P\<close> is anything that marking a pointer leaves as it is.\<close>

lemma steps:
  assumes keep: "\<And>m r q. rpr_map_ok m \<Longrightarrow> smap_get (fSeq r) m = Some q \<Longrightarrow> P (smap_put (fSeq r) (mark r q) m) = P m"
    and "rpr_map_ok m" and "\<forall>r \<in> set rs. known w r m" and "held ob"
  shows "\<exists>m'. foldM (rpr_report_step caller fSeq account) (m, ob, d) rs w
      = (Inr (m', ob\<lparr>oo_payload := fold (add w) (fresh_reports key (acc m) rs) (oo_payload ob)\<rparr>, d \<or> fresh_reports key (acc m) rs \<noteq> []), w)
    \<and> rpr_map_ok m' \<and> acc m' = acc m \<union> key ` set rs \<and> P m' = P m"
  using assms(2-4)
proof (induction rs arbitrary: m ob d)
  case (Cons r rs)
  have "known w r m" using Cons.prems(2) by simp
  then obtain q where q: "smap_get (fSeq r) m = Some q" using known_get by blast
  have a: "account r q ob w = (Inr (if key r \<in> acc m then None else Some (mark r q, ob\<lparr>oo_payload := add w r (oo_payload ob)\<rparr>)), w)"
    by (rule account [OF Cons.prems(1) _ Cons.prems(3) q]) (use Cons.prems(2) in simp)
  show ?case
  proof (cases "key r \<in> acc m")
    case True
    with Cons.IH [OF Cons.prems(1) _ Cons.prems(3), of d] Cons.prems(2) a q show ?thesis
      by (auto simp: rpr_report_step_def insert_absorb)
  next
    case False
    let ?m = "smap_put (fSeq r) (mark r q) m" and ?ob = "ob\<lparr>oo_payload := add w r (oo_payload ob)\<rparr>"
    have m: "acc ?m = insert (key r) (acc m)" "rpr_map_ok ?m" using marked [OF Cons.prems(1) q] by simp_all
    have "\<forall>r' \<in> set rs. known w r' ?m" "held ?ob" using known_put [OF Cons.prems(1) q] Cons.prems(2,3) by simp_all
    from Cons.IH [OF m(2) this, of True] False a q m(1) keep [OF Cons.prems(1) q] show ?thesis by (auto simp: rpr_report_step_def)
  qed
qed simp

end

text \<open>The retrieves that are accounted, and the archive jobs, by file and copy.\<close>

definition rpr_retrieves :: "(u64, rpr_pointer) std_map \<Rightarrow> u64 set" where
  "rpr_retrieves m = {fs. \<exists>q. smap_get fs m = Some q \<and> rsp_retrieveAccounted q}"

definition rpr_archives :: "(u64, rpr_pointer) std_map \<Rightarrow> (u64 \<times> u32) set" where
  "rpr_archives m = {(fs, c). \<exists>q. smap_get fs m = Some q \<and> c \<in> set (rsp_archiveCopyNbsAccounted q)}"

abbreviation "in_map r m \<equiv> smap_get (srs_fSeq r) m \<noteq> None"

lemma rpr_map_entry: "rpr_map_ok m \<Longrightarrow> smap_get fs m = Some q \<Longrightarrow>
    smap_ok m \<and> rsp_fSeq q = fs \<and> sorted (rsp_archiveCopyNbsAccounted q) \<and> distinct (rsp_archiveCopyNbsAccounted q)"
  by (auto simp: rpr_map_ok_def dest!: smap_get_in)

lemma retrieve_marked:
  assumes "rpr_map_ok m" "smap_get fs m = Some q"
  shows "rpr_retrieves (smap_put fs (q\<lparr>rsp_retrieveAccounted := True\<rparr>) m) = insert fs (rpr_retrieves m)"
    and "rpr_map_ok (smap_put fs (q\<lparr>rsp_retrieveAccounted := True\<rparr>) m)"
  using rpr_map_entry [OF assms] assms(1) by (auto simp: rpr_retrieves_def smap_get_put intro: rpr_map_put_ok)

definition add_retrieved :: "world \<Rightarrow> rpr_SubrequestStatistics \<Rightarrow> repack_request \<Rightarrow> repack_request" where
  "add_retrieved w r p = (if srs_hasUserProvidedFile r then p
     else p\<lparr>rpr_retrievedbytes := rpr_retrievedbytes p + srs_bytes r, rpr_retrievedfiles := rpr_retrievedfiles p + srs_files r\<rparr>)"

definition add_failed_retrieve :: "world \<Rightarrow> rpr_SubrequestStatistics \<Rightarrow> repack_request \<Rightarrow> repack_request" where
  "add_failed_retrieve w r p = p\<lparr>rpr_failedtoretrievebytes := rpr_failedtoretrievebytes p + srs_bytes r,
     rpr_failedtoretrievefiles := rpr_failedtoretrievefiles p + srs_files r\<rparr>"

interpretation retrieved: accounting srs_fSeq srs_fSeq rpr_retrieves "\<lambda>r q. q\<lparr>rsp_retrieveAccounted := True\<rparr>" add_retrieved
    rpr_account_retrieve_success "\<lambda>w r m. in_map r m"
  by unfold_locales
    (auto simp: rpr_account_retrieve_success_def add_retrieved_def rpr_retrieves_def smap_get_put rpr_map_entry
      intro: retrieve_marked(2) dest: retrieve_marked(1) rpr_map_entry)

interpretation failed_retrieve: accounting srs_fSeq srs_fSeq rpr_retrieves "\<lambda>r q. q\<lparr>rsp_retrieveAccounted := True\<rparr>" add_failed_retrieve
    rpr_account_retrieve_failure "\<lambda>w r m. in_map r m"
  by unfold_locales
    (auto simp: rpr_account_retrieve_failure_def add_failed_retrieve_def rpr_retrieves_def smap_get_put rpr_map_entry
      intro: retrieve_marked(2) dest: retrieve_marked(1) rpr_map_entry)

lemma archive_marked:
  assumes "rpr_map_ok m" "smap_get fs m = Some q"
  shows "rpr_archives (smap_put fs (q\<lparr>rsp_archiveCopyNbsAccounted := insort_insert c (rsp_archiveCopyNbsAccounted q), rsp_subrequestDeleted := d\<rparr>) m)
      = insert (fs, c) (rpr_archives m)"
    and "rpr_map_ok (smap_put fs (q\<lparr>rsp_archiveCopyNbsAccounted := insort_insert c (rsp_archiveCopyNbsAccounted q), rsp_subrequestDeleted := d\<rparr>) m)"
proof -
  have e: "smap_ok m" "rsp_fSeq q = fs" "sorted (rsp_archiveCopyNbsAccounted q)" "distinct (rsp_archiveCopyNbsAccounted q)"
    using rpr_map_entry [OF assms] by simp_all
  show "rpr_archives (smap_put fs (q\<lparr>rsp_archiveCopyNbsAccounted := insort_insert c (rsp_archiveCopyNbsAccounted q), rsp_subrequestDeleted := d\<rparr>) m)
      = insert (fs, c) (rpr_archives m)"
    using e(1) assms(2) by (auto simp: rpr_archives_def smap_get_put set_insort_insert split: if_splits)
  show "rpr_map_ok (smap_put fs (q\<lparr>rsp_archiveCopyNbsAccounted := insort_insert c (rsp_archiveCopyNbsAccounted q), rsp_subrequestDeleted := d\<rparr>) m)"
    by (rule rpr_map_put_ok [OF assms(1)]) (use e in \<open>simp_all add: sorted_insort_insert distinct_insort_insert\<close>)
qed

definition add_failed_archive :: "world \<Rightarrow> rpr_SubrequestStatistics \<Rightarrow> repack_request \<Rightarrow> repack_request" where
  "add_failed_archive w r p = p\<lparr>rpr_failedtoarchivebytes := rpr_failedtoarchivebytes p + srs_bytes r,
     rpr_failedtoarchivefiles := rpr_failedtoarchivefiles p + srs_files r\<rparr>"

abbreviation "archive_key r \<equiv> (srs_fSeq r, srs_copyNb r)"

interpretation failed_archive: accounting srs_fSeq "\<lambda>r. archive_key r" rpr_archives
    "\<lambda>r q. q\<lparr>rsp_archiveCopyNbsAccounted := insort_insert (srs_copyNb r) (rsp_archiveCopyNbsAccounted q), rsp_subrequestDeleted := True\<rparr>"
    add_failed_archive rpr_account_archive_failure "\<lambda>w r m. in_map r m"
proof unfold_locales
  fix m w and r :: rpr_SubrequestStatistics and q
  assume m: "rpr_map_ok m" and q: "smap_get (srs_fSeq r) m = Some q"
  show "rpr_archives (smap_put (srs_fSeq r) (q\<lparr>rsp_archiveCopyNbsAccounted := insort_insert (srs_copyNb r) (rsp_archiveCopyNbsAccounted q), rsp_subrequestDeleted := True\<rparr>) m)
      = insert (archive_key r) (rpr_archives m)
    \<and> rpr_map_ok (smap_put (srs_fSeq r) (q\<lparr>rsp_archiveCopyNbsAccounted := insort_insert (srs_copyNb r) (rsp_archiveCopyNbsAccounted q), rsp_subrequestDeleted := True\<rparr>) m)"
    using archive_marked [OF m q] by blast
qed (auto simp: rpr_account_archive_failure_def add_failed_archive_def rpr_archives_def smap_get_put dest: rpr_map_entry)

text \<open>A success of an archive job needs its sub-request in the store, at the address \<open>addr\<close> of the file.\<close>

definition archive_readable :: "world \<Rightarrow> string \<Rightarrow> bool" where
  "archive_readable w a \<longleftrightarrow> a \<noteq> '''' \<and> (\<exists>h p. objects w a = Some h \<and> oh_payload h = Payload_ArchiveRequest p)"

definition archived_file :: "world \<Rightarrow> string \<Rightarrow> archive_file" where
  "archived_file w a = (case objects w a of Some h \<Rightarrow> (case oh_payload h of
     Payload_ArchiveRequest p \<Rightarrow> ar_archive_file p | _ \<Rightarrow> archive_file_default) | None \<Rightarrow> archive_file_default)"

definition add_archived :: "(u64 \<Rightarrow> string) \<Rightarrow> world \<Rightarrow> rpr_SubrequestStatistics \<Rightarrow> repack_request \<Rightarrow> repack_request" where
  "add_archived addr w r p = p\<lparr>
     rpr_destination_infos := rpr_add_destination (af_filesize (archived_file w (addr (srs_fSeq r)))) (srs_destinationVid r) (rpr_destination_infos p),
     rpr_archivedbytes := rpr_archivedbytes p + srs_bytes r, rpr_archivedfiles := rpr_archivedfiles p + srs_files r\<rparr>"

lemma archive_file_read:
  assumes "archive_readable w a"
  shows "\<exists>ar1 ar2. ar_at a = Inr ar1 \<and> oo_fetchNoLock archive_request_codec ar1 w = (Inr ar2, w) \<and> ar_getArchiveFile ar2 = Inr (archived_file w a)"
proof -
  obtain h p where h: "a \<noteq> ''''" "objects w a = Some h" "oh_payload h = Payload_ArchiveRequest p" using assms by (auto simp: archive_readable_def)
  then show ?thesis
    by (simp add: ar_at_def setAddress_new oo_defs vfs_read_def archive_request_codec_def ar_getArchiveFile_def check_defs archived_file_def)
qed

interpretation archived: accounting srs_fSeq "\<lambda>r. archive_key r" rpr_archives
    "\<lambda>r q. q\<lparr>rsp_archiveCopyNbsAccounted := insort_insert (srs_copyNb r) (rsp_archiveCopyNbsAccounted q), rsp_subrequestDeleted := srs_subrequestDeleted r\<rparr>"
    "add_archived addr" rpr_account_archive_success
    "\<lambda>w r m. (\<exists>q. smap_get (srs_fSeq r) m = Some q \<and> rsp_address q = addr (srs_fSeq r)) \<and> archive_readable w (addr (srs_fSeq r))" for addr
proof unfold_locales
  fix m w and r :: rpr_SubrequestStatistics and q and ob :: "repack_request oo"
  assume m: "rpr_map_ok m" and k: "(\<exists>q. smap_get (srs_fSeq r) m = Some q \<and> rsp_address q = addr (srs_fSeq r)) \<and> archive_readable w (addr (srs_fSeq r))"
    and ob: "held ob" and q: "smap_get (srs_fSeq r) m = Some q"
  obtain ar1 ar2 where "ar_at (rsp_address q) = Inr ar1" "oo_fetchNoLock archive_request_codec ar1 w = (Inr ar2, w)"
    "ar_getArchiveFile ar2 = Inr (archived_file w (addr (srs_fSeq r)))" using archive_file_read k q by force
  with ob q show "rpr_account_archive_success r q ob w = (Inr (if archive_key r \<in> rpr_archives m then None
      else Some (q\<lparr>rsp_archiveCopyNbsAccounted := insort_insert (srs_copyNb r) (rsp_archiveCopyNbsAccounted q), rsp_subrequestDeleted := srs_subrequestDeleted r\<rparr>,
        ob\<lparr>oo_payload := add_archived addr w r (oo_payload ob)\<rparr>)), w)"
    by (simp add: rpr_account_archive_success_def rpr_archives_def add_archived_def rpr_updateRepackDestinationInfos_def rpr_write_def)
next
  fix m and r :: rpr_SubrequestStatistics and q
  assume m: "rpr_map_ok m" and q: "smap_get (srs_fSeq r) m = Some q"
  show "rpr_archives (smap_put (srs_fSeq r) (q\<lparr>rsp_archiveCopyNbsAccounted := insort_insert (srs_copyNb r) (rsp_archiveCopyNbsAccounted q),
        rsp_subrequestDeleted := srs_subrequestDeleted r\<rparr>) m) = insert (archive_key r) (rpr_archives m)
    \<and> rpr_map_ok (smap_put (srs_fSeq r) (q\<lparr>rsp_archiveCopyNbsAccounted := insort_insert (srs_copyNb r) (rsp_archiveCopyNbsAccounted q),
        rsp_subrequestDeleted := srs_subrequestDeleted r\<rparr>) m)"
    using archive_marked [OF m q] by blast
qed (use rpr_map_entry in \<open>auto simp: smap_get_put\<close>)

section \<open>The status\<close>

text \<open>The status that the counts of a request ask for.\<close>

definition rpr_status_of :: "repack_request \<Rightarrow> RepackRequestStatus" where
  "rpr_status_of p =
     (if \<not> rpr_is_expand_started p then rpr_status p
      else if rpr_is_expand_finished p \<and> rpr_all_done p
      then (if rpr_failedtoretrievefiles p \<noteq> 0 \<or> rpr_failedtoarchivefiles p \<noteq> 0 then RRS_Failed else RRS_Complete)
      else if rpr_retrievedfiles p \<noteq> 0 \<or> rpr_failedtoretrievefiles p \<noteq> 0 \<or> rpr_archivedfiles p \<noteq> 0 \<or> rpr_failedtoarchivefiles p \<noteq> 0
      then RRS_Running else RRS_Starting)"

definition rpr_finished :: "repack_request \<Rightarrow> bool" where
  "rpr_finished p \<longleftrightarrow> rpr_is_expand_started p \<and> rpr_is_expand_finished p \<and> rpr_all_done p"

lemma set_removeString: "set (removeString xs x) = set xs - {x}"
  by (auto simp: removeString_def)

lemma owner_updated:
  assumes ob: "held ob" and ag: "stored ag_c w (oo_owner ob) ag"
  shows "\<exists>w'. rpr_removeFromOwnerAgentOwnership ob w = (Inr (), w')
    \<and> stored ag_c w' (oo_owner ob) (ag\<lparr>ag_ownedobjects := removeString (ag_ownedobjects ag) (oo_name ob)\<rparr>) \<and> same_except {oo_owner ob} w w'"
proof -
  let ?a = "oo_owner ob"
  have a: "?a \<noteq> ''''" "lockFiles w ?a" "objects w ?a \<noteq> None" using storedD [OF ag] by simp_all
  obtain s1 ago where ago: "exclusive_lock ((oo_new ag_empty)\<lparr>oo_name := ?a, oo_nameSet := True\<rparr>) w = (Inr s1, w)"
    "oo_fetch ag_c s1 w = (Inr ago, w)" "held ago" "oo_name ago = ?a" "oo_payload ago = ag"
    using exclusive_fetch_stored [OF codecs_ok(8) ag, of ag_empty] by (elim exE conjE)
  let ?ag' = "ago\<lparr>oo_payload := ag\<lparr>ag_ownedobjects := removeString (ag_ownedobjects ag) (oo_name ob)\<rparr>\<rparr>"
  let ?w' = "w\<lparr>objects := (objects w)(?a \<mapsto> oo_header ag_c ?ag')\<rparr>"
  have "oo_commit ag_c ?ag' w = (Inr (), ?w')" using ago(3,4) a by (simp add: oo_commit_held vfs_exists_def)
  then have "rpr_removeFromOwnerAgentOwnership ob w = (Inr (), ?w')"
    using ob ago a(1)
    by (simp add: rpr_removeFromOwnerAgentOwnership_def getOwner_def ag_at_def setAddress_new agw_removeFromOwnership_def agw_update_def
        ag_removeFromOwnership_def)
  moreover have "stored ag_c ?w' ?a (oo_payload ?ag')" using a by (intro stored_header) simp_all
  ultimately show ?thesis by (intro exI [of _ ?w']) (simp add: same_except_def)
qed

lemma rpr_setStatus_run:
  assumes ob: "held ob" and ag: "stored ag_c w (oo_owner ob) ag"
  shows "\<exists>t w' ag'. rpr_setStatus now ob w = (Inr (ob\<lparr>oo_payload := (oo_payload ob)\<lparr>rpr_repack_finished_time := t, rpr_status := rpr_status_of (oo_payload ob)\<rparr>\<rparr>), w')
    \<and> stored ag_c w' (oo_owner ob) ag' \<and> same_except {oo_owner ob} w w' \<and> (rpr_finished (oo_payload ob) \<longrightarrow> oo_name ob \<notin> set (ag_ownedobjects ag'))
    \<and> set (ag_ownedobjects ag) - {oo_name ob} \<subseteq> set (ag_ownedobjects ag') \<and> set (ag_ownedobjects ag') \<subseteq> set (ag_ownedobjects ag)"
proof (cases "rpr_finished (oo_payload ob)")
  case True
  let ?ob = "ob\<lparr>oo_payload := (oo_payload ob)\<lparr>rpr_repack_finished_time := now, rpr_status := rpr_status_of (oo_payload ob)\<rparr>\<rparr>"
  obtain w' where w': "rpr_removeFromOwnerAgentOwnership ?ob w = (Inr (), w')"
    "stored ag_c w' (oo_owner ob) (ag\<lparr>ag_ownedobjects := removeString (ag_ownedobjects ag) (oo_name ob)\<rparr>)" "same_except {oo_owner ob} w w'"
    using owner_updated [of ?ob w ag] ob ag by auto
  have "rpr_setStatus now ob w = (Inr ?ob, w')"
    using ob True w'(1) by (auto simp: rpr_setStatus_def rpr_finished_def rpr_setStatus_to_def rpr_write_def rpr_status_of_def Let_def)
  with w'(2,3) show ?thesis
    by (intro exI [of _ now] exI [of _ w'] exI [of _ "ag\<lparr>ag_ownedobjects := removeString (ag_ownedobjects ag) (oo_name ob)\<rparr>"])
      (auto simp: set_removeString)
next
  case False
  then have "rpr_setStatus now ob w = (Inr (ob\<lparr>oo_payload := (oo_payload ob)\<lparr>rpr_repack_finished_time := rpr_repack_finished_time (oo_payload ob),
      rpr_status := rpr_status_of (oo_payload ob)\<rparr>\<rparr>), w)"
    using ob by (auto simp: rpr_setStatus_def rpr_finished_def rpr_setStatus_to_def rpr_write_def rpr_status_of_def Let_def)
  with ag False show ?thesis
    by (intro exI [of _ "rpr_repack_finished_time (oo_payload ob)"] exI [of _ w] exI [of _ ag]) (simp add: same_except_def)
qed

section \<open>One report\<close>

text \<open>
  \<open>rpr_reported\<close>: a request \<open>ob\<close> after a report that changed its counts to those of \<open>p1\<close>. Its status is again the one
  the counts ask for, and once it is finished it is not on the list of its owner.
\<close>

definition rpr_good :: "world \<Rightarrow> repack_request oo \<Rightarrow> bool" where
  "rpr_good w ob \<longleftrightarrow> held ob \<and> rpr_status (oo_payload ob) = rpr_status_of (oo_payload ob)
     \<and> (\<exists>ag. stored ag_c w (oo_owner ob) ag \<and> (rpr_finished (oo_payload ob) \<longrightarrow> oo_name ob \<notin> set (ag_ownedobjects ag)))"

definition rpr_reported :: "world \<Rightarrow> repack_request oo \<Rightarrow> repack_request \<Rightarrow> world \<Rightarrow> repack_request oo \<Rightarrow> bool" where
  "rpr_reported w ob p1 w' ob' \<longleftrightarrow> rpr_good w' ob' \<and> oo_name ob' = oo_name ob \<and> oo_owner ob' = oo_owner ob \<and> same_except {oo_owner ob} w w'
     \<and> (\<exists>t ss. oo_payload ob' = p1\<lparr>rpr_repack_finished_time := t, rpr_status := rpr_status_of p1, rpr_subrequests := ss\<rparr>)"

lemma rpr_status_of_update [simp]:
  "rpr_is_expand_started p \<Longrightarrow> rpr_status_of (p\<lparr>rpr_repack_finished_time := t, rpr_status := s, rpr_subrequests := ss\<rparr>) = rpr_status_of p"
  "rpr_finished (p\<lparr>rpr_repack_finished_time := t, rpr_status := s, rpr_subrequests := ss\<rparr>) = rpr_finished p"
  by (simp_all add: rpr_status_of_def rpr_finished_def rpr_all_done_def)

context accounting
begin

lemma reported:
  assumes good: "rpr_good w ob" and known: "\<forall>r \<in> set rs. known w r (rpr_pointerMap (oo_payload ob))"
    and R: "R = fresh_reports key (acc (rpr_pointerMap (oo_payload ob))) rs"
    and started: "rpr_is_expand_started (fold (add w) R (oo_payload ob))"
    and keep: "\<And>m r q. rpr_map_ok m \<Longrightarrow> smap_get (fSeq r) m = Some q \<Longrightarrow> P (smap_put (fSeq r) (mark r q) m) = P m"
  shows "\<exists>w' ob'. rpr_report caller fSeq account (rpr_setStatus now) rs ob w = (Inr ob', w')
    \<and> rpr_reported w ob (fold (add w) R (oo_payload ob)) w' ob'
    \<and> acc (rpr_pointerMap (oo_payload ob')) = acc (rpr_pointerMap (oo_payload ob)) \<union> key ` set rs
    \<and> P (rpr_pointerMap (oo_payload ob')) = P (rpr_pointerMap (oo_payload ob))"
proof -
  define p1 where "p1 = fold (add w) R (oo_payload ob)"
  obtain ag where ag: "held ob" "stored ag_c w (oo_owner ob) ag" "rpr_finished (oo_payload ob) \<longrightarrow> oo_name ob \<notin> set (ag_ownedobjects ag)"
    "rpr_status (oo_payload ob) = rpr_status_of (oo_payload ob)"
    using good by (auto simp: rpr_good_def)
  obtain m where m: "foldM (rpr_report_step caller fSeq account) (rpr_pointerMap (oo_payload ob), ob, False) rs w
      = (Inr (m, ob\<lparr>oo_payload := p1\<rparr>, R \<noteq> []), w)"
    "rpr_map_ok m" "acc m = acc (rpr_pointerMap (oo_payload ob)) \<union> key ` set rs" "P m = P (rpr_pointerMap (oo_payload ob))"
    using steps [of P, OF keep rpr_pointerMap_ok known ag(1), of caller False] unfolding R [symmetric] p1_def [symmetric] by auto
  show ?thesis
  proof (cases "R = []")
    case True
    then have run: "rpr_report caller fSeq account (rpr_setStatus now) rs ob w = (Inr ob, w)" using m(1) ag(1) by (simp add: rpr_report_def p1_def)
    have "acc (rpr_pointerMap (oo_payload ob)) = acc (rpr_pointerMap (oo_payload ob)) \<union> key ` set rs"
      using fresh_reports_keys [of "acc (rpr_pointerMap (oo_payload ob))" key rs] True R by simp
    moreover have "rpr_reported w ob (oo_payload ob) w ob" unfolding rpr_reported_def using good ag(4)
      by (intro conjI exI [of _ "rpr_repack_finished_time (oo_payload ob)"] exI [of _ "rpr_subrequests (oo_payload ob)"]) (simp_all add: same_except_def)
    ultimately show ?thesis using run True by (intro exI [of _ w] exI [of _ ob]) simp
  next
    case False
    let ?ob1 = "ob\<lparr>oo_payload := p1\<rparr>"
    obtain t w' ag' where s: "rpr_setStatus now ?ob1 w = (Inr (ob\<lparr>oo_payload := p1\<lparr>rpr_repack_finished_time := t, rpr_status := rpr_status_of p1\<rparr>\<rparr>), w')"
      "stored ag_c w' (oo_owner ob) ag'" "same_except {oo_owner ob} w w'" "rpr_finished p1 \<longrightarrow> oo_name ob \<notin> set (ag_ownedobjects ag')"
      using rpr_setStatus_run [of ?ob1 w ag now] ag(1,2) by auto
    let ?ob' = "rpr_store_pointers m (ob\<lparr>oo_payload := p1\<lparr>rpr_repack_finished_time := t, rpr_status := rpr_status_of p1\<rparr>\<rparr>)"
    have run: "rpr_report caller fSeq account (rpr_setStatus now) rs ob w = (Inr ?ob', w')"
      using m(1) ag(1) s(1) False by (simp add: rpr_report_def)
    have st: "rpr_is_expand_started p1" using started by (simp add: p1_def)
    have "rpr_reported w ob p1 w' ?ob'"
      unfolding rpr_reported_def rpr_good_def using ag(1) s(2-4) st by (auto simp: rpr_store_pointers_def)
    with run m(3,4) show ?thesis unfolding p1_def [symmetric]
      by (intro exI [of _ w'] exI [of _ ?ob']) (simp add: rpr_store_pointers_map [OF m(2)])
  qed
qed

end

section \<open>Any sequence of reports\<close>

datatype rpr_event =
    RetrieveSuccesses time_t "rpr_SubrequestStatistics list"
  | RetrieveFailures time_t "rpr_SubrequestStatistics list"
  | ArchiveSuccesses time_t "rpr_SubrequestStatistics list"
  | ArchiveFailures time_t "rpr_SubrequestStatistics list"

fun rpr_apply :: "repack_request oo \<Rightarrow> rpr_event \<Rightarrow> (world, repack_request oo) prog" where
  "rpr_apply ob (RetrieveSuccesses now rs) = rpr_reportRetriveSuccesses now rs ob"
| "rpr_apply ob (RetrieveFailures now rs) = rpr_reportRetriveFailures now rs ob"
| "rpr_apply ob (ArchiveSuccesses now rs) = bnd (rpr_reportArchiveSuccesses now rs ob) (\<lambda>(status, ob). ret ob)"
| "rpr_apply ob (ArchiveFailures now rs) = bnd (rpr_reportArchiveFailures now rs ob) (\<lambda>(status, ob). ret ob)"

fun ev_reports :: "rpr_event \<Rightarrow> rpr_SubrequestStatistics list" where
  "ev_reports (RetrieveSuccesses now rs) = rs"
| "ev_reports (RetrieveFailures now rs) = rs"
| "ev_reports (ArchiveSuccesses now rs) = rs"
| "ev_reports (ArchiveFailures now rs) = rs"

text \<open>The retrieves and the archive jobs that an event reports on.\<close>

fun ev_retrieves :: "rpr_event \<Rightarrow> u64 set" where
  "ev_retrieves (RetrieveSuccesses now rs) = srs_fSeq ` set rs"
| "ev_retrieves (RetrieveFailures now rs) = srs_fSeq ` set rs"
| "ev_retrieves _ = {}"

fun ev_archives :: "rpr_event \<Rightarrow> (u64 \<times> u32) set" where
  "ev_archives (ArchiveSuccesses now rs) = (\<lambda>r. (srs_fSeq r, srs_copyNb r)) ` set rs"
| "ev_archives (ArchiveFailures now rs) = (\<lambda>r. (srs_fSeq r, srs_copyNb r)) ` set rs"
| "ev_archives _ = {}"

text \<open>
  \<open>addr\<close> gives the addresses of the sub-requests. An event is about known files, one file per report, and none
  provided by the user; the archive requests that succeeded are in the store.
\<close>

definition ev_ok :: "world \<Rightarrow> (u64 \<Rightarrow> string option) \<Rightarrow> rpr_event \<Rightarrow> bool" where
  "ev_ok w addr e \<longleftrightarrow> (\<forall>r \<in> set (ev_reports e). srs_files r = 1 \<and> \<not> srs_hasUserProvidedFile r \<and> addr (srs_fSeq r) \<noteq> None)
     \<and> (case e of ArchiveSuccesses now rs \<Rightarrow> \<forall>r \<in> set rs. archive_readable w (the (addr (srs_fSeq r))) | _ \<Rightarrow> True)"

abbreviation rpr_addr :: "(u64, rpr_pointer) std_map \<Rightarrow> u64 \<Rightarrow> string option" where
  "rpr_addr m fs \<equiv> map_option rsp_address (smap_get fs m)"

definition rpr_plan :: "repack_request \<Rightarrow> u64 \<times> u64 \<times> u64 \<times> bool \<times> bool" where
  "rpr_plan p = (rpr_totalfilestoretrieve p, rpr_totalfilestoarchive p, rpr_failedtocreatearchivereq p, rpr_is_expand_started p, rpr_is_expand_finished p)"

text \<open>The request with the retrieves \<open>R\<close> and the archive jobs \<open>A\<close> accounted.\<close>

definition rpr_counted :: "repack_request \<Rightarrow> u64 set \<Rightarrow> (u64 \<times> u32) set \<Rightarrow> bool" where
  "rpr_counted p R A \<longleftrightarrow> rpr_retrieves (rpr_pointerMap p) = R \<and> rpr_archives (rpr_pointerMap p) = A \<and> finite A
     \<and> unat (rpr_retrievedfiles p) + unat (rpr_failedtoretrievefiles p) = card R
     \<and> unat (rpr_archivedfiles p) + unat (rpr_failedtoarchivefiles p) = card A"

lemma fresh_reports_length: "finite K \<Longrightarrow> length (fresh_reports key K rs) + card K = card (K \<union> key ` set rs)"
proof (induction rs arbitrary: K)
  case (Cons r rs)
  show ?case
  proof (cases "key r \<in> K")
    case False
    with Cons.IH [of "insert (key r) K"] Cons.prems show ?thesis by (simp add: insert_commute)
  qed (use Cons.IH [of K] Cons.prems in \<open>auto simp: insert_absorb\<close>)
qed simp

lemma set_fresh_reports: "set (fresh_reports key K rs) \<subseteq> set rs"
proof (induction rs arbitrary: K)
  case (Cons r rs)
  show ?case using Cons.IH [of K] Cons.IH [of "insert (key r) K"] by (simp add: subset_insertI2)
qed simp

lemma fold_upd:
  fixes upd :: "'x \<Rightarrow> u64 \<Rightarrow> 'p"
  assumes "\<And>r x n. r \<in> set R \<Longrightarrow> f r (upd x n) = upd (nx r x) (n + 1)" and "p = upd x n"
  shows "\<exists>x'. fold f R p = upd x' (n + of_nat (length R))"
  using assms
proof (induction R arbitrary: x n p)
  case (Cons r R)
  have "f r p = upd (nx r x) (n + 1)" using Cons.prems by simp
  from Cons.IH [OF Cons.prems(1) this] show ?case by (simp add: ac_simps)
qed auto

lemma fold_added:
  assumes R: "\<And>r. r \<in> set R \<Longrightarrow> srs_files r = 1 \<and> \<not> srs_hasUserProvidedFile r"
  shows "\<exists>b. fold (add_retrieved w) R p = p\<lparr>rpr_retrievedbytes := b, rpr_retrievedfiles := rpr_retrievedfiles p + of_nat (length R)\<rparr>"
    and "\<exists>b. fold (add_failed_retrieve w) R p = p\<lparr>rpr_failedtoretrievebytes := b, rpr_failedtoretrievefiles := rpr_failedtoretrievefiles p + of_nat (length R)\<rparr>"
    and "\<exists>b. fold (add_failed_archive w) R p = p\<lparr>rpr_failedtoarchivebytes := b, rpr_failedtoarchivefiles := rpr_failedtoarchivefiles p + of_nat (length R)\<rparr>"
    and "\<exists>x. fold (add_archived addr w) R p
      = p\<lparr>rpr_destination_infos := fst x, rpr_archivedbytes := snd x, rpr_archivedfiles := rpr_archivedfiles p + of_nat (length R)\<rparr>"
proof -
  note defs = add_retrieved_def add_failed_retrieve_def add_failed_archive_def add_archived_def
  show "\<exists>b. fold (add_retrieved w) R p = p\<lparr>rpr_retrievedbytes := b, rpr_retrievedfiles := rpr_retrievedfiles p + of_nat (length R)\<rparr>"
    using fold_upd [of R "add_retrieved w" "\<lambda>b n. p\<lparr>rpr_retrievedbytes := b, rpr_retrievedfiles := rpr_retrievedfiles p + n\<rparr>"
        "\<lambda>r b. b + srs_bytes r" p "rpr_retrievedbytes p" 0] R by (simp add: defs ac_simps)
  show "\<exists>b. fold (add_failed_retrieve w) R p = p\<lparr>rpr_failedtoretrievebytes := b, rpr_failedtoretrievefiles := rpr_failedtoretrievefiles p + of_nat (length R)\<rparr>"
    using fold_upd [of R "add_failed_retrieve w" "\<lambda>b n. p\<lparr>rpr_failedtoretrievebytes := b, rpr_failedtoretrievefiles := rpr_failedtoretrievefiles p + n\<rparr>"
        "\<lambda>r b. b + srs_bytes r" p "rpr_failedtoretrievebytes p" 0] R by (simp add: defs ac_simps)
  show "\<exists>b. fold (add_failed_archive w) R p = p\<lparr>rpr_failedtoarchivebytes := b, rpr_failedtoarchivefiles := rpr_failedtoarchivefiles p + of_nat (length R)\<rparr>"
    using fold_upd [of R "add_failed_archive w" "\<lambda>b n. p\<lparr>rpr_failedtoarchivebytes := b, rpr_failedtoarchivefiles := rpr_failedtoarchivefiles p + n\<rparr>"
        "\<lambda>r b. b + srs_bytes r" p "rpr_failedtoarchivebytes p" 0] R by (simp add: defs ac_simps)
  show "\<exists>x. fold (add_archived addr w) R p
      = p\<lparr>rpr_destination_infos := fst x, rpr_archivedbytes := snd x, rpr_archivedfiles := rpr_archivedfiles p + of_nat (length R)\<rparr>"
    using fold_upd [of R "add_archived addr w" "\<lambda>x n. p\<lparr>rpr_destination_infos := fst x, rpr_archivedbytes := snd x, rpr_archivedfiles := rpr_archivedfiles p + n\<rparr>"
        "\<lambda>r x. (rpr_add_destination (af_filesize (archived_file w (addr (srs_fSeq r)))) (srs_destinationVid r) (fst x), snd x + srs_bytes r)" p
        "(rpr_destination_infos p, rpr_archivedbytes p)" 0] R by (simp add: defs ac_simps)
qed

lemma unat_add_count: "unat a + n < 2 ^ 64 \<Longrightarrow> unat (a + of_nat n) = unat a + n" for a :: u64
  by (simp add: unat_word_ariths unat_of_nat)

lemma fresh_reports_bound: "length (fresh_reports key K rs) \<le> length rs"
proof (induction rs arbitrary: K)
  case (Cons r rs)
  show ?case using Cons.IH [of K] Cons.IH [of "insert (key r) K"] by simp
qed simp

definition rpr_next :: "world \<Rightarrow> repack_request oo \<Rightarrow> u64 set \<Rightarrow> (u64 \<times> u32) set \<Rightarrow> world \<Rightarrow> repack_request oo \<Rightarrow> bool" where
  "rpr_next w ob R A w' ob' \<longleftrightarrow> rpr_good w' ob' \<and> rpr_counted (oo_payload ob') R A \<and> rpr_plan (oo_payload ob') = rpr_plan (oo_payload ob)
     \<and> oo_name ob' = oo_name ob \<and> oo_owner ob' = oo_owner ob \<and> rpr_addr (rpr_pointerMap (oo_payload ob')) = rpr_addr (rpr_pointerMap (oo_payload ob))
     \<and> same_except {oo_owner ob} w w'"

lemma addr_kept:
  assumes "rpr_map_ok m" "smap_get fs m = Some q" "rsp_address q' = rsp_address q"
  shows "rpr_addr (smap_put fs q' m) = rpr_addr m"
  using assms by (auto simp: rpr_map_ok_def smap_get_put)

lemma other_kept:
  assumes "rpr_map_ok m" "smap_get fs m = Some q"
  shows "rpr_archives (smap_put fs (q\<lparr>rsp_retrieveAccounted := b\<rparr>) m) = rpr_archives m"
    and "rpr_retrieves (smap_put fs (q\<lparr>rsp_archiveCopyNbsAccounted := cs, rsp_subrequestDeleted := d\<rparr>) m) = rpr_retrieves m"
  using assms by (auto simp: rpr_map_ok_def rpr_archives_def rpr_retrieves_def smap_get_put split: if_splits)

lemma retrieves_counted:
  assumes rep: "rpr_reported w ob p1 w' ob'" and c: "rpr_counted (oo_payload ob) R A"
    and F: "F = fresh_reports srs_fSeq R rs" and room: "card R + length rs < 2 ^ 64"
    and acc: "rpr_retrieves (rpr_pointerMap (oo_payload ob')) = R \<union> srs_fSeq ` set rs"
      "(rpr_archives (rpr_pointerMap (oo_payload ob')), rpr_addr (rpr_pointerMap (oo_payload ob')))
        = (rpr_archives (rpr_pointerMap (oo_payload ob)), rpr_addr (rpr_pointerMap (oo_payload ob)))"
    and p1: "(\<exists>b. p1 = (oo_payload ob)\<lparr>rpr_retrievedbytes := b, rpr_retrievedfiles := rpr_retrievedfiles (oo_payload ob) + of_nat (length F)\<rparr>)
      \<or> (\<exists>b. p1 = (oo_payload ob)\<lparr>rpr_failedtoretrievebytes := b, rpr_failedtoretrievefiles := rpr_failedtoretrievefiles (oo_payload ob) + of_nat (length F)\<rparr>)"
  shows "rpr_next w ob (R \<union> srs_fSeq ` set rs) A w' ob'"
proof -
  have len: "length F + card R = card (R \<union> srs_fSeq ` set rs)" unfolding F by (rule fresh_reports_length) simp
  have "length F \<le> length rs" unfolding F by (rule fresh_reports_bound)
  then have "unat (rpr_retrievedfiles (oo_payload ob)) + length F < 2 ^ 64" "unat (rpr_failedtoretrievefiles (oo_payload ob)) + length F < 2 ^ 64"
    using c room by (auto simp: rpr_counted_def)
  note sums = unat_add_count [OF this(1)] unat_add_count [OF this(2)]
  from p1 show ?thesis
  proof
    assume "\<exists>b. p1 = (oo_payload ob)\<lparr>rpr_retrievedbytes := b, rpr_retrievedfiles := rpr_retrievedfiles (oo_payload ob) + of_nat (length F)\<rparr>"
    then show ?thesis using rep c len sums acc by (auto simp: rpr_next_def rpr_reported_def rpr_counted_def rpr_plan_def)
  next
    assume "\<exists>b. p1 = (oo_payload ob)\<lparr>rpr_failedtoretrievebytes := b, rpr_failedtoretrievefiles := rpr_failedtoretrievefiles (oo_payload ob) + of_nat (length F)\<rparr>"
    then show ?thesis using rep c len sums acc by (auto simp: rpr_next_def rpr_reported_def rpr_counted_def rpr_plan_def)
  qed
qed

lemma archives_counted:
  assumes rep: "rpr_reported w ob p1 w' ob'" and c: "rpr_counted (oo_payload ob) R A"
    and F: "F = fresh_reports (\<lambda>r. archive_key r) A rs" and room: "card A + length rs < 2 ^ 64"
    and acc: "rpr_archives (rpr_pointerMap (oo_payload ob')) = A \<union> (\<lambda>r. archive_key r) ` set rs"
      "(rpr_retrieves (rpr_pointerMap (oo_payload ob')), rpr_addr (rpr_pointerMap (oo_payload ob')))
        = (rpr_retrieves (rpr_pointerMap (oo_payload ob)), rpr_addr (rpr_pointerMap (oo_payload ob)))"
    and p1: "(\<exists>x. p1 = (oo_payload ob)\<lparr>rpr_destination_infos := fst x, rpr_archivedbytes := snd x, rpr_archivedfiles := rpr_archivedfiles (oo_payload ob) + of_nat (length F)\<rparr>)
      \<or> (\<exists>b. p1 = (oo_payload ob)\<lparr>rpr_failedtoarchivebytes := b, rpr_failedtoarchivefiles := rpr_failedtoarchivefiles (oo_payload ob) + of_nat (length F)\<rparr>)"
  shows "rpr_next w ob R (A \<union> (\<lambda>r. archive_key r) ` set rs) w' ob'"
proof -
  have fin: "finite A" using c by (simp add: rpr_counted_def)
  have len: "length F + card A = card (A \<union> (\<lambda>r. archive_key r) ` set rs)" unfolding F by (rule fresh_reports_length [OF fin])
  have "length F \<le> length rs" unfolding F by (rule fresh_reports_bound)
  then have "unat (rpr_archivedfiles (oo_payload ob)) + length F < 2 ^ 64" "unat (rpr_failedtoarchivefiles (oo_payload ob)) + length F < 2 ^ 64"
    using c room by (auto simp: rpr_counted_def)
  note sums = unat_add_count [OF this(1)] unat_add_count [OF this(2)]
  from p1 show ?thesis
  proof
    assume "\<exists>x. p1 = (oo_payload ob)\<lparr>rpr_destination_infos := fst x, rpr_archivedbytes := snd x, rpr_archivedfiles := rpr_archivedfiles (oo_payload ob) + of_nat (length F)\<rparr>"
    then show ?thesis using rep c len sums acc by (auto simp: rpr_next_def rpr_reported_def rpr_counted_def rpr_plan_def)
  next
    assume "\<exists>b. p1 = (oo_payload ob)\<lparr>rpr_failedtoarchivebytes := b, rpr_failedtoarchivefiles := rpr_failedtoarchivefiles (oo_payload ob) + of_nat (length F)\<rparr>"
    then show ?thesis using rep c len sums acc by (auto simp: rpr_next_def rpr_reported_def rpr_counted_def rpr_plan_def)
  qed
qed

lemma ev_ok_single:
  "ev_ok w addr e \<Longrightarrow> r \<in> set (fresh_reports key K (ev_reports e)) \<Longrightarrow> srs_files r = 1 \<and> \<not> srs_hasUserProvidedFile r"
  using set_fresh_reports [of key K "ev_reports e"] by (auto simp: ev_ok_def)

lemma retrieve_successes_step:
  assumes good: "rpr_good w ob" and c: "rpr_counted (oo_payload ob) R A" and st: "rpr_is_expand_started (oo_payload ob)"
    and ok: "ev_ok w (rpr_addr (rpr_pointerMap (oo_payload ob))) (RetrieveSuccesses now rs)" and room: "card R + length rs < 2 ^ 64"
  shows "\<exists>w' ob'. rpr_apply ob (RetrieveSuccesses now rs) w = (Inr ob', w') \<and> rpr_next w ob (R \<union> srs_fSeq ` set rs) A w' ob'"
proof -
  let ?p = "oo_payload ob" and ?P = "\<lambda>m. (rpr_archives m, rpr_addr m)" and ?F = "fresh_reports srs_fSeq R rs"
  let ?m = "rpr_pointerMap ?p"
  have acc: "rpr_retrieves ?m = R" using c by (simp add: rpr_counted_def)
  have F: "?F = fresh_reports srs_fSeq (rpr_retrieves ?m) rs" by (simp only: acc)
  have "\<And>r. r \<in> set ?F \<Longrightarrow> srs_files r = 1 \<and> \<not> srs_hasUserProvidedFile r" using ev_ok_single [OF ok] by simp
  then obtain b where p1: "fold (add_retrieved w) ?F ?p = ?p\<lparr>rpr_retrievedbytes := b, rpr_retrievedfiles := rpr_retrievedfiles ?p + of_nat (length ?F)\<rparr>"
    using fold_added(1) [of ?F w ?p] by blast
  have started: "rpr_is_expand_started (fold (add_retrieved w) ?F ?p)" using st by (simp add: p1)
  have known: "\<forall>r \<in> set rs. in_map r ?m"
    using ok by (auto simp: ev_ok_def)
  have keep: "?P (smap_put (srs_fSeq r) (q\<lparr>rsp_retrieveAccounted := True\<rparr>) m) = ?P m" if "rpr_map_ok m" "smap_get (srs_fSeq r) m = Some q" for m r q
    using other_kept(1) [OF that] addr_kept [OF that, of "q\<lparr>rsp_retrieveAccounted := True\<rparr>"] by simp
  obtain w' ob' where r: "rpr_apply ob (RetrieveSuccesses now rs) w = (Inr ob', w')" "rpr_reported w ob (fold (add_retrieved w) ?F ?p) w' ob'"
    "rpr_retrieves (rpr_pointerMap (oo_payload ob')) = R \<union> srs_fSeq ` set rs" "?P (rpr_pointerMap (oo_payload ob')) = ?P ?m"
    using retrieved.reported [where P = ?P and caller = "''RepackRequest::reportRetriveSuccesses''" and now = now, OF good known F started keep]
    by (auto simp: rpr_reportRetriveSuccesses_def acc)
  show ?thesis using r(1) retrieves_counted [OF r(2) c refl room r(3,4)] p1 by blast
qed

lemma retrieve_failures_step:
  assumes good: "rpr_good w ob" and c: "rpr_counted (oo_payload ob) R A" and st: "rpr_is_expand_started (oo_payload ob)"
    and ok: "ev_ok w (rpr_addr (rpr_pointerMap (oo_payload ob))) (RetrieveFailures now rs)" and room: "card R + length rs < 2 ^ 64"
  shows "\<exists>w' ob'. rpr_apply ob (RetrieveFailures now rs) w = (Inr ob', w') \<and> rpr_next w ob (R \<union> srs_fSeq ` set rs) A w' ob'"
proof -
  let ?p = "oo_payload ob" and ?P = "\<lambda>m. (rpr_archives m, rpr_addr m)" and ?F = "fresh_reports srs_fSeq R rs"
  let ?m = "rpr_pointerMap ?p"
  have acc: "rpr_retrieves ?m = R" using c by (simp add: rpr_counted_def)
  have F: "?F = fresh_reports srs_fSeq (rpr_retrieves ?m) rs" by (simp only: acc)
  have "\<And>r. r \<in> set ?F \<Longrightarrow> srs_files r = 1 \<and> \<not> srs_hasUserProvidedFile r" using ev_ok_single [OF ok] by simp
  then obtain b where p1: "fold (add_failed_retrieve w) ?F ?p = ?p\<lparr>rpr_failedtoretrievebytes := b, rpr_failedtoretrievefiles := rpr_failedtoretrievefiles ?p + of_nat (length ?F)\<rparr>"
    using fold_added(2) [of ?F w ?p] by blast
  have started: "rpr_is_expand_started (fold (add_failed_retrieve w) ?F ?p)" using st by (simp add: p1)
  have known: "\<forall>r \<in> set rs. in_map r ?m"
    using ok by (auto simp: ev_ok_def)
  have keep: "?P (smap_put (srs_fSeq r) (q\<lparr>rsp_retrieveAccounted := True\<rparr>) m) = ?P m" if "rpr_map_ok m" "smap_get (srs_fSeq r) m = Some q" for m r q
    using other_kept(1) [OF that] addr_kept [OF that, of "q\<lparr>rsp_retrieveAccounted := True\<rparr>"] by simp
  obtain w' ob' where r: "rpr_apply ob (RetrieveFailures now rs) w = (Inr ob', w')" "rpr_reported w ob (fold (add_failed_retrieve w) ?F ?p) w' ob'"
    "rpr_retrieves (rpr_pointerMap (oo_payload ob')) = R \<union> srs_fSeq ` set rs" "?P (rpr_pointerMap (oo_payload ob')) = ?P ?m"
    using failed_retrieve.reported [where P = ?P and caller = "''RepackRequest::reportRetriveFailures''" and now = now, OF good known F started keep]
    by (auto simp: rpr_reportRetriveFailures_def acc)
  show ?thesis using r(1) retrieves_counted [OF r(2) c refl room r(3,4)] p1 by blast
qed

lemma archive_successes_step:
  assumes good: "rpr_good w ob" and c: "rpr_counted (oo_payload ob) R A" and st: "rpr_is_expand_started (oo_payload ob)"
    and ok: "ev_ok w (rpr_addr (rpr_pointerMap (oo_payload ob))) (ArchiveSuccesses now rs)" and room: "card A + length rs < 2 ^ 64"
  shows "\<exists>w' ob'. rpr_apply ob (ArchiveSuccesses now rs) w = (Inr ob', w') \<and> rpr_next w ob R (A \<union> (\<lambda>r. archive_key r) ` set rs) w' ob'"
proof -
  let ?p = "oo_payload ob" and ?P = "\<lambda>m. (rpr_retrieves m, rpr_addr m)" and ?F = "fresh_reports ((\<lambda>r. archive_key r)) A rs" and ?addr = "\<lambda>fs. the (rpr_addr (rpr_pointerMap (oo_payload ob)) fs)"
  let ?m = "rpr_pointerMap ?p"
  have acc: "rpr_archives ?m = A" using c by (simp add: rpr_counted_def)
  have F: "?F = fresh_reports (\<lambda>r. archive_key r) (rpr_archives ?m) rs" by (simp only: acc)
  have "\<And>r. r \<in> set ?F \<Longrightarrow> srs_files r = 1 \<and> \<not> srs_hasUserProvidedFile r" using ev_ok_single [OF ok] by simp
  then obtain x where p1: "fold (add_archived ?addr w) ?F ?p = ?p\<lparr>rpr_destination_infos := fst x, rpr_archivedbytes := snd x, rpr_archivedfiles := rpr_archivedfiles ?p + of_nat (length ?F)\<rparr>"
    using fold_added(4) [of ?F ?addr w ?p] by blast
  have started: "rpr_is_expand_started (fold (add_archived ?addr w) ?F ?p)" using st by (simp add: p1)
  have known: "\<forall>r \<in> set rs. (\<exists>q. smap_get (srs_fSeq r) ?m = Some q \<and> rsp_address q = ?addr (srs_fSeq r)) \<and> archive_readable w (?addr (srs_fSeq r))"
    using ok by (auto simp: ev_ok_def)
  have keep: "?P (smap_put (srs_fSeq r) (q\<lparr>rsp_archiveCopyNbsAccounted := insort_insert (srs_copyNb r) (rsp_archiveCopyNbsAccounted q), rsp_subrequestDeleted := srs_subrequestDeleted r\<rparr>) m) = ?P m" if "rpr_map_ok m" "smap_get (srs_fSeq r) m = Some q" for m r q
    using other_kept(2) [OF that] addr_kept [OF that, of "q\<lparr>rsp_archiveCopyNbsAccounted := insort_insert (srs_copyNb r) (rsp_archiveCopyNbsAccounted q), rsp_subrequestDeleted := srs_subrequestDeleted r\<rparr>"] by simp
  obtain w' ob' where r: "rpr_apply ob (ArchiveSuccesses now rs) w = (Inr ob', w')" "rpr_reported w ob (fold (add_archived ?addr w) ?F ?p) w' ob'"
    "rpr_archives (rpr_pointerMap (oo_payload ob')) = A \<union> (\<lambda>r. archive_key r) ` set rs" "?P (rpr_pointerMap (oo_payload ob')) = ?P ?m"
    using archived.reported [where P = ?P and caller = "''RepackRequest::reportArchiveSuccesses''" and now = now, OF good known F started keep]
    by (auto simp: rpr_reportArchiveSuccesses_def acc)
  show ?thesis using r(1) archives_counted [OF r(2) c refl room r(3,4)] p1 by blast
qed

lemma archive_failures_step:
  assumes good: "rpr_good w ob" and c: "rpr_counted (oo_payload ob) R A" and st: "rpr_is_expand_started (oo_payload ob)"
    and ok: "ev_ok w (rpr_addr (rpr_pointerMap (oo_payload ob))) (ArchiveFailures now rs)" and room: "card A + length rs < 2 ^ 64"
  shows "\<exists>w' ob'. rpr_apply ob (ArchiveFailures now rs) w = (Inr ob', w') \<and> rpr_next w ob R (A \<union> (\<lambda>r. archive_key r) ` set rs) w' ob'"
proof -
  let ?p = "oo_payload ob" and ?P = "\<lambda>m. (rpr_retrieves m, rpr_addr m)" and ?F = "fresh_reports ((\<lambda>r. archive_key r)) A rs"
  let ?m = "rpr_pointerMap ?p"
  have acc: "rpr_archives ?m = A" using c by (simp add: rpr_counted_def)
  have F: "?F = fresh_reports (\<lambda>r. archive_key r) (rpr_archives ?m) rs" by (simp only: acc)
  have "\<And>r. r \<in> set ?F \<Longrightarrow> srs_files r = 1 \<and> \<not> srs_hasUserProvidedFile r" using ev_ok_single [OF ok] by simp
  then obtain b where p1: "fold (add_failed_archive w) ?F ?p = ?p\<lparr>rpr_failedtoarchivebytes := b, rpr_failedtoarchivefiles := rpr_failedtoarchivefiles ?p + of_nat (length ?F)\<rparr>"
    using fold_added(3) [of ?F w ?p] by blast
  have started: "rpr_is_expand_started (fold (add_failed_archive w) ?F ?p)" using st by (simp add: p1)
  have known: "\<forall>r \<in> set rs. in_map r ?m"
    using ok by (auto simp: ev_ok_def)
  have keep: "?P (smap_put (srs_fSeq r) (q\<lparr>rsp_archiveCopyNbsAccounted := insort_insert (srs_copyNb r) (rsp_archiveCopyNbsAccounted q), rsp_subrequestDeleted := True\<rparr>) m) = ?P m" if "rpr_map_ok m" "smap_get (srs_fSeq r) m = Some q" for m r q
    using other_kept(2) [OF that] addr_kept [OF that, of "q\<lparr>rsp_archiveCopyNbsAccounted := insort_insert (srs_copyNb r) (rsp_archiveCopyNbsAccounted q), rsp_subrequestDeleted := True\<rparr>"] by simp
  obtain w' ob' where r: "rpr_apply ob (ArchiveFailures now rs) w = (Inr ob', w')" "rpr_reported w ob (fold (add_failed_archive w) ?F ?p) w' ob'"
    "rpr_archives (rpr_pointerMap (oo_payload ob')) = A \<union> (\<lambda>r. archive_key r) ` set rs" "?P (rpr_pointerMap (oo_payload ob')) = ?P ?m"
    using failed_archive.reported [where P = ?P and caller = "''RepackRequest::reportArchiveFailures''" and now = now, OF good known F started keep]
    by (auto simp: rpr_reportArchiveFailures_def acc)
  show ?thesis using r(1) archives_counted [OF r(2) c refl room r(3,4)] p1 by blast
qed

lemma event_step:
  assumes good: "rpr_good w ob" and c: "rpr_counted (oo_payload ob) R A" and st: "rpr_is_expand_started (oo_payload ob)"
    and ok: "ev_ok w (rpr_addr (rpr_pointerMap (oo_payload ob))) e"
    and room: "card R + length (ev_reports e) < 2 ^ 64" "card A + length (ev_reports e) < 2 ^ 64"
  shows "\<exists>w' ob'. rpr_apply ob e w = (Inr ob', w') \<and> rpr_next w ob (R \<union> ev_retrieves e) (A \<union> ev_archives e) w' ob'"
proof (cases e)
  case (RetrieveSuccesses now rs)
  then show ?thesis using retrieve_successes_step [OF good c st] ok room(1) by simp
next
  case (RetrieveFailures now rs)
  then show ?thesis using retrieve_failures_step [OF good c st] ok room(1) by simp
next
  case (ArchiveSuccesses now rs)
  then show ?thesis using archive_successes_step [OF good c st] ok room(2) by simp
next
  case (ArchiveFailures now rs)
  then show ?thesis using archive_failures_step [OF good c st] ok room(2) by simp
qed


lemma ev_ok_later:
  assumes "rpr_next w ob R A w' ob'" and "rpr_good w ob" and "ev_ok w (rpr_addr (rpr_pointerMap (oo_payload ob))) e"
  shows "ev_ok w' (rpr_addr (rpr_pointerMap (oo_payload ob'))) e"
proof -
  have same: "same_except {oo_owner ob} w w'" and addr: "rpr_addr (rpr_pointerMap (oo_payload ob')) = rpr_addr (rpr_pointerMap (oo_payload ob))"
    using assms(1) by (simp_all add: rpr_next_def)
  obtain ag where ag: "stored ag_c w (oo_owner ob) ag" using assms(2) by (auto simp: rpr_good_def)
  have "archive_readable w' a" if "archive_readable w a" for a
  proof -
    have "a \<noteq> oo_owner ob" using that ag by (auto simp: archive_readable_def stored_def agent_codec_def)
    then show ?thesis using that same_exceptD(1) [OF same, of a] by (simp add: archive_readable_def)
  qed
  with assms(3) show ?thesis unfolding addr by (cases e) (auto simp: ev_ok_def)
qed

lemma rpr_next_trans:
  assumes "rpr_next w ob R A w1 ob1" and "rpr_next w1 ob1 R' A' w2 ob2"
  shows "rpr_next w ob R' A' w2 ob2"
  using assms same_except_trans [of "{oo_owner ob}" w w1 "{oo_owner ob}" w2 "{oo_owner ob}"] by (simp add: rpr_next_def)

lemma card_union_bound: "card (R \<union> f ` set rs) \<le> card R + length rs"
  using card_Un_le [of R "f ` set rs"] card_image_le [of "set rs" f] card_length [of rs] by simp

lemma ev_card: "card (R \<union> ev_retrieves e) \<le> card R + length (ev_reports e)" "card (A \<union> ev_archives e) \<le> card A + length (ev_reports e)"
  using card_union_bound [of R srs_fSeq "ev_reports e"] card_union_bound [of A "\<lambda>r. archive_key r" "ev_reports e"] by (cases e; simp)+

lemma ev_cards: "card (\<Union>e \<in> set es. ev_retrieves e) \<le> (\<Sum>e\<leftarrow>es. length (ev_reports e))"
  "card (\<Union>e \<in> set es. ev_archives e) \<le> (\<Sum>e\<leftarrow>es. length (ev_reports e))"
proof (induction es)
  case (Cons e es)
  case 1
  show ?case using ev_card(1) [of "\<Union>e \<in> set es. ev_retrieves e" e] Cons by (simp add: Un_commute)
  case 2
  show ?case using ev_card(2) [of "\<Union>e \<in> set es. ev_archives e" e] Cons by (simp add: Un_commute)
qed simp_all

lemma events:
  assumes "rpr_good w ob" "rpr_counted (oo_payload ob) R A" "rpr_is_expand_started (oo_payload ob)"
    and "\<forall>e \<in> set es. ev_ok w (rpr_addr (rpr_pointerMap (oo_payload ob))) e"
    and "card R + (\<Sum>e\<leftarrow>es. length (ev_reports e)) < 2 ^ 64" "card A + (\<Sum>e\<leftarrow>es. length (ev_reports e)) < 2 ^ 64"
  shows "\<exists>w' ob'. foldM rpr_apply ob es w = (Inr ob', w')
    \<and> rpr_next w ob (R \<union> (\<Union>e \<in> set es. ev_retrieves e)) (A \<union> (\<Union>e \<in> set es. ev_archives e)) w' ob'"
  using assms
proof (induction es arbitrary: w ob R A)
  case Nil
  then show ?case by (simp add: rpr_next_def same_except_refl)
next
  case (Cons e es)
  obtain w1 ob1 where s: "rpr_apply ob e w = (Inr ob1, w1)" "rpr_next w ob (R \<union> ev_retrieves e) (A \<union> ev_archives e) w1 ob1"
    using event_step [OF Cons.prems(1-3), of e] Cons.prems(4-6) by auto
  have n: "rpr_good w1 ob1" "rpr_counted (oo_payload ob1) (R \<union> ev_retrieves e) (A \<union> ev_archives e)" "rpr_is_expand_started (oo_payload ob1)"
    using s(2) Cons.prems(3) by (simp_all add: rpr_next_def rpr_plan_def)
  have ok: "\<forall>e \<in> set es. ev_ok w1 (rpr_addr (rpr_pointerMap (oo_payload ob1))) e"
    using ev_ok_later [OF s(2) Cons.prems(1)] Cons.prems(4) by simp
  have "card (R \<union> ev_retrieves e) + (\<Sum>e\<leftarrow>es. length (ev_reports e)) < 2 ^ 64" "card (A \<union> ev_archives e) + (\<Sum>e\<leftarrow>es. length (ev_reports e)) < 2 ^ 64"
    using ev_card(1) [of R e] ev_card(2) [of A e] Cons.prems(5,6) by simp_all
  from Cons.IH [OF n ok this] obtain w' ob' where "foldM rpr_apply ob1 es w1 = (Inr ob', w')"
    "rpr_next w1 ob1 (R \<union> ev_retrieves e \<union> (\<Union>e \<in> set es. ev_retrieves e)) (A \<union> ev_archives e \<union> (\<Union>e \<in> set es. ev_archives e)) w' ob'"
    by (elim exE conjE)
  with s(1) rpr_next_trans [OF s(2)] show ?case by (intro exI [of _ w'] exI [of _ ob']) (simp add: Un_assoc)
qed

text \<open>With the counters below \<open>2 ^ 64\<close> the test for the end is the one on the numbers of files.\<close>

lemma rpr_all_done_iff:
  assumes "rpr_counted p R A" and "rpr_failedtocreatearchivereq p = 0" and "card R < 2 ^ 64" "card A < 2 ^ 64"
  shows "rpr_all_done p \<longleftrightarrow> unat (rpr_totalfilestoretrieve p) \<le> card R \<and> unat (rpr_totalfilestoarchive p) \<le> card A"
  using assms by (simp add: rpr_all_done_def word_le_nat_alt rpr_counted_def unat_word_ariths)

text \<open>
  C9. A repack request whose expansion has started and is finished, on which nothing is accounted yet and for which no
  creation of an archive request has failed, held under its lock with the status that its counters give, and with the
  list of its owner in the store; and a sequence of fewer than \<open>2 ^ 64\<close> reports of retrieves and archives, successful or failed.
  Each report is about one file of the request, which is not a file provided by the user (the code marks the retrieve of
  such a file as accounted without counting it), and an archive success is about a sub-request whose archive request is still in the store. Then, whatever the order,
  and however often a retrieve or an archive job is reported, every report is accepted and the request ends
  with one retrieve counted per file reported and one archive job per copy reported. Its status is
  final exactly when these reach the totals, \<open>Complete\<close> exactly when none of them is counted as failed, and a
  request with a final status is on the list of its owner no more.
\<close>
theorem rpr_reports_accounted:
  assumes "rpr_good w ob" and "rpr_counted (oo_payload ob) {} {}" and "rpr_failedtocreatearchivereq (oo_payload ob) = 0"
    and "rpr_is_expand_started (oo_payload ob)" "rpr_is_expand_finished (oo_payload ob)"
    and "\<forall>e \<in> set es. ev_ok w (rpr_addr (rpr_pointerMap (oo_payload ob))) e" and "(\<Sum>e\<leftarrow>es. length (ev_reports e)) < 2 ^ 64"
    and "R = card (\<Union>e \<in> set es. ev_retrieves e)" and "A = card (\<Union>e \<in> set es. ev_archives e)"
  shows "\<exists>w' ob'. foldM rpr_apply ob es w = (Inr ob', w') \<and> (let p = oo_payload ob' in
      unat (rpr_retrievedfiles p) + unat (rpr_failedtoretrievefiles p) = R
    \<and> unat (rpr_archivedfiles p) + unat (rpr_failedtoarchivefiles p) = A
    \<and> (rpr_status p \<in> {RRS_Complete, RRS_Failed} \<longleftrightarrow>
        unat (rpr_totalfilestoretrieve (oo_payload ob)) \<le> R \<and> unat (rpr_totalfilestoarchive (oo_payload ob)) \<le> A)
    \<and> (rpr_status p = RRS_Complete \<longrightarrow> unat (rpr_retrievedfiles p) = R \<and> unat (rpr_archivedfiles p) = A)
    \<and> (rpr_status p = RRS_Failed \<longrightarrow> unat (rpr_retrievedfiles p) < R \<or> unat (rpr_archivedfiles p) < A)
    \<and> (rpr_status p \<in> {RRS_Complete, RRS_Failed} \<longrightarrow> (\<exists>ag. stored ag_c w' (oo_owner ob) ag \<and> oo_name ob \<notin> set (ag_ownedobjects ag))))"
proof -
  let ?R = "\<Union>e \<in> set es. ev_retrieves e" and ?A = "\<Union>e \<in> set es. ev_archives e"
  obtain w' ob' where run: "foldM rpr_apply ob es w = (Inr ob', w')" and n: "rpr_next w ob ?R ?A w' ob'"
    using events [OF assms(1,2,4,6)] assms(7) by auto
  have c: "rpr_counted (oo_payload ob') ?R ?A" and good: "rpr_good w' ob'" and plan: "rpr_plan (oo_payload ob') = rpr_plan (oo_payload ob)"
    and names: "oo_name ob' = oo_name ob" "oo_owner ob' = oo_owner ob"
    using n by (simp_all add: rpr_next_def)
  have card: "card ?R < 2 ^ 64" "card ?A < 2 ^ 64"
    using ev_cards [of es] assms(7) by simp_all
  have fin: "rpr_all_done (oo_payload ob') \<longleftrightarrow>
      unat (rpr_totalfilestoretrieve (oo_payload ob)) \<le> R \<and> unat (rpr_totalfilestoarchive (oo_payload ob)) \<le> A"
    using rpr_all_done_iff [OF c _ card] plan assms(3,8,9) by (simp add: rpr_plan_def)
  have counts: "unat (rpr_retrievedfiles (oo_payload ob')) + unat (rpr_failedtoretrievefiles (oo_payload ob')) = R"
    "unat (rpr_archivedfiles (oo_payload ob')) + unat (rpr_failedtoarchivefiles (oo_payload ob')) = A"
    using c assms(8,9) by (simp_all add: rpr_counted_def)
  have st: "rpr_status (oo_payload ob') = rpr_status_of (oo_payload ob')" "rpr_is_expand_started (oo_payload ob')" "rpr_is_expand_finished (oo_payload ob')"
    using good plan assms(4,5) by (simp_all add: rpr_good_def rpr_plan_def)
  have owner: "rpr_all_done (oo_payload ob') \<Longrightarrow> \<exists>ag. stored ag_c w' (oo_owner ob) ag \<and> oo_name ob \<notin> set (ag_ownedobjects ag)"
    using good st names by (auto simp: rpr_good_def rpr_finished_def)
  show ?thesis using run counts st owner fin
    by (intro exI [of _ w'] exI [of _ ob'], cases "rpr_all_done (oo_payload ob')")
      (auto simp: Let_def rpr_status_of_def unat_gt_0 word_gt_0 split: if_splits)
qed


section \<open>A concrete repack request\<close>

definition smk_log :: entry_log where
  "smk_log = \<lparr>el_username = ''u'', el_host = ''h'', el_time = 1\<rparr>"

definition smk_pointer :: "u64 \<Rightarrow> string \<Rightarrow> repack_sub_request_pointer" where
  "smk_pointer fs a = \<lparr>rsrp_address = a, rsrp_fseq = fs, rsrp_retrieve_accounted = False, rsrp_archive_copynb_accounted = [], rsrp_subrequest_deleted = False\<rparr>"

text \<open>Two files to move: expanded, nothing reported yet.\<close>

definition smk_repack :: repack_request where
  "smk_repack = \<lparr>rpr_vid = ''V1'', rpr_buffer_url = ''buf'', rpr_status = RRS_Starting, rpr_add_copies_mode = True, rpr_move_mode = True,
     rpr_totalfilestoretrieve = 2, rpr_totalbytestoretrieve = 20, rpr_totalfilestoarchive = 2, rpr_totalbytestoarchive = 20,
     rpr_userprovidedfiles = 0, rpr_userprovidedbytes = 0, rpr_retrievedfiles = 0, rpr_retrievedbytes = 0, rpr_archivedfiles = 0,
     rpr_archivedbytes = 0, rpr_failedtoretrievefiles = 0, rpr_failedtoretrievebytes = 0, rpr_failedtocreatearchivereq = 0,
     rpr_failedtoarchivefiles = 0, rpr_failedtoarchivebytes = 0, rpr_lastexpandedfseq = 2, rpr_is_expand_finished = True,
     rpr_is_expand_started = True, rpr_mount_policy = mount_policy_default, rpr_mountpolicyname = '''', rpr_force_disabled_tape = False,
     rpr_is_complete = False, rpr_no_recall = False, rpr_subrequests = [smk_pointer 1 ''S1'', smk_pointer 2 ''S2''],
     rpr_destination_infos = [], rpr_creation_log = smk_log, rpr_repack_finished_time = 0\<rparr>"

definition smk_request :: "repack_request oo" where
  "smk_request = (held_image ''RR'' smk_repack)\<lparr>oo_owner := ''agent''\<rparr>"

definition smk_agent :: agent where
  "smk_agent = \<lparr>ag_description = '''', ag_heartbeat = 0, ag_timeout_us = 0, ag_ownedobjects = [''RR''], ag_being_garbage_collected = False, ag_gc_needed = None\<rparr>"

definition smk_header :: "payload \<Rightarrow> object_header" where
  "smk_header p = \<lparr>oh_version = 0, oh_owner = '''', oh_backupowner = '''', oh_payload = p\<rparr>"

definition smk_world :: world where
  "smk_world = \<lparr>objects = [''agent'' \<mapsto> smk_header (Payload_Agent smk_agent), ''S1'' \<mapsto> smk_header (Payload_ArchiveRequest ar_empty),
       ''S2'' \<mapsto> smk_header (Payload_ArchiveRequest ar_empty)],
     lockFiles = (\<lambda>n. n \<in> {''agent'', ''S1'', ''S2''}), agentAddress = ''agent'', nextIdCounter = 0\<rparr>"

definition smk_report :: "u64 \<Rightarrow> rpr_SubrequestStatistics" where
  "smk_report fs = \<lparr>srs_fSeq = fs, srs_files = 1, srs_bytes = 10, srs_copyNb = 1, srs_subrequestDeleted = False,
     srs_hasUserProvidedFile = False, srs_destinationVid = ''V2''\<rparr>"

text \<open>The retrieve of the first file is reported twice; the archive job of the second one fails.\<close>

definition smk_events :: "rpr_event list" where
  "smk_events = [RetrieveSuccesses 5 [smk_report 1, smk_report 2], RetrieveFailures 6 [smk_report 1],
     ArchiveSuccesses 7 [smk_report 1], ArchiveFailures 8 [smk_report 2, smk_report 1]]"

lemma smk_map: "rpr_pointerMap smk_repack = [(1, rsp_deserialize (smk_pointer 1 ''S1'')), (2, rsp_deserialize (smk_pointer 2 ''S2''))]"
  by (simp add: rpr_pointerMap_def smk_repack_def smk_pointer_def smap_fill_def)

lemma smk_ok:
  "rpr_good smk_world smk_request" "rpr_counted smk_repack {} {}" "\<forall>e \<in> set smk_events. ev_ok smk_world (rpr_addr (rpr_pointerMap smk_repack)) e"
proof -
  have "rpr_status smk_repack = rpr_status_of smk_repack" "\<not> rpr_finished smk_repack"
    by (simp_all add: smk_repack_def rpr_status_of_def rpr_all_done_def rpr_finished_def)
  moreover have "stored ag_c smk_world ''agent'' smk_agent" by (simp add: stored_def smk_world_def smk_header_def agent_codec_def)
  moreover have "held smk_request" by (simp add: smk_request_def held_def held_image_def)
  ultimately show "rpr_good smk_world smk_request" by (auto simp: rpr_good_def smk_request_def)
  show "rpr_counted smk_repack {} {}"
    unfolding rpr_counted_def smk_map
    by (auto simp: rpr_retrieves_def rpr_archives_def smap_get_def rsp_deserialize_def smk_pointer_def smk_repack_def split: if_splits)
  show "\<forall>e \<in> set smk_events. ev_ok smk_world (rpr_addr (rpr_pointerMap smk_repack)) e"
    unfolding smk_map by (simp add: smk_events_def smk_report_def ev_ok_def smap_get_def rsp_deserialize_def smk_pointer_def archive_readable_def
        smk_world_def smk_header_def)
qed

theorem rpr_reports_accounted_witness:
  "\<exists>w' ob'. foldM rpr_apply smk_request smk_events smk_world = (Inr ob', w')
    \<and> unat (rpr_retrievedfiles (oo_payload ob')) + unat (rpr_failedtoretrievefiles (oo_payload ob')) = 2
    \<and> unat (rpr_archivedfiles (oo_payload ob')) + unat (rpr_failedtoarchivefiles (oo_payload ob')) = 2
    \<and> rpr_status (oo_payload ob') \<in> {RRS_Complete, RRS_Failed}
    \<and> (\<exists>ag. stored ag_c w' ''agent'' ag \<and> ''RR'' \<notin> set (ag_ownedobjects ag))"
proof -
  have p: "oo_payload smk_request = smk_repack" "oo_owner smk_request = ''agent''" "oo_name smk_request = ''RR''"
    by (simp_all add: smk_request_def)
  have c: "card (\<Union>e \<in> set smk_events. ev_retrieves e) = 2" "card (\<Union>e \<in> set smk_events. ev_archives e) = 2"
    by (simp_all add: smk_events_def smk_report_def insert_commute)
  have "(\<Sum>e\<leftarrow>smk_events. length (ev_reports e)) < 2 ^ 64" by (simp add: smk_events_def)
  from rpr_reports_accounted [OF smk_ok(1) _ _ _ _ _ this refl refl] smk_ok(2,3)
  show ?thesis unfolding p c by (auto simp: smk_repack_def Let_def)
qed


section \<open>The addresses of the sub-requests\<close>

definition sub_info :: "rpr_pointer \<Rightarrow> rpr_SubrequestInfo" where
  "sub_info q = \<lparr>sri_address = rsp_address q, sri_fSeq = rsp_fSeq q, sri_subrequestDeleted = rsp_subrequestDeleted q\<rparr>"

text \<open>No two files share an address, and none has one of the next \<open>k\<close> names that the agent hands out.\<close>

definition sub_addresses :: "world \<Rightarrow> nat \<Rightarrow> (u64, rpr_pointer) std_map \<Rightarrow> bool" where
  "sub_addresses w k m \<longleftrightarrow> (\<forall>f f' a. rpr_addr m f = Some a \<longrightarrow> rpr_addr m f' = Some a \<longrightarrow> f = f')
     \<and> (\<forall>f i. i < k \<longrightarrow> rpr_addr m f \<noteq> Some (childId ''RepackSubRequest'' (agentAddress w) (nextIdCounter w + of_nat i)))"

text \<open>The map \<open>m'\<close> extends \<open>m\<close> to the files \<open>fs\<close>.\<close>

definition sub_extends :: "(u64, rpr_pointer) std_map \<Rightarrow> u64 list \<Rightarrow> (u64, rpr_pointer) std_map \<Rightarrow> bool" where
  "sub_extends m fs m' \<longleftrightarrow> (\<forall>f q. smap_get f m = Some q \<longrightarrow> smap_get f m' = Some q)
     \<and> (\<forall>f. smap_get f m' = None \<longleftrightarrow> smap_get f m = None \<and> f \<notin> set fs)
     \<and> (\<forall>f q. smap_get f m = None \<longrightarrow> smap_get f m' = Some q \<longrightarrow> \<not> rsp_retrieveAccounted q \<and> rsp_archiveCopyNbsAccounted q = [] \<and> \<not> rsp_subrequestDeleted q)"

lemma sub_addresses_put:
  fixes w :: world
  assumes "sub_addresses w (Suc k) m" and "Suc k \<le> 2 ^ 64" and "smap_ok m" and "smap_get f m = None"
    and "rsp_address q = childId ''RepackSubRequest'' (agentAddress w) (nextIdCounter w)"
  shows "sub_addresses (w\<lparr>nextIdCounter := nextIdCounter w + 1\<rparr>) k (smap_put f q m)"
proof -
  have new: "childId ''RepackSubRequest'' (agentAddress w) (nextIdCounter w) \<noteq> childId ''RepackSubRequest'' (agentAddress w) (nextIdCounter w + 1 + of_nat i)" if "i < k" for i
  proof
    assume eq: "childId ''RepackSubRequest'' (agentAddress w) (nextIdCounter w) = childId ''RepackSubRequest'' (agentAddress w) (nextIdCounter w + 1 + of_nat i)"
    have "nextIdCounter w = nextIdCounter w + (1 + of_nat i)" using childId_inj [OF eq] by (simp only: add.assoc)
    then show False using of_nat_Suc_word_neq_0 [of i] that assms(2) by simp
  qed
  have old: "rpr_addr m g \<noteq> Some (childId ''RepackSubRequest'' (agentAddress w) (nextIdCounter w + 1 + of_nat i))" if "i < k" for g i
    using assms(1) [unfolded sub_addresses_def, THEN conjunct2, rule_format, of "Suc i" g] that by (simp add: add.assoc)
  have used: "rpr_addr m g \<noteq> Some (rsp_address q)" for g
    using assms(1) [unfolded sub_addresses_def, THEN conjunct2, rule_format, of 0 g] by (simp add: assms(5))
  have put: "rpr_addr (smap_put f q m) g = (if g = f then Some (rsp_address q) else rpr_addr m g)" for g
    using assms(3) by (simp add: smap_get_put)
  have inj: "f1 = f2" if "rpr_addr m f1 = Some a" "rpr_addr m f2 = Some a" for f1 f2 a
    using assms(1) [unfolded sub_addresses_def, THEN conjunct1, rule_format, OF that] .
  have "f1 = f2" if "rpr_addr (smap_put f q m) f1 = Some a" "rpr_addr (smap_put f q m) f2 = Some a" for f1 f2 a
    using that used [of f1] used [of f2] inj [of f1 a f2] unfolding put by (auto simp del: map_option_eq_Some split: if_splits)
  moreover have "rpr_addr (smap_put f q m) g \<noteq> Some (childId ''RepackSubRequest'' (agentAddress w) (nextIdCounter w + 1 + of_nat i))" if "i < k" for g i
    using new [OF that] old [OF that] unfolding put assms(5) by simp
  ultimately show ?thesis unfolding sub_addresses_def by simp
qed

lemma sub_extends_put:
  assumes "sub_extends (smap_put f q m) fs m'" and "smap_ok m" "smap_get f m = None"
    and "\<not> rsp_retrieveAccounted q" "rsp_archiveCopyNbsAccounted q = []" "\<not> rsp_subrequestDeleted q"
  shows "smap_get f m' = Some q" and "sub_extends m (f # fs) m'"
proof -
  have e: "smap_get g (smap_put f q m) = Some r \<Longrightarrow> smap_get g m' = Some r" for g r using assms(1) by (simp add: sub_extends_def)
  show f: "smap_get f m' = Some q" by (rule e) (simp add: smap_get_put assms(2))
  have "smap_get g m = Some r \<Longrightarrow> smap_get g m' = Some r" for g r using e [of g r] assms(2,3) by (cases "g = f") (simp_all add: smap_get_put)
  moreover have "smap_get g m' = None \<longleftrightarrow> smap_get g m = None \<and> g \<notin> set (f # fs)" for g
    using assms(1-3) f by (cases "g = f") (simp_all add: sub_extends_def smap_get_put)
  moreover have "\<not> rsp_retrieveAccounted r \<and> rsp_archiveCopyNbsAccounted r = [] \<and> \<not> rsp_subrequestDeleted r"
    if "smap_get g m = None" "smap_get g m' = Some r" for g r
  proof (cases "g = f")
    case False
    then have "smap_get g (smap_put f q m) = None" using that(1) assms(2) by (simp add: smap_get_put)
    with assms(1) that(2) show ?thesis unfolding sub_extends_def by blast
  qed (use that(2) f assms(4-6) in simp)
  ultimately show "sub_extends m (f # fs) m'" by (simp add: sub_extends_def)
qed

lemma prepare_subrequests:
  assumes "rpr_map_ok m" and "sub_addresses w (length fs) m" and "length fs \<le> 2 ^ 64"
  shows "\<exists>m' n. foldM rpr_prepare_subrequest (m, infos, b) fs w
      = (Inr (m', infos @ map (\<lambda>f. sub_info (the (smap_get f m'))) fs, b \<or> (\<exists>f \<in> set fs. smap_get f m = None)), w\<lparr>nextIdCounter := n\<rparr>)
    \<and> rpr_map_ok m' \<and> sub_extends m fs m' \<and> sub_addresses w 0 m' \<and> ((\<forall>f \<in> set fs. smap_get f m \<noteq> None) \<longrightarrow> m' = m \<and> n = nextIdCounter w)"
  using assms
proof (induction fs arbitrary: m w infos b)
  case Nil
  then show ?case by (auto simp: sub_extends_def intro!: exI [of _ m] exI [of _ "nextIdCounter w"])
next
  case (Cons f fs)
  show ?case
  proof (cases "smap_get f m")
    case (Some q)
    have "sub_addresses w (length fs) m" using Cons.prems(2) by (simp add: sub_addresses_def)
    from Cons.IH [OF Cons.prems(1) this, of "infos @ [sub_info q]" b] Cons.prems(3)
    obtain m' n where IH: "foldM rpr_prepare_subrequest (m, infos @ [sub_info q], b) fs w
        = (Inr (m', infos @ [sub_info q] @ map (\<lambda>f. sub_info (the (smap_get f m'))) fs, b \<or> (\<exists>f \<in> set fs. smap_get f m = None)), w\<lparr>nextIdCounter := n\<rparr>)"
      "rpr_map_ok m'" "sub_extends m fs m'" "sub_addresses w 0 m'" "(\<forall>f \<in> set fs. smap_get f m \<noteq> None) \<longrightarrow> m' = m \<and> n = nextIdCounter w" by auto
    have "smap_get f m' = Some q" "sub_extends m (f # fs) m'" using IH(3) Some by (auto simp: sub_extends_def)
    with IH Some show ?thesis by (intro exI [of _ m'] exI [of _ n]) (simp add: rpr_prepare_subrequest_def sub_info_def)
  next
    case None
    let ?a = "childId ''RepackSubRequest'' (agentAddress w) (nextIdCounter w)" and ?w = "w\<lparr>nextIdCounter := nextIdCounter w + 1\<rparr>"
    let ?q = "\<lparr>rsp_address = ?a, rsp_fSeq = f, rsp_retrieveAccounted = False, rsp_archiveCopyNbsAccounted = [], rsp_subrequestDeleted = False\<rparr>"
    let ?m = "smap_put f ?q m"
    have ok: "smap_ok m" using Cons.prems(1) by (simp add: rpr_map_ok_def)
    have m: "rpr_map_ok ?m" by (rule rpr_map_put_ok [OF Cons.prems(1)]) simp_all
    have "sub_addresses ?w (length fs) ?m" using sub_addresses_put [OF _ _ ok None, of w "length fs" ?q] Cons.prems(2,3) by simp
    from Cons.IH [OF m this, of "infos @ [sub_info ?q]" True] Cons.prems(3)
    obtain m' n where IH: "foldM rpr_prepare_subrequest (?m, infos @ [sub_info ?q], True) fs ?w
        = (Inr (m', infos @ [sub_info ?q] @ map (\<lambda>f. sub_info (the (smap_get f m'))) fs, True), w\<lparr>nextIdCounter := n\<rparr>)"
      "rpr_map_ok m'" "sub_extends ?m fs m'" "sub_addresses w 0 m'" by (auto simp: sub_addresses_def)
    have "smap_get f m' = Some ?q" "sub_extends m (f # fs) m'" using sub_extends_put [OF IH(3) ok None] by simp_all
    with IH None show ?thesis by (intro exI [of _ m'] exI [of _ n]) (simp add: rpr_prepare_subrequest_def sub_info_def nextId_def)
  qed
qed

lemma prepared_again:
  assumes "\<forall>f \<in> set fs. smap_get f m \<noteq> None"
  shows "foldM rpr_prepare_subrequest (m, infos, b) fs w = (Inr (m, infos @ map (\<lambda>f. sub_info (the (smap_get f m))) fs, b), w)"
  using assms by (induction fs arbitrary: infos) (auto simp: rpr_prepare_subrequest_def sub_info_def)

text \<open>
  C36. \<open>getOrPrepareSubrequestInfo\<close> on a request whose files have different addresses: it gives one entry per
  file asked for, in order, which is the pointer that the request then has for the file. The files it
  knew keep their pointers, the new ones have nothing accounted, and all addresses are still
  different. No object is touched; asking again gives the same answer and changes nothing.
\<close>
theorem rpr_subrequests_prepared:
  assumes "held ob" and "m = rpr_pointerMap (oo_payload ob)" and "sub_addresses w (length fs) m" and "length fs \<le> 2 ^ 64"
  shows "\<exists>ob' m' n. let w' = w\<lparr>nextIdCounter := n\<rparr>; infos = map (\<lambda>f. sub_info (the (smap_get f m'))) fs in
      rpr_getOrPrepareSubrequestInfo fs ob w = (Inr (infos, ob'), w') \<and> m' = rpr_pointerMap (oo_payload ob')
    \<and> map sri_fSeq infos = fs \<and> sub_extends m fs m' \<and> sub_addresses w' 0 m'
    \<and> oo_payload ob' = (oo_payload ob)\<lparr>rpr_subrequests := rpr_subrequests (oo_payload ob')\<rparr>
    \<and> rpr_getOrPrepareSubrequestInfo fs ob' w' = (Inr (infos, ob'), w')"
proof -
  have ok: "rpr_map_ok m" using rpr_pointerMap_ok assms(2) by simp
  obtain m' n where r: "foldM rpr_prepare_subrequest (m, [], False) fs w
      = (Inr (m', map (\<lambda>f. sub_info (the (smap_get f m'))) fs, \<exists>f \<in> set fs. smap_get f m = None), w\<lparr>nextIdCounter := n\<rparr>)"
    "rpr_map_ok m'" "sub_extends m fs m'" "sub_addresses w 0 m'" "(\<forall>f \<in> set fs. smap_get f m \<noteq> None) \<longrightarrow> m' = m \<and> n = nextIdCounter w"
    using prepare_subrequests [OF ok assms(3,4), of "[]" False] by auto
  define ob' where "ob' = (if \<exists>f \<in> set fs. smap_get f m = None then rpr_store_pointers m' ob else ob)"
  let ?w' = "w\<lparr>nextIdCounter := n\<rparr>"
  have m': "rpr_pointerMap (oo_payload ob') = m'" using r(5) assms(2) by (auto simp: ob'_def rpr_store_pointers_map [OF r(2)])
  have held: "held ob'" using assms(1) by (simp add: ob'_def rpr_store_pointers_def)
  have in_map: "\<forall>f \<in> set fs. smap_get f m' \<noteq> None" using r(3) by (auto simp: sub_extends_def)
  have seqs: "map (\<lambda>f. sri_fSeq (sub_info (the (smap_get f m')))) fs = fs"
    by (rule map_idI) (use in_map rpr_map_entry [OF r(2)] in \<open>auto simp: sub_info_def\<close>)
  have run: "rpr_getOrPrepareSubrequestInfo fs ob w = (Inr (map (\<lambda>f. sub_info (the (smap_get f m'))) fs, ob'), ?w')"
    using r(1) assms(1,2) by (simp add: rpr_getOrPrepareSubrequestInfo_def ob'_def)
  have "rpr_getOrPrepareSubrequestInfo fs ob' ?w' = (Inr (map (\<lambda>f. sub_info (the (smap_get f m'))) fs, ob'), ?w')"
    using held m' prepared_again [OF in_map, of "[]" False ?w'] by (simp add: rpr_getOrPrepareSubrequestInfo_def)
  with run m' seqs r(3,4) show ?thesis
    by (intro exI [of _ ob'] exI [of _ m'] exI [of _ n]) (auto simp: Let_def comp_def sub_addresses_def ob'_def rpr_store_pointers_def)
qed


lemma smk_addresses: "sub_addresses smk_world (Suc (Suc 0)) (rpr_pointerMap smk_repack)"
  unfolding smk_map by (simp add: sub_addresses_def smap_get_def rsp_deserialize_def smk_pointer_def childId_def)

theorem rpr_subrequests_prepared_witness:
  "\<exists>infos ob' w'. rpr_getOrPrepareSubrequestInfo [2, 3] smk_request smk_world = (Inr (infos, ob'), w') \<and> map sri_fSeq infos = [2, 3]
    \<and> sri_address (hd infos) = ''S2'' \<and> sub_addresses w' 0 (rpr_pointerMap (oo_payload ob'))
    \<and> rpr_getOrPrepareSubrequestInfo [2, 3] ob' w' = (Inr (infos, ob'), w')"
proof -
  have p: "oo_payload smk_request = smk_repack" by (simp add: smk_request_def)
  have get: "smap_get 2 (rpr_pointerMap smk_repack) = Some (rsp_deserialize (smk_pointer 2 ''S2''))" unfolding smk_map by (simp add: smap_get_def)
  have held: "held smk_request" using smk_ok(1) by (simp add: rpr_good_def)
  have "sub_addresses smk_world (length [2, 3 :: u64]) (rpr_pointerMap (oo_payload smk_request))" "length [2, 3 :: u64] \<le> 2 ^ 64"
    using smk_addresses by (simp_all add: p)
  from rpr_subrequests_prepared [OF held refl this] obtain ob' m' n
    where r: "rpr_getOrPrepareSubrequestInfo [2, 3] smk_request smk_world
        = (Inr (map (\<lambda>f. sub_info (the (smap_get f m'))) [2, 3], ob'), smk_world\<lparr>nextIdCounter := n\<rparr>)" "m' = rpr_pointerMap (oo_payload ob')"
      "map sri_fSeq (map (\<lambda>f. sub_info (the (smap_get f m'))) [2, 3]) = [2, 3]" "sub_extends (rpr_pointerMap smk_repack) [2, 3] m'"
      "sub_addresses (smk_world\<lparr>nextIdCounter := n\<rparr>) 0 m'"
      "rpr_getOrPrepareSubrequestInfo [2, 3] ob' (smk_world\<lparr>nextIdCounter := n\<rparr>)
        = (Inr (map (\<lambda>f. sub_info (the (smap_get f m'))) [2, 3], ob'), smk_world\<lparr>nextIdCounter := n\<rparr>)"
    unfolding p Let_def by (elim exE conjE) (rule that)
  have "sri_address (hd (map (\<lambda>f. sub_info (the (smap_get f m'))) [2, 3])) = ''S2''"
    using r(4) get by (simp add: sub_extends_def sub_info_def rsp_deserialize_def smk_pointer_def)
  with r show ?thesis
    by (intro exI [of _ "map (\<lambda>f. sub_info (the (smap_get f m'))) [2, 3]"] exI [of _ ob'] exI [of _ "smk_world\<lparr>nextIdCounter := n\<rparr>"] conjI) simp_all
qed

end
