(* ===== verification/RetrieveQueueSelection.thy ===== *)
theory RetrieveQueueSelection
  imports Helpers StdMap "HOL-Library.List_Lexorder" "HOL-Library.Char_ord"
begin

text \<open>
  \<open>Helpers::selectBestRetrieveQueue\<close> and the cache of the statistics of retrieve queues it keeps, a static map of
  the process, which is part of the state here beside the world. The catalogue is asked through
  \<open>getTapesByVid\<close>, a parameter; so are the random index and what other threads do to the cache while its mutex
  is released. A set of tapes is the list of its elements in their order.
\<close>

section \<open>The cache\<close>

datatype tape_State = TAPE_ACTIVE | TAPE_BROKEN | TAPE_DISABLED

text \<open>Of a tape, the fields the cache fills and reads.\<close>

record tape =
  tape_full :: bool
  tape_state :: tape_State

definition tape_isDisabled :: "tape \<Rightarrow> bool" where
  "tape_isDisabled t \<longleftrightarrow> tape_state t = TAPE_DISABLED"

record retrieve_queue_statistics_with_time =
  rqwt_stats :: retrieve_queue_statistics
  rqwt_tapeStatus :: tape
  rqwt_updating :: bool
  rqwt_updateTime :: time_t

type_synonym stats_cache = "(string, retrieve_queue_statistics_with_time) std_map"

text \<open>The entry \<open>operator[]\<close> creates.\<close>

definition rqwt_default :: retrieve_queue_statistics_with_time where
  "rqwt_default = \<lparr>rqwt_stats = \<lparr>rqst_vid = '''', rqst_bytesQueued = 0, rqst_filesQueued = 0, rqst_currentPriority = 0\<rparr>,
     rqwt_tapeStatus = \<lparr>tape_full = False, tape_state = TAPE_ACTIVE\<rparr>, rqwt_updating = False, rqwt_updateTime = 0\<rparr>"

definition cache_entry :: "string \<Rightarrow> stats_cache \<Rightarrow> retrieve_queue_statistics_with_time" where
  "cache_entry v c = (case smap_get v c of Some e \<Rightarrow> e | None \<Rightarrow> rqwt_default)"

definition cache_update ::
  "string \<Rightarrow> (retrieve_queue_statistics_with_time \<Rightarrow> retrieve_queue_statistics_with_time) \<Rightarrow> stats_cache \<Rightarrow> stats_cache" where
  "cache_update v f c = smap_put v (f (cache_entry v c)) c"

text \<open>\<open>updateRetrieveQueueStatisticsCache\<close> and \<open>flushRetrieveQueueStatisticsCache\<close>\<close>

definition rqst_set :: "u64 \<Rightarrow> u64 \<Rightarrow> u64 \<Rightarrow> retrieve_queue_statistics \<Rightarrow> retrieve_queue_statistics" where
  "rqst_set files bytes priority s = s\<lparr>rqst_filesQueued := files, rqst_bytesQueued := bytes, rqst_currentPriority := priority\<rparr>"

definition updateRetrieveQueueStatisticsCache :: "time_t \<Rightarrow> string \<Rightarrow> u64 \<Rightarrow> u64 \<Rightarrow> u64 \<Rightarrow> stats_cache \<Rightarrow> stats_cache" where
  "updateRetrieveQueueStatisticsCache now vid files bytes priority c = (case smap_get vid c of
     Some e \<Rightarrow> smap_put vid (e\<lparr>rqwt_stats := rqst_set files bytes priority (rqwt_stats e)\<rparr>) c
   | None \<Rightarrow> smap_put vid (rqwt_default\<lparr>rqwt_stats := (rqst_set files bytes priority (rqwt_stats rqwt_default))\<lparr>rqst_vid := vid\<rparr>,
       rqwt_tapeStatus := \<lparr>tape_full = False, tape_state = TAPE_ACTIVE\<rparr>, rqwt_updating := False, rqwt_updateTime := now\<rparr>) c)"

definition flushRetrieveQueueStatisticsCache :: "stats_cache \<Rightarrow> stats_cache" where
  "flushRetrieveQueueStatisticsCache c = []"

section \<open>Programs with the cache\<close>

type_synonym gworld = "world \<times> stats_cache"

definition on_world :: "(world, 'a) prog \<Rightarrow> (gworld, 'a) prog" where
  "on_world m = (\<lambda>(w, c). case m w of (r, w') \<Rightarrow> (r, (w', c)))"

definition on_cache :: "(stats_cache \<Rightarrow> stats_cache) \<Rightarrow> (gworld, unit) prog" where
  "on_cache f = (\<lambda>(w, c). (Inr (), (w, f c)))"

record selection_env =
  se_now :: time_t
  se_getTapesByVid :: "string \<Rightarrow> exn + (string, tape) std_map"
  se_draw :: "nat \<Rightarrow> nat"
  se_others :: "stats_cache \<Rightarrow> stats_cache"

section \<open>Selection\<close>

definition c_retrieveQueueCacheMaxAge :: time_t where
  "c_retrieveQueueCacheMaxAge = 10"

definition rqwt_available :: "bool \<Rightarrow> retrieve_queue_statistics_with_time \<Rightarrow> bool" where
  "rqwt_available forceDisabledTape e \<longleftrightarrow>
     tape_state (rqwt_tapeStatus e) = TAPE_ACTIVE \<or> tape_isDisabled (rqwt_tapeStatus e) \<and> forceDisabledTape"

definition add_candidate ::
  "bool \<Rightarrow> retrieve_queue_statistics list \<Rightarrow> retrieve_queue_statistics_with_time \<Rightarrow> retrieve_queue_statistics list" where
  "add_candidate forceDisabledTape candidateVidsStats e =
     (if rqwt_available forceDisabledTape e then candidateVidsStats @ [rqwt_stats e] else candidateVidsStats)"

text \<open>The handler of \<open>std::out_of_range\<close>: the entry is missing or stale. An exception in it leaves the entry as it is then.\<close>

definition refresh_entry ::
  "selection_env \<Rightarrow> bool \<Rightarrow> retrieve_queue_statistics list \<Rightarrow> string \<Rightarrow> (gworld, retrieve_queue_statistics list) prog" where
  "refresh_entry env forceDisabledTape candidateVidsStats v =
     bnd (on_cache (cache_update v (\<lambda>e. e\<lparr>rqwt_updating := True\<rparr>))) (\<lambda>_.
     bnd (liftr (se_getTapesByVid env v)) (\<lambda>tapeStatus.
     bnd (on_world (getRetrieveQueueStatistics [v] {v})) (\<lambda>queuesStats.
     bnd (on_cache (se_others env)) (\<lambda>_.
     bnd (on_cache (cache_update v (\<lambda>e. e\<lparr>rqwt_updating := False\<rparr>))) (\<lambda>_.
     if length queuesStats \<noteq> 1 then throw (CtaException ''unexpected size for queueStats'')
     else if rqst_vid (hd queuesStats) \<noteq> v then throw (CtaException ''unexpected vid in queueStats'')
     else if length tapeStatus \<noteq> 1 then throw (CtaException ''unexpected size for tapeStatus'')
     else if fst (hd tapeStatus) \<noteq> v then throw (CtaException ''unexpected vid in tapeStatus'')
     else bnd (on_cache (cache_update v (\<lambda>e. e\<lparr>rqwt_stats := hd queuesStats, rqwt_tapeStatus := snd (hd tapeStatus),
                                              rqwt_updateTime := se_now env\<rparr>))) (\<lambda>_.
          asks (\<lambda>(w, c). add_candidate forceDisabledTape candidateVidsStats (cache_entry v c))))))))"

definition consider_vid ::
  "selection_env \<Rightarrow> bool \<Rightarrow> retrieve_queue_statistics list \<Rightarrow> string \<Rightarrow> (gworld, retrieve_queue_statistics list) prog" where
  "consider_vid env forceDisabledTape candidateVidsStats v =
     bnd (asks (\<lambda>(w, c). smap_get v c)) (\<lambda>found. case found of
       None \<Rightarrow> refresh_entry env forceDisabledTape candidateVidsStats v
     | Some e \<Rightarrow>
         if rqwt_updating e
         then bnd (on_cache (se_others env)) (\<lambda>_.
              bnd (asks (\<lambda>(w, c). smap_get v c)) (\<lambda>found. case found of
                None \<Rightarrow> refresh_entry env forceDisabledTape candidateVidsStats v
              | Some e \<Rightarrow> ret (add_candidate forceDisabledTape candidateVidsStats e)))
         else if c_retrieveQueueCacheMaxAge <s se_now env - rqwt_updateTime e
         then refresh_entry env forceDisabledTape candidateVidsStats v
         else ret (add_candidate forceDisabledTape candidateVidsStats e))"

text \<open>\<open>std::list::sort\<close>, which is stable.\<close>

fun stats_insert :: "retrieve_queue_statistics \<Rightarrow> retrieve_queue_statistics list \<Rightarrow> retrieve_queue_statistics list" where
  "stats_insert s [] = [s]"
| "stats_insert s (t # ts) = (if rqst_greater t s then t # stats_insert s ts else s # t # ts)"

definition stats_sort :: "retrieve_queue_statistics list \<Rightarrow> retrieve_queue_statistics list" where
  "stats_sort ss = foldr stats_insert ss []"

definition shortlist :: "retrieve_queue_statistics list \<Rightarrow> string list" where
  "shortlist ss = remdups (map rqst_vid (filter (\<lambda>s. \<not> rqst_greater (hd ss) s \<and> \<not> rqst_greater s (hd ss)) ss))"

definition selectBestRetrieveQueue :: "selection_env \<Rightarrow> string list \<Rightarrow> bool \<Rightarrow> (gworld, string) prog" where
  "selectBestRetrieveQueue env candidateVids forceDisabledTape =
     bnd (foldM (consider_vid env forceDisabledTape) [] candidateVids) (\<lambda>candidateVidsStats.
     if candidateVidsStats = [] then throw NoTapeAvailableForRetrieve
     else let shortlistVids = shortlist (stats_sort candidateVidsStats)
          in if length shortlistVids = 1 then ret (hd shortlistVids)
             else ret (candidateVids ! se_draw env (length candidateVids)))"

end
