(* ===== verification/SelectionProperties.thy ===== *)
theory SelectionProperties
  imports RetrieveQueueSelection
begin

text \<open>
  Properties of the selection of a tape to retrieve from: the tape selected is one of the candidates as long as the
  cache is keyed by the tapes its entries are about; an error of the catalogue breaks that for good; and among
  several best tapes an unavailable one can be selected.
\<close>

section \<open>The cache\<close>

text \<open>Every entry, but those of \<open>X\<close>, is about the tape it is filed under.\<close>

definition keyed :: "string set \<Rightarrow> stats_cache \<Rightarrow> bool" where
  "keyed X c \<longleftrightarrow> smap_ok c \<and> (\<forall>v e. smap_get v c = Some e \<longrightarrow> v \<notin> X \<longrightarrow> rqst_vid (rqwt_stats e) = v)"

lemma keyed_put: "keyed X c \<Longrightarrow> keyed (insert v X) (smap_put v e c)"
  by (auto simp: keyed_def smap_put_ok smap_get_put)

lemma keyed_put_good: "keyed (insert v X) c \<Longrightarrow> rqst_vid (rqwt_stats e) = v \<Longrightarrow> keyed X (smap_put v e c)"
  by (auto simp: keyed_def smap_put_ok smap_get_put)

lemma cache_entry_put [simp]: "smap_ok c \<Longrightarrow> cache_entry v (smap_put v e c) = e"
  by (simp add: cache_entry_def smap_get_put)

lemma on_cache_apply [simp, prog_simps]: "on_cache f (w, c) = (Inr (), (w, f c))"
  by (simp add: on_cache_def)

lemma on_world_Inr [simp]: "on_world m (w, c) = (Inr x, s') \<longleftrightarrow> (\<exists>w'. m w = (Inr x, w') \<and> s' = (w', c))"
  by (auto simp: on_world_def split: prod.splits)

section \<open>The candidates\<close>

text \<open>What the statistics of the candidates considered so far look like.\<close>

definition candidates_of :: "string set \<Rightarrow> retrieve_queue_statistics list \<Rightarrow> bool" where
  "candidates_of V ss \<longleftrightarrow> rqst_vid ` set ss \<subseteq> V"

lemma add_candidate_of:
  "candidates_of V ss \<Longrightarrow> rqst_vid (rqwt_stats e) = v \<Longrightarrow> candidates_of (insert v V) (add_candidate force ss e)"
  by (auto simp: candidates_of_def add_candidate_def)

lemma refresh_entry_Inr:
  assumes k: "keyed {} c" and others: "\<And>X c. keyed X c \<Longrightarrow> keyed X (se_others env c)"
    and r: "refresh_entry env force ss v (w, c) = (Inr ss', (w', c'))"
  shows "keyed {} c' \<and> rqst_vid (rqwt_stats (cache_entry v c')) = v \<and> ss' = add_candidate force ss (cache_entry v c')"
proof -
  define c1 where "c1 = cache_update v (\<lambda>e. e\<lparr>rqwt_updating := True\<rparr>) c"
  define c2 where "c2 = cache_update v (\<lambda>e. e\<lparr>rqwt_updating := False\<rparr>) (se_others env c1)"
  have k1: "keyed {v} c1"
    using keyed_put [OF k] by (simp add: c1_def cache_update_def)
  have k2: "keyed {v} c2"
    using keyed_put [OF others [OF k1], of v] by (simp add: c2_def cache_update_def)
  then have ok2: "smap_ok c2" by (simp add: keyed_def)
  from r have "\<exists>e. rqst_vid (rqwt_stats e) = v \<and> c' = smap_put v e c2 \<and> ss' = add_candidate force ss (cache_entry v c')"
    by (auto simp: refresh_entry_def bnd_Inr_iff c1_def [symmetric] c2_def [symmetric] cache_update_def [where c = c2]
        intro: exI [of _ "(cache_entry v c2)\<lparr>rqwt_stats := s, rqwt_tapeStatus := t, rqwt_updateTime := se_now env\<rparr>" for s t]
        split: if_splits)
  then show ?thesis
    using keyed_put_good [of v "{}" c2] k2 ok2 by auto
qed

lemma consider_vid_apply:
  "consider_vid env force ss v (w, c) = (case smap_get v c of
     None \<Rightarrow> refresh_entry env force ss v (w, c)
   | Some e \<Rightarrow>
       if rqwt_updating e
       then (case smap_get v (se_others env c) of
               None \<Rightarrow> refresh_entry env force ss v (w, se_others env c)
             | Some e \<Rightarrow> (Inr (add_candidate force ss e), (w, se_others env c)))
       else if c_retrieveQueueCacheMaxAge <s se_now env - rqwt_updateTime e then refresh_entry env force ss v (w, c)
       else (Inr (add_candidate force ss e), (w, c)))"
  by (simp add: consider_vid_def bnd_def split: option.split)

lemma consider_vid_Inr:
  assumes k: "keyed {} c" and others: "\<And>X c. keyed X c \<Longrightarrow> keyed X (se_others env c)"
    and r: "consider_vid env force ss v (w, c) = (Inr ss', (w', c'))"
  shows "keyed {} c' \<and> rqst_vid (rqwt_stats (cache_entry v c')) = v \<and> ss' = add_candidate force ss (cache_entry v c')"
proof -
  have hit: "keyed {} c' \<and> rqst_vid (rqwt_stats (cache_entry v c')) = v \<and> ss' = add_candidate force ss (cache_entry v c')"
    if "keyed {} c1" "smap_get v c1 = Some e" "c' = c1" "ss' = add_candidate force ss e" for c1 e
    using that by (auto simp: keyed_def cache_entry_def)
  have refresh: "keyed {} c' \<and> rqst_vid (rqwt_stats (cache_entry v c')) = v \<and> ss' = add_candidate force ss (cache_entry v c')"
    if "keyed {} c1" "refresh_entry env force ss v (w1, c1) = (Inr ss', (w', c'))" for w1 c1
    by (rule refresh_entry_Inr [OF that(1) others that(2)])
  from r consider
      (missing) "refresh_entry env force ss v (w, c) = (Inr ss', (w', c'))"
    | (gone) "refresh_entry env force ss v (w, se_others env c) = (Inr ss', (w', c'))"
    | (waited) e where "smap_get v (se_others env c) = Some e" "c' = se_others env c" "ss' = add_candidate force ss e"
    | (cached) e where "smap_get v c = Some e" "c' = c" "ss' = add_candidate force ss e"
    unfolding consider_vid_apply by (auto split: option.splits if_splits)
  then show ?thesis
  proof cases
    case missing then show ?thesis by (rule refresh [OF k])
  next
    case gone then show ?thesis by (rule refresh [OF others [OF k]])
  next
    case waited then show ?thesis by (rule hit [OF others [OF k]])
  next
    case cached then show ?thesis by (rule hit [OF k])
  qed
qed

lemma consider_all_Inr:
  assumes others: "\<And>X c. keyed X c \<Longrightarrow> keyed X (se_others env c)"
  shows "keyed {} c \<Longrightarrow> candidates_of V ss \<Longrightarrow> foldM (consider_vid env force) ss vs (w, c) = (Inr ss', (w', c'))
    \<Longrightarrow> keyed {} c' \<and> candidates_of (V \<union> set vs) ss'"
proof (induction vs arbitrary: ss V w c)
  case (Cons v vs)
  from Cons.prems(3) obtain ss1 w1 c1 where v: "consider_vid env force ss v (w, c) = (Inr ss1, (w1, c1))"
      and vs: "foldM (consider_vid env force) ss1 vs (w1, c1) = (Inr ss', (w', c'))"
    by (auto simp: bnd_Inr_iff)
  from consider_vid_Inr [OF Cons.prems(1) others v] add_candidate_of [OF Cons.prems(2)]
  have "keyed {} c1" "candidates_of (insert v V) ss1" by auto
  from Cons.IH [OF this vs] show ?case by simp
qed simp

section \<open>The shortlist\<close>

lemma set_stats_insert: "set (stats_insert s ts) = insert s (set ts)"
  by (induction ts) auto

lemma set_stats_sort [simp]: "set (stats_sort ss) = set ss"
  unfolding stats_sort_def by (induction ss) (auto simp: set_stats_insert)

lemma set_shortlist: "set (shortlist ss) \<subseteq> rqst_vid ` set ss"
  by (auto simp: shortlist_def)

text \<open>
  When the selection of the tape to retrieve from returns, it gives one of the candidates, and keeps the cache keyed by the tapes its
  entries are about; when there is one candidate it is available, that is active, or disabled and forced. Here \<open>se_draw\<close> is
  the random index, which is in range, and \<open>se_others\<close> what other threads do to the cache.
\<close>

lemma selectBestRetrieveQueue_candidate:
  assumes "keyed {} c" "\<And>X c. keyed X c \<Longrightarrow> keyed X (se_others env c)"
    and "\<And>n. 0 < n \<Longrightarrow> se_draw env n < n"
    and r: "selectBestRetrieveQueue env candidateVids force (w, c) = (Inr vid, (w', c'))"
  shows "vid \<in> set candidateVids \<and> keyed {} c'
    \<and> (candidateVids = [v] \<longrightarrow> rqwt_available force (cache_entry v c'))"
proof -
  from r obtain ss where ss: "foldM (consider_vid env force) [] candidateVids (w, c) = (Inr ss, (w', c'))" and ne: "ss \<noteq> []"
      and vid: "vid = (if length (shortlist (stats_sort ss)) = 1 then hd (shortlist (stats_sort ss))
                       else candidateVids ! se_draw env (length candidateVids))"
    by (auto simp: selectBestRetrieveQueue_def bnd_Inr_iff Let_def split: if_splits)
  have "candidates_of {} ([] :: retrieve_queue_statistics list)" by (simp add: candidates_of_def)
  from consider_all_Inr [OF assms(2,1) this ss] have k: "keyed {} c'" and of_vids: "rqst_vid ` set ss \<subseteq> set candidateVids"
    by (auto simp: candidates_of_def)
  from ne ss have "candidateVids \<noteq> []" by (cases candidateVids) auto
  then have drawn: "candidateVids ! se_draw env (length candidateVids) \<in> set candidateVids"
    using assms(3) [of "length candidateVids"] by simp
  have short: "hd (shortlist (stats_sort ss)) \<in> set candidateVids" if "length (shortlist (stats_sort ss)) = 1"
    using that of_vids set_shortlist [of "stats_sort ss"] by (cases "shortlist (stats_sort ss)") auto
  have single: "rqwt_available force (cache_entry v c')" if "candidateVids = [v]"
  proof -
    from ss that have "consider_vid env force [] v (w, c) = (Inr ss, (w', c'))"
      by (auto simp: bnd_Inr_iff)
    from consider_vid_Inr [OF assms(1,2) this] ne show ?thesis by (auto simp: add_candidate_def split: if_splits)
  qed
  show ?thesis using k drawn short single by (auto simp: vid)
qed

text \<open>A sample: a cache with one fresh entry.\<close>

definition sms_entry :: "string \<Rightarrow> tape_State \<Rightarrow> retrieve_queue_statistics_with_time" where
  "sms_entry v st = rqwt_default\<lparr>rqwt_stats := (rqwt_stats rqwt_default)\<lparr>rqst_vid := v\<rparr>,
     rqwt_tapeStatus := \<lparr>tape_full = False, tape_state = st\<rparr>, rqwt_updateTime := 100\<rparr>"

definition sms_env :: "(string \<Rightarrow> exn + (string, tape) std_map) \<Rightarrow> selection_env" where
  "sms_env catalogue = \<lparr>se_now = 105, se_getTapesByVid = catalogue, se_draw = (\<lambda>n. n - 1), se_others = (\<lambda>c. c)\<rparr>"

definition sms_world :: world where
  "sms_world = \<lparr>objects = Map.empty, lockFiles = (\<lambda>n. False), agentAddress = ''agent'', nextIdCounter = 0\<rparr>"

lemma sms_fresh: "\<not> c_retrieveQueueCacheMaxAge <s se_now (sms_env cat) - rqwt_updateTime (sms_entry v st)"
  by (simp add: sms_env_def sms_entry_def c_retrieveQueueCacheMaxAge_def word_sless_alt)

lemma sms_select:
  "selectBestRetrieveQueue (sms_env cat) [''V1''] False (sms_world, [(''V1'', sms_entry ''V1'' TAPE_ACTIVE)])
     = (Inr ''V1'', (sms_world, [(''V1'', sms_entry ''V1'' TAPE_ACTIVE)]))"
  using sms_fresh [of cat "''V1''" TAPE_ACTIVE]
  by (simp add: selectBestRetrieveQueue_def consider_vid_apply smap_get_def bnd_def add_candidate_def rqwt_available_def
      sms_entry_def rqwt_default_def stats_sort_def shortlist_def rqst_greater_def)

section \<open>The best tape\<close>

text \<open>The cache has a fresh entry for the tape.\<close>

definition known :: "selection_env \<Rightarrow> stats_cache \<Rightarrow> string \<Rightarrow> bool" where
  "known env c v \<longleftrightarrow> smap_get v c \<noteq> None \<and> \<not> rqwt_updating (cache_entry v c)
     \<and> \<not> c_retrieveQueueCacheMaxAge <s se_now env - rqwt_updateTime (cache_entry v c) \<and> rqst_vid (rqwt_stats (cache_entry v c)) = v"

definition stats_of :: "stats_cache \<Rightarrow> string \<Rightarrow> retrieve_queue_statistics" where
  "stats_of c v = rqwt_stats (cache_entry v c)"

definition available :: "bool \<Rightarrow> stats_cache \<Rightarrow> string list \<Rightarrow> string list" where
  "available force c vs = filter (\<lambda>v. rqwt_available force (cache_entry v c)) vs"

lemma consider_known:
  "\<forall>v \<in> set vs. known env c v \<Longrightarrow>
   foldM (consider_vid env force) ss vs (w, c) = (Inr (ss @ map (stats_of c) (available force c vs)), (w, c))"
  by (induction vs arbitrary: ss)
    (auto simp: available_def stats_of_def consider_vid_apply known_def cache_entry_def add_candidate_def bnd_def)

text \<open>A tape that is better than every other one, and no other one than it, comes first and is alone in the short list.\<close>

definition best :: "retrieve_queue_statistics \<Rightarrow> retrieve_queue_statistics list \<Rightarrow> bool" where
  "best b ss \<longleftrightarrow> (\<forall>t \<in> set ss - {b}. rqst_greater b t \<and> \<not> rqst_greater t b)"

lemma best_first: "best b ss \<Longrightarrow> b \<in> set ss \<Longrightarrow> distinct ss \<Longrightarrow> \<exists>ts. stats_sort ss = b # ts"
proof (induction ss)
  case (Cons s ss)
  have sorted: "stats_sort (s # ss) = stats_insert s (stats_sort ss)" by (simp add: stats_sort_def)
  show ?case
  proof (cases "s = b")
    case True
    then have "\<forall>t \<in> set (stats_sort ss). \<not> rqst_greater t b" using Cons.prems by (auto simp: best_def)
    then show ?thesis unfolding sorted by (cases "stats_sort ss") (simp_all add: True)
  next
    case False
    then obtain ts where "stats_sort ss = b # ts" using Cons by (auto simp: best_def)
    moreover have "rqst_greater b s" using Cons.prems(1) False by (simp add: best_def)
    ultimately show ?thesis unfolding sorted by simp
  qed
qed simp

lemma best_shortlist:
  assumes "best b ss" "b \<in> set ss" "distinct ss"
  shows "shortlist (stats_sort ss) = [rqst_vid b]"
proof -
  obtain ts where ts: "stats_sort ss = b # ts" using best_first [OF assms] by blast
  have "s = b" if "s \<in> set (b # ts)" "\<not> rqst_greater b s" for s
    using that assms(1) set_stats_sort [of ss] by (auto simp: ts best_def)
  then have "set (filter (\<lambda>s. \<not> rqst_greater b s \<and> \<not> rqst_greater s b) (b # ts)) \<subseteq> {b}" by auto
  moreover have "\<not> rqst_greater b b" by (simp add: rqst_greater_def)
  ultimately have filtered: "set (filter (\<lambda>s. \<not> rqst_greater b s \<and> \<not> rqst_greater s b) (b # ts)) = {b}" by simp
  define sl where "sl = shortlist (stats_sort ss)"
  have "set sl = rqst_vid ` set (filter (\<lambda>s. \<not> rqst_greater b s \<and> \<not> rqst_greater s b) (b # ts))"
    unfolding sl_def ts shortlist_def list.sel(1) set_remdups set_map ..
  then have sl: "set sl = {rqst_vid b}" unfolding filtered by simp
  have "distinct sl" unfolding sl_def shortlist_def by (rule distinct_remdups)
  then have "length sl = 1" using distinct_card [of sl] by (simp add: sl)
  then obtain x where "sl = [x]" by (auto simp: length_Suc_conv)
  with sl show ?thesis unfolding sl_def [symmetric] by simp
qed

text \<open>
  C13. The selection of the tape to retrieve from, when the cache has a fresh entry for every candidate: it returns, without
  asking the catalogue and without a change of the cache. If no candidate is available, that is active, or disabled and
  forced, it throws \<open>NoTapeAvailableForRetrieve\<close>; otherwise it gives one of the candidates; and if one of the available
  tapes is better than all others that are available, it gives that one.
\<close>
theorem selectBestRetrieveQueue_cached:
  assumes "\<forall>v \<in> set candidateVids. known env c v" "distinct candidateVids" "\<And>n. 0 < n \<Longrightarrow> se_draw env n < n"
  shows "\<exists>r. selectBestRetrieveQueue env candidateVids force (w, c) = (r, (w, c))
    \<and> (if available force c candidateVids = [] then r = Inl NoTapeAvailableForRetrieve
       else \<exists>vid \<in> set candidateVids. r = Inr vid
         \<and> (\<forall>b \<in> set (available force c candidateVids). best (stats_of c b) (map (stats_of c) (available force c candidateVids)) \<longrightarrow> vid = b))"
proof -
  define vs where "vs = available force c candidateVids"
  define ss where "ss = map (stats_of c) vs"
  have vid: "rqst_vid (stats_of c v) = v" if "v \<in> set candidateVids" for v using assms(1) that by (simp add: known_def stats_of_def)
  have sub: "set vs \<subseteq> set candidateVids" by (simp add: vs_def available_def)
  have vids: "map rqst_vid ss = vs" unfolding ss_def using vid sub by (simp add: map_idI subset_iff)
  have "distinct (map rqst_vid ss)" unfolding vids using assms(2) by (simp add: vs_def available_def)
  then have dist: "distinct ss" by (simp add: distinct_map)
  have set_vids: "rqst_vid ` set ss = set vs" using vids by (metis list.set_map)
  define vid' where "vid' = (if length (shortlist (stats_sort ss)) = 1 then hd (shortlist (stats_sort ss)) else candidateVids ! se_draw env (length candidateVids))"
  have run: "selectBestRetrieveQueue env candidateVids force (w, c) = (if vs = [] then Inl NoTapeAvailableForRetrieve else Inr vid', (w, c))"
    using consider_known [OF assms(1), of force "[]" w]
    by (simp add: selectBestRetrieveQueue_def vs_def [symmetric] ss_def [symmetric] vid'_def Let_def) (simp add: ss_def)
  have in_vids: "vid' \<in> set candidateVids" if "vs \<noteq> []"
  proof -
    have "candidateVids \<noteq> []" using that sub by auto
    then have "candidateVids ! se_draw env (length candidateVids) \<in> set candidateVids" using assms(3) by simp
    moreover have "set (shortlist (stats_sort ss)) \<subseteq> set vs" using set_shortlist [of "stats_sort ss"] set_vids by simp
    then have "hd (shortlist (stats_sort ss)) \<in> set candidateVids" if "length (shortlist (stats_sort ss)) = 1"
      using that sub by (cases "shortlist (stats_sort ss)") auto
    ultimately show ?thesis by (simp add: vid'_def)
  qed
  have "vid' = b" if "b \<in> set vs" "best (stats_of c b) ss" for b
  proof -
    have "stats_of c b \<in> set ss" using that(1) by (simp add: ss_def)
    from best_shortlist [OF that(2) this dist] show ?thesis using vid [of b] that(1) sub by (auto simp: vid'_def)
  qed
  with run in_vids show ?thesis unfolding ss_def vs_def by auto
qed

theorem selectBestRetrieveQueue_cached_witness:
  "selectBestRetrieveQueue (sms_env (\<lambda>v. Inr [])) [''V1''] False (sms_world, [(''V1'', sms_entry ''V1'' TAPE_ACTIVE)])
     = (Inr ''V1'', (sms_world, [(''V1'', sms_entry ''V1'' TAPE_ACTIVE)]))"
proof -
  let ?c = "[(''V1'', sms_entry ''V1'' TAPE_ACTIVE)]" and ?env = "sms_env (\<lambda>v. Inr [])"
  have e: "cache_entry ''V1'' ?c = sms_entry ''V1'' TAPE_ACTIVE" by (simp add: cache_entry_def smap_get_def)
  have k: "\<forall>v \<in> set [''V1'']. known ?env ?c v"
    using sms_fresh [of "\<lambda>v. Inr []" "''V1''" TAPE_ACTIVE]
    by (simp add: known_def e) (simp add: smap_get_def sms_entry_def rqwt_default_def)
  have a: "available False ?c [''V1''] = [''V1'']" by (simp add: available_def e) (simp add: rqwt_available_def sms_entry_def)
  have d: "distinct [''V1'']" "\<And>n. 0 < n \<Longrightarrow> se_draw ?env n < n" by (simp_all add: sms_env_def)
  show ?thesis
    using selectBestRetrieveQueue_cached [OF k d, of False sms_world] unfolding a by simp
qed

section \<open>What goes wrong\<close>

lemma refresh_entry_catalogue_error:
  "se_getTapesByVid env v = Inl e \<Longrightarrow>
   refresh_entry env force ss v (w, c) = (Inl e, (w, cache_update v (\<lambda>e. e\<lparr>rqwt_updating := True\<rparr>) c))"
  by (simp add: refresh_entry_def)

text \<open>
  C10. An error of the catalogue while a tape that is not in the cache is looked up leaves an entry that is marked as being
  updated, by nobody, and that has the values a new entry has. From then on, whatever the state of the tape, the
  catalogue is not asked again and the selection among this tape alone gives the empty string as the tape to use,
  without an error.
\<close>
theorem selectBestRetrieveQueue_catalogue_error:
  assumes "smap_ok c" "smap_get v c = None" "se_getTapesByVid env v = Inl e"
  shows "\<exists>c'. selectBestRetrieveQueue env [v] force (w, c) = (Inl e, (w, c'))
    \<and> (\<forall>(env' :: selection_env) force' w'. se_others env' c' = c' \<longrightarrow>
         selectBestRetrieveQueue env' [v] force' (w', c') = (Inr '''', (w', c')))"
proof (intro exI conjI allI impI)
  define c' where "c' = cache_update v (\<lambda>e. e\<lparr>rqwt_updating := True\<rparr>) c"
  show "selectBestRetrieveQueue env [v] force (w, c) = (Inl e, (w, c'))"
    using assms(2) refresh_entry_catalogue_error [OF assms(3)]
    by (simp add: selectBestRetrieveQueue_def consider_vid_apply bnd_def c'_def)
  fix env' :: selection_env and force' w' assume others: "se_others env' c' = c'"
  have "smap_get v c' = Some (rqwt_default\<lparr>rqwt_updating := True\<rparr>)"
    using assms(1,2) by (simp add: c'_def cache_update_def cache_entry_def smap_get_put)
  with others show "selectBestRetrieveQueue env' [v] force' (w', c') = (Inr '''', (w', c'))"
    by (simp add: selectBestRetrieveQueue_def consider_vid_apply bnd_def add_candidate_def rqwt_available_def rqwt_default_def
        stats_sort_def shortlist_def rqst_greater_def)
qed

theorem selectBestRetrieveQueue_catalogue_error_witness:
  "\<exists>c'. selectBestRetrieveQueue (sms_env (\<lambda>v. Inl (CtaException ''catalogue''))) [''V1''] False (sms_world, [])
       = (Inl (CtaException ''catalogue''), (sms_world, c'))
    \<and> selectBestRetrieveQueue (sms_env (\<lambda>v. Inr [])) [''V1''] False (sms_world, c') = (Inr '''', (sms_world, c'))"
proof -
  have h: "smap_ok ([] :: stats_cache)" "smap_get ''V1'' ([] :: stats_cache) = None"
    "se_getTapesByVid (sms_env (\<lambda>v. Inl (CtaException ''catalogue''))) ''V1'' = Inl (CtaException ''catalogue'')"
    by (simp_all add: smap_ok_def smap_get_def sms_env_def)
  obtain c' where c': "selectBestRetrieveQueue (sms_env (\<lambda>v. Inl (CtaException ''catalogue''))) [''V1''] False (sms_world, [])
       = (Inl (CtaException ''catalogue''), (sms_world, c'))"
    "\<forall>(env' :: selection_env) force' w'. se_others env' c' = c' \<longrightarrow>
         selectBestRetrieveQueue env' [''V1''] force' (w', c') = (Inr '''', (w', c'))"
    using selectBestRetrieveQueue_catalogue_error [OF h, of False sms_world] by (elim exE conjE)
  moreover have "se_others (sms_env (\<lambda>v. Inr [])) c' = c'" by (simp add: sms_env_def)
  ultimately show ?thesis by blast
qed

text \<open>
  With two equivalent active tapes and a broken one, all three in the cache, the random choice can give the broken
  one, even though it was left out of the candidates.
\<close>

lemma selectBestRetrieveQueue_broken_tape:
  "selectBestRetrieveQueue (sms_env cat) [''V1'', ''V2'', ''V3''] False
     (w, [(''V1'', sms_entry ''V1'' TAPE_ACTIVE), (''V2'', sms_entry ''V2'' TAPE_ACTIVE), (''V3'', sms_entry ''V3'' TAPE_BROKEN)])
   = (Inr ''V3'',
     (w, [(''V1'', sms_entry ''V1'' TAPE_ACTIVE), (''V2'', sms_entry ''V2'' TAPE_ACTIVE), (''V3'', sms_entry ''V3'' TAPE_BROKEN)]))"
  using sms_fresh [of cat "''V1''" TAPE_ACTIVE] sms_fresh [of cat "''V2''" TAPE_ACTIVE] sms_fresh [of cat "''V3''" TAPE_BROKEN]
  by (simp add: selectBestRetrieveQueue_def consider_vid_apply smap_get_def bnd_def add_candidate_def rqwt_available_def
      sms_entry_def rqwt_default_def stats_sort_def shortlist_def rqst_greater_def tape_isDisabled_def)
    (simp add: sms_env_def)

end
