(* ===== verification/RetrieveQueueAlgorithms.thy ===== *)
theory RetrieveQueueAlgorithms
  imports ArchiveQueueAlgorithms RetrieveRequest
begin

text \<open>
  \<open>objectstore/RetrieveQueueAlgorithms.hpp\<close> and \<open>RetrieveQueueToTransferAlgorithms.cpp\<close>: the traits of retrieve queues.
  An inserted element has the image of its request in memory, a popped one the address of it. The shards of
  a fetched queue have at most the size the queue itself gives. The loop of \<open>getLockedAndFetchedNoCreate\<close> has
  fuel; \<open>now\<close> is \<open>time(nullptr)\<close>, and \<open>fSeq0\<close> the value of the uninitialised member of \<open>RepackInfo\<close>.
\<close>

section \<open>Elements\<close>

record retrieve_inserted =
  rin_retrieveRequest :: "retrieve_request oo"
  rin_copyNb :: u32
  rin_fSeq :: u64
  rin_filesize :: u64
  rin_policy :: mount_policy
  rin_activity :: "string option"
  rin_diskSystemName :: "string option"

datatype retrieve_ReportType = RetrieveNoReportRequired | RetrieveFailureReport | RetrieveReport

record retrieve_popped =
  rpo_retrieveRequest :: string
  rpo_copyNb :: u32
  rpo_bytes :: u64
  rpo_archiveFile :: archive_file
  rpo_rr :: ds_retrieve_request
  rpo_errorReportURL :: string
  rpo_reportType :: retrieve_ReportType
  rpo_repackInfo :: rr_RepackInfo
  rpo_activity :: "string option"
  rpo_diskSystemName :: "string option"

text \<open>The criterion of a queue to transfer has disk systems to skip, in the order of their names.\<close>

record disk_system_to_skip =
  dss_name :: string
  dss_sleepTime :: u64

record retrieve_criteria =
  rpc_files :: u64
  rpc_bytes :: u64
  rpc_diskSystemsToSkip :: "disk_system_to_skip list"

record retrieve_summary =
  rps_files :: u64
  rps_bytes :: u64
  rps_diskSystemFull :: bool
  rps_fullDiskSystem :: string

definition ds_retrieve_request_default :: ds_retrieve_request where
  "ds_retrieve_request_default = \<lparr>dsr_requester = \<lparr>ri_name = '''', ri_group = ''''\<rparr>, dsr_archiveFileID = 0, dsr_dstURL = '''',
     dsr_errorReportURL = '''', dsr_diskFileInfo = af_diskfileinfo archive_file_default, dsr_creationLog = entry_log_default,
     dsr_isVerifyOnly = False, dsr_vid = None, dsr_mountPolicy = None,
     dsr_lifecycleTimings = \<lparr>lt_creation_time = 0, lt_first_selected_time = 0, lt_completed_time = 0\<rparr>, dsr_activity = None\<rparr>"

definition rr_empty :: retrieve_request where
  "rr_empty = \<lparr>rr_schedulerrequest = \<lparr>srr_requester = \<lparr>ri_name = [], ri_group = []\<rparr>, srr_archivefileid = 0, srr_dsturl = [],
       srr_diskfileinfo = af_diskfileinfo archive_file_default, srr_entrylog = entry_log_default, srr_retrieveerrorreporturl = [],
       srr_isverifyonly = False\<rparr>,
     rr_mountpolicy = mount_policy_default, rr_mountpolicyname = [], rr_activity = None, rr_archivefile = archive_file_default,
     rr_activecopynb = 0, rr_jobs = [], rr_failurereporturl = [], rr_failurereportlog = [], rr_isrepack = False,
     rr_repack_info = \<lparr>rrri_archive_routes = [], rrri_copy_nbs_to_rearchive = [], rrri_repack_request_address = [],
       rrri_file_buffer_url = [], rrri_fseq = 0, rrri_force_disabled_tape = False, rrri_has_user_provided_file = None\<rparr>,
     rr_lifecycle_timings = \<lparr>lt_creation_time = 0, lt_first_selected_time = 0, lt_completed_time = 0\<rparr>,
     rr_disk_system_name = None, rr_isverifyonly = False, rr_isfailed = False\<rparr>"

definition rr_at :: "string \<Rightarrow> exn + retrieve_request oo" where
  "rr_at a = setAddress a (oo_new rr_empty)"

section \<open>The queue\<close>

definition rqt_getContainerSummary :: "retrieve_queue oo \<Rightarrow> exn + unit" where
  "rqt_getContainerSummary cont = rbind (rq_getJobsSummary cont) (\<lambda>_. Inr ())"

text \<open>A queue that sleeps counts as trimmed; an empty one is removed, unless it is not empty any more.\<close>

definition rqt_trimContainerIfNeeded :: "JobQueueType \<Rightarrow> string \<Rightarrow> retrieve_queue oo \<Rightarrow> (world, bool) prog" where
  "rqt_trimContainerIfNeeded queueType cId cont =
     bnd (liftr (rq_isEmpty cont)) (\<lambda>empty.
     if \<not> empty then bnd (liftr (rq_getJobsSummary cont)) (\<lambda>s. ret (rqjs_sleepInfo s \<noteq> None))
     else bnd (attempt
            (bnd (liftr re_at) (\<lambda>re.
             bnd (exclusive_lock re) (\<lambda>re.
             bnd (oo_fetch re_c re) (\<lambda>re.
             re_removeRetrieveQueueAndCommit cId queueType re))))) (\<lambda>r.
          ret (r \<noteq> Inl RetrieveQueueNotEmpty)))"

definition rqt_getLockedAndFetched :: "JobQueueType \<Rightarrow> string \<Rightarrow> (world, retrieve_queue oo) prog" where
  "rqt_getLockedAndFetched queueType contId = getLockedAndFetchedRetrieveQueue contId queueType (oo_new rq_empty)"

definition rqt_dereference_missing :: "JobQueueType \<Rightarrow> string \<Rightarrow> root_entry oo \<Rightarrow> (world, unit) prog" where
  "rqt_dereference_missing queueType cId re =
     bnd (exclusive_lock re) (\<lambda>re.
     bnd (oo_fetch re_c re) (\<lambda>re.
     caught (\<lambda>e. if e = RetrieveQueueNotEmpty \<or> e = NoSuchRetrieveQueue then Some (ret ()) else None)
       (bnd (re_removeRetrieveQueueAndCommit cId queueType re) (\<lambda>_. ret ()))))"

fun rqt_lock_no_create :: "nat \<Rightarrow> JobQueueType \<Rightarrow> string \<Rightarrow> retrieve_queue oo \<Rightarrow> (world, retrieve_queue oo) prog" where
  "rqt_lock_no_create fuel queueType cId cont =
     bnd (liftr re_at) (\<lambda>re.
     bnd (oo_fetchNoLock re_c re) (\<lambda>re.
     bnd (liftr (re_dumpRetrieveQueues queueType re)) (\<lambda>rql.
     let rqAddress = fold (\<lambda>rqp a. if rqp_vid rqp = cId then rqp_address rqp else a) rql []
     in if rqAddress = [] then throw NoSuchContainer
        else bnd (liftr (setAddress rqAddress cont)) (\<lambda>cont.
             bnd (attempt (bnd (exclusive_lock cont) (oo_fetch rq_c))) (\<lambda>r. case r of
               Inr cont1 \<Rightarrow> ret cont1
             | Inl _ \<Rightarrow>
                 bnd (rqt_dereference_missing queueType cId re) (\<lambda>_.
                 bnd (liftr (resetAddress cont)) (\<lambda>cont.
                 case fuel of 0 \<Rightarrow> throw OutOfFuel
                 | Suc fuel' \<Rightarrow> rqt_lock_no_create fuel' queueType cId cont)))))))"

declare rqt_lock_no_create.simps [simp del]

definition rqt_getLockedAndFetchedNoCreate :: "nat \<Rightarrow> JobQueueType \<Rightarrow> string \<Rightarrow> (world, retrieve_queue oo) prog" where
  "rqt_getLockedAndFetchedNoCreate fuel queueType cId = rqt_lock_no_create fuel queueType cId (oo_new rq_empty)"

section \<open>References\<close>

definition rqt_job_to_add :: "time_t \<Rightarrow> retrieve_inserted \<Rightarrow> exn + retrieve_job_to_add" where
  "rqt_job_to_add startTime e = rbind (getAddressIfSet (rin_retrieveRequest e)) (\<lambda>a.
     Inr \<lparr>rja_copyNb = rin_copyNb e, rja_fSeq = rin_fSeq e, rja_retrieveRequestAddress = a, rja_fileSize = rin_filesize e,
          rja_policy = rin_policy e, rja_startTime = startTime, rja_activity = rin_activity e,
          rja_diskSystemName = rin_diskSystemName e\<rparr>)"

definition rqt_addReferencesAndCommit :: "time_t \<Rightarrow> retrieve_inserted list \<Rightarrow> retrieve_queue oo \<Rightarrow> (world, retrieve_queue oo) prog" where
  "rqt_addReferencesAndCommit now elems cont =
     bnd (liftr (mapR (rqt_job_to_add now) elems)) (\<lambda>jobsToAdd.
     rq_addJobsAndCommit (rq_maxshardsize (oo_payload cont)) jobsToAdd cont)"

text \<open>Here the time of a job is the creation time of its request.\<close>

definition rqt_addReferencesIfNecessaryAndCommit :: "retrieve_inserted list \<Rightarrow> retrieve_queue oo \<Rightarrow> (world, retrieve_queue oo) prog" where
  "rqt_addReferencesIfNecessaryAndCommit elems cont =
     bnd (liftr (mapR (\<lambda>e. rbind (rr_getCreationTime (rin_retrieveRequest e)) (\<lambda>t. rqt_job_to_add t e)) elems)) (\<lambda>jobsToAdd.
     bnd (rq_addJobsIfNecessaryAndCommit (rq_maxshardsize (oo_payload cont)) jobsToAdd cont) (\<lambda>(summary, cont). ret cont))"

section \<open>Ownership\<close>

definition rqt_element_address :: "retrieve_inserted \<Rightarrow> string" where
  "rqt_element_address e = oo_name (rin_retrieveRequest e)"

definition rqt_switch_inserted :: "u64 \<Rightarrow> u64 \<Rightarrow> string \<Rightarrow> string \<Rightarrow> retrieve_inserted \<Rightarrow> (world, retrieve_inserted) prog" where
  "rqt_switch_inserted now fSeq0 contAddress previousOwnerAddress e =
     bnd (rr_asyncUpdateJobOwner now fSeq0 (rin_copyNb e) contAddress previousOwnerAddress (rin_retrieveRequest e)) (\<lambda>_. ret e)"

definition rqt_fill_popped :: "rr_JobOwnerUpdater \<Rightarrow> retrieve_popped \<Rightarrow> retrieve_popped" where
  "rqt_fill_popped u e = e\<lparr>rpo_archiveFile := rjou_archiveFile u, rpo_rr := rjou_retrieveRequest u, rpo_repackInfo := rjou_repackInfo u,
     rpo_activity := rjou_activity u, rpo_diskSystemName := rjou_diskSystemName u,
     rpo_reportType := (if rjou_jobStatus u = RJS_ToReportToUserForFailure then RetrieveFailureReport else RetrieveNoReportRequired)\<rparr>"

definition rqt_switch_popped :: "u64 \<Rightarrow> u64 \<Rightarrow> string \<Rightarrow> string \<Rightarrow> retrieve_popped \<Rightarrow> (world, retrieve_popped) prog" where
  "rqt_switch_popped now fSeq0 contAddress previousOwnerAddress e =
     bnd (liftr (rr_at (rpo_retrieveRequest e))) (\<lambda>rr.
     bnd (rr_asyncUpdateJobOwner now fSeq0 (rpo_copyNb e) contAddress previousOwnerAddress rr) (\<lambda>u.
     ret (case u of None \<Rightarrow> e | Some u \<Rightarrow> rqt_fill_popped u e)))"

section \<open>Candidates\<close>

definition rqt_popped_of :: "u64 \<Rightarrow> retrieve_job_dump \<Rightarrow> retrieve_popped" where
  "rqt_popped_of fSeq0 cjfq =
     \<lparr>rpo_retrieveRequest = rjd_address cjfq, rpo_copyNb = retrieve_job_dump.rjd_copyNb cjfq, rpo_bytes = rjd_size cjfq,
      rpo_archiveFile = archive_file_default, rpo_rr = ds_retrieve_request_default, rpo_errorReportURL = [],
      rpo_reportType = RetrieveNoReportRequired, rpo_repackInfo = rr_RepackInfo_init fSeq0,
      rpo_activity = rjd_activity cjfq, rpo_diskSystemName = rjd_diskSystemName cjfq\<rparr>"

definition rqt_candidates :: "u64 \<Rightarrow> u64 \<Rightarrow> string set \<Rightarrow> retrieve_queue oo \<Rightarrow> (world, (retrieve_popped list \<times> u64) \<times> retrieve_queue oo) prog" where
  "rqt_candidates fSeq0 unfulfilledCriteria elementsToSkip cont =
     bnd (rq_getCandidateList (- 1) unfulfilledCriteria elementsToSkip {} cont) (\<lambda>r.
     ret (fold (\<lambda>cjfq (es, files). (es @ [rqt_popped_of fSeq0 cjfq], files + 1)) (cjl_candidates r) ([], 0), cont))"

text \<open>
  A queue to transfer that gives no candidate because of the disk systems to skip is put to sleep, with the
  first of these.
\<close>

definition rqt_candidates_to_transfer ::
  "time_t \<Rightarrow> u64 \<Rightarrow> retrieve_criteria \<Rightarrow> string set \<Rightarrow> retrieve_queue oo
   \<Rightarrow> (world, (retrieve_popped list \<times> retrieve_summary) \<times> retrieve_queue oo) prog" where
  "rqt_candidates_to_transfer now fSeq0 unfulfilledCriteria elementsToSkip cont =
     (let none = \<lparr>rps_files = 0, rps_bytes = 0, rps_diskSystemFull = False, rps_fullDiskSystem = []\<rparr>;
          toSkip = rpc_diskSystemsToSkip unfulfilledCriteria in
     bnd (rq_getCandidateList (rpc_bytes unfulfilledCriteria) (rpc_files unfulfilledCriteria) elementsToSkip (dss_name ` set toSkip) cont) (\<lambda>r.
     bnd (liftr (if toSkip \<noteq> [] \<and> cjl_candidates r = [] then rbind (rq_getJobsSummary cont) (\<lambda>s. Inr (rqjs_jobs s \<noteq> 0)) else Inr False)) (\<lambda>jobs.
     if jobs \<and> elementsToSkip = {}
     then bnd (liftr (rq_setSleepForFreeSpaceStartTimeAndName now (dss_name (hd toSkip)) (dss_sleepTime (hd toSkip)) cont)) (\<lambda>cont.
          bnd (rq_commit cont) (\<lambda>cont. ret (([], none), cont)))
     else ret (fold (\<lambda>cjfq (es, s). (es @ [rqt_popped_of fSeq0 cjfq],
                                     s\<lparr>rps_bytes := rps_bytes s + rjd_size cjfq, rps_files := rps_files s + 1\<rparr>))
                 (cjl_candidates r) ([], none), cont))))"

section \<open>Amounts\<close>

definition rps_less :: "retrieve_summary \<Rightarrow> retrieve_criteria \<Rightarrow> bool" where
  "rps_less s pc \<longleftrightarrow> rps_bytes s < rpc_bytes pc \<and> rps_files s < rpc_files pc"

definition rps_plus :: "retrieve_summary \<Rightarrow> retrieve_summary \<Rightarrow> retrieve_summary" where
  "rps_plus s other = s\<lparr>rps_bytes := rps_bytes s + rps_bytes other, rps_files := rps_files s + rps_files other\<rparr>"

definition rps_minus :: "retrieve_summary \<Rightarrow> retrieve_summary \<Rightarrow> retrieve_summary" where
  "rps_minus s other = s\<lparr>rps_bytes := rps_bytes s - rps_bytes other, rps_files := rps_files s - rps_files other\<rparr>"

definition rpc_minus :: "retrieve_criteria \<Rightarrow> retrieve_summary \<Rightarrow> retrieve_criteria" where
  "rpc_minus pc pes = pc\<lparr>rpc_bytes := rpc_bytes pc - rps_bytes pes, rpc_files := rpc_files pc - rps_files pes\<rparr>"

definition rqt_getElementSummary_to_transfer :: "retrieve_popped \<Rightarrow> retrieve_summary" where
  "rqt_getElementSummary_to_transfer e = \<lparr>rps_files = 1, rps_bytes = rpo_bytes e, rps_diskSystemFull = False, rps_fullDiskSystem = []\<rparr>"

section \<open>The traits\<close>

definition rqt_base ::
  "nat \<Rightarrow> time_t \<Rightarrow> u64 \<Rightarrow> JobQueueType \<Rightarrow> (retrieve_popped \<Rightarrow> 'sum)
   \<Rightarrow> ('crit \<Rightarrow> string set \<Rightarrow> retrieve_queue oo \<Rightarrow> (world, (retrieve_popped list \<times> 'sum) \<times> retrieve_queue oo) prog)
   \<Rightarrow> 'sum \<Rightarrow> ('sum \<Rightarrow> 'crit \<Rightarrow> bool) \<Rightarrow> ('sum \<Rightarrow> 'sum \<Rightarrow> 'sum) \<Rightarrow> ('sum \<Rightarrow> 'sum \<Rightarrow> 'sum) \<Rightarrow> ('crit \<Rightarrow> 'sum \<Rightarrow> 'crit)
   \<Rightarrow> (string, retrieve_queue, retrieve_inserted, retrieve_popped, 'crit, 'sum) container_traits" where
  "rqt_base fuel now fSeq0 queueType summary candidates noneYet below add sub unfulfilled =
     \<lparr>ct_getContainerSummary = rqt_getContainerSummary,
      ct_trimContainerIfNeeded = rqt_trimContainerIfNeeded queueType,
      ct_getLockedAndFetched = rqt_getLockedAndFetched queueType,
      ct_getLockedAndFetchedNoCreate = rqt_getLockedAndFetchedNoCreate fuel queueType,
      ct_fetch = oo_fetch rq_c,
      ct_addReferencesAndCommit = rqt_addReferencesAndCommit now,
      ct_addReferencesIfNecessaryAndCommit = rqt_addReferencesIfNecessaryAndCommit,
      ct_removeReferencesAndCommit = rq_removeJobsAndCommit,
      ct_switchElement = rqt_switch_inserted now fSeq0,
      ct_switchPopped = rqt_switch_popped now fSeq0,
      ct_getElementAddress = rqt_element_address,
      ct_getPoppedAddress = rpo_retrieveRequest,
      ct_getElementSummary = summary,
      ct_getPoppingElementsCandidates = candidates,
      ct_none = noneYet, ct_less = below, ct_plus = add, ct_minus = sub, ct_unfulfilled = unfulfilled\<rparr>"

definition RetrieveQueueToTransfer ::
  "nat \<Rightarrow> time_t \<Rightarrow> u64 \<Rightarrow> (string, retrieve_queue, retrieve_inserted, retrieve_popped, retrieve_criteria, retrieve_summary) container_traits" where
  "RetrieveQueueToTransfer fuel now fSeq0 =
     rqt_base fuel now fSeq0 JobsToTransferForUser rqt_getElementSummary_to_transfer (rqt_candidates_to_transfer now fSeq0)
       \<lparr>rps_files = 0, rps_bytes = 0, rps_diskSystemFull = False, rps_fullDiskSystem = []\<rparr> rps_less rps_plus rps_minus rpc_minus"

text \<open>
  The other kinds: \<open>RetrieveQueueToReportForUser\<close>, \<open>RetrieveQueueToReportToRepackForSuccess\<close>,
  \<open>RetrieveQueueToReportToRepackForFailure\<close>, \<open>RetrieveQueueFailed\<close> and \<open>RetrieveQueueToTransferForRepack\<close>.
\<close>

definition RetrieveQueueOther ::
  "nat \<Rightarrow> time_t \<Rightarrow> u64 \<Rightarrow> JobQueueType \<Rightarrow> (string, retrieve_queue, retrieve_inserted, retrieve_popped, u64, u64) container_traits" where
  "RetrieveQueueOther fuel now fSeq0 queueType =
     rqt_base fuel now fSeq0 queueType (\<lambda>e. 1) (rqt_candidates fSeq0) 0 (<) (+) (-) (-)"

end
