(* ===== verification/Sorter.thy ===== *)
theory Sorter
  imports RetrieveQueueAlgorithms RetrieveQueueSelection "HOL-Library.Product_Lexorder"
begin

text \<open>
  \<open>objectstore/Sorter.cpp\<close>, \<open>Sorter.hpp\<close> and \<open>SorterArchiveJob.hpp\<close>: the sorter gathers jobs per queue and then puts
  the jobs of each queue in it with one call. The outcome for a job is told through its promise, which is
  named here by its position in the list of the promises the sorter has made; a promise nothing is done with
  stays \<open>Pending\<close>. An agent reference given as the previous owner is its address. The sorter is used by one
  thread at a time, its mutex is left out.
\<close>

section \<open>Data\<close>

text \<open>The values of \<open>JobQueueType\<close> in the order of their declaration, for the keys of the maps.\<close>

definition JobQueueType_rank :: "JobQueueType \<Rightarrow> nat" where
  "JobQueueType_rank t = (case t of JobsToTransferForUser \<Rightarrow> 0 | FailedJobs \<Rightarrow> 1 | JobsToReportToUser \<Rightarrow> 2
     | JobsToReportToRepackForSuccess \<Rightarrow> 3 | JobsToReportToRepackForFailure \<Rightarrow> 4 | JobsToTransferForRepack \<Rightarrow> 5)"

lemma JobQueueType_rank_inject: "JobQueueType_rank s = JobQueueType_rank t \<longleftrightarrow> s = t"
  by (cases s; cases t) (simp_all add: JobQueueType_rank_def)

instantiation JobQueueType :: linorder
begin

definition less_eq_JobQueueType :: "JobQueueType \<Rightarrow> JobQueueType \<Rightarrow> bool" where
  "less_eq_JobQueueType s t \<longleftrightarrow> JobQueueType_rank s \<le> JobQueueType_rank t"

definition less_JobQueueType :: "JobQueueType \<Rightarrow> JobQueueType \<Rightarrow> bool" where
  "less_JobQueueType s t \<longleftrightarrow> JobQueueType_rank s < JobQueueType_rank t"

instance
  by standard (auto simp: less_eq_JobQueueType_def less_JobQueueType_def JobQueueType_rank_inject)

end

record sorter_archive_job =
  sa_archiveRequest :: string
  sa_jobDump :: archive_request_job_dump
  sa_archiveFile :: archive_file
  sa_previousOwner :: string
  sa_mountPolicy :: mount_policy
  sa_jobQueueType :: JobQueueType

record sorter_retrieve_job =
  sr_retrieveRequest :: "retrieve_request oo"
  sr_jobDump :: rr_JobDump
  sr_previousOwner :: string
  sr_fileSize :: u64
  sr_fSeq :: u64
  sr_mountPolicy :: mount_policy
  sr_jobQueueType :: JobQueueType
  sr_activity :: "string option"
  sr_diskSystemName :: "string option"

record sorter_retrieve_request =
  srq_archiveFile :: archive_file
  srq_retrieveJobs :: "(u32, sorter_retrieve_job) std_map"
  srq_repackRequestAddress :: string
  srq_forceDisabledTape :: bool

datatype promise = Pending | Fulfilled | Failed exn

text \<open>\<open>ArchiveJobQueueInfo\<close> and \<open>RetrieveJobQueueInfo\<close> are a job and its promise.\<close>

type_synonym 'j job_queue_info = "nat \<times> 'j"

type_synonym 'j sorter_map = "(string \<times> JobQueueType, 'j job_queue_info list) std_map"

record sorter =
  so_archive :: "sorter_archive_job sorter_map"
  so_retrieve :: "sorter_retrieve_job sorter_map"
  so_promises :: "promise list"

definition smap_erase :: "'k \<Rightarrow> ('k, 'v) std_map \<Rightarrow> ('k, 'v) std_map" where
  "smap_erase k m = filter (\<lambda>(k', v). k' \<noteq> k) m"

definition smap_push :: "'k::linorder \<Rightarrow> 'v \<Rightarrow> ('k, 'v list) std_map \<Rightarrow> ('k, 'v list) std_map" where
  "smap_push k v m = smap_put k ((case smap_get k m of Some vs \<Rightarrow> vs | None \<Rightarrow> []) @ [v]) m"

section \<open>Programs with a sorter\<close>

type_synonym sworld = "gworld \<times> sorter"

definition in_gworld :: "(gworld, 'a) prog \<Rightarrow> (sworld, 'a) prog" where
  "in_gworld m = (\<lambda>(g, so). case m g of (r, g') \<Rightarrow> (r, (g', so)))"

definition in_world :: "(world, 'a) prog \<Rightarrow> (sworld, 'a) prog" where
  "in_world m = in_gworld (on_world m)"

definition in_sorter :: "(sorter \<Rightarrow> sorter) \<Rightarrow> (sworld, unit) prog" where
  "in_sorter f = (\<lambda>(g, so). (Inr (), (g, f so)))"

definition set_promise :: "nat \<Rightarrow> promise \<Rightarrow> sorter \<Rightarrow> sorter" where
  "set_promise i p so = so\<lparr>so_promises := (so_promises so)[i := p]\<rparr>"

section \<open>Queueing the jobs of one queue\<close>

text \<open>
  \<open>executeArchiveAlgorithm\<close> and \<open>executeRetrieveAlgorithm\<close>: the infos are put in a map by the number of the copy, so of
  several with the same number the last one stays; all jobs are moved from the previous owner of the last job. After a
  failure other than \<open>NoSuchObject\<close> the promise of the copy gets the exception; \<open>succeededJobs[copyNb]\<close> of a number
  that is not there is a null pointer.
\<close>

definition sor_job_failed ::
  "('el \<Rightarrow> u32) \<Rightarrow> (u32, nat) std_map \<Rightarrow> 'el \<times> exn \<Rightarrow> (sworld, (u32, nat) std_map) prog" where
  "sor_job_failed copyNb succeededJobs = (\<lambda>(e, failure).
     if failure = NoSuchObject then ret succeededJobs
     else case smap_get (copyNb e) succeededJobs of
            None \<Rightarrow> throw Segfault
          | Some i \<Rightarrow> bnd (in_sorter (set_promise i (Failed failure))) (\<lambda>_. ret (smap_erase (copyNb e) succeededJobs)))"

definition sor_execute ::
  "(string, 'p, 'el, 'pop, 'crit, 'sum) container_traits \<Rightarrow> ('j \<Rightarrow> 'el) \<Rightarrow> ('el \<Rightarrow> u32) \<Rightarrow> ('j \<Rightarrow> string) \<Rightarrow> string
   \<Rightarrow> 'j job_queue_info list \<Rightarrow> (sworld, unit) prog" where
  "sor_execute tr element copyNb owner contId jobs =
     (let succeededJobs = smap_fill (map (\<lambda>(i, job). (copyNb (element job), i)) jobs) [];
          previousOwner = (if jobs = [] then '''' else owner (snd (last jobs)));
          jobsToAdd = map (\<lambda>(i, job). element job) jobs
      in bnd (in_world (referenceAndSwitchOwnership tr contId previousOwner jobsToAdd)) (\<lambda>outcome.
         bnd (case outcome of
                Requeued \<Rightarrow> ret succeededJobs
              | OwnershipSwitchFailure failedElements \<Rightarrow> foldM (sor_job_failed copyNb) succeededJobs failedElements) (\<lambda>succeededJobs.
         in_sorter (fold (\<lambda>(c, i). set_promise i Fulfilled) succeededJobs))))"

definition sor_archive_element :: "sorter_archive_job \<Rightarrow> archive_inserted" where
  "sor_archive_element job = \<lparr>ain_archiveRequest = sa_archiveRequest job, ain_copyNb = arjd_copyNb (sa_jobDump job),
     ain_archiveFile = sa_archiveFile job, ain_mountPolicy = Some (sa_mountPolicy job), ain_newStatus = None\<rparr>"

definition executeArchiveAlgorithm ::
  "(string, archive_queue, archive_inserted, archive_popped, 'crit, 'sum) container_traits \<Rightarrow> string
   \<Rightarrow> sorter_archive_job job_queue_info list \<Rightarrow> (sworld, unit) prog" where
  "executeArchiveAlgorithm tr tapePool jobs = sor_execute tr sor_archive_element ain_copyNb sa_previousOwner tapePool jobs"

definition dispatchArchiveAlgorithm ::
  "nat \<Rightarrow> time_t \<Rightarrow> string \<Rightarrow> JobQueueType \<Rightarrow> sorter_archive_job job_queue_info list \<Rightarrow> (sworld, unit) prog" where
  "dispatchArchiveAlgorithm fuel now tapePool jobQueueType jobs = (case jobQueueType of
     JobsToTransferForUser \<Rightarrow> executeArchiveAlgorithm (ArchiveQueueToTransferForUser fuel now) tapePool jobs
   | JobsToTransferForRepack \<Rightarrow> executeArchiveAlgorithm (ArchiveQueueToTransferForRepack fuel now) tapePool jobs
   | t \<Rightarrow> executeArchiveAlgorithm (ArchiveQueueToReport fuel now t) tapePool jobs)"

definition sor_retrieve_element :: "sorter_retrieve_job \<Rightarrow> retrieve_inserted" where
  "sor_retrieve_element job = \<lparr>rin_retrieveRequest = sr_retrieveRequest job, rin_copyNb = rr_JobDump.rjd_copyNb (sr_jobDump job),
     rin_fSeq = sr_fSeq job, rin_filesize = sr_fileSize job, rin_policy = sr_mountPolicy job, rin_activity = sr_activity job,
     rin_diskSystemName = sr_diskSystemName job\<rparr>"

definition executeRetrieveAlgorithm ::
  "(string, retrieve_queue, retrieve_inserted, retrieve_popped, 'crit, 'sum) container_traits \<Rightarrow> string
   \<Rightarrow> sorter_retrieve_job job_queue_info list \<Rightarrow> (sworld, unit) prog" where
  "executeRetrieveAlgorithm tr vid jobs = sor_execute tr sor_retrieve_element rin_copyNb sr_previousOwner vid jobs"

definition dispatchRetrieveAlgorithm ::
  "nat \<Rightarrow> time_t \<Rightarrow> u64 \<Rightarrow> string \<Rightarrow> JobQueueType \<Rightarrow> sorter_retrieve_job job_queue_info list \<Rightarrow> (sworld, unit) prog" where
  "dispatchRetrieveAlgorithm fuel now fSeq0 vid jobQueueType jobs = (case jobQueueType of
     JobsToTransferForUser \<Rightarrow> executeRetrieveAlgorithm (RetrieveQueueToTransfer fuel now fSeq0) vid jobs
   | JobsToTransferForRepack \<Rightarrow> throw (CtaException ''Sorter::dispatchRetrieveAlgorithm'')
   | t \<Rightarrow> executeRetrieveAlgorithm (RetrieveQueueOther fuel now fSeq0 t) vid jobs)"

section \<open>Flushing\<close>

text \<open>\<open>queueArchiveRequests\<close> and \<open>queueRetrieveRequests\<close> only dispatch. A list that could not be queued stays in the map.\<close>

definition flushOneArchive :: "nat \<Rightarrow> time_t \<Rightarrow> (sworld, bool) prog" where
  "flushOneArchive fuel now =
     bnd (asks (\<lambda>(g, so). find (\<lambda>(k, jobs). jobs \<noteq> []) (so_archive so))) (\<lambda>first. case first of
       None \<Rightarrow> ret False
     | Some ((tapePool, queueType), jobs) \<Rightarrow>
         bnd (dispatchArchiveAlgorithm fuel now tapePool queueType jobs) (\<lambda>_.
         bnd (in_sorter (\<lambda>so. so\<lparr>so_archive := smap_erase (tapePool, queueType) (so_archive so)\<rparr>)) (\<lambda>_.
         ret True)))"

definition flushOneRetrieve :: "nat \<Rightarrow> time_t \<Rightarrow> u64 \<Rightarrow> (sworld, bool) prog" where
  "flushOneRetrieve fuel now fSeq0 =
     bnd (asks (\<lambda>(g, so). find (\<lambda>(k, jobs). jobs \<noteq> []) (so_retrieve so))) (\<lambda>first. case first of
       None \<Rightarrow> ret False
     | Some ((vid, queueType), jobs) \<Rightarrow>
         bnd (dispatchRetrieveAlgorithm fuel now fSeq0 vid queueType jobs) (\<lambda>_.
         bnd (in_sorter (\<lambda>so. so\<lparr>so_retrieve := smap_erase (vid, queueType) (so_retrieve so)\<rparr>)) (\<lambda>_.
         ret True)))"

text \<open>\<open>while (step) {}\<close>, with fuel; the number of lists is enough, each step that goes on removes one.\<close>

fun flush_while :: "nat \<Rightarrow> (sworld, bool) prog \<Rightarrow> (sworld, unit) prog" where
  "flush_while n step = bnd step (\<lambda>more.
     if more then (case n of 0 \<Rightarrow> throw OutOfFuel | Suc n' \<Rightarrow> flush_while n' step) else ret ())"

declare flush_while.simps [simp del]

definition flushAll :: "nat \<Rightarrow> time_t \<Rightarrow> u64 \<Rightarrow> (sworld, unit) prog" where
  "flushAll fuel now fSeq0 =
     bnd (asks (\<lambda>(g, so). length (so_retrieve so))) (\<lambda>n.
     bnd (flush_while n (flushOneRetrieve fuel now fSeq0)) (\<lambda>_.
     bnd (asks (\<lambda>(g, so). length (so_archive so))) (\<lambda>m.
     flush_while m (flushOneArchive fuel now))))"

section \<open>Inserting archive requests\<close>

definition insertArchiveJob :: "sorter_archive_job \<Rightarrow> sorter \<Rightarrow> sorter" where
  "insertArchiveJob job so = so\<lparr>so_archive := smap_push (arjd_tapePool (sa_jobDump job), sa_jobQueueType job)
       (length (so_promises so), job) (so_archive so),
     so_promises := so_promises so @ [Pending]\<rparr>"

text \<open>A job whose queue cannot be told is left out, with a line in the log.\<close>

definition insertArchiveRequest :: "archive_request oo \<Rightarrow> string \<Rightarrow> sorter \<Rightarrow> exn + sorter" where
  "insertArchiveRequest archiveRequest previousOwner so =
     rbind (ar_dumpJobs archiveRequest) (\<lambda>jobs.
     foldR (\<lambda>so job.
       rbind (ar_getArchiveFile archiveRequest) (\<lambda>archiveFile.
       rbind (ar_getMountPolicy archiveRequest) (\<lambda>mountPolicy.
       case ar_getJobQueueType (arjd_copyNb job) archiveRequest of
         Inl e \<Rightarrow> if is_cta_exception e then Inr so else Inl e
       | Inr queueType \<Rightarrow>
           Inr (insertArchiveJob \<lparr>sa_archiveRequest = oo_name archiveRequest, sa_jobDump = job, sa_archiveFile = archiveFile,
                  sa_previousOwner = previousOwner, sa_mountPolicy = mountPolicy, sa_jobQueueType = queueType\<rparr> so)))) so jobs)"

text \<open>The overload for a request the caller has filled in.\<close>

definition insertSorterArchiveRequest :: "sorter_archive_job list \<Rightarrow> string \<Rightarrow> sorter \<Rightarrow> sorter" where
  "insertSorterArchiveRequest archiveJobs previousOwner so =
     fold (\<lambda>job. insertArchiveJob (job\<lparr>sa_previousOwner := previousOwner\<rparr>)) archiveJobs so"

section \<open>Inserting retrieve requests\<close>

text \<open>\<open>TapeFilesList::at\<close>, whose parameter is a byte.\<close>

definition tapeFiles_at :: "u32 \<Rightarrow> tape_file list \<Rightarrow> exn + tape_file" where
  "tapeFiles_at copyNb tapeFiles = (case find (\<lambda>tf. tf_copynb tf = ucast (ucast copyNb :: 8 word)) tapeFiles of
     None \<Rightarrow> Inl (CtaException ''ArchiveFile::TapeFilesList::at'') | Some tf \<Rightarrow> Inr tf)"

text \<open>\<open>RetrieveRequestInfosAccessorInterface\<close>: what the sorter asks a request, whether it is an object or a structure.\<close>

record retrieve_accessor =
  ra_getJobs :: "exn + rr_JobDump list"
  ra_getArchiveFile :: "exn + archive_file"
  ra_createRetrieveJob :: "archive_file \<Rightarrow> u32 \<Rightarrow> u64 \<Rightarrow> string \<Rightarrow> exn + sorter_retrieve_job"
  ra_getJobStatus :: "u32 \<Rightarrow> exn + RetrieveJobStatus"
  ra_getRepackAddress :: "exn + string"
  ra_getForceDisabledTape :: "exn + bool"

definition createRetrieveJob ::
  "retrieve_request oo \<Rightarrow> archive_file \<Rightarrow> u32 \<Rightarrow> u64 \<Rightarrow> string \<Rightarrow> exn + sorter_retrieve_job" where
  "createRetrieveJob retrieveRequest archiveFile copyNb fSeq previousOwner =
     rbind (rr_getRetrieveFileQueueCriteria retrieveRequest) (\<lambda>criteria.
     rbind (rr_getJobStatus copyNb retrieveRequest) (\<lambda>status.
     rbind (rr_getQueueType_copy copyNb retrieveRequest) (\<lambda>queueType.
     rbind (rr_getActivity retrieveRequest) (\<lambda>activity.
     rbind (rr_getDiskSystemName retrieveRequest) (\<lambda>diskSystemName.
     Inr \<lparr>sr_retrieveRequest = retrieveRequest, sr_jobDump = \<lparr>rjd_copyNb = copyNb, rjd_status = status\<rparr>,
          sr_previousOwner = previousOwner, sr_fileSize = af_filesize archiveFile, sr_fSeq = fSeq,
          sr_mountPolicy = rfqc_mountPolicy criteria, sr_jobQueueType = queueType, sr_activity = activity,
          sr_diskSystemName = diskSystemName\<rparr>)))))"

definition OStoreRetrieveRequestAccessor :: "u64 \<Rightarrow> retrieve_request oo \<Rightarrow> retrieve_accessor" where
  "OStoreRetrieveRequestAccessor fSeq0 rr =
     \<lparr>ra_getJobs = rr_dumpJobs rr, ra_getArchiveFile = Inr (rr_getArchiveFile rr), ra_createRetrieveJob = createRetrieveJob rr,
      ra_getJobStatus = (\<lambda>copyNb. rr_getJobStatus copyNb rr),
      ra_getRepackAddress = rbind (rr_getRepackInfo fSeq0 rr) (\<lambda>ri. Inr (rri_repackRequestAddress ri)),
      ra_getForceDisabledTape = rbind (rr_getRepackInfo fSeq0 rr) (\<lambda>ri. Inr (rri_forceDisabledTape ri))\<rparr>"

text \<open>The job of a structure keeps the previous owner its creator gave it.\<close>

definition SorterRetrieveRequestAccessor :: "sorter_retrieve_request \<Rightarrow> retrieve_accessor" where
  "SorterRetrieveRequestAccessor req =
     (let at = (\<lambda>copyNb. case smap_get copyNb (srq_retrieveJobs req) of None \<Rightarrow> Inl StdOutOfRange | Some j \<Rightarrow> Inr j)
      in \<lparr>ra_getJobs = Inr (map (\<lambda>(c, j). sr_jobDump j) (srq_retrieveJobs req)), ra_getArchiveFile = Inr (srq_archiveFile req),
          ra_createRetrieveJob = (\<lambda>archiveFile copyNb fSeq previousOwner. at copyNb),
          ra_getJobStatus = (\<lambda>copyNb. rbind (at copyNb) (\<lambda>j. Inr (rjd_status (sr_jobDump j)))),
          ra_getRepackAddress = Inr (srq_repackRequestAddress req), ra_getForceDisabledTape = Inr (srq_forceDisabledTape req)\<rparr>)"

definition getCandidateVidsToTransfer :: "retrieve_accessor \<Rightarrow> exn + string list" where
  "getCandidateVidsToTransfer acc =
     rbind (ra_getJobs acc) (\<lambda>jobs.
     rbind (foldR (\<lambda>vids j. if rjd_status j = RJS_ToTransfer
              then rbind (ra_getArchiveFile acc) (\<lambda>af. rbind (tapeFiles_at (rr_JobDump.rjd_copyNb j) (af_tapefiles af)) (\<lambda>tf.
                   Inr (tf_vid tf # vids)))
              else Inr vids) [] jobs) (\<lambda>vids.
     Inr (remdups (sort vids))))"

definition getBestVidForQueueingRetrieveRequest :: "selection_env \<Rightarrow> retrieve_accessor \<Rightarrow> string list \<Rightarrow> (gworld, string) prog" where
  "getBestVidForQueueingRetrieveRequest env acc candidateVids =
     bnd (liftr (ra_getForceDisabledTape acc)) (selectBestRetrieveQueue env candidateVids)"

definition getContainerID :: "retrieve_accessor \<Rightarrow> string \<Rightarrow> u32 \<Rightarrow> exn + string" where
  "getContainerID acc vid copyNb = rbind (ra_getJobStatus acc copyNb) (\<lambda>rjs.
     if rjs = RJS_ToReportToRepackForSuccess \<or> rjs = RJS_ToReportToRepackForFailure then ra_getRepackAddress acc else Inr vid)"

text \<open>\<open>catch (const cta::exception::Exception & ex) { throw ex; }\<close> throws a copy of the base class.\<close>

definition sliced :: "exn + 'a \<Rightarrow> exn + 'a" where
  "sliced r = (case r of
     Inl (CtaException m) \<Rightarrow> Inl (CtaException m)
   | Inl e \<Rightarrow> Inl (if is_cta_exception e then CtaException ''cta::exception::Exception'' else e)
   | Inr x \<Rightarrow> Inr x)"

definition insertRetrieveJob :: "string \<times> JobQueueType \<Rightarrow> sorter_retrieve_job \<Rightarrow> sorter \<Rightarrow> sorter" where
  "insertRetrieveJob k job so = so\<lparr>so_retrieve := smap_push k (length (so_promises so), job) (so_retrieve so),
     so_promises := so_promises so @ [Pending]\<rparr>"

definition insert_to_transfer :: "selection_env \<Rightarrow> retrieve_accessor \<Rightarrow> string \<Rightarrow> (sworld, unit) prog" where
  "insert_to_transfer env acc previousOwner =
     bnd (liftr (getCandidateVidsToTransfer acc)) (\<lambda>candidateVids.
     if candidateVids = [] then throw (CtaException ''Sorter::insertRetrieveRequest'')
     else bnd (in_gworld (getBestVidForQueueingRetrieveRequest env acc candidateVids)) (\<lambda>bestVid.
          bnd (liftr (ra_getArchiveFile acc)) (\<lambda>archiveFile.
          if \<forall>tf \<in> set (af_tapefiles archiveFile). tf_vid tf \<noteq> bestVid then throw RetrieveRequestHasNoCopies
          else let tf = last (filter (\<lambda>tf. tf_vid tf = bestVid) (af_tapefiles archiveFile))
               in bnd (liftr (sliced (ra_createRetrieveJob acc archiveFile (tf_copynb tf) (tf_fseq tf) previousOwner))) (\<lambda>job.
                  in_sorter (insertRetrieveJob (bestVid, JobsToTransferForUser) job)))))"

definition insert_copy :: "retrieve_accessor \<Rightarrow> string \<Rightarrow> u32 \<Rightarrow> (sworld, unit) prog" where
  "insert_copy acc previousOwner copyNb =
     bnd (liftr (ra_getArchiveFile acc)) (\<lambda>archiveFile.
     bnd (liftr (tapeFiles_at copyNb (af_tapefiles archiveFile))) (\<lambda>jobTapeFile.
     bnd (liftr (sliced (rbind (ra_createRetrieveJob acc archiveFile (tf_copynb jobTapeFile) (tf_fseq jobTapeFile) previousOwner) (\<lambda>job.
                         rbind (getContainerID acc (tf_vid jobTapeFile) copyNb) (\<lambda>containerId.
                         Inr (containerId, job)))))) (\<lambda>(containerId, job).
     in_sorter (insertRetrieveJob (containerId, sr_jobQueueType job) job))))"

definition insertRetrieveRequest ::
  "selection_env \<Rightarrow> retrieve_accessor \<Rightarrow> string \<Rightarrow> u32 option \<Rightarrow> (sworld, unit) prog" where
  "insertRetrieveRequest env acc previousOwner copyNb = (case copyNb of
     None \<Rightarrow> insert_to_transfer env acc previousOwner
   | Some n \<Rightarrow> insert_copy acc previousOwner n)"

end
