(* ===== verification/SorterProperties.thy ===== *)
theory SorterProperties
  imports Sorter AlgorithmProperties
begin

text \<open>
  Properties of the sorter of \<open>Sorter.cpp\<close>: what flushing the jobs gathered for an archive queue does to the queue, to the jobs and
  to the promises.
\<close>

section \<open>Promises\<close>


lemma in_sorter_apply [simp]: "in_sorter f (g, so) = (Inr (), (g, f so))"
  by (simp add: in_sorter_def)







section \<open>Flushing the jobs of an archive queue\<close>














end
