(* ===== verification/RepackQueueAlgorithms.thy ===== *)
theory RepackQueueAlgorithms
  imports RepackRequest
begin

text \<open>
  \<open>objectstore/RepackQueueAlgorithms.hpp\<close> and the files \<open>RepackQueue*Algorithms.cpp\<close>: the traits of the two
  repack queues, of which there is one each, so that the identifier of a container is trivial. A request object
  of the elements is given by its address. The loop of \<open>getLockedAndFetchedNoCreate\<close> has fuel.
\<close>

section \<open>Elements\<close>

record repack_inserted =
  rpin_repackRequest :: string
  rpin_newStatus :: "RepackRequestStatus option"

text \<open>The information on a popped request is what the change of its owner gives; before that it is undefined.\<close>

record repack_popped =
  rppo_repackRequest :: string
  rppo_repackInfo :: "rpr_OwnerUpdater option"

definition rpr_empty :: repack_request where
  "rpr_empty = \<lparr>rpr_vid = [], rpr_buffer_url = [], rpr_status = RRS_Pending, rpr_add_copies_mode = False, rpr_move_mode = False,
     rpr_totalfilestoretrieve = 0, rpr_totalbytestoretrieve = 0, rpr_totalfilestoarchive = 0, rpr_totalbytestoarchive = 0,
     rpr_userprovidedfiles = 0, rpr_userprovidedbytes = 0, rpr_retrievedfiles = 0, rpr_retrievedbytes = 0,
     rpr_archivedfiles = 0, rpr_archivedbytes = 0, rpr_failedtoretrievefiles = 0, rpr_failedtoretrievebytes = 0,
     rpr_failedtocreatearchivereq = 0, rpr_failedtoarchivefiles = 0, rpr_failedtoarchivebytes = 0,
     rpr_lastexpandedfseq = 0, rpr_is_expand_finished = False, rpr_is_expand_started = False,
     rpr_mount_policy = mount_policy_default, rpr_mountpolicyname = [], rpr_force_disabled_tape = False, rpr_is_complete = False,
     rpr_no_recall = False, rpr_subrequests = [], rpr_destination_infos = [], rpr_creation_log = entry_log_default,
     rpr_repack_finished_time = 0\<rparr>"

definition rpr_at :: "string \<Rightarrow> exn + repack_request oo" where
  "rpr_at a = setAddress a (oo_new rpr_empty)"

section \<open>The queue\<close>

definition rpt_getContainerSummary :: "repack_queue oo \<Rightarrow> exn + unit" where
  "rpt_getContainerSummary cont = rbind (rpq_getRequestsSummary cont) (\<lambda>_. Inr ())"

text \<open>The queue is not removed; the value ends the loop of the caller when the queue is empty.\<close>

definition rpt_trimContainerIfNeeded :: "unit \<Rightarrow> repack_queue oo \<Rightarrow> (world, bool) prog" where
  "rpt_trimContainerIfNeeded cId cont = liftr (rpq_isEmpty cont)"

definition rpt_getLockedAndFetched :: "RepackQueueType \<Rightarrow> unit \<Rightarrow> (world, repack_queue oo) prog" where
  "rpt_getLockedAndFetched queueType contId = getLockedAndFetchedRepackQueue queueType (oo_new rpq_empty)"

definition rpt_dereference_missing :: "RepackQueueType \<Rightarrow> root_entry oo \<Rightarrow> (world, unit) prog" where
  "rpt_dereference_missing queueType re =
     bnd (exclusive_lock re) (\<lambda>re.
     bnd (oo_fetch re_c re) (\<lambda>re.
     caught (\<lambda>e. if e = RepackQueueNotEmpty \<or> e = NoSuchRepackQueue then Some (ret ()) else None)
       (bnd (re_removeRepackQueueAndCommit queueType re) (\<lambda>_. ret ()))))"

text \<open>Unlike for the other queues, only the absence of the queue makes the loop go on.\<close>

fun rpt_lock_no_create :: "nat \<Rightarrow> RepackQueueType \<Rightarrow> repack_queue oo \<Rightarrow> (world, repack_queue oo) prog" where
  "rpt_lock_no_create fuel queueType cont =
     bnd (liftr re_at) (\<lambda>re.
     bnd (oo_fetchNoLock re_c re) (\<lambda>re.
     case re_getRepackQueueAddress queueType re of
       Inl e \<Rightarrow> throw (if e = NoSuchRepackQueue then NoSuchContainer else e)
     | Inr rpkQAddress \<Rightarrow>
         bnd (liftr (setAddress rpkQAddress cont)) (\<lambda>cont.
         bnd (catch_none NoSuchObject (bnd (exclusive_lock cont) (oo_fetch rpq_c))) (\<lambda>r. case r of
           Some cont1 \<Rightarrow> ret cont1
         | None \<Rightarrow>
             bnd (rpt_dereference_missing queueType re) (\<lambda>_.
             bnd (liftr (resetAddress cont)) (\<lambda>cont.
             case fuel of 0 \<Rightarrow> throw OutOfFuel
             | Suc fuel' \<Rightarrow> rpt_lock_no_create fuel' queueType cont))))))"

declare rpt_lock_no_create.simps [simp del]

definition rpt_getLockedAndFetchedNoCreate :: "nat \<Rightarrow> RepackQueueType \<Rightarrow> unit \<Rightarrow> (world, repack_queue oo) prog" where
  "rpt_getLockedAndFetchedNoCreate fuel queueType cId = rpt_lock_no_create fuel queueType (oo_new rpq_empty)"

section \<open>References and ownership\<close>

definition rpt_addReferencesAndCommit :: "repack_inserted list \<Rightarrow> repack_queue oo \<Rightarrow> (world, repack_queue oo) prog" where
  "rpt_addReferencesAndCommit elems cont = rpq_addRequestsAndCommit (map rpin_repackRequest elems) cont"

text \<open>The new status of an inserted element is not used.\<close>

definition rpt_switch_inserted :: "string \<Rightarrow> string \<Rightarrow> repack_inserted \<Rightarrow> (world, repack_inserted) prog" where
  "rpt_switch_inserted contAddress previousOwnerAddress e =
     bnd (liftr (rpr_at (rpin_repackRequest e))) (\<lambda>repr.
     bnd (rpr_asyncUpdateOwnerAndStatus contAddress previousOwnerAddress None repr) (\<lambda>_. ret e))"

definition rpt_switch_popped_and_status ::
  "RepackRequestStatus option \<Rightarrow> string \<Rightarrow> string \<Rightarrow> repack_popped \<Rightarrow> (world, repack_popped) prog" where
  "rpt_switch_popped_and_status newStatus contAddress previousOwnerAddress e =
     bnd (liftr (rpr_at (rppo_repackRequest e))) (\<lambda>rr.
     bnd (rpr_asyncUpdateOwnerAndStatus contAddress previousOwnerAddress newStatus rr) (\<lambda>u.
     ret (e\<lparr>rppo_repackInfo := u\<rparr>)))"

section \<open>Candidates\<close>

definition rpt_candidates :: "u64 \<Rightarrow> string set \<Rightarrow> repack_queue oo \<Rightarrow> (world, (repack_popped list \<times> u64) \<times> repack_queue oo) prog" where
  "rpt_candidates unfulfilledCriteria elemtsToSkip cont =
     bnd (liftr (rpq_getCandidateList unfulfilledCriteria elemtsToSkip cont)) (\<lambda>r.
     ret (fold (\<lambda>address (es, requests). (es @ [\<lparr>rppo_repackRequest = address, rppo_repackInfo = None\<rparr>], requests + 1))
            (rpqc_candidates r) ([], 0), cont))"

section \<open>The traits\<close>

text \<open>
  The template \<open>addReferencesIfNecessaryAndCommit\<close> names a member the elements do not have, so nothing calls it for
  a repack queue; \<open>addIfNecessary\<close> stands for it.
\<close>

definition RepackQueueTraits ::
  "nat \<Rightarrow> (repack_inserted list \<Rightarrow> repack_queue oo \<Rightarrow> (world, repack_queue oo) prog) \<Rightarrow> RepackQueueType
   \<Rightarrow> (unit, repack_queue, repack_inserted, repack_popped, u64, u64) container_traits" where
  "RepackQueueTraits fuel addIfNecessary queueType =
     \<lparr>ct_getContainerSummary = rpt_getContainerSummary,
      ct_trimContainerIfNeeded = rpt_trimContainerIfNeeded,
      ct_getLockedAndFetched = rpt_getLockedAndFetched queueType,
      ct_getLockedAndFetchedNoCreate = rpt_getLockedAndFetchedNoCreate fuel queueType,
      ct_fetch = oo_fetch rpq_c,
      ct_addReferencesAndCommit = rpt_addReferencesAndCommit,
      ct_addReferencesIfNecessaryAndCommit = addIfNecessary,
      ct_removeReferencesAndCommit = rpq_removeRequestsAndCommit,
      ct_switchElement = rpt_switch_inserted,
      ct_switchPopped = rpt_switch_popped_and_status None,
      ct_getElementAddress = rpin_repackRequest,
      ct_getPoppedAddress = rppo_repackRequest,
      ct_getElementSummary = (\<lambda>e. 1),
      ct_getPoppingElementsCandidates = rpt_candidates,
      ct_none = 0, ct_less = (<), ct_plus = (+), ct_minus = (-), ct_unfulfilled = (-)\<rparr>"

end
