(* ===== verification/RequestCollection.thy ===== *)
theory RequestCollection
  imports Sorter RepackRequest
begin

text \<open>
  Garbage collection of one object that belonged to a dead agent: \<open>ArchiveQueue::garbageCollect\<close>,
  \<open>ArchiveRequest::garbageCollect\<close>, \<open>RetrieveRequest::garbageCollect\<close>, and \<open>objectstore/GenericObject.cpp\<close>, which finds
  out the type of the object. A generic object is an image whose payload is not interpreted. The log lines and
  the pauses are left out; \<open>gc_env\<close> holds what the collection takes from outside.
\<close>

record gc_env =
  gce_selection :: selection_env
  gce_fuel :: nat
  gce_fSeq0 :: u64
  gce_failureLog :: string

abbreviation "gce_now env \<equiv> se_now (gce_selection env)"

section \<open>Archive queues\<close>

text \<open>
  Only the queues of files to transfer for users are looked through: a queue of another kind counts as not referenced.
\<close>

definition aq_garbageCollect :: "string \<Rightarrow> archive_queue oo \<Rightarrow> (world, archive_queue oo) prog" where
  "aq_garbageCollect presumedOwner ob =
     bnd (liftr (checkPayloadWritable ob)) (\<lambda>_.
     if presumedOwner \<noteq> oo_owner ob then ret ob
     else bnd (liftr re_at) (\<lambda>re.
          bnd (shared_lock re) (\<lambda>re.
          bnd (oo_fetch re_c re) (\<lambda>re.
          bnd (liftr (re_dumpArchiveQueues JobsToTransferForUser re)) (\<lambda>tpd.
          bnd (liftr (getAddressIfSet ob)) (\<lambda>address.
          if \<exists>tp \<in> set tpd. aqp_address tp = address
          then bnd (liftr (getAddressIfSet re)) (\<lambda>reAddress.
               bnd (liftr (setOwner reAddress ob)) (\<lambda>ob1.
               aq_commit ob1))
          else bnd (liftr (aq_isEmpty ob)) (\<lambda>empty. if \<not> empty then throw NotEmpty else oo_remove ob)))))))"

section \<open>Archive requests\<close>

definition ar_c_statusesImplyingQueueingByRepackRequestAddress :: "ArchiveJobStatus set" where
  "ar_c_statusesImplyingQueueingByRepackRequestAddress = {AJS_ToReportToRepackForSuccess, AJS_ToReportToRepackForFailure}"

definition ar_set_job :: "nat \<Rightarrow> (archive_job \<Rightarrow> archive_job) \<Rightarrow> archive_request oo \<Rightarrow> archive_request oo" where
  "ar_set_job i f ob = ob\<lparr>oo_payload := (oo_payload ob)\<lparr>ar_jobs := (ar_jobs (oo_payload ob))[i := f (ar_jobs (oo_payload ob) ! i)]\<rparr>\<rparr>"

definition ar_containerId :: "archive_job \<Rightarrow> archive_request \<Rightarrow> string" where
  "ar_containerId j p = (if aj_status j \<notin> ar_c_statusesImplyingQueueingByRepackRequestAddress then aj_tapepool j
     else arri_repack_request_address (ar_repack_info p))"

text \<open>The queue the job is put in, locked, with a reference to the job.\<close>

definition ar_requeue_job :: "archive_job \<Rightarrow> archive_request oo \<Rightarrow> (world, archive_queue oo) prog" where
  "ar_requeue_job j ob =
     bnd (liftr (ar_getQueueType (aj_status j))) (\<lambda>queueType.
     bnd (getLockedAndFetchedArchiveQueue (ar_containerId j (oo_payload ob)) queueType (oo_new aq_empty)) (\<lambda>aq.
     bnd (liftr (getAddressIfSet ob)) (\<lambda>address.
     bnd (liftr (ar_getArchiveFile ob)) (\<lambda>archiveFile.
     bnd (liftr (ar_getMountPolicy ob)) (\<lambda>mountPolicy.
     bnd (liftr (ar_getEntryLog ob)) (\<lambda>entryLog.
     bnd (aq_addJobsIfNecessaryAndCommit
            [\<lparr>jta_job = \<lparr>arjd_copyNb = aj_copynb j, arjd_tapePool = aj_tapepool j, arjd_owner = aj_owner j, arjd_status = aj_status j\<rparr>,
              jta_archiveRequestAddress = address, jta_archiveFileId = af_archivefileid archiveFile,
              jta_fileSize = af_filesize archiveFile, jta_policy = mountPolicy, jta_startTime = el_time entryLog\<rparr>] aq) (\<lambda>(summary, aq).
     ret aq)))))))"

text \<open>
  One job of the request. When it cannot be put in its queue it is made a failed one, also when the commit of the request,
  with the queue as the new owner of the job, did not work.
\<close>

definition ar_collect_job :: "string \<Rightarrow> archive_request oo \<Rightarrow> nat \<Rightarrow> (world, archive_request oo) prog" where
  "ar_collect_job presumedOwner ob i =
     (let j = ar_jobs (oo_payload ob) ! i;
          fail = (\<lambda>ob. let ob1 = ar_set_job i (\<lambda>j. j\<lparr>aj_status := AJS_Failed\<rparr>) ob in bnd (ar_commit ob1) (\<lambda>_. ret ob1))
      in if aj_status j \<in> ar_c_statusesImplyingQueueing \<and> aj_owner j = presumedOwner
         then bnd (attempt (ar_requeue_job j ob)) (\<lambda>r. case r of
                Inl e \<Rightarrow> if e = JobNotQueueable then ret ob else fail ob
              | Inr aq \<Rightarrow>
                  let ob1 = ar_set_job i (\<lambda>j. j\<lparr>aj_owner := oo_name aq\<rparr>) ob
                  in bnd (attempt (ar_commit ob1)) (\<lambda>r. case r of
                       Inl e \<Rightarrow> if e = JobNotQueueable then ret ob1 else fail ob1
                     | Inr _ \<Rightarrow> ret ob1))
         else ret ob)"

definition ar_garbageCollect :: "string \<Rightarrow> archive_request oo \<Rightarrow> (world, archive_request oo) prog" where
  "ar_garbageCollect presumedOwner ob =
     bnd (liftr (checkPayloadWritable ob)) (\<lambda>_.
     foldM (ar_collect_job presumedOwner) ob [0..<length (ar_jobs (oo_payload ob))])"

section \<open>Retrieve requests\<close>

text \<open>The tapes of the jobs to transfer, or the tape file of a job to report to a repack request, whichever comes first.\<close>

fun rr_gc_scan :: "tape_file list \<Rightarrow> string list \<Rightarrow> retrieve_job list \<Rightarrow> exn + (tape_file + string list)" where
  "rr_gc_scan tapefiles vids [] = Inr (Inr vids)"
| "rr_gc_scan tapefiles vids (j # js) =
     (let found = find (\<lambda>tf. tf_copynb tf = rj_copynb j) tapefiles in
      if rj_status j = RJS_ToTransfer
      then (case found of
              Some tf \<Rightarrow> rr_gc_scan tapefiles (tf_vid tf # vids) js
            | None \<Rightarrow> Inl (CtaException ''RetrieveRequest::garbageCollect''))
      else if rj_status j = RJS_ToReportToRepackForSuccess \<or> rj_status j = RJS_ToReportToRepackForFailure
      then (case found of Some tf \<Rightarrow> Inr (Inl tf) | None \<Rightarrow> rr_gc_scan tapefiles vids js)
      else rr_gc_scan tapefiles vids js)"

text \<open>A sorter of its own, used by \<open>m\<close>.\<close>

definition with_sorter :: "(sworld, 'a) prog \<Rightarrow> (gworld, 'a \<times> sorter) prog" where
  "with_sorter m = (\<lambda>g. case m (g, \<lparr>so_archive = [], so_retrieve = [], so_promises = []\<rparr>) of
     (Inl e, (g', so)) \<Rightarrow> (Inl e, g') | (Inr x, (g', so)) \<Rightarrow> (Inr (x, so), g'))"

text \<open>
  The report to a repack request goes through a sorter, after the lock on the request has been released. The call
  waits for the promises and throws what they hold; there is one, and a promise without outcome would be waited for
  for ever.
\<close>

definition rr_gc_report :: "gc_env \<Rightarrow> retrieve_request oo \<Rightarrow> tape_file \<Rightarrow> (gworld, unit) prog" where
  "rr_gc_report env ob tf =
     bnd (liftr (getOwner ob)) (\<lambda>owner.
     bnd (with_sorter
            (bnd (insertRetrieveRequest (gce_selection env) (OStoreRetrieveRequestAccessor (gce_fSeq0 env) ob) owner (Some (tf_copynb tf))) (\<lambda>_.
             bnd (in_world (liftr (rr_getRepackInfo (gce_fSeq0 env) ob))) (\<lambda>_.
             flushAll (gce_fuel env) (gce_now env) (gce_fSeq0 env))))) (\<lambda>(_, so).
     foldM (\<lambda>_ p. case p of Fulfilled \<Rightarrow> ret () | Failed e \<Rightarrow> throw e | Pending \<Rightarrow> throw OutOfFuel) () (so_promises so)))"

definition rr_gc_add ::
  "string \<Rightarrow> JobQueueType \<Rightarrow> retrieve_job_to_add \<Rightarrow> (gworld, retrieve_queue oo) prog" where
  "rr_gc_add vid queueType job =
     on_world (bnd (getLockedAndFetchedRetrieveQueue vid queueType (oo_new rq_empty)) (\<lambda>rq.
               bnd (rq_addJobsIfNecessaryAndCommit (rq_maxshardsize (oo_payload rq)) [job] rq) (\<lambda>(summary, rq).
               ret rq)))"

text \<open>No tape can be used: the jobs to transfer fail, and the request is queued for the tape of its active copy.\<close>

definition rr_fail_jobs :: "string \<Rightarrow> retrieve_request \<Rightarrow> retrieve_request" where
  "rr_fail_jobs failureLog p = p\<lparr>rr_jobs := map (\<lambda>j. if rj_status j = RJS_ToTransfer
     then j\<lparr>rj_status := RJS_ToReportToUserForFailure, rj_failurelogs := rj_failurelogs j @ [failureLog]\<rparr> else j) (rr_jobs p)\<rparr>"

definition rr_gc_queue_for_failure :: "gc_env \<Rightarrow> retrieve_request oo \<Rightarrow> (gworld, retrieve_request oo) prog" where
  "rr_gc_queue_for_failure env ob =
     (let ob = ob\<lparr>oo_payload := rr_fail_jobs (gce_failureLog env) (oo_payload ob)\<rparr>; p = oo_payload ob in
      case find (\<lambda>tf. tf_copynb tf = rr_activecopynb p) (af_tapefiles (rr_archivefile p)) of
        None \<Rightarrow> throw (CtaException ''RetrieveRequest::garbageCollect'')
      | Some tf \<Rightarrow>
          bnd (liftr (rr_getQueueType ob)) (\<lambda>queueType.
          bnd (liftr (getAddressIfSet ob)) (\<lambda>address.
          bnd (rr_gc_add (tf_vid tf) queueType
                 \<lparr>rja_copyNb = rr_activecopynb p, rja_fSeq = tf_fseq tf, rja_retrieveRequestAddress = address,
                  rja_fileSize = af_filesize (rr_archivefile p), rja_policy = mount_policy_default,
                  rja_startTime = el_time (srr_entrylog (rr_schedulerrequest p)), rja_activity = rr_activity p,
                  rja_diskSystemName = None\<rparr>) (\<lambda>rq.
          bnd (liftr (setOwner (oo_name rq) ob)) (\<lambda>ob.
          bnd (on_world (oo_commit retrieve_request_codec ob)) (\<lambda>_. ret ob))))))"

text \<open>A tape was selected: the request is queued for it, and the cache of the statistics is told.\<close>

definition rr_gc_queue_for_transfer :: "gc_env \<Rightarrow> retrieve_request oo \<Rightarrow> string \<Rightarrow> (gworld, retrieve_request oo) prog" where
  "rr_gc_queue_for_transfer env ob bestVid =
     (let p = oo_payload ob in
      case find (\<lambda>tf. tf_vid tf = bestVid) (af_tapefiles (rr_archivefile p)) of
        None \<Rightarrow> throw (CtaException ''RetrieveRequest::garbageCollect'')
      | Some bestTapeFile \<Rightarrow>
          (case find (\<lambda>j. rj_copynb j = tf_copynb bestTapeFile) (rr_jobs p) of
             None \<Rightarrow> throw (CtaException ''RetrieveRequest::garbageCollect'')
           | Some bestJob \<Rightarrow>
               bnd (liftr (getAddressIfSet ob)) (\<lambda>address.
               bnd (liftr (rr_getActivity ob)) (\<lambda>activity.
               bnd (liftr (rr_getDiskSystemName ob)) (\<lambda>diskSystemName.
               bnd (rr_gc_add bestVid JobsToTransferForUser
                      \<lparr>rja_copyNb = tf_copynb bestTapeFile, rja_fSeq = tf_fseq bestTapeFile, rja_retrieveRequestAddress = address,
                       rja_fileSize = af_filesize (rr_archivefile p), rja_policy = rr_mountpolicy p,
                       rja_startTime = el_time (srr_entrylog (rr_schedulerrequest p)), rja_activity = activity,
                       rja_diskSystemName = diskSystemName\<rparr>) (\<lambda>rq.
               bnd (liftr (rq_getJobsSummary rq)) (\<lambda>jobsSummary.
               bnd (liftr (setOwner (oo_name rq) (ob\<lparr>oo_payload := p\<lparr>rr_activecopynb := rj_copynb bestJob\<rparr>\<rparr>))) (\<lambda>ob.
               bnd (on_world (oo_commit retrieve_request_codec ob)) (\<lambda>_.
               bnd (on_cache (updateRetrieveQueueStatisticsCache (gce_now env) bestVid (rqjs_jobs jobsSummary)
                      (rqjs_bytes jobsSummary) (rqjs_priority jobsSummary))) (\<lambda>_.
               ret ob))))))))))"

text \<open>
  The value tells whether the lock of the request has been released. A presumed owner that is not the owner of the request is
  only written to the log.
\<close>

definition rr_garbageCollect :: "gc_env \<Rightarrow> string \<Rightarrow> retrieve_request oo \<Rightarrow> (gworld, bool) prog" where
  "rr_garbageCollect env presumedOwner ob =
     bnd (liftr (checkPayloadWritable ob)) (\<lambda>_.
     bnd (liftr (getOwner ob)) (\<lambda>owner.
     let p = oo_payload ob in
     bnd (liftr (rr_gc_scan (af_tapefiles (rr_archivefile p)) [] (rr_jobs p))) (\<lambda>scan. case scan of
       Inl tf \<Rightarrow> bnd (rr_gc_report env ob tf) (\<lambda>_. ret True)
     | Inr vids \<Rightarrow>
         let candidateVids = remdups (sort vids) in
         bnd (if candidateVids = [] then ret None
              else catch_none NoTapeAvailableForRetrieve
                     (selectBestRetrieveQueue (gce_selection env) candidateVids (rrri_force_disabled_tape (rr_repack_info p)))) (\<lambda>bestVid.
         bnd (case bestVid of None \<Rightarrow> rr_gc_queue_for_failure env ob | Some v \<Rightarrow> rr_gc_queue_for_transfer env ob v) (\<lambda>_.
         ret False)))))"

section \<open>Generic objects\<close>

definition go_c :: "payload codec" where
  "go_c = \<lparr>enc = (\<lambda>p. p), dec = Some\<rparr>"

text \<open>The payload a new image has is never read.\<close>

definition go_at :: "string \<Rightarrow> exn + payload oo" where
  "go_at name = setAddress name (oo_new (Payload_RepackQueue rpq_empty))"

definition go_commit :: "payload oo \<Rightarrow> (world, unit) prog" where
  "go_commit go =
     bnd (liftr (checkHeaderWritable go)) (\<lambda>_.
     bnd (liftr (getAddressIfSet go)) (\<lambda>a. vfs_atomicOverwrite a (oo_header go_c go)))"

definition go_insert :: "payload oo \<Rightarrow> exn + payload oo" where
  "go_insert go = Inl ForbiddenOperation"

definition go_initialize :: "payload oo \<Rightarrow> exn + payload oo" where
  "go_initialize go = Inl ForbiddenOperation"

text \<open>\<open>transplantHeader\<close> and then \<open>getPayloadFromHeader\<close>: the constructor of a typed object from a generic one.\<close>

definition transplantHeader :: "'p codec \<Rightarrow> payload oo \<Rightarrow> exn + 'p oo" where
  "transplantHeader c go = (case dec c (oo_payload go) of
     None \<Rightarrow> Inl WrongType
   | Some p \<Rightarrow> Inr ((oo_new p)\<lparr>oo_nameSet := oo_nameSet go, oo_name := oo_name go, oo_version := oo_version go,
       oo_owner := oo_owner go, oo_backupowner := oo_backupowner go, oo_headerInterpreted := oo_headerInterpreted go,
       oo_payloadInterpreted := True, oo_existingObject := oo_existingObject go, oo_noLock := oo_noLock go\<rparr>))"

text \<open>\<open>ScopedExclusiveLock::transfer\<close>, of the lock of the generic object.\<close>

definition lock_transfer :: "payload oo \<Rightarrow> 'p oo \<Rightarrow> 'p oo" where
  "lock_transfer go ob = ob\<lparr>oo_locksCount := oo_locksCount go, oo_locksForWriteCount := oo_locksForWriteCount go,
     oo_exclusiveLock := oo_exclusiveLock go, oo_lockForSubObject := oo_lockForSubObject go, oo_noLock := oo_noLock go\<rparr>"

text \<open>\<open>garbageCollectWithType\<close>. The release of the lock fails when the object has released it before.\<close>

definition garbageCollectWithType ::
  "'p codec \<Rightarrow> ('p oo \<Rightarrow> (gworld, bool) prog) \<Rightarrow> payload oo \<Rightarrow> (gworld, unit) prog" where
  "garbageCollectWithType c collect go =
     bnd (liftr (transplantHeader c go)) (\<lambda>typedObject.
     bnd (collect (lock_transfer go typedObject)) (\<lambda>released.
     if released then throw NotLocked else ret ()))"

abbreviation "collect_world m \<equiv> \<lambda>ob. bnd (on_world (m ob)) (\<lambda>_. ret False)"

definition garbageCollectDispatcher :: "gc_env \<Rightarrow> string \<Rightarrow> payload oo \<Rightarrow> (gworld, unit) prog" where
  "garbageCollectDispatcher env presumedOwner go =
     bnd (liftr (checkHeaderWritable go)) (\<lambda>_. case oo_payload go of
       Payload_AgentRegister _ \<Rightarrow> garbageCollectWithType agr_c (collect_world agr_garbageCollect) go
     | Payload_Agent _ \<Rightarrow> garbageCollectWithType ag_c (collect_world (ag_garbageCollect presumedOwner)) go
     | Payload_DriveRegister _ \<Rightarrow> garbageCollectWithType dr_c (collect_world (dr_garbageCollect presumedOwner)) go
     | Payload_SchedulerGlobalLock _ \<Rightarrow> garbageCollectWithType sgl_c (collect_world (sgl_garbageCollect presumedOwner)) go
     | Payload_ArchiveRequest _ \<Rightarrow> garbageCollectWithType archive_request_codec (collect_world (ar_garbageCollect presumedOwner)) go
     | Payload_RetrieveRequest _ \<Rightarrow> garbageCollectWithType retrieve_request_codec (rr_garbageCollect env presumedOwner) go
     | Payload_ArchiveQueue _ \<Rightarrow> garbageCollectWithType aq_c (collect_world (aq_garbageCollect presumedOwner)) go
     | Payload_RetrieveQueue _ \<Rightarrow> garbageCollectWithType rq_c (collect_world (\<lambda>ob. liftr (rq_garbageCollect ob))) go
     | Payload_RepackRequest _ \<Rightarrow> garbageCollectWithType rpr_c (collect_world rpr_garbageCollect) go
     | _ \<Rightarrow> throw UnsupportedType)"

end
