(* ===== verification/GarbageCollector.thy ===== *)
theory GarbageCollector
  imports RequestCollection
begin

text \<open>
  \<open>objectstore/GarbageCollector.cpp\<close> and \<open>AgentHeartbeatThread.cpp\<close>: a process watches the agents of the others, and when
  one is dead it takes it over and gives back what it owned: the requests in batches, one per queue, and every
  other object with the collection of its type. The collector keeps the address of the agent register, which it
  reads again before every use. The log is left out; \<open>clock\<close> is the time in microseconds.
\<close>

record collector =
  gcl_agentRegister :: string
  gcl_watchedAgents :: "(string, watchdog) std_map"

type_synonym cworld = "gworld \<times> collector"

definition from_gworld :: "(gworld, 'a) prog \<Rightarrow> (cworld, 'a) prog" where
  "from_gworld m = (\<lambda>(g, gc). case m g of (r, g') \<Rightarrow> (r, (g', gc)))"

definition from_world :: "(world, 'a) prog \<Rightarrow> (cworld, 'a) prog" where
  "from_world m = from_gworld (on_world m)"

definition watch :: "((string, watchdog) std_map \<Rightarrow> (string, watchdog) std_map) \<Rightarrow> (cworld, unit) prog" where
  "watch f = (\<lambda>(g, gc). (Inr (), (g, gc\<lparr>gcl_watchedAgents := f (gcl_watchedAgents gc)\<rparr>)))"

definition gc_new :: "(world, collector) prog" where
  "gc_new =
     bnd (liftr re_at) (\<lambda>re.
     bnd (shared_lock re) (\<lambda>re.
     bnd (oo_fetch re_c re) (\<lambda>re.
     bnd (liftr (re_getAgentRegisterAddress re)) (\<lambda>arAddress.
     bnd (liftr (agr_at arAddress)) (\<lambda>ar.
     bnd (shared_lock ar) (\<lambda>ar.
     bnd (oo_fetch agr_c ar) (\<lambda>ar.
     ret \<lparr>gcl_agentRegister = arAddress, gcl_watchedAgents = []\<rparr>)))))))"

definition fetch_register :: "(cworld, agent_register oo) prog" where
  "fetch_register =
     bnd (asks (\<lambda>(g, gc). gcl_agentRegister gc)) (\<lambda>address.
     bnd (liftr (agr_at address)) (\<lambda>ar.
     from_world (oo_fetchNoLock agr_c ar)))"

section \<open>The agents watched\<close>

definition trimGoneTargets :: "(cworld, unit) prog" where
  "trimGoneTargets =
     bnd fetch_register (\<lambda>ar.
     watch (filter (\<lambda>(a, wd). a \<in> set (agr_getAgents ar))))"

text \<open>A candidate that cannot be read is passed over when it is gone; the owner of a candidate makes no difference.\<close>

definition acquire_target :: "nat \<Rightarrow> string set \<Rightarrow> unit \<Rightarrow> string \<Rightarrow> (cworld, unit) prog" where
  "acquire_target clock alreadyTrackedAgents u c =
     bnd (from_world (asks getAgentAddress)) (\<lambda>ours.
     if c = ours \<or> c \<in> alreadyTrackedAgents then ret ()
     else bnd (liftr (ag_at c)) (\<lambda>ag.
          let unless_gone = (\<lambda>e. bnd (from_world (asks (vfs_exists c))) (\<lambda>there. if there then throw e else ret ())) in
          bnd (attempt (from_world (oo_fetchNoLock ag_c ag))) (\<lambda>r. case r of
            Inl e \<Rightarrow> if e = NoSuchObject then ret () else unless_gone e
          | Inr ag \<Rightarrow>
              bnd (liftr (getOwner ag)) (\<lambda>_.
              bnd (liftr (ag_getTimeout ag)) (\<lambda>timeout.
              bnd (attempt (from_world (wd_new c clock))) (\<lambda>r. case r of
                Inl e \<Rightarrow> bnd (unless_gone e) (\<lambda>_. watch (smap_erase c))
              | Inr wd \<Rightarrow> watch (smap_put c (wd_setTimeout (unat timeout) wd))))))))"

definition acquireTargets :: "nat \<Rightarrow> (cworld, unit) prog" where
  "acquireTargets clock =
     bnd fetch_register (\<lambda>ar.
     bnd (asks (\<lambda>(g, gc). fst ` set (gcl_watchedAgents gc))) (\<lambda>alreadyTrackedAgents.
     foldM (acquire_target clock alreadyTrackedAgents) () (agr_getUntrackedAgents ar)))"

section \<open>The objects of a dead agent\<close>

text \<open>
  \<open>OwnedObjectSorter\<close>. The keys are the identifier of the container, the type of the queue, and the tape pool or the tape of the
  job. A shared pointer to a request is the image of the request with a number, which says which pointers are the same.
\<close>

record owned_object_sorter =
  oos_archive :: "(string \<times> JobQueueType \<times> string, (nat \<times> archive_request oo) list) std_map"
  oos_retrieve :: "(string \<times> JobQueueType \<times> string, (nat \<times> retrieve_request oo) list) std_map"
  oos_otherObjects :: "payload oo list"

definition oos_empty :: owned_object_sorter where
  "oos_empty = \<lparr>oos_archive = [], oos_retrieve = [], oos_otherObjects = []\<rparr>"

definition oos_add_other :: "payload oo \<Rightarrow> owned_object_sorter \<Rightarrow> owned_object_sorter" where
  "oos_add_other go oos = oos\<lparr>oos_otherObjects := oos_otherObjects oos @ [go]\<rparr>"

text \<open>The objects that are gone leave the list of the agent; those that cannot be read stay in it.\<close>

definition fetch_owned :: "payload oo list \<times> agent oo \<times> bool \<Rightarrow> payload oo \<Rightarrow> (world, payload oo list \<times> agent oo \<times> bool) prog" where
  "fetch_owned = (\<lambda>(fetchedObjects, agent, ownershipUpdated) obj.
     bnd (attempt (asyncLockfreeFetch go_c obj)) (\<lambda>r. case r of
       Inl e \<Rightarrow>
         if e = NoSuchObject
         then bnd (liftr (ag_removeFromOwnership (oo_name obj) agent)) (\<lambda>agent. ret (fetchedObjects, agent, True))
         else ret (fetchedObjects, agent, ownershipUpdated)
     | Inr obj \<Rightarrow> ret (fetchedObjects @ [obj], agent, ownershipUpdated)))"

definition fetchOwnedObjects :: "agent oo \<Rightarrow> (world, payload oo list \<times> agent oo) prog" where
  "fetchOwnedObjects agent =
     bnd (liftr (ag_getOwnershipList agent)) (\<lambda>ownedObjectAddresses.
     bnd (liftr (mapR go_at ownedObjectAddresses)) (\<lambda>ownedObjects.
     bnd (foldM fetch_owned ([], agent, False) ownedObjects) (\<lambda>(fetchedObjects, agent, ownershipUpdated).
     bnd (if ownershipUpdated then oo_commit ag_c agent else ret ()) (\<lambda>_.
     ret (fetchedObjects, agent)))))"

text \<open>The archive request: one entry for each job of the agent that is to be queued again.\<close>

definition sort_archive_job ::
  "string \<Rightarrow> nat \<Rightarrow> archive_request oo \<Rightarrow> owned_object_sorter \<Rightarrow> archive_request_job_dump \<Rightarrow> exn + owned_object_sorter" where
  "sort_archive_job agentAddr n ar oos j =
     (if arjd_owner j = agentAddr \<and> arjd_status j \<in> ar_c_statusesImplyingQueueing
      then case rbind (if arjd_status j \<in> ar_c_statusesImplyingQueueingByRepackRequestAddress
                       then rbind (ar_getRepackInfo ar) (\<lambda>ri. Inr (ari_repackRequestAddress ri)) else Inr (arjd_tapePool j)) (\<lambda>containerIdentifier.
                rbind (ar_getJobQueueType (arjd_copyNb j) ar) (\<lambda>queueType.
                Inr (oos\<lparr>oos_archive := smap_push (containerIdentifier, queueType, arjd_tapePool j) (n, ar) (oos_archive oos)\<rparr>))) of
             Inl e \<Rightarrow> if e = JobNotQueueable then Inr oos else Inl e
           | Inr oos1 \<Rightarrow> Inr oos1
      else Inr oos)"

definition sort_archive_request :: "string \<Rightarrow> nat \<Rightarrow> payload oo \<Rightarrow> owned_object_sorter \<Rightarrow> exn + owned_object_sorter" where
  "sort_archive_request agentAddr n obj oos =
     rbind (transplantHeader archive_request_codec obj) (\<lambda>ar.
     rbind (ar_dumpJobs ar) (\<lambda>jobs.
     foldR (sort_archive_job agentAddr n ar) oos jobs))"

definition gc_candidate_vids :: "rr_JobDump list \<Rightarrow> tape_file list \<Rightarrow> string list" where
  "gc_candidate_vids jobs tapeFiles = remdups (sort (concat (map (\<lambda>j.
     if rjd_status j = RJS_ToTransfer then map tf_vid (filter (\<lambda>tf. tf_copynb tf = rr_JobDump.rjd_copyNb j) tapeFiles) else []) jobs)))"

text \<open>The request without a job to transfer goes to a queue of reports, found with the tape of the first file.\<close>

definition sort_report :: "u64 \<Rightarrow> nat \<Rightarrow> retrieve_request oo \<Rightarrow> owned_object_sorter \<Rightarrow> exn + owned_object_sorter" where
  "sort_report fSeq0 n rr oos =
     (case af_tapefiles (rr_getArchiveFile rr) of
        [] \<Rightarrow> Inl Segfault
      | tf # tfs \<Rightarrow>
          (case rbind (rr_getQueueType rr) (\<lambda>queueType.
                if queueType \<noteq> FailedJobs \<and> queueType \<noteq> JobsToReportToUser
                then rbind (rr_getRepackInfo fSeq0 rr) (\<lambda>ri. Inr (rri_repackRequestAddress ri, queueType, tf_vid tf))
                else Inr (tf_vid tf, queueType, tf_vid tf)) of
             Inr key \<Rightarrow> Inr (oos\<lparr>oos_retrieve := smap_push key (n, rr) (oos_retrieve oos)\<rparr>)
           | Inl e \<Rightarrow>
               if \<not> is_cta_exception e then Inl e
               else rbind (rbind (getAddressIfSet rr) go_at) (\<lambda>go. Inr (oos_add_other go oos))))"

definition sort_retrieve_request ::
  "gc_env \<Rightarrow> nat \<Rightarrow> payload oo \<Rightarrow> owned_object_sorter \<Rightarrow> (gworld, owned_object_sorter) prog" where
  "sort_retrieve_request env n obj oos =
     bnd (liftr (transplantHeader retrieve_request_codec obj)) (\<lambda>rr.
     bnd (liftr (rr_getRepackInfo (gce_fSeq0 env) rr)) (\<lambda>ri.
     bnd (liftr (rr_dumpJobs rr)) (\<lambda>jobs.
     let candidateVids = gc_candidate_vids jobs (af_tapefiles (rr_getArchiveFile rr)) in
     if candidateVids = [] then liftr (sort_report (gce_fSeq0 env) n rr oos)
     else bnd (catch_none NoTapeAvailableForRetrieve
                 (selectBestRetrieveQueue (gce_selection env) candidateVids (rri_forceDisabledTape ri))) (\<lambda>best. case best of
            None \<Rightarrow> liftr (rbind (rbind (getAddressIfSet rr) go_at) (\<lambda>go. Inr (oos_add_other go oos)))
          | Some vid \<Rightarrow> ret (oos\<lparr>oos_retrieve := smap_push (vid, JobsToTransferForUser, vid) (n, rr) (oos_retrieve oos)\<rparr>)))))"

text \<open>An object with another owner is dropped, but an archive request with a job of the agent.\<close>

definition owned_by_agent :: "string \<Rightarrow> payload oo \<Rightarrow> exn + bool" where
  "owned_by_agent agentAddr obj = rbind (getOwner obj) (\<lambda>owner.
     if owner = agentAddr then Inr True
     else case oo_payload obj of
            Payload_ArchiveRequest _ \<Rightarrow> rbind (transplantHeader archive_request_codec obj) (\<lambda>ar.
              rbind (ar_dumpJobs ar) (\<lambda>jobs. Inr (\<exists>j \<in> set jobs. arjd_owner j = agentAddr)))
          | _ \<Rightarrow> Inr False)"

definition sort_object ::
  "gc_env \<Rightarrow> owned_object_sorter \<times> agent oo \<times> bool \<Rightarrow> nat \<times> payload oo \<Rightarrow> (gworld, owned_object_sorter \<times> agent oo \<times> bool) prog" where
  "sort_object env = (\<lambda>(oos, agent, ownershipUpdated) (n, obj).
     bnd (liftr (getAddressIfSet agent)) (\<lambda>agentAddr.
     bnd (liftr (owned_by_agent agentAddr obj)) (\<lambda>owned.
     if \<not> owned
     then bnd (liftr (ag_removeFromOwnership (oo_name obj) agent)) (\<lambda>agent. ret (oos, agent, True))
     else bnd (case oo_payload obj of
                 Payload_ArchiveRequest _ \<Rightarrow> liftr (sort_archive_request agentAddr n obj oos)
               | Payload_RetrieveRequest _ \<Rightarrow> sort_retrieve_request env n obj oos
               | _ \<Rightarrow> ret (oos_add_other obj oos)) (\<lambda>oos.
          ret (oos, agent, ownershipUpdated)))))"

definition sortFetchedObjects ::
  "gc_env \<Rightarrow> agent oo \<Rightarrow> payload oo list \<Rightarrow> owned_object_sorter \<Rightarrow> (gworld, owned_object_sorter \<times> agent oo) prog" where
  "sortFetchedObjects env agent fetchedObjects oos =
     bnd (foldM (sort_object env) (oos, agent, False) (enumerate 0 fetchedObjects)) (\<lambda>(oos, agent, ownershipUpdated).
     bnd (if ownershipUpdated then on_world (oo_commit ag_c agent) else ret ()) (\<lambda>_.
     ret (oos, agent)))"

section \<open>Archive jobs\<close>

text \<open>Every job of the requests that has the tape pool, whatever its owner and its status.\<close>

definition gc_archive_jobs :: "string \<Rightarrow> (nat \<times> archive_request oo) list \<Rightarrow> exn + archive_inserted list" where
  "gc_archive_jobs tapepool jobs =
     foldR (\<lambda>jobsToAdd (n, ar).
       rbind (ar_dumpJobs ar) (\<lambda>dump.
       rbind (ar_getArchiveFile ar) (\<lambda>archiveFile.
       rbind (ar_getMountPolicy ar) (\<lambda>mountPolicy.
       Inr (jobsToAdd @ map (\<lambda>j. \<lparr>ain_archiveRequest = oo_name ar, ain_copyNb = arjd_copyNb j, ain_archiveFile = archiveFile,
              ain_mountPolicy = Some mountPolicy, ain_newStatus = None\<rparr>) (filter (\<lambda>j. arjd_tapePool j = tapepool) dump)))))) [] jobs"

text \<open>A failure that is neither the absence of the request nor another owner is left to the collection of the request alone.\<close>

definition gc_executeArchiveAlgorithm ::
  "(string, archive_queue, archive_inserted, archive_popped, 'crit, 'sum) container_traits \<Rightarrow> string \<Rightarrow> string \<Rightarrow> string
   \<Rightarrow> (nat \<times> archive_request oo) list \<Rightarrow> owned_object_sorter \<Rightarrow> (world, string set \<times> owned_object_sorter) prog" where
  "gc_executeArchiveAlgorithm tr agentAddr containerIdentifier tapepool jobs oos =
     bnd (liftr (gc_archive_jobs tapepool jobs)) (\<lambda>jobsToAdd.
     bnd (referenceAndSwitchOwnershipIfNecessary tr containerIdentifier agentAddr jobsToAdd) (\<lambda>(queueAddress, outcome). case outcome of
       Requeued \<Rightarrow> ret ({}, oos)
     | OwnershipSwitchFailure failed \<Rightarrow>
         let individually = map (ain_archiveRequest \<circ> fst) (filter (\<lambda>(e, x). \<not> switch_lost x) failed)
         in bnd (liftr (foldR (\<lambda>oos a. rbind (go_at a) (\<lambda>go. Inr (oos_add_other go oos))) oos individually)) (\<lambda>oos.
            ret (set individually, oos))))"

definition dispatchArchiveAlgorithms ::
  "gc_env \<Rightarrow> string \<Rightarrow> JobQueueType \<Rightarrow> string \<Rightarrow> string \<Rightarrow> (nat \<times> archive_request oo) list \<Rightarrow> owned_object_sorter
   \<Rightarrow> (world, string set \<times> owned_object_sorter) prog" where
  "dispatchArchiveAlgorithms env agentAddr jobQueueType containerIdentifier tapepool jobs oos = (case jobQueueType of
     JobsToTransferForUser \<Rightarrow>
       gc_executeArchiveAlgorithm (ArchiveQueueToTransferForUser (gce_fuel env) (gce_now env)) agentAddr containerIdentifier tapepool jobs oos
   | JobsToTransferForRepack \<Rightarrow>
       gc_executeArchiveAlgorithm (ArchiveQueueToTransferForRepack (gce_fuel env) (gce_now env)) agentAddr containerIdentifier tapepool jobs oos
   | t \<Rightarrow> gc_executeArchiveAlgorithm (ArchiveQueueToReport (gce_fuel env) (gce_now env) t) agentAddr containerIdentifier tapepool jobs oos)"

text \<open>
  \<open>use_count\<close> of the pointer number \<open>n\<close>: how often it is in the batch, in the rest of the list, and in the other lists.
\<close>

definition use_count :: "nat \<Rightarrow> (nat \<times> 'a) list list \<Rightarrow> nat" where
  "use_count n ps = length (filter (\<lambda>(m, x). m = n) (concat ps))"

text \<open>The requests of the batch that nothing else refers to leave the list of the agent.\<close>

definition gc_release_archive ::
  "agent oo \<Rightarrow> string set \<Rightarrow> (nat \<times> archive_request oo) list \<Rightarrow> (nat \<times> archive_request oo) list list \<Rightarrow> (world, agent oo) prog" where
  "gc_release_archive agent jobsIndividuallyGCed batch others =
     bnd (liftr (ag_getOwnershipSet agent)) (\<lambda>agentOwnership.
     let released = filter (\<lambda>(n, ar). use_count n (batch # others) = 1 \<and> oo_name ar \<notin> jobsIndividuallyGCed) batch
     in if released \<noteq> []
        then bnd (liftr (ag_resetOwnership (agentOwnership - (oo_name \<circ> snd) ` set released) agent)) (\<lambda>agent.
             bnd (oo_commit ag_c agent) (\<lambda>_. ret agent))
        else ret agent)"

text \<open>The inner loop, over the batches of one list. The test \<open><= 500\<close> lets a batch have 501 requests.\<close>

function gc_archive_batches ::
  "gc_env \<Rightarrow> string \<times> JobQueueType \<times> string \<Rightarrow> (nat \<times> archive_request oo) list list \<Rightarrow> (nat \<times> archive_request oo) list
   \<Rightarrow> agent oo \<times> owned_object_sorter \<Rightarrow> (world, agent oo \<times> owned_object_sorter) prog" where
  "gc_archive_batches env key others requestsList st =
     (if requestsList = [] then ret st
      else (case (key, st) of ((containerIdentifier, queueType, tapepool), (agent, oos)) \<Rightarrow>
        let batch = take 501 requestsList; rest = drop 501 requestsList in
        bnd (liftr (getAddressIfSet agent)) (\<lambda>agentAddr.
        bnd (dispatchArchiveAlgorithms env agentAddr queueType containerIdentifier tapepool batch oos) (\<lambda>(jobsIndividuallyGCed, oos).
        bnd (gc_release_archive agent jobsIndividuallyGCed batch (rest # others)) (\<lambda>agent.
        gc_archive_batches env key others rest (agent, oos))))))"
  by pat_completeness auto
termination
  by (relation "measure (\<lambda>(env, key, others, requestsList, st). length requestsList)") (auto simp: length_greater_0_conv [symmetric] simp del: length_greater_0_conv)

declare gc_archive_batches.simps [simp del]

text \<open>The outer loop; the lists that have been worked off are empty.\<close>

fun gc_archive_lists ::
  "gc_env \<Rightarrow> (string \<times> JobQueueType \<times> string, (nat \<times> archive_request oo) list) std_map
   \<Rightarrow> agent oo \<times> owned_object_sorter \<Rightarrow> (world, agent oo \<times> owned_object_sorter) prog" where
  "gc_archive_lists env [] st = ret st"
| "gc_archive_lists env ((key, requestsList) # m) st =
     bnd (gc_archive_batches env key (map snd m) requestsList st) (gc_archive_lists env m)"

definition lockFetchAndUpdateArchiveJobs ::
  "gc_env \<Rightarrow> agent oo \<Rightarrow> owned_object_sorter \<Rightarrow> (world, agent oo \<times> owned_object_sorter) prog" where
  "lockFetchAndUpdateArchiveJobs env agent oos = gc_archive_lists env (oos_archive oos) (agent, oos\<lparr>oos_archive := []\<rparr>)"

section \<open>Retrieve jobs\<close>

definition gc_retrieve_files :: "string \<Rightarrow> (nat \<times> retrieve_request oo) list \<Rightarrow> (retrieve_request oo \<times> tape_file) list" where
  "gc_retrieve_files vid batch =
     concat (map (\<lambda>(n, rr). map (\<lambda>tf. (rr, tf)) (filter (\<lambda>tf. tf_vid tf = vid) (af_tapefiles (rr_getArchiveFile rr)))) batch)"

definition gc_retrieve_job :: "retrieve_request oo \<times> tape_file \<Rightarrow> exn + retrieve_job_to_add" where
  "gc_retrieve_job = (\<lambda>(rr, tf).
     rbind (getAddressIfSet rr) (\<lambda>address.
     rbind (rr_getRetrieveFileQueueCriteria rr) (\<lambda>criteria.
     rbind (rr_getEntryLog rr) (\<lambda>entryLog.
     rbind (rr_getActivity rr) (\<lambda>activity.
     rbind (rr_getDiskSystemName rr) (\<lambda>diskSystemName.
     Inr \<lparr>rja_copyNb = tf_copynb tf, rja_fSeq = tf_fseq tf, rja_retrieveRequestAddress = address,
          rja_fileSize = af_filesize (rr_getArchiveFile rr), rja_policy = rfqc_mountPolicy criteria, rja_startTime = el_time entryLog,
          rja_activity = activity, rja_diskSystemName = diskSystemName\<rparr>))))))"

text \<open>The owners of the requests are changed only when the queue took a new reference.\<close>

definition gc_requeue_retrieve ::
  "gc_env \<Rightarrow> string \<Rightarrow> string \<times> JobQueueType \<times> string \<Rightarrow> (nat \<times> retrieve_request oo) list \<Rightarrow> owned_object_sorter
   \<Rightarrow> (world, string set \<times> owned_object_sorter) prog" where
  "gc_requeue_retrieve env agentAddr = (\<lambda>(containerIdentifier, queueType, vid) batch oos.
     bnd (getLockedAndFetchedRetrieveQueue containerIdentifier queueType (oo_new rq_empty)) (\<lambda>rq.
     bnd (liftr (rq_getJobsSummary rq)) (\<lambda>_.
     bnd (liftr (mapR gc_retrieve_job (gc_retrieve_files vid batch))) (\<lambda>jta.
     bnd (rq_addJobsIfNecessaryAndCommit (rq_maxshardsize (oo_payload rq)) jta rq) (\<lambda>(addedJobs, rq).
     if ras_files addedJobs = 0 then ret ({}, oos)
     else bnd (switchElementsOwnership (\<lambda>(rr, tf).
                 bnd (rr_asyncUpdateJobOwner (gce_now env) (gce_fSeq0 env) (tf_copynb tf) (oo_name rq) agentAddr rr) (\<lambda>_. ret (rr, tf)))
               (gc_retrieve_files vid batch)) (\<lambda>(_, failed).
          let requestsToDequeue = map (\<lambda>((rr, tf), x). oo_name rr) failed;
              individually = map (\<lambda>((rr, tf), x). oo_name rr) (filter (\<lambda>(e, x). \<not> switch_lost x) failed)
          in bnd (liftr (foldR (\<lambda>oos a. rbind (go_at a) (\<lambda>go. Inr (oos_add_other go oos))) oos individually)) (\<lambda>oos.
             bnd (if requestsToDequeue \<noteq> [] then rq_removeJobsAndCommit requestsToDequeue rq else ret rq) (\<lambda>rq.
             bnd (liftr (rq_getJobsSummary rq)) (\<lambda>_.
             ret (set individually, oos))))))))))"

definition gc_release_retrieve ::
  "agent oo \<Rightarrow> string set \<Rightarrow> (nat \<times> retrieve_request oo) list \<Rightarrow> (nat \<times> retrieve_request oo) list list \<Rightarrow> (world, agent oo) prog" where
  "gc_release_retrieve agent jobsIndividuallyGCed batch others =
     (let released = filter (\<lambda>(n, rr). use_count n (batch # others) = 1 \<and> oo_name rr \<notin> jobsIndividuallyGCed) batch
      in bnd (liftr (foldR (\<lambda>agent (n, rr). ag_removeFromOwnership (oo_name rr) agent) agent released)) (\<lambda>agent.
         bnd (if released \<noteq> [] then oo_commit ag_c agent else ret ()) (\<lambda>_. ret agent)))"

function gc_retrieve_batches ::
  "gc_env \<Rightarrow> string \<times> JobQueueType \<times> string \<Rightarrow> (nat \<times> retrieve_request oo) list list \<Rightarrow> (nat \<times> retrieve_request oo) list
   \<Rightarrow> agent oo \<times> owned_object_sorter \<Rightarrow> (world, agent oo \<times> owned_object_sorter) prog" where
  "gc_retrieve_batches env key others requestsList st =
     (if requestsList = [] then ret st
      else (case st of (agent, oos) \<Rightarrow>
        let batch = take 501 requestsList; rest = drop 501 requestsList in
        bnd (liftr (getAddressIfSet agent)) (\<lambda>agentAddr.
        bnd (gc_requeue_retrieve env agentAddr key batch oos) (\<lambda>(jobsIndividuallyGCed, oos).
        bnd (gc_release_retrieve agent jobsIndividuallyGCed batch (rest # others)) (\<lambda>agent.
        gc_retrieve_batches env key others rest (agent, oos))))))"
  by pat_completeness auto
termination
  by (relation "measure (\<lambda>(env, key, others, requestsList, st). length requestsList)") (auto simp: length_greater_0_conv [symmetric] simp del: length_greater_0_conv)

declare gc_retrieve_batches.simps [simp del]

fun gc_retrieve_lists ::
  "gc_env \<Rightarrow> (string \<times> JobQueueType \<times> string, (nat \<times> retrieve_request oo) list) std_map
   \<Rightarrow> agent oo \<times> owned_object_sorter \<Rightarrow> (world, agent oo \<times> owned_object_sorter) prog" where
  "gc_retrieve_lists env [] st = ret st"
| "gc_retrieve_lists env ((key, requestsList) # m) st =
     bnd (gc_retrieve_batches env key (map snd m) requestsList st) (gc_retrieve_lists env m)"

definition lockFetchAndUpdateRetrieveJobs ::
  "gc_env \<Rightarrow> agent oo \<Rightarrow> owned_object_sorter \<Rightarrow> (world, agent oo \<times> owned_object_sorter) prog" where
  "lockFetchAndUpdateRetrieveJobs env agent oos = gc_retrieve_lists env (oos_retrieve oos) (agent, oos\<lparr>oos_retrieve := []\<rparr>)"

section \<open>Other objects\<close>

definition gc_other_object :: "gc_env \<Rightarrow> agent oo \<Rightarrow> payload oo \<Rightarrow> (gworld, agent oo) prog" where
  "gc_other_object env agent go =
     bnd (liftr (getAddressIfSet agent)) (\<lambda>agentAddr.
     bnd (on_world (oo_exists go)) (\<lambda>there.
     bnd (if there
          then bnd (on_world (bnd (exclusive_lock go) (oo_fetch go_c))) (garbageCollectDispatcher env agentAddr)
          else ret ()) (\<lambda>_.
     bnd (liftr (ag_removeFromOwnership (oo_name go) agent)) (\<lambda>agent.
     bnd (on_world (oo_commit ag_c agent)) (\<lambda>_.
     ret agent)))))"

definition lockFetchAndUpdateOtherObjects :: "gc_env \<Rightarrow> agent oo \<Rightarrow> owned_object_sorter \<Rightarrow> (gworld, unit) prog" where
  "lockFetchAndUpdateOtherObjects env agent oos =
     bnd (foldM (gc_other_object env) agent (oos_otherObjects oos)) (\<lambda>agent.
     bnd (liftr (getAddressIfSet agent)) (\<lambda>agentAddr.
     bnd (on_world (ag_removeAndUnregisterSelf agent)) (\<lambda>_.
     on_world (ref_removeFromOwnership agentAddr))))"

section \<open>Dead agents\<close>

text \<open>The agent is taken over: it is on our list and belongs to us, and it is tracked in the register.\<close>

definition take_over_agent :: "string \<Rightarrow> string \<Rightarrow> agent oo \<Rightarrow> (world, agent oo) prog" where
  "take_over_agent registerAddress address agent =
     bnd (ref_addToOwnership address) (\<lambda>_.
     bnd (asks getAgentAddress) (\<lambda>ours.
     bnd (liftr (setOwner ours agent)) (\<lambda>agent.
     bnd (liftr (ag_setBeingGarbageCollected agent)) (\<lambda>agent.
     bnd (oo_commit ag_c agent) (\<lambda>_.
     bnd (liftr (agr_at registerAddress)) (\<lambda>ar.
     bnd (exclusive_lock ar) (\<lambda>ar.
     bnd (oo_fetch agr_c ar) (\<lambda>ar.
     bnd (liftr (agr_trackAgent address ar)) (\<lambda>ar.
     bnd (oo_commit agr_c ar) (\<lambda>_.
     ret agent))))))))))"

definition cleanupDeadAgent :: "gc_env \<Rightarrow> string \<Rightarrow> string \<Rightarrow> (gworld, unit) prog" where
  "cleanupDeadAgent env registerAddress address =
     bnd (liftr (ag_at address)) (\<lambda>agent.
     bnd (catch_none NoSuchObject (on_world (exclusive_lock agent))) (\<lambda>locked. case locked of
       None \<Rightarrow> ret ()
     | Some agent \<Rightarrow>
         bnd (on_world (oo_fetch ag_c agent)) (\<lambda>agent.
         bnd (liftr (getOwner agent)) (\<lambda>owner.
         if owner \<noteq> registerAddress then ret ()
         else bnd (on_world (take_over_agent registerAddress address agent)) (\<lambda>agent.
              bnd (on_world (fetchOwnedObjects agent)) (\<lambda>(fetchedObjects, agent).
              bnd (sortFetchedObjects env agent fetchedObjects oos_empty) (\<lambda>(oos, agent).
              bnd (on_world (lockFetchAndUpdateArchiveJobs env agent oos)) (\<lambda>(agent, oos).
              bnd (on_world (lockFetchAndUpdateRetrieveJobs env agent oos)) (\<lambda>(agent, oos).
              lockFetchAndUpdateOtherObjects env agent oos)))))))))"

text \<open>The check of one agent watched. After an exception the agent stays watched when it is gone; otherwise the pass ends.\<close>

definition check_heartbeat :: "gc_env \<Rightarrow> nat \<Rightarrow> unit \<Rightarrow> string \<times> watchdog \<Rightarrow> (cworld, unit) prog" where
  "check_heartbeat env clock u = (\<lambda>(address, wd).
     caught (\<lambda>e. if is_cta_exception e
                 then Some (bnd (from_world (wd_checkExists wd)) (\<lambda>there. if there then throw e else ret ())) else None)
       (bnd (from_world (wd_checkAlive clock wd)) (\<lambda>(alive, wd).
        bnd (watch (smap_put address wd)) (\<lambda>_.
        if alive then ret ()
        else bnd (from_world (wd_readGCData address)) (\<lambda>_.
             bnd (asks (\<lambda>(g, gc). gcl_agentRegister gc)) (\<lambda>registerAddress.
             bnd (from_gworld (cleanupDeadAgent env registerAddress address)) (\<lambda>_.
             watch (smap_erase address))))))))"

definition checkHeartbeats :: "gc_env \<Rightarrow> nat \<Rightarrow> (cworld, unit) prog" where
  "checkHeartbeats env clock =
     bnd (asks (\<lambda>(g, gc). gcl_watchedAgents gc)) (foldM (check_heartbeat env clock) ())"

definition runOnePass :: "gc_env \<Rightarrow> nat \<Rightarrow> (cworld, unit) prog" where
  "runOnePass env clock =
     bnd trimGoneTargets (\<lambda>_.
     bnd (acquireTargets clock) (\<lambda>_.
     checkHeartbeats env clock))"

section \<open>The heartbeat\<close>

text \<open>
  \<open>AgentHeartbeatThread::run\<close>, for a sequence of turns: each has the time the update took, in seconds. The process ends
  itself when an update fails or takes longer than the deadline.
\<close>

fun heartbeat_run :: "nat \<Rightarrow> nat list \<Rightarrow> (world, unit) prog" where
  "heartbeat_run heartbeatDeadline [] = ret ()"
| "heartbeat_run heartbeatDeadline (updateTime # turns) =
     bnd (attempt ref_bumpHeatbeat) (\<lambda>r. case r of
       Inl e \<Rightarrow> throw Segfault
     | Inr _ \<Rightarrow> if updateTime > heartbeatDeadline then throw Segfault else heartbeat_run heartbeatDeadline turns)"

end
