(* ===== verification/CollectorProperties.thy ===== *)
theory CollectorProperties
  imports GarbageCollector AlgorithmProperties
begin

text \<open>
  Properties of the garbage collector: the batches of archive jobs it puts back in their queues, and the agents it
  watches.
\<close>

section \<open>References added where they are missing\<close>

text \<open>The contract of \<open>addReferencesIfNecessaryAndCommit\<close>, and what the collector's variant of the requeueing makes of it.\<close>

locale collecting_container = container tr rep key own reach
  for tr :: "('id, 'p, 'el, 'pop, 'crit, 'sum) container_traits" and rep key own reach +
  assumes add_if_necessary: "rep cid w cont refs \<Longrightarrow> length refs + length es < 2 ^ 64 \<Longrightarrow> fresh_ids w (length es) \<Longrightarrow>
      \<exists>cont' w'. ct_addReferencesIfNecessaryAndCommit tr es cont w = (Inr cont', w')
        \<and> rep cid w' cont' (refs @ map key (filter (\<lambda>e. fst (key e) \<notin> fst ` set refs) es)) \<and> oo_name cont' = oo_name cont \<and> keeps_items w w'"
begin

lemma requeued_if_necessary:
  assumes "reach cid w refs" and refs: "distinct (map fst refs)" and es: "distinct (map addr es)"
    and room: "length refs + length es < 2 ^ 64" "fresh_ids w (Suc (length es))" "Suc (length es) \<le> 2 ^ 64"
  shows "\<exists>ca failed w' cont. referenceAndSwitchOwnershipIfNecessary tr cid prev es w
      = (Inr (ca, if failed = [] then Requeued else OwnershipSwitchFailure failed), w')
    \<and> map fst failed = filter (\<lambda>e. own w (key e) \<notin> {Some ca, Some prev}) es
    \<and> rep cid w' cont (filter (\<lambda>r. fst r \<notin> addr ` set (map fst failed)) (refs @ map key (filter (\<lambda>e. addr e \<notin> fst ` set refs) es)))
    \<and> oo_name cont = ca
    \<and> (\<forall>e \<in> set es. own w' (key e) = (if own w (key e) \<in> {Some ca, Some prev} then Some ca else own w (key e)))
    \<and> (\<forall>r. fst r \<notin> addr ` set es \<longrightarrow> own w' r = own w r) \<and> keeps is_agent w w'"
proof -
  obtain cont w0 where 0: "ct_getLockedAndFetched tr cid w = (Inr cont, w0)" "rep cid w0 cont refs" "keeps_items w w0" "fresh_ids w0 (length es)"
    using obtain_container [OF assms(1) room(2,3)] by (elim exE conjE)
  define ca where "ca = oo_name cont"
  define added where "added = refs @ map key (filter (\<lambda>e. addr e \<notin> fst ` set refs) es)"
  obtain cont1 w1 where 1: "ct_addReferencesIfNecessaryAndCommit tr es cont w0 = (Inr cont1, w1)" "rep cid w1 cont1 added"
    "oo_name cont1 = ca" "keeps_items w0 w1" using add_if_necessary [OF 0(2) room(1) 0(4)] by (auto simp: ca_def added_def)
  have own1: "own w1 r = own w r" for r using own_kept keeps_items_parts(1) 0(3) 1(4) by metis
  obtain dn failed w2 where 2: "switchElementsOwnership (ct_switchElement tr ca prev) es w1 = (Inr (dn, failed), w2)"
    "switched w1 ca prev es w2" "map fst failed = filter (\<lambda>e. \<not> switchable w1 ca prev e) es"
    using switch_all [OF es, of ca prev w1] by (elim exE conjE)
  have k2: "keeps_containers w1 w2" "keeps is_agent w1 w2" using switched_keeps [OF 2(2)] by blast+
  have rep2: "rep cid w2 cont1 added" by (rule rep_kept [OF 1(2) k2(1)])
  have dist: "distinct (map fst added)"
    using refs distinct_map_filter [OF es, of "\<lambda>e. addr e \<notin> fst ` set refs"]
    by (auto simp: added_def comp_def simp del: distinct_map_filter) (metis fst_conv imageI)
  have addrs: "map (\<lambda>(e, x). addr e) failed = map addr (map fst failed)" by (simp add: case_prod_beta comp_def)
  have "\<exists>cont3 w3. (if failed \<noteq> [] then ct_removeReferencesAndCommit tr (map (\<lambda>(e, x). addr e) failed) cont1 else ret cont1) w2 = (Inr cont3, w3)
      \<and> rep cid w3 cont3 (filter (\<lambda>r. fst r \<notin> addr ` set (map fst failed)) added) \<and> oo_name cont3 = ca \<and> keeps_items w2 w3"
  proof (cases "failed = []")
    case True
    with rep2 1(3) show ?thesis by (intro exI [of _ cont1] exI [of _ w2]) (simp add: keeps_refl)
  next
    case False
    from remove_references [OF rep2 dist, of "map addr (map fst failed)"] 1(3) False show ?thesis unfolding addrs by (auto simp: image_image)
  qed
  then obtain cont3 w3 where 3: "(if failed \<noteq> [] then ct_removeReferencesAndCommit tr (map (\<lambda>(e, x). addr e) failed) cont1 else ret cont1) w2 = (Inr cont3, w3)"
    "rep cid w3 cont3 (filter (\<lambda>r. fst r \<notin> addr ` set (map fst failed)) added)" "oo_name cont3 = ca" "keeps_items w2 w3" by blast
  have "getAddressIfSet cont = Inr ca" using rep_address [OF 0(2)] by (simp add: ca_def)
  then have run: "referenceAndSwitchOwnershipIfNecessary tr cid prev es w
      = (Inr (ca, if failed = [] then Requeued else OwnershipSwitchFailure failed), w3)"
    using 0(1) rep_summary [OF 0(2)] 1(1) 2(1) 3(1) rep_summary [OF 3(2)]
    by (simp add: referenceAndSwitchOwnershipIfNecessary_def key_address del: bnd_liftr) (auto split: if_splits)
  have own3: "own w3 r = own w2 r" for r using own_kept keeps_items_parts(1) [OF 3(4)] by blast
  have "\<forall>e \<in> set es. own w3 (key e) = (if own w (key e) \<in> {Some ca, Some prev} then Some ca else own w (key e))"
    "\<forall>r. fst r \<notin> addr ` set es \<longrightarrow> own w3 r = own w r" using 2(2) by (simp_all add: switched_def switchable_def own1 own3)
  moreover have "map fst failed = filter (\<lambda>e. own w (key e) \<notin> {Some ca, Some prev}) es"
    using 2(3) by (simp add: switchable_def own1)
  moreover have "keeps is_agent w w3" using keeps_trans keeps_items_parts(2) 0(3) 1(4) 3(4) k2(2) by blast
  ultimately show ?thesis using run 3(2,3) unfolding added_def
    by (intro exI [of _ ca] exI [of _ failed] exI [of _ w3] exI [of _ cont3] conjI)
qed

end

lemma aq_references_added_if_necessary:
  assumes r: "aq_references qt tp w cont refs" and bound: "length refs + length es < 2 ^ 64" and fresh: "fresh_ids w (length es)"
  shows "\<exists>cont' w'. aqt_addReferencesIfNecessaryAndCommit now es cont w = (Inr cont', w')
    \<and> aq_references qt tp w' cont' (refs @ map (\<lambda>e. inserted_key e) (filter (\<lambda>e. fst (inserted_key e) \<notin> fst ` set refs) es))
    \<and> oo_name cont' = oo_name cont \<and> keeps_items w w'"
proof -
  obtain v where v: "aq_held qt tp w cont v" "refs = map (\<lambda>j. pointer_key j) (view_jobs v)" using r by (auto simp: aq_references_def)
  have inv: "aq_inv w cont v" "held cont" using v(1) by (simp_all add: aq_held_def aq_inv_def queue_ready_def)
  define job where "job = aqt_job_to_add now (aq_tapepool (oo_payload cont)) (oo_name cont)"
  define new where "new = filter (\<lambda>jta. jta_archiveRequestAddress jta \<notin> ajp_address ` set (view_jobs v)) (map job es)"
  have len: "length new \<le> length es" unfolding new_def by (metis length_filter_le length_map)
  have "length (view_jobs v) + length new < 2 ^ 64" "fresh_ids w (length new)"
    using bound len fresh_ids_mono [OF fresh len] v(2) by simp_all
  from aq_addJobsIfNecessary_rep [OF inv(1) new_def this] obtain cont' w' v' where
    a: "aq_addJobsIfNecessaryAndCommit (map job es) cont w
        = (Inr (\<lparr>as_files = of_nat (length new), as_bytes = \<Sum>j\<leftarrow>new. jta_fileSize j\<rparr>, cont'), w')"
      "aq_added w cont v (map aqs_job_pointer new) w' cont' v'"
      "if new = [] then w' = w \<and> cont' = cont else objects w' (oo_name cont) = Some (oo_header aq_c cont')" by blast
  have run: "aqt_addReferencesIfNecessaryAndCommit now es cont w = (Inr cont', w')"
    using a(1) inv(2) by (simp add: aqt_addReferencesIfNecessaryAndCommit_def aqt_jobs_to_add_held job_def)
  have obj': "objects w' (oo_name cont) = Some (oo_header aq_c cont')"
    using a(3) v(1) by (auto simp: aq_held_def split: if_splits)
  have added: "aq_inv w' cont' v'" "oo_name cont' = oo_name cont" "view_jobs v' = view_jobs v @ map aqs_job_pointer new"
    "same_except (insert (oo_name cont) (fst ` set v')) w w'" "\<forall>a \<in> fst ` set v' - fst ` set v. objects w a = None"
    using a(2) by (simp_all add: aq_added_def)
  have "a \<in> insert (oo_name cont) (fst ` set v) \<or> objects w a = None" if "a \<in> insert (oo_name cont) (fst ` set v')" for a
    using that added(5) by (cases "a \<in> fst ` set v") (simp_all add: disj_commute, metis DiffI)
  note ch = aq_change_keeps [OF v(1) added(1,2) obj' added(4) this disjI1]
  have held': "aq_held qt tp w' cont' v'" "keeps_items w w'" by (rule ch, assumption+)+
  have "fst ` set refs = ajp_address ` set (view_jobs v)" by (force simp: v(2))
  then have "map (\<lambda>j. pointer_key j) (view_jobs v') = refs @ map (\<lambda>e. inserted_key e) (filter (\<lambda>e. fst (inserted_key e) \<notin> fst ` set refs) es)"
    by (simp add: added(3) v(2) new_def job_def filter_map comp_def aqs_job_pointer_def aqt_job_to_add_def)
  with held' show ?thesis using run added(2) unfolding aq_references_def
    by (intro exI [of _ cont'] exI [of _ w'] conjI exI [of _ v']) simp_all
qed

lemma aqt_base_if_necessary [simp]:
  "ct_addReferencesIfNecessaryAndCommit (aqt_base fuel now qt su ca no le pl mi) = aqt_addReferencesIfNecessaryAndCommit now"
  by (simp add: aqt_base_def)

interpretation aqc: collecting_container "aqt_base fuel now qt su ca no le pl mi" "aq_references qt" inserted_key archive_job_owner "aq_reach qt"
  for fuel now qt su ca no le pl mi
  by unfold_locales (unfold aqt_base_if_necessary, rule aq_references_added_if_necessary)

section \<open>A batch of archive jobs\<close>

text \<open>The image of an archive request the collector has read, and the elements it makes of a batch of them.\<close>

definition gc_image :: "archive_request oo \<Rightarrow> bool" where
  "gc_image ar \<longleftrightarrow> checkPayloadReadable ar = Inr () \<and> oo_name ar \<noteq> '''' \<and> ar_tapepools_unique (oo_payload ar)"

definition gc_elements :: "string \<Rightarrow> (nat \<times> archive_request oo) list \<Rightarrow> archive_inserted list" where
  "gc_elements tapepool batch = concat (map (\<lambda>(n, ar). map (\<lambda>j. \<lparr>ain_archiveRequest = oo_name ar, ain_copyNb = aj_copynb j,
     ain_archiveFile = ar_archive_file (oo_payload ar), ain_mountPolicy = Some (ar_mountpolicy (oo_payload ar)), ain_newStatus = None\<rparr>)
     (filter (\<lambda>j. aj_tapepool j = tapepool) (ar_jobs (oo_payload ar)))) batch)"

lemma gc_archive_jobs_images:
  assumes "\<forall>(n, ar) \<in> set batch. gc_image ar"
  shows "gc_archive_jobs tapepool batch = Inr (gc_elements tapepool batch)"
proof -
  have "foldR (\<lambda>jobsToAdd (n, ar).
       rbind (ar_dumpJobs ar) (\<lambda>dump.
       rbind (ar_getArchiveFile ar) (\<lambda>archiveFile.
       rbind (ar_getMountPolicy ar) (\<lambda>mountPolicy.
       Inr (jobsToAdd @ map (\<lambda>j. \<lparr>ain_archiveRequest = oo_name ar, ain_copyNb = arjd_copyNb j, ain_archiveFile = archiveFile,
              ain_mountPolicy = Some mountPolicy, ain_newStatus = None\<rparr>) (filter (\<lambda>j. arjd_tapePool j = tapepool) dump)))))) es batch
     = Inr (es @ gc_elements tapepool batch)" for es
    using assms
  proof (induction batch arbitrary: es)
    case (Cons x batch)
    then show ?case
      by (cases x) (simp add: gc_image_def gc_elements_def ar_dumpJobs_def ar_getArchiveFile_def ar_getMountPolicy_def filter_map comp_def)
  qed (simp add: gc_elements_def)
  from this [of "[]"] show ?thesis by (simp add: gc_archive_jobs_def)
qed

lemma gc_elements_Cons:
  "gc_elements tapepool ((n, ar) # batch) = gc_elements tapepool [(n, ar)] @ gc_elements tapepool batch"
  by (simp add: gc_elements_def)

lemma gc_elements_one:
  assumes "gc_image ar"
  shows "gc_elements tapepool [(n, ar)] = [] \<or> (\<exists>e. gc_elements tapepool [(n, ar)] = [e] \<and> ain_archiveRequest e = oo_name ar)"
proof -
  let ?f = "filter (\<lambda>j. aj_tapepool j = tapepool) (ar_jobs (oo_payload ar))"
  consider "?f = []" | j js where "?f = j # js" by (cases ?f) auto
  then show ?thesis
  proof cases
    case 2
    then have "j \<in> set ?f" by simp
    then have "j \<in> set (ar_jobs (oo_payload ar))" "aj_tapepool j = tapepool" by simp_all
    with assms have "length ?f = 1" by (auto simp: gc_image_def ar_tapepools_unique_def)
    with 2 show ?thesis by (simp add: gc_elements_def)
  qed (simp add: gc_elements_def)
qed

lemma gc_elements_addresses: "ain_archiveRequest ` set (gc_elements tapepool batch) \<subseteq> (\<lambda>(n, ar). oo_name ar) ` set batch"
  by (auto simp: gc_elements_def)

lemma gc_elements_distinct:
  assumes "\<forall>(n, ar) \<in> set batch. gc_image ar" "distinct (map (\<lambda>(n, ar). oo_name ar) batch)"
  shows "distinct (map ain_archiveRequest (gc_elements tapepool batch)) \<and> length (gc_elements tapepool batch) \<le> length batch"
  using assms
proof (induction batch)
  case (Cons x batch)
  obtain n ar where x: "x = (n, ar)" by (cases x)
  have IH: "distinct (map ain_archiveRequest (gc_elements tapepool batch)) \<and> length (gc_elements tapepool batch) \<le> length batch"
    using Cons by simp
  have "oo_name ar \<notin> ain_archiveRequest ` set (gc_elements tapepool batch)"
    using Cons.prems(2) gc_elements_addresses [of tapepool batch] x by auto
  with IH gc_elements_one [of ar tapepool n] Cons.prems(1) show ?case
    unfolding x gc_elements_Cons [of tapepool n ar batch] by auto
qed (simp add: gc_elements_def)

lemma gc_elements_job:
  assumes "(n, ar) \<in> set batch" "j \<in> set (ar_jobs (oo_payload ar))" "aj_tapepool j = tapepool"
  shows "\<exists>e \<in> set (gc_elements tapepool batch). ain_archiveRequest e = oo_name ar \<and> ain_copyNb e = aj_copynb j"
  using assms by (force simp: gc_elements_def)

text \<open>What becomes of the jobs of a batch.\<close>

definition gc_requeued ::
  "string \<Rightarrow> string \<Rightarrow> string \<Rightarrow> (nat \<times> archive_request oo) list \<Rightarrow> world \<Rightarrow> world \<Rightarrow> job_ref list \<Rightarrow> bool" where
  "gc_requeued dead ca pool batch w w' refs' \<longleftrightarrow> (\<forall>(n, ar) \<in> set batch. \<forall>j \<in> set (ar_jobs (oo_payload ar)). aj_tapepool j = pool \<longrightarrow>
     (if ar_owner_of w (oo_name ar) (aj_copynb j) \<in> {Some ca, Some dead}
      then ar_owner_of w' (oo_name ar) (aj_copynb j) = Some ca \<and> oo_name ar \<in> fst ` set refs'
      else ar_owner_of w' (oo_name ar) (aj_copynb j) = ar_owner_of w (oo_name ar) (aj_copynb j) \<and> oo_name ar \<notin> fst ` set refs'))"

lemma oos_add_others:
  "\<forall>a \<in> set I. a \<noteq> '''' \<Longrightarrow> \<exists>oos'. foldR (\<lambda>oos a. rbind (go_at a) (\<lambda>go. Inr (oos_add_other go oos))) oos I = Inr oos'"
  by (induction I arbitrary: oos) (simp_all add: go_at_def setAddress_new)

lemma gc_executed_switch:
  assumes "referenceAndSwitchOwnershipIfNecessary tr cid dead es w
      = (Inr (ca, if failed = [] then Requeued else OwnershipSwitchFailure failed), w')"
    and "gc_archive_jobs pool batch = Inr es" and "\<forall>(e, x) \<in> set failed. ain_archiveRequest e \<noteq> ''''"
  shows "\<exists>I oos'. gc_executeArchiveAlgorithm tr dead cid pool batch oos w = (Inr (I, oos'), w')"
proof -
  define I where "I = map (ain_archiveRequest \<circ> fst) (filter (\<lambda>(e, x). \<not> switch_lost x) failed)"
  have "\<forall>a \<in> set I. a \<noteq> ''''" using assms(3) by (auto simp: I_def)
  then obtain oos' where "foldR (\<lambda>oos a. rbind (go_at a) (\<lambda>go. Inr (oos_add_other go oos))) oos I = Inr oos'"
    using oos_add_others by blast
  with assms(1,2) show ?thesis
    by (cases "failed = []") (simp_all add: gc_executeArchiveAlgorithm_def I_def)
qed

lemma fst_filter_addresses: "a \<in> fst ` set (filter (\<lambda>r. fst r \<notin> F) rs) \<longleftrightarrow> a \<in> fst ` set rs \<and> a \<notin> F"
  by force

lemma gc_requeued_refs:
  assumes dist: "distinct (map (\<lambda>e. fst (inserted_key e)) (gc_elements pool batch))"
    and failed: "fs = filter (\<lambda>e. ar_owner_of w (ain_archiveRequest e) (ain_copyNb e) \<notin> {Some ca, Some dead}) (gc_elements pool batch)"
    and own: "\<forall>e \<in> set (gc_elements pool batch). ar_owner_of w' (ain_archiveRequest e) (ain_copyNb e)
        = (if ar_owner_of w (ain_archiveRequest e) (ain_copyNb e) \<in> {Some ca, Some dead} then Some ca
           else ar_owner_of w (ain_archiveRequest e) (ain_copyNb e))"
    and refs': "refs' = filter (\<lambda>r. fst r \<notin> ain_archiveRequest ` set fs)
        (refs @ map (\<lambda>e. inserted_key e) (filter (\<lambda>e. ain_archiveRequest e \<notin> fst ` set refs) (gc_elements pool batch)))"
  shows "gc_requeued dead ca pool batch w w' refs'"
proof -
  have "if ar_owner_of w (oo_name ar) (aj_copynb j) \<in> {Some ca, Some dead}
      then ar_owner_of w' (oo_name ar) (aj_copynb j) = Some ca \<and> oo_name ar \<in> fst ` set refs'
      else ar_owner_of w' (oo_name ar) (aj_copynb j) = ar_owner_of w (oo_name ar) (aj_copynb j) \<and> oo_name ar \<notin> fst ` set refs'"
    if nar: "(n, ar) \<in> set batch" and j: "j \<in> set (ar_jobs (oo_payload ar))" "aj_tapepool j = pool" for n ar j
  proof -
    obtain e where e: "e \<in> set (gc_elements pool batch)" "ain_archiveRequest e = oo_name ar" "ain_copyNb e = aj_copynb j"
      using gc_elements_job [OF nar j] by auto
    have one: "e' = e" if "e' \<in> set (gc_elements pool batch)" "ain_archiveRequest e' = oo_name ar" for e'
      using dist that e(1,2) by (auto simp: distinct_map inj_on_def)
    have "oo_name ar \<in> ain_archiveRequest ` set fs \<longleftrightarrow> ar_owner_of w (oo_name ar) (aj_copynb j) \<notin> {Some ca, Some dead}"
    proof
      assume "oo_name ar \<in> ain_archiveRequest ` set fs"
      then obtain e' where e': "e' \<in> set fs" "ain_archiveRequest e' = oo_name ar" by (metis imageE)
      then have "e' = e" using one by (simp add: failed)
      with e' e show "ar_owner_of w (oo_name ar) (aj_copynb j) \<notin> {Some ca, Some dead}" by (simp add: failed)
    next
      assume "ar_owner_of w (oo_name ar) (aj_copynb j) \<notin> {Some ca, Some dead}"
      then have "e \<in> set fs" using e by (simp add: failed)
      with e(2) show "oo_name ar \<in> ain_archiveRequest ` set fs" by (metis imageI)
    qed
    moreover have "oo_name ar \<in> fst ` set (refs @ map (\<lambda>e. inserted_key e) (filter (\<lambda>e. ain_archiveRequest e \<notin> fst ` set refs) (gc_elements pool batch)))"
    proof (cases "oo_name ar \<in> fst ` set refs")
      case False
      with e(1,2) have "e \<in> set (filter (\<lambda>e. ain_archiveRequest e \<notin> fst ` set refs) (gc_elements pool batch))" by simp
      then have "inserted_key e \<in> set (map (\<lambda>e. inserted_key e) (filter (\<lambda>e. ain_archiveRequest e \<notin> fst ` set refs) (gc_elements pool batch)))"
        unfolding set_map by (rule imageI)
      then have "fst (inserted_key e) \<in> fst ` set (map (\<lambda>e. inserted_key e) (filter (\<lambda>e. ain_archiveRequest e \<notin> fst ` set refs) (gc_elements pool batch)))"
        by (rule imageI)
      then show ?thesis using e(2) by (simp only: fst_conv set_append image_Un Un_iff simp_thms)
    qed (simp only: set_append image_Un Un_iff simp_thms)
    ultimately have "oo_name ar \<in> fst ` set refs' \<longleftrightarrow> ar_owner_of w (oo_name ar) (aj_copynb j) \<in> {Some ca, Some dead}"
      unfolding refs' fst_filter_addresses by blast
    moreover have "ar_owner_of w' (oo_name ar) (aj_copynb j) = (if ar_owner_of w (oo_name ar) (aj_copynb j) \<in> {Some ca, Some dead}
        then Some ca else ar_owner_of w (oo_name ar) (aj_copynb j))"
      using bspec [OF own e(1)] unfolding e(2,3) .
    ultimately show ?thesis by presburger
  qed
  then show ?thesis unfolding gc_requeued_def by blast
qed

lemma gc_executed:
  assumes reach: "aq_reach qt cid w refs" "distinct (map fst refs)"
    and batch: "\<forall>(n, ar) \<in> set batch. gc_image ar" "distinct (map (\<lambda>(n, ar). oo_name ar) batch)"
    and room: "length refs + length batch < 2 ^ 64" "fresh_ids w (Suc (length batch))" "Suc (length batch) \<le> 2 ^ 64"
  shows "\<exists>ca I oos' w' cont refs'.
      gc_executeArchiveAlgorithm (aqt_base fuel now qt su can no le pl mi) dead cid pool batch oos w = (Inr (I, oos'), w')
    \<and> aq_references qt cid w' cont refs' \<and> oo_name cont = ca \<and> gc_requeued dead ca pool batch w w' refs'
    \<and> (\<forall>a c. a \<notin> (\<lambda>(n, ar). oo_name ar) ` set batch \<longrightarrow> ar_owner_of w' a c = ar_owner_of w a c)
    \<and> keeps is_agent w w'"
proof -
  let ?es = "gc_elements pool batch"
  have es: "distinct (map (\<lambda>e. fst (inserted_key e)) ?es)" "length ?es \<le> length batch"
    using gc_elements_distinct [OF batch, of pool] by simp_all
  have room': "length refs + length ?es < 2 ^ 64" "fresh_ids w (Suc (length ?es))" "Suc (length ?es) \<le> 2 ^ 64"
    using room es(2) fresh_ids_mono [OF room(2), of "Suc (length ?es)"] by simp_all
  obtain ca failed w' cont where r: "referenceAndSwitchOwnershipIfNecessary (aqt_base fuel now qt su can no le pl mi) cid dead ?es w
      = (Inr (ca, if failed = [] then Requeued else OwnershipSwitchFailure failed), w')"
    and f: "map fst failed = filter (\<lambda>e. ar_owner_of w (ain_archiveRequest e) (ain_copyNb e) \<notin> {Some ca, Some dead}) ?es"
    and ref: "aq_references qt cid w' cont (filter (\<lambda>r. fst r \<notin> ain_archiveRequest ` set (map fst failed))
        (refs @ map (\<lambda>e. inserted_key e) (filter (\<lambda>e. ain_archiveRequest e \<notin> fst ` set refs) ?es)))" "oo_name cont = ca"
    and own: "\<forall>e \<in> set ?es. ar_owner_of w' (ain_archiveRequest e) (ain_copyNb e)
        = (if ar_owner_of w (ain_archiveRequest e) (ain_copyNb e) \<in> {Some ca, Some dead} then Some ca
           else ar_owner_of w (ain_archiveRequest e) (ain_copyNb e))"
      "\<forall>r. fst r \<notin> ain_archiveRequest ` set ?es \<longrightarrow> ar_owner_of w' (fst r) (snd r) = ar_owner_of w (fst r) (snd r)"
    and k: "keeps is_agent w w'"
    using aqc.requeued_if_necessary [where cid = cid and w = w and refs = refs and es = "?es" and prev = dead and fuel = fuel and now = now
        and qt = qt and su = su and ca = can and no = no and le = le and pl = pl and mi = mi, OF reach es(1) room',
        unfolded fst_conv snd_conv] by (elim exE conjE)
  define refs' where "refs' = filter (\<lambda>r. fst r \<notin> ain_archiveRequest ` set (map fst failed))
        (refs @ map (\<lambda>e. inserted_key e) (filter (\<lambda>e. ain_archiveRequest e \<notin> fst ` set refs) ?es))"
  have names: "\<forall>e \<in> set ?es. ain_archiveRequest e \<noteq> ''''"
    using gc_elements_addresses [of pool batch] batch(1) by (force simp: gc_image_def)
  have "\<forall>(e, x) \<in> set failed. ain_archiveRequest e \<noteq> ''''"
  proof (clarify)
    fix e x assume ex: "(e, x) \<in> set failed" "ain_archiveRequest e = ''''"
    then have "e \<in> set (map fst failed)" by force
    then have "e \<in> set ?es" unfolding f by simp
    with names ex(2) show False by blast
  qed
  then have run: "\<exists>J oos'. gc_executeArchiveAlgorithm (aqt_base fuel now qt su can no le pl mi) dead cid pool batch oos w = (Inr (J, oos'), w')"
    by (rule gc_executed_switch [OF r gc_archive_jobs_images [OF batch(1)]])
  have "gc_requeued dead ca pool batch w w' refs'"
    by (rule gc_requeued_refs [OF es(1) f own(1) refs'_def])
  moreover have "\<forall>a c. a \<notin> (\<lambda>(n, ar). oo_name ar) ` set batch \<longrightarrow> ar_owner_of w' a c = ar_owner_of w a c"
  proof (intro allI impI)
    fix a c assume "a \<notin> (\<lambda>(n, ar). oo_name ar) ` set batch"
    then have "a \<notin> ain_archiveRequest ` set ?es" using gc_elements_addresses [of pool batch] by blast
    then show "ar_owner_of w' a c = ar_owner_of w a c" using spec [OF own(2), of "(a, c)"] by simp
  qed
  moreover obtain J oos'' where "gc_executeArchiveAlgorithm (aqt_base fuel now qt su can no le pl mi) dead cid pool batch oos w = (Inr (J, oos''), w')"
    using run by (elim exE)
  ultimately show ?thesis using ref k unfolding refs'_def [symmetric]
    by (intro exI [of _ ca] exI [of _ J] exI [of _ oos''] exI [of _ w'] exI [of _ cont] exI [of _ refs'] conjI)
qed

section \<open>The list of the dead agent\<close>

lemma agent_commit_keeps:
  assumes "held agent" "stored ag_c w (oo_name agent) p"
  shows "\<exists>w'. oo_commit ag_c agent w = (Inr (), w') \<and> stored ag_c w' (oo_name agent) (oo_payload agent) \<and> keeps (\<lambda>p. \<not> is_agent p) w w'"
proof -
  let ?w' = "w\<lparr>objects := (objects w)(oo_name agent \<mapsto> oo_header ag_c agent)\<rparr>"
  have s: "lockFiles w (oo_name agent)" "objects w (oo_name agent) \<noteq> None" "oo_name agent \<noteq> ''''" using storedD [OF assms(2)] by auto
  have "same_except {oo_name agent} w ?w'" by (simp add: same_except_def)
  then have "keeps (\<lambda>p. \<not> is_agent p) w ?w'"
    by (rule same_except_keeps) (use assms(2) in \<open>auto simp: stored_def is_agent_def codec_defs oo_header_def\<close>)
  moreover have "stored ag_c ?w' (oo_name agent) (oo_payload agent)" by (rule stored_header) (use s in simp_all)
  moreover have "oo_commit ag_c agent w = (Inr (), ?w')" using assms(1) s by (simp add: oo_commit_held vfs_exists_def)
  ultimately show ?thesis by blast
qed

lemma gc_released:
  assumes "held agent" "stored ag_c w (oo_name agent) (oo_payload agent)"
  shows "\<exists>agent' w'. gc_release_archive agent I batch others w = (Inr agent', w') \<and> oo_name agent' = oo_name agent
    \<and> stored ag_c w' (oo_name agent) (oo_payload agent') \<and> keeps (\<lambda>p. \<not> is_agent p) w w'
    \<and> set (ag_ownedobjects (oo_payload agent')) = set (ag_ownedobjects (oo_payload agent))
        - (oo_name \<circ> snd) ` set (filter (\<lambda>(n, ar). use_count n (batch # others) = 1 \<and> oo_name ar \<notin> I) batch)"
proof -
  define R where "R = filter (\<lambda>(n, ar). use_count n (batch # others) = 1 \<and> oo_name ar \<notin> I) batch"
  define S where "S = set (ag_ownedobjects (oo_payload agent)) - (oo_name \<circ> snd) ` set R"
  define agent' where "agent' = agent\<lparr>oo_payload := (oo_payload agent)\<lparr>ag_ownedobjects := sorted_list_of_set S\<rparr>\<rparr>"
  have run: "gc_release_archive agent I batch others w = (if R \<noteq> [] then bnd (oo_commit ag_c agent') (\<lambda>_. ret agent') w else (Inr agent, w))"
    unfolding gc_release_archive_def Let_def R_def [symmetric]
    using assms(1) by (simp add: ag_getOwnershipSet_def ag_resetOwnership_def agent'_def S_def)
  show ?thesis
  proof (cases "R = []")
    case True
    with assms run show ?thesis unfolding R_def [symmetric] by (intro exI [of _ agent] exI [of _ w]) (simp add: keeps_refl)
  next
    case False
    have h: "held agent'" "oo_name agent' = oo_name agent" using assms(1) by (simp_all add: agent'_def)
    obtain w' where c: "oo_commit ag_c agent' w = (Inr (), w')" "stored ag_c w' (oo_name agent') (oo_payload agent')" "keeps (\<lambda>p. \<not> is_agent p) w w'"
      using agent_commit_keeps [OF h(1)] assms(2) h(2) by metis
    have run': "gc_release_archive agent I batch others w = (Inr agent', w')" using c(1) False run by simp
    have "set (ag_ownedobjects (oo_payload agent')) = S" by (simp add: agent'_def S_def)
    with run' c h(2) show ?thesis unfolding R_def [symmetric] S_def by (intro exI [of _ agent'] exI [of _ w']) simp
  qed
qed

lemma use_count_rest: "use_count n (batch # [] # others) = use_count n (batch # others)"
  by (simp add: use_count_def)

section \<open>The batch\<close>

lemma gc_dispatched:
  assumes "aq_reach qt cid w refs" "distinct (map fst refs)"
    and "\<forall>(n, ar) \<in> set batch. gc_image ar" "distinct (map (\<lambda>(n, ar). oo_name ar) batch)"
    and "length refs + length batch < 2 ^ 64" "fresh_ids w (Suc (length batch))" "Suc (length batch) \<le> 2 ^ 64"
  shows "\<exists>ca I oos' w' cont refs'. dispatchArchiveAlgorithms env dead qt cid pool batch oos w = (Inr (I, oos'), w')
    \<and> aq_references qt cid w' cont refs' \<and> oo_name cont = ca \<and> gc_requeued dead ca pool batch w w' refs'
    \<and> (\<forall>a c. a \<notin> (\<lambda>(n, ar). oo_name ar) ` set batch \<longrightarrow> ar_owner_of w' a c = ar_owner_of w a c) \<and> keeps is_agent w w'"
  unfolding dispatchArchiveAlgorithms_def ArchiveQueueToTransferForUser_def ArchiveQueueToTransferForRepack_def ArchiveQueueToReport_def
  by (cases qt; simp only: JobQueueType.case; rule gc_executed; use assms in simp)

text \<open>
  C8. The collector puts back a batch of archive jobs, for every kind of archive queue. The call returns. Each job of the
  requests with the tape pool of the batch that belonged to the dead agent, or to the queue already, then
  belongs to the queue, found or created, which references its request; a job with another owner keeps it and is not
  referenced. No job of the pool is left to the dead agent. From the list of the dead agent, which is stored, go only
  requests of the batch, and none that is still wanted for another queue.
\<close>
theorem gc_archive_batch:
  assumes "aq_reach qt cid w refs" "distinct (map fst refs)"
    and "\<forall>(n, ar) \<in> set batch. gc_image ar" "distinct (map (\<lambda>(n, ar). oo_name ar) batch)" "batch \<noteq> []" "length batch \<le> 501"
    and "length refs + length batch < 2 ^ 64" "fresh_ids w (Suc (length batch))"
    and "held agent" "stored ag_c w (oo_name agent) (oo_payload agent)"
  shows "\<exists>ca agent' oos' w' cont refs'.
      gc_archive_batches env (cid, qt, pool) others batch (agent, oos) w = (Inr (agent', oos'), w')
    \<and> aq_references qt cid w' cont refs' \<and> oo_name cont = ca \<and> gc_requeued (oo_name agent) ca pool batch w w' refs'
    \<and> stored ag_c w' (oo_name agent) (oo_payload agent')
    \<and> set (ag_ownedobjects (oo_payload agent)) - (\<lambda>(n, ar). oo_name ar) ` {(n, ar) \<in> set batch. use_count n (batch # others) = 1}
        \<subseteq> set (ag_ownedobjects (oo_payload agent'))
    \<and> set (ag_ownedobjects (oo_payload agent')) \<subseteq> set (ag_ownedobjects (oo_payload agent))"
proof -
  have b: "Suc (length batch) \<le> 2 ^ 64" using assms(6) by simp
  obtain ca I oos' w1 cont refs' where d: "dispatchArchiveAlgorithms env (oo_name agent) qt cid pool batch oos w = (Inr (I, oos'), w1)"
      "aq_references qt cid w1 cont refs'" "oo_name cont = ca" "gc_requeued (oo_name agent) ca pool batch w w1 refs'" "keeps is_agent w w1"
    using gc_dispatched [OF assms(1-4,7,8) b, of env "oo_name agent" pool oos] by (elim exE conjE)
  have s1: "stored ag_c w1 (oo_name agent) (oo_payload agent)"
    by (rule keeps_stored [OF d(5) assms(10)]) (simp add: is_agent_def codec_defs)
  obtain agent' w' where r: "gc_release_archive agent I batch ([] # others) w1 = (Inr agent', w')" "stored ag_c w' (oo_name agent) (oo_payload agent')"
      "keeps (\<lambda>p. \<not> is_agent p) w1 w'"
      "set (ag_ownedobjects (oo_payload agent')) = set (ag_ownedobjects (oo_payload agent))
        - (oo_name \<circ> snd) ` set (filter (\<lambda>(n, ar). use_count n (batch # [] # others) = 1 \<and> oo_name ar \<notin> I) batch)"
    using gc_released [OF assms(9) s1, of I batch "[] # others"] by (elim exE conjE)
  have k: "keeps is_request w1 w'" "keeps_containers w1 w'" by (rule keeps_mono [OF r(3)], erule kinds_disjoint)+
  have "gc_archive_batches env (cid, qt, pool) others batch (agent, oos) w = (Inr (agent', oos'), w')"
    using assms(5,6,9) d(1) r(1) gc_archive_batches.simps [of env "(cid, qt, pool)" others "[]" "(agent', oos')"]
    by (subst gc_archive_batches.simps) simp
  moreover have "gc_requeued (oo_name agent) ca pool batch w w' refs'"
    using d(4) unfolding gc_requeued_def ar_owner_of_kept [OF k(1)] .
  moreover have "aq_references qt cid w' cont refs'" by (rule aqt.rep_kept [OF d(2) k(2)])
  moreover have "set (ag_ownedobjects (oo_payload agent)) - (\<lambda>(n, ar). oo_name ar) ` {(n, ar) \<in> set batch. use_count n (batch # others) = 1}
      \<subseteq> set (ag_ownedobjects (oo_payload agent'))" unfolding r(4) use_count_rest by auto
  moreover have "set (ag_ownedobjects (oo_payload agent')) \<subseteq> set (ag_ownedobjects (oo_payload agent))" unfolding r(4) by blast
  ultimately show ?thesis using d(3) r(2)
    by (intro exI [of _ ca] exI [of _ agent'] exI [of _ oos'] exI [of _ w'] exI [of _ cont] exI [of _ refs'] conjI)
qed

text \<open>The store of \<open>AlgorithmProperties\<close>, where the agent is the dead one, and the batch of its two requests.\<close>

definition smg_image :: "string \<Rightarrow> string \<Rightarrow> archive_request oo" where
  "smg_image a owner = (held_image a (case oh_payload (sma_request owner) of Payload_ArchiveRequest p \<Rightarrow> p))"

abbreviation "smg_batch \<equiv> [(0, smg_image ''R3'' ''agent''), (1, smg_image ''R4'' ''other'')]"

definition smg_env :: gc_env where
  "smg_env = \<lparr>gce_selection = \<lparr>se_now = 0, se_getTapesByVid = (\<lambda>v. Inr []), se_draw = (\<lambda>n. 0), se_others = (\<lambda>c. c)\<rparr>,
     gce_fuel = 1, gce_fSeq0 = 0, gce_failureLog = ''''\<rparr>"

lemma smg_images: "a \<noteq> '''' \<Longrightarrow> gc_image (smg_image a owner)"
  by (simp add: gc_image_def smg_image_def sma_request_def smp_header_def ar_tapepools_unique_def)

theorem gc_archive_batch_witness:
  "\<exists>ca agent' oos' w' cont refs'.
      gc_archive_batches smg_env (''pool'', JobsToTransferForUser, ''pool'') [] smg_batch (held_image ''agent'' sma_agent, oos_empty) sma_world
        = (Inr (agent', oos'), w')
    \<and> aq_references JobsToTransferForUser ''pool'' w' cont refs' \<and> oo_name cont = ca
    \<and> ar_owner_of w' ''R3'' 1 = Some ca \<and> ''R3'' \<in> fst ` set refs'"
proof -
  let ?ag = "held_image ''agent'' sma_agent"
  have h: "distinct (map fst sma_refs)" "\<forall>(n, ar) \<in> set smg_batch. gc_image ar" "distinct (map (\<lambda>(n, ar). oo_name ar) smg_batch)"
    "smg_batch \<noteq> []" "length smg_batch \<le> 501" "length sma_refs + length smg_batch < 2 ^ 64" "held ?ag"
    by (simp_all add: smg_images) (simp add: smg_image_def)
  have s: "stored ag_c sma_world (oo_name ?ag) (oo_payload ?ag)"
    by (simp add: stored_def sma_world_def smp_world_def smp_header_def codec_defs)
  obtain ca agent' oos' w' cont refs' where
    r: "gc_archive_batches smg_env (''pool'', JobsToTransferForUser, ''pool'') [] smg_batch (?ag, oos_empty) sma_world = (Inr (agent', oos'), w')"
      "aq_references JobsToTransferForUser ''pool'' w' cont refs'" "oo_name cont = ca"
      "gc_requeued (oo_name ?ag) ca ''pool'' smg_batch sma_world w' refs'"
    using gc_archive_batch [OF sma_reach h(1-6) sma_fresh h(7) s, of smg_env "''pool''" "[]" oos_empty] by (elim exE conjE)
  have "ar_owner_of w' ''R3'' 1 = Some ca \<and> ''R3'' \<in> fst ` set refs'"
    using r(4) sma_owners(3) by (simp add: gc_requeued_def smg_image_def sma_request_def smp_header_def)
  with r(1-3) show ?thesis
    by (intro exI [of _ ca] exI [of _ agent'] exI [of _ oos'] exI [of _ w'] exI [of _ cont] exI [of _ refs'] conjI) simp_all
qed

end
