(* ===== verification/WatchProperties.thy ===== *)
theory WatchProperties
  imports GarbageCollector ContainerSpec
begin

text \<open>
  The agents the collector watches: what one pass of the collector does to them when none of them is dead.
\<close>

section \<open>Reading the register and the agents\<close>

lemma from_world_Inr: "m w = (Inr x, w') \<Longrightarrow> from_world m ((w, c), gc) = (Inr x, ((w', c), gc))"
  by (simp add: from_world_def from_gworld_def on_world_def)

lemma from_world_Inl: "m w = (Inl e, w') \<Longrightarrow> from_world m ((w, c), gc) = (Inl e, ((w', c), gc))"
  by (simp add: from_world_def from_gworld_def on_world_def)

lemma watch_apply [simp]: "watch f (g, gc) = (Inr (), (g, gc\<lparr>gcl_watchedAgents := f (gcl_watchedAgents gc)\<rparr>))"
  by (simp add: watch_def)

lemma fetchNoLock_stored:
  assumes "stored c w a p" "dec c (enc c p) = Some p"
  shows "\<exists>ob. oo_fetchNoLock c ((oo_new p0)\<lparr>oo_name := a, oo_nameSet := True\<rparr>) w = (Inr ob, w) \<and> oo_payload ob = p
    \<and> checkPayloadReadable ob = Inr () \<and> checkHeaderReadable ob = Inr ()"
  using assms by (clarsimp simp: stored_def oo_defs vfs_read_def) (simp add: check_defs)

lemma fetchNoLock_missing:
  assumes "missing w a"
  shows "oo_fetchNoLock c ((oo_new p0)\<lparr>oo_name := a, oo_nameSet := True\<rparr>) w = (Inl NoSuchObject, w)"
  using assms by (auto simp: missing_def oo_defs vfs_read_def)

lemma fetch_register_stored:
  assumes "stored agr_c w (gcl_agentRegister gc) rp"
  shows "\<exists>ar. fetch_register ((w, c), gc) = (Inr ar, ((w, c), gc)) \<and> oo_payload ar = rp"
proof -
  have a: "gcl_agentRegister gc \<noteq> ''''" using assms by (simp add: stored_def)
  obtain ar where ar: "oo_fetchNoLock agr_c ((oo_new agr_empty)\<lparr>oo_name := gcl_agentRegister gc, oo_nameSet := True\<rparr>) w = (Inr ar, w)"
    "oo_payload ar = rp" using fetchNoLock_stored [OF assms] by auto
  then show ?thesis using a by (simp add: fetch_register_def agr_at_def setAddress_new from_world_Inr)
qed

text \<open>The watch on an agent just found.\<close>

definition new_watch :: "nat \<Rightarrow> string \<Rightarrow> agent \<Rightarrow> watchdog" where
  "new_watch clock a p = \<lparr>wd_agent = a, wd_timer = clock, wd_heartbeatCounter = ag_heartbeat p, wd_timeout = unat (ag_timeout_us p)\<rparr>"

lemma wd_new_stored:
  assumes "stored ag_c w a p"
  shows "wd_new a clock w = (Inr (new_watch clock a p), w)"
proof -
  have a: "a \<noteq> ''''" using assms by (simp add: stored_def)
  obtain ob where "oo_fetchNoLock ag_c ((oo_new ag_empty)\<lparr>oo_name := a, oo_nameSet := True\<rparr>) w = (Inr ob, w)" "oo_payload ob = p"
    "checkPayloadReadable ob = Inr ()" using fetchNoLock_stored [OF assms] by auto
  then show ?thesis using a wd_readGCData_stored [OF assms]
    by (simp add: wd_new_def ag_at_def setAddress_new ag_getTimeout_def new_watch_def)
qed

lemma acquire_target_stored:
  assumes "stored ag_c w a p" "a \<noteq> getAgentAddress w" "a \<notin> tracked"
  shows "acquire_target clock tracked () a ((w, c), gc)
    = (Inr (), ((w, c), gc\<lparr>gcl_watchedAgents := smap_put a (new_watch clock a p) (gcl_watchedAgents gc)\<rparr>))"
proof -
  have a: "a \<noteq> ''''" using assms by (simp add: stored_def)
  obtain ob where ob: "oo_fetchNoLock ag_c ((oo_new ag_empty)\<lparr>oo_name := a, oo_nameSet := True\<rparr>) w = (Inr ob, w)" "oo_payload ob = p"
    "checkPayloadReadable ob = Inr ()" "checkHeaderReadable ob = Inr ()" using fetchNoLock_stored [OF assms(1)] by auto
  have "\<exists>o'. getOwner ob = Inr o'" using ob(4) by (simp add: getOwner_def)
  moreover have "from_world (asks getAgentAddress) ((w, c), gc) = (Inr (getAgentAddress w), ((w, c), gc))"
    by (rule from_world_Inr) simp
  moreover have "wd_setTimeout (unat (ag_timeout_us p)) (new_watch clock a p) = new_watch clock a p"
    by (simp add: wd_setTimeout_def new_watch_def)
  ultimately show ?thesis using a assms(2,3) ob from_world_Inr [of "oo_fetchNoLock ag_c _", OF ob(1)] from_world_Inr [of "wd_new _ _", OF wd_new_stored [OF assms(1)]]
    by (auto simp: acquire_target_def ag_at_def setAddress_new ag_getTimeout_def Let_def)
qed

lemma acquire_target_missing:
  assumes "missing w a"
  shows "acquire_target clock tracked () a ((w, c), gc) = (Inr (), ((w, c), gc))"
proof -
  have a: "a \<noteq> ''''" using assms by (simp add: missing_def)
  have "from_world (asks getAgentAddress) ((w, c), gc) = (Inr (getAgentAddress w), ((w, c), gc))"
    by (rule from_world_Inr) simp
  moreover have "from_world (oo_fetchNoLock ag_c ((oo_new ag_empty)\<lparr>oo_name := a, oo_nameSet := True\<rparr>)) ((w, c), gc) = (Inl NoSuchObject, ((w, c), gc))"
    by (rule from_world_Inl) (rule fetchNoLock_missing [OF assms])
  ultimately show ?thesis using a by (simp add: acquire_target_def ag_at_def setAddress_new Let_def is_cta_exception_def)
qed

lemma acquire_target_skipped:
  assumes "a = getAgentAddress w \<or> a \<in> tracked"
  shows "acquire_target clock tracked () a ((w, c), gc) = (Inr (), ((w, c), gc))"
proof -
  have "from_world (asks getAgentAddress) ((w, c), gc) = (Inr (getAgentAddress w), ((w, c), gc))"
    by (rule from_world_Inr) simp
  with assms show ?thesis by (simp add: acquire_target_def)
qed

text \<open>The watches that \<open>acquireTargets\<close> adds for a list of agents.\<close>

definition found :: "world \<Rightarrow> string set \<Rightarrow> string list \<Rightarrow> (string \<Rightarrow> agent option) \<Rightarrow> string \<Rightarrow> agent option" where
  "found w tracked as agents a = (if a \<in> set as \<and> a \<noteq> getAgentAddress w \<and> a \<notin> tracked then agents a else None)"

definition agents_in :: "world \<Rightarrow> string set \<Rightarrow> (string \<Rightarrow> agent option) \<Rightarrow> bool" where
  "agents_in w as agents \<longleftrightarrow> (\<forall>a \<in> as. case agents a of None \<Rightarrow> missing w a | Some p \<Rightarrow> stored ag_c w a p)"

lemma acquire_all:
  assumes "agents_in w (set as) agents" "smap_ok (gcl_watchedAgents gc)"
  shows "\<exists>m. foldM (acquire_target clock tracked) () as ((w, c), gc) = (Inr (), ((w, c), gc\<lparr>gcl_watchedAgents := m\<rparr>)) \<and> smap_ok m
    \<and> (\<forall>a. smap_get a m = (case found w tracked as agents a of Some p \<Rightarrow> Some (new_watch clock a p) | None \<Rightarrow> smap_get a (gcl_watchedAgents gc)))"
  using assms
proof (induction as arbitrary: gc)
  case Nil
  show ?case by (intro exI [of _ "gcl_watchedAgents gc"]) (simp add: found_def Nil.prems(2))
next
  case (Cons x as)
  have rest: "agents_in w (set as) agents" using Cons.prems(1) by (simp add: agents_in_def)
  show ?case
  proof (cases "x = getAgentAddress w \<or> x \<in> tracked \<or> agents x = None")
    case True
    then have "acquire_target clock tracked () x ((w, c), gc) = (Inr (), ((w, c), gc))"
      using acquire_target_skipped [of x w tracked clock c gc] acquire_target_missing [of w x clock tracked c gc] Cons.prems(1)
      by (auto simp: agents_in_def)
    moreover have "found w tracked (x # as) agents = found w tracked as agents" using True by (auto simp: found_def)
    ultimately show ?thesis using Cons.IH [OF rest Cons.prems(2)] by simp
  next
    case False
    then obtain p where p: "agents x = Some p" "stored ag_c w x p" using Cons.prems(1) by (auto simp: agents_in_def)
    define gc1 where "gc1 = gc\<lparr>gcl_watchedAgents := smap_put x (new_watch clock x p) (gcl_watchedAgents gc)\<rparr>"
    have 1: "acquire_target clock tracked () x ((w, c), gc) = (Inr (), ((w, c), gc1))"
      using acquire_target_stored [OF p(2)] False by (simp add: gc1_def)
    have ok: "smap_ok (gcl_watchedAgents gc1)" using smap_put_ok [OF Cons.prems(2)] by (simp add: gc1_def)
    obtain m where m: "foldM (acquire_target clock tracked) () as ((w, c), gc1) = (Inr (), ((w, c), gc1\<lparr>gcl_watchedAgents := m\<rparr>))" "smap_ok m"
      "\<forall>a. smap_get a m = (case found w tracked as agents a of Some p \<Rightarrow> Some (new_watch clock a p) | None \<Rightarrow> smap_get a (gcl_watchedAgents gc1))"
      using Cons.IH [OF rest ok] by (elim exE conjE)
    have "smap_get a m = (case found w tracked (x # as) agents a of Some p \<Rightarrow> Some (new_watch clock a p) | None \<Rightarrow> smap_get a (gcl_watchedAgents gc))" for a
      using spec [OF m(3), of a] False p(1) smap_get_put [OF Cons.prems(2), of a x "new_watch clock x p"]
      by (cases "a = x") (auto simp: found_def gc1_def split: option.splits)
    then show ?thesis using 1 m(1,2) by (intro exI [of _ m]) (simp add: gc1_def)
  qed
qed

lemma trimGoneTargets_stored:
  assumes "stored agr_c w (gcl_agentRegister gc) rp"
  shows "trimGoneTargets ((w, c), gc)
    = (Inr (), ((w, c), gc\<lparr>gcl_watchedAgents := filter (\<lambda>(a, wd). a \<in> set (agr_agents rp)) (gcl_watchedAgents gc)\<rparr>))"
proof -
  obtain ar where "fetch_register ((w, c), gc) = (Inr ar, ((w, c), gc))" "oo_payload ar = rp"
    using fetch_register_stored [OF assms] by blast
  then show ?thesis by (simp add: trimGoneTargets_def agr_getAgents_def)
qed

lemma smap_filter:
  assumes "smap_ok m"
  shows "smap_ok (filter (\<lambda>(k, v). P k) m)" "smap_get k (filter (\<lambda>(k, v). P k) m) = (if P k then smap_get k m else None)"
  using assms by (induction m) (auto simp: smap_ok_def smap_get_def)

lemma smap_get_dom: "(smap_get k m = None) = (k \<notin> fst ` set m)"
  by (simp add: smap_get_def map_of_eq_None_iff)

text \<open>
  The agents watched once the register has been gone through: of those watched before, the ones that are registered; of the others,
  the ones registered and not yet watched that are there, the process's own apart.
\<close>

definition watched_after :: "world \<Rightarrow> nat \<Rightarrow> agent_register \<Rightarrow> (string \<Rightarrow> agent option) \<Rightarrow> (string, watchdog) std_map \<Rightarrow> string \<Rightarrow> watchdog option" where
  "watched_after w clock rp agents m a =
     (case (if a \<in> set (agr_agents rp) then smap_get a m else None) of
        Some wd \<Rightarrow> Some wd
      | None \<Rightarrow> if a \<in> set (agr_untrackedagents rp) \<and> a \<noteq> getAgentAddress w then map_option (new_watch clock a) (agents a) else None)"

lemma targets_acquired:
  assumes reg: "stored agr_c w (gcl_agentRegister gc) rp" and ag: "agents_in w (set (agr_untrackedagents rp)) agents"
    and ok: "smap_ok (gcl_watchedAgents gc)"
  shows "\<exists>m. bnd trimGoneTargets (\<lambda>_. acquireTargets clock) ((w, c), gc) = (Inr (), ((w, c), gc\<lparr>gcl_watchedAgents := m\<rparr>)) \<and> smap_ok m
    \<and> (\<forall>a. smap_get a m = watched_after w clock rp agents (gcl_watchedAgents gc) a)"
proof -
  define m1 where "m1 = filter (\<lambda>(a, wd). a \<in> set (agr_agents rp)) (gcl_watchedAgents gc)"
  define gc1 where "gc1 = gc\<lparr>gcl_watchedAgents := m1\<rparr>"
  have ok1: "smap_ok m1" "\<And>a. smap_get a m1 = (if a \<in> set (agr_agents rp) then smap_get a (gcl_watchedAgents gc) else None)"
    unfolding m1_def by (rule smap_filter [OF ok])+
  have w1: "gcl_watchedAgents gc1 = m1" by (simp add: gc1_def)
  have 1: "trimGoneTargets ((w, c), gc) = (Inr (), ((w, c), gc1))" using trimGoneTargets_stored [OF reg] by (simp add: gc1_def m1_def)
  obtain ar where ar: "fetch_register ((w, c), gc1) = (Inr ar, ((w, c), gc1))" "oo_payload ar = rp"
    using fetch_register_stored [of w gc1 rp c] reg by (auto simp: gc1_def)
  obtain m where m: "foldM (acquire_target clock (fst ` set m1)) () (agr_untrackedagents rp) ((w, c), gc1)
      = (Inr (), ((w, c), gc1\<lparr>gcl_watchedAgents := m\<rparr>))" "smap_ok m"
    "\<forall>a. smap_get a m = (case found w (fst ` set m1) (agr_untrackedagents rp) agents a of Some p \<Rightarrow> Some (new_watch clock a p) | None \<Rightarrow> smap_get a m1)"
    using acquire_all [OF ag, of gc1 clock "fst ` set m1" c, unfolded w1, OF ok1(1)] by (elim exE conjE)
  have "smap_get a m = watched_after w clock rp agents (gcl_watchedAgents gc) a" for a
    using spec [OF m(3), of a] smap_get_dom [of a m1] unfolding ok1(2)
    by (cases "a \<in> fst ` set m1") (auto simp: found_def watched_after_def split: option.splits if_splits)
  moreover have "bnd trimGoneTargets (\<lambda>_. acquireTargets clock) ((w, c), gc) = (Inr (), ((w, c), gc\<lparr>gcl_watchedAgents := m\<rparr>))"
    using 1 ar m(1) by (simp add: acquireTargets_def agr_getUntrackedAgents_def gc1_def)
  ultimately show ?thesis using m(2) by (intro exI [of _ m]) simp
qed

section \<open>The heartbeats\<close>

text \<open>An agent is alive for a watch when it does not ask for collection and has moved, or still has time.\<close>

definition alive :: "nat \<Rightarrow> watchdog \<Rightarrow> agent \<Rightarrow> bool" where
  "alive clock wd p \<longleftrightarrow> ag_gc_needed p \<noteq> Some True \<and> (ag_heartbeat p = wd_heartbeatCounter wd \<longrightarrow> clock - wd_timer wd \<le> wd_timeout wd)"

definition seen :: "nat \<Rightarrow> agent option \<Rightarrow> watchdog \<Rightarrow> watchdog" where
  "seen clock p wd = (case p of None \<Rightarrow> wd
     | Some p \<Rightarrow> if ag_heartbeat p \<noteq> wd_heartbeatCounter wd then wd\<lparr>wd_heartbeatCounter := ag_heartbeat p, wd_timer := clock\<rparr> else wd)"

lemma check_heartbeat_alive:
  assumes "case agents a of None \<Rightarrow> missing w a | Some p \<Rightarrow> stored ag_c w a p \<and> alive clock wd p" "wd_agent wd = a"
  shows "check_heartbeat env clock () (a, wd) ((w, c), gc)
    = (Inr (), ((w, c), gc\<lparr>gcl_watchedAgents := smap_put a (seen clock (agents a) wd) (gcl_watchedAgents gc)\<rparr>))"
proof -
  have "wd_checkAlive clock wd w = (Inr (True, seen clock (agents a) wd), w)"
  proof (cases "agents a")
    case None
    with assms wd_checkAlive_gone [of w wd clock] show ?thesis by (simp add: seen_def)
  next
    case (Some p)
    with assms wd_readGCData_stored [of w a p] show ?thesis
      by (auto simp: wd_checkAlive_def seen_def alive_def Let_def split: option.splits)
  qed
  then have "from_world (wd_checkAlive clock wd) ((w, c), gc) = (Inr (True, seen clock (agents a) wd), ((w, c), gc))"
    by (rule from_world_Inr)
  then show ?thesis by (simp add: check_heartbeat_def caught_def)
qed

lemma checkHeartbeats_alive:
  assumes "\<forall>(a, wd) \<in> set m. wd_agent wd = a \<and> (case agents a of None \<Rightarrow> missing w a | Some p \<Rightarrow> stored ag_c w a p \<and> alive clock wd p)"
    "smap_ok (gcl_watchedAgents gc)" "distinct (map fst m)"
  shows "\<exists>m'. foldM (check_heartbeat env clock) () m ((w, c), gc) = (Inr (), ((w, c), gc\<lparr>gcl_watchedAgents := m'\<rparr>)) \<and> smap_ok m'
    \<and> (\<forall>a. smap_get a m' = (case smap_get a m of Some wd \<Rightarrow> Some (seen clock (agents a) wd) | None \<Rightarrow> smap_get a (gcl_watchedAgents gc)))"
  using assms
proof (induction m arbitrary: gc)
  case Nil
  show ?case by (intro exI [of _ "gcl_watchedAgents gc"]) (simp add: smap_get_def Nil.prems(2))
next
  case (Cons x m)
  obtain a wd where x: "x = (a, wd)" by (cases x)
  define gc1 where "gc1 = gc\<lparr>gcl_watchedAgents := smap_put a (seen clock (agents a) wd) (gcl_watchedAgents gc)\<rparr>"
  have 1: "check_heartbeat env clock () x ((w, c), gc) = (Inr (), ((w, c), gc1))"
    using check_heartbeat_alive [of w a clock wd agents env c gc] Cons.prems(1) by (simp add: x gc1_def)
  have ok: "smap_ok (gcl_watchedAgents gc1)" using smap_put_ok [OF Cons.prems(2)] by (simp add: gc1_def)
  obtain m' where m': "foldM (check_heartbeat env clock) () m ((w, c), gc1) = (Inr (), ((w, c), gc1\<lparr>gcl_watchedAgents := m'\<rparr>))" "smap_ok m'"
    "\<forall>a. smap_get a m' = (case smap_get a m of Some wd \<Rightarrow> Some (seen clock (agents a) wd) | None \<Rightarrow> smap_get a (gcl_watchedAgents gc1))"
    using Cons.IH [OF _ ok] Cons.prems(1,3) by auto
  have "a \<notin> fst ` set m" using Cons.prems(3) by (simp add: x)
  then have "smap_get b m' = (case smap_get b (x # m) of Some wd \<Rightarrow> Some (seen clock (agents b) wd) | None \<Rightarrow> smap_get b (gcl_watchedAgents gc))" for b
    using spec [OF m'(3), of b] smap_get_put [OF Cons.prems(2), of b a "seen clock (agents a) wd"] smap_get_dom [of a m]
    by (cases "b = a") (auto simp: gc1_def x smap_get_def split: option.splits)
  then show ?case using 1 m'(1,2) by (intro exI [of _ m']) (simp add: gc1_def)
qed

section \<open>One pass\<close>

text \<open>The watches are well formed: one for each address, in order, and each on the agent of that address.\<close>

definition watching :: "(string, watchdog) std_map \<Rightarrow> bool" where
  "watching m \<longleftrightarrow> smap_ok m \<and> (\<forall>(a, wd) \<in> set m. wd_agent wd = a)"

lemma smap_get_iff: "smap_ok m \<Longrightarrow> (a, v) \<in> set m \<longleftrightarrow> smap_get a m = Some v"
  by (auto simp: smap_ok_def smap_get_def strict_sorted_iff)

lemma watched_after_agent:
  "watching m \<Longrightarrow> watched_after w clock rp agents m a = Some wd \<Longrightarrow> wd_agent wd = a"
  by (auto simp: watching_def watched_after_def new_watch_def smap_get_iff [symmetric] split: option.splits if_splits)

lemma new_watch_alive: "alive clock (new_watch clock a p) p \<longleftrightarrow> ag_gc_needed p \<noteq> Some True"
  by (simp add: alive_def new_watch_def)

text \<open>
  C19. One pass of the collector when no agent is dead: it returns and leaves the store as it is, so that nothing is taken
  from an agent that is alive. Afterwards the process watches exactly the agents it watched that are still registered, and
  the agents registered and not yet watched that are there, its own apart; an agent whose heartbeat has moved
  since has its timer started again, the others keep the one they have.
\<close>
theorem pass_over_live_agents:
  assumes reg: "stored agr_c w (gcl_agentRegister gc) rp" and m0: "watching (gcl_watchedAgents gc)"
    and agents: "agents_in w (set (agr_agents rp) \<union> set (agr_untrackedagents rp)) agents"
    and old: "\<forall>(a, wd) \<in> set (gcl_watchedAgents gc). a \<in> set (agr_agents rp) \<longrightarrow> (\<forall>p. agents a = Some p \<longrightarrow> alive clock wd p)"
    and new: "\<forall>a \<in> set (agr_untrackedagents rp). \<forall>p. agents a = Some p \<longrightarrow> ag_gc_needed p \<noteq> Some True"
  shows "\<exists>m. runOnePass env clock ((w, c), gc) = (Inr (), ((w, c), gc\<lparr>gcl_watchedAgents := m\<rparr>)) \<and> watching m
    \<and> (\<forall>a. smap_get a m = map_option (seen clock (agents a)) (watched_after w clock rp agents (gcl_watchedAgents gc) a))"
proof -
  have ok0: "smap_ok (gcl_watchedAgents gc)" using m0 by (simp add: watching_def)
  have ag1: "agents_in w (set (agr_untrackedagents rp)) agents" using agents by (simp add: agents_in_def)
  obtain m1 where 1: "bnd trimGoneTargets (\<lambda>_. acquireTargets clock) ((w, c), gc) = (Inr (), ((w, c), gc\<lparr>gcl_watchedAgents := m1\<rparr>))"
    "smap_ok m1" "\<forall>a. smap_get a m1 = watched_after w clock rp agents (gcl_watchedAgents gc) a"
    using targets_acquired [OF reg ag1 ok0, of clock c] by (elim exE conjE)
  have al: "wd_agent wd = a \<and> (case agents a of None \<Rightarrow> missing w a | Some p \<Rightarrow> stored ag_c w a p \<and> alive clock wd p)"
    if "(a, wd) \<in> set m1" for a wd
  proof -
    have wa: "watched_after w clock rp agents (gcl_watchedAgents gc) a = Some wd"
      using that smap_get_iff [OF 1(2)] spec [OF 1(3), of a] by simp
    then have reg: "a \<in> set (agr_agents rp) \<union> set (agr_untrackedagents rp)"
      by (auto simp: watched_after_def split: option.splits if_splits)
    have "alive clock wd p" if p: "agents a = Some p" for p
    proof (cases "a \<in> set (agr_agents rp) \<and> smap_get a (gcl_watchedAgents gc) \<noteq> None")
      case True
      then have "(a, wd) \<in> set (gcl_watchedAgents gc)" "a \<in> set (agr_agents rp)"
        using wa smap_get_iff [OF ok0] by (auto simp: watched_after_def split: if_splits)
      with old p show ?thesis by blast
    next
      case False
      then have "wd = new_watch clock a p" "a \<in> set (agr_untrackedagents rp)"
        using wa p by (auto simp: watched_after_def split: option.splits if_splits)
      with new p show ?thesis by (simp add: new_watch_alive)
    qed
    moreover have "case agents a of None \<Rightarrow> missing w a | Some p \<Rightarrow> stored ag_c w a p" using agents reg by (simp add: agents_in_def)
    ultimately show ?thesis using watched_after_agent [OF m0 wa] by (simp split: option.splits)
  qed
  define gc1 where "gc1 = gc\<lparr>gcl_watchedAgents := m1\<rparr>"
  have w1: "gcl_watchedAgents gc1 = m1" "distinct (map fst m1)" using 1(2) by (auto simp: gc1_def smap_ok_def strict_sorted_iff)
  obtain m where m: "foldM (check_heartbeat env clock) () m1 ((w, c), gc1) = (Inr (), ((w, c), gc1\<lparr>gcl_watchedAgents := m\<rparr>))" "smap_ok m"
    "\<forall>a. smap_get a m = (case smap_get a m1 of Some wd \<Rightarrow> Some (seen clock (agents a) wd) | None \<Rightarrow> smap_get a m1)"
    using checkHeartbeats_alive [of m1 w clock agents gc1 env c, unfolded w1] al 1(2) w1(2) by blast
  have get: "smap_get a m = map_option (seen clock (agents a)) (watched_after w clock rp agents (gcl_watchedAgents gc) a)" for a
    using spec [OF m(3), of a] spec [OF 1(3), of a, symmetric] by (cases "smap_get a m1") simp_all
  have "wd_agent wd = a" if "(a, wd) \<in> set m" for a wd
    using that smap_get_iff [OF m(2)] get [of a] watched_after_agent [OF m0] by (auto simp: seen_def split: option.splits)
  then have "watching m" using m(2) by (auto simp: watching_def)
  moreover have "runOnePass env clock ((w, c), gc) = (Inr (), ((w, c), gc\<lparr>gcl_watchedAgents := m\<rparr>))"
    using 1(1) m(1) w1(1) by (simp add: runOnePass_def bnd_assoc [symmetric] checkHeartbeats_def gc1_def)
  ultimately show ?thesis using get by (intro exI [of _ m]) simp
qed

text \<open>The agent \<open>A\<close> is watched and has moved, \<open>B\<close> is new, \<open>gone\<close> is watched and not registered any more.\<close>

definition smw_agent :: "u64 \<Rightarrow> agent" where
  "smw_agent n = \<lparr>ag_description = '''', ag_heartbeat = n, ag_timeout_us = 10, ag_ownedobjects = [],
     ag_being_garbage_collected = False, ag_gc_needed = None\<rparr>"

definition smw_register :: agent_register where
  "smw_register = \<lparr>agr_agents = [''me'', ''A'', ''B''], agr_untrackedagents = [''me'', ''B'']\<rparr>"

definition smw_header :: "payload \<Rightarrow> object_header" where
  "smw_header p = \<lparr>oh_version = 0, oh_owner = '''', oh_backupowner = '''', oh_payload = p\<rparr>"

definition smw_world :: world where
  "smw_world = \<lparr>objects = [''reg'' \<mapsto> smw_header (Payload_AgentRegister smw_register), ''me'' \<mapsto> smw_header (Payload_Agent (smw_agent 0)),
     ''A'' \<mapsto> smw_header (Payload_Agent (smw_agent 5)), ''B'' \<mapsto> smw_header (Payload_Agent (smw_agent 7))],
     lockFiles = (\<lambda>n. n \<in> {''reg'', ''me'', ''A'', ''B''}), agentAddress = ''me'', nextIdCounter = 0\<rparr>"

definition smw_agents :: "string \<Rightarrow> agent option" where
  "smw_agents = [''me'' \<mapsto> smw_agent 0, ''A'' \<mapsto> smw_agent 5, ''B'' \<mapsto> smw_agent 7]"

definition smw_collector :: collector where
  "smw_collector = \<lparr>gcl_agentRegister = ''reg'',
     gcl_watchedAgents = [(''A'', new_watch 1 ''A'' (smw_agent 4)), (''gone'', new_watch 1 ''gone'' (smw_agent 0))]\<rparr>"

lemma smw_stored:
  "stored agr_c smw_world (gcl_agentRegister smw_collector) smw_register"
  "agents_in smw_world (set (agr_agents smw_register) \<union> set (agr_untrackedagents smw_register)) smw_agents"
  by (simp_all add: stored_def agents_in_def smw_world_def smw_register_def smw_agents_def smw_collector_def smw_header_def codec_defs)

theorem pass_over_live_agents_witness:
  "\<forall>env c. \<exists>m. runOnePass env 100 ((smw_world, c), smw_collector) = (Inr (), ((smw_world, c), smw_collector\<lparr>gcl_watchedAgents := m\<rparr>))
    \<and> map (\<lambda>a. smap_get a m) [''A'', ''B'', ''me'', ''gone'']
      = [Some (new_watch 100 ''A'' (smw_agent 5)), Some (new_watch 100 ''B'' (smw_agent 7)), None, None]"
proof (intro allI)
  fix env c
  have 1: "watching (gcl_watchedAgents smw_collector)"
    by (simp add: watching_def smw_collector_def smap_ok_def new_watch_def)
  have 2: "\<forall>(a, wd) \<in> set (gcl_watchedAgents smw_collector). a \<in> set (agr_agents smw_register)
      \<longrightarrow> (\<forall>p. smw_agents a = Some p \<longrightarrow> alive 100 wd p)"
    by (simp add: smw_collector_def smw_register_def smw_agents_def alive_def new_watch_def smw_agent_def)
  have 3: "\<forall>a \<in> set (agr_untrackedagents smw_register). \<forall>p. smw_agents a = Some p \<longrightarrow> ag_gc_needed p \<noteq> Some True"
    by (simp add: smw_register_def smw_agents_def smw_agent_def)
  obtain m where m: "runOnePass env 100 ((smw_world, c), smw_collector) = (Inr (), ((smw_world, c), smw_collector\<lparr>gcl_watchedAgents := m\<rparr>))"
    "\<forall>a. smap_get a m = map_option (seen 100 (smw_agents a)) (watched_after smw_world 100 smw_register smw_agents (gcl_watchedAgents smw_collector) a)"
    using pass_over_live_agents [OF smw_stored(1) 1 smw_stored(2) 2 3, of env c] by (elim exE conjE)
  have "getAgentAddress smw_world = ''me''" by (simp add: getAgentAddress_def smw_world_def)
  then have "map (\<lambda>a. smap_get a m) [''A'', ''B'', ''me'', ''gone'']
      = [Some (new_watch 100 ''A'' (smw_agent 5)), Some (new_watch 100 ''B'' (smw_agent 7)), None, None]"
    by (simp only: list.map spec [OF m(2)])
      (simp add: watched_after_def smw_register_def smw_collector_def smw_agents_def seen_def new_watch_def smw_agent_def smap_get_def)
  with m(1) show "\<exists>m. runOnePass env 100 ((smw_world, c), smw_collector) = (Inr (), ((smw_world, c), smw_collector\<lparr>gcl_watchedAgents := m\<rparr>))
    \<and> map (\<lambda>a. smap_get a m) [''A'', ''B'', ''me'', ''gone'']
      = [Some (new_watch 100 ''A'' (smw_agent 5)), Some (new_watch 100 ''B'' (smw_agent 7)), None, None]"
    by (intro exI [of _ m]) simp
qed

end
