(* ===== verification/MountDecision.thy ===== *)
theory MountDecision
  imports Sorter Complex_Main
begin

text \<open>
  The mount decision of \<open>scheduler/Scheduler.cpp\<close>: from the queues that could be mounted and the mounts that exist, which
  tape a drive is to mount next. The catalogue, the sort of the standard library, whose order among equivalent elements is not
  specified, and the clock are in \<open>mount_env\<close>; the interface \<open>SchedulerDatabase\<close> is a record of programs on the state of
  the database. The log and the timings are left out. A \<open>double\<close> is a real number: the code only compares them and sets
  them to zero. The clock has one value during a decision.
\<close>

section \<open>Mount types\<close>

datatype MountType = ArchiveForUser | ArchiveForRepack | Retrieve | Label | NoMount | ArchiveAllTypes

definition getMountBasicType :: "MountType \<Rightarrow> MountType" where
  "getMountBasicType type = (case type of ArchiveForUser \<Rightarrow> ArchiveAllTypes | ArchiveForRepack \<Rightarrow> ArchiveAllTypes | _ \<Rightarrow> type)"

definition mt_toString :: "MountType \<Rightarrow> string" where
  "mt_toString type = (case type of
     ArchiveForUser \<Rightarrow> ''ARCHIVE_FOR_USER'' | ArchiveForRepack \<Rightarrow> ''ARCHIVE_FOR_REPACK'' | ArchiveAllTypes \<Rightarrow> ''ARCHIVE_ALL_TYPES''
   | Retrieve \<Rightarrow> ''RETRIEVE'' | Label \<Rightarrow> ''LABEL'' | NoMount \<Rightarrow> ''NO_MOUNT'')"

definition toCamelCaseString :: "MountType \<Rightarrow> string" where
  "toCamelCaseString type = (case type of
     ArchiveForUser \<Rightarrow> ''ArchiveForUser'' | ArchiveForRepack \<Rightarrow> ''ArchiveForRepack'' | ArchiveAllTypes \<Rightarrow> ''ArchiveAllTypes''
   | Retrieve \<Rightarrow> ''Retrieve'' | Label \<Rightarrow> ''Label'' | NoMount \<Rightarrow> ''-'')"

definition strToMountType :: "string \<Rightarrow> exn + MountType" where
  "strToMountType s =
     (if s = ''ARCHIVE_FOR_USER'' then Inr ArchiveForUser
      else if s = ''ARCHIVE_FOR_REPACK'' then Inr ArchiveForRepack
      else if s = ''ARCHIVE_ALL_TYPES'' then Inr ArchiveAllTypes
      else if s = ''RETRIEVE'' then Inr Retrieve
      else if s = ''LABEL'' then Inr Label
      else if s = ''NO_MOUNT'' then Inr NoMount
      else Inl (CtaException ''strToMountType''))"

lemma strToMountType_toString: "strToMountType s = Inr type \<longleftrightarrow> s = mt_toString type"
  by (cases type) (auto simp: strToMountType_def mt_toString_def split: if_splits)

section \<open>Potential and existing mounts\<close>

type_synonym label_format = "8 word"

record potential_mount =
  pm_type :: MountType
  pm_vid :: string
  pm_tapePool :: string
  pm_vo :: string
  pm_mediaType :: string
  pm_vendor :: string
  pm_capacityInBytes :: u64
  pm_labelFormat :: label_format
  pm_priority :: u64
  pm_minRequestAge :: time_t
  pm_filesQueued :: u64
  pm_bytesQueued :: u64
  pm_oldestJobStartTime :: time_t
  pm_youngestJobStartTime :: time_t
  pm_logicalLibrary :: string
  pm_ratioOfMountQuotaUsed :: real
  pm_sleepingMount :: bool
  pm_sleepStartTime :: time_t
  pm_diskSystemSleptFor :: string
  pm_sleepTime :: u64
  pm_mountCount :: u32
  pm_activity :: "string option"
  pm_highestPriorityMountPolicyName :: "string option"
  pm_lowestRequestAgeMountPolicyName :: "string option"
  pm_mountPolicyNames :: "string list option"

text \<open>\<open>PotentialMount::operator <\<close>: the smaller mount is the one to do later.\<close>

definition pm_less :: "potential_mount \<Rightarrow> potential_mount \<Rightarrow> bool" where
  "pm_less m other =
     (if pm_priority m < pm_priority other then True
      else if pm_priority m > pm_priority other then False
      else if pm_type m = ArchiveForUser \<and> pm_type other \<noteq> ArchiveForUser then False
      else if pm_type other = ArchiveForUser \<and> pm_type m \<noteq> ArchiveForUser then True
      else if pm_ratioOfMountQuotaUsed m > pm_ratioOfMountQuotaUsed other then True
      else if pm_ratioOfMountQuotaUsed m < pm_ratioOfMountQuotaUsed other then False
      else if pm_oldestJobStartTime other <s pm_oldestJobStartTime m then True
      else if pm_oldestJobStartTime m <s pm_oldestJobStartTime other then False
      else if pm_vid m < pm_vid other then False
      else if pm_vid m > pm_vid other then True
      else if pm_tapePool m < pm_tapePool other then False
      else pm_tapePool m > pm_tapePool other)"

record existing_mount =
  em_driveName :: string
  em_type :: MountType
  em_tapePool :: string
  em_vo :: string
  em_vid :: string
  em_currentMount :: bool
  em_bytesTransferred :: u64
  em_filesTransferred :: u64
  em_averageBandwidth :: real
  em_priority :: u64
  em_activity :: "string option"

text \<open>\<open>TapeMountDecisionInfo\<close>; its \<open>dedicationInfo\<close> is a map of empty entries that is not used.\<close>

record mount_info =
  mi_potentialMounts :: "potential_mount list"
  mi_existingOrNextMounts :: "existing_mount list"
  mi_queueTrimRequired :: bool

text \<open>What is used of the tapes, the virtual organizations and the libraries of the catalogue.\<close>

record tape_info =
  ti_logicalLibraryName :: string
  ti_tapePoolName :: string
  ti_vendor :: string
  ti_mediaType :: string
  ti_vo :: string
  ti_capacityInBytes :: u64
  ti_labelFormat :: label_format

record virtual_organization =
  vorg_name :: string
  vorg_readMaxDrives :: u64
  vorg_writeMaxDrives :: u64

record tape_for_writing =
  tfw_vid :: string
  tfw_mediaType :: string
  tfw_vendor :: string
  tfw_tapePool :: string
  tfw_vo :: string
  tfw_lastFSeq :: u64
  tfw_capacityInBytes :: u64
  tfw_dataOnTapeInBytes :: u64
  tfw_labelFormat :: label_format

record logical_library =
  ll_name :: string
  ll_isDisabled :: bool

record mount_env =
  me_now :: time_t
  me_minFilesToWarrantAMount :: u64
  me_minBytesToWarrantAMount :: u64
  me_hostName :: string
  me_labelFormat0 :: label_format
  me_getTapes :: "string \<Rightarrow> exn + string list"
  me_getTapesByVid :: "string set \<Rightarrow> exn + (string \<rightharpoonup> tape_info)"
  me_getCachedVirtualOrganizationOfTapepool :: "string \<Rightarrow> exn + virtual_organization"
  me_getTapesForWriting :: "string \<Rightarrow> exn + tape_for_writing list"
  me_getLogicalLibraries :: "exn + logical_library list"
  me_sort :: "potential_mount list \<Rightarrow> potential_mount list"

section \<open>Existing mounts\<close>

record mount_counts =
  mc_totalMounts :: u32
  mc_activityMounts :: "string \<rightharpoonup> u32"

type_synonym mount_summary_map = "string \<times> MountType \<rightharpoonup> mount_counts"

text \<open>The arguments that \<open>sortAndGetTapesForMountInfo\<close> adds to.\<close>

record mount_summary =
  ms_perTapepool :: mount_summary_map
  ms_perVo :: mount_summary_map
  ms_tapesInUse :: "string set"
  ms_tapeList :: "tape_for_writing list"

definition ms_empty :: mount_summary where
  "ms_empty = \<lparr>ms_perTapepool = Map.empty, ms_perVo = Map.empty, ms_tapesInUse = {}, ms_tapeList = []\<rparr>"

text \<open>\<open>operator[]\<close> and \<open>at(...).totalMounts\<close>, which is 0 for a key that is not there.\<close>

definition mc_at :: "string \<times> MountType \<Rightarrow> mount_summary_map \<Rightarrow> mount_counts" where
  "mc_at k s = (case s k of Some c \<Rightarrow> c | None \<Rightarrow> \<lparr>mc_totalMounts = 0, mc_activityMounts = Map.empty\<rparr>)"

definition mc_increment :: "string \<times> MountType \<Rightarrow> mount_summary_map \<Rightarrow> mount_summary_map" where
  "mc_increment k s = s(k \<mapsto> (mc_at k s)\<lparr>mc_totalMounts := mc_totalMounts (mc_at k s) + 1\<rparr>)"

definition mc_increment_activity :: "string \<Rightarrow> string \<times> MountType \<Rightarrow> mount_summary_map \<Rightarrow> mount_summary_map" where
  "mc_increment_activity a k s = s(k \<mapsto> (mc_at k s)\<lparr>mc_activityMounts :=
     (mc_activityMounts (mc_at k s))(a \<mapsto> (case mc_activityMounts (mc_at k s) a of Some n \<Rightarrow> n | None \<Rightarrow> 0) + 1)\<rparr>)"

text \<open>A mount of our own drive is a leftover.\<close>

definition count_existing :: "string \<Rightarrow> (string \<rightharpoonup> virtual_organization) \<Rightarrow> existing_mount \<Rightarrow> mount_summary \<Rightarrow> mount_summary" where
  "count_existing driveName tapepoolVoMap em s =
     (if em_driveName em \<noteq> driveName
      then let pool = (em_tapePool em, em_type em);
               s1 = s\<lparr>ms_perTapepool := mc_increment pool (ms_perTapepool s),
                      ms_perVo := mc_increment (vorg_name (the (tapepoolVoMap (em_tapePool em))), getMountBasicType (em_type em)) (ms_perVo s)\<rparr>;
               s2 = (case em_activity em of
                       Some a \<Rightarrow> s1\<lparr>ms_perTapepool := mc_increment_activity a pool (ms_perTapepool s1)\<rparr> | None \<Rightarrow> s1)
           in if em_vid em \<noteq> '''' then s2\<lparr>ms_tapesInUse := insert (em_vid em) (ms_tapesInUse s2)\<rparr> else s2
      else s)"

section \<open>Filtering and sorting the potential mounts\<close>

primrec filterR :: "('a \<Rightarrow> 'e + bool) \<Rightarrow> 'a list \<Rightarrow> 'e + 'a list" where
  "filterR f [] = Inr []"
| "filterR f (x # xs) = rbind (f x) (\<lambda>b. rbind (filterR f xs) (\<lambda>ys. Inr (if b then x # ys else ys)))"

text \<open>The details of a tape that the catalogue did not return are those of a new \<open>Tape\<close>, whose label format is not set.\<close>

definition fill_retrieve :: "label_format \<Rightarrow> (string \<rightharpoonup> tape_info) \<Rightarrow> potential_mount \<Rightarrow> potential_mount" where
  "fill_retrieve labelFormat0 retrieveTapesInfo m =
     (if pm_type m = Retrieve
      then let t = (case retrieveTapesInfo (pm_vid m) of Some t \<Rightarrow> t
                    | None \<Rightarrow> \<lparr>ti_logicalLibraryName = '''', ti_tapePoolName = '''', ti_vendor = '''', ti_mediaType = '''', ti_vo = '''',
                              ti_capacityInBytes = 0, ti_labelFormat = labelFormat0\<rparr>)
           in m\<lparr>pm_logicalLibrary := ti_logicalLibraryName t, pm_tapePool := ti_tapePoolName t, pm_vendor := ti_vendor t,
                pm_mediaType := ti_mediaType t, pm_vo := ti_vo t, pm_capacityInBytes := ti_capacityInBytes t,
                pm_labelFormat := ti_labelFormat t\<rparr>
      else m)"

text \<open>The organizations of the tape pools, asked for in the order of a \<open>std::set\<close>; an exception is thrown on as its base class.\<close>

definition tapepool_vos :: "mount_env \<Rightarrow> string list \<Rightarrow> exn + (string \<rightharpoonup> virtual_organization)" where
  "tapepool_vos env tapepools = foldR (\<lambda>m tapepool.
     rbind (sliced (me_getCachedVirtualOrganizationOfTapepool env tapepool)) (\<lambda>vo. Inr (m(tapepool \<mapsto> vo)))) Map.empty (remdups (sort tapepools))"

definition max_drives :: "virtual_organization \<Rightarrow> MountType \<Rightarrow> u64" where
  "max_drives vo basicType = (if basicType = Retrieve then vorg_readMaxDrives vo
     else if basicType = ArchiveAllTypes then vorg_writeMaxDrives vo else 0)"

text \<open>
  Whether a potential mount stays. The sum \<open>1 + effectiveExistingMounts\<close> has 32 bits; if it wraps to zero the division
  stops the process.
\<close>

definition warranted :: "mount_env \<Rightarrow> u32 \<Rightarrow> potential_mount \<Rightarrow> exn + bool" where
  "warranted env effective m =
     (let minBytes = (if pm_type m = ArchiveForRepack then me_minBytesToWarrantAMount env * 2 else me_minBytesToWarrantAMount env);
          minFiles = (if pm_type m = ArchiveForRepack then me_minFilesToWarrantAMount env * 2 else me_minFilesToWarrantAMount env);
          shares = 1 + effective
      in if shares = 0 then Inl Segfault
         else Inr (pm_bytesQueued m div ucast shares \<ge> minBytes \<or> pm_filesQueued m div ucast shares \<ge> minFiles
                   \<or> effective = 0 \<and> pm_minRequestAge m <s me_now env - pm_oldestJobStartTime m))"

definition mount_stays :: "mount_env \<Rightarrow> (string \<rightharpoonup> virtual_organization) \<Rightarrow> mount_summary \<Rightarrow> potential_mount \<Rightarrow> exn + bool" where
  "mount_stays env tapepoolVoMap s m =
     (let basicType = getMountBasicType (pm_type m);
          vo = the (tapepoolVoMap (pm_tapePool m));
          existingForPool = mc_totalMounts (mc_at (pm_tapePool m, pm_type m) (ms_perTapepool s));
          existingForVo = mc_totalMounts (mc_at (vorg_name vo, basicType) (ms_perVo s));
          effective = (if basicType = ArchiveAllTypes then existingForPool else 0)
      in rbind (warranted env effective m) (\<lambda>passes.
         Inr (passes \<and> \<not> ucast existingForVo \<ge> max_drives vo basicType \<and> \<not> pm_sleepingMount m)))"

definition sortAndGetTapesForMountInfo ::
  "mount_env \<Rightarrow> string \<Rightarrow> string \<Rightarrow> mount_info \<Rightarrow> mount_summary \<Rightarrow> exn + (mount_info \<times> mount_summary)" where
  "sortAndGetTapesForMountInfo env logicalLibraryName driveName mountInfo s =
     rbind (me_getTapes env logicalLibraryName) (\<lambda>eligibleTapes.
     let mounts = filter (\<lambda>m. pm_type m = Retrieve \<longrightarrow> pm_vid m \<in> set eligibleTapes) (mi_potentialMounts mountInfo);
         retrieveTapeSet = set (map pm_vid (filter (\<lambda>m. pm_type m = Retrieve) mounts)) in
     rbind (if retrieveTapeSet \<noteq> {}
            then rbind (me_getTapesByVid env retrieveTapeSet) (\<lambda>info. Inr (map (fill_retrieve (me_labelFormat0 env) info) mounts))
            else Inr mounts) (\<lambda>mounts.
     rbind (tapepool_vos env (map pm_tapePool mounts @ map em_tapePool (mi_existingOrNextMounts mountInfo))) (\<lambda>tapepoolVoMap.
     let s1 = fold (count_existing driveName tapepoolVoMap) (mi_existingOrNextMounts mountInfo) s in
     rbind (filterR (mount_stays env tapepoolVoMap s1) mounts) (\<lambda>mounts.
     let sorted = rev (me_sort env (map (\<lambda>m. m\<lparr>pm_ratioOfMountQuotaUsed := 0\<rparr>) mounts)) in
     rbind (if \<exists>m \<in> set sorted. getMountBasicType (pm_type m) = ArchiveAllTypes
            then me_getTapesForWriting env logicalLibraryName else Inr (ms_tapeList s1)) (\<lambda>tapeList.
     Inr (mountInfo\<lparr>mi_potentialMounts := sorted\<rparr>,
          s1\<lparr>ms_tapeList := filter (\<lambda>t. tfw_vid t \<notin> ms_tapesInUse s1) tapeList\<rparr>))))))"

section \<open>The next mount\<close>

definition getLogicalLibrary :: "mount_env \<Rightarrow> string \<Rightarrow> exn + logical_library option" where
  "getLogicalLibrary env libraryName = rbind (me_getLogicalLibraries env) (\<lambda>lls. Inr (find (\<lambda>ll. ll_name ll = libraryName) lls))"

text \<open>The arguments of the creation of a mount that describe the tape.\<close>

record mount_tape =
  mtp_vo :: string
  mtp_mediaType :: string
  mtp_vendor :: string
  mtp_capacityInBytes :: u64
  mtp_activity :: "string option"
  mtp_labelFormat :: label_format

record ('d, 'am, 'rm) scheduler_db =
  db_getMountInfo :: "('d, mount_info) prog"
  db_getMountInfoNoLock :: "('d, mount_info) prog"
  db_trimEmptyQueues :: "('d, unit) prog"
  db_createArchiveMount :: "MountType \<Rightarrow> tape_for_writing \<Rightarrow> string \<Rightarrow> string \<Rightarrow> string \<Rightarrow> mount_tape \<Rightarrow> ('d, 'am) prog"
  db_createRetrieveMount :: "string \<Rightarrow> string \<Rightarrow> string \<Rightarrow> string \<Rightarrow> string \<Rightarrow> mount_tape \<Rightarrow> ('d, 'rm) prog"

text \<open>A new mount holds its part in the database; its flags, all true for a running session, are left out.\<close>

datatype ('am, 'rm) tape_mount = ArchiveMount 'am | RetrieveMount 'rm

definition tfw_mount_tape :: "tape_for_writing \<Rightarrow> mount_tape" where
  "tfw_mount_tape t = \<lparr>mtp_vo = tfw_vo t, mtp_mediaType = tfw_mediaType t, mtp_vendor = tfw_vendor t,
     mtp_capacityInBytes = tfw_capacityInBytes t, mtp_activity = None, mtp_labelFormat = tfw_labelFormat t\<rparr>"

definition pm_mount_tape :: "potential_mount \<Rightarrow> mount_tape" where
  "pm_mount_tape m = \<lparr>mtp_vo = pm_vo m, mtp_mediaType = pm_mediaType m, mtp_vendor = pm_vendor m,
     mtp_capacityInBytes = pm_capacityInBytes m, mtp_activity = pm_activity m, mtp_labelFormat = pm_labelFormat m\<rparr>"

fun try_archive_tapes ::
  "mount_env \<Rightarrow> ('d, 'am, 'rm) scheduler_db \<Rightarrow> string \<Rightarrow> string \<Rightarrow> potential_mount \<Rightarrow> tape_for_writing list
   \<Rightarrow> ('d, ('am, 'rm) tape_mount option) prog" where
  "try_archive_tapes env db lib drive m [] = ret None"
| "try_archive_tapes env db lib drive m (t # ts) =
     (if tfw_tapePool t = pm_tapePool m
      then bnd (attempt (db_createArchiveMount db (pm_type m) t drive lib (me_hostName env) (tfw_mount_tape t))) (\<lambda>r. case r of
             Inl e \<Rightarrow> try_archive_tapes env db lib drive m ts
           | Inr am \<Rightarrow> ret (Some (ArchiveMount am)))
      else try_archive_tapes env db lib drive m ts)"

fun try_mounts ::
  "mount_env \<Rightarrow> ('d, 'am, 'rm) scheduler_db \<Rightarrow> string \<Rightarrow> string \<Rightarrow> mount_summary \<Rightarrow> potential_mount list
   \<Rightarrow> ('d, ('am, 'rm) tape_mount option) prog" where
  "try_mounts env db lib drive s [] = ret None"
| "try_mounts env db lib drive s (m # ms) =
     (if getMountBasicType (pm_type m) = ArchiveAllTypes
      then bnd (try_archive_tapes env db lib drive m (ms_tapeList s)) (\<lambda>r. case r of
             Some mount \<Rightarrow> ret (Some mount)
           | None \<Rightarrow> try_mounts env db lib drive s ms)
      else if pm_type m = Retrieve
      then if pm_vid m \<in> ms_tapesInUse s then try_mounts env db lib drive s ms
           else bnd (attempt (db_createRetrieveMount db (pm_vid m) (pm_tapePool m) drive lib (me_hostName env) (pm_mount_tape m))) (\<lambda>r. case r of
                  Inl e \<Rightarrow> try_mounts env db lib drive s ms
                | Inr rm \<Rightarrow> ret (Some (RetrieveMount rm)))
      else throw StdRuntimeError)"

definition getNextMount ::
  "mount_env \<Rightarrow> ('d, 'am, 'rm) scheduler_db \<Rightarrow> string \<Rightarrow> string \<Rightarrow> ('d, ('am, 'rm) tape_mount option) prog" where
  "getNextMount env db logicalLibraryName driveName =
     bnd (liftr (getLogicalLibrary env logicalLibraryName)) (\<lambda>logicalLibrary. case logicalLibrary of
       None \<Rightarrow> ret None
     | Some ll \<Rightarrow>
         if ll_isDisabled ll then ret None
         else bnd (db_getMountInfo db) (\<lambda>mountInfo.
              bnd (if mi_queueTrimRequired mountInfo then db_trimEmptyQueues db else ret ()) (\<lambda>_.
              bnd (liftr (sortAndGetTapesForMountInfo env logicalLibraryName driveName mountInfo ms_empty)) (\<lambda>(mountInfo, s).
              try_mounts env db logicalLibraryName driveName s (mi_potentialMounts mountInfo)))))"

text \<open>The dry run stops at the first mount that could be tried; mounts of another type are passed over.\<close>

definition could_mount :: "mount_summary \<Rightarrow> potential_mount \<Rightarrow> bool" where
  "could_mount s m \<longleftrightarrow>
     (if getMountBasicType (pm_type m) = ArchiveAllTypes then \<exists>t \<in> set (ms_tapeList s). tfw_tapePool t = pm_tapePool m
      else pm_type m = Retrieve \<and> pm_vid m \<notin> ms_tapesInUse s)"

definition getNextMountDryRun :: "mount_env \<Rightarrow> ('d, 'am, 'rm) scheduler_db \<Rightarrow> string \<Rightarrow> string \<Rightarrow> ('d, bool) prog" where
  "getNextMountDryRun env db logicalLibraryName driveName =
     bnd (liftr (getLogicalLibrary env logicalLibraryName)) (\<lambda>logicalLibrary. case logicalLibrary of
       None \<Rightarrow> ret False
     | Some ll \<Rightarrow>
         if ll_isDisabled ll then ret False
         else bnd (db_getMountInfoNoLock db) (\<lambda>mountInfo.
              bnd (liftr (sortAndGetTapesForMountInfo env logicalLibraryName driveName mountInfo ms_empty)) (\<lambda>(mountInfo, s).
              ret (\<exists>m \<in> set (mi_potentialMounts mountInfo). could_mount s m))))"

text \<open>
  \<open>getSchedulingInformations\<close>, for the drives of each library in the order of the libraries. The summaries are declared
  outside the loops: they go from one drive to the next, and so do the potential mounts within a library.
\<close>

definition scheduling_of_library ::
  "mount_env \<Rightarrow> ('d, 'am, 'rm) scheduler_db \<Rightarrow> mount_summary \<times> (string \<times> potential_mount list) list \<Rightarrow> string \<times> string list
   \<Rightarrow> ('d, mount_summary \<times> (string \<times> potential_mount list) list) prog" where
  "scheduling_of_library env db = (\<lambda>(s, infos) (lib, drives).
     bnd (db_getMountInfoNoLock db) (\<lambda>mountInfo.
     bnd (liftr (foldR (\<lambda>(mountInfo, s, pms) drive.
            rbind (sortAndGetTapesForMountInfo env lib drive mountInfo s) (\<lambda>(mountInfo, s).
            Inr (mountInfo, s, pms @ mi_potentialMounts mountInfo))) (mountInfo, s, []) drives)) (\<lambda>(mountInfo, s, pms).
     ret (s, if pms \<noteq> [] then infos @ [(lib, pms)] else infos))))"

definition getSchedulingInformations ::
  "mount_env \<Rightarrow> ('d, 'am, 'rm) scheduler_db \<Rightarrow> (string \<times> string) list \<Rightarrow> ('d, (string \<times> potential_mount list) list) prog" where
  "getSchedulingInformations env db driveStates =
     bnd (foldM (scheduling_of_library env db) (ms_empty, [])
            (fold (\<lambda>(driveName, logicalLibrary). smap_push logicalLibrary driveName) driveStates [])) (\<lambda>(s, infos).
     ret infos)"

end
