(* ===== verification/MountProperties.thy ===== *)
theory MountProperties
  imports MountDecision
begin

text \<open>
  Properties of the mount decision: the order of the potential mounts is one that can be sorted by; a mount that is
  created keeps the quota of its organization and takes no tape that is in use; and the dry run agrees with the real one.
\<close>

section \<open>The order of potential mounts\<close>

text \<open>\<open>operator <\<close> compares in turn: priority, user archives, quota used, age, tape and pool.\<close>

definition pm_same :: "potential_mount \<Rightarrow> potential_mount \<Rightarrow> bool" where
  "pm_same a b \<longleftrightarrow> pm_priority a = pm_priority b \<and> (pm_type a = ArchiveForUser \<longleftrightarrow> pm_type b = ArchiveForUser)
     \<and> pm_ratioOfMountQuotaUsed a = pm_ratioOfMountQuotaUsed b \<and> pm_oldestJobStartTime a = pm_oldestJobStartTime b
     \<and> pm_vid a = pm_vid b \<and> pm_tapePool a = pm_tapePool b"

lemma pm_less_lexicographic:
  "pm_less a b \<longleftrightarrow> pm_priority a < pm_priority b \<or> pm_priority a = pm_priority b \<and>
     (pm_type a \<noteq> ArchiveForUser \<and> pm_type b = ArchiveForUser \<or> (pm_type a = ArchiveForUser \<longleftrightarrow> pm_type b = ArchiveForUser) \<and>
     (pm_ratioOfMountQuotaUsed b < pm_ratioOfMountQuotaUsed a \<or> pm_ratioOfMountQuotaUsed a = pm_ratioOfMountQuotaUsed b \<and>
     (sint (pm_oldestJobStartTime b) < sint (pm_oldestJobStartTime a) \<or> sint (pm_oldestJobStartTime a) = sint (pm_oldestJobStartTime b) \<and>
     (pm_vid b < pm_vid a \<or> pm_vid a = pm_vid b \<and> pm_tapePool b < pm_tapePool a))))"
  unfolding pm_less_def word_sless_alt by auto

lemma pm_less_trans: "pm_less a b \<Longrightarrow> pm_less b c \<Longrightarrow> pm_less a c"
  unfolding pm_less_lexicographic by (elim disjE conjE) (auto intro: less_trans)

lemma sint_inject: "sint a = sint b \<Longrightarrow> a = (b :: time_t)"
  by (rule signed_word_eqI [where ?'a = int])

lemma pm_incomparable: "\<not> pm_less a b \<and> \<not> pm_less b a \<longleftrightarrow> pm_same a b"
  unfolding pm_less_lexicographic pm_same_def by (auto intro: sint_inject)

text \<open>So it is a strict weak order, which \<open>std::sort\<close> relies on.\<close>

lemma pm_less_strict_weak_order:
  "\<not> pm_less a a" "pm_less a b \<Longrightarrow> pm_less b c \<Longrightarrow> pm_less a c"
  "\<not> pm_less a b \<Longrightarrow> \<not> pm_less b c \<Longrightarrow> \<not> pm_less a c"
proof -
  show "\<not> pm_less a a" for a using pm_incomparable [of a a] by (simp add: pm_same_def)
  show "pm_less a b \<Longrightarrow> pm_less b c \<Longrightarrow> pm_less a c" by (rule pm_less_trans)
  show "\<not> pm_less a b \<Longrightarrow> \<not> pm_less b c \<Longrightarrow> \<not> pm_less a c"
    unfolding pm_less_lexicographic not_less de_Morgan_disj de_Morgan_conj by auto
qed

text \<open>What \<open>std::sort\<close> promises.\<close>

definition sorts :: "(potential_mount list \<Rightarrow> potential_mount list) \<Rightarrow> bool" where
  "sorts srt \<longleftrightarrow> (\<forall>ms. mset (srt ms) = mset ms \<and> sorted_wrt (\<lambda>a b. \<not> pm_less b a) (srt ms))"

fun pm_insert :: "potential_mount \<Rightarrow> potential_mount list \<Rightarrow> potential_mount list" where
  "pm_insert m [] = [m]"
| "pm_insert m (m' # ms) = (if pm_less m' m then m' # pm_insert m ms else m # m' # ms)"

lemma mset_pm_insert [simp]: "mset (pm_insert m ms) = add_mset m (mset ms)"
  by (induction ms) auto

lemma sorted_pm_insert: "sorted_wrt (\<lambda>a b. \<not> pm_less b a) ms \<Longrightarrow> sorted_wrt (\<lambda>a b. \<not> pm_less b a) (pm_insert m ms)"
proof (induction ms)
  case (Cons m' ms)
  have set: "set (pm_insert m ms) = insert m (set ms)" by (metis mset_pm_insert set_mset_add_mset_insert set_mset_mset)
  show ?case
  proof (cases "pm_less m' m")
    case True
    then have "\<not> pm_less m m'" using pm_less_trans pm_less_strict_weak_order(1) by blast
    with True Cons show ?thesis by (simp add: set)
  next
    case False
    then have "\<not> pm_less x m" if "x \<in> set (m' # ms)" for x
      using that Cons.prems pm_less_strict_weak_order(3) [of x m' m] by auto
    with False Cons.prems show ?thesis by simp
  qed
qed simp

text \<open>Sorting by insertion is such a sort.\<close>

lemma sorts_insertion: "sorts (\<lambda>ms. foldr pm_insert ms [])"
proof -
  have "mset (foldr pm_insert ms []) = mset ms \<and> sorted_wrt (\<lambda>a b. \<not> pm_less b a) (foldr pm_insert ms [])" for ms
    by (induction ms) (auto simp: sorted_pm_insert)
  then show ?thesis by (simp add: sorts_def)
qed

section \<open>Counting the existing mounts\<close>

definition vo_of :: "mount_env \<Rightarrow> string \<Rightarrow> virtual_organization" where
  "vo_of env tapepool = (case me_getCachedVirtualOrganizationOfTapepool env tapepool of Inr vo \<Rightarrow> vo)"

text \<open>The mounts on other drives, and of them those that count for the quota of an organization.\<close>

definition other_mounts :: "string \<Rightarrow> mount_info \<Rightarrow> existing_mount list" where
  "other_mounts driveName mi = filter (\<lambda>em. em_driveName em \<noteq> driveName) (mi_existingOrNextMounts mi)"

definition mounts_of_vo :: "mount_env \<Rightarrow> string \<Rightarrow> mount_info \<Rightarrow> string \<Rightarrow> MountType \<Rightarrow> nat" where
  "mounts_of_vo env driveName mi name basicType = length (filter (\<lambda>em. vorg_name (vo_of env (em_tapePool em)) = name
     \<and> getMountBasicType (em_type em) = basicType) (other_mounts driveName mi))"

text \<open>Of them those that share the jobs of an archive queue: of the same pool and of the same type.\<close>

definition mounts_of_pool :: "string \<Rightarrow> mount_info \<Rightarrow> string \<Rightarrow> MountType \<Rightarrow> nat" where
  "mounts_of_pool driveName mi pool type = length (filter (\<lambda>em. em_tapePool em = pool \<and> em_type em = type) (other_mounts driveName mi))"

definition in_use :: "string \<Rightarrow> mount_info \<Rightarrow> string set" where
  "in_use driveName mi = em_vid ` set (filter (\<lambda>em. em_vid em \<noteq> '''') (other_mounts driveName mi))"

lemma mc_increment_total:
  "mc_totalMounts (mc_at k (mc_increment k' s)) = (if k = k' then mc_totalMounts (mc_at k s) + 1 else mc_totalMounts (mc_at k s))"
  by (simp add: mc_at_def mc_increment_def)

lemma count_existing_all:
  assumes "\<forall>em \<in> set ems. vos (em_tapePool em) = Some (vo_of env (em_tapePool em))"
  shows "mc_totalMounts (mc_at (name, basicType) (ms_perVo (fold (count_existing driveName vos) ems s)))
      = mc_totalMounts (mc_at (name, basicType) (ms_perVo s)) + of_nat (length (filter (\<lambda>em. vorg_name (vo_of env (em_tapePool em)) = name
          \<and> getMountBasicType (em_type em) = basicType) (filter (\<lambda>em. em_driveName em \<noteq> driveName) ems)))"
    "ms_tapesInUse (fold (count_existing driveName vos) ems s)
      = ms_tapesInUse s \<union> em_vid ` set (filter (\<lambda>em. em_vid em \<noteq> '''') (filter (\<lambda>em. em_driveName em \<noteq> driveName) ems))"
    "ms_tapeList (fold (count_existing driveName vos) ems s) = ms_tapeList s"
proof -
  have step: "ms_perVo (count_existing driveName vos em s) = (if em_driveName em = driveName then ms_perVo s
        else mc_increment (vorg_name (the (vos (em_tapePool em))), getMountBasicType (em_type em)) (ms_perVo s))"
    "ms_tapesInUse (count_existing driveName vos em s) = (if em_driveName em = driveName \<or> em_vid em = '''' then ms_tapesInUse s
        else insert (em_vid em) (ms_tapesInUse s))"
    "ms_tapeList (count_existing driveName vos em s) = ms_tapeList s" for em s
    by (simp_all add: count_existing_def Let_def split: option.split)
  show "mc_totalMounts (mc_at (name, basicType) (ms_perVo (fold (count_existing driveName vos) ems s)))
      = mc_totalMounts (mc_at (name, basicType) (ms_perVo s)) + of_nat (length (filter (\<lambda>em. vorg_name (vo_of env (em_tapePool em)) = name
          \<and> getMountBasicType (em_type em) = basicType) (filter (\<lambda>em. em_driveName em \<noteq> driveName) ems)))"
    using assms by (induction ems arbitrary: s) (auto simp: step mc_increment_total)
  show "ms_tapesInUse (fold (count_existing driveName vos) ems s)
      = ms_tapesInUse s \<union> em_vid ` set (filter (\<lambda>em. em_vid em \<noteq> '''') (filter (\<lambda>em. em_driveName em \<noteq> driveName) ems))"
    by (induction ems arbitrary: s) (auto simp: step)
  show "ms_tapeList (fold (count_existing driveName vos) ems s) = ms_tapeList s"
    by (induction ems arbitrary: s) (auto simp: step)
qed

lemma count_existing_pool:
  "mc_totalMounts (mc_at (pool, type) (ms_perTapepool (fold (count_existing driveName vos) ems s)))
    = mc_totalMounts (mc_at (pool, type) (ms_perTapepool s)) + of_nat (length (filter (\<lambda>em. em_tapePool em = pool \<and> em_type em = type)
        (filter (\<lambda>em. em_driveName em \<noteq> driveName) ems)))"
proof -
  have activity: "mc_totalMounts (mc_at k (mc_increment_activity a k' t)) = mc_totalMounts (mc_at k t)" for a k k' t
    by (simp add: mc_at_def mc_increment_activity_def)
  have "mc_totalMounts (mc_at k (ms_perTapepool (count_existing driveName vos em s)))
      = mc_totalMounts (mc_at k (ms_perTapepool s)) + (if em_driveName em \<noteq> driveName \<and> k = (em_tapePool em, em_type em) then 1 else 0)" for k em s
    by (simp add: count_existing_def Let_def activity mc_increment_total split: option.split)
  then show ?thesis by (induction ems arbitrary: s) auto
qed

lemma sliced_Inr: "sliced r = Inr x \<longleftrightarrow> r = Inr x"
proof (cases r)
  case (Inl e)
  then show ?thesis by (cases e) (simp_all add: sliced_def)
qed (simp add: sliced_def)

lemma tapepool_vos_Inr:
  assumes "tapepool_vos env pools = Inr vos" "p \<in> set pools"
  shows "vos p = Some (vo_of env p)"
proof -
  have "foldR (\<lambda>m tapepool. rbind (sliced (me_getCachedVirtualOrganizationOfTapepool env tapepool)) (\<lambda>vo. Inr (m(tapepool \<mapsto> vo)))) m ps = Inr m'
    \<Longrightarrow> p \<in> set ps \<or> m p = Some (vo_of env p) \<Longrightarrow> m' p = Some (vo_of env p)" for m m' ps
  proof (induction ps arbitrary: m)
    case (Cons q ps)
    then obtain vo where "me_getCachedVirtualOrganizationOfTapepool env q = Inr vo" by (auto simp: rbind_Inr_iff sliced_Inr)
    with Cons show ?case by (cases "q = p") (auto simp: sliced_Inr vo_of_def sliced_def)
  qed simp
  from this [of Map.empty "remdups (sort pools)" vos] assms show ?thesis by (simp add: tapepool_vos_def)
qed

section \<open>What stays of the potential mounts\<close>

lemma filterR_Inr:
  "filterR f xs = Inr ys \<Longrightarrow> (\<forall>x \<in> set xs. \<exists>b. f x = Inr b) \<and> ys = filter (\<lambda>x. f x = Inr True) xs"
  by (induction xs arbitrary: ys) (auto simp: rbind_Inr_iff)

text \<open>
  A mount that may be done: the jobs that wait for it warrant a mount, given the mounts that already serve them; it is not
  put to sleep; with it the organization does not have more drives in use than it may have; and for a retrieve the tape is in
  the library of the drive.
\<close>

definition allowed :: "mount_env \<Rightarrow> string \<Rightarrow> string \<Rightarrow> mount_info \<Rightarrow> potential_mount \<Rightarrow> bool" where
  "allowed env lib drive mi m \<longleftrightarrow> \<not> pm_sleepingMount m
     \<and> warranted env (if getMountBasicType (pm_type m) = ArchiveAllTypes then of_nat (mounts_of_pool drive mi (pm_tapePool m) (pm_type m)) else 0) m = Inr True
     \<and> Suc (mounts_of_vo env drive mi (vorg_name (vo_of env (pm_tapePool m))) (getMountBasicType (pm_type m)))
         \<le> unat (max_drives (vo_of env (pm_tapePool m)) (getMountBasicType (pm_type m)))
     \<and> (pm_type m = Retrieve \<longrightarrow> (\<exists>vids. me_getTapes env lib = Inr vids \<and> pm_vid m \<in> set vids))"

lemma fill_retrieve_same [simp]:
  "pm_type (fill_retrieve f info m) = pm_type m" "pm_vid (fill_retrieve f info m) = pm_vid m"
  by (simp_all add: fill_retrieve_def Let_def)

text \<open>
  A mount that was proposed, in every field: only the quota ratio is cleared, and for a retrieve the pool and the other details of
  the tape are those the catalogue gave for it.
\<close>

definition queued :: "mount_env \<Rightarrow> mount_info \<Rightarrow> potential_mount \<Rightarrow> bool" where
  "queued env mi m \<longleftrightarrow> (\<exists>m0 \<in> set (mi_potentialMounts mi). \<exists>info.
     m = (fill_retrieve (me_labelFormat0 env) info m0)\<lparr>pm_ratioOfMountQuotaUsed := 0\<rparr>
     \<and> (pm_type m0 = Retrieve \<longrightarrow> (\<exists>vids. pm_vid m0 \<in> vids \<and> me_getTapesByVid env vids = Inr info)))"

lemma queued_other:
  "m \<in> set (mi_potentialMounts mi) \<Longrightarrow> pm_type m \<noteq> Retrieve \<Longrightarrow> queued env mi (m\<lparr>pm_ratioOfMountQuotaUsed := 0\<rparr>)"
  by (auto simp: queued_def fill_retrieve_def intro!: bexI [of _ m])

lemma queued_fill:
  "m \<in> set (mi_potentialMounts mi) \<Longrightarrow> me_getTapesByVid env vids = Inr info \<Longrightarrow> (pm_type m = Retrieve \<longrightarrow> pm_vid m \<in> vids) \<Longrightarrow>
     queued env mi ((fill_retrieve (me_labelFormat0 env) info m)\<lparr>pm_ratioOfMountQuotaUsed := 0\<rparr>)"
  unfolding queued_def by (intro bexI [of _ m] exI [of _ info]) auto

text \<open>The parts of a call that returned.\<close>

lemma sortAndGetTapes_parts:
  assumes "sortAndGetTapesForMountInfo env lib drive mi s = Inr (mi', s')"
  shows "\<exists>vids mounts vos s1 kept tapeList. me_getTapes env lib = Inr vids
    \<and> (\<forall>m \<in> set mounts. queued env mi (m\<lparr>pm_ratioOfMountQuotaUsed := 0\<rparr>) \<and> (pm_type m = Retrieve \<longrightarrow> pm_vid m \<in> set vids))
    \<and> tapepool_vos env (map pm_tapePool mounts @ map em_tapePool (mi_existingOrNextMounts mi)) = Inr vos
    \<and> s1 = fold (count_existing drive vos) (mi_existingOrNextMounts mi) s
    \<and> filterR (mount_stays env vos s1) mounts = Inr kept
    \<and> mi_potentialMounts mi' = rev (me_sort env (map (\<lambda>m. m\<lparr>pm_ratioOfMountQuotaUsed := 0\<rparr>) kept))
    \<and> (me_getTapesForWriting env lib = Inr tapeList \<or> tapeList = ms_tapeList s1)
    \<and> s' = s1\<lparr>ms_tapeList := filter (\<lambda>t. tfw_vid t \<notin> ms_tapesInUse s1) tapeList\<rparr>"
proof -
  from assms obtain vids where vids: "me_getTapes env lib = Inr vids"
    by (auto simp: sortAndGetTapesForMountInfo_def rbind_Inr_iff)
  define ms0 where "ms0 = filter (\<lambda>m. pm_type m = Retrieve \<longrightarrow> pm_vid m \<in> set vids) (mi_potentialMounts mi)"
  define vset where "vset = set (map pm_vid (filter (\<lambda>m. pm_type m = Retrieve) ms0))"
  define filled where "filled = (if vset \<noteq> {}
            then rbind (me_getTapesByVid env vset) (\<lambda>info. Inr (map (fill_retrieve (me_labelFormat0 env) info) ms0)) else Inr ms0)"
  note r = assms [unfolded sortAndGetTapesForMountInfo_def vids rbind_simps Let_def ms0_def [symmetric] vset_def [symmetric] filled_def [symmetric]]
  from r obtain mounts where mounts: "filled = Inr mounts" by (cases filled) auto
  have el: "\<forall>m \<in> set mounts. queued env mi (m\<lparr>pm_ratioOfMountQuotaUsed := 0\<rparr>) \<and> (pm_type m = Retrieve \<longrightarrow> pm_vid m \<in> set vids)"
  proof (cases "vset = {}")
    case True
    then have "mounts = ms0" using mounts by (simp add: filled_def)
    moreover have "queued env mi (m\<lparr>pm_ratioOfMountQuotaUsed := 0\<rparr>) \<and> (pm_type m = Retrieve \<longrightarrow> pm_vid m \<in> set vids)" if "m \<in> set ms0" for m
    proof -
      have "pm_type m \<noteq> Retrieve" using that True by (auto simp: vset_def)
      moreover from this have "queued env mi (m\<lparr>pm_ratioOfMountQuotaUsed := 0\<rparr>)"
        by (rule queued_other [rotated]) (use that in \<open>simp add: ms0_def\<close>)
      ultimately show ?thesis by simp
    qed
    ultimately show ?thesis by simp
  next
    case False
    with mounts obtain info where info: "me_getTapesByVid env vset = Inr info" "mounts = map (fill_retrieve (me_labelFormat0 env) info) ms0"
      by (auto simp: filled_def rbind_Inr_iff)
    have "queued env mi ((fill_retrieve (me_labelFormat0 env) info m)\<lparr>pm_ratioOfMountQuotaUsed := 0\<rparr>)
        \<and> (pm_type m = Retrieve \<longrightarrow> pm_vid m \<in> set vids)" if "m \<in> set ms0" for m
    proof (intro conjI queued_fill [OF _ info(1)])
      show "m \<in> set (mi_potentialMounts mi)" "pm_type m = Retrieve \<longrightarrow> pm_vid m \<in> set vids" using that by (simp_all add: ms0_def)
      show "pm_type m = Retrieve \<longrightarrow> pm_vid m \<in> vset" using that by (simp add: vset_def)
    qed
    then show ?thesis by (simp add: info(2))
  qed
  note r = r [unfolded mounts rbind_simps]
  from r obtain vos where vos: "tapepool_vos env (map pm_tapePool mounts @ map em_tapePool (mi_existingOrNextMounts mi)) = Inr vos"
    by (auto simp: rbind_Inr_iff)
  define s1 where "s1 = fold (count_existing drive vos) (mi_existingOrNextMounts mi) s"
  note r = r [unfolded vos rbind_simps s1_def [symmetric]]
  from r obtain kept where kept: "filterR (mount_stays env vos s1) mounts = Inr kept" by (auto simp: rbind_Inr_iff)
  note r = r [unfolded kept rbind_simps]
  define tapes where "tapes = (if \<exists>m \<in> set (rev (me_sort env (map (\<lambda>m. m\<lparr>pm_ratioOfMountQuotaUsed := 0\<rparr>) kept))).
      getMountBasicType (pm_type m) = ArchiveAllTypes then me_getTapesForWriting env lib else Inr (ms_tapeList s1))"
  note r = r [folded tapes_def]
  from r obtain tapeList where tapeList: "tapes = Inr tapeList"
    and pms: "mi_potentialMounts mi' = rev (me_sort env (map (\<lambda>m. m\<lparr>pm_ratioOfMountQuotaUsed := 0\<rparr>) kept))"
    and s': "s' = s1\<lparr>ms_tapeList := filter (\<lambda>t. tfw_vid t \<notin> ms_tapesInUse s1) tapeList\<rparr>"
    by (cases tapes) auto
  have "me_getTapesForWriting env lib = Inr tapeList \<or> tapeList = ms_tapeList s1"
    using tapeList unfolding tapes_def by (cases "\<exists>m \<in> set (rev (me_sort env (map (\<lambda>m. m\<lparr>pm_ratioOfMountQuotaUsed := 0\<rparr>) kept))).
      getMountBasicType (pm_type m) = ArchiveAllTypes") (simp_all only: if_True if_False sum.inject simp_thms)
  with vids el vos kept s1_def pms s' show ?thesis by (intro exI conjI)
qed

lemma unat_ucast_u64: "unat (ucast (x :: u32) :: u64) = unat x"
proof -
  have "unat x < 2 ^ 64" using unsigned_less [of x, where ?'a = nat] by simp
  then show ?thesis by (simp add: unsigned_ucast_eq take_bit_nat_eq_self)
qed

lemma mounts_sorted:
  assumes srt: "sorts (me_sort env)" and few: "length (mi_existingOrNextMounts mi) < 2 ^ 32"
    and r: "sortAndGetTapesForMountInfo env lib drive mi ms_empty = Inr (mi', s')"
  shows "\<forall>m \<in> set (mi_potentialMounts mi'). queued env mi m \<and> allowed env lib drive mi m"
    "sorted_wrt (\<lambda>a b. \<not> pm_less a b) (mi_potentialMounts mi')"
    "ms_tapesInUse s' = in_use drive mi"
    "\<forall>t \<in> set (ms_tapeList s'). tfw_vid t \<notin> in_use drive mi \<and> (\<exists>ts. me_getTapesForWriting env lib = Inr ts \<and> t \<in> set ts)"
proof -
  let ?ems = "mi_existingOrNextMounts mi"
  obtain vids mounts vos s1 kept tapeList where
    vids: "me_getTapes env lib = Inr vids" and mounts: "\<forall>m \<in> set mounts. queued env mi (m\<lparr>pm_ratioOfMountQuotaUsed := 0\<rparr>) \<and> (pm_type m = Retrieve \<longrightarrow> pm_vid m \<in> set vids)" and
    vos: "tapepool_vos env (map pm_tapePool mounts @ map em_tapePool ?ems) = Inr vos" and
    s1: "s1 = fold (count_existing drive vos) ?ems ms_empty" and
    kept: "filterR (mount_stays env vos s1) mounts = Inr kept" and
    pms: "mi_potentialMounts mi' = rev (me_sort env (map (\<lambda>m. m\<lparr>pm_ratioOfMountQuotaUsed := 0\<rparr>) kept))" and
    tl: "me_getTapesForWriting env lib = Inr tapeList \<or> tapeList = ms_tapeList s1" and
    s': "s' = s1\<lparr>ms_tapeList := filter (\<lambda>t. tfw_vid t \<notin> ms_tapesInUse s1) tapeList\<rparr>"
    using sortAndGetTapes_parts [OF r] by (elim exE conjE)
  have vo: "vos (em_tapePool em) = Some (vo_of env (em_tapePool em))" if "em \<in> set ?ems" for em
    using tapepool_vos_Inr [OF vos] that by simp
  have count: "unat (mc_totalMounts (mc_at (name, basicType) (ms_perVo s1))) = mounts_of_vo env drive mi name basicType" for name basicType
  proof -
    have "mc_totalMounts (mc_at (name, basicType) (ms_perVo s1)) = of_nat (mounts_of_vo env drive mi name basicType)"
      unfolding s1 using count_existing_all(1) [of ?ems vos env name basicType drive ms_empty] vo
      by (simp add: mounts_of_vo_def other_mounts_def ms_empty_def mc_at_def)
    moreover have "mounts_of_vo env drive mi name basicType < 2 ^ 32"
      using few by (simp add: mounts_of_vo_def other_mounts_def) (meson le_less_trans length_filter_le)
    ultimately show ?thesis by (simp add: unat_of_nat take_bit_nat_eq_self)
  qed
  have use: "ms_tapesInUse s1 = in_use drive mi" "ms_tapeList s1 = []"
    unfolding s1 using count_existing_all(2,3) [of ?ems vos env] vo by (simp_all add: in_use_def other_mounts_def ms_empty_def)
  have pool: "mc_totalMounts (mc_at (p, type) (ms_perTapepool s1)) = of_nat (mounts_of_pool drive mi p type)" for p type
    unfolding s1 using count_existing_pool [of p type drive vos ?ems ms_empty] by (simp add: mounts_of_pool_def other_mounts_def ms_empty_def mc_at_def)
  have ratio: "warranted env k (m\<lparr>pm_ratioOfMountQuotaUsed := 0\<rparr>) = warranted env k m" for k m
    by (simp add: warranted_def Let_def)
  then have same: "allowed env lib drive mi (m\<lparr>pm_ratioOfMountQuotaUsed := 0\<rparr>) = allowed env lib drive mi m" for m
    by (simp add: allowed_def)
  have ok: "queued env mi (m\<lparr>pm_ratioOfMountQuotaUsed := 0\<rparr>) \<and> allowed env lib drive mi m" if m: "m \<in> set kept" for m
  proof -
    have "m \<in> set mounts" "mount_stays env vos s1 m = Inr True" using filterR_Inr [OF kept] m by auto
    moreover have "vos (pm_tapePool m) = Some (vo_of env (pm_tapePool m))" using tapepool_vos_Inr [OF vos] calculation(1) by simp
    ultimately show ?thesis using mounts vids
      by (auto simp: allowed_def mount_stays_def Let_def rbind_Inr_iff not_le word_less_nat_alt count pool unat_ucast_u64)
  qed
  have "set (mi_potentialMounts mi') = (\<lambda>m. m\<lparr>pm_ratioOfMountQuotaUsed := 0\<rparr>) ` set kept"
    using srt unfolding pms sorts_def by (metis set_rev set_mset_mset list.set_map)
  then show "\<forall>m \<in> set (mi_potentialMounts mi'). queued env mi m \<and> allowed env lib drive mi m"
    using ok by (auto simp: same)
  show "sorted_wrt (\<lambda>a b. \<not> pm_less a b) (mi_potentialMounts mi')" using srt by (simp add: pms sorts_def sorted_wrt_rev)
  show "ms_tapesInUse s' = in_use drive mi" by (simp add: s' use)
  show "\<forall>t \<in> set (ms_tapeList s'). tfw_vid t \<notin> in_use drive mi \<and> (\<exists>ts. me_getTapesForWriting env lib = Inr ts \<and> t \<in> set ts)"
    using tl by (auto simp: s' use)
qed

section \<open>Creating the mount\<close>

text \<open>The mount was created for a candidate by the call that took the state from \<open>d\<close> to \<open>d'\<close>.\<close>

definition made :: "mount_env \<Rightarrow> ('d, 'am, 'rm) scheduler_db \<Rightarrow> string \<Rightarrow> string \<Rightarrow> mount_summary \<Rightarrow> potential_mount
    \<Rightarrow> ('am, 'rm) tape_mount \<Rightarrow> 'd \<Rightarrow> 'd \<Rightarrow> bool" where
  "made env db lib drive s m mount d d' \<longleftrightarrow> (case mount of
     ArchiveMount am \<Rightarrow> getMountBasicType (pm_type m) = ArchiveAllTypes \<and> (\<exists>t \<in> set (ms_tapeList s). tfw_tapePool t = pm_tapePool m
       \<and> db_createArchiveMount db (pm_type m) t drive lib (me_hostName env) (tfw_mount_tape t) d = (Inr am, d'))
   | RetrieveMount rm \<Rightarrow> pm_type m = Retrieve \<and> pm_vid m \<notin> ms_tapesInUse s
       \<and> db_createRetrieveMount db (pm_vid m) (pm_tapePool m) drive lib (me_hostName env) (pm_mount_tape m) d = (Inr rm, d'))"

lemma attempt_cases:
  "attempt p d = (case p d of (Inl e, d') \<Rightarrow> if is_cta_exception e then (Inr (Inl e), d') else (Inl e, d') | (Inr x, d') \<Rightarrow> (Inr (Inr x), d'))"
  by (simp add: attempt_def)

lemma try_archive_tapes_made:
  "try_archive_tapes env db lib drive m ts d = (Inr (Some mount), d') \<Longrightarrow>
   \<exists>t \<in> set ts. \<exists>am d1. mount = ArchiveMount am \<and> tfw_tapePool t = pm_tapePool m
     \<and> db_createArchiveMount db (pm_type m) t drive lib (me_hostName env) (tfw_mount_tape t) d1 = (Inr am, d')"
proof (induction ts arbitrary: d)
  case (Cons t ts)
  show ?case
  proof (cases "tfw_tapePool t = pm_tapePool m")
    case True
    obtain r d1 where c: "db_createArchiveMount db (pm_type m) t drive lib (me_hostName env) (tfw_mount_tape t) d = (r, d1)" by force
    with True Cons.prems show ?thesis
      by (cases r) (auto simp: bnd_def attempt_cases ret_def split: if_splits dest: Cons.IH)
  next
    case False
    with Cons show ?thesis by auto
  qed
qed (simp add: ret_def)

lemma try_mounts_made:
  "try_mounts env db lib drive s ms d = (Inr (Some mount), d') \<Longrightarrow> \<exists>m \<in> set ms. \<exists>d1. made env db lib drive s m mount d1 d'"
proof (induction ms arbitrary: d)
  case (Cons m ms)
  consider (archive) "getMountBasicType (pm_type m) = ArchiveAllTypes" | (used) "pm_type m = Retrieve" "pm_vid m \<in> ms_tapesInUse s"
    | (retrieve) "pm_type m = Retrieve" "pm_vid m \<notin> ms_tapesInUse s"
    | (other) "getMountBasicType (pm_type m) \<noteq> ArchiveAllTypes" "pm_type m \<noteq> Retrieve" by blast
  then show ?case
  proof cases
    case archive
    obtain r d1 where t: "try_archive_tapes env db lib drive m (ms_tapeList s) d = (r, d1)" by force
    show ?thesis
    proof (cases "r = Inr (Some mount) \<and> d1 = d'")
      case True
      with try_archive_tapes_made [of env db lib drive m "ms_tapeList s" d mount d'] t archive show ?thesis
        by (fastforce simp: made_def)
    next
      case False
      with Cons t archive show ?thesis by (auto simp: bnd_def ret_def split: sum.splits option.splits)
    qed
  next
    case retrieve
    obtain r d1 where "db_createRetrieveMount db (pm_vid m) (pm_tapePool m) drive lib (me_hostName env) (pm_mount_tape m) d = (r, d1)" by force
    with retrieve Cons.prems show ?thesis
      by (cases r) (auto simp: bnd_def attempt_cases ret_def getMountBasicType_def made_def split: if_splits dest: Cons.IH)
  qed (use Cons in \<open>auto simp: getMountBasicType_def throw_def\<close>)
qed (simp add: ret_def)

lemma getNextMount_parts:
  assumes r: "getNextMount env db lib drive d = (Inr (Some mount), d')" and info: "db_getMountInfo db d = (Inr mi, d1)"
  shows "\<exists>ll mi' s' d2. getLogicalLibrary env lib = Inr (Some ll) \<and> \<not> ll_isDisabled ll
    \<and> sortAndGetTapesForMountInfo env lib drive mi ms_empty = Inr (mi', s')
    \<and> try_mounts env db lib drive s' (mi_potentialMounts mi') d2 = (Inr (Some mount), d')"
proof -
  from r obtain ll where ll: "getLogicalLibrary env lib = Inr (Some ll)" "\<not> ll_isDisabled ll"
    by (auto simp: getNextMount_def bnd_def liftr_def ret_def split: sum.splits option.splits if_splits)
  obtain rt d2 where trim: "(if mi_queueTrimRequired mi then db_trimEmptyQueues db else ret ()) d1 = (rt, d2)" by force
  note r = r [unfolded getNextMount_def bnd_def liftr_def ll info]
  from r ll trim obtain mi' s' where "sortAndGetTapesForMountInfo env lib drive mi ms_empty = Inr (mi', s')"
    "try_mounts env db lib drive s' (mi_potentialMounts mi') d2 = (Inr (Some mount), d')"
    by (auto simp: info bnd_def split: sum.splits prod.splits)
  with ll show ?thesis by blast
qed

text \<open>
  C16. A mount that \<open>getNextMount\<close> returns is one that may be done. The logical library exists and is not disabled. The
  mount was created, by the last call on the database, for one of the mounts that were proposed, with the details of the
  tape from the catalogue for a retrieve; that one is not put to sleep, and the files or bytes that wait for each of the mounts
  that serve them, or for a first mount the age of the oldest, warrant a mount; with this mount the organization of the tape
  pool does not use more drives than its quota for the direction; and the tape is not on another drive. For an archive the
  tape is one of those the catalogue gives for writing in the library, and of the pool of the mount; for a retrieve it is
  the tape of the mount, and it is in the library. The sort is any that does what \<open>std::sort\<close> promises, and there
  are fewer than \<open>2 ^ 32\<close> existing mounts.
\<close>
theorem getNextMount_allowed:
  assumes "sorts (me_sort env)" "length (mi_existingOrNextMounts mi) < 2 ^ 32"
    and "db_getMountInfo db d = (Inr mi, d1)" "getNextMount env db lib drive d = (Inr (Some mount), d')"
  shows "(\<exists>ll. getLogicalLibrary env lib = Inr (Some ll) \<and> \<not> ll_isDisabled ll) \<and>
    (\<exists>m d2. queued env mi m \<and> allowed env lib drive mi m \<and>
      (case mount of
         ArchiveMount am \<Rightarrow> pm_type m \<in> {ArchiveForUser, ArchiveForRepack, ArchiveAllTypes} \<and>
           (\<exists>ts t. me_getTapesForWriting env lib = Inr ts \<and> t \<in> set ts \<and> tfw_tapePool t = pm_tapePool m \<and> tfw_vid t \<notin> in_use drive mi
             \<and> db_createArchiveMount db (pm_type m) t drive lib (me_hostName env) (tfw_mount_tape t) d2 = (Inr am, d'))
       | RetrieveMount rm \<Rightarrow> pm_type m = Retrieve \<and> pm_vid m \<notin> in_use drive mi
           \<and> db_createRetrieveMount db (pm_vid m) (pm_tapePool m) drive lib (me_hostName env) (pm_mount_tape m) d2 = (Inr rm, d')))"
proof -
  obtain ll mi' s' d2 where ll: "getLogicalLibrary env lib = Inr (Some ll)" "\<not> ll_isDisabled ll"
    and sort: "sortAndGetTapesForMountInfo env lib drive mi ms_empty = Inr (mi', s')"
    and tried: "try_mounts env db lib drive s' (mi_potentialMounts mi') d2 = (Inr (Some mount), d')"
    using getNextMount_parts [OF assms(4,3)] by (elim exE conjE)
  obtain m d3 where m: "m \<in> set (mi_potentialMounts mi')" and made: "made env db lib drive s' m mount d3 d'"
    using try_mounts_made [OF tried] by (elim exE bexE)
  note kept = mounts_sorted [OF assms(1,2) sort]
  have archives: "getMountBasicType (pm_type m) = ArchiveAllTypes \<Longrightarrow> pm_type m \<in> {ArchiveForUser, ArchiveForRepack, ArchiveAllTypes}"
    by (simp add: getMountBasicType_def split: MountType.splits)
  have tapes: "t \<in> set (ms_tapeList s') \<Longrightarrow> tfw_vid t \<notin> in_use drive mi \<and> (\<exists>ts. me_getTapesForWriting env lib = Inr ts \<and> t \<in> set ts)" for t
    using kept(4) by blast
  have "queued env mi m" "allowed env lib drive mi m" using kept(1) m by simp_all
  moreover have "case mount of
         ArchiveMount am \<Rightarrow> pm_type m \<in> {ArchiveForUser, ArchiveForRepack, ArchiveAllTypes} \<and>
           (\<exists>ts t. me_getTapesForWriting env lib = Inr ts \<and> t \<in> set ts \<and> tfw_tapePool t = pm_tapePool m \<and> tfw_vid t \<notin> in_use drive mi
             \<and> db_createArchiveMount db (pm_type m) t drive lib (me_hostName env) (tfw_mount_tape t) d3 = (Inr am, d'))
       | RetrieveMount rm \<Rightarrow> pm_type m = Retrieve \<and> pm_vid m \<notin> in_use drive mi
           \<and> db_createRetrieveMount db (pm_vid m) (pm_tapePool m) drive lib (me_hostName env) (pm_mount_tape m) d3 = (Inr rm, d')"
    using made archives tapes kept(3) by (cases mount) (force simp: made_def)+
  ultimately show ?thesis using ll by blast
qed

section \<open>The dry run\<close>

text \<open>
  In the state \<open>d\<close> the database creates a mount for any tape, of the types for which there are queues. That is so for the
  database over the object store once the mount information has been fetched under the lock.
\<close>

definition creates_at :: "('d, 'am, 'rm) scheduler_db \<Rightarrow> 'd \<Rightarrow> bool" where
  "creates_at db d \<longleftrightarrow>
     (\<forall>type t drive lib host tape. type \<in> {ArchiveForUser, ArchiveForRepack} \<longrightarrow> (\<exists>am d'. db_createArchiveMount db type t drive lib host tape d = (Inr am, d')))
     \<and> (\<forall>vid pool drive lib host tape. \<exists>rm d'. db_createRetrieveMount db vid pool drive lib host tape d = (Inr rm, d'))"

definition mountable :: "MountType \<Rightarrow> bool" where
  "mountable type \<longleftrightarrow> type \<in> {ArchiveForUser, ArchiveForRepack, Retrieve}"

lemma try_archive_tapes_creates:
  assumes "creates_at db d" and "pm_type m \<in> {ArchiveForUser, ArchiveForRepack}"
  shows "\<exists>r d'. try_archive_tapes env db lib drive m ts d = (Inr r, d') \<and> (case find (\<lambda>t. tfw_tapePool t = pm_tapePool m) ts of
     None \<Rightarrow> r = None \<and> d' = d
   | Some t \<Rightarrow> \<exists>am. r = Some (ArchiveMount am) \<and> db_createArchiveMount db (pm_type m) t drive lib (me_hostName env) (tfw_mount_tape t) d = (Inr am, d'))"
proof (induction ts)
  case (Cons t ts)
  obtain am d' where "db_createArchiveMount db (pm_type m) t drive lib (me_hostName env) (tfw_mount_tape t) d = (Inr am, d')"
    using assms unfolding creates_at_def by meson
  with Cons show ?case by (auto simp: bnd_def attempt_cases ret_def)
qed (simp add: ret_def)

lemma try_mounts_creates:
  assumes c: "creates_at db d" and "\<forall>m \<in> set ms. mountable (pm_type m)"
  shows "\<exists>r d'. try_mounts env db lib drive s ms d = (Inr r, d') \<and> (case find (could_mount s) ms of
     None \<Rightarrow> r = None \<and> d' = d
   | Some m \<Rightarrow> \<exists>mount. r = Some mount \<and> made env db lib drive s m mount d d')"
  using assms(2)
proof (induction ms)
  case (Cons m ms)
  show ?case
  proof (cases "getMountBasicType (pm_type m) = ArchiveAllTypes")
    case True
    with Cons.prems have ty: "pm_type m \<in> {ArchiveForUser, ArchiveForRepack}" by (auto simp: mountable_def getMountBasicType_def)
    obtain r d' where t: "try_archive_tapes env db lib drive m (ms_tapeList s) d = (Inr r, d')"
      and r: "case find (\<lambda>t. tfw_tapePool t = pm_tapePool m) (ms_tapeList s) of None \<Rightarrow> r = None \<and> d' = d
        | Some t \<Rightarrow> \<exists>am. r = Some (ArchiveMount am) \<and> db_createArchiveMount db (pm_type m) t drive lib (me_hostName env) (tfw_mount_tape t) d = (Inr am, d')"
      using try_archive_tapes_creates [OF c ty, of env lib drive "ms_tapeList s"] by (elim exE conjE)
    show ?thesis
    proof (cases "find (\<lambda>t. tfw_tapePool t = pm_tapePool m) (ms_tapeList s)")
      case None
      with True t r Cons show ?thesis by (auto simp: could_mount_def find_None_iff)
    next
      case (Some tape)
      then have "tape \<in> set (ms_tapeList s)" "tfw_tapePool tape = pm_tapePool m" by (auto simp: find_Some_iff)
      with Some True t r show ?thesis by (auto simp: could_mount_def made_def ret_def)
    qed
  next
    case False
    with Cons.prems have ty: "pm_type m = Retrieve" by (auto simp: mountable_def getMountBasicType_def)
    obtain rm d' where "db_createRetrieveMount db (pm_vid m) (pm_tapePool m) drive lib (me_hostName env) (pm_mount_tape m) d = (Inr rm, d')"
      using c unfolding creates_at_def by meson
    with False ty Cons show ?thesis by (auto simp: could_mount_def made_def bnd_def attempt_cases ret_def)
  qed
qed (simp add: ret_def)

text \<open>In a list with the better mounts first, the first one that fits is a best one of those that fit.\<close>

lemma find_first_best:
  assumes "sorted_wrt (\<lambda>a b. \<not> pm_less a b) ms" "find P ms = Some m" "m' \<in> set ms" "P m'"
  shows "\<not> pm_less m m'"
  using assms by (induction ms) (auto simp: pm_less_strict_weak_order(1) find_Some_iff split: if_splits)

text \<open>The dry run agrees with the real run, for any database that creates the mount it is asked for in the state at hand.\<close>

lemma dry_run_agrees:
  assumes "sorts (me_sort env)" "length (mi_existingOrNextMounts mi) < 2 ^ 32"
    and types: "\<forall>m \<in> set (mi_potentialMounts mi). mountable (pm_type m)"
    and creates: "creates_at db (if mi_queueTrimRequired mi then d3 else d1)"
    and info: "db_getMountInfo db d = (Inr mi, d1)" "db_getMountInfoNoLock db d = (Inr mi, d2)"
    and trim: "mi_queueTrimRequired mi \<longrightarrow> db_trimEmptyQueues db d1 = (Inr (), d3)"
    and dry: "getNextMountDryRun env db lib drive d = (Inr b, d4)"
    and ll: "getLogicalLibrary env lib = Inr (Some ll)" "\<not> ll_isDisabled ll"
  shows "\<exists>r d'. getNextMount env db lib drive d = (Inr r, d') \<and> (b \<longleftrightarrow> r \<noteq> None) \<and>
    (\<forall>mount. r = Some mount \<longrightarrow> (\<exists>mi' s m. sortAndGetTapesForMountInfo env lib drive mi ms_empty = Inr (mi', s)
       \<and> m \<in> set (mi_potentialMounts mi') \<and> made env db lib drive s m mount (if mi_queueTrimRequired mi then d3 else d1) d'
       \<and> (\<forall>m' \<in> set (mi_potentialMounts mi'). could_mount s m' \<longrightarrow> \<not> pm_less m m')))"
proof -
  from dry ll info obtain mi' s where sort: "sortAndGetTapesForMountInfo env lib drive mi ms_empty = Inr (mi', s)"
    by (cases "sortAndGetTapesForMountInfo env lib drive mi ms_empty") (auto simp: getNextMountDryRun_def throw_def)
  with dry ll info have b: "b \<longleftrightarrow> (\<exists>m \<in> set (mi_potentialMounts mi'). could_mount s m)" by (auto simp: getNextMountDryRun_def ret_def)
  note kept = mounts_sorted [OF assms(1,2) sort]
  have "\<forall>m \<in> set (mi_potentialMounts mi'). mountable (pm_type m)" using kept(1) types by (auto simp: queued_def)
  from try_mounts_creates [OF creates this, of env lib drive s] obtain r d' where
    r: "try_mounts env db lib drive s (mi_potentialMounts mi') (if mi_queueTrimRequired mi then d3 else d1) = (Inr r, d')"
    "case find (could_mount s) (mi_potentialMounts mi') of None \<Rightarrow> r = None \<and> d' = (if mi_queueTrimRequired mi then d3 else d1)
      | Some m \<Rightarrow> \<exists>mount. r = Some mount \<and> made env db lib drive s m mount (if mi_queueTrimRequired mi then d3 else d1) d'"
    by (elim exE conjE)
  from r(1) ll info trim sort have next_mount: "getNextMount env db lib drive d = (Inr r, d')"
    by (cases "mi_queueTrimRequired mi") (auto simp: getNextMount_def bnd_ret)
  show ?thesis
  proof (cases "find (could_mount s) (mi_potentialMounts mi')")
    case None
    with r(2) b next_mount show ?thesis by (auto simp: find_None_iff)
  next
    case (Some m)
    with r(2) obtain mount where mount: "r = Some mount" "made env db lib drive s m mount (if mi_queueTrimRequired mi then d3 else d1) d'" by auto
    have m: "m \<in> set (mi_potentialMounts mi')" "could_mount s m" using Some by (auto simp: find_Some_iff)
    have "\<forall>m' \<in> set (mi_potentialMounts mi'). could_mount s m' \<longrightarrow> \<not> pm_less m m'" using find_first_best [OF kept(2) Some] by blast
    with mount m b next_mount sort show ?thesis by blast
  qed
qed

section \<open>A drive with two candidates\<close>

text \<open>
  A retrieve of tape V1 and a more urgent archive to pool P; another drive writes to tape V9 of that pool. The organization
  may write with two drives, and the tapes for writing are V9 and V2.
\<close>

definition ex_candidate :: "MountType \<Rightarrow> string \<Rightarrow> string \<Rightarrow> u64 \<Rightarrow> potential_mount" where
  "ex_candidate type vid pool priority = \<lparr>pm_type = type, pm_vid = vid, pm_tapePool = pool, pm_vo = ''VO'', pm_mediaType = '''', pm_vendor = '''',
     pm_capacityInBytes = 1000, pm_labelFormat = 0, pm_priority = priority, pm_minRequestAge = 0, pm_filesQueued = 10, pm_bytesQueued = 100,
     pm_oldestJobStartTime = 5, pm_youngestJobStartTime = 6, pm_logicalLibrary = ''L'', pm_ratioOfMountQuotaUsed = 0, pm_sleepingMount = False,
     pm_sleepStartTime = 0, pm_diskSystemSleptFor = '''', pm_sleepTime = 0, pm_mountCount = 0, pm_activity = None,
     pm_highestPriorityMountPolicyName = None, pm_lowestRequestAgeMountPolicyName = None, pm_mountPolicyNames = None\<rparr>"

definition ex_tape :: "string \<Rightarrow> tape_for_writing" where
  "ex_tape vid = \<lparr>tfw_vid = vid, tfw_mediaType = '''', tfw_vendor = '''', tfw_tapePool = ''P'', tfw_vo = ''VO'', tfw_lastFSeq = 0,
     tfw_capacityInBytes = 1000, tfw_dataOnTapeInBytes = 0, tfw_labelFormat = 0\<rparr>"

definition ex_info :: mount_info where
  "ex_info = \<lparr>mi_potentialMounts = [ex_candidate Retrieve ''V1'' '''' 1, ex_candidate ArchiveForUser '''' ''P'' 2],
     mi_existingOrNextMounts = [\<lparr>em_driveName = ''D2'', em_type = ArchiveForUser, em_tapePool = ''P'', em_vo = ''VO'', em_vid = ''V9'',
       em_currentMount = True, em_bytesTransferred = 0, em_filesTransferred = 0, em_averageBandwidth = 0, em_priority = 2, em_activity = None\<rparr>],
     mi_queueTrimRequired = False\<rparr>"

definition ex_env :: mount_env where
  "ex_env = \<lparr>me_now = 100, me_minFilesToWarrantAMount = 2, me_minBytesToWarrantAMount = 1000, me_hostName = ''host'', me_labelFormat0 = 0,
     me_getTapes = (\<lambda>lib. Inr [''V1'', ''V2'', ''V9'']),
     me_getTapesByVid = (\<lambda>vids. Inr [''V1'' \<mapsto> \<lparr>ti_logicalLibraryName = ''L'', ti_tapePoolName = ''P'', ti_vendor = '''', ti_mediaType = '''',
       ti_vo = ''VO'', ti_capacityInBytes = 1000, ti_labelFormat = 0\<rparr>]),
     me_getCachedVirtualOrganizationOfTapepool = (\<lambda>pool. Inr \<lparr>vorg_name = ''VO'', vorg_readMaxDrives = 1, vorg_writeMaxDrives = 2\<rparr>),
     me_getTapesForWriting = (\<lambda>lib. Inr [ex_tape ''V9'', ex_tape ''V2'']),
     me_getLogicalLibraries = Inr [\<lparr>ll_name = ''L'', ll_isDisabled = False\<rparr>],
     me_sort = (\<lambda>ms. foldr pm_insert ms [])\<rparr>"

text \<open>The database keeps the tapes of the mounts it created.\<close>

definition ex_db :: "(string list, string, string) scheduler_db" where
  "ex_db = \<lparr>db_getMountInfo = ret ex_info, db_getMountInfoNoLock = ret ex_info, db_trimEmptyQueues = ret (),
     db_createArchiveMount = (\<lambda>type t drive lib host tape d. (Inr (tfw_vid t), tfw_vid t # d)),
     db_createRetrieveMount = (\<lambda>vid pool drive lib host tape d. (Inr vid, vid # d))\<rparr>"

lemma ex_env_sorts: "sorts (me_sort ex_env)"
  using sorts_insertion by (simp add: ex_env_def)

lemmas ex_run = getNextMount_def getNextMountDryRun_def sortAndGetTapesForMountInfo_def getLogicalLibrary_def ex_db_def ex_env_def ex_info_def
  ex_candidate_def ex_tape_def fill_retrieve_def tapepool_vos_def sliced_def count_existing_def mount_stays_def warranted_def
  max_drives_def getMountBasicType_def ms_empty_def mc_at_def mc_increment_def pm_less_def attempt_cases could_mount_def bnd_def ret_def

lemma ex_next: "getNextMount ex_env ex_db ''L'' ''D1'' [] = (Inr (Some (ArchiveMount ''V2'')), [''V2''])"
  by (simp add: ex_run Let_def word_le_nat_alt)

theorem getNextMount_allowed_witness:
  "\<exists>m. m \<in> set (mi_potentialMounts ex_info) \<and> queued ex_env ex_info m \<and> allowed ex_env ''L'' ''D1'' ex_info m \<and> pm_type m = ArchiveForUser
     \<and> getNextMount ex_env ex_db ''L'' ''D1'' [] = (Inr (Some (ArchiveMount ''V2'')), [''V2''])"
proof -
  have "length (mi_existingOrNextMounts ex_info) < 2 ^ 32" "db_getMountInfo ex_db [] = (Inr ex_info, [])"
    by (simp_all add: ex_info_def ex_db_def ret_def)
  from getNextMount_allowed [OF ex_env_sorts this ex_next] obtain m where
    m: "queued ex_env ex_info m" "allowed ex_env ''L'' ''D1'' ex_info m" "pm_type m \<in> {ArchiveForUser, ArchiveForRepack, ArchiveAllTypes}" by auto
  have "m = ex_candidate ArchiveForUser '''' ''P'' 2"
    using m(1,3) by (auto simp: queued_def ex_info_def ex_candidate_def fill_retrieve_def Let_def)
  with m ex_next show ?thesis by (intro exI [of _ m]) (simp add: ex_info_def ex_candidate_def)
qed

end
