(* ===== verification/OStoreDB.thy ===== *)
theory OStoreDB
  imports MountDecision
begin

text \<open>
  The part of \<open>scheduler/OStoreDB/OStoreDB.cpp\<close> that the mount decision and the archive mounts use: the potential and existing
  mounts, gathered from the queues of the object store and from the states of the drives; the trimming of empty queues; the
  creation of mounts under the scheduler's global lock; and the batches of jobs of an archive mount. The catalogue, which also
  keeps the states of the drives, is a parameter. An exception of a class of \<open>OStoreDB\<close> has the name of its class.
\<close>

section \<open>Mount policies\<close>

definition getMountPoliciesInQueue :: "mount_policy list \<Rightarrow> (string \<rightharpoonup> u64) \<Rightarrow> mount_policy list" where
  "getMountPoliciesInQueue mountPoliciesInCatalogue queueMountPolicyMap =
     filter (\<lambda>mp. queueMountPolicyMap (mp_name mp) \<noteq> None) mountPoliciesInCatalogue"

text \<open>\<open>utils::reduce\<close>, started with the first element of the list.\<close>

definition reduce_list :: "string \<Rightarrow> ('a \<Rightarrow> 'a \<Rightarrow> 'a) \<Rightarrow> 'a list \<Rightarrow> exn + 'a" where
  "reduce_list name op xs = (case xs of [] \<Rightarrow> Inl (CtaException name) | x # xs \<Rightarrow> Inr (foldl op x xs))"

definition createBestArchiveMountPolicy :: "mount_policy list \<Rightarrow> exn + mount_policy" where
  "createBestArchiveMountPolicy = reduce_list ''OStoreDB::createBestArchiveMountPolicy'' (\<lambda>mp1 mp2.
     let mp = mp1;
         mp = (if mp_archivePriority mp1 > mp_archivePriority mp2 then mp\<lparr>mp_archivePriority := mp_archivePriority mp1\<rparr> else mp);
         mp = (if mp_archiveMinRequestAge mp1 < mp_archiveMinRequestAge mp2 then mp\<lparr>mp_archiveMinRequestAge := mp_archiveMinRequestAge mp1\<rparr> else mp)
     in mp)"

definition getHighestPriorityArchiveMountPolicyName :: "mount_policy list \<Rightarrow> exn + string" where
  "getHighestPriorityArchiveMountPolicyName mps = rbind (reduce_list ''OStoreDB::getHighestPriorityArchiveMountPolicyName'' (\<lambda>mp1 mp2.
     if mp_archivePriority mp2 > mp_archivePriority mp1 then mp2 else mp1) mps) (\<lambda>mp. Inr (mp_name mp))"

definition getLowestRequestAgeArchiveMountPolicyName :: "mount_policy list \<Rightarrow> exn + string" where
  "getLowestRequestAgeArchiveMountPolicyName mps = rbind (reduce_list ''OStoreDB::getLowestRequestAgeArchiveMountPolicyName'' (\<lambda>mp1 mp2.
     if mp_archiveMinRequestAge mp1 < mp_archiveMinRequestAge mp2 then mp1 else mp2) mps) (\<lambda>mp. Inr (mp_name mp))"

definition createBestRetrieveMountPolicy :: "mount_policy list \<Rightarrow> exn + mount_policy" where
  "createBestRetrieveMountPolicy = reduce_list ''OStoreDB::createBestRetrieveMountPolicy'' (\<lambda>mp1 mp2.
     let mp = mp1;
         mp = (if mp_retrievePriority mp1 > mp_retrievePriority mp2 then mp\<lparr>mp_retrievePriority := mp_retrievePriority mp1\<rparr> else mp);
         mp = (if mp_retrieveMinRequestAge mp1 < mp_retrieveMinRequestAge mp2 then mp\<lparr>mp_retrieveMinRequestAge := mp_retrieveMinRequestAge mp1\<rparr> else mp)
     in mp)"

definition getHighestPriorityRetrieveMountPolicyName :: "mount_policy list \<Rightarrow> exn + string" where
  "getHighestPriorityRetrieveMountPolicyName mps = rbind (reduce_list ''OStoreDB::getHighestPriorityRetrieveMountPolicyName'' (\<lambda>mp1 mp2.
     if mp_retrievePriority mp1 > mp_retrievePriority mp2 then mp1 else mp2) mps) (\<lambda>mp. Inr (mp_name mp))"

definition getLowestRequestAgeRetrieveMountPolicyName :: "mount_policy list \<Rightarrow> exn + string" where
  "getLowestRequestAgeRetrieveMountPolicyName mps = rbind (reduce_list ''OStoreDB::getLowestRequestAgeRetrieveMountPolicyName'' (\<lambda>mp1 mp2.
     if mp_retrieveMinRequestAge mp1 < mp_retrieveMinRequestAge mp2 then mp1 else mp2) mps) (\<lambda>mp. Inr (mp_name mp))"

section \<open>Queues as potential mounts\<close>

datatype PurposeGetMountInfo = GET_NEXT_MOUNT | SHOW_QUEUES

datatype DriveStatus = DS_Unknown | DS_Down | DS_Up | DS_Probing | DS_Starting | DS_Mounting | DS_Transferring | DS_Unloading
  | DS_Unmounting | DS_DrainingToDisk | DS_CleaningUp | DS_Shutdown

text \<open>Of a tape and of the state of a drive, what is used.\<close>

record queued_tape =
  qt_state :: tape_State
  qt_labelFormat :: label_format

record tape_drive =
  td_driveName :: string
  td_bytesTransferedInSession :: "u64 option"
  td_filesTransferedInSession :: "u64 option"
  td_sessionElapsedTime :: "time_t option"
  td_mountType :: MountType
  td_driveStatus :: DriveStatus
  td_currentVid :: "string option"
  td_currentActivity :: "string option"
  td_currentTapePool :: "string option"
  td_currentVo :: "string option"
  td_nextMountType :: MountType
  td_nextVid :: "string option"
  td_nextTapePool :: "string option"
  td_nextActivity :: "string option"
  td_nextVo :: "string option"

record ostore_env =
  oe_now :: time_t
  oe_agentSet :: bool
  oe_getCachedMountPolicies :: "exn + mount_policy list"
  oe_getTapesByVid :: "string \<Rightarrow> exn + (string \<rightharpoonup> queued_tape)"
  oe_getDriveStates :: "exn + tape_drive list"

text \<open>\<open>PotentialMount()\<close>: the members without an initialiser are zeroed.\<close>

definition pm_new :: potential_mount where
  "pm_new = \<lparr>pm_type = NoMount, pm_vid = '''', pm_tapePool = '''', pm_vo = '''', pm_mediaType = '''', pm_vendor = '''', pm_capacityInBytes = 0,
     pm_labelFormat = 0, pm_priority = 0, pm_minRequestAge = 0, pm_filesQueued = 0, pm_bytesQueued = 0, pm_oldestJobStartTime = 0,
     pm_youngestJobStartTime = 0, pm_logicalLibrary = '''', pm_ratioOfMountQuotaUsed = 0, pm_sleepingMount = False, pm_sleepStartTime = 0,
     pm_diskSystemSleptFor = '''', pm_sleepTime = 0, pm_mountCount = 0, pm_activity = None, pm_highestPriorityMountPolicyName = None,
     pm_lowestRequestAgeMountPolicyName = None, pm_mountPolicyNames = None\<rparr>"

definition archive_candidate :: "mount_policy list \<Rightarrow> MountType \<Rightarrow> string \<Rightarrow> aq_jobs_summary \<Rightarrow> exn + potential_mount" where
  "archive_candidate mountPolicies type tapePool s =
     (let m = pm_new\<lparr>pm_tapePool := tapePool, pm_type := type, pm_bytesQueued := aqjs_bytes s, pm_filesQueued := aqjs_jobs s,
                pm_oldestJobStartTime := aqjs_oldestJobStartTime s, pm_youngestJobStartTime := aqjs_youngestJobStartTime s,
                pm_priority := aqjs_priority s, pm_minRequestAge := aqjs_minArchiveRequestAge s\<rparr>;
          inQueue = getMountPoliciesInQueue mountPolicies (aqjs_mountPolicyCountMap s) in
      if mountPolicies = [] then Inr m
      else if inQueue = [] then Inr (m\<lparr>pm_mountPolicyNames := Some []\<rparr>)
      else rbind (createBestArchiveMountPolicy inQueue) (\<lambda>toUse.
           rbind (getHighestPriorityArchiveMountPolicyName inQueue) (\<lambda>highest.
           rbind (getLowestRequestAgeArchiveMountPolicyName inQueue) (\<lambda>lowest.
           Inr (m\<lparr>pm_mountPolicyNames := Some (map mp_name inQueue), pm_priority := mp_archivePriority toUse,
             pm_minRequestAge := mp_archiveMinRequestAge toUse, pm_highestPriorityMountPolicyName := Some highest,
             pm_lowestRequestAgeMountPolicyName := Some lowest\<rparr>)))))"

definition add_candidates :: "potential_mount list \<Rightarrow> mount_info \<Rightarrow> mount_info" where
  "add_candidates ms tmdi = tmdi\<lparr>mi_potentialMounts := mi_potentialMounts tmdi @ ms\<rparr>"

text \<open>A queue that cannot be fetched is passed over; an empty one asks for a trim.\<close>

definition add_archive_queue :: "mount_policy list \<Rightarrow> MountType \<Rightarrow> mount_info \<Rightarrow> archive_queue_pointer \<Rightarrow> (world, mount_info) prog" where
  "add_archive_queue mountPolicies type tmdi aqp =
     bnd (liftr (setAddress (aqp_address aqp) (oo_new aq_empty))) (\<lambda>aqueue.
     bnd (attempt (oo_fetchNoLock aq_c aqueue)) (\<lambda>fetched. case fetched of
       Inl e \<Rightarrow> ret tmdi
     | Inr aqueue \<Rightarrow>
         bnd (liftr (aq_getJobsSummary aqueue)) (\<lambda>s.
         if aqjs_jobs s \<noteq> 0
         then bnd (liftr (archive_candidate mountPolicies type (aqp_name aqp) s)) (\<lambda>m. ret (add_candidates [m] tmdi))
         else ret (tmdi\<lparr>mi_queueTrimRequired := True\<rparr>))))"

text \<open>\<open>name.rfind("repack", 0) == 0\<close>\<close>

definition is_repack_policy :: "string \<Rightarrow> bool" where
  "is_repack_policy name \<longleftrightarrow> take (length ''repack'') name = ''repack''"

definition is_potential_mount :: "tape_State \<Rightarrow> string list \<Rightarrow> bool" where
  "is_potential_mount state policyNames \<longleftrightarrow>
     (if state = TAPE_ACTIVE then True else state = TAPE_DISABLED \<and> (\<exists>n \<in> set policyNames. is_repack_policy n))"

text \<open>The sleep of a queue, shown while it lasts. Only the mounts with an activity get its length.\<close>

definition set_sleep :: "time_t \<Rightarrow> bool \<Rightarrow> sleep_info option \<Rightarrow> potential_mount \<Rightarrow> potential_mount" where
  "set_sleep now withTime info m = (case info of
     None \<Rightarrow> m
   | Some si \<Rightarrow>
       if now <s si_sleepStartTime si + si_sleepTime si
       then let m1 = m\<lparr>pm_sleepingMount := True, pm_sleepStartTime := si_sleepStartTime si, pm_diskSystemSleptFor := si_diskSystemSleptFor si\<rparr>
            in if withTime then m1\<lparr>pm_sleepTime := si_sleepTime si\<rparr> else m1
       else m)"

definition retrieve_policies :: "mount_policy list \<Rightarrow> rq_jobs_summary \<Rightarrow> exn + u64 \<times> u64 \<times> string option \<times> string option \<times> string list" where
  "retrieve_policies mountPolicies s =
     (let inQueue = getMountPoliciesInQueue mountPolicies (rqjs_mountPolicyCountMap s) in
      if mountPolicies = [] \<or> inQueue = [] then Inr (rqjs_priority s, rqjs_minRetrieveRequestAge s, None, None, [])
      else rbind (createBestRetrieveMountPolicy inQueue) (\<lambda>toUse.
           rbind (getHighestPriorityRetrieveMountPolicyName inQueue) (\<lambda>highest.
           rbind (getLowestRequestAgeRetrieveMountPolicyName inQueue) (\<lambda>lowest.
           Inr (mp_retrievePriority toUse, mp_retrieveMinRequestAge toUse, Some highest, Some lowest, map mp_name inQueue)))))"

text \<open>One candidate per activity, and one without activity unless there are as many activities as jobs.\<close>

definition retrieve_candidates ::
  "time_t \<Rightarrow> mount_policy list \<Rightarrow> string \<Rightarrow> label_format \<Rightarrow> rq_jobs_summary \<Rightarrow> exn + potential_mount list" where
  "retrieve_candidates now mountPolicies vid labelFormat s = rbind (retrieve_policies mountPolicies s) (\<lambda>(priority, age, highest, lowest, names).
     let m = pm_new\<lparr>pm_vid := vid, pm_type := Retrieve, pm_bytesQueued := rqjs_bytes s, pm_filesQueued := rqjs_jobs s,
               pm_oldestJobStartTime := rqjs_oldestJobStartTime s, pm_youngestJobStartTime := rqjs_youngestJobStartTime s,
               pm_priority := priority, pm_minRequestAge := age, pm_highestPriorityMountPolicyName := highest,
               pm_lowestRequestAgeMountPolicyName := lowest, pm_labelFormat := labelFormat, pm_mountPolicyNames := Some names\<rparr>;
         withActivity = map (\<lambda>(a, n). set_sleep now True (rqjs_sleepInfo s) (m\<lparr>pm_activity := Some a\<rparr>)) (rqjs_activityCounts s);
         jobsWithoutActivity = \<not> (rqjs_activityCounts s \<noteq> [] \<and> of_nat (length (rqjs_activityCounts s)) \<ge> rqjs_jobs s)
     in Inr (withActivity @ (if jobsWithoutActivity then [set_sleep now False (rqjs_sleepInfo s) m] else [])))"

definition add_retrieve_queue ::
  "ostore_env \<Rightarrow> PurposeGetMountInfo \<Rightarrow> mount_policy list \<Rightarrow> mount_info \<Rightarrow> retrieve_queue_pointer \<Rightarrow> (world, mount_info) prog" where
  "add_retrieve_queue env purpose mountPolicies tmdi rqp =
     bnd (liftr (setAddress (rqp_address rqp) (oo_new rq_empty))) (\<lambda>rqueue.
     bnd (attempt (oo_fetchNoLock rq_c rqueue)) (\<lambda>fetched. case fetched of
       Inl e \<Rightarrow> ret tmdi
     | Inr rqueue \<Rightarrow>
         bnd (liftr (rq_getJobsSummary rqueue)) (\<lambda>s.
         bnd (liftr (oe_getTapesByVid env (rqp_vid rqp))) (\<lambda>vidToTapeMap. case vidToTapeMap (rqp_vid rqp) of
           None \<Rightarrow> throw StdOutOfRange
         | Some t \<Rightarrow>
             if rqjs_jobs s \<noteq> 0 \<and> (is_potential_mount (qt_state t) (rq_getMountPolicyNames rqueue) \<or> purpose = SHOW_QUEUES)
             then bnd (liftr (retrieve_candidates (oe_now env) mountPolicies (rqp_vid rqp) (qt_labelFormat t) s)) (\<lambda>ms. ret (add_candidates ms tmdi))
             else ret (if rqjs_jobs s = 0 then tmdi\<lparr>mi_queueTrimRequired := True\<rparr> else tmdi)))))"

section \<open>Drives as existing mounts\<close>

definition activeDriveStatuses :: "DriveStatus set" where
  "activeDriveStatuses = {DS_Starting, DS_Mounting, DS_Transferring, DS_Unloading, DS_Unmounting, DS_DrainingToDisk, DS_CleaningUp}"

definition activeMountTypes :: "MountType set" where
  "activeMountTypes = {ArchiveForUser, ArchiveForRepack, Retrieve, Label}"

definition value_or_empty :: "string option \<Rightarrow> string" where
  "value_or_empty s = (case s of Some s \<Rightarrow> s | None \<Rightarrow> '''')"

text \<open>The bandwidth is an integer quotient of unsigned numbers. The activity is always set, to the empty string if the drive has none.\<close>

definition current_mount :: "tape_drive \<Rightarrow> existing_mount" where
  "current_mount d = \<lparr>em_driveName = td_driveName d, em_type = td_mountType d, em_tapePool = value_or_empty (td_currentTapePool d),
     em_vo = value_or_empty (td_currentVo d), em_vid = value_or_empty (td_currentVid d), em_currentMount = True,
     em_bytesTransferred = (case td_bytesTransferedInSession d of Some b \<Rightarrow> b | None \<Rightarrow> 0),
     em_filesTransferred = (case td_filesTransferedInSession d of Some f \<Rightarrow> f | None \<Rightarrow> 0),
     em_averageBandwidth = (case (td_filesTransferedInSession d, td_sessionElapsedTime d) of
       (Some f, Some t) \<Rightarrow> if 0 <s t then real (unat (f div t)) else 0 | _ \<Rightarrow> 0),
     em_priority = 0, em_activity = Some (value_or_empty (td_currentActivity d))\<rparr>"

definition next_mount :: "tape_drive \<Rightarrow> existing_mount" where
  "next_mount d = \<lparr>em_driveName = td_driveName d, em_type = td_nextMountType d, em_tapePool = value_or_empty (td_nextTapePool d),
     em_vo = value_or_empty (td_nextVo d), em_vid = value_or_empty (td_nextVid d), em_currentMount = False,
     em_bytesTransferred = 0, em_filesTransferred = 0, em_averageBandwidth = 0, em_priority = 0,
     em_activity = Some (value_or_empty (td_nextActivity d))\<rparr>"

definition drive_mounts :: "tape_drive \<Rightarrow> existing_mount list" where
  "drive_mounts d = (if td_driveStatus d \<in> activeDriveStatuses then [current_mount d] else [])
     @ (if td_nextMountType d = NoMount then [] else if td_nextMountType d \<in> activeMountTypes then [next_mount d] else [])"

section \<open>The information for a decision\<close>

definition mi_new :: mount_info where
  "mi_new = \<lparr>mi_potentialMounts = [], mi_existingOrNextMounts = [], mi_queueTrimRequired = False\<rparr>"

definition fetchMountInfo :: "ostore_env \<Rightarrow> root_entry oo \<Rightarrow> PurposeGetMountInfo \<Rightarrow> mount_info \<Rightarrow> (world, mount_info) prog" where
  "fetchMountInfo env re purpose tmdi =
     bnd (liftr (oe_getCachedMountPolicies env)) (\<lambda>mountPolicies.
     bnd (liftr (re_dumpArchiveQueues JobsToTransferForUser re)) (\<lambda>user.
     bnd (foldM (add_archive_queue mountPolicies ArchiveForUser) tmdi user) (\<lambda>tmdi.
     bnd (liftr (re_dumpArchiveQueues JobsToTransferForRepack re)) (\<lambda>repack.
     bnd (foldM (add_archive_queue mountPolicies ArchiveForRepack) tmdi repack) (\<lambda>tmdi.
     bnd (liftr (re_dumpRetrieveQueues JobsToTransferForUser re)) (\<lambda>retrieve.
     bnd (foldM (add_retrieve_queue env purpose mountPolicies) tmdi retrieve) (\<lambda>tmdi.
     bnd (liftr (oe_getDriveStates env)) (\<lambda>driveStates.
     ret (tmdi\<lparr>mi_existingOrNextMounts := mi_existingOrNextMounts tmdi @ concat (map drive_mounts driveStates)\<rparr>)))))))))"

text \<open>
  What a \<open>TapeMountDecisionInfo\<close> holds beside the lists: the scheduler's global lock, locked or not. It is part of the state
  of the database here; \<open>None\<close> stands for a \<open>TapeMountDecisionInfoNoLock\<close>.
\<close>

record decision_lock =
  dl_schedulerGlobalLock :: "scheduler_global_lock oo"
  dl_lock :: scoped_lock
  dl_lockTaken :: bool

type_synonym ostore = "world \<times> decision_lock option"

definition in_store :: "(world, 'a) prog \<Rightarrow> (world \<times> 'c, 'a) prog" where
  "in_store m = (\<lambda>(w, c). case m w of (r, w') \<Rightarrow> (r, (w', c)))"

definition set_lock :: "decision_lock option \<Rightarrow> (ostore, unit) prog" where
  "set_lock l = (\<lambda>(w, _). (Inr (), (w, l)))"

definition assertAgentAddressSet :: "ostore_env \<Rightarrow> ('s, unit) prog" where
  "assertAgentAddressSet env = (if oe_agentSet env then ret () else throw (CtaException ''AgentNotSet''))"

definition fetch_root :: "(world, root_entry oo) prog" where
  "fetch_root = bnd (liftr re_at) (\<lambda>re. oo_fetchNoLock re_c re)"

definition getMountInfo :: "ostore_env \<Rightarrow> (ostore, mount_info) prog" where
  "getMountInfo env =
     bnd (assertAgentAddressSet env) (\<lambda>_.
     bnd (in_store (
       bnd fetch_root (\<lambda>re.
       bnd (liftr (re_getSchedulerGlobalLock re)) (\<lambda>address.
       bnd (liftr (sgl_at address)) (\<lambda>sgl.
       bnd (lock_object \<lparr>sl_exclusive = True, sl_locked = False\<rparr> sgl) (\<lambda>(l, sgl).
       bnd (oo_fetch sgl_c sgl) (\<lambda>sgl.
       bnd (fetchMountInfo env re GET_NEXT_MOUNT mi_new) (\<lambda>tmdi.
       ret (tmdi, \<lparr>dl_schedulerGlobalLock = sgl, dl_lock = l, dl_lockTaken = True\<rparr>))))))))) (\<lambda>(tmdi, dl).
     bnd (set_lock (Some dl)) (\<lambda>_.
     ret tmdi)))"

definition getMountInfoNoLock :: "ostore_env \<Rightarrow> PurposeGetMountInfo \<Rightarrow> (ostore, mount_info) prog" where
  "getMountInfoNoLock env purpose =
     bnd (assertAgentAddressSet env) (\<lambda>_.
     bnd (in_store (bnd fetch_root (\<lambda>re. fetchMountInfo env re purpose mi_new))) (\<lambda>tmdi.
     bnd (set_lock None) (\<lambda>_.
     ret tmdi)))"

text \<open>\<open>~TapeMountDecisionInfo\<close>\<close>

definition release_decision :: "(ostore, unit) prog" where
  "release_decision = (\<lambda>(w, l). (case l of
     Some dl \<Rightarrow> if dl_lockTaken dl then (case lock_release (dl_lock dl) (dl_schedulerGlobalLock dl) ([] :: unit oo list) of Inl e \<Rightarrow> Inl e | Inr _ \<Rightarrow> Inr ()) else Inr ()
   | None \<Rightarrow> Inr (), (w, None)))"

section \<open>Trimming empty queues\<close>

text \<open>The root entry, locked and fetched, is changed along the way and is part of the state.\<close>

type_synonym rooted = "world \<times> root_entry oo"

definition of_root :: "(root_entry oo \<Rightarrow> exn + 'a) \<Rightarrow> (rooted, 'a) prog" where
  "of_root f = (\<lambda>(w, re). (f re, (w, re)))"

definition change_root :: "(root_entry oo \<Rightarrow> (world, root_entry oo) prog) \<Rightarrow> (rooted, unit) prog" where
  "change_root f = (\<lambda>(w, re). case f re w of (Inr re', w') \<Rightarrow> (Inr (), (w', re')) | (Inl e, w') \<Rightarrow> (Inl e, (w', re)))"

definition trim_archive_queue :: "JobQueueType \<Rightarrow> archive_queue_pointer \<Rightarrow> (rooted, unit) prog" where
  "trim_archive_queue queueType a =
     bnd (in_store (bnd (liftr (setAddress (aqp_address a) (oo_new aq_empty))) (\<lambda>aq.
                    bnd (shared_lock aq) (\<lambda>aq. bnd (oo_fetch aq_c aq) (\<lambda>aq. liftr (aq_getJobsSummary aq)))))) (\<lambda>s.
     if aqjs_jobs s = 0 then change_root (re_removeArchiveQueueAndCommit (aqp_name a) queueType) else ret ())"

definition trim_retrieve_queue :: "JobQueueType \<Rightarrow> retrieve_queue_pointer \<Rightarrow> (rooted, unit) prog" where
  "trim_retrieve_queue queueType r =
     bnd (in_store (bnd (liftr (setAddress (rqp_address r) (oo_new rq_empty))) (\<lambda>rq.
                    bnd (shared_lock rq) (\<lambda>rq. bnd (oo_fetch rq_c rq) (\<lambda>rq. liftr (rq_getJobsSummary rq)))))) (\<lambda>s.
     if rqjs_jobs s = 0 then change_root (re_removeRetrieveQueueAndCommit (rqp_vid r) queueType) else ret ())"

definition trim_queues :: "JobQueueType \<Rightarrow> (rooted, unit) prog" where
  "trim_queues queueType =
     bnd (of_root (re_dumpArchiveQueues queueType)) (\<lambda>archiveQueueList.
     bnd (foldM (\<lambda>_ a. trim_archive_queue queueType a) () archiveQueueList) (\<lambda>_.
     bnd (of_root (re_dumpRetrieveQueues queueType)) (\<lambda>retrieveQueueList.
     foldM (\<lambda>_ r. trim_retrieve_queue queueType r) () retrieveQueueList)))"

definition trimEmptyQueues :: "(world, unit) prog" where
  "trimEmptyQueues =
     bnd (liftr re_at) (\<lambda>re.
     bnd (exclusive_lock re) (\<lambda>re.
     bnd (oo_fetch re_c re) (\<lambda>re.
     \<lambda>w. case foldM (\<lambda>_ queueType. bnd (attempt (trim_queues queueType)) (\<lambda>_. ret ())) () [JobsToTransferForUser, JobsToReportToUser, FailedJobs] (w, re) of
       (r, (w', re')) \<Rightarrow> (r, w'))))"

section \<open>Creating mounts\<close>

record archive_mount =
  am_queueType :: JobQueueType
  am_nbFilesCurrentlyOnTape :: u32
  am_vid :: string
  am_logicalLibrary :: string
  am_tapePool :: string
  am_vo :: string
  am_mediaType :: string
  am_vendor :: string
  am_drive :: string
  am_host :: string
  am_mountId :: u64
  am_capacityInBytes :: u64
  am_labelFormat :: label_format
  am_mountType :: MountType

record retrieve_mount =
  rm_vid :: string
  rm_logicalLibrary :: string
  rm_tapePool :: string
  rm_vo :: string
  rm_mediaType :: string
  rm_vendor :: string
  rm_drive :: string
  rm_host :: string
  rm_capacityInBytes :: u64
  rm_mountId :: u64
  rm_activity :: "string option"
  rm_labelFormat :: label_format

text \<open>
  The mount number is taken and committed under the scheduler's lock, which is then released. The number in memory has changed
  even if the commit fails.
\<close>

definition take_mount_id :: "decision_lock \<Rightarrow> (ostore, u64) prog" where
  "take_mount_id dl =
     bnd (in_store fetch_root) (\<lambda>re.
     bnd (liftr (re_getDriveRegisterAddress re)) (\<lambda>_.
     bnd (liftr (sgl_getIncreaseCommitMountId (dl_schedulerGlobalLock dl))) (\<lambda>(mountId, sgl).
     bnd (set_lock (Some (dl\<lparr>dl_schedulerGlobalLock := sgl\<rparr>))) (\<lambda>_.
     bnd (in_store (oo_commit sgl_c sgl)) (\<lambda>_.
     bnd (liftr (lock_release (dl_lock dl) sgl ([] :: unit oo list))) (\<lambda>(l, sgl, _).
     bnd (set_lock (Some \<lparr>dl_schedulerGlobalLock = sgl, dl_lock = l, dl_lockTaken = False\<rparr>)) (\<lambda>_.
     ret mountId)))))))"

definition with_decision :: "string \<Rightarrow> (decision_lock \<Rightarrow> (ostore, 'a) prog) \<Rightarrow> (ostore, 'a) prog" where
  "with_decision name f = (\<lambda>(w, l). case l of None \<Rightarrow> throw (CtaException name) (w, l) | Some dl \<Rightarrow> f dl (w, l))"

definition archive_queue_type :: "MountType \<Rightarrow> exn + JobQueueType" where
  "archive_queue_type type = (case type of
     ArchiveForUser \<Rightarrow> Inr JobsToTransferForUser
   | ArchiveForRepack \<Rightarrow> Inr JobsToTransferForRepack
   | _ \<Rightarrow> Inl (CtaException ''OStoreDB::TapeMountDecisionInfo::createArchiveMount''))"

definition createArchiveMount ::
  "MountType \<Rightarrow> tape_for_writing \<Rightarrow> string \<Rightarrow> string \<Rightarrow> string \<Rightarrow> mount_tape \<Rightarrow> (ostore, archive_mount) prog" where
  "createArchiveMount type t driveName logicalLibrary hostName mt =
     with_decision ''OStoreDB::TapeMountDecisionInfoNoLock::createArchiveMount'' (\<lambda>dl.
     bnd (liftr (archive_queue_type type)) (\<lambda>queueType.
     if \<not> dl_lockTaken dl then throw (CtaException ''SchedulingLockNotHeld'')
     else bnd (take_mount_id dl) (\<lambda>mountId.
          ret \<lparr>am_queueType = queueType, am_nbFilesCurrentlyOnTape = ucast (tfw_lastFSeq t), am_vid = tfw_vid t, am_logicalLibrary = logicalLibrary,
            am_tapePool = tfw_tapePool t, am_vo = mtp_vo mt, am_mediaType = mtp_mediaType mt, am_vendor = mtp_vendor mt, am_drive = driveName,
            am_host = hostName, am_mountId = mountId, am_capacityInBytes = mtp_capacityInBytes mt, am_labelFormat = mtp_labelFormat mt,
            am_mountType = type\<rparr>)))"

definition createRetrieveMount ::
  "string \<Rightarrow> string \<Rightarrow> string \<Rightarrow> string \<Rightarrow> string \<Rightarrow> mount_tape \<Rightarrow> (ostore, retrieve_mount) prog" where
  "createRetrieveMount vid tapePool driveName logicalLibrary hostName mt =
     with_decision ''OStoreDB::TapeMountDecisionInfoNoLock::createRetrieveMount'' (\<lambda>dl.
     if \<not> dl_lockTaken dl then throw (CtaException ''SchedulingLockNotHeld'')
     else bnd (take_mount_id dl) (\<lambda>mountId.
          ret \<lparr>rm_vid = vid, rm_logicalLibrary = logicalLibrary, rm_tapePool = tapePool, rm_vo = mtp_vo mt, rm_mediaType = mtp_mediaType mt,
            rm_vendor = mtp_vendor mt, rm_drive = driveName, rm_host = hostName, rm_capacityInBytes = mtp_capacityInBytes mt, rm_mountId = mountId,
            rm_activity = mtp_activity mt, rm_labelFormat = mtp_labelFormat mt\<rparr>))"

text \<open>The database interface of the scheduler over the object store.\<close>

definition ostore_db :: "ostore_env \<Rightarrow> (ostore, archive_mount, retrieve_mount) scheduler_db" where
  "ostore_db env = \<lparr>db_getMountInfo = getMountInfo env, db_getMountInfoNoLock = getMountInfoNoLock env GET_NEXT_MOUNT,
     db_trimEmptyQueues = in_store trimEmptyQueues, db_createArchiveMount = createArchiveMount, db_createRetrieveMount = createRetrieveMount\<rparr>"

section \<open>Batches of jobs of an archive mount\<close>

text \<open>An \<open>OStoreDB::ArchiveJob\<close> with the fields of its \<open>tapeFile\<close> that are set.\<close>

record archive_mount_job =
  amj_address :: string
  amj_copyNb :: "8 word"
  amj_fSeq :: u64
  amj_vid :: string
  amj_blockId :: u64
  amj_archiveFile :: archive_file
  amj_archiveReportURL :: string
  amj_errorReportURL :: string
  amj_srcURL :: string
  amj_jobOwned :: bool
  amj_mountId :: u64
  amj_tapePool :: string
  amj_reportType :: archive_ReportType

definition mount_job :: "archive_mount \<Rightarrow> u32 \<Rightarrow> archive_popped \<Rightarrow> archive_mount_job" where
  "mount_job am fSeq j = \<lparr>amj_address = apo_archiveRequest j, amj_copyNb = ucast (apo_copyNb j), amj_fSeq = ucast fSeq, amj_vid = am_vid am,
     amj_blockId = - 1, amj_archiveFile = apo_archiveFile j, amj_archiveReportURL = apo_archiveReportURL j, amj_errorReportURL = apo_errorReportURL j,
     amj_srcURL = apo_srcURL j, amj_jobOwned = True, amj_mountId = am_mountId am, amj_tapePool = am_tapePool am, amj_reportType = apo_reportType j\<rparr>"

fun number_jobs :: "archive_mount \<Rightarrow> archive_popped list \<Rightarrow> archive_mount_job list \<times> archive_mount" where
  "number_jobs am [] = ([], am)"
| "number_jobs am (j # js) =
     (let n = am_nbFilesCurrentlyOnTape am + 1;
          (jobs, am') = number_jobs (am\<lparr>am_nbFilesCurrentlyOnTape := n\<rparr>) js
      in (mount_job am n j # jobs, am'))"

definition am_getNextJobBatch ::
  "nat \<Rightarrow> nat \<Rightarrow> time_t \<Rightarrow> u64 \<Rightarrow> u64 \<Rightarrow> archive_mount \<Rightarrow> (world, archive_mount_job list \<times> archive_mount) prog" where
  "am_getNextJobBatch fuel attempts now filesRequested bytesRequested am =
     (let popCriteria = \<lparr>pa_files = filesRequested, pa_bytes = bytesRequested\<rparr>;
          traits = (if am_queueType am = JobsToTransferForUser then ArchiveQueueToTransferForUser attempts now
                    else ArchiveQueueToTransferForRepack attempts now)
      in bnd (popNextBatch fuel traits (am_tapePool am) popCriteria) (\<lambda>(elements, _).
         ret (number_jobs am elements)))"

end
