(* ===== verification/SchedulerLock.thy ===== *)
theory SchedulerLock
  imports OStoreDB
begin

text \<open>
  The scheduler's lock object in the store, which holds the number of the next mount, and the pointers by which
  it is found. Trimming empty queues (\<open>OStoreDB::trimEmptyQueues\<close>) keeps them, whether it returns or throws. The proof goes
  through the program by triples: a precondition, a postcondition for a returned value, and a condition that holds when the
  program throws.
\<close>

section \<open>The lock object\<close>

text \<open>
  The root entry points to the scheduler's lock at the address \<open>a\<close>, which has the number \<open>n\<close> for the next mount, and to
  a drive register.
\<close>

definition lock_at :: "world \<Rightarrow> string \<Rightarrow> u64 \<Rightarrow> bool" where
  "lock_at w a n \<longleftrightarrow> (\<exists>r l d. stored re_c w re_address r \<and> re_schedulerlockpointer r = Some l \<and> lp_address l = a \<and> a \<noteq> ''''
     \<and> re_driveregisterpointer r = Some d \<and> lp_address d \<noteq> '''' \<and> stored sgl_c w a \<lparr>sgl_nextmountid = n\<rparr>)"

lemma lock_at_apart: "lock_at w a n \<Longrightarrow> re_address \<noteq> a"
  by (auto simp: lock_at_def stored_def codec_defs)

lemma lock_at_same:
  assumes "lock_at w a n" and "\<And>x. x \<in> {re_address, a} \<Longrightarrow> objects w' x = objects w x \<and> (lockFiles w x \<longrightarrow> lockFiles w' x)"
  shows "lock_at w' a n"
  using assms unfolding lock_at_def stored_def by (metis insertCI)

section \<open>Triples\<close>

definition triple :: "('s \<Rightarrow> bool) \<Rightarrow> ('s, 'a) prog \<Rightarrow> ('a \<Rightarrow> 's \<Rightarrow> bool) \<Rightarrow> ('s \<Rightarrow> bool) \<Rightarrow> bool" where
  "triple P m Q E \<longleftrightarrow> (\<forall>s. P s \<longrightarrow> (case m s of (Inr x, s') \<Rightarrow> Q x s' | (Inl e, s') \<Rightarrow> E s'))"

lemma tripleI: "(\<And>s x s'. P s \<Longrightarrow> m s = (Inr x, s') \<Longrightarrow> Q x s') \<Longrightarrow> (\<And>s e s'. P s \<Longrightarrow> m s = (Inl e, s') \<Longrightarrow> E s') \<Longrightarrow> triple P m Q E"
  unfolding triple_def by (auto split: prod.split sum.split)

lemma tripleD:
  assumes "triple P m Q E" and "P s"
  shows "m s = (Inr x, s') \<Longrightarrow> Q x s'" and "m s = (Inl e, s') \<Longrightarrow> E s'"
  using assms by (auto simp: triple_def dest!: spec [of _ s])

lemma triple_bnd: "triple P m R E \<Longrightarrow> (\<And>x. triple (R x) (f x) Q E) \<Longrightarrow> triple P (bnd m f) Q E"
  unfolding triple_def bnd_def by (auto split: prod.splits sum.splits) fastforce+

lemma triple_pre: "triple P m Q E \<Longrightarrow> (\<And>s. P' s \<Longrightarrow> P s) \<Longrightarrow> triple P' m Q E"
  by (auto simp: triple_def)

lemma triple_post: "triple P m Q E \<Longrightarrow> (\<And>x s. Q x s \<Longrightarrow> Q' x s) \<Longrightarrow> triple P m Q' E"
  unfolding triple_def by (auto split: prod.splits sum.splits) fastforce+

lemma triple_ret [intro]: "(\<And>s. P s \<Longrightarrow> Q x s) \<Longrightarrow> triple P (ret x) Q E"
  by (simp add: triple_def)

lemma triple_throw [intro]: "(\<And>s. P s \<Longrightarrow> E s) \<Longrightarrow> triple P (throw e) Q E"
  by (simp add: triple_def)

lemma triple_raise [intro]: "(\<And>s. P s \<Longrightarrow> E s) \<Longrightarrow> triple P (Pair (Inl e)) Q E"
  by (simp add: triple_def)

lemma triple_liftr: "triple P (liftr r) (\<lambda>x s. P s \<and> r = Inr x) P"
  by (auto simp: triple_def split: sum.split)

lemma triple_foldM: "(\<And>b x. triple P (f b x) (\<lambda>_. P) P) \<Longrightarrow> triple P (foldM f b xs) (\<lambda>_. P) P"
  by (induction xs arbitrary: b) (auto intro: triple_bnd)

lemma triple_attempt: "triple P m (\<lambda>_. P) P \<Longrightarrow> triple P (attempt m) (\<lambda>_. P) P"
  unfolding triple_def attempt_def by (auto split: prod.splits sum.splits)

lemma triple_caught:
  assumes "triple P m Q R" and "\<And>e k. h e = Some k \<Longrightarrow> triple R k Q E" and "\<And>s. R s \<Longrightarrow> E s"
  shows "triple P (caught h m) Q E"
proof (rule tripleI)
  fix s x s' assume P: "P s" and r: "caught h m s = (Inr x, s')"
  show "Q x s'"
  proof (cases "m s")
    case (Pair y s1)
    with P r show ?thesis
      using tripleD [OF assms(1) P] tripleD [OF assms(2)] by (cases y) (auto split: option.splits)
  qed
next
  fix s e s' assume P: "P s" and r: "caught h m s = (Inl e, s')"
  show "E s'"
  proof (cases "m s")
    case (Pair y s1)
    with P r show ?thesis
      using tripleD [OF assms(1) P] tripleD [OF assms(2)] assms(3) by (cases y) (auto split: option.splits)
  qed
qed

section \<open>Opening and removing a queue\<close>

text \<open>A lock file may be created for an object, and nothing else changes.\<close>

lemma lock_object_keeps: "triple (\<lambda>w. lock_at w a n) (lock_object l ob) (\<lambda>x w. lock_at w a n \<and> oo_name (snd x) = oo_name ob) (\<lambda>w. lock_at w a n)"
proof (rule tripleI)
  fix w x w' assume *: "lock_at w a n" "lock_object l ob w = (Inr x, w')"
  then have "objects w' y = objects w y \<and> (lockFiles w y \<longrightarrow> lockFiles w' y)" for y
    by (auto simp: lock_object_def vfs_lockHelper_def bnd_Inr_iff Let_def split: if_splits)
  moreover have "oo_name (snd x) = oo_name ob"
    using *(2) by (auto simp: lock_object_def bnd_Inr_iff Let_def setObjectLocked_def split: if_splits)
  ultimately show "lock_at w' a n \<and> oo_name (snd x) = oo_name ob" using lock_at_same [OF *(1)] by auto
next
  fix w e w' assume "lock_at w a n" "lock_object l ob w = (Inl e, w')"
  then show "lock_at w' a n"
    by (auto simp: lock_object_def vfs_lockHelper_def bnd_def liftr_def Let_def throw_def split: if_splits sum.splits prod.splits)
qed

lemma exclusive_lock_keeps: "triple (\<lambda>w. lock_at w a n) (exclusive_lock ob) (\<lambda>ob' w. lock_at w a n \<and> oo_name ob' = oo_name ob) (\<lambda>w. lock_at w a n)"
  unfolding exclusive_lock_def by (rule triple_bnd [OF lock_object_keeps]) (auto simp: triple_def split: prod.split)

lemma shared_lock_keeps: "triple (\<lambda>w. lock_at w a n) (shared_lock ob) (\<lambda>ob' w. lock_at w a n \<and> oo_name ob' = oo_name ob) (\<lambda>w. lock_at w a n)"
  unfolding shared_lock_def by (rule triple_bnd [OF lock_object_keeps]) (auto simp: triple_def split: prod.split)

text \<open>The object at the address of an image that was fetched has a payload of its kind.\<close>

definition is_kind :: "'p codec \<Rightarrow> world \<Rightarrow> string \<Rightarrow> bool" where
  "is_kind c w b \<longleftrightarrow> (\<exists>h. objects w b = Some h \<and> dec c (oh_payload h) \<noteq> None)"

lemma oo_fetch_keeps:
  "triple (\<lambda>w. lock_at w a n) (oo_fetch c ob) (\<lambda>ob' w. lock_at w a n \<and> oo_name ob' = oo_name ob \<and> is_kind c w (oo_name ob)
     \<and> (\<exists>h. objects w (oo_name ob) = Some h \<and> dec c (oh_payload h) = Some (oo_payload ob'))) (\<lambda>w. lock_at w a n)"
  unfolding triple_def oo_fetch_def fetchBottomHalf_def
  by (auto simp: bnd_def liftr_def throw_def getAddressIfSet_def vfs_read_def oo_interpret_def is_kind_def
      split: sum.splits prod.splits option.splits if_splits)

lemma re_open_queue_keeps:
  fixes c :: "'p codec"
  shows "triple (\<lambda>w. lock_at w a n) (re_open_queue c q) (\<lambda>opened w. lock_at w a n \<and> (case opened of None \<Rightarrow> True | Some q2 \<Rightarrow> is_kind c w (oo_name q2)))
     (\<lambda>w. lock_at w a n)"
  unfolding re_open_queue_def
proof (rule triple_caught [where R = "\<lambda>w. lock_at w a n"])
  show "triple (\<lambda>w. lock_at w a n) (bnd (exclusive_lock q) (\<lambda>q1. bnd (oo_fetch c q1) (\<lambda>q2. ret (Some q2))))
      (\<lambda>opened w. lock_at w a n \<and> (case opened of None \<Rightarrow> True | Some q2 \<Rightarrow> is_kind c w (oo_name q2))) (\<lambda>w. lock_at w a n)"
    by (rule triple_bnd [OF exclusive_lock_keeps], rule triple_bnd [OF triple_pre [OF oo_fetch_keeps]]) auto
next
  fix e and k :: "(world, 'p oo option) prog"
  assume "(if is_cta_exception e then Some (bnd (oo_exists q) (\<lambda>there. if there then throw e else ret None)) else None) = Some k"
  then show "triple (\<lambda>w. lock_at w a n) k (\<lambda>opened w. lock_at w a n \<and> (case opened of None \<Rightarrow> True | Some q2 \<Rightarrow> is_kind c w (oo_name q2))) (\<lambda>w. lock_at w a n)"
    by (cases "getAddressIfSet q") (auto simp: triple_def oo_exists_def bnd_def liftr_def split: if_splits)
qed simp

lemma oo_remove_keeps:
  assumes "\<And>r. dec c (enc re_c r) = None" and "\<And>p. dec c (enc sgl_c p) = None"
  shows "triple (\<lambda>w. lock_at w a n \<and> is_kind c w (oo_name q)) (oo_remove q) (\<lambda>_ w. lock_at w a n) (\<lambda>w. lock_at w a n)"
proof -
  have "lock_at w' a n" if w: "lock_at w a n" "is_kind c w (oo_name q)" and r: "oo_remove q w = (x, w')" for w x w'
  proof (rule lock_at_same [OF w(1)])
    fix y assume "y \<in> {re_address, a}"
    then have "\<exists>h. objects w y = Some h \<and> dec c (oh_payload h) = None" using w(1) assms by (auto simp: lock_at_def stored_def)
    then have "y \<noteq> oo_name q" using w(2) by (auto simp: is_kind_def)
    then show "objects w' y = objects w y \<and> (lockFiles w y \<longrightarrow> lockFiles w' y)"
      using r by (auto simp: oo_remove_def vfs_remove_def bnd_def liftr_def getAddressIfSet_def split: sum.splits prod.splits if_splits)
  qed
  then show ?thesis by (auto intro: tripleI)
qed

section \<open>Trimming\<close>

text \<open>The image of the root entry has the pointers.\<close>

definition root_points :: "string \<Rightarrow> root_entry oo \<Rightarrow> bool" where
  "root_points a re \<longleftrightarrow> oo_name re = re_address \<and> (\<exists>l d. re_schedulerlockpointer (oo_payload re) = Some l \<and> lp_address l = a
     \<and> re_driveregisterpointer (oo_payload re) = Some d \<and> lp_address d \<noteq> '''')"

lemma root_commit_keeps:
  assumes "root_points a ob"
  shows "triple (\<lambda>w. lock_at w a n) (oo_commit re_c ob) (\<lambda>_ w. lock_at w a n) (\<lambda>w. lock_at w a n)"
proof -
  have "lock_at w' a n" if w: "lock_at w a n" and r: "oo_commit re_c ob w = (x, w')" for w x w'
  proof (cases "w' = w\<lparr>objects := (objects w)(re_address \<mapsto> oo_header re_c ob)\<rparr>")
    case True
    from w lock_at_apart [OF w] have "stored re_c w' re_address (oo_payload ob)" "stored sgl_c w' a \<lparr>sgl_nextmountid = n\<rparr>" "a \<noteq> ''''"
      by (auto simp: lock_at_def stored_def True oo_header_def)
    with assms show ?thesis by (auto simp: lock_at_def root_points_def)
  next
    case False
    with r have "w' = w"
      using assms by (auto simp: root_points_def oo_commit_def vfs_atomicOverwrite_def bnd_def liftr_def throw_def getAddressIfSet_def split: sum.splits if_splits)
    with w show ?thesis by simp
  qed
  then show ?thesis by (auto intro: tripleI)
qed

lemma root_points_removed:
  "root_points a ob \<Longrightarrow> root_points a (ob\<lparr>oo_payload := mutableArchiveQueuePointers qt f (oo_payload ob)\<rparr>)"
  "root_points a ob \<Longrightarrow> root_points a (ob\<lparr>oo_payload := mutableRetrieveQueuePointers qt g (oo_payload ob)\<rparr>)"
  by (cases qt; simp add: root_points_def)+

text \<open>The two removals from the root entry, archive and retrieve, have this form.\<close>

lemma queue_removal_keeps:
  assumes kind: "\<And>r. dec c (enc re_c r) = None" "\<And>p. dec c (enc sgl_c p) = None"
    and ob1: "root_points a ob1"
    and check: "\<And>q. triple (\<lambda>w. lock_at w a n \<and> is_kind c w (oo_name q)) (check q) (\<lambda>_ w. lock_at w a n) (\<lambda>w. lock_at w a n)"
  shows "triple (\<lambda>w. lock_at w a n)
    (bnd (liftr address) (\<lambda>q. bnd (re_open_queue c q) (\<lambda>opened. bnd (case opened of None \<Rightarrow> ret () | Some q \<Rightarrow> check q) (\<lambda>_.
       bnd (oo_commit re_c ob1) (\<lambda>_. ret ob1)))))
    (\<lambda>re w. lock_at w a n \<and> root_points a re) (\<lambda>w. lock_at w a n)"
proof (rule triple_bnd [OF triple_liftr], rule triple_bnd [OF triple_pre [OF re_open_queue_keeps]])
  fix q opened
  have "triple (\<lambda>w. lock_at w a n \<and> (case opened of None \<Rightarrow> True | Some q2 \<Rightarrow> is_kind c w (oo_name q2)))
      (case opened of None \<Rightarrow> ret () | Some q \<Rightarrow> check q) (\<lambda>_ w. lock_at w a n) (\<lambda>w. lock_at w a n)"
    by (cases opened) (auto simp: check)
  then show "triple (\<lambda>w. lock_at w a n \<and> (case opened of None \<Rightarrow> True | Some q2 \<Rightarrow> is_kind c w (oo_name q2)))
      (bnd (case opened of None \<Rightarrow> ret () | Some q \<Rightarrow> check q) (\<lambda>_. bnd (oo_commit re_c ob1) (\<lambda>_. ret ob1)))
      (\<lambda>re w. lock_at w a n \<and> root_points a re) (\<lambda>w. lock_at w a n)"
    by (rule triple_bnd) (auto intro!: triple_bnd [OF root_commit_keeps [OF ob1]] simp: ob1)
qed auto

lemma removal_check_keeps:
  assumes kind: "\<And>r. dec c (enc re_c r) = None" "\<And>p. dec c (enc sgl_c p) = None"
  shows "triple (\<lambda>w. lock_at w a n \<and> is_kind c w (oo_name q))
    (bnd (liftr name) (\<lambda>x. if bad x then throw e1 else bnd (liftr none_left) (\<lambda>empty. if \<not> empty then throw e2 else bnd (oo_remove q) (\<lambda>_. ret ()))))
    (\<lambda>_ w. lock_at w a n) (\<lambda>w. lock_at w a n)"
proof -
  have "triple (\<lambda>w. lock_at w a n \<and> is_kind c w (oo_name q)) (bnd (oo_remove q) (\<lambda>_. ret ())) (\<lambda>_ w. lock_at w a n) (\<lambda>w. lock_at w a n)"
    by (rule triple_bnd [OF oo_remove_keeps [OF kind]]) auto
  then show ?thesis
    by (cases name; cases none_left) (auto simp: bnd_liftr)
qed

lemma removeArchiveQueue_keeps:
  assumes "root_points a ob"
  shows "triple (\<lambda>w. lock_at w a n) (re_removeArchiveQueueAndCommit tp qt ob) (\<lambda>re w. lock_at w a n \<and> root_points a re) (\<lambda>w. lock_at w a n)"
proof -
  have kind: "dec aq_c (enc re_c r) = None" "dec aq_c (enc sgl_c p) = None" for r p by (simp_all add: codec_defs)
  show ?thesis unfolding re_removeArchiveQueueAndCommit_def Let_def
    by (cases "checkPayloadWritable ob"; cases "findElement (\<lambda>tpp. aqp_name tpp = tp) (archiveQueuePointers qt (oo_payload ob))")
      (auto simp: bnd_liftr intro!: queue_removal_keeps removal_check_keeps kind root_points_removed assms)
qed

lemma removeRetrieveQueue_keeps:
  assumes "root_points a ob"
  shows "triple (\<lambda>w. lock_at w a n) (re_removeRetrieveQueueAndCommit vid qt ob) (\<lambda>re w. lock_at w a n \<and> root_points a re) (\<lambda>w. lock_at w a n)"
proof -
  have kind: "dec rq_c (enc re_c r) = None" "dec rq_c (enc sgl_c p) = None" for r p by (simp_all add: codec_defs)
  show ?thesis unfolding re_removeRetrieveQueueAndCommit_def Let_def
    by (cases "checkPayloadWritable ob"; cases "findElement (\<lambda>rqp. rqp_vid rqp = vid) (retrieveQueuePointers qt (oo_payload ob))")
      (auto simp: bnd_liftr intro!: queue_removal_keeps removal_check_keeps kind root_points_removed assms)
qed

text \<open>With the root entry as part of the state.\<close>

definition rooted_at :: "string \<Rightarrow> u64 \<Rightarrow> rooted \<Rightarrow> bool" where
  "rooted_at a n = (\<lambda>(w, re). lock_at w a n \<and> root_points a re)"

lemma in_store_keeps:
  assumes "triple (\<lambda>w. lock_at w a n) m (\<lambda>_ w. lock_at w a n) (\<lambda>w. lock_at w a n)"
  shows "triple (rooted_at a n) (in_store m) (\<lambda>_. rooted_at a n) (rooted_at a n)"
  using assms unfolding triple_def in_store_def rooted_at_def by (auto split: prod.splits sum.splits)

lemma change_root_keeps:
  assumes "\<And>ob. root_points a ob \<Longrightarrow>
    triple (\<lambda>w. lock_at w a n) (f ob) (\<lambda>re w. lock_at w a n \<and> root_points a re) (\<lambda>w. lock_at w a n)"
  shows "triple (rooted_at a n) (change_root f) (\<lambda>_. rooted_at a n) (rooted_at a n)"
  using assms unfolding triple_def change_root_def rooted_at_def by (auto split: prod.splits sum.splits) fastforce+

lemma from_root_keeps:
  assumes "triple (rooted_at a n) m (\<lambda>_. rooted_at a n) (rooted_at a n)"
  shows "triple (\<lambda>w. lock_at w a n \<and> root_points a re) (\<lambda>w. case m (w, re) of (r, (w', re')) \<Rightarrow> (r, w')) (\<lambda>_ w. lock_at w a n) (\<lambda>w. lock_at w a n)"
proof (rule tripleI)
  fix w x w' assume w: "lock_at w a n \<and> root_points a re" and "(case m (w, re) of (r, (w', re')) \<Rightarrow> (r, w')) = (Inr x, w')"
  then obtain re' where "m (w, re) = (Inr x, (w', re'))" by (auto split: prod.splits)
  with tripleD(1) [OF assms, of "(w, re)" x "(w', re')"] w show "lock_at w' a n" by (simp add: rooted_at_def)
next
  fix w e w' assume w: "lock_at w a n \<and> root_points a re" and "(case m (w, re) of (r, (w', re')) \<Rightarrow> (r, w')) = (Inl e, w')"
  then obtain re' where "m (w, re) = (Inl e, (w', re'))" by (auto split: prod.splits)
  with tripleD(2) [OF assms, of "(w, re)" e "(w', re')"] w show "lock_at w' a n" by (simp add: rooted_at_def)
qed

lemma of_root_keeps: "triple (rooted_at a n) (of_root f) (\<lambda>_. rooted_at a n) (rooted_at a n)"
  unfolding triple_def of_root_def by (auto split: prod.splits sum.splits)

lemma read_summary_keeps:
  "triple (\<lambda>w. lock_at w a n) (bnd (liftr address) (\<lambda>q. bnd (shared_lock q) (\<lambda>q. bnd (oo_fetch c q) (\<lambda>q. liftr (summary q)))))
     (\<lambda>_ w. lock_at w a n) (\<lambda>w. lock_at w a n)"
  by (rule triple_bnd [OF triple_liftr], rule triple_bnd [OF triple_pre [OF shared_lock_keeps]],
      simp, rule triple_bnd [OF triple_pre [OF oo_fetch_keeps]]) (auto simp: triple_def split: sum.split)

lemma trim_queues_keeps: "triple (rooted_at a n) (trim_queues qt) (\<lambda>_. rooted_at a n) (rooted_at a n)"
proof -
  have "triple (rooted_at a n) (trim_archive_queue qt x) (\<lambda>_. rooted_at a n) (rooted_at a n)" for x
    unfolding trim_archive_queue_def
    by (rule triple_bnd [OF in_store_keeps [OF read_summary_keeps]]) (auto intro!: change_root_keeps removeArchiveQueue_keeps)
  moreover have "triple (rooted_at a n) (trim_retrieve_queue qt x) (\<lambda>_. rooted_at a n) (rooted_at a n)" for x
    unfolding trim_retrieve_queue_def
    by (rule triple_bnd [OF in_store_keeps [OF read_summary_keeps]]) (auto intro!: change_root_keeps removeRetrieveQueue_keeps)
  ultimately show ?thesis unfolding trim_queues_def by (intro triple_bnd [OF of_root_keeps] triple_bnd [OF triple_foldM] triple_foldM) auto
qed

text \<open>Trimming keeps the scheduler's lock and the pointers to it, whatever its result.\<close>

lemma trimEmptyQueues_keeps:
  assumes w: "lock_at w a n" and r: "trimEmptyQueues w = (x, w')"
  shows "lock_at w' a n"
proof -
  define m where "m = foldM (\<lambda>_ queueType. bnd (attempt (trim_queues queueType)) (\<lambda>_. ret ())) () [JobsToTransferForUser, JobsToReportToUser, FailedJobs]"
  define loop where "loop = (\<lambda>re w. case m (w, re) of (r, (w', re')) \<Rightarrow> (r, w'))"
  have "triple (rooted_at a n) m (\<lambda>_. rooted_at a n) (rooted_at a n)" unfolding m_def
    by (intro triple_foldM triple_bnd [OF triple_attempt [OF trim_queues_keeps]]) auto
  then have loop: "triple (\<lambda>w. lock_at w a n \<and> root_points a re) (loop re) (\<lambda>_ w. lock_at w a n) (\<lambda>w. lock_at w a n)" for re
    unfolding loop_def by (rule from_root_keeps)
  have fetched: "triple (\<lambda>w. lock_at w a n \<and> oo_name ob = re_address) (oo_fetch re_c ob) (\<lambda>re w. lock_at w a n \<and> root_points a re) (\<lambda>w. lock_at w a n)" for ob
  proof (rule tripleI)
    fix w re w' assume "lock_at w a n \<and> oo_name ob = re_address" "oo_fetch re_c ob w = (Inr re, w')"
    with tripleD(1) [OF oo_fetch_keeps [of a n re_c ob], of w re w'] show "lock_at w' a n \<and> root_points a re"
      by (auto simp: lock_at_def root_points_def stored_def codec_defs)
  qed (use tripleD(2) [OF oo_fetch_keeps] in blast)
  have "triple (\<lambda>w. lock_at w a n) trimEmptyQueues (\<lambda>_ w. lock_at w a n) (\<lambda>w. lock_at w a n)"
    unfolding trimEmptyQueues_def m_def [symmetric] loop_def [symmetric]
  proof (rule triple_bnd [OF triple_liftr])
    fix re
    show "triple (\<lambda>s. lock_at s a n \<and> re_at = Inr re) (bnd (exclusive_lock re) (\<lambda>re. bnd (oo_fetch re_c re) loop)) (\<lambda>_ w. lock_at w a n) (\<lambda>w. lock_at w a n)"
    proof (cases "re_at = Inr re")
      case True
      then have "oo_name re = re_address" by (auto simp: re_at_def setAddress_def oo_new_def split: if_splits)
      with True show ?thesis
        by (intro triple_bnd [OF triple_pre [OF exclusive_lock_keeps]] triple_bnd [OF triple_pre [OF fetched]] loop) auto
    qed (simp add: triple_def)
  qed
  from tripleD [OF this w] r show ?thesis by (cases x) auto
qed

end
