(* ===== verification/OStoreProperties.thy ===== *)
theory OStoreProperties
  imports SchedulerLock MountProperties AlgorithmProperties
begin

text \<open>
  Properties of the database interface of the scheduler over the object store: a candidate for an archive mount stands for the
  jobs of its queue, every mount has its own number, and the files of a mount are numbered one after the other.
\<close>

section \<open>Mount policies\<close>

text \<open>\<open>createBestArchiveMountPolicy\<close> and \<open>createBestRetrieveMountPolicy\<close> change the first policy to what it is already.\<close>

lemma best_policy_first:
  "createBestArchiveMountPolicy (mp # mps) = Inr mp" "createBestRetrieveMountPolicy (mp # mps) = Inr mp"
proof -
  have first: "foldl (\<lambda>a b. a) x xs = x" for x :: mount_policy and xs by (induction xs) auto
  have same: "mp\<lparr>mp_archivePriority := mp_archivePriority mp\<rparr> = mp" "mp\<lparr>mp_archiveMinRequestAge := mp_archiveMinRequestAge mp\<rparr> = mp"
    "mp\<lparr>mp_retrievePriority := mp_retrievePriority mp\<rparr> = mp" "mp\<lparr>mp_retrieveMinRequestAge := mp_retrieveMinRequestAge mp\<rparr> = mp"
    for mp :: mount_policy by simp_all
  show "createBestArchiveMountPolicy (mp # mps) = Inr mp" "createBestRetrieveMountPolicy (mp # mps) = Inr mp"
    unfolding createBestArchiveMountPolicy_def createBestRetrieveMountPolicy_def reduce_list_def Let_def same if_cancel
    by (simp_all only: list.case first)
qed

lemma highest_policy:
  assumes "mps \<noteq> []"
  shows "\<exists>mp \<in> set mps. getHighestPriorityArchiveMountPolicyName mps = Inr (mp_name mp) \<and> (\<forall>q \<in> set mps. mp_archivePriority q \<le> mp_archivePriority mp)"
proof -
  let ?op = "\<lambda>mp1 mp2. if mp_archivePriority mp2 > mp_archivePriority mp1 then mp2 else mp1 :: mount_policy"
  have "foldl ?op x xs \<in> set (x # xs) \<and> (\<forall>q \<in> set (x # xs). mp_archivePriority q \<le> mp_archivePriority (foldl ?op x xs))" for x xs
  proof (induction xs arbitrary: x)
    case (Cons y xs)
    from Cons [of "?op x y"] show ?case by (auto split: if_splits)
  qed simp
  with assms show ?thesis
    by (cases mps) (auto simp: getHighestPriorityArchiveMountPolicyName_def reduce_list_def simp del: foldl_Cons list.set)
qed

section \<open>Candidates for archive mounts\<close>

text \<open>The summary of a queue that is read without a lock.\<close>

lemma fetched_summary:
  assumes "stored aq_c w a p" "aq_rep p v"
  shows "\<exists>q s. setAddress a (oo_new aq_empty) = Inr ((oo_new aq_empty)\<lparr>oo_name := a, oo_nameSet := True\<rparr>)
    \<and> oo_fetchNoLock aq_c ((oo_new aq_empty)\<lparr>oo_name := a, oo_nameSet := True\<rparr>) w = (Inr q, w) \<and> aq_getJobsSummary q = Inr s
    \<and> (aqjs_jobs s = 0 \<longleftrightarrow> view_jobs v = []) \<and> (view_jobs v \<noteq> [] \<longrightarrow>
        s = \<lparr>aqjs_jobs = of_nat (length (view_jobs v)), aqjs_bytes = (\<Sum>j\<leftarrow>view_jobs v. ajp_size j),
           aqjs_oldestJobStartTime = aq_oldestjobcreationtime p, aqjs_youngestJobStartTime = aq_youngestjobcreationtime p,
           aqjs_priority = Max (ajp_priority ` set (view_jobs v)), aqjs_minArchiveRequestAge = Min (ajp_minarchiverequestage ` set (view_jobs v)),
           aqjs_mountPolicyCountMap = (\<lambda>n. let k = count_list (map ajp_mountpolicyname (view_jobs v)) n in if k = 0 then None else Some (of_nat k))\<rparr>)"
proof -
  let ?js = "view_jobs v"
  have ok: "codec_ok aq_c" by (simp add: codecs_ok)
  obtain q where q: "oo_fetchNoLock aq_c ((oo_new aq_empty)\<lparr>oo_name := a, oo_nameSet := True\<rparr>) w = (Inr q, w)" "oo_payload q = p"
    "checkPayloadReadable q = Inr ()" using lockfree_fetch_stored [OF ok assms(1)] by metis
  obtain ob where ob: "held ob" "oo_payload ob = p" using exclusive_fetch_stored [OF ok assms(1)] by metis
  have same: "aq_getJobsSummary q = aq_getJobsSummary ob" using q ob by (simp add: aq_getJobsSummary_def)
  have "aq_sums p ?js" using assms(2) by (simp add: aq_rep_def)
  then have bound: "length ?js < 2 ^ 64" by (rule aq_sums_bound)
  have nz: "(of_nat (length ?js) :: u64) = 0 \<longleftrightarrow> ?js = []"
    using bound of_nat_word_eq_0_iff [of "length ?js", where 'w = 64] by simp
  show ?thesis
  proof (cases "?js = []")
    case True
    then have "aq_archivejobscount p = 0" using assms(2) by (simp add: aq_rep_def aq_sums_def)
    then show ?thesis using True q setAddress_new [of a aq_empty] storedD [OF assms(1)] by (simp add: aq_getJobsSummary_def Let_def)
  next
    case False
    with aq_getJobsSummary_rep [OF ob(1), of v] ob(2) assms(2) show ?thesis
      using q same setAddress_new [of a aq_empty] storedD [OF assms(1)] nz by simp
  qed
qed

text \<open>
  The candidate for the jobs of a queue: it has their number and size. Priority and age are the best of the jobs if the catalogue
  knows none of their policies, and those of the first policy of the catalogue that a job has otherwise.
\<close>

definition policies_of :: "mount_policy list \<Rightarrow> archive_job_pointer list \<Rightarrow> mount_policy list" where
  "policies_of mps js = filter (\<lambda>mp. mp_name mp \<in> ajp_mountpolicyname ` set js) mps"

definition stands_for :: "mount_policy list \<Rightarrow> MountType \<Rightarrow> string \<Rightarrow> archive_job_pointer list \<Rightarrow> potential_mount \<Rightarrow> bool" where
  "stands_for mps type pool js m \<longleftrightarrow> pm_type m = type \<and> pm_tapePool m = pool \<and> \<not> pm_sleepingMount m
     \<and> pm_filesQueued m = of_nat (length js) \<and> pm_bytesQueued m = (\<Sum>j\<leftarrow>js. ajp_size j)
     \<and> (case policies_of mps js of
          [] \<Rightarrow> pm_priority m = Max (ajp_priority ` set js) \<and> pm_minRequestAge m = Min (ajp_minarchiverequestage ` set js)
        | mp # _ \<Rightarrow> pm_priority m = mp_archivePriority mp \<and> pm_minRequestAge m = mp_archiveMinRequestAge mp
            \<and> (\<exists>high \<in> set (policies_of mps js). pm_highestPriorityMountPolicyName m = Some (mp_name high)
                 \<and> (\<forall>q \<in> set (policies_of mps js). mp_archivePriority q \<le> mp_archivePriority high)))"

lemma lowest_policy: "mps \<noteq> [] \<Longrightarrow> \<exists>n. getLowestRequestAgeArchiveMountPolicyName mps = Inr n"
  by (cases mps) (auto simp: getLowestRequestAgeArchiveMountPolicyName_def reduce_list_def)

lemma policies_in_queue:
  "getMountPoliciesInQueue mps (\<lambda>n. let k = count_list (map ajp_mountpolicyname js) n in if k = 0 then None else Some (of_nat k)) = policies_of mps js"
  unfolding getMountPoliciesInQueue_def policies_of_def by (rule filter_cong) (auto simp: count_list_0_iff)

lemma add_archive_queue_stored:
  assumes "stored aq_c w (aqp_address aqp) p" "aq_rep p v"
  shows "if view_jobs v = [] then add_archive_queue mps type tmdi aqp w = (Inr (tmdi\<lparr>mi_queueTrimRequired := True\<rparr>), w)
    else \<exists>m. add_archive_queue mps type tmdi aqp w = (Inr (add_candidates [m] tmdi), w) \<and> stands_for mps type (aqp_name aqp) (view_jobs v) m"
proof -
  obtain q s where q: "setAddress (aqp_address aqp) (oo_new aq_empty) = Inr ((oo_new aq_empty)\<lparr>oo_name := aqp_address aqp, oo_nameSet := True\<rparr>)"
    "oo_fetchNoLock aq_c ((oo_new aq_empty)\<lparr>oo_name := aqp_address aqp, oo_nameSet := True\<rparr>) w = (Inr q, w)" "aq_getJobsSummary q = Inr s"
    and zero: "aqjs_jobs s = 0 \<longleftrightarrow> view_jobs v = []"
    and s: "view_jobs v \<noteq> [] \<Longrightarrow>
        s = \<lparr>aqjs_jobs = of_nat (length (view_jobs v)), aqjs_bytes = (\<Sum>j\<leftarrow>view_jobs v. ajp_size j),
           aqjs_oldestJobStartTime = aq_oldestjobcreationtime p, aqjs_youngestJobStartTime = aq_youngestjobcreationtime p,
           aqjs_priority = Max (ajp_priority ` set (view_jobs v)), aqjs_minArchiveRequestAge = Min (ajp_minarchiverequestage ` set (view_jobs v)),
           aqjs_mountPolicyCountMap = (\<lambda>n. let k = count_list (map ajp_mountpolicyname (view_jobs v)) n in if k = 0 then None else Some (of_nat k))\<rparr>"
    using fetched_summary [OF assms] by (elim exE conjE) auto
  have step: "add_archive_queue mps type tmdi aqp w = (if aqjs_jobs s \<noteq> 0
      then bnd (liftr (archive_candidate mps type (aqp_name aqp) s)) (\<lambda>m. ret (add_candidates [m] tmdi)) w else (Inr (tmdi\<lparr>mi_queueTrimRequired := True\<rparr>), w))"
    by (simp add: add_archive_queue_def q attempt_def ret_def)
  show ?thesis
  proof (cases "view_jobs v = []")
    case True
    with step zero show ?thesis by simp
  next
    case False
    let ?ps = "policies_of mps (view_jobs v)"
    have pol: "getMountPoliciesInQueue mps (aqjs_mountPolicyCountMap s) = ?ps" unfolding s [OF False] aq_jobs_summary.simps by (rule policies_in_queue)
    have fields: "aqjs_jobs s = of_nat (length (view_jobs v))" "aqjs_bytes s = (\<Sum>j\<leftarrow>view_jobs v. ajp_size j)"
      "aqjs_priority s = Max (ajp_priority ` set (view_jobs v))" "aqjs_minArchiveRequestAge s = Min (ajp_minarchiverequestage ` set (view_jobs v))"
      unfolding s [OF False] by simp_all
    have "\<exists>m. archive_candidate mps type (aqp_name aqp) s = Inr m \<and> stands_for mps type (aqp_name aqp) (view_jobs v) m"
    proof (cases ?ps)
      case Nil
      then show ?thesis by (cases "mps = []") (simp_all add: archive_candidate_def pol fields stands_for_def pm_new_def Let_def)
    next
      case (Cons mp rest)
      then obtain high low where names: "high \<in> set ?ps" "getHighestPriorityArchiveMountPolicyName ?ps = Inr (mp_name high)"
        "\<forall>q \<in> set ?ps. mp_archivePriority q \<le> mp_archivePriority high" "getLowestRequestAgeArchiveMountPolicyName ?ps = Inr low"
        using highest_policy [of ?ps] lowest_policy [of ?ps] by auto
      have "mps \<noteq> []" using Cons by (auto simp: policies_of_def)
      then show ?thesis using names Cons best_policy_first(1) [of mp rest]
        by (auto simp: archive_candidate_def pol fields stands_for_def pm_new_def Let_def)
    qed
    with step zero False show ?thesis by (auto simp: ret_def)
  qed
qed

definition waiting :: "world \<Rightarrow> (string \<Rightarrow> archive_job_pointer list) \<Rightarrow> archive_queue_pointer list \<Rightarrow> bool" where
  "waiting w jobs aqps \<longleftrightarrow> (\<forall>aqp \<in> set aqps. \<exists>p v. stored aq_c w (aqp_address aqp) p \<and> aq_rep p v \<and> view_jobs v = jobs (aqp_address aqp))"

definition candidates_for ::
  "mount_policy list \<Rightarrow> MountType \<Rightarrow> (string \<Rightarrow> archive_job_pointer list) \<Rightarrow> archive_queue_pointer list \<Rightarrow> potential_mount list \<Rightarrow> bool" where
  "candidates_for mps type jobs aqps ms \<longleftrightarrow>
     list_all2 (\<lambda>aqp m. stands_for mps type (aqp_name aqp) (jobs (aqp_address aqp)) m) (filter (\<lambda>aqp. jobs (aqp_address aqp) \<noteq> []) aqps) ms"

lemma foldM_add_archive_queue:
  assumes "waiting w jobs aqps"
  shows "\<exists>ms tmdi'. foldM (add_archive_queue mps type) tmdi aqps w = (Inr tmdi', w) \<and> candidates_for mps type jobs aqps ms
    \<and> tmdi' = (add_candidates ms tmdi)\<lparr>mi_queueTrimRequired := mi_queueTrimRequired tmdi \<or> (\<exists>aqp \<in> set aqps. jobs (aqp_address aqp) = [])\<rparr>"
  using assms
proof (induction aqps arbitrary: tmdi)
  case Nil
  then show ?case by (simp add: candidates_for_def add_candidates_def ret_def)
next
  case (Cons aqp aqps)
  then obtain p v where p: "stored aq_c w (aqp_address aqp) p" "aq_rep p v" "view_jobs v = jobs (aqp_address aqp)" by (auto simp: waiting_def)
  have w: "waiting w jobs aqps" using Cons.prems by (simp add: waiting_def)
  show ?case
  proof (cases "jobs (aqp_address aqp) = []")
    case True
    with add_archive_queue_stored [OF p(1,2), of mps type tmdi] p(3)
    have "add_archive_queue mps type tmdi aqp w = (Inr (tmdi\<lparr>mi_queueTrimRequired := True\<rparr>), w)" by simp
    with Cons.IH [OF w, of "tmdi\<lparr>mi_queueTrimRequired := True\<rparr>"] True show ?thesis by (auto simp: candidates_for_def add_candidates_def)
  next
    case False
    with add_archive_queue_stored [OF p(1,2), of mps type tmdi] p(3) obtain m where
      m: "add_archive_queue mps type tmdi aqp w = (Inr (add_candidates [m] tmdi), w)" "stands_for mps type (aqp_name aqp) (jobs (aqp_address aqp)) m" by auto
    obtain ms where ms: "foldM (add_archive_queue mps type) (add_candidates [m] tmdi) aqps w
        = (Inr ((add_candidates ms (add_candidates [m] tmdi))\<lparr>mi_queueTrimRequired := mi_queueTrimRequired tmdi \<or> (\<exists>aqp \<in> set aqps. jobs (aqp_address aqp) = [])\<rparr>), w)"
      "candidates_for mps type jobs aqps ms"
      using Cons.IH [OF w, of "add_candidates [m] tmdi"] by (auto simp: add_candidates_def)
    have "candidates_for mps type jobs (aqp # aqps) (m # ms)" using ms(2) m(2) False by (simp add: candidates_for_def)
    with m(1) ms(1) False show ?thesis by (intro exI [of _ "m # ms"]) (simp add: add_candidates_def)
  qed
qed

lemma fetchNoLock_reads: "oo_fetchNoLock c ob w = (r, w') \<Longrightarrow> w' = w"
  by (auto simp: oo_fetchNoLock_def fetchBottomHalf_def vfs_read_def bnd_def liftr_def ret_def throw_def split: sum.splits prod.splits if_splits option.splits)

lemma set_sleep_same [simp]: "pm_type (set_sleep now b info m) = pm_type m" "pm_vid (set_sleep now b info m) = pm_vid m"
  by (simp_all add: set_sleep_def Let_def split: option.split)

lemma retrieve_candidates_type:
  "retrieve_candidates now mps vid lf s = Inr ms \<Longrightarrow> m \<in> set ms \<Longrightarrow> pm_type m = Retrieve \<and> pm_vid m = vid"
  by (auto simp: retrieve_candidates_def rbind_Inr_iff Let_def pm_new_def split: if_splits)

text \<open>Retrieve candidates are appended, and a trim may be asked for.\<close>

definition more_retrieves :: "mount_info \<Rightarrow> mount_info \<Rightarrow> bool" where
  "more_retrieves mi mi' \<longleftrightarrow> (\<exists>ms. mi_potentialMounts mi' = mi_potentialMounts mi @ ms \<and> (\<forall>m \<in> set ms. pm_type m = Retrieve))
     \<and> mi_existingOrNextMounts mi' = mi_existingOrNextMounts mi \<and> (mi_queueTrimRequired mi \<longrightarrow> mi_queueTrimRequired mi')"

lemma more_retrieves:
  "more_retrieves mi mi" "more_retrieves mi (mi\<lparr>mi_queueTrimRequired := True\<rparr>)"
  "(\<forall>m \<in> set ms. pm_type m = Retrieve) \<Longrightarrow> more_retrieves mi (add_candidates ms mi)"
  by (auto simp: more_retrieves_def add_candidates_def)

lemma more_retrieves_trans: "more_retrieves a b \<Longrightarrow> more_retrieves b c \<Longrightarrow> more_retrieves a c"
  unfolding more_retrieves_def by (metis (no_types, lifting) Un_iff append_assoc set_append)

lemma add_retrieve_queue_reads:
  assumes "add_retrieve_queue env purpose mps tmdi rqp w = (Inr tmdi', w')"
  shows "w' = w \<and> more_retrieves tmdi tmdi'"
proof -
  obtain q where q: "setAddress (rqp_address rqp) (oo_new rq_empty) = Inr q"
    using assms by (cases "setAddress (rqp_address rqp) (oo_new rq_empty)") (auto simp: add_retrieve_queue_def throw_def)
  obtain r w1 where f: "oo_fetchNoLock rq_c q w = (r, w1)" by force
  have w1: "w1 = w" using fetchNoLock_reads [OF f] .
  show ?thesis
  proof (cases r)
    case (Inl e)
    then show ?thesis using assms q f w1
      by (auto simp: add_retrieve_queue_def bnd_def attempt_cases ret_def split: if_splits intro: more_retrieves)
  next
    case (Inr rq)
    with assms q f w1 obtain s tapes t where s: "rq_getJobsSummary rq = Inr s" "oe_getTapesByVid env (rqp_vid rqp) = Inr tapes" "tapes (rqp_vid rqp) = Some t"
      by (auto simp: add_retrieve_queue_def bnd_def attempt_cases liftr_def throw_def split: sum.splits option.splits)
    with Inr assms q f w1 show ?thesis
      by (cases "rqjs_jobs s \<noteq> 0 \<and> (is_potential_mount (qt_state t) (rq_getMountPolicyNames rq) \<or> purpose = SHOW_QUEUES)")
        (auto simp: add_retrieve_queue_def bnd_def attempt_cases liftr_def ret_def split: sum.splits
          dest: retrieve_candidates_type intro: more_retrieves)
  qed
qed

lemma foldM_add_retrieve_queue:
  "foldM (add_retrieve_queue env purpose mps) tmdi rqps w = (Inr tmdi', w') \<Longrightarrow> w' = w \<and> more_retrieves tmdi tmdi'"
proof (induction rqps arbitrary: tmdi w)
  case Nil
  then show ?case by (auto simp: ret_def more_retrieves)
next
  case (Cons rqp rqps)
  then obtain t1 w1 where r: "add_retrieve_queue env purpose mps tmdi rqp w = (Inr t1, w1)" "foldM (add_retrieve_queue env purpose mps) t1 rqps w1 = (Inr tmdi', w')"
    by (auto simp: bnd_Inr_iff)
  from add_retrieve_queue_reads [OF r(1)] Cons.IH [OF r(2)] show ?case by (auto intro: more_retrieves_trans)
qed

text \<open>
  C33. What the scheduler sees of the archive queues. \<open>fetchMountInfo\<close> changes nothing in the store, and for the queues of files to
  archive, for users first and then for repack, it gives one candidate for each queue with jobs, in the order of the root entry,
  and a request to trim when a queue is empty. A candidate names the pool, the number of jobs and their total size. Its
  priority and its age are the best ones of the jobs if the catalogue has no policy of theirs; otherwise they are
  those of the first policy in the catalogue that a job has, while the policy it names as the one of highest
  priority is the highest of them. The other candidates are retrieves, and the existing mounts are those of the drives.
\<close>
theorem archive_candidates_exact:
  assumes user: "waiting w jobs (archiveQueuePointers JobsToTransferForUser (oo_payload re))"
    and repack: "waiting w jobs (archiveQueuePointers JobsToTransferForRepack (oo_payload re))"
    and r: "fetchMountInfo env re purpose mi_new w = (Inr mi, w')"
  shows "w' = w \<and> (\<exists>mps drives user_ms repack_ms retrieve_ms. oe_getCachedMountPolicies env = Inr mps \<and> oe_getDriveStates env = Inr drives
    \<and> mi_potentialMounts mi = user_ms @ repack_ms @ retrieve_ms
    \<and> candidates_for mps ArchiveForUser jobs (archiveQueuePointers JobsToTransferForUser (oo_payload re)) user_ms
    \<and> candidates_for mps ArchiveForRepack jobs (archiveQueuePointers JobsToTransferForRepack (oo_payload re)) repack_ms
    \<and> (\<forall>m \<in> set retrieve_ms. pm_type m = Retrieve)
    \<and> mi_existingOrNextMounts mi = concat (map drive_mounts drives)
    \<and> ((\<exists>type \<in> {JobsToTransferForUser, JobsToTransferForRepack}. \<exists>aqp \<in> set (archiveQueuePointers type (oo_payload re)). jobs (aqp_address aqp) = [])
         \<longrightarrow> mi_queueTrimRequired mi))"
proof -
  have readable: "checkPayloadReadable re = Inr ()" and "\<exists>mps. oe_getCachedMountPolicies env = Inr mps"
    using r unfolding fetchMountInfo_def bnd_Inr_iff liftr_def re_dumpArchiveQueues_def by (auto simp: rbind_Inr_iff)
  then obtain mps where mps: "oe_getCachedMountPolicies env = Inr mps" by blast
  obtain us t1 where us: "foldM (add_archive_queue mps ArchiveForUser) mi_new (archiveQueuePointers JobsToTransferForUser (oo_payload re)) w = (Inr t1, w)"
    "candidates_for mps ArchiveForUser jobs (archiveQueuePointers JobsToTransferForUser (oo_payload re)) us"
    "t1 = (add_candidates us mi_new)\<lparr>mi_queueTrimRequired := mi_queueTrimRequired mi_new
       \<or> (\<exists>aqp \<in> set (archiveQueuePointers JobsToTransferForUser (oo_payload re)). jobs (aqp_address aqp) = [])\<rparr>"
    using foldM_add_archive_queue [OF user] by blast
  obtain rs t2 where rs: "foldM (add_archive_queue mps ArchiveForRepack) t1 (archiveQueuePointers JobsToTransferForRepack (oo_payload re)) w = (Inr t2, w)"
    "candidates_for mps ArchiveForRepack jobs (archiveQueuePointers JobsToTransferForRepack (oo_payload re)) rs"
    "t2 = (add_candidates rs t1)\<lparr>mi_queueTrimRequired := mi_queueTrimRequired t1
       \<or> (\<exists>aqp \<in> set (archiveQueuePointers JobsToTransferForRepack (oo_payload re)). jobs (aqp_address aqp) = [])\<rparr>"
    using foldM_add_archive_queue [OF repack] by blast
  note r = r [unfolded fetchMountInfo_def mps re_dumpArchiveQueues_def readable rbind_simps bnd_liftr]
  from r obtain rqps t3 drives where t3: "foldM (add_retrieve_queue env purpose mps) t2 rqps w = (Inr t3, w')"
    and d: "oe_getDriveStates env = Inr drives" and mi: "mi = t3\<lparr>mi_existingOrNextMounts := mi_existingOrNextMounts t3 @ concat (map drive_mounts drives)\<rparr>"
    unfolding bnd_Inr_iff us(1) liftr_def by (auto simp: ret_def rs(1) [simplified])
  from foldM_add_retrieve_queue [OF t3] obtain qs where q: "w' = w" "mi_potentialMounts t3 = mi_potentialMounts t2 @ qs"
    "\<forall>m \<in> set qs. pm_type m = Retrieve" "mi_existingOrNextMounts t3 = mi_existingOrNextMounts t2" "mi_queueTrimRequired t2 \<longrightarrow> mi_queueTrimRequired t3"
    unfolding more_retrieves_def by blast
  have "mi_potentialMounts mi = us @ rs @ qs" "mi_existingOrNextMounts mi = concat (map drive_mounts drives)"
    using q by (simp_all add: mi us(3) rs(3) add_candidates_def mi_new_def)
  moreover have "mi_queueTrimRequired mi"
    if "\<exists>type \<in> {JobsToTransferForUser, JobsToTransferForRepack}. \<exists>aqp \<in> set (archiveQueuePointers type (oo_payload re)). jobs (aqp_address aqp) = []"
    using that q(5) by (auto simp: mi us(3) rs(3))
  ultimately show ?thesis using mps d us(2) rs(2) q(1,3) by blast
qed

definition ex_policies :: "mount_policy list" where
  "ex_policies = [smp_policy\<lparr>mp_name := ''other''\<rparr>, smp_policy\<lparr>mp_archivePriority := 1\<rparr>]"

definition ex_ostore_env :: ostore_env where
  "ex_ostore_env = \<lparr>oe_now = 100, oe_agentSet = True, oe_getCachedMountPolicies = Inr ex_policies,
     oe_getTapesByVid = (\<lambda>vid. Inr Map.empty), oe_getDriveStates = Inr []\<rparr>"

definition ex_root :: "root_entry oo" where
  "ex_root = (oo_new sma_root)\<lparr>oo_name := ''root'', oo_nameSet := True, oo_headerInterpreted := True, oo_payloadInterpreted := True,
     oo_existingObject := True, oo_noLock := True\<rparr>"

definition ex_jobs :: "string \<Rightarrow> archive_job_pointer list" where
  "ex_jobs a = view_jobs smp_view"

lemma ex_waiting:
  "waiting sma_world ex_jobs (archiveQueuePointers JobsToTransferForUser (oo_payload ex_root))"
  "waiting sma_world ex_jobs (archiveQueuePointers JobsToTransferForRepack (oo_payload ex_root))"
proof -
  have "stored aq_c sma_world ''Q'' smp_payload" by (simp add: stored_def sma_world_def smp_world_def smp_header_def codec_defs)
  moreover have "aq_rep smp_payload smp_view" using smp_inv by (simp add: aq_inv_def smp_queue_def)
  ultimately show "waiting sma_world ex_jobs (archiveQueuePointers JobsToTransferForUser (oo_payload ex_root))"
    by (auto simp: waiting_def ex_root_def oo_new_def sma_root_def ex_jobs_def)
  show "waiting sma_world ex_jobs (archiveQueuePointers JobsToTransferForRepack (oo_payload ex_root))"
    by (simp add: waiting_def ex_root_def oo_new_def sma_root_def re_empty_def)
qed

lemma ex_fetched: "\<exists>mi. fetchMountInfo ex_ostore_env ex_root GET_NEXT_MOUNT mi_new sma_world = (Inr mi, sma_world)"
proof -
  obtain t1 where t1: "foldM (add_archive_queue ex_policies ArchiveForUser) mi_new
      (archiveQueuePointers JobsToTransferForUser (oo_payload ex_root)) sma_world = (Inr t1, sma_world)"
    using foldM_add_archive_queue [OF ex_waiting(1)] by blast
  have "checkPayloadReadable ex_root = Inr ()" by (simp add: ex_root_def oo_new_def check_defs)
  moreover have "archiveQueuePointers JobsToTransferForRepack (oo_payload ex_root) = []" "retrieveQueuePointers JobsToTransferForUser (oo_payload ex_root) = []"
    by (simp_all add: ex_root_def oo_new_def sma_root_def re_empty_def)
  ultimately show ?thesis using t1
    by (simp add: fetchMountInfo_def ex_ostore_env_def re_dumpArchiveQueues_def re_dumpRetrieveQueues_def ret_def)
qed

theorem archive_candidates_exact_witness:
  "\<exists>mi m. fetchMountInfo ex_ostore_env ex_root GET_NEXT_MOUNT mi_new sma_world = (Inr mi, sma_world)
     \<and> m \<in> set (mi_potentialMounts mi) \<and> pm_tapePool m = ''pool'' \<and> pm_type m = ArchiveForUser \<and> pm_filesQueued m = 2"
proof -
  obtain mi where r: "fetchMountInfo ex_ostore_env ex_root GET_NEXT_MOUNT mi_new sma_world = (Inr mi, sma_world)" using ex_fetched by blast
  from archive_candidates_exact [OF ex_waiting r] obtain mps us rest where
    us: "mi_potentialMounts mi = us @ rest" "candidates_for mps ArchiveForUser ex_jobs (archiveQueuePointers JobsToTransferForUser (oo_payload ex_root)) us"
    by blast
  have "archiveQueuePointers JobsToTransferForUser (oo_payload ex_root) = [\<lparr>aqp_address = ''Q'', aqp_name = ''pool''\<rparr>]" "length (view_jobs smp_view) = 2" "view_jobs smp_view \<noteq> []"
    by (simp_all add: ex_root_def oo_new_def sma_root_def smp_view_def)
  with us(2) obtain m where "us = [m]" "stands_for mps ArchiveForUser ''pool'' (view_jobs smp_view) m"
    by (auto simp: candidates_for_def ex_jobs_def list_all2_Cons1)
  with r us(1) \<open>length (view_jobs smp_view) = 2\<close> show ?thesis by (intro exI [of _ mi] exI [of _ m]) (simp add: stands_for_def)
qed

section \<open>Programs that only read\<close>

definition reads_only :: "('s, 'a) prog \<Rightarrow> bool" where
  "reads_only p \<longleftrightarrow> (\<forall>s r s'. p s = (r, s') \<longrightarrow> s' = s)"

lemma reads_only_simps [simp]: "reads_only (ret x)" "reads_only (throw e)" "reads_only (liftr r)" "reads_only (oo_fetchNoLock c ob)"
  using fetchNoLock_reads by (auto simp: reads_only_def ret_def throw_def liftr_def)

lemma reads_only_bnd: "reads_only p \<Longrightarrow> (\<And>x. reads_only (f x)) \<Longrightarrow> reads_only (bnd p f)"
  unfolding reads_only_def bnd_def by (auto split: prod.splits sum.splits) blast+

lemma reads_only_attempt: "reads_only p \<Longrightarrow> reads_only (attempt p)"
  unfolding reads_only_def attempt_def by (auto split: prod.splits sum.splits if_splits)

lemma reads_only_foldM: "(\<And>b x. reads_only (f b x)) \<Longrightarrow> reads_only (foldM f b xs)"
  by (induction xs arbitrary: b) (auto intro: reads_only_bnd)

lemma fetchMountInfo_reads: "reads_only (fetchMountInfo env re purpose tmdi)"
proof -
  have "reads_only (add_archive_queue mps type t aqp)" for mps type t aqp
    unfolding add_archive_queue_def by (intro reads_only_bnd reads_only_attempt) (auto intro!: reads_only_bnd split: sum.split)
  moreover have "reads_only (add_retrieve_queue env purpose mps t rqp)" for mps t rqp
    unfolding add_retrieve_queue_def by (intro reads_only_bnd reads_only_attempt) (auto intro!: reads_only_bnd split: sum.split option.split)
  ultimately show ?thesis unfolding fetchMountInfo_def by (intro reads_only_bnd reads_only_foldM) auto
qed

section \<open>Mount numbers\<close>

text \<open>The decision of a drive that has fetched the mount information and holds the scheduler's lock.\<close>

definition holds_decision :: "world \<Rightarrow> string \<Rightarrow> u64 \<Rightarrow> decision_lock \<Rightarrow> bool" where
  "holds_decision w a n dl \<longleftrightarrow> lock_at w a n \<and> dl_lockTaken dl \<and> sl_locked (dl_lock dl) \<and> held (dl_schedulerGlobalLock dl)
     \<and> oo_name (dl_schedulerGlobalLock dl) = a \<and> oo_payload (dl_schedulerGlobalLock dl) = \<lparr>sgl_nextmountid = n\<rparr>"

lemma fetch_root_stored:
  assumes "stored re_c w re_address r"
  shows "\<exists>re. fetch_root w = (Inr re, w) \<and> oo_payload re = r \<and> checkPayloadReadable re = Inr ()"
proof -
  have "re_address \<noteq> ''''" using storedD [OF assms] by simp
  then have "re_at = Inr ((oo_new re_empty)\<lparr>oo_name := re_address, oo_nameSet := True\<rparr>)" by (simp add: re_at_def setAddress_new)
  moreover have "codec_ok re_c" by simp
  ultimately show ?thesis using lockfree_fetch_stored [of re_c w re_address r re_empty] assms by (auto simp: fetch_root_def)
qed

lemma lock_fetch_stored:
  assumes "codec_ok c" and "stored c w a p"
  shows "\<exists>l s ob. lock_object \<lparr>sl_exclusive = True, sl_locked = False\<rparr> ((oo_new p0)\<lparr>oo_name := a, oo_nameSet := True\<rparr>) w = (Inr (l, s), w)
    \<and> oo_fetch c s w = (Inr ob, w) \<and> sl_locked l \<and> held ob \<and> oo_name ob = a \<and> oo_payload ob = p"
proof -
  obtain s ob where s: "exclusive_lock ((oo_new p0)\<lparr>oo_name := a, oo_nameSet := True\<rparr>) w = (Inr s, w)" "oo_fetch c s w = (Inr ob, w)"
    "held ob" "oo_name ob = a" "oo_payload ob = p" using exclusive_fetch_stored [OF assms] by metis
  then obtain l where l: "lock_object \<lparr>sl_exclusive = True, sl_locked = False\<rparr> ((oo_new p0)\<lparr>oo_name := a, oo_nameSet := True\<rparr>) w = (Inr (l, s), w)"
    by (auto simp: exclusive_lock_def bnd_Inr_iff ret_def split: prod.splits)
  then have "sl_locked l" by (auto simp: lock_object_def bnd_Inr_iff ret_def Let_def split: if_splits)
  with s l show ?thesis by blast
qed

text \<open>Both calls see the same information; the one with the lock keeps it.\<close>

lemma getMountInfo_at:
  assumes "lock_at w a n"
  shows "\<exists>re dl. checkPayloadReadable re = Inr () \<and> stored re_c w re_address (oo_payload re) \<and> holds_decision w a n dl
    \<and> getMountInfo env (w, l) = (if \<not> oe_agentSet env then (Inl (CtaException ''AgentNotSet''), (w, l))
        else case fst (fetchMountInfo env re GET_NEXT_MOUNT mi_new w) of Inl e \<Rightarrow> (Inl e, (w, l)) | Inr mi \<Rightarrow> (Inr mi, (w, Some dl)))
    \<and> getMountInfoNoLock env GET_NEXT_MOUNT (w, l) = (if \<not> oe_agentSet env then (Inl (CtaException ''AgentNotSet''), (w, l))
        else case fst (fetchMountInfo env re GET_NEXT_MOUNT mi_new w) of Inl e \<Rightarrow> (Inl e, (w, l)) | Inr mi \<Rightarrow> (Inr mi, (w, None)))"
proof -
  obtain p l where p: "stored re_c w re_address p" "re_schedulerlockpointer p = Some l" "lp_address l = a" "a \<noteq> ''''"
    "stored sgl_c w a \<lparr>sgl_nextmountid = n\<rparr>" using assms by (auto simp: lock_at_def)
  obtain re where re: "fetch_root w = (Inr re, w)" "oo_payload re = p" "checkPayloadReadable re = Inr ()" using fetch_root_stored [OF p(1)] by blast
  have at: "re_getSchedulerGlobalLock re = Inr a" "sgl_at a = Inr ((oo_new sgl_empty)\<lparr>oo_name := a, oo_nameSet := True\<rparr>)"
    using re p by (simp_all add: re_getSchedulerGlobalLock_def sgl_at_def setAddress_new)
  obtain lock s1 ob where lock: "lock_object \<lparr>sl_exclusive = True, sl_locked = False\<rparr> ((oo_new sgl_empty)\<lparr>oo_name := a, oo_nameSet := True\<rparr>) w = (Inr (lock, s1), w)"
    "oo_fetch sgl_c s1 w = (Inr ob, w)" "sl_locked lock" "held ob" "oo_name ob = a" "oo_payload ob = \<lparr>sgl_nextmountid = n\<rparr>"
    using lock_fetch_stored [OF _ p(5), of sgl_empty] by auto
  obtain r1 where f: "fetchMountInfo env re GET_NEXT_MOUNT mi_new w = (r1, w)"
    using fetchMountInfo_reads [of env re GET_NEXT_MOUNT mi_new] unfolding reads_only_def by (metis surj_pair)
  define dl where "dl = \<lparr>dl_schedulerGlobalLock = ob, dl_lock = lock, dl_lockTaken = True\<rparr>"
  have "holds_decision w a n dl" using lock(3-6) assms by (simp add: holds_decision_def dl_def)
  with re p(1) show ?thesis
    by (intro exI [of _ re] exI [of _ dl]) (simp add: getMountInfo_def getMountInfoNoLock_def assertAgentAddressSet_def in_store_def set_lock_def
        bnd_def at lock(1,2) f dl_def split: sum.split)
qed

text \<open>Taking a number: the lock object in the store has the next one, and the lock is free again.\<close>

lemma take_mount_id_holds:
  assumes "holds_decision w a n dl"
  shows "\<exists>w' dl'. take_mount_id dl (w, Some dl) = (Inr n, (w', Some dl')) \<and> lock_at w' a (n + 1) \<and> \<not> dl_lockTaken dl'"
proof -
  let ?sgl = "dl_schedulerGlobalLock dl"
  obtain p l d where p: "stored re_c w re_address p" "re_schedulerlockpointer p = Some l" "lp_address l = a" "a \<noteq> ''''" "re_driveregisterpointer p = Some d"
    "lp_address d \<noteq> ''''" "stored sgl_c w a \<lparr>sgl_nextmountid = n\<rparr>" using assms by (auto simp: holds_decision_def lock_at_def)
  have dl: "held ?sgl" "sl_locked (dl_lock dl)" "oo_payload ?sgl = \<lparr>sgl_nextmountid = n\<rparr>" "oo_name ?sgl = a" "re_address \<noteq> a"
    using assms lock_at_apart by (auto simp: holds_decision_def)
  obtain re where re: "fetch_root w = (Inr re, w)" "oo_payload re = p" "checkPayloadReadable re = Inr ()" using fetch_root_stored [OF p(1)] by blast
  define sgl where "sgl = ?sgl\<lparr>oo_payload := \<lparr>sgl_nextmountid = n + 1\<rparr>\<rparr>"
  define w' where "w' = w\<lparr>objects := (objects w)(a \<mapsto> oo_header sgl_c sgl)\<rparr>"
  have held: "held sgl" using dl(1) by (simp add: sgl_def held_def)
  have inc: "sgl_getIncreaseCommitMountId ?sgl = Inr (n, sgl)" using dl by (simp add: sgl_getIncreaseCommitMountId_def sgl_def Let_def)
  have commit: "oo_commit sgl_c sgl w = (Inr (), w')"
    using oo_commit_held [OF held, of sgl_c w] dl(4) storedD [OF p(7)] by (simp add: sgl_def w'_def vfs_exists_def)
  have reg: "re_getDriveRegisterAddress re = Inr (lp_address d)" using re p by (simp add: re_getDriveRegisterAddress_def)
  have "take_mount_id dl (w, Some dl) = (Inr n, (w', Some (case lock_release (dl_lock dl) sgl ([] :: unit oo list) of
      Inr (l, s, _) \<Rightarrow> \<lparr>dl_schedulerGlobalLock = s, dl_lock = l, dl_lockTaken = False\<rparr>)))"
    using re(1) reg inc commit dl(2)
    by (simp add: take_mount_id_def in_store_def set_lock_def bnd_def ret_def liftr_def lock_release_def Let_def)
  moreover have "stored re_c w' re_address p" "stored sgl_c w' a \<lparr>sgl_nextmountid = n + 1\<rparr>"
    using p(1,7) dl(5) by (auto simp: stored_def w'_def oo_header_def sgl_def)
  then have "lock_at w' a (n + 1)" using p by (auto simp: lock_at_def)
  moreover have "\<not> dl_lockTaken (case lock_release (dl_lock dl) sgl ([] :: unit oo list) of
      Inr (l, s, _) \<Rightarrow> \<lparr>dl_schedulerGlobalLock = s, dl_lock = l, dl_lockTaken = False\<rparr>)"
    using dl(2) by (simp add: lock_release_def Let_def)
  ultimately show ?thesis by blast
qed

text \<open>A creation under the lock, and one without it.\<close>

lemma createArchiveMount_holds:
  assumes "holds_decision w a n dl"
  shows "(\<exists>e. type \<notin> {ArchiveForUser, ArchiveForRepack} \<and> createArchiveMount type t drive lib host mt (w, Some dl) = (Inl e, (w, Some dl)))
    \<or> (\<exists>am w' dl'. createArchiveMount type t drive lib host mt (w, Some dl) = (Inr am, (w', Some dl')) \<and> am_mountId am = n
         \<and> lock_at w' a (n + 1) \<and> \<not> dl_lockTaken dl')"
proof -
  obtain w' dl' where t: "take_mount_id dl (w, Some dl) = (Inr n, (w', Some dl'))" "lock_at w' a (n + 1)" "\<not> dl_lockTaken dl'"
    using take_mount_id_holds [OF assms] by blast
  moreover have "dl_lockTaken dl" using assms by (simp add: holds_decision_def)
  ultimately show ?thesis
    by (cases type) (auto simp: createArchiveMount_def with_decision_def archive_queue_type_def bnd_def)
qed

lemma createRetrieveMount_holds:
  assumes "holds_decision w a n dl"
  shows "\<exists>rm w' dl'. createRetrieveMount vid pool drive lib host mt (w, Some dl) = (Inr rm, (w', Some dl')) \<and> rm_mountId rm = n
    \<and> lock_at w' a (n + 1) \<and> \<not> dl_lockTaken dl'"
proof -
  obtain w' dl' where t: "take_mount_id dl (w, Some dl) = (Inr n, (w', Some dl'))" "lock_at w' a (n + 1)" "\<not> dl_lockTaken dl'"
    using take_mount_id_holds [OF assms] by blast
  moreover have "dl_lockTaken dl" using assms by (simp add: holds_decision_def)
  ultimately show ?thesis by (auto simp: createRetrieveMount_def with_decision_def bnd_def)
qed

definition decided :: "ostore \<Rightarrow> bool" where
  "decided s \<longleftrightarrow> (\<exists>dl. snd s = Some dl \<and> dl_lockTaken dl)"

lemma create_undecided:
  assumes "\<not> decided s"
  shows "\<exists>e. createArchiveMount type t drive lib host mt s = (Inl e, s)" "\<exists>e. createRetrieveMount vid pool drive lib host mt s = (Inl e, s)"
  using assms by (cases s; cases "snd s"; auto simp: decided_def createArchiveMount_def createRetrieveMount_def with_decision_def
      archive_queue_type_def split: MountType.split)+

text \<open>
  The steps of the drives, with the numbers of the mounts made so far. A drive fetches the mount information, which takes the
  scheduler's lock; that waits while another drive holds it. It trims queues and asks for mounts, as often as it likes and with any
  result, and lets the decision go. In between, the other processes may change the store in any way that leaves the
  scheduler's lock object and the pointers by which it is found.
\<close>

inductive mount_step :: "ostore \<times> u64 list \<Rightarrow> ostore \<times> u64 list \<Rightarrow> bool" where
  decide: "\<not> decided s \<Longrightarrow> getMountInfo env s = (r, s') \<Longrightarrow> mount_step (s, ids) (s', ids)"
| trim: "in_store trimEmptyQueues s = (r, s') \<Longrightarrow> mount_step (s, ids) (s', ids)"
| archive: "createArchiveMount type t drive lib host mt s = (r, s')
    \<Longrightarrow> mount_step (s, ids) (s', case r of Inl e \<Rightarrow> ids | Inr am \<Rightarrow> ids @ [am_mountId am])"
| retrieve: "createRetrieveMount vid pool drive lib host mt s = (r, s')
    \<Longrightarrow> mount_step (s, ids) (s', case r of Inl e \<Rightarrow> ids | Inr rm \<Rightarrow> ids @ [rm_mountId rm])"
| release: "release_decision s = (r, s') \<Longrightarrow> mount_step (s, ids) (s', ids)"
| others: "(\<And>a n. lock_at w a n \<Longrightarrow> lock_at w' a n) \<Longrightarrow> mount_step ((w, l), ids) ((w', l), ids)"

definition decision_at :: "string \<Rightarrow> u64 \<Rightarrow> ostore \<Rightarrow> bool" where
  "decision_at a n = (\<lambda>(w, l). lock_at w a n \<and> (\<forall>dl. l = Some dl \<and> dl_lockTaken dl \<longrightarrow> holds_decision w a n dl))"

lemma decision_at_step:
  assumes "decision_at a n s"
  shows "\<not> decided s \<Longrightarrow> getMountInfo env s = (r, s') \<Longrightarrow> decision_at a n s'"
    and "in_store trimEmptyQueues s = (r2, s') \<Longrightarrow> decision_at a n s'"
    and "createArchiveMount type t drive lib host mt s = (r3, s') \<Longrightarrow> case r3 of Inl e \<Rightarrow> decision_at a n s' | Inr am \<Rightarrow> am_mountId am = n \<and> decision_at a (n + 1) s'"
    and "createRetrieveMount vid pool drive lib host mt s = (r4, s') \<Longrightarrow> case r4 of Inl e \<Rightarrow> decision_at a n s' | Inr rm \<Rightarrow> rm_mountId rm = n \<and> decision_at a (n + 1) s'"
proof -
  obtain w l where s: "s = (w, l)" by (cases s)
  have w: "lock_at w a n" and l: "\<And>dl. l = Some dl \<Longrightarrow> dl_lockTaken dl \<Longrightarrow> holds_decision w a n dl"
    using assms by (auto simp: decision_at_def s)
  have held: "\<exists>dl. l = Some dl \<and> holds_decision w a n dl" if "decided s" using that l by (auto simp: decided_def s)
  show "decision_at a n s'" if "\<not> decided s" "getMountInfo env s = (r, s')"
    using getMountInfo_at [OF w, of env l] that w l by (auto simp: s decision_at_def decided_def split: if_splits sum.splits)
  show "decision_at a n s'" if "in_store trimEmptyQueues s = (r2, s')"
    using that trimEmptyQueues_keeps [OF w] l by (auto simp: s in_store_def decision_at_def holds_decision_def split: prod.splits)
  show "case r3 of Inl e \<Rightarrow> decision_at a n s' | Inr am \<Rightarrow> am_mountId am = n \<and> decision_at a (n + 1) s'"
    if r: "createArchiveMount type t drive lib host mt s = (r3, s')"
  proof (cases "decided s")
    case True
    with held obtain dl where "l = Some dl" "holds_decision w a n dl" by blast
    with createArchiveMount_holds [OF this(2), of type t drive lib host mt] r assms show ?thesis by (auto simp: s decision_at_def)
  next
    case False
    from create_undecided(1) [OF this, of type t drive lib host mt] r assms show ?thesis by auto
  qed
  show "case r4 of Inl e \<Rightarrow> decision_at a n s' | Inr rm \<Rightarrow> rm_mountId rm = n \<and> decision_at a (n + 1) s'"
    if r: "createRetrieveMount vid pool drive lib host mt s = (r4, s')"
  proof (cases "decided s")
    case True
    with held obtain dl where "l = Some dl" "holds_decision w a n dl" by blast
    with createRetrieveMount_holds [OF this(2), of vid pool drive lib host mt] r assms show ?thesis by (auto simp: s decision_at_def)
  next
    case False
    from create_undecided(2) [OF this, of vid pool drive lib host mt] r assms show ?thesis by auto
  qed
qed

definition numbered :: "string \<Rightarrow> u64 \<Rightarrow> ostore \<times> u64 list \<Rightarrow> bool" where
  "numbered a n = (\<lambda>(s, ids). decision_at a (n + of_nat (length ids)) s \<and> ids = map (\<lambda>i. n + of_nat i) [0..<length ids])"

lemma mount_step_numbered: "mount_step x y \<Longrightarrow> numbered a n x \<Longrightarrow> numbered a n y"
proof (induction rule: mount_step.induct)
  case (decide s env r s' ids)
  then have "decision_at a (n + of_nat (length ids)) s" by (simp add: numbered_def)
  from decision_at_step(1) [OF this decide.hyps] decide.prems show ?case by (simp add: numbered_def)
next
  case (trim s r s' ids)
  then have "decision_at a (n + of_nat (length ids)) s" by (simp add: numbered_def)
  from decision_at_step(2) [OF this trim.hyps] trim.prems show ?case by (simp add: numbered_def)
next
  case (archive type t drive lib host mt s r s' ids)
  then have d: "decision_at a (n + of_nat (length ids)) s" "ids = map (\<lambda>i. n + of_nat i) [0..<length ids]" by (simp_all add: numbered_def)
  from decision_at_step(3) [OF d(1) archive.hyps] d(2) show ?case
    by (cases r) (simp_all add: numbered_def add.assoc add.commute [of 1])
next
  case (retrieve vid pool drive lib host mt s r s' ids)
  then have d: "decision_at a (n + of_nat (length ids)) s" "ids = map (\<lambda>i. n + of_nat i) [0..<length ids]" by (simp_all add: numbered_def)
  from decision_at_step(4) [OF d(1) retrieve.hyps] d(2) show ?case
    by (cases r) (simp_all add: numbered_def add.assoc add.commute [of 1])
next
  case (release s r s' ids)
  then show ?case by (auto simp: numbered_def decision_at_def release_decision_def split: prod.splits)
next
  case (others w w' l ids)
  then show ?case by (auto simp: numbered_def decision_at_def holds_decision_def)
qed

text \<open>
  C15. No two mounts have the same number. From a store whose root entry points to the scheduler's lock object and to a drive
  register, and with no decision under way, let the drives fetch mount information, trim queues, ask for archive and
  retrieve mounts and let decisions go, one step at a time, in any order and with any results, failed requests included, except that
  fetching waits for the scheduler's lock; and let other processes change the store in between, provided they leave the scheduler's
  lock object and the pointers by which it is found (a lock object that is removed and added again starts at 1
  again). Then the numbers of the mounts that were made are those that follow the number in the lock object at the start, one after the
  other; so they are distinct, up to the \<open>2 ^ 64\<close> numbers there are.
\<close>
theorem mount_numbers_distinct:
  assumes "mount_step\<^sup>*\<^sup>* ((w, None), []) (s, ids)" and "lock_at w a n" and "length ids \<le> 2 ^ 64"
  shows "ids = map (\<lambda>i. n + of_nat i) [0..<length ids] \<and> distinct ids"
proof -
  have "numbered a n ((w, None), [])" using assms(2) by (simp add: numbered_def decision_at_def)
  with assms(1) have "numbered a n (s, ids)" by (induction rule: rtranclp_induct) (auto intro: mount_step_numbered)
  then have ids: "ids = map (\<lambda>i. n + of_nat i) [0..<length ids]" by (simp add: numbered_def)
  have "inj_on (\<lambda>i. n + of_nat i :: u64) {0..<length ids}"
  proof (rule inj_onI)
    fix i j assume "i \<in> {0..<length ids}" "j \<in> {0..<length ids}" "n + of_nat i = n + (of_nat j :: u64)"
    then show "i = j" using of_nat_word_inj [of i j, where 'w = 64] assms(3) by simp
  qed
  then have "distinct (map (\<lambda>i. n + of_nat i :: u64) [0..<length ids])" by (simp add: distinct_map)
  with ids show ?thesis by simp
qed

definition exm_pointer :: "string \<Rightarrow> logged_pointer" where
  "exm_pointer a = \<lparr>lp_address = a, lp_log = \<lparr>el_username = ''u'', el_host = ''h'', el_time = 1\<rparr>\<rparr>"

definition exm_root :: root_entry where
  "exm_root = re_empty\<lparr>re_schedulerlockpointer := Some (exm_pointer ''lock''), re_driveregisterpointer := Some (exm_pointer ''drives'')\<rparr>"

definition exm_world :: world where
  "exm_world = \<lparr>objects = [''root'' \<mapsto> smp_header (Payload_RootEntry exm_root), ''lock'' \<mapsto> smp_header (Payload_SchedulerGlobalLock \<lparr>sgl_nextmountid = 7\<rparr>)],
     lockFiles = (\<lambda>n. n \<in> {''root'', ''lock''}), agentAddress = ''agent'', nextIdCounter = 0\<rparr>"

lemma exm_stored: "stored re_c exm_world re_address exm_root" "stored sgl_c exm_world ''lock'' \<lparr>sgl_nextmountid = 7\<rparr>"
  by (simp_all add: stored_def exm_world_def smp_header_def codec_defs re_address_def)

lemma exm_lock_at: "lock_at exm_world ''lock'' 7"
  unfolding lock_at_def using exm_stored by (intro exI [of _ exm_root]) (simp add: exm_root_def exm_pointer_def)

lemma exm_info: "\<exists>mi dl. getMountInfo ex_ostore_env (exm_world, None) = (Inr mi, (exm_world, Some dl)) \<and> holds_decision exm_world ''lock'' 7 dl"
proof -
  obtain re dl where re: "checkPayloadReadable re = Inr ()" "stored re_c exm_world re_address (oo_payload re)" "holds_decision exm_world ''lock'' 7 dl"
    "getMountInfo ex_ostore_env (exm_world, None) = (if \<not> oe_agentSet ex_ostore_env then (Inl (CtaException ''AgentNotSet''), (exm_world, None))
        else case fst (fetchMountInfo ex_ostore_env re GET_NEXT_MOUNT mi_new exm_world) of Inl e \<Rightarrow> (Inl e, (exm_world, None)) | Inr mi \<Rightarrow> (Inr mi, (exm_world, Some dl)))"
    using getMountInfo_at [OF exm_lock_at, of ex_ostore_env None] by blast
  have "oo_payload re = exm_root" using re(2) exm_stored(1) by (auto simp: stored_def codec_defs)
  then have "fst (fetchMountInfo ex_ostore_env re GET_NEXT_MOUNT mi_new exm_world) = Inr mi_new"
    using re(1) by (simp add: fetchMountInfo_def ex_ostore_env_def re_dumpArchiveQueues_def re_dumpRetrieveQueues_def exm_root_def re_empty_def mi_new_def)
  with re(3,4) show ?thesis by (simp add: ex_ostore_env_def)
qed

theorem mount_numbers_distinct_witness:
  "\<exists>s ids. mount_step\<^sup>*\<^sup>* ((exm_world, None), []) (s, ids) \<and> ids = [7]"
proof -
  obtain mi dl where dl: "getMountInfo ex_ostore_env (exm_world, None) = (Inr mi, (exm_world, Some dl))" "holds_decision exm_world ''lock'' 7 dl"
    using exm_info by blast
  have "\<not> decided (exm_world, None)" by (simp add: decided_def)
  note step1 = mount_step.decide [OF this dl(1), of "[]"]
  obtain rm s where rm: "createRetrieveMount ''V1'' ''P'' ''D1'' ''L'' ''host'' (pm_mount_tape pm_new) (exm_world, Some dl) = (Inr rm, s)"
    using createRetrieveMount_holds [OF dl(2)] by blast
  from mount_step.retrieve [OF rm, of "[]"] have step2: "mount_step ((exm_world, Some dl), []) (s, [rm_mountId rm])" by simp
  from step1 step2 have steps: "mount_step\<^sup>*\<^sup>* ((exm_world, None), []) (s, [rm_mountId rm])" by (meson rtranclp.simps)
  from mount_numbers_distinct [OF steps exm_lock_at] have "[rm_mountId rm] = [7]" by simp
  with steps show ?thesis by (intro exI [of _ s] exI [of _ "[rm_mountId rm]"] conjI)
qed

section \<open>The dry run\<close>

text \<open>What the mount information holds: mounts of three types, and the mounts of the drives.\<close>

lemma add_archive_queue_type:
  assumes "add_archive_queue mps type tmdi aqp w = (Inr tmdi', w')"
  shows "mi_existingOrNextMounts tmdi' = mi_existingOrNextMounts tmdi \<and> (\<forall>m \<in> set (mi_potentialMounts tmdi'). m \<in> set (mi_potentialMounts tmdi) \<or> pm_type m = type)"
proof -
  have type: "archive_candidate mps type pool s = Inr m \<Longrightarrow> pm_type m = type" for pool s m
    by (auto simp: archive_candidate_def Let_def rbind_Inr_iff split: if_splits)
  from assms show ?thesis
    unfolding add_archive_queue_def bnd_Inr_iff
    by (elim exE conjE) (auto simp: bnd_Inr_iff add_candidates_def dest: type split: sum.splits if_splits)
qed

lemma foldM_add_archive_queue_type:
  "foldM (add_archive_queue mps type) tmdi aqps w = (Inr tmdi', w') \<Longrightarrow>
     mi_existingOrNextMounts tmdi' = mi_existingOrNextMounts tmdi \<and> (\<forall>m \<in> set (mi_potentialMounts tmdi'). m \<in> set (mi_potentialMounts tmdi) \<or> pm_type m = type)"
proof (induction aqps arbitrary: tmdi w)
  case (Cons aqp aqps)
  then obtain t1 w1 where r: "add_archive_queue mps type tmdi aqp w = (Inr t1, w1)" "foldM (add_archive_queue mps type) t1 aqps w1 = (Inr tmdi', w')"
    by (auto simp: bnd_Inr_iff)
  from add_archive_queue_type [OF r(1)] Cons.IH [OF r(2)] show ?case by auto
qed simp

lemma drive_mounts_few: "length (concat (map drive_mounts drives)) \<le> 2 * length drives"
  by (induction drives) (auto simp: drive_mounts_def)

lemma fetchMountInfo_mountable:
  assumes "fetchMountInfo env re purpose mi_new w = (Inr mi, w')"
  shows "(\<forall>m \<in> set (mi_potentialMounts mi). mountable (pm_type m))
    \<and> (\<exists>drives. oe_getDriveStates env = Inr drives \<and> length (mi_existingOrNextMounts mi) \<le> 2 * length drives)"
proof -
  from assms obtain mps user repack retrieve t1 t2 t3 w1 w2 w3 drives where
    r: "foldM (add_archive_queue mps ArchiveForUser) mi_new user w = (Inr t1, w1)" "foldM (add_archive_queue mps ArchiveForRepack) t1 repack w1 = (Inr t2, w2)"
    "foldM (add_retrieve_queue env purpose mps) t2 retrieve w2 = (Inr t3, w3)" "oe_getDriveStates env = Inr drives"
    "mi = t3\<lparr>mi_existingOrNextMounts := mi_existingOrNextMounts t3 @ concat (map drive_mounts drives)\<rparr>"
    unfolding fetchMountInfo_def bnd_Inr_iff liftr_def by auto
  from foldM_add_archive_queue_type [OF r(1)] foldM_add_archive_queue_type [OF r(2)] foldM_add_retrieve_queue [OF r(3)]
  have "mi_existingOrNextMounts t3 = []" "\<forall>m \<in> set (mi_potentialMounts t3). mountable (pm_type m)"
    by (auto simp: mi_new_def more_retrieves_def mountable_def)
  with r(4,5) drive_mounts_few [of drives] show ?thesis by simp
qed

lemma holds_creates:
  assumes "holds_decision w a n dl"
  shows "creates_at (ostore_db oenv) (w, Some dl)"
proof -
  have "\<exists>am d'. createArchiveMount type t drive lib host mt (w, Some dl) = (Inr am, d')"
    if "type \<in> {ArchiveForUser, ArchiveForRepack}" for type t drive lib host mt
    using createArchiveMount_holds [OF assms, of type t drive lib host mt] that by blast
  moreover have "\<exists>rm d'. createRetrieveMount vid pool drive lib host mt (w, Some dl) = (Inr rm, d')" for vid pool drive lib host mt
    using createRetrieveMount_holds [OF assms, of vid pool drive lib host mt] by blast
  ultimately show ?thesis by (simp add: creates_at_def ostore_db_def)
qed

definition mount_number :: "(archive_mount, retrieve_mount) tape_mount \<Rightarrow> u64" where
  "mount_number mount = (case mount of ArchiveMount am \<Rightarrow> am_mountId am | RetrieveMount rm \<Rightarrow> rm_mountId rm)"

lemma made_number:
  assumes "holds_decision w a n dl" and "made env (ostore_db oenv) lib drive s m mount (w, Some dl) (w', l')"
  shows "mount_number mount = n \<and> lock_at w' a (n + 1)"
proof (cases mount)
  case (ArchiveMount am)
  with assms(2) obtain t where "createArchiveMount (pm_type m) t drive lib (me_hostName env) (tfw_mount_tape t) (w, Some dl) = (Inr am, (w', l'))"
    by (auto simp: made_def ostore_db_def)
  with createArchiveMount_holds [OF assms(1), of "pm_type m" t drive lib "me_hostName env" "tfw_mount_tape t"] ArchiveMount show ?thesis
    by (auto simp: mount_number_def)
next
  case (RetrieveMount rm)
  with assms(2) have "createRetrieveMount (pm_vid m) (pm_tapePool m) drive lib (me_hostName env) (pm_mount_tape m) (w, Some dl) = (Inr rm, (w', l'))"
    by (auto simp: made_def ostore_db_def)
  with createRetrieveMount_holds [OF assms(1), of "pm_vid m" "pm_tapePool m" drive lib "me_hostName env" "pm_mount_tape m"] RetrieveMount show ?thesis
    by (auto simp: mount_number_def)
qed

text \<open>
  C20. The dry run says what the next mount does, on the database over the object store. The root entry points to the scheduler's lock object and to
  a drive register, there are fewer than \<open>2 ^ 31\<close> drives, the sort is any that does what \<open>std::sort\<close> promises, and trimming returns if an empty queue asks for it
  (the real run trims, the dry run does not). When \<open>getNextMountDryRun\<close> returns, it has not changed the store, and \<open>getNextMount\<close>, from the same state, returns
  too, with a mount if and only if the dry run answered that there is one. The mount has the number that was in the lock object, which has the next
  one then; it was created for one of the candidates that passed the criteria, and no candidate for which there is a tape comes
  before that one in the order of \<open>operator <\<close>.
\<close>
theorem getNextMount_dry_run:
  assumes "sorts (me_sort env)" and few: "\<forall>drives. oe_getDriveStates oenv = Inr drives \<longrightarrow> length drives < 2 ^ 31"
    and lock: "lock_at w a n"
    and trim: "\<forall>mi s. getMountInfoNoLock oenv GET_NEXT_MOUNT (w, l) = (Inr mi, s) \<and> mi_queueTrimRequired mi \<longrightarrow> fst (trimEmptyQueues w) = Inr ()"
    and dry: "getNextMountDryRun env (ostore_db oenv) lib drive (w, l) = (Inr b, s)"
  shows "fst s = w \<and> (\<exists>r w' l'. getNextMount env (ostore_db oenv) lib drive (w, l) = (Inr r, (w', l')) \<and> (b \<longleftrightarrow> r \<noteq> None) \<and>
    (\<forall>mount. r = Some mount \<longrightarrow> mount_number mount = n \<and> lock_at w' a (n + 1) \<and>
      (\<exists>mi mi' sm m d. getMountInfoNoLock oenv GET_NEXT_MOUNT (w, l) = (Inr mi, (w, None))
         \<and> sortAndGetTapesForMountInfo env lib drive mi ms_empty = Inr (mi', sm)
         \<and> m \<in> set (mi_potentialMounts mi') \<and> made env (ostore_db oenv) lib drive sm m mount d (w', l')
         \<and> (\<forall>m' \<in> set (mi_potentialMounts mi'). could_mount sm m' \<longrightarrow> \<not> pm_less m m'))))"
proof (cases "\<exists>ll. getLogicalLibrary env lib = Inr (Some ll) \<and> \<not> ll_isDisabled ll")
  case False
  with dry have "getLogicalLibrary env lib = Inr None \<or> (\<exists>ll. getLogicalLibrary env lib = Inr (Some ll) \<and> ll_isDisabled ll)"
    by (cases "getLogicalLibrary env lib") (auto simp: getNextMountDryRun_def throw_def split: option.splits if_splits)
  with dry show ?thesis by (auto simp: getNextMountDryRun_def getNextMount_def)
next
  case True
  then obtain ll where ll: "getLogicalLibrary env lib = Inr (Some ll)" "\<not> ll_isDisabled ll" by blast
  obtain re dl where dl: "holds_decision w a n dl"
    and g: "getMountInfo oenv (w, l) = (if \<not> oe_agentSet oenv then (Inl (CtaException ''AgentNotSet''), (w, l))
        else case fst (fetchMountInfo oenv re GET_NEXT_MOUNT mi_new w) of Inl e \<Rightarrow> (Inl e, (w, l)) | Inr mi \<Rightarrow> (Inr mi, (w, Some dl)))"
      "getMountInfoNoLock oenv GET_NEXT_MOUNT (w, l) = (if \<not> oe_agentSet oenv then (Inl (CtaException ''AgentNotSet''), (w, l))
        else case fst (fetchMountInfo oenv re GET_NEXT_MOUNT mi_new w) of Inl e \<Rightarrow> (Inl e, (w, l)) | Inr mi \<Rightarrow> (Inr mi, (w, None)))"
    using getMountInfo_at [OF lock, of oenv l] by blast
  obtain mi where mi: "oe_agentSet oenv" "fst (fetchMountInfo oenv re GET_NEXT_MOUNT mi_new w) = Inr mi"
    using dry ll g(2) by (auto simp: getNextMountDryRun_def ostore_db_def bnd_def split: if_splits sum.splits)
  then have info: "getMountInfo oenv (w, l) = (Inr mi, (w, Some dl))" "getMountInfoNoLock oenv GET_NEXT_MOUNT (w, l) = (Inr mi, (w, None))"
    using g by simp_all
  have db: "db_getMountInfo (ostore_db oenv) (w, l) = (Inr mi, (w, Some dl))" "db_getMountInfoNoLock (ostore_db oenv) (w, l) = (Inr mi, (w, None))"
    using info by (simp_all add: ostore_db_def)
  have types: "\<forall>m \<in> set (mi_potentialMounts mi). mountable (pm_type m)" and exist: "length (mi_existingOrNextMounts mi) < 2 ^ 32"
    using fetchMountInfo_mountable [of oenv re GET_NEXT_MOUNT w mi "snd (fetchMountInfo oenv re GET_NEXT_MOUNT mi_new w)"] mi(2) few
    by (simp_all add: prod_eq_iff, fastforce)
  define w1 where "w1 = (if mi_queueTrimRequired mi then snd (trimEmptyQueues w) else w)"
  have trimmed: "mi_queueTrimRequired mi \<longrightarrow> db_trimEmptyQueues (ostore_db oenv) (w, Some dl) = (Inr (), (w1, Some dl))"
    using trim info(2) by (simp add: ostore_db_def in_store_def w1_def split: prod.split) (metis fst_conv snd_conv)
  have "lock_at w1 a n" using lock trimEmptyQueues_keeps [OF lock, of "fst (trimEmptyQueues w)" "snd (trimEmptyQueues w)"] by (simp add: w1_def)
  then have dl1: "holds_decision w1 a n dl" using dl by (simp add: holds_decision_def)
  have at: "(if mi_queueTrimRequired mi then (w1, Some dl) else (w, Some dl)) = (w1, Some dl)" by (simp add: w1_def)
  have creates: "creates_at (ostore_db oenv) (if mi_queueTrimRequired mi then (w1, Some dl) else (w, Some dl))" unfolding at by (rule holds_creates [OF dl1])
  from dry_run_agrees [OF assms(1) exist types creates db trimmed dry ll] obtain r d' where
    r: "getNextMount env (ostore_db oenv) lib drive (w, l) = (Inr r, d')" "b \<longleftrightarrow> r \<noteq> None"
    "\<forall>mount. r = Some mount \<longrightarrow> (\<exists>mi' sm m. sortAndGetTapesForMountInfo env lib drive mi ms_empty = Inr (mi', sm)
       \<and> m \<in> set (mi_potentialMounts mi') \<and> made env (ostore_db oenv) lib drive sm m mount (w1, Some dl) d'
       \<and> (\<forall>m' \<in> set (mi_potentialMounts mi'). could_mount sm m' \<longrightarrow> \<not> pm_less m m'))"
    unfolding at by (elim exE conjE)
  obtain w' l' where d': "d' = (w', l')" by (cases d')
  have "s = (w, None)" using dry ll db(2) by (auto simp: getNextMountDryRun_def bnd_def liftr_def split: sum.splits)
  moreover have "mount_number mount = n \<and> lock_at w' a (n + 1) \<and>
      (\<exists>mi mi' sm m d. getMountInfoNoLock oenv GET_NEXT_MOUNT (w, l) = (Inr mi, (w, None))
         \<and> sortAndGetTapesForMountInfo env lib drive mi ms_empty = Inr (mi', sm)
         \<and> m \<in> set (mi_potentialMounts mi') \<and> made env (ostore_db oenv) lib drive sm m mount d (w', l')
         \<and> (\<forall>m' \<in> set (mi_potentialMounts mi'). could_mount sm m' \<longrightarrow> \<not> pm_less m m'))" if some: "r = Some mount" for mount
  proof -
    obtain mi' sm m where best: "sortAndGetTapesForMountInfo env lib drive mi ms_empty = Inr (mi', sm)" "m \<in> set (mi_potentialMounts mi')"
      "made env (ostore_db oenv) lib drive sm m mount (w1, Some dl) (w', l')" "\<forall>m' \<in> set (mi_potentialMounts mi'). could_mount sm m' \<longrightarrow> \<not> pm_less m m'"
      using mp [OF spec [OF r(3)] some] unfolding d' by (elim exE conjE)
    from made_number [OF dl1 best(3)] have "mount_number mount = n" "lock_at w' a (n + 1)" by simp_all
    then show ?thesis by (intro conjI exI [of _ mi] exI [of _ mi'] exI [of _ sm] exI [of _ m] exI [of _ "(w1, Some dl)"] info(2) best)
  qed
  ultimately show ?thesis using r(1,2) unfolding d' by (intro conjI exI [of _ r] exI [of _ w'] exI [of _ l'] allI impI) simp_all
qed

text \<open>A store with the queue \<open>Q\<close> of two jobs, the root entry with the pointers and the scheduler's lock.\<close>

definition exd_root :: root_entry where
  "exd_root = sma_root\<lparr>re_schedulerlockpointer := Some (exm_pointer ''lock''), re_driveregisterpointer := Some (exm_pointer ''drives'')\<rparr>"

definition exd_world :: world where
  "exd_world = sma_world\<lparr>objects := (objects sma_world)(''root'' \<mapsto> smp_header (Payload_RootEntry exd_root),
       ''lock'' \<mapsto> smp_header (Payload_SchedulerGlobalLock \<lparr>sgl_nextmountid = 7\<rparr>)),
     lockFiles := (\<lambda>n. n = ''lock'' \<or> lockFiles sma_world n)\<rparr>"

definition exd_env :: mount_env where
  "exd_env = ex_env\<lparr>me_getTapesForWriting := (\<lambda>lib. Inr [(ex_tape ''V2'')\<lparr>tfw_tapePool := ''pool''\<rparr>])\<rparr>"

lemma exd_stored: "stored re_c exd_world re_address exd_root" "stored sgl_c exd_world ''lock'' \<lparr>sgl_nextmountid = 7\<rparr>"
  "stored aq_c exd_world ''Q'' smp_payload"
  by (simp_all add: stored_def exd_world_def sma_world_def smp_world_def smp_header_def codec_defs re_address_def)

lemma exd_lock_at: "lock_at exd_world ''lock'' 7"
  unfolding lock_at_def using exd_stored(1,2) by (intro exI [of _ exd_root]) (simp add: exd_root_def exm_pointer_def)

text \<open>What the decision sees: one candidate, for the two jobs of the queue.\<close>

lemma exd_info:
  "\<exists>mi m. getMountInfoNoLock ex_ostore_env GET_NEXT_MOUNT (exd_world, None) = (Inr mi, (exd_world, None)) \<and> mi_potentialMounts mi = [m]
     \<and> \<not> mi_queueTrimRequired mi \<and> mi_existingOrNextMounts mi = [] \<and> pm_type m = ArchiveForUser \<and> pm_tapePool m = ''pool''
     \<and> \<not> pm_sleepingMount m \<and> pm_filesQueued m = 2"
proof -
  obtain re where re: "checkPayloadReadable re = Inr ()" "stored re_c exd_world re_address (oo_payload re)"
    "getMountInfoNoLock ex_ostore_env GET_NEXT_MOUNT (exd_world, None) = (if \<not> oe_agentSet ex_ostore_env then (Inl (CtaException ''AgentNotSet''), (exd_world, None))
        else case fst (fetchMountInfo ex_ostore_env re GET_NEXT_MOUNT mi_new exd_world) of Inl e \<Rightarrow> (Inl e, (exd_world, None)) | Inr mi \<Rightarrow> (Inr mi, (exd_world, None)))"
    using getMountInfo_at [OF exd_lock_at, of ex_ostore_env None] by blast
  have root: "oo_payload re = exd_root" using re(2) exd_stored(1) by (auto simp: stored_def codec_defs)
  have ptrs: "archiveQueuePointers JobsToTransferForUser exd_root = [\<lparr>aqp_address = ''Q'', aqp_name = ''pool''\<rparr>]"
    "archiveQueuePointers JobsToTransferForRepack exd_root = []" "retrieveQueuePointers JobsToTransferForUser exd_root = []"
    by (simp_all add: exd_root_def sma_root_def re_empty_def)
  have "aq_rep smp_payload smp_view" using smp_inv by (simp add: aq_inv_def smp_queue_def)
  moreover have "view_jobs smp_view \<noteq> []" by (simp add: smp_view_def)
  ultimately obtain m where m: "add_archive_queue ex_policies ArchiveForUser mi_new \<lparr>aqp_address = ''Q'', aqp_name = ''pool''\<rparr> exd_world
      = (Inr (add_candidates [m] mi_new), exd_world)" "stands_for ex_policies ArchiveForUser ''pool'' (view_jobs smp_view) m"
    using add_archive_queue_stored [of exd_world "\<lparr>aqp_address = ''Q'', aqp_name = ''pool''\<rparr>" smp_payload smp_view ex_policies ArchiveForUser mi_new] exd_stored(3) by auto
  have "fst (fetchMountInfo ex_ostore_env re GET_NEXT_MOUNT mi_new exd_world) = Inr (add_candidates [m] mi_new)"
    using re(1) m(1) by (simp add: fetchMountInfo_def ex_ostore_env_def re_dumpArchiveQueues_def re_dumpRetrieveQueues_def root ptrs [simplified])
  moreover have "length (view_jobs smp_view) = 2" by (simp add: smp_view_def)
  ultimately show ?thesis using re(3) m(2)
    by (intro exI [of _ "add_candidates [m] mi_new"] exI [of _ m]) (simp add: ex_ostore_env_def add_candidates_def mi_new_def stands_for_def)
qed

lemma exd_dry: "getNextMountDryRun exd_env (ostore_db ex_ostore_env) ''L'' ''D1'' (exd_world, None) = (Inr True, (exd_world, None))"
proof -
  obtain mi m where mi: "getMountInfoNoLock ex_ostore_env GET_NEXT_MOUNT (exd_world, None) = (Inr mi, (exd_world, None))" "mi_potentialMounts mi = [m]"
    "mi_existingOrNextMounts mi = []" "pm_type m = ArchiveForUser" "pm_tapePool m = ''pool''" "\<not> pm_sleepingMount m" "pm_filesQueued m = 2"
    using exd_info by blast
  have "\<exists>mi' s. sortAndGetTapesForMountInfo exd_env ''L'' ''D1'' mi ms_empty = Inr (mi', s) \<and> (\<exists>m \<in> set (mi_potentialMounts mi'). could_mount s m)"
    using mi(2-7) by (simp add: sortAndGetTapesForMountInfo_def exd_env_def ex_env_def tapepool_vos_def sliced_def mount_stays_def warranted_def Let_def
        getMountBasicType_def max_drives_def ms_empty_def mc_at_def could_mount_def ex_tape_def)
  moreover have "getLogicalLibrary exd_env ''L'' = Inr (Some \<lparr>ll_name = ''L'', ll_isDisabled = False\<rparr>)"
    by (simp add: getLogicalLibrary_def exd_env_def ex_env_def)
  ultimately show ?thesis using mi(1) by (auto simp: getNextMountDryRun_def ostore_db_def bnd_def)
qed

theorem getNextMount_dry_run_witness:
  "getNextMountDryRun exd_env (ostore_db ex_ostore_env) ''L'' ''D1'' (exd_world, None) = (Inr True, (exd_world, None))
   \<and> (\<exists>mount w' l'. getNextMount exd_env (ostore_db ex_ostore_env) ''L'' ''D1'' (exd_world, None) = (Inr (Some mount), (w', l'))
        \<and> mount_number mount = 7 \<and> lock_at w' ''lock'' 8)"
proof -
  have srt: "sorts (me_sort exd_env)" using ex_env_sorts by (simp add: exd_env_def)
  have few: "\<forall>drives. oe_getDriveStates ex_ostore_env = Inr drives \<longrightarrow> length drives < 2 ^ 31" by (simp add: ex_ostore_env_def)
  have trim: "\<forall>mi s. getMountInfoNoLock ex_ostore_env GET_NEXT_MOUNT (exd_world, None) = (Inr mi, s) \<and> mi_queueTrimRequired mi
      \<longrightarrow> fst (trimEmptyQueues exd_world) = Inr ()" using exd_info by auto
  obtain r w' l' where r: "getNextMount exd_env (ostore_db ex_ostore_env) ''L'' ''D1'' (exd_world, None) = (Inr r, (w', l'))" "True \<longleftrightarrow> r \<noteq> None"
    "\<forall>mount. r = Some mount \<longrightarrow> mount_number mount = 7 \<and> lock_at w' ''lock'' (7 + 1)"
    using getNextMount_dry_run [OF srt few exd_lock_at trim exd_dry] by blast
  then obtain mount where "r = Some mount" by blast
  with r exd_dry show ?thesis by (intro conjI exI [of _ mount] exI [of _ w'] exI [of _ l']) auto
qed

section \<open>The files of an archive mount\<close>

lemma number_jobs_fseq:
  assumes "number_jobs am js = (jobs, am')" "unat (am_nbFilesCurrentlyOnTape am) + length js < 2 ^ 32"
  shows "map (\<lambda>j. unat (amj_fSeq j)) jobs = [Suc (unat (am_nbFilesCurrentlyOnTape am)) ..< Suc (unat (am_nbFilesCurrentlyOnTape am) + length js)]
    \<and> am' = am\<lparr>am_nbFilesCurrentlyOnTape := am_nbFilesCurrentlyOnTape am + of_nat (length js)\<rparr>
    \<and> map amj_address jobs = map apo_archiveRequest js
    \<and> (\<forall>j \<in> set jobs. amj_vid j = am_vid am \<and> amj_mountId j = am_mountId am \<and> amj_tapePool j = am_tapePool am)"
  using assms
proof (induction js arbitrary: am jobs am')
  case (Cons j js)
  let ?n = "am_nbFilesCurrentlyOnTape am + 1"
  obtain jobs' where jobs': "number_jobs (am\<lparr>am_nbFilesCurrentlyOnTape := ?n\<rparr>) js = (jobs', am')" "jobs = mount_job am ?n j # jobs'"
    using Cons.prems(1) by (auto simp: Let_def split: prod.splits)
  have n: "unat ?n = Suc (unat (am_nbFilesCurrentlyOnTape am))" using Cons.prems(2) by (simp add: unat_word_ariths)
  have "unat ?n + length js < 2 ^ 32" using Cons.prems(2) n by simp
  with Cons.IH [OF jobs'(1)] have IH: "map (\<lambda>j. unat (amj_fSeq j)) jobs' = [Suc (unat ?n) ..< Suc (unat ?n + length js)]"
    "am' = am\<lparr>am_nbFilesCurrentlyOnTape := ?n + of_nat (length js)\<rparr>" "map amj_address jobs' = map apo_archiveRequest js"
    "\<forall>j \<in> set jobs'. amj_vid j = am_vid am \<and> amj_mountId j = am_mountId am \<and> amj_tapePool j = am_tapePool am" by simp_all
  let ?k = "unat (am_nbFilesCurrentlyOnTape am)"
  have "[Suc ?k ..< Suc (?k + length (j # js))] = Suc ?k # [Suc (Suc ?k) ..< Suc (?k + length (j # js))]" by (rule upt_conv_Cons) simp
  then show ?case using IH n by (simp add: jobs'(2) mount_job_def unat_ucast_u64 add.assoc)
qed simp

text \<open>
  C24. A batch of an archive mount for users, whose queue is in agreement with its shards, each of which holds a job, with jobs of distinct
  requests, or is not there; the list of the agent is in the store. \<open>getNextJobBatch\<close> returns. Every job that belongs to the queue of the pool is
  in the batch or still referenced by the queue, and the batch has only jobs of that queue, each once. The files of the
  batch are on the tape of the mount and have the positions that follow the files on the tape, without gaps, and the mount
  counts them, so that the next batch goes on from there; the jobs have the number of the mount. The counter of the mount has 32
  bits, and the positions are right as long as it does not wrap.
\<close>
theorem archive_batch_numbered:
  assumes "aq_avail JobsToTransferForUser (am_tapePool am) ca w refs" and "distinct (map fst refs)" and "agent_owns w S" and "length refs < fuel"
    and "am_queueType am = JobsToTransferForUser" and "unat (am_nbFilesCurrentlyOnTape am) + length refs < 2 ^ 32"
  shows "\<exists>jobs am' w' refs' S'. am_getNextJobBatch fuel (Suc attempts) now filesRequested bytesRequested am w = (Inr (jobs, am'), w')
    \<and> aq_avail JobsToTransferForUser (am_tapePool am) ca w' refs' \<and> agent_owns w' S'
    \<and> set refs' \<subseteq> set refs \<and> distinct (map amj_address jobs) \<and> amj_address ` set jobs \<subseteq> fst ` set refs
    \<and> (\<forall>(a, c) \<in> set refs. ar_owner_of w a c = Some ca \<longrightarrow> (a, c) \<in> set refs' \<or> a \<in> amj_address ` set jobs)
    \<and> map (\<lambda>j. unat (amj_fSeq j)) jobs = [Suc (unat (am_nbFilesCurrentlyOnTape am)) ..< Suc (unat (am_nbFilesCurrentlyOnTape am) + length jobs)]
    \<and> (\<forall>j \<in> set jobs. amj_vid j = am_vid am \<and> amj_mountId j = am_mountId am)
    \<and> am' = am\<lparr>am_nbFilesCurrentlyOnTape := am_nbFilesCurrentlyOnTape am + of_nat (length jobs)\<rparr>"
proof -
  obtain N s w' refs' S' where r: "popNextBatch fuel (ArchiveQueueToTransferForUser (Suc attempts) now) (am_tapePool am)
      \<lparr>pa_files = filesRequested, pa_bytes = bytesRequested\<rparr> w = (Inr (N, s), w')"
    "aq_avail JobsToTransferForUser (am_tapePool am) ca w' refs'" "agent_owns w' S'"
    "pop_effect (\<lambda>e. popped_key e) archive_job_owner ca (agentAddress w) w refs S w' refs' S' N"
    using to_transfer.popped_batch [OF assms(1-3) refl assms(4), of attempts now "\<lparr>pa_files = filesRequested, pa_bytes = bytesRequested\<rparr>"] by (elim exE conjE)
  then have N: "set refs' \<subseteq> set refs" "distinct (map apo_archiveRequest N)" "apo_archiveRequest ` set N \<subseteq> fst ` set refs"
    "\<forall>(a, c) \<in> set refs. ar_owner_of w a c = Some ca \<longrightarrow> (a, c) \<in> set refs' \<or> a \<in> apo_archiveRequest ` set N"
    unfolding pop_effect_def by (auto intro: rev_image_eqI)
  have "length N = card (apo_archiveRequest ` set N)" using distinct_card [OF N(2)] by simp
  also have "\<dots> \<le> card (fst ` set refs)" using N(3) by (intro card_mono) auto
  also have "\<dots> = length refs" using distinct_card [OF assms(2)] by simp
  finally have "unat (am_nbFilesCurrentlyOnTape am) + length N < 2 ^ 32" using assms(6) by simp
  moreover obtain jobs am' where n: "number_jobs am N = (jobs, am')" by force
  ultimately have num: "map (\<lambda>j. unat (amj_fSeq j)) jobs = [Suc (unat (am_nbFilesCurrentlyOnTape am)) ..< Suc (unat (am_nbFilesCurrentlyOnTape am) + length N)]"
    "am' = am\<lparr>am_nbFilesCurrentlyOnTape := am_nbFilesCurrentlyOnTape am + of_nat (length N)\<rparr>" "map amj_address jobs = map apo_archiveRequest N"
    "\<forall>j \<in> set jobs. amj_vid j = am_vid am \<and> amj_mountId j = am_mountId am" using number_jobs_fseq [OF n] by simp_all
  have same: "length jobs = length N" "amj_address ` set jobs = apo_archiveRequest ` set N"
    using num(3) by (metis length_map, metis list.set_map)
  have "am_getNextJobBatch fuel (Suc attempts) now filesRequested bytesRequested am w = (Inr (jobs, am'), w')"
    using r(1) n assms(5) by (simp add: am_getNextJobBatch_def ret_def)
  with r(2,3) N num same show ?thesis
    by (intro exI [of _ jobs] exI [of _ am'] exI [of _ w'] exI [of _ refs'] exI [of _ S'] conjI) simp_all
qed

definition ex_mount :: archive_mount where
  "ex_mount = \<lparr>am_queueType = JobsToTransferForUser, am_nbFilesCurrentlyOnTape = 41, am_vid = ''V2'', am_logicalLibrary = ''L'', am_tapePool = ''pool'',
     am_vo = ''VO'', am_mediaType = '''', am_vendor = '''', am_drive = ''D1'', am_host = ''host'', am_mountId = 7, am_capacityInBytes = 1000,
     am_labelFormat = 0, am_mountType = ArchiveForUser\<rparr>"

theorem archive_batch_numbered_witness:
  "\<exists>jobs am' w'. am_getNextJobBatch 3 1 0 5 1000 ex_mount sma_world = (Inr (jobs, am'), w')
     \<and> map (\<lambda>j. unat (amj_fSeq j)) jobs = [42 ..< 42 + length jobs] \<and> amj_vid ` set jobs \<subseteq> {''V2''} \<and> amj_mountId ` set jobs \<subseteq> {7}"
proof -
  have "distinct (map fst sma_refs)" "length sma_refs < 3" "am_queueType ex_mount = JobsToTransferForUser"
    "unat (am_nbFilesCurrentlyOnTape ex_mount) + length sma_refs < 2 ^ 32" by (simp_all add: ex_mount_def)
  moreover have "aq_avail JobsToTransferForUser (am_tapePool ex_mount) ''Q'' sma_world sma_refs" using sma_avail by (simp add: ex_mount_def)
  ultimately obtain jobs am' w' where "am_getNextJobBatch 3 (Suc 0) 0 5 1000 ex_mount sma_world = (Inr (jobs, am'), w')"
    "map (\<lambda>j. unat (amj_fSeq j)) jobs = [Suc (unat (am_nbFilesCurrentlyOnTape ex_mount)) ..< Suc (unat (am_nbFilesCurrentlyOnTape ex_mount) + length jobs)]"
    "\<forall>j \<in> set jobs. amj_vid j = am_vid ex_mount \<and> amj_mountId j = am_mountId ex_mount"
    using archive_batch_numbered [of ex_mount "''Q''" sma_world sma_refs "{''R3'', ''R4''}" 3 0 0 5 1000] sma_agent_owns by blast
  then show ?thesis by (intro exI [of _ jobs] exI [of _ am'] exI [of _ w']) (auto simp: ex_mount_def)
qed

end
