(* ===== verification/Spec2Isabelle.thy ===== *)
theory Spec2Isabelle
  imports ArchiveQueueProperties StoreProperties RequestProperties RetrieveQueueProperties RootEntryProperties
    HelpersProperties AlgorithmProperties RepackProperties SelectionProperties SorterProperties RepackQueueAlgorithms
    CollectorProperties WatchProperties MountProperties OStoreProperties
begin

text \<open>
  CTA, the CERN Tape Archive: the object store that keeps its queues and requests.

  The scheduler of CTA keeps what is to be done in an object store shared by all its processes. A user's
  demand is an archive request or a retrieve request, with one job per tape copy; the jobs waiting for
  the same tape pool or tape are listed in a queue, which is split in shards; every object has an owner,
  a queue or the agent of a process. The code is under \<open>src/objectstore\<close>. The theories follow its parts,
  from the store upwards:

  \<^item> \<open>CtaPrelude\<close>: exceptions as values, programs that change the state of the world and may throw, loops over lists,
    decimal numbers in names.
  \<^item> \<open>ValueCountMap\<close> (\<open>ValueCountMap.hpp\<close>, \<open>RetrieveActivityCountMap.cpp\<close>): the counters a queue keeps for priorities,
    ages, policy names and activities. A counter map represents a multiset; the locale \<open>counter_map\<close> states it and
    both kinds of maps interpret it.
  \<^item> \<open>Serializers\<close> (\<open>cta.proto\<close>): the messages as records. The wire format is left to protobuf: the payload of
    an object header is a tagged value, and a codec says how a class reads and writes its own kind.
  \<^item> \<open>BackendVFS\<close> (\<open>BackendVFS.cpp\<close>, \<open>AgentReference.cpp\<close>): the store as a map from names to objects, with the lock
    files; the locale \<open>backend\<close> is the contract of \<open>Backend.hpp\<close>, interpreted on the file system backend. The names
    of new objects come from the agent reference of the process.
  \<^item> \<open>ObjectOps\<close> (\<open>ObjectOps.hpp\<close>): the image of an object in memory with its flags, the scoped locks, insertion,
    fetch, commit and removal, and the checks that refuse an operation in the wrong state.
  \<^item> \<open>JobShard\<close>: what the shards of both kinds of queues have in common, removal of jobs by address and the
    selection of candidates, with the locale \<open>job_shard\<close> interpreted by both. \<open>ArchiveQueueShard\<close> and
    \<open>RetrieveQueueShard\<close> hold the operations of the two classes.
  \<^item> \<open>ArchiveQueue\<close> (\<open>ArchiveQueue.cpp\<close>): all the operations of the queue on the world. \<open>ArchiveQueueSpec\<close> defines
    when a queue and its shards on the store are good and the list of jobs they stand for, and relates the
    rebuild and the commit to it; \<open>ArchiveQueueOps\<close> does addition and removal.
  \<^item> \<open>RetrieveQueue\<close> (\<open>RetrieveQueue.cpp\<close>): the operations of the queue sorted by position on tape, with the plan of an
    addition over shards, the splitting of shards and the execution of the plan. \<open>RetrieveQueuePlan\<close> shows that the
    plan keeps every job once and the ranges of the shards in order; \<open>RetrieveQueueSpec\<close> defines when a retrieve
    queue and its shards are good and relates the execution of each entry of a plan to it; \<open>RetrieveQueueOps\<close> puts
    the entries together to the addition, and relates the choice of candidates to the order of the tape through
    the locale \<open>candidate_queue\<close>, which the archive queue interprets as well.
  \<^item> \<open>StdMap\<close>: \<open>std::map\<close> as a sorted association list. \<open>ArchiveRequest\<close> and \<open>RetrieveRequest\<close>: the requests, the
    life of their jobs, the changes of owner and the transformation of a repack retrieve into an archive.
  \<^item> \<open>Agent\<close> (\<open>Agent.cpp\<close>, \<open>AgentRegister.cpp\<close>, \<open>AgentWatchdog.hpp\<close>, \<open>ProtocolBuffersAlgorithms.hpp\<close>): the agents of
    the processes with the objects they own, their register and the watch on their heartbeats. \<open>AgentReference\<close>
    (\<open>AgentReference.cpp\<close>): the batches in which the threads of a process change its agent, as a step relation.
  \<^item> \<open>Registers\<close> (\<open>DriveRegister.cpp\<close>, \<open>SchedulerGlobalLock.cpp\<close>, \<open>RepackQueue.cpp\<close>, \<open>RepackIndex.cpp\<close>): the small
    objects the root entry points to. \<open>RootEntry\<close> (\<open>RootEntry.cpp\<close>): the directory of the store, with the operations of
    other classes that start from it. \<open>QueueDirectory\<close>: the locale \<open>pointer_lists\<close> states that its lists of queue
    pointers behave as a finite map, for both kinds of queues, and gives the addition and the removal of archive queues.
  \<^item> \<open>Helpers\<close> (\<open>Helpers.cpp\<close>): finding a queue through the root entry, creating it when there is none, locking it.
  \<^item> \<open>Algorithms\<close> (\<open>Algorithms.hpp\<close>): the template \<open>ContainerAlgorithms\<close> over a record of container traits;
    \<open>ArchiveQueueAlgorithms\<close> (\<open>ArchiveQueueAlgorithms.hpp\<close> and the \<open>Archive*Algorithms.cpp\<close>): the traits of the
    archive queues. \<open>ContainerSpec\<close> and \<open>PopSpec\<close> state what the algorithms rely on, as the locales
    \<open>job_ownership\<close> (the change of the owner of a job), \<open>container\<close> and \<open>pop_container\<close>, and prove in them what
    putting requests in a container and popping them does; \<open>ArchiveContainer\<close> and \<open>ArchivePop\<close> interpret them on the
    archive queues, with the requests, the root entry and the agent of the models above.
  \<^item> \<open>RepackRequest\<close> (\<open>RepackRequest.cpp\<close>, \<open>AgentWrapper.cpp\<close>): the request to repack a tape, the accounting of the
    reports on its sub-requests and its status. \<open>RepackProperties\<close> states a kind of reports as the locale
    \<open>accounting\<close>, interpreted by the four kinds.
  \<^item> \<open>RetrieveQueueSelection\<close> (\<open>Helpers::selectBestRetrieveQueue\<close>): the choice of the tape to retrieve from, with the cache of
    statistics, a part of the state beside the world. The catalogue, the random index and what other threads do
    to the cache while its mutex is released are parameters.
  \<^item> \<open>RetrieveQueueAlgorithms\<close> and \<open>RepackQueueAlgorithms\<close> (the headers of these names): the container traits of the retrieve
    and repack queues. \<open>Sorter\<close> (\<open>Sorter.cpp\<close>): jobs gathered per queue and put in it together, with a promise for each.
  \<^item> \<open>RequestCollection\<close>: \<open>garbageCollect\<close> of archive queues, archive requests and retrieve requests, and \<open>GenericObject.cpp\<close>,
    which dispatches it. \<open>GarbageCollector\<close> (\<open>GarbageCollector.cpp\<close>, \<open>AgentHeartbeatThread.cpp\<close>): watching the agents,
    taking over a dead one and giving back its objects, and the heartbeat that keeps an agent alive.
  \<^item> \<open>MountDecision\<close> (\<open>scheduler/Scheduler.cpp\<close>, \<open>SchedulerDatabase.hpp\<close>, \<open>MountType.cpp\<close>): the choice of the next mount of a
    drive, with its dry run, and the list of the mounts that could be done in every library. The catalogue, the clock and \<open>std::sort\<close>
    are in the record \<open>mount_env\<close>, the database interface is the record \<open>scheduler_db\<close>. \<open>OStoreDB\<close> (\<open>scheduler/OStoreDB/OStoreDB.cpp\<close>):
    that interface over the object store, as far as mounts are decided, created and served with files to archive: the candidates
    made from the queues and the drives, the trimming of empty queues, the mount numbers, the batches of an archive mount.
    \<open>SchedulerLock\<close>: rules for what these programs keep of the scheduler's lock, its counter and the pointers to it.

  The properties are in \<open>StoreProperties\<close> (counters, names, atomic updates, and clients that
  lock, read with and without a lock, write and remove an object), \<open>ArchiveQueueProperties\<close> (the
  queue refines a first-in first-out list of jobs with exact summaries, down to the contents of each shard, repairs itself, and every queue reached by
  additions, removals and commits is good), \<open>RetrieveQueueProperties\<close> (the queue refines the jobs in the order of the tape, the plan is total,
  the two ways to fill a shard agree), \<open>RequestProperties\<close> (retries are bounded, one report per request of a user and one per copy of a repack,
  changes of owner), \<open>RootEntryProperties\<close> (the actions of threads take effect in order, registration of
  agents, the directory of queues, creation and collection of registers), \<open>HelpersProperties\<close> (a queue is always
  obtained), \<open>AlgorithmProperties\<close> (no request is lost when it is queued or popped; when popping ends, and the queue on which it does not),
  \<open>RepackProperties\<close> (every report is accounted once and the status follows, a file keeps its sub-request),
  \<open>SelectionProperties\<close> (the selection gives a candidate; what an error of the catalogue leaves behind), \<open>SorterProperties\<close>
  (a flushed list is in its queue, and which promises are kept), \<open>CollectorProperties\<close> (the locale \<open>collecting_container\<close>
  for references added where they are missing, and the batches of archive jobs of a dead agent), \<open>WatchProperties\<close>
  (a pass over live agents takes nothing and watches the right ones), \<open>MountProperties\<close> (the order of the mounts is a
  strict weak order, a mount that is made is warranted by its queue, keeps the quotas and takes a free tape) and
  \<open>OStoreProperties\<close> (the candidates stand for the jobs of their queues, no two mounts have the same number, whatever the
  order of the decisions, failed creations and releases of the processes, the dry run agrees with the real decision, and the files of a
  batch follow each other on the tape).

  State and effects. A program takes the world and returns an exception or a value, with the new world,
  which keeps the changes made before an exception. Integers are words of the width of the source; a
  \<open>time_t\<close> is compared as the source compares it. Objects in memory are passed explicitly; a lock that
  covers sub-objects is passed with its object. The lists of a shard or a queue are HOL lists; a read of
  the first element of an empty repeated field is the exception \<open>Segfault\<close>.

  Bounds. The rounds of an addition and of a removal are counted by fuel computed from the arguments (one
  more round than jobs to add, as many rounds as shards to visit); the theorems on these operations show
  the result, so the fuel is enough. The bisection in a retrieve shard has fuel from the size of the shard,
  shown to be enough. The loops of \<open>popNextBatch\<close> and of the search for a queue have no bound in the source and
  take fuel as an argument; more fuel than references, and one retry, are shown to be enough, and no fuel is enough for \<open>popNextBatch\<close> on a queue
  that has shards without jobs. The loops that flush a sorter
  have the number of its lists as fuel, each round takes one list out.

  Not modelled: concurrency inside one operation (the store is locked by the operations themselves; the
  steps of clients between them are step relations in \<open>StoreProperties\<close>, \<open>ArchiveQueueProperties\<close> and \<open>OStoreProperties\<close>),
  failures of the file system, the Ceph backend (a third-party library), JSON dumps and logging. Outside the object store:
  the rest of the scheduler and of \<open>OStoreDB\<close> (user requests, reports, repack expansion, retrieve mounts); the catalogue, which is SQL run by a
  database server; the tape server, threads around drives and SCSI devices; and the command line tools.
\<close>

end
